(* ===== verification/Prelude.thy ===== *)
theory Prelude
  imports Complex_Main "HOL-Library.Multiset"
begin

text \<open>
  Shared material of the development: results with error values, the tables of the database and
  the operations the services perform on them, exact decimals with the rounding modes the services
  use, the string operations they use, and two interfaces (a table of rows with an identity, and an
  idempotent command) whose lemmas every component instantiates.
\<close>

named_theorems row_simps \<open>selectors of updated rows\<close>
named_theorems op_defs \<open>definitions that an operation unfolds to\<close>

section \<open>Results\<close>

text \<open>
  An operation that may raise returns \<^theory_text>\<open>'e + 'a\<close>: the exception on the left, the value on the
  right. A database transaction returns the new database on the right; on the left there is none,
  since every service rolls back before it lets an exception out.
\<close>

definition ensure :: "bool \<Rightarrow> 'e \<Rightarrow> 'e + unit" where
  "ensure b e = (if b then Inr () else Inl e)"

fun bind_result :: "'e + 'a \<Rightarrow> ('a \<Rightarrow> 'e + 'b) \<Rightarrow> 'e + 'b" where
  "bind_result (Inl e) f = Inl e"
| "bind_result (Inr a) f = f a"

lemma bind_result_Inr_iff:
  "bind_result r f = Inr b \<longleftrightarrow> (\<exists>a. r = Inr a \<and> f a = Inr b)"
  by (cases r) auto

lemma bind_result_Inl_iff:
  "bind_result r f = Inl e \<longleftrightarrow> r = Inl e \<or> (\<exists>a. r = Inr a \<and> f a = Inl e)"
  by (cases r) auto

lemma ensure_Inr_iff [simp]: "ensure b e = Inr u \<longleftrightarrow> b"
  by (simp add: ensure_def)

lemma ensure_Inl_iff [simp]: "ensure b e = Inl e' \<longleftrightarrow> \<not> b \<and> e' = e"
  by (auto simp: ensure_def)

lemma ensure_True [simp]: "ensure True e = Inr ()"
  and ensure_False [simp]: "ensure False e = Inl e"
  by (simp_all add: ensure_def)

section \<open>Tables\<close>

text \<open>
  A table is the list of its rows in insertion order; \<^theory_text>\<open>rid\<close> reads the primary key. A new row gets
  a key above every key in use, as an AUTO_INCREMENT column gives it. The attribute assignments the
  services make on a loaded row are \<^theory_text>\<open>modify\<close>.
\<close>

definition find_row :: "('r \<Rightarrow> int) \<Rightarrow> int \<Rightarrow> 'r list \<Rightarrow> 'r option" where
  "find_row rid i rows = List.find (\<lambda>r. rid r = i) rows"

definition next_id :: "('r \<Rightarrow> int) \<Rightarrow> 'r list \<Rightarrow> int" where
  "next_id rid rows = foldr max (map rid rows) 0 + 1"

definition modify :: "('r \<Rightarrow> int) \<Rightarrow> int \<Rightarrow> ('r \<Rightarrow> 'r) \<Rightarrow> 'r list \<Rightarrow> 'r list" where
  "modify rid i f rows = map (\<lambda>r. if rid r = i then f r else r) rows"

definition modify_where :: "('r \<Rightarrow> bool) \<Rightarrow> ('r \<Rightarrow> 'r) \<Rightarrow> 'r list \<Rightarrow> 'r list" where
  "modify_where P f rows = map (\<lambda>r. if P r then f r else r) rows"

definition order_by :: "('r \<Rightarrow> int) \<Rightarrow> 'r list \<Rightarrow> 'r list" where
  "order_by k rows = sort_key k rows"

definition sum_by :: "('r \<Rightarrow> rat) \<Rightarrow> 'r list \<Rightarrow> rat" where
  "sum_by g rows = sum_list (map g rows)"

lemma next_id_above: "r \<in> set rows \<Longrightarrow> rid r < next_id rid rows"
proof (induction rows)
  case (Cons a rows)
  then show ?case by (fastforce simp: next_id_def max_def)
qed simp

lemma next_id_fresh: "next_id rid rows \<notin> rid ` set rows"
  using next_id_above[of _ rows rid] by fastforce

lemma next_id_positive: "0 < next_id rid rows"
proof -
  have "0 \<le> foldr max (map rid rows) 0"
    by (induction rows) auto
  then show ?thesis by (simp add: next_id_def)
qed

lemma find_row_Some_iff:
  assumes "distinct (map rid rows)"
  shows "find_row rid i rows = Some r \<longleftrightarrow> r \<in> set rows \<and> rid r = i"
  using assms
proof (induction rows)
  case (Cons a rows)
  then show ?case by (auto simp: find_row_def image_iff)
qed (simp add: find_row_def)

lemma find_row_SomeD: "find_row rid i rows = Some r \<Longrightarrow> r \<in> set rows \<and> rid r = i"
  unfolding find_row_def by (induction rows) (auto split: if_splits)

lemma find_SomeD: "List.find P rows = Some r \<Longrightarrow> r \<in> set rows \<and> P r"
  by (induction rows) (auto split: if_splits)

lemma find_append:
  "List.find P (xs @ ys) = (case List.find P xs of None \<Rightarrow> List.find P ys | Some r \<Rightarrow> Some r)"
  by (induction xs) auto

lemma find_eq_None_iff: "List.find P rows = None \<longleftrightarrow> (\<forall>r \<in> set rows. \<not> P r)"
  by (induction rows) auto

lemma set_modify: "r \<in> set (modify rid i f rows) \<longleftrightarrow>
    (\<exists>r0 \<in> set rows. r = (if rid r0 = i then f r0 else r0))"
  unfolding modify_def set_map image_iff by blast

lemma set_modify_where: "r \<in> set (modify_where P f rows) \<longleftrightarrow>
    (\<exists>r0 \<in> set rows. r = (if P r0 then f r0 else r0))"
  unfolding modify_where_def set_map image_iff by blast

lemma same_row_if_same_id:
  assumes "distinct (map rid rows)" "a \<in> set rows" "b \<in> set rows" "rid a = rid b"
  shows "a = b"
  using assms by (metis distinct_map inj_on_eq_iff)

lemma set_modify_distinct:
  assumes "distinct (map rid rows)" "s \<in> set rows" "rid s = i"
  shows "t \<in> set (modify rid i f rows) \<longleftrightarrow> (t \<in> set rows \<and> rid t \<noteq> i) \<or> t = f s"
  unfolding set_modify using assms same_row_if_same_id[of rid rows] by metis

lemma modify_ids:
  assumes "\<And>r. rid (f r) = rid r"
  shows "map rid (modify rid i f rows) = map rid rows"
  using assms by (induction rows) (auto simp: modify_def)

lemma modify_where_ids:
  assumes "\<And>r. rid (f r) = rid r"
  shows "map rid (modify_where P f rows) = map rid rows"
  using assms by (induction rows) (auto simp: modify_where_def)

lemma sum_by_Nil [simp]: "sum_by g [] = 0"
  and sum_by_Cons [simp]: "sum_by g (r # rows) = g r + sum_by g rows"
  and sum_by_append [simp]: "sum_by g (rows @ rows') = sum_by g rows + sum_by g rows'"
  by (simp_all add: sum_by_def)

lemma sum_by_nonneg: "(\<And>r. r \<in> set rows \<Longrightarrow> 0 \<le> g r) \<Longrightarrow> 0 \<le> sum_by g rows"
  by (induction rows) (auto intro: add_nonneg_nonneg)

lemma sum_by_cong: "(\<And>r. r \<in> set rows \<Longrightarrow> g r = h r) \<Longrightarrow> sum_by g rows = sum_by h rows"
  by (induction rows) auto

lemma sum_by_mono: "(\<And>r. r \<in> set rows \<Longrightarrow> g r \<le> h r) \<Longrightarrow> sum_by g rows \<le> sum_by h rows"
  by (induction rows) (auto intro: add_mono)

lemma sum_by_modify_id:
  assumes "\<And>r. r \<in> set rows \<Longrightarrow> rid r = i \<Longrightarrow> g (f r) = g r"
  shows "sum_by g (modify rid i f rows) = sum_by g rows"
  using assms by (induction rows) (auto simp: modify_def)

lemma sum_by_modify:
  assumes "distinct (map rid rows)" and "r \<in> set rows" and "rid r = i"
  shows "sum_by g (modify rid i f rows) = sum_by g rows - g r + g (f r)"
  using assms
proof (induction rows)
  case (Cons a rows)
  show ?case
  proof (cases "a = r")
    case True
    with Cons.prems have "\<And>x. x \<in> set rows \<Longrightarrow> rid x \<noteq> i"
      by (auto simp: image_iff)
    then have "modify rid i f rows = rows"
      by (auto simp: modify_def intro!: map_idI)
    with True Cons.prems show ?thesis by (simp add: modify_def)
  next
    case False
    with Cons.prems have "r \<in> set rows" and "rid a \<noteq> i"
      by (auto simp: image_iff)
    with Cons show ?thesis by (simp add: modify_def)
  qed
qed simp

text \<open>An aggregate over the rows that satisfy a condition is a sum with a conditional summand.\<close>

lemma sum_by_filter: "sum_by g (filter P rows) = sum_by (\<lambda>r. if P r then g r else 0) rows"
  by (induction rows) auto

lemma sum_by_sort_key [simp]: "sum_by g (order_by k rows) = sum_by g rows"
proof -
  have "mset (map g (sort_key k rows)) = mset (map g rows)"
    by simp
  then show ?thesis
    unfolding sum_by_def order_by_def by (metis sum_mset_sum_list)
qed

lemma set_order_by [simp]: "set (order_by k rows) = set rows"
  by (simp add: order_by_def)

lemma length_order_by [simp]: "length (order_by k rows) = length rows"
  by (simp add: order_by_def)

text \<open>
  The UNIQUE indexes of a table as one relation between rows: a table is within its constraints when
  every row satisfies the CHECK clauses and no two rows collide. MySQL checks each statement; a
  command that ends in a state outside the constraints has raised IntegrityError on the way.
\<close>

fun collision_free :: "('r \<Rightarrow> 'r \<Rightarrow> bool) \<Rightarrow> 'r list \<Rightarrow> bool" where
  "collision_free col [] = True"
| "collision_free col (r # rows) = (list_all (\<lambda>q. \<not> col r q) rows \<and> collision_free col rows)"

definition table_ok :: "('r \<Rightarrow> bool) \<Rightarrow> ('r \<Rightarrow> 'r \<Rightarrow> bool) \<Rightarrow> 'r list \<Rightarrow> bool" where
  "table_ok ok col rows = (list_all ok rows \<and> collision_free col rows)"

text \<open>The rows a loop of \<^verbatim>\<open>db.add\<close> inserts, with consecutive keys.\<close>

fun new_rows :: "(int \<Rightarrow> 'a \<Rightarrow> 'r) \<Rightarrow> int \<Rightarrow> 'a list \<Rightarrow> 'r list" where
  "new_rows mk i [] = []"
| "new_rows mk i (x # xs) = mk i x # new_rows mk (i + 1) xs"

definition insert_rows :: "('r \<Rightarrow> int) \<Rightarrow> (int \<Rightarrow> 'a \<Rightarrow> 'r) \<Rightarrow> 'a list \<Rightarrow> 'r list \<Rightarrow> 'r list" where
  "insert_rows rid mk xs rows = rows @ new_rows mk (next_id rid rows) xs"

lemma collision_free_append:
  "collision_free col (xs @ ys) \<longleftrightarrow>
     collision_free col xs \<and> collision_free col ys \<and> (\<forall>x \<in> set xs. \<forall>y \<in> set ys. \<not> col x y)"
  by (induction xs) (auto simp: list_all_iff)

lemma collision_freeD:
  assumes "collision_free col rows" and "\<And>a b. col a b = col b a"
    and "a \<in> set rows" "b \<in> set rows" "a \<noteq> b"
  shows "\<not> col a b"
  using assms by (induction rows) (auto simp: list_all_iff)

lemma table_okD:
  assumes "table_ok ok col rows" "r \<in> set rows"
  shows "ok r"
  using assms by (auto simp: table_ok_def list_all_iff)

lemma new_rows_in: "r \<in> set (new_rows mk i xs) \<Longrightarrow> \<exists>j x. i \<le> j \<and> x \<in> set xs \<and> r = mk j x"
proof (induction xs arbitrary: i)
  case (Cons x xs)
  then show ?case
    by (auto dest!: Cons.IH intro: exI[of _ i]) (metis add_increasing2 le_add_same_cancel1 order_trans zero_le_one)+
qed simp

lemma new_rows_has: "x \<in> set xs \<Longrightarrow> \<exists>j. i \<le> j \<and> mk j x \<in> set (new_rows mk i xs)"
proof (induction xs arbitrary: i)
  case (Cons y xs)
  show ?case
  proof (cases "x = y")
    case False
    with Cons obtain j where "i + 1 \<le> j" "mk j x \<in> set (new_rows mk (i + 1) xs)" by auto
    then show ?thesis by (intro exI[of _ j]) auto
  qed auto
qed simp

lemma new_rows_ids:
  assumes "\<And>j x. rid (mk j x) = j"
  shows "distinct (map rid (new_rows mk i xs)) \<and> (\<forall>r \<in> set (new_rows mk i xs). i \<le> rid r)"
  using assms by (induction xs arbitrary: i) (auto, (force | metis add_le_same_cancel1 not_one_le_zero)+)

lemma insert_rows_ids:
  assumes "\<And>j x. rid (mk j x) = j" and "distinct (map rid rows)"
  shows "distinct (map rid (insert_rows rid mk xs rows))"
proof -
  note new = new_rows_ids[of rid mk "next_id rid rows" xs, OF assms(1)]
  have "rid a \<noteq> rid b"
    if "a \<in> set rows" "b \<in> set (new_rows mk (next_id rid rows) xs)" for a b
    using next_id_above[OF that(1), of rid] new that(2) by fastforce
  then show ?thesis
    using assms(2) new by (auto simp: insert_rows_def)
qed

lemma sum_by_new_rows:
  assumes "\<And>j x. g (mk j x) = h x"
  shows "sum_by g (new_rows mk i xs) = sum_by h xs"
  using assms by (induction xs arbitrary: i) auto

lemma sum_by_modify_where:
  "sum_by g (modify_where P f rows) = sum_by (\<lambda>r. if P r then g (f r) else g r) rows"
  by (induction rows) (auto simp: modify_where_def)

lemma filter_modify_where:
  assumes "\<And>r. r \<in> set rows \<Longrightarrow> P r \<Longrightarrow> \<not> Q r \<and> \<not> Q (f r)"
  shows "filter Q (modify_where P f rows) = filter Q rows"
  using assms by (induction rows) (auto simp: modify_where_def)

lemma filter_insert_rows:
  assumes "\<And>j x. \<not> Q (mk j x)"
  shows "filter Q (insert_rows rid mk xs rows) = filter Q rows"
proof -
  have "filter Q (new_rows mk i xs) = []" for i
    using assms by (induction xs arbitrary: i) auto
  then show ?thesis by (simp add: insert_rows_def)
qed

lemma mem_by_filter:
  assumes "filter Q xs = filter Q ys" "Q r"
  shows "r \<in> set xs \<longleftrightarrow> r \<in> set ys"
proof -
  have "r \<in> set (filter Q xs) \<longleftrightarrow> r \<in> set (filter Q ys)" using assms(1) by simp
  then show ?thesis using assms(2) by simp
qed

text \<open>Tables within their constraints.\<close>

lemma table_ok_map:
  assumes "table_ok ok col rows" "\<And>r. r \<in> set rows \<Longrightarrow> ok (g r)" "\<And>a b. col (g a) (g b) = col a b"
  shows "table_ok ok col (map g rows)"
  using assms(1,2)
proof (induction rows)
  case (Cons r rows)
  then have "table_ok ok col (map g rows)" by (simp add: table_ok_def)
  with Cons.prems assms(3) show ?case by (simp add: table_ok_def list_all_iff)
qed (simp add: table_ok_def)

lemma table_ok_modify_where:
  assumes "table_ok ok col rows" "\<And>r. r \<in> set rows \<Longrightarrow> P r \<Longrightarrow> ok (f r)"
    and "\<And>a b. col (if P a then f a else a) (if P b then f b else b) = col a b"
  shows "table_ok ok col (modify_where P f rows)"
  unfolding modify_where_def
proof (rule table_ok_map)
  show "table_ok ok col rows" by (rule assms(1))
  show "ok (if P r then f r else r)" if "r \<in> set rows" for r
    by (cases "P r") (simp_all add: assms(2)[OF that] table_okD[OF assms(1) that])
  show "col (if P a then f a else a) (if P b then f b else b) = col a b" for a b by (rule assms(3))
qed

lemma table_ok_modify_one:
  assumes "table_ok ok col rows" "distinct (map rid rows)" "r \<in> set rows" "rid r = i" "ok r'"
    and "\<And>q. q \<in> set rows \<Longrightarrow> rid q \<noteq> i \<Longrightarrow> \<not> col r' q \<and> \<not> col q r'"
  shows "table_ok ok col (modify rid i (\<lambda>_. r') rows)"
  using assms(1-4,6)
proof (induction rows)
  case (Cons a rows)
  show ?case
  proof (cases "a = r")
    case True
    with Cons.prems have others: "\<And>x. x \<in> set rows \<Longrightarrow> rid x \<noteq> i" by (auto simp: image_iff)
    then have "modify rid i (\<lambda>_. r') rows = rows" by (auto simp: modify_def intro!: map_idI)
    with True Cons.prems others assms(5) show ?thesis by (auto simp: modify_def table_ok_def list_all_iff)
  next
    case False
    with Cons.prems have r: "r \<in> set rows" "rid a \<noteq> i" by (auto simp: image_iff)
    then have "table_ok ok col (modify rid i (\<lambda>_. r') rows)"
      using Cons.IH Cons.prems by (simp add: table_ok_def)
    moreover have "\<not> col a q" if "q \<in> set (modify rid i (\<lambda>_. r') rows)" for q
      using that Cons.prems(1,5) r(2) by (auto simp: set_modify table_ok_def list_all_iff split: if_splits)
    ultimately show ?thesis using Cons.prems(1) r(2) by (simp add: modify_def table_ok_def list_all_iff)
  qed
qed simp

lemma collision_freeI:
  assumes "distinct (map rid rows)"
    and "\<And>a b. a \<in> set rows \<Longrightarrow> b \<in> set rows \<Longrightarrow> rid a \<noteq> rid b \<Longrightarrow> \<not> col a b"
  shows "collision_free col rows"
  using assms
proof (induction rows)
  case (Cons r rows)
  then show ?case by (auto simp: list_all_iff image_iff)
qed simp

lemma table_ok_snoc:
  assumes "table_ok ok col (rows @ [m])" "\<And>a b. col a b = col b a"
  shows "table_ok ok col rows" "ok m" "list_all (\<lambda>r. \<not> col m r) rows"
  using assms by (auto simp: table_ok_def collision_free_append list_all_iff)

lemma table_ok_prefix: "table_ok ok col (rows @ rest) \<Longrightarrow> table_ok ok col rows"
  by (simp add: table_ok_def collision_free_append)

text \<open>A comprehension whose body may raise.\<close>

fun traverse :: "('a \<Rightarrow> 'e + 'b) \<Rightarrow> 'a list \<Rightarrow> 'e + 'b list" where
  "traverse f [] = Inr []"
| "traverse f (x # xs) = bind_result (f x) (\<lambda>y. bind_result (traverse f xs) (\<lambda>ys. Inr (y # ys)))"

text \<open>\<^verbatim>\<open>sorted(set(ids))\<close>\<close>

definition sorted_set :: "int list \<Rightarrow> int list" where
  "sorted_set xs = sort (remdups xs)"

lemma set_sorted_set [simp]: "set (sorted_set xs) = set xs"
  and distinct_sorted_set [simp]: "distinct (sorted_set xs)"
  by (simp_all add: sorted_set_def)

section \<open>Exact decimals\<close>

text \<open>
  A finite \<^verbatim>\<open>decimal.Decimal\<close> is its exact value. The values of the services have at most nineteen
  digits and four decimals, so their sums and differences stay inside the 28 digits of the default
  context and are exact. \<^verbatim>\<open>quantize\<close> raises InvalidOperation when the result would need more than 28
  digits: that is \<^theory_text>\<open>None\<close>. What a caller passes may also be a NaN or an infinity, or no Decimal.
\<close>

datatype pynum = PyDecimal rat | PyNonFinite | PyOther

definition round_half_even :: "rat \<Rightarrow> int" where
  "round_half_even x =
     (let f = \<lfloor>x\<rfloor>; d = x - of_int f
      in if d < 1/2 then f else if 1/2 < d then f + 1 else if even f then f else f + 1)"

definition round_half_down :: "rat \<Rightarrow> int" where
  "round_half_down x =
     (let f = \<lfloor>x\<rfloor>; d = x - of_int f
      in if d < 1/2 then f else if 1/2 < d then f + 1 else if 0 \<le> x then f else f + 1)"

definition quantize :: "(rat \<Rightarrow> int) \<Rightarrow> nat \<Rightarrow> rat \<Rightarrow> rat option" where
  "quantize rnd d x =
     (let n = rnd (x * 10 ^ d) in if \<bar>n\<bar> < 10 ^ 28 then Some (of_int n / 10 ^ d) else None)"

abbreviation quantize4 :: "rat \<Rightarrow> rat option" where
  "quantize4 \<equiv> quantize round_half_even 4"

text \<open>What a \<^verbatim>\<open>Numeric(19, 4)\<close> column stores of a non-negative value: MySQL rounds half away from zero.\<close>

definition numeric4 :: "rat \<Rightarrow> rat" where
  "numeric4 x = of_int \<lfloor>x * 10000 + 1/2\<rfloor> / 10000"

lemma round_half_even_of_int [simp]: "round_half_even (of_int n) = n"
  by (simp add: round_half_even_def Let_def)

lemma round_half_even_numeral [simp]: "round_half_even (numeral k) = numeral k"
  using round_half_even_of_int[of "numeral k"] by simp

lemma round_half_down_of_int [simp]: "round_half_down (of_int n) = n"
  by (simp add: round_half_down_def Let_def)

lemma round_half_down_error: "\<bar>of_int (round_half_down x) - x\<bar> \<le> 1/2"
proof -
  have "of_int \<lfloor>x\<rfloor> \<le> x" and "x < of_int \<lfloor>x\<rfloor> + 1"
    by linarith+
  then show ?thesis
    unfolding round_half_down_def Let_def abs_le_iff by (auto simp del: of_int_floor_le)
qed

lemma round_half_even_error: "\<bar>of_int (round_half_even x) - x\<bar> \<le> 1/2"
proof -
  have "of_int \<lfloor>x\<rfloor> \<le> x" and "x < of_int \<lfloor>x\<rfloor> + 1"
    by linarith+
  then show ?thesis
    unfolding round_half_even_def Let_def abs_le_iff by (auto simp del: of_int_floor_le)
qed

lemma round_half_down_nonneg: "0 \<le> x \<Longrightarrow> 0 \<le> round_half_down x"
  by (auto simp: round_half_down_def Let_def)

lemma quantize_SomeD: "quantize rnd d x = Some y \<Longrightarrow> y = of_int (rnd (x * 10 ^ d)) / 10 ^ d"
  by (auto simp: quantize_def Let_def split: if_splits)

section \<open>Strings\<close>

text \<open>
  The model's strings are sequences of characters with codes below 256; the case mapping is that of
  \<^verbatim>\<open>str.upper\<close> on ASCII letters, the whitespace that of \<^verbatim>\<open>str.strip\<close> on these codes.
\<close>

definition is_space :: "char \<Rightarrow> bool" where
  "is_space c =
     (let n = of_char c :: nat
      in 9 \<le> n \<and> n \<le> 13 \<or> 28 \<le> n \<and> n \<le> 32 \<or> n = 133 \<or> n = 160)"

definition strip :: "string \<Rightarrow> string" where
  "strip s = rev (dropWhile is_space (rev (dropWhile is_space s)))"

definition upper_char :: "char \<Rightarrow> char" where
  "upper_char c =
     (let n = of_char c :: nat in if 97 \<le> n \<and> n \<le> 122 then char_of (n - 32) else c)"

definition upper :: "string \<Rightarrow> string" where
  "upper s = map upper_char s"

definition is_ascii :: "string \<Rightarrow> bool" where
  "is_ascii s = list_all (\<lambda>c. (of_char c :: nat) < 128) s"

definition is_upper_letter :: "char \<Rightarrow> bool" where
  "is_upper_letter c = (let n = of_char c :: nat in 65 \<le> n \<and> n \<le> 90)"

definition is_lower_letter :: "char \<Rightarrow> bool" where
  "is_lower_letter c = (let n = of_char c :: nat in 97 \<le> n \<and> n \<le> 122)"

definition is_alpha :: "string \<Rightarrow> bool" where
  "is_alpha s = (s \<noteq> [] \<and> list_all (\<lambda>c. is_upper_letter c \<or> is_lower_letter c) s)"

fun str_nat :: "nat \<Rightarrow> string" where
  "str_nat n =
     (if n < 10 then [char_of (48 + n)] else str_nat (n div 10) @ [char_of (48 + n mod 10)])"

declare str_nat.simps [simp del]

definition str_int :: "int \<Rightarrow> string" where
  "str_int n = (if n < 0 then CHR ''-'' # str_nat (nat (- n)) else str_nat (nat n))"

text \<open>\<^verbatim>\<open>format(value.quantize(Decimal('0.0001')), 'f')\<close>: sign, whole part, four decimals.\<close>

definition money_str :: "rat \<Rightarrow> string" where
  "money_str x =
     (let n = nat \<bar>round_half_even (x * 10000)\<bar>; w = n div 10000; r = n mod 10000
      in (if x < 0 then ''-'' else []) @ str_nat w @ ''.''
         @ replicate (4 - length (str_nat r)) (CHR ''0'') @ str_nat r)"

lemma replicate_3: "replicate 3 c = [c, c, c]"
  by (simp add: numeral_3_eq_3)

lemma bit_one_0: "bit (Suc 0) 0"
  by (simp add: bit_0)

text \<open>Facts with which \<^theory_text>\<open>simp\<close> formats a literal amount.\<close>

lemmas money_str_eval = money_str_def str_nat.simps char_of_def replicate_3 bit_one_0

lemma upper_char_not_lower: "\<not> is_lower_letter (upper_char c)"
  by (auto simp: upper_char_def is_lower_letter_def Let_def)

lemma upper_letters:
  assumes "is_alpha (upper s)"
  shows "list_all is_upper_letter (upper s)"
  using assms by (auto simp: is_alpha_def upper_def list_all_iff upper_char_not_lower)

section \<open>Canonical requests\<close>

text \<open>
  The Python value that a service hands to its \<^verbatim>\<open>_sha\<close>, before \<^verbatim>\<open>json.dumps(..., sort_keys=True)\<close>
  and SHA-256; the digest itself is the argument \<^theory_text>\<open>sha\<close> of the definitions that use it.
\<close>

datatype json = JNull | JInt int | JBool bool | JStr string | JArr "json list" | JObj "(string \<times> json) list"

fun json_opt :: "('a \<Rightarrow> json) \<Rightarrow> 'a option \<Rightarrow> json" where
  "json_opt f None = JNull"
| "json_opt f (Some a) = f a"

section \<open>Interfaces\<close>

text \<open>
  Attribute assignments on a loaded row keep its primary key. A table whose rows are changed only so
  keeps its keys, its length, and every aggregate that does not read the assigned columns.
\<close>

locale row_update =
  fixes rid :: "'r \<Rightarrow> int" and assign :: "'r \<Rightarrow> 'r"
  assumes rid_assign: "rid (assign r) = rid r"
begin

lemma ids_modify: "map rid (modify rid i assign rows) = map rid rows"
  by (rule modify_ids) (rule rid_assign)

lemma ids_modify_where: "map rid (modify_where P assign rows) = map rid rows"
  by (rule modify_where_ids) (rule rid_assign)

lemma in_modify:
  assumes "r \<in> set rows" and "rid r = i"
  shows "assign r \<in> set (modify rid i assign rows)"
  using assms unfolding set_modify by auto

lemma in_modify_other:
  assumes "r \<in> set (modify rid i assign rows)" and "rid r \<noteq> i"
  shows "r \<in> set rows"
  using assms unfolding set_modify by (auto simp: rid_assign split: if_splits)

lemma find_row_modify:
  assumes "distinct (map rid rows)"
  shows "find_row rid j (modify rid i assign rows) =
    (if j = i then map_option assign (find_row rid j rows) else find_row rid j rows)"
  using assms
  by (induction rows) (auto simp: find_row_def modify_def rid_assign image_iff)

end

text \<open>
  A command that carries an idempotency key. \<^theory_text>\<open>lookup\<close> finds the row stored under the key of a
  request, \<^theory_text>\<open>stored_fp\<close> reads the fingerprint it was stored with, \<^theory_text>\<open>request_fp\<close> is the fingerprint of
  the request, \<^theory_text>\<open>admissible\<close> are the checks that come before the lookup, and \<^theory_text>\<open>view\<close> is the
  projection returned; \<^theory_text>\<open>'env\<close> is what differs between two sends of one request, such as the clock.
  The provider promises that a stored row is returned on the same fingerprint and refused on another,
  and that a first execution stores what it returns. The client then gets that a retry changes
  nothing and returns the same projection.
\<close>

locale idempotent_command =
  fixes run :: "'env \<Rightarrow> 'req \<Rightarrow> 'db \<Rightarrow> 'e + (('res \<times> bool) \<times> 'db)"
    and lookup :: "'req \<Rightarrow> 'db \<Rightarrow> 'row option"
    and stored_fp :: "'row \<Rightarrow> 'fp"
    and request_fp :: "'req \<Rightarrow> 'fp"
    and admissible :: "'req \<Rightarrow> 'db \<Rightarrow> bool"
    and view :: "'req \<Rightarrow> 'row \<Rightarrow> 'db \<Rightarrow> 'res"
    and conflict :: 'e
  assumes stored_row: "admissible q d \<Longrightarrow> lookup q d = Some r \<Longrightarrow>
      run e q d = (if stored_fp r = request_fp q then Inr ((view q r d, True), d) else Inl conflict)"
    and first_run: "lookup q d = None \<Longrightarrow> run e q d = Inr ((v, b), d') \<Longrightarrow>
      \<not> b \<and> admissible q d' \<and>
      (\<exists>r. lookup q d' = Some r \<and> stored_fp r = request_fp q \<and> v = view q r d')"
    and success_admissible: "run e q d = Inr ((v, b), d') \<Longrightarrow> admissible q d"
begin

lemma replay_iff_stored:
  assumes "run e q d = Inr ((v, b), d')"
  shows "b \<longleftrightarrow> lookup q d \<noteq> None"
  using assms first_run[of q d e v b d'] stored_row[of q d _ e] success_admissible[OF assms]
  by (cases "lookup q d") (auto split: if_splits)

lemma replay_keeps_state:
  assumes "run e q d = Inr ((v, True), d')"
  shows "d' = d"
proof -
  from assms have "admissible q d" by (rule success_admissible)
  moreover obtain r where "lookup q d = Some r" using replay_iff_stored[OF assms] by blast
  ultimately show ?thesis using assms stored_row[of q d r e] by (auto split: if_splits)
qed

lemma retry_is_noop:
  assumes "run e q d = Inr ((v, b), d')"
  shows "run e' q d' = Inr ((v, True), d')"
proof (cases "lookup q d")
  case (Some r)
  with assms stored_row[OF success_admissible[OF assms] Some, of e] have "d' = d" "v = view q r d"
    "stored_fp r = request_fp q"
    by (auto split: if_splits)
  with stored_row[OF success_admissible[OF assms] Some, of e'] show ?thesis by simp
next
  case None
  from first_run[OF None assms] obtain r where "admissible q d'" "lookup q d' = Some r"
    "stored_fp r = request_fp q" "v = view q r d'" by blast
  with stored_row show ?thesis by simp
qed

lemma reused_key_conflicts:
  assumes "run e q d = Inr ((v, b), d')" and "admissible q' d'"
    and "lookup q' d' = lookup q d'" and "request_fp q' \<noteq> request_fp q"
  shows "run e' q' d' = Inl conflict"
proof (cases "lookup q d")
  case (Some r)
  with assms stored_row[OF success_admissible[OF assms(1)] Some, of e] have "d' = d"
    "stored_fp r = request_fp q"
    by (auto split: if_splits)
  with assms Some stored_row[of q' d' r e'] show ?thesis by simp
next
  case None
  from first_run[OF None assms(1)] obtain r where "lookup q d' = Some r" "stored_fp r = request_fp q"
    by blast
  with assms stored_row[of q' d' r e'] show ?thesis by simp
qed

end

text \<open>
  A system that moves by steps: an invariant of the start state that every step keeps holds in
  every state it reaches.
\<close>

locale step_invariant =
  fixes init :: "'s \<Rightarrow> bool" and step :: "'s \<Rightarrow> 's \<Rightarrow> bool" and inv :: "'s \<Rightarrow> bool"
  assumes inv_init: "init s \<Longrightarrow> inv s"
    and inv_step: "inv s \<Longrightarrow> step s t \<Longrightarrow> inv t"
begin

lemma inv_steps: "step\<^sup>*\<^sup>* s t \<Longrightarrow> inv s \<Longrightarrow> inv t"
  by (induction rule: rtranclp_induct) (auto intro: inv_step)

theorem inv_reachable: "init s \<Longrightarrow> step\<^sup>*\<^sup>* s t \<Longrightarrow> inv t"
  using inv_init inv_steps by blast

end

section \<open>Tables whose rows are rewritten\<close>

lemma collision_free_map:
  assumes "\<And>a b. col (g a) (g b) \<Longrightarrow> col a b" "collision_free col xs"
  shows "collision_free col (map g xs)"
  using assms(2)
proof (induction xs)
  case (Cons x xs)
  then show ?case using assms(1)[of x] by (auto simp: list_all_iff)
qed simp

lemma collision_free_either:
  "collision_free col rows \<Longrightarrow> a \<in> set rows \<Longrightarrow> b \<in> set rows \<Longrightarrow> a \<noteq> b \<Longrightarrow> \<not> col a b \<or> \<not> col b a"
  by (induction rows) (auto simp: list_all_iff)

lemma modify_as_where: "distinct (map rid rows) \<Longrightarrow> x \<in> set rows \<Longrightarrow> modify rid (rid x) (\<lambda>_. g x) rows = modify_where (\<lambda>y. rid y = rid x) g rows"
  unfolding modify_def modify_where_def using same_row_if_same_id[of rid rows _ x] by (intro map_cong) auto

lemma modify_own: "distinct (map rid rows) \<Longrightarrow> r \<in> set rows \<Longrightarrow> modify rid (rid r) g rows = modify rid (rid r) (\<lambda>_. g r) rows"
  unfolding modify_def using same_row_if_same_id[of rid rows _ r] by (intro map_cong) auto

lemma find_modified: "List.find P rows = Some r \<Longrightarrow> P r' \<Longrightarrow> List.find P (modify rid (rid r) (\<lambda>_. r') rows) = Some r'"
  by (induction rows) (auto simp: modify_def split: if_splits)

end
