(* ===== verification/Execution.thy ===== *)
theory Execution
  imports Prelude
begin

text \<open>
  The actor context of every command (\<^verbatim>\<open>app/core/execution.py\<close>) and the values the services derive
  from it: the three actor columns they store, and the scope of idempotency keys.
\<close>

datatype actor_type = EMPLOYEE | DINER | SYSTEM | AGENT | EXTERNAL_SYSTEM

fun actor_type_value :: "actor_type \<Rightarrow> string" where
  "actor_type_value EMPLOYEE = ''EMPLOYEE''"
| "actor_type_value DINER = ''DINER''"
| "actor_type_value SYSTEM = ''SYSTEM''"
| "actor_type_value AGENT = ''AGENT''"
| "actor_type_value EXTERNAL_SYSTEM = ''EXTERNAL_SYSTEM''"

record execution_context =
  actor_type :: actor_type
  tenant_id :: int
  principal_id :: "int option"
  principal_reference :: "string option"
  correlation_id :: "string option"
  causation_id :: "string option"

text \<open>\<^verbatim>\<open>__post_init__\<close>: the contexts that can be constructed.\<close>

definition context_ok :: "execution_context \<Rightarrow> bool" where
  "context_ok c \<longleftrightarrow>
     0 < tenant_id c \<and>
     (if actor_type c = EMPLOYEE \<or> actor_type c = DINER
      then (case principal_id c of None \<Rightarrow> False | Some i \<Rightarrow> 0 < i) \<and> principal_reference c = None
      else (case principal_reference c of None \<Rightarrow> False | Some s \<Rightarrow> strip s \<noteq> []))"

text \<open>The columns \<^verbatim>\<open><prefix>_actor_type\<close>, \<^verbatim>\<open><prefix>_actor_id\<close>, \<^verbatim>\<open><prefix>_actor_reference\<close>.\<close>

datatype actor = Actor (act_type: actor_type) (act_id: "int option") (act_reference: "string option")

definition actor_values :: "execution_context \<Rightarrow> actor" where
  "actor_values c = Actor (actor_type c) (principal_id c) (principal_reference c)"

text \<open>
  \<^verbatim>\<open>str(context.principal_id)\<close>, or the reference when there is no identity; an f-string renders an
  absent reference as \<^verbatim>\<open>None\<close>.
\<close>

definition actor_scope :: "execution_context \<Rightarrow> string" where
  "actor_scope c =
     actor_type_value (actor_type c) @ '':'' @
     (case principal_id c of
        Some i \<Rightarrow> str_int i
      | None \<Rightarrow> (case principal_reference c of Some s \<Rightarrow> s | None \<Rightarrow> ''None''))"

text \<open>
  The CHECK constraint the cash tables put on actor columns (\<^verbatim>\<open>ck_cash_*_actor\<close>): an employee has an
  identity and no reference, a technical actor a reference and no identity; a diner is not admitted.
\<close>

definition cash_actor_ok :: "actor \<Rightarrow> bool" where
  "cash_actor_ok a =
     (case a of Actor t i r \<Rightarrow>
        t = EMPLOYEE \<and> i \<noteq> None \<and> r = None \<or>
        t \<in> {SYSTEM, AGENT, EXTERNAL_SYSTEM} \<and> i = None \<and> r \<noteq> None)"

lemma actor_type_value_inject: "actor_type_value a = actor_type_value b \<longleftrightarrow> a = b"
  by (cases a; cases b) auto

lemma actor_values_sel [simp]:
  "act_type (actor_values c) = actor_type c"
  "act_id (actor_values c) = principal_id c"
  "act_reference (actor_values c) = principal_reference c"
  by (simp_all add: actor_values_def)

lemma employee_actor_ok:
  assumes "context_ok c" and "actor_type c = EMPLOYEE"
  shows "cash_actor_ok (actor_values c)"
  using assms by (auto simp: context_ok_def cash_actor_ok_def actor_values_def split: option.splits)

end
