(* ===== verification/Schema.thy ===== *)
theory Schema
  imports Execution
begin

text \<open>
  The tables of the financial core (\<^verbatim>\<open>app/models/\<close>), one record per model class, and the database
  as the record of its tables. A record has the columns of its class with two conventions: the three
  columns of an actor are one value of type \<^typ>\<open>actor\<close>, and the server-default timestamps of
  \<^verbatim>\<open>TimestampMixin\<close> appear only where a service reads them. Of the tables that the core only reads
  (locations, resources, sessions, drafts, orders) the records have the columns it reads. A datetime
  is a number of microseconds, a money column (\<^verbatim>\<open>Numeric(19, 4)\<close>) its exact value.
\<close>

type_synonym datetime = int

text \<open>A \<^verbatim>\<open>DateTime()\<close> column keeps whole seconds, to which the database rounds what it is given.\<close>

definition stored_seconds :: "datetime \<Rightarrow> datetime" where
  "stored_seconds t = (t + 500000) div 1000000 * 1000000"

lemma stored_seconds_mono: "a \<le> b \<Longrightarrow> stored_seconds a \<le> stored_seconds b"
  by (simp add: stored_seconds_def zdiv_mono1)

lemma stored_seconds_stored [simp]: "stored_seconds (stored_seconds t) = stored_seconds t"
  by (simp add: stored_seconds_def)

section \<open>Tables the core reads\<close>

record location =
  loc_id :: int
  loc_tenant_id :: int
  loc_organization_id :: int
  loc_cash_management_activated_at :: "datetime option"

record resource =
  res_id :: int
  res_tenant_id :: int
  res_location_id :: int
  res_resource_type :: string
  res_status :: string

record service_session =
  ss_id :: int
  ss_tenant_id :: int
  ss_organization_id :: int
  ss_location_id :: int
  ss_resource_id :: int
  ss_status :: string
  ss_open_slot :: "int option"

record diner_session =
  ds_id :: int
  ds_tenant_id :: int
  ds_organization_id :: int
  ds_location_id :: int
  ds_resource_id :: int
  ds_service_session_id :: int
  ds_conversation_id :: int
  ds_display_name :: string
  ds_status :: string
  ds_active_slot :: "int option"

record conversation =
  cv_id :: int
  cv_tenant_id :: int
  cv_status :: string

record order_draft =
  od_id :: int
  od_tenant_id :: int
  od_conversation_id :: int
  od_status :: string
  od_current_slot :: "int option"

record order_draft_item =
  odi_id :: int
  odi_draft_id :: int

record restaurant_order =
  ro_id :: int
  ro_tenant_id :: int
  ro_organization_id :: int
  ro_location_id :: int
  ro_resource_id :: int
  ro_service_session_id :: int
  ro_diner_session_id :: int
  ro_conversation_id :: int
  ro_status :: string
  ro_commercial_fingerprint :: string
  ro_currency :: string
  ro_payable_total :: rat
  ro_accepted_at :: datetime

record restaurant_order_item =
  roi_id :: int
  roi_order_id :: int
  roi_position :: int
  roi_product_id :: int
  roi_product_name :: string
  roi_quantity :: rat
  roi_commercial_amount :: rat

section \<open>Restaurant checks\<close>

datatype check_status = CHK_OPEN | CHK_FROZEN | CHK_SETTLED | CHK_CANCELLED

datatype continuation = CONT_NONE | CONT_PENDING | CONT_YES | CONT_NO

record restaurant_check =
  chk_id :: int
  chk_tenant_id :: int
  chk_organization_id :: int
  chk_location_id :: int
  chk_currency :: string
  chk_status :: check_status
  chk_version :: int
  chk_current_fingerprint :: string
  chk_fingerprint_schema_version :: int
  chk_consumption_total :: rat
  chk_gratuity_total :: rat
  chk_liability_total :: rat
  chk_controller :: actor
  chk_controller_diner_session_id :: "int option"
  chk_created_by :: actor
  chk_created_at :: datetime
  chk_frozen_at :: "datetime option"
  chk_frozen_by :: "actor option"
  chk_settled_at :: "datetime option"
  chk_settled_by :: "actor option"
  chk_continuation_decision :: continuation
  chk_continuation_decided_at :: "datetime option"
  chk_continuation_by :: "actor option"
  chk_cancelled_at :: "datetime option"
  chk_cancelled_by :: "actor option"
  chk_cancellation_reason :: "string option"

datatype relationship = REL_CONTROLLER | REL_INCLUDED

record check_member =
  cm_id :: int
  cm_tenant_id :: int
  cm_organization_id :: int
  cm_location_id :: int
  cm_check_id :: int
  cm_diner_session_id :: int
  cm_service_session_id :: int
  cm_resource_id :: int
  cm_conversation_id :: int
  cm_relationship :: relationship
  cm_active_slot :: "int option"
  cm_acquired_at :: datetime
  cm_acquired_by :: actor
  cm_acquired_version :: int
  cm_released_at :: "datetime option"
  cm_released_by :: "actor option"
  cm_release_reason :: "string option"
  cm_released_version :: "int option"

datatype lock_phase = PHASE_CHECK | PHASE_CONTINUATION | PHASE_RELEASED

record check_table_scope =
  ts_id :: int
  ts_tenant_id :: int
  ts_organization_id :: int
  ts_location_id :: int
  ts_check_id :: int
  ts_service_session_id :: int
  ts_resource_id :: int
  ts_lock_phase :: lock_phase
  ts_active_slot :: "int option"
  ts_acquired_at :: datetime
  ts_acquired_by :: actor
  ts_released_at :: "datetime option"
  ts_released_by :: "actor option"
  ts_release_reason :: "string option"

datatype allocation_state = AL_CLAIMED | AL_RELEASED | AL_SETTLED

record check_allocation =
  al_id :: int
  al_tenant_id :: int
  al_organization_id :: int
  al_location_id :: int
  al_check_id :: int
  al_restaurant_order_id :: int
  al_source_diner_session_id :: int
  al_source_service_session_id :: int
  al_source_resource_id :: int
  al_source_conversation_id :: int
  al_accepted_payable_amount :: rat
  al_accepted_currency :: string
  al_accepted_commercial_fingerprint :: string
  al_state :: allocation_state
  al_ownership_slot :: "int option"
  al_claimed_at :: datetime
  al_claimed_by :: actor
  al_claimed_version :: int
  al_released_at :: "datetime option"
  al_released_by :: "actor option"
  al_release_reason :: "string option"
  al_released_version :: "int option"
  al_settled_at :: "datetime option"
  al_settlement_reference :: "string option"

record check_version =
  cv_row_id :: int
  cv_row_tenant_id :: int
  cv_organization_id :: int
  cv_location_id :: int
  cv_check_id :: int
  cv_version :: int
  cv_schema_version :: int
  cv_currency :: string
  cv_member_snapshot :: json
  cv_allocation_snapshot :: json
  cv_gratuity_snapshot :: json
  cv_consumption_total :: rat
  cv_gratuity_amount :: rat
  cv_liability_total :: rat
  cv_fingerprint :: string
  cv_actor :: actor
  cv_recorded_at :: datetime

datatype gratuity_type = PERCENTAGE | FIXED_AMOUNT

record check_gratuity =
  gr_id :: int
  gr_tenant_id :: int
  gr_organization_id :: int
  gr_location_id :: int
  gr_check_id :: int
  gr_check_version :: int
  gr_input_type :: gratuity_type
  gr_input_value :: rat
  gr_calculation_basis :: rat
  gr_calculated_amount :: rat
  gr_currency :: string
  gr_rounding_policy_id :: string
  gr_actor :: actor
  gr_elected_at :: datetime

record check_command =
  cc_id :: int
  cc_tenant_id :: int
  cc_check_id :: int
  cc_actor_scope :: string
  cc_idempotency_key :: string
  cc_operation :: string
  cc_request_fingerprint :: string
  cc_result_version :: int

section \<open>Payments and settlement\<close>

datatype payment_state =
  PAY_RESERVED | PAY_IN_PROGRESS | PAY_SUCCEEDED | PAY_FAILED | PAY_REJECTED | PAY_UNCERTAIN
| PAY_CANCELLED

datatype payment_method = CASH | CARD | TRANSFER

datatype payer_type = PAYER_DINER | PAYER_OTHER

record executor_configuration =
  ec_id :: int
  ec_tenant_id :: int
  ec_organization_id :: int
  ec_location_id :: int
  ec_executor_key :: string
  ec_adapter_kind :: string
  ec_topology :: string
  ec_status :: string
  ec_credential_binding :: "string option"
  ec_selection_priority :: int

record executor_capability =
  ep_id :: int
  ep_executor_configuration_id :: int
  ep_tenant_id :: int
  ep_organization_id :: int
  ep_location_id :: int
  ep_method_category :: payment_method
  ep_currency :: string

record restaurant_payment =
  pay_id :: int
  pay_tenant_id :: int
  pay_organization_id :: int
  pay_location_id :: int
  pay_check_id :: int
  pay_check_version :: int
  pay_check_fingerprint :: string
  pay_amount :: rat
  pay_currency :: string
  pay_method_category :: payment_method
  pay_payer_type :: payer_type
  pay_payer_diner_session_id :: "int option"
  pay_payer_reference :: "string option"
  pay_initiated_by :: actor
  pay_actor_scope :: string
  pay_idempotency_key :: string
  pay_request_schema_version :: int
  pay_request_fingerprint :: string
  pay_state :: payment_state
  pay_executor_key :: "string option"
  pay_executor_configuration_id :: "int option"
  pay_provider_idempotency_key :: "string option"
  pay_external_reference :: "string option"
  pay_external_status :: "string option"
  pay_instrument_brand :: "string option"
  pay_instrument_last_four :: "string option"
  pay_instrument_display :: "string option"
  pay_claim_token :: "string option"
  pay_claim_expires_at :: "datetime option"
  pay_attempt_count :: int
  pay_last_error_code :: "string option"
  pay_last_error_message :: "string option"
  pay_cash_tendered_amount :: "rat option"
  pay_cash_change_due :: "rat option"
  pay_terminal_at :: "datetime option"

datatype attempt_type =
  ATT_EXECUTE | ATT_RETRY | ATT_RECOVER | ATT_STALE_RECOVERY | ATT_RECONCILE

datatype attempt_result =
  RES_IN_PROGRESS | RES_SUCCEEDED | RES_FAILED | RES_REJECTED | RES_UNCERTAIN | RES_CANCELLED
| RES_FENCED

record payment_attempt =
  att_id :: int
  att_tenant_id :: int
  att_payment_id :: int
  att_attempt_sequence :: int
  att_attempt_type :: attempt_type
  att_executor_key :: "string option"
  att_claim_token :: string
  att_actor :: actor
  att_correlation_id :: "string option"
  att_causation_id :: "string option"
  att_started_at :: datetime
  att_external_call_started_at :: "datetime option"
  att_completed_at :: "datetime option"
  att_result :: attempt_result
  att_external_reference :: "string option"
  att_external_status :: "string option"
  att_error_code :: "string option"
  att_error_message :: "string option"
  att_result_fingerprint :: "string option"

record check_settlement =
  st_id :: int
  st_tenant_id :: int
  st_organization_id :: int
  st_location_id :: int
  st_check_id :: int
  st_payment_id :: int
  st_amount :: rat
  st_currency :: string
  st_application_actor :: actor
  st_applied_at :: datetime

section \<open>Cash management\<close>

datatype cash_status = CS_OPEN | CS_CLOSED

record cash_session =
  cs_id :: int
  cs_tenant_id :: int
  cs_organization_id :: int
  cs_location_id :: int
  cs_resource_id :: int
  cs_cashier_membership_id :: int
  cs_currency :: string
  cs_status :: cash_status
  cs_opened_at :: datetime
  cs_opened_by :: actor
  cs_movement_version :: int
  cs_open_slot :: "int option"
  cs_open_actor_scope :: string
  cs_open_idempotency_key :: string
  cs_open_request_schema_version :: int
  cs_open_request_fingerprint :: string
  cs_selected_cash_count_id :: "int option"
  cs_final_movement_version :: "int option"
  cs_frozen_expected_cash :: "rat option"
  cs_frozen_variance :: "rat option"
  cs_closed_at :: "datetime option"
  cs_closed_by :: "actor option"
  cs_variance_reason :: "string option"
  cs_close_actor_scope :: "string option"
  cs_close_idempotency_key :: "string option"
  cs_close_request_schema_version :: "int option"
  cs_close_request_fingerprint :: "string option"

datatype movement_type =
  OPENING_FLOAT | CUSTOMER_TENDER | CUSTOMER_CHANGE | CASH_IN | CASH_OUT | WITHDRAWAL | ADJUSTMENT

record cash_movement =
  mv_id :: int
  mv_tenant_id :: int
  mv_organization_id :: int
  mv_location_id :: int
  mv_cash_session_id :: int
  mv_restaurant_payment_id :: "int option"
  mv_movement_type :: movement_type
  mv_amount :: rat
  mv_currency :: string
  mv_reason :: "string option"
  mv_reference :: "string option"
  mv_recorded_at :: datetime
  mv_actor :: actor
  mv_authorized_by :: actor
  mv_opening_float_slot :: "int option"
  mv_idempotency_actor_scope :: string
  mv_idempotency_key :: string
  mv_request_schema_version :: int
  mv_request_fingerprint :: string

record cash_count =
  ct_id :: int
  ct_tenant_id :: int
  ct_organization_id :: int
  ct_location_id :: int
  ct_cash_session_id :: int
  ct_counted_amount :: rat
  ct_currency :: string
  ct_captured_movement_version :: int
  ct_counted_at :: datetime
  ct_actor :: actor
  ct_idempotency_actor_scope :: string
  ct_idempotency_key :: string
  ct_request_schema_version :: int
  ct_request_fingerprint :: string

section \<open>The database\<close>

record db =
  locations :: "location list"
  resources :: "resource list"
  service_sessions :: "service_session list"
  diner_sessions :: "diner_session list"
  conversations :: "conversation list"
  order_drafts :: "order_draft list"
  order_draft_items :: "order_draft_item list"
  restaurant_orders :: "restaurant_order list"
  restaurant_order_items :: "restaurant_order_item list"
  restaurant_checks :: "restaurant_check list"
  check_members :: "check_member list"
  check_table_scopes :: "check_table_scope list"
  check_allocations :: "check_allocation list"
  check_versions :: "check_version list"
  check_gratuities :: "check_gratuity list"
  check_commands :: "check_command list"
  restaurant_payments :: "restaurant_payment list"
  payment_attempts :: "payment_attempt list"
  check_settlements :: "check_settlement list"
  cash_sessions :: "cash_session list"
  cash_movements :: "cash_movement list"
  cash_counts :: "cash_count list"
  executor_configurations :: "executor_configuration list"
  executor_capabilities :: "executor_capability list"

definition empty_db :: db where
  "empty_db = \<lparr>
     locations = [], resources = [], service_sessions = [], diner_sessions = [],
     conversations = [], order_drafts = [], order_draft_items = [], restaurant_orders = [],
     restaurant_order_items = [], restaurant_checks = [], check_members = [],
     check_table_scopes = [], check_allocations = [], check_versions = [], check_gratuities = [],
     check_commands = [], restaurant_payments = [], payment_attempts = [], check_settlements = [],
     cash_sessions = [], cash_movements = [], cash_counts = [],
     executor_configurations = [], executor_capabilities = []\<rparr>"

section \<open>Column conditions\<close>

text \<open>\<^verbatim>\<open>REGEXP '^[A-Z][A-Z][A-Z]$'\<close>, and \<^verbatim>\<open>TRIM(text) <> ''\<close>, where SQL trims spaces only.\<close>

definition currency_code :: "string \<Rightarrow> bool" where
  "currency_code s = (length s = 3 \<and> list_all is_upper_letter s)"

definition sql_not_blank :: "string \<Rightarrow> bool" where
  "sql_not_blank s = list_ex (\<lambda>c. c \<noteq> CHR '' '') s"

text \<open>Two rows collide under a UNIQUE index when no indexed column is null and all agree.\<close>

definition same_slot :: "int option \<Rightarrow> int option \<Rightarrow> bool" where
  "same_slot a b \<longleftrightarrow> a \<noteq> None \<and> a = b"

lemma strip_not_blank:
  assumes "strip s \<noteq> []"
  shows "sql_not_blank (strip s)"
proof -
  have "last (strip s) = hd (dropWhile is_space (rev (dropWhile is_space s)))"
    by (simp add: strip_def last_rev)
  moreover have "dropWhile is_space (rev (dropWhile is_space s)) \<noteq> []"
    using assms by (simp add: strip_def)
  ultimately have "\<not> is_space (last (strip s))"
    by (simp add: hd_dropWhile)
  then have "last (strip s) \<noteq> CHR '' ''"
    by (auto simp: is_space_def)
  moreover have "last (strip s) \<in> set (strip s)"
    using assms by simp
  ultimately show ?thesis
    by (auto simp: sql_not_blank_def list_ex_iff)
qed

end
