(* ===== verification/CashManagement.thy ===== *)
theory CashManagement
  imports Schema
begin

text \<open>
  The cash management service (\<^verbatim>\<open>app/restaurant/cash_management/service.py\<close>): opening a cash session
  on a register, recording movements, counting, and closing with a frozen expected cash and variance.

  Reads. InnoDB runs these transactions at REPEATABLE READ: a plain SELECT reads the snapshot of the
  transaction, a SELECT FOR UPDATE reads the rows as they are when the lock is granted, which other
  transactions may have changed in between. An operation therefore takes two databases: \<^theory_text>\<open>snap\<close>, the
  snapshot, and \<^theory_text>\<open>d\<close>, the database under its locks; it returns the database it commits, made from
  \<^theory_text>\<open>d\<close>. After a commit or a rollback the next plain read sees the database as it then is.

  A command raises IntegrityError when a row it adds breaks a CHECK or UNIQUE constraint of its table;
  the \<^theory_text>\<open>*_insertable\<close> predicates are those constraints. Foreign keys and column widths are not
  modelled. \<^theory_text>\<open>sha\<close> is the digest of a canonical request.
\<close>

datatype cash_error =
    CashSessionNotFoundError | CashRegisterNotFoundError | InvalidCashRegisterError
  | CashRegisterInactiveError | CashManagementNotActivatedError | ActiveCashSessionExistsError
  | CashSessionIdempotencyConflictError | CashSessionConcurrencyConflictError
  | InvalidCashSessionRequestError | CashSessionPermissionError | CashSessionClosedError
  | InvalidCashMovementError | DuplicateOpeningFloatError | CashMovementIdempotencyConflictError
  | InvalidCashCountError | CashCountNotFoundError | CashCountSessionConflictError
  | CashCountIdempotencyConflictError | StaleCashCountError | CashSessionCloseConflictError
  | CashSessionCloseIdempotencyConflictError | CashSessionVarianceReasonRequiredError
  | CashIntegrityError | CashDecimalInvalidOperation | CashOperationalError int

section \<open>Constraints of the cash tables\<close>

definition cash_session_ok :: "cash_session \<Rightarrow> bool" where
  "cash_session_ok s \<longleftrightarrow>
     (cs_open_slot s = None \<or> cs_open_slot s = Some 1) \<and>
     (cs_status s = CS_OPEN \<and> cs_open_slot s = Some 1 \<and> cs_selected_cash_count_id s = None
        \<and> cs_final_movement_version s = None \<and> cs_frozen_expected_cash s = None
        \<and> cs_frozen_variance s = None \<and> cs_closed_at s = None \<and> cs_closed_by s = None
        \<and> cs_variance_reason s = None \<and> cs_close_actor_scope s = None
        \<and> cs_close_idempotency_key s = None \<and> cs_close_request_schema_version s = None
        \<and> cs_close_request_fingerprint s = None
      \<or> cs_status s = CS_CLOSED \<and> cs_open_slot s = None \<and> cs_selected_cash_count_id s \<noteq> None
        \<and> cs_final_movement_version s \<noteq> None \<and> cs_frozen_expected_cash s \<noteq> None
        \<and> cs_frozen_variance s \<noteq> None \<and> cs_closed_at s \<noteq> None \<and> cs_closed_by s \<noteq> None
        \<and> cs_close_actor_scope s \<noteq> None \<and> cs_close_idempotency_key s \<noteq> None
        \<and> cs_close_request_schema_version s \<noteq> None \<and> cs_close_request_fingerprint s \<noteq> None) \<and>
     0 \<le> cs_movement_version s \<and> 1 \<le> cs_open_request_schema_version s \<and>
     currency_code (cs_currency s) \<and>
     cash_actor_ok (cs_opened_by s) \<and>
     (cs_status s = CS_OPEN \<and> cs_closed_by s = None
      \<or> cs_status s = CS_CLOSED \<and> (case cs_closed_by s of None \<Rightarrow> False | Some a \<Rightarrow> cash_actor_ok a)) \<and>
     (cs_status s = CS_OPEN \<or> cs_frozen_variance s = Some 0
      \<or> (case cs_variance_reason s of None \<Rightarrow> False | Some r \<Rightarrow> sql_not_blank r)) \<and>
     (case cs_final_movement_version s of None \<Rightarrow> True | Some v \<Rightarrow> 0 \<le> v)"

definition cash_sessions_collide :: "cash_session \<Rightarrow> cash_session \<Rightarrow> bool" where
  "cash_sessions_collide a b \<longleftrightarrow>
     cs_resource_id a = cs_resource_id b \<and> same_slot (cs_open_slot a) (cs_open_slot b) \<or>
     cs_tenant_id a = cs_tenant_id b \<and> cs_open_actor_scope a = cs_open_actor_scope b
       \<and> cs_open_idempotency_key a = cs_open_idempotency_key b \<or>
     cs_tenant_id a = cs_tenant_id b
       \<and> cs_close_actor_scope a \<noteq> None \<and> cs_close_actor_scope a = cs_close_actor_scope b
       \<and> cs_close_idempotency_key a \<noteq> None
       \<and> cs_close_idempotency_key a = cs_close_idempotency_key b"

fun movement_sign_ok :: "movement_type \<Rightarrow> rat \<Rightarrow> bool" where
  "movement_sign_ok OPENING_FLOAT a = (0 < a)"
| "movement_sign_ok CUSTOMER_TENDER a = (0 < a)"
| "movement_sign_ok CASH_IN a = (0 < a)"
| "movement_sign_ok CUSTOMER_CHANGE a = (a < 0)"
| "movement_sign_ok CASH_OUT a = (a < 0)"
| "movement_sign_ok WITHDRAWAL a = (a < 0)"
| "movement_sign_ok ADJUSTMENT a = (a \<noteq> 0)"

definition cash_movement_ok :: "cash_movement \<Rightarrow> bool" where
  "cash_movement_ok m \<longleftrightarrow>
     mv_amount m \<noteq> 0 \<and>
     movement_sign_ok (mv_movement_type m) (mv_amount m) \<and>
     currency_code (mv_currency m) \<and>
     (mv_movement_type m = OPENING_FLOAT \<and> mv_opening_float_slot m = Some 1
      \<or> mv_movement_type m \<noteq> OPENING_FLOAT \<and> mv_opening_float_slot m = None) \<and>
     (mv_movement_type m = OPENING_FLOAT
      \<or> (case mv_reason m of None \<Rightarrow> False | Some r \<Rightarrow> sql_not_blank r)) \<and>
     (mv_movement_type m \<in> {CUSTOMER_TENDER, CUSTOMER_CHANGE} \<and> mv_restaurant_payment_id m \<noteq> None
      \<or> mv_movement_type m \<notin> {CUSTOMER_TENDER, CUSTOMER_CHANGE} \<and> mv_restaurant_payment_id m = None) \<and>
     1 \<le> mv_request_schema_version m \<and>
     cash_actor_ok (mv_actor m) \<and> cash_actor_ok (mv_authorized_by m)"

definition cash_movements_collide :: "cash_movement \<Rightarrow> cash_movement \<Rightarrow> bool" where
  "cash_movements_collide a b \<longleftrightarrow>
     mv_tenant_id a = mv_tenant_id b \<and> mv_idempotency_actor_scope a = mv_idempotency_actor_scope b
       \<and> mv_idempotency_key a = mv_idempotency_key b \<or>
     mv_cash_session_id a = mv_cash_session_id b
       \<and> same_slot (mv_opening_float_slot a) (mv_opening_float_slot b) \<or>
     same_slot (mv_restaurant_payment_id a) (mv_restaurant_payment_id b)
       \<and> mv_movement_type a = mv_movement_type b"

definition cash_count_ok :: "cash_count \<Rightarrow> bool" where
  "cash_count_ok c \<longleftrightarrow>
     0 \<le> ct_counted_amount c \<and> 0 \<le> ct_captured_movement_version c
     \<and> 1 \<le> ct_request_schema_version c \<and> currency_code (ct_currency c) \<and> cash_actor_ok (ct_actor c)"

definition cash_counts_collide :: "cash_count \<Rightarrow> cash_count \<Rightarrow> bool" where
  "cash_counts_collide a b \<longleftrightarrow>
     ct_tenant_id a = ct_tenant_id b \<and> ct_idempotency_actor_scope a = ct_idempotency_actor_scope b
     \<and> ct_idempotency_key a = ct_idempotency_key b"

definition cash_session_insertable :: "cash_session list \<Rightarrow> cash_session \<Rightarrow> bool" where
  "cash_session_insertable rows s \<longleftrightarrow>
     cash_session_ok s \<and> list_all (\<lambda>r. \<not> cash_sessions_collide s r) rows"

definition cash_movement_insertable :: "cash_movement list \<Rightarrow> cash_movement \<Rightarrow> bool" where
  "cash_movement_insertable rows m \<longleftrightarrow>
     cash_movement_ok m \<and> list_all (\<lambda>r. \<not> cash_movements_collide m r) rows"

definition cash_count_insertable :: "cash_count list \<Rightarrow> cash_count \<Rightarrow> bool" where
  "cash_count_insertable rows c \<longleftrightarrow>
     cash_count_ok c \<and> list_all (\<lambda>r. \<not> cash_counts_collide c r) rows"

section \<open>Canonical values\<close>

definition REQUEST_SCHEMA_VERSION :: int where
  "REQUEST_SCHEMA_VERSION = 1"

definition canonical_currency :: "string \<Rightarrow> cash_error + string" where
  "canonical_currency value =
     (let currency = upper (strip value)
      in if length currency \<noteq> 3 \<or> \<not> is_ascii currency \<or> \<not> is_alpha currency
         then Inl InvalidCashSessionRequestError else Inr currency)"

definition exact_money :: "pynum \<Rightarrow> bool \<Rightarrow> bool \<Rightarrow> cash_error + rat" where
  "exact_money value allow_zero is_count =
     (let error = (if is_count then InvalidCashCountError else InvalidCashMovementError)
      in case value of
           PyNonFinite \<Rightarrow> Inl error
         | PyOther \<Rightarrow> Inl error
         | PyDecimal x \<Rightarrow>
             (case quantize4 x of
                None \<Rightarrow> Inl CashDecimalInvalidOperation
              | Some q \<Rightarrow>
                  if x \<noteq> q then Inl error
                  else if x < 0 \<or> (x = 0 \<and> \<not> allow_zero) then Inl error
                  else Inr x))"

definition cash_text :: "string option \<Rightarrow> nat \<Rightarrow> cash_error + string option" where
  "cash_text value maximum =
     (case value of
        None \<Rightarrow> Inr None
      | Some v \<Rightarrow>
          (let canonical = strip v
           in if canonical = [] then Inr None
              else if maximum < length canonical then Inl InvalidCashMovementError
              else Inr (Some canonical)))"

text \<open>\<^verbatim>\<open>_translate_operational\<close>: a lock wait timeout (1205) and a deadlock (1213) become a conflict.\<close>

definition translate_operational :: "int \<Rightarrow> cash_error" where
  "translate_operational code =
     (if code = 1205 \<or> code = 1213 then CashSessionConcurrencyConflictError
      else CashOperationalError code)"

definition expected_cash :: "db \<Rightarrow> int \<Rightarrow> rat" where
  "expected_cash d cash_session_id =
     sum_by mv_amount (filter (\<lambda>m. mv_cash_session_id m = cash_session_id) (cash_movements d))"

section \<open>Projections\<close>

text \<open>
  The projection of a session is the row with the expected cash of the moment; those of a movement
  and a count are columns of the row.
\<close>

record cash_session_projection =
  csp_row :: cash_session
  csp_expected_cash :: rat

definition session_projection :: "db \<Rightarrow> cash_session \<Rightarrow> cash_session_projection" where
  "session_projection d value = \<lparr>csp_row = value, csp_expected_cash = expected_cash d (cs_id value)\<rparr>"

record cash_movement_projection =
  mvp_id :: int
  mvp_cash_session_id :: int
  mvp_movement_type :: movement_type
  mvp_amount :: rat
  mvp_currency :: string
  mvp_reason :: "string option"
  mvp_reference :: "string option"
  mvp_recorded_at :: datetime
  mvp_actor :: actor
  mvp_authorized_by :: actor

definition movement_projection :: "cash_movement \<Rightarrow> cash_movement_projection" where
  "movement_projection value = \<lparr>
     mvp_id = mv_id value, mvp_cash_session_id = mv_cash_session_id value,
     mvp_movement_type = mv_movement_type value, mvp_amount = mv_amount value,
     mvp_currency = mv_currency value, mvp_reason = mv_reason value,
     mvp_reference = mv_reference value, mvp_recorded_at = mv_recorded_at value,
     mvp_actor = mv_actor value, mvp_authorized_by = mv_authorized_by value\<rparr>"

record cash_count_projection =
  ctp_id :: int
  ctp_cash_session_id :: int
  ctp_counted_amount :: rat
  ctp_currency :: string
  ctp_captured_movement_version :: int
  ctp_counted_at :: datetime
  ctp_actor :: actor

definition count_projection :: "cash_count \<Rightarrow> cash_count_projection" where
  "count_projection value = \<lparr>
     ctp_id = ct_id value, ctp_cash_session_id = ct_cash_session_id value,
     ctp_counted_amount = ct_counted_amount value, ctp_currency = ct_currency value,
     ctp_captured_movement_version = ct_captured_movement_version value,
     ctp_counted_at = ct_counted_at value, ctp_actor = ct_actor value\<rparr>"

section \<open>Queries\<close>

definition by_open_key :: "db \<Rightarrow> execution_context \<Rightarrow> string \<Rightarrow> cash_session option" where
  "by_open_key d ctx idempotency_key =
     List.find (\<lambda>s. cs_tenant_id s = tenant_id ctx \<and> cs_open_actor_scope s = actor_scope ctx
                    \<and> cs_open_idempotency_key s = idempotency_key) (cash_sessions d)"

definition assert_open_replay :: "db \<Rightarrow> cash_session \<Rightarrow> string \<Rightarrow> cash_error + cash_session_projection" where
  "assert_open_replay d value fingerprint =
     (if cs_open_request_fingerprint value \<noteq> fingerprint then Inl CashSessionIdempotencyConflictError
      else Inr (session_projection d value))"

definition movement_by_key :: "db \<Rightarrow> execution_context \<Rightarrow> string \<Rightarrow> cash_movement option" where
  "movement_by_key d ctx idempotency_key =
     List.find (\<lambda>m. mv_tenant_id m = tenant_id ctx \<and> mv_idempotency_actor_scope m = actor_scope ctx
                    \<and> mv_idempotency_key m = idempotency_key) (cash_movements d)"

definition assert_movement_replay :: "cash_movement \<Rightarrow> string \<Rightarrow> cash_error + cash_movement_projection" where
  "assert_movement_replay value fingerprint =
     (if mv_request_fingerprint value \<noteq> fingerprint then Inl CashMovementIdempotencyConflictError
      else Inr (movement_projection value))"

definition count_by_key :: "db \<Rightarrow> execution_context \<Rightarrow> string \<Rightarrow> cash_count option" where
  "count_by_key d ctx idempotency_key =
     List.find (\<lambda>c. ct_tenant_id c = tenant_id ctx \<and> ct_idempotency_actor_scope c = actor_scope ctx
                    \<and> ct_idempotency_key c = idempotency_key) (cash_counts d)"

definition assert_count_replay :: "cash_count \<Rightarrow> string \<Rightarrow> cash_error + cash_count_projection" where
  "assert_count_replay value fingerprint =
     (if ct_request_fingerprint value \<noteq> fingerprint then Inl CashCountIdempotencyConflictError
      else Inr (count_projection value))"

definition close_by_key :: "db \<Rightarrow> execution_context \<Rightarrow> string \<Rightarrow> cash_session option" where
  "close_by_key d ctx idempotency_key =
     List.find (\<lambda>s. cs_tenant_id s = tenant_id ctx \<and> cs_close_actor_scope s = Some (actor_scope ctx)
                    \<and> cs_close_idempotency_key s = Some idempotency_key) (cash_sessions d)"

definition require_cash_register_open_location :: "db \<Rightarrow> int \<Rightarrow> int \<Rightarrow> int \<Rightarrow> cash_error + unit" where
  "require_cash_register_open_location d tenant resource_id location_id =
     (case List.find (\<lambda>r. res_id r = resource_id \<and> res_tenant_id r = tenant) (resources d) of
        None \<Rightarrow> Inl CashRegisterNotFoundError
      | Some resource \<Rightarrow>
          if res_resource_type resource \<noteq> ''CASH_REGISTER'' then Inl InvalidCashRegisterError
          else if res_location_id resource \<noteq> location_id then Inl CashRegisterNotFoundError
          else Inr ())"

definition require_cash_session_location :: "db \<Rightarrow> int \<Rightarrow> int option \<Rightarrow> int \<Rightarrow> cash_error + int" where
  "require_cash_session_location d tenant location_id cash_session_id =
     (case List.find (\<lambda>s. cs_id s = cash_session_id \<and> cs_tenant_id s = tenant
                         \<and> (case location_id of None \<Rightarrow> True | Some l \<Rightarrow> cs_location_id s = l))
             (cash_sessions d) of
        None \<Rightarrow> Inl CashSessionNotFoundError
      | Some s \<Rightarrow> Inr (cs_location_id s))"

definition locked_cash_session :: "db \<Rightarrow> int \<Rightarrow> int \<Rightarrow> int \<Rightarrow> cash_session option" where
  "locked_cash_session d cash_session_id tenant location_id =
     List.find (\<lambda>s. cs_id s = cash_session_id \<and> cs_tenant_id s = tenant \<and> cs_location_id s = location_id)
       (cash_sessions d)"

definition get_cash_session :: "db \<Rightarrow> int \<Rightarrow> int \<Rightarrow> int \<Rightarrow> cash_error + cash_session_projection" where
  "get_cash_session d tenant location_id cash_session_id =
     (case locked_cash_session d cash_session_id tenant location_id of
        None \<Rightarrow> Inl CashSessionNotFoundError
      | Some s \<Rightarrow> Inr (session_projection d s))"

definition list_cash_movements :: "db \<Rightarrow> int \<Rightarrow> int \<Rightarrow> int \<Rightarrow> cash_error + cash_movement_projection list" where
  "list_cash_movements d tenant location_id cash_session_id =
     bind_result (require_cash_session_location d tenant (Some location_id) cash_session_id) (\<lambda>_.
       Inr (map movement_projection (order_by mv_id
         (filter (\<lambda>m. mv_tenant_id m = tenant \<and> mv_location_id m = location_id
                      \<and> mv_cash_session_id m = cash_session_id) (cash_movements d)))))"

definition get_active_cash_session :: "db \<Rightarrow> int \<Rightarrow> int \<Rightarrow> int \<Rightarrow> cash_error + cash_session_projection" where
  "get_active_cash_session d tenant location_id resource_id =
     (case List.find (\<lambda>r. res_id r = resource_id \<and> res_tenant_id r = tenant
                         \<and> res_location_id r = location_id
                         \<and> res_resource_type r = ''CASH_REGISTER'') (resources d) of
        None \<Rightarrow> Inl CashRegisterNotFoundError
      | Some register \<Rightarrow>
          (case List.find (\<lambda>s. cs_tenant_id s = tenant \<and> cs_location_id s = location_id
                              \<and> cs_resource_id s = res_id register \<and> cs_status s = CS_OPEN
                              \<and> cs_open_slot s = Some 1) (cash_sessions d) of
             None \<Rightarrow> Inl CashSessionNotFoundError
           | Some s \<Rightarrow> Inr (session_projection d s)))"

section \<open>Opening a session\<close>

definition open_fingerprint :: "(json \<Rightarrow> string) \<Rightarrow> execution_context \<Rightarrow> int \<Rightarrow> string \<Rightarrow> string" where
  "open_fingerprint sha ctx resource_id currency =
     sha (JObj [(''schema_version'', JInt REQUEST_SCHEMA_VERSION),
                (''resource_id'', JInt resource_id),
                (''currency'', JStr currency),
                (''cashier_membership_id'', json_opt JInt (principal_id ctx))])"

definition opened_session ::
  "db \<Rightarrow> execution_context \<Rightarrow> datetime \<Rightarrow> location \<Rightarrow> int \<Rightarrow> int \<Rightarrow> string \<Rightarrow> string \<Rightarrow> string \<Rightarrow> cash_session"
where
  "opened_session d ctx now location resource_id cashier currency idempotency_key fingerprint = \<lparr>
     cs_id = next_id cs_id (cash_sessions d),
     cs_tenant_id = tenant_id ctx,
     cs_organization_id = loc_organization_id location,
     cs_location_id = loc_id location,
     cs_resource_id = resource_id,
     cs_cashier_membership_id = cashier,
     cs_currency = currency,
     cs_status = CS_OPEN,
     cs_opened_at = now,
     cs_opened_by = actor_values ctx,
     cs_movement_version = 0,
     cs_open_slot = Some 1,
     cs_open_actor_scope = actor_scope ctx,
     cs_open_idempotency_key = idempotency_key,
     cs_open_request_schema_version = REQUEST_SCHEMA_VERSION,
     cs_open_request_fingerprint = fingerprint,
     cs_selected_cash_count_id = None, cs_final_movement_version = None,
     cs_frozen_expected_cash = None, cs_frozen_variance = None, cs_closed_at = None,
     cs_closed_by = None, cs_variance_reason = None, cs_close_actor_scope = None,
     cs_close_idempotency_key = None, cs_close_request_schema_version = None,
     cs_close_request_fingerprint = None\<rparr>"

definition add_cash_session :: "cash_session \<Rightarrow> db \<Rightarrow> db" where
  "add_cash_session s d = d\<lparr>cash_sessions := cash_sessions d @ [s]\<rparr>"

text \<open>The part of \<^verbatim>\<open>open_cash_session\<close> inside its \<^verbatim>\<open>try\<close>: the locked reads, the insert, the handlers.\<close>

definition open_cash_session_locked ::
  "execution_context \<Rightarrow> datetime \<Rightarrow> int \<Rightarrow> int \<Rightarrow> int \<Rightarrow> string \<Rightarrow> string \<Rightarrow> string \<Rightarrow> db
   \<Rightarrow> cash_error + ((cash_session_projection \<times> bool) \<times> db)"
where
  "open_cash_session_locked ctx now cashier resource_id location_id currency idempotency_key fingerprint d =
     (case List.find (\<lambda>l. loc_id l = location_id \<and> loc_tenant_id l = tenant_id ctx) (locations d) of
        None \<Rightarrow> Inl CashRegisterNotFoundError
      | Some location \<Rightarrow>
     (case List.find (\<lambda>r. res_id r = resource_id \<and> res_tenant_id r = tenant_id ctx
                          \<and> res_location_id r = location_id) (resources d) of
        None \<Rightarrow> Inl CashRegisterNotFoundError
      | Some resource \<Rightarrow>
          if res_resource_type resource \<noteq> ''CASH_REGISTER'' then Inl InvalidCashRegisterError else
     (case by_open_key d ctx idempotency_key of
        Some replay \<Rightarrow>
          bind_result (assert_open_replay d replay fingerprint) (\<lambda>p. Inr ((p, True), d))
      | None \<Rightarrow>
          if res_status resource \<noteq> ''ACTIVE'' then Inl CashRegisterInactiveError
          else if loc_cash_management_activated_at location = None then Inl CashManagementNotActivatedError
          else if List.find (\<lambda>s. cs_resource_id s = res_id resource \<and> cs_open_slot s = Some 1)
                    (cash_sessions d) \<noteq> None then Inl ActiveCashSessionExistsError
          else
            (let opened = opened_session d ctx now location (res_id resource) cashier currency
                            idempotency_key fingerprint;
                 d' = add_cash_session opened d
             in if cash_session_insertable (cash_sessions d) opened
                then Inr ((session_projection d' opened, False), d')
                else
                  (case by_open_key d ctx idempotency_key of
                     Some winner \<Rightarrow>
                       bind_result (assert_open_replay d winner fingerprint) (\<lambda>p. Inr ((p, True), d))
                   | None \<Rightarrow> Inl ActiveCashSessionExistsError)))))"

definition open_cash_session ::
  "(json \<Rightarrow> string) \<Rightarrow> execution_context \<Rightarrow> datetime \<Rightarrow> int \<Rightarrow> int \<Rightarrow> string \<Rightarrow> string \<Rightarrow> db \<Rightarrow> db
   \<Rightarrow> cash_error + ((cash_session_projection \<times> bool) \<times> db)"
where
  "open_cash_session sha ctx now resource_id location_id currency idempotency_key snap d =
     (case principal_id ctx of
        None \<Rightarrow> Inl CashSessionPermissionError
      | Some cashier \<Rightarrow>
          if actor_type ctx \<noteq> EMPLOYEE then Inl CashSessionPermissionError else
     bind_result (require_cash_register_open_location snap (tenant_id ctx) resource_id location_id) (\<lambda>_.
     bind_result (canonical_currency currency) (\<lambda>currency.
       let fingerprint = open_fingerprint sha ctx resource_id currency
       in case by_open_key snap ctx idempotency_key of
            Some existing \<Rightarrow>
              bind_result (assert_open_replay snap existing fingerprint) (\<lambda>p. Inr ((p, True), d))
          | None \<Rightarrow>
              open_cash_session_locked ctx now cashier resource_id location_id currency
                idempotency_key fingerprint d)))"

section \<open>Manual movements\<close>

definition parse_movement_type :: "string \<Rightarrow> movement_type option" where
  "parse_movement_type s =
     (if s = ''OPENING_FLOAT'' then Some OPENING_FLOAT
      else if s = ''CASH_IN'' then Some CASH_IN
      else if s = ''CASH_OUT'' then Some CASH_OUT
      else if s = ''WITHDRAWAL'' then Some WITHDRAWAL
      else if s = ''ADJUSTMENT'' then Some ADJUSTMENT else None)"

fun movement_type_value :: "movement_type \<Rightarrow> string" where
  "movement_type_value OPENING_FLOAT = ''OPENING_FLOAT''"
| "movement_type_value CUSTOMER_TENDER = ''CUSTOMER_TENDER''"
| "movement_type_value CUSTOMER_CHANGE = ''CUSTOMER_CHANGE''"
| "movement_type_value CASH_IN = ''CASH_IN''"
| "movement_type_value CASH_OUT = ''CASH_OUT''"
| "movement_type_value WITHDRAWAL = ''WITHDRAWAL''"
| "movement_type_value ADJUSTMENT = ''ADJUSTMENT''"

definition validate_manual_movement ::
  "string \<Rightarrow> pynum \<Rightarrow> string \<Rightarrow> string option \<Rightarrow> string option
   \<Rightarrow> cash_error + (movement_type \<times> rat \<times> string \<times> string option \<times> string option)"
where
  "validate_manual_movement movement_type amount currency reason reference =
     (case parse_movement_type (upper (strip movement_type)) of
        None \<Rightarrow> Inl InvalidCashMovementError
      | Some mtype \<Rightarrow>
     (case amount of
        PyNonFinite \<Rightarrow> Inl InvalidCashMovementError
      | PyOther \<Rightarrow> Inl InvalidCashMovementError
      | PyDecimal x \<Rightarrow>
     (case quantize4 x of
        None \<Rightarrow> Inl CashDecimalInvalidOperation
      | Some q \<Rightarrow>
          if x \<noteq> q \<or> x = 0 then Inl InvalidCashMovementError
          else if mtype \<in> {OPENING_FLOAT, CASH_IN} \<and> x \<le> 0 then Inl InvalidCashMovementError
          else if mtype \<in> {CASH_OUT, WITHDRAWAL} \<and> 0 \<le> x then Inl InvalidCashMovementError
          else
            bind_result (canonical_currency currency) (\<lambda>currency.
            bind_result (cash_text reason 500) (\<lambda>reason.
            bind_result (cash_text reference 200) (\<lambda>reference.
              if mtype \<in> {CASH_IN, CASH_OUT, WITHDRAWAL, ADJUSTMENT} \<and> reason = None
              then Inl InvalidCashMovementError
              else Inr (mtype, x, currency, reason, reference)))))))"

definition movement_fingerprint ::
  "(json \<Rightarrow> string) \<Rightarrow> int \<Rightarrow> movement_type \<times> rat \<times> string \<times> string option \<times> string option \<Rightarrow> string"
where
  "movement_fingerprint sha cash_session_id v =
     (case v of (mtype, amount, currency, reason, reference) \<Rightarrow>
        sha (JObj [(''schema_version'', JInt REQUEST_SCHEMA_VERSION),
                   (''cash_session_id'', JInt cash_session_id),
                   (''movement_type'', JStr (movement_type_value mtype)),
                   (''amount'', JStr (money_str amount)),
                   (''currency'', JStr currency),
                   (''reason'', json_opt JStr reason),
                   (''reference'', json_opt JStr reference)]))"

text \<open>\<^verbatim>\<open>session.movement_version += 1\<close>\<close>

definition bump_movement_version :: "cash_session \<Rightarrow> cash_session" where
  "bump_movement_version s = s\<lparr>cs_movement_version := cs_movement_version s + 1\<rparr>"

definition add_cash_movement :: "cash_movement \<Rightarrow> db \<Rightarrow> db" where
  "add_cash_movement m d = d\<lparr>
     cash_movements := cash_movements d @ [m],
     cash_sessions := modify cs_id (mv_cash_session_id m) bump_movement_version (cash_sessions d)\<rparr>"

definition manual_movement ::
  "db \<Rightarrow> execution_context \<Rightarrow> datetime \<Rightarrow> cash_session
   \<Rightarrow> movement_type \<times> rat \<times> string \<times> string option \<times> string option \<Rightarrow> string \<Rightarrow> string \<Rightarrow> cash_movement"
where
  "manual_movement d ctx now session v idempotency_key fingerprint =
     (case v of (mtype, amount, currency, reason, reference) \<Rightarrow> \<lparr>
        mv_id = next_id mv_id (cash_movements d),
        mv_tenant_id = cs_tenant_id session,
        mv_organization_id = cs_organization_id session,
        mv_location_id = cs_location_id session,
        mv_cash_session_id = cs_id session,
        mv_restaurant_payment_id = None,
        mv_movement_type = mtype,
        mv_amount = amount,
        mv_currency = currency,
        mv_reason = reason,
        mv_reference = reference,
        mv_recorded_at = now,
        mv_actor = actor_values ctx,
        mv_authorized_by = actor_values ctx,
        mv_opening_float_slot = (if mtype = OPENING_FLOAT then Some 1 else None),
        mv_idempotency_actor_scope = actor_scope ctx,
        mv_idempotency_key = idempotency_key,
        mv_request_schema_version = REQUEST_SCHEMA_VERSION,
        mv_request_fingerprint = fingerprint\<rparr>)"

definition create_manual_movement_locked ::
  "execution_context \<Rightarrow> datetime \<Rightarrow> int \<Rightarrow> int
   \<Rightarrow> movement_type \<times> rat \<times> string \<times> string option \<times> string option \<Rightarrow> string \<Rightarrow> string \<Rightarrow> db
   \<Rightarrow> cash_error + ((cash_movement_projection \<times> bool) \<times> db)"
where
  "create_manual_movement_locked ctx now cash_session_id location_id v idempotency_key fingerprint d =
     (case locked_cash_session d cash_session_id (tenant_id ctx) location_id of
        None \<Rightarrow> Inl CashSessionNotFoundError
      | Some session \<Rightarrow>
     (case movement_by_key d ctx idempotency_key of
        Some replay \<Rightarrow>
          bind_result (assert_movement_replay replay fingerprint) (\<lambda>p. Inr ((p, True), d))
      | None \<Rightarrow>
          if cs_status session \<noteq> CS_OPEN then Inl CashSessionClosedError
          else if cs_currency session \<noteq> fst (snd (snd v)) then Inl InvalidCashMovementError
          else if fst v = OPENING_FLOAT
               \<and> List.find (\<lambda>m. mv_cash_session_id m = cs_id session \<and> mv_opening_float_slot m = Some 1)
                   (cash_movements d) \<noteq> None
               then Inl DuplicateOpeningFloatError
          else
            (let movement = manual_movement d ctx now session v idempotency_key fingerprint
             in if cash_movement_insertable (cash_movements d) movement
                then Inr ((movement_projection movement, False), add_cash_movement movement d)
                else
                  (case movement_by_key d ctx idempotency_key of
                     Some winner \<Rightarrow>
                       bind_result (assert_movement_replay winner fingerprint) (\<lambda>p. Inr ((p, True), d))
                   | None \<Rightarrow>
                       if fst v = OPENING_FLOAT then Inl DuplicateOpeningFloatError
                       else Inl CashIntegrityError))))"

definition create_manual_movement ::
  "(json \<Rightarrow> string) \<Rightarrow> execution_context \<Rightarrow> datetime \<Rightarrow> int \<Rightarrow> int \<Rightarrow> string \<Rightarrow> pynum \<Rightarrow> string
   \<Rightarrow> string option \<Rightarrow> string option \<Rightarrow> string \<Rightarrow> db \<Rightarrow> db
   \<Rightarrow> cash_error + ((cash_movement_projection \<times> bool) \<times> db)"
where
  "create_manual_movement sha ctx now cash_session_id location_id movement_type amount currency reason
     reference idempotency_key snap d =
     bind_result (require_cash_session_location snap (tenant_id ctx) (Some location_id) cash_session_id) (\<lambda>_.
     bind_result (validate_manual_movement movement_type amount currency reason reference) (\<lambda>v.
       let fingerprint = movement_fingerprint sha cash_session_id v
       in case movement_by_key snap ctx idempotency_key of
            Some existing \<Rightarrow>
              bind_result (assert_movement_replay existing fingerprint) (\<lambda>p. Inr ((p, True), d))
          | None \<Rightarrow>
              create_manual_movement_locked ctx now cash_session_id location_id v idempotency_key
                fingerprint d))"

section \<open>Counts\<close>

definition count_fingerprint :: "(json \<Rightarrow> string) \<Rightarrow> int \<Rightarrow> rat \<Rightarrow> string \<Rightarrow> string" where
  "count_fingerprint sha cash_session_id counted_amount currency =
     sha (JObj [(''schema_version'', JInt REQUEST_SCHEMA_VERSION),
                (''cash_session_id'', JInt cash_session_id),
                (''counted_amount'', JStr (money_str counted_amount)),
                (''currency'', JStr currency)])"

definition captured_count ::
  "db \<Rightarrow> execution_context \<Rightarrow> datetime \<Rightarrow> cash_session \<Rightarrow> rat \<Rightarrow> string \<Rightarrow> string \<Rightarrow> string \<Rightarrow> cash_count"
where
  "captured_count d ctx now session counted_amount currency idempotency_key fingerprint = \<lparr>
     ct_id = next_id ct_id (cash_counts d),
     ct_tenant_id = cs_tenant_id session,
     ct_organization_id = cs_organization_id session,
     ct_location_id = cs_location_id session,
     ct_cash_session_id = cs_id session,
     ct_counted_amount = counted_amount,
     ct_currency = currency,
     ct_captured_movement_version = cs_movement_version session,
     ct_counted_at = now,
     ct_actor = actor_values ctx,
     ct_idempotency_actor_scope = actor_scope ctx,
     ct_idempotency_key = idempotency_key,
     ct_request_schema_version = REQUEST_SCHEMA_VERSION,
     ct_request_fingerprint = fingerprint\<rparr>"

definition add_cash_count :: "cash_count \<Rightarrow> db \<Rightarrow> db" where
  "add_cash_count c d = d\<lparr>cash_counts := cash_counts d @ [c]\<rparr>"

definition create_cash_count_locked ::
  "execution_context \<Rightarrow> datetime \<Rightarrow> int \<Rightarrow> int \<Rightarrow> rat \<Rightarrow> string \<Rightarrow> string \<Rightarrow> string \<Rightarrow> db
   \<Rightarrow> cash_error + ((cash_count_projection \<times> bool) \<times> db)"
where
  "create_cash_count_locked ctx now cash_session_id location_id counted_amount currency
     idempotency_key fingerprint d =
     (case locked_cash_session d cash_session_id (tenant_id ctx) location_id of
        None \<Rightarrow> Inl CashSessionNotFoundError
      | Some session \<Rightarrow>
     (case count_by_key d ctx idempotency_key of
        Some replay \<Rightarrow>
          bind_result (assert_count_replay replay fingerprint) (\<lambda>p. Inr ((p, True), d))
      | None \<Rightarrow>
          if cs_status session \<noteq> CS_OPEN then Inl CashSessionClosedError
          else if cs_currency session \<noteq> currency then Inl InvalidCashCountError
          else
            (let counted = captured_count d ctx now session counted_amount currency idempotency_key
                             fingerprint
             in if cash_count_insertable (cash_counts d) counted
                then Inr ((count_projection counted, False), add_cash_count counted d)
                else
                  (case count_by_key d ctx idempotency_key of
                     Some winner \<Rightarrow>
                       bind_result (assert_count_replay winner fingerprint) (\<lambda>p. Inr ((p, True), d))
                   | None \<Rightarrow> Inl CashIntegrityError))))"

definition create_cash_count ::
  "(json \<Rightarrow> string) \<Rightarrow> execution_context \<Rightarrow> datetime \<Rightarrow> int \<Rightarrow> int \<Rightarrow> pynum \<Rightarrow> string \<Rightarrow> string \<Rightarrow> db \<Rightarrow> db
   \<Rightarrow> cash_error + ((cash_count_projection \<times> bool) \<times> db)"
where
  "create_cash_count sha ctx now cash_session_id location_id counted_amount currency idempotency_key
     snap d =
     bind_result (require_cash_session_location snap (tenant_id ctx) (Some location_id) cash_session_id) (\<lambda>_.
     bind_result (exact_money counted_amount True True) (\<lambda>amount.
     bind_result (canonical_currency currency) (\<lambda>currency.
       let fingerprint = count_fingerprint sha cash_session_id amount currency
       in case count_by_key snap ctx idempotency_key of
            Some existing \<Rightarrow>
              bind_result (assert_count_replay existing fingerprint) (\<lambda>p. Inr ((p, True), d))
          | None \<Rightarrow>
              create_cash_count_locked ctx now cash_session_id location_id amount currency
                idempotency_key fingerprint d)))"

section \<open>Closing\<close>

definition close_fingerprint :: "(json \<Rightarrow> string) \<Rightarrow> int \<Rightarrow> int \<Rightarrow> string option \<Rightarrow> string" where
  "close_fingerprint sha cash_session_id cash_count_id variance_reason =
     sha (JObj [(''schema_version'', JInt REQUEST_SCHEMA_VERSION),
                (''cash_session_id'', JInt cash_session_id),
                (''cash_count_id'', JInt cash_count_id),
                (''variance_reason'', json_opt JStr variance_reason)])"

definition close_session_row ::
  "execution_context \<Rightarrow> datetime \<Rightarrow> int \<Rightarrow> rat \<Rightarrow> rat \<Rightarrow> string option \<Rightarrow> string \<Rightarrow> string
   \<Rightarrow> cash_session \<Rightarrow> cash_session"
where
  "close_session_row ctx now cash_count_id expected variance reason idempotency_key fingerprint s = s\<lparr>
     cs_selected_cash_count_id := Some cash_count_id,
     cs_final_movement_version := Some (cs_movement_version s),
     cs_frozen_expected_cash := Some expected,
     cs_frozen_variance := Some variance,
     cs_variance_reason := reason,
     cs_closed_at := Some now,
     cs_closed_by := Some (actor_values ctx),
     cs_close_actor_scope := Some (actor_scope ctx),
     cs_close_idempotency_key := Some idempotency_key,
     cs_close_request_schema_version := Some REQUEST_SCHEMA_VERSION,
     cs_close_request_fingerprint := Some fingerprint,
     cs_status := CS_CLOSED,
     cs_open_slot := None\<rparr>"

text \<open>An UPDATE must leave the row within the CHECK constraints and apart from every other row.\<close>

definition cash_session_updatable :: "cash_session list \<Rightarrow> cash_session \<Rightarrow> bool" where
  "cash_session_updatable rows s \<longleftrightarrow>
     cash_session_ok s \<and> list_all (\<lambda>r. cs_id r = cs_id s \<or> \<not> cash_sessions_collide s r) rows"

text \<open>The reason is kept only with a variance; the row that a close of session and count writes.\<close>

definition effective_reason :: "rat \<Rightarrow> string option \<Rightarrow> string option" where
  "effective_reason variance reason = (if variance = 0 then None else reason)"

definition closing_row ::
  "(json \<Rightarrow> string) \<Rightarrow> execution_context \<Rightarrow> datetime \<Rightarrow> string option \<Rightarrow> string \<Rightarrow> rat \<Rightarrow> cash_count
   \<Rightarrow> cash_session \<Rightarrow> cash_session"
where
  "closing_row sha ctx now reason key expected counted s =
     (let variance = ct_counted_amount counted - expected;
          kept = effective_reason variance reason
      in close_session_row ctx now (ct_id counted) expected variance kept key
           (close_fingerprint sha (cs_id s) (ct_id counted) kept) s)"

text \<open>A session that is closed already: a replay of the command that closed it, or a conflict.\<close>

definition close_closed_session ::
  "(json \<Rightarrow> string) \<Rightarrow> execution_context \<Rightarrow> int \<Rightarrow> int \<Rightarrow> string option \<Rightarrow> string \<Rightarrow> cash_session \<Rightarrow> db
   \<Rightarrow> cash_error + ((cash_session_projection \<times> bool) \<times> db)"
where
  "close_closed_session sha ctx cash_session_id cash_count_id reason idempotency_key session d =
     (let kept = (if cs_frozen_variance session = Some 0 then None else reason);
          fingerprint = close_fingerprint sha cash_session_id cash_count_id kept
      in if cs_close_actor_scope session = Some (actor_scope ctx)
            \<and> cs_close_idempotency_key session = Some idempotency_key
         then (if cs_close_request_fingerprint session \<noteq> Some fingerprint
               then Inl CashSessionCloseIdempotencyConflictError
               else Inr ((session_projection d session, True), d))
         else Inl CashSessionCloseConflictError)"

text \<open>The handler of an IntegrityError at the commit of a close.\<close>

definition close_lost_race ::
  "(json \<Rightarrow> string) \<Rightarrow> execution_context \<Rightarrow> int \<Rightarrow> int \<Rightarrow> string option \<Rightarrow> string \<Rightarrow> db
   \<Rightarrow> cash_error + ((cash_session_projection \<times> bool) \<times> db)"
where
  "close_lost_race sha ctx cash_session_id cash_count_id reason idempotency_key d =
     (case close_by_key d ctx idempotency_key of
        None \<Rightarrow> Inl CashIntegrityError
      | Some winner \<Rightarrow>
          (let kept = (if cs_frozen_variance winner = Some 0 then None else reason)
           in if cs_close_request_fingerprint winner
                   \<noteq> Some (close_fingerprint sha cash_session_id cash_count_id kept)
              then Inl CashSessionCloseIdempotencyConflictError
              else Inr ((session_projection d winner, True), d)))"

definition close_counted_session ::
  "(json \<Rightarrow> string) \<Rightarrow> execution_context \<Rightarrow> datetime \<Rightarrow> int \<Rightarrow> int \<Rightarrow> string option \<Rightarrow> string
   \<Rightarrow> cash_session \<Rightarrow> cash_count \<Rightarrow> db \<Rightarrow> db
   \<Rightarrow> cash_error + ((cash_session_projection \<times> bool) \<times> db)"
where
  "close_counted_session sha ctx now cash_session_id cash_count_id reason idempotency_key session
     counted snap d =
     (let expected = expected_cash snap (cs_id session);
          variance = ct_counted_amount counted - expected;
          closed = closing_row sha ctx now reason idempotency_key expected counted;
          d' = d\<lparr>cash_sessions := modify cs_id (cs_id session) closed (cash_sessions d)\<rparr>
      in if variance \<noteq> 0 \<and> effective_reason variance reason = None
         then Inl CashSessionVarianceReasonRequiredError
         else
           (case close_by_key snap ctx idempotency_key of
              Some other \<Rightarrow>
                if cs_close_request_fingerprint other \<noteq> cs_close_request_fingerprint (closed session)
                then Inl CashSessionCloseIdempotencyConflictError
                else Inr ((session_projection d other, True), d)
            | None \<Rightarrow>
                if cash_session_updatable (cash_sessions d) (closed session)
                then Inr ((session_projection d' (closed session), False), d')
                else close_lost_race sha ctx cash_session_id cash_count_id reason idempotency_key d))"

definition close_cash_session ::
  "(json \<Rightarrow> string) \<Rightarrow> execution_context \<Rightarrow> datetime \<Rightarrow> int \<Rightarrow> int \<Rightarrow> int \<Rightarrow> string option \<Rightarrow> string \<Rightarrow> db \<Rightarrow> db
   \<Rightarrow> cash_error + ((cash_session_projection \<times> bool) \<times> db)"
where
  "close_cash_session sha ctx now cash_session_id location_id cash_count_id variance_reason
     idempotency_key snap d =
     bind_result (require_cash_session_location snap (tenant_id ctx) (Some location_id) cash_session_id) (\<lambda>_.
     bind_result (cash_text variance_reason 500) (\<lambda>reason.
     case locked_cash_session d cash_session_id (tenant_id ctx) location_id of
       None \<Rightarrow> Inl CashSessionNotFoundError
     | Some session \<Rightarrow>
       if cs_status session = CS_CLOSED
       then close_closed_session sha ctx cash_session_id cash_count_id reason idempotency_key session d
       else
     (case List.find (\<lambda>c. ct_id c = cash_count_id \<and> ct_tenant_id c = tenant_id ctx) (cash_counts d) of
        None \<Rightarrow> Inl CashCountNotFoundError
      | Some counted \<Rightarrow>
          if ct_cash_session_id counted \<noteq> cs_id session then Inl CashCountSessionConflictError
          else if ct_currency counted \<noteq> cs_currency session then Inl CashCountSessionConflictError
          else if ct_captured_movement_version counted \<noteq> cs_movement_version session
               then Inl StaleCashCountError
          else close_counted_session sha ctx now cash_session_id cash_count_id reason idempotency_key
                 session counted snap d)))"

end
