(* ===== verification/CashProofs.thy ===== *)
theory CashProofs
  imports CashManagement
begin

text \<open>
  The correctness of the cash management service: what each command does on success, the invariant
  of the cash tables and its preservation, idempotent retries, and the soundness of closing on a
  snapshot that may be older than the locked rows.
\<close>

section \<open>What a successful command did\<close>

lemma canonical_currency_code:
  "canonical_currency s = Inr c \<Longrightarrow> currency_code c \<and> c = upper (strip s)"
  by (auto simp: canonical_currency_def currency_code_def Let_def upper_letters split: if_splits)

lemma cash_text_result:
  "cash_text t n = Inr (Some r) \<Longrightarrow> sql_not_blank r \<and> length r \<le> n"
  by (auto simp: cash_text_def Let_def strip_not_blank split: option.splits if_splits)

lemma exact_money_result:
  "exact_money v z c = Inr x \<Longrightarrow> v = PyDecimal x \<and> 0 \<le> x \<and> (x = 0 \<longrightarrow> z) \<and> quantize4 x = Some x"
  by (auto simp: exact_money_def Let_def split: pynum.splits option.splits if_splits)

lemma open_locked_new:
  assumes "open_cash_session_locked ctx now cashier rid lid cur key fp d = Inr ((v, False), d')"
  obtains loc res where
    "List.find (\<lambda>l. loc_id l = lid \<and> loc_tenant_id l = tenant_id ctx) (locations d) = Some loc"
    "List.find (\<lambda>r. res_id r = rid \<and> res_tenant_id r = tenant_id ctx \<and> res_location_id r = lid)
       (resources d) = Some res"
    "by_open_key d ctx key = None" "res_status res = ''ACTIVE''"
    "loc_cash_management_activated_at loc \<noteq> None"
    "cash_session_insertable (cash_sessions d) (opened_session d ctx now loc (res_id res) cashier cur key fp)"
    "d' = add_cash_session (opened_session d ctx now loc (res_id res) cashier cur key fp) d"
    "v = session_projection d' (opened_session d ctx now loc (res_id res) cashier cur key fp)"
  using assms
  by (auto simp: open_cash_session_locked_def Let_def bind_result_Inr_iff
      split: option.splits if_splits)

lemma open_locked_replay:
  assumes "open_cash_session_locked ctx now cashier rid lid cur key fp d = Inr ((v, True), d')"
  shows "d' = d"
  using assms
  by (auto simp: open_cash_session_locked_def Let_def bind_result_Inr_iff
      split: option.splits if_splits)

lemma open_success:
  assumes "open_cash_session sha ctx now rid lid cur key snap d = Inr ((v, b), d')"
  obtains (replay) "b" "d' = d"
  | (new) cashier c where "\<not> b" "principal_id ctx = Some cashier" "actor_type ctx = EMPLOYEE"
      "canonical_currency cur = Inr c" "by_open_key snap ctx key = None"
      "open_cash_session_locked ctx now cashier rid lid c key (open_fingerprint sha ctx rid c) d
         = Inr ((v, False), d')"
  using assms
  by (cases b) (auto simp: open_cash_session_def Let_def bind_result_Inr_iff dest: open_locked_replay
      split: option.splits if_splits)

lemma movement_locked_new:
  assumes "create_manual_movement_locked ctx now sid lid w key fp d = Inr ((v, False), d')"
  obtains s where
    "locked_cash_session d sid (tenant_id ctx) lid = Some s" "movement_by_key d ctx key = None"
    "cs_status s = CS_OPEN" "cs_currency s = fst (snd (snd w))"
    "cash_movement_insertable (cash_movements d) (manual_movement d ctx now s w key fp)"
    "d' = add_cash_movement (manual_movement d ctx now s w key fp) d"
    "v = movement_projection (manual_movement d ctx now s w key fp)"
  using assms
  by (auto simp: create_manual_movement_locked_def Let_def bind_result_Inr_iff
      split: option.splits if_splits)

lemma movement_locked_unused_key:
  assumes "create_manual_movement_locked ctx now sid lid w key fp d = Inr ((v, b), d')"
    and "movement_by_key d ctx key = None"
  shows "\<not> b"
  using assms
  by (cases "locked_cash_session d sid (tenant_id ctx) lid")
    (auto simp: create_manual_movement_locked_def Let_def split: if_splits)

lemma movement_locked_replay:
  assumes "create_manual_movement_locked ctx now sid lid w key fp d = Inr ((v, True), d')"
  shows "d' = d"
  using assms
  by (auto simp: create_manual_movement_locked_def Let_def bind_result_Inr_iff
      split: option.splits if_splits)

lemma movement_success:
  assumes "create_manual_movement sha ctx now sid lid mt am cur rs rf key snap d = Inr ((v, b), d')"
  obtains (replay) "b" "d' = d"
  | (new) w where "\<not> b" "validate_manual_movement mt am cur rs rf = Inr w"
      "movement_by_key snap ctx key = None"
      "create_manual_movement_locked ctx now sid lid w key (movement_fingerprint sha sid w) d
         = Inr ((v, False), d')"
  using assms
  by (cases b) (auto simp: create_manual_movement_def Let_def bind_result_Inr_iff
      dest: movement_locked_replay split: option.splits if_splits)

lemma count_locked_new:
  assumes "create_cash_count_locked ctx now sid lid am cur key fp d = Inr ((v, False), d')"
  obtains s where
    "locked_cash_session d sid (tenant_id ctx) lid = Some s" "count_by_key d ctx key = None"
    "cs_status s = CS_OPEN" "cs_currency s = cur"
    "cash_count_insertable (cash_counts d) (captured_count d ctx now s am cur key fp)"
    "d' = add_cash_count (captured_count d ctx now s am cur key fp) d"
    "v = count_projection (captured_count d ctx now s am cur key fp)"
  using assms
  by (auto simp: create_cash_count_locked_def Let_def bind_result_Inr_iff
      split: option.splits if_splits)

lemma count_locked_replay:
  assumes "create_cash_count_locked ctx now sid lid am cur key fp d = Inr ((v, True), d')"
  shows "d' = d"
  using assms
  by (auto simp: create_cash_count_locked_def Let_def bind_result_Inr_iff
      split: option.splits if_splits)

lemma count_success:
  assumes "create_cash_count sha ctx now sid lid am cur key snap d = Inr ((v, b), d')"
  obtains (replay) "b" "d' = d"
  | (new) x c where "\<not> b" "exact_money am True True = Inr x" "canonical_currency cur = Inr c"
      "count_by_key snap ctx key = None"
      "create_cash_count_locked ctx now sid lid x c key (count_fingerprint sha sid x c) d
         = Inr ((v, False), d')"
  using assms
  by (cases b) (auto simp: create_cash_count_def Let_def bind_result_Inr_iff
      dest: count_locked_replay split: option.splits if_splits)

lemma close_closed_keeps:
  "close_closed_session sha ctx sid cid reason key s d = Inr ((v, b), d') \<Longrightarrow> b \<and> d' = d"
  by (auto simp: close_closed_session_def Let_def split: if_splits)

lemma close_lost_race_keeps:
  "close_lost_race sha ctx sid cid reason key d = Inr ((v, b), d') \<Longrightarrow> b \<and> d' = d"
  by (auto simp: close_lost_race_def Let_def split: if_splits option.splits)

lemma close_counted_success:
  assumes "close_counted_session sha ctx now sid cid reason key s c snap d = Inr ((v, b), d')"
  obtains (replay) "b" "d' = d"
  | (new) row where "\<not> b"
      "row = closing_row sha ctx now reason key (expected_cash snap (cs_id s)) c"
      "ct_counted_amount c \<noteq> expected_cash snap (cs_id s) \<longrightarrow> reason \<noteq> None"
      "close_by_key snap ctx key = None"
      "cash_session_updatable (cash_sessions d) (row s)"
      "d' = d\<lparr>cash_sessions := modify cs_id (cs_id s) row (cash_sessions d)\<rparr>"
      "v = session_projection d' (row s)"
  using assms
  by (auto simp: close_counted_session_def effective_reason_def Let_def dest: close_lost_race_keeps
      split: if_splits option.splits)

lemma close_success:
  assumes "close_cash_session sha ctx now sid lid cid vr key snap d = Inr ((v, b), d')"
  obtains (replay) "b" "d' = d"
  | (new) s c reason row where "\<not> b" "cash_text vr 500 = Inr reason"
      "locked_cash_session d sid (tenant_id ctx) lid = Some s" "cs_status s = CS_OPEN"
      "List.find (\<lambda>c. ct_id c = cid \<and> ct_tenant_id c = tenant_id ctx) (cash_counts d) = Some c"
      "ct_cash_session_id c = cs_id s" "ct_currency c = cs_currency s"
      "ct_captured_movement_version c = cs_movement_version s"
      "row = closing_row sha ctx now reason key (expected_cash snap (cs_id s)) c"
      "ct_counted_amount c \<noteq> expected_cash snap (cs_id s) \<longrightarrow> reason \<noteq> None"
      "cash_session_updatable (cash_sessions d) (row s)"
      "d' = d\<lparr>cash_sessions := modify cs_id (cs_id s) row (cash_sessions d)\<rparr>"
      "v = session_projection d' (row s)"
proof -
  from assms obtain reason where reason: "cash_text vr 500 = Inr reason"
    and body: "(case locked_cash_session d sid (tenant_id ctx) lid of
       None \<Rightarrow> Inl CashSessionNotFoundError
     | Some session \<Rightarrow>
       if cs_status session = CS_CLOSED
       then close_closed_session sha ctx sid cid reason key session d
       else
     (case List.find (\<lambda>c. ct_id c = cid \<and> ct_tenant_id c = tenant_id ctx) (cash_counts d) of
        None \<Rightarrow> Inl CashCountNotFoundError
      | Some counted \<Rightarrow>
          if ct_cash_session_id counted \<noteq> cs_id session then Inl CashCountSessionConflictError
          else if ct_currency counted \<noteq> cs_currency session then Inl CashCountSessionConflictError
          else if ct_captured_movement_version counted \<noteq> cs_movement_version session
               then Inl StaleCashCountError
          else close_counted_session sha ctx now sid cid reason key session counted snap d))
      = Inr ((v, b), d')"
    by (auto simp: close_cash_session_def bind_result_Inr_iff)
  from body obtain s where s: "locked_cash_session d sid (tenant_id ctx) lid = Some s"
    by (cases "locked_cash_session d sid (tenant_id ctx) lid") auto
  show thesis
  proof (cases "cs_status s")
    case CS_CLOSED
    with body s that(1) show thesis by (auto dest: close_closed_keeps)
  next
    case CS_OPEN
    with body s obtain c where
      c: "List.find (\<lambda>c. ct_id c = cid \<and> ct_tenant_id c = tenant_id ctx) (cash_counts d) = Some c"
      by (auto split: option.splits)
    with body s CS_OPEN have c_ok: "ct_cash_session_id c = cs_id s" "ct_currency c = cs_currency s"
        "ct_captured_movement_version c = cs_movement_version s"
      and run: "close_counted_session sha ctx now sid cid reason key s c snap d = Inr ((v, b), d')"
      by (auto split: if_splits)
    from run show thesis
      by (cases rule: close_counted_success) (use that reason s CS_OPEN c c_ok in blast)+
  qed
qed

section \<open>The invariant of the cash tables\<close>

definition movements_of :: "db \<Rightarrow> int \<Rightarrow> cash_movement list" where
  "movements_of d i = filter (\<lambda>m. mv_cash_session_id m = i) (cash_movements d)"

definition cash_keys_ok :: "db \<Rightarrow> bool" where
  "cash_keys_ok d \<longleftrightarrow>
     distinct (map cs_id (cash_sessions d)) \<and> distinct (map mv_id (cash_movements d))
     \<and> distinct (map ct_id (cash_counts d))"

definition cash_rows_ok :: "db \<Rightarrow> bool" where
  "cash_rows_ok d \<longleftrightarrow>
     (\<forall>s \<in> set (cash_sessions d). cash_session_ok s) \<and>
     (\<forall>m \<in> set (cash_movements d). cash_movement_ok m) \<and>
     (\<forall>c \<in> set (cash_counts d). cash_count_ok c)"

definition cash_unique :: "db \<Rightarrow> bool" where
  "cash_unique d \<longleftrightarrow>
     (\<forall>s \<in> set (cash_sessions d). \<forall>t \<in> set (cash_sessions d).
        cs_id s \<noteq> cs_id t \<longrightarrow> \<not> cash_sessions_collide s t) \<and>
     (\<forall>s \<in> set (cash_movements d). \<forall>t \<in> set (cash_movements d).
        mv_id s \<noteq> mv_id t \<longrightarrow> \<not> cash_movements_collide s t) \<and>
     (\<forall>s \<in> set (cash_counts d). \<forall>t \<in> set (cash_counts d).
        ct_id s \<noteq> ct_id t \<longrightarrow> \<not> cash_counts_collide s t)"

definition cash_versions_ok :: "db \<Rightarrow> bool" where
  "cash_versions_ok d \<longleftrightarrow>
     (\<forall>s \<in> set (cash_sessions d). cs_movement_version s = int (length (movements_of d (cs_id s)))) \<and>
     (\<forall>m \<in> set (cash_movements d). mv_cash_session_id m \<in> cs_id ` set (cash_sessions d)) \<and>
     (\<forall>c \<in> set (cash_counts d). \<exists>s \<in> set (cash_sessions d).
        cs_id s = ct_cash_session_id c \<and> ct_captured_movement_version c \<le> cs_movement_version s)"

text \<open>What a closed session has frozen agrees with its movements and with the selected count.\<close>

definition closed_consistent :: "db \<Rightarrow> cash_session \<Rightarrow> bool" where
  "closed_consistent d s \<longleftrightarrow>
     cs_frozen_expected_cash s = Some (expected_cash d (cs_id s)) \<and>
     cs_final_movement_version s = Some (cs_movement_version s) \<and>
     (\<exists>c \<in> set (cash_counts d).
        cs_selected_cash_count_id s = Some (ct_id c) \<and> ct_cash_session_id c = cs_id s \<and>
        ct_captured_movement_version c = cs_movement_version s \<and>
        cs_frozen_variance s = Some (ct_counted_amount c - expected_cash d (cs_id s)))"

definition cash_closed_ok :: "db \<Rightarrow> bool" where
  "cash_closed_ok d \<longleftrightarrow>
     (\<forall>s \<in> set (cash_sessions d). cs_status s = CS_CLOSED \<longrightarrow> closed_consistent d s)"

definition cash_inv :: "db \<Rightarrow> bool" where
  "cash_inv d \<longleftrightarrow>
     cash_keys_ok d \<and> cash_rows_ok d \<and> cash_unique d \<and> cash_versions_ok d \<and> cash_closed_ok d"

lemmas cash_inv_defs = cash_inv_def cash_keys_ok_def cash_rows_ok_def cash_unique_def
  cash_versions_ok_def cash_closed_ok_def

lemma cash_inv_empty: "cash_inv empty_db"
  by (simp add: cash_inv_defs empty_db_def)

text \<open>The invariant reads the three cash tables only.\<close>

lemma cash_inv_cong:
  assumes "cash_sessions d' = cash_sessions d" "cash_movements d' = cash_movements d"
    "cash_counts d' = cash_counts d"
  shows "cash_inv d' = cash_inv d"
  using assms by (simp add: cash_inv_defs closed_consistent_def movements_of_def expected_cash_def)

lemma cash_sessions_collide_sym: "cash_sessions_collide a b = cash_sessions_collide b a"
  unfolding cash_sessions_collide_def same_slot_def by metis

lemma cash_movements_collide_sym: "cash_movements_collide a b = cash_movements_collide b a"
  unfolding cash_movements_collide_def same_slot_def by metis

lemma cash_counts_collide_sym: "cash_counts_collide a b = cash_counts_collide b a"
  unfolding cash_counts_collide_def by metis

lemma insertable_session_iff:
  "cash_session_insertable rows s \<longleftrightarrow>
     cash_session_ok s \<and> (\<forall>r \<in> set rows. \<not> cash_sessions_collide s r)"
  by (simp add: cash_session_insertable_def list_all_iff)

lemma insertable_movement_iff:
  "cash_movement_insertable rows m \<longleftrightarrow>
     cash_movement_ok m \<and> (\<forall>r \<in> set rows. \<not> cash_movements_collide m r)"
  by (simp add: cash_movement_insertable_def list_all_iff)

lemma insertable_count_iff:
  "cash_count_insertable rows c \<longleftrightarrow> cash_count_ok c \<and> (\<forall>r \<in> set rows. \<not> cash_counts_collide c r)"
  by (simp add: cash_count_insertable_def list_all_iff)

lemma expected_cash_alt: "expected_cash d i = sum_by mv_amount (movements_of d i)"
  by (simp add: expected_cash_def movements_of_def)

lemma session_update_keeps_movements [simp]:
  "movements_of (d\<lparr>cash_sessions := rows\<rparr>) i = movements_of d i"
  "expected_cash (d\<lparr>cash_sessions := rows\<rparr>) i = expected_cash d i"
  by (simp_all add: movements_of_def expected_cash_def)

subsection \<open>A new session\<close>

lemma movements_of_fresh_session:
  assumes "cash_versions_ok d"
  shows "movements_of d (next_id cs_id (cash_sessions d)) = []"
proof -
  have "mv_cash_session_id m \<noteq> next_id cs_id (cash_sessions d)" if "m \<in> set (cash_movements d)" for m
    using that assms next_id_fresh[of cs_id "cash_sessions d"]
    unfolding cash_versions_ok_def by metis
  then show ?thesis by (simp add: movements_of_def filter_empty_conv)
qed

lemma cash_inv_add_session:
  assumes inv: "cash_inv d" and ins: "cash_session_insertable (cash_sessions d) s"
    and id: "cs_id s = next_id cs_id (cash_sessions d)"
    and new: "cs_status s = CS_OPEN" "cs_movement_version s = 0"
  shows "cash_inv (add_cash_session s d)"
proof -
  have tabs: "cash_sessions (add_cash_session s d) = cash_sessions d @ [s]"
    "cash_movements (add_cash_session s d) = cash_movements d"
    "cash_counts (add_cash_session s d) = cash_counts d"
    by (simp_all add: add_cash_session_def)
  have mv: "movements_of (add_cash_session s d) i = movements_of d i"
    "expected_cash (add_cash_session s d) i = expected_cash d i" for i
    by (simp_all add: movements_of_def expected_cash_def tabs)
  have fresh: "cs_id s \<notin> cs_id ` set (cash_sessions d)"
    using id next_id_fresh by metis
  have empty: "movements_of d (cs_id s) = []"
    using inv id movements_of_fresh_session by (auto simp: cash_inv_def)
  have "cash_keys_ok (add_cash_session s d)"
    using inv fresh by (simp add: cash_inv_defs tabs)
  moreover have "cash_rows_ok (add_cash_session s d)"
    using inv ins by (auto simp: cash_inv_defs tabs insertable_session_iff)
  moreover have "cash_unique (add_cash_session s d)"
    using inv ins by (auto simp: cash_inv_defs tabs insertable_session_iff cash_sessions_collide_sym)
  moreover have "cash_versions_ok (add_cash_session s d)"
    using inv new empty by (auto simp: cash_inv_defs tabs mv)
  moreover have "cash_closed_ok (add_cash_session s d)"
    using inv new by (auto simp: cash_inv_defs closed_consistent_def tabs mv)
  ultimately show ?thesis by (simp add: cash_inv_def)
qed

subsection \<open>A new movement\<close>

interpretation bump: row_update cs_id bump_movement_version
  by unfold_locales (simp add: bump_movement_version_def)

lemma bump_sel [simp, row_simps]:
  "cs_status (bump_movement_version s) = cs_status s"
  "cs_movement_version (bump_movement_version s) = cs_movement_version s + 1"
  "cs_id (bump_movement_version s) = cs_id s"
  by (simp_all add: bump_movement_version_def)

lemma bump_ok: "cash_session_ok s \<Longrightarrow> cash_session_ok (bump_movement_version s)"
  by (simp add: cash_session_ok_def bump_movement_version_def)

lemma bump_collide:
  "cash_sessions_collide (bump_movement_version a) b = cash_sessions_collide a b"
  "cash_sessions_collide a (bump_movement_version b) = cash_sessions_collide a b"
  by (simp_all add: cash_sessions_collide_def bump_movement_version_def)

lemma add_cash_movement_tables:
  "cash_movements (add_cash_movement m d) = cash_movements d @ [m]"
  "cash_counts (add_cash_movement m d) = cash_counts d"
  "cash_sessions (add_cash_movement m d)
     = modify cs_id (mv_cash_session_id m) bump_movement_version (cash_sessions d)"
  by (simp_all add: add_cash_movement_def)

lemma movements_of_add:
  "movements_of (add_cash_movement m d) i
     = movements_of d i @ (if mv_cash_session_id m = i then [m] else [])"
  by (simp add: movements_of_def add_cash_movement_tables)

lemma expected_cash_add:
  "expected_cash (add_cash_movement m d) i
     = expected_cash d i + (if mv_cash_session_id m = i then mv_amount m else 0)"
  by (simp add: expected_cash_alt movements_of_add)

lemma add_movement_session:
  assumes "r \<in> set (cash_sessions (add_cash_movement m d))"
  obtains r0 where "r0 \<in> set (cash_sessions d)" "cs_id r0 = cs_id r"
    "r = (if cs_id r0 = mv_cash_session_id m then bump_movement_version r0 else r0)"
  using assms by (auto simp: add_cash_movement_tables set_modify split: if_splits)

lemma cash_inv_add_movement:
  assumes inv: "cash_inv d" and s: "s \<in> set (cash_sessions d)" "cs_status s = CS_OPEN"
    and m: "mv_cash_session_id m = cs_id s" "mv_id m = next_id mv_id (cash_movements d)"
    and ins: "cash_movement_insertable (cash_movements d) m"
  shows "cash_inv (add_cash_movement m d)"
proof -
  let ?d = "add_cash_movement m d"
  have fresh: "mv_id m \<notin> mv_id ` set (cash_movements d)"
    using m next_id_fresh by metis
  have "cash_keys_ok ?d"
    using inv fresh by (simp add: cash_inv_defs add_cash_movement_tables bump.ids_modify)
  moreover have "cash_rows_ok ?d"
    using inv ins
    by (auto simp: cash_inv_defs insertable_movement_iff add_cash_movement_tables set_modify
        intro!: bump_ok)
  moreover have "cash_unique ?d"
  proof -
    have "\<not> cash_sessions_collide a b"
      if "a \<in> set (cash_sessions ?d)" "b \<in> set (cash_sessions ?d)" "cs_id a \<noteq> cs_id b" for a b
    proof -
      from that(1) obtain a0 where a0: "a0 \<in> set (cash_sessions d)" "cs_id a0 = cs_id a"
        "a = (if cs_id a0 = mv_cash_session_id m then bump_movement_version a0 else a0)"
        by (rule add_movement_session)
      from that(2) obtain b0 where b0: "b0 \<in> set (cash_sessions d)" "cs_id b0 = cs_id b"
        "b = (if cs_id b0 = mv_cash_session_id m then bump_movement_version b0 else b0)"
        by (rule add_movement_session)
      from inv that(3) a0(1,2) b0(1,2) have "\<not> cash_sessions_collide a0 b0"
        by (simp add: cash_inv_def cash_unique_def)
      then show ?thesis by (simp add: a0(3) b0(3) bump_collide)
    qed
    moreover have "\<not> cash_movements_collide a b"
      if "a \<in> set (cash_movements ?d)" "b \<in> set (cash_movements ?d)" "mv_id a \<noteq> mv_id b" for a b
      using that inv ins
      by (auto simp: cash_inv_defs add_cash_movement_tables insertable_movement_iff
          cash_movements_collide_sym)
    ultimately show ?thesis
      using inv by (simp add: cash_inv_defs add_cash_movement_tables(2))
  qed
  moreover have "cash_versions_ok ?d"
  proof -
    have "cs_movement_version r = int (length (movements_of ?d (cs_id r)))"
      if "r \<in> set (cash_sessions ?d)" for r
    proof -
      from that obtain r0 where "r0 \<in> set (cash_sessions d)" "cs_id r0 = cs_id r"
        "r = (if cs_id r0 = mv_cash_session_id m then bump_movement_version r0 else r0)"
        by (rule add_movement_session)
      with inv show ?thesis by (simp add: cash_inv_def cash_versions_ok_def movements_of_add)
    qed
    moreover have "cs_id ` set (cash_sessions ?d) = cs_id ` set (cash_sessions d)"
      by (metis add_cash_movement_tables(3) bump.ids_modify list.set_map)
    moreover have "\<exists>t \<in> set (cash_sessions ?d). cs_id t = ct_cash_session_id c
        \<and> ct_captured_movement_version c \<le> cs_movement_version t" if "c \<in> set (cash_counts d)" for c
    proof -
      from that inv obtain t where t: "t \<in> set (cash_sessions d)" "cs_id t = ct_cash_session_id c"
        "ct_captured_movement_version c \<le> cs_movement_version t"
        by (auto simp: cash_inv_defs)
      let ?t = "if cs_id t = mv_cash_session_id m then bump_movement_version t else t"
      have "?t \<in> set (cash_sessions ?d)"
        using t(1) unfolding add_cash_movement_tables set_modify by blast
      with t show ?thesis by (intro bexI[of _ ?t]) auto
    qed
    ultimately show ?thesis
      using inv s m by (auto simp: cash_inv_defs add_cash_movement_tables(1,2))
  qed
  moreover have "cash_closed_ok ?d"
    unfolding cash_closed_ok_def
  proof (intro ballI impI)
    fix r
    assume r: "r \<in> set (cash_sessions ?d)" "cs_status r = CS_CLOSED"
    from r(1) obtain r0 where r0: "r0 \<in> set (cash_sessions d)" "cs_id r0 = cs_id r"
      "r = (if cs_id r0 = mv_cash_session_id m then bump_movement_version r0 else r0)"
      by (rule add_movement_session)
    have "r0 \<noteq> s" using r r0(3) s(2) m(1) by auto
    then have "cs_id r0 \<noteq> cs_id s"
      using r0(1) s(1) inv same_row_if_same_id[of cs_id "cash_sessions d" r0 s]
      by (auto simp: cash_inv_defs)
    with r0 m have "r = r0" "mv_cash_session_id m \<noteq> cs_id r" by auto
    moreover from this inv r r0(1) have "closed_consistent d r" by (auto simp: cash_inv_defs)
    ultimately show "closed_consistent ?d r"
      by (simp add: closed_consistent_def expected_cash_add add_cash_movement_tables)
  qed
  ultimately show ?thesis by (simp add: cash_inv_def)
qed

subsection \<open>A new count\<close>

lemma cash_inv_add_count:
  assumes inv: "cash_inv d" and s: "s \<in> set (cash_sessions d)"
    and c: "ct_cash_session_id c = cs_id s" "ct_captured_movement_version c = cs_movement_version s"
      "ct_id c = next_id ct_id (cash_counts d)"
    and ins: "cash_count_insertable (cash_counts d) c"
  shows "cash_inv (add_cash_count c d)"
proof -
  let ?d = "add_cash_count c d"
  have tabs: "cash_sessions ?d = cash_sessions d" "cash_movements ?d = cash_movements d"
    "cash_counts ?d = cash_counts d @ [c]"
    by (simp_all add: add_cash_count_def)
  have mv: "movements_of ?d i = movements_of d i" "expected_cash ?d i = expected_cash d i" for i
    by (simp_all add: movements_of_def expected_cash_def tabs)
  have fresh: "ct_id c \<notin> ct_id ` set (cash_counts d)"
    using c next_id_fresh by metis
  have "cash_keys_ok ?d"
    using inv fresh by (simp add: cash_inv_defs tabs)
  moreover have "cash_rows_ok ?d"
    using inv ins by (auto simp: cash_inv_defs tabs insertable_count_iff)
  moreover have "cash_unique ?d"
    using inv ins by (auto simp: cash_inv_defs tabs insertable_count_iff cash_counts_collide_sym)
  moreover have "cash_versions_ok ?d"
    using inv s c by (auto simp: cash_inv_defs tabs mv)
  moreover have "cash_closed_ok ?d"
    using inv unfolding cash_inv_defs closed_consistent_def tabs mv set_append by blast
  ultimately show ?thesis by (simp add: cash_inv_def)
qed

subsection \<open>A close\<close>

lemma closing_row_sel [simp, row_simps]:
  "cs_id (closing_row sha ctx now reason key e c s) = cs_id s"
  "cs_status (closing_row sha ctx now reason key e c s) = CS_CLOSED"
  "cs_movement_version (closing_row sha ctx now reason key e c s) = cs_movement_version s"
  "cs_final_movement_version (closing_row sha ctx now reason key e c s) = Some (cs_movement_version s)"
  "cs_frozen_expected_cash (closing_row sha ctx now reason key e c s) = Some e"
  "cs_frozen_variance (closing_row sha ctx now reason key e c s) = Some (ct_counted_amount c - e)"
  "cs_selected_cash_count_id (closing_row sha ctx now reason key e c s) = Some (ct_id c)"
  "cs_open_slot (closing_row sha ctx now reason key e c s) = None"
  by (simp_all add: closing_row_def close_session_row_def Let_def)

interpretation closing: row_update cs_id "closing_row sha ctx now reason key e c"
  for sha ctx now reason key e c
  by unfold_locales simp

lemma updatable_session_iff:
  "cash_session_updatable rows s \<longleftrightarrow>
     cash_session_ok s \<and> (\<forall>r \<in> set rows. cs_id r = cs_id s \<or> \<not> cash_sessions_collide s r)"
  by (simp add: cash_session_updatable_def list_all_iff)

lemma cash_inv_close:
  assumes inv: "cash_inv d" and s: "s \<in> set (cash_sessions d)"
    and c: "c \<in> set (cash_counts d)" "ct_cash_session_id c = cs_id s"
      "ct_captured_movement_version c = cs_movement_version s"
    and row: "row = closing_row sha ctx now reason key (expected_cash d (cs_id s)) c"
    and upd: "cash_session_updatable (cash_sessions d) (row s)"
  shows "cash_inv (d\<lparr>cash_sessions := modify cs_id (cs_id s) row (cash_sessions d)\<rparr>)"
proof -
  let ?d = "d\<lparr>cash_sessions := modify cs_id (cs_id s) row (cash_sessions d)\<rparr>"
  have dist: "distinct (map cs_id (cash_sessions d))"
    using inv by (simp add: cash_inv_defs)
  have rows: "t \<in> set (cash_sessions ?d) \<longleftrightarrow>
      (t \<in> set (cash_sessions d) \<and> cs_id t \<noteq> cs_id s \<or> t = row s)" for t
    using set_modify_distinct[OF dist s refl, of t row] by simp
  have ids: "map cs_id (cash_sessions ?d) = map cs_id (cash_sessions d)"
    by (simp add: row closing.ids_modify)
  have "cash_keys_ok ?d"
    using inv ids by (simp add: cash_inv_defs)
  moreover have "cash_rows_ok ?d"
    using inv upd rows by (auto simp: cash_inv_defs updatable_session_iff)
  moreover have "cash_unique ?d"
  proof -
    have "\<not> cash_sessions_collide a b"
      if "a \<in> set (cash_sessions ?d)" "b \<in> set (cash_sessions ?d)" "cs_id a \<noteq> cs_id b" for a b
      using that inv upd cash_sessions_collide_sym[of a b] unfolding rows
      by (auto simp: cash_inv_def cash_unique_def updatable_session_iff row)
    then show ?thesis using inv by (simp add: cash_inv_def cash_unique_def)
  qed
  moreover have "cash_versions_ok ?d"
  proof -
    have versions: "cs_movement_version t = int (length (movements_of ?d (cs_id t)))"
      if "t \<in> set (cash_sessions ?d)" for t
      using that inv s unfolding rows by (auto simp: cash_inv_def cash_versions_ok_def row)
    have sess: "cs_id ` set (cash_sessions ?d) = cs_id ` set (cash_sessions d)"
      using ids by (metis list.set_map)
    have "\<exists>t \<in> set (cash_sessions ?d). cs_id t = ct_cash_session_id k
        \<and> ct_captured_movement_version k \<le> cs_movement_version t" if "k \<in> set (cash_counts d)" for k
    proof -
      from that inv obtain t where t: "t \<in> set (cash_sessions d)" "cs_id t = ct_cash_session_id k"
        "ct_captured_movement_version k \<le> cs_movement_version t"
        unfolding cash_inv_def cash_versions_ok_def by blast
      show ?thesis
      proof (cases "cs_id t = cs_id s")
        case True
        then have "t = s" using t(1) s same_row_if_same_id[OF dist] by blast
        with t rows show ?thesis by (intro bexI[of _ "row s"]) (auto simp: row)
      next
        case False
        with t rows show ?thesis by blast
      qed
    qed
    with versions sess inv show ?thesis
      by (simp add: cash_inv_def cash_versions_ok_def)
  qed
  moreover have "cash_closed_ok ?d"
  proof -
    have "closed_consistent ?d t" if "t \<in> set (cash_sessions ?d)" "cs_status t = CS_CLOSED" for t
    proof (cases "t = row s")
      case True
      with c show ?thesis by (auto simp: closed_consistent_def row)
    next
      case False
      with that rows inv have "closed_consistent d t" by (simp add: cash_inv_def cash_closed_ok_def)
      then show ?thesis by (simp add: closed_consistent_def)
    qed
    then show ?thesis by (simp add: cash_closed_ok_def)
  qed
  ultimately show ?thesis by (simp add: cash_inv_def)
qed

section \<open>Every command keeps the invariant\<close>

lemma locked_cash_session_in:
  "locked_cash_session d sid t lid = Some s \<Longrightarrow>
     s \<in> set (cash_sessions d) \<and> cs_id s = sid \<and> cs_tenant_id s = t \<and> cs_location_id s = lid"
  unfolding locked_cash_session_def by (drule find_SomeD) simp

lemma manual_movement_sel [simp, row_simps]:
  "mv_id (manual_movement d ctx now s v key fp) = next_id mv_id (cash_movements d)"
  "mv_cash_session_id (manual_movement d ctx now s v key fp) = cs_id s"
  "mv_movement_type (manual_movement d ctx now s v key fp) = fst v"
  "mv_amount (manual_movement d ctx now s v key fp) = fst (snd v)"
  "mv_request_fingerprint (manual_movement d ctx now s v key fp) = fp"
  "mv_tenant_id (manual_movement d ctx now s v key fp) = cs_tenant_id s"
  "mv_idempotency_actor_scope (manual_movement d ctx now s v key fp) = actor_scope ctx"
  "mv_idempotency_key (manual_movement d ctx now s v key fp) = key"
  by (simp_all add: manual_movement_def split: prod.splits)

lemma open_keeps_inv:
  assumes "cash_inv d" "open_cash_session sha ctx now rid lid cur key snap d = Inr ((v, b), d')"
  shows "cash_inv d'"
  using assms(2)
proof (cases rule: open_success)
  case replay
  with assms show ?thesis by simp
next
  case (new cashier c)
  from new(6) show ?thesis
    by (cases rule: open_locked_new)
      (simp add: cash_inv_add_session[OF assms(1)] opened_session_def)
qed

lemma movement_keeps_inv:
  assumes "cash_inv d"
    "create_manual_movement sha ctx now sid lid mt am cur rs rf key snap d = Inr ((v, b), d')"
  shows "cash_inv d'"
  using assms(2)
proof (cases rule: movement_success)
  case replay
  with assms show ?thesis by simp
next
  case (new w)
  from new(4) show ?thesis
  proof (cases rule: movement_locked_new)
    case (1 s)
    then have "s \<in> set (cash_sessions d)" by (simp add: locked_cash_session_in)
    with 1 show ?thesis by (simp add: cash_inv_add_movement[OF assms(1), of s])
  qed
qed

lemma count_keeps_inv:
  assumes "cash_inv d" "create_cash_count sha ctx now sid lid am cur key snap d = Inr ((v, b), d')"
  shows "cash_inv d'"
  using assms(2)
proof (cases rule: count_success)
  case replay
  with assms show ?thesis by simp
next
  case (new x c)
  from new(5) show ?thesis
  proof (cases rule: count_locked_new)
    case (1 s)
    then have "s \<in> set (cash_sessions d)" by (simp add: locked_cash_session_in)
    with 1 show ?thesis
      by (simp add: cash_inv_add_count[OF assms(1), of s] captured_count_def)
  qed
qed

section \<open>A database and an older snapshot of it\<close>

text \<open>
  Later databases extend earlier ones: movements and counts are only appended, a session stays, and a
  closed session stays as it is.
\<close>

definition cash_extends :: "db \<Rightarrow> db \<Rightarrow> bool" where
  "cash_extends old new \<longleftrightarrow>
     (\<exists>ms. cash_movements new = cash_movements old @ ms) \<and>
     (\<exists>cs. cash_counts new = cash_counts old @ cs) \<and>
     (\<forall>x \<in> set (cash_sessions old). \<exists>y \<in> set (cash_sessions new).
        cs_id y = cs_id x \<and> (cs_status x = CS_CLOSED \<longrightarrow> y = x))"

lemma cash_extends_refl [simp, intro]: "cash_extends d d"
  unfolding cash_extends_def by auto

lemma cash_extends_trans [trans]:
  assumes "cash_extends a b" "cash_extends b c"
  shows "cash_extends a c"
proof -
  have "\<exists>z \<in> set (cash_sessions c). cs_id z = cs_id x \<and> (cs_status x = CS_CLOSED \<longrightarrow> z = x)"
    if x: "x \<in> set (cash_sessions a)" for x
  proof -
    from assms(1) x obtain y where y: "y \<in> set (cash_sessions b)" "cs_id y = cs_id x"
      "cs_status x = CS_CLOSED \<longrightarrow> y = x"
      unfolding cash_extends_def by blast
    from assms(2) y(1) obtain z where "z \<in> set (cash_sessions c)" "cs_id z = cs_id y"
      "cs_status y = CS_CLOSED \<longrightarrow> z = y"
      unfolding cash_extends_def by blast
    with y show ?thesis by auto
  qed
  with assms show ?thesis unfolding cash_extends_def by auto
qed

lemma cash_extends_cong:
  assumes "cash_sessions d' = cash_sessions d" "cash_movements d' = cash_movements d"
    "cash_counts d' = cash_counts d"
  shows "cash_extends d d'"
  using assms unfolding cash_extends_def by auto

lemma cash_extends_add_session: "cash_extends d (add_cash_session s d)"
  unfolding cash_extends_def add_cash_session_def by auto

lemma cash_extends_add_count: "cash_extends d (add_cash_count c d)"
  unfolding cash_extends_def add_cash_count_def by auto

lemma cash_extends_modify:
  assumes inv: "cash_inv d" and s: "s \<in> set (cash_sessions d)" "cs_status s = CS_OPEN"
    and upd: "\<And>r. cs_id (f r) = cs_id r"
    and tabs: "cash_sessions d' = modify cs_id (cs_id s) f (cash_sessions d)"
      "\<exists>ms. cash_movements d' = cash_movements d @ ms" "\<exists>cs. cash_counts d' = cash_counts d @ cs"
  shows "cash_extends d d'"
proof -
  have dist: "distinct (map cs_id (cash_sessions d))"
    using inv by (simp add: cash_inv_defs)
  have "\<exists>y \<in> set (cash_sessions d'). cs_id y = cs_id x \<and> (cs_status x = CS_CLOSED \<longrightarrow> y = x)"
    if x: "x \<in> set (cash_sessions d)" for x
  proof (cases "x = s")
    case True
    with s upd show ?thesis
      unfolding tabs(1) by (intro bexI[of _ "f s"]) (simp_all add: set_modify_distinct[OF dist])
  next
    case False
    then have "cs_id x \<noteq> cs_id s" using same_row_if_same_id[OF dist x s(1)] by blast
    with x s show ?thesis
      unfolding tabs(1) by (intro bexI[of _ x]) (simp_all add: set_modify_distinct[OF dist])
  qed
  with tabs show ?thesis unfolding cash_extends_def by blast
qed

text \<open>
  A count that the snapshot already shows, taken at the version the session still has, proves that no
  movement was recorded since: the snapshot's expected cash is the current one.
\<close>

lemma snapshot_expected_cash:
  assumes inv: "cash_inv snap" "cash_inv d" and ext: "cash_extends snap d"
    and c: "c \<in> set (cash_counts snap)" "ct_cash_session_id c = cs_id s"
      "ct_captured_movement_version c = cs_movement_version s"
    and s: "s \<in> set (cash_sessions d)"
  shows "expected_cash snap (cs_id s) = expected_cash d (cs_id s)"
proof -
  from ext obtain ms where ms: "cash_movements d = cash_movements snap @ ms"
    unfolding cash_extends_def by blast
  let ?new = "filter (\<lambda>m. mv_cash_session_id m = cs_id s) ms"
  have split: "movements_of d (cs_id s) = movements_of snap (cs_id s) @ ?new"
    by (simp add: movements_of_def ms)
  from inv(1) c(1,2) obtain t where t: "t \<in> set (cash_sessions snap)" "cs_id t = cs_id s"
    "ct_captured_movement_version c \<le> cs_movement_version t"
    unfolding cash_inv_def cash_versions_ok_def by metis
  have "cs_movement_version t = int (length (movements_of snap (cs_id s)))"
    using inv(1) t unfolding cash_inv_def cash_versions_ok_def by metis
  moreover have "cs_movement_version s = int (length (movements_of d (cs_id s)))"
    using inv(2) s unfolding cash_inv_def cash_versions_ok_def by metis
  ultimately have "length (movements_of d (cs_id s)) \<le> length (movements_of snap (cs_id s))"
    using t(3) c(3) by linarith
  then have "?new = []" by (simp add: split)
  with split show ?thesis by (simp add: expected_cash_alt)
qed

text \<open>The snapshots a close may run on: earlier, well formed, and showing the count it names.\<close>

definition close_snapshot_ok :: "db \<Rightarrow> int \<Rightarrow> db \<Rightarrow> bool" where
  "close_snapshot_ok snap cash_count_id d \<longleftrightarrow>
     cash_inv snap \<and> cash_extends snap d \<and> list_ex (\<lambda>c. ct_id c = cash_count_id) (cash_counts snap)"

lemma snapshot_count:
  assumes "cash_inv d" "cash_extends snap d" "list_ex (\<lambda>c. ct_id c = cid) (cash_counts snap)"
    and "c \<in> set (cash_counts d)" "ct_id c = cid"
  shows "c \<in> set (cash_counts snap)"
proof -
  from assms(3) obtain k where k: "k \<in> set (cash_counts snap)" "ct_id k = cid"
    by (auto simp: list_ex_iff)
  with assms(2) have "k \<in> set (cash_counts d)" by (auto simp: cash_extends_def)
  moreover have "distinct (map ct_id (cash_counts d))"
    using assms(1) by (simp add: cash_inv_defs)
  ultimately have "k = c" using assms(4,5) k(2) same_row_if_same_id by metis
  with k show ?thesis by simp
qed

lemma close_snapshot_expected:
  assumes inv: "cash_inv d" and snap: "close_snapshot_ok snap cid d"
    and s: "s \<in> set (cash_sessions d)"
    and c: "List.find (\<lambda>c. ct_id c = cid \<and> ct_tenant_id c = t) (cash_counts d) = Some c"
      "ct_cash_session_id c = cs_id s" "ct_captured_movement_version c = cs_movement_version s"
  shows "expected_cash snap (cs_id s) = expected_cash d (cs_id s)"
proof -
  from c(1) have in_d: "c \<in> set (cash_counts d)" and id: "ct_id c = cid"
    by (auto dest: find_SomeD)
  from snap have "c \<in> set (cash_counts snap)"
    using snapshot_count[OF inv _ _ in_d id] by (simp add: close_snapshot_ok_def)
  with snap c inv s show ?thesis
    by (intro snapshot_expected_cash[where c = c]) (simp_all add: close_snapshot_ok_def)
qed

lemma close_keeps_inv:
  assumes inv: "cash_inv d" and snap: "close_snapshot_ok snap cid d"
    and run: "close_cash_session sha ctx now sid lid cid vr key snap d = Inr ((v, b), d')"
  shows "cash_inv d'"
  using run
proof (cases rule: close_success)
  case replay
  with inv show ?thesis by simp
next
  case (new s c reason row)
  then have s: "s \<in> set (cash_sessions d)" and c: "c \<in> set (cash_counts d)"
    by (auto dest: locked_cash_session_in find_SomeD)
  have "expected_cash snap (cs_id s) = expected_cash d (cs_id s)"
    using close_snapshot_expected[OF inv snap s] new by blast
  with new s c show ?thesis
    using cash_inv_close[OF inv s c, of row] by simp
qed

lemma open_extends:
  assumes "open_cash_session sha ctx now rid lid cur key snap d = Inr ((v, b), d')"
  shows "cash_extends d d'"
  using assms
  by (cases rule: open_success) (auto elim!: open_locked_new intro: cash_extends_add_session)

lemma movement_extends:
  assumes "cash_inv d"
    "create_manual_movement sha ctx now sid lid mt am cur rs rf key snap d = Inr ((v, b), d')"
  shows "cash_extends d d'"
  using assms(2)
proof (cases rule: movement_success)
  case (new w)
  from new(4) show ?thesis
  proof (cases rule: movement_locked_new)
    case (1 s)
    then have "s \<in> set (cash_sessions d)" by (simp add: locked_cash_session_in)
    with 1 assms(1) show ?thesis
      by (intro cash_extends_modify[of d s bump_movement_version])
        (simp_all add: add_cash_movement_tables)
  qed
qed simp

lemma count_extends:
  assumes "create_cash_count sha ctx now sid lid am cur key snap d = Inr ((v, b), d')"
  shows "cash_extends d d'"
  using assms
  by (cases rule: count_success) (auto elim!: count_locked_new intro: cash_extends_add_count)

lemma close_extends:
  assumes inv: "cash_inv d"
    and run: "close_cash_session sha ctx now sid lid cid vr key snap d = Inr ((v, b), d')"
  shows "cash_extends d d'"
  using run
proof (cases rule: close_success)
  case (new s c reason row)
  then have "s \<in> set (cash_sessions d)" by (simp add: locked_cash_session_in)
  with new inv show ?thesis
    by (intro cash_extends_modify[of d s row]) simp_all
qed simp

section \<open>Idempotent commands\<close>

text \<open>
  The three commands that store a row under an idempotency key meet the contract of
  \<^theory_text>\<open>idempotent_command\<close>; the environment of a send is the clock.
\<close>

definition open_run where
  "open_run sha now q d =
     (case q of (ctx, rid, lid, cur, key) \<Rightarrow> open_cash_session sha ctx now rid lid cur key d d)"

definition open_lookup :: "execution_context \<times> int \<times> int \<times> string \<times> string \<Rightarrow> db \<Rightarrow> cash_session option" where
  "open_lookup q d = (case q of (ctx, rid, lid, cur, key) \<Rightarrow> by_open_key d ctx key)"

definition open_request_fp :: "(json \<Rightarrow> string) \<Rightarrow> execution_context \<times> int \<times> int \<times> string \<times> string \<Rightarrow> string" where
  "open_request_fp sha q =
     (case q of (ctx, rid, lid, cur, key) \<Rightarrow> open_fingerprint sha ctx rid (upper (strip cur)))"

definition open_admissible :: "execution_context \<times> int \<times> int \<times> string \<times> string \<Rightarrow> db \<Rightarrow> bool" where
  "open_admissible q d =
     (case q of (ctx, rid, lid, cur, key) \<Rightarrow>
        principal_id ctx \<noteq> None \<and> actor_type ctx = EMPLOYEE
        \<and> require_cash_register_open_location d (tenant_id ctx) rid lid = Inr ()
        \<and> canonical_currency cur = Inr (upper (strip cur)))"

lemma by_open_key_append:
  "by_open_key d ctx key = None \<Longrightarrow> cs_tenant_id s = tenant_id ctx \<Longrightarrow>
   cs_open_actor_scope s = actor_scope ctx \<Longrightarrow> cs_open_idempotency_key s = key \<Longrightarrow>
   by_open_key (add_cash_session s d) ctx key = Some s"
  by (simp add: by_open_key_def add_cash_session_def find_append)

lemma opened_session_sel [simp, row_simps]:
  "cs_tenant_id (opened_session d ctx now loc rid cashier cur key fp) = tenant_id ctx"
  "cs_open_actor_scope (opened_session d ctx now loc rid cashier cur key fp) = actor_scope ctx"
  "cs_open_idempotency_key (opened_session d ctx now loc rid cashier cur key fp) = key"
  "cs_open_request_fingerprint (opened_session d ctx now loc rid cashier cur key fp) = fp"
  "cs_resource_id (opened_session d ctx now loc rid cashier cur key fp) = rid"
  "cs_status (opened_session d ctx now loc rid cashier cur key fp) = CS_OPEN"
  "cs_open_slot (opened_session d ctx now loc rid cashier cur key fp) = Some 1"
  "cs_movement_version (opened_session d ctx now loc rid cashier cur key fp) = 0"
  "cs_currency (opened_session d ctx now loc rid cashier cur key fp) = cur"
  by (simp_all add: opened_session_def)

interpretation open_cmd: idempotent_command "open_run sha" open_lookup cs_open_request_fingerprint
  "open_request_fp sha" open_admissible "\<lambda>q r d. session_projection d r" CashSessionIdempotencyConflictError
  for sha
proof (unfold_locales, goal_cases)
  case (1 q d r e)
  then show ?case
    by (cases q) (auto simp: open_run_def open_lookup_def open_request_fp_def open_admissible_def
        open_cash_session_def assert_open_replay_def Let_def split: option.splits)
next
  case (2 q d e v b d')
  obtain ctx rid lid cur key where q: "q = (ctx, rid, lid, cur, key)" by (cases q)
  from 2(2) have run: "open_cash_session sha ctx e rid lid cur key d d = Inr ((v, b), d')"
    by (simp add: q open_run_def)
  have none: "by_open_key d ctx key = None" using 2(1) by (simp add: q open_lookup_def)
  from run have adm: "open_admissible q d" "canonical_currency cur = Inr (upper (strip cur))"
    by (auto simp: q open_admissible_def open_cash_session_def bind_result_Inr_iff
        dest: canonical_currency_code split: option.splits if_splits)
  from run obtain cashier where b: "\<not> b" and new:
    "open_cash_session_locked ctx e cashier rid lid (upper (strip cur)) key
       (open_fingerprint sha ctx rid (upper (strip cur))) d = Inr ((v, False), d')"
  proof (cases rule: open_success)
    case replay
    with run none adm(2) show thesis
      by (auto simp: open_cash_session_def open_cash_session_locked_def Let_def bind_result_Inr_iff
          split: option.splits if_splits)
  next
    case (new cashier c)
    with adm(2) show thesis by (intro that) auto
  qed
  from new show ?case
  proof (cases rule: open_locked_new)
    case (1 loc res)
    from adm(1) have "open_admissible q d'"
      by (simp add: q open_admissible_def require_cash_register_open_location_def
          1(7) add_cash_session_def)
    with b none 1 show ?thesis
      by (simp add: q open_lookup_def open_request_fp_def by_open_key_append)
  qed
next
  case (3 e q d v b d')
  then show ?case
    by (cases q) (auto simp: open_run_def open_admissible_def open_cash_session_def
        bind_result_Inr_iff dest: canonical_currency_code split: option.splits if_splits)
qed

type_synonym movement_request =
  "execution_context \<times> int \<times> int \<times> string \<times> pynum \<times> string \<times> string option \<times> string option \<times> string"

definition movement_run ::
  "(json \<Rightarrow> string) \<Rightarrow> datetime \<Rightarrow> movement_request \<Rightarrow> db
   \<Rightarrow> cash_error + ((cash_movement_projection \<times> bool) \<times> db)" where
  "movement_run sha now q d =
     (case q of (ctx, sid, lid, mt, am, cur, rs, rf, key) \<Rightarrow>
        create_manual_movement sha ctx now sid lid mt am cur rs rf key d d)"

definition movement_lookup :: "movement_request \<Rightarrow> db \<Rightarrow> cash_movement option" where
  "movement_lookup q d =
     (case q of (ctx, sid, lid, mt, am, cur, rs, rf, key) \<Rightarrow> movement_by_key d ctx key)"

definition movement_request_fp :: "(json \<Rightarrow> string) \<Rightarrow> movement_request \<Rightarrow> string" where
  "movement_request_fp sha q =
     (case q of (ctx, sid, lid, mt, am, cur, rs, rf, key) \<Rightarrow>
        (case validate_manual_movement mt am cur rs rf of
           Inr w \<Rightarrow> movement_fingerprint sha sid w | Inl _ \<Rightarrow> []))"

definition movement_admissible :: "movement_request \<Rightarrow> db \<Rightarrow> bool" where
  "movement_admissible q d =
     (case q of (ctx, sid, lid, mt, am, cur, rs, rf, key) \<Rightarrow>
        (\<exists>l. require_cash_session_location d (tenant_id ctx) (Some lid) sid = Inr l)
        \<and> \<not> isl (validate_manual_movement mt am cur rs rf))"

lemma require_cash_session_location_iff:
  "(\<exists>l. require_cash_session_location d t (Some lid) sid = Inr l) \<longleftrightarrow>
     (\<exists>s \<in> set (cash_sessions d). cs_id s = sid \<and> cs_tenant_id s = t \<and> cs_location_id s = lid)"
  by (auto simp: require_cash_session_location_def find_eq_None_iff split: option.splits
      dest!: find_SomeD)

lemma movement_by_key_append:
  "movement_by_key d ctx key = None \<Longrightarrow> mv_tenant_id m = tenant_id ctx \<Longrightarrow>
   mv_idempotency_actor_scope m = actor_scope ctx \<Longrightarrow> mv_idempotency_key m = key \<Longrightarrow>
   movement_by_key (add_cash_movement m d) ctx key = Some m"
  by (simp add: movement_by_key_def add_cash_movement_def find_append)

interpretation movement_cmd: idempotent_command "movement_run sha" movement_lookup
  mv_request_fingerprint "movement_request_fp sha" movement_admissible "\<lambda>q r d. movement_projection r"
  CashMovementIdempotencyConflictError
  for sha
proof (unfold_locales, goal_cases)
  case (1 q d r e)
  then show ?case
    by (cases q) (auto simp: movement_run_def movement_lookup_def movement_request_fp_def
        movement_admissible_def create_manual_movement_def assert_movement_replay_def Let_def isl_def
        split: sum.splits)
next
  case (2 q d e v b d')
  obtain ctx sid lid mt am cur rs rf key where q: "q = (ctx, sid, lid, mt, am, cur, rs, rf, key)"
    by (metis surj_pair)
  from 2(2) have run:
    "create_manual_movement sha ctx e sid lid mt am cur rs rf key d d = Inr ((v, b), d')"
    by (simp add: q movement_run_def)
  have none: "movement_by_key d ctx key = None" using 2(1) by (simp add: q movement_lookup_def)
  from run obtain w where b: "\<not> b" and w: "validate_manual_movement mt am cur rs rf = Inr w" and new:
    "create_manual_movement_locked ctx e sid lid w key (movement_fingerprint sha sid w) d
       = Inr ((v, False), d')"
  proof (cases rule: movement_success)
    case replay
    with run none show thesis
      by (auto simp: create_manual_movement_def Let_def bind_result_Inr_iff
          dest: movement_locked_unused_key)
  qed (use that in blast)
  from new show ?case
  proof (cases rule: movement_locked_new)
    case (1 s)
    then have s: "s \<in> set (cash_sessions d)" "cs_id s = sid" "cs_tenant_id s = tenant_id ctx"
      "cs_location_id s = lid"
      by (auto dest: locked_cash_session_in)
    then have "bump_movement_version s \<in> set (cash_sessions d')"
      unfolding 1(6) add_cash_movement_tables set_modify by auto
    with s have "\<exists>l. require_cash_session_location d' (tenant_id ctx) (Some lid) sid = Inr l"
      unfolding require_cash_session_location_iff
      by (intro bexI[of _ "bump_movement_version s"]) (auto simp: bump_movement_version_def)
    with w have "movement_admissible q d'" by (simp add: q movement_admissible_def)
    with b none w s 1 show ?thesis
      by (simp add: q movement_lookup_def movement_request_fp_def movement_by_key_append)
  qed
next
  case (3 e q d v b d')
  then show ?case
    by (cases q) (auto simp: movement_run_def movement_admissible_def create_manual_movement_def
        bind_result_Inr_iff)
qed

type_synonym count_request = "execution_context \<times> int \<times> int \<times> pynum \<times> string \<times> string"

definition count_run ::
  "(json \<Rightarrow> string) \<Rightarrow> datetime \<Rightarrow> count_request \<Rightarrow> db
   \<Rightarrow> cash_error + ((cash_count_projection \<times> bool) \<times> db)" where
  "count_run sha now q d =
     (case q of (ctx, sid, lid, am, cur, key) \<Rightarrow> create_cash_count sha ctx now sid lid am cur key d d)"

definition count_lookup :: "count_request \<Rightarrow> db \<Rightarrow> cash_count option" where
  "count_lookup q d = (case q of (ctx, sid, lid, am, cur, key) \<Rightarrow> count_by_key d ctx key)"

definition count_request_fp :: "(json \<Rightarrow> string) \<Rightarrow> count_request \<Rightarrow> string" where
  "count_request_fp sha q =
     (case q of (ctx, sid, lid, am, cur, key) \<Rightarrow>
        (case exact_money am True True of
           Inr x \<Rightarrow> count_fingerprint sha sid x (upper (strip cur)) | Inl _ \<Rightarrow> []))"

definition count_admissible :: "count_request \<Rightarrow> db \<Rightarrow> bool" where
  "count_admissible q d =
     (case q of (ctx, sid, lid, am, cur, key) \<Rightarrow>
        (\<exists>l. require_cash_session_location d (tenant_id ctx) (Some lid) sid = Inr l)
        \<and> (\<exists>x. exact_money am True True = Inr x)
        \<and> canonical_currency cur = Inr (upper (strip cur)))"

lemma count_by_key_append:
  "count_by_key d ctx key = None \<Longrightarrow> ct_tenant_id c = tenant_id ctx \<Longrightarrow>
   ct_idempotency_actor_scope c = actor_scope ctx \<Longrightarrow> ct_idempotency_key c = key \<Longrightarrow>
   count_by_key (add_cash_count c d) ctx key = Some c"
  by (simp add: count_by_key_def add_cash_count_def find_append)

interpretation count_cmd: idempotent_command "count_run sha" count_lookup
  ct_request_fingerprint "count_request_fp sha" count_admissible "\<lambda>q r d. count_projection r"
  CashCountIdempotencyConflictError
  for sha
proof (unfold_locales, goal_cases)
  case (1 q d r e)
  then show ?case
    by (cases q) (auto simp: count_run_def count_lookup_def count_request_fp_def
        count_admissible_def create_cash_count_def assert_count_replay_def Let_def)
next
  case (2 q d e v b d')
  obtain ctx sid lid am cur key where q: "q = (ctx, sid, lid, am, cur, key)"
    by (cases q)
  from 2(2) have run: "create_cash_count sha ctx e sid lid am cur key d d = Inr ((v, b), d')"
    by (simp add: q count_run_def)
  have none: "count_by_key d ctx key = None" using 2(1) by (simp add: q count_lookup_def)
  from run obtain x c where b: "\<not> b" and x: "exact_money am True True = Inr x"
    and c: "canonical_currency cur = Inr c" and new:
    "create_cash_count_locked ctx e sid lid x c key (count_fingerprint sha sid x c) d
       = Inr ((v, False), d')"
  proof (cases rule: count_success)
    case replay
    with run none show thesis
      by (auto simp: create_cash_count_def create_cash_count_locked_def Let_def
          bind_result_Inr_iff split: option.splits if_splits)
  qed (use that in blast)
  have c': "c = upper (strip cur)" using c by (simp add: canonical_currency_code)
  from new show ?case
  proof (cases rule: count_locked_new)
    case (1 s)
    then have s: "s \<in> set (cash_sessions d)" "cs_id s = sid" "cs_tenant_id s = tenant_id ctx"
      "cs_location_id s = lid"
      by (auto dest: locked_cash_session_in)
    then have "\<exists>l. require_cash_session_location d' (tenant_id ctx) (Some lid) sid = Inr l"
      unfolding require_cash_session_location_iff 1(6) add_cash_count_def by auto
    with x c have "count_admissible q d'" by (simp add: q count_admissible_def c')
    with b none x s 1 c' show ?thesis
      by (simp add: q count_lookup_def count_request_fp_def count_by_key_append captured_count_def)
  qed
next
  case (3 e q d v b d')
  then show ?case
    by (cases q) (auto simp: count_run_def count_admissible_def create_cash_count_def
        bind_result_Inr_iff dest: canonical_currency_code)
qed

section \<open>Properties\<close>

text \<open>
  Opening a cash session succeeds only on a register without an open session, and then adds
  exactly one row: an OPEN session of that register with no movements, in the canonical currency.
\<close>

theorem open_takes_free_register:
  assumes "open_cash_session sha ctx now rid lid cur key snap d = Inr ((v, False), d')"
  shows "(\<forall>s \<in> set (cash_sessions d). cs_resource_id s = rid \<longrightarrow> cs_open_slot s \<noteq> Some 1) \<and>
    (\<exists>s. d' = d\<lparr>cash_sessions := cash_sessions d @ [s]\<rparr> \<and> cs_resource_id s = rid
       \<and> cs_status s = CS_OPEN \<and> cs_open_slot s = Some 1 \<and> cs_movement_version s = 0
       \<and> currency_code (cs_currency s) \<and> cs_currency s = upper (strip cur))"
  using assms
proof (cases rule: open_success)
  case (new cashier c)
  from new(6) show ?thesis
  proof (cases rule: open_locked_new)
    case (1 loc res)
    from 1(2) have rid: "res_id res = rid" by (auto dest: find_SomeD)
    let ?s = "opened_session d ctx now loc (res_id res) cashier c key (open_fingerprint sha ctx rid c)"
    have "\<forall>s \<in> set (cash_sessions d). cs_resource_id s = rid \<longrightarrow> cs_open_slot s \<noteq> Some 1"
      using 1(6) by (auto simp: insertable_session_iff cash_sessions_collide_def same_slot_def rid)
    moreover have "d' = d\<lparr>cash_sessions := cash_sessions d @ [?s]\<rparr>"
      using 1(7) by (simp add: add_cash_session_def)
    ultimately show ?thesis
      using canonical_currency_code[OF new(4), THEN conjunct1]
        canonical_currency_code[OF new(4), THEN conjunct2] rid
      by (intro conjI exI[of _ ?s]) simp_all
  qed
qed simp

text \<open>
  A manual movement that is recorded was recorded in an OPEN session of its own currency; it
  raises the session's movement version by one and its expected cash by the signed amount, and leaves
  every other session and its expected cash alone.
\<close>

theorem manual_movement_effect:
  assumes "cash_inv d"
    and "create_manual_movement sha ctx now sid lid mt am cur rs rf key snap d = Inr ((v, False), d')"
  shows "\<exists>s \<in> set (cash_sessions d). cs_id s = sid \<and> cs_status s = CS_OPEN
      \<and> cs_currency s = mvp_currency v
      \<and> s\<lparr>cs_movement_version := cs_movement_version s + 1\<rparr> \<in> set (cash_sessions d')
      \<and> expected_cash d' sid = expected_cash d sid + mvp_amount v
      \<and> (\<forall>t \<in> set (cash_sessions d). cs_id t \<noteq> sid \<longrightarrow>
           t \<in> set (cash_sessions d') \<and> expected_cash d' (cs_id t) = expected_cash d (cs_id t))"
  using assms(2)
proof (cases rule: movement_success)
  case (new w)
  from new(4) show ?thesis
  proof (cases rule: movement_locked_new)
    case (1 s)
    then have s: "s \<in> set (cash_sessions d)" "cs_id s = sid"
      by (auto dest: locked_cash_session_in)
    have bump: "bump_movement_version s \<in> set (cash_sessions d')"
      using s unfolding 1(6) add_cash_movement_tables set_modify by auto
    have frame: "\<forall>t \<in> set (cash_sessions d). cs_id t \<noteq> sid \<longrightarrow>
           t \<in> set (cash_sessions d') \<and> expected_cash d' (cs_id t) = expected_cash d (cs_id t)"
      using s unfolding 1(6) expected_cash_add add_cash_movement_tables set_modify by auto
    have "mvp_amount v = fst (snd w)" "mvp_currency v = fst (snd (snd w))"
      by (simp_all add: 1(7) movement_projection_def manual_movement_def split: prod.splits)
    with s 1 bump frame show ?thesis
      by (intro bexI[of _ s]) (simp_all add: expected_cash_add bump_movement_version_def)
  qed
qed simp

text \<open>
  What \<^verbatim>\<open>_validate_manual_movement\<close> lets through, recorded by an employee, satisfies every CHECK
  constraint of the movement table: the sign fits the type, a reason is there where one is needed, the
  currency is a code of three capital letters, and the opening-float slot is set exactly for a float.
\<close>

theorem validated_movement_fits_constraints:
  assumes "validate_manual_movement mt am cur rs rf = Inr w"
    and "context_ok ctx" and "actor_type ctx = EMPLOYEE"
  shows "cash_movement_ok (manual_movement d ctx now s w key fp)"
proof -
  obtain mtype x c r f where w: "w = (mtype, x, c, r, f)" by (cases w)
  from assms(1) have checks: "x \<noteq> 0" "mtype \<in> {OPENING_FLOAT, CASH_IN} \<longrightarrow> 0 < x"
    "mtype \<in> {CASH_OUT, WITHDRAWAL} \<longrightarrow> x < 0" "canonical_currency cur = Inr c"
    "cash_text rs 500 = Inr r"
    "mtype \<in> {CASH_IN, CASH_OUT, WITHDRAWAL, ADJUSTMENT} \<longrightarrow> r \<noteq> None"
    "parse_movement_type (upper (strip mt)) = Some mtype"
    by (auto simp: w validate_manual_movement_def bind_result_Inr_iff
        split: option.splits pynum.splits if_splits)
  from checks(7) have "mtype \<in> {OPENING_FLOAT, CASH_IN, CASH_OUT, WITHDRAWAL, ADJUSTMENT}"
    by (auto simp: parse_movement_type_def split: if_splits)
  moreover have "r = Some t \<Longrightarrow> sql_not_blank t" for t
    using checks(5) cash_text_result by blast
  moreover have "currency_code c"
    using checks(4) canonical_currency_code by blast
  moreover have "cash_actor_ok (actor_values ctx)"
    using assms(2,3) by (rule employee_actor_ok)
  ultimately show ?thesis
    using checks(1,2,3,6)
    by (cases mtype) (auto simp: w cash_movement_ok_def manual_movement_def REQUEST_SCHEMA_VERSION_def
        split: option.splits)
qed

text \<open>
  Closing freezes the truth. The close reads the expected cash from its snapshot, which may be
  older than the session row it has locked; because the count it names must carry the version of the
  locked row, the frozen expected cash is nevertheless the sum of all movements at the moment of the
  close, and the frozen variance is the counted amount less that sum.
\<close>

theorem close_freezes_current_cash:
  assumes "cash_inv d" and "close_snapshot_ok snap cid d"
    and "close_cash_session sha ctx now sid lid cid vr key snap d = Inr ((v, False), d')"
  shows "\<exists>s \<in> set (cash_sessions d). \<exists>c \<in> set (cash_counts d). \<exists>s' \<in> set (cash_sessions d').
      cs_id s = sid \<and> cs_status s = CS_OPEN \<and> ct_id c = cid
      \<and> cs_id s' = sid \<and> cs_status s' = CS_CLOSED \<and> cs_open_slot s' = None
      \<and> cs_frozen_expected_cash s' = Some (expected_cash d sid)
      \<and> cs_frozen_variance s' = Some (ct_counted_amount c - expected_cash d sid)
      \<and> cs_final_movement_version s' = Some (cs_movement_version s)
      \<and> csp_row v = s' \<and> csp_expected_cash v = expected_cash d' sid
      \<and> expected_cash d' sid = expected_cash d sid"
  using assms(3)
proof (cases rule: close_success)
  case (new s c reason row)
  then have s: "s \<in> set (cash_sessions d)" "cs_id s = sid"
    and c: "c \<in> set (cash_counts d)" "ct_id c = cid"
    by (auto dest: locked_cash_session_in find_SomeD)
  have eq: "expected_cash snap (cs_id s) = expected_cash d (cs_id s)"
    using close_snapshot_expected[OF assms(1,2) s(1)] new by blast
  have "row s \<in> set (cash_sessions d')"
    using s unfolding new by (simp add: set_modify) blast
  with s c new eq show ?thesis
    by (intro bexI[of _ s] bexI[of _ c] bexI[of _ "row s"]) (simp_all add: session_projection_def)
qed simp

text \<open>
  A count that was taken before a later movement cannot close the session: whatever the reason
  given and whatever the key, the command raises StaleCashCountError.
\<close>

theorem stale_count_rejected:
  assumes "locked_cash_session d sid (tenant_id ctx) lid = Some s" and "cs_status s = CS_OPEN"
    and "List.find (\<lambda>c. ct_id c = cid \<and> ct_tenant_id c = tenant_id ctx) (cash_counts d) = Some c"
    and "ct_cash_session_id c = sid" and "ct_currency c = cs_currency s"
    and "ct_captured_movement_version c \<noteq> cs_movement_version s"
    and "cash_text vr 500 = Inr reason"
    and "require_cash_session_location snap (tenant_id ctx) (Some lid) sid = Inr lid"
  shows "close_cash_session sha ctx now sid lid cid vr key snap d = Inl StaleCashCountError"
  using assms locked_cash_session_in[OF assms(1)] by (simp add: close_cash_session_def)

text \<open>
  A closed session takes no movement and no count: with a key not used before, both commands
  raise CashSessionClosedError.
\<close>

theorem closed_session_rejects_records:
  assumes "locked_cash_session d sid (tenant_id ctx) lid = Some s" and "cs_status s = CS_CLOSED"
    and "validate_manual_movement mt am cur rs rf = Inr w" and "movement_by_key d ctx key = None"
    and "exact_money am' True True = Inr x" and "canonical_currency cur' = Inr c"
    and "count_by_key d ctx key' = None"
  shows "create_manual_movement sha ctx now sid lid mt am cur rs rf key d d = Inl CashSessionClosedError
     \<and> create_cash_count sha ctx now sid lid am' cur' key' d d = Inl CashSessionClosedError"
proof -
  have "\<exists>l. require_cash_session_location d (tenant_id ctx) (Some lid) sid = Inr l"
    using locked_cash_session_in[OF assms(1)] unfolding require_cash_session_location_iff by blast
  then obtain l where "require_cash_session_location d (tenant_id ctx) (Some lid) sid = Inr l" ..
  with assms show ?thesis
    by (simp add: create_manual_movement_def create_manual_movement_locked_def
        create_cash_count_def create_cash_count_locked_def Let_def)
qed

text \<open>
  Retrying an opening, a movement or a count is safe: sent again with the same key after it
  succeeded, whenever that is, the command changes nothing and returns the projection it returned.
\<close>

theorem cash_retry_is_noop:
  shows "(open_cash_session sha ctx now rid lid cur key d d = Inr ((v, b), d1) \<longrightarrow>
      open_cash_session sha ctx now' rid lid cur key d1 d1 = Inr ((v, True), d1)) \<and>
    (create_manual_movement sha ctx now sid lid mt am cur rs rf key d d = Inr ((w, b), d2) \<longrightarrow>
      create_manual_movement sha ctx now' sid lid mt am cur rs rf key d2 d2 = Inr ((w, True), d2)) \<and>
    (create_cash_count sha ctx now sid lid am cur key d d = Inr ((u, b), d3) \<longrightarrow>
      create_cash_count sha ctx now' sid lid am cur key d3 d3 = Inr ((u, True), d3))"
  using open_cmd.retry_is_noop[of sha now "(ctx, rid, lid, cur, key)" d v b d1 now']
    movement_cmd.retry_is_noop[of sha now "(ctx, sid, lid, mt, am, cur, rs, rf, key)" d w b d2 now']
    count_cmd.retry_is_noop[of sha now "(ctx, sid, lid, am, cur, key)" d u b d3 now']
  by (simp add: open_run_def movement_run_def count_run_def)

text \<open>
  A key is bound to its request: once a movement is recorded under a key, another valid movement
  request of the same actor with that key and another fingerprint is refused.
\<close>

theorem movement_key_reuse_conflicts:
  assumes "create_manual_movement sha ctx now sid lid mt am cur rs rf key d d = Inr ((v, b), d')"
    and "require_cash_session_location d' (tenant_id ctx) (Some lid') sid' = Inr l"
    and "validate_manual_movement mt' am' cur' rs' rf' = Inr w'"
    and "validate_manual_movement mt am cur rs rf = Inr w"
    and "movement_fingerprint sha sid' w' \<noteq> movement_fingerprint sha sid w"
  shows "create_manual_movement sha ctx now' sid' lid' mt' am' cur' rs' rf' key d' d'
     = Inl CashMovementIdempotencyConflictError"
  using assms movement_cmd.reused_key_conflicts[of sha now "(ctx, sid, lid, mt, am, cur, rs, rf, key)"
      d v b d' "(ctx, sid', lid', mt', am', cur', rs', rf', key)" now']
  by (simp add: movement_run_def movement_admissible_def movement_lookup_def movement_request_fp_def)

end
