(* ===== verification/CashWitnesses.thy ===== *)
theory CashWitnesses
  imports CashProofs
begin

text \<open>
  A concrete run of the cash service: a session is opened on a register, given a float, counted and
  closed. The commands are evaluated in the kernel, and each property of \<^verbatim>\<open>CashProofs\<close> that has
  hypotheses is applied to the run.
\<close>

definition demo_staff :: execution_context where
  "demo_staff = \<lparr>actor_type = EMPLOYEE, tenant_id = 1, principal_id = Some 7,
     principal_reference = None, correlation_id = None, causation_id = None\<rparr>"

text \<open>A digest for the run: the strings of the request, one after the other.\<close>

definition demo_sha :: "json \<Rightarrow> string" where
  "demo_sha v = (case v of JObj fs \<Rightarrow>
     concat (map (\<lambda>f. case snd f of JStr s \<Rightarrow> s | _ \<Rightarrow> []) fs) | _ \<Rightarrow> [])"

definition demo_base :: db where
  "demo_base = empty_db\<lparr>
     locations := [\<lparr>loc_id = 1, loc_tenant_id = 1, loc_organization_id = 1,
                    loc_cash_management_activated_at = Some 0\<rparr>],
     resources := [\<lparr>res_id = 5, res_tenant_id = 1, res_location_id = 1,
                    res_resource_type = ''CASH_REGISTER'', res_status = ''ACTIVE''\<rparr>]\<rparr>"

definition demo_session :: cash_session where
  "demo_session = \<lparr>cs_id = 1, cs_tenant_id = 1, cs_organization_id = 1, cs_location_id = 1,
     cs_resource_id = 5, cs_cashier_membership_id = 7, cs_currency = ''MXN'', cs_status = CS_OPEN,
     cs_opened_at = 10, cs_opened_by = Actor EMPLOYEE (Some 7) None, cs_movement_version = 0,
     cs_open_slot = Some 1, cs_open_actor_scope = ''EMPLOYEE:7'', cs_open_idempotency_key = ''k1'',
     cs_open_request_schema_version = 1, cs_open_request_fingerprint = ''MXN'',
     cs_selected_cash_count_id = None, cs_final_movement_version = None,
     cs_frozen_expected_cash = None, cs_frozen_variance = None, cs_closed_at = None,
     cs_closed_by = None, cs_variance_reason = None, cs_close_actor_scope = None,
     cs_close_idempotency_key = None, cs_close_request_schema_version = None,
     cs_close_request_fingerprint = None\<rparr>"

definition demo_db1 :: db where
  "demo_db1 = demo_base\<lparr>cash_sessions := [demo_session]\<rparr>"

definition demo_float :: cash_movement where
  "demo_float = \<lparr>mv_id = 1, mv_tenant_id = 1, mv_organization_id = 1, mv_location_id = 1,
     mv_cash_session_id = 1, mv_restaurant_payment_id = None, mv_movement_type = OPENING_FLOAT,
     mv_amount = 500, mv_currency = ''MXN'', mv_reason = None, mv_reference = None,
     mv_recorded_at = 20, mv_actor = Actor EMPLOYEE (Some 7) None,
     mv_authorized_by = Actor EMPLOYEE (Some 7) None, mv_opening_float_slot = Some 1,
     mv_idempotency_actor_scope = ''EMPLOYEE:7'', mv_idempotency_key = ''m1'',
     mv_request_schema_version = 1,
     mv_request_fingerprint = ''OPENING_FLOAT500.0000MXN''\<rparr>"

definition demo_db2 :: db where
  "demo_db2 = demo_db1\<lparr>cash_sessions := [demo_session\<lparr>cs_movement_version := 1\<rparr>],
     cash_movements := [demo_float]\<rparr>"

definition demo_count :: cash_count where
  "demo_count = \<lparr>ct_id = 1, ct_tenant_id = 1, ct_organization_id = 1, ct_location_id = 1,
     ct_cash_session_id = 1, ct_counted_amount = 490, ct_currency = ''MXN'',
     ct_captured_movement_version = 1, ct_counted_at = 30,
     ct_actor = Actor EMPLOYEE (Some 7) None, ct_idempotency_actor_scope = ''EMPLOYEE:7'',
     ct_idempotency_key = ''c1'', ct_request_schema_version = 1,
     ct_request_fingerprint = ''490.0000MXN''\<rparr>"

definition demo_db3 :: db where
  "demo_db3 = demo_db2\<lparr>cash_counts := [demo_count]\<rparr>"

definition demo_closed :: cash_session where
  "demo_closed = demo_session\<lparr>cs_movement_version := 1, cs_selected_cash_count_id := Some 1,
     cs_final_movement_version := Some 1, cs_frozen_expected_cash := Some 500,
     cs_frozen_variance := Some (-10), cs_variance_reason := Some ''short'',
     cs_closed_at := Some 40, cs_closed_by := Some (Actor EMPLOYEE (Some 7) None),
     cs_close_actor_scope := Some ''EMPLOYEE:7'', cs_close_idempotency_key := Some ''z1'',
     cs_close_request_schema_version := Some 1, cs_close_request_fingerprint := Some ''short'',
     cs_status := CS_CLOSED, cs_open_slot := None\<rparr>"

definition demo_db4 :: db where
  "demo_db4 = demo_db3\<lparr>cash_sessions := [demo_closed]\<rparr>"



lemmas demo_defs = demo_base_def demo_db1_def demo_db2_def demo_db3_def demo_db4_def demo_session_def
  demo_float_def demo_count_def demo_closed_def demo_staff_def empty_db_def

lemma demo_currency: "canonical_currency '' mxn'' = Inr ''MXN''" "canonical_currency ''MXN'' = Inr ''MXN''"
  by code_simp+

lemma demo_checks: "currency_code ''MXN''" "sql_not_blank ''short''"
    "cash_actor_ok (Actor EMPLOYEE (Some 7) None)"
  by code_simp+

lemma demo_rows_ok: "cash_session_ok demo_session" "cash_movement_ok demo_float"
    "cash_count_ok demo_count" "cash_session_ok demo_closed"
  by (simp_all add: demo_defs cash_session_ok_def cash_movement_ok_def cash_count_ok_def demo_checks)

lemma demo_scope: "actor_scope demo_staff = ''EMPLOYEE:7''"
  by code_simp

lemma demo_validated: "validate_manual_movement ''opening_float'' (PyDecimal 500) ''MXN'' None None
    = Inr (OPENING_FLOAT, 500, ''MXN'', None, None)"
  by code_simp

lemma demo_money: "money_str 500 = ''500.0000''" "money_str 490 = ''490.0000''"
  by (simp_all add: money_str_eval)

lemma demo_count_input: "exact_money (PyDecimal 490) True True = Inr 490"
    "cash_text (Some '' short'') 500 = Inr (Some ''short'')"
  by (simp_all add: exact_money_def quantize_def cash_text_def strip_def
      is_space_def of_char_def)

lemmas demo_facts = demo_currency demo_rows_ok[unfolded demo_defs] demo_scope[unfolded demo_defs]
  demo_validated demo_money demo_count_input

lemmas demo_ops = open_cash_session_def open_cash_session_locked_def
    require_cash_register_open_location_def by_open_key_def open_fingerprint_def demo_sha_def
    opened_session_def cash_session_insertable_def add_cash_session_def actor_values_def
    next_id_def REQUEST_SCHEMA_VERSION_def create_manual_movement_def create_manual_movement_locked_def
    require_cash_session_location_def movement_by_key_def movement_fingerprint_def manual_movement_def
    locked_cash_session_def cash_movement_insertable_def add_cash_movement_def modify_def
    bump_movement_version_def movement_projection_def count_projection_def
    create_cash_count_def create_cash_count_locked_def count_fingerprint_def count_by_key_def
    captured_count_def cash_count_insertable_def add_cash_count_def
    close_cash_session_def close_counted_session_def closing_row_def close_session_row_def
    effective_reason_def close_fingerprint_def close_by_key_def cash_session_updatable_def
    session_projection_def expected_cash_def

lemma demo_open: "open_cash_session demo_sha demo_staff 10 5 1 '' mxn'' ''k1'' demo_base demo_base
    = Inr ((session_projection demo_db1 demo_session, False), demo_db1)"
  by (simp add: demo_facts demo_ops Let_def demo_defs)

lemma demo_movement:
  "create_manual_movement demo_sha demo_staff 20 1 1 ''opening_float'' (PyDecimal 500) ''MXN''
      None None ''m1'' demo_db1 demo_db1
    = Inr ((movement_projection demo_float, False), demo_db2)"
  by (simp add: demo_facts demo_ops Let_def demo_defs)

lemma demo_counted:
  "create_cash_count demo_sha demo_staff 30 1 1 (PyDecimal 490) ''MXN'' ''c1'' demo_db2 demo_db2
    = Inr ((count_projection demo_count, False), demo_db3)"
  by (simp add: demo_facts demo_ops Let_def demo_defs)

lemma demo_close:
  "close_cash_session demo_sha demo_staff 40 1 1 1 (Some '' short'') ''z1'' demo_db3 demo_db3
    = Inr ((session_projection demo_db4 demo_closed, False), demo_db4)"
  using demo_rows_ok(4) by (simp add: demo_facts demo_ops Let_def demo_defs)

lemma demo_inv0: "cash_inv demo_base"
  using cash_inv_empty cash_inv_cong[of demo_base empty_db]
  by (simp add: demo_base_def empty_db_def)

lemma demo_invs: "cash_inv demo_db1" "cash_inv demo_db2" "cash_inv demo_db3"
proof -
  show 1: "cash_inv demo_db1" by (rule open_keeps_inv[OF demo_inv0 demo_open])
  show 2: "cash_inv demo_db2" by (rule movement_keeps_inv[OF 1 demo_movement])
  show "cash_inv demo_db3" by (rule count_keeps_inv[OF 2 demo_counted])
qed

lemma demo_snapshot: "close_snapshot_ok demo_db3 1 demo_db3"
  using demo_invs by (simp add: close_snapshot_ok_def) (simp add: demo_db3_def demo_count_def)

lemma demo_inv4: "cash_inv demo_db4"
  by (rule close_keeps_inv[OF demo_invs(3) demo_snapshot demo_close])

section \<open>The properties on the run\<close>

lemma open_takes_free_register_witness:
  "(\<exists>s. demo_db1 = demo_base\<lparr>cash_sessions := cash_sessions demo_base @ [s]\<rparr> \<and> cs_resource_id s = 5
      \<and> cs_status s = CS_OPEN \<and> cs_open_slot s = Some 1 \<and> cs_movement_version s = 0
      \<and> currency_code (cs_currency s) \<and> cs_currency s = upper (strip '' mxn''))"
  by (rule open_takes_free_register[OF demo_open, THEN conjunct2])

lemma manual_movement_effect_witness:
  "expected_cash demo_db2 1 = expected_cash demo_db1 1 + 500"
  using manual_movement_effect[OF demo_invs(1) demo_movement]
  by (auto simp: movement_projection_def demo_float_def)

lemma validated_movement_fits_constraints_witness:
  "cash_movement_ok (manual_movement demo_db1 demo_staff 20 demo_session
     (OPENING_FLOAT, 500, ''MXN'', None, None) ''m1'' ''fp'')"
proof (rule validated_movement_fits_constraints[OF demo_validated])
  show "context_ok demo_staff" by code_simp
  show "actor_type demo_staff = EMPLOYEE" by (simp add: demo_staff_def)
qed

lemma close_freezes_current_cash_witness:
  "\<exists>s \<in> set (cash_sessions demo_db3). \<exists>c \<in> set (cash_counts demo_db3).
     \<exists>s' \<in> set (cash_sessions demo_db4).
      cs_id s = 1 \<and> cs_status s = CS_OPEN \<and> ct_id c = 1
      \<and> cs_id s' = 1 \<and> cs_status s' = CS_CLOSED \<and> cs_open_slot s' = None
      \<and> cs_frozen_expected_cash s' = Some (expected_cash demo_db3 1)
      \<and> cs_frozen_variance s' = Some (ct_counted_amount c - expected_cash demo_db3 1)
      \<and> cs_final_movement_version s' = Some (cs_movement_version s)
      \<and> csp_row (session_projection demo_db4 demo_closed) = s'
      \<and> csp_expected_cash (session_projection demo_db4 demo_closed) = expected_cash demo_db4 1
      \<and> expected_cash demo_db4 1 = expected_cash demo_db3 1"
  by (rule close_freezes_current_cash[OF demo_invs(3) demo_snapshot demo_close])

text \<open>The count is taken, then cash is paid in: the old count no longer closes the session.\<close>

definition demo_later :: db where
  "demo_later = demo_db3\<lparr>cash_sessions := [demo_session\<lparr>cs_movement_version := 2\<rparr>]\<rparr>"

lemma stale_count_rejected_witness:
  "close_cash_session demo_sha demo_staff 50 1 1 1 (Some '' short'') ''z2'' demo_later demo_later
     = Inl StaleCashCountError"
  by (rule stale_count_rejected[where s = "demo_session\<lparr>cs_movement_version := 2\<rparr>"
        and c = demo_count and reason = "Some ''short''"])
    (simp_all add: demo_later_def demo_ops demo_defs demo_count_input)

lemma closed_session_rejects_records_witness:
  "create_manual_movement demo_sha demo_staff 60 1 1 ''opening_float'' (PyDecimal 500) ''MXN''
      None None ''m9'' demo_db4 demo_db4 = Inl CashSessionClosedError
   \<and> create_cash_count demo_sha demo_staff 60 1 1 (PyDecimal 490) ''MXN'' ''c9'' demo_db4 demo_db4
      = Inl CashSessionClosedError"
  by (rule closed_session_rejects_records[where s = demo_closed
        and w = "(OPENING_FLOAT, 500, ''MXN'', None, None)" and x = 490 and c = "''MXN''"])
    (simp_all add: demo_facts demo_ops demo_defs)

lemma cash_retry_is_noop_witness:
  "create_manual_movement demo_sha demo_staff 99 1 1 ''opening_float'' (PyDecimal 500) ''MXN''
      None None ''m1'' demo_db2 demo_db2 = Inr ((movement_projection demo_float, True), demo_db2)"
  by (rule cash_retry_is_noop[THEN conjunct2, THEN conjunct1, rule_format, OF demo_movement])

lemma movement_key_reuse_conflicts_witness:
  "create_manual_movement demo_sha demo_staff 99 1 1 ''opening_float'' (PyDecimal 490) ''MXN''
      None None ''m1'' demo_db2 demo_db2 = Inl CashMovementIdempotencyConflictError"
proof (rule movement_key_reuse_conflicts[OF demo_movement _ _ demo_validated])
  show "require_cash_session_location demo_db2 (tenant_id demo_staff) (Some 1) 1 = Inr 1"
    by (simp add: require_cash_session_location_def demo_defs)
  show "validate_manual_movement ''opening_float'' (PyDecimal 490) ''MXN'' None None
      = Inr (OPENING_FLOAT, 490, ''MXN'', None, None)"
    by code_simp
  show "movement_fingerprint demo_sha 1 (OPENING_FLOAT, 490, ''MXN'', None, None)
      \<noteq> movement_fingerprint demo_sha 1 (OPENING_FLOAT, 500, ''MXN'', None, None)"
    by (simp add: movement_fingerprint_def demo_sha_def demo_money)
qed

end
