(* ===== verification/Checks.thy ===== *)
theory Checks
  imports Schema
begin

text \<open>
  The restaurant check service (\<^verbatim>\<open>app/restaurant/checks/service.py\<close>): a check claims the accepted
  orders of its members, carries consumption, gratuity and liability, and is frozen, settled,
  cancelled and continued.

  Every command runs in one transaction that locks the check row and compares the version the client
  names with it, so the commands on one check are in order; a command is modelled on the one database
  \<^theory_text>\<open>d\<close> it sees under its locks. It returns the projection, the replay flag and the database it
  commits. A command whose result breaks a CHECK or UNIQUE constraint raises IntegrityError. Foreign
  keys and column widths are not modelled. \<^theory_text>\<open>sha\<close> is the digest of a canonical value.
\<close>

datatype check_error =
    CheckNotFoundError | NoEligibleConsumptionError | DinerAlreadyAssignedError
  | DinerActiveDraftError | OrderingBlockedError | CrossLocationCheckError
  | CheckNotModifiableError | CheckVersionConflictError | CheckAllocationIncompleteError
  | CheckControllerTransferRequiredError | CheckPermissionError | CheckIdempotencyConflictError
  | TableOutstandingBalanceError | TableNotEligibleError
  | CheckValueError | CheckIndexError | CheckKeyError | CheckDecimalInvalidOperation
  | CheckIntegrityError | CheckOperationalError int

section \<open>Constraints of the check tables\<close>

definition restaurant_check_ok :: "restaurant_check \<Rightarrow> bool" where
  "restaurant_check_ok c \<longleftrightarrow>
     1 \<le> chk_version c \<and> 1 \<le> chk_fingerprint_schema_version c \<and>
     0 \<le> chk_consumption_total c \<and> 0 \<le> chk_gratuity_total c \<and> 0 \<le> chk_liability_total c \<and>
     chk_liability_total c = chk_consumption_total c + chk_gratuity_total c \<and>
     (chk_status c = CHK_OPEN \<and> chk_frozen_at c = None \<and> chk_settled_at c = None
        \<and> chk_cancelled_at c = None \<and> chk_continuation_decision c = CONT_NONE
      \<or> chk_status c = CHK_FROZEN \<and> chk_frozen_at c \<noteq> None \<and> chk_settled_at c = None
        \<and> chk_cancelled_at c = None \<and> chk_continuation_decision c = CONT_NONE
      \<or> chk_status c = CHK_SETTLED \<and> chk_frozen_at c \<noteq> None \<and> chk_settled_at c \<noteq> None
        \<and> chk_cancelled_at c = None \<and> chk_continuation_decision c \<noteq> CONT_NONE
      \<or> chk_status c = CHK_CANCELLED \<and> chk_cancelled_at c \<noteq> None \<and> chk_settled_at c = None
        \<and> chk_continuation_decision c = CONT_NONE)"

definition check_member_ok :: "check_member \<Rightarrow> bool" where
  "check_member_ok m \<longleftrightarrow>
     1 \<le> cm_acquired_version m \<and>
     (case cm_released_version m of None \<Rightarrow> True | Some v \<Rightarrow> cm_acquired_version m \<le> v) \<and>
     (cm_active_slot m = Some 1 \<and> cm_released_at m = None
      \<or> cm_active_slot m = None \<and> cm_released_at m \<noteq> None)"

definition check_members_collide :: "check_member \<Rightarrow> check_member \<Rightarrow> bool" where
  "check_members_collide a b \<longleftrightarrow>
     cm_tenant_id a = cm_tenant_id b \<and> cm_diner_session_id a = cm_diner_session_id b
       \<and> same_slot (cm_active_slot a) (cm_active_slot b) \<or>
     cm_check_id a = cm_check_id b \<and> cm_diner_session_id a = cm_diner_session_id b"

definition check_table_scope_ok :: "check_table_scope \<Rightarrow> bool" where
  "check_table_scope_ok t \<longleftrightarrow>
     ts_lock_phase t \<noteq> PHASE_RELEASED \<and> ts_active_slot t = Some 1 \<and> ts_released_at t = None \<or>
     ts_lock_phase t = PHASE_RELEASED \<and> ts_active_slot t = None \<and> ts_released_at t \<noteq> None"

definition check_table_scopes_collide :: "check_table_scope \<Rightarrow> check_table_scope \<Rightarrow> bool" where
  "check_table_scopes_collide a b \<longleftrightarrow>
     ts_check_id a = ts_check_id b \<and> ts_service_session_id a = ts_service_session_id b \<or>
     ts_tenant_id a = ts_tenant_id b \<and> ts_service_session_id a = ts_service_session_id b
       \<and> same_slot (ts_active_slot a) (ts_active_slot b)"

definition check_allocation_ok :: "check_allocation \<Rightarrow> bool" where
  "check_allocation_ok a \<longleftrightarrow>
     (al_state a = AL_CLAIMED \<and> al_ownership_slot a = Some 1 \<and> al_released_at a = None
        \<and> al_settled_at a = None
      \<or> al_state a = AL_SETTLED \<and> al_ownership_slot a = Some 1 \<and> al_released_at a = None
        \<and> al_settled_at a \<noteq> None
      \<or> al_state a = AL_RELEASED \<and> al_ownership_slot a = None \<and> al_released_at a \<noteq> None
        \<and> al_settled_at a = None) \<and>
     0 \<le> al_accepted_payable_amount a \<and> 1 \<le> al_claimed_version a"

definition check_allocations_collide :: "check_allocation \<Rightarrow> check_allocation \<Rightarrow> bool" where
  "check_allocations_collide a b \<longleftrightarrow>
     al_tenant_id a = al_tenant_id b \<and> al_restaurant_order_id a = al_restaurant_order_id b
       \<and> same_slot (al_ownership_slot a) (al_ownership_slot b) \<or>
     al_check_id a = al_check_id b \<and> al_restaurant_order_id a = al_restaurant_order_id b"

definition check_version_ok :: "check_version \<Rightarrow> bool" where
  "check_version_ok v \<longleftrightarrow>
     1 \<le> cv_version v \<and> 1 \<le> cv_schema_version v \<and> 0 \<le> cv_consumption_total v
     \<and> 0 \<le> cv_gratuity_amount v \<and> cv_liability_total v = cv_consumption_total v + cv_gratuity_amount v"

definition check_versions_collide :: "check_version \<Rightarrow> check_version \<Rightarrow> bool" where
  "check_versions_collide a b \<longleftrightarrow>
     cv_check_id a = cv_check_id b \<and> (cv_version a = cv_version b \<or> cv_fingerprint a = cv_fingerprint b)"

definition ROUNDING_POLICY :: string where
  "ROUNDING_POLICY = ''CURRENCY_MINOR_UNIT_HALF_DOWN_V1''"

definition check_gratuity_ok :: "check_gratuity \<Rightarrow> bool" where
  "check_gratuity_ok g \<longleftrightarrow>
     gr_rounding_policy_id g = ROUNDING_POLICY \<and> 0 \<le> gr_input_value g
     \<and> 0 \<le> gr_calculation_basis g \<and> 0 \<le> gr_calculated_amount g \<and> 1 \<le> gr_check_version g"

definition check_gratuities_collide :: "check_gratuity \<Rightarrow> check_gratuity \<Rightarrow> bool" where
  "check_gratuities_collide a b \<longleftrightarrow>
     gr_check_id a = gr_check_id b \<and> gr_check_version a = gr_check_version b"

definition check_command_ok :: "check_command \<Rightarrow> bool" where
  "check_command_ok c \<longleftrightarrow> 1 \<le> cc_result_version c"

definition check_commands_collide :: "check_command \<Rightarrow> check_command \<Rightarrow> bool" where
  "check_commands_collide a b \<longleftrightarrow>
     cc_tenant_id a = cc_tenant_id b \<and> cc_actor_scope a = cc_actor_scope b
     \<and> cc_idempotency_key a = cc_idempotency_key b"

definition check_constraints :: "db \<Rightarrow> bool" where
  "check_constraints d \<longleftrightarrow>
     list_all restaurant_check_ok (restaurant_checks d) \<and>
     table_ok check_member_ok check_members_collide (check_members d) \<and>
     table_ok check_table_scope_ok check_table_scopes_collide (check_table_scopes d) \<and>
     table_ok check_allocation_ok check_allocations_collide (check_allocations d) \<and>
     table_ok check_version_ok check_versions_collide (check_versions d) \<and>
     table_ok check_gratuity_ok check_gratuities_collide (check_gratuities d) \<and>
     table_ok check_command_ok check_commands_collide (check_commands d)"

section \<open>Projections\<close>

record order_item_view =
  oiv_item_id :: int
  oiv_product_id :: int
  oiv_product_name :: string
  oiv_quantity :: string
  oiv_commercial_amount :: string

record check_order_line =
  col_order_id :: int
  col_diner_session_id :: int
  col_service_session_id :: int
  col_resource_id :: int
  col_accepted_at :: datetime
  col_accepted_payable_amount :: rat
  col_accepted_commercial_fingerprint :: string
  col_items :: "order_item_view list"

record check_diner_group =
  cdg_diner_session_id :: int
  cdg_display_name :: string
  cdg_orders :: "check_order_line list"

record check_resource_group =
  crg_resource_id :: int
  crg_service_session_id :: int
  crg_diners :: "check_diner_group list"

record check_projection =
  cpr_id :: int
  cpr_tenant_id :: int
  cpr_organization_id :: int
  cpr_location_id :: int
  cpr_status :: check_status
  cpr_version :: int
  cpr_fingerprint :: string
  cpr_currency :: string
  cpr_controller_diner_session_id :: "int option"
  cpr_resource_ids :: "int list"
  cpr_member_ids :: "int list"
  cpr_diner_scope_ids :: "int list"
  cpr_table_scope_session_ids :: "int list"
  cpr_consumption_total :: rat
  cpr_gratuity_total :: rat
  cpr_liability_total :: rat
  cpr_confirmed_settlement :: rat
  cpr_outstanding :: rat
  cpr_uncertain_exposure :: rat
  cpr_created_at :: datetime
  cpr_frozen_at :: "datetime option"
  cpr_settled_at :: "datetime option"
  cpr_continuation_decision :: continuation
  cpr_cancelled_at :: "datetime option"
  cpr_details :: "check_resource_group list option"
  cpr_signal :: "string option"

definition members_of_check :: "db \<Rightarrow> int \<Rightarrow> check_member list" where
  "members_of_check d i = order_by cm_diner_session_id (filter (\<lambda>m. cm_check_id m = i) (check_members d))"

definition active_members :: "db \<Rightarrow> int \<Rightarrow> check_member list" where
  "active_members d i = filter (\<lambda>m. cm_active_slot m = Some 1) (members_of_check d i)"

definition owned_allocations :: "db \<Rightarrow> int \<Rightarrow> check_allocation list" where
  "owned_allocations d i = order_by al_id
     (filter (\<lambda>a. al_check_id a = i \<and> al_ownership_slot a = Some 1) (check_allocations d))"

definition settled_amount :: "db \<Rightarrow> int \<Rightarrow> rat" where
  "settled_amount d i = sum_by st_amount (filter (\<lambda>s. st_check_id s = i) (check_settlements d))"

definition payment_amount :: "db \<Rightarrow> payment_state set \<Rightarrow> int \<Rightarrow> rat" where
  "payment_amount d states i =
     sum_by pay_amount (filter (\<lambda>p. pay_check_id p = i \<and> pay_state p \<in> states) (restaurant_payments d))"

definition order_line ::
  "db \<Rightarrow> check_allocation \<Rightarrow> check_error + check_order_line"
where
  "order_line d a =
     (case find_row ro_id (al_restaurant_order_id a) (restaurant_orders d) of
        None \<Rightarrow> Inl CheckKeyError
      | Some order \<Rightarrow> Inr \<lparr>
          col_order_id = ro_id order, col_diner_session_id = ro_diner_session_id order,
          col_service_session_id = ro_service_session_id order, col_resource_id = ro_resource_id order,
          col_accepted_at = ro_accepted_at order,
          col_accepted_payable_amount = al_accepted_payable_amount a,
          col_accepted_commercial_fingerprint = al_accepted_commercial_fingerprint a,
          col_items = map (\<lambda>item. \<lparr>
              oiv_item_id = roi_id item, oiv_product_id = roi_product_id item,
              oiv_product_name = roi_product_name item,
              oiv_quantity = money_str (roi_quantity item),
              oiv_commercial_amount = money_str (roi_commercial_amount item)\<rparr>)
            (order_by roi_position (order_by roi_id
              (filter (\<lambda>i. roi_order_id i = ro_id order) (restaurant_order_items d))))\<rparr>)"

definition diner_group :: "db \<Rightarrow> check_allocation list \<Rightarrow> int \<Rightarrow> check_error + check_diner_group" where
  "diner_group d allocations diner =
     (case find_row ds_id diner (diner_sessions d) of
        None \<Rightarrow> Inl CheckKeyError
      | Some row \<Rightarrow>
          bind_result (traverse (order_line d)
              (filter (\<lambda>a. al_source_diner_session_id a = diner) allocations)) (\<lambda>lines.
            Inr \<lparr>cdg_diner_session_id = diner, cdg_display_name = ds_display_name row,
                 cdg_orders = lines\<rparr>))"

text \<open>The groups of a detailed check, by resource and service session, then by diner.\<close>

definition check_details :: "db \<Rightarrow> check_allocation list \<Rightarrow> check_error + check_resource_group list" where
  "check_details d allocations =
     traverse (\<lambda>(resource, session).
         let own = filter (\<lambda>a. al_source_resource_id a = resource
                             \<and> al_source_service_session_id a = session) allocations
         in bind_result (traverse (diner_group d own) (sorted_set (map al_source_diner_session_id own)))
              (\<lambda>diners. Inr \<lparr>crg_resource_id = resource, crg_service_session_id = session,
                              crg_diners = diners\<rparr>))
       (order_by fst (order_by snd (remdups
         (map (\<lambda>a. (al_source_resource_id a, al_source_service_session_id a)) allocations))))"

definition check_view ::
  "db \<Rightarrow> restaurant_check \<Rightarrow> check_resource_group list option \<Rightarrow> check_projection"
where
  "check_view d check details =
     (let all_members = members_of_check d (chk_id check);
          table_scopes = order_by ts_service_session_id
            (filter (\<lambda>t. ts_check_id t = chk_id check) (check_table_scopes d));
          table_session_ids = map ts_service_session_id table_scopes;
          settled = settled_amount d (chk_id check)
      in \<lparr>cpr_id = chk_id check, cpr_tenant_id = chk_tenant_id check,
          cpr_organization_id = chk_organization_id check, cpr_location_id = chk_location_id check,
          cpr_status = chk_status check, cpr_version = chk_version check,
          cpr_fingerprint = chk_current_fingerprint check, cpr_currency = chk_currency check,
          cpr_controller_diner_session_id = chk_controller_diner_session_id check,
          cpr_resource_ids = sorted_set (map cm_resource_id all_members @ map ts_resource_id table_scopes),
          cpr_member_ids = map cm_diner_session_id (active_members d (chk_id check)),
          cpr_diner_scope_ids = map cm_diner_session_id
            (filter (\<lambda>m. cm_service_session_id m \<notin> set table_session_ids) all_members),
          cpr_table_scope_session_ids = table_session_ids,
          cpr_consumption_total = chk_consumption_total check,
          cpr_gratuity_total = chk_gratuity_total check,
          cpr_liability_total = chk_liability_total check,
          cpr_confirmed_settlement = settled,
          cpr_outstanding = max 0 (chk_liability_total check - settled),
          cpr_uncertain_exposure = payment_amount d {PAY_UNCERTAIN} (chk_id check),
          cpr_created_at = chk_created_at check, cpr_frozen_at = chk_frozen_at check,
          cpr_settled_at = chk_settled_at check,
          cpr_continuation_decision = chk_continuation_decision check,
          cpr_cancelled_at = chk_cancelled_at check, cpr_details = details,
          cpr_signal = (if chk_continuation_decision check = CONT_PENDING
                        then Some ''SERVICE_CONTINUATION_DECISION_REQUIRED'' else None)\<rparr>)"

definition get_check ::
  "db \<Rightarrow> int \<Rightarrow> int \<Rightarrow> bool \<Rightarrow> int option \<Rightarrow> int option \<Rightarrow> check_error + check_projection"
where
  "get_check d tenant check_id detailed owner_diner location =
     (case List.find (\<lambda>c. chk_id c = check_id \<and> chk_tenant_id c = tenant
                         \<and> (case location of None \<Rightarrow> True | Some l \<Rightarrow> chk_location_id c = l))
             (restaurant_checks d) of
        None \<Rightarrow> Inl CheckNotFoundError
      | Some check \<Rightarrow>
          if (case owner_diner of None \<Rightarrow> False
              | Some o' \<Rightarrow> o' \<notin> set (map cm_diner_session_id (members_of_check d (chk_id check))))
          then Inl CheckNotFoundError
          else if detailed
          then bind_result (check_details d
                 (order_by al_source_resource_id (order_by al_source_diner_session_id
                   (order_by al_restaurant_order_id (filter (\<lambda>a. al_check_id a = chk_id check
                      \<and> al_state a \<noteq> AL_RELEASED) (check_allocations d))))))
                 (\<lambda>details. Inr (check_view d check (Some details)))
          else Inr (check_view d check None))"

definition list_checks ::
  "db \<Rightarrow> int \<Rightarrow> int \<Rightarrow> check_status option \<Rightarrow> nat \<Rightarrow> nat \<Rightarrow> check_error + check_projection list"
where
  "list_checks d tenant location status limit offset =
     traverse (\<lambda>c. get_check d tenant (chk_id c) False None (Some location))
       (take limit (drop offset (order_by chk_created_at (order_by chk_id
         (filter (\<lambda>c. chk_tenant_id c = tenant \<and> chk_location_id c = location
                      \<and> (case status of None \<Rightarrow> True | Some s \<Rightarrow> chk_status c = s))
           (restaurant_checks d))))))"

section \<open>Guards\<close>

definition ensure_ordering_allowed :: "db \<Rightarrow> int \<Rightarrow> int \<Rightarrow> check_error + unit" where
  "ensure_ordering_allowed d tenant diner_session_id =
     (case List.find (\<lambda>s. ds_tenant_id s = tenant \<and> ds_id s = diner_session_id) (diner_sessions d) of
        None \<Rightarrow> Inl OrderingBlockedError
      | Some diner \<Rightarrow>
          if List.find (\<lambda>m. cm_tenant_id m = tenant \<and> cm_diner_session_id m = diner_session_id
                            \<and> cm_active_slot m = Some 1) (check_members d) \<noteq> None
          then Inl OrderingBlockedError
          else if List.find (\<lambda>t. ts_tenant_id t = tenant
                                 \<and> ts_service_session_id t = ds_service_session_id diner
                                 \<and> ts_active_slot t = Some 1) (check_table_scopes d) \<noteq> None
          then Inl OrderingBlockedError
          else Inr ())"

definition lock_diners ::
  "db \<Rightarrow> int \<Rightarrow> int list
   \<Rightarrow> check_error + (service_session list \<times> diner_session list \<times> conversation list)"
where
  "lock_diners d tenant diner_ids =
     (let wanted = (if diner_ids = [] then [-1] else diner_ids);
          identities = order_by ds_id (filter (\<lambda>s. ds_tenant_id s = tenant \<and> ds_id s \<in> set wanted)
            (diner_sessions d));
          session_ids = sorted_set (map ds_service_session_id identities);
          sessions = order_by ss_id (filter (\<lambda>s. ss_tenant_id s = tenant \<and> ss_id s \<in> set session_ids)
            (service_sessions d));
          diners = order_by ds_id (filter (\<lambda>s. ds_tenant_id s = tenant \<and> ds_id s \<in> set diner_ids)
            (diner_sessions d));
          conversation_ids = sort (map ds_conversation_id diners);
          conversations' = order_by cv_id (filter (\<lambda>c. cv_tenant_id c = tenant
            \<and> cv_id c \<in> set conversation_ids) (conversations d))
      in if length identities \<noteq> length diner_ids then Inl CheckNotFoundError
         else if length sessions \<noteq> length session_ids \<or> length diners \<noteq> length diner_ids
              \<or> length conversations' \<noteq> length conversation_ids
              \<or> list_ex (\<lambda>s. ss_status s \<noteq> ''OPEN'' \<or> ss_open_slot s \<noteq> Some 1) sessions
              \<or> list_ex (\<lambda>s. ds_status s \<noteq> ''ACTIVE'' \<or> ds_active_slot s \<noteq> Some 1) diners
              \<or> list_ex (\<lambda>c. cv_status c \<noteq> ''ACTIVE'') conversations'
         then Inl CheckNotFoundError
         else if length (remdups (map (\<lambda>s. (ds_tenant_id s, ds_organization_id s, ds_location_id s))
                   diners)) \<noteq> 1
         then Inl CrossLocationCheckError
         else Inr (sessions, diners, conversations'))"

definition validate_drafts :: "db \<Rightarrow> diner_session list \<Rightarrow> check_error + unit" where
  "validate_drafts d diners =
     (let drafts = filter (\<lambda>x. od_conversation_id x \<in> set (map ds_conversation_id diners)
                               \<and> od_status x = ''OPEN'' \<and> od_current_slot x = Some 1) (order_drafts d)
      in if list_ex (\<lambda>x. 0 < length (filter (\<lambda>i. odi_draft_id i = od_id x) (order_draft_items d))) drafts
         then Inl DinerActiveDraftError else Inr ())"

definition active_membership_conflict :: "db \<Rightarrow> diner_session list \<Rightarrow> check_error + unit" where
  "active_membership_conflict d diners =
     (case diners of
        [] \<Rightarrow> Inl CheckIndexError
      | first # _ \<Rightarrow>
          if list_ex (\<lambda>m. cm_tenant_id m = ds_tenant_id first
                          \<and> cm_diner_session_id m \<in> set (map ds_id diners)
                          \<and> cm_active_slot m = Some 1) (check_members d)
          then Inl DinerAlreadyAssignedError
          else if list_ex (\<lambda>t. ts_tenant_id t = ds_tenant_id first
                               \<and> ts_service_session_id t \<in> set (map ds_service_session_id diners)
                               \<and> ts_active_slot t = Some 1) (check_table_scopes d)
          then Inl DinerAlreadyAssignedError
          else Inr ())"

text \<open>An order is allocated when some check owns it.\<close>

definition order_allocated :: "db \<Rightarrow> restaurant_order \<Rightarrow> bool" where
  "order_allocated d o' = list_ex (\<lambda>a. al_tenant_id a = ro_tenant_id o'
     \<and> al_restaurant_order_id a = ro_id o' \<and> al_ownership_slot a = Some 1) (check_allocations d)"

definition eligible_orders :: "db \<Rightarrow> diner_session list \<Rightarrow> check_error + restaurant_order list" where
  "eligible_orders d diners =
     (case diners of
        [] \<Rightarrow> Inl CheckIndexError
      | first # _ \<Rightarrow> Inr (order_by ro_id (filter (\<lambda>o'. ro_tenant_id o' = ds_tenant_id first
            \<and> ro_diner_session_id o' \<in> set (map ds_id diners) \<and> ro_status o' = ''ACCEPTED''
            \<and> \<not> order_allocated d o') (restaurant_orders d))))"

section \<open>Versions and the command log\<close>

definition FINGERPRINT_SCHEMA_VERSION :: int where
  "FINGERPRINT_SCHEMA_VERSION = 1"

fun allocation_state_value :: "allocation_state \<Rightarrow> string" where
  "allocation_state_value AL_CLAIMED = ''CLAIMED''"
| "allocation_state_value AL_RELEASED = ''RELEASED''"
| "allocation_state_value AL_SETTLED = ''SETTLED''"

fun gratuity_type_value :: "gratuity_type \<Rightarrow> string" where
  "gratuity_type_value PERCENTAGE = ''PERCENTAGE''"
| "gratuity_type_value FIXED_AMOUNT = ''FIXED_AMOUNT''"

definition controller_snapshot :: "restaurant_check \<Rightarrow> json" where
  "controller_snapshot check =
     (case chk_controller check of Actor t i r \<Rightarrow>
        JObj [(''actor_type'', JStr (actor_type_value t)), (''actor_id'', json_opt JInt i),
              (''actor_reference'', json_opt JStr r),
              (''diner_session_id'', json_opt JInt (chk_controller_diner_session_id check))])"

definition member_ids_snapshot :: "check_member list \<Rightarrow> json" where
  "member_ids_snapshot members =
     JArr (map JInt (sort (map cm_diner_session_id (filter (\<lambda>m. cm_active_slot m = Some 1) members))))"

definition allocations_snapshot :: "check_allocation list \<Rightarrow> json" where
  "allocations_snapshot allocations =
     JArr (map (\<lambda>a. JObj [
         (''allocation_id'', JInt (al_id a)),
         (''restaurant_order_id'', JInt (al_restaurant_order_id a)),
         (''commercial_fingerprint'', JStr (al_accepted_commercial_fingerprint a)),
         (''accepted_payable_amount'', JStr (money_str (al_accepted_payable_amount a))),
         (''state'', JStr (allocation_state_value (al_state a)))])
       (filter (\<lambda>a. al_state a \<noteq> AL_RELEASED)
         (order_by al_restaurant_order_id (order_by al_id allocations))))"

definition gratuity_snapshot :: "gratuity_type option \<Rightarrow> rat \<Rightarrow> rat \<Rightarrow> rat \<Rightarrow> json" where
  "gratuity_snapshot gtype ginput basis amount = JObj [
     (''type'', json_opt (JStr \<circ> gratuity_type_value) gtype), (''input'', JStr (money_str ginput)),
     (''basis'', JStr (money_str basis)), (''rounding_policy'', JStr ROUNDING_POLICY),
     (''amount'', JStr (money_str amount))]"

definition snapshot_payload ::
  "restaurant_check \<Rightarrow> check_member list \<Rightarrow> check_allocation list \<Rightarrow> gratuity_type option \<Rightarrow> rat \<Rightarrow> rat
   \<Rightarrow> rat \<Rightarrow> json"
where
  "snapshot_payload check members allocations gtype ginput basis amount = JObj [
     (''schema_version'', JInt FINGERPRINT_SCHEMA_VERSION),
     (''check_id'', JInt (chk_id check)), (''version'', JInt (chk_version check)),
     (''tenant_id'', JInt (chk_tenant_id check)),
     (''organization_id'', JInt (chk_organization_id check)),
     (''location_id'', JInt (chk_location_id check)), (''currency'', JStr (chk_currency check)),
     (''controller'', controller_snapshot check),
     (''member_ids'', member_ids_snapshot members),
     (''allocations'', allocations_snapshot allocations),
     (''consumption_total'', JStr (money_str (chk_consumption_total check))),
     (''gratuity'', gratuity_snapshot gtype ginput basis amount),
     (''liability_total'', JStr (money_str (chk_liability_total check)))]"

definition set_fingerprint :: "string \<Rightarrow> restaurant_check \<Rightarrow> restaurant_check" where
  "set_fingerprint fingerprint c = c\<lparr>chk_current_fingerprint := fingerprint\<rparr>"

definition version_row ::
  "execution_context \<Rightarrow> datetime \<Rightarrow> restaurant_check \<Rightarrow> check_member list \<Rightarrow> check_allocation list
   \<Rightarrow> gratuity_type option \<Rightarrow> rat \<Rightarrow> string \<Rightarrow> int \<Rightarrow> check_version"
where
  "version_row ctx now check members allocations gtype ginput fingerprint i = \<lparr>
     cv_row_id = i, cv_row_tenant_id = chk_tenant_id check,
     cv_organization_id = chk_organization_id check, cv_location_id = chk_location_id check,
     cv_check_id = chk_id check, cv_version = chk_version check,
     cv_schema_version = FINGERPRINT_SCHEMA_VERSION, cv_currency = chk_currency check,
     cv_member_snapshot = JObj [(''member_ids'', member_ids_snapshot members),
                                (''controller'', controller_snapshot check)],
     cv_allocation_snapshot = JObj [(''allocations'', allocations_snapshot allocations)],
     cv_gratuity_snapshot = gratuity_snapshot gtype ginput (chk_consumption_total check)
                              (chk_gratuity_total check),
     cv_consumption_total = chk_consumption_total check,
     cv_gratuity_amount = chk_gratuity_total check, cv_liability_total = chk_liability_total check,
     cv_fingerprint = fingerprint, cv_actor = actor_values ctx, cv_recorded_at = now\<rparr>"

text \<open>\<^theory_text>\<open>check\<close> is the row as the command has left it in \<^theory_text>\<open>d\<close>.\<close>

definition write_version ::
  "(json \<Rightarrow> string) \<Rightarrow> execution_context \<Rightarrow> datetime \<Rightarrow> restaurant_check \<Rightarrow> gratuity_type option \<Rightarrow> rat
   \<Rightarrow> db \<Rightarrow> db"
where
  "write_version sha ctx now check gtype ginput d =
     (let members = members_of_check d (chk_id check);
          allocations = order_by al_restaurant_order_id
            (filter (\<lambda>a. al_check_id a = chk_id check) (check_allocations d));
          fingerprint = sha (snapshot_payload check members allocations gtype ginput
            (chk_consumption_total check) (chk_gratuity_total check))
      in d\<lparr>restaurant_checks :=
             modify chk_id (chk_id check) (set_fingerprint fingerprint) (restaurant_checks d),
           check_versions := check_versions d
             @ [version_row ctx now check members allocations gtype ginput fingerprint
                  (next_id cv_row_id (check_versions d))]\<rparr>)"

definition command_replay ::
  "(json \<Rightarrow> string) \<Rightarrow> execution_context \<Rightarrow> string \<Rightarrow> string \<Rightarrow> json \<Rightarrow> db
   \<Rightarrow> check_error + check_command option"
where
  "command_replay sha ctx idempotency_key operation request d =
     (case List.find (\<lambda>c. cc_tenant_id c = tenant_id ctx \<and> cc_actor_scope c = actor_scope ctx
                         \<and> cc_idempotency_key c = idempotency_key) (check_commands d) of
        None \<Rightarrow> Inr None
      | Some command \<Rightarrow>
          if cc_operation command \<noteq> operation \<or> cc_request_fingerprint command \<noteq> sha request
          then Inl CheckIdempotencyConflictError else Inr (Some command))"

definition record_command ::
  "(json \<Rightarrow> string) \<Rightarrow> execution_context \<Rightarrow> string \<Rightarrow> string \<Rightarrow> json \<Rightarrow> restaurant_check \<Rightarrow> db \<Rightarrow> db"
where
  "record_command sha ctx idempotency_key operation request check d = d\<lparr>
     check_commands := check_commands d @ [\<lparr>
       cc_id = next_id cc_id (check_commands d), cc_tenant_id = tenant_id ctx,
       cc_check_id = chk_id check, cc_actor_scope = actor_scope ctx,
       cc_idempotency_key = idempotency_key, cc_operation = operation,
       cc_request_fingerprint = sha request, cc_result_version = chk_version check\<rparr>]\<rparr>"

text \<open>
  The frame of every command: the replay of a stored command, the command itself, the record of it,
  the commit and the projection. \<^theory_text>\<open>target\<close> is the check a replay shows; \<^theory_text>\<open>run\<close> returns the check as
  the command has left it and the database with its changes.
\<close>

definition check_command_frame ::
  "(json \<Rightarrow> string) \<Rightarrow> execution_context \<Rightarrow> string \<Rightarrow> string \<Rightarrow> json \<Rightarrow> (check_command \<Rightarrow> int)
   \<Rightarrow> (db \<Rightarrow> check_error + (restaurant_check \<times> db)) \<Rightarrow> db
   \<Rightarrow> check_error + ((check_projection \<times> bool) \<times> db)"
where
  "check_command_frame sha ctx idempotency_key operation request target run d =
     bind_result (command_replay sha ctx idempotency_key operation request d) (\<lambda>replay.
       case replay of
         Some command \<Rightarrow>
           bind_result (get_check d (tenant_id ctx) (target command) False None None)
             (\<lambda>p. Inr ((p, True), d))
       | None \<Rightarrow>
           bind_result (run d) (\<lambda>(check, d1).
             let d2 = record_command sha ctx idempotency_key operation request check d1
             in if \<not> check_constraints d2 then Inl CheckIntegrityError
                else bind_result (get_check d2 (tenant_id ctx) (chk_id check) False None None)
                       (\<lambda>p. Inr ((p, False), d2))))"

definition raise_concurrency_conflict :: "int \<Rightarrow> check_error" where
  "raise_concurrency_conflict code =
     (if code = 1205 \<or> code = 1213 then CheckVersionConflictError else CheckOperationalError code)"

definition locked_check :: "db \<Rightarrow> int \<Rightarrow> int \<Rightarrow> int \<Rightarrow> check_error + restaurant_check" where
  "locked_check d tenant check_id expected_version =
     (case List.find (\<lambda>c. chk_id c = check_id \<and> chk_tenant_id c = tenant) (restaurant_checks d) of
        None \<Rightarrow> Inl CheckNotFoundError
      | Some check \<Rightarrow>
          if chk_version check \<noteq> expected_version then Inl CheckVersionConflictError
          else if chk_status check \<noteq> CHK_OPEN then Inl CheckNotModifiableError
          else Inr check)"

definition authorize_controller :: "restaurant_check \<Rightarrow> execution_context \<Rightarrow> check_error + unit" where
  "authorize_controller check ctx =
     (if actor_type ctx = EMPLOYEE then Inr ()
      else if actor_type ctx \<noteq> DINER \<or> principal_id ctx \<noteq> chk_controller_diner_session_id check
      then Inl CheckPermissionError else Inr ())"

section \<open>Creating a check\<close>

definition member_row ::
  "execution_context \<Rightarrow> datetime \<Rightarrow> restaurant_check \<Rightarrow> (diner_session \<Rightarrow> relationship) \<Rightarrow> int
   \<Rightarrow> diner_session \<Rightarrow> check_member"
where
  "member_row ctx now check relationship i diner = \<lparr>
     cm_id = i, cm_tenant_id = chk_tenant_id check, cm_organization_id = chk_organization_id check,
     cm_location_id = chk_location_id check, cm_check_id = chk_id check,
     cm_diner_session_id = ds_id diner, cm_service_session_id = ds_service_session_id diner,
     cm_resource_id = ds_resource_id diner, cm_conversation_id = ds_conversation_id diner,
     cm_relationship = relationship diner, cm_active_slot = Some 1, cm_acquired_at = now,
     cm_acquired_by = actor_values ctx, cm_acquired_version = chk_version check,
     cm_released_at = None, cm_released_by = None, cm_release_reason = None,
     cm_released_version = None\<rparr>"

definition scope_row ::
  "execution_context \<Rightarrow> datetime \<Rightarrow> restaurant_check \<Rightarrow> int \<Rightarrow> service_session \<Rightarrow> check_table_scope"
where
  "scope_row ctx now check i session = \<lparr>
     ts_id = i, ts_tenant_id = chk_tenant_id check, ts_organization_id = chk_organization_id check,
     ts_location_id = chk_location_id check, ts_check_id = chk_id check,
     ts_service_session_id = ss_id session, ts_resource_id = ss_resource_id session,
     ts_lock_phase = PHASE_CHECK, ts_active_slot = Some 1, ts_acquired_at = now,
     ts_acquired_by = actor_values ctx, ts_released_at = None, ts_released_by = None,
     ts_release_reason = None\<rparr>"

definition allocation_row ::
  "execution_context \<Rightarrow> datetime \<Rightarrow> restaurant_check \<Rightarrow> int \<Rightarrow> restaurant_order \<Rightarrow> check_allocation"
where
  "allocation_row ctx now check i order = \<lparr>
     al_id = i, al_tenant_id = chk_tenant_id check, al_organization_id = chk_organization_id check,
     al_location_id = chk_location_id check, al_check_id = chk_id check,
     al_restaurant_order_id = ro_id order, al_source_diner_session_id = ro_diner_session_id order,
     al_source_service_session_id = ro_service_session_id order,
     al_source_resource_id = ro_resource_id order,
     al_source_conversation_id = ro_conversation_id order,
     al_accepted_payable_amount = ro_payable_total order, al_accepted_currency = ro_currency order,
     al_accepted_commercial_fingerprint = ro_commercial_fingerprint order,
     al_state = AL_CLAIMED, al_ownership_slot = Some 1, al_claimed_at = now,
     al_claimed_by = actor_values ctx, al_claimed_version = chk_version check,
     al_released_at = None, al_released_by = None, al_release_reason = None,
     al_released_version = None, al_settled_at = None, al_settlement_reference = None\<rparr>"

definition claim_orders ::
  "execution_context \<Rightarrow> datetime \<Rightarrow> restaurant_check \<Rightarrow> restaurant_order list \<Rightarrow> db \<Rightarrow> db"
where
  "claim_orders ctx now check orders d = d\<lparr>check_allocations :=
     insert_rows al_id (allocation_row ctx now check) orders (check_allocations d)\<rparr>"

definition include_diners ::
  "execution_context \<Rightarrow> datetime \<Rightarrow> restaurant_check \<Rightarrow> (diner_session \<Rightarrow> relationship)
   \<Rightarrow> diner_session list \<Rightarrow> db \<Rightarrow> db"
where
  "include_diners ctx now check relationship diners d = d\<lparr>check_members :=
     insert_rows cm_id (member_row ctx now check relationship) diners (check_members d)\<rparr>"

definition lock_tables ::
  "execution_context \<Rightarrow> datetime \<Rightarrow> restaurant_check \<Rightarrow> service_session list \<Rightarrow> db \<Rightarrow> db"
where
  "lock_tables ctx now check sessions d = d\<lparr>check_table_scopes :=
     insert_rows ts_id (scope_row ctx now check) sessions (check_table_scopes d)\<rparr>"

definition created_check ::
  "db \<Rightarrow> execution_context \<Rightarrow> datetime \<Rightarrow> diner_session \<Rightarrow> int option \<Rightarrow> string \<Rightarrow> rat \<Rightarrow> restaurant_check"
where
  "created_check d ctx now first_diner controller currency consumption_total = \<lparr>
     chk_id = next_id chk_id (restaurant_checks d), chk_tenant_id = tenant_id ctx,
     chk_organization_id = ds_organization_id first_diner,
     chk_location_id = ds_location_id first_diner, chk_currency = currency,
     chk_status = CHK_OPEN, chk_version = 1, chk_current_fingerprint = replicate 64 (CHR ''0''),
     chk_fingerprint_schema_version = FINGERPRINT_SCHEMA_VERSION,
     chk_consumption_total = consumption_total, chk_gratuity_total = 0,
     chk_liability_total = consumption_total, chk_controller = actor_values ctx,
     chk_controller_diner_session_id = controller, chk_created_by = actor_values ctx,
     chk_created_at = now, chk_frozen_at = None, chk_frozen_by = None, chk_settled_at = None,
     chk_settled_by = None, chk_continuation_decision = CONT_NONE,
     chk_continuation_decided_at = None, chk_continuation_by = None, chk_cancelled_at = None,
     chk_cancelled_by = None, chk_cancellation_reason = None\<rparr>"

text \<open>
  The diners that become members: all that are selected, or those with an eligible order and the
  controller.
\<close>

definition chosen_diners ::
  "bool \<Rightarrow> int option \<Rightarrow> restaurant_order list \<Rightarrow> diner_session list \<Rightarrow> diner_session list"
where
  "chosen_diners eligible_members_only controller orders diners =
     (if eligible_members_only
      then filter (\<lambda>s. ds_id s \<in> set (map ro_diner_session_id orders) \<or> controller = Some (ds_id s)) diners
      else diners)"

definition table_conflict :: "db \<Rightarrow> int \<Rightarrow> int list \<Rightarrow> bool" where
  "table_conflict d tenant table_ids \<longleftrightarrow> table_ids \<noteq> [] \<and>
     (list_ex (\<lambda>m. cm_tenant_id m = tenant \<and> cm_service_session_id m \<in> set table_ids
                   \<and> cm_active_slot m = Some 1) (check_members d)
      \<or> list_ex (\<lambda>t. ts_tenant_id t = tenant \<and> ts_service_session_id t \<in> set table_ids
                   \<and> ts_active_slot t = Some 1) (check_table_scopes d))"

definition every_member_orders ::
  "bool \<Rightarrow> int option \<Rightarrow> restaurant_order list \<Rightarrow> diner_session list \<Rightarrow> bool"
where
  "every_member_orders allow_controller controller orders diners =
     list_all (\<lambda>s. ds_id s \<in> set (map ro_diner_session_id orders)
                   \<or> allow_controller \<and> controller = Some (ds_id s)) diners"

definition open_new_check ::
  "(json \<Rightarrow> string) \<Rightarrow> execution_context \<Rightarrow> datetime \<Rightarrow> int option \<Rightarrow> diner_session list
   \<Rightarrow> service_session list \<Rightarrow> restaurant_order list \<Rightarrow> db \<Rightarrow> restaurant_check \<times> db"
where
  "open_new_check sha ctx now controller diners table_sessions orders d =
     (let check = created_check d ctx now (hd diners) controller (ro_currency (hd orders))
                    (sum_by ro_payable_total orders);
          d1 = d\<lparr>restaurant_checks := restaurant_checks d @ [check]\<rparr>;
          d2 = include_diners ctx now check
                 (\<lambda>s. if controller = Some (ds_id s) then REL_CONTROLLER else REL_INCLUDED) diners d1;
          d3 = lock_tables ctx now check table_sessions d2;
          d4 = claim_orders ctx now check orders d3
      in (check, write_version sha ctx now check None 0 d4))"

definition create_check_run ::
  "(json \<Rightarrow> string) \<Rightarrow> execution_context \<Rightarrow> datetime \<Rightarrow> int list \<Rightarrow> int option \<Rightarrow> bool \<Rightarrow> bool \<Rightarrow> int list
   \<Rightarrow> db \<Rightarrow> check_error + (restaurant_check \<times> db)"
where
  "create_check_run sha ctx now selected controller eligible_members_only allow_controller table_ids d =
     bind_result (lock_diners d (tenant_id ctx) selected) (\<lambda>(sessions, locked_diners, _).
     if \<not> set table_ids \<subseteq> set (map ss_id sessions) then Inl CheckNotFoundError
     else if (case controller of None \<Rightarrow> False | Some c \<Rightarrow> c \<notin> set selected) then Inl CheckPermissionError
     else
     bind_result (eligible_orders d locked_diners) (\<lambda>orders.
     if orders = [] then Inl NoEligibleConsumptionError
     else
     (let diners = chosen_diners eligible_members_only controller orders locked_diners in
     bind_result (validate_drafts d diners) (\<lambda>_.
     bind_result (active_membership_conflict d diners) (\<lambda>_.
     if table_conflict d (tenant_id ctx) table_ids then Inl DinerAlreadyAssignedError
     else if \<not> every_member_orders allow_controller controller orders diners
     then Inl NoEligibleConsumptionError
     else if length (remdups (map ro_currency orders)) \<noteq> 1 then Inl CrossLocationCheckError
     else Inr (open_new_check sha ctx now controller diners
                 (filter (\<lambda>s. ss_id s \<in> set table_ids) sessions) orders d))))))"

definition create_check_request :: "int list \<Rightarrow> int option \<Rightarrow> bool \<Rightarrow> bool \<Rightarrow> int list \<Rightarrow> json" where
  "create_check_request selected controller eligible_members_only allow_controller table_ids = JObj [
     (''diner_ids'', JArr (map JInt selected)),
     (''controller_diner_session_id'', json_opt JInt controller),
     (''eligible_members_only'', JBool eligible_members_only),
     (''allow_controller_without_order'', JBool allow_controller),
     (''table_service_session_ids'', JArr (map JInt table_ids))]"

definition create_check ::
  "(json \<Rightarrow> string) \<Rightarrow> execution_context \<Rightarrow> datetime \<Rightarrow> int list \<Rightarrow> int option \<Rightarrow> string \<Rightarrow> bool \<Rightarrow> bool
   \<Rightarrow> int list \<Rightarrow> db \<Rightarrow> check_error + ((check_projection \<times> bool) \<times> db)"
where
  "create_check sha ctx now diner_ids controller idempotency_key eligible_members_only
     allow_controller table_service_session_ids d =
     (let selected = sorted_set diner_ids; table_ids = sorted_set table_service_session_ids
      in check_command_frame sha ctx idempotency_key ''CREATE''
           (create_check_request selected controller eligible_members_only allow_controller table_ids)
           cc_check_id
           (create_check_run sha ctx now selected controller eligible_members_only allow_controller
              table_ids) d)"

text \<open>
  The handler of OperationalError: a first deadlock (1213) runs the command once more, anything else is
  raised. \<^theory_text>\<open>faults\<close> are the codes the database raises in the attempts that fail, in order.
\<close>

fun create_check_retrying :: "(db \<Rightarrow> check_error + 'a) \<Rightarrow> bool \<Rightarrow> int list \<Rightarrow> db \<Rightarrow> check_error + 'a" where
  "create_check_retrying attempt deadlock_retried [] d = attempt d"
| "create_check_retrying attempt deadlock_retried (code # faults) d =
     (if \<not> deadlock_retried \<and> code = 1213 then create_check_retrying attempt True faults d
      else Inl (CheckOperationalError code))"

definition create_individual_check ::
  "(json \<Rightarrow> string) \<Rightarrow> execution_context \<Rightarrow> datetime \<Rightarrow> int \<Rightarrow> string \<Rightarrow> db
   \<Rightarrow> check_error + ((check_projection \<times> bool) \<times> db)"
where
  "create_individual_check sha ctx now diner_session_id idempotency_key =
     create_check sha ctx now [diner_session_id] (Some diner_session_id) idempotency_key False False []"

definition create_global_table_check ::
  "(json \<Rightarrow> string) \<Rightarrow> execution_context \<Rightarrow> datetime \<Rightarrow> int \<Rightarrow> int option \<Rightarrow> string \<Rightarrow> db
   \<Rightarrow> check_error + ((check_projection \<times> bool) \<times> db)"
where
  "create_global_table_check sha ctx now service_session_id controller idempotency_key d =
     (case List.find (\<lambda>s. ss_id s = service_session_id \<and> ss_tenant_id s = tenant_id ctx
                         \<and> ss_status s = ''OPEN'' \<and> ss_open_slot s = Some 1) (service_sessions d) of
        None \<Rightarrow> Inl CheckNotFoundError
      | Some session \<Rightarrow>
          (let diner_ids = map ds_id (order_by ds_id (filter (\<lambda>s. ds_tenant_id s = tenant_id ctx
                 \<and> ds_service_session_id s = service_session_id \<and> ds_active_slot s = Some 1)
                 (diner_sessions d)))
           in if diner_ids = [] then Inl NoEligibleConsumptionError
              else create_check sha ctx now diner_ids controller idempotency_key True True
                     [service_session_id] d))"

definition create_scoped_check ::
  "(json \<Rightarrow> string) \<Rightarrow> execution_context \<Rightarrow> datetime \<Rightarrow> int list \<Rightarrow> int list \<Rightarrow> int option \<Rightarrow> string \<Rightarrow> db
   \<Rightarrow> check_error + ((check_projection \<times> bool) \<times> db)"
where
  "create_scoped_check sha ctx now diner_ids table_service_session_ids controller idempotency_key d =
     (let table_ids = sorted_set table_service_session_ids;
          sessions = filter (\<lambda>s. ss_tenant_id s = tenant_id ctx \<and> ss_id s \<in> set table_ids
            \<and> ss_status s = ''OPEN'' \<and> ss_open_slot s = Some 1) (service_sessions d);
          table_diners = (if table_ids = [] then []
            else map ds_id (filter (\<lambda>s. ds_tenant_id s = tenant_id ctx
              \<and> ds_service_session_id s \<in> set table_ids \<and> ds_active_slot s = Some 1)
              (diner_sessions d)));
          selected = sorted_set (diner_ids @ table_diners)
      in if table_ids \<noteq> [] \<and> length sessions \<noteq> length table_ids then Inl CheckNotFoundError
         else if selected = [] then Inl NoEligibleConsumptionError
         else create_check sha ctx now selected controller idempotency_key (table_ids \<noteq> [])
                (table_ids \<noteq> []) table_ids d)"

section \<open>Changing an open check\<close>

definition set_totals :: "rat \<Rightarrow> rat \<Rightarrow> restaurant_check \<Rightarrow> restaurant_check" where
  "set_totals consumption gratuity c = c\<lparr>
     chk_version := chk_version c + 1, chk_consumption_total := consumption,
     chk_gratuity_total := gratuity, chk_liability_total := consumption + gratuity\<rparr>"

definition replace_check :: "restaurant_check \<Rightarrow> db \<Rightarrow> db" where
  "replace_check check d = d\<lparr>restaurant_checks :=
     modify chk_id (chk_id check) (\<lambda>_. check) (restaurant_checks d)\<rparr>"

definition add_member_run ::
  "(json \<Rightarrow> string) \<Rightarrow> execution_context \<Rightarrow> datetime \<Rightarrow> int \<Rightarrow> int \<Rightarrow> int \<Rightarrow> db
   \<Rightarrow> check_error + (restaurant_check \<times> db)"
where
  "add_member_run sha ctx now check_id diner_session_id expected_version d =
     bind_result (locked_check d (tenant_id ctx) check_id expected_version) (\<lambda>check.
     bind_result (authorize_controller check ctx) (\<lambda>_.
     bind_result (lock_diners d (tenant_id ctx) [diner_session_id]) (\<lambda>(_, diners, _).
     if ds_organization_id (hd diners) \<noteq> chk_organization_id check
        \<or> ds_location_id (hd diners) \<noteq> chk_location_id check
     then Inl CrossLocationCheckError
     else
     bind_result (validate_drafts d diners) (\<lambda>_.
     bind_result (active_membership_conflict d diners) (\<lambda>_.
     bind_result (eligible_orders d diners) (\<lambda>orders.
     if orders = [] then Inl NoEligibleConsumptionError
     else if list_ex (\<lambda>o'. ro_currency o' \<noteq> chk_currency check) orders
     then Inl CrossLocationCheckError
     else
       (let check' = set_totals (chk_consumption_total check + sum_by ro_payable_total orders)
                       (chk_gratuity_total check) check;
            d1 = include_diners ctx now check' (\<lambda>_. REL_INCLUDED) [hd diners] d;
            d2 = replace_check check' (claim_orders ctx now check' orders d1)
        in Inr (check', write_version sha ctx now check' None 0 d2))))))))"

definition add_member_request :: "int \<Rightarrow> int \<Rightarrow> int \<Rightarrow> json" where
  "add_member_request check_id diner_session_id expected_version = JObj [
     (''check_id'', JInt check_id), (''diner_session_id'', JInt diner_session_id),
     (''expected_version'', JInt expected_version)]"

definition add_member ::
  "(json \<Rightarrow> string) \<Rightarrow> execution_context \<Rightarrow> datetime \<Rightarrow> int \<Rightarrow> int \<Rightarrow> int \<Rightarrow> string \<Rightarrow> db
   \<Rightarrow> check_error + ((check_projection \<times> bool) \<times> db)"
where
  "add_member sha ctx now check_id diner_session_id expected_version idempotency_key =
     check_command_frame sha ctx idempotency_key ''ADD_MEMBER''
       (add_member_request check_id diner_session_id expected_version) (\<lambda>_. check_id)
       (add_member_run sha ctx now check_id diner_session_id expected_version)"

definition release_member ::
  "actor \<Rightarrow> datetime \<Rightarrow> string \<Rightarrow> int \<Rightarrow> check_member \<Rightarrow> check_member"
where
  "release_member actor now reason version m = m\<lparr>
     cm_active_slot := None, cm_released_at := Some now, cm_release_reason := Some reason,
     cm_released_version := Some version, cm_released_by := Some actor\<rparr>"

definition release_allocation ::
  "actor \<Rightarrow> datetime \<Rightarrow> string \<Rightarrow> int \<Rightarrow> check_allocation \<Rightarrow> check_allocation"
where
  "release_allocation actor now reason version a = a\<lparr>
     al_state := AL_RELEASED, al_ownership_slot := None, al_released_at := Some now,
     al_release_reason := Some reason, al_released_version := Some version,
     al_released_by := Some actor\<rparr>"

definition release_scope :: "actor \<Rightarrow> datetime \<Rightarrow> string \<Rightarrow> check_table_scope \<Rightarrow> check_table_scope" where
  "release_scope actor now reason t = t\<lparr>
     ts_lock_phase := PHASE_RELEASED, ts_active_slot := None, ts_released_at := Some now,
     ts_release_reason := Some reason, ts_released_by := Some actor\<rparr>"

definition release_members :: "actor \<Rightarrow> datetime \<Rightarrow> string \<Rightarrow> int \<Rightarrow> (check_member \<Rightarrow> bool) \<Rightarrow> db \<Rightarrow> db" where
  "release_members actor now reason version P d = d\<lparr>check_members :=
     modify_where P (release_member actor now reason version) (check_members d)\<rparr>"

definition release_allocations ::
  "actor \<Rightarrow> datetime \<Rightarrow> string \<Rightarrow> int \<Rightarrow> (check_allocation \<Rightarrow> bool) \<Rightarrow> db \<Rightarrow> db"
where
  "release_allocations actor now reason version P d = d\<lparr>check_allocations :=
     modify_where P (release_allocation actor now reason version) (check_allocations d)\<rparr>"

definition release_scopes :: "actor \<Rightarrow> datetime \<Rightarrow> string \<Rightarrow> (check_table_scope \<Rightarrow> bool) \<Rightarrow> db \<Rightarrow> db" where
  "release_scopes actor now reason P d = d\<lparr>check_table_scopes :=
     modify_where P (release_scope actor now reason) (check_table_scopes d)\<rparr>"

definition owned_by_diner :: "restaurant_check \<Rightarrow> int \<Rightarrow> check_allocation \<Rightarrow> bool" where
  "owned_by_diner check diner a \<longleftrightarrow> al_check_id a = chk_id check
     \<and> al_source_diner_session_id a = diner \<and> al_ownership_slot a = Some 1"

definition remove_member_run ::
  "(json \<Rightarrow> string) \<Rightarrow> execution_context \<Rightarrow> datetime \<Rightarrow> int \<Rightarrow> int \<Rightarrow> int \<Rightarrow> string \<Rightarrow> db
   \<Rightarrow> check_error + (restaurant_check \<times> db)"
where
  "remove_member_run sha ctx now check_id diner_session_id expected_version reason d =
     bind_result (locked_check d (tenant_id ctx) check_id expected_version) (\<lambda>check.
     bind_result (authorize_controller check ctx) (\<lambda>_.
     if chk_controller_diner_session_id check = Some diner_session_id
     then Inl CheckControllerTransferRequiredError
     else if List.find (\<lambda>s. ds_id s = diner_session_id \<and> ds_tenant_id s = tenant_id ctx)
               (diner_sessions d) = None
     then Inl CheckNotFoundError
     else
     (case List.find (\<lambda>m. cm_check_id m = chk_id check \<and> cm_diner_session_id m = diner_session_id
                         \<and> cm_active_slot m = Some 1) (check_members d) of
        None \<Rightarrow> Inl CheckNotFoundError
      | Some member \<Rightarrow>
          (let allocations = filter (owned_by_diner check diner_session_id) (check_allocations d);
               check' = set_totals (chk_consumption_total check
                            - sum_by al_accepted_payable_amount allocations)
                          (chk_gratuity_total check) check;
               d1 = release_members (actor_values ctx) now reason (chk_version check')
                      (\<lambda>m. cm_id m = cm_id member) d;
               d2 = release_allocations (actor_values ctx) now reason (chk_version check')
                      (owned_by_diner check diner_session_id) d1
           in if list_ex (\<lambda>a. al_state a \<noteq> AL_CLAIMED) allocations then Inl CheckNotModifiableError
              else Inr (check', write_version sha ctx now check' None 0 (replace_check check' d2))))))"

definition remove_member ::
  "(json \<Rightarrow> string) \<Rightarrow> execution_context \<Rightarrow> datetime \<Rightarrow> int \<Rightarrow> int \<Rightarrow> int \<Rightarrow> string \<Rightarrow> string \<Rightarrow> db
   \<Rightarrow> check_error + ((check_projection \<times> bool) \<times> db)"
where
  "remove_member sha ctx now check_id diner_session_id expected_version idempotency_key reason =
     check_command_frame sha ctx idempotency_key ''REMOVE_MEMBER''
       (JObj [(''check_id'', JInt check_id), (''diner_session_id'', JInt diner_session_id),
              (''expected_version'', JInt expected_version), (''reason'', JStr reason)])
       (\<lambda>_. check_id)
       (remove_member_run sha ctx now check_id diner_session_id expected_version reason)"

definition hand_over :: "int \<Rightarrow> check_member \<Rightarrow> check_member" where
  "hand_over diner_session_id m = m\<lparr>cm_relationship :=
     (if cm_diner_session_id m = diner_session_id then REL_CONTROLLER else REL_INCLUDED)\<rparr>"

definition transfer_controller_run ::
  "(json \<Rightarrow> string) \<Rightarrow> execution_context \<Rightarrow> datetime \<Rightarrow> int \<Rightarrow> int \<Rightarrow> int \<Rightarrow> db
   \<Rightarrow> check_error + (restaurant_check \<times> db)"
where
  "transfer_controller_run sha ctx now check_id diner_session_id expected_version d =
     bind_result (locked_check d (tenant_id ctx) check_id expected_version) (\<lambda>check.
     if diner_session_id \<notin> set (map cm_diner_session_id (active_members d (chk_id check)))
     then Inl CheckNotFoundError
     else if chk_controller_diner_session_id check = Some diner_session_id
     then Inl CheckNotModifiableError
     else
       (let check' = check\<lparr>chk_version := chk_version check + 1,
                           chk_controller := Actor DINER (Some diner_session_id) None,
                           chk_controller_diner_session_id := Some diner_session_id\<rparr>;
            d1 = d\<lparr>check_members := modify_where
                     (\<lambda>m. cm_check_id m = chk_id check \<and> cm_active_slot m = Some 1)
                     (hand_over diner_session_id) (check_members d)\<rparr>
        in Inr (check', write_version sha ctx now check' None 0 (replace_check check' d1))))"

definition transfer_controller ::
  "(json \<Rightarrow> string) \<Rightarrow> execution_context \<Rightarrow> datetime \<Rightarrow> int \<Rightarrow> int \<Rightarrow> int \<Rightarrow> string \<Rightarrow> db
   \<Rightarrow> check_error + ((check_projection \<times> bool) \<times> db)"
where
  "transfer_controller sha ctx now check_id diner_session_id expected_version idempotency_key d =
     (if actor_type ctx \<noteq> EMPLOYEE then Inl CheckPermissionError
      else check_command_frame sha ctx idempotency_key ''TRANSFER_CONTROLLER''
             (JObj [(''check_id'', JInt check_id), (''diner_session_id'', JInt diner_session_id),
                    (''expected_version'', JInt expected_version)])
             (\<lambda>_. check_id)
             (transfer_controller_run sha ctx now check_id diner_session_id expected_version) d)"

definition parse_gratuity_type :: "string \<Rightarrow> gratuity_type option" where
  "parse_gratuity_type s =
     (if s = ''PERCENTAGE'' then Some PERCENTAGE
      else if s = ''FIXED_AMOUNT'' then Some FIXED_AMOUNT else None)"

text \<open>
  \<^verbatim>\<open>.quantize(MINOR_UNIT, rounding=ROUND_HALF_DOWN)\<close> of the percentage or of the fixed amount; the
  product and the quotient are taken as exact, which they are up to 28 digits.
\<close>

definition gratuity_amount :: "gratuity_type \<Rightarrow> rat \<Rightarrow> rat \<Rightarrow> rat option" where
  "gratuity_amount gtype consumption value =
     quantize round_half_down 2 (if gtype = PERCENTAGE then consumption * value / 100 else value)"

definition gratuity_row ::
  "db \<Rightarrow> execution_context \<Rightarrow> datetime \<Rightarrow> restaurant_check \<Rightarrow> gratuity_type \<Rightarrow> rat \<Rightarrow> rat \<Rightarrow> check_gratuity"
where
  "gratuity_row d ctx now check gtype value amount = \<lparr>
     gr_id = next_id gr_id (check_gratuities d), gr_tenant_id = chk_tenant_id check,
     gr_organization_id = chk_organization_id check, gr_location_id = chk_location_id check,
     gr_check_id = chk_id check, gr_check_version = chk_version check, gr_input_type = gtype,
     gr_input_value = numeric4 value, gr_calculation_basis = chk_consumption_total check,
     gr_calculated_amount = amount, gr_currency = chk_currency check,
     gr_rounding_policy_id = ROUNDING_POLICY, gr_actor = actor_values ctx, gr_elected_at = now\<rparr>"

definition update_gratuity_run ::
  "(json \<Rightarrow> string) \<Rightarrow> execution_context \<Rightarrow> datetime \<Rightarrow> int \<Rightarrow> int \<Rightarrow> gratuity_type \<Rightarrow> rat \<Rightarrow> db
   \<Rightarrow> check_error + (restaurant_check \<times> db)"
where
  "update_gratuity_run sha ctx now check_id expected_version gtype value d =
     bind_result (locked_check d (tenant_id ctx) check_id expected_version) (\<lambda>check.
     bind_result (authorize_controller check ctx) (\<lambda>_.
     case gratuity_amount gtype (chk_consumption_total check) value of
       None \<Rightarrow> Inl CheckDecimalInvalidOperation
     | Some amount \<Rightarrow>
         (let check' = set_totals (chk_consumption_total check) amount check;
              d1 = d\<lparr>check_gratuities := check_gratuities d
                       @ [gratuity_row d ctx now check' gtype value amount]\<rparr>
          in Inr (check', write_version sha ctx now check' (Some gtype) value (replace_check check' d1)))))"

definition update_gratuity ::
  "(json \<Rightarrow> string) \<Rightarrow> execution_context \<Rightarrow> datetime \<Rightarrow> int \<Rightarrow> int \<Rightarrow> string \<Rightarrow> pynum \<Rightarrow> string \<Rightarrow> db
   \<Rightarrow> check_error + ((check_projection \<times> bool) \<times> db)"
where
  "update_gratuity sha ctx now check_id expected_version input_type input_value idempotency_key d =
     (case input_value of
        PyNonFinite \<Rightarrow> Inl CheckValueError
      | PyOther \<Rightarrow> Inl CheckValueError
      | PyDecimal value \<Rightarrow>
          if value < 0 then Inl CheckValueError else
     (case parse_gratuity_type input_type of
        None \<Rightarrow> Inl CheckValueError
      | Some gtype \<Rightarrow>
     (case quantize4 value of
        None \<Rightarrow> Inl CheckDecimalInvalidOperation
      | Some _ \<Rightarrow>
          check_command_frame sha ctx idempotency_key ''GRATUITY''
            (JObj [(''check_id'', JInt check_id), (''expected_version'', JInt expected_version),
                   (''input_type'', JStr input_type), (''input_value'', JStr (money_str value))])
            (\<lambda>_. check_id)
            (update_gratuity_run sha ctx now check_id expected_version gtype value) d)))"

section \<open>Freezing and cancelling\<close>

definition owned_elsewhere :: "db \<Rightarrow> restaurant_check \<Rightarrow> restaurant_order \<Rightarrow> bool" where
  "owned_elsewhere d check o' = list_ex (\<lambda>a. al_tenant_id a = ro_tenant_id o'
     \<and> al_restaurant_order_id a = ro_id o' \<and> al_ownership_slot a = Some 1
     \<and> al_check_id a \<noteq> chk_id check) (check_allocations d)"

definition verify_complete :: "db \<Rightarrow> restaurant_check \<Rightarrow> check_error + unit" where
  "verify_complete d check =
     (let diner_ids = map cm_diner_session_id (active_members d (chk_id check));
          order_ids = set (map ro_id (filter (\<lambda>o'. ro_tenant_id o' = chk_tenant_id check
            \<and> ro_diner_session_id o' \<in> set (if diner_ids = [] then [-1] else diner_ids)
            \<and> ro_status o' = ''ACCEPTED'' \<and> \<not> owned_elsewhere d check o') (restaurant_orders d)));
          allocation_ids = set (map al_restaurant_order_id (owned_allocations d (chk_id check)))
      in if order_ids \<noteq> allocation_ids then Inl CheckAllocationIncompleteError else Inr ())"

definition frozen_check :: "execution_context \<Rightarrow> datetime \<Rightarrow> restaurant_check \<Rightarrow> restaurant_check" where
  "frozen_check ctx now c = c\<lparr>chk_status := CHK_FROZEN, chk_frozen_at := Some now,
     chk_frozen_by := Some (actor_values ctx)\<rparr>"

definition freeze_check_run ::
  "execution_context \<Rightarrow> datetime \<Rightarrow> int \<Rightarrow> int \<Rightarrow> db \<Rightarrow> check_error + (restaurant_check \<times> db)"
where
  "freeze_check_run ctx now check_id expected_version d =
     bind_result (locked_check d (tenant_id ctx) check_id expected_version) (\<lambda>check.
     bind_result (authorize_controller check ctx) (\<lambda>_.
     bind_result (lock_diners d (tenant_id ctx)
         (map cm_diner_session_id (active_members d (chk_id check)))) (\<lambda>(_, diners, _).
     bind_result (validate_drafts d diners) (\<lambda>_.
     bind_result (verify_complete d check) (\<lambda>_.
       Inr (frozen_check ctx now check, replace_check (frozen_check ctx now check) d))))))"

definition freeze_check ::
  "(json \<Rightarrow> string) \<Rightarrow> execution_context \<Rightarrow> datetime \<Rightarrow> int \<Rightarrow> int \<Rightarrow> string \<Rightarrow> db
   \<Rightarrow> check_error + ((check_projection \<times> bool) \<times> db)"
where
  "freeze_check sha ctx now check_id expected_version idempotency_key =
     check_command_frame sha ctx idempotency_key ''FREEZE''
       (JObj [(''check_id'', JInt check_id), (''expected_version'', JInt expected_version)])
       (\<lambda>_. check_id) (freeze_check_run ctx now check_id expected_version)"

definition cancelled_check ::
  "execution_context \<Rightarrow> datetime \<Rightarrow> string \<Rightarrow> restaurant_check \<Rightarrow> restaurant_check"
where
  "cancelled_check ctx now reason c = c\<lparr>
     chk_version := chk_version c + 1, chk_status := CHK_CANCELLED, chk_cancelled_at := Some now,
     chk_cancellation_reason := Some reason, chk_cancelled_by := Some (actor_values ctx),
     chk_consumption_total := 0, chk_gratuity_total := 0, chk_liability_total := 0\<rparr>"

definition cancel_check_run ::
  "(json \<Rightarrow> string) \<Rightarrow> execution_context \<Rightarrow> datetime \<Rightarrow> int \<Rightarrow> int \<Rightarrow> string \<Rightarrow> db
   \<Rightarrow> check_error + (restaurant_check \<times> db)"
where
  "cancel_check_run sha ctx now check_id expected_version reason d =
     bind_result (locked_check d (tenant_id ctx) check_id expected_version) (\<lambda>check.
     bind_result (authorize_controller check ctx) (\<lambda>_.
     bind_result (lock_diners d (tenant_id ctx)
         (map cm_diner_session_id (active_members d (chk_id check)))) (\<lambda>_.
     if list_ex (\<lambda>a. al_state a \<noteq> AL_CLAIMED) (owned_allocations d (chk_id check))
     then Inl CheckNotModifiableError
     else
       (let check' = cancelled_check ctx now reason check;
            actor = actor_values ctx; version = chk_version check';
            d1 = release_members actor now reason version
                   (\<lambda>m. cm_check_id m = chk_id check \<and> cm_active_slot m = Some 1) d;
            d2 = release_allocations actor now reason version
                   (\<lambda>a. al_check_id a = chk_id check \<and> al_ownership_slot a = Some 1) d1;
            d3 = release_scopes actor now reason
                   (\<lambda>t. ts_check_id t = chk_id check \<and> ts_active_slot t = Some 1) d2
        in Inr (check', write_version sha ctx now check' None 0 (replace_check check' d3))))))"

definition cancel_check ::
  "(json \<Rightarrow> string) \<Rightarrow> execution_context \<Rightarrow> datetime \<Rightarrow> int \<Rightarrow> int \<Rightarrow> string \<Rightarrow> string \<Rightarrow> db
   \<Rightarrow> check_error + ((check_projection \<times> bool) \<times> db)"
where
  "cancel_check sha ctx now check_id expected_version idempotency_key reason =
     check_command_frame sha ctx idempotency_key ''CANCEL''
       (JObj [(''check_id'', JInt check_id), (''expected_version'', JInt expected_version),
              (''reason'', JStr reason)])
       (\<lambda>_. check_id) (cancel_check_run sha ctx now check_id expected_version reason)"

section \<open>Continuation after settlement\<close>

definition parse_decision :: "string \<Rightarrow> continuation option" where
  "parse_decision s = (if s = ''YES'' then Some CONT_YES else if s = ''NO'' then Some CONT_NO else None)"

definition decided_check ::
  "execution_context \<Rightarrow> datetime \<Rightarrow> continuation \<Rightarrow> restaurant_check \<Rightarrow> restaurant_check"
where
  "decided_check ctx now decision c = c\<lparr>chk_continuation_decision := decision,
     chk_continuation_decided_at := Some now, chk_continuation_by := Some (actor_values ctx)\<rparr>"

definition decide_continuation_run ::
  "execution_context \<Rightarrow> datetime \<Rightarrow> int \<Rightarrow> int \<Rightarrow> continuation \<Rightarrow> db
   \<Rightarrow> check_error + (restaurant_check \<times> db)"
where
  "decide_continuation_run ctx now check_id expected_version decision d =
     (case List.find (\<lambda>c. chk_id c = check_id \<and> chk_tenant_id c = tenant_id ctx) (restaurant_checks d) of
        None \<Rightarrow> Inl CheckNotFoundError
      | Some check \<Rightarrow>
     bind_result (authorize_controller check ctx) (\<lambda>_.
     if chk_version check \<noteq> expected_version then Inl CheckVersionConflictError
     else if chk_status check \<noteq> CHK_SETTLED \<or> chk_continuation_decision check \<noteq> CONT_PENDING
     then Inl CheckNotModifiableError
     else
     bind_result (lock_diners d (tenant_id ctx)
         (map cm_diner_session_id (active_members d (chk_id check)))) (\<lambda>_.
     if settled_amount d (chk_id check) \<noteq> chk_liability_total check
        \<or> payment_amount d {PAY_RESERVED, PAY_IN_PROGRESS, PAY_UNCERTAIN} (chk_id check) \<noteq> 0
     then Inl CheckNotModifiableError
     else
       (let check' = decided_check ctx now decision check;
            d1 = replace_check check' d;
            accepted = ''SERVICE_CONTINUATION_ACCEPTED''
        in Inr (check',
             if decision = CONT_YES
             then release_scopes (actor_values ctx) now accepted
                    (\<lambda>t. ts_check_id t = chk_id check \<and> ts_active_slot t = Some 1)
                    (release_members (actor_values ctx) now accepted (chk_version check)
                       (\<lambda>m. cm_check_id m = chk_id check \<and> cm_active_slot m = Some 1) d1)
             else d1)))))"

definition decide_continuation ::
  "(json \<Rightarrow> string) \<Rightarrow> execution_context \<Rightarrow> datetime \<Rightarrow> int \<Rightarrow> int \<Rightarrow> string \<Rightarrow> string \<Rightarrow> db
   \<Rightarrow> check_error + ((check_projection \<times> bool) \<times> db)"
where
  "decide_continuation sha ctx now check_id expected_version decision idempotency_key d =
     (let decision = upper (strip decision)
      in case parse_decision decision of
           None \<Rightarrow> Inl CheckValueError
         | Some answer \<Rightarrow>
             check_command_frame sha ctx idempotency_key ''CONTINUATION_DECISION''
               (JObj [(''check_id'', JInt check_id), (''expected_version'', JInt expected_version),
                      (''decision'', JStr decision)])
               (\<lambda>_. check_id) (decide_continuation_run ctx now check_id expected_version answer) d)"

section \<open>Consumption that a check may claim\<close>

record eligible_diner_consumption =
  edc_diner_session_id :: int
  edc_service_session_id :: int
  edc_resource_id :: int
  edc_display_name :: string
  edc_eligible_order_ids :: "int list"
  edc_eligible_total :: rat
  edc_currency :: "string option"
  edc_active_check_id :: "int option"
  edc_has_active_nonempty_draft :: bool

definition active_check_of :: "db \<Rightarrow> int \<Rightarrow> diner_session \<Rightarrow> int option" where
  "active_check_of d tenant diner =
     (case List.find (\<lambda>m. cm_tenant_id m = tenant \<and> cm_diner_session_id m = ds_id diner
                         \<and> cm_active_slot m = Some 1) (check_members d) of
        Some m \<Rightarrow> Some (cm_check_id m)
      | None \<Rightarrow> map_option ts_check_id
          (List.find (\<lambda>t. ts_tenant_id t = tenant
              \<and> ts_service_session_id t = ds_service_session_id diner \<and> ts_active_slot t = Some 1)
            (check_table_scopes d)))"

definition single_currency :: "restaurant_order list \<Rightarrow> string option" where
  "single_currency orders =
     (case remdups (map ro_currency orders) of [c] \<Rightarrow> Some c | _ \<Rightarrow> None)"

definition diner_consumption :: "db \<Rightarrow> int \<Rightarrow> diner_session \<Rightarrow> check_error + eligible_diner_consumption" where
  "diner_consumption d tenant diner =
     bind_result (eligible_orders d [diner]) (\<lambda>orders.
       let item_count =
             (case List.find (\<lambda>x. od_tenant_id x = tenant \<and> od_conversation_id x = ds_conversation_id diner
                                 \<and> od_status x = ''OPEN'' \<and> od_current_slot x = Some 1) (order_drafts d) of
                None \<Rightarrow> 0
              | Some draft \<Rightarrow> length (filter (\<lambda>i. odi_draft_id i = od_id draft) (order_draft_items d)))
       in Inr \<lparr>edc_diner_session_id = ds_id diner, edc_service_session_id = ds_service_session_id diner,
               edc_resource_id = ds_resource_id diner, edc_display_name = ds_display_name diner,
               edc_eligible_order_ids = map ro_id orders,
               edc_eligible_total = sum_by ro_payable_total orders,
               edc_currency = single_currency orders,
               edc_active_check_id = active_check_of d tenant diner,
               edc_has_active_nonempty_draft = (0 < item_count)\<rparr>)"

definition eligible_consumption ::
  "db \<Rightarrow> int \<Rightarrow> int \<Rightarrow> int option \<Rightarrow> check_error + eligible_diner_consumption list"
where
  "eligible_consumption d tenant location owner_diner =
     (let query = (\<lambda>P. traverse (diner_consumption d tenant)
            (order_by ds_service_session_id (order_by ds_id (filter (\<lambda>s. ds_tenant_id s = tenant
               \<and> ds_location_id s = location \<and> ds_active_slot s = Some 1 \<and> P s) (diner_sessions d)))))
      in case owner_diner of
           None \<Rightarrow> query (\<lambda>_. True)
         | Some i \<Rightarrow>
             (case List.find (\<lambda>s. ds_id s = i \<and> ds_tenant_id s = tenant) (diner_sessions d) of
                None \<Rightarrow> Inl CheckNotFoundError
              | Some owner' \<Rightarrow>
                  query (\<lambda>s. ds_service_session_id s = ds_service_session_id owner')))"

section \<open>The balance of a table\<close>

record table_balance_projection =
  tb_service_session_id :: int
  tb_resource_id :: int
  tb_currency :: "string option"
  tb_accepted_consumption :: rat
  tb_reserved_in_active_checks :: rat
  tb_unreserved_unsettled_consumption :: rat
  tb_settled_consumption :: rat
  tb_pending_exposure :: rat
  tb_reserved_payment_exposure :: rat
  tb_uncertain_exposure :: rat
  tb_outstanding_confirmed_balance :: rat
  tb_unresolved_active_checks :: int
  tb_financial_closure_eligible :: bool
  tb_closure_eligible :: bool
  tb_service_continuation_decision_required :: bool

definition accepted_orders_of_session :: "db \<Rightarrow> int \<Rightarrow> int \<Rightarrow> restaurant_order list" where
  "accepted_orders_of_session d tenant session = filter (\<lambda>o'. ro_tenant_id o' = tenant
     \<and> ro_service_session_id o' = session \<and> ro_status o' = ''ACCEPTED'') (restaurant_orders d)"

definition allocations_of_session :: "db \<Rightarrow> int \<Rightarrow> int \<Rightarrow> check_allocation list" where
  "allocations_of_session d tenant session = filter (\<lambda>a. al_tenant_id a = tenant
     \<and> al_source_service_session_id a = session \<and> al_ownership_slot a = Some 1) (check_allocations d)"

definition active_scopes :: "db \<Rightarrow> int \<Rightarrow> int \<Rightarrow> check_table_scope list" where
  "active_scopes d tenant session = order_by ts_id (filter (\<lambda>t. ts_tenant_id t = tenant
     \<and> ts_service_session_id t = session \<and> ts_active_slot t = Some 1) (check_table_scopes d))"

definition check_settled :: "db \<Rightarrow> int \<Rightarrow> int \<Rightarrow> bool" where
  "check_settled d tenant i =
     (case List.find (\<lambda>c. chk_id c = i \<and> chk_tenant_id c = tenant) (restaurant_checks d) of
        None \<Rightarrow> False
      | Some c \<Rightarrow> chk_status c = CHK_SETTLED
          \<and> sum_by st_amount (filter (\<lambda>s. st_tenant_id s = tenant \<and> st_check_id s = i)
               (check_settlements d)) = chk_liability_total c)"

definition check_decision :: "db \<Rightarrow> int \<Rightarrow> int \<Rightarrow> (check_status \<times> continuation) option" where
  "check_decision d tenant i =
     map_option (\<lambda>c. (chk_status c, chk_continuation_decision c))
       (List.find (\<lambda>c. chk_id c = i \<and> chk_tenant_id c = tenant) (restaurant_checks d))"

definition table_balance :: "db \<Rightarrow> int \<Rightarrow> int \<Rightarrow> check_error + table_balance_projection" where
  "table_balance d tenant service_session_id =
     (case List.find (\<lambda>s. ss_id s = service_session_id \<and> ss_tenant_id s = tenant) (service_sessions d) of
        None \<Rightarrow> Inl CheckNotFoundError
      | Some session \<Rightarrow>
     (let orders = accepted_orders_of_session d tenant service_session_id;
          allocations = allocations_of_session d tenant service_session_id;
          scopes = active_scopes d tenant service_session_id;
          accepted = sum_by ro_payable_total orders;
          reserved = sum_by al_accepted_payable_amount
            (filter (\<lambda>a. al_state a = AL_CLAIMED) allocations);
          settled = sum_by al_accepted_payable_amount
            (filter (\<lambda>a. al_state a = AL_SETTLED) allocations);
          unreserved = sum_by ro_payable_total
            (filter (\<lambda>o'. ro_id o' \<notin> set (map al_restaurant_order_id allocations)) orders);
          check_ids = map al_check_id allocations @ map ts_check_id scopes;
          check_rows = filter (\<lambda>c. chk_tenant_id c = tenant
            \<and> chk_id c \<in> set (if check_ids = [] then [-1] else check_ids)) (restaurant_checks d);
          unresolved = remdups (map al_check_id (filter (\<lambda>a. al_state a = AL_CLAIMED) allocations)
            @ map chk_id (filter (\<lambda>c. chk_status c \<in> {CHK_OPEN, CHK_FROZEN}
                                      \<and> 0 < chk_gratuity_total c) check_rows));
          payments = filter (\<lambda>p. pay_tenant_id p = tenant
            \<and> pay_check_id p \<in> set (if check_ids = [] then [-1] else check_ids)
            \<and> pay_state p \<in> {PAY_RESERVED, PAY_IN_PROGRESS, PAY_UNCERTAIN}) (restaurant_payments d);
          pending_gratuity = sum_by chk_gratuity_total
            (filter (\<lambda>c. chk_id c \<in> set unresolved) check_rows);
          reserved_payment = sum_by pay_amount
            (filter (\<lambda>p. pay_state p \<in> {PAY_RESERVED, PAY_IN_PROGRESS}) payments);
          uncertain_payment = sum_by pay_amount (filter (\<lambda>p. pay_state p = PAY_UNCERTAIN) payments);
          settlement_truth_safe = list_all (\<lambda>a. check_settled d tenant (al_check_id a))
            (filter (\<lambda>a. al_state a = AL_SETTLED) allocations);
          outstanding = max 0 (accepted - settled);
          financial = (outstanding = 0 \<and> unresolved = [] \<and> unreserved = 0 \<and> reserved_payment = 0
            \<and> uncertain_payment = 0 \<and> settlement_truth_safe);
          table_no = list_ex (\<lambda>t. check_decision d tenant (ts_check_id t) = Some (CHK_SETTLED, CONT_NO))
            scopes;
          decision_required = list_ex (\<lambda>t. map_option snd (check_decision d tenant (ts_check_id t))
            = Some CONT_PENDING) scopes
      in Inr \<lparr>tb_service_session_id = ss_id session, tb_resource_id = ss_resource_id session,
              tb_currency = single_currency orders, tb_accepted_consumption = accepted,
              tb_reserved_in_active_checks = reserved,
              tb_unreserved_unsettled_consumption = unreserved, tb_settled_consumption = settled,
              tb_pending_exposure = pending_gratuity, tb_reserved_payment_exposure = reserved_payment,
              tb_uncertain_exposure = uncertain_payment, tb_outstanding_confirmed_balance = outstanding,
              tb_unresolved_active_checks = int (length unresolved),
              tb_financial_closure_eligible = financial,
              tb_closure_eligible = (financial \<and> (orders = [] \<or> table_no)),
              tb_service_continuation_decision_required = decision_required\<rparr>))"

section \<open>Closing sessions\<close>

definition system_actor :: "string \<Rightarrow> actor" where
  "system_actor reference = Actor SYSTEM None (Some reference)"

text \<open>
  \<^verbatim>\<open>financially_safe\<close>: no payment of the checks is in flight, and each accepted order of the diner is
  covered by a settled allocation of a settled check whose settlements make up its liability.
\<close>

definition diner_financially_safe ::
  "db \<Rightarrow> int \<Rightarrow> restaurant_order list \<Rightarrow> check_allocation list \<Rightarrow> int list \<Rightarrow> bool"
where
  "diner_financially_safe d tenant orders allocations check_ids =
     (\<not> list_ex (\<lambda>p. pay_tenant_id p = tenant \<and> pay_check_id p \<in> set check_ids
          \<and> pay_state p \<in> {PAY_RESERVED, PAY_IN_PROGRESS, PAY_UNCERTAIN}) (restaurant_payments d)
      \<and> length (remdups (map al_restaurant_order_id allocations)) = length orders
      \<and> list_all (\<lambda>o'. case List.find (\<lambda>a. al_restaurant_order_id a = ro_id o') (rev allocations) of
            None \<Rightarrow> False
          | Some a \<Rightarrow> al_state a = AL_SETTLED \<and> al_accepted_payable_amount a = ro_payable_total o'
              \<and> check_settled d tenant (al_check_id a)) orders)"

definition assert_diner_can_end :: "db \<Rightarrow> datetime \<Rightarrow> int \<Rightarrow> int \<Rightarrow> check_error + db" where
  "assert_diner_can_end d now tenant diner_session_id =
     (let memberships = order_by cm_id (filter (\<lambda>m. cm_tenant_id m = tenant
            \<and> cm_diner_session_id m = diner_session_id \<and> cm_active_slot m = Some 1) (check_members d))
      in case List.find (\<lambda>s. ds_tenant_id s = tenant \<and> ds_id s = diner_session_id) (diner_sessions d) of
        None \<Rightarrow> Inl TableNotEligibleError
      | Some diner \<Rightarrow>
     (let orders = order_by ro_id (filter (\<lambda>o'. ro_tenant_id o' = tenant
            \<and> ro_diner_session_id o' = diner_session_id \<and> ro_status o' = ''ACCEPTED'')
            (restaurant_orders d));
          allocations = order_by al_id (filter (\<lambda>a. al_tenant_id a = tenant
            \<and> al_restaurant_order_id a \<in> set (map ro_id orders) \<and> al_ownership_slot a = Some 1)
            (check_allocations d));
          check_ids = map al_check_id allocations @ map cm_check_id memberships;
          table_check_ids = map ts_check_id (filter (\<lambda>t. ts_tenant_id t = tenant
            \<and> ts_check_id t \<in> set check_ids \<and> ts_service_session_id t = ds_service_session_id diner
            \<and> ts_active_slot t = Some 1) (check_table_scopes d));
          authorities = filter (\<lambda>m. cm_check_id m \<notin> set table_check_ids
            \<and> check_decision d tenant (cm_check_id m) = Some (CHK_SETTLED, CONT_NO)) memberships
      in if orders \<noteq> [] \<and> (\<not> diner_financially_safe d tenant orders allocations check_ids
                             \<or> length authorities \<noteq> 1)
         then Inl TableNotEligibleError
         else Inr (foldl (\<lambda>e m. release_members (system_actor ''diner-session-close'') now
                      ''DINER_SESSION_CLOSED_AFTER_CONTINUATION_NO''
                      (case find_row chk_id (cm_check_id m) (restaurant_checks d) of
                         Some c \<Rightarrow> chk_version c | None \<Rightarrow> 0)
                      (\<lambda>x. cm_id x = cm_id m) e) d authorities)))"

definition release_table ::
  "datetime \<Rightarrow> int \<Rightarrow> check_table_scope \<times> restaurant_check \<Rightarrow> db \<Rightarrow> db"
where
  "release_table now service_session_id sc e =
     release_members (system_actor ''service-session-close'') now
       ''TABLE_SESSION_CLOSED_AFTER_CONTINUATION_NO'' (chk_version (snd sc))
       (\<lambda>m. cm_check_id m = chk_id (snd sc) \<and> cm_service_session_id m = service_session_id
            \<and> cm_active_slot m = Some 1)
       (release_scopes (system_actor ''service-session-close'') now
          ''TABLE_SESSION_CLOSED_AFTER_CONTINUATION_NO'' (\<lambda>t. ts_id t = ts_id (fst sc)) e)"

definition assert_service_can_close ::
  "db \<Rightarrow> datetime \<Rightarrow> int \<Rightarrow> int \<Rightarrow> check_error + (table_balance_projection \<times> db)"
where
  "assert_service_can_close d now tenant service_session_id =
     bind_result (table_balance d tenant service_session_id) (\<lambda>balance.
     if tb_outstanding_confirmed_balance balance \<noteq> 0 then Inl TableOutstandingBalanceError
     else if \<not> tb_closure_eligible balance then Inl TableNotEligibleError
     else
     bind_result (traverse (\<lambda>t.
         case List.find (\<lambda>c. chk_id c = ts_check_id t \<and> chk_tenant_id c = tenant) (restaurant_checks d) of
           None \<Rightarrow> Inl TableNotEligibleError
         | Some check \<Rightarrow>
             if chk_status check \<noteq> CHK_SETTLED \<or> chk_continuation_decision check \<noteq> CONT_NO
             then Inl TableNotEligibleError else Inr (t, check))
       (active_scopes d tenant service_session_id)) (\<lambda>applicable.
     if tb_accepted_consumption balance \<noteq> 0 \<and> length applicable \<noteq> 1 then Inl TableNotEligibleError
     else Inr (balance, foldl (\<lambda>e sc. release_table now service_session_id sc e) d applicable)))"

end
