(* ===== verification/CheckInvariant.thy ===== *)
theory CheckInvariant
  imports Checks
begin

text \<open>
  The invariant of the check tables and its preservation: what each successful command did, the
  bookkeeping shared by the commands (rows of one check change, every other check keeps its rows), and
  one preservation lemma per command.
\<close>

section \<open>The frame of a command\<close>

lemma frame_success:
  assumes "check_command_frame sha ctx key op request target run d = Inr ((v, b), d')"
  obtains (replay) command where "b" "d' = d"
      "command_replay sha ctx key op request d = Inr (Some command)"
      "get_check d (tenant_id ctx) (target command) False None None = Inr v"
  | (new) check d1 where "\<not> b" "command_replay sha ctx key op request d = Inr None"
      "run d = Inr (check, d1)" "d' = record_command sha ctx key op request check d1"
      "check_constraints d'" "get_check d' (tenant_id ctx) (chk_id check) False None None = Inr v"
proof -
  from assms obtain r where r: "command_replay sha ctx key op request d = Inr r"
    by (auto simp: check_command_frame_def bind_result_Inr_iff)
  show thesis
  proof (cases r)
    case (Some command)
    with assms r obtain p where "get_check d (tenant_id ctx) (target command) False None None = Inr p"
      "Inr ((p, True), d) = (Inr ((v, b), d') :: check_error + _)"
      by (auto simp: check_command_frame_def bind_result_Inr_iff)
    with replay r Some show thesis by simp
  next
    case None
    let ?e = "\<lambda>w. record_command sha ctx key op request (fst w) (snd w)"
    from assms r None obtain w where w: "run d = Inr w" and body:
      "(if \<not> check_constraints (?e w) then Inl CheckIntegrityError
        else bind_result (get_check (?e w) (tenant_id ctx) (chk_id (fst w)) False None None)
               (\<lambda>p. Inr ((p, False), ?e w))) = Inr ((v, b), d')"
      by (cases "run d") (auto simp: check_command_frame_def Let_def case_prod_beta)
    then have "check_constraints (?e w)" by (simp split: if_splits)
    with body obtain p where "get_check (?e w) (tenant_id ctx) (chk_id (fst w)) False None None = Inr p"
      "Inr ((p, False), ?e w) = (Inr ((v, b), d') :: check_error + _)"
      by (auto simp: bind_result_Inr_iff)
    with new[of "fst w" "snd w"] r None w \<open>check_constraints (?e w)\<close> show thesis by auto
  qed
qed

lemma locked_check_Inr:
  assumes "locked_check d tenant i version = Inr c"
  shows "c \<in> set (restaurant_checks d) \<and> chk_id c = i \<and> chk_tenant_id c = tenant
     \<and> chk_version c = version \<and> chk_status c = CHK_OPEN"
  using assms by (auto simp: locked_check_def dest: find_SomeD split: option.splits if_splits)

section \<open>The invariant of the check tables\<close>

text \<open>The amount of the allocations of a check that are not released.\<close>

definition live :: "int \<Rightarrow> check_allocation \<Rightarrow> bool" where
  "live i a \<longleftrightarrow> al_check_id a = i \<and> al_state a \<noteq> AL_RELEASED"

definition live_total :: "db \<Rightarrow> int \<Rightarrow> rat" where
  "live_total d i = sum_by al_accepted_payable_amount (filter (live i) (check_allocations d))"

definition history :: "db \<Rightarrow> int \<Rightarrow> check_version list" where
  "history d i = filter (\<lambda>v. cv_check_id v = i) (check_versions d)"

definition check_keys_ok :: "db \<Rightarrow> bool" where
  "check_keys_ok d \<longleftrightarrow>
     distinct (map chk_id (restaurant_checks d)) \<and> distinct (map cm_id (check_members d))
     \<and> distinct (map ts_id (check_table_scopes d)) \<and> distinct (map al_id (check_allocations d))"

definition check_refs_ok :: "db \<Rightarrow> bool" where
  "check_refs_ok d \<longleftrightarrow>
     cm_check_id ` set (check_members d) \<subseteq> chk_id ` set (restaurant_checks d) \<and>
     ts_check_id ` set (check_table_scopes d) \<subseteq> chk_id ` set (restaurant_checks d) \<and>
     al_check_id ` set (check_allocations d) \<subseteq> chk_id ` set (restaurant_checks d) \<and>
     cv_check_id ` set (check_versions d) \<subseteq> chk_id ` set (restaurant_checks d)"

definition totals_ok :: "db \<Rightarrow> restaurant_check \<Rightarrow> bool" where
  "totals_ok d c \<longleftrightarrow> chk_consumption_total c = live_total d (chk_id c)"

text \<open>The versions of a check are numbered from one to its own, and the last of them shows it as it is.\<close>

definition shows_check :: "check_version \<Rightarrow> restaurant_check \<Rightarrow> bool" where
  "shows_check v c \<longleftrightarrow>
     cv_version v = chk_version c \<and> cv_fingerprint v = chk_current_fingerprint c
     \<and> cv_consumption_total v = chk_consumption_total c \<and> cv_gratuity_amount v = chk_gratuity_total c
     \<and> cv_liability_total v = chk_liability_total c"

definition history_ok :: "db \<Rightarrow> restaurant_check \<Rightarrow> bool" where
  "history_ok d c \<longleftrightarrow>
     map cv_version (history d (chk_id c)) = [1..chk_version c] \<and> 1 \<le> chk_version c
     \<and> shows_check (last (history d (chk_id c))) c"

text \<open>A cancelled check holds nobody, nothing and no table.\<close>

definition cancelled_free :: "db \<Rightarrow> restaurant_check \<Rightarrow> bool" where
  "cancelled_free d c \<longleftrightarrow> (chk_status c = CHK_CANCELLED \<longrightarrow>
     (\<forall>m \<in> set (check_members d). cm_check_id m = chk_id c \<longrightarrow> cm_active_slot m = None) \<and>
     (\<forall>a \<in> set (check_allocations d). al_check_id a = chk_id c \<longrightarrow> al_state a = AL_RELEASED) \<and>
     (\<forall>t \<in> set (check_table_scopes d). ts_check_id t = chk_id c \<longrightarrow> ts_active_slot t = None))"

definition check_inv :: "db \<Rightarrow> bool" where
  "check_inv d \<longleftrightarrow>
     check_keys_ok d \<and> check_refs_ok d \<and> check_constraints d \<and>
     (\<forall>c \<in> set (restaurant_checks d). totals_ok d c \<and> history_ok d c \<and> cancelled_free d c)"

lemma check_inv_empty: "check_inv empty_db"
  by (simp add: check_inv_def check_keys_ok_def check_refs_ok_def check_constraints_def table_ok_def
      empty_db_def)

lemma check_inv_cong:
  assumes "restaurant_checks e = restaurant_checks d" "check_members e = check_members d"
    "check_table_scopes e = check_table_scopes d" "check_allocations e = check_allocations d"
    "check_versions e = check_versions d" "check_gratuities e = check_gratuities d"
    "check_commands e = check_commands d"
  shows "check_inv e = check_inv d"
  using assms
  by (simp add: check_inv_def check_keys_ok_def check_refs_ok_def check_constraints_def totals_ok_def
      live_total_def history_ok_def history_def cancelled_free_def)

text \<open>A change of the rows of one check: its members, scopes and allocations, and of no other.\<close>

definition touches_only :: "int \<Rightarrow> db \<Rightarrow> db \<Rightarrow> bool" where
  "touches_only i d e \<longleftrightarrow>
     distinct (map cm_id (check_members e)) \<and> distinct (map ts_id (check_table_scopes e)) \<and>
     distinct (map al_id (check_allocations e)) \<and>
     filter (\<lambda>m. cm_check_id m \<noteq> i) (check_members e)
       = filter (\<lambda>m. cm_check_id m \<noteq> i) (check_members d) \<and>
     filter (\<lambda>t. ts_check_id t \<noteq> i) (check_table_scopes e)
       = filter (\<lambda>t. ts_check_id t \<noteq> i) (check_table_scopes d) \<and>
     filter (\<lambda>a. al_check_id a \<noteq> i) (check_allocations e)
       = filter (\<lambda>a. al_check_id a \<noteq> i) (check_allocations d)"

lemma touches_only_refl: "check_keys_ok d \<Longrightarrow> touches_only i d d"
  by (simp add: touches_only_def check_keys_ok_def)

lemma touches_live:
  assumes "touches_only i d e" "j \<noteq> i"
  shows "live_total e j = live_total d j"
proof -
  have "filter (live j) xs = filter (live j) (filter (\<lambda>a. al_check_id a \<noteq> i) xs)" for xs
    using assms(2) by (induction xs) (auto simp: live_def)
  then show ?thesis using assms(1) unfolding live_total_def touches_only_def by metis
qed

lemma touches_in:
  assumes "touches_only i d e" "j \<noteq> i"
  shows "cm_check_id m = j \<Longrightarrow> m \<in> set (check_members e) \<longleftrightarrow> m \<in> set (check_members d)"
    and "ts_check_id t = j \<Longrightarrow> t \<in> set (check_table_scopes e) \<longleftrightarrow> t \<in> set (check_table_scopes d)"
    and "al_check_id a = j \<Longrightarrow> a \<in> set (check_allocations e) \<longleftrightarrow> a \<in> set (check_allocations d)"
  using assms
    mem_by_filter[of "\<lambda>m. cm_check_id m \<noteq> i" "check_members e" "check_members d" m]
    mem_by_filter[of "\<lambda>t. ts_check_id t \<noteq> i" "check_table_scopes e" "check_table_scopes d" t]
    mem_by_filter[of "\<lambda>a. al_check_id a \<noteq> i" "check_allocations e" "check_allocations d" a]
  unfolding touches_only_def by simp_all

lemma image_by_filter:
  assumes "filter (\<lambda>r. f r \<noteq> i) xs = filter (\<lambda>r. f r \<noteq> i) ys" "f ` set ys \<subseteq> I" "i \<in> I"
  shows "f ` set xs \<subseteq> I"
proof
  fix y assume "y \<in> f ` set xs"
  then obtain r where r: "r \<in> set xs" "y = f r" by blast
  show "y \<in> I"
    using r assms(2,3) mem_by_filter[OF assms(1), of r] by (cases "f r = i") auto
qed

lemma touches_refs:
  assumes "touches_only i d e" "check_refs_ok d" "i \<in> chk_id ` set (restaurant_checks d)"
  shows "cm_check_id ` set (check_members e) \<subseteq> chk_id ` set (restaurant_checks d)"
    and "ts_check_id ` set (check_table_scopes e) \<subseteq> chk_id ` set (restaurant_checks d)"
    and "al_check_id ` set (check_allocations e) \<subseteq> chk_id ` set (restaurant_checks d)"
proof -
  show "cm_check_id ` set (check_members e) \<subseteq> chk_id ` set (restaurant_checks d)"
    by (rule image_by_filter[where ys = "check_members d" and i = i]) (use assms in \<open>simp_all add: touches_only_def check_refs_ok_def\<close>)
  show "ts_check_id ` set (check_table_scopes e) \<subseteq> chk_id ` set (restaurant_checks d)"
    by (rule image_by_filter[where ys = "check_table_scopes d" and i = i]) (use assms in \<open>simp_all add: touches_only_def check_refs_ok_def\<close>)
  show "al_check_id ` set (check_allocations e) \<subseteq> chk_id ` set (restaurant_checks d)"
    by (rule image_by_filter[where ys = "check_allocations d" and i = i]) (use assms in \<open>simp_all add: touches_only_def check_refs_ok_def\<close>)
qed

lemma touches_cancelled:
  assumes "touches_only i d e" "chk_id c \<noteq> i" "cancelled_free d c"
  shows "cancelled_free e c"
  using assms(3) touches_in[OF assms(1,2)] unfolding cancelled_free_def by blast

text \<open>The database that a command of the check commits.\<close>

definition revised ::
  "(json \<Rightarrow> string) \<Rightarrow> execution_context \<Rightarrow> datetime \<Rightarrow> restaurant_check \<Rightarrow> gratuity_type option \<Rightarrow> rat
   \<Rightarrow> string \<Rightarrow> string \<Rightarrow> json \<Rightarrow> db \<Rightarrow> db"
where
  "revised sha ctx now check gtype ginput key op request e =
     record_command sha ctx key op request check
       (write_version sha ctx now check gtype ginput (replace_check check e))"

lemma record_command_tables [simp]:
  "restaurant_checks (record_command sha ctx key op request check d) = restaurant_checks d"
  "check_members (record_command sha ctx key op request check d) = check_members d"
  "check_table_scopes (record_command sha ctx key op request check d) = check_table_scopes d"
  "check_allocations (record_command sha ctx key op request check d) = check_allocations d"
  "check_versions (record_command sha ctx key op request check d) = check_versions d"
  by (simp_all add: record_command_def)

lemma write_version_tables [simp]:
  "check_members (write_version sha ctx now check g x d) = check_members d"
  "check_table_scopes (write_version sha ctx now check g x d) = check_table_scopes d"
  "check_allocations (write_version sha ctx now check g x d) = check_allocations d"
  by (simp_all add: write_version_def Let_def)

lemma replace_check_tables [simp]:
  "check_members (replace_check check d) = check_members d"
  "check_table_scopes (replace_check check d) = check_table_scopes d"
  "check_allocations (replace_check check d) = check_allocations d"
  "check_versions (replace_check check d) = check_versions d"
  by (simp_all add: replace_check_def)

definition next_fingerprint ::
  "(json \<Rightarrow> string) \<Rightarrow> restaurant_check \<Rightarrow> gratuity_type option \<Rightarrow> rat \<Rightarrow> db \<Rightarrow> string"
where
  "next_fingerprint sha check gtype ginput e =
     sha (snapshot_payload check (members_of_check e (chk_id check))
       (order_by al_restaurant_order_id (filter (\<lambda>a. al_check_id a = chk_id check) (check_allocations e)))
       gtype ginput (chk_consumption_total check) (chk_gratuity_total check))"

lemma write_version_checks:
  "restaurant_checks (write_version sha ctx now check g x e)
     = modify chk_id (chk_id check) (set_fingerprint (next_fingerprint sha check g x e))
         (restaurant_checks e)"
  by (simp add: write_version_def next_fingerprint_def Let_def)

lemma write_version_history:
  "\<exists>v. check_versions (write_version sha ctx now check g x e) = check_versions e @ [v]
     \<and> cv_check_id v = chk_id check \<and> cv_version v = chk_version check
     \<and> cv_fingerprint v = next_fingerprint sha check g x e
     \<and> cv_consumption_total v = chk_consumption_total check
     \<and> cv_gratuity_amount v = chk_gratuity_total check
     \<and> cv_liability_total v = chk_liability_total check"
  by (simp add: write_version_def version_row_def next_fingerprint_def Let_def)

lemma next_fingerprint_replace [simp]:
  "next_fingerprint sha check g x (replace_check c e) = next_fingerprint sha check g x e"
  by (simp add: next_fingerprint_def members_of_check_def replace_check_def)

lemma modify_modify_const:
  assumes "\<And>r. rid (f r) = rid r" "rid c = i"
  shows "modify rid i f (modify rid i (\<lambda>_. c) rows) = modify rid i (\<lambda>_. f c) rows"
  using assms by (induction rows) (auto simp: modify_def)

lemma revised_checks:
  "restaurant_checks (revised sha ctx now check g x key op request e)
     = modify chk_id (chk_id check)
         (\<lambda>_. set_fingerprint (next_fingerprint sha check g x e) check) (restaurant_checks e)"
  by (simp add: revised_def write_version_checks replace_check_def modify_modify_const
      set_fingerprint_def del: next_fingerprint_replace)
    (simp add: next_fingerprint_def members_of_check_def)

lemma revised_tables:
  "check_members (revised sha ctx now check g x key op request e) = check_members e"
  "check_table_scopes (revised sha ctx now check g x key op request e) = check_table_scopes e"
  "check_allocations (revised sha ctx now check g x key op request e) = check_allocations e"
  by (simp_all add: revised_def)

lemma revised_history:
  "history (revised sha ctx now check g x key op request e) i =
     history e i @ (if i = chk_id check
       then [last (check_versions (revised sha ctx now check g x key op request e))] else [])"
  using write_version_history[of sha ctx now check g x "replace_check check e"]
  by (auto simp: history_def revised_def)

lemma revised_shows:
  "shows_check (last (check_versions (revised sha ctx now check g x key op request e)))
     (set_fingerprint (next_fingerprint sha check g x e) check)"
  using write_version_history[of sha ctx now check g x "replace_check check e"]
  by (auto simp: shows_check_def revised_def set_fingerprint_def)

lemma set_fingerprint_simps [simp]:
  "chk_id (set_fingerprint f c) = chk_id c" "chk_version (set_fingerprint f c) = chk_version c"
  "chk_status (set_fingerprint f c) = chk_status c"
  "chk_consumption_total (set_fingerprint f c) = chk_consumption_total c"
  "chk_gratuity_total (set_fingerprint f c) = chk_gratuity_total c"
  "chk_liability_total (set_fingerprint f c) = chk_liability_total c"
  "chk_tenant_id (set_fingerprint f c) = chk_tenant_id c"
  by (simp_all add: set_fingerprint_def)

lemma modify_const_in:
  assumes "distinct (map rid rows)" "c \<in> set rows" "rid c = i" "rid c' = i"
  shows "r \<in> set (modify rid i (\<lambda>_. c') rows) \<longleftrightarrow> r = c' \<or> (r \<in> set rows \<and> rid r \<noteq> i)"
  using set_modify_distinct[OF assms(1,2,3), of r "\<lambda>_. c'"] by blast

lemma modify_const_ids:
  assumes "rid c' = i"
  shows "map rid (modify rid i (\<lambda>_. c') rows) = map rid rows"
  using assms by (induction rows) (auto simp: modify_def)

lemma check_inv_revise:
  assumes inv: "check_inv d" and c: "c \<in> set (restaurant_checks d)"
    and c': "chk_id c' = chk_id c" "chk_version c' = chk_version c + 1"
      "chk_consumption_total c' = live_total e (chk_id c)" "cancelled_free e c'"
    and e: "restaurant_checks e = restaurant_checks d" "check_versions e = check_versions d"
      "touches_only (chk_id c) d e"
    and ok: "check_constraints (revised sha ctx now c' g x key op request e)"
  shows "check_inv (revised sha ctx now c' g x key op request e)" (is "check_inv ?f")
proof -
  let ?c = "set_fingerprint (next_fingerprint sha c' g x e) c'"
  from inv have keys: "check_keys_ok d" and refs: "check_refs_ok d"
    and rows: "\<And>r. r \<in> set (restaurant_checks d) \<Longrightarrow> totals_ok d r \<and> history_ok d r \<and> cancelled_free d r"
    by (simp_all add: check_inv_def)
  from keys have dist: "distinct (map chk_id (restaurant_checks d))" by (simp add: check_keys_ok_def)
  have in_f: "r \<in> set (restaurant_checks ?f) \<longleftrightarrow>
      r = ?c \<or> (r \<in> set (restaurant_checks d) \<and> chk_id r \<noteq> chk_id c)" for r
    unfolding revised_checks e(1) c'(1)
    by (rule modify_const_in[OF dist c]) (simp_all add: c')
  have ids: "map chk_id (restaurant_checks ?f) = map chk_id (restaurant_checks d)"
    unfolding revised_checks e(1) by (rule modify_const_ids) simp
  have id_set: "chk_id ` set (restaurant_checks ?f) = chk_id ` set (restaurant_checks d)"
    using ids by (metis set_map)
  have cid: "chk_id c \<in> chk_id ` set (restaurant_checks d)" using c by simp
  have "check_keys_ok ?f"
    using e(3) dist by (simp add: check_keys_ok_def ids revised_tables touches_only_def)
  moreover have "check_refs_ok ?f"
  proof -
    obtain v where "check_versions ?f = check_versions d @ [v]" "cv_check_id v = chk_id c"
      using c'(1) e(2) write_version_history[of sha ctx now c' g x "replace_check c' e"]
      unfolding revised_def by auto
    then have "cv_check_id ` set (check_versions ?f) \<subseteq> chk_id ` set (restaurant_checks d)"
      using refs cid unfolding check_refs_ok_def by simp
    then show ?thesis
      using touches_refs[OF e(3) refs cid] by (simp add: check_refs_ok_def id_set revised_tables)
  qed
  moreover have "totals_ok ?f r \<and> history_ok ?f r \<and> cancelled_free ?f r"
    if r: "r \<in> set (restaurant_checks ?f)" for r
  proof -
    have tables: "live_total ?f j = live_total e j" "cancelled_free ?f s = cancelled_free e s"
      "history e j = history d j" for j s
      by (simp_all add: live_total_def cancelled_free_def history_def revised_tables e(2))
    show ?thesis
    proof (cases "r = ?c")
      case True
      have "map cv_version (history d (chk_id c)) = [1..chk_version c]" "1 \<le> chk_version c"
        using rows[OF c] by (auto simp: history_ok_def)
      then have "map cv_version (history ?f (chk_id c)) = [1..chk_version c + 1]"
        using revised_shows[of sha ctx now c' g x key op request e] c'
        by (simp add: revised_history tables(3) shows_check_def upto_rec2[of 1 "chk_version c + 1"])
      then have "history_ok ?f r"
        using revised_shows[of sha ctx now c' g x key op request e] c' rows[OF c]
        by (simp add: True history_ok_def revised_history)
      moreover have "cancelled_free e r"
        using c'(4) by (simp add: True cancelled_free_def)
      ultimately show ?thesis
        using c' by (simp add: True totals_ok_def tables)
    next
      case False
      with r in_f have r: "r \<in> set (restaurant_checks d)" "chk_id r \<noteq> chk_id c" by auto
      from rows[OF r(1)] touches_live[OF e(3) r(2)] touches_cancelled[OF e(3) r(2)] r(2) c'(1)
      show ?thesis
        by (simp add: tables totals_ok_def history_ok_def revised_history)
    qed
  qed
  ultimately show ?thesis using ok by (simp add: check_inv_def)
qed


section \<open>The changes commands make\<close>

lemma change_tables [simp]:
  "restaurant_checks (include_diners ctx now c rel diners d) = restaurant_checks d"
  "check_versions (include_diners ctx now c rel diners d) = check_versions d"
  "check_table_scopes (include_diners ctx now c rel diners d) = check_table_scopes d"
  "check_allocations (include_diners ctx now c rel diners d) = check_allocations d"
  "restaurant_checks (claim_orders ctx now c orders d) = restaurant_checks d"
  "check_versions (claim_orders ctx now c orders d) = check_versions d"
  "check_table_scopes (claim_orders ctx now c orders d) = check_table_scopes d"
  "check_members (claim_orders ctx now c orders d) = check_members d"
  "restaurant_checks (lock_tables ctx now c sessions d) = restaurant_checks d"
  "check_versions (lock_tables ctx now c sessions d) = check_versions d"
  "check_members (lock_tables ctx now c sessions d) = check_members d"
  "check_allocations (lock_tables ctx now c sessions d) = check_allocations d"
  "restaurant_checks (release_members a now r v P d) = restaurant_checks d"
  "check_versions (release_members a now r v P d) = check_versions d"
  "check_table_scopes (release_members a now r v P d) = check_table_scopes d"
  "check_allocations (release_members a now r v P d) = check_allocations d"
  "restaurant_checks (release_allocations a now r v Q d) = restaurant_checks d"
  "check_versions (release_allocations a now r v Q d) = check_versions d"
  "check_table_scopes (release_allocations a now r v Q d) = check_table_scopes d"
  "check_members (release_allocations a now r v Q d) = check_members d"
  "restaurant_checks (release_scopes a now r R d) = restaurant_checks d"
  "check_versions (release_scopes a now r R d) = check_versions d"
  "check_members (release_scopes a now r R d) = check_members d"
  "check_allocations (release_scopes a now r R d) = check_allocations d"
  by (simp_all add: include_diners_def claim_orders_def lock_tables_def release_members_def
      release_allocations_def release_scopes_def)

lemma row_selectors [simp]:
  "cm_id (member_row ctx now c rel j s) = j" "cm_check_id (member_row ctx now c rel j s) = chk_id c"
  "cm_active_slot (member_row ctx now c rel j s) = Some 1"
  "cm_diner_session_id (member_row ctx now c rel j s) = ds_id s"
  "cm_tenant_id (member_row ctx now c rel j s) = chk_tenant_id c"
  "ts_id (scope_row ctx now c j ses) = j" "ts_check_id (scope_row ctx now c j ses) = chk_id c"
  "ts_active_slot (scope_row ctx now c j ses) = Some 1"
  "ts_service_session_id (scope_row ctx now c j ses) = ss_id ses"
  "ts_tenant_id (scope_row ctx now c j ses) = chk_tenant_id c"
  "al_id (allocation_row ctx now c j ord) = j" "al_check_id (allocation_row ctx now c j ord) = chk_id c"
  "al_state (allocation_row ctx now c j ord) = AL_CLAIMED"
  "al_accepted_payable_amount (allocation_row ctx now c j ord) = ro_payable_total ord"
  by (simp_all add: member_row_def scope_row_def allocation_row_def)

lemma release_selectors [simp]:
  "cm_id (release_member a now r v m) = cm_id m"
  "cm_check_id (release_member a now r v m) = cm_check_id m"
  "cm_diner_session_id (release_member a now r v m) = cm_diner_session_id m"
  "cm_tenant_id (release_member a now r v m) = cm_tenant_id m"
  "cm_active_slot (release_member a now r v m) = None"
  "al_id (release_allocation a now r v x) = al_id x"
  "al_check_id (release_allocation a now r v x) = al_check_id x"
  "al_state (release_allocation a now r v x) = AL_RELEASED"
  "al_ownership_slot (release_allocation a now r v x) = None"
  "al_accepted_payable_amount (release_allocation a now r v x) = al_accepted_payable_amount x"
  "al_restaurant_order_id (release_allocation a now r v x) = al_restaurant_order_id x"
  "ts_id (release_scope a now r t) = ts_id t"
  "ts_check_id (release_scope a now r t) = ts_check_id t"
  "ts_active_slot (release_scope a now r t) = None"
  by (simp_all add: release_member_def release_allocation_def release_scope_def)

lemma hand_over_selectors [simp]:
  "cm_id (hand_over i m) = cm_id m" "cm_check_id (hand_over i m) = cm_check_id m"
  "cm_active_slot (hand_over i m) = cm_active_slot m"
  by (simp_all add: hand_over_def)

interpretation releasing_member: row_update cm_id "release_member a now r v" for a now r v
  by unfold_locales simp

interpretation releasing_allocation: row_update al_id "release_allocation a now r v" for a now r v
  by unfold_locales simp

interpretation releasing_scope: row_update ts_id "release_scope a now r" for a now r
  by unfold_locales simp

interpretation handing_over: row_update cm_id "hand_over i" for i
  by unfold_locales simp

lemma touches_include:
  assumes "touches_only (chk_id c) d e"
  shows "touches_only (chk_id c) d (include_diners ctx now c rel diners e)"
  using assms
  by (simp add: touches_only_def) (simp add: include_diners_def insert_rows_ids filter_insert_rows)

lemma touches_lock:
  assumes "touches_only (chk_id c) d e"
  shows "touches_only (chk_id c) d (lock_tables ctx now c sessions e)"
  using assms
  by (simp add: touches_only_def) (simp add: lock_tables_def insert_rows_ids filter_insert_rows)

lemma touches_claim:
  assumes "touches_only (chk_id c) d e"
  shows "touches_only (chk_id c) d (claim_orders ctx now c orders e)"
  using assms
  by (simp add: touches_only_def) (simp add: claim_orders_def insert_rows_ids filter_insert_rows)

lemma touches_release_members:
  assumes "touches_only i d e" "\<And>m. m \<in> set (check_members e) \<Longrightarrow> P m \<Longrightarrow> cm_check_id m = i"
  shows "touches_only i d (release_members a now r v P e)"
  using assms
  by (simp add: touches_only_def)
    (simp add: release_members_def releasing_member.ids_modify_where filter_modify_where)

lemma touches_release_allocations:
  assumes "touches_only i d e" "\<And>x. x \<in> set (check_allocations e) \<Longrightarrow> P x \<Longrightarrow> al_check_id x = i"
  shows "touches_only i d (release_allocations a now r v P e)"
  using assms
  by (simp add: touches_only_def)
    (simp add: release_allocations_def releasing_allocation.ids_modify_where filter_modify_where)

lemma touches_release_scopes:
  assumes "touches_only i d e" "\<And>t. t \<in> set (check_table_scopes e) \<Longrightarrow> P t \<Longrightarrow> ts_check_id t = i"
  shows "touches_only i d (release_scopes a now r P e)"
  using assms
  by (simp add: touches_only_def)
    (simp add: release_scopes_def releasing_scope.ids_modify_where filter_modify_where)

lemma live_total_claim:
  "live_total (claim_orders ctx now c orders d) i =
     live_total d i + (if i = chk_id c then sum_by ro_payable_total orders else 0)"
proof -
  have "filter (live i) (new_rows (allocation_row ctx now c) j orders)
      = (if i = chk_id c then new_rows (allocation_row ctx now c) j orders else [])" for j
    by (induction orders arbitrary: j) (auto simp: live_def)
  then show ?thesis
    by (simp add: live_total_def claim_orders_def insert_rows_def
        sum_by_new_rows[where h = ro_payable_total])
qed

lemma live_total_same:
  assumes "check_allocations e = check_allocations d"
  shows "live_total e i = live_total d i"
  using assms by (simp add: live_total_def)

lemma live_total_frame [simp]:
  "live_total (include_diners ctx now c rel diners d) i = live_total d i"
  "live_total (lock_tables ctx now c sessions d) i = live_total d i"
  "live_total (release_members a now r v P d) i = live_total d i"
  "live_total (release_scopes a now r R d) i = live_total d i"
  "live_total (replace_check c d) i = live_total d i"
  "live_total (record_command sha ctx key op request c d) i = live_total d i"
  "live_total (write_version sha ctx now c g x d) i = live_total d i"
  by (simp_all add: live_total_def)

text \<open>Releasing allocations of the check that it owns takes their amounts off.\<close>

lemma live_total_release:
  assumes "\<And>x. x \<in> set (check_allocations d) \<Longrightarrow> P x \<Longrightarrow> live i x"
  shows "live_total (release_allocations a now r v P d) i
     = live_total d i - sum_by al_accepted_payable_amount (filter P (check_allocations d))"
proof -
  have "sum_by al_accepted_payable_amount (filter (live i) (modify_where P (release_allocation a now r v) xs))
      = sum_by al_accepted_payable_amount (filter (live i) xs) - sum_by al_accepted_payable_amount (filter P xs)"
    if "\<And>x. x \<in> set xs \<Longrightarrow> P x \<Longrightarrow> live i x" for xs
    using that by (induction xs) (auto simp: modify_where_def live_def)
  then show ?thesis using assms by (simp add: live_total_def release_allocations_def)
qed

lemma allocation_live_iff:
  assumes "check_constraints d" "x \<in> set (check_allocations d)"
  shows "al_ownership_slot x = Some 1 \<longleftrightarrow> al_state x \<noteq> AL_RELEASED"
  using assms table_okD[of check_allocation_ok check_allocations_collide "check_allocations d" x]
  by (auto simp: check_constraints_def check_allocation_ok_def)


section \<open>What a successful command did\<close>

lemma add_member_success:
  assumes "add_member_run sha ctx now i s version d = Inr (c', d1)"
  obtains c sessions diners convs orders where
    "locked_check d (tenant_id ctx) i version = Inr c" "authorize_controller c ctx = Inr ()"
    "lock_diners d (tenant_id ctx) [s] = Inr (sessions, diners, convs)"
    "validate_drafts d diners = Inr ()" "active_membership_conflict d diners = Inr ()"
    "eligible_orders d diners = Inr orders" "orders \<noteq> []"
    "c' = set_totals (chk_consumption_total c + sum_by ro_payable_total orders) (chk_gratuity_total c) c"
    "d1 = write_version sha ctx now c' None 0 (replace_check c' (claim_orders ctx now c' orders
       (include_diners ctx now c' (\<lambda>_. REL_INCLUDED) [hd diners] d)))"
  using assms
  by (auto simp: add_member_run_def bind_result_Inr_iff Let_def split: if_splits prod.splits)

lemma remove_member_success:
  assumes "remove_member_run sha ctx now i s version reason d = Inr (c', d1)"
  obtains c m where
    "locked_check d (tenant_id ctx) i version = Inr c" "authorize_controller c ctx = Inr ()"
    "chk_controller_diner_session_id c \<noteq> Some s"
    "List.find (\<lambda>m. cm_check_id m = chk_id c \<and> cm_diner_session_id m = s \<and> cm_active_slot m = Some 1)
       (check_members d) = Some m"
    "\<forall>a \<in> set (check_allocations d). owned_by_diner c s a \<longrightarrow> al_state a = AL_CLAIMED"
    "c' = set_totals (chk_consumption_total c - sum_by al_accepted_payable_amount
       (filter (owned_by_diner c s) (check_allocations d))) (chk_gratuity_total c) c"
    "d1 = write_version sha ctx now c' None 0 (replace_check c' (release_allocations (actor_values ctx)
       now reason (chk_version c') (owned_by_diner c s) (release_members (actor_values ctx) now reason
       (chk_version c') (\<lambda>x. cm_id x = cm_id m) d)))"
proof -
  from assms obtain c where c: "locked_check d (tenant_id ctx) i version = Inr c"
      "authorize_controller c ctx = Inr ()"
    by (auto simp: remove_member_run_def bind_result_Inr_iff)
  with assms obtain m where m: "List.find (\<lambda>m. cm_check_id m = chk_id c \<and> cm_diner_session_id m = s
      \<and> cm_active_slot m = Some 1) (check_members d) = Some m"
    by (auto simp: remove_member_run_def split: if_splits option.splits)
  show thesis
    by (rule that[OF c _ m])
      (use assms c m in \<open>auto simp: remove_member_run_def Let_def list_ex_iff split: if_splits\<close>)
qed

lemma transfer_controller_success:
  assumes "transfer_controller_run sha ctx now i s version d = Inr (c', d1)"
  obtains c where
    "locked_check d (tenant_id ctx) i version = Inr c"
    "s \<in> set (map cm_diner_session_id (active_members d (chk_id c)))"
    "c' = c\<lparr>chk_version := chk_version c + 1, chk_controller := Actor DINER (Some s) None,
            chk_controller_diner_session_id := Some s\<rparr>"
    "d1 = write_version sha ctx now c' None 0 (replace_check c' (d\<lparr>check_members :=
       modify_where (\<lambda>m. cm_check_id m = chk_id c \<and> cm_active_slot m = Some 1) (hand_over s)
         (check_members d)\<rparr>))"
  using assms
  by (auto simp: transfer_controller_run_def bind_result_Inr_iff Let_def split: if_splits)

lemma update_gratuity_success:
  assumes "update_gratuity_run sha ctx now i version g x d = Inr (c', d1)"
  obtains c amount where
    "locked_check d (tenant_id ctx) i version = Inr c" "authorize_controller c ctx = Inr ()"
    "gratuity_amount g (chk_consumption_total c) x = Some amount"
    "c' = set_totals (chk_consumption_total c) amount c"
    "d1 = write_version sha ctx now c' (Some g) x (replace_check c' (d\<lparr>check_gratuities :=
       check_gratuities d @ [gratuity_row d ctx now c' g x amount]\<rparr>))"
  using assms
  by (auto simp: update_gratuity_run_def bind_result_Inr_iff Let_def split: option.splits)

lemma freeze_success:
  assumes "freeze_check_run ctx now i version d = Inr (c', d1)"
  obtains c sessions diners convs where
    "locked_check d (tenant_id ctx) i version = Inr c" "authorize_controller c ctx = Inr ()"
    "lock_diners d (tenant_id ctx) (map cm_diner_session_id (active_members d (chk_id c)))
       = Inr (sessions, diners, convs)"
    "validate_drafts d diners = Inr ()" "verify_complete d c = Inr ()"
    "c' = frozen_check ctx now c" "d1 = replace_check c' d"
  using assms
  by (auto simp: freeze_check_run_def bind_result_Inr_iff split: prod.splits)

lemma cancel_success:
  assumes "cancel_check_run sha ctx now i version reason d = Inr (c', d1)"
  obtains c where
    "locked_check d (tenant_id ctx) i version = Inr c" "authorize_controller c ctx = Inr ()"
    "\<forall>a \<in> set (owned_allocations d (chk_id c)). al_state a = AL_CLAIMED"
    "c' = cancelled_check ctx now reason c"
    "d1 = write_version sha ctx now c' None 0 (replace_check c'
       (release_scopes (actor_values ctx) now reason (\<lambda>t. ts_check_id t = chk_id c \<and> ts_active_slot t = Some 1)
       (release_allocations (actor_values ctx) now reason (chk_version c')
          (\<lambda>a. al_check_id a = chk_id c \<and> al_ownership_slot a = Some 1)
       (release_members (actor_values ctx) now reason (chk_version c')
          (\<lambda>m. cm_check_id m = chk_id c \<and> cm_active_slot m = Some 1) d))))"
  using assms
  by (auto simp: cancel_check_run_def bind_result_Inr_iff Let_def list_ex_iff split: if_splits)

lemma decide_success:
  assumes "decide_continuation_run ctx now i version decision d = Inr (c', d1)"
  obtains c where
    "List.find (\<lambda>c. chk_id c = i \<and> chk_tenant_id c = tenant_id ctx) (restaurant_checks d) = Some c"
    "authorize_controller c ctx = Inr ()" "chk_version c = version" "chk_status c = CHK_SETTLED"
    "chk_continuation_decision c = CONT_PENDING" "settled_amount d i = chk_liability_total c"
    "payment_amount d {PAY_RESERVED, PAY_IN_PROGRESS, PAY_UNCERTAIN} i = 0"
    "c' = decided_check ctx now decision c"
    "d1 = (if decision = CONT_YES
       then release_scopes (actor_values ctx) now ''SERVICE_CONTINUATION_ACCEPTED''
              (\<lambda>t. ts_check_id t = chk_id c \<and> ts_active_slot t = Some 1)
              (release_members (actor_values ctx) now ''SERVICE_CONTINUATION_ACCEPTED'' (chk_version c)
                 (\<lambda>m. cm_check_id m = chk_id c \<and> cm_active_slot m = Some 1) (replace_check c' d))
       else replace_check c' d)"
proof -
  from assms obtain c where c: "List.find (\<lambda>c. chk_id c = i \<and> chk_tenant_id c = tenant_id ctx)
      (restaurant_checks d) = Some c" "authorize_controller c ctx = Inr ()"
    by (auto simp: decide_continuation_run_def bind_result_Inr_iff split: option.splits)
  then have "chk_id c = i" by (auto dest: find_SomeD)
  with c assms show thesis
    by (intro that[OF c]) (auto simp: decide_continuation_run_def bind_result_Inr_iff Let_def
        split: if_splits)
qed

lemma create_success:
  assumes "create_check_run sha ctx now sel ctl members_only allow tables d = Inr (c, d1)"
  obtains sessions locked convs orders diners where
    "lock_diners d (tenant_id ctx) sel = Inr (sessions, locked, convs)"
    "set tables \<subseteq> set (map ss_id sessions)"
    "eligible_orders d locked = Inr orders" "orders \<noteq> []"
    "diners = chosen_diners members_only ctl orders locked"
    "validate_drafts d diners = Inr ()" "active_membership_conflict d diners = Inr ()"
    "\<not> table_conflict d (tenant_id ctx) tables"
    "every_member_orders allow ctl orders diners"
    "(c, d1) = open_new_check sha ctx now ctl diners (filter (\<lambda>s. ss_id s \<in> set tables) sessions) orders d"
proof -
  from assms obtain sessions locked convs where
    l: "lock_diners d (tenant_id ctx) sel = Inr (sessions, locked, convs)"
    by (auto simp: create_check_run_def bind_result_Inr_iff split: prod.splits)
  with assms obtain orders where t: "set tables \<subseteq> set (map ss_id sessions)"
    and o': "eligible_orders d locked = Inr orders" "orders \<noteq> []"
    by (auto simp: create_check_run_def bind_result_Inr_iff split: if_splits)
  show thesis
    by (rule that[OF l t o' refl])
      (use assms l t o' in \<open>auto simp: create_check_run_def bind_result_Inr_iff Let_def split: if_splits\<close>)
qed


section \<open>Commands keep the invariant\<close>

lemma check_inv_restate:
  assumes inv: "check_inv d" and c: "c \<in> set (restaurant_checks d)"
    and c': "chk_id c' = chk_id c" "chk_version c' = chk_version c"
      "chk_consumption_total c' = chk_consumption_total c" "chk_gratuity_total c' = chk_gratuity_total c"
      "chk_liability_total c' = chk_liability_total c"
      "chk_current_fingerprint c' = chk_current_fingerprint c"
    and e: "restaurant_checks e = modify chk_id (chk_id c) (\<lambda>_. c') (restaurant_checks d)"
      "check_versions e = check_versions d" "touches_only (chk_id c) d e"
      "live_total e (chk_id c) = live_total d (chk_id c)" "cancelled_free e c'"
    and ok: "check_constraints e"
  shows "check_inv e"
proof -
  from inv have keys: "check_keys_ok d" and refs: "check_refs_ok d"
    and rows: "\<And>r. r \<in> set (restaurant_checks d) \<Longrightarrow> totals_ok d r \<and> history_ok d r \<and> cancelled_free d r"
    by (simp_all add: check_inv_def)
  from keys have dist: "distinct (map chk_id (restaurant_checks d))" by (simp add: check_keys_ok_def)
  have in_e: "r \<in> set (restaurant_checks e) \<longleftrightarrow>
      r = c' \<or> (r \<in> set (restaurant_checks d) \<and> chk_id r \<noteq> chk_id c)" for r
    unfolding e(1) by (rule modify_const_in[OF dist c]) (simp_all add: c')
  have ids: "map chk_id (restaurant_checks e) = map chk_id (restaurant_checks d)"
    unfolding e(1) by (rule modify_const_ids) (simp add: c')
  have id_set: "chk_id ` set (restaurant_checks e) = chk_id ` set (restaurant_checks d)"
    using ids by (metis set_map)
  have "check_keys_ok e"
    using e(3) dist by (simp add: check_keys_ok_def ids touches_only_def)
  moreover have "check_refs_ok e"
    using touches_refs[OF e(3) refs] c refs by (simp add: check_refs_ok_def id_set e(2))
  moreover have "totals_ok e r \<and> history_ok e r \<and> cancelled_free e r"
    if r: "r \<in> set (restaurant_checks e)" for r
  proof (cases "r = c'")
    case True
    then show ?thesis
      using rows[OF c] c' e
      by (simp add: totals_ok_def history_ok_def history_def shows_check_def)
  next
    case False
    with r in_e have r: "r \<in> set (restaurant_checks d)" "chk_id r \<noteq> chk_id c" by auto
    from rows[OF r(1)] touches_live[OF e(3) r(2)] touches_cancelled[OF e(3) r(2)] e(2)
    show ?thesis by (simp add: totals_ok_def history_ok_def history_def)
  qed
  ultimately show ?thesis using ok by (simp add: check_inv_def)
qed

lemma check_inv_rows:
  assumes "check_inv d" "c \<in> set (restaurant_checks d)"
  shows "totals_ok d c" "history_ok d c" "cancelled_free d c" "touches_only (chk_id c) d d"
    "restaurant_check_ok c"
  using assms touches_only_refl
  by (auto simp: check_inv_def check_constraints_def list_all_iff)

lemma set_totals_selectors [simp]:
  "chk_id (set_totals x y c) = chk_id c" "chk_version (set_totals x y c) = chk_version c + 1"
  "chk_consumption_total (set_totals x y c) = x" "chk_gratuity_total (set_totals x y c) = y"
  "chk_liability_total (set_totals x y c) = x + y" "chk_status (set_totals x y c) = chk_status c"
  by (simp_all add: set_totals_def)

lemma not_cancelled_free [simp]: "chk_status c \<noteq> CHK_CANCELLED \<Longrightarrow> cancelled_free e c"
  by (simp add: cancelled_free_def)

lemma add_member_keeps:
  assumes inv: "check_inv d" and run: "add_member_run sha ctx now i s version d = Inr (c', d1)"
    and ok: "check_constraints (record_command sha ctx key op request c' d1)"
  shows "check_inv (record_command sha ctx key op request c' d1)"
  using run
proof (cases rule: add_member_success)
  case (1 c sessions diners convs orders)
  note c = locked_check_Inr[OF 1(1)]
  let ?e = "claim_orders ctx now c' orders (include_diners ctx now c' (\<lambda>_. REL_INCLUDED) [hd diners] d)"
  have id: "chk_id c' = chk_id c" by (simp add: 1(8))
  have touches: "touches_only (chk_id c) d ?e"
    unfolding id[symmetric]
    by (intro touches_claim touches_include) (use check_inv_rows(4)[OF inv conjunct1[OF c]] id in simp)
  have total: "chk_consumption_total c' = live_total ?e (chk_id c)"
    using check_inv_rows(1)[OF inv] c id
    by (simp add: live_total_claim totals_ok_def 1(8))
  show ?thesis
    unfolding 1(9) revised_def[symmetric]
    by (rule check_inv_revise[OF inv conjunct1[OF c] id _ total _ _ _ touches])
      (use ok c in \<open>simp_all add: 1(8,9) revised_def\<close>)
qed

lemma remove_member_keeps:
  assumes inv: "check_inv d" and run: "remove_member_run sha ctx now i s version reason d = Inr (c', d1)"
    and ok: "check_constraints (record_command sha ctx key op request c' d1)"
  shows "check_inv (record_command sha ctx key op request c' d1)"
  using run
proof (cases rule: remove_member_success)
  case (1 c m)
  note c = locked_check_Inr[OF 1(1)]
  let ?f = "release_members (actor_values ctx) now reason (chk_version c') (\<lambda>x. cm_id x = cm_id m) d"
  let ?e = "release_allocations (actor_values ctx) now reason (chk_version c') (owned_by_diner c s) ?f"
  have id: "chk_id c' = chk_id c" by (simp add: 1(6))
  have keys: "distinct (map cm_id (check_members d))"
    using inv by (simp add: check_inv_def check_keys_ok_def)
  have "m \<in> set (check_members d)" "cm_check_id m = chk_id c"
    using 1(4) by (auto dest: find_SomeD)
  then have only: "cm_check_id x = chk_id c" if "x \<in> set (check_members d)" "cm_id x = cm_id m" for x
    using that same_row_if_same_id[OF keys] by metis
  have touches: "touches_only (chk_id c) d ?e"
    by (intro touches_release_allocations touches_release_members)
      (use check_inv_rows(4)[OF inv conjunct1[OF c]] only in \<open>auto simp: owned_by_diner_def\<close>)
  have "live (chk_id c) x" if "x \<in> set (check_allocations ?f)" "owned_by_diner c s x" for x
    using that allocation_live_iff[of d x] inv by (auto simp: owned_by_diner_def live_def check_inv_def)
  then have total: "chk_consumption_total c' = live_total ?e (chk_id c)"
    using check_inv_rows(1)[OF inv conjunct1[OF c]] live_total_release[of ?f "owned_by_diner c s" "chk_id c"]
    by (simp add: totals_ok_def 1(6))
  show ?thesis
    unfolding 1(7) revised_def[symmetric]
    by (rule check_inv_revise[OF inv conjunct1[OF c] id _ total _ _ _ touches])
      (use ok c in \<open>simp_all add: 1(6,7) revised_def\<close>)
qed

lemma transfer_keeps:
  assumes inv: "check_inv d" and run: "transfer_controller_run sha ctx now i s version d = Inr (c', d1)"
    and ok: "check_constraints (record_command sha ctx key op request c' d1)"
  shows "check_inv (record_command sha ctx key op request c' d1)"
  using run
proof (cases rule: transfer_controller_success)
  case (1 c)
  note c = locked_check_Inr[OF 1(1)]
  let ?e = "d\<lparr>check_members := modify_where (\<lambda>m. cm_check_id m = chk_id c \<and> cm_active_slot m = Some 1)
       (hand_over s) (check_members d)\<rparr>"
  have id: "chk_id c' = chk_id c" by (simp add: 1(3))
  have touches: "touches_only (chk_id c) d ?e"
    using check_inv_rows(4)[OF inv conjunct1[OF c]]
    by (auto simp: touches_only_def handing_over.ids_modify_where intro!: filter_modify_where)
  have total: "chk_consumption_total c' = live_total ?e (chk_id c)"
    using check_inv_rows(1)[OF inv conjunct1[OF c]] live_total_same[of ?e d "chk_id c"]
    by (simp add: totals_ok_def 1(3))
  show ?thesis
    unfolding 1(4) revised_def[symmetric]
    by (rule check_inv_revise[OF inv conjunct1[OF c] id _ total _ _ _ touches])
      (use ok c in \<open>simp_all add: 1(3,4) revised_def\<close>)
qed

lemma gratuity_keeps:
  assumes inv: "check_inv d" and run: "update_gratuity_run sha ctx now i version g x d = Inr (c', d1)"
    and ok: "check_constraints (record_command sha ctx key op request c' d1)"
  shows "check_inv (record_command sha ctx key op request c' d1)"
  using run
proof (cases rule: update_gratuity_success)
  case (1 c amount)
  note c = locked_check_Inr[OF 1(1)]
  let ?e = "d\<lparr>check_gratuities := check_gratuities d @ [gratuity_row d ctx now c' g x amount]\<rparr>"
  have id: "chk_id c' = chk_id c" by (simp add: 1(4))
  have touches: "touches_only (chk_id c) d ?e"
    using check_inv_rows(4)[OF inv conjunct1[OF c]] by (auto simp: touches_only_def)
  have total: "chk_consumption_total c' = live_total ?e (chk_id c)"
    using check_inv_rows(1)[OF inv conjunct1[OF c]] live_total_same[of ?e d "chk_id c"]
    by (simp add: totals_ok_def 1(4))
  show ?thesis
    unfolding 1(5) revised_def[symmetric]
    by (rule check_inv_revise[OF inv conjunct1[OF c] id _ total _ _ _ touches])
      (use ok c in \<open>simp_all add: 1(4,5) revised_def\<close>)
qed

lemma freeze_keeps:
  assumes inv: "check_inv d" and run: "freeze_check_run ctx now i version d = Inr (c', d1)"
    and ok: "check_constraints (record_command sha ctx key op request c' d1)"
  shows "check_inv (record_command sha ctx key op request c' d1)"
  using run
proof (cases rule: freeze_success)
  case (1 c sessions diners convs)
  note c = locked_check_Inr[OF 1(1)]
  let ?e = "record_command sha ctx key op request c' d1"
  have touches: "touches_only (chk_id c) d ?e"
    using check_inv_rows(4)[OF inv conjunct1[OF c]] by (simp add: touches_only_def 1(7))
  show ?thesis
  proof (rule check_inv_restate[OF inv conjunct1[OF c], of c' ?e])
    show "restaurant_checks ?e = modify chk_id (chk_id c) (\<lambda>_. c') (restaurant_checks d)"
      by (simp add: 1(6,7) replace_check_def frozen_check_def)
    show "cancelled_free ?e c'" by (rule not_cancelled_free) (simp add: 1(6) frozen_check_def)
  qed (use ok touches in \<open>simp_all add: 1(6,7) frozen_check_def\<close>)
qed


lemma active_slots:
  assumes "check_constraints d"
  shows "m \<in> set (check_members d) \<Longrightarrow> cm_active_slot m = Some 1 \<or> cm_active_slot m = None"
    and "t \<in> set (check_table_scopes d) \<Longrightarrow> ts_active_slot t = Some 1 \<or> ts_active_slot t = None"
  using assms table_okD[of check_member_ok check_members_collide "check_members d" m]
    table_okD[of check_table_scope_ok check_table_scopes_collide "check_table_scopes d" t]
  by (auto simp: check_constraints_def check_member_ok_def check_table_scope_ok_def)

lemma cancel_releases_all:
  assumes "check_constraints d"
  shows "filter (\<lambda>a. al_check_id a = i \<and> al_ownership_slot a = Some 1) (check_allocations d)
     = filter (live i) (check_allocations d)"
  using allocation_live_iff[OF assms] by (intro filter_cong) (auto simp: live_def)

lemma cancel_keeps:
  assumes inv: "check_inv d" and run: "cancel_check_run sha ctx now i version reason d = Inr (c', d1)"
    and ok: "check_constraints (record_command sha ctx key op request c' d1)"
  shows "check_inv (record_command sha ctx key op request c' d1)"
  using run
proof (cases rule: cancel_success)
  case (1 c)
  note c = locked_check_Inr[OF 1(1)]
  let ?mem = "\<lambda>m. cm_check_id m = chk_id c \<and> cm_active_slot m = Some 1"
  let ?all = "\<lambda>a. al_check_id a = chk_id c \<and> al_ownership_slot a = Some 1"
  let ?sco = "\<lambda>t. ts_check_id t = chk_id c \<and> ts_active_slot t = Some 1"
  let ?e = "release_scopes (actor_values ctx) now reason ?sco
     (release_allocations (actor_values ctx) now reason (chk_version c') ?all
       (release_members (actor_values ctx) now reason (chk_version c') ?mem d))"
  have cons: "check_constraints d" using inv by (simp add: check_inv_def)
  have id: "chk_id c' = chk_id c" "chk_version c' = chk_version c + 1" "chk_consumption_total c' = 0"
    by (simp_all add: 1(4) cancelled_check_def)
  have touches: "touches_only (chk_id c) d ?e"
    by (intro touches_release_scopes touches_release_allocations touches_release_members)
      (use check_inv_rows(4)[OF inv conjunct1[OF c]] in auto)
  have live: "live (chk_id c) x" if "x \<in> set (check_allocations d)" "?all x" for x
    using that allocation_live_iff[OF cons] by (auto simp: live_def)
  have total: "live_total ?e (chk_id c) = 0"
    using live_total_release[of "release_members (actor_values ctx) now reason (chk_version c') ?mem d" ?all
        "chk_id c" "actor_values ctx" now reason "chk_version c'"] live
      cancel_releases_all[OF cons, of "chk_id c"]
    by (simp add: live_total_def[of d])
  have free: "cancelled_free ?e c'"
  proof -
    have "cm_active_slot m = None" if m: "m \<in> set (check_members ?e)" "cm_check_id m = chk_id c" for m
    proof -
      from m(1) obtain r where "r \<in> set (check_members d)"
        "m = (if ?mem r then release_member (actor_values ctx) now reason (chk_version c') r else r)"
        by (auto simp: release_members_def set_modify_where)
      with m(2) active_slots(1)[OF cons, of r] show ?thesis by (cases "?mem r") auto
    qed
    moreover have "ts_active_slot t = None"
      if t: "t \<in> set (check_table_scopes ?e)" "ts_check_id t = chk_id c" for t
    proof -
      from t(1) obtain r where "r \<in> set (check_table_scopes d)"
        "t = (if ?sco r then release_scope (actor_values ctx) now reason r else r)"
        by (auto simp: release_scopes_def set_modify_where)
      with t(2) active_slots(2)[OF cons, of r] show ?thesis by (cases "?sco r") auto
    qed
    moreover have "al_state a = AL_RELEASED"
      if a: "a \<in> set (check_allocations ?e)" "al_check_id a = chk_id c" for a
    proof -
      from a(1) obtain r where "r \<in> set (check_allocations d)"
        "a = (if ?all r then release_allocation (actor_values ctx) now reason (chk_version c') r else r)"
        by (auto simp: release_allocations_def set_modify_where)
      with a(2) allocation_live_iff[OF cons, of r] show ?thesis by (cases "?all r") auto
    qed
    ultimately show ?thesis unfolding cancelled_free_def id by blast
  qed
  show ?thesis
    unfolding 1(5) revised_def[symmetric]
    by (rule check_inv_revise[OF inv conjunct1[OF c] id(1,2) _ free _ _ touches])
      (use ok id total in \<open>simp_all add: 1(5) revised_def\<close>)
qed

lemma decide_keeps:
  assumes inv: "check_inv d" and run: "decide_continuation_run ctx now i version decision d = Inr (c', d1)"
    and ok: "check_constraints (record_command sha ctx key op request c' d1)"
  shows "check_inv (record_command sha ctx key op request c' d1)"
  using run
proof (cases rule: decide_success)
  case (1 c)
  have c: "c \<in> set (restaurant_checks d)" using 1(1) by (auto dest: find_SomeD)
  let ?e = "record_command sha ctx key op request c' d1"
  have own: "touches_only (chk_id c) d d" by (rule check_inv_rows(4)[OF inv c])
  have "touches_only (chk_id c) d (replace_check c' d)" using own by (simp add: touches_only_def)
  then have "touches_only (chk_id c) d d1"
    unfolding 1(9) by (auto intro!: touches_release_scopes touches_release_members)
  then have touches: "touches_only (chk_id c) d ?e" by (simp add: touches_only_def)
  show ?thesis
  proof (rule check_inv_restate[OF inv c, of c' ?e])
    show "restaurant_checks ?e = modify chk_id (chk_id c) (\<lambda>_. c') (restaurant_checks d)"
      by (simp add: 1(8,9) replace_check_def decided_check_def)
    show "cancelled_free ?e c'" by (rule not_cancelled_free) (simp add: 1(4,8) decided_check_def)
  qed (use ok touches in \<open>simp_all add: 1(8,9) decided_check_def\<close>)
qed

lemma modify_absent:
  assumes "i \<notin> rid ` set rows"
  shows "modify rid i f rows = rows"
  using assms by (induction rows) (auto simp: modify_def)

lemma check_inv_create:
  assumes inv: "check_inv d"
    and c: "chk_id c \<notin> chk_id ` set (restaurant_checks d)" "chk_version c = 1"
      "chk_status c = CHK_OPEN" "chk_consumption_total c = live_total e (chk_id c)"
    and e: "restaurant_checks e = restaurant_checks d @ [c]" "check_versions e = check_versions d"
      "touches_only (chk_id c) d e"
    and ok: "check_constraints (record_command sha ctx key op request c (write_version sha ctx now c g x e))"
  shows "check_inv (record_command sha ctx key op request c (write_version sha ctx now c g x e))"
    (is "check_inv ?f")
proof -
  let ?c = "set_fingerprint (next_fingerprint sha c g x e) c"
  from inv have keys: "check_keys_ok d" and refs: "check_refs_ok d"
    and rows: "\<And>r. r \<in> set (restaurant_checks d) \<Longrightarrow> totals_ok d r \<and> history_ok d r \<and> cancelled_free d r"
    by (simp_all add: check_inv_def)
  have "modify chk_id (chk_id c) h (restaurant_checks d) = restaurant_checks d" for h
    using c(1) by (rule modify_absent)
  then have checks: "restaurant_checks ?f = restaurant_checks d @ [?c]"
    by (simp add: write_version_checks e(1)) (simp add: modify_def)
  obtain v where v: "check_versions ?f = check_versions d @ [v]" "cv_check_id v = chk_id c"
    and last_v: "shows_check v ?c"
    using write_version_history[of sha ctx now c g x e] e(2) by (auto simp: shows_check_def set_fingerprint_def)
  let ?I = "insert (chk_id c) (chk_id ` set (restaurant_checks d))"
  have idset: "chk_id ` set (restaurant_checks ?f) = ?I" unfolding checks by simp
  have refs': "check_refs_ok ?f"
    unfolding check_refs_ok_def idset
  proof (intro conjI)
    have sub: "chk_id ` set (restaurant_checks d) \<subseteq> ?I" by blast
    note filters = e(3)[unfolded touches_only_def] and r = refs[unfolded check_refs_ok_def]
    have "set (check_versions ?f) = insert v (set (check_versions d))" unfolding v by simp
    then show "cv_check_id ` set (check_versions ?f) \<subseteq> ?I"
      using r v(2) by (simp add: subset_insertI2)
    have "cm_check_id ` set (check_members e) \<subseteq> ?I"
      by (rule image_by_filter[where ys = "check_members d" and i = "chk_id c"])
        (use filters r sub in auto)
    then show "cm_check_id ` set (check_members ?f) \<subseteq> ?I" by simp
    have "ts_check_id ` set (check_table_scopes e) \<subseteq> ?I"
      by (rule image_by_filter[where ys = "check_table_scopes d" and i = "chk_id c"])
        (use filters r sub in auto)
    then show "ts_check_id ` set (check_table_scopes ?f) \<subseteq> ?I" by simp
    have "al_check_id ` set (check_allocations e) \<subseteq> ?I"
      by (rule image_by_filter[where ys = "check_allocations d" and i = "chk_id c"])
        (use filters r sub in auto)
    then show "al_check_id ` set (check_allocations ?f) \<subseteq> ?I" by simp
  qed
  have "history d (chk_id c) = []"
    using refs c(1) unfolding history_def check_refs_ok_def filter_empty_conv
    by (metis (no_types, lifting) image_subset_iff)
  then have new: "history ?f (chk_id c) = [v]" unfolding history_def v by (simp add: v(2))
  have old: "history ?f j = history d j" if "j \<noteq> chk_id c" for j
    using that unfolding history_def v by (simp add: v(2))
  have "totals_ok ?f r \<and> history_ok ?f r \<and> cancelled_free ?f r" if "r \<in> set (restaurant_checks ?f)" for r
  proof (cases "r = ?c")
    case True
    then have "totals_ok ?f r" "cancelled_free ?f r" using c by (simp_all add: totals_ok_def)
    moreover have "history_ok ?f r"
      unfolding True history_ok_def set_fingerprint_simps new using last_v c by (simp add: shows_check_def)
    ultimately show ?thesis by simp
  next
    case False
    with that have r: "r \<in> set (restaurant_checks d)" unfolding checks by simp
    with c(1) have other: "chk_id r \<noteq> chk_id c" by (metis image_eqI)
    with rows[OF r] touches_live[OF e(3)] have "totals_ok ?f r" by (simp add: totals_ok_def)
    moreover have "history_ok ?f r"
      using rows[OF r] unfolding history_ok_def old[OF other] by simp
    moreover have "cancelled_free e r" using touches_cancelled[OF e(3) other] rows[OF r] by blast
    then have "cancelled_free ?f r" by (simp add: cancelled_free_def)
    ultimately show ?thesis by simp
  qed
  moreover have "check_keys_ok ?f"
    using keys e(3) c(1) unfolding check_keys_ok_def checks by (simp add: touches_only_def)
  ultimately show ?thesis using refs' ok by (simp add: check_inv_def)
qed

lemma create_keeps:
  assumes inv: "check_inv d"
    and run: "create_check_run sha ctx now sel ctl members_only allow tables d = Inr (c, d1)"
    and ok: "check_constraints (record_command sha ctx key op request c d1)"
  shows "check_inv (record_command sha ctx key op request c d1)"
  using run
proof (cases rule: create_success)
  case (1 sessions locked convs orders diners)
  let ?t = "filter (\<lambda>s. ss_id s \<in> set tables) sessions"
  let ?rel = "\<lambda>s. if ctl = Some (ds_id s) then REL_CONTROLLER else REL_INCLUDED"
  let ?b = "d\<lparr>restaurant_checks := restaurant_checks d @ [c]\<rparr>"
  let ?e = "claim_orders ctx now c orders (lock_tables ctx now c ?t (include_diners ctx now c ?rel diners ?b))"
  from 1(10) have c: "c = created_check d ctx now (hd diners) ctl (ro_currency (hd orders))
      (sum_by ro_payable_total orders)" and d1: "d1 = write_version sha ctx now c None 0 ?e"
    by (simp_all add: open_new_check_def Let_def)
  have fresh: "chk_id c \<notin> chk_id ` set (restaurant_checks d)"
    by (simp add: c created_check_def next_id_fresh)
  have none: "live_total d (chk_id c) = 0"
  proof -
    have "al_check_id ` set (check_allocations d) \<subseteq> chk_id ` set (restaurant_checks d)"
      using inv by (simp add: check_inv_def check_refs_ok_def)
    with fresh have "filter (live (chk_id c)) (check_allocations d) = []"
      unfolding filter_empty_conv live_def by (metis image_subset_iff)
    then show ?thesis by (simp add: live_total_def)
  qed
  have "touches_only (chk_id c) d ?b"
    using inv touches_only_refl[of d] by (simp add: check_inv_def touches_only_def)
  then have touches: "touches_only (chk_id c) d ?e"
    by (intro touches_claim touches_lock touches_include)
  have "live_total ?b (chk_id c) = 0" using none by (simp add: live_total_def)
  then have total: "chk_consumption_total c = live_total ?e (chk_id c)"
    by (simp add: live_total_claim) (simp add: c created_check_def)
  show ?thesis
    unfolding d1
    by (rule check_inv_create[OF inv fresh _ _ total _ _ touches])
      (use ok in \<open>simp_all add: c d1 created_check_def\<close>)
qed

section \<open>Uniqueness\<close>

lemma check_members_collide_sym: "check_members_collide a b = check_members_collide b a"
  unfolding check_members_collide_def same_slot_def by metis

lemma check_table_scopes_collide_sym: "check_table_scopes_collide a b = check_table_scopes_collide b a"
  unfolding check_table_scopes_collide_def same_slot_def by metis

lemma check_allocations_collide_sym: "check_allocations_collide a b = check_allocations_collide b a"
  unfolding check_allocations_collide_def same_slot_def by metis

lemma check_rows_apart:
  assumes "check_constraints d"
  shows "m \<in> set (check_members d) \<Longrightarrow> m' \<in> set (check_members d) \<Longrightarrow> m \<noteq> m' \<Longrightarrow>
      \<not> check_members_collide m m'"
    and "t \<in> set (check_table_scopes d) \<Longrightarrow> t' \<in> set (check_table_scopes d) \<Longrightarrow> t \<noteq> t' \<Longrightarrow>
      \<not> check_table_scopes_collide t t'"
    and "a \<in> set (check_allocations d) \<Longrightarrow> a' \<in> set (check_allocations d) \<Longrightarrow> a \<noteq> a' \<Longrightarrow>
      \<not> check_allocations_collide a a'"
proof -
  from assms have free: "collision_free check_members_collide (check_members d)"
    "collision_free check_table_scopes_collide (check_table_scopes d)"
    "collision_free check_allocations_collide (check_allocations d)"
    by (simp_all add: check_constraints_def table_ok_def)
  show "m \<in> set (check_members d) \<Longrightarrow> m' \<in> set (check_members d) \<Longrightarrow> m \<noteq> m' \<Longrightarrow>
      \<not> check_members_collide m m'"
    by (rule collision_freeD[OF free(1)]) (rule check_members_collide_sym)
  show "t \<in> set (check_table_scopes d) \<Longrightarrow> t' \<in> set (check_table_scopes d) \<Longrightarrow> t \<noteq> t' \<Longrightarrow>
      \<not> check_table_scopes_collide t t'"
    by (rule collision_freeD[OF free(2)]) (rule check_table_scopes_collide_sym)
  show "a \<in> set (check_allocations d) \<Longrightarrow> a' \<in> set (check_allocations d) \<Longrightarrow> a \<noteq> a' \<Longrightarrow>
      \<not> check_allocations_collide a a'"
    by (rule collision_freeD[OF free(3)]) (rule check_allocations_collide_sym)
qed

end
