(* ===== verification/CheckCommands.thy ===== *)
theory CheckCommands
  imports CheckInvariant
begin

text \<open>
  The eight commands of the check service as one function on requests, their common frame, the
  preservation of the invariant by every command, and the idempotent command interface instantiated
  with all of them.
\<close>

section \<open>The commands as one function\<close>

datatype check_request =
    CreateCheck "int list" "int option" bool bool "int list"
  | AddMember int int int
  | RemoveMember int int int string
  | TransferController int int int
  | UpdateGratuity int int string pynum
  | FreezeCheck int int
  | CancelCheck int int string
  | DecideContinuation int int string

fun execute_check ::
  "(json \<Rightarrow> string) \<Rightarrow> execution_context \<Rightarrow> datetime \<Rightarrow> string \<Rightarrow> check_request \<Rightarrow> db
   \<Rightarrow> check_error + ((check_projection \<times> bool) \<times> db)"
where
  "execute_check sha ctx now key (CreateCheck ids ctl eligible allow tables) d =
     create_check sha ctx now ids ctl key eligible allow tables d"
| "execute_check sha ctx now key (AddMember i s version) d = add_member sha ctx now i s version key d"
| "execute_check sha ctx now key (RemoveMember i s version reason) d =
     remove_member sha ctx now i s version key reason d"
| "execute_check sha ctx now key (TransferController i s version) d =
     transfer_controller sha ctx now i s version key d"
| "execute_check sha ctx now key (UpdateGratuity i version t x) d =
     update_gratuity sha ctx now i version t x key d"
| "execute_check sha ctx now key (FreezeCheck i version) d = freeze_check sha ctx now i version key d"
| "execute_check sha ctx now key (CancelCheck i version reason) d =
     cancel_check sha ctx now i version key reason d"
| "execute_check sha ctx now key (DecideContinuation i version decision) d =
     decide_continuation sha ctx now i version decision key d"

text \<open>
  What a command does before its frame (the checks of its arguments, the operation name, the canonical
  request and the check a replay shows), and what it runs inside.
\<close>

definition gratuity_input :: "string \<Rightarrow> pynum \<Rightarrow> check_error + (gratuity_type \<times> rat)" where
  "gratuity_input t x =
     (case x of PyNonFinite \<Rightarrow> Inl CheckValueError | PyOther \<Rightarrow> Inl CheckValueError
      | PyDecimal value \<Rightarrow> if value < 0 then Inl CheckValueError else
        (case parse_gratuity_type t of None \<Rightarrow> Inl CheckValueError
         | Some g \<Rightarrow> (case quantize4 value of None \<Rightarrow> Inl CheckDecimalInvalidOperation
                      | Some _ \<Rightarrow> Inr (g, value))))"

definition decision_input :: "string \<Rightarrow> check_error + continuation" where
  "decision_input s = (case parse_decision (upper (strip s)) of
     None \<Rightarrow> Inl CheckValueError | Some c \<Rightarrow> Inr c)"

fun prepare_check :: "execution_context \<Rightarrow> check_request \<Rightarrow> check_error + (string \<times> json)" where
  "prepare_check ctx (CreateCheck ids ctl eligible allow tables) =
     Inr (''CREATE'', create_check_request (sorted_set ids) ctl eligible allow (sorted_set tables))"
| "prepare_check ctx (AddMember i s version) = Inr (''ADD_MEMBER'', add_member_request i s version)"
| "prepare_check ctx (RemoveMember i s version reason) = Inr (''REMOVE_MEMBER'',
     JObj [(''check_id'', JInt i), (''diner_session_id'', JInt s),
           (''expected_version'', JInt version), (''reason'', JStr reason)])"
| "prepare_check ctx (TransferController i s version) =
     (if actor_type ctx \<noteq> EMPLOYEE then Inl CheckPermissionError
      else Inr (''TRANSFER_CONTROLLER'',
        JObj [(''check_id'', JInt i), (''diner_session_id'', JInt s), (''expected_version'', JInt version)]))"
| "prepare_check ctx (UpdateGratuity i version t x) =
     bind_result (gratuity_input t x) (\<lambda>(_, value). Inr (''GRATUITY'',
       JObj [(''check_id'', JInt i), (''expected_version'', JInt version),
             (''input_type'', JStr t), (''input_value'', JStr (money_str value))]))"
| "prepare_check ctx (FreezeCheck i version) =
     Inr (''FREEZE'', JObj [(''check_id'', JInt i), (''expected_version'', JInt version)])"
| "prepare_check ctx (CancelCheck i version reason) = Inr (''CANCEL'',
     JObj [(''check_id'', JInt i), (''expected_version'', JInt version), (''reason'', JStr reason)])"
| "prepare_check ctx (DecideContinuation i version decision) =
     bind_result (decision_input decision) (\<lambda>_. Inr (''CONTINUATION_DECISION'',
       JObj [(''check_id'', JInt i), (''expected_version'', JInt version),
             (''decision'', JStr (upper (strip decision)))]))"

fun replay_target :: "check_request \<Rightarrow> check_command \<Rightarrow> int" where
  "replay_target (CreateCheck ids ctl eligible allow tables) = cc_check_id"
| "replay_target (AddMember i s version) = (\<lambda>_. i)"
| "replay_target (RemoveMember i s version reason) = (\<lambda>_. i)"
| "replay_target (TransferController i s version) = (\<lambda>_. i)"
| "replay_target (UpdateGratuity i version t x) = (\<lambda>_. i)"
| "replay_target (FreezeCheck i version) = (\<lambda>_. i)"
| "replay_target (CancelCheck i version reason) = (\<lambda>_. i)"
| "replay_target (DecideContinuation i version decision) = (\<lambda>_. i)"

fun run_check ::
  "(json \<Rightarrow> string) \<Rightarrow> execution_context \<Rightarrow> datetime \<Rightarrow> check_request \<Rightarrow> db
   \<Rightarrow> check_error + (restaurant_check \<times> db)"
where
  "run_check sha ctx now (CreateCheck ids ctl eligible allow tables) =
     create_check_run sha ctx now (sorted_set ids) ctl eligible allow (sorted_set tables)"
| "run_check sha ctx now (AddMember i s version) = add_member_run sha ctx now i s version"
| "run_check sha ctx now (RemoveMember i s version reason) = remove_member_run sha ctx now i s version reason"
| "run_check sha ctx now (TransferController i s version) = transfer_controller_run sha ctx now i s version"
| "run_check sha ctx now (UpdateGratuity i version t x) =
     (\<lambda>d. bind_result (gratuity_input t x) (\<lambda>(g, value). update_gratuity_run sha ctx now i version g value d))"
| "run_check sha ctx now (FreezeCheck i version) = freeze_check_run ctx now i version"
| "run_check sha ctx now (CancelCheck i version reason) = cancel_check_run sha ctx now i version reason"
| "run_check sha ctx now (DecideContinuation i version decision) =
     (\<lambda>d. bind_result (decision_input decision) (\<lambda>answer. decide_continuation_run ctx now i version answer d))"

lemma execute_frame:
  "execute_check sha ctx now key q d =
     bind_result (prepare_check ctx q) (\<lambda>(operation, request).
       check_command_frame sha ctx key operation request (replay_target q) (run_check sha ctx now q) d)"
  by (cases q)
    (auto simp: create_check_def add_member_def remove_member_def transfer_controller_def
      update_gratuity_def freeze_check_def cancel_check_def decide_continuation_def gratuity_input_def
      decision_input_def Let_def split: pynum.splits option.splits)

lemma execute_success:
  assumes "execute_check sha ctx now key q d = Inr ((v, b), d')"
  obtains (replay) operation request command where
      "prepare_check ctx q = Inr (operation, request)" "b" "d' = d"
      "command_replay sha ctx key operation request d = Inr (Some command)"
      "get_check d (tenant_id ctx) (replay_target q command) False None None = Inr v"
  | (new) operation request check d1 where
      "prepare_check ctx q = Inr (operation, request)" "\<not> b"
      "command_replay sha ctx key operation request d = Inr None"
      "run_check sha ctx now q d = Inr (check, d1)"
      "d' = record_command sha ctx key operation request check d1" "check_constraints d'"
      "get_check d' (tenant_id ctx) (chk_id check) False None None = Inr v"
proof -
  from assms obtain w where w: "prepare_check ctx q = Inr w"
    "check_command_frame sha ctx key (fst w) (snd w) (replay_target q) (run_check sha ctx now q) d
       = Inr ((v, b), d')"
    by (auto simp: execute_frame bind_result_Inr_iff)
  from w(2) show thesis
  proof (cases rule: frame_success)
    case (replay command)
    with that(1)[of "fst w" "snd w" command] w(1) show thesis by simp
  next
    case (new check d1)
    with that(2)[of "fst w" "snd w" check d1] w(1) show thesis by simp
  qed
qed

lemma run_keeps:
  assumes "check_inv d" "run_check sha ctx now q d = Inr (c, d1)"
    and "check_constraints (record_command sha ctx key op request c d1)"
  shows "check_inv (record_command sha ctx key op request c d1)"
proof (cases q)
  case (CreateCheck ids ctl eligible allow tables)
  with assms show ?thesis by (auto intro: create_keeps)
next
  case (AddMember i s version)
  with assms show ?thesis by (auto intro: add_member_keeps)
next
  case (RemoveMember i s version reason)
  with assms show ?thesis by (auto intro: remove_member_keeps)
next
  case (TransferController i s version)
  with assms show ?thesis by (auto intro: transfer_keeps)
next
  case (UpdateGratuity i version t x)
  with assms show ?thesis by (auto simp: bind_result_Inr_iff intro: gratuity_keeps)
next
  case (FreezeCheck i version)
  with assms show ?thesis by (auto intro: freeze_keeps)
next
  case (CancelCheck i version reason)
  with assms show ?thesis by (auto intro: cancel_keeps)
next
  case (DecideContinuation i version decision)
  with assms show ?thesis by (auto simp: bind_result_Inr_iff intro: decide_keeps)
qed

text \<open>A command on an existing check returns that check.\<close>

lemma run_target:
  assumes "run_check sha ctx now q d = Inr (c, d1)" and "cc_check_id r = chk_id c"
  shows "replay_target q r = chk_id c"
proof (cases q)
  case (CreateCheck ids ctl eligible allow tables)
  with assms show ?thesis by simp
next
  case (AddMember i s version)
  with assms show ?thesis by (auto elim!: add_member_success dest: locked_check_Inr)
next
  case (RemoveMember i s version reason)
  with assms show ?thesis by (auto elim!: remove_member_success dest: locked_check_Inr)
next
  case (TransferController i s version)
  with assms show ?thesis by (auto elim!: transfer_controller_success dest: locked_check_Inr)
next
  case (UpdateGratuity i version t x)
  with assms show ?thesis
    by (auto simp: bind_result_Inr_iff elim!: update_gratuity_success dest: locked_check_Inr)
next
  case (FreezeCheck i version)
  with assms show ?thesis by (auto elim!: freeze_success dest: locked_check_Inr simp: frozen_check_def)
next
  case (CancelCheck i version reason)
  with assms show ?thesis by (auto elim!: cancel_success dest: locked_check_Inr simp: cancelled_check_def)
next
  case (DecideContinuation i version decision)
  with assms show ?thesis
    by (auto simp: bind_result_Inr_iff decided_check_def elim!: decide_success dest: find_SomeD)
qed

lemma commands_frame [simp]:
  "check_commands (write_version sha ctx now c g x d) = check_commands d"
  "check_commands (replace_check c d) = check_commands d"
  "check_commands (include_diners ctx now c rel diners d) = check_commands d"
  "check_commands (claim_orders ctx now c orders d) = check_commands d"
  "check_commands (lock_tables ctx now c sessions d) = check_commands d"
  "check_commands (release_members a now r v P d) = check_commands d"
  "check_commands (release_allocations a now r v Q d) = check_commands d"
  "check_commands (release_scopes a now r R d) = check_commands d"
  by (simp_all add: write_version_def Let_def replace_check_def include_diners_def claim_orders_def
      lock_tables_def release_members_def release_allocations_def release_scopes_def)

lemma run_commands:
  assumes "run_check sha ctx now q d = Inr (c, d1)"
  shows "check_commands d1 = check_commands d"
proof (cases q)
  case (CreateCheck ids ctl eligible allow tables)
  with assms show ?thesis by (auto elim!: create_success simp: open_new_check_def Let_def)
next
  case (AddMember i s version)
  with assms show ?thesis by (auto elim!: add_member_success)
next
  case (RemoveMember i s version reason)
  with assms show ?thesis by (auto elim!: remove_member_success)
next
  case (TransferController i s version)
  with assms show ?thesis by (auto elim!: transfer_controller_success)
next
  case (UpdateGratuity i version t x)
  with assms show ?thesis by (auto simp: bind_result_Inr_iff elim!: update_gratuity_success)
next
  case (FreezeCheck i version)
  with assms show ?thesis by (auto elim!: freeze_success)
next
  case (CancelCheck i version reason)
  with assms show ?thesis by (auto elim!: cancel_success)
next
  case (DecideContinuation i version decision)
  with assms show ?thesis by (auto simp: bind_result_Inr_iff elim!: decide_success)
qed

section \<open>Idempotency\<close>

definition command_of :: "execution_context \<Rightarrow> string \<Rightarrow> db \<Rightarrow> check_command option" where
  "command_of ctx key d = List.find (\<lambda>c. cc_tenant_id c = tenant_id ctx \<and> cc_actor_scope c = actor_scope ctx
     \<and> cc_idempotency_key c = key) (check_commands d)"

definition check_lookup :: "execution_context \<times> string \<times> check_request \<Rightarrow> db \<Rightarrow> check_command option" where
  "check_lookup q d = command_of (fst q) (fst (snd q)) d"

definition check_request_fp ::
  "(json \<Rightarrow> string) \<Rightarrow> execution_context \<times> string \<times> check_request \<Rightarrow> string \<times> string"
where
  "check_request_fp sha q =
     (case prepare_check (fst q) (snd (snd q)) of Inl _ \<Rightarrow> ([], []) | Inr (op, request) \<Rightarrow> (op, sha request))"

definition shown_check ::
  "execution_context \<times> string \<times> check_request \<Rightarrow> check_command \<Rightarrow> db \<Rightarrow> check_error + check_projection"
where
  "shown_check q r d = get_check d (tenant_id (fst q)) (replay_target (snd (snd q)) r) False None None"

definition check_admissible :: "execution_context \<times> string \<times> check_request \<Rightarrow> db \<Rightarrow> bool" where
  "check_admissible q d \<longleftrightarrow> \<not> isl (prepare_check (fst q) (snd (snd q)))
     \<and> (\<forall>r. check_lookup q d = Some r \<longrightarrow> \<not> isl (shown_check q r d))"

definition check_run ::
  "(json \<Rightarrow> string) \<Rightarrow> datetime \<Rightarrow> execution_context \<times> string \<times> check_request \<Rightarrow> db
   \<Rightarrow> check_error + ((check_projection \<times> bool) \<times> db)"
where
  "check_run sha now q d = execute_check sha (fst q) now (fst (snd q)) (snd (snd q)) d"

lemma command_replay_cases:
  "command_replay sha ctx key op request d =
     (case command_of ctx key d of None \<Rightarrow> Inr None
      | Some c \<Rightarrow> if (cc_operation c, cc_request_fingerprint c) = (op, sha request) then Inr (Some c)
                  else Inl CheckIdempotencyConflictError)"
  by (simp add: command_replay_def command_of_def split: option.splits)

lemma command_of_record:
  assumes "command_of ctx key d1 = None"
  shows "\<exists>r. command_of ctx key (record_command sha ctx key op request c d1) = Some r
     \<and> cc_operation r = op \<and> cc_request_fingerprint r = sha request \<and> cc_check_id r = chk_id c"
  using assms by (simp add: command_of_def record_command_def find_append)


interpretation check_cmd: idempotent_command "check_run sha" check_lookup
  "\<lambda>r. (cc_operation r, cc_request_fingerprint r)" "check_request_fp sha" check_admissible
  "\<lambda>q r d. projr (shown_check q r d)" CheckIdempotencyConflictError
  for sha
proof (unfold_locales, goal_cases)
  case (1 q d r e)
  obtain ctx key rq where q: "q = (ctx, key, rq)" by (cases q)
  from 1(1) obtain op request where "prepare_check ctx rq = Inr (op, request)"
    by (cases "prepare_check ctx rq") (auto simp: q check_admissible_def)
  moreover from 1 have "\<not> isl (shown_check q r d)" by (simp add: check_admissible_def)
  then obtain v where "shown_check q r d = Inr v" by (cases "shown_check q r d") auto
  moreover have "command_of ctx key d = Some r" using 1(2) by (simp add: q check_lookup_def)
  ultimately show ?case
    by (auto simp: q check_run_def execute_frame check_request_fp_def check_command_frame_def
        command_replay_cases shown_check_def)
next
  case (2 q d e v b d')
  obtain ctx key rq where q: "q = (ctx, key, rq)" by (cases q)
  have none: "command_of ctx key d = None" using 2(1) by (simp add: q check_lookup_def)
  from 2(2) have "execute_check sha ctx e key rq d = Inr ((v, b), d')" by (simp add: q check_run_def)
  then show ?case
  proof (cases rule: execute_success)
    case (replay operation request command)
    with none show ?thesis by (simp add: command_replay_cases)
  next
    case (new operation request check d1)
    have "check_commands d1 = check_commands d"
      using new(4) by (rule run_commands)
    then have "command_of ctx key d1 = None" using none by (simp add: command_of_def)
    from command_of_record[OF this] obtain r where
      r: "command_of ctx key d' = Some r" "cc_operation r = operation"
        "cc_request_fingerprint r = sha request" "cc_check_id r = chk_id check"
      unfolding new(5) by blast
    have "shown_check q r d' = Inr v"
      using new(7) run_target[OF new(4) r(4)] by (simp add: q shown_check_def)
    with r new show ?thesis
      by (auto simp: q check_admissible_def check_lookup_def check_request_fp_def)
  qed
next
  case (3 e q d v b d')
  obtain ctx key rq where q: "q = (ctx, key, rq)" by (cases q)
  from 3 have "execute_check sha ctx e key rq d = Inr ((v, b), d')" by (simp add: q check_run_def)
  then show ?case
    by (cases rule: execute_success)
      (auto simp: q check_admissible_def check_lookup_def shown_check_def command_replay_cases
        split: option.splits if_splits)
qed

end
