(* ===== verification/CheckProofs.thy ===== *)
theory CheckProofs
  imports CheckCommands
begin

text \<open>
  The correctness of the check service: what each command achieves on success, which commands it
  refuses, and the guards that the closing of diners and tables rests on.
\<close>

section \<open>Reading the results\<close>

lemma get_check_Inr:
  assumes "get_check d t i False None None = Inr v"
  obtains c where "c \<in> set (restaurant_checks d)" "chk_id c = i" "chk_tenant_id c = t"
    "v = check_view d c None"
  using assms by (auto simp: get_check_def dest: find_SomeD split: option.splits)

lemma unused_key_run:
  assumes "command_of ctx key d = None" and "prepare_check ctx q = Inr w"
    and "run_check sha ctx now q d = Inl e"
  shows "execute_check sha ctx now key q d = Inl e"
  using assms by (cases w) (simp add: execute_frame check_command_frame_def command_replay_cases)

text \<open>The check and the version a request names, for the requests on an existing check.\<close>

fun named_version :: "check_request \<Rightarrow> (int \<times> int) option" where
  "named_version (CreateCheck ids ctl eligible allow tables) = None"
| "named_version (AddMember i s version) = Some (i, version)"
| "named_version (RemoveMember i s version reason) = Some (i, version)"
| "named_version (TransferController i s version) = Some (i, version)"
| "named_version (UpdateGratuity i version t x) = Some (i, version)"
| "named_version (FreezeCheck i version) = Some (i, version)"
| "named_version (CancelCheck i version reason) = Some (i, version)"
| "named_version (DecideContinuation i version decision) = Some (i, version)"

fun is_decision :: "check_request \<Rightarrow> bool" where
  "is_decision (DecideContinuation i version decision) = True"
| "is_decision _ = False"

lemma prepared_inputs:
  "prepare_check ctx (UpdateGratuity i version t x) = Inr w \<Longrightarrow> \<exists>y. gratuity_input t x = Inr y"
  "prepare_check ctx (DecideContinuation i version s) = Inr w \<Longrightarrow> \<exists>y. decision_input s = Inr y"
  by (auto simp: bind_result_Inr_iff)

lemma stored_check_unique:
  assumes "check_inv d" "c \<in> set (restaurant_checks d)"
  shows "List.find (\<lambda>x. chk_id x = chk_id c \<and> chk_tenant_id x = chk_tenant_id c) (restaurant_checks d) = Some c"
proof -
  have dist: "distinct (map chk_id (restaurant_checks d))"
    using assms(1) by (simp add: check_inv_def check_keys_ok_def)
  obtain x where x: "List.find (\<lambda>x. chk_id x = chk_id c \<and> chk_tenant_id x = chk_tenant_id c)
      (restaurant_checks d) = Some x"
    using assms(2) by (cases "List.find (\<lambda>x. chk_id x = chk_id c \<and> chk_tenant_id x = chk_tenant_id c)
      (restaurant_checks d)") (auto simp: find_eq_None_iff)
  then have "x \<in> set (restaurant_checks d)" "chk_id x = chk_id c" by (auto dest: find_SomeD)
  with same_row_if_same_id[OF dist] assms(2) x show ?thesis by metis
qed

lemma locked_check_eq:
  assumes "check_inv d" "c \<in> set (restaurant_checks d)"
  shows "locked_check d (chk_tenant_id c) (chk_id c) version =
    (if chk_version c \<noteq> version then Inl CheckVersionConflictError
     else if chk_status c \<noteq> CHK_OPEN then Inl CheckNotModifiableError else Inr c)"
  by (simp add: locked_check_def stored_check_unique[OF assms])

section \<open>Properties\<close>

text \<open>
  Every command of the check service keeps the invariant of the check tables: keys and references
  are sound, all CHECK and UNIQUE constraints hold, the consumption of each check is the sum of its
  unreleased allocations, its versions are numbered without a gap and the last one shows its fingerprint
  and totals, and a cancelled check holds no member, no order and no table.
\<close>

theorem check_command_keeps_invariant:
  assumes "check_inv d" and "execute_check sha ctx now key q d = Inr ((v, b), d')"
  shows "check_inv d'"
  using assms(2)
proof (cases rule: execute_success)
  case (replay operation request command)
  with assms(1) show ?thesis by simp
next
  case (new operation request check d1)
  with assms(1) show ?thesis using run_keeps[OF assms(1) new(4)] by simp
qed

text \<open>
  A command that names another version than the check has is refused with a version conflict, so
  of two commands prepared on the same version at most one takes effect. (Shown for staff; a diner who
  decides on continuation without being the controller is refused for that first.)
\<close>

theorem stale_version_refused:
  assumes "check_inv d" and "c \<in> set (restaurant_checks d)" and "chk_tenant_id c = tenant_id ctx"
    and "named_version q = Some (chk_id c, version)" and "version \<noteq> chk_version c"
    and "actor_type ctx = EMPLOYEE" and "command_of ctx key d = None"
    and "prepare_check ctx q = Inr w"
  shows "execute_check sha ctx now key q d = Inl CheckVersionConflictError"
proof (rule unused_key_run[OF assms(7,8)])
  have "locked_check d (tenant_id ctx) (chk_id c) version = Inl CheckVersionConflictError"
    using locked_check_eq[OF assms(1,2), of version] assms(3,5) by simp
  moreover have "List.find (\<lambda>x. chk_id x = chk_id c \<and> chk_tenant_id x = tenant_id ctx)
      (restaurant_checks d) = Some c"
    using stored_check_unique[OF assms(1,2)] assms(3) by simp
  ultimately show "run_check sha ctx now q d = Inl CheckVersionConflictError"
    using assms(4,5,6,8) prepared_inputs[of ctx]
    by (cases q)
      (fastforce simp: add_member_run_def remove_member_run_def transfer_controller_run_def
        update_gratuity_run_def freeze_check_run_def cancel_check_run_def
        decide_continuation_run_def authorize_controller_def bind_result_Inr_iff)+
qed

text \<open>
  Once a check is frozen, settled or cancelled no command changes its members, its orders, its
  gratuity or its controller, and it is neither frozen nor cancelled again: every such command that
  names the current version is refused with CheckNotModifiableError.
\<close>

theorem closed_check_not_modifiable:
  assumes "check_inv d" and "c \<in> set (restaurant_checks d)" and "chk_tenant_id c = tenant_id ctx"
    and "chk_status c \<noteq> CHK_OPEN" and "named_version q = Some (chk_id c, chk_version c)"
    and "\<not> is_decision q" and "command_of ctx key d = None" and "prepare_check ctx q = Inr w"
  shows "execute_check sha ctx now key q d = Inl CheckNotModifiableError"
proof (rule unused_key_run[OF assms(7,8)])
  have "locked_check d (tenant_id ctx) (chk_id c) (chk_version c) = Inl CheckNotModifiableError"
    using locked_check_eq[OF assms(1,2), of "chk_version c"] assms(3,4) by simp
  then show "run_check sha ctx now q d = Inl CheckNotModifiableError"
    using assms(5,6,8) prepared_inputs[of ctx]
    by (cases q)
      (fastforce simp: add_member_run_def remove_member_run_def transfer_controller_run_def
        update_gratuity_run_def freeze_check_run_def cancel_check_run_def bind_result_Inr_iff)+
qed

text \<open>
  A diner who does not control the check cannot change it: with the current version of an open
  check, each command of such a diner is refused with CheckPermissionError.
\<close>

theorem only_controller_modifies:
  assumes "check_inv d" and "c \<in> set (restaurant_checks d)" and "chk_tenant_id c = tenant_id ctx"
    and "chk_status c = CHK_OPEN" and "named_version q = Some (chk_id c, chk_version c)"
    and "actor_type ctx \<noteq> EMPLOYEE"
    and "actor_type ctx = DINER \<longrightarrow> principal_id ctx \<noteq> chk_controller_diner_session_id c"
    and "command_of ctx key d = None"
  shows "\<exists>e. execute_check sha ctx now key q d = Inl e
     \<and> (\<not> isl (prepare_check ctx q) \<longrightarrow> e = CheckPermissionError)"
proof -
  have locked: "locked_check d (tenant_id ctx) (chk_id c) (chk_version c) = Inr c"
    using locked_check_eq[OF assms(1,2), of "chk_version c"] assms(3,4) by simp
  have find: "List.find (\<lambda>x. chk_id x = chk_id c \<and> chk_tenant_id x = tenant_id ctx)
      (restaurant_checks d) = Some c"
    using stored_check_unique[OF assms(1,2)] assms(3) by simp
  have auth: "authorize_controller c ctx = Inl CheckPermissionError"
    using assms(6,7) by (auto simp: authorize_controller_def)
  have prepared: "execute_check sha ctx now key q d = Inl CheckPermissionError"
    if "prepare_check ctx q = Inr w" for w
  proof (rule unused_key_run[OF assms(8) that])
    show "run_check sha ctx now q d = Inl CheckPermissionError"
      using assms(5,6) that prepared_inputs[of ctx] locked find auth
      by (cases q)
        (fastforce simp: add_member_run_def remove_member_run_def transfer_controller_run_def
          update_gratuity_run_def freeze_check_run_def cancel_check_run_def
          decide_continuation_run_def bind_result_Inr_iff)+
  qed
  show ?thesis
    using prepared by (cases "prepare_check ctx q") (auto simp: execute_frame)
qed


lemma lock_diners_in:
  assumes "lock_diners d t ids = Inr (sessions, diners, convs)"
  shows "diners = order_by ds_id (filter (\<lambda>s. ds_tenant_id s = t \<and> ds_id s \<in> set ids) (diner_sessions d))"
    and "diners \<noteq> []" and "s \<in> set sessions \<Longrightarrow> s \<in> set (service_sessions d) \<and> ss_tenant_id s = t"
proof -
  show "diners = order_by ds_id (filter (\<lambda>s. ds_tenant_id s = t \<and> ds_id s \<in> set ids) (diner_sessions d))"
    and "s \<in> set sessions \<Longrightarrow> s \<in> set (service_sessions d) \<and> ss_tenant_id s = t"
    using assms by (auto simp: lock_diners_def Let_def split: if_splits)
  show "diners \<noteq> []"
    using assms by (auto simp: lock_diners_def Let_def split: if_splits)
qed

lemma eligible_ordersD:
  assumes "eligible_orders d diners = Inr orders"
  obtains "diners \<noteq> []" "orders = order_by ro_id (filter (\<lambda>x. ro_tenant_id x = ds_tenant_id (hd diners)
      \<and> ro_diner_session_id x \<in> set (map ds_id diners) \<and> ro_status x = ''ACCEPTED''
      \<and> \<not> order_allocated d x) (restaurant_orders d))"
  using assms by (auto simp: eligible_orders_def split: list.splits)

lemma create_replays_or_adds:
  assumes "create_check sha ctx now ids ctl key eligible allow tables d = Inr ((v, False), d')"
  obtains sessions locked convs orders diners check d4 where
    "lock_diners d (tenant_id ctx) (sorted_set ids) = Inr (sessions, locked, convs)"
    "eligible_orders d locked = Inr orders" "orders \<noteq> []"
    "diners = chosen_diners eligible ctl orders locked" "diners \<noteq> []"
    "check = created_check d ctx now (hd diners) ctl (ro_currency (hd orders))
       (sum_by ro_payable_total orders)"
    "d4 = claim_orders ctx now check orders (lock_tables ctx now check
       (filter (\<lambda>s. ss_id s \<in> set (sorted_set tables)) sessions) (include_diners ctx now check
         (\<lambda>s. if ctl = Some (ds_id s) then REL_CONTROLLER else REL_INCLUDED) diners
         (d\<lparr>restaurant_checks := restaurant_checks d @ [check]\<rparr>)))"
    "d' = record_command sha ctx key ''CREATE''
       (create_check_request (sorted_set ids) ctl eligible allow (sorted_set tables)) check
       (write_version sha ctx now check None 0 d4)"
    "check_constraints d'" "get_check d' (tenant_id ctx) (chk_id check) False None None = Inr v"
proof -
  from assms have "execute_check sha ctx now key (CreateCheck ids ctl eligible allow tables) d
      = Inr ((v, False), d')" by simp
  then show thesis
  proof (cases rule: execute_success)
    case (new operation request check d1)
    from new(4) have "create_check_run sha ctx now (sorted_set ids) ctl eligible allow
        (sorted_set tables) d = Inr (check, d1)" by simp
    then show thesis
    proof (cases rule: create_success)
      case (1 sessions locked convs orders diners)
      have "diners \<noteq> []"
        using 1(7) by (auto simp: active_membership_conflict_def)
      with 1 new that show thesis by (simp add: open_new_check_def Let_def)
    qed
  qed simp
qed

text \<open>
  A new check claims exactly the eligible orders of the selected diners (accepted, of the tenant and
  owned by no check), each at its accepted amount. It starts open at version 1, its consumption and its
  liability are the sum of those amounts and it has no gratuity.
\<close>

theorem create_claims_eligible_orders:
  assumes "check_inv d"
    and "create_check sha ctx now ids ctl key eligible allow tables d = Inr ((v, False), d')"
  shows "\<exists>orders. orders \<noteq> []
     \<and> set orders = {x \<in> set (restaurant_orders d). ro_tenant_id x = tenant_id ctx
          \<and> (\<exists>s \<in> set (diner_sessions d). ds_tenant_id s = tenant_id ctx \<and> ds_id s \<in> set ids
               \<and> ds_id s = ro_diner_session_id x)
          \<and> ro_status x = ''ACCEPTED'' \<and> \<not> order_allocated d x}
     \<and> map (\<lambda>a. (al_restaurant_order_id a, al_accepted_payable_amount a))
         (filter (live (cpr_id v)) (check_allocations d'))
       = map (\<lambda>x. (ro_id x, ro_payable_total x)) orders
     \<and> cpr_status v = CHK_OPEN \<and> cpr_version v = 1 \<and> cpr_gratuity_total v = 0
     \<and> cpr_consumption_total v = sum_by ro_payable_total orders
     \<and> cpr_liability_total v = sum_by ro_payable_total orders"
  using assms(2)
proof (cases rule: create_replays_or_adds)
  case (1 sessions locked convs orders diners check d4)
  have locked: "locked = order_by ds_id (filter (\<lambda>s. ds_tenant_id s = tenant_id ctx
      \<and> ds_id s \<in> set (sorted_set ids)) (diner_sessions d))" "locked \<noteq> []"
    using lock_diners_in[OF 1(1)] by auto
  have "\<forall>s \<in> set locked. ds_tenant_id s = tenant_id ctx" by (simp add: locked(1))
  then have tenant: "ds_tenant_id (hd locked) = tenant_id ctx" using hd_in_set[OF locked(2)] by blast
  have orders: "orders = order_by ro_id (filter (\<lambda>x. ro_tenant_id x = tenant_id ctx
      \<and> ro_diner_session_id x \<in> set (map ds_id locked) \<and> ro_status x = ''ACCEPTED''
      \<and> \<not> order_allocated d x) (restaurant_orders d))"
    using 1(2) tenant by (auto elim: eligible_ordersD)
  have fresh: "chk_id check \<notin> chk_id ` set (restaurant_checks d)"
    by (simp add: 1(6) created_check_def next_id_fresh)
  have "al_check_id ` set (check_allocations d) \<subseteq> chk_id ` set (restaurant_checks d)"
    using assms(1) by (simp add: check_inv_def check_refs_ok_def)
  with fresh have none: "filter (live (chk_id check)) (check_allocations d) = []"
    unfolding filter_empty_conv live_def by (metis image_subset_iff)
  have added: "map (\<lambda>a. (al_restaurant_order_id a, al_accepted_payable_amount a))
      (filter (live (chk_id check)) (new_rows (allocation_row ctx now check) j orders))
      = map (\<lambda>x. (ro_id x, ro_payable_total x)) orders" for j
    by (induction orders arbitrary: j) (auto simp: live_def allocation_row_def)
  have allocations: "check_allocations d' = check_allocations d @
      new_rows (allocation_row ctx now check) (next_id al_id (check_allocations d)) orders"
    by (simp add: 1(7,8)) (simp add: claim_orders_def insert_rows_def)
  have checks: "restaurant_checks d' = restaurant_checks d
      @ [set_fingerprint (next_fingerprint sha check None 0 d4) check]"
    using modify_absent[OF fresh] by (simp add: 1(8) write_version_checks) (simp add: 1(7) modify_def)
  from 1(10) obtain c where c: "c \<in> set (restaurant_checks d')" "chk_id c = chk_id check"
    "v = check_view d' c None" by (auto elim: get_check_Inr)
  with fresh have "c = set_fingerprint (next_fingerprint sha check None 0 d4) check"
    unfolding checks by (auto simp: image_iff)
  with c have v: "cpr_id v = chk_id check" "cpr_status v = CHK_OPEN" "cpr_version v = 1"
    "cpr_gratuity_total v = 0" "cpr_consumption_total v = sum_by ro_payable_total orders"
    "cpr_liability_total v = sum_by ro_payable_total orders"
    by (simp_all add: check_view_def Let_def 1(6) created_check_def)
  have "set orders = {x \<in> set (restaurant_orders d). ro_tenant_id x = tenant_id ctx
          \<and> (\<exists>s \<in> set (diner_sessions d). ds_tenant_id s = tenant_id ctx \<and> ds_id s \<in> set ids
               \<and> ds_id s = ro_diner_session_id x)
          \<and> ro_status x = ''ACCEPTED'' \<and> \<not> order_allocated d x}"
    unfolding orders set_order_by set_filter locked(1) set_map by (auto simp: image_iff)
  with 1(3) v none added show ?thesis
    by (intro exI[of _ orders]) (simp add: allocations)
qed


lemma ordering_blocked_by_member:
  assumes "m \<in> set (check_members d)" "cm_tenant_id m = t" "cm_diner_session_id m = s"
    "cm_active_slot m = Some 1"
  shows "ensure_ordering_allowed d t s = Inl OrderingBlockedError"
proof -
  have "List.find (\<lambda>m. cm_tenant_id m = t \<and> cm_diner_session_id m = s \<and> cm_active_slot m = Some 1)
      (check_members d) \<noteq> None"
    using assms by (auto simp: find_eq_None_iff)
  then show ?thesis by (auto simp: ensure_ordering_allowed_def split: option.splits)
qed

lemma view_members:
  "s \<in> set (cpr_member_ids (check_view d c x)) \<longleftrightarrow>
     (\<exists>m \<in> set (check_members d). cm_check_id m = chk_id c \<and> cm_active_slot m = Some 1
        \<and> cm_diner_session_id m = s)"
  by (auto simp: check_view_def active_members_def members_of_check_def Let_def)

text \<open>
  From the moment a check is created, and for as long as they are its members, its members cannot
  order: the ordering guard refuses each of them.
\<close>

theorem created_check_blocks_ordering:
  assumes "check_inv d"
    and "create_check sha ctx now ids ctl key eligible allow tables d = Inr ((v, False), d')"
  shows "cpr_member_ids v \<noteq> [] \<and>
    (\<forall>s \<in> set (cpr_member_ids v). ensure_ordering_allowed d' (tenant_id ctx) s = Inl OrderingBlockedError)"
  using assms(2)
proof (cases rule: create_replays_or_adds)
  case (1 sessions locked convs orders diners check d4)
  let ?rel = "\<lambda>s. if ctl = Some (ds_id s) then REL_CONTROLLER else REL_INCLUDED"
  have members: "check_members d' = insert_rows cm_id (member_row ctx now check ?rel) diners (check_members d)"
    by (simp add: 1(7,8)) (simp add: include_diners_def)
  from 1(10) obtain c where c: "chk_id c = chk_id check" "v = check_view d' c None"
    by (auto elim: get_check_Inr)
  have tenant: "chk_tenant_id check = tenant_id ctx" by (simp add: 1(6) created_check_def)
  have fresh: "chk_id check \<notin> chk_id ` set (restaurant_checks d)"
    by (simp add: 1(6) created_check_def next_id_fresh)
  have refs: "cm_check_id ` set (check_members d) \<subseteq> chk_id ` set (restaurant_checks d)"
    using assms(1) by (simp add: check_inv_def check_refs_ok_def)
  from 1(5) have "hd diners \<in> set diners" by simp
  then obtain j where "member_row ctx now check ?rel j (hd diners) \<in> set (check_members d')"
    using new_rows_has[of "hd diners" diners "next_id cm_id (check_members d)" "member_row ctx now check ?rel"]
    by (auto simp: members insert_rows_def)
  then have "ds_id (hd diners) \<in> set (cpr_member_ids v)"
    unfolding c view_members by (intro bexI[of _ "member_row ctx now check ?rel j (hd diners)"]) (simp_all add: c)
  moreover have "ensure_ordering_allowed d' (tenant_id ctx) s = Inl OrderingBlockedError"
    if s: "s \<in> set (cpr_member_ids v)" for s
  proof -
    from s obtain m where m: "m \<in> set (check_members d')" "cm_check_id m = chk_id check"
      "cm_active_slot m = Some 1" "cm_diner_session_id m = s"
      unfolding c view_members by (auto simp: c)
    have "m \<notin> set (check_members d)"
      using m(2) fresh refs by (metis image_eqI subset_eq)
    with m(1) have "m \<in> set (new_rows (member_row ctx now check ?rel)
        (next_id cm_id (check_members d)) diners)"
      by (simp add: members insert_rows_def)
    then have "cm_tenant_id m = tenant_id ctx"
      using new_rows_in[of m "member_row ctx now check ?rel"] tenant by fastforce
    with m show ?thesis by (intro ordering_blocked_by_member[of m]) auto
  qed
  ultimately show ?thesis by auto
qed


lemma revised_row:
  assumes "check_inv d" "c \<in> set (restaurant_checks d)" "chk_id c' = chk_id c"
    and "restaurant_checks e = restaurant_checks d"
    and "x \<in> set (restaurant_checks (revised sha ctx now c' g y key op request e))" "chk_id x = chk_id c"
  shows "x = set_fingerprint (next_fingerprint sha c' g y e) c'"
proof -
  have dist: "distinct (map chk_id (restaurant_checks d))"
    using assms(1) by (simp add: check_inv_def check_keys_ok_def)
  show ?thesis
    using assms(5,6) modify_const_in[OF dist assms(2), of "chk_id c" "set_fingerprint (next_fingerprint sha c' g y e) c'"]
      assms(3) unfolding revised_checks assms(4) by simp
qed

text \<open>
  The gratuity is the percentage of the consumption, or the fixed amount, to within half a cent: it is
  a whole number of cents, not negative, at most half a cent away from the exact value, and the liability
  becomes the unchanged consumption plus that gratuity.
\<close>

theorem gratuity_within_half_cent:
  assumes "check_inv d"
    and "update_gratuity sha ctx now i version t (PyDecimal x) key d = Inr ((v, False), d')"
  shows "\<exists>c \<in> set (restaurant_checks d). chk_id c = i \<and> chk_status c = CHK_OPEN
     \<and> \<bar>cpr_gratuity_total v
          - (if t = ''PERCENTAGE'' then chk_consumption_total c * x / 100 else x)\<bar> \<le> 1 / 200
     \<and> 0 \<le> cpr_gratuity_total v \<and> (\<exists>n. cpr_gratuity_total v = of_int n / 100)
     \<and> cpr_consumption_total v = chk_consumption_total c
     \<and> cpr_liability_total v = chk_consumption_total c + cpr_gratuity_total v"
proof -
  from assms(2) have "execute_check sha ctx now key (UpdateGratuity i version t (PyDecimal x)) d
      = Inr ((v, False), d')" by simp
  then show ?thesis
  proof (cases rule: execute_success)
    case (new operation request check d1)
    from new(4) obtain g where g: "parse_gratuity_type t = Some g" "0 \<le> x"
      "update_gratuity_run sha ctx now i version g x d = Inr (check, d1)"
      by (auto simp: bind_result_Inr_iff gratuity_input_def split: if_splits option.splits)
    from g(3) show ?thesis
    proof (cases rule: update_gratuity_success)
      case (1 c amount)
      note c = locked_check_Inr[OF 1(1)]
      let ?exact = "if g = PERCENTAGE then chk_consumption_total c * x / 100 else x"
      have exact: "?exact = (if t = ''PERCENTAGE'' then chk_consumption_total c * x / 100 else x)"
        using g(1) by (auto simp: parse_gratuity_type_def split: if_splits)
      from new(7) obtain r where r: "r \<in> set (restaurant_checks d')" "chk_id r = chk_id check"
        "v = check_view d' r None" by (auto elim: get_check_Inr)
      have "r = set_fingerprint (next_fingerprint sha check (Some g) x
          (d\<lparr>check_gratuities := check_gratuities d @ [gratuity_row d ctx now check g x amount]\<rparr>)) check"
        by (rule revised_row[OF assms(1) conjunct1[OF c], of check
              "d\<lparr>check_gratuities := check_gratuities d @ [gratuity_row d ctx now check g x amount]\<rparr>"
              r sha ctx now "Some g" x key operation request])
          (use r new(5) 1(4,5) in \<open>simp_all add: revised_def\<close>)
      with r(3) 1(4) have v: "cpr_gratuity_total v = amount"
        "cpr_consumption_total v = chk_consumption_total c"
        "cpr_liability_total v = chk_consumption_total c + amount"
        by (simp_all add: check_view_def Let_def)
      from quantize_SomeD[OF 1(3)[unfolded gratuity_amount_def]]
      have amount: "amount = of_int (round_half_down (?exact * 100)) / 100" by simp
      have "0 \<le> chk_consumption_total c"
        using check_inv_rows(5)[OF assms(1) conjunct1[OF c]] by (simp add: restaurant_check_ok_def)
      then have "0 \<le> round_half_down (?exact * 100)"
        using g(2) by (intro round_half_down_nonneg) auto
      then have nonneg: "0 \<le> amount" by (simp add: amount)
      have near: "\<bar>amount - ?exact\<bar> \<le> 1 / 200"
        using round_half_down_error[of "?exact * 100"] unfolding amount by (simp add: abs_le_iff field_simps)
      show ?thesis
        unfolding v
        by (rule bexI[OF _ conjunct1[OF c]]) (use c near[unfolded exact] nonneg amount in blast)
    qed
  qed simp
qed

text \<open>
  A check freezes only when it is complete: every accepted order of its active members that no other
  check owns is owned by it. Freezing changes neither the liability nor the version.
\<close>

theorem freeze_only_complete:
  assumes "check_inv d" and "freeze_check sha ctx now i version key d = Inr ((v, False), d')"
  shows "\<exists>c \<in> set (restaurant_checks d). chk_id c = i \<and> chk_status c = CHK_OPEN
     \<and> cpr_status v = CHK_FROZEN \<and> cpr_version v = chk_version c
     \<and> cpr_liability_total v = chk_liability_total c
     \<and> (\<forall>m \<in> set (active_members d i). \<forall>x \<in> set (restaurant_orders d).
          ro_tenant_id x = chk_tenant_id c \<and> ro_diner_session_id x = cm_diner_session_id m
          \<and> ro_status x = ''ACCEPTED'' \<and> \<not> owned_elsewhere d c x
          \<longrightarrow> ro_id x \<in> al_restaurant_order_id ` set (owned_allocations d i))"
proof -
  from assms(2) have "execute_check sha ctx now key (FreezeCheck i version) d = Inr ((v, False), d')" by simp
  then show ?thesis
  proof (cases rule: execute_success)
    case (new operation request check d1)
    from new(4) have "freeze_check_run ctx now i version d = Inr (check, d1)" by simp
    then show ?thesis
    proof (cases rule: freeze_success)
      case (1 c sessions diners convs)
      note c = locked_check_Inr[OF 1(1)]
      have dist: "distinct (map chk_id (restaurant_checks d))"
        using assms(1) by (simp add: check_inv_def check_keys_ok_def)
      have id: "chk_id check = chk_id c" by (simp add: 1(6) frozen_check_def)
      from new(7) obtain r where r: "r \<in> set (restaurant_checks d')" "chk_id r = chk_id check"
        "v = check_view d' r None" by (auto elim: get_check_Inr)
      have "restaurant_checks d' = modify chk_id (chk_id c) (\<lambda>_. check) (restaurant_checks d)"
        by (simp add: new(5) 1(7)) (simp add: replace_check_def id)
      with r id have "r = check"
        using modify_const_in[OF dist conjunct1[OF c], of "chk_id c" check r] by simp
      with r(3) have v: "cpr_status v = CHK_FROZEN" "cpr_version v = chk_version c"
        "cpr_liability_total v = chk_liability_total c"
        by (simp_all add: check_view_def Let_def 1(6) frozen_check_def)
      have complete: "ro_id x \<in> al_restaurant_order_id ` set (owned_allocations d i)"
        if x: "m \<in> set (active_members d i)" "x \<in> set (restaurant_orders d)"
          "ro_tenant_id x = chk_tenant_id c" "ro_diner_session_id x = cm_diner_session_id m"
          "ro_status x = ''ACCEPTED''" "\<not> owned_elsewhere d c x" for m x
      proof -
        have "ro_id x \<in> set (map al_restaurant_order_id (owned_allocations d (chk_id c)))"
          using 1(5) x c unfolding verify_complete_def Let_def
          by (auto split: if_splits)
        then show ?thesis using c by simp
      qed
      show ?thesis
        by (rule bexI[OF _ conjunct1[OF c]]) (use c v complete in auto)
    qed
  qed simp
qed


text \<open>
  Cancelling gives everything back: the check ends CANCELLED with zero totals and no active member,
  every order it owned is free for another check, and no order of another check is touched.
\<close>

theorem cancel_releases_everything:
  assumes "check_inv d" and "cancel_check sha ctx now i version key reason d = Inr ((v, False), d')"
  shows "cpr_status v = CHK_CANCELLED \<and> cpr_liability_total v = 0 \<and> cpr_consumption_total v = 0
     \<and> cpr_gratuity_total v = 0 \<and> cpr_member_ids v = [] \<and> owned_allocations d' i = []
     \<and> (\<forall>a. al_check_id a \<noteq> i \<longrightarrow>
          (a \<in> set (check_allocations d') \<longleftrightarrow> a \<in> set (check_allocations d)))"
proof -
  have exec: "execute_check sha ctx now key (CancelCheck i version reason) d = Inr ((v, False), d')"
    using assms(2) by simp
  have inv': "check_inv d'"
    using exec
  proof (cases rule: execute_success)
    case (new operation request check d1)
    then show ?thesis using run_keeps[OF assms(1) new(4)] by simp
  qed simp
  from exec show ?thesis
  proof (cases rule: execute_success)
    case (new operation request check d1)
    from new(4) have "cancel_check_run sha ctx now i version reason d = Inr (check, d1)" by simp
    then show ?thesis
    proof (cases rule: cancel_success)
      case (1 c)
      note c = locked_check_Inr[OF 1(1)]
      let ?P = "\<lambda>a. al_check_id a = chk_id c \<and> al_ownership_slot a = Some 1"
      have id: "chk_id check = i" using c by (simp add: 1(4) cancelled_check_def)
      from new(7) obtain r where r: "r \<in> set (restaurant_checks d')" "chk_id r = chk_id check"
        "v = check_view d' r None" by (auto elim: get_check_Inr)
      let ?e = "release_scopes (actor_values ctx) now reason (\<lambda>t. ts_check_id t = chk_id c \<and> ts_active_slot t = Some 1)
       (release_allocations (actor_values ctx) now reason (chk_version check) ?P
       (release_members (actor_values ctx) now reason (chk_version check)
          (\<lambda>m. cm_check_id m = chk_id c \<and> cm_active_slot m = Some 1) d))"
      have row: "r = set_fingerprint (next_fingerprint sha check None 0 ?e) check"
        by (rule revised_row[OF assms(1) conjunct1[OF c], of check ?e r sha ctx now None 0 key operation request])
          (use r new(5) 1(4,5) in \<open>simp_all add: revised_def cancelled_check_def\<close>)
      have totals: "cpr_status v = CHK_CANCELLED" "cpr_liability_total v = 0"
        "cpr_consumption_total v = 0" "cpr_gratuity_total v = 0"
        by (simp_all add: r(3) row check_view_def Let_def) (simp_all add: 1(4) cancelled_check_def)
      have "chk_status r = CHK_CANCELLED" by (simp add: row) (simp add: 1(4) cancelled_check_def)
      with check_inv_rows(3)[OF inv' r(1)] r(2) id have free:
        "\<forall>m \<in> set (check_members d'). cm_check_id m = i \<longrightarrow> cm_active_slot m = None"
        "\<forall>a \<in> set (check_allocations d'). al_check_id a = i \<longrightarrow> al_state a = AL_RELEASED"
        by (auto simp: cancelled_free_def)
      have "cpr_member_ids v = []"
        using free(1) r(2) id
        by (auto simp: r(3) check_view_def Let_def active_members_def members_of_check_def
            filter_empty_conv)
      moreover have "owned_allocations d' i = []"
      proof -
        have "\<not> (al_check_id a = i \<and> al_ownership_slot a = Some 1)" if "a \<in> set (check_allocations d')" for a
          using that free(2) allocation_live_iff[of d' a] inv' by (auto simp: check_inv_def)
        then have "set (owned_allocations d' i) = {}" by (auto simp: owned_allocations_def)
        then show ?thesis by simp
      qed
      moreover have "filter (\<lambda>a. al_check_id a \<noteq> i) (check_allocations d')
          = filter (\<lambda>a. al_check_id a \<noteq> i) (check_allocations d)"
        using c by (simp add: new(5) 1(5), simp add: release_allocations_def, intro filter_modify_where)
          simp
      then have "a \<in> set (check_allocations d') \<longleftrightarrow> a \<in> set (check_allocations d)"
        if "al_check_id a \<noteq> i" for a
        using that mem_by_filter[of "\<lambda>a. al_check_id a \<noteq> i"] by blast
      ultimately show ?thesis using totals by simp
    qed
  qed simp
qed


text \<open>
  Removing a member takes exactly that diner's orders off the check: the consumption and the
  liability fall by their amounts, the gratuity stays, the diner is no longer a member, and the orders
  the check owns are those it owned of the other diners.
\<close>

theorem remove_member_effect:
  assumes "check_inv d"
    and "remove_member sha ctx now i s version key reason d = Inr ((v, False), d')"
  shows "\<exists>c \<in> set (restaurant_checks d). chk_id c = i
     \<and> cpr_consumption_total v = chk_consumption_total c
          - sum_by al_accepted_payable_amount (filter (owned_by_diner c s) (check_allocations d))
     \<and> cpr_gratuity_total v = chk_gratuity_total c
     \<and> cpr_liability_total v = cpr_consumption_total v + cpr_gratuity_total v
     \<and> s \<notin> set (cpr_member_ids v)
     \<and> filter (live i) (check_allocations d')
        = filter (\<lambda>a. live i a \<and> al_source_diner_session_id a \<noteq> s) (check_allocations d)"
proof -
  have "execute_check sha ctx now key (RemoveMember i s version reason) d = Inr ((v, False), d')"
    using assms(2) by simp
  then show ?thesis
  proof (cases rule: execute_success)
    case (new operation request check d1)
    from new(4) have "remove_member_run sha ctx now i s version reason d = Inr (check, d1)" by simp
    then show ?thesis
    proof (cases rule: remove_member_success)
      case (1 c m)
      note c = locked_check_Inr[OF 1(1)]
      let ?f = "release_members (actor_values ctx) now reason (chk_version check) (\<lambda>x. cm_id x = cm_id m) d"
      let ?e = "release_allocations (actor_values ctx) now reason (chk_version check) (owned_by_diner c s) ?f"
      have id: "chk_id check = chk_id c" by (simp add: 1(6))
      from new(7) obtain r where r: "r \<in> set (restaurant_checks d')" "chk_id r = chk_id check"
        "v = check_view d' r None" by (auto elim: get_check_Inr)
      have row: "r = set_fingerprint (next_fingerprint sha check None 0 ?e) check"
        by (rule revised_row[OF assms(1) conjunct1[OF c], of check ?e r sha ctx now None 0 key operation request])
          (use r id new(5) 1(7) in \<open>simp_all add: revised_def\<close>)
      have totals: "cpr_consumption_total v = chk_consumption_total c
          - sum_by al_accepted_payable_amount (filter (owned_by_diner c s) (check_allocations d))"
        "cpr_gratuity_total v = chk_gratuity_total c"
        "cpr_liability_total v = cpr_consumption_total v + cpr_gratuity_total v"
        by (simp_all add: r(3) row check_view_def Let_def 1(6))
      have m: "m \<in> set (check_members d)" "cm_check_id m = chk_id c" "cm_diner_session_id m = s"
        using 1(4) by (auto dest: find_SomeD)
      have gone: "s \<notin> set (cpr_member_ids v)"
      proof
        assume "s \<in> set (cpr_member_ids v)"
        then obtain x where x: "x \<in> set (check_members d')" "cm_check_id x = chk_id c"
          "cm_active_slot x = Some 1" "cm_diner_session_id x = s"
          unfolding r(3) view_members by (auto simp: row id)
        from x(1) obtain y where y: "y \<in> set (check_members d)"
          "x = (if cm_id y = cm_id m then release_member (actor_values ctx) now reason (chk_version check) y else y)"
          by (auto simp: new(5) 1(7) release_members_def set_modify_where)
        with x(3) have "x = y" "cm_id y \<noteq> cm_id m" by (auto split: if_splits)
        moreover have "\<not> check_members_collide y m" if "y \<noteq> m"
          using assms(1) y(1) m(1) that check_rows_apart(1)[of d y m] by (simp add: check_inv_def)
        ultimately show False using x m by (auto simp: check_members_collide_def)
      qed
      have "filter (live i) (modify_where (owned_by_diner c s)
          (release_allocation (actor_values ctx) now reason (chk_version check)) xs)
          = filter (\<lambda>a. live i a \<and> al_source_diner_session_id a \<noteq> s) xs"
        if "set xs \<subseteq> set (check_allocations d)" for xs
        using that allocation_live_iff[of d] assms(1) c
        by (induction xs) (auto simp: modify_where_def live_def owned_by_diner_def check_inv_def)
      then have "filter (live i) (check_allocations d')
          = filter (\<lambda>a. live i a \<and> al_source_diner_session_id a \<noteq> s) (check_allocations d)"
        by (simp add: new(5) 1(7)) (simp add: release_allocations_def)
      with totals gone c show ?thesis by (intro bexI[of _ c]) simp_all
    qed
  qed simp
qed

text \<open>
  Every command of the check service may be sent again: with the same key and the same request it
  changes nothing, whatever has happened to the clock, and returns the check.
\<close>

theorem check_retry_is_noop:
  assumes "execute_check sha ctx now key q d = Inr ((v, b), d')"
  shows "execute_check sha ctx now' key q d' = Inr ((v, True), d')"
  using check_cmd.retry_is_noop[of sha now "(ctx, key, q)" d v b d' now'] assms
  by (simp add: check_run_def)

text \<open>
  A diner once removed from a check can never be added to it again: the released membership row still
  occupies the unique (check, diner) pair, so every later ADD_MEMBER of that diner is refused, at the
  latest by IntegrityError.
\<close>

theorem removed_member_cannot_return:
  assumes "m \<in> set (check_members d)" and "cm_check_id m = i" and "cm_diner_session_id m = s"
    and "command_of ctx key d = None"
  shows "\<exists>e. add_member sha ctx now i s version key d = Inl e"
proof (cases "add_member sha ctx now i s version key d")
  case (Inr w)
  then have "execute_check sha ctx now key (AddMember i s version) d = Inr ((fst (fst w), snd (fst w)), snd w)"
    by simp
  then show ?thesis
  proof (cases rule: execute_success)
    case (replay operation request command)
    with assms(4) show ?thesis by (simp add: command_replay_cases)
  next
    case (new operation request check d1)
    from new(4) have "add_member_run sha ctx now i s version d = Inr (check, d1)" by simp
    then show ?thesis
    proof (cases rule: add_member_success)
      case (1 c sessions diners convs orders)
      have diner: "ds_id (hd diners) = s"
      proof -
        have "hd diners \<in> set diners" using lock_diners_in(2)[OF 1(3)] by simp
        moreover have "\<forall>x \<in> set diners. ds_id x = s" using lock_diners_in(1)[OF 1(3)] by simp
        ultimately show ?thesis by blast
      qed
      have "check_members (snd w) = insert_rows cm_id (member_row ctx now check (\<lambda>_. REL_INCLUDED))
          [hd diners] (check_members d)"
        by (simp add: new(5) 1(9)) (simp add: include_diners_def)
      then have "collision_free check_members_collide (check_members d
          @ [member_row ctx now check (\<lambda>_. REL_INCLUDED) (next_id cm_id (check_members d)) (hd diners)])"
        using new(6) by (simp add: check_constraints_def table_ok_def insert_rows_def)
      then have "\<not> check_members_collide m
          (member_row ctx now check (\<lambda>_. REL_INCLUDED) (next_id cm_id (check_members d)) (hd diners))"
        using assms(1) by (simp add: collision_free_append)
      then show ?thesis
        using assms(2,3) diner locked_check_Inr[OF 1(1)] 1(8) by (auto simp: check_members_collide_def)
    qed
  qed
qed blast

text \<open>
  A check whose last member has been removed is stuck open: it can be neither frozen nor cancelled,
  because locking no diner at all is reported as a cross-location conflict.
\<close>

theorem emptied_check_is_stuck:
  assumes "check_inv d" and "c \<in> set (restaurant_checks d)" and "chk_tenant_id c = tenant_id ctx"
    and "chk_status c = CHK_OPEN" and "active_members d (chk_id c) = []"
    and "actor_type ctx = EMPLOYEE" and "command_of ctx key d = None"
    and "-1 \<notin> ds_id ` set (diner_sessions d)"
  shows "freeze_check sha ctx now (chk_id c) (chk_version c) key d = Inl CrossLocationCheckError
     \<and> cancel_check sha ctx now (chk_id c) (chk_version c) key reason d = Inl CrossLocationCheckError"
proof -
  have locked: "locked_check d (tenant_id ctx) (chk_id c) (chk_version c) = Inr c"
    using locked_check_eq[OF assms(1,2), of "chk_version c"] assms(3,4) by simp
  have auth: "authorize_controller c ctx = Inr ()" using assms(6) by (simp add: authorize_controller_def)
  have "filter (\<lambda>s. ds_tenant_id s = tenant_id ctx \<and> ds_id s = -1) (diner_sessions d) = []"
    using assms(8) by (auto simp: filter_empty_conv image_iff)
  then have "lock_diners d (tenant_id ctx) [] = Inl CrossLocationCheckError"
    by (simp add: lock_diners_def Let_def order_by_def sorted_set_def)
  then have "run_check sha ctx now (FreezeCheck (chk_id c) (chk_version c)) d = Inl CrossLocationCheckError"
    "run_check sha ctx now (CancelCheck (chk_id c) (chk_version c) reason) d = Inl CrossLocationCheckError"
    using locked auth assms(5) by (simp_all add: freeze_check_run_def cancel_check_run_def)
  then show ?thesis
    using unused_key_run[OF assms(7), of "FreezeCheck (chk_id c) (chk_version c)" _ sha now]
      unused_key_run[OF assms(7), of "CancelCheck (chk_id c) (chk_version c) reason" _ sha now]
    by simp
qed


lemma sum_by_zero_member:
  assumes "sum_by g rows = 0" "\<And>r. r \<in> set rows \<Longrightarrow> 0 \<le> g r" "r \<in> set rows"
  shows "g r = 0"
  using assms
proof (induction rows)
  case (Cons a rows)
  have "0 \<le> sum_by g rows" using Cons.prems(2) by (intro sum_by_nonneg) simp
  moreover have "0 \<le> g a" using Cons.prems(2) by simp
  ultimately have "g a = 0" "sum_by g rows = 0" using Cons.prems(1) by auto
  with Cons show ?case by auto
qed simp

text \<open>
  C29: A table closes only when it is paid: every accepted order with an amount is owned by a settled
  allocation of a settled check whose confirmed settlements make up its whole liability, and the
  outstanding balance is zero.
\<close>

theorem table_closes_only_when_paid:
  assumes "check_inv d" and "\<forall>x \<in> set (restaurant_orders d). 0 \<le> ro_payable_total x"
    and "assert_service_can_close d now t s = Inr (balance, d')"
  shows "tb_outstanding_confirmed_balance balance = 0 \<and>
    (\<forall>x \<in> set (accepted_orders_of_session d t s). ro_payable_total x = 0 \<or>
       (\<exists>a \<in> set (check_allocations d). al_restaurant_order_id a = ro_id x \<and> al_tenant_id a = t
          \<and> al_state a = AL_SETTLED \<and> check_settled d t (al_check_id a)))"
proof -
  let ?orders = "accepted_orders_of_session d t s"
  let ?allocs = "allocations_of_session d t s"
  from assms(3) have bal: "table_balance d t s = Inr balance"
    and closed: "tb_outstanding_confirmed_balance balance = 0" "tb_closure_eligible balance"
    by (auto simp: assert_service_can_close_def bind_result_Inr_iff split: if_splits)
  from bal closed(2) have unresolved: "filter (\<lambda>a. al_state a = AL_CLAIMED) ?allocs = []"
    and unreserved: "sum_by ro_payable_total
        (filter (\<lambda>x. ro_id x \<notin> set (map al_restaurant_order_id ?allocs)) ?orders) = 0"
    and safe: "list_all (\<lambda>a. check_settled d t (al_check_id a))
        (filter (\<lambda>a. al_state a = AL_SETTLED) ?allocs)"
    by (auto simp: table_balance_def Let_def split: option.splits)
  have "ro_payable_total x = 0 \<or> (\<exists>a \<in> set (check_allocations d). al_restaurant_order_id a = ro_id x
      \<and> al_tenant_id a = t \<and> al_state a = AL_SETTLED \<and> check_settled d t (al_check_id a))"
    if x: "x \<in> set ?orders" for x
  proof (cases "ro_id x \<in> set (map al_restaurant_order_id ?allocs)")
    case True
    then obtain a where a: "a \<in> set ?allocs" "al_restaurant_order_id a = ro_id x" by auto
    then have in_d: "a \<in> set (check_allocations d)" "al_tenant_id a = t" "al_ownership_slot a = Some 1"
      by (auto simp: allocations_of_session_def)
    have "al_state a \<noteq> AL_CLAIMED" using unresolved a(1) by (auto simp: filter_empty_conv)
    moreover have "al_state a \<noteq> AL_RELEASED"
      using allocation_live_iff[of d a] in_d assms(1) by (simp add: check_inv_def)
    ultimately have "al_state a = AL_SETTLED" by (cases "al_state a") auto
    with a in_d safe show ?thesis by (auto simp: list_all_iff)
  next
    case False
    with sum_by_zero_member[OF unreserved, of x] x assms(2)
    show ?thesis by (auto simp: accepted_orders_of_session_def)
  qed
  with closed(1) show ?thesis by blast
qed

text \<open>
  A diner's session ends only when the diner is covered: every accepted order of the diner is owned
  by a settled allocation, at exactly the order's amount, of a settled check whose confirmed settlements
  make up its whole liability.
\<close>

theorem diner_ends_only_when_covered:
  assumes "assert_diner_can_end d now t s = Inr d'"
    and "x \<in> set (restaurant_orders d)" "ro_tenant_id x = t" "ro_diner_session_id x = s"
      "ro_status x = ''ACCEPTED''"
  shows "\<exists>a \<in> set (check_allocations d). al_restaurant_order_id a = ro_id x \<and> al_state a = AL_SETTLED
     \<and> al_accepted_payable_amount a = ro_payable_total x \<and> check_settled d t (al_check_id a)"
proof -
  let ?orders = "order_by ro_id (filter (\<lambda>o'. ro_tenant_id o' = t \<and> ro_diner_session_id o' = s
      \<and> ro_status o' = ''ACCEPTED'') (restaurant_orders d))"
  let ?allocs = "order_by al_id (filter (\<lambda>a. al_tenant_id a = t
      \<and> al_restaurant_order_id a \<in> set (map ro_id ?orders) \<and> al_ownership_slot a = Some 1)
      (check_allocations d))"
  have x: "x \<in> set ?orders" using assms(2-5) by simp
  then have "?orders \<noteq> []" by (metis empty_iff list.set(1))
  with assms(1) obtain ids where "diner_financially_safe d t ?orders ?allocs ids"
    by (auto simp: assert_diner_can_end_def Let_def split: option.splits if_splits)
  then have covered: "list_all (\<lambda>o'. case List.find (\<lambda>a. al_restaurant_order_id a = ro_id o') (rev ?allocs) of
            None \<Rightarrow> False
          | Some a \<Rightarrow> al_state a = AL_SETTLED \<and> al_accepted_payable_amount a = ro_payable_total o'
              \<and> check_settled d t (al_check_id a)) ?orders"
    by (simp only: diner_financially_safe_def)
  then obtain a where a: "List.find (\<lambda>a. al_restaurant_order_id a = ro_id x) (rev ?allocs) = Some a"
    "al_state a = AL_SETTLED" "al_accepted_payable_amount a = ro_payable_total x"
    "check_settled d t (al_check_id a)"
    using x unfolding list_all_iff by (fastforce split: option.splits)
  from find_SomeD[OF a(1)] have "a \<in> set (check_allocations d)" "al_restaurant_order_id a = ro_id x"
    by auto
  with a show ?thesis by blast
qed

text \<open>
  Service continues only on a settled bill: a continuation decision succeeds only on a settled check
  whose confirmed settlements equal its liability; YES releases every member, NO keeps them all.
\<close>

theorem continuation_needs_settlement:
  assumes "check_inv d"
    and "decide_continuation sha ctx now i version decision key d = Inr ((v, False), d')"
  shows "cpr_status v = CHK_SETTLED \<and> cpr_confirmed_settlement v = cpr_liability_total v
     \<and> cpr_outstanding v = 0
     \<and> (cpr_continuation_decision v = CONT_YES \<and> cpr_member_ids v = []
        \<or> cpr_continuation_decision v = CONT_NO \<and> check_members d' = check_members d)"
proof -
  have "execute_check sha ctx now key (DecideContinuation i version decision) d = Inr ((v, False), d')"
    using assms(2) by simp
  then show ?thesis
  proof (cases rule: execute_success)
    case (new operation request check d1)
    from new(4) obtain answer where answer: "decision_input decision = Inr answer"
      and run: "decide_continuation_run ctx now i version answer d = Inr (check, d1)"
      by (auto simp: bind_result_Inr_iff)
    from run show ?thesis
    proof (cases rule: decide_success)
      case (1 c)
      have c: "c \<in> set (restaurant_checks d)" "chk_id c = i" using 1(1) by (auto dest: find_SomeD)
      have dist: "distinct (map chk_id (restaurant_checks d))"
        using assms(1) by (simp add: check_inv_def check_keys_ok_def)
      have id: "chk_id check = chk_id c" by (simp add: 1(8) decided_check_def)
      from new(7) obtain r where r: "r \<in> set (restaurant_checks d')" "chk_id r = chk_id check"
        "v = check_view d' r None" by (auto elim: get_check_Inr)
      have "restaurant_checks d' = modify chk_id (chk_id c) (\<lambda>_. check) (restaurant_checks d)"
        by (simp add: new(5) 1(9)) (simp add: replace_check_def id)
      with r id have row: "r = check"
        using modify_const_in[OF dist c(1), of "chk_id c" check r] by simp
      have settlements: "settled_amount d' i = settled_amount d i"
        by (simp add: new(5) 1(9) settled_amount_def record_command_def release_scopes_def
            release_members_def replace_check_def)
      have "cpr_status v = CHK_SETTLED" "cpr_liability_total v = chk_liability_total c"
        "cpr_continuation_decision v = answer" "cpr_confirmed_settlement v = settled_amount d' i"
        using 1(4) c(2)
        by (simp_all add: r(3) row check_view_def Let_def) (simp_all add: 1(8) decided_check_def)
      moreover have "cpr_outstanding v = max 0 (cpr_liability_total v - cpr_confirmed_settlement v)"
        by (simp add: r(3) check_view_def Let_def)
      moreover have "cpr_member_ids v = []" if "answer = CONT_YES"
      proof -
        have "cm_active_slot m \<noteq> Some 1" if "m \<in> set (check_members d')" "cm_check_id m = chk_id c" for m
        proof -
          from that(1) \<open>answer = CONT_YES\<close> obtain y where
            "m = (if cm_check_id y = chk_id c \<and> cm_active_slot y = Some 1
              then release_member (actor_values ctx) now ''SERVICE_CONTINUATION_ACCEPTED'' (chk_version c) y else y)"
            by (auto simp: new(5) 1(9) release_members_def set_modify_where)
          with that(2) show ?thesis
            by (cases "cm_check_id y = chk_id c \<and> cm_active_slot y = Some 1") auto
        qed
        then have "s \<notin> set (cpr_member_ids v)" for s
          unfolding r(3) view_members row id by blast
        then show ?thesis by (metis ex_in_conv set_empty)
      qed
      moreover have "check_members d' = check_members d" if "answer \<noteq> CONT_YES"
        using that by (simp add: new(5) 1(9))
      moreover have "answer = CONT_YES \<or> answer = CONT_NO"
        using answer by (auto simp: decision_input_def parse_decision_def split: if_splits option.splits)
      ultimately show ?thesis using 1(6) settlements by auto
    qed
  qed simp
qed

end
