(* ===== verification/Resolver.thy ===== *)
theory Resolver
  imports Checks
begin

text \<open>
  Which configured executor runs an electronic payment
  (\<^verbatim>\<open>app/restaurant/integrations/payments/resolver.py\<close>) and the process-local registry of adapters
  (\<^verbatim>\<open>registry.py\<close>). An executor is known by the ports it implements; what it does when it is called is an
  argument of the payment service's model. The errors are those of the whole payment service; those of
  the check service pass through it as they are.
\<close>

datatype payment_error =
    PaymentNotFoundError | PaymentPermissionError | PaymentIdempotencyConflictError
  | CheckNotPayableError | CheckFinancialIdentityConflictError | PaymentAmountExceedsAvailableError
  | InvalidPaymentAmountError | InvalidCashTenderError | CashSessionRequiredError
  | PaymentCashSessionNotFoundError | InvalidCashSessionError | PaymentStateConflictError
  | PaymentStaleResultError | PaymentConcurrencyConflictError | DuplicateSettlementError
  | UnsupportedExecutionCapabilityError | SensitiveCredentialMisuseError
  | InvalidPaymentCustomerIdentityError | DuplicatePaymentExecutorRegistrationError
  | PaymentExecutorAdapterNotRegisteredError | InvalidPaymentExecutorSelectionError
  | PaymentExecutorConfigurationNotFoundError | PaymentExecutorConfigurationInactiveError
  | UnsupportedPaymentExecutorMethodError | UnsupportedPaymentExecutorCurrencyError
  | UnsupportedPaymentExecutorCapabilityError | NoEligiblePaymentExecutorError
  | MerchantCredentialResolutionError | PaymentDecimalInvalidOperation | PaymentIntegrityError
  | RecoveryUnavailableError
  | PaymentCheckError check_error | PaymentOperationalError int
  | PaymentAttributeError | PaymentAssertionError

section \<open>The registry\<close>

record executor_port =
  ex_executes :: bool
  ex_recovers :: bool

type_synonym executor_registry = "(string \<times> executor_port) list"

definition registry_key :: "string \<Rightarrow> payment_error + string" where
  "registry_key adapter_kind =
     (if strip adapter_kind = [] then Inl PaymentExecutorAdapterNotRegisteredError
      else Inr (strip adapter_kind))"

definition registry_register ::
  "executor_registry \<Rightarrow> string \<Rightarrow> executor_port \<Rightarrow> payment_error + executor_registry"
where
  "registry_register registry adapter_kind executor =
     bind_result (registry_key adapter_kind) (\<lambda>key.
       if map_of registry key \<noteq> None then Inl DuplicatePaymentExecutorRegistrationError
       else Inr (registry @ [(key, executor)]))"

definition registry_resolve :: "executor_registry \<Rightarrow> string \<Rightarrow> payment_error + executor_port" where
  "registry_resolve registry adapter_kind =
     bind_result (registry_key adapter_kind) (\<lambda>key.
       case map_of registry key of
         None \<Rightarrow> Inl PaymentExecutorAdapterNotRegisteredError
       | Some executor \<Rightarrow> Inr executor)"

section \<open>The resolver\<close>

text \<open>The rows of a trusted restaurant scope: a tenant, an organization and a location.\<close>

type_synonym scope = "int \<times> int \<times> int"

definition config_in_scope :: "scope \<Rightarrow> executor_configuration \<Rightarrow> bool" where
  "config_in_scope sc c \<longleftrightarrow> (ec_tenant_id c, ec_organization_id c, ec_location_id c) = sc"

definition capability_of :: "scope \<Rightarrow> executor_configuration \<Rightarrow> executor_capability \<Rightarrow> bool" where
  "capability_of sc c p \<longleftrightarrow> ep_executor_configuration_id p = ec_id c
     \<and> (ep_tenant_id p, ep_organization_id p, ep_location_id p) = sc"

definition resolved ::
  "executor_registry \<Rightarrow> executor_configuration \<Rightarrow> payment_error + (executor_configuration \<times> executor_port)"
where
  "resolved registry c =
     bind_result (registry_resolve registry (ec_adapter_kind c)) (\<lambda>executor. Inr (c, executor))"

definition resolve_explicit_configuration ::
  "db \<Rightarrow> scope \<Rightarrow> string \<Rightarrow> payment_method \<Rightarrow> string \<Rightarrow> payment_error + executor_configuration"
where
  "resolve_explicit_configuration d sc executor_key method currency =
     (case List.find (\<lambda>c. config_in_scope sc c \<and> ec_executor_key c = executor_key)
             (executor_configurations d) of
        None \<Rightarrow> Inl PaymentExecutorConfigurationNotFoundError
      | Some c \<Rightarrow>
          (let methods = filter (\<lambda>p. capability_of sc c p \<and> ep_method_category p = method)
                 (executor_capabilities d)
           in if ec_status c \<noteq> ''ACTIVE'' then Inl PaymentExecutorConfigurationInactiveError
              else if methods = [] then Inl UnsupportedPaymentExecutorMethodError
              else if \<not> list_ex (\<lambda>p. ep_currency p = currency) methods
              then Inl UnsupportedPaymentExecutorCurrencyError
              else Inr c))"

text \<open>The join of configurations and capabilities, ordered by priority and then by key.\<close>

definition available_configurations ::
  "db \<Rightarrow> scope \<Rightarrow> payment_method \<Rightarrow> string \<Rightarrow> executor_configuration list"
where
  "available_configurations d sc method currency =
     order_by ec_selection_priority (order_by ec_id (concat (map (\<lambda>c.
         map (\<lambda>_. c) (filter (\<lambda>p. capability_of sc c p \<and> ep_method_category p = method
                                \<and> ep_currency p = currency) (executor_capabilities d)))
       (filter (\<lambda>c. config_in_scope sc c \<and> ec_status c = ''ACTIVE'') (executor_configurations d)))))"

definition resolve_auto_configuration ::
  "db \<Rightarrow> scope \<Rightarrow> payment_method \<Rightarrow> string \<Rightarrow> payment_error + executor_configuration"
where
  "resolve_auto_configuration d sc method currency =
     (case available_configurations d sc method currency of
        [] \<Rightarrow> Inl NoEligiblePaymentExecutorError
      | c # _ \<Rightarrow> Inr c)"

definition resolve ::
  "executor_registry \<Rightarrow> db \<Rightarrow> scope \<Rightarrow> payment_method \<Rightarrow> string \<Rightarrow> string \<Rightarrow> string option
   \<Rightarrow> payment_error + (executor_configuration \<times> executor_port)"
where
  "resolve registry d sc method currency selection_mode executor_key =
     (let currency = upper (strip currency)
      in if method = CASH then Inl UnsupportedPaymentExecutorMethodError
         else if selection_mode = ''EXPLICIT''
         then (case executor_key of
                 None \<Rightarrow> Inl InvalidPaymentExecutorSelectionError
               | Some k \<Rightarrow>
                   if strip k = [] then Inl InvalidPaymentExecutorSelectionError
                   else bind_result (resolve_explicit_configuration d sc (strip k) method currency)
                          (resolved registry))
         else if selection_mode = ''AUTO''
         then (if executor_key \<noteq> None then Inl InvalidPaymentExecutorSelectionError
               else bind_result (resolve_auto_configuration d sc method currency) (resolved registry))
         else Inl InvalidPaymentExecutorSelectionError)"

definition resolve_historical ::
  "executor_registry \<Rightarrow> db \<Rightarrow> scope \<Rightarrow> int \<Rightarrow> payment_error + (executor_configuration \<times> executor_port)"
where
  "resolve_historical registry d sc i =
     (case List.find (\<lambda>c. ec_id c = i \<and> config_in_scope sc c) (executor_configurations d) of
        None \<Rightarrow> Inl PaymentExecutorConfigurationNotFoundError
      | Some c \<Rightarrow> resolved registry c)"

definition resolve_for_execution ::
  "executor_registry \<Rightarrow> db \<Rightarrow> scope \<Rightarrow> int \<Rightarrow> payment_method \<Rightarrow> string
   \<Rightarrow> payment_error + (executor_configuration \<times> executor_port)"
where
  "resolve_for_execution registry d sc i method currency =
     (case List.find (\<lambda>c. ec_id c = i \<and> config_in_scope sc c) (executor_configurations d) of
        None \<Rightarrow> Inl PaymentExecutorConfigurationNotFoundError
      | Some c \<Rightarrow>
          if ec_status c \<noteq> ''ACTIVE'' then Inl PaymentExecutorConfigurationInactiveError
          else if \<not> list_ex (\<lambda>p. capability_of sc c p \<and> ep_method_category p = method
                            \<and> ep_currency p = upper (strip currency)) (executor_capabilities d)
          then Inl UnsupportedPaymentExecutorCapabilityError
          else resolved registry c)"

definition list_available ::
  "executor_registry \<Rightarrow> db \<Rightarrow> scope \<Rightarrow> payment_method \<Rightarrow> string
   \<Rightarrow> payment_error + (executor_configuration \<times> executor_port) list"
where
  "list_available registry d sc method currency =
     (if method = CASH then Inr []
      else traverse (resolved registry)
             (filter (\<lambda>c. resolved registry c \<noteq> Inl PaymentExecutorAdapterNotRegisteredError)
               (available_configurations d sc method (upper (strip currency)))))"

section \<open>The choice of an executor is sound\<close>

lemma resolved_Inr:
  "resolved registry c = Inr (c', e) \<longleftrightarrow> c' = c \<and> registry_resolve registry (ec_adapter_kind c) = Inr e"
  by (auto simp: resolved_def bind_result_Inr_iff)

lemma available_iff:
  "c \<in> set (available_configurations d sc method currency) \<longleftrightarrow>
     c \<in> set (executor_configurations d) \<and> config_in_scope sc c \<and> ec_status c = ''ACTIVE''
     \<and> (\<exists>p \<in> set (executor_capabilities d). capability_of sc c p \<and> ep_method_category p = method
          \<and> ep_currency p = currency)"
  by (auto simp: available_configurations_def)

lemma hd_order_by:
  assumes "order_by k xs = x # ys" "y \<in> set xs"
  shows "k x \<le> k y"
proof -
  have "sorted (map k (x # ys))" using assms(1) by (metis order_by_def sorted_sort_key)
  moreover have "y \<in> set (x # ys)" using assms by (metis set_order_by)
  ultimately show ?thesis by auto
qed

text \<open>
  A payment never leaves its scope: whatever the selection mode, the executor that is resolved is an
  active configuration of the same tenant, organization and location that declares the method and the
  currency, and its adapter is registered; in automatic mode no eligible configuration has a smaller
  priority.
\<close>

theorem resolved_executor_sound:
  assumes "resolve registry d sc method currency mode key = Inr (c, e)"
  shows "c \<in> set (available_configurations d sc method (upper (strip currency)))
     \<and> method \<noteq> CASH \<and> config_in_scope sc c \<and> ec_status c = ''ACTIVE''
     \<and> registry_resolve registry (ec_adapter_kind c) = Inr e
     \<and> (mode = ''AUTO'' \<longrightarrow> (\<forall>x \<in> set (available_configurations d sc method (upper (strip currency))).
          ec_selection_priority c \<le> ec_selection_priority x))"
proof -
  let ?cur = "upper (strip currency)"
  let ?rows = "concat (map (\<lambda>c. map (\<lambda>_. c) (filter (\<lambda>p. capability_of sc c p
      \<and> ep_method_category p = method \<and> ep_currency p = ?cur) (executor_capabilities d)))
    (filter (\<lambda>c. config_in_scope sc c \<and> ec_status c = ''ACTIVE'') (executor_configurations d)))"
  have cash: "method \<noteq> CASH" using assms by (auto simp: resolve_def Let_def)
  from assms cash consider
    (explicit) k where "mode = ''EXPLICIT''"
      "resolve_explicit_configuration d sc (strip k) method ?cur = Inr c"
      "registry_resolve registry (ec_adapter_kind c) = Inr e"
  | (auto) "mode = ''AUTO''" "resolve_auto_configuration d sc method ?cur = Inr c"
      "registry_resolve registry (ec_adapter_kind c) = Inr e"
    by (auto simp: resolve_def Let_def bind_result_Inr_iff resolved_Inr split: option.splits if_splits)
  then show ?thesis
  proof cases
    case explicit
    then have "c \<in> set (available_configurations d sc method ?cur)"
      unfolding available_iff resolve_explicit_configuration_def Let_def
      by (auto dest: find_SomeD simp: list_ex_iff split: option.splits if_splits)
    with explicit cash show ?thesis by (simp add: available_iff)
  next
    case auto
    then obtain rest where rows: "available_configurations d sc method ?cur = c # rest"
      by (auto simp: resolve_auto_configuration_def split: list.splits)
    have sorted_rows: "available_configurations d sc method ?cur
        = order_by ec_selection_priority (order_by ec_id ?rows)"
      by (simp add: available_configurations_def)
    have "ec_selection_priority c \<le> ec_selection_priority x"
      if "x \<in> set (available_configurations d sc method ?cur)" for x
    proof (rule hd_order_by[where k = ec_selection_priority and xs = "order_by ec_id ?rows"])
      show "order_by ec_selection_priority (order_by ec_id ?rows) = c # rest"
        using rows unfolding sorted_rows by simp
      show "x \<in> set (order_by ec_id ?rows)"
        using that unfolding sorted_rows by simp
    qed
    moreover have "c \<in> set (available_configurations d sc method ?cur)" using rows by simp
    ultimately show ?thesis using auto cash by (simp add: available_iff)
  qed
qed

end
