(* ===== verification/Payments.thy ===== *)
theory Payments
  imports Resolver CashManagement
begin

text \<open>
  The payment service (\<^verbatim>\<open>app/restaurant/payments/service.py\<close>): a payment reserves part of the liability
  of a frozen check, is executed by a provider under a claim, and settles the check; an uncertain result
  is recovered, a failed one retried, and the last settlement closes the check.

  Each transaction locks the row of the check or of the payment it works on and is modelled on the one
  database \<^theory_text>\<open>d\<close> it sees under its locks; it commits when the tables are within their constraints, and
  raises IntegrityError otherwise. An electronic payment is a sequence of such transactions with the
  provider's call between them, and other transactions of the system may come in between; what they do
  is an argument of the model. Foreign keys and column widths are not modelled.
\<close>

section \<open>Constraints of the payment tables\<close>

definition same_text :: "string option \<Rightarrow> string option \<Rightarrow> bool" where
  "same_text a b \<longleftrightarrow> a \<noteq> None \<and> a = b"

definition payer_ok :: "restaurant_payment \<Rightarrow> bool" where
  "payer_ok p \<longleftrightarrow>
     pay_payer_type p = PAYER_DINER \<and> pay_payer_diner_session_id p \<noteq> None \<or>
     pay_payer_type p = PAYER_OTHER \<and> pay_payer_diner_session_id p = None
       \<and> pay_payer_reference p \<noteq> None"

definition claim_ok :: "restaurant_payment \<Rightarrow> bool" where
  "claim_ok p \<longleftrightarrow>
     pay_state p = PAY_IN_PROGRESS \<and> pay_claim_token p \<noteq> None \<and> pay_claim_expires_at p \<noteq> None \<or>
     pay_state p \<noteq> PAY_IN_PROGRESS \<and> pay_claim_token p = None \<and> pay_claim_expires_at p = None"

definition execution_evidence_ok :: "restaurant_payment \<Rightarrow> bool" where
  "execution_evidence_ok p \<longleftrightarrow>
     (case (pay_cash_tendered_amount p, pay_cash_change_due p) of
        (Some tendered, Some change) \<Rightarrow>
          pay_method_category p = CASH \<and> pay_amount p \<le> tendered \<and> change = tendered - pay_amount p
          \<and> pay_executor_key p = None \<and> pay_provider_idempotency_key p = None
      | (None, None) \<Rightarrow>
          pay_method_category p \<noteq> CASH \<and> pay_executor_key p \<noteq> None
          \<and> pay_provider_idempotency_key p \<noteq> None
      | _ \<Rightarrow> False)"

definition restaurant_payment_ok :: "restaurant_payment \<Rightarrow> bool" where
  "restaurant_payment_ok p \<longleftrightarrow>
     0 < pay_amount p \<and> 1 \<le> pay_check_version p \<and> 1 \<le> pay_request_schema_version p
     \<and> 0 \<le> pay_attempt_count p \<and> payer_ok p \<and> claim_ok p \<and> execution_evidence_ok p"

definition restaurant_payments_collide :: "restaurant_payment \<Rightarrow> restaurant_payment \<Rightarrow> bool" where
  "restaurant_payments_collide a b \<longleftrightarrow>
     pay_tenant_id a = pay_tenant_id b \<and> pay_actor_scope a = pay_actor_scope b
       \<and> pay_idempotency_key a = pay_idempotency_key b \<or>
     same_slot (pay_executor_configuration_id a) (pay_executor_configuration_id b)
       \<and> same_text (pay_external_reference a) (pay_external_reference b)"

definition payment_attempt_ok :: "payment_attempt \<Rightarrow> bool" where
  "payment_attempt_ok a \<longleftrightarrow>
     att_executor_key a \<noteq> None \<and>
     (att_result a = RES_IN_PROGRESS \<and> att_completed_at a = None
      \<or> att_result a \<noteq> RES_IN_PROGRESS \<and> att_completed_at a \<noteq> None)"

definition payment_attempts_collide :: "payment_attempt \<Rightarrow> payment_attempt \<Rightarrow> bool" where
  "payment_attempts_collide a b \<longleftrightarrow>
     att_payment_id a = att_payment_id b \<and> att_attempt_sequence a = att_attempt_sequence b \<or>
     att_claim_token a = att_claim_token b"

definition check_settlement_ok :: "check_settlement \<Rightarrow> bool" where
  "check_settlement_ok s \<longleftrightarrow> 0 < st_amount s"

definition check_settlements_collide :: "check_settlement \<Rightarrow> check_settlement \<Rightarrow> bool" where
  "check_settlements_collide a b \<longleftrightarrow> st_payment_id a = st_payment_id b"

definition payment_constraints :: "db \<Rightarrow> bool" where
  "payment_constraints d \<longleftrightarrow>
     table_ok restaurant_payment_ok restaurant_payments_collide (restaurant_payments d) \<and>
     table_ok payment_attempt_ok payment_attempts_collide (payment_attempts d) \<and>
     table_ok check_settlement_ok check_settlements_collide (check_settlements d)"

definition financial_constraints :: "db \<Rightarrow> bool" where
  "financial_constraints d \<longleftrightarrow> payment_constraints d \<and> check_constraints d
     \<and> table_ok cash_movement_ok cash_movements_collide (cash_movements d)"

section \<open>Values\<close>

definition PAYMENT_SCHEMA_VERSION :: int where
  "PAYMENT_SCHEMA_VERSION = 1"

text \<open>Two minutes, in microseconds.\<close>

definition CLAIM_LEASE :: int where
  "CLAIM_LEASE = 2 * 60 * 1000000"

definition RESERVING_STATES :: "payment_state set" where
  "RESERVING_STATES = {PAY_RESERVED, PAY_IN_PROGRESS, PAY_UNCERTAIN}"

fun payment_method_value :: "payment_method \<Rightarrow> string" where
  "payment_method_value CASH = ''CASH''"
| "payment_method_value CARD = ''CARD''"
| "payment_method_value TRANSFER = ''TRANSFER''"

definition parse_payment_method :: "string \<Rightarrow> payment_method option" where
  "parse_payment_method s =
     (if s = ''CASH'' then Some CASH else if s = ''CARD'' then Some CARD
      else if s = ''TRANSFER'' then Some TRANSFER else None)"

fun payer_type_value :: "payer_type \<Rightarrow> string" where
  "payer_type_value PAYER_DINER = ''DINER''"
| "payer_type_value PAYER_OTHER = ''OTHER''"

definition parse_payer_type :: "string \<Rightarrow> payer_type option" where
  "parse_payer_type s =
     (if s = ''DINER'' then Some PAYER_DINER else if s = ''OTHER'' then Some PAYER_OTHER else None)"

definition validate_amount :: "pynum \<Rightarrow> payment_error + rat" where
  "validate_amount value =
     (case value of
        PyNonFinite \<Rightarrow> Inl InvalidPaymentAmountError
      | PyOther \<Rightarrow> Inl InvalidPaymentAmountError
      | PyDecimal x \<Rightarrow>
          if x \<le> 0 then Inl InvalidPaymentAmountError
          else (case quantize4 x of
                  None \<Rightarrow> Inl PaymentDecimalInvalidOperation
                | Some q \<Rightarrow> if x \<noteq> q then Inl InvalidPaymentAmountError else Inr x))"

text \<open>\<^verbatim>\<open>value.strip() if value else None\<close>\<close>

definition stripped :: "string option \<Rightarrow> string option" where
  "stripped v = (case v of None \<Rightarrow> None | Some s \<Rightarrow> if s = [] then None else Some (strip s))"

definition translate_payment_operational :: "int \<Rightarrow> payment_error" where
  "translate_payment_operational code =
     (if code = 1205 \<or> code = 1213 then PaymentConcurrencyConflictError
      else PaymentOperationalError code)"

text \<open>\<^verbatim>\<open>code\<close> of the exceptions that end in a stored result.\<close>

fun error_code :: "payment_error \<Rightarrow> string" where
  "error_code PaymentExecutorAdapterNotRegisteredError = ''PAYMENT_EXECUTOR_ADAPTER_NOT_REGISTERED''"
| "error_code PaymentExecutorConfigurationNotFoundError = ''PAYMENT_EXECUTOR_CONFIGURATION_NOT_FOUND''"
| "error_code PaymentExecutorConfigurationInactiveError = ''PAYMENT_EXECUTOR_CONFIGURATION_INACTIVE''"
| "error_code UnsupportedPaymentExecutorCapabilityError = ''PAYMENT_EXECUTOR_CAPABILITY_UNSUPPORTED''"
| "error_code UnsupportedExecutionCapabilityError = ''PAYMENT_EXECUTION_UNSUPPORTED''"
| "error_code MerchantCredentialResolutionError = ''MERCHANT_CREDENTIAL_RESOLUTION_ERROR''"
| "error_code RecoveryUnavailableError = ''PAYMENT_RECOVERY_UNAVAILABLE''"
| "error_code _ = ''RESTAURANT_PAYMENT_ERROR''"

section \<open>Requests\<close>

text \<open>
  What a client sends. Of the customer's payment source only its presence is read; the customer's
  identity enters as the value of its \<^verbatim>\<open>model_dump(mode='json')\<close>.
\<close>

record payment_request =
  pq_check_id :: int
  pq_location_id :: "int option"
  pq_expected_check_version :: int
  pq_expected_check_fingerprint :: string
  pq_amount :: pynum
  pq_currency :: string
  pq_method_category :: string
  pq_payer_type :: string
  pq_payer_diner_session_id :: "int option"
  pq_payer_reference :: "string option"
  pq_cash_tendered_amount :: "pynum option"
  pq_cash_session_id :: "int option"
  pq_executor_key :: "string option"
  pq_idempotency_key :: string
  pq_selection_mode :: "string option"
  pq_has_customer_source :: bool
  pq_customer_identity :: "json option"

text \<open>The values after normalization.\<close>

record valid_payment =
  vp_amount :: rat
  vp_currency :: string
  vp_method :: payment_method
  vp_payer_type :: payer_type
  vp_payer_reference :: "string option"
  vp_executor_key :: "string option"
  vp_cash_tendered :: "rat option"

definition validate_tender ::
  "execution_context \<Rightarrow> payment_request \<Rightarrow> string option \<Rightarrow> payment_method \<Rightarrow> rat
   \<Rightarrow> payment_error + rat option"
where
  "validate_tender ctx q executor_key method amount =
     (if method = CASH
      then
        if actor_type ctx \<noteq> EMPLOYEE then Inl PaymentPermissionError
        else if executor_key \<noteq> None \<or> pq_has_customer_source q then Inl SensitiveCredentialMisuseError
        else if pq_customer_identity q \<noteq> None then Inl InvalidPaymentCustomerIdentityError
        else (case pq_cash_tendered_amount q of
                None \<Rightarrow> Inl InvalidCashTenderError
              | Some tender \<Rightarrow>
                  bind_result (validate_amount tender) (\<lambda>t.
                    if t < amount then Inl InvalidCashTenderError else Inr (Some t)))
      else if pq_cash_tendered_amount q \<noteq> None then Inl InvalidCashTenderError
      else if pq_selection_mode q = None then Inl InvalidPaymentExecutorSelectionError
      else if pq_customer_identity q = None then Inl InvalidPaymentCustomerIdentityError
      else Inr None)"

definition validate_payment :: "execution_context \<Rightarrow> payment_request \<Rightarrow> payment_error + valid_payment" where
  "validate_payment ctx q =
     bind_result (validate_amount (pq_amount q)) (\<lambda>amount.
     let currency = upper (strip (pq_currency q));
         payer_reference = stripped (pq_payer_reference q);
         executor_key = stripped (pq_executor_key q)
     in if length currency \<noteq> 3 \<or> \<not> is_ascii currency \<or> \<not> is_alpha currency
        then Inl InvalidPaymentAmountError
        else (case parse_payment_method (upper (strip (pq_method_category q))) of
                None \<Rightarrow> Inl UnsupportedExecutionCapabilityError
              | Some method \<Rightarrow>
             (case parse_payer_type (upper (strip (pq_payer_type q))) of
                None \<Rightarrow> Inl PaymentPermissionError
              | Some payer \<Rightarrow>
                  if (payer = PAYER_DINER) \<noteq> (pq_payer_diner_session_id q \<noteq> None)
                  then Inl PaymentPermissionError
                  else if payer = PAYER_OTHER
                       \<and> (case payer_reference of None \<Rightarrow> True | Some r \<Rightarrow> r = [])
                  then Inl PaymentPermissionError
                  else bind_result (validate_tender ctx q executor_key method amount) (\<lambda>tendered.
                    Inr \<lparr>vp_amount = amount, vp_currency = currency, vp_method = method,
                         vp_payer_type = payer, vp_payer_reference = payer_reference,
                         vp_executor_key = executor_key, vp_cash_tendered = tendered\<rparr>))))"

definition payment_request_fingerprint ::
  "(json \<Rightarrow> string) \<Rightarrow> payment_request \<Rightarrow> valid_payment \<Rightarrow> string"
where
  "payment_request_fingerprint sha q v = sha (JObj [
     (''schema_version'', JInt PAYMENT_SCHEMA_VERSION),
     (''check_id'', JInt (pq_check_id q)),
     (''check_version'', JInt (pq_expected_check_version q)),
     (''check_fingerprint'', JStr (pq_expected_check_fingerprint q)),
     (''amount'', JStr (money_str (vp_amount v))),
     (''currency'', JStr (vp_currency v)),
     (''method_category'', JStr (payment_method_value (vp_method v))),
     (''payer'', JObj [
        (''type'', JStr (payer_type_value (vp_payer_type v))),
        (''diner_session_id'', json_opt JInt (pq_payer_diner_session_id q)),
        (''reference'', json_opt JStr (vp_payer_reference v))]),
     (''cash_tendered_amount'', json_opt (JStr \<circ> money_str) (vp_cash_tendered v)),
     (''cash_session_id'', json_opt JInt (pq_cash_session_id q)),
     (''executor_key'', json_opt JStr (vp_executor_key v)),
     (''payment_customer_identity'', json_opt id (pq_customer_identity q))])"

section \<open>Projections\<close>

record payment_attempt_projection =
  atp_sequence :: int
  atp_attempt_type :: attempt_type
  atp_executor_key :: "string option"
  atp_actor :: "actor_type \<times> int option"
  atp_correlation_id :: "string option"
  atp_started_at :: datetime
  atp_external_call_started_at :: "datetime option"
  atp_completed_at :: "datetime option"
  atp_result :: attempt_result
  atp_external_reference :: "string option"
  atp_external_status :: "string option"
  atp_error_code :: "string option"
  atp_error_message :: "string option"

record payment_projection =
  pp_id :: int
  pp_check_id :: int
  pp_check_version :: int
  pp_check_fingerprint :: string
  pp_amount :: rat
  pp_currency :: string
  pp_method_category :: payment_method
  pp_payer :: "payer_type \<times> int option \<times> string option"
  pp_state :: payment_state
  pp_executor_key :: "string option"
  pp_external :: "string option \<times> string option"
  pp_instrument :: "string option \<times> string option \<times> string option"
  pp_cash_tendered_amount :: "rat option"
  pp_cash_change_due :: "rat option"
  pp_terminal_at :: "datetime option"
  pp_attempts :: "payment_attempt_projection list"

record check_settlement_projection =
  csp_check_id :: int
  csp_check_status :: check_status
  csp_check_version :: int
  csp_check_fingerprint :: string
  csp_liability_total :: rat
  csp_currency :: string
  csp_confirmed_settlement :: rat
  csp_reserved_financial_exposure :: rat
  csp_uncertain_exposure :: rat
  csp_available_to_initiate :: rat
  csp_payments :: "payment_projection list"

definition payment_by_key :: "db \<Rightarrow> execution_context \<Rightarrow> string \<Rightarrow> restaurant_payment option" where
  "payment_by_key d ctx idempotency_key = List.find (\<lambda>p. pay_tenant_id p = tenant_id ctx
     \<and> pay_actor_scope p = actor_scope ctx \<and> pay_idempotency_key p = idempotency_key)
     (restaurant_payments d)"

definition attempts_of :: "db \<Rightarrow> restaurant_payment \<Rightarrow> payment_attempt list" where
  "attempts_of d p = order_by att_attempt_sequence (order_by att_id
     (filter (\<lambda>a. att_tenant_id a = pay_tenant_id p \<and> att_payment_id a = pay_id p) (payment_attempts d)))"

definition attempt_view :: "payment_attempt \<Rightarrow> payment_attempt_projection" where
  "attempt_view a = \<lparr>
     atp_sequence = att_attempt_sequence a, atp_attempt_type = att_attempt_type a,
     atp_executor_key = att_executor_key a, atp_actor = (act_type (att_actor a), act_id (att_actor a)),
     atp_correlation_id = att_correlation_id a, atp_started_at = att_started_at a,
     atp_external_call_started_at = att_external_call_started_at a,
     atp_completed_at = att_completed_at a, atp_result = att_result a,
     atp_external_reference = att_external_reference a, atp_external_status = att_external_status a,
     atp_error_code = att_error_code a, atp_error_message = att_error_message a\<rparr>"

definition payment_view :: "db \<Rightarrow> restaurant_payment \<Rightarrow> payment_projection" where
  "payment_view d p = \<lparr>
     pp_id = pay_id p, pp_check_id = pay_check_id p, pp_check_version = pay_check_version p,
     pp_check_fingerprint = pay_check_fingerprint p, pp_amount = pay_amount p,
     pp_currency = pay_currency p, pp_method_category = pay_method_category p,
     pp_payer = (pay_payer_type p, pay_payer_diner_session_id p, pay_payer_reference p),
     pp_state = pay_state p, pp_executor_key = pay_executor_key p,
     pp_external = (pay_external_reference p, pay_external_status p),
     pp_instrument = (pay_instrument_brand p, pay_instrument_last_four p, pay_instrument_display p),
     pp_cash_tendered_amount = pay_cash_tendered_amount p,
     pp_cash_change_due = pay_cash_change_due p, pp_terminal_at = pay_terminal_at p,
     pp_attempts = map attempt_view (attempts_of d p)\<rparr>"

definition get_payment :: "db \<Rightarrow> int \<Rightarrow> int \<Rightarrow> payment_error + payment_projection" where
  "get_payment d tenant payment_id =
     (case List.find (\<lambda>p. pay_id p = payment_id \<and> pay_tenant_id p = tenant) (restaurant_payments d) of
        None \<Rightarrow> Inl PaymentNotFoundError
      | Some p \<Rightarrow> Inr (payment_view d p))"

text \<open>\<^verbatim>\<open>confirmed, reserved, uncertain\<close>\<close>

definition totals :: "db \<Rightarrow> int \<Rightarrow> rat \<times> rat \<times> rat" where
  "totals d check_id =
     (settled_amount d check_id, payment_amount d RESERVING_STATES check_id,
      payment_amount d {PAY_UNCERTAIN} check_id)"

definition get_check_settlement ::
  "db \<Rightarrow> int \<Rightarrow> int \<Rightarrow> int option \<Rightarrow> int option \<Rightarrow> payment_error + check_settlement_projection"
where
  "get_check_settlement d tenant check_id owner_diner location =
     (case List.find (\<lambda>c. chk_id c = check_id \<and> chk_tenant_id c = tenant
                         \<and> (case location of None \<Rightarrow> True | Some l \<Rightarrow> chk_location_id c = l))
             (restaurant_checks d) of
        None \<Rightarrow> Inl (if location \<noteq> None then PaymentNotFoundError else CheckNotPayableError)
      | Some check \<Rightarrow>
          if (case owner_diner of None \<Rightarrow> False
              | Some i \<Rightarrow> List.find (\<lambda>m. cm_check_id m = chk_id check \<and> cm_tenant_id m = tenant
                            \<and> cm_diner_session_id m = i) (check_members d) = None)
          then Inl PaymentNotFoundError
          else
            (case totals d (chk_id check) of (confirmed, reserved, uncertain) \<Rightarrow> Inr \<lparr>
               csp_check_id = chk_id check, csp_check_status = chk_status check,
               csp_check_version = chk_version check,
               csp_check_fingerprint = chk_current_fingerprint check,
               csp_liability_total = chk_liability_total check, csp_currency = chk_currency check,
               csp_confirmed_settlement = confirmed, csp_reserved_financial_exposure = reserved,
               csp_uncertain_exposure = uncertain,
               csp_available_to_initiate = max 0 (chk_liability_total check - confirmed - reserved),
               csp_payments = map (payment_view d) (order_by pay_id (filter (\<lambda>p.
                  pay_check_id p = chk_id check \<and> pay_tenant_id p = tenant) (restaurant_payments d)))\<rparr>))"

definition require_payment_location :: "db \<Rightarrow> int \<Rightarrow> int \<Rightarrow> int option \<Rightarrow> payment_error + int" where
  "require_payment_location d tenant payment_id location =
     (case List.find (\<lambda>p. pay_id p = payment_id \<and> pay_tenant_id p = tenant
                         \<and> (case location of None \<Rightarrow> True | Some l \<Rightarrow> pay_location_id p = l))
             (restaurant_payments d) of
        None \<Rightarrow> Inl PaymentNotFoundError
      | Some p \<Rightarrow> Inr (pay_location_id p))"

section \<open>Reserving\<close>

definition settled_check :: "execution_context \<Rightarrow> datetime \<Rightarrow> restaurant_check \<Rightarrow> restaurant_check" where
  "settled_check ctx now c = c\<lparr>
     chk_status := CHK_SETTLED, chk_settled_at := Some now, chk_continuation_decision := CONT_PENDING,
     chk_settled_by := Some (actor_values ctx)\<rparr>"

definition settle_allocation :: "string \<Rightarrow> datetime \<Rightarrow> check_allocation \<Rightarrow> check_allocation" where
  "settle_allocation reference now a = a\<lparr>
     al_state := AL_SETTLED, al_settled_at := Some now, al_settlement_reference := Some reference\<rparr>"

definition continue_scope :: "check_table_scope \<Rightarrow> check_table_scope" where
  "continue_scope t = t\<lparr>ts_lock_phase := PHASE_CONTINUATION\<rparr>"

definition finalize_full_check ::
  "execution_context \<Rightarrow> datetime \<Rightarrow> restaurant_check \<Rightarrow> string \<Rightarrow> db \<Rightarrow> payment_error + db"
where
  "finalize_full_check ctx now check settlement_reference d =
     (if list_ex (\<lambda>a. al_state a \<noteq> AL_CLAIMED) (owned_allocations d (chk_id check))
      then Inl DuplicateSettlementError
      else Inr ((replace_check (settled_check ctx now check) d)\<lparr>
        check_allocations := modify_where
          (\<lambda>a. al_check_id a = chk_id check \<and> al_ownership_slot a = Some 1)
          (settle_allocation settlement_reference now) (check_allocations d),
        check_table_scopes := modify_where
          (\<lambda>t. ts_check_id t = chk_id check \<and> ts_active_slot t = Some 1)
          continue_scope (check_table_scopes d)\<rparr>))"

definition payment_reference :: "restaurant_payment \<Rightarrow> string" where
  "payment_reference p = ''PAYMENT:'' @ str_int (pay_id p)"

definition settlement_row ::
  "db \<Rightarrow> execution_context \<Rightarrow> datetime \<Rightarrow> restaurant_payment \<Rightarrow> check_settlement"
where
  "settlement_row d ctx now p = \<lparr>
     st_id = next_id st_id (check_settlements d), st_tenant_id = pay_tenant_id p,
     st_organization_id = pay_organization_id p, st_location_id = pay_location_id p,
     st_check_id = pay_check_id p, st_payment_id = pay_id p, st_amount = pay_amount p,
     st_currency = pay_currency p, st_application_actor = actor_values ctx, st_applied_at = now\<rparr>"

definition succeed_payment :: "datetime \<Rightarrow> restaurant_payment \<Rightarrow> restaurant_payment" where
  "succeed_payment now p = p\<lparr>pay_state := PAY_SUCCEEDED, pay_terminal_at := Some now\<rparr>"

text \<open>\<^theory_text>\<open>payment\<close> and \<^theory_text>\<open>check\<close> are the rows as they are in \<^theory_text>\<open>d\<close>.\<close>

definition apply_success ::
  "execution_context \<Rightarrow> datetime \<Rightarrow> restaurant_payment \<Rightarrow> restaurant_check \<Rightarrow> db \<Rightarrow> payment_error + db"
where
  "apply_success ctx now payment check d =
     (case List.find (\<lambda>s. st_payment_id s = pay_id payment) (check_settlements d) of
        Some _ \<Rightarrow> if pay_state payment \<noteq> PAY_SUCCEEDED then Inl DuplicateSettlementError else Inr d
      | None \<Rightarrow>
          let confirmed = settled_amount d (chk_id check);
              d1 = d\<lparr>check_settlements := check_settlements d @ [settlement_row d ctx now payment],
                     restaurant_payments :=
                       modify pay_id (pay_id payment) (succeed_payment now) (restaurant_payments d)\<rparr>
          in if chk_liability_total check < confirmed + pay_amount payment
             then Inl PaymentAmountExceedsAvailableError
             else if confirmed + pay_amount payment = chk_liability_total check
             then if payment_amount d1 RESERVING_STATES (chk_id check) \<noteq> 0
                  then Inl PaymentConcurrencyConflictError
                  else finalize_full_check ctx now check (payment_reference payment) d1
             else Inr d1)"

definition cash_session_for_payment ::
  "db \<Rightarrow> restaurant_check \<Rightarrow> string \<Rightarrow> int option \<Rightarrow> payment_error + cash_session option"
where
  "cash_session_for_payment d check currency cash_session_id =
     (case List.find (\<lambda>l. loc_id l = chk_location_id check \<and> loc_tenant_id l = chk_tenant_id check
             \<and> loc_organization_id l = chk_organization_id check) (locations d) of
        None \<Rightarrow> Inl CheckNotPayableError
      | Some location \<Rightarrow>
          if loc_cash_management_activated_at location = None then Inr None else
     (case cash_session_id of
        None \<Rightarrow> Inl CashSessionRequiredError
      | Some i \<Rightarrow>
     (case List.find (\<lambda>s. cs_id s = i \<and> cs_tenant_id s = chk_tenant_id check) (cash_sessions d) of
        None \<Rightarrow> Inl PaymentCashSessionNotFoundError
      | Some session \<Rightarrow>
          if cs_organization_id session \<noteq> chk_organization_id check
             \<or> cs_location_id session \<noteq> chk_location_id check
          then Inl PaymentCashSessionNotFoundError
          else if cs_status session \<noteq> CS_OPEN then Inl InvalidCashSessionError
          else if cs_currency session \<noteq> currency then Inl InvalidCashSessionError
          else if map_option res_resource_type (List.find (\<lambda>r. res_id r = cs_resource_id session
                    \<and> res_tenant_id r = cs_tenant_id session
                    \<and> res_location_id r = cs_location_id session) (resources d))
                  \<noteq> Some ''CASH_REGISTER''
          then Inl InvalidCashSessionError
          else Inr (Some session))))"

definition cash_evidence :: "restaurant_payment \<Rightarrow> payment_error + (movement_type \<times> rat) list" where
  "cash_evidence p =
     (case pay_cash_tendered_amount p of
        None \<Rightarrow> Inl PaymentAssertionError
      | Some tendered \<Rightarrow> Inr ((CUSTOMER_TENDER, tendered) #
          (case pay_cash_change_due p of
             None \<Rightarrow> []
           | Some change \<Rightarrow> if 0 < change then [(CUSTOMER_CHANGE, - change)] else [])))"

definition payment_movement ::
  "(json \<Rightarrow> string) \<Rightarrow> execution_context \<Rightarrow> datetime \<Rightarrow> cash_session \<Rightarrow> restaurant_payment \<Rightarrow> db
   \<Rightarrow> movement_type \<times> rat \<Rightarrow> cash_movement"
where
  "payment_movement sha ctx now session p d v =
     (case v of (mtype, amount) \<Rightarrow> \<lparr>
        mv_id = next_id mv_id (cash_movements d), mv_tenant_id = cs_tenant_id session,
        mv_organization_id = cs_organization_id session, mv_location_id = cs_location_id session,
        mv_cash_session_id = cs_id session, mv_restaurant_payment_id = Some (pay_id p),
        mv_movement_type = mtype, mv_amount = amount, mv_currency = cs_currency session,
        mv_reason = Some (if mtype = CUSTOMER_TENDER then ''Customer cash tender''
                          else ''Customer cash change''),
        mv_reference = Some (payment_reference p), mv_recorded_at = now,
        mv_actor = actor_values ctx, mv_authorized_by = actor_values ctx,
        mv_opening_float_slot = None, mv_idempotency_actor_scope = payment_reference p,
        mv_idempotency_key = movement_type_value mtype,
        mv_request_schema_version = PAYMENT_SCHEMA_VERSION,
        mv_request_fingerprint = sha (JObj [
          (''payment_request_fingerprint'', JStr (pay_request_fingerprint p)),
          (''movement_type'', JStr (movement_type_value mtype)),
          (''amount'', JStr (money_str amount))])\<rparr>)"

definition record_cash_payment_movements ::
  "(json \<Rightarrow> string) \<Rightarrow> execution_context \<Rightarrow> datetime \<Rightarrow> cash_session \<Rightarrow> restaurant_payment \<Rightarrow> db
   \<Rightarrow> payment_error + db"
where
  "record_cash_payment_movements sha ctx now session p d =
     bind_result (cash_evidence p) (\<lambda>evidence.
       Inr (foldl (\<lambda>e v. add_cash_movement (payment_movement sha ctx now session p e v) e) d evidence))"

definition authorize_and_freeze ::
  "execution_context \<Rightarrow> datetime \<Rightarrow> restaurant_check \<Rightarrow> db
   \<Rightarrow> payment_error + (check_member list \<times> restaurant_check \<times> db)"
where
  "authorize_and_freeze ctx now check d =
     (let members = active_members d (chk_id check);
          ids = map cm_diner_session_id members
      in if members = [] then Inl CheckNotPayableError
         else if actor_type ctx = DINER \<and> principal_id ctx \<notin> Some ` set ids
         then Inl PaymentPermissionError
         else if actor_type ctx \<noteq> EMPLOYEE \<and> actor_type ctx \<noteq> DINER
         then Inl PaymentPermissionError
         else if chk_status check = CHK_OPEN
         then (case bind_result (lock_diners d (chk_tenant_id check) ids) (\<lambda>(_, diners, _).
                      bind_result (validate_drafts d diners) (\<lambda>_. verify_complete d check)) of
                 Inl e \<Rightarrow> Inl (PaymentCheckError e)
               | Inr _ \<Rightarrow> Inr (members, frozen_check ctx now check,
                                 replace_check (frozen_check ctx now check) d))
         else if chk_status check \<noteq> CHK_FROZEN then Inl CheckNotPayableError
         else Inr (members, check, d))"

definition check_scope :: "restaurant_check \<Rightarrow> scope" where
  "check_scope c = (chk_tenant_id c, chk_organization_id c, chk_location_id c)"

definition provider_key :: "(json \<Rightarrow> string) \<Rightarrow> execution_context \<Rightarrow> string \<Rightarrow> string \<Rightarrow> string" where
  "provider_key sha ctx fingerprint idempotency_key =
     ''payment-v1:'' @ str_int (tenant_id ctx) @ '':'' @ take 32 fingerprint @ '':''
     @ take 16 (sha (JArr [JStr (actor_scope ctx), JStr idempotency_key]))"

definition reserved_payment ::
  "(json \<Rightarrow> string) \<Rightarrow> execution_context \<Rightarrow> restaurant_check \<Rightarrow> payment_request \<Rightarrow> valid_payment
   \<Rightarrow> string \<Rightarrow> executor_configuration option \<Rightarrow> db \<Rightarrow> restaurant_payment"
where
  "reserved_payment sha ctx check q v fingerprint executor d = \<lparr>
     pay_id = next_id pay_id (restaurant_payments d), pay_tenant_id = chk_tenant_id check,
     pay_organization_id = chk_organization_id check, pay_location_id = chk_location_id check,
     pay_check_id = chk_id check, pay_check_version = chk_version check,
     pay_check_fingerprint = chk_current_fingerprint check, pay_amount = vp_amount v,
     pay_currency = vp_currency v, pay_method_category = vp_method v,
     pay_payer_type = vp_payer_type v, pay_payer_diner_session_id = pq_payer_diner_session_id q,
     pay_payer_reference = vp_payer_reference v, pay_initiated_by = actor_values ctx,
     pay_actor_scope = actor_scope ctx, pay_idempotency_key = pq_idempotency_key q,
     pay_request_schema_version = PAYMENT_SCHEMA_VERSION, pay_request_fingerprint = fingerprint,
     pay_state = PAY_RESERVED, pay_executor_key = map_option ec_executor_key executor,
     pay_executor_configuration_id = map_option ec_id executor,
     pay_provider_idempotency_key = (if vp_method v = CASH then None
       else Some (provider_key sha ctx fingerprint (pq_idempotency_key q))),
     pay_external_reference = None, pay_external_status = None, pay_instrument_brand = None,
     pay_instrument_last_four = None, pay_instrument_display = None, pay_claim_token = None,
     pay_claim_expires_at = None, pay_attempt_count = 0, pay_last_error_code = None,
     pay_last_error_message = None, pay_cash_tendered_amount = vp_cash_tendered v,
     pay_cash_change_due = map_option (\<lambda>t. t - vp_amount v) (vp_cash_tendered v),
     pay_terminal_at = None\<rparr>"

text \<open>The cash part of the transaction: the movements of the open session, then the settlement.\<close>

definition receive_cash ::
  "(json \<Rightarrow> string) \<Rightarrow> execution_context \<Rightarrow> datetime \<Rightarrow> cash_session option \<Rightarrow> restaurant_payment
   \<Rightarrow> restaurant_check \<Rightarrow> db \<Rightarrow> payment_error + db"
where
  "receive_cash sha ctx now session payment check d =
     bind_result (case session of None \<Rightarrow> Inr d
                  | Some s \<Rightarrow> record_cash_payment_movements sha ctx now s payment d)
       (apply_success ctx now payment check)"

definition select_executor ::
  "executor_registry \<Rightarrow> db \<Rightarrow> restaurant_check \<Rightarrow> payment_request \<Rightarrow> valid_payment
   \<Rightarrow> payment_error + executor_configuration option"
where
  "select_executor registry d check q v =
     (if vp_method v = CASH then Inr None
      else bind_result (resolve registry d (check_scope check) (vp_method v) (vp_currency v)
             (case pq_selection_mode q of None \<Rightarrow> [] | Some mode \<Rightarrow> mode) (vp_executor_key v))
             (\<lambda>(configuration, _). Inr (Some configuration)))"

text \<open>The part of the transaction after the check row is locked and the key is found unused.\<close>

definition reserve_on_check ::
  "(json \<Rightarrow> string) \<Rightarrow> executor_registry \<Rightarrow> execution_context \<Rightarrow> datetime \<Rightarrow> payment_request
   \<Rightarrow> valid_payment \<Rightarrow> string \<Rightarrow> restaurant_check \<Rightarrow> db \<Rightarrow> payment_error + (restaurant_payment \<times> db)"
where
  "reserve_on_check sha registry ctx now q v fingerprint check d =
     (if chk_version check \<noteq> pq_expected_check_version q
         \<or> chk_current_fingerprint check \<noteq> pq_expected_check_fingerprint q
      then Inl CheckFinancialIdentityConflictError
      else if chk_currency check \<noteq> vp_currency v then Inl CheckFinancialIdentityConflictError
      else
      bind_result (if vp_method v = CASH
          then cash_session_for_payment d check (vp_currency v) (pq_cash_session_id q) else Inr None)
        (\<lambda>cash_session.
      bind_result (authorize_and_freeze ctx now check d) (\<lambda>(members, check, d).
      if vp_payer_type v = PAYER_DINER
         \<and> pq_payer_diner_session_id q \<notin> Some ` set (map cm_diner_session_id members)
      then Inl PaymentPermissionError
      else
      (case totals d (chk_id check) of (confirmed, reserved, _) \<Rightarrow>
      if chk_liability_total check - confirmed - reserved < vp_amount v
      then Inl PaymentAmountExceedsAvailableError
      else
      bind_result (select_executor registry d check q v) (\<lambda>executor.
        let payment = reserved_payment sha ctx check q v fingerprint executor d;
            d1 = d\<lparr>restaurant_payments := restaurant_payments d @ [payment]\<rparr>
        in if vp_method v = CASH
           then bind_result (receive_cash sha ctx now cash_session payment check d1) (\<lambda>d2.
                  Inr (succeed_payment now payment, d2))
           else Inr (payment, d1))))))"

text \<open>A replayed request is answered with the stored payment, when it is the same request.\<close>

definition replayed :: "restaurant_payment \<Rightarrow> string \<Rightarrow> payment_error + restaurant_payment" where
  "replayed p fingerprint =
     (if pay_request_fingerprint p \<noteq> fingerprint then Inl PaymentIdempotencyConflictError else Inr p)"

definition reserve_payment ::
  "(json \<Rightarrow> string) \<Rightarrow> executor_registry \<Rightarrow> execution_context \<Rightarrow> datetime \<Rightarrow> payment_request
   \<Rightarrow> valid_payment \<Rightarrow> string \<Rightarrow> db \<Rightarrow> payment_error + ((restaurant_payment \<times> bool) \<times> db)"
where
  "reserve_payment sha registry ctx now q v fingerprint d =
     (case List.find (\<lambda>c. chk_id c = pq_check_id q \<and> chk_tenant_id c = tenant_id ctx
                         \<and> (case pq_location_id q of None \<Rightarrow> True | Some l \<Rightarrow> chk_location_id c = l))
             (restaurant_checks d) of
        None \<Rightarrow> Inl (if pq_location_id q \<noteq> None then PaymentNotFoundError else CheckNotPayableError)
      | Some check \<Rightarrow>
     (case payment_by_key d ctx (pq_idempotency_key q) of
        Some replay \<Rightarrow> bind_result (replayed replay fingerprint) (\<lambda>p. Inr ((p, True), d))
      | None \<Rightarrow>
          bind_result (reserve_on_check sha registry ctx now q v fingerprint check d) (\<lambda>(payment, d').
            if financial_constraints d' then Inr ((payment, False), d')
            else (case payment_by_key d ctx (pq_idempotency_key q) of
                    None \<Rightarrow> Inl PaymentIntegrityError
                  | Some winner \<Rightarrow>
                      bind_result (replayed winner fingerprint) (\<lambda>p. Inr ((p, True), d))))))"

section \<open>Claims\<close>

text \<open>
  The row \<^verbatim>\<open>_claim\<close> writes. \<^theory_text>\<open>cached\<close> is the object the session holds: the row as the session
  read it last, since \<^verbatim>\<open>_claim\<close> locks the row without refreshing the object. Only the columns whose value
  differs from the object's are written.
\<close>

definition write_column :: "'a \<Rightarrow> 'a \<Rightarrow> 'a \<Rightarrow> 'a" where
  "write_column before after stored = (if after = before then stored else after)"

definition claim_row :: "string \<Rightarrow> datetime \<Rightarrow> restaurant_payment \<Rightarrow> restaurant_payment \<Rightarrow> restaurant_payment"
where
  "claim_row token now cached row = row\<lparr>
     pay_state := write_column (pay_state cached) PAY_IN_PROGRESS (pay_state row),
     pay_claim_token := write_column (pay_claim_token cached) (Some token) (pay_claim_token row),
     pay_claim_expires_at :=
       write_column (pay_claim_expires_at cached) (Some (now + CLAIM_LEASE)) (pay_claim_expires_at row),
     pay_attempt_count :=
       write_column (pay_attempt_count cached) (pay_attempt_count cached + 1) (pay_attempt_count row),
     pay_last_error_code := write_column (pay_last_error_code cached) None (pay_last_error_code row),
     pay_last_error_message :=
       write_column (pay_last_error_message cached) None (pay_last_error_message row),
     pay_terminal_at := write_column (pay_terminal_at cached) None (pay_terminal_at row)\<rparr>"

definition started_attempt ::
  "db \<Rightarrow> execution_context \<Rightarrow> datetime \<Rightarrow> string \<Rightarrow> attempt_type \<Rightarrow> restaurant_payment \<Rightarrow> payment_attempt"
where
  "started_attempt d ctx now token type claimed = \<lparr>
     att_id = next_id att_id (payment_attempts d), att_tenant_id = pay_tenant_id claimed,
     att_payment_id = pay_id claimed, att_attempt_sequence = pay_attempt_count claimed,
     att_attempt_type = type, att_executor_key = pay_executor_key claimed, att_claim_token = token,
     att_actor = actor_values ctx, att_correlation_id = correlation_id ctx,
     att_causation_id = causation_id ctx, att_started_at = now,
     att_external_call_started_at = Some now, att_completed_at = None, att_result = RES_IN_PROGRESS,
     att_external_reference = None, att_external_status = None, att_error_code = None,
     att_error_message = None, att_result_fingerprint = None\<rparr>"

definition available_again :: "db \<Rightarrow> int \<Rightarrow> restaurant_payment \<Rightarrow> payment_error + unit" where
  "available_again d tenant payment =
     (case List.find (\<lambda>c. chk_id c = pay_check_id payment \<and> chk_tenant_id c = tenant)
             (restaurant_checks d) of
        None \<Rightarrow> Inl PaymentAttributeError
      | Some check \<Rightarrow>
          (case totals d (chk_id check) of (confirmed, reserved, _) \<Rightarrow>
             if chk_liability_total check - confirmed - reserved < pay_amount payment
             then Inl PaymentAmountExceedsAvailableError else Inr ()))"

definition claim_payment ::
  "execution_context \<Rightarrow> datetime \<Rightarrow> string \<Rightarrow> restaurant_payment option \<Rightarrow> int \<Rightarrow> attempt_type
   \<Rightarrow> payment_state set \<Rightarrow> bool \<Rightarrow> db \<Rightarrow> payment_error + ((restaurant_payment \<times> string) \<times> db)"
where
  "claim_payment ctx now token cached payment_id type allowed reserve_again d =
     (case List.find (\<lambda>p. pay_id p = payment_id \<and> pay_tenant_id p = tenant_id ctx)
             (restaurant_payments d) of
        None \<Rightarrow> Inl PaymentNotFoundError
      | Some row \<Rightarrow>
          let payment = (case cached of None \<Rightarrow> row | Some object \<Rightarrow> object)
          in if pay_state payment = PAY_SUCCEEDED then Inr ((payment, []), d)
             else if pay_state payment \<notin> allowed then Inl PaymentStateConflictError
             else
             bind_result (if reserve_again then available_again d (tenant_id ctx) payment else Inr ()) (\<lambda>_.
               let claimed = claim_row token now payment payment;
                   d' = d\<lparr>restaurant_payments :=
                            modify pay_id (pay_id payment) (claim_row token now payment)
                              (restaurant_payments d),
                          payment_attempts :=
                            payment_attempts d @ [started_attempt d ctx now token type claimed]\<rparr>
               in if payment_constraints d' then Inr ((claimed, token), d')
                  else Inl PaymentIntegrityError))"

section \<open>Results\<close>

datatype execution_outcome = EXEC_SUCCEEDED | EXEC_DEFINITE_FAILURE | EXEC_REJECTED | EXEC_UNCERTAIN

datatype recovery_outcome =
  REC_CONFIRMED_SUCCESS | REC_DEFINITE_ABSENCE | REC_DEFINITE_FAILURE | REC_STILL_UNCERTAIN

text \<open>\<^verbatim>\<open>PaymentExecutionResult\<close> and \<^verbatim>\<open>PaymentRecoveryResult\<close>, which differ in their outcome.\<close>

record 'o payment_result =
  pr_outcome :: 'o
  pr_external_reference :: "string option"
  pr_external_status :: "string option"
  pr_instrument_brand :: "string option"
  pr_instrument_last_four :: "string option"
  pr_instrument_display :: "string option"
  pr_error_code :: "string option"
  pr_error_message :: "string option"

definition error_result :: "'o \<Rightarrow> string \<Rightarrow> string \<Rightarrow> 'o payment_result" where
  "error_result result code message = \<lparr>
     pr_outcome = result, pr_external_reference = None, pr_external_status = None,
     pr_instrument_brand = None, pr_instrument_last_four = None, pr_instrument_display = None,
     pr_error_code = Some code, pr_error_message = Some message\<rparr>"

fun execution_state :: "execution_outcome \<Rightarrow> payment_state" where
  "execution_state EXEC_SUCCEEDED = PAY_SUCCEEDED"
| "execution_state EXEC_DEFINITE_FAILURE = PAY_FAILED"
| "execution_state EXEC_REJECTED = PAY_REJECTED"
| "execution_state EXEC_UNCERTAIN = PAY_UNCERTAIN"

fun recovery_state :: "recovery_outcome \<Rightarrow> payment_state" where
  "recovery_state REC_CONFIRMED_SUCCESS = PAY_SUCCEEDED"
| "recovery_state REC_DEFINITE_ABSENCE = PAY_FAILED"
| "recovery_state REC_DEFINITE_FAILURE = PAY_FAILED"
| "recovery_state REC_STILL_UNCERTAIN = PAY_UNCERTAIN"

fun payment_state_value :: "payment_state \<Rightarrow> string" where
  "payment_state_value PAY_RESERVED = ''RESERVED''"
| "payment_state_value PAY_IN_PROGRESS = ''IN_PROGRESS''"
| "payment_state_value PAY_SUCCEEDED = ''SUCCEEDED''"
| "payment_state_value PAY_FAILED = ''FAILED''"
| "payment_state_value PAY_REJECTED = ''REJECTED''"
| "payment_state_value PAY_UNCERTAIN = ''UNCERTAIN''"
| "payment_state_value PAY_CANCELLED = ''CANCELLED''"

text \<open>\<^verbatim>\<open>attempt.result = state\<close>; an attempt is never left in RESERVED.\<close>

fun attempt_result_of :: "payment_state \<Rightarrow> attempt_result" where
  "attempt_result_of PAY_SUCCEEDED = RES_SUCCEEDED"
| "attempt_result_of PAY_FAILED = RES_FAILED"
| "attempt_result_of PAY_REJECTED = RES_REJECTED"
| "attempt_result_of PAY_UNCERTAIN = RES_UNCERTAIN"
| "attempt_result_of PAY_CANCELLED = RES_CANCELLED"
| "attempt_result_of _ = RES_IN_PROGRESS"

definition copy_evidence :: "'o payment_result \<Rightarrow> restaurant_payment \<Rightarrow> restaurant_payment" where
  "copy_evidence r p = p\<lparr>
     pay_external_reference := pr_external_reference r, pay_external_status := pr_external_status r,
     pay_instrument_brand := pr_instrument_brand r,
     pay_instrument_last_four := pr_instrument_last_four r,
     pay_instrument_display := pr_instrument_display r, pay_last_error_code := pr_error_code r,
     pay_last_error_message := pr_error_message r\<rparr>"

definition finish_row ::
  "payment_state \<Rightarrow> datetime \<Rightarrow> 'o payment_result \<Rightarrow> restaurant_payment \<Rightarrow> restaurant_payment"
where
  "finish_row state now r p = copy_evidence r (p\<lparr>
     pay_state := state, pay_claim_token := None, pay_claim_expires_at := None,
     pay_terminal_at := (if state \<in> {PAY_FAILED, PAY_REJECTED, PAY_CANCELLED} then Some now
                         else pay_terminal_at p)\<rparr>)"

definition complete_attempt ::
  "(json \<Rightarrow> string) \<Rightarrow> payment_state \<Rightarrow> datetime \<Rightarrow> string option \<Rightarrow> 'o payment_result
   \<Rightarrow> payment_attempt \<Rightarrow> payment_attempt"
where
  "complete_attempt sha state now reference r a = a\<lparr>
     att_result := attempt_result_of state, att_completed_at := Some now,
     att_external_reference := reference, att_external_status := pr_external_status r,
     att_error_code := pr_error_code r, att_error_message := pr_error_message r,
     att_result_fingerprint := Some (sha (JObj [
       (''result'', JStr (payment_state_value state)),
       (''external_reference'', json_opt JStr reference),
       (''external_status'', json_opt JStr (pr_external_status r)),
       (''error_code'', json_opt JStr (pr_error_code r))]))\<rparr>"

text \<open>The provider's transaction is already that of another payment under the same configuration.\<close>

definition reference_conflict :: "db \<Rightarrow> restaurant_payment \<Rightarrow> payment_state \<Rightarrow> 'o payment_result \<Rightarrow> bool"
where
  "reference_conflict d payment state r \<longleftrightarrow>
     state = PAY_SUCCEEDED \<and> pr_external_reference r \<noteq> None
     \<and> pay_executor_configuration_id payment \<noteq> None
     \<and> list_ex (\<lambda>p. pay_executor_configuration_id p = pay_executor_configuration_id payment
          \<and> pay_external_reference p = pr_external_reference r \<and> pay_id p \<noteq> pay_id payment)
         (restaurant_payments d)"

definition withhold_reference :: "'o payment_result \<Rightarrow> 'o payment_result" where
  "withhold_reference r = r\<lparr>
     pr_external_reference := None, pr_error_code := Some ''PAYMENT_EXTERNAL_REFERENCE_CONFLICT'',
     pr_error_message :=
       Some ''Provider transaction identity is already associated with another payment''\<rparr>"

definition finish_payment ::
  "(json \<Rightarrow> string) \<Rightarrow> execution_context \<Rightarrow> datetime \<Rightarrow> int \<Rightarrow> string \<Rightarrow> 'o payment_result
   \<Rightarrow> payment_state \<Rightarrow> db \<Rightarrow> payment_error + (restaurant_payment \<times> db)"
where
  "finish_payment sha ctx now payment_id token r state d =
     (case List.find (\<lambda>p. pay_id p = payment_id \<and> pay_tenant_id p = tenant_id ctx)
             (restaurant_payments d) of
        None \<Rightarrow> Inl PaymentNotFoundError
      | Some payment \<Rightarrow>
          if pay_claim_token payment \<noteq> Some token then Inr (payment, d) else
     (case List.find (\<lambda>a. att_payment_id a = pay_id payment \<and> att_claim_token a = token)
             (payment_attempts d) of
        None \<Rightarrow> Inl PaymentStaleResultError
      | Some attempt \<Rightarrow>
          if att_result attempt \<noteq> RES_IN_PROGRESS then Inl PaymentStaleResultError else
          let conflict = reference_conflict d payment state r;
              final_state = (if conflict then PAY_UNCERTAIN else state);
              r' = (if conflict then withhold_reference r else r);
              finished = finish_row final_state now r' payment;
              d1 = d\<lparr>restaurant_payments :=
                       modify pay_id (pay_id payment) (\<lambda>_. finished) (restaurant_payments d)\<rparr>
          in bind_result
               (if final_state = PAY_SUCCEEDED
                then (case List.find (\<lambda>c. chk_id c = pay_check_id payment \<and> chk_tenant_id c = tenant_id ctx)
                             (restaurant_checks d) of
                        None \<Rightarrow> Inl PaymentAttributeError
                      | Some check \<Rightarrow> apply_success ctx now finished check d1)
                else Inr d1) (\<lambda>d2.
               let d3 = d2\<lparr>payment_attempts := modify att_id (att_id attempt)
                          (complete_attempt sha final_state now (pr_external_reference r) r')
                          (payment_attempts d2)\<rparr>
               in if \<not> financial_constraints d3 then Inl PaymentIntegrityError
                  else Inr (case find_row pay_id (pay_id payment) (restaurant_payments d3) of
                              None \<Rightarrow> finished | Some p \<Rightarrow> p, d3))))"

section \<open>Execution, retry and recovery\<close>

text \<open>
  What the service works with: the digest, the registry of adapters, the credential resolver (absent, or
  a function that may fail), what the adapters return from a call or the class of the exception they
  raise, the clock and the claim token of each operation, and what other transactions do between the
  transactions of an operation.
\<close>

record payment_world =
  pw_sha :: "json \<Rightarrow> string"
  pw_registry :: executor_registry
  pw_credentials :: "(executor_configuration \<Rightarrow> restaurant_payment \<Rightarrow> string option) option"
  pw_execute :: "executor_configuration \<Rightarrow> restaurant_payment \<Rightarrow> string option
    \<Rightarrow> string + execution_outcome payment_result"
  pw_recover :: "executor_configuration \<Rightarrow> restaurant_payment \<Rightarrow> string option
    \<Rightarrow> string + recovery_outcome payment_result"
  pw_clock :: "nat \<Rightarrow> datetime"
  pw_token :: string
  pw_others :: "nat \<Rightarrow> db \<Rightarrow> db"

definition payment_scope :: "restaurant_payment \<Rightarrow> scope" where
  "payment_scope p = (pay_tenant_id p, pay_organization_id p, pay_location_id p)"

definition historical_executor ::
  "executor_registry \<Rightarrow> restaurant_payment \<Rightarrow> db \<Rightarrow> payment_error + (executor_configuration \<times> executor_port)"
where
  "historical_executor registry payment d =
     (case pay_executor_configuration_id payment of
        None \<Rightarrow> Inl PaymentExecutorConfigurationNotFoundError
      | Some i \<Rightarrow> resolve_historical registry d (payment_scope payment) i)"

definition execution_executor ::
  "executor_registry \<Rightarrow> restaurant_payment \<Rightarrow> db \<Rightarrow> payment_error + (executor_configuration \<times> executor_port)"
where
  "execution_executor registry payment d =
     (case pay_executor_configuration_id payment of
        None \<Rightarrow> Inl PaymentExecutorConfigurationNotFoundError
      | Some i \<Rightarrow> resolve_for_execution registry d (payment_scope payment) i
                    (pay_method_category payment) (pay_currency payment))"

definition merchant_credential ::
  "(executor_configuration \<Rightarrow> restaurant_payment \<Rightarrow> string option) option \<Rightarrow> restaurant_payment
   \<Rightarrow> executor_configuration \<Rightarrow> payment_error + string option"
where
  "merchant_credential resolver payment c =
     (case ec_credential_binding c of
        None \<Rightarrow> Inr None
      | Some _ \<Rightarrow>
     (case resolver of
        None \<Rightarrow> Inl MerchantCredentialResolutionError
      | Some f \<Rightarrow>
     (case f c payment of
        None \<Rightarrow> Inl MerchantCredentialResolutionError
      | Some credential \<Rightarrow> Inr (Some credential))))"

text \<open>The result a claimed execution ends with; no path raises.\<close>

definition execution_result :: "payment_world \<Rightarrow> restaurant_payment \<Rightarrow> db \<Rightarrow> execution_outcome payment_result"
where
  "execution_result w payment d =
     (case execution_executor (pw_registry w) payment d of
        Inl e \<Rightarrow> error_result EXEC_DEFINITE_FAILURE (error_code e)
                   ''Durably selected payment executor is unavailable''
      | Inr (c, executor) \<Rightarrow>
          if \<not> ex_executes executor
          then error_result EXEC_DEFINITE_FAILURE (error_code UnsupportedExecutionCapabilityError)
                 ''Configured payment executor cannot execute payments''
          else
     (case merchant_credential (pw_credentials w) payment c of
        Inl e \<Rightarrow> error_result EXEC_DEFINITE_FAILURE (error_code e)
                   ''Merchant credential could not be resolved''
      | Inr credential \<Rightarrow>
     (case pw_execute w c payment credential of
        Inl exception \<Rightarrow> error_result EXEC_UNCERTAIN ''PAYMENT_EXECUTION_RESULT_UNCERTAIN''
                            (''Unexpected failure after payment call boundary: '' @ exception)
      | Inr r \<Rightarrow> r)))"

definition recovery_result :: "payment_world \<Rightarrow> restaurant_payment \<Rightarrow> db \<Rightarrow> recovery_outcome payment_result"
where
  "recovery_result w payment d =
     (case historical_executor (pw_registry w) payment d of
        Inl e \<Rightarrow> error_result REC_STILL_UNCERTAIN (error_code RecoveryUnavailableError)
                   ''Durably selected payment executor is unavailable for recovery''
      | Inr (c, executor) \<Rightarrow>
          if \<not> ex_recovers executor
          then error_result REC_STILL_UNCERTAIN (error_code RecoveryUnavailableError)
                 ''Configured executor has no recovery capability''
          else
     (case merchant_credential (pw_credentials w) payment c of
        Inl _ \<Rightarrow> error_result REC_STILL_UNCERTAIN (error_code MerchantCredentialResolutionError)
                   ''Merchant credential could not be resolved for recovery''
      | Inr credential \<Rightarrow>
     (case pw_recover w c payment credential of
        Inl exception \<Rightarrow> error_result REC_STILL_UNCERTAIN ''PAYMENT_RECOVERY_RESULT_UNCERTAIN''
                            (''Unexpected recovery failure: '' @ exception)
      | Inr r \<Rightarrow> r)))"

text \<open>
  An operation of several transactions returns the database that its committed transactions leave, also
  when a later one raises.
\<close>

definition execute_claimed ::
  "payment_world \<Rightarrow> execution_context \<Rightarrow> restaurant_payment \<Rightarrow> string \<Rightarrow> db
   \<Rightarrow> (payment_error + payment_projection) \<times> db"
where
  "execute_claimed w ctx payment token d =
     (let r = execution_result w payment d; d1 = pw_others w 2 d
      in case finish_payment (pw_sha w) ctx (pw_clock w 2) (pay_id payment) token r
                (execution_state (pr_outcome r)) d1 of
           Inl e \<Rightarrow> (Inl e, d1)
         | Inr (finished, d2) \<Rightarrow> (Inr (payment_view d2 finished), d2))"

text \<open>\<^theory_text>\<open>cached\<close> is the session's object of the payment, when it holds one.\<close>

definition claim_and_execute ::
  "payment_world \<Rightarrow> execution_context \<Rightarrow> restaurant_payment option \<Rightarrow> int \<Rightarrow> attempt_type
   \<Rightarrow> payment_state set \<Rightarrow> bool \<Rightarrow> db \<Rightarrow> (payment_error + (payment_projection \<times> bool)) \<times> db"
where
  "claim_and_execute w ctx cached payment_id type allowed reserve_again d =
     (case claim_payment ctx (pw_clock w 1) (pw_token w) cached payment_id type allowed reserve_again d of
        Inl e \<Rightarrow> (Inl e, d)
      | Inr ((claimed, token), d1) \<Rightarrow>
          if token = [] then (Inr (payment_view d1 claimed, True), d1)
          else (case execute_claimed w ctx claimed token (pw_others w 1 d1) of
                  (Inl e, d2) \<Rightarrow> (Inl e, d2)
                | (Inr view, d2) \<Rightarrow> (Inr (view, False), d2)))"

definition initiate_payment ::
  "payment_world \<Rightarrow> execution_context \<Rightarrow> payment_request \<Rightarrow> db
   \<Rightarrow> (payment_error + (payment_projection \<times> bool)) \<times> db"
where
  "initiate_payment w ctx q d =
     (if pq_location_id q \<noteq> None \<and> List.find (\<lambda>c. chk_id c = pq_check_id q
           \<and> chk_tenant_id c = tenant_id ctx \<and> Some (chk_location_id c) = pq_location_id q)
           (restaurant_checks d) = None
      then (Inl PaymentNotFoundError, d) else
     (case validate_payment ctx q of
        Inl e \<Rightarrow> (Inl e, d)
      | Inr v \<Rightarrow>
     (let fingerprint = payment_request_fingerprint (pw_sha w) q v
      in case payment_by_key d ctx (pq_idempotency_key q) of
           Some existing \<Rightarrow>
             (case replayed existing fingerprint of
                Inl e \<Rightarrow> (Inl e, d) | Inr p \<Rightarrow> (Inr (payment_view d p, True), d))
         | None \<Rightarrow>
     (case reserve_payment (pw_sha w) (pw_registry w) ctx (pw_clock w 0) q v fingerprint d of
        Inl e \<Rightarrow> (Inl e, d)
      | Inr ((payment, replay), d1) \<Rightarrow>
          if replay \<or> vp_method v = CASH then (Inr (payment_view d1 payment, replay), d1)
          else claim_and_execute w ctx (Some payment) (pay_id payment) ATT_EXECUTE {PAY_RESERVED} False
                 (pw_others w 0 d1)))))"

definition retry_payment ::
  "payment_world \<Rightarrow> execution_context \<Rightarrow> int \<Rightarrow> db \<Rightarrow> (payment_error + payment_projection) \<times> db"
where
  "retry_payment w ctx payment_id d =
     (case claim_and_execute w ctx None payment_id ATT_RETRY {PAY_FAILED} True d of
        (Inl e, d') \<Rightarrow> (Inl e, d')
      | (Inr (view, _), d') \<Rightarrow> (Inr view, d'))"

definition fence_attempt :: "datetime \<Rightarrow> payment_attempt \<Rightarrow> payment_attempt" where
  "fence_attempt now a = a\<lparr>
     att_result := RES_FENCED, att_completed_at := Some now,
     att_error_code := Some ''PAYMENT_STALE_ATTEMPT_FENCED'',
     att_error_message := Some ''Expired attempt fenced before recovery''\<rparr>"

definition release_claim :: "restaurant_payment \<Rightarrow> restaurant_payment" where
  "release_claim p = p\<lparr>pay_state := PAY_UNCERTAIN, pay_claim_token := None, pay_claim_expires_at := None\<rparr>"

text \<open>The first transaction of a recovery; it returns the session's object and the attempt type.\<close>

definition fence_payment ::
  "execution_context \<Rightarrow> datetime \<Rightarrow> int \<Rightarrow> int option \<Rightarrow> db
   \<Rightarrow> payment_error + ((restaurant_payment \<times> attempt_type) \<times> db)"
where
  "fence_payment ctx now payment_id location d =
     (case List.find (\<lambda>p. pay_id p = payment_id \<and> pay_tenant_id p = tenant_id ctx
                         \<and> (case location of None \<Rightarrow> True | Some l \<Rightarrow> pay_location_id p = l))
             (restaurant_payments d) of
        None \<Rightarrow> Inl PaymentNotFoundError
      | Some payment \<Rightarrow>
          if pay_state payment = PAY_IN_PROGRESS
          then if (case pay_claim_expires_at payment of None \<Rightarrow> False | Some e \<Rightarrow> now < e)
               then Inl PaymentStateConflictError
               else
                 (let d' = d\<lparr>
                        payment_attempts := (case List.find (\<lambda>a. att_payment_id a = pay_id payment
                            \<and> Some (att_claim_token a) = pay_claim_token payment) (payment_attempts d) of
                          None \<Rightarrow> payment_attempts d
                        | Some previous \<Rightarrow>
                            if att_result previous = RES_IN_PROGRESS
                            then modify att_id (att_id previous) (fence_attempt now) (payment_attempts d)
                            else payment_attempts d),
                        restaurant_payments :=
                          modify pay_id (pay_id payment) release_claim (restaurant_payments d)\<rparr>
                  in if payment_constraints d' then Inr ((release_claim payment, ATT_STALE_RECOVERY), d')
                     else Inl PaymentIntegrityError)
          else if pay_state payment \<noteq> PAY_UNCERTAIN then Inl PaymentStateConflictError
          else Inr ((payment, ATT_RECOVER), d))"

definition recover_payment ::
  "payment_world \<Rightarrow> execution_context \<Rightarrow> int \<Rightarrow> int option \<Rightarrow> db
   \<Rightarrow> (payment_error + payment_projection) \<times> db"
where
  "recover_payment w ctx payment_id location d =
     (case fence_payment ctx (pw_clock w 0) payment_id location d of
        Inl e \<Rightarrow> (Inl e, d)
      | Inr ((payment, type), d1) \<Rightarrow>
     (let d1 = pw_others w 0 d1
      in case claim_payment ctx (pw_clock w 1) (pw_token w) (Some payment) payment_id type
                {PAY_UNCERTAIN} False d1 of
           Inl e \<Rightarrow> (Inl e, d1)
         | Inr ((claimed, token), d2) \<Rightarrow>
             (let d2 = pw_others w 1 d2; r = recovery_result w claimed d2; d3 = pw_others w 2 d2
              in case finish_payment (pw_sha w) ctx (pw_clock w 2) payment_id token r
                        (recovery_state (pr_outcome r)) d3 of
                   Inl e \<Rightarrow> (Inl e, d3)
                 | Inr (finished, d4) \<Rightarrow> (Inr (payment_view d4 finished), d4))))"

end
