(* ===== verification/PaymentInvariant.thy ===== *)
theory PaymentInvariant
  imports CheckCommands CashProofs Payments
begin

text \<open>
  The invariant of the payment tables: every settlement is that of a succeeded payment and every
  succeeded payment has one, a claimed payment has its attempt in progress, and what the payments of a
  check have settled or hold reserved never exceeds its liability. Each transaction of the payment
  service keeps it, and so do the commands of the check service.
\<close>

section \<open>The invariant\<close>

definition payment_keys_ok :: "db \<Rightarrow> bool" where
  "payment_keys_ok d \<longleftrightarrow> distinct (map pay_id (restaurant_payments d))
     \<and> distinct (map att_id (payment_attempts d)) \<and> distinct (map st_id (check_settlements d))"

definition payment_refs_ok :: "db \<Rightarrow> bool" where
  "payment_refs_ok d \<longleftrightarrow> (\<forall>p \<in> set (restaurant_payments d). \<exists>c \<in> set (restaurant_checks d).
     chk_id c = pay_check_id p \<and> chk_tenant_id c = pay_tenant_id p)"

text \<open>A settlement is the trace of a succeeded payment.\<close>

definition settles :: "check_settlement \<Rightarrow> restaurant_payment \<Rightarrow> bool" where
  "settles s p \<longleftrightarrow> st_payment_id s = pay_id p \<and> st_check_id s = pay_check_id p
     \<and> st_amount s = pay_amount p \<and> pay_state p = PAY_SUCCEEDED"

definition settlements_match :: "db \<Rightarrow> bool" where
  "settlements_match d \<longleftrightarrow>
     (\<forall>s \<in> set (check_settlements d). \<exists>p \<in> set (restaurant_payments d). settles s p) \<and>
     (\<forall>p \<in> set (restaurant_payments d). pay_state p = PAY_SUCCEEDED \<longrightarrow>
        (\<exists>s \<in> set (check_settlements d). settles s p))"

definition claims_match :: "db \<Rightarrow> bool" where
  "claims_match d \<longleftrightarrow> (\<forall>p \<in> set (restaurant_payments d). pay_state p = PAY_IN_PROGRESS \<longrightarrow>
     (\<exists>a \<in> set (payment_attempts d). att_payment_id a = pay_id p
        \<and> Some (att_claim_token a) = pay_claim_token p \<and> att_result a = RES_IN_PROGRESS))"

definition exposure :: "db \<Rightarrow> int \<Rightarrow> rat" where
  "exposure d i = settled_amount d i + payment_amount d RESERVING_STATES i"

text \<open>
  A check in each of its states: before it is frozen and after it is cancelled it has no payments, a
  settled check is paid in full, and only its allocations are settled.
\<close>

definition check_funded :: "db \<Rightarrow> restaurant_check \<Rightarrow> bool" where
  "check_funded d c \<longleftrightarrow>
     exposure d (chk_id c) \<le> chk_liability_total c \<and>
     (chk_status c \<in> {CHK_OPEN, CHK_CANCELLED} \<longrightarrow>
        (\<forall>p \<in> set (restaurant_payments d). pay_check_id p \<noteq> chk_id c)) \<and>
     (chk_status c = CHK_SETTLED \<longrightarrow> settled_amount d (chk_id c) = chk_liability_total c) \<and>
     (\<forall>a \<in> set (check_allocations d). al_check_id a = chk_id c \<longrightarrow> al_state a \<noteq> AL_RELEASED \<longrightarrow>
        (al_state a = AL_SETTLED) = (chk_status c = CHK_SETTLED))"

definition payment_books :: "db \<Rightarrow> bool" where
  "payment_books d \<longleftrightarrow> payment_keys_ok d \<and> payment_refs_ok d \<and> settlements_match d \<and> claims_match d
     \<and> (\<forall>c \<in> set (restaurant_checks d). check_funded d c)"

definition payment_inv :: "db \<Rightarrow> bool" where
  "payment_inv d \<longleftrightarrow> payment_books d \<and> payment_constraints d"

lemma payment_inv_empty: "payment_inv empty_db"
  by (simp add: payment_inv_def payment_books_def payment_keys_ok_def payment_refs_ok_def
      settlements_match_def claims_match_def payment_constraints_def table_ok_def empty_db_def)

lemma books_check:
  assumes "payment_books d" "c \<in> set (restaurant_checks d)"
  shows "exposure d (chk_id c) \<le> chk_liability_total c"
    and "chk_status c = CHK_OPEN \<or> chk_status c = CHK_CANCELLED \<Longrightarrow> p \<in> set (restaurant_payments d) \<Longrightarrow>
      pay_check_id p \<noteq> chk_id c"
    and "chk_status c = CHK_SETTLED \<Longrightarrow> settled_amount d (chk_id c) = chk_liability_total c"
    and "a \<in> set (check_allocations d) \<Longrightarrow> al_check_id a = chk_id c \<Longrightarrow> al_state a \<noteq> AL_RELEASED \<Longrightarrow>
      al_state a = AL_SETTLED \<longleftrightarrow> chk_status c = CHK_SETTLED"
proof -
  have funded: "check_funded d c" using assms by (simp add: payment_books_def)
  then show "exposure d (chk_id c) \<le> chk_liability_total c"
    and "chk_status c = CHK_SETTLED \<Longrightarrow> settled_amount d (chk_id c) = chk_liability_total c"
    by (simp_all add: check_funded_def)
  show "chk_status c = CHK_OPEN \<or> chk_status c = CHK_CANCELLED \<Longrightarrow> p \<in> set (restaurant_payments d) \<Longrightarrow>
      pay_check_id p \<noteq> chk_id c"
    using funded unfolding check_funded_def by blast
  show "a \<in> set (check_allocations d) \<Longrightarrow> al_check_id a = chk_id c \<Longrightarrow> al_state a \<noteq> AL_RELEASED \<Longrightarrow>
      al_state a = AL_SETTLED \<longleftrightarrow> chk_status c = CHK_SETTLED"
    using funded unfolding check_funded_def by blast
qed

section \<open>Amounts\<close>

text \<open>What one payment counts for in the sum over the payments of a check in some states.\<close>

definition part :: "payment_state set \<Rightarrow> int \<Rightarrow> restaurant_payment \<Rightarrow> rat" where
  "part S i p = (if pay_check_id p = i \<and> pay_state p \<in> S then pay_amount p else 0)"

lemma payment_amount_part: "payment_amount d S i = sum_by (part S i) (restaurant_payments d)"
  unfolding payment_amount_def sum_by_filter part_def by (rule sum_by_cong) simp

lemma payment_amount_cong:
  assumes "restaurant_payments e = restaurant_payments d"
  shows "payment_amount e S i = payment_amount d S i"
  using assms by (simp add: payment_amount_def)

lemma settled_amount_cong:
  assumes "check_settlements e = check_settlements d"
  shows "settled_amount e i = settled_amount d i"
  using assms by (simp add: settled_amount_def)

lemma payment_amount_add:
  assumes "restaurant_payments e = restaurant_payments d @ [p]"
  shows "payment_amount e S i = payment_amount d S i + part S i p"
  using assms by (simp add: payment_amount_part)

lemma payment_amount_modify:
  assumes "restaurant_payments e = modify pay_id (pay_id p) f (restaurant_payments d)"
    and "distinct (map pay_id (restaurant_payments d))" "p \<in> set (restaurant_payments d)"
  shows "payment_amount e S i = payment_amount d S i - part S i p + part S i (f p)"
  unfolding payment_amount_part assms(1) by (rule sum_by_modify) (use assms in simp_all)

lemma settled_amount_add:
  assumes "check_settlements e = check_settlements d @ [s]"
  shows "settled_amount e i = settled_amount d i + (if st_check_id s = i then st_amount s else 0)"
  using assms by (simp add: settled_amount_def)

lemma payment_amounts_positive:
  assumes "payment_constraints d"
  shows "p \<in> set (restaurant_payments d) \<Longrightarrow> 0 < pay_amount p"
    and "s \<in> set (check_settlements d) \<Longrightarrow> 0 < st_amount s"
  using assms
  by (auto simp: payment_constraints_def restaurant_payment_ok_def check_settlement_ok_def dest: table_okD)

lemma payment_amount_ge_part:
  assumes "payment_constraints d" "p \<in> set (restaurant_payments d)"
  shows "part S i p \<le> payment_amount d S i"
proof -
  obtain xs ys where split: "restaurant_payments d = xs @ p # ys" using assms(2) by (meson split_list)
  have "0 \<le> part S i q" if "q \<in> set (restaurant_payments d)" for q
    using payment_amounts_positive(1)[OF assms(1) that] by (simp add: part_def)
  then have "0 \<le> sum_by (part S i) xs" "0 \<le> sum_by (part S i) ys"
    by (auto simp: split intro!: sum_by_nonneg)
  then show ?thesis by (simp add: payment_amount_part split)
qed

lemma amounts_nonneg:
  assumes "payment_constraints d"
  shows "0 \<le> settled_amount d i" and "0 \<le> payment_amount d S i"
  using payment_amounts_positive[OF assms]
  by (force simp: settled_amount_def payment_amount_def intro!: sum_by_nonneg)+

text \<open>A payment that holds part of a check is one of a frozen check.\<close>

lemma reserving_check_frozen:
  assumes inv: "payment_inv d" and p: "p \<in> set (restaurant_payments d)" "pay_state p \<in> RESERVING_STATES"
    and c: "c \<in> set (restaurant_checks d)" "chk_id c = pay_check_id p"
  shows "chk_status c = CHK_FROZEN"
proof -
  from inv have ok: "payment_constraints d" and funded: "check_funded d c"
    using c(1) by (simp_all add: payment_inv_def payment_books_def)
  have "0 < part RESERVING_STATES (chk_id c) p"
    using p payment_amounts_positive(1)[OF ok p(1)] c(2) by (simp add: part_def)
  also have "\<dots> \<le> payment_amount d RESERVING_STATES (chk_id c)"
    by (rule payment_amount_ge_part[OF ok p(1)])
  finally have "settled_amount d (chk_id c) < chk_liability_total c"
    using funded by (simp add: check_funded_def exposure_def)
  then have "chk_status c \<noteq> CHK_SETTLED" using funded by (auto simp: check_funded_def)
  moreover have "chk_status c \<notin> {CHK_OPEN, CHK_CANCELLED}"
    using funded p(1) c(2) unfolding check_funded_def by metis
  ultimately show ?thesis by (cases "chk_status c") auto
qed

section \<open>Commands of the check service\<close>

text \<open>
  What a command does to the checks, as the payments see it: a check that was not open keeps its state
  and its liability, and any other check stays clear of settlements.
\<close>

definition unsettled :: "int \<Rightarrow> db \<Rightarrow> bool" where
  "unsettled i d \<longleftrightarrow> (\<forall>a \<in> set (check_allocations d). al_check_id a = i \<longrightarrow> al_state a \<noteq> AL_SETTLED)"

definition same_check :: "db \<Rightarrow> db \<Rightarrow> restaurant_check \<Rightarrow> restaurant_check \<Rightarrow> bool" where
  "same_check d e c c' \<longleftrightarrow>
     chk_id c' = chk_id c \<and> chk_status c \<noteq> CHK_OPEN \<and> chk_status c' = chk_status c
     \<and> chk_liability_total c' = chk_liability_total c
     \<and> filter (\<lambda>a. al_check_id a = chk_id c) (check_allocations e)
         = filter (\<lambda>a. al_check_id a = chk_id c) (check_allocations d)"

definition fresh_check :: "db \<Rightarrow> db \<Rightarrow> restaurant_check \<Rightarrow> bool" where
  "fresh_check d e c' \<longleftrightarrow>
     chk_status c' \<noteq> CHK_SETTLED \<and> 0 \<le> chk_liability_total c' \<and> unsettled (chk_id c') e
     \<and> (\<forall>c \<in> set (restaurant_checks d). chk_id c = chk_id c' \<longrightarrow> chk_status c = CHK_OPEN)"

definition checks_advance :: "db \<Rightarrow> db \<Rightarrow> bool" where
  "checks_advance d e \<longleftrightarrow>
     restaurant_payments e = restaurant_payments d \<and> payment_attempts e = payment_attempts d
     \<and> check_settlements e = check_settlements d
     \<and> (\<forall>c \<in> set (restaurant_checks d). \<exists>c' \<in> set (restaurant_checks e).
          chk_id c' = chk_id c \<and> chk_tenant_id c' = chk_tenant_id c)
     \<and> (\<forall>c' \<in> set (restaurant_checks e).
          fresh_check d e c' \<or> (\<exists>c \<in> set (restaurant_checks d). same_check d e c c'))"

lemma no_payments_no_exposure:
  assumes "payment_books d" "\<forall>p \<in> set (restaurant_payments d). pay_check_id p \<noteq> i"
  shows "exposure d i = 0"
proof -
  have "payment_amount d S i = 0" for S
    using assms(2) by (simp add: payment_amount_def filter_empty_conv)
  moreover have "\<forall>s \<in> set (check_settlements d). st_check_id s \<noteq> i"
    using assms unfolding payment_books_def settlements_match_def settles_def by metis
  then have "settled_amount d i = 0" by (simp add: settled_amount_def filter_empty_conv)
  ultimately show ?thesis by (simp add: exposure_def)
qed

lemma same_check_funded:
  assumes "check_funded d c" "same_check d e c c'"
    and "restaurant_payments e = restaurant_payments d" "check_settlements e = check_settlements d"
  shows "check_funded e c'"
proof -
  have allocs: "a \<in> set (check_allocations e) \<longleftrightarrow> a \<in> set (check_allocations d)"
    if "al_check_id a = chk_id c" for a
    by (rule mem_by_filter[where Q = "\<lambda>a. al_check_id a = chk_id c"])
      (use assms(2) that in \<open>simp_all add: same_check_def\<close>)
  have "exposure e i = exposure d i" "settled_amount e i = settled_amount d i" for i
    using assms(3,4) by (simp_all add: exposure_def settled_amount_def payment_amount_def)
  then show ?thesis
    using assms(1,2,3) allocs unfolding check_funded_def same_check_def by auto
qed

lemma advance_keeps_books:
  assumes books: "payment_books d" and adv: "checks_advance d e"
  shows "payment_books e"
proof -
  from adv have same: "restaurant_payments e = restaurant_payments d"
    "payment_attempts e = payment_attempts d" "check_settlements e = check_settlements d"
    by (simp_all add: checks_advance_def)
  have "payment_refs_ok e"
    unfolding payment_refs_ok_def same
  proof
    fix p assume "p \<in> set (restaurant_payments d)"
    with books obtain c where "c \<in> set (restaurant_checks d)" "chk_id c = pay_check_id p"
      "chk_tenant_id c = pay_tenant_id p"
      unfolding payment_books_def payment_refs_ok_def by blast
    with adv show "\<exists>c \<in> set (restaurant_checks e). chk_id c = pay_check_id p
        \<and> chk_tenant_id c = pay_tenant_id p"
      unfolding checks_advance_def by metis
  qed
  moreover have "check_funded e c'" if c': "c' \<in> set (restaurant_checks e)" for c'
  proof -
    from adv c' consider "fresh_check d e c'"
      | c where "c \<in> set (restaurant_checks d)" "same_check d e c c'"
      unfolding checks_advance_def by blast
    then show ?thesis
    proof cases
      case 1
      have none: "\<forall>p \<in> set (restaurant_payments d). pay_check_id p \<noteq> chk_id c'"
      proof
        fix p assume p: "p \<in> set (restaurant_payments d)"
        with books obtain c where c: "c \<in> set (restaurant_checks d)" "chk_id c = pay_check_id p"
          unfolding payment_books_def payment_refs_ok_def by blast
        show "pay_check_id p \<noteq> chk_id c'"
        proof
          assume "pay_check_id p = chk_id c'"
          with 1 c have "chk_status c = CHK_OPEN" by (simp add: fresh_check_def)
          with books_check(2)[OF books c(1) _ p] c(2) show False by simp
        qed
      qed
      then have "exposure d (chk_id c') = 0" by (rule no_payments_no_exposure[OF books])
      then have "exposure e (chk_id c') = 0"
        using same by (simp add: exposure_def settled_amount_def payment_amount_def)
      with 1 none show ?thesis by (simp add: check_funded_def fresh_check_def unsettled_def same)
    next
      case 2
      with books same_check_funded[OF _ 2(2) same(1,3)] show ?thesis by (simp add: payment_books_def)
    qed
  qed
  ultimately show ?thesis
    using books by (simp add: payment_books_def payment_keys_ok_def settlements_match_def claims_match_def same)
qed

text \<open>The allocations of every check but one stay.\<close>

definition others_kept :: "int \<Rightarrow> db \<Rightarrow> db \<Rightarrow> bool" where
  "others_kept i d e \<longleftrightarrow> filter (\<lambda>a. al_check_id a \<noteq> i) (check_allocations e)
     = filter (\<lambda>a. al_check_id a \<noteq> i) (check_allocations d)"

lemma kept_same_check:
  assumes "others_kept i d e" "chk_id c \<noteq> i" "chk_status c \<noteq> CHK_OPEN"
  shows "same_check d e c c"
proof -
  have "filter (\<lambda>a. al_check_id a = chk_id c) xs
      = filter (\<lambda>a. al_check_id a = chk_id c) (filter (\<lambda>a. al_check_id a \<noteq> i) xs)" for xs
    using assms(2) by (induction xs) auto
  then have "filter (\<lambda>a. al_check_id a = chk_id c) (check_allocations e)
      = filter (\<lambda>a. al_check_id a = chk_id c) (check_allocations d)"
    using assms(1) unfolding others_kept_def by metis
  with assms(3) show ?thesis by (simp add: same_check_def)
qed

lemma kept_unsettled:
  assumes "others_kept i d e" "j \<noteq> i" "unsettled j d"
  shows "unsettled j e"
proof -
  have "a \<in> set (check_allocations e) \<longleftrightarrow> a \<in> set (check_allocations d)" if "al_check_id a = j" for a
    by (rule mem_by_filter[where Q = "\<lambda>a. al_check_id a \<noteq> i"])
      (use assms(1,2) that in \<open>simp_all add: others_kept_def\<close>)
  with assms(3) show ?thesis by (auto simp: unsettled_def)
qed

text \<open>Another check is fresh or the same.\<close>

lemma other_check:
  assumes "check_inv d" "others_kept i d e" "c \<in> set (restaurant_checks d)" "chk_id c \<noteq> i"
    and "payment_books d"
  shows "fresh_check d e c \<or> (\<exists>r \<in> set (restaurant_checks d). same_check d e r c)"
proof (cases "chk_status c = CHK_OPEN")
  case True
  have "unsettled (chk_id c) d"
    using assms(3,5) True unfolding payment_books_def check_funded_def unsettled_def by fastforce
  moreover have "\<forall>r \<in> set (restaurant_checks d). chk_id r = chk_id c \<longrightarrow> r = c"
    using assms(1,3) same_row_if_same_id[of chk_id "restaurant_checks d"]
    by (auto simp: check_inv_def check_keys_ok_def)
  ultimately have "fresh_check d e c"
    using True assms check_inv_rows(5)[OF assms(1,3)] kept_unsettled[OF assms(2,4)]
    by (auto simp: fresh_check_def restaurant_check_ok_def)
  then show ?thesis ..
next
  case False
  with kept_same_check[OF assms(2,4)] assms(3) show ?thesis by blast
qed

lemma advance_change:
  assumes inv: "check_inv d" "payment_books d"
    and c: "c \<in> set (restaurant_checks d)" "chk_id c' = chk_id c" "chk_tenant_id c' = chk_tenant_id c"
    and e: "restaurant_checks e = modify chk_id (chk_id c) (\<lambda>_. c') (restaurant_checks d)"
      "others_kept (chk_id c) d e" "restaurant_payments e = restaurant_payments d"
      "payment_attempts e = payment_attempts d" "check_settlements e = check_settlements d"
    and change: "same_check d e c c' \<or> fresh_check d e c'"
  shows "checks_advance d e"
proof -
  have dist: "distinct (map chk_id (restaurant_checks d))"
    using inv(1) by (simp add: check_inv_def check_keys_ok_def)
  have in_e: "r \<in> set (restaurant_checks e) \<longleftrightarrow> r = c' \<or> (r \<in> set (restaurant_checks d) \<and> chk_id r \<noteq> chk_id c)"
    for r unfolding e(1) by (rule modify_const_in[OF dist c(1)]) (simp_all add: c(2))
  have "\<exists>r' \<in> set (restaurant_checks e). chk_id r' = chk_id r \<and> chk_tenant_id r' = chk_tenant_id r"
    if r: "r \<in> set (restaurant_checks d)" for r
  proof (cases "chk_id r = chk_id c")
    case True
    then have "r = c" by (rule same_row_if_same_id[OF dist r c(1)])
    with in_e[of c'] c show ?thesis by auto
  qed (use in_e[of r] r in auto)
  moreover have "fresh_check d e r \<or> (\<exists>x \<in> set (restaurant_checks d). same_check d e x r)"
    if "r \<in> set (restaurant_checks e)" for r
    using that in_e[of r] change c(1) other_check[OF inv(1) e(2) _ _ inv(2)] by blast
  ultimately show ?thesis using e by (simp add: checks_advance_def)
qed

lemma payment_tables_frame [simp]:
  "restaurant_payments (record_command sha ctx key op request c d) = restaurant_payments d"
  "restaurant_payments (write_version sha ctx now c g x d) = restaurant_payments d"
  "restaurant_payments (replace_check c d) = restaurant_payments d"
  "restaurant_payments (include_diners ctx now c rel diners d) = restaurant_payments d"
  "restaurant_payments (claim_orders ctx now c orders d) = restaurant_payments d"
  "restaurant_payments (lock_tables ctx now c sessions d) = restaurant_payments d"
  "restaurant_payments (release_members a now r v P d) = restaurant_payments d"
  "restaurant_payments (release_allocations a now r v Q d) = restaurant_payments d"
  "restaurant_payments (release_scopes a now r R d) = restaurant_payments d"
  by (simp_all add: record_command_def write_version_def Let_def replace_check_def include_diners_def
      claim_orders_def lock_tables_def release_members_def release_allocations_def release_scopes_def)

lemma attempt_tables_frame [simp]:
  "payment_attempts (record_command sha ctx key op request c d) = payment_attempts d"
  "payment_attempts (write_version sha ctx now c g x d) = payment_attempts d"
  "payment_attempts (replace_check c d) = payment_attempts d"
  "payment_attempts (include_diners ctx now c rel diners d) = payment_attempts d"
  "payment_attempts (claim_orders ctx now c orders d) = payment_attempts d"
  "payment_attempts (lock_tables ctx now c sessions d) = payment_attempts d"
  "payment_attempts (release_members a now r v P d) = payment_attempts d"
  "payment_attempts (release_allocations a now r v Q d) = payment_attempts d"
  "payment_attempts (release_scopes a now r R d) = payment_attempts d"
  by (simp_all add: record_command_def write_version_def Let_def replace_check_def include_diners_def
      claim_orders_def lock_tables_def release_members_def release_allocations_def release_scopes_def)

lemma settlement_tables_frame [simp]:
  "check_settlements (record_command sha ctx key op request c d) = check_settlements d"
  "check_settlements (write_version sha ctx now c g x d) = check_settlements d"
  "check_settlements (replace_check c d) = check_settlements d"
  "check_settlements (include_diners ctx now c rel diners d) = check_settlements d"
  "check_settlements (claim_orders ctx now c orders d) = check_settlements d"
  "check_settlements (lock_tables ctx now c sessions d) = check_settlements d"
  "check_settlements (release_members a now r v P d) = check_settlements d"
  "check_settlements (release_allocations a now r v Q d) = check_settlements d"
  "check_settlements (release_scopes a now r R d) = check_settlements d"
  by (simp_all add: record_command_def write_version_def Let_def replace_check_def include_diners_def
      claim_orders_def lock_tables_def release_members_def release_allocations_def release_scopes_def)

text \<open>What releasing and claiming leave of the allocations.\<close>

lemma claim_unsettled: "unsettled i d \<Longrightarrow> unsettled i (claim_orders ctx now c orders d)"
  by (auto simp: unsettled_def claim_orders_def insert_rows_def dest!: new_rows_in)

lemma release_unsettled: "unsettled i d \<Longrightarrow> unsettled i (release_allocations a now r v P d)"
  by (auto simp: unsettled_def release_allocations_def set_modify_where split: if_splits)

lemma unsettled_cong: "check_allocations e = check_allocations d \<Longrightarrow> unsettled i e = unsettled i d"
  by (simp add: unsettled_def)

lemma claim_kept: "others_kept (chk_id c) d e \<Longrightarrow> others_kept (chk_id c) d (claim_orders ctx now c orders e)"
  by (simp add: others_kept_def claim_orders_def filter_insert_rows)

lemma release_kept:
  assumes "others_kept i d e" "\<And>x. x \<in> set (check_allocations e) \<Longrightarrow> P x \<Longrightarrow> al_check_id x = i"
  shows "others_kept i d (release_allocations a now r v P e)"
  using assms by (simp add: others_kept_def release_allocations_def filter_modify_where)

lemma kept_cong: "check_allocations e = check_allocations d \<Longrightarrow> others_kept i d e"
  by (simp add: others_kept_def)

lemma open_unsettled:
  assumes "payment_books d" "c \<in> set (restaurant_checks d)" "chk_status c = CHK_OPEN"
  shows "unsettled (chk_id c) d"
  using books_check(4)[OF assms(1,2)] assms(3) by (fastforce simp: unsettled_def)

lemma open_fresh:
  assumes "check_inv d" "c \<in> set (restaurant_checks d)" "chk_status c = CHK_OPEN"
    and "chk_id c' = chk_id c" "chk_status c' \<noteq> CHK_SETTLED" "0 \<le> chk_liability_total c'"
    and "unsettled (chk_id c) e"
  shows "fresh_check d e c'"
proof -
  have "\<forall>r \<in> set (restaurant_checks d). chk_id r = chk_id c \<longrightarrow> r = c"
    using assms(1,2) same_row_if_same_id[of chk_id "restaurant_checks d"]
    by (auto simp: check_inv_def check_keys_ok_def)
  with assms show ?thesis by (auto simp: fresh_check_def)
qed

text \<open>The commands that write a new version of an open check.\<close>

lemma revised_advance:
  assumes inv: "check_inv d" "payment_books d" and c: "c \<in> set (restaurant_checks d)" "chk_status c = CHK_OPEN"
    and c': "chk_id c' = chk_id c" "chk_tenant_id c' = chk_tenant_id c" "chk_status c' \<noteq> CHK_SETTLED"
    and e: "restaurant_checks e = restaurant_checks d" "restaurant_payments e = restaurant_payments d"
      "payment_attempts e = payment_attempts d" "check_settlements e = check_settlements d"
      "others_kept (chk_id c) d e" "unsettled (chk_id c) e"
    and ok: "check_constraints (revised sha ctx now c' g x key op request e)"
  shows "checks_advance d (revised sha ctx now c' g x key op request e)" (is "checks_advance d ?f")
proof -
  let ?c = "set_fingerprint (next_fingerprint sha c' g x e) c'"
  have checks: "restaurant_checks ?f = modify chk_id (chk_id c) (\<lambda>_. ?c) (restaurant_checks d)"
    by (simp add: revised_checks c' e(1))
  have allocs: "check_allocations ?f = check_allocations e" by (rule revised_tables)
  have "?c \<in> set (restaurant_checks ?f)"
    unfolding checks set_modify using c(1) by force
  with ok have "0 \<le> chk_liability_total c'"
    by (auto simp: check_constraints_def list_all_iff restaurant_check_ok_def)
  then have "fresh_check d ?f ?c"
    by (intro open_fresh[OF inv(1) c]) (use c' e(6) unsettled_cong[OF allocs] in simp_all)
  then show ?thesis
    by (intro advance_change[OF inv c(1) _ _ checks])
      (use c' e(2-5) in \<open>simp_all add: revised_def others_kept_def\<close>)
qed

lemma locked_open:
  assumes "locked_check d tenant i version = Inr c"
  shows "c \<in> set (restaurant_checks d)" "chk_status c = CHK_OPEN" "chk_tenant_id c = tenant" "chk_id c = i"
  using locked_check_Inr[OF assms] by simp_all

lemma add_member_advance:
  assumes inv: "check_inv d" "payment_books d" and run: "add_member_run sha ctx now i s version d = Inr (c', d1)"
    and ok: "check_constraints (record_command sha ctx key op request c' d1)"
  shows "checks_advance d (record_command sha ctx key op request c' d1)"
  using run
proof (cases rule: add_member_success)
  case (1 c sessions diners convs orders)
  note c = locked_open[OF 1(1)]
  let ?e = "claim_orders ctx now c' orders (include_diners ctx now c' (\<lambda>_. REL_INCLUDED) [hd diners] d)"
  have id: "chk_id c' = chk_id c" by (simp add: 1(8))
  have kept: "others_kept (chk_id c) d ?e"
    unfolding id[symmetric] by (rule claim_kept) (simp add: kept_cong)
  have clear: "unsettled (chk_id c) ?e"
    by (rule claim_unsettled) (use open_unsettled[OF inv(2) c(1,2)] in \<open>simp add: unsettled_def\<close>)
  show ?thesis
    unfolding 1(9) revised_def[symmetric]
    by (rule revised_advance[OF inv c(1,2) id _ _ _ _ _ _ kept clear])
      (use ok c in \<open>simp_all add: 1(8,9) revised_def set_totals_def\<close>)
qed

lemma remove_member_advance:
  assumes inv: "check_inv d" "payment_books d"
    and run: "remove_member_run sha ctx now i s version reason d = Inr (c', d1)"
    and ok: "check_constraints (record_command sha ctx key op request c' d1)"
  shows "checks_advance d (record_command sha ctx key op request c' d1)"
  using run
proof (cases rule: remove_member_success)
  case (1 c m)
  note c = locked_open[OF 1(1)]
  let ?f = "release_members (actor_values ctx) now reason (chk_version c') (\<lambda>x. cm_id x = cm_id m) d"
  let ?e = "release_allocations (actor_values ctx) now reason (chk_version c') (owned_by_diner c s) ?f"
  have id: "chk_id c' = chk_id c" by (simp add: 1(6))
  have kept: "others_kept (chk_id c) d ?e"
    by (rule release_kept) (simp_all add: kept_cong owned_by_diner_def)
  have clear: "unsettled (chk_id c) ?e"
    by (rule release_unsettled) (use open_unsettled[OF inv(2) c(1,2)] in \<open>simp add: unsettled_def\<close>)
  show ?thesis
    unfolding 1(7) revised_def[symmetric]
    by (rule revised_advance[OF inv c(1,2) id _ _ _ _ _ _ kept clear])
      (use ok c in \<open>simp_all add: 1(6,7) revised_def set_totals_def\<close>)
qed

lemma transfer_advance:
  assumes inv: "check_inv d" "payment_books d"
    and run: "transfer_controller_run sha ctx now i s version d = Inr (c', d1)"
    and ok: "check_constraints (record_command sha ctx key op request c' d1)"
  shows "checks_advance d (record_command sha ctx key op request c' d1)"
  using run
proof (cases rule: transfer_controller_success)
  case (1 c)
  note c = locked_open[OF 1(1)]
  let ?e = "d\<lparr>check_members := modify_where (\<lambda>m. cm_check_id m = chk_id c \<and> cm_active_slot m = Some 1)
       (hand_over s) (check_members d)\<rparr>"
  have clear: "unsettled (chk_id c) ?e"
    using open_unsettled[OF inv(2) c(1,2)] by (simp add: unsettled_def)
  show ?thesis
    unfolding 1(4) revised_def[symmetric]
    by (rule revised_advance[OF inv c(1,2) _ _ _ _ _ _ _ _ clear])
      (use ok c in \<open>simp_all add: 1(3,4) revised_def kept_cong\<close>)
qed

lemma gratuity_advance:
  assumes inv: "check_inv d" "payment_books d"
    and run: "update_gratuity_run sha ctx now i version g x d = Inr (c', d1)"
    and ok: "check_constraints (record_command sha ctx key op request c' d1)"
  shows "checks_advance d (record_command sha ctx key op request c' d1)"
  using run
proof (cases rule: update_gratuity_success)
  case (1 c amount)
  note c = locked_open[OF 1(1)]
  let ?e = "d\<lparr>check_gratuities := check_gratuities d @ [gratuity_row d ctx now c' g x amount]\<rparr>"
  have clear: "unsettled (chk_id c) ?e"
    using open_unsettled[OF inv(2) c(1,2)] by (simp add: unsettled_def)
  show ?thesis
    unfolding 1(5) revised_def[symmetric]
    by (rule revised_advance[OF inv c(1,2) _ _ _ _ _ _ _ _ clear])
      (use ok c in \<open>simp_all add: 1(4,5) revised_def kept_cong set_totals_def\<close>)
qed

lemma cancel_advance:
  assumes inv: "check_inv d" "payment_books d"
    and run: "cancel_check_run sha ctx now i version reason d = Inr (c', d1)"
    and ok: "check_constraints (record_command sha ctx key op request c' d1)"
  shows "checks_advance d (record_command sha ctx key op request c' d1)"
  using run
proof (cases rule: cancel_success)
  case (1 c)
  note c = locked_open[OF 1(1)]
  let ?mem = "\<lambda>m. cm_check_id m = chk_id c \<and> cm_active_slot m = Some 1"
  let ?all = "\<lambda>a. al_check_id a = chk_id c \<and> al_ownership_slot a = Some 1"
  let ?f = "release_allocations (actor_values ctx) now reason (chk_version c') ?all
       (release_members (actor_values ctx) now reason (chk_version c') ?mem d)"
  let ?e = "release_scopes (actor_values ctx) now reason
     (\<lambda>t. ts_check_id t = chk_id c \<and> ts_active_slot t = Some 1) ?f"
  have "others_kept (chk_id c) d ?f" by (rule release_kept) (simp_all add: kept_cong)
  then have kept: "others_kept (chk_id c) d ?e" by (simp add: others_kept_def)
  have "unsettled (chk_id c) ?f"
    by (rule release_unsettled) (use open_unsettled[OF inv(2) c(1,2)] in \<open>simp add: unsettled_def\<close>)
  then have clear: "unsettled (chk_id c) ?e" by (simp add: unsettled_def)
  show ?thesis
    unfolding 1(5) revised_def[symmetric]
    by (rule revised_advance[OF inv c(1,2) _ _ _ _ _ _ _ kept clear])
      (use ok c in \<open>simp_all add: 1(4,5) revised_def cancelled_check_def\<close>)
qed

lemma freeze_advance:
  assumes inv: "check_inv d" "payment_books d" and run: "freeze_check_run ctx now i version d = Inr (c', d1)"
  shows "checks_advance d (record_command sha ctx key op request c' d1)"
  using run
proof (cases rule: freeze_success)
  case (1 c sessions diners convs)
  note c = locked_open[OF 1(1)]
  let ?e = "record_command sha ctx key op request c' d1"
  have clear: "unsettled (chk_id c) ?e"
    using open_unsettled[OF inv(2) c(1,2)] by (simp add: unsettled_def 1(7))
  have "0 \<le> chk_liability_total c"
    using check_inv_rows(5)[OF inv(1) c(1)] by (simp add: restaurant_check_ok_def)
  then have "fresh_check d ?e c'"
    by (intro open_fresh[OF inv(1) c(1,2) _ _ _ clear]) (simp_all add: 1(6) frozen_check_def)
  then show ?thesis
    by (intro advance_change[OF inv c(1), of c'])
      (simp_all add: 1(6,7) frozen_check_def replace_check_def[of _ d] kept_cong others_kept_def)
qed

lemma decide_advance:
  assumes inv: "check_inv d" "payment_books d"
    and run: "decide_continuation_run ctx now i version decision d = Inr (c', d1)"
  shows "checks_advance d (record_command sha ctx key op request c' d1)"
  using run
proof (cases rule: decide_success)
  case (1 c)
  have c: "c \<in> set (restaurant_checks d)" using 1(1) by (auto dest: find_SomeD)
  let ?e = "record_command sha ctx key op request c' d1"
  have "check_allocations ?e = check_allocations d" by (simp add: 1(9))
  moreover from this have "same_check d ?e c c'"
    by (simp add: same_check_def 1(4,8) decided_check_def)
  ultimately show ?thesis
    by (intro advance_change[OF inv c, of c'])
      (simp_all add: 1(8,9) decided_check_def replace_check_def[of _ d] kept_cong)
qed

lemma create_advance:
  assumes inv: "check_inv d" "payment_books d"
    and run: "create_check_run sha ctx now sel ctl members_only allow tables d = Inr (c, d1)"
    and ok: "check_constraints (record_command sha ctx key op request c d1)"
  shows "checks_advance d (record_command sha ctx key op request c d1)"
  using run
proof (cases rule: create_success)
  case (1 sessions locked convs orders diners)
  let ?t = "filter (\<lambda>s. ss_id s \<in> set tables) sessions"
  let ?rel = "\<lambda>s. if ctl = Some (ds_id s) then REL_CONTROLLER else REL_INCLUDED"
  let ?b = "d\<lparr>restaurant_checks := restaurant_checks d @ [c]\<rparr>"
  let ?e = "claim_orders ctx now c orders (lock_tables ctx now c ?t (include_diners ctx now c ?rel diners ?b))"
  let ?c = "set_fingerprint (next_fingerprint sha c None 0 ?e) c"
  let ?f = "record_command sha ctx key op request c d1"
  from 1(10) have c: "c = created_check d ctx now (hd diners) ctl (ro_currency (hd orders))
      (sum_by ro_payable_total orders)" and d1: "d1 = write_version sha ctx now c None 0 ?e"
    by (simp_all add: open_new_check_def Let_def)
  have fresh: "chk_id c \<notin> chk_id ` set (restaurant_checks d)"
    by (simp add: c created_check_def next_id_fresh)
  have "modify chk_id (chk_id c) h (restaurant_checks d) = restaurant_checks d" for h
    using fresh by (rule modify_absent)
  then have checks: "restaurant_checks ?f = restaurant_checks d @ [?c]"
    by (simp add: d1 write_version_checks) (simp add: modify_def)
  have kept: "others_kept (chk_id c) d ?f"
    using claim_kept[of c d "lock_tables ctx now c ?t (include_diners ctx now c ?rel diners ?b)"]
    by (simp add: d1 others_kept_def)
  have "al_check_id ` set (check_allocations d) \<subseteq> chk_id ` set (restaurant_checks d)"
    using inv(1) by (simp add: check_inv_def check_refs_ok_def)
  then have "unsettled (chk_id c) d"
    using fresh unfolding unsettled_def by (metis image_subset_iff)
  then have "unsettled (chk_id c) ?e" by (intro claim_unsettled) (simp add: unsettled_def)
  then have clear: "unsettled (chk_id c) ?f" by (simp add: d1 unsettled_def)
  have "?c \<in> set (restaurant_checks ?f)" unfolding checks by simp
  with ok have "0 \<le> chk_liability_total c"
    by (auto simp: check_constraints_def list_all_iff restaurant_check_ok_def)
  moreover have "chk_status c \<noteq> CHK_SETTLED" by (simp add: c created_check_def)
  moreover have "\<forall>r \<in> set (restaurant_checks d). chk_id r \<noteq> chk_id c"
    using fresh by (metis image_eqI)
  ultimately have new: "fresh_check d ?f ?c"
    using clear by (simp add: fresh_check_def)
  have "fresh_check d ?f r \<or> (\<exists>x \<in> set (restaurant_checks d). same_check d ?f x r)"
    if "r \<in> set (restaurant_checks ?f)" for r
  proof (cases "r = ?c")
    case False
    with that have r: "r \<in> set (restaurant_checks d)" unfolding checks by simp
    with fresh have "chk_id r \<noteq> chk_id c" by (metis image_eqI)
    then show ?thesis by (rule other_check[OF inv(1) kept r _ inv(2)])
  qed (use new in simp)
  then show ?thesis
    unfolding checks_advance_def checks by (auto simp: d1)
qed

lemma run_advance:
  assumes inv: "check_inv d" "payment_books d" and run: "run_check sha ctx now q d = Inr (c, d1)"
    and ok: "check_constraints (record_command sha ctx key op request c d1)"
  shows "checks_advance d (record_command sha ctx key op request c d1)"
  using run ok
  by (cases q)
    (auto simp: bind_result_Inr_iff intro: create_advance[OF inv] add_member_advance[OF inv]
      remove_member_advance[OF inv] transfer_advance[OF inv] gratuity_advance[OF inv]
      freeze_advance[OF inv] cancel_advance[OF inv] decide_advance[OF inv])

lemma advance_keeps_constraints:
  "checks_advance d e \<Longrightarrow> payment_constraints e = payment_constraints d"
  by (simp add: checks_advance_def payment_constraints_def)

lemma check_command_keeps_payments:
  assumes inv: "check_inv d" "payment_inv d" and run: "execute_check sha ctx now key q d = Inr ((v, b), d')"
  shows "payment_inv d'"
  using run
proof (cases rule: execute_success)
  case replay
  with inv show ?thesis by simp
next
  case (new operation request check d1)
  from inv(2) have books: "payment_books d" and cons: "payment_constraints d"
    by (simp_all add: payment_inv_def)
  have "checks_advance d d'"
    unfolding new(5) by (rule run_advance[OF inv(1) books new(4)]) (use new(6) in \<open>simp add: new(5)\<close>)
  with advance_keeps_books[OF books] advance_keeps_constraints cons show ?thesis
    by (simp add: payment_inv_def)
qed

end
