(* ===== verification/PaymentSteps.thy ===== *)
theory PaymentSteps
  imports PaymentInvariant
begin

text \<open>
  Each transaction of the payment service keeps the invariant of the payments and that of the checks:
  the reservation with its freeze, the claim, the finish with its settlement, and the fence.
\<close>

section \<open>Changing one payment row\<close>

lemma modify_same:
  assumes "distinct (map rid rows)" "r \<in> set rows" "rid r = i"
  shows "modify rid i (\<lambda>_. r) rows = rows"
  unfolding modify_def by (rule map_idI) (use assms same_row_if_same_id[OF assms(1)] in auto)

lemma modify_eq_const:
  assumes "distinct (map rid rows)" "r \<in> set rows" "rid r = i"
  shows "modify rid i f rows = modify rid i (\<lambda>_. f r) rows"
  unfolding modify_def
  by (rule map_cong[OF refl]) (use assms same_row_if_same_id[OF assms(1)] in auto)

lemma modify_const_twice:
  assumes "rid a = i"
  shows "modify rid i (\<lambda>_. b) (modify rid i (\<lambda>_. a) rows) = modify rid i (\<lambda>_. b) rows"
  using assms by (induction rows) (auto simp: modify_def)

lemma books_change_payment:
  assumes books: "payment_books d" and p: "p \<in> set (restaurant_payments d)"
    and p': "pay_id p' = pay_id p" "pay_check_id p' = pay_check_id p" "pay_tenant_id p' = pay_tenant_id p"
      "pay_state p \<noteq> PAY_SUCCEEDED" "pay_state p' \<noteq> PAY_SUCCEEDED"
    and e: "restaurant_payments e = modify pay_id (pay_id p) (\<lambda>_. p') (restaurant_payments d)"
      "check_settlements e = check_settlements d" "restaurant_checks e = restaurant_checks d"
      "check_allocations e = check_allocations d" "distinct (map att_id (payment_attempts e))"
    and others: "\<And>a. a \<in> set (payment_attempts d) \<Longrightarrow> att_payment_id a \<noteq> pay_id p \<Longrightarrow> a \<in> set (payment_attempts e)"
    and claim: "pay_state p' = PAY_IN_PROGRESS \<Longrightarrow> \<exists>a \<in> set (payment_attempts e). att_payment_id a = pay_id p
        \<and> Some (att_claim_token a) = pay_claim_token p' \<and> att_result a = RES_IN_PROGRESS"
    and bound: "\<And>c. c \<in> set (restaurant_checks d) \<Longrightarrow> chk_id c = pay_check_id p \<Longrightarrow>
        exposure d (chk_id c) - part RESERVING_STATES (chk_id c) p + part RESERVING_STATES (chk_id c) p'
          \<le> chk_liability_total c"
  shows "payment_books e"
proof -
  from books have keys: "distinct (map pay_id (restaurant_payments d))"
    by (simp add: payment_books_def payment_keys_ok_def)
  have in_e: "q \<in> set (restaurant_payments e) \<longleftrightarrow> q = p' \<or> (q \<in> set (restaurant_payments d) \<and> pay_id q \<noteq> pay_id p)"
    for q unfolding e(1) by (rule modify_const_in[OF keys p]) (simp_all add: p')
  have ids: "map pay_id (restaurant_payments e) = map pay_id (restaurant_payments d)"
    unfolding e(1) by (rule modify_const_ids) (simp add: p')
  have succeeded: "q \<in> set (restaurant_payments e) \<longleftrightarrow> q \<in> set (restaurant_payments d)"
    if "pay_state q = PAY_SUCCEEDED" for q
    using that in_e p' p same_row_if_same_id[OF keys] by metis
  have "settlements_match e"
    using books succeeded unfolding payment_books_def settlements_match_def e settles_def by metis
  moreover have "payment_refs_ok e"
    using books p p' in_e unfolding payment_books_def payment_refs_ok_def e(3) by metis
  moreover have "claims_match e"
    unfolding claims_match_def
  proof (intro ballI impI)
    fix q assume q: "q \<in> set (restaurant_payments e)" "pay_state q = PAY_IN_PROGRESS"
    show "\<exists>a \<in> set (payment_attempts e). att_payment_id a = pay_id q
        \<and> Some (att_claim_token a) = pay_claim_token q \<and> att_result a = RES_IN_PROGRESS"
    proof (cases "q = p'")
      case True
      with claim q p'(1) show ?thesis by simp
    next
      case False
      with q in_e have "q \<in> set (restaurant_payments d)" and other: "pay_id q \<noteq> pay_id p" by auto
      with books q obtain a where "a \<in> set (payment_attempts d)" "att_payment_id a = pay_id q"
        "Some (att_claim_token a) = pay_claim_token q" "att_result a = RES_IN_PROGRESS"
        unfolding payment_books_def claims_match_def by metis
      with others other show ?thesis by metis
    qed
  qed
  moreover have "check_funded e c" if c: "c \<in> set (restaurant_checks e)" for c
  proof -
    have c: "c \<in> set (restaurant_checks d)" using c e(3) by simp
    have settled: "settled_amount e i = settled_amount d i" for i by (rule settled_amount_cong[OF e(2)])
    have "payment_amount e S i = payment_amount d S i - part S i p + part S i p'" for S i
      by (rule payment_amount_modify[OF e(1) keys p])
    then have exp: "exposure e (chk_id c) = exposure d (chk_id c) - part RESERVING_STATES (chk_id c) p
        + part RESERVING_STATES (chk_id c) p'"
      by (simp add: exposure_def settled)
    have "exposure e (chk_id c) \<le> chk_liability_total c"
    proof (cases "chk_id c = pay_check_id p")
      case False
      then show ?thesis using books_check(1)[OF books c] p' by (simp add: exp part_def)
    qed (use bound[OF c] exp in simp)
    moreover have "\<forall>q \<in> set (restaurant_payments e). pay_check_id q \<noteq> chk_id c"
      if "chk_status c = CHK_OPEN \<or> chk_status c = CHK_CANCELLED"
      using books_check(2)[OF books c that] in_e p p'(2) by metis
    ultimately show ?thesis
      using books_check(3,4)[OF books c] unfolding check_funded_def settled e(4) by blast
  qed
  ultimately show ?thesis
    using books e(2,5) unfolding payment_books_def payment_keys_ok_def ids by simp
qed

section \<open>Reserving\<close>

lemma authorize_success:
  assumes "authorize_and_freeze ctx now c d = Inr (members, c', d')"
  obtains (opened) "chk_status c = CHK_OPEN" "c' = frozen_check ctx now c" "d' = replace_check c' d"
      "verify_complete d c = Inr ()" "members = active_members d (chk_id c)" "members \<noteq> []"
  | (frozen) "chk_status c = CHK_FROZEN" "c' = c" "d' = d" "members = active_members d (chk_id c)"
      "members \<noteq> []"
  using assms
  by (cases "chk_status c = CHK_OPEN")
    (auto simp: authorize_and_freeze_def Let_def bind_result_Inr_iff split: if_splits sum.splits)

lemma frozen_advance:
  assumes inv: "check_inv d" "payment_books d" and c: "c \<in> set (restaurant_checks d)" "chk_status c = CHK_OPEN"
  shows "checks_advance d (replace_check (frozen_check ctx now c) d)"
proof -
  let ?c = "frozen_check ctx now c" and ?e = "replace_check (frozen_check ctx now c) d"
  have clear: "unsettled (chk_id c) ?e"
    using open_unsettled[OF inv(2) c] by (simp add: unsettled_def)
  have "0 \<le> chk_liability_total c"
    using check_inv_rows(5)[OF inv(1) c(1)] by (simp add: restaurant_check_ok_def)
  then have "fresh_check d ?e ?c"
    by (intro open_fresh[OF inv(1) c _ _ _ clear]) (simp_all add: frozen_check_def)
  then show ?thesis
    by (intro advance_change[OF inv c(1), of ?c])
      (simp_all add: frozen_check_def replace_check_def[of _ d] kept_cong others_kept_def)
qed

text \<open>The check as the payment finds it: frozen, in the table, with the totals it had.\<close>

lemma authorized_check:
  assumes inv: "check_inv d" "payment_books d" and c: "c \<in> set (restaurant_checks d)"
    and auth: "authorize_and_freeze ctx now c d = Inr (members, c', d')"
  shows "payment_books d'" "c' \<in> set (restaurant_checks d')" "chk_status c' = CHK_FROZEN"
    "chk_id c' = chk_id c" "chk_tenant_id c' = chk_tenant_id c"
    "chk_liability_total c' = chk_liability_total c" "chk_version c' = chk_version c"
    "chk_currency c' = chk_currency c" "chk_current_fingerprint c' = chk_current_fingerprint c"
    "restaurant_payments d' = restaurant_payments d" "check_settlements d' = check_settlements d"
    "payment_attempts d' = payment_attempts d" "cash_movements d' = cash_movements d"
    "cash_sessions d' = cash_sessions d" "cash_counts d' = cash_counts d"
proof -
  have dist: "distinct (map chk_id (restaurant_checks d))"
    using inv(1) by (simp add: check_inv_def check_keys_ok_def)
  have "payment_books d' \<and> c' \<in> set (restaurant_checks d')"
    using auth
  proof (cases rule: authorize_success)
    case opened
    have "c' \<in> set (restaurant_checks d')"
      unfolding opened(2,3) replace_check_def using modify_const_in[OF dist c, of "chk_id c" "frozen_check ctx now c"]
      by (simp add: frozen_check_def)
    with advance_keeps_books[OF inv(2) frozen_advance[OF inv c opened(1)]] show ?thesis
      by (simp add: opened(2,3))
  qed (use inv c in simp)
  then show "payment_books d'" "c' \<in> set (restaurant_checks d')" by simp_all
  show "chk_status c' = CHK_FROZEN" "chk_id c' = chk_id c" "chk_tenant_id c' = chk_tenant_id c"
    "chk_liability_total c' = chk_liability_total c" "chk_version c' = chk_version c"
    "chk_currency c' = chk_currency c" "chk_current_fingerprint c' = chk_current_fingerprint c"
    "restaurant_payments d' = restaurant_payments d" "check_settlements d' = check_settlements d"
    "payment_attempts d' = payment_attempts d" "cash_movements d' = cash_movements d"
    "cash_sessions d' = cash_sessions d" "cash_counts d' = cash_counts d"
    using auth by (cases rule: authorize_success; simp add: frozen_check_def replace_check_def)+
qed

lemma books_reserve:
  assumes books: "payment_books d" and keys: "distinct (map chk_id (restaurant_checks d))"
    and c: "c \<in> set (restaurant_checks d)" "chk_status c = CHK_FROZEN"
    and p: "pay_id p = next_id pay_id (restaurant_payments d)" "pay_check_id p = chk_id c"
      "pay_tenant_id p = chk_tenant_id c" "pay_state p = PAY_RESERVED"
      "exposure d (chk_id c) + pay_amount p \<le> chk_liability_total c"
  shows "payment_books (d\<lparr>restaurant_payments := restaurant_payments d @ [p]\<rparr>)" (is "payment_books ?e")
proof -
  have fresh: "pay_id p \<notin> pay_id ` set (restaurant_payments d)" by (simp add: p(1) next_id_fresh)
  have exp: "exposure ?e i = exposure d i + part RESERVING_STATES i p" for i
    using payment_amount_add[of ?e d p RESERVING_STATES i] by (simp add: exposure_def settled_amount_def)
  have "check_funded ?e r" if r: "r \<in> set (restaurant_checks d)" for r
  proof (cases "chk_id r = chk_id c")
    case True
    then have "r = c" using same_row_if_same_id[OF keys r c(1)] by simp
    with books_check(3,4)[OF books c(1)] p c(2) exp[of "chk_id c"] show ?thesis
      by (simp add: check_funded_def part_def RESERVING_STATES_def)
  next
    case False
    have "exposure ?e (chk_id r) \<le> chk_liability_total r"
      using books_check(1)[OF books r] False p(2) by (simp add: exp part_def)
    moreover have "\<forall>q \<in> set (restaurant_payments ?e). pay_check_id q \<noteq> chk_id r"
      if "chk_status r = CHK_OPEN \<or> chk_status r = CHK_CANCELLED"
      using books_check(2)[OF books r that] False p(2) by auto
    moreover have "settled_amount ?e i = settled_amount d i" for i by (simp add: settled_amount_def)
    ultimately show ?thesis
      using books_check(3,4)[OF books r] unfolding check_funded_def by auto
  qed
  moreover have "settlements_match ?e"
    using books p(4) by (auto simp: payment_books_def settlements_match_def)
  moreover have "claims_match ?e" "payment_refs_ok ?e"
    using books p c(1) by (auto simp: payment_books_def claims_match_def payment_refs_ok_def)
  ultimately show ?thesis
    using books fresh by (simp add: payment_books_def payment_keys_ok_def)
qed

section \<open>Settling\<close>

text \<open>A reserving payment of a frozen check becomes a settlement.\<close>

lemma books_apply:
  assumes books: "payment_books d" and p: "p \<in> set (restaurant_payments d)" "pay_state p \<in> RESERVING_STATES"
    and frozen: "\<And>c. c \<in> set (restaurant_checks d) \<Longrightarrow> chk_id c = pay_check_id p \<Longrightarrow> chk_status c = CHK_FROZEN"
    and p': "pay_id p' = pay_id p" "pay_check_id p' = pay_check_id p" "pay_tenant_id p' = pay_tenant_id p"
      "pay_amount p' = pay_amount p" "pay_state p' = PAY_SUCCEEDED"
    and s: "st_id s = next_id st_id (check_settlements d)" "settles s p'"
    and e: "restaurant_payments e = modify pay_id (pay_id p) (\<lambda>_. p') (restaurant_payments d)"
      "check_settlements e = check_settlements d @ [s]" "restaurant_checks e = restaurant_checks d"
      "check_allocations e = check_allocations d" "distinct (map att_id (payment_attempts e))"
    and others: "\<And>a. a \<in> set (payment_attempts d) \<Longrightarrow> att_payment_id a \<noteq> pay_id p \<Longrightarrow> a \<in> set (payment_attempts e)"
  shows "payment_books e"
proof -
  from books have keys: "distinct (map pay_id (restaurant_payments d))"
    by (simp add: payment_books_def payment_keys_ok_def)
  have in_e: "q \<in> set (restaurant_payments e) \<longleftrightarrow> q = p' \<or> (q \<in> set (restaurant_payments d) \<and> pay_id q \<noteq> pay_id p)"
    for q unfolding e(1) by (rule modify_const_in[OF keys p(1)]) (simp_all add: p')
  have ids: "map pay_id (restaurant_payments e) = map pay_id (restaurant_payments d)"
    unfolding e(1) by (rule modify_const_ids) (simp add: p')
  have open_p: "pay_state p \<noteq> PAY_SUCCEEDED" using p(2) by (auto simp: RESERVING_STATES_def)
  have "settlements_match e"
    unfolding settlements_match_def
  proof (intro conjI ballI impI)
    fix t assume "t \<in> set (check_settlements e)"
    then consider "t = s" | "t \<in> set (check_settlements d)" unfolding e(2) by auto
    then show "\<exists>q \<in> set (restaurant_payments e). settles t q"
    proof cases
      case 1
      with s(2) in_e show ?thesis by blast
    next
      case 2
      with books obtain q where q: "q \<in> set (restaurant_payments d)" "settles t q"
        unfolding payment_books_def settlements_match_def by blast
      with open_p have "q \<noteq> p" by (auto simp: settles_def)
      with q(1) p(1) same_row_if_same_id[OF keys] have "pay_id q \<noteq> pay_id p" by metis
      with q in_e show ?thesis by blast
    qed
  next
    fix q assume "q \<in> set (restaurant_payments e)" "pay_state q = PAY_SUCCEEDED"
    with in_e s(2) books show "\<exists>t \<in> set (check_settlements e). settles t q"
      unfolding payment_books_def settlements_match_def e(2) by auto
  qed
  moreover have "payment_refs_ok e"
    using books p p' in_e unfolding payment_books_def payment_refs_ok_def e(3) by metis
  moreover have "claims_match e"
    using books p'(5) in_e others unfolding payment_books_def claims_match_def by (metis payment_state.distinct)
  moreover have "check_funded e c" if c: "c \<in> set (restaurant_checks e)" for c
  proof -
    have c: "c \<in> set (restaurant_checks d)" using c e(3) by simp
    have settled: "settled_amount e (chk_id c) = settled_amount d (chk_id c)
        + (if pay_check_id p = chk_id c then pay_amount p else 0)"
      using settled_amount_add[OF e(2)] s(2) p' by (simp add: settles_def)
    have "payment_amount e S i = payment_amount d S i - part S i p + part S i p'" for S i
      by (rule payment_amount_modify[OF e(1) keys p(1)])
    then have exp: "exposure e (chk_id c) = exposure d (chk_id c)"
      using p(2) p' by (simp add: exposure_def settled part_def RESERVING_STATES_def)
    have "\<forall>q \<in> set (restaurant_payments e). pay_check_id q \<noteq> chk_id c"
      if "chk_status c = CHK_OPEN \<or> chk_status c = CHK_CANCELLED"
      using books_check(2)[OF books c that] in_e p(1) p'(2) by metis
    moreover have "settled_amount e (chk_id c) = chk_liability_total c" if "chk_status c = CHK_SETTLED"
      using books_check(3)[OF books c that] frozen[OF c] that settled by auto
    ultimately show ?thesis
      using books_check(1,4)[OF books c] unfolding check_funded_def exp e(4) by blast
  qed
  moreover have "st_id s \<notin> st_id ` set (check_settlements d)" by (simp add: s(1) next_id_fresh)
  ultimately show ?thesis
    using books e(2,5) unfolding payment_books_def payment_keys_ok_def ids by simp
qed

text \<open>A frozen check that is paid in full is settled with its allocations.\<close>

lemma books_finalize:
  assumes books: "payment_books d" and keys: "distinct (map chk_id (restaurant_checks d))"
    and live: "\<And>a. a \<in> set (check_allocations d) \<Longrightarrow>
        al_ownership_slot a = Some 1 \<longleftrightarrow> al_state a \<noteq> AL_RELEASED"
    and c: "c \<in> set (restaurant_checks d)" "settled_amount d (chk_id c) = chk_liability_total c"
      "chk_status c = CHK_FROZEN"
    and fin: "finalize_full_check ctx now c reference d = Inr e"
  shows "payment_books e"
proof -
  let ?c = "settled_check ctx now c"
  let ?own = "\<lambda>a. al_check_id a = chk_id c \<and> al_ownership_slot a = Some 1"
  from fin have e: "restaurant_checks e = modify chk_id (chk_id c) (\<lambda>_. ?c) (restaurant_checks d)"
      "check_allocations e = modify_where ?own (settle_allocation reference now) (check_allocations d)"
    and same: "restaurant_payments e = restaurant_payments d" "payment_attempts e = payment_attempts d"
      "check_settlements e = check_settlements d"
    by (auto simp: finalize_full_check_def replace_check_def settled_check_def split: if_splits)
  have in_e: "r \<in> set (restaurant_checks e) \<longleftrightarrow> r = ?c \<or> (r \<in> set (restaurant_checks d) \<and> chk_id r \<noteq> chk_id c)"
    for r unfolding e(1) by (rule modify_const_in[OF keys c(1)]) (simp_all add: settled_check_def)
  have exp: "exposure e i = exposure d i" "settled_amount e i = settled_amount d i" for i
    by (simp_all add: exposure_def settled_amount_def payment_amount_def same)
  have allocs: "\<exists>r \<in> set (check_allocations d). a = (if ?own r then settle_allocation reference now r else r)"
    if "a \<in> set (check_allocations e)" for a
    using that unfolding e(2) set_modify_where by blast
  have "payment_refs_ok e"
    unfolding payment_refs_ok_def same
  proof
    fix p assume "p \<in> set (restaurant_payments d)"
    with books obtain r where r: "r \<in> set (restaurant_checks d)" "chk_id r = pay_check_id p"
      "chk_tenant_id r = pay_tenant_id p"
      unfolding payment_books_def payment_refs_ok_def by blast
    show "\<exists>r \<in> set (restaurant_checks e). chk_id r = pay_check_id p \<and> chk_tenant_id r = pay_tenant_id p"
    proof (cases "chk_id r = chk_id c")
      case True
      then have "r = c" using same_row_if_same_id[OF keys r(1) c(1)] by simp
      with r in_e[of ?c] show ?thesis by (intro bexI[of _ ?c]) (simp_all add: settled_check_def)
    qed (use r in_e in blast)
  qed
  moreover have "check_funded e r" if r: "r \<in> set (restaurant_checks e)" for r
  proof (cases "r = ?c")
    case True
    have "al_state a = AL_SETTLED"
      if "a \<in> set (check_allocations e)" "al_check_id a = chk_id c" "al_state a \<noteq> AL_RELEASED" for a
    proof -
      from allocs[OF that(1)] obtain x where x: "x \<in> set (check_allocations d)"
        "a = (if ?own x then settle_allocation reference now x else x)" by blast
      with that live[OF x(1)] show ?thesis
        by (auto simp: settle_allocation_def split: if_splits)
    qed
    with books_check(1)[OF books c(1)] c show ?thesis
      by (simp add: True check_funded_def exp settled_check_def)
  next
    case False
    with r in_e have r: "r \<in> set (restaurant_checks d)" "chk_id r \<noteq> chk_id c" by auto
    have "al_state a = AL_SETTLED \<longleftrightarrow> chk_status r = CHK_SETTLED"
      if "a \<in> set (check_allocations e)" "al_check_id a = chk_id r" "al_state a \<noteq> AL_RELEASED" for a
    proof -
      from allocs[OF that(1)] obtain x where x: "x \<in> set (check_allocations d)"
        "a = (if ?own x then settle_allocation reference now x else x)" by blast
      have "al_check_id x = chk_id r"
        using x(2) that(2) by (cases "?own x") (simp_all add: settle_allocation_def)
      with r(2) x(2) have "a = x" by simp
      with x(1) that books_check(4)[OF books r(1), of a] show ?thesis by simp
    qed
    moreover have "\<forall>p \<in> set (restaurant_payments d). pay_check_id p \<noteq> chk_id r"
      if "chk_status r = CHK_OPEN \<or> chk_status r = CHK_CANCELLED"
      using books_check(2)[OF books r(1) that] by simp
    ultimately show ?thesis
      using books_check(1,3)[OF books r(1)] by (simp add: check_funded_def exp same)
  qed
  ultimately show ?thesis
    using books by (simp add: payment_books_def payment_keys_ok_def settlements_match_def claims_match_def same)
qed

text \<open>What a success that is new does: the settlement, and the end of the check when it was the last.\<close>

definition applied :: "execution_context \<Rightarrow> datetime \<Rightarrow> restaurant_payment \<Rightarrow> db \<Rightarrow> db" where
  "applied ctx now p d = d\<lparr>
     check_settlements := check_settlements d @ [settlement_row d ctx now p],
     restaurant_payments := modify pay_id (pay_id p) (succeed_payment now) (restaurant_payments d)\<rparr>"

lemma apply_success_cases:
  assumes "apply_success ctx now p c d = Inr e"
    and "\<forall>s \<in> set (check_settlements d). st_payment_id s \<noteq> pay_id p"
  obtains (part) "e = applied ctx now p d" "settled_amount d (chk_id c) + pay_amount p < chk_liability_total c"
  | (full) "finalize_full_check ctx now c (payment_reference p) (applied ctx now p d) = Inr e"
      "settled_amount d (chk_id c) + pay_amount p = chk_liability_total c"
      "payment_amount (applied ctx now p d) RESERVING_STATES (chk_id c) = 0"
proof -
  let ?sum = "settled_amount d (chk_id c) + pay_amount p"
  have "List.find (\<lambda>s. st_payment_id s = pay_id p) (check_settlements d) = None"
    using assms(2) by (simp add: find_eq_None_iff)
  with assms(1) have run: "(if chk_liability_total c < ?sum then Inl PaymentAmountExceedsAvailableError
      else if ?sum = chk_liability_total c
      then if payment_amount (applied ctx now p d) RESERVING_STATES (chk_id c) \<noteq> 0
           then Inl PaymentConcurrencyConflictError
           else finalize_full_check ctx now c (payment_reference p) (applied ctx now p d)
      else Inr (applied ctx now p d)) = Inr e"
    unfolding apply_success_def Let_def applied_def[symmetric] by (simp only: option.case)
  show thesis
  proof (cases "?sum = chk_liability_total c")
    case True
    with run full show thesis by (simp split: if_splits)
  next
    case False
    with run part show thesis by (simp split: if_splits)
  qed
qed

lemma finalize_attempts:
  assumes "finalize_full_check ctx now c reference d = Inr e"
  shows "finalize_full_check ctx now c reference (d\<lparr>payment_attempts := as\<rparr>) = Inr (e\<lparr>payment_attempts := as\<rparr>)"
  using assms by (auto simp: finalize_full_check_def owned_allocations_def replace_check_def split: if_splits)

lemma succeed_payment_selectors [simp]:
  "pay_id (succeed_payment now p) = pay_id p" "pay_check_id (succeed_payment now p) = pay_check_id p"
  "pay_tenant_id (succeed_payment now p) = pay_tenant_id p" "pay_amount (succeed_payment now p) = pay_amount p"
  "pay_state (succeed_payment now p) = PAY_SUCCEEDED"
  by (simp_all add: succeed_payment_def)

lemma settlement_row_settles:
  "settles (settlement_row d ctx now p) (succeed_payment now' p)"
  "st_id (settlement_row d ctx now p) = next_id st_id (check_settlements d)"
  by (simp_all add: settles_def settlement_row_def)

lemma unsettled_payment:
  assumes "payment_books d" "p \<in> set (restaurant_payments d)" "pay_state p \<noteq> PAY_SUCCEEDED"
    and "s \<in> set (check_settlements d)"
  shows "st_payment_id s \<noteq> pay_id p"
proof
  assume id: "st_payment_id s = pay_id p"
  from assms(1,4) obtain q where "q \<in> set (restaurant_payments d)" "settles s q"
    unfolding payment_books_def settlements_match_def by blast
  with id assms(1-3) same_row_if_same_id[of pay_id "restaurant_payments d" q p] show False
    by (simp add: settles_def payment_books_def payment_keys_ok_def)
qed

text \<open>
  The success of a reserving payment keeps the books: \<^theory_text>\<open>p0\<close> is the row before the transaction, \<^theory_text>\<open>p\<close> the
  row with what the transaction wrote into it so far, \<^theory_text>\<open>as\<close> the attempts it leaves.
\<close>

lemma settle_keeps_books:
  assumes books: "payment_books d0" and keys: "distinct (map chk_id (restaurant_checks d0))"
    and live: "\<And>a. a \<in> set (check_allocations d0) \<Longrightarrow>
        al_ownership_slot a = Some 1 \<longleftrightarrow> al_state a \<noteq> AL_RELEASED"
    and p0: "p0 \<in> set (restaurant_payments d0)" "pay_state p0 \<in> RESERVING_STATES"
    and c: "c \<in> set (restaurant_checks d0)" "chk_id c = pay_check_id p0" "chk_status c = CHK_FROZEN"
    and p: "pay_id p = pay_id p0" "pay_check_id p = pay_check_id p0" "pay_tenant_id p = pay_tenant_id p0"
      "pay_amount p = pay_amount p0"
    and d1: "restaurant_payments d1 = modify pay_id (pay_id p0) (\<lambda>_. p) (restaurant_payments d0)"
      "check_settlements d1 = check_settlements d0" "restaurant_checks d1 = restaurant_checks d0"
      "check_allocations d1 = check_allocations d0"
    and run: "apply_success ctx now p c d1 = Inr d2"
    and attempts: "distinct (map att_id as)"
      "\<And>a. a \<in> set (payment_attempts d0) \<Longrightarrow> att_payment_id a \<noteq> pay_id p0 \<Longrightarrow> a \<in> set as"
  shows "payment_books (d2\<lparr>payment_attempts := as\<rparr>)"
proof -
  let ?e = "(applied ctx now p d1)\<lparr>payment_attempts := as\<rparr>"
  have "pay_state p0 \<noteq> PAY_SUCCEEDED" using p0(2) by (auto simp: RESERVING_STATES_def)
  then have none: "\<forall>s \<in> set (check_settlements d1). st_payment_id s \<noteq> pay_id p"
    using unsettled_payment[OF books p0(1)] p(1) d1(2) by simp
  have frozen: "chk_status r = CHK_FROZEN" if "r \<in> set (restaurant_checks d0)" "chk_id r = pay_check_id p0" for r
    using same_row_if_same_id[OF keys that(1) c(1)] that(2) c(2,3) by simp
  have payments: "restaurant_payments ?e
      = modify pay_id (pay_id p0) (\<lambda>_. succeed_payment now p) (restaurant_payments d0)"
    by (simp add: applied_def d1(1) p(1) modify_modify_const)
  have books_e: "payment_books ?e"
  proof (rule books_apply[OF books p0 frozen])
    show "restaurant_payments ?e
        = modify pay_id (pay_id p0) (\<lambda>_. succeed_payment now p) (restaurant_payments d0)"
      by (rule payments)
    show "settles (settlement_row d1 ctx now p) (succeed_payment now p)" by (rule settlement_row_settles)
    show "st_id (settlement_row d1 ctx now p) = next_id st_id (check_settlements d0)"
      by (simp add: settlement_row_settles d1(2))
  qed (use p d1 attempts in \<open>simp_all add: applied_def\<close>)
  from run none show ?thesis
  proof (cases rule: apply_success_cases)
    case part
    with books_e show ?thesis by simp
  next
    case full
    have tables: "restaurant_checks ?e = restaurant_checks d0" "check_allocations ?e = check_allocations d0"
      by (simp_all add: applied_def d1)
    have "settled_amount ?e (chk_id c) = settled_amount d1 (chk_id c) + pay_amount p"
      using p(2) c(2) by (simp add: settled_amount_def applied_def settlement_row_def)
    with full(2) have paid: "settled_amount ?e (chk_id c) = chk_liability_total c" by simp
    show ?thesis
      by (rule books_finalize[OF books_e _ _ _ paid c(3) finalize_attempts[OF full(1)]])
        (use keys live c(1) tables in simp_all)
  qed
qed

section \<open>The check tables\<close>

lemma settle_allocation_selectors [simp]:
  "al_id (settle_allocation ref now a) = al_id a" "al_check_id (settle_allocation ref now a) = al_check_id a"
  "al_state (settle_allocation ref now a) = AL_SETTLED"
  "al_accepted_payable_amount (settle_allocation ref now a) = al_accepted_payable_amount a"
  by (simp_all add: settle_allocation_def)

lemma continue_scope_selectors [simp]:
  "ts_id (continue_scope t) = ts_id t" "ts_check_id (continue_scope t) = ts_check_id t"
  by (simp_all add: continue_scope_def)

interpretation settling_allocation: row_update al_id "settle_allocation ref now" for ref now
  by unfold_locales simp

interpretation continuing_scope: row_update ts_id continue_scope
  by unfold_locales simp

text \<open>A row change that keeps the version and the totals of a check, with or without its settlement.\<close>

lemma check_inv_finance:
  assumes inv: "check_inv d" and c: "c \<in> set (restaurant_checks d)"
    and c': "chk_id c' = chk_id c" "chk_version c' = chk_version c"
      "chk_consumption_total c' = chk_consumption_total c" "chk_gratuity_total c' = chk_gratuity_total c"
      "chk_liability_total c' = chk_liability_total c"
      "chk_current_fingerprint c' = chk_current_fingerprint c" "chk_status c' \<noteq> CHK_CANCELLED"
    and e: "restaurant_checks e = modify chk_id (chk_id c) (\<lambda>_. c') (restaurant_checks d)"
      "check_versions e = check_versions d" "check_members e = check_members d"
      "check_allocations e = check_allocations d \<or> check_allocations e = modify_where
         (\<lambda>a. al_check_id a = chk_id c \<and> al_ownership_slot a = Some 1) (settle_allocation ref now)
         (check_allocations d)"
      "check_table_scopes e = check_table_scopes d \<or> check_table_scopes e = modify_where
         (\<lambda>t. ts_check_id t = chk_id c \<and> ts_active_slot t = Some 1) continue_scope
         (check_table_scopes d)"
    and ok: "check_constraints e"
  shows "check_inv e"
proof -
  let ?own = "\<lambda>a. al_check_id a = chk_id c \<and> al_ownership_slot a = Some 1"
  from inv have keys: "check_keys_ok d" and cons: "check_constraints d" by (simp_all add: check_inv_def)
  have "touches_only (chk_id c) d e"
    using e(4,5) keys
    by (auto simp: touches_only_def check_keys_ok_def e(3) settling_allocation.ids_modify_where
        continuing_scope.ids_modify_where intro!: filter_modify_where)
  moreover have "live_total e (chk_id c) = live_total d (chk_id c)"
  proof (cases "check_allocations e = check_allocations d")
    case False
    with e(4) have allocs: "check_allocations e
        = modify_where ?own (settle_allocation ref now) (check_allocations d)" by blast
    have "live_total e (chk_id c) = sum_by (\<lambda>a. if ?own a
        then (if live (chk_id c) (settle_allocation ref now a)
              then al_accepted_payable_amount (settle_allocation ref now a) else 0)
        else (if live (chk_id c) a then al_accepted_payable_amount a else 0)) (check_allocations d)"
      by (simp add: live_total_def allocs sum_by_filter sum_by_modify_where)
    also have "\<dots> = sum_by (\<lambda>a. if live (chk_id c) a then al_accepted_payable_amount a else 0)
        (check_allocations d)"
      by (rule sum_by_cong) (use allocation_live_iff[OF cons] in \<open>auto simp: live_def\<close>)
    finally show ?thesis by (simp add: live_total_def sum_by_filter)
  qed (simp add: live_total_def)
  ultimately show ?thesis
    using ok c'(7) not_cancelled_free
    by (intro check_inv_restate[OF inv c c'(1-6) e(1,2)]) simp_all
qed

text \<open>The database after a success, for the check tables: the row of the check, and maybe its settlement.\<close>

lemma apply_success_check_tables:
  assumes "apply_success ctx now p c d1 = Inr d2"
    and "\<forall>s \<in> set (check_settlements d1). st_payment_id s \<noteq> pay_id p"
  shows "check_versions d2 = check_versions d1" "check_members d2 = check_members d1"
    "cash_sessions d2 = cash_sessions d1" "cash_movements d2 = cash_movements d1"
    "cash_counts d2 = cash_counts d1" "payment_attempts d2 = payment_attempts d1"
    "check_gratuities d2 = check_gratuities d1" "check_commands d2 = check_commands d1"
    "restaurant_checks d2 = restaurant_checks d1
       \<and> check_allocations d2 = check_allocations d1 \<and> check_table_scopes d2 = check_table_scopes d1
     \<or> restaurant_checks d2 = modify chk_id (chk_id c) (\<lambda>_. settled_check ctx now c) (restaurant_checks d1)
       \<and> check_allocations d2 = modify_where
           (\<lambda>a. al_check_id a = chk_id c \<and> al_ownership_slot a = Some 1)
           (settle_allocation (payment_reference p) now) (check_allocations d1)
       \<and> check_table_scopes d2 = modify_where
           (\<lambda>t. ts_check_id t = chk_id c \<and> ts_active_slot t = Some 1) continue_scope
           (check_table_scopes d1)"
  using assms
  by (cases rule: apply_success_cases;
      auto simp: applied_def finalize_full_check_def replace_check_def settled_check_def split: if_splits)+

section \<open>The cash movements of a payment\<close>

definition add_payment_movements ::
  "(json \<Rightarrow> string) \<Rightarrow> execution_context \<Rightarrow> datetime \<Rightarrow> cash_session \<Rightarrow> restaurant_payment
   \<Rightarrow> (movement_type \<times> rat) list \<Rightarrow> db \<Rightarrow> db"
where
  "add_payment_movements sha ctx now s p evidence d =
     foldl (\<lambda>e v. add_cash_movement (payment_movement sha ctx now s p e v) e) d evidence"

lemma add_payment_movements_simps [simp]:
  "add_payment_movements sha ctx now s p [] d = d"
  "add_payment_movements sha ctx now s p (v # vs) d =
     add_payment_movements sha ctx now s p vs (add_cash_movement (payment_movement sha ctx now s p d v) d)"
  by (simp_all add: add_payment_movements_def)

lemma payment_movement_selectors [simp]:
  "mv_cash_session_id (payment_movement sha ctx now s p d v) = cs_id s"
  "mv_id (payment_movement sha ctx now s p d v) = next_id mv_id (cash_movements d)"
  "mv_amount (payment_movement sha ctx now s p d v) = snd v"
  "mv_movement_type (payment_movement sha ctx now s p d v) = fst v"
  "mv_restaurant_payment_id (payment_movement sha ctx now s p d v) = Some (pay_id p)"
  by (simp_all add: payment_movement_def split: prod.splits)

lemma add_payment_movements_frame:
  "restaurant_payments (add_payment_movements sha ctx now s p vs d) = restaurant_payments d
   \<and> payment_attempts (add_payment_movements sha ctx now s p vs d) = payment_attempts d
   \<and> check_settlements (add_payment_movements sha ctx now s p vs d) = check_settlements d
   \<and> restaurant_checks (add_payment_movements sha ctx now s p vs d) = restaurant_checks d
   \<and> check_allocations (add_payment_movements sha ctx now s p vs d) = check_allocations d
   \<and> check_members (add_payment_movements sha ctx now s p vs d) = check_members d
   \<and> check_table_scopes (add_payment_movements sha ctx now s p vs d) = check_table_scopes d
   \<and> check_versions (add_payment_movements sha ctx now s p vs d) = check_versions d
   \<and> check_gratuities (add_payment_movements sha ctx now s p vs d) = check_gratuities d
   \<and> check_commands (add_payment_movements sha ctx now s p vs d) = check_commands d"
  by (induction vs arbitrary: d) (simp_all add: add_cash_movement_def)

lemma add_payment_movements_appends:
  "\<exists>ms. cash_movements (add_payment_movements sha ctx now s p vs d) = cash_movements d @ ms"
proof (induction vs arbitrary: d)
  case (Cons v vs)
  from Cons.IH[of "add_cash_movement (payment_movement sha ctx now s p d v) d"] show ?case
    by (auto simp: add_cash_movement_tables)
qed simp

lemma add_payment_movements_expected:
  "expected_cash (add_payment_movements sha ctx now s p vs d) i
     = expected_cash d i + (if cs_id s = i then sum_by snd vs else 0)"
  by (induction vs arbitrary: d) (simp_all add: expected_cash_add)

lemma cash_inv_payment_movements:
  assumes "cash_inv d" "r \<in> set (cash_sessions d)" "cs_id r = cs_id s" "cs_status r = CS_OPEN"
    and "table_ok cash_movement_ok cash_movements_collide
      (cash_movements (add_payment_movements sha ctx now s p vs d))"
  shows "cash_inv (add_payment_movements sha ctx now s p vs d)"
  using assms
proof (induction vs arbitrary: d r)
  case (Cons v vs)
  let ?m = "payment_movement sha ctx now s p d v"
  let ?d = "add_cash_movement ?m d"
  obtain ms where "cash_movements (add_payment_movements sha ctx now s p vs ?d) = (cash_movements d @ [?m]) @ ms"
    using add_payment_movements_appends[of sha ctx now s p vs ?d] by (auto simp: add_cash_movement_tables)
  with Cons.prems(5) have "table_ok cash_movement_ok cash_movements_collide (cash_movements d @ [?m])"
    by (metis add_payment_movements_simps(2) table_ok_prefix)
  then have "cash_movement_insertable (cash_movements d) ?m"
    using table_ok_snoc(2,3)[of cash_movement_ok cash_movements_collide "cash_movements d" ?m]
      cash_movements_collide_sym
    by (simp add: cash_movement_insertable_def)
  then have inv: "cash_inv ?d"
    using Cons.prems by (intro cash_inv_add_movement[of d r]) simp_all
  have dist: "distinct (map cs_id (cash_sessions d))" using Cons.prems(1) by (simp add: cash_inv_defs)
  have "bump_movement_version r \<in> set (cash_sessions ?d)"
    using Cons.prems(2,3) by (auto simp: add_cash_movement_tables intro!: bump.in_modify)
  then show ?case
    using Cons.IH[OF inv, of "bump_movement_version r"] Cons.prems(3-5)
    by (simp add: bump_movement_version_def)
qed simp

section \<open>The reservation\<close>

lemma reserve_success:
  assumes "reserve_payment sha registry ctx now q v fingerprint d = Inr ((p, b), d')"
  obtains (replay) "b" "d' = d" "payment_by_key d ctx (pq_idempotency_key q) = Some p"
      "pay_request_fingerprint p = fingerprint"
  | (new) c where "\<not> b" "c \<in> set (restaurant_checks d)" "chk_id c = pq_check_id q"
      "chk_tenant_id c = tenant_id ctx" "payment_by_key d ctx (pq_idempotency_key q) = None"
      "reserve_on_check sha registry ctx now q v fingerprint c d = Inr (p, d')" "financial_constraints d'"
proof -
  let ?P = "\<lambda>c. chk_id c = pq_check_id q \<and> chk_tenant_id c = tenant_id ctx
     \<and> (case pq_location_id q of None \<Rightarrow> True | Some l \<Rightarrow> chk_location_id c = l)"
  from assms obtain c where c: "List.find ?P (restaurant_checks d) = Some c"
    by (auto simp: reserve_payment_def split: option.splits)
  then have row: "c \<in> set (restaurant_checks d)" "chk_id c = pq_check_id q" "chk_tenant_id c = tenant_id ctx"
    by (auto dest: find_SomeD)
  show thesis
  proof (cases "payment_by_key d ctx (pq_idempotency_key q)")
    case None
    with assms c obtain w where w: "reserve_on_check sha registry ctx now q v fingerprint c d = Inr w"
      "(if financial_constraints (snd w) then Inr ((fst w, False), snd w)
        else Inl PaymentIntegrityError) = Inr ((p, b), d')"
      by (auto simp: reserve_payment_def bind_result_Inr_iff split: if_splits)
    with new[OF _ row None] show thesis by (cases w) (auto split: if_splits)
  next
    case (Some r)
    with assms c replay show thesis
      by (auto simp: reserve_payment_def bind_result_Inr_iff replayed_def split: if_splits)
  qed
qed

lemma reserve_on_check_success:
  assumes "reserve_on_check sha registry ctx now q v fingerprint c d = Inr (p, d')"
  obtains members c1 d1 where
    "chk_version c = pq_expected_check_version q"
    "chk_current_fingerprint c = pq_expected_check_fingerprint q" "chk_currency c = vp_currency v"
    "authorize_and_freeze ctx now c d = Inr (members, c1, d1)"
    "exposure d1 (chk_id c1) + vp_amount v \<le> chk_liability_total c1"
    "(\<exists>session pay. vp_method v = CASH
        \<and> cash_session_for_payment d c (vp_currency v) (pq_cash_session_id q) = Inr session
        \<and> pay = reserved_payment sha ctx c1 q v fingerprint None d1 \<and> p = succeed_payment now pay
        \<and> receive_cash sha ctx now session pay c1
            (d1\<lparr>restaurant_payments := restaurant_payments d1 @ [pay]\<rparr>) = Inr d')
     \<or> (\<exists>configuration executor. vp_method v \<noteq> CASH
        \<and> resolve registry d1 (check_scope c1) (vp_method v) (vp_currency v)
            (case pq_selection_mode q of None \<Rightarrow> [] | Some mode \<Rightarrow> mode) (vp_executor_key v)
          = Inr (configuration, executor)
        \<and> p = reserved_payment sha ctx c1 q v fingerprint (Some configuration) d1
        \<and> d' = d1\<lparr>restaurant_payments := restaurant_payments d1 @ [p]\<rparr>)"
proof -
  from assms have match: "chk_version c = pq_expected_check_version q"
    "chk_current_fingerprint c = pq_expected_check_fingerprint q" "chk_currency c = vp_currency v"
    by (auto simp: reserve_on_check_def split: if_splits)
  with assms obtain session where session: "(if vp_method v = CASH
      then cash_session_for_payment d c (vp_currency v) (pq_cash_session_id q) else Inr None) = Inr session"
    by (auto simp: reserve_on_check_def bind_result_Inr_iff)
  with assms match obtain a where auth: "authorize_and_freeze ctx now c d = Inr a"
    by (auto simp: reserve_on_check_def bind_result_Inr_iff)
  obtain members c1 d1 where a: "a = (members, c1, d1)" by (cases a)
  note run = assms[unfolded reserve_on_check_def totals_def, simplified match session auth a
    bind_result.simps if_False if_True simp_thms prod.case]
  have room: "exposure d1 (chk_id c1) + vp_amount v \<le> chk_liability_total c1"
    using run by (auto simp: exposure_def split: if_splits)
  have select: "bind_result (select_executor registry d1 c1 q v) (\<lambda>executor.
      let payment = reserved_payment sha ctx c1 q v fingerprint executor d1;
          d2 = d1\<lparr>restaurant_payments := restaurant_payments d1 @ [payment]\<rparr>
      in if vp_method v = CASH
         then bind_result (receive_cash sha ctx now session payment c1 d2) (\<lambda>d3.
                Inr (succeed_payment now payment, d3))
         else Inr (payment, d2)) = Inr (p, d')"
    using run by (simp split: if_splits)
  show thesis
  proof (cases "vp_method v = CASH")
    case True
    with select session have "\<exists>session pay. vp_method v = CASH
        \<and> cash_session_for_payment d c (vp_currency v) (pq_cash_session_id q) = Inr session
        \<and> pay = reserved_payment sha ctx c1 q v fingerprint None d1 \<and> p = succeed_payment now pay
        \<and> receive_cash sha ctx now session pay c1
            (d1\<lparr>restaurant_payments := restaurant_payments d1 @ [pay]\<rparr>) = Inr d'"
      by (auto simp: select_executor_def Let_def bind_result_Inr_iff)
    with that[OF match auth[unfolded a] room] show thesis by blast
  next
    case False
    with select obtain configuration executor where "resolve registry d1 (check_scope c1) (vp_method v)
        (vp_currency v) (case pq_selection_mode q of None \<Rightarrow> [] | Some mode \<Rightarrow> mode) (vp_executor_key v)
          = Inr (configuration, executor)"
      "p = reserved_payment sha ctx c1 q v fingerprint (Some configuration) d1"
      "d' = d1\<lparr>restaurant_payments := restaurant_payments d1 @ [p]\<rparr>"
      by (auto simp: select_executor_def Let_def bind_result_Inr_iff)
    with False that[OF match auth[unfolded a] room] show thesis by blast
  qed
qed

lemma reserved_payment_selectors [simp]:
  "pay_id (reserved_payment sha ctx c q v f x d) = next_id pay_id (restaurant_payments d)"
  "pay_check_id (reserved_payment sha ctx c q v f x d) = chk_id c"
  "pay_tenant_id (reserved_payment sha ctx c q v f x d) = chk_tenant_id c"
  "pay_amount (reserved_payment sha ctx c q v f x d) = vp_amount v"
  "pay_state (reserved_payment sha ctx c q v f x d) = PAY_RESERVED"
  "pay_method_category (reserved_payment sha ctx c q v f x d) = vp_method v"
  "pay_cash_tendered_amount (reserved_payment sha ctx c q v f x d) = vp_cash_tendered v"
  "pay_cash_change_due (reserved_payment sha ctx c q v f x d)
     = map_option (\<lambda>t. t - vp_amount v) (vp_cash_tendered v)"
  "pay_actor_scope (reserved_payment sha ctx c q v f x d) = actor_scope ctx"
  "pay_idempotency_key (reserved_payment sha ctx c q v f x d) = pq_idempotency_key q"
  "pay_request_fingerprint (reserved_payment sha ctx c q v f x d) = f"
  by (simp_all add: reserved_payment_def)

lemma receive_cash_success:
  assumes "receive_cash sha ctx now session p c d = Inr e"
  obtains vs where
    "apply_success ctx now p c (case session of None \<Rightarrow> d
       | Some s \<Rightarrow> add_payment_movements sha ctx now s p vs d) = Inr e"
    "session \<noteq> None \<Longrightarrow> cash_evidence p = Inr vs"
  using assms
  by (cases session)
    (auto simp: receive_cash_def record_cash_payment_movements_def bind_result_Inr_iff
      add_payment_movements_def[symmetric])

lemma cash_session_for_paymentD:
  assumes "cash_session_for_payment d c currency i = Inr (Some s)"
  shows "s \<in> set (cash_sessions d)" "cs_status s = CS_OPEN" "cs_currency s = currency"
    "cs_tenant_id s = chk_tenant_id c" "cs_location_id s = chk_location_id c" "i = Some (cs_id s)"
  using assms
  by (auto simp: cash_session_for_payment_def dest: find_SomeD split: option.splits if_splits)

lemma owned_live:
  "check_inv d \<Longrightarrow> a \<in> set (check_allocations d) \<Longrightarrow>
     al_ownership_slot a = Some 1 \<longleftrightarrow> al_state a \<noteq> AL_RELEASED"
  by (rule allocation_live_iff) (simp_all add: check_inv_def)

lemma authorized_tables:
  assumes "check_inv d" "c \<in> set (restaurant_checks d)"
    and "authorize_and_freeze ctx now c d = Inr (members, c', d')"
  shows "restaurant_checks d' = modify chk_id (chk_id c) (\<lambda>_. c') (restaurant_checks d)"
    "check_versions d' = check_versions d" "check_members d' = check_members d"
    "check_allocations d' = check_allocations d" "check_table_scopes d' = check_table_scopes d"
    "chk_consumption_total c' = chk_consumption_total c" "chk_gratuity_total c' = chk_gratuity_total c"
proof -
  have keys: "distinct (map chk_id (restaurant_checks d))"
    using assms(1) by (simp add: check_inv_def check_keys_ok_def)
  show "restaurant_checks d' = modify chk_id (chk_id c) (\<lambda>_. c') (restaurant_checks d)"
    using assms(3) by (cases rule: authorize_success)
      (simp_all add: replace_check_def frozen_check_def modify_same[OF keys assms(2)])
  show "check_versions d' = check_versions d" "check_members d' = check_members d"
    "check_allocations d' = check_allocations d" "check_table_scopes d' = check_table_scopes d"
    "chk_consumption_total c' = chk_consumption_total c" "chk_gratuity_total c' = chk_gratuity_total c"
    using assms(3) by (cases rule: authorize_success; simp add: frozen_check_def)+
qed

text \<open>The invariant of the whole financial core.\<close>

definition financial_inv :: "db \<Rightarrow> bool" where
  "financial_inv d \<longleftrightarrow> check_inv d \<and> payment_inv d \<and> cash_inv d"

lemma financial_inv_empty: "financial_inv empty_db"
  by (simp add: financial_inv_def check_inv_empty payment_inv_empty cash_inv_empty)

lemma reserve_keeps:
  assumes inv: "financial_inv d"
    and run: "reserve_payment sha registry ctx now q v fingerprint d = Inr ((p, b), d')"
  shows "financial_inv d'"
  using run
proof (cases rule: reserve_success)
  case replay
  with inv show ?thesis by simp
next
  case (new c)
  from inv have check: "check_inv d" and books: "payment_books d" and cash: "cash_inv d"
    by (simp_all add: financial_inv_def payment_inv_def)
  have cons: "check_constraints d'" "payment_constraints d'"
    "table_ok cash_movement_ok cash_movements_collide (cash_movements d')"
    using new(7) by (simp_all add: financial_constraints_def)
  from new(6) show ?thesis
  proof (cases rule: reserve_on_check_success)
    case (1 members c1 d1)
    note auth = authorized_check[OF check books new(2) 1(4)]
      and tables = authorized_tables[OF check new(2) 1(4)]
    have keys: "distinct (map chk_id (restaurant_checks d1))"
      using check auth(4) by (simp add: tables(1) modify_const_ids check_inv_def check_keys_ok_def)
    have reserved: "payment_books (d1\<lparr>restaurant_payments := restaurant_payments d1 @ [pay]\<rparr>)"
      if "pay = reserved_payment sha ctx c1 q v fingerprint x d1" for pay x
      using 1(5) by (intro books_reserve[OF auth(1) keys auth(2,3)]) (simp_all add: that)
    from 1(6) show ?thesis
    proof (elim disjE exE conjE)
      fix configuration executor
      assume p: "p = reserved_payment sha ctx c1 q v fingerprint (Some configuration) d1"
        and d': "d' = d1\<lparr>restaurant_payments := restaurant_payments d1 @ [p]\<rparr>"
      have "payment_inv d'" using reserved[OF p] cons by (simp add: payment_inv_def d')
      moreover have "cash_inv d'" using cash cash_inv_cong[of d' d] by (simp add: d' auth)
      moreover have "check_inv d'"
        by (rule check_inv_finance[OF check new(2), of c1 d'])
          (use cons in \<open>simp_all add: auth tables d'\<close>)
      ultimately show ?thesis by (simp add: financial_inv_def)
    next
      fix session pay
      let ?d2 = "d1\<lparr>restaurant_payments := restaurant_payments d1 @ [pay]\<rparr>"
      assume session: "cash_session_for_payment d c (vp_currency v) (pq_cash_session_id q) = Inr session"
        and pay: "pay = reserved_payment sha ctx c1 q v fingerprint None d1"
        and receive: "receive_cash sha ctx now session pay c1 ?d2 = Inr d'"
      obtain vs where applies: "apply_success ctx now pay c1 (case session of None \<Rightarrow> ?d2
          | Some s \<Rightarrow> add_payment_movements sha ctx now s pay vs ?d2) = Inr d'"
        using receive by (cases rule: receive_cash_success) blast
      let ?d3 = "case session of None \<Rightarrow> ?d2
          | Some s \<Rightarrow> add_payment_movements sha ctx now s pay vs ?d2"
      have frame: "restaurant_payments ?d3 = restaurant_payments ?d2"
        "check_settlements ?d3 = check_settlements ?d2" "restaurant_checks ?d3 = restaurant_checks ?d2"
        "check_allocations ?d3 = check_allocations ?d2" "payment_attempts ?d3 = payment_attempts ?d2"
        "check_versions ?d3 = check_versions ?d2" "check_members ?d3 = check_members ?d2"
        "check_table_scopes ?d3 = check_table_scopes ?d2"
        using add_payment_movements_frame by (cases session; simp)+
      note books2 = reserved[OF pay]
      have pay_in: "pay \<in> set (restaurant_payments ?d2)" by simp
      have none: "\<forall>s \<in> set (check_settlements ?d3). st_payment_id s \<noteq> pay_id pay"
        using unsettled_payment[OF books2 pay_in] frame(2) pay by simp
      note after = apply_success_check_tables[OF applies none]
      have pay_keys: "distinct (map pay_id (restaurant_payments ?d2))"
        using books2 by (simp add: payment_books_def payment_keys_ok_def)
      have att_keys: "distinct (map att_id (payment_attempts d1))"
        using auth(1) by (simp add: payment_books_def payment_keys_ok_def)
      have live: "al_ownership_slot a = Some 1 \<longleftrightarrow> al_state a \<noteq> AL_RELEASED"
        if "a \<in> set (check_allocations ?d2)" for a
        using owned_live[OF check] that by (simp add: tables(4))
      have state: "pay_state pay \<in> RESERVING_STATES" "pay_check_id pay = chk_id c1"
        by (simp_all add: pay RESERVING_STATES_def)
      have same: "restaurant_payments ?d3 = modify pay_id (pay_id pay) (\<lambda>_. pay) (restaurant_payments ?d2)"
        using frame(1) modify_same[OF pay_keys pay_in refl] by metis
      have "payment_books (d'\<lparr>payment_attempts := payment_attempts d1\<rparr>)"
        by (rule settle_keeps_books[OF books2 _ live pay_in state(1) _ _ _ refl refl refl refl same
            frame(2-4) applies]) (use keys att_keys state auth in simp_all)
      moreover have "d'\<lparr>payment_attempts := payment_attempts d1\<rparr> = d'"
        using after(6) frame(5) by simp
      ultimately have "payment_inv d'" using cons by (simp add: payment_inv_def)
      moreover have "check_inv d'"
      proof (rule check_inv_finance[OF check new(2), where ref = "payment_reference pay" and now = now])
        let ?c' = "if restaurant_checks d' = restaurant_checks ?d3 then c1 else settled_check ctx now c1"
        show "restaurant_checks d' = modify chk_id (chk_id c) (\<lambda>_. ?c') (restaurant_checks d)"
          using after(9) frame(3) auth(4) tables(1)
          by (auto simp: modify_const_twice)
      qed (use after(1,2,9) frame(3-8) auth tables cons in \<open>auto simp: settled_check_def\<close>)
      moreover have "cash_inv d'"
      proof (cases session)
        case None
        with cash cash_inv_cong[of d' d] show ?thesis by (simp add: after auth)
      next
        case (Some s)
        note open_session = cash_session_for_paymentD[OF session[unfolded Some]]
        have "cash_inv ?d2" using cash cash_inv_cong[of ?d2 d] by (simp add: auth)
        then have "cash_inv (add_payment_movements sha ctx now s pay vs ?d2)"
          by (rule cash_inv_payment_movements)
            (use open_session(1,2) auth after(4) cons(3) Some in simp_all)
        with cash_inv_cong[of d' "add_payment_movements sha ctx now s pay vs ?d2"] show ?thesis
          by (simp add: after Some)
      qed
      ultimately show ?thesis by (simp add: financial_inv_def)
    qed
  qed
qed

section \<open>Claims\<close>

lemma write_column_same [simp]: "write_column b a b = a"
  by (simp add: write_column_def)

lemma claim_row_selectors [simp]:
  "pay_id (claim_row t now o' p) = pay_id p" "pay_check_id (claim_row t now o' p) = pay_check_id p"
  "pay_tenant_id (claim_row t now o' p) = pay_tenant_id p" "pay_amount (claim_row t now o' p) = pay_amount p"
  "pay_state (claim_row t now p p) = PAY_IN_PROGRESS"
  "pay_claim_token (claim_row t now p p) = Some t"
  "pay_claim_expires_at (claim_row t now p p) = Some (now + CLAIM_LEASE)"
  "pay_attempt_count (claim_row t now p p) = pay_attempt_count p + 1"
  by (simp_all add: claim_row_def)

text \<open>
  The session's object of a payment that waits for its claim is the row, or the payment was claimed
  since: then the attempt that the session would number next is there already.
\<close>

definition claimed_since :: "db \<Rightarrow> restaurant_payment \<Rightarrow> bool" where
  "claimed_since d p \<longleftrightarrow> (\<exists>a \<in> set (payment_attempts d). att_payment_id a = pay_id p
     \<and> att_attempt_sequence a = pay_attempt_count p + 1)"

definition object_current :: "db \<Rightarrow> restaurant_payment \<Rightarrow> bool" where
  "object_current d p \<longleftrightarrow> p \<in> set (restaurant_payments d) \<or> claimed_since d p"

lemma started_attempt_selectors [simp]:
  "att_id (started_attempt d ctx now t type p) = next_id att_id (payment_attempts d)"
  "att_payment_id (started_attempt d ctx now t type p) = pay_id p"
  "att_attempt_sequence (started_attempt d ctx now t type p) = pay_attempt_count p"
  "att_claim_token (started_attempt d ctx now t type p) = t"
  "att_result (started_attempt d ctx now t type p) = RES_IN_PROGRESS"
  by (simp_all add: started_attempt_def)

lemma claimed_since_collides:
  assumes "claimed_since d p" and "att_payment_id a = pay_id p" "att_attempt_sequence a = pay_attempt_count p + 1"
    and "payment_attempts e = payment_attempts d @ [a]"
  shows "\<not> payment_constraints e"
  using assms
  by (auto simp: payment_constraints_def table_ok_def collision_free_append claimed_since_def
      payment_attempts_collide_def)

lemma claim_success:
  assumes "claim_payment ctx now token cached i type allowed again d = Inr ((p, t), d')"
    and "\<forall>x. cached = Some x \<longrightarrow> pay_id x = i \<and> object_current d x"
    and "distinct (map pay_id (restaurant_payments d))"
  obtains (settled) "t = []" "d' = d" "pay_state p = PAY_SUCCEEDED"
  | (claimed) row where "row \<in> set (restaurant_payments d)" "pay_id row = i" "pay_tenant_id row = tenant_id ctx"
      "pay_state row \<in> allowed" "again \<Longrightarrow> available_again d (tenant_id ctx) row = Inr ()"
      "p = claim_row token now row row" "t = token" "payment_constraints d'"
      "d' = d\<lparr>restaurant_payments := modify pay_id i (\<lambda>_. p) (restaurant_payments d),
              payment_attempts := payment_attempts d @ [started_attempt d ctx now token type p]\<rparr>"
proof -
  from assms(1) obtain row where find: "List.find (\<lambda>p. pay_id p = i \<and> pay_tenant_id p = tenant_id ctx)
      (restaurant_payments d) = Some row"
    by (auto simp: claim_payment_def split: option.splits)
  then have row: "row \<in> set (restaurant_payments d)" "pay_id row = i" "pay_tenant_id row = tenant_id ctx"
    by (auto dest: find_SomeD)
  define obj where "obj = (case cached of None \<Rightarrow> row | Some x \<Rightarrow> x)"
  have run: "(if pay_state obj = PAY_SUCCEEDED then Inr ((obj, []), d)
      else if pay_state obj \<notin> allowed then Inl PaymentStateConflictError
      else bind_result (if again then available_again d (tenant_id ctx) obj else Inr ()) (\<lambda>_.
        let c = claim_row token now obj obj;
            e = d\<lparr>restaurant_payments := modify pay_id (pay_id obj) (claim_row token now obj) (restaurant_payments d),
                   payment_attempts := payment_attempts d @ [started_attempt d ctx now token type c]\<rparr>
        in if payment_constraints e then Inr ((c, token), e) else Inl PaymentIntegrityError))
      = Inr ((p, t), d')"
    using assms(1) unfolding claim_payment_def find option.case obj_def Let_def .
  show thesis
  proof (cases "pay_state obj = PAY_SUCCEEDED")
    case True
    with run settled show thesis by simp
  next
    case False
    let ?c = "claim_row token now obj obj"
    let ?e = "d\<lparr>restaurant_payments := modify pay_id (pay_id obj) (claim_row token now obj) (restaurant_payments d),
                payment_attempts := payment_attempts d @ [started_attempt d ctx now token type ?c]\<rparr>"
    from run False have result: "pay_state obj \<in> allowed"
      "again \<Longrightarrow> available_again d (tenant_id ctx) obj = Inr ()" "payment_constraints ?e"
      "p = ?c" "t = token" "d' = ?e"
      by (auto simp: bind_result_Inr_iff Let_def split: if_splits)
    have eq: "obj = row"
    proof (cases cached)
      case (Some x)
      then have x: "obj = x" "pay_id x = i" "object_current d x" using assms(2) by (simp_all add: obj_def)
      have "\<not> claimed_since d x"
      proof
        assume "claimed_since d x"
        then have "\<not> payment_constraints ?e"
          by (rule claimed_since_collides[where a = "started_attempt d ctx now token type ?c"])
            (simp_all add: x(1))
        with result(3) show False by simp
      qed
      with x(3) have "x \<in> set (restaurant_payments d)" by (simp add: object_current_def)
      then show ?thesis using x row same_row_if_same_id[OF assms(3)] by metis
    qed (simp add: obj_def)
    have const: "modify pay_id i (claim_row token now row) (restaurant_payments d)
        = modify pay_id i (\<lambda>_. claim_row token now row row) (restaurant_payments d)"
      by (rule modify_eq_const[OF assms(3) row(1,2)])
    show thesis
      by (rule claimed[OF row])
        (use result const row(2) in \<open>simp_all only: eq refl simp_thms\<close>)
  qed
qed

lemma claim_keeps:
  assumes inv: "financial_inv d"
    and run: "claim_payment ctx now token cached i type allowed again d = Inr ((p, t), d')"
    and cached: "\<forall>x. cached = Some x \<longrightarrow> pay_id x = i \<and> object_current d x"
    and allowed: "PAY_SUCCEEDED \<notin> allowed" "again \<or> allowed \<subseteq> RESERVING_STATES"
  shows "financial_inv d'"
proof -
  from inv have check: "check_inv d" and books: "payment_books d" and cash: "cash_inv d"
    by (simp_all add: financial_inv_def payment_inv_def)
  have keys: "distinct (map pay_id (restaurant_payments d))"
    using books by (simp add: payment_books_def payment_keys_ok_def)
  from run cached keys show ?thesis
  proof (cases rule: claim_success)
    case settled
    with inv show ?thesis by simp
  next
    case (claimed row)
    have att: "distinct (map att_id (payment_attempts d'))"
      using books next_id_fresh[of att_id "payment_attempts d"]
      by (simp add: claimed(9) payment_books_def payment_keys_ok_def)
    have "payment_books d'"
    proof (rule books_change_payment[OF books claimed(1), where p' = p])
      fix c assume c: "c \<in> set (restaurant_checks d)" "chk_id c = pay_check_id row"
      show "exposure d (chk_id c) - part RESERVING_STATES (chk_id c) row
          + part RESERVING_STATES (chk_id c) p \<le> chk_liability_total c"
      proof (cases "pay_state row \<in> RESERVING_STATES")
        case True
        then show ?thesis
          using books_check(1)[OF books c(1)] by (simp add: claimed(6) part_def RESERVING_STATES_def)
      next
        case False
        with claimed(4) allowed have again by blast
        from claimed(5)[OF this] obtain r where r: "r \<in> set (restaurant_checks d)"
          "chk_id r = pay_check_id row" "pay_amount row \<le> chk_liability_total r - exposure d (chk_id r)"
          by (auto simp: available_again_def totals_def exposure_def dest: find_SomeD
              split: option.splits if_splits)
        moreover have "r = c"
          using r c check same_row_if_same_id[of chk_id "restaurant_checks d" r c]
          by (simp add: check_inv_def check_keys_ok_def)
        ultimately show ?thesis
          using False by (simp add: claimed(6) part_def RESERVING_STATES_def)
      qed
    next
      show "\<exists>a \<in> set (payment_attempts d'). att_payment_id a = pay_id row
          \<and> Some (att_claim_token a) = pay_claim_token p \<and> att_result a = RES_IN_PROGRESS"
        by (simp add: claimed(6,9))
    qed (use allowed claimed(4) att in \<open>auto simp: claimed(2,6,9)\<close>)
    moreover have "check_inv d' = check_inv d" by (rule check_inv_cong) (simp_all add: claimed(9))
    moreover have "cash_inv d' = cash_inv d" by (rule cash_inv_cong) (simp_all add: claimed(9))
    ultimately show ?thesis
      using check cash claimed(8) by (simp add: financial_inv_def payment_inv_def)
  qed
qed

section \<open>Fences\<close>

lemma release_claim_selectors [simp]:
  "pay_id (release_claim p) = pay_id p" "pay_check_id (release_claim p) = pay_check_id p"
  "pay_tenant_id (release_claim p) = pay_tenant_id p" "pay_amount (release_claim p) = pay_amount p"
  "pay_state (release_claim p) = PAY_UNCERTAIN" "pay_attempt_count (release_claim p) = pay_attempt_count p"
  by (simp_all add: release_claim_def)

lemma fence_attempt_selectors [simp]:
  "att_id (fence_attempt now a) = att_id a" "att_payment_id (fence_attempt now a) = att_payment_id a"
  "att_attempt_sequence (fence_attempt now a) = att_attempt_sequence a"
  by (simp_all add: fence_attempt_def)

interpretation fencing: row_update att_id "fence_attempt now" for now
  by unfold_locales simp

lemma fence_success:
  assumes "fence_payment ctx now i location d = Inr ((p, type), d')"
  obtains (waiting) "d' = d" "p \<in> set (restaurant_payments d)" "pay_id p = i" "pay_state p = PAY_UNCERTAIN"
      "type = ATT_RECOVER"
  | (fenced) row as where "row \<in> set (restaurant_payments d)" "pay_id row = i" "pay_state row = PAY_IN_PROGRESS"
      "pay_tenant_id row = tenant_id ctx"
      "\<And>e. pay_claim_expires_at row = Some e \<Longrightarrow> e \<le> now" "p = release_claim row"
      "type = ATT_STALE_RECOVERY"
      "as = (case List.find (\<lambda>a. att_payment_id a = pay_id row
           \<and> Some (att_claim_token a) = pay_claim_token row) (payment_attempts d) of
         None \<Rightarrow> payment_attempts d
       | Some previous \<Rightarrow> if att_result previous = RES_IN_PROGRESS
           then modify att_id (att_id previous) (fence_attempt now) (payment_attempts d)
           else payment_attempts d)"
      "d' = d\<lparr>payment_attempts := as,
              restaurant_payments := modify pay_id i release_claim (restaurant_payments d)\<rparr>"
      "payment_constraints d'"
proof -
  let ?P = "\<lambda>p. pay_id p = i \<and> pay_tenant_id p = tenant_id ctx
     \<and> (case location of None \<Rightarrow> True | Some l \<Rightarrow> pay_location_id p = l)"
  from assms obtain row where find: "List.find ?P (restaurant_payments d) = Some row"
    by (auto simp: fence_payment_def split: option.splits)
  then have row: "row \<in> set (restaurant_payments d)" "pay_id row = i" "pay_tenant_id row = tenant_id ctx"
    by (auto dest: find_SomeD)
  show thesis
  proof (cases "pay_state row = PAY_IN_PROGRESS")
    case True
    let ?as = "case List.find (\<lambda>a. att_payment_id a = pay_id row
           \<and> Some (att_claim_token a) = pay_claim_token row) (payment_attempts d) of
         None \<Rightarrow> payment_attempts d
       | Some previous \<Rightarrow> if att_result previous = RES_IN_PROGRESS
           then modify att_id (att_id previous) (fence_attempt now) (payment_attempts d)
           else payment_attempts d"
    from assms find True have expired: "\<not> (case pay_claim_expires_at row of None \<Rightarrow> False | Some e \<Rightarrow> now < e)"
      by (auto simp: fence_payment_def split: if_splits)
    with assms find True row(2) have "payment_constraints (d\<lparr>payment_attempts := ?as,
        restaurant_payments := modify pay_id i release_claim (restaurant_payments d)\<rparr>)
      \<and> p = release_claim row \<and> type = ATT_STALE_RECOVERY \<and> d' = d\<lparr>payment_attempts := ?as,
        restaurant_payments := modify pay_id i release_claim (restaurant_payments d)\<rparr>"
      by (simp add: fence_payment_def Let_def split: if_splits)
    with fenced[OF row(1,2) True row(3), where as = ?as] expired show thesis by fastforce
  next
    case False
    with assms find waiting row show thesis by (simp add: fence_payment_def split: if_splits)
  qed
qed

lemma fence_keeps:
  assumes inv: "financial_inv d" and run: "fence_payment ctx now i location d = Inr ((p, type), d')"
  shows "financial_inv d'"
  using run
proof (cases rule: fence_success)
  case waiting
  with inv show ?thesis by simp
next
  case (fenced row as)
  from inv have check: "check_inv d" and books: "payment_books d" and cash: "cash_inv d"
    by (simp_all add: financial_inv_def payment_inv_def)
  have keys: "distinct (map pay_id (restaurant_payments d))" "distinct (map att_id (payment_attempts d))"
    using books by (simp_all add: payment_books_def payment_keys_ok_def)
  have as: "as = payment_attempts d \<or> (\<exists>r \<in> set (payment_attempts d). att_payment_id r = pay_id row
      \<and> as = modify att_id (att_id r) (fence_attempt now) (payment_attempts d))"
    unfolding fenced(8) by (auto dest: find_SomeD split: option.splits)
  then have ids: "distinct (map att_id as)" using keys(2) by (auto simp: fencing.ids_modify)
  have others: "a \<in> set as" if "a \<in> set (payment_attempts d)" "att_payment_id a \<noteq> pay_id row" for a
    using as
  proof (elim disjE bexE conjE)
    fix r assume r: "r \<in> set (payment_attempts d)" "att_payment_id r = pay_id row"
      "as = modify att_id (att_id r) (fence_attempt now) (payment_attempts d)"
    with that have "att_id a \<noteq> att_id r" using same_row_if_same_id[OF keys(2)] by metis
    with that(1) show ?thesis unfolding r(3) set_modify by force
  qed (use that in simp)
  have "payment_books d'"
  proof (rule books_change_payment[OF books fenced(1), where p' = p])
    show "restaurant_payments d' = modify pay_id (pay_id row) (\<lambda>_. p) (restaurant_payments d)"
      using modify_eq_const[OF keys(1) fenced(1,2)] by (simp add: fenced(2,6,9))
    show "exposure d (chk_id c) - part RESERVING_STATES (chk_id c) row
        + part RESERVING_STATES (chk_id c) p \<le> chk_liability_total c"
      if "c \<in> set (restaurant_checks d)" for c
      using books_check(1)[OF books that] by (simp add: fenced(3,6) part_def RESERVING_STATES_def)
  qed (use ids others in \<open>simp_all add: fenced(3,6,9)\<close>)
  moreover have "check_inv d' = check_inv d" by (rule check_inv_cong) (simp_all add: fenced(9))
  moreover have "cash_inv d' = cash_inv d" by (rule cash_inv_cong) (simp_all add: fenced(9))
  ultimately show ?thesis
    using check cash fenced(10) by (simp add: financial_inv_def payment_inv_def)
qed

section \<open>Results\<close>

lemma finish_row_selectors [simp]:
  "pay_id (finish_row s now r p) = pay_id p" "pay_check_id (finish_row s now r p) = pay_check_id p"
  "pay_tenant_id (finish_row s now r p) = pay_tenant_id p" "pay_amount (finish_row s now r p) = pay_amount p"
  "pay_state (finish_row s now r p) = s" "pay_claim_token (finish_row s now r p) = None"
  "pay_claim_expires_at (finish_row s now r p) = None"
  "pay_attempt_count (finish_row s now r p) = pay_attempt_count p"
  "pay_external_reference (finish_row s now r p) = pr_external_reference r"
  "pay_executor_configuration_id (finish_row s now r p) = pay_executor_configuration_id p"
  by (simp_all add: finish_row_def copy_evidence_def)

lemma complete_attempt_selectors [simp]:
  "att_id (complete_attempt sha s now ref r a) = att_id a"
  "att_payment_id (complete_attempt sha s now ref r a) = att_payment_id a"
  "att_attempt_sequence (complete_attempt sha s now ref r a) = att_attempt_sequence a"
  "att_claim_token (complete_attempt sha s now ref r a) = att_claim_token a"
  by (simp_all add: complete_attempt_def)

interpretation completing: row_update att_id "complete_attempt sha s now ref r" for sha s now ref r
  by unfold_locales simp

text \<open>The attempts after a result, and the row it leaves.\<close>

definition attempts_after ::
  "(json \<Rightarrow> string) \<Rightarrow> payment_state \<Rightarrow> datetime \<Rightarrow> string option \<Rightarrow> 'o payment_result \<Rightarrow> payment_attempt
   \<Rightarrow> db \<Rightarrow> payment_attempt list"
where
  "attempts_after sha state now reference r a d =
     modify att_id (att_id a) (complete_attempt sha state now reference r) (payment_attempts d)"

definition recorded :: "payment_state \<Rightarrow> datetime \<Rightarrow> 'o payment_result \<Rightarrow> restaurant_payment \<Rightarrow> db \<Rightarrow> db" where
  "recorded state now r p d = d\<lparr>restaurant_payments :=
     modify pay_id (pay_id p) (\<lambda>_. finish_row state now r p) (restaurant_payments d)\<rparr>"

lemma finish_run:
  assumes find: "List.find (\<lambda>p. pay_id p = i \<and> pay_tenant_id p = tenant_id ctx)
      (restaurant_payments d) = Some row" and token: "pay_claim_token row = Some token"
    and a: "List.find (\<lambda>a. att_payment_id a = pay_id row \<and> att_claim_token a = token)
      (payment_attempts d) = Some a" "att_result a = RES_IN_PROGRESS"
    and final: "final = (if reference_conflict d row state r then PAY_UNCERTAIN else state)"
      "r' = (if reference_conflict d row state r then withhold_reference r else r)"
  shows "finish_payment sha ctx now i token r state d = bind_result (if final = PAY_SUCCEEDED
        then (case List.find (\<lambda>c. chk_id c = pay_check_id row \<and> chk_tenant_id c = tenant_id ctx) (restaurant_checks d) of
                None \<Rightarrow> Inl PaymentAttributeError
              | Some check \<Rightarrow> apply_success ctx now (finish_row final now r' row) check (recorded final now r' row d))
        else Inr (recorded final now r' row d)) (\<lambda>d2.
          let d3 = d2\<lparr>payment_attempts := attempts_after sha final now (pr_external_reference r) r' a d2\<rparr>
          in if \<not> financial_constraints d3 then Inl PaymentIntegrityError
             else Inr (case find_row pay_id (pay_id row) (restaurant_payments d3) of
                         None \<Rightarrow> finish_row final now r' row | Some p \<Rightarrow> p, d3))"
  unfolding finish_payment_def find option.case token a Let_def final recorded_def attempts_after_def
  by simp

lemma finish_success:
  assumes "finish_payment sha ctx now i token r state d = Inr (p, d')"
  obtains (stale) "d' = d" "p \<in> set (restaurant_payments d)" "pay_id p = i" "pay_claim_token p \<noteq> Some token"
  | (ended) row a final r' where "row \<in> set (restaurant_payments d)" "pay_id row = i"
      "pay_claim_token row = Some token" "a \<in> set (payment_attempts d)" "att_payment_id a = i"
      "att_claim_token a = token"
      "final = state \<and> r' = r \<or> reference_conflict d row state r \<and> final = PAY_UNCERTAIN \<and> r' = withhold_reference r"
      "final \<noteq> PAY_SUCCEEDED" "financial_constraints d'"
      "d' = (recorded final now r' row d)\<lparr>payment_attempts :=
              attempts_after sha final now (pr_external_reference r) r' a d\<rparr>"
  | (succeeded) row a c d2 where "row \<in> set (restaurant_payments d)" "pay_id row = i"
      "pay_claim_token row = Some token" "a \<in> set (payment_attempts d)" "att_payment_id a = i"
      "att_claim_token a = token" "state = PAY_SUCCEEDED" "\<not> reference_conflict d row state r"
      "c \<in> set (restaurant_checks d)" "chk_id c = pay_check_id row" "chk_tenant_id c = tenant_id ctx"
      "apply_success ctx now (finish_row PAY_SUCCEEDED now r row) c (recorded PAY_SUCCEEDED now r row d) = Inr d2"
      "d' = d2\<lparr>payment_attempts := attempts_after sha PAY_SUCCEEDED now (pr_external_reference r) r a d2\<rparr>"
      "financial_constraints d'"
proof -
  from assms obtain row where find: "List.find (\<lambda>p. pay_id p = i \<and> pay_tenant_id p = tenant_id ctx)
      (restaurant_payments d) = Some row"
    by (auto simp: finish_payment_def split: option.splits)
  then have row: "row \<in> set (restaurant_payments d)" "pay_id row = i" "pay_tenant_id row = tenant_id ctx"
    by (auto dest: find_SomeD)
  show thesis
  proof (cases "pay_claim_token row = Some token")
    case False
    with assms find stale row show thesis by (simp add: finish_payment_def)
  next
    case True
    with assms find obtain a where a: "List.find (\<lambda>a. att_payment_id a = pay_id row \<and> att_claim_token a = token)
        (payment_attempts d) = Some a" "att_result a = RES_IN_PROGRESS"
      by (auto simp: finish_payment_def split: option.splits if_splits)
    then have attempt: "a \<in> set (payment_attempts d)" "att_payment_id a = i" "att_claim_token a = token"
      using row(2) by (auto dest: find_SomeD)
    define final where "final = (if reference_conflict d row state r then PAY_UNCERTAIN else state)"
    define r' where "r' = (if reference_conflict d row state r then withhold_reference r else r)"
    note run = assms[unfolded finish_run[OF find True a final_def r'_def]]
    show thesis
    proof (cases "final = PAY_SUCCEEDED")
      case False
      with run have "financial_constraints d'"
        "d' = (recorded final now r' row d)\<lparr>payment_attempts :=
              attempts_after sha final now (pr_external_reference r) r' a d\<rparr>"
        by (auto simp: Let_def recorded_def attempts_after_def split: if_splits)
      moreover have "final = state \<and> r' = r \<or> reference_conflict d row state r \<and> final = PAY_UNCERTAIN
          \<and> r' = withhold_reference r"
        by (simp add: final_def r'_def)
      ultimately show thesis using ended row True attempt False by blast
    next
      case final: True
      then have clean: "\<not> reference_conflict d row state r" "state = PAY_SUCCEEDED" "r' = r"
        by (auto simp: final_def r'_def split: if_splits)
      from run final obtain c where c: "List.find (\<lambda>c. chk_id c = pay_check_id row \<and> chk_tenant_id c = tenant_id ctx)
          (restaurant_checks d) = Some c"
        by (auto simp: bind_result_Inr_iff split: option.splits)
      from run final c obtain d2 where "apply_success ctx now (finish_row PAY_SUCCEEDED now r row) c
          (recorded PAY_SUCCEEDED now r row d) = Inr d2"
        "d' = d2\<lparr>payment_attempts := attempts_after sha PAY_SUCCEEDED now (pr_external_reference r) r a d2\<rparr>"
        "financial_constraints d'"
        by (auto simp: bind_result_Inr_iff Let_def clean(3) split: if_splits)
      with succeeded[OF row(1,2) True attempt clean(2,1)] find_SomeD[OF c] show thesis by blast
    qed
  qed
qed


lemma claimed_in_progress:
  assumes "payment_constraints d" "p \<in> set (restaurant_payments d)" "pay_claim_token p = Some t"
  shows "pay_state p = PAY_IN_PROGRESS"
proof -
  have "claim_ok p"
    using assms(1,2) table_okD[of restaurant_payment_ok restaurant_payments_collide "restaurant_payments d" p]
    by (simp add: payment_constraints_def restaurant_payment_ok_def)
  with assms(3) show ?thesis by (cases "pay_state p = PAY_IN_PROGRESS") (simp_all add: claim_ok_def)
qed

lemma attempts_after:
  assumes "distinct (map att_id (payment_attempts d))" "a \<in> set (payment_attempts d)"
  shows "distinct (map att_id (attempts_after sha s now ref r a d))"
    "\<And>b. b \<in> set (payment_attempts d) \<Longrightarrow> att_payment_id b \<noteq> att_payment_id a
       \<Longrightarrow> b \<in> set (attempts_after sha s now ref r a d)"
proof -
  show "distinct (map att_id (attempts_after sha s now ref r a d))"
    using assms(1) by (simp add: attempts_after_def completing.ids_modify)
  fix b assume b: "b \<in> set (payment_attempts d)" "att_payment_id b \<noteq> att_payment_id a"
  then have "att_id b \<noteq> att_id a" using same_row_if_same_id[OF assms(1) b(1) assms(2)] by auto
  with b(1) show "b \<in> set (attempts_after sha s now ref r a d)"
    unfolding attempts_after_def set_modify by (intro bexI[of _ b]) simp_all
qed

lemma finish_keeps:
  assumes inv: "financial_inv d"
    and run: "finish_payment sha ctx now i token r state d = Inr (p, d')" and state: "state \<noteq> PAY_IN_PROGRESS"
  shows "financial_inv d'"
proof -
  from inv have check: "check_inv d" and books: "payment_books d" and cash: "cash_inv d"
    and pcons: "payment_constraints d"
    by (simp_all add: financial_inv_def payment_inv_def)
  have keys: "distinct (map pay_id (restaurant_payments d))" "distinct (map att_id (payment_attempts d))"
    using books by (simp_all add: payment_books_def payment_keys_ok_def)
  have chk_keys: "distinct (map chk_id (restaurant_checks d))"
    using check by (simp add: check_inv_def check_keys_ok_def)
  from run show ?thesis
  proof (cases rule: finish_success)
    case stale
    with inv show ?thesis by simp
  next
    case (ended row a final r')
    note busy = claimed_in_progress[OF pcons ended(1,3)]
    have final: "final \<noteq> PAY_IN_PROGRESS" using ended(7) state by auto
    note as = attempts_after[OF keys(2) ended(4)]
    have "payment_books d'"
    proof (rule books_change_payment[OF books ended(1), where p' = "finish_row final now r' row"])
      fix c assume c: "c \<in> set (restaurant_checks d)" "chk_id c = pay_check_id row"
      have "0 \<le> part RESERVING_STATES (chk_id c) row
          - part RESERVING_STATES (chk_id c) (finish_row final now r' row)"
        using payment_amounts_positive[OF pcons] ended(1) busy
        by (force simp: part_def RESERVING_STATES_def)
      with books_check(1)[OF books c(1)]
      show "exposure d (chk_id c) - part RESERVING_STATES (chk_id c) row
          + part RESERVING_STATES (chk_id c) (finish_row final now r' row) \<le> chk_liability_total c" by simp
    qed (use as ended(2,5,8) final busy in \<open>simp_all add: ended(10) recorded_def\<close>)
    moreover have "check_inv d' = check_inv d" by (rule check_inv_cong) (simp_all add: ended(10) recorded_def)
    moreover have "cash_inv d' = cash_inv d" by (rule cash_inv_cong) (simp_all add: ended(10) recorded_def)
    ultimately show ?thesis
      using check cash ended(9) by (simp add: financial_inv_def payment_inv_def financial_constraints_def)
  next
    case (succeeded row a c d2)
    let ?p = "finish_row PAY_SUCCEEDED now r row" and ?d1 = "recorded PAY_SUCCEEDED now r row d"
    note busy = claimed_in_progress[OF pcons succeeded(1,3)]
    have reserving: "pay_state row \<in> RESERVING_STATES" by (simp add: busy RESERVING_STATES_def)
    have frozen: "chk_status c = CHK_FROZEN"
      by (rule reserving_check_frozen[OF _ succeeded(1) reserving succeeded(9,10)])
        (use inv in \<open>simp add: financial_inv_def\<close>)
    have none: "\<forall>s \<in> set (check_settlements ?d1). st_payment_id s \<noteq> pay_id ?p"
      using unsettled_payment[OF books succeeded(1)] busy by (simp add: recorded_def)
    note after = apply_success_check_tables[OF succeeded(12) none]
    note as = attempts_after[OF keys(2) succeeded(4)]
    have att: "attempts_after sha s n ref r a d2 = attempts_after sha s n ref r a d" for s n ref
      by (simp add: attempts_after_def after(6) recorded_def)
    have "payment_books d'"
      unfolding succeeded(13) att
      by (rule settle_keeps_books[OF books chk_keys owned_live[OF check] succeeded(1) reserving succeeded(9,10)
          frozen _ _ _ _ _ _ _ _ succeeded(12)])
        (use as succeeded(2,5) in \<open>simp_all add: recorded_def\<close>)
    moreover have "check_inv d'"
    proof (rule check_inv_finance[OF check succeeded(9), where ref = "payment_reference ?p" and now = now])
      let ?c' = "if restaurant_checks d2 = restaurant_checks d then c else settled_check ctx now c"
      show "restaurant_checks d' = modify chk_id (chk_id c) (\<lambda>_. ?c') (restaurant_checks d)"
        using after(9) modify_same[OF chk_keys succeeded(9) refl]
        by (auto simp: succeeded(13) recorded_def)
    qed (use after(1,2,9) frozen succeeded(14) in
        \<open>auto simp: succeeded(13) recorded_def settled_check_def financial_constraints_def\<close>)
    moreover have "cash_inv d' = cash_inv d"
      by (rule cash_inv_cong) (simp_all add: succeeded(13) after recorded_def)
    ultimately show ?thesis
      using cash succeeded(14) by (simp add: financial_inv_def payment_inv_def financial_constraints_def)
  qed
qed

end
