(* ===== verification/FinancialSystem.thy ===== *)
theory FinancialSystem
  imports CheckProofs PaymentSteps
begin

text \<open>
  The three services as one system: a step is one committed transaction of the check, payment or cash
  service (or a commit elsewhere that leaves the tables of the core alone), and every step keeps the
  joint invariant. The proof interprets \<^theory_text>\<open>step_invariant\<close>, so the invariant holds in every
  reachable state.
\<close>

section \<open>Commands leave the cash tables alone\<close>

definition cash_part :: "db \<Rightarrow> cash_session list \<times> cash_movement list \<times> cash_count list" where
  "cash_part d = (cash_sessions d, cash_movements d, cash_counts d)"

lemma cash_part_frame [simp]:
  "cash_part (record_command sha ctx key op request c d) = cash_part d"
  "cash_part (write_version sha ctx now c g x d) = cash_part d"
  "cash_part (replace_check c d) = cash_part d"
  "cash_part (include_diners ctx now c rel diners d) = cash_part d"
  "cash_part (claim_orders ctx now c orders d) = cash_part d"
  "cash_part (lock_tables ctx now c sessions d) = cash_part d"
  "cash_part (release_members a now r v P d) = cash_part d"
  "cash_part (release_allocations a now r v Q d) = cash_part d"
  "cash_part (release_scopes a now r R d) = cash_part d"
  "cash_part (d\<lparr>check_gratuities := gs\<rparr>) = cash_part d"
  "cash_part (d\<lparr>check_members := ms\<rparr>) = cash_part d"
  "cash_part (d\<lparr>restaurant_checks := cs\<rparr>) = cash_part d"
  by (simp_all add: cash_part_def record_command_def write_version_def Let_def replace_check_def
      include_diners_def claim_orders_def lock_tables_def release_members_def release_allocations_def
      release_scopes_def)

lemma cash_inv_part: "cash_part e = cash_part d \<Longrightarrow> cash_inv e = cash_inv d"
  by (rule cash_inv_cong) (simp_all add: cash_part_def)

lemma run_cash_part:
  assumes "run_check sha ctx now q d = Inr (c, d1)"
  shows "cash_part d1 = cash_part d"
  using assms
  by (cases q)
    (auto simp: bind_result_Inr_iff open_new_check_def Let_def elim!: create_success add_member_success remove_member_success
      transfer_controller_success update_gratuity_success freeze_success cancel_success decide_success)

lemma command_keeps:
  assumes inv: "financial_inv d" and run: "execute_check sha ctx now key q d = Inr ((v, b), d')"
  shows "financial_inv d'" "restaurant_payments d' = restaurant_payments d"
    "payment_attempts d' = payment_attempts d" "cash_part d' = cash_part d"
proof -
  from inv have check: "check_inv d" and pay: "payment_inv d" and cash: "cash_inv d"
    by (simp_all add: financial_inv_def)
  have "check_inv d' \<and> cash_part d' = cash_part d \<and> restaurant_payments d' = restaurant_payments d
    \<and> payment_attempts d' = payment_attempts d"
    using run
  proof (cases rule: execute_success)
    case replay
    with check show ?thesis by simp
  next
    case (new operation request c d1)
    have "checks_advance d d'"
      unfolding new(5) using pay new(6)
      by (intro run_advance[OF check _ new(4)]) (simp_all add: new(5) payment_inv_def)
    with run_keeps[OF check new(4)] run_cash_part[OF new(4)] new(5,6) show ?thesis
      by (simp add: checks_advance_def)
  qed
  then show "restaurant_payments d' = restaurant_payments d"
    "payment_attempts d' = payment_attempts d" "cash_part d' = cash_part d" "financial_inv d'"
    using check_command_keeps_payments[OF check pay run] cash_inv_part[of d' d] cash
    by (simp_all add: financial_inv_def)
qed

section \<open>What a reservation and a claim do to the tables\<close>

lemma payment_movements_extend:
  assumes "cash_inv d" "r \<in> set (cash_sessions d)" "cs_id r = cs_id s" "cs_status r = CS_OPEN"
    and "table_ok cash_movement_ok cash_movements_collide
      (cash_movements (add_payment_movements sha ctx now s p vs d))"
  shows "cash_extends d (add_payment_movements sha ctx now s p vs d)"
  using assms
proof (induction vs arbitrary: d r)
  case (Cons v vs)
  let ?m = "payment_movement sha ctx now s p d v"
  let ?d = "add_cash_movement ?m d"
  obtain ms where ms: "cash_movements (add_payment_movements sha ctx now s p vs ?d) = (cash_movements d @ [?m]) @ ms"
    using add_payment_movements_appends[of sha ctx now s p vs ?d] by (auto simp: add_cash_movement_tables)
  have one: "table_ok cash_movement_ok cash_movements_collide
      (cash_movements (add_payment_movements sha ctx now s p [v] d))"
    using Cons.prems(5) ms by (simp add: add_cash_movement_tables) (metis table_ok_prefix append_assoc append_Cons append_Nil)
  have inv: "cash_inv ?d"
    using cash_inv_payment_movements[OF Cons.prems(1-4) one] by simp
  have "cash_extends d ?d"
    using Cons.prems(2-4) by (intro cash_extends_modify[OF Cons.prems(1), of r bump_movement_version])
      (simp_all add: add_cash_movement_tables bump_movement_version_def)
  moreover have "bump_movement_version r \<in> set (cash_sessions ?d)"
    using Cons.prems(2,3) by (auto simp: add_cash_movement_tables intro!: bump.in_modify)
  then have "cash_extends ?d (add_payment_movements sha ctx now s p vs ?d)"
    using Cons.IH[OF inv, of "bump_movement_version r"] Cons.prems(3-5)
    by (simp add: bump_movement_version_def)
  ultimately show ?case by (auto intro: cash_extends_trans)
qed simp

lemma modify_snoc_new:
  assumes "rid a \<notin> rid ` set rows"
  shows "modify rid (rid a) f (rows @ [a]) = rows @ [f a]"
  using assms unfolding modify_def by (auto intro!: map_idI simp: image_iff)

text \<open>A reservation adds one payment row; a cash payment may also add movements to an open session.\<close>

lemma reserve_tables:
  assumes inv: "financial_inv d"
    and run: "reserve_payment sha registry ctx now q v fingerprint d = Inr ((p, b), d')"
  shows "cash_extends d d'" "payment_attempts d' = payment_attempts d"
    "restaurant_payments d' = restaurant_payments d @ (if b then [] else [p])"
    "p \<in> set (restaurant_payments d')" "\<not> b \<Longrightarrow> pay_state p = (if vp_method v = CASH then PAY_SUCCEEDED else PAY_RESERVED)"
proof -
  from inv have check: "check_inv d" and books: "payment_books d" and cash: "cash_inv d"
    by (simp_all add: financial_inv_def payment_inv_def)
  have "cash_extends d d' \<and> payment_attempts d' = payment_attempts d
    \<and> restaurant_payments d' = restaurant_payments d @ (if b then [] else [p])
    \<and> p \<in> set (restaurant_payments d')
    \<and> (\<not> b \<longrightarrow> pay_state p = (if vp_method v = CASH then PAY_SUCCEEDED else PAY_RESERVED))"
    using run
  proof (cases rule: reserve_success)
    case replay
    then show ?thesis by (auto simp: payment_by_key_def dest: find_SomeD)
  next
    case (new c)
    from new(6) show ?thesis
    proof (cases rule: reserve_on_check_success)
      case (1 members c1 d1)
      note auth = authorized_check[OF check books new(2) 1(4)]
      have same: "cash_extends d e" if "cash_part e = cash_part d1" for e
        using that auth(13-15) by (intro cash_extends_cong) (simp_all add: cash_part_def)
      from 1(6) show ?thesis
      proof (elim disjE exE conjE)
        fix configuration executor
        assume "p = reserved_payment sha ctx c1 q v fingerprint (Some configuration) d1" "vp_method v \<noteq> CASH"
          and "d' = d1\<lparr>restaurant_payments := restaurant_payments d1 @ [p]\<rparr>"
        with auth same[of d'] new(1) show ?thesis by (simp add: cash_part_def)
      next
        fix session pay
        let ?d2 = "d1\<lparr>restaurant_payments := restaurant_payments d1 @ [pay]\<rparr>"
        assume session: "cash_session_for_payment d c (vp_currency v) (pq_cash_session_id q) = Inr session"
          and pay: "pay = reserved_payment sha ctx c1 q v fingerprint None d1" and cash_pay: "vp_method v = CASH"
          and p: "p = succeed_payment now pay"
          and receive: "receive_cash sha ctx now session pay c1 ?d2 = Inr d'"
        obtain vs where applies: "apply_success ctx now pay c1 (case session of None \<Rightarrow> ?d2
            | Some s \<Rightarrow> add_payment_movements sha ctx now s pay vs ?d2) = Inr d'"
          using receive by (cases rule: receive_cash_success) blast
        let ?d3 = "case session of None \<Rightarrow> ?d2
            | Some s \<Rightarrow> add_payment_movements sha ctx now s pay vs ?d2"
        have frame: "restaurant_payments ?d3 = restaurant_payments ?d2" "check_settlements ?d3 = check_settlements ?d2"
          "payment_attempts ?d3 = payment_attempts ?d2"
          using add_payment_movements_frame by (cases session; simp)+
        have fresh: "pay_id pay \<notin> pay_id ` set (restaurant_payments d1)" by (simp add: pay next_id_fresh)
        have none: "\<forall>s \<in> set (check_settlements ?d3). st_payment_id s \<noteq> pay_id pay"
        proof
          fix s assume "s \<in> set (check_settlements ?d3)"
          with frame(2) auth(1) obtain r where "r \<in> set (restaurant_payments d1)" "settles s r"
            unfolding payment_books_def settlements_match_def by auto
          with fresh show "st_payment_id s \<noteq> pay_id pay" by (auto simp: settles_def image_iff)
        qed
        note after = apply_success_check_tables[OF applies none]
        have "restaurant_payments d' = modify pay_id (pay_id pay) (succeed_payment now) (restaurant_payments ?d3)"
          using applies none
          by (cases rule: apply_success_cases)
            (auto simp: applied_def finalize_full_check_def replace_check_def split: if_splits)
        then have payments: "restaurant_payments d' = restaurant_payments d1 @ [p]"
          unfolding frame(1) using modify_snoc_new[OF fresh] by (simp add: p)
        have "cash_extends d ?d3"
        proof (cases session)
          case (Some s)
          note open_session = cash_session_for_paymentD[OF session[unfolded Some]]
          have "cash_inv ?d2" using cash cash_inv_cong[of ?d2 d] by (simp add: auth)
          then have "cash_extends ?d2 (add_payment_movements sha ctx now s pay vs ?d2)"
            by (rule payment_movements_extend)
              (use open_session(1,2) auth after(4) new(7) Some in \<open>simp_all add: financial_constraints_def\<close>)
          with same[of ?d2] show ?thesis by (auto simp: Some cash_part_def intro: cash_extends_trans)
        qed (use same[of ?d2] in \<open>simp add: cash_part_def\<close>)
        moreover have "cash_extends ?d3 d'" by (rule cash_extends_cong) (simp_all add: after)
        ultimately show ?thesis
          using payments after(6) frame(3) auth new(1) cash_pay p by (auto intro: cash_extends_trans)
      qed
    qed
  qed
  then show "cash_extends d d'" "payment_attempts d' = payment_attempts d"
    "restaurant_payments d' = restaurant_payments d @ (if b then [] else [p])"
    "p \<in> set (restaurant_payments d')"
    "\<not> b \<Longrightarrow> pay_state p = (if vp_method v = CASH then PAY_SUCCEEDED else PAY_RESERVED)" by auto
qed

section \<open>The objects a session waits with\<close>

text \<open>
  A payment that is not being executed stays as it is until it is claimed, and no attempt loses its
  number: so an object that a session loaded before its claim stays current in the sense of
  \<^theory_text>\<open>object_current\<close>.
\<close>

definition payments_move :: "db \<Rightarrow> db \<Rightarrow> bool" where
  "payments_move d e \<longleftrightarrow>
     (\<forall>p \<in> set (restaurant_payments d). pay_state p \<noteq> PAY_IN_PROGRESS \<longrightarrow>
        p \<in> set (restaurant_payments e) \<or> claimed_since e p) \<and>
     (\<forall>a \<in> set (payment_attempts d). \<exists>b \<in> set (payment_attempts e).
        att_payment_id b = att_payment_id a \<and> att_attempt_sequence b = att_attempt_sequence a)"

lemma move_object:
  assumes "payments_move d e" "object_current d x" "pay_state x \<noteq> PAY_IN_PROGRESS"
  shows "object_current e x"
  using assms unfolding payments_move_def object_current_def claimed_since_def by metis

lemma move_same:
  assumes "set (restaurant_payments d) \<subseteq> set (restaurant_payments e)" "payment_attempts e = payment_attempts d"
  shows "payments_move d e"
  using assms unfolding payments_move_def by auto

lemma payments_move_row:
  assumes "distinct (map pay_id (restaurant_payments d))" "row \<in> set (restaurant_payments d)"
    and "restaurant_payments e = modify pay_id (pay_id row) f (restaurant_payments d)"
    and "pay_state row \<noteq> PAY_IN_PROGRESS \<Longrightarrow> claimed_since e row"
    and "\<And>a. a \<in> set (payment_attempts d) \<Longrightarrow> \<exists>b \<in> set (payment_attempts e).
        att_payment_id b = att_payment_id a \<and> att_attempt_sequence b = att_attempt_sequence a"
  shows "payments_move d e"
  unfolding payments_move_def
proof (intro conjI ballI impI)
  fix p assume p: "p \<in> set (restaurant_payments d)" "pay_state p \<noteq> PAY_IN_PROGRESS"
  show "p \<in> set (restaurant_payments e) \<or> claimed_since e p"
  proof (cases "pay_id p = pay_id row")
    case True
    then have "p = row" using same_row_if_same_id[OF assms(1) p(1) assms(2)] by simp
    with p(2) assms(4) show ?thesis by simp
  next
    case False
    with p(1) have "p \<in> set (restaurant_payments e)" unfolding assms(3) set_modify by (intro bexI[of _ p]) simp_all
    then show ?thesis by simp
  qed
qed (use assms(5) in blast)

lemma attempts_renumber:
  assumes "\<And>x. att_payment_id (f x) = att_payment_id x" "\<And>x. att_attempt_sequence (f x) = att_attempt_sequence x"
    and "a \<in> set (payment_attempts d)" "payment_attempts e = modify att_id i f (payment_attempts d)"
  shows "\<exists>b \<in> set (payment_attempts e).
      att_payment_id b = att_payment_id a \<and> att_attempt_sequence b = att_attempt_sequence a"
proof
  show "(if att_id a = i then f a else a) \<in> set (payment_attempts e)"
    using assms(3) unfolding assms(4) set_modify by blast
qed (simp add: assms(1,2))

lemma claim_tables:
  assumes inv: "financial_inv d"
    and run: "claim_payment ctx now token cached i type allowed again d = Inr ((p, t), d')"
    and cached: "\<forall>x. cached = Some x \<longrightarrow> pay_id x = i \<and> object_current d x"
    and allowed: "PAY_IN_PROGRESS \<notin> allowed"
  shows "payments_move d d'" "cash_part d' = cash_part d"
proof -
  from inv have keys: "distinct (map pay_id (restaurant_payments d))"
    by (simp add: financial_inv_def payment_inv_def payment_books_def payment_keys_ok_def)
  have "payments_move d d' \<and> cash_part d' = cash_part d"
    using run cached keys
  proof (cases rule: claim_success)
    case settled
    then show ?thesis by (simp add: move_same)
  next
    case (claimed row)
    have "claimed_since d' row" by (simp add: claimed_since_def claimed(6,9))
    moreover have "restaurant_payments d' = modify pay_id (pay_id row) (\<lambda>_. p) (restaurant_payments d)"
      by (simp add: claimed(2,9))
    ultimately have "payments_move d d'"
      by (intro payments_move_row[OF keys claimed(1)]) (auto simp: claimed(9))
    then show ?thesis by (simp add: claimed(9) cash_part_def)
  qed
  then show "payments_move d d'" "cash_part d' = cash_part d" by simp_all
qed

lemma fence_tables:
  assumes inv: "financial_inv d" and run: "fence_payment ctx now i location d = Inr ((p, type), d')"
  shows "payments_move d d'" "cash_part d' = cash_part d"
    "p \<in> set (restaurant_payments d')" "pay_state p = PAY_UNCERTAIN" "pay_id p = i"
proof -
  from inv have keys: "distinct (map pay_id (restaurant_payments d))"
    by (simp add: financial_inv_def payment_inv_def payment_books_def payment_keys_ok_def)
  have "payments_move d d' \<and> cash_part d' = cash_part d \<and> p \<in> set (restaurant_payments d')
    \<and> pay_state p = PAY_UNCERTAIN \<and> pay_id p = i"
    using run
  proof (cases rule: fence_success)
    case waiting
    then show ?thesis by (simp add: move_same)
  next
    case (fenced row as)
    have rows: "restaurant_payments d' = modify pay_id (pay_id row) release_claim (restaurant_payments d)"
      by (simp add: fenced(2,9))
    have kept: "\<exists>b \<in> set (payment_attempts d').
        att_payment_id b = att_payment_id a \<and> att_attempt_sequence b = att_attempt_sequence a"
      if "a \<in> set (payment_attempts d)" for a
    proof -
      have "payment_attempts d' = payment_attempts d
        \<or> (\<exists>j. payment_attempts d' = modify att_id j (fence_attempt now) (payment_attempts d))"
        unfolding fenced(8,9) by (auto split: option.splits)
      with that show ?thesis using attempts_renumber[of "fence_attempt now" a d d'] by auto
    qed
    have "payments_move d d'"
      by (rule payments_move_row[OF keys fenced(1) rows]) (use kept fenced(3) in simp_all)
    moreover have "p \<in> set (restaurant_payments d')"
      unfolding rows fenced(6) set_modify using fenced(1) by (intro bexI[of _ row]) simp_all
    ultimately show ?thesis by (simp add: fenced(2,6,9) cash_part_def)
  qed
  then show "payments_move d d'" "cash_part d' = cash_part d" "p \<in> set (restaurant_payments d')"
    "pay_state p = PAY_UNCERTAIN" "pay_id p = i" by simp_all
qed

lemma finish_tables:
  assumes inv: "financial_inv d" and run: "finish_payment sha ctx now i token r state d = Inr (p, d')"
  shows "payments_move d d'" "cash_part d' = cash_part d"
proof -
  from inv have books: "payment_books d" and pcons: "payment_constraints d"
    by (simp_all add: financial_inv_def payment_inv_def)
  then have keys: "distinct (map pay_id (restaurant_payments d))"
    by (simp add: payment_books_def payment_keys_ok_def)
  have "payments_move d d' \<and> cash_part d' = cash_part d"
    using run
  proof (cases rule: finish_success)
    case stale
    then show ?thesis by (simp add: move_same)
  next
    case (ended row a final r')
    have rows: "restaurant_payments d' = modify pay_id (pay_id row) (\<lambda>_. finish_row final now r' row)
        (restaurant_payments d)" by (simp add: ended(10) recorded_def)
    have atts: "payment_attempts d' = modify att_id (att_id a)
        (complete_attempt sha final now (pr_external_reference r) r') (payment_attempts d)"
      by (simp add: ended(10) attempts_after_def)
    have "payments_move d d'"
      by (rule payments_move_row[OF keys ended(1) rows])
        (use claimed_in_progress[OF pcons ended(1,3)] attempts_renumber[OF _ _ _ atts] in simp_all)
    then show ?thesis by (simp add: ended(10) recorded_def cash_part_def)
  next
    case (succeeded row a c d2)
    let ?p = "finish_row PAY_SUCCEEDED now r row"
    note busy = claimed_in_progress[OF pcons succeeded(1,3)]
    have none: "\<forall>s \<in> set (check_settlements (recorded PAY_SUCCEEDED now r row d)). st_payment_id s \<noteq> pay_id ?p"
      using unsettled_payment[OF books succeeded(1)] busy by (simp add: recorded_def)
    note after = apply_success_check_tables[OF succeeded(12) none]
    have "restaurant_payments d2 = modify pay_id (pay_id ?p) (succeed_payment now)
        (restaurant_payments (recorded PAY_SUCCEEDED now r row d))"
      using succeeded(12) none
      by (cases rule: apply_success_cases)
        (auto simp: applied_def finalize_full_check_def replace_check_def split: if_splits)
    then have rows: "restaurant_payments d' = modify pay_id (pay_id row)
        (\<lambda>_. succeed_payment now ?p) (restaurant_payments d)"
      by (simp add: succeeded(13) recorded_def modify_modify_const)
    have atts: "payment_attempts d' = modify att_id (att_id a)
        (complete_attempt sha PAY_SUCCEEDED now (pr_external_reference r) r) (payment_attempts d)"
      by (simp add: succeeded(13) attempts_after_def after(6) recorded_def)
    have "payments_move d d'"
      by (rule payments_move_row[OF keys succeeded(1) rows])
        (use busy attempts_renumber[OF _ _ _ atts] in simp_all)
    then show ?thesis by (simp add: succeeded(13) recorded_def cash_part_def after)
  qed
  then show "payments_move d d'" "cash_part d' = cash_part d" by simp_all
qed

section \<open>Ending a diner, closing a table\<close>

text \<open>What both write: members and table scopes that lose their slot.\<close>

definition freed_rows :: "('r \<Rightarrow> int) \<Rightarrow> ('r \<Rightarrow> int) \<Rightarrow> ('r \<Rightarrow> int option) \<Rightarrow> 'r list \<Rightarrow> 'r list \<Rightarrow> bool" where
  "freed_rows rid owner slot old new \<longleftrightarrow> map rid new = map rid old
     \<and> (\<forall>y \<in> set new. \<exists>x \<in> set old. owner x = owner y \<and> (y = x \<or> slot y = None))"

lemma freed_rows_refl [simp]: "freed_rows rid owner slot rows rows"
  unfolding freed_rows_def by auto

lemma freed_rows_trans:
  assumes "freed_rows rid owner slot a b" "freed_rows rid owner slot b c"
  shows "freed_rows rid owner slot a c"
  using assms unfolding freed_rows_def by metis

lemma freed_rows_modify:
  assumes "\<And>r. rid (f r) = rid r" "\<And>r. owner (f r) = owner r" "\<And>r. slot (f r) = None"
  shows "freed_rows rid owner slot rows (modify_where P f rows)"
proof -
  have "\<exists>x \<in> set rows. owner x = owner y \<and> (y = x \<or> slot y = None)"
    if "y \<in> set (modify_where P f rows)" for y
  proof -
    from that obtain x where "x \<in> set rows" "y = (if P x then f x else x)" unfolding set_modify_where by blast
    with assms(2,3) show ?thesis by (intro bexI[of _ x]) simp_all
  qed
  then show ?thesis unfolding freed_rows_def modify_where_ids[of rid f, OF assms(1)] by simp
qed

lemma freed_rows_owner:
  assumes "freed_rows rid owner slot old new"
  shows "owner ` set new \<subseteq> owner ` set old"
proof
  fix i assume "i \<in> owner ` set new"
  then obtain y where "y \<in> set new" "i = owner y" by blast
  moreover from assms this(1) obtain x where "x \<in> set old" "owner x = owner y"
    unfolding freed_rows_def by blast
  ultimately show "i \<in> owner ` set old" by (simp add: image_iff) metis
qed

lemma freed_rows_free:
  assumes "freed_rows rid owner slot old new" "\<forall>x \<in> set old. owner x = i \<longrightarrow> slot x = None"
  shows "\<forall>y \<in> set new. owner y = i \<longrightarrow> slot y = None"
  using assms unfolding freed_rows_def by metis

definition slots_freed :: "db \<Rightarrow> db \<Rightarrow> bool" where
  "slots_freed d e \<longleftrightarrow> (\<exists>ms ts. e = d\<lparr>check_members := ms, check_table_scopes := ts\<rparr>
     \<and> freed_rows cm_id cm_check_id cm_active_slot (check_members d) ms
     \<and> freed_rows ts_id ts_check_id ts_active_slot (check_table_scopes d) ts)"

lemma slots_freed_refl: "slots_freed d d"
  unfolding slots_freed_def by (intro exI[of _ "check_members d"] exI[of _ "check_table_scopes d"]) simp

lemma slots_freed_trans:
  assumes "slots_freed a b" "slots_freed b c"
  shows "slots_freed a c"
proof -
  from assms(1) obtain ms ts where b: "b = a\<lparr>check_members := ms, check_table_scopes := ts\<rparr>"
    "freed_rows cm_id cm_check_id cm_active_slot (check_members a) ms"
    "freed_rows ts_id ts_check_id ts_active_slot (check_table_scopes a) ts"
    unfolding slots_freed_def by blast
  from assms(2) obtain ms' ts' where c: "c = b\<lparr>check_members := ms', check_table_scopes := ts'\<rparr>"
    "freed_rows cm_id cm_check_id cm_active_slot (check_members b) ms'"
    "freed_rows ts_id ts_check_id ts_active_slot (check_table_scopes b) ts'"
    unfolding slots_freed_def by blast
  have "freed_rows cm_id cm_check_id cm_active_slot (check_members a) ms'"
    "freed_rows ts_id ts_check_id ts_active_slot (check_table_scopes a) ts'"
    using freed_rows_trans[OF b(2)] freed_rows_trans[OF b(3)] c(2,3) by (simp_all add: b(1))
  then show ?thesis
    unfolding slots_freed_def by (intro exI[of _ ms'] exI[of _ ts']) (simp add: b(1) c(1))
qed

lemma slots_freed_foldl:
  assumes "\<And>e x. slots_freed e (f e x)"
  shows "slots_freed d (foldl f d xs)"
proof (induction xs arbitrary: d)
  case (Cons x xs)
  show ?case using slots_freed_trans[OF assms Cons.IH] by simp
qed (simp add: slots_freed_refl)

lemma release_members_freed: "slots_freed d (release_members a now r v P d)"
  unfolding slots_freed_def release_members_def
  by (intro exI[of _ "modify_where P (release_member a now r v) (check_members d)"]
      exI[of _ "check_table_scopes d"]) (simp add: freed_rows_modify release_member_def)

lemma release_scopes_freed: "slots_freed d (release_scopes a now r P d)"
  unfolding slots_freed_def release_scopes_def
  by (intro exI[of _ "check_members d"] exI[of _ "modify_where P (release_scope a now r) (check_table_scopes d)"])
    (simp add: freed_rows_modify release_scope_def)

lemma diner_end_frees:
  assumes "assert_diner_can_end d now tenant i = Inr e"
  shows "slots_freed d e"
  using assms
  by (auto simp: assert_diner_can_end_def Let_def split: option.splits if_splits
      intro!: slots_freed_foldl release_members_freed)

lemma service_close_frees:
  assumes "assert_service_can_close d now tenant i = Inr (b, e)"
  shows "slots_freed d e"
proof -
  from assms obtain scs where "e = foldl (\<lambda>e sc. release_table now i sc e) d scs"
    by (auto simp: assert_service_can_close_def bind_result_Inr_iff split: if_splits)
  moreover have "slots_freed f (release_table now i sc f)" for f sc
    unfolding release_table_def by (rule slots_freed_trans[OF release_scopes_freed release_members_freed])
  ultimately show ?thesis by (simp add: slots_freed_foldl)
qed

lemma slots_freed_keeps:
  assumes inv: "financial_inv d" and freed: "slots_freed d e" and ok: "check_constraints e"
  shows "financial_inv e" "restaurant_payments e = restaurant_payments d"
    "payment_attempts e = payment_attempts d" "cash_part e = cash_part d"
proof -
  from freed obtain ms ts where e: "e = d\<lparr>check_members := ms, check_table_scopes := ts\<rparr>"
    and ms: "freed_rows cm_id cm_check_id cm_active_slot (check_members d) ms"
    and ts: "freed_rows ts_id ts_check_id ts_active_slot (check_table_scopes d) ts"
    unfolding slots_freed_def by blast
  show rest: "restaurant_payments e = restaurant_payments d"
    "payment_attempts e = payment_attempts d" "cash_part e = cash_part d"
    by (simp_all add: e cash_part_def)
  from inv have check: "check_inv d" and pay: "payment_inv d" and cash: "cash_inv d"
    by (simp_all add: financial_inv_def)
  have "check_keys_ok e"
    using check ms ts by (simp add: check_inv_def check_keys_ok_def e freed_rows_def)
  moreover have "check_refs_ok e"
    using check subset_trans[OF freed_rows_owner[OF ms]] subset_trans[OF freed_rows_owner[OF ts]]
    by (simp add: check_inv_def check_refs_ok_def e)
  moreover have "totals_ok e c \<and> history_ok e c \<and> cancelled_free e c" if c: "c \<in> set (restaurant_checks d)" for c
  proof -
    have "totals_ok d c" "history_ok d c" "cancelled_free d c" using check c by (simp_all add: check_inv_def)
    then show ?thesis
      using freed_rows_free[OF ms, of "chk_id c"] freed_rows_free[OF ts, of "chk_id c"]
      by (simp add: totals_ok_def live_total_def history_ok_def history_def cancelled_free_def e)
  qed
  ultimately have "check_inv e" using ok by (simp add: check_inv_def e)
  moreover have "payment_inv e"
    using pay
    by (simp add: payment_inv_def payment_books_def payment_keys_ok_def payment_refs_ok_def settlements_match_def
        claims_match_def check_funded_def exposure_def settled_amount_def payment_amount_def
        payment_constraints_def e)
  ultimately show "financial_inv e" using cash cash_inv_part[OF rest(3)] by (simp add: financial_inv_def)
qed

section \<open>The system\<close>

text \<open>
  A state holds the database, the committed states so far (what a consistent read of a transaction that
  began earlier may show) and the payment objects that sessions loaded and still hold. One step is one
  committed transaction of one of the three services, or a commit of another part of the program, which
  leaves the tables of the core as they are.
\<close>

record financial_system =
  fs_db :: db
  fs_past :: "db list"
  fs_objects :: "restaurant_payment list"

definition system_start :: "db \<Rightarrow> financial_system" where
  "system_start d = \<lparr>fs_db = d, fs_past = [d], fs_objects = []\<rparr>"

definition committed :: "db \<Rightarrow> financial_system \<Rightarrow> financial_system" where
  "committed d s = s\<lparr>fs_db := d, fs_past := d # fs_past s\<rparr>"

definition loaded :: "restaurant_payment \<Rightarrow> financial_system \<Rightarrow> financial_system" where
  "loaded p s = s\<lparr>fs_objects := p # fs_objects s\<rparr>"

definition core_tables ::
  "db \<Rightarrow> (restaurant_check list \<times> check_member list \<times> check_table_scope list \<times> check_allocation list
     \<times> check_version list \<times> check_gratuity list \<times> check_command list)
    \<times> (restaurant_payment list \<times> payment_attempt list \<times> check_settlement list)
    \<times> (cash_session list \<times> cash_movement list \<times> cash_count list)"
where
  "core_tables d = ((restaurant_checks d, check_members d, check_table_scopes d, check_allocations d,
      check_versions d, check_gratuities d, check_commands d),
     (restaurant_payments d, payment_attempts d, check_settlements d), cash_part d)"

text \<open>How the service claims: an execution, a retry that reserves again, or a recovery.\<close>

definition claim_mode :: "attempt_type \<Rightarrow> payment_state set \<Rightarrow> bool \<Rightarrow> bool" where
  "claim_mode type allowed again \<longleftrightarrow>
     (type, allowed, again) \<in> {(ATT_EXECUTE, {PAY_RESERVED}, False), (ATT_RETRY, {PAY_FAILED}, True),
       (ATT_RECOVER, {PAY_UNCERTAIN}, False), (ATT_STALE_RECOVERY, {PAY_UNCERTAIN}, False)}"

inductive financial_step :: "(json \<Rightarrow> string) \<Rightarrow> financial_system \<Rightarrow> financial_system \<Rightarrow> bool"
  for sha :: "json \<Rightarrow> string"
where
  cash_opened:
    "open_cash_session sha ctx now rid lid cur key snap (fs_db s) = Inr (r, d') \<Longrightarrow>
     snap \<in> set (fs_past s) \<Longrightarrow> financial_step sha s (committed d' s)"
| cash_moved:
    "create_manual_movement sha ctx now sid lid mt am cur rs rf key snap (fs_db s) = Inr (r, d') \<Longrightarrow>
     snap \<in> set (fs_past s) \<Longrightarrow> financial_step sha s (committed d' s)"
| cash_counted:
    "create_cash_count sha ctx now sid lid am cur key snap (fs_db s) = Inr (r, d') \<Longrightarrow>
     snap \<in> set (fs_past s) \<Longrightarrow> financial_step sha s (committed d' s)"
| cash_closed:
    "close_cash_session sha ctx now sid lid cid vr key snap (fs_db s) = Inr (r, d') \<Longrightarrow>
     snap \<in> set (fs_past s) \<Longrightarrow> list_ex (\<lambda>c. ct_id c = cid) (cash_counts snap) \<Longrightarrow>
     financial_step sha s (committed d' s)"
| commanded:
    "execute_check sha ctx now key q (fs_db s) = Inr (r, d') \<Longrightarrow> financial_step sha s (committed d' s)"
| diner_ended:
    "assert_diner_can_end (fs_db s) now tenant i = Inr d' \<Longrightarrow> check_constraints d' \<Longrightarrow>
     financial_step sha s (committed d' s)"
| service_closed:
    "assert_service_can_close (fs_db s) now tenant i = Inr (balance, d') \<Longrightarrow> check_constraints d' \<Longrightarrow>
     financial_step sha s (committed d' s)"
| payment_reserved:
    "reserve_payment sha registry ctx now q v fingerprint (fs_db s) = Inr ((p, b), d') \<Longrightarrow>
     financial_step sha s (committed d' (if b \<or> vp_method v = CASH then s else loaded p s))"
| payment_claimed:
    "claim_payment ctx now token cached i type allowed again (fs_db s) = Inr (r, d') \<Longrightarrow>
     claim_mode type allowed again \<Longrightarrow>
     (\<forall>x. cached = Some x \<longrightarrow> pay_id x = i \<and> x \<in> set (fs_objects s)) \<Longrightarrow>
     financial_step sha s (committed d' s)"
| payment_executed:
    "finish_payment sha ctx now i token r (execution_state (pr_outcome r)) (fs_db s) = Inr (p, d') \<Longrightarrow>
     financial_step sha s (committed d' s)"
| payment_recovered:
    "finish_payment sha ctx now i token r (recovery_state (pr_outcome r)) (fs_db s) = Inr (p, d') \<Longrightarrow>
     financial_step sha s (committed d' s)"
| payment_fenced:
    "fence_payment ctx now i location (fs_db s) = Inr ((p, type), d') \<Longrightarrow>
     financial_step sha s (committed d' (loaded p s))"
| elsewhere:
    "core_tables d' = core_tables (fs_db s) \<Longrightarrow> financial_step sha s (committed d' s)"

section \<open>The invariant of the system\<close>

definition system_inv :: "financial_system \<Rightarrow> bool" where
  "system_inv s \<longleftrightarrow> financial_inv (fs_db s)
     \<and> (\<forall>x \<in> set (fs_past s). cash_inv x \<and> cash_extends x (fs_db s))
     \<and> (\<forall>p \<in> set (fs_objects s). object_current (fs_db s) p \<and> pay_state p \<noteq> PAY_IN_PROGRESS)"

definition system_init :: "financial_system \<Rightarrow> bool" where
  "system_init s \<longleftrightarrow> (\<exists>d. core_tables d = core_tables empty_db \<and> s = system_start d)"

lemma committed_simps [simp]:
  "fs_db (committed d s) = d" "fs_past (committed d s) = d # fs_past s" "fs_objects (committed d s) = fs_objects s"
  "fs_db (loaded p s) = fs_db s" "fs_past (loaded p s) = fs_past s" "fs_objects (loaded p s) = p # fs_objects s"
  by (simp_all add: committed_def loaded_def)

lemma core_tables_financial: "core_tables e = core_tables d \<Longrightarrow> financial_inv e = financial_inv d"
proof -
  assume same: "core_tables e = core_tables d"
  then have "check_inv e = check_inv d" by (intro check_inv_cong) (simp_all add: core_tables_def)
  moreover have "payment_inv e = payment_inv d"
    using same
    by (simp add: core_tables_def payment_inv_def payment_books_def payment_keys_ok_def payment_refs_ok_def
        settlements_match_def claims_match_def check_funded_def exposure_def settled_amount_def
        payment_amount_def payment_constraints_def)
  moreover have "cash_inv e = cash_inv d" using same by (intro cash_inv_part) (simp add: core_tables_def)
  ultimately show ?thesis by (simp add: financial_inv_def)
qed

lemma system_inv_start:
  assumes "system_init s"
  shows "system_inv s"
proof -
  from assms obtain d where d: "core_tables d = core_tables empty_db" "s = system_start d"
    unfolding system_init_def by blast
  have "financial_inv d" using core_tables_financial[OF d(1)] financial_inv_empty by simp
  then show ?thesis by (simp add: system_inv_def d(2) system_start_def financial_inv_def)
qed

text \<open>What a commit has to keep.\<close>

lemma commit_keeps:
  assumes inv: "system_inv s" and fin: "financial_inv d'" and ext: "cash_extends (fs_db s) d'"
    and move: "payments_move (fs_db s) d'"
    and objs: "set (fs_objects s') \<subseteq> insert p (set (fs_objects s))" "fs_past s' = fs_past s"
      "p \<in> set (fs_objects s') \<Longrightarrow> p \<in> set (fs_objects s) \<or> object_current d' p \<and> pay_state p \<noteq> PAY_IN_PROGRESS"
  shows "system_inv (committed d' s')"
proof -
  have "object_current d' x \<and> pay_state x \<noteq> PAY_IN_PROGRESS" if "x \<in> set (fs_objects s')" for x
    using that inv objs(1,3) move_object[OF move] unfolding system_inv_def by blast
  moreover have "cash_inv x \<and> cash_extends x d'" if "x \<in> set (fs_past s)" for x
    using that inv ext cash_extends_trans unfolding system_inv_def by blast
  ultimately show ?thesis
    using fin by (simp add: system_inv_def objs(2) financial_inv_def)
qed

lemma commit_keeps_same:
  assumes "system_inv s" "financial_inv d'" "cash_extends (fs_db s) d'" "payments_move (fs_db s) d'"
  shows "system_inv (committed d' s)"
  by (rule commit_keeps[OF assms, where p = undefined]) auto

lemma part_extends: "cash_part e = cash_part d \<Longrightarrow> cash_extends d e"
  by (rule cash_extends_cong) (simp_all add: cash_part_def)

lemma cash_step_frame:
  assumes "financial_inv d" "cash_inv d'" "core_tables d' = (fst (core_tables d), fst (snd (core_tables d)), cash_part d')"
  shows "financial_inv d'" "payments_move d d'"
proof -
  have "check_inv d' = check_inv d" using assms(3) by (intro check_inv_cong) (simp_all add: core_tables_def)
  moreover have "payment_inv d' = payment_inv d"
    using assms(3)
    by (simp add: core_tables_def payment_inv_def payment_books_def payment_keys_ok_def payment_refs_ok_def
        settlements_match_def claims_match_def check_funded_def exposure_def settled_amount_def
        payment_amount_def payment_constraints_def)
  ultimately show "financial_inv d'" using assms(1,2) by (simp add: financial_inv_def)
  show "payments_move d d'" using assms(3) by (intro move_same) (simp_all add: core_tables_def)
qed


lemma cash_row_frame:
  "core_tables (add_cash_session x d) = (fst (core_tables d), fst (snd (core_tables d)), cash_part (add_cash_session x d))"
  "core_tables (add_cash_movement m d) = (fst (core_tables d), fst (snd (core_tables d)), cash_part (add_cash_movement m d))"
  "core_tables (add_cash_count c d) = (fst (core_tables d), fst (snd (core_tables d)), cash_part (add_cash_count c d))"
  "core_tables (d\<lparr>cash_sessions := xs\<rparr>) = (fst (core_tables d), fst (snd (core_tables d)), cash_part (d\<lparr>cash_sessions := xs\<rparr>))"
  by (simp_all add: core_tables_def cash_part_def add_cash_session_def add_cash_movement_def add_cash_count_def)


lemma core_tables_split: "core_tables d = (fst (core_tables d), fst (snd (core_tables d)), cash_part d)"
  by (simp add: core_tables_def)

lemma open_frame:
  assumes "open_cash_session sha ctx now rid lid cur key snap d = Inr ((v, b), d')"
  shows "core_tables d' = (fst (core_tables d), fst (snd (core_tables d)), cash_part d')"
  using assms
proof (cases rule: open_success)
  case replay
  then show ?thesis using core_tables_split by simp
next
  case (new cashier c)
  then show ?thesis by (auto elim!: open_locked_new simp: cash_row_frame)
qed

lemma movement_frame:
  assumes "create_manual_movement sha ctx now sid lid mt am cur rs rf key snap d = Inr ((v, b), d')"
  shows "core_tables d' = (fst (core_tables d), fst (snd (core_tables d)), cash_part d')"
  using assms
proof (cases rule: movement_success)
  case replay
  then show ?thesis using core_tables_split by simp
next
  case (new w)
  from new(4) show ?thesis by (cases rule: movement_locked_new) (simp add: cash_row_frame)
qed

lemma count_frame:
  assumes "create_cash_count sha ctx now sid lid am cur key snap d = Inr ((v, b), d')"
  shows "core_tables d' = (fst (core_tables d), fst (snd (core_tables d)), cash_part d')"
  using assms
proof (cases rule: count_success)
  case replay
  then show ?thesis using core_tables_split by simp
next
  case (new x c)
  from new(5) show ?thesis by (cases rule: count_locked_new) (simp add: cash_row_frame)
qed

lemma close_frame:
  assumes "close_cash_session sha ctx now sid lid cid vr key snap d = Inr ((v, b), d')"
  shows "core_tables d' = (fst (core_tables d), fst (snd (core_tables d)), cash_part d')"
  using assms
proof (cases rule: close_success)
  case replay
  then show ?thesis using core_tables_split by simp
next
  case (new s c reason row)
  show ?thesis unfolding new by (rule cash_row_frame)
qed

text \<open>The snapshots a transaction may read are the past states of the system.\<close>

lemma past_snapshot:
  assumes "system_inv s" "snap \<in> set (fs_past s)" "list_ex (\<lambda>c. ct_id c = cid) (cash_counts snap)"
  shows "close_snapshot_ok snap cid (fs_db s)"
  using assms by (simp add: system_inv_def close_snapshot_ok_def)

lemma system_inv_step:
  assumes inv: "system_inv s" and step: "financial_step sha s t"
  shows "system_inv t"
proof -
  from inv have fin: "financial_inv (fs_db s)" and cash: "cash_inv (fs_db s)"
    by (simp_all add: system_inv_def financial_inv_def)
  have cash_step: "system_inv (committed d' s)"
    if "cash_inv d'" "cash_extends (fs_db s) d'"
      "core_tables d' = (fst (core_tables (fs_db s)), fst (snd (core_tables (fs_db s))), cash_part d')" for d'
    using that cash_step_frame[OF fin that(1,3)] by (intro commit_keeps_same[OF inv])
  have finish_step: "system_inv (committed d' s)"
    if "finish_payment sha ctx now i token r state (fs_db s) = Inr (p, d')" "state \<noteq> PAY_IN_PROGRESS"
    for ctx now i token r state p d'
    using finish_keeps[OF fin that] finish_tables[OF fin that(1)] part_extends
    by (intro commit_keeps_same[OF inv]) simp_all
  from step show ?thesis
  proof cases
    case (cash_opened ctx now rid lid cur key snap r d')
    then obtain v b where "r = (v, b)" by (cases r)
    with cash_opened show ?thesis
      using cash_step open_keeps_inv[OF cash] open_extends open_frame by metis
  next
    case (cash_moved ctx now sid lid mt am cur rs rf key snap r d')
    then obtain v b where "r = (v, b)" by (cases r)
    with cash_moved show ?thesis
      using cash_step movement_keeps_inv[OF cash] movement_extends[OF cash] movement_frame by metis
  next
    case (cash_counted ctx now sid lid am cur key snap r d')
    then obtain v b where "r = (v, b)" by (cases r)
    with cash_counted show ?thesis
      using cash_step count_keeps_inv[OF cash] count_extends count_frame by metis
  next
    case (cash_closed ctx now sid lid cid vr key snap r d')
    then obtain v b where "r = (v, b)" by (cases r)
    with cash_closed show ?thesis
      using cash_step close_keeps_inv[OF cash past_snapshot[OF inv cash_closed(3,4)]] close_extends[OF cash]
        close_frame by metis
  next
    case (commanded ctx now key q r d')
    then obtain v b where "execute_check sha ctx now key q (fs_db s) = Inr ((v, b), d')" by (cases r) auto
    note kept = command_keeps[OF fin this]
    show ?thesis unfolding commanded(1)
      by (rule commit_keeps_same[OF inv kept(1) part_extends[OF kept(4)]]) (simp add: move_same kept)
  next
    case (diner_ended now tenant i d')
    note kept = slots_freed_keeps[OF fin diner_end_frees[OF diner_ended(2)] diner_ended(3)]
    show ?thesis unfolding diner_ended(1)
      by (rule commit_keeps_same[OF inv kept(1) part_extends[OF kept(4)]]) (simp add: move_same kept)
  next
    case (service_closed now tenant i balance d')
    note kept = slots_freed_keeps[OF fin service_close_frees[OF service_closed(2)] service_closed(3)]
    show ?thesis unfolding service_closed(1)
      by (rule commit_keeps_same[OF inv kept(1) part_extends[OF kept(4)]]) (simp add: move_same kept)
  next
    case (payment_reserved registry ctx now q v fingerprint p b d')
    note kept = reserve_tables[OF fin payment_reserved(2)]
    have "payments_move (fs_db s) d'" by (rule move_same) (simp_all add: kept)
    then show ?thesis unfolding payment_reserved(1)
      by (rule commit_keeps[OF inv reserve_keeps[OF fin payment_reserved(2)] kept(1), where p = p])
        (use kept(4,5) in \<open>auto simp: object_current_def split: if_splits\<close>)
  next
    case (payment_claimed ctx now token cached i type allowed again r d')
    then obtain p t where run: "claim_payment ctx now token cached i type allowed again (fs_db s) = Inr ((p, t), d')"
      by (cases r) auto
    have cached: "\<forall>x. cached = Some x \<longrightarrow> pay_id x = i \<and> object_current (fs_db s) x"
      using payment_claimed(4) inv by (auto simp: system_inv_def)
    have mode: "PAY_SUCCEEDED \<notin> allowed" "again \<or> allowed \<subseteq> RESERVING_STATES" "PAY_IN_PROGRESS \<notin> allowed"
      using payment_claimed(3) by (auto simp: claim_mode_def RESERVING_STATES_def)
    show ?thesis unfolding payment_claimed(1)
      using claim_keeps[OF fin run cached mode(1,2)] claim_tables[OF fin run cached mode(3)] part_extends
      by (intro commit_keeps_same[OF inv]) simp_all
  next
    case (payment_executed ctx now i token r p d')
    have "execution_state (pr_outcome r) \<noteq> PAY_IN_PROGRESS" by (cases "pr_outcome r") simp_all
    with payment_executed show ?thesis using finish_step by blast
  next
    case (payment_recovered ctx now i token r p d')
    have "recovery_state (pr_outcome r) \<noteq> PAY_IN_PROGRESS" by (cases "pr_outcome r") simp_all
    with payment_recovered show ?thesis using finish_step by blast
  next
    case (payment_fenced ctx now i location p type d')
    note kept = fence_tables[OF fin payment_fenced(2)]
    show ?thesis unfolding payment_fenced(1)
      by (rule commit_keeps[OF inv fence_keeps[OF fin payment_fenced(2)] part_extends[OF kept(2)] kept(1), where p = p])
        (use kept in \<open>auto simp: object_current_def\<close>)
  next
    case (elsewhere d')
    have "financial_inv d'" using core_tables_financial[OF elsewhere(2)] fin by simp
    then show ?thesis unfolding elsewhere(1)
      using elsewhere(2)
      by (intro commit_keeps_same[OF inv] part_extends move_same) (simp_all add: core_tables_def)
  qed
qed

interpretation financial: step_invariant system_init "financial_step sha" system_inv for sha
  by unfold_locales (rule system_inv_start, assumption, rule system_inv_step)

definition reachable :: "(json \<Rightarrow> string) \<Rightarrow> financial_system \<Rightarrow> bool" where
  "reachable sha s \<longleftrightarrow> (\<exists>s0. system_init s0 \<and> (financial_step sha)\<^sup>*\<^sup>* s0 s)"

lemma reachable_inv: "reachable sha s \<Longrightarrow> system_inv s"
  unfolding reachable_def using financial.inv_reachable by blast

lemma reachable_step: "reachable sha s \<Longrightarrow> financial_step sha s t \<Longrightarrow> reachable sha t"
  unfolding reachable_def by (meson rtranclp.rtrancl_into_rtrancl)

end
