(* ===== verification/PaymentOutcomes.thy ===== *)
theory PaymentOutcomes
  imports FinancialSystem
begin

text \<open>
  The transaction that records what a provider answered (\<^verbatim>\<open>_finish\<close> of
  \<^verbatim>\<open>app/restaurant/payments/service.py\<close>): which of its constraints can fail, and that a confirmed
  success is recorded in every reachable state.
\<close>

section \<open>A confirmed payment is always recorded\<close>

lemma restaurant_payments_collide_sym: "restaurant_payments_collide a b = restaurant_payments_collide b a"
  unfolding restaurant_payments_collide_def same_slot_def same_text_def by metis

lemma payment_rows_apart:
  assumes "payment_constraints d" "p \<in> set (restaurant_payments d)" "q \<in> set (restaurant_payments d)"
    and "pay_id q \<noteq> pay_id p"
  shows "\<not> restaurant_payments_collide p q"
  using assms collision_freeD[of restaurant_payments_collide "restaurant_payments d" p q]
    restaurant_payments_collide_sym
  unfolding payment_constraints_def table_ok_def by blast

text \<open>The constraints after a result whose reference no other payment of the configuration has.\<close>

definition own_reference :: "db \<Rightarrow> restaurant_payment \<Rightarrow> string option \<Rightarrow> bool" where
  "own_reference d p reference \<longleftrightarrow> (\<forall>q \<in> set (restaurant_payments d). pay_id q \<noteq> pay_id p \<longrightarrow>
     \<not> (same_slot (pay_executor_configuration_id p) (pay_executor_configuration_id q)
        \<and> same_text reference (pay_external_reference q)))"

lemma finished_payments_ok:
  assumes ok: "payment_constraints d" and keys: "distinct (map pay_id (restaurant_payments d))"
    and p: "p \<in> set (restaurant_payments d)" "own_reference d p (pr_external_reference r)"
    and p': "p' = finish_row st now r p \<or> st = PAY_SUCCEEDED \<and> p' = succeed_payment now (finish_row st now r p)"
      "st \<noteq> PAY_IN_PROGRESS"
  shows "table_ok restaurant_payment_ok restaurant_payments_collide
    (modify pay_id (pay_id p) (\<lambda>_. p') (restaurant_payments d))"
proof (rule table_ok_modify_one[OF _ keys p(1) refl])
  show "table_ok restaurant_payment_ok restaurant_payments_collide (restaurant_payments d)"
    using ok by (simp add: payment_constraints_def)
  then have "restaurant_payment_ok p" using p(1) by (rule table_okD)
  then show "restaurant_payment_ok p'"
    using p'
    by (elim disjE conjE) (simp_all add: restaurant_payment_ok_def payer_ok_def claim_ok_def execution_evidence_ok_def
        succeed_payment_def finish_row_def copy_evidence_def split: option.splits)
  fix q assume q: "q \<in> set (restaurant_payments d)" "pay_id q \<noteq> pay_id p"
  note apart = payment_rows_apart[OF ok p(1) q]
  have "\<not> restaurant_payments_collide p' q"
  proof
    assume "restaurant_payments_collide p' q"
    then have "same_slot (pay_executor_configuration_id p) (pay_executor_configuration_id q)
        \<and> same_text (pr_external_reference r) (pay_external_reference q)"
      using apart p'(1) by (auto simp: restaurant_payments_collide_def succeed_payment_def finish_row_def
          copy_evidence_def)
    with p(2) q show False unfolding own_reference_def by blast
  qed
  then show "\<not> restaurant_payments_collide p' q \<and> \<not> restaurant_payments_collide q p'"
    using restaurant_payments_collide_sym by metis
qed

lemma no_conflict_own_reference:
  assumes "\<not> reference_conflict d p PAY_SUCCEEDED r"
  shows "own_reference d p (pr_external_reference r)"
  using assms unfolding reference_conflict_def own_reference_def list_ex_iff same_slot_def same_text_def
  by metis

lemma modify_is_where: "modify rid i f rows = modify_where (\<lambda>r. rid r = i) f rows"
  by (simp add: modify_def modify_where_def)

lemma attempts_after_ok:
  assumes "payment_constraints d" "attempt_result_of s \<noteq> RES_IN_PROGRESS"
  shows "table_ok payment_attempt_ok payment_attempts_collide (attempts_after sha s now ref r a d)"
  using assms unfolding attempts_after_def modify_is_where
  by (intro table_ok_modify_where)
    (auto simp: payment_constraints_def complete_attempt_def payment_attempt_ok_def payment_attempts_collide_def
      dest: table_okD)

lemma applied_settlements_ok:
  assumes inv: "payment_inv d" and p: "p \<in> set (restaurant_payments d)" "pay_state p \<noteq> PAY_SUCCEEDED"
    and p': "pay_id p' = pay_id p" "pay_amount p' = pay_amount p"
  shows "table_ok check_settlement_ok check_settlements_collide
    (check_settlements d @ [settlement_row d ctx now p'])"
proof -
  from inv have books: "payment_books d" and cons: "payment_constraints d" by (simp_all add: payment_inv_def)
  have "0 < pay_amount p" by (rule payment_amounts_positive(1)[OF cons p(1)])
  then show ?thesis
    using cons unsettled_payment[OF books p] p'
    by (auto simp: payment_constraints_def table_ok_def collision_free_append check_settlement_ok_def
        check_settlements_collide_def settlement_row_def)
qed

lemma settled_checks_ok:
  assumes cons: "check_constraints d" and c: "c \<in> set (restaurant_checks d)" "chk_status c = CHK_FROZEN"
    and claimed: "\<And>a. a \<in> set (check_allocations d) \<Longrightarrow> al_check_id a = chk_id c
        \<Longrightarrow> al_ownership_slot a = Some 1 \<Longrightarrow> al_state a = AL_CLAIMED"
    and e: "restaurant_checks e = modify chk_id (chk_id c) (\<lambda>_. settled_check ctx now c) (restaurant_checks d)"
      "check_allocations e = modify_where (\<lambda>a. al_check_id a = chk_id c \<and> al_ownership_slot a = Some 1)
         (settle_allocation ref now) (check_allocations d)"
      "check_table_scopes e = modify_where (\<lambda>t. ts_check_id t = chk_id c \<and> ts_active_slot t = Some 1)
         continue_scope (check_table_scopes d)"
      "check_members e = check_members d" "check_versions e = check_versions d"
      "check_gratuities e = check_gratuities d" "check_commands e = check_commands d"
  shows "check_constraints e"
proof -
  have "restaurant_check_ok c" using cons c(1) by (auto simp: check_constraints_def list_all_iff)
  then have "restaurant_check_ok (settled_check ctx now c)"
    using c(2) by (auto simp: restaurant_check_ok_def settled_check_def)
  then have "list_all restaurant_check_ok (restaurant_checks e)"
    using cons by (auto simp: e(1) check_constraints_def list_all_iff set_modify)
  moreover have "table_ok check_allocation_ok check_allocations_collide (check_allocations e)"
    unfolding e(2)
  proof (rule table_ok_modify_where)
    show table: "table_ok check_allocation_ok check_allocations_collide (check_allocations d)"
      using cons by (simp add: check_constraints_def)
    fix a assume a: "a \<in> set (check_allocations d)" "al_check_id a = chk_id c \<and> al_ownership_slot a = Some 1"
    then show "check_allocation_ok (settle_allocation ref now a)"
      using claimed[OF a(1)] table_okD[OF table a(1)]
      by (simp add: check_allocation_ok_def settle_allocation_def)
  qed (simp add: check_allocations_collide_def settle_allocation_def)
  moreover have "table_ok check_table_scope_ok check_table_scopes_collide (check_table_scopes e)"
    unfolding e(3)
  proof (rule table_ok_modify_where)
    show table: "table_ok check_table_scope_ok check_table_scopes_collide (check_table_scopes d)"
      using cons by (simp add: check_constraints_def)
    fix t assume t: "t \<in> set (check_table_scopes d)" "ts_check_id t = chk_id c \<and> ts_active_slot t = Some 1"
    then show "check_table_scope_ok (continue_scope t)"
      using table_okD[OF table t(1)] by (auto simp: check_table_scope_ok_def continue_scope_def)
  qed (simp add: check_table_scopes_collide_def continue_scope_def)
  ultimately show ?thesis using cons by (simp add: check_constraints_def e)
qed


lemma claimed_attempt:
  assumes inv: "payment_inv d" and p: "p \<in> set (restaurant_payments d)" "pay_claim_token p = Some token"
  obtains a where "List.find (\<lambda>a. att_payment_id a = pay_id p \<and> att_claim_token a = token) (payment_attempts d) = Some a"
    "a \<in> set (payment_attempts d)" "att_payment_id a = pay_id p" "att_claim_token a = token"
    "att_result a = RES_IN_PROGRESS"
proof -
  from inv have books: "payment_books d" and cons: "payment_constraints d" by (simp_all add: payment_inv_def)
  have "pay_state p = PAY_IN_PROGRESS" by (rule claimed_in_progress[OF cons p])
  with books p obtain a where a: "a \<in> set (payment_attempts d)" "att_payment_id a = pay_id p"
    "att_claim_token a = token" "att_result a = RES_IN_PROGRESS"
    unfolding payment_books_def claims_match_def by auto
  then obtain b where b: "List.find (\<lambda>a. att_payment_id a = pay_id p \<and> att_claim_token a = token)
      (payment_attempts d) = Some b"
    using find_eq_None_iff[of "\<lambda>a. att_payment_id a = pay_id p \<and> att_claim_token a = token" "payment_attempts d"]
    by (cases "List.find (\<lambda>a. att_payment_id a = pay_id p \<and> att_claim_token a = token) (payment_attempts d)") auto
  then have "b \<in> set (payment_attempts d)" "att_claim_token b = token" by (auto dest: find_SomeD)
  moreover have "payment_attempts_collide x y = payment_attempts_collide y x" for x y
    by (auto simp: payment_attempts_collide_def)
  ultimately have "b = a"
    using a(1,3) cons collision_freeD[of payment_attempts_collide "payment_attempts d" b a]
    unfolding payment_constraints_def table_ok_def by (simp add: payment_attempts_collide_def) blast
  with a b that show thesis by blast
qed

lemma cash_movements_table: "cash_inv d \<Longrightarrow> table_ok cash_movement_ok cash_movements_collide (cash_movements d)"
  unfolding table_ok_def
  by (intro conjI collision_freeI[where rid = mv_id]) (simp_all add: cash_inv_defs list_all_iff)

text \<open>The success of a claimed payment meets no error: the check is frozen and has room for it.\<close>

lemma success_applies:
  assumes inv: "financial_inv d" and p: "p \<in> set (restaurant_payments d)" "pay_state p = PAY_IN_PROGRESS"
    and c: "c \<in> set (restaurant_checks d)" "chk_id c = pay_check_id p"
    and own: "own_reference d p (pr_external_reference r)"
  obtains e where
    "apply_success ctx now (finish_row PAY_SUCCEEDED now r p) c (recorded PAY_SUCCEEDED now r p d) = Inr e"
    "financial_constraints (e\<lparr>payment_attempts := attempts_after sha PAY_SUCCEEDED now ref r a e\<rparr>)"
    "restaurant_payments e = modify pay_id (pay_id p)
       (\<lambda>_. succeed_payment now (finish_row PAY_SUCCEEDED now r p)) (restaurant_payments d)"
    "check_settlements e = check_settlements d
       @ [settlement_row d ctx now (finish_row PAY_SUCCEEDED now r p)]"
proof -
  let ?p = "finish_row PAY_SUCCEEDED now r p" and ?d1 = "recorded PAY_SUCCEEDED now r p d"
  from inv have check: "check_inv d" and pay: "payment_inv d" and books: "payment_books d"
    and cons: "payment_constraints d" and cash: "cash_inv d"
    by (simp_all add: financial_inv_def payment_inv_def)
  have reserving: "pay_state p \<in> RESERVING_STATES" by (simp add: p(2) RESERVING_STATES_def)
  have unsettled_p: "pay_state p \<noteq> PAY_SUCCEEDED" by (simp add: p(2))
  have frozen: "chk_status c = CHK_FROZEN" by (rule reserving_check_frozen[OF pay p(1) reserving c])
  have keys: "distinct (map pay_id (restaurant_payments d))"
    using books by (simp add: payment_books_def payment_keys_ok_def)
  note funded = books_check(1)[OF books c(1)]
  have settled1: "settled_amount ?d1 i = settled_amount d i" for i
    by (simp add: settled_amount_def recorded_def)
  have rows: "restaurant_payments (applied ctx now ?p ?d1)
      = modify pay_id (pay_id p) (\<lambda>_. succeed_payment now ?p) (restaurant_payments d)"
    by (simp add: applied_def recorded_def modify_modify_const)
  have reserved: "payment_amount (applied ctx now ?p ?d1) RESERVING_STATES (chk_id c)
      = payment_amount d RESERVING_STATES (chk_id c) - pay_amount p"
    using payment_amount_modify[OF rows keys p(1), of RESERVING_STATES "chk_id c"] reserving c(2)
    by (simp add: part_def RESERVING_STATES_def)
  have rest: "0 \<le> payment_amount (applied ctx now ?p ?d1) RESERVING_STATES (chk_id c)"
    unfolding reserved
    using payment_amount_ge_part[OF cons p(1), of RESERVING_STATES "chk_id c"] reserving c(2)
    by (simp add: part_def)
  have room: "settled_amount d (chk_id c) + pay_amount p
      + payment_amount (applied ctx now ?p ?d1) RESERVING_STATES (chk_id c) \<le> chk_liability_total c"
    using funded by (simp add: exposure_def reserved)
  have none: "List.find (\<lambda>s. st_payment_id s = pay_id ?p) (check_settlements ?d1) = None"
    using unsettled_payment[OF books p(1) unsettled_p] by (simp add: find_eq_None_iff recorded_def)
  have claimed: "al_state x = AL_CLAIMED"
    if "x \<in> set (check_allocations d)" "al_check_id x = chk_id c" "al_ownership_slot x = Some 1" for x
  proof -
    have "al_state x \<noteq> AL_RELEASED" using owned_live[OF check that(1)] that(3) by simp
    with books_check(4)[OF books c(1) that(1,2)] frozen show ?thesis by (cases "al_state x") simp_all
  qed
  define e where "e = (if settled_amount d (chk_id c) + pay_amount p = chk_liability_total c
      then (replace_check (settled_check ctx now c) (applied ctx now ?p ?d1))\<lparr>
        check_allocations := modify_where (\<lambda>a. al_check_id a = chk_id c \<and> al_ownership_slot a = Some 1)
          (settle_allocation (payment_reference ?p) now) (check_allocations d),
        check_table_scopes := modify_where (\<lambda>t. ts_check_id t = chk_id c \<and> ts_active_slot t = Some 1)
          continue_scope (check_table_scopes d)\<rparr>
      else applied ctx now ?p ?d1)"
  have clean: "\<not> list_ex (\<lambda>a. al_state a \<noteq> AL_CLAIMED) (owned_allocations (applied ctx now ?p ?d1) (chk_id c))"
    using claimed by (auto simp: list_ex_iff owned_allocations_def applied_def recorded_def)
  have run: "apply_success ctx now ?p c ?d1 = Inr e"
    unfolding apply_success_def none option.case Let_def applied_def[symmetric] settled1 e_def
    using room rest clean
    by (auto simp: finalize_full_check_def applied_def recorded_def)
  have none': "\<forall>s \<in> set (check_settlements ?d1). st_payment_id s \<noteq> pay_id ?p"
    using none by (simp add: find_eq_None_iff)
  note after = apply_success_check_tables[OF run none']
  have payments: "restaurant_payments e = modify pay_id (pay_id p) (\<lambda>_. succeed_payment now ?p) (restaurant_payments d)"
    using rows by (simp add: e_def replace_check_def)
  have settlements: "check_settlements e = check_settlements d @ [settlement_row d ctx now ?p]"
    by (simp add: e_def replace_check_def applied_def recorded_def settlement_row_def)
  have ccons: "check_constraints d" using check by (simp add: check_inv_def)
  have "check_constraints e"
    using after(9)
  proof (elim disjE conjE)
    assume "restaurant_checks e = restaurant_checks ?d1" "check_allocations e = check_allocations ?d1"
      "check_table_scopes e = check_table_scopes ?d1"
    with ccons after(1,2,7,8) show ?thesis by (simp add: check_constraints_def recorded_def)
  next
    assume "restaurant_checks e = modify chk_id (chk_id c) (\<lambda>_. settled_check ctx now c) (restaurant_checks ?d1)"
      "check_allocations e = modify_where (\<lambda>a. al_check_id a = chk_id c \<and> al_ownership_slot a = Some 1)
           (settle_allocation (payment_reference ?p) now) (check_allocations ?d1)"
      "check_table_scopes e = modify_where (\<lambda>t. ts_check_id t = chk_id c \<and> ts_active_slot t = Some 1)
           continue_scope (check_table_scopes ?d1)"
    with after(1,2,7,8) show ?thesis
      by (intro settled_checks_ok[OF ccons c(1) frozen claimed]) (simp_all add: recorded_def)
  qed
  moreover have "payment_attempts e = payment_attempts d" using after(6) by (simp add: recorded_def)
  then have "table_ok payment_attempt_ok payment_attempts_collide (attempts_after sha PAY_SUCCEEDED now ref r a e)"
    using attempts_after_ok[OF cons, of PAY_SUCCEEDED sha now ref r a] by (simp add: attempts_after_def)
  moreover have "table_ok restaurant_payment_ok restaurant_payments_collide (restaurant_payments e)"
    unfolding payments by (rule finished_payments_ok[OF cons keys p(1) own, where st = PAY_SUCCEEDED]) auto
  moreover have "table_ok check_settlement_ok check_settlements_collide (check_settlements e)"
    unfolding settlements by (rule applied_settlements_ok[OF pay p(1) unsettled_p]) simp_all
  moreover have "table_ok cash_movement_ok cash_movements_collide (cash_movements e)"
    using cash_movements_table[OF cash] after(4) by (simp add: recorded_def)
  ultimately have "financial_constraints (e\<lparr>payment_attempts := attempts_after sha PAY_SUCCEEDED now ref r a e\<rparr>)"
    by (simp add: financial_constraints_def payment_constraints_def check_constraints_def)
  with run payments settlements that show thesis by blast
qed

lemma find_tenant_payment:
  assumes "distinct (map pay_id (restaurant_payments d))" "p \<in> set (restaurant_payments d)"
    and "pay_tenant_id p = tenant"
  shows "List.find (\<lambda>q. pay_id q = pay_id p \<and> pay_tenant_id q = tenant) (restaurant_payments d) = Some p"
proof (cases "List.find (\<lambda>q. pay_id q = pay_id p \<and> pay_tenant_id q = tenant) (restaurant_payments d)")
  case None
  with assms show ?thesis by (auto simp: find_eq_None_iff)
next
  case (Some q)
  then have "q \<in> set (restaurant_payments d)" "pay_id q = pay_id p" by (auto dest: find_SomeD)
  with Some assms same_row_if_same_id[of pay_id "restaurant_payments d" q p] show ?thesis by simp
qed

lemma find_tenant_check:
  assumes "distinct (map chk_id (restaurant_checks d))" "c \<in> set (restaurant_checks d)" "chk_tenant_id c = tenant"
    "chk_id c = i"
  shows "List.find (\<lambda>q. chk_id q = i \<and> chk_tenant_id q = tenant) (restaurant_checks d) = Some c"
proof (cases "List.find (\<lambda>q. chk_id q = i \<and> chk_tenant_id q = tenant) (restaurant_checks d)")
  case None
  with assms show ?thesis by (auto simp: find_eq_None_iff)
next
  case (Some q)
  then have "q \<in> set (restaurant_checks d)" "chk_id q = chk_id c" using assms(4) by (auto dest: find_SomeD)
  with Some assms same_row_if_same_id[of chk_id "restaurant_checks d" q c] show ?thesis by simp
qed

lemma find_row_modify_const:
  assumes "distinct (map rid rows)" "r \<in> set rows" "rid r' = rid r"
  shows "find_row rid (rid r) (modify rid (rid r) (\<lambda>_. r') rows) = Some r'"
proof -
  have "distinct (map rid (modify rid (rid r) (\<lambda>_. r') rows))"
    using assms(1) by (simp add: modify_const_ids assms(3))
  then show ?thesis
    using modify_const_in[OF assms(1,2), of "rid r" r'] assms(3) by (simp add: find_row_Some_iff)
qed

lemma attempts_after_frame [simp]:
  "attempts_after sha s now ref r a (d\<lparr>restaurant_payments := ps\<rparr>) = attempts_after sha s now ref r a d"
  by (simp add: attempts_after_def)

text \<open>A result that ends a claim without a settlement is recorded unless its reference is taken.\<close>

lemma finish_ends:
  assumes inv: "financial_inv d" and p: "p \<in> set (restaurant_payments d)" "pay_tenant_id p = tenant_id ctx"
      "pay_claim_token p = Some token"
    and final: "final = (if reference_conflict d p state r then PAY_UNCERTAIN else state)"
      "r' = (if reference_conflict d p state r then withhold_reference r else r)"
      "final \<in> {PAY_FAILED, PAY_REJECTED, PAY_UNCERTAIN, PAY_CANCELLED}"
  shows "finish_payment sha ctx now (pay_id p) token r state d =
    (if own_reference d p (pr_external_reference r')
     then (let d' = (recorded final now r' p d)\<lparr>payment_attempts := attempts_after sha final now
                 (pr_external_reference r) r' (the (List.find (\<lambda>a. att_payment_id a = pay_id p
                   \<and> att_claim_token a = token) (payment_attempts d))) d\<rparr>
           in Inr (finish_row final now r' p, d'))
     else Inl PaymentIntegrityError)"
proof -
  from inv have pay: "payment_inv d" and books: "payment_books d" and cons: "payment_constraints d"
    and check: "check_inv d" and cash: "cash_inv d"
    by (simp_all add: financial_inv_def payment_inv_def)
  have keys: "distinct (map pay_id (restaurant_payments d))"
    using books by (simp add: payment_books_def payment_keys_ok_def)
  obtain a where a: "List.find (\<lambda>a. att_payment_id a = pay_id p \<and> att_claim_token a = token) (payment_attempts d) = Some a"
    "att_result a = RES_IN_PROGRESS"
    using claimed_attempt[OF pay p(1,3)] by blast
  let ?d3 = "(recorded final now r' p d)\<lparr>payment_attempts :=
      attempts_after sha final now (pr_external_reference r) r' a d\<rparr>"
  have rows: "restaurant_payments ?d3 = modify pay_id (pay_id p) (\<lambda>_. finish_row final now r' p) (restaurant_payments d)"
    by (simp add: recorded_def)
  have "attempt_result_of final \<noteq> RES_IN_PROGRESS" using final(3) by auto
  note attempts = attempts_after_ok[OF cons this]
  have others: "check_constraints ?d3 = check_constraints d"
    "cash_movements ?d3 = cash_movements d" "check_settlements ?d3 = check_settlements d"
    by (simp_all add: recorded_def check_constraints_def)
  have iff: "financial_constraints ?d3 \<longleftrightarrow> own_reference d p (pr_external_reference r')"
  proof
    assume own: "own_reference d p (pr_external_reference r')"
    have "table_ok restaurant_payment_ok restaurant_payments_collide (restaurant_payments ?d3)"
      unfolding rows by (rule finished_payments_ok[OF cons keys p(1) own, where st = final]) (use final(3) in auto)
    then show "financial_constraints ?d3"
      using check cons attempts cash_movements_table[OF cash]
      by (simp add: financial_constraints_def payment_constraints_def others check_inv_def)
  next
    assume ok: "financial_constraints ?d3"
    show "own_reference d p (pr_external_reference r')"
      unfolding own_reference_def
    proof (intro ballI impI notI)
      fix q assume q: "q \<in> set (restaurant_payments d)" "pay_id q \<noteq> pay_id p"
        and same: "same_slot (pay_executor_configuration_id p) (pay_executor_configuration_id q)
          \<and> same_text (pr_external_reference r') (pay_external_reference q)"
      have "q \<in> set (restaurant_payments ?d3)" "finish_row final now r' p \<in> set (restaurant_payments ?d3)"
        unfolding rows set_modify using p(1) q by (auto intro: bexI[of _ q] bexI[of _ p])
      with ok q(2) have "\<not> restaurant_payments_collide (finish_row final now r' p) q"
        by (intro payment_rows_apart[of ?d3]) (simp_all add: financial_constraints_def)
      with same show False by (simp add: restaurant_payments_collide_def)
    qed
  qed
  have "final \<noteq> PAY_SUCCEEDED" using final(3) by auto
  then show ?thesis
    using iff find_row_modify_const[OF keys p(1), of "finish_row final now r' p"]
    unfolding finish_run[OF find_tenant_payment[OF keys p(1,2)] p(3) a final(1,2)] a(1) rows[symmetric]
    by (simp add: Let_def recorded_def)
qed

text \<open>
  C2: A success that a provider confirms is never lost. In every reachable state and for every payment that
  is being executed, the transaction that records the success commits: the payment is SUCCEEDED with the
  reference of the provider and exactly its amount is settled on its check; only when the reference is
  already that of another payment under the same configuration it stays UNCERTAIN, without a reference
  and without a settlement.
\<close>

theorem provider_success_is_recorded:
  assumes "reachable sha s" and p: "p \<in> set (restaurant_payments (fs_db s))" "pay_tenant_id p = tenant_id ctx"
    "pay_claim_token p = Some token"
  shows "\<exists>p' d'. finish_payment sha ctx now (pay_id p) token r PAY_SUCCEEDED (fs_db s) = Inr (p', d')
    \<and> (if reference_conflict (fs_db s) p PAY_SUCCEEDED r
       then pay_state p' = PAY_UNCERTAIN \<and> pay_external_reference p' = None
         \<and> check_settlements d' = check_settlements (fs_db s)
       else pay_state p' = PAY_SUCCEEDED \<and> pay_external_reference p' = pr_external_reference r
         \<and> settled_amount d' (pay_check_id p) = settled_amount (fs_db s) (pay_check_id p) + pay_amount p)"
proof -
  let ?d = "fs_db s"
  have inv: "financial_inv ?d" using reachable_inv[OF assms(1)] by (simp add: system_inv_def)
  then have pay: "payment_inv ?d" and books: "payment_books ?d" and cons: "payment_constraints ?d" and check: "check_inv ?d"
    by (simp_all add: financial_inv_def payment_inv_def)
  have keys: "distinct (map pay_id (restaurant_payments ?d))" "distinct (map chk_id (restaurant_checks ?d))"
    using books check by (simp_all add: payment_books_def payment_keys_ok_def check_inv_def check_keys_ok_def)
  show ?thesis
  proof (cases "reference_conflict ?d p PAY_SUCCEEDED r")
    case True
    have "own_reference ?d p (pr_external_reference (withhold_reference r))"
      by (simp add: own_reference_def withhold_reference_def same_text_def)
    with finish_ends[OF inv p refl refl, of PAY_SUCCEEDED r sha now] True show ?thesis
      by (simp add: Let_def recorded_def withhold_reference_def)
  next
    case False
    note busy = claimed_in_progress[OF cons p(1,3)]
    obtain a where a: "List.find (\<lambda>a. att_payment_id a = pay_id p \<and> att_claim_token a = token) (payment_attempts ?d) = Some a"
      "att_result a = RES_IN_PROGRESS"
      using claimed_attempt[OF pay p(1,3)] by blast
    from books p(1) obtain c where c: "c \<in> set (restaurant_checks ?d)" "chk_id c = pay_check_id p"
      "chk_tenant_id c = pay_tenant_id p"
      unfolding payment_books_def payment_refs_ok_def by blast
    note c_found = find_tenant_check[OF keys(2) c(1) c(3)[unfolded p(2)] c(2)]
    obtain e where e: "apply_success ctx now (finish_row PAY_SUCCEEDED now r p) c (recorded PAY_SUCCEEDED now r p ?d) = Inr e"
      "financial_constraints (e\<lparr>payment_attempts := attempts_after sha PAY_SUCCEEDED now (pr_external_reference r) r a e\<rparr>)"
      "restaurant_payments e = modify pay_id (pay_id p)
         (\<lambda>_. succeed_payment now (finish_row PAY_SUCCEEDED now r p)) (restaurant_payments ?d)"
      "check_settlements e = check_settlements ?d @ [settlement_row ?d ctx now (finish_row PAY_SUCCEEDED now r p)]"
      by (rule success_applies[OF inv p(1) busy c(1,2) no_conflict_own_reference[OF False],
            where sha = sha and ref = "pr_external_reference r" and a = a and ctx = ctx and now = now])
    let ?d3 = "e\<lparr>payment_attempts := attempts_after sha PAY_SUCCEEDED now (pr_external_reference r) r a e\<rparr>"
    let ?p = "succeed_payment now (finish_row PAY_SUCCEEDED now r p)"
    have shown: "find_row pay_id (pay_id p) (restaurant_payments ?d3) = Some ?p"
      using find_row_modify_const[OF keys(1) p(1), of ?p] by (simp add: e(3))
    have run: "finish_payment sha ctx now (pay_id p) token r PAY_SUCCEEDED ?d = Inr (?p, ?d3)"
      unfolding finish_run[OF find_tenant_payment[OF keys(1) p(1,2)] p(3) a refl refl] if_not_P[OF False] Let_def
      using e(1,2) c_found shown by simp
    have "settled_amount ?d3 (pay_check_id p) = settled_amount ?d (pay_check_id p) + pay_amount p"
      by (simp add: settled_amount_def e(4) settlement_row_def)
    with run False show ?thesis by (simp add: succeed_payment_def)
  qed
qed

end
