(* ===== verification/PaymentProofs.thy ===== *)
theory PaymentProofs
  imports PaymentOutcomes
begin

text \<open>
  What holds in every reachable state of the financial core, and what the payment service promises: no
  check is overpaid, a request is executed once, expired claims are fenced, stale ones refused.
\<close>

section \<open>Reachable states\<close>

lemma reachable_financial:
  assumes "reachable sha s"
  shows "check_inv (fs_db s)" "payment_inv (fs_db s)" "cash_inv (fs_db s)" "payment_books (fs_db s)"
    "payment_constraints (fs_db s)" "check_constraints (fs_db s)"
  using reachable_inv[OF assms]
  by (simp_all add: system_inv_def financial_inv_def payment_inv_def check_inv_def)

text \<open>
  C1: In every reachable state, what is settled on a check and what live payments reserve of it never
  exceed its liability; a SETTLED check is settled to the cent, nothing is reserved on it and all that
  it owned is settled; an OPEN or CANCELLED check has no payment.
\<close>

theorem checks_never_overpaid:
  assumes "reachable sha s" and c: "c \<in> set (restaurant_checks (fs_db s))"
  shows "settled_amount (fs_db s) (chk_id c) + payment_amount (fs_db s) RESERVING_STATES (chk_id c)
      \<le> chk_liability_total c
    \<and> (chk_status c = CHK_SETTLED \<longrightarrow>
         settled_amount (fs_db s) (chk_id c) = chk_liability_total c
         \<and> payment_amount (fs_db s) RESERVING_STATES (chk_id c) = 0
         \<and> (\<forall>a \<in> set (check_allocations (fs_db s)). al_check_id a = chk_id c \<longrightarrow>
              al_state a \<noteq> AL_RELEASED \<longrightarrow> al_state a = AL_SETTLED))
    \<and> (chk_status c \<in> {CHK_OPEN, CHK_CANCELLED} \<longrightarrow>
         (\<forall>p \<in> set (restaurant_payments (fs_db s)). pay_check_id p \<noteq> chk_id c))"
proof -
  note inv = reachable_financial[OF assms(1)]
  note funded = books_check[OF inv(4) c]
  have "0 \<le> payment_amount (fs_db s) RESERVING_STATES (chk_id c)"
    by (rule amounts_nonneg[OF inv(5)])
  with funded show ?thesis by (auto simp: exposure_def)
qed

text \<open>
  C9: In every reachable state the totals of a check are those of its rows: the consumption is the sum
  of its live allocations, the liability is consumption plus gratuity, and the version history counts
  from 1 to the version of the check without a gap and ends with what the check shows.
\<close>

theorem check_totals_add_up:
  assumes "reachable sha s" and c: "c \<in> set (restaurant_checks (fs_db s))"
  shows "chk_consumption_total c = live_total (fs_db s) (chk_id c)
    \<and> chk_liability_total c = chk_consumption_total c + chk_gratuity_total c \<and> 0 \<le> chk_liability_total c
    \<and> map cv_version (history (fs_db s) (chk_id c)) = [1..chk_version c]
    \<and> shows_check (last (history (fs_db s) (chk_id c))) c"
  using check_inv_rows(1,2,5)[OF reachable_financial(1)[OF assms(1)] c]
  by (simp add: totals_ok_def history_ok_def restaurant_check_ok_def)


text \<open>
  C8: In every reachable state a payment is SUCCEEDED exactly when it has a settlement, every
  settlement of it is for its amount on its check, and it is IN_PROGRESS exactly when it has a claim,
  whose attempt is in progress.
\<close>

theorem settlements_mirror_payments:
  assumes "reachable sha s" and p: "p \<in> set (restaurant_payments (fs_db s))"
  shows "(pay_state p = PAY_SUCCEEDED \<longleftrightarrow> (\<exists>t \<in> set (check_settlements (fs_db s)). st_payment_id t = pay_id p))
    \<and> (\<forall>t \<in> set (check_settlements (fs_db s)). st_payment_id t = pay_id p \<longrightarrow>
         st_amount t = pay_amount p \<and> st_check_id t = pay_check_id p)
    \<and> (pay_state p = PAY_IN_PROGRESS \<longleftrightarrow> pay_claim_token p \<noteq> None)
    \<and> (\<forall>token. pay_claim_token p = Some token \<longrightarrow> (\<exists>a \<in> set (payment_attempts (fs_db s)).
         att_payment_id a = pay_id p \<and> att_claim_token a = token \<and> att_result a = RES_IN_PROGRESS))"
proof -
  note inv = reachable_financial[OF assms(1)]
  have keys: "distinct (map pay_id (restaurant_payments (fs_db s)))"
    using inv(4) by (simp add: payment_books_def payment_keys_ok_def)
  have match: "settles t p" if "t \<in> set (check_settlements (fs_db s))" "st_payment_id t = pay_id p" for t
  proof -
    from inv(4) that(1) obtain q where "q \<in> set (restaurant_payments (fs_db s))" "settles t q"
      unfolding payment_books_def settlements_match_def by blast
    moreover from this that(2) have "q = p"
      using same_row_if_same_id[OF keys _ p] by (simp add: settles_def)
    ultimately show ?thesis by simp
  qed
  have "restaurant_payment_ok p"
    using inv(5) p by (auto simp: payment_constraints_def dest: table_okD)
  then have claim: "pay_state p = PAY_IN_PROGRESS \<longleftrightarrow> pay_claim_token p \<noteq> None"
    by (auto simp: restaurant_payment_ok_def claim_ok_def)
  have "\<exists>t \<in> set (check_settlements (fs_db s)). st_payment_id t = pay_id p" if "pay_state p = PAY_SUCCEEDED"
    using inv(4) p that unfolding payment_books_def settlements_match_def settles_def by blast
  with match claim claimed_attempt[OF inv(2) p] show ?thesis
    unfolding settles_def by blast
qed


section \<open>What stays of a payment\<close>

text \<open>No step removes a payment or changes its identity, its amount, its key or its fingerprint.\<close>

definition payment_identity ::
  "restaurant_payment \<Rightarrow> int \<times> int \<times> int \<times> rat \<times> string \<times> string \<times> string"
where
  "payment_identity p = (pay_id p, pay_tenant_id p, pay_check_id p, pay_amount p, pay_actor_scope p,
     pay_idempotency_key p, pay_request_fingerprint p)"

definition payments_persist :: "db \<Rightarrow> db \<Rightarrow> bool" where
  "payments_persist d e \<longleftrightarrow> (\<exists>ps. map payment_identity (restaurant_payments e)
     = map payment_identity (restaurant_payments d) @ ps)"

lemma identity_of_rows [simp]:
  "payment_identity (finish_row st now r p) = payment_identity p"
  "payment_identity (succeed_payment now p) = payment_identity p"
  "payment_identity (claim_row t now p p) = payment_identity p"
  "payment_identity (release_claim p) = payment_identity p"
  by (simp_all add: payment_identity_def finish_row_def copy_evidence_def succeed_payment_def claim_row_def
      release_claim_def)

lemma persist_same: "map payment_identity (restaurant_payments e) = map payment_identity (restaurant_payments d)
  \<Longrightarrow> payments_persist d e"
  unfolding payments_persist_def by (intro exI[of _ "[]"]) simp

lemma persist_trans: "payments_persist a b \<Longrightarrow> payments_persist b c \<Longrightarrow> payments_persist a c"
  unfolding payments_persist_def by force

lemma persist_modify:
  assumes "distinct (map pay_id (restaurant_payments d))" "row \<in> set (restaurant_payments d)"
    and "restaurant_payments e = modify pay_id (pay_id row) (\<lambda>_. row') (restaurant_payments d)"
    and "payment_identity row' = payment_identity row"
  shows "payments_persist d e"
proof (rule persist_same)
  have "payment_identity (if pay_id p = pay_id row then row' else p) = payment_identity p"
    if "p \<in> set (restaurant_payments d)" for p
    using same_row_if_same_id[OF assms(1) that assms(2)] by (auto simp: assms(4))
  then show "map payment_identity (restaurant_payments e) = map payment_identity (restaurant_payments d)"
    unfolding assms(3) modify_def by simp
qed

lemma step_persists:
  assumes inv: "system_inv s" and step: "financial_step sha s t"
  shows "payments_persist (fs_db s) (fs_db t)"
proof -
  from inv have fin: "financial_inv (fs_db s)" by (simp add: system_inv_def)
  then have pcons: "payment_constraints (fs_db s)" and books: "payment_books (fs_db s)"
    and keys: "distinct (map pay_id (restaurant_payments (fs_db s)))"
    by (simp_all add: financial_inv_def payment_inv_def payment_books_def payment_keys_ok_def)
  have same: "payments_persist (fs_db s) d'" if "restaurant_payments d' = restaurant_payments (fs_db s)" for d'
    using that by (intro persist_same) simp
  have cash: "payments_persist (fs_db s) d'"
    if "core_tables d' = (fst (core_tables (fs_db s)), fst (snd (core_tables (fs_db s))), cash_part d')" for d'
    using that by (intro same) (simp add: core_tables_def)
  have finish: "payments_persist (fs_db s) d'"
    if run: "finish_payment sha ctx now i token r state (fs_db s) = Inr (p, d')" for ctx now i token r state p d'
    using run
  proof (cases rule: finish_success)
    case stale
    then show ?thesis by (simp add: same)
  next
    case (ended row a final r')
    then show ?thesis
      by (intro persist_modify[OF keys ended(1), of _ "finish_row final now r' row"]) (simp_all add: recorded_def)
  next
    case (succeeded row a c d2)
    let ?p = "finish_row PAY_SUCCEEDED now r row"
    have "\<forall>s' \<in> set (check_settlements (recorded PAY_SUCCEEDED now r row (fs_db s))). st_payment_id s' \<noteq> pay_id ?p"
      using unsettled_payment[OF books succeeded(1)] claimed_in_progress[OF pcons succeeded(1,3)]
      by (simp add: recorded_def)
    with succeeded(12) have "restaurant_payments d2 = modify pay_id (pay_id ?p) (succeed_payment now)
        (restaurant_payments (recorded PAY_SUCCEEDED now r row (fs_db s)))"
      by (cases rule: apply_success_cases)
        (auto simp: applied_def finalize_full_check_def replace_check_def split: if_splits)
    then have "restaurant_payments d' = modify pay_id (pay_id row) (\<lambda>_. succeed_payment now ?p)
        (restaurant_payments (fs_db s))"
      by (simp add: succeeded(13) recorded_def modify_modify_const)
    then show ?thesis by (rule persist_modify[OF keys succeeded(1)]) simp
  qed
  from step show ?thesis
  proof cases
    case (cash_opened ctx now rid lid cur key snap r d')
    then show ?thesis by (cases r) (auto intro!: cash open_frame)
  next
    case (cash_moved ctx now sid lid mt am cur rs rf key snap r d')
    then show ?thesis by (cases r) (auto intro!: cash movement_frame)
  next
    case (cash_counted ctx now sid lid am cur key snap r d')
    then show ?thesis by (cases r) (auto intro!: cash count_frame)
  next
    case (cash_closed ctx now sid lid cid vr key snap r d')
    then show ?thesis by (cases r) (auto intro!: cash close_frame)
  next
    case (commanded ctx now key q r d')
    then show ?thesis by (cases r) (auto intro!: same command_keeps(2)[OF fin])
  next
    case (diner_ended now tenant i d')
    then show ?thesis by (auto intro!: same slots_freed_keeps(2)[OF fin diner_end_frees])
  next
    case (service_closed now tenant i balance d')
    then show ?thesis by (auto intro!: same slots_freed_keeps(2)[OF fin service_close_frees])
  next
    case (payment_reserved registry ctx now q v fingerprint p b d')
    have "payments_persist (fs_db s) d'"
      using reserve_tables(3)[OF fin payment_reserved(2)] unfolding payments_persist_def by simp
    then show ?thesis by (simp add: payment_reserved(1))
  next
    case (payment_claimed ctx now token cached i type allowed again r d')
    obtain p t' where run: "claim_payment ctx now token cached i type allowed again (fs_db s) = Inr ((p, t'), d')"
      using payment_claimed(2) by (cases r) auto
    have "\<forall>x. cached = Some x \<longrightarrow> pay_id x = i \<and> object_current (fs_db s) x"
      using payment_claimed(4) inv by (auto simp: system_inv_def)
    from run this keys have "payments_persist (fs_db s) d'"
    proof (cases rule: claim_success)
      case (claimed row)
      then show ?thesis by (intro persist_modify[OF keys claimed(1), of _ p]) simp_all
    qed (simp add: same)
    then show ?thesis by (simp add: payment_claimed(1))
  next
    case (payment_executed ctx now i token r p d')
    then show ?thesis using finish by simp
  next
    case (payment_recovered ctx now i token r p d')
    then show ?thesis using finish by simp
  next
    case (payment_fenced ctx now i location p type d')
    from payment_fenced(2) have "payments_persist (fs_db s) d'"
    proof (cases rule: fence_success)
      case (fenced row as)
      then show ?thesis
        using modify_eq_const[OF keys fenced(1,2)]
        by (intro persist_modify[OF keys fenced(1), of _ p]) simp_all
    qed (simp add: same)
    then show ?thesis by (simp add: payment_fenced(1))
  next
    case (elsewhere d')
    then show ?thesis by (simp add: same core_tables_def)
  qed
qed

lemma steps_persist:
  assumes "(financial_step sha)\<^sup>*\<^sup>* s t" "system_inv s"
  shows "payments_persist (fs_db s) (fs_db t)"
  using assms
proof (induction rule: rtranclp_induct)
  case (step t u)
  then show ?case
    using step_persists[OF financial.inv_steps[OF step(1)]] persist_trans by blast
qed (simp add: persist_same)

text \<open>The payment that a key finds is found under it ever after.\<close>

lemma find_identity:
  assumes "\<And>p q. payment_identity p = payment_identity q \<Longrightarrow> P p = P q"
    and "map payment_identity ys = map payment_identity xs @ zs" "List.find P xs = Some p"
  shows "\<exists>q. List.find P ys = Some q \<and> payment_identity q = payment_identity p"
  using assms(2,3)
proof (induction xs arbitrary: ys)
  case (Cons x xs)
  then obtain y ys' where ys: "ys = y # ys'" "payment_identity y = payment_identity x"
    "map payment_identity ys' = map payment_identity xs @ zs" by (cases ys) auto
  show ?case
  proof (cases "P x")
    case True
    with Cons.prems(2) ys assms(1)[OF ys(2)] show ?thesis by simp
  next
    case False
    with Cons ys assms(1)[OF ys(2)] show ?thesis by simp
  qed
qed simp

lemma key_persists:
  assumes "payments_persist d e" "payment_by_key d ctx key = Some p"
  shows "\<exists>q. payment_by_key e ctx key = Some q \<and> payment_identity q = payment_identity p"
proof -
  from assms(1) obtain ps where "map payment_identity (restaurant_payments e)
      = map payment_identity (restaurant_payments d) @ ps" unfolding payments_persist_def by blast
  then show ?thesis
    using assms(2) unfolding payment_by_key_def by (rule find_identity[rotated]) (simp add: payment_identity_def)
qed


section \<open>Fences and races\<close>

lemma fenced_attempts_ok:
  assumes "table_ok payment_attempt_ok payment_attempts_collide as"
  shows "table_ok payment_attempt_ok payment_attempts_collide (modify att_id i (fence_attempt now) as)"
  unfolding modify_is_where
  by (rule table_ok_modify_where[OF assms])
    (auto simp: fence_attempt_def payment_attempt_ok_def payment_attempts_collide_def dest: table_okD[OF assms])

lemma released_payments_ok:
  assumes "table_ok restaurant_payment_ok restaurant_payments_collide ps"
  shows "table_ok restaurant_payment_ok restaurant_payments_collide (modify pay_id i release_claim ps)"
  unfolding modify_is_where
proof (rule table_ok_modify_where[OF assms])
  fix p assume "p \<in> set ps"
  then have "restaurant_payment_ok p" by (rule table_okD[OF assms])
  then show "restaurant_payment_ok (release_claim p)"
    by (simp add: restaurant_payment_ok_def payer_ok_def claim_ok_def execution_evidence_ok_def release_claim_def
        split: option.splits)
qed (simp add: restaurant_payments_collide_def release_claim_def)

text \<open>
  C18: An execution that ran out of its lease can be fenced in every reachable state: the payment
  becomes UNCERTAIN and keeps its reservation, and a result that comes back under the old claim later,
  whatever it is, changes nothing.
\<close>

theorem expired_execution_is_fenced:
  assumes "reachable sha s" and p: "p \<in> set (restaurant_payments (fs_db s))" "pay_tenant_id p = tenant_id ctx"
    "pay_claim_token p = Some token" "pay_claim_expires_at p = Some e" "e \<le> now"
  shows "\<exists>d'. fence_payment ctx now (pay_id p) None (fs_db s) = Inr ((release_claim p, ATT_STALE_RECOVERY), d')
    \<and> finish_payment sha ctx later (pay_id p) token r state d' = Inr (release_claim p, d')
    \<and> settled_amount d' (pay_check_id p) = settled_amount (fs_db s) (pay_check_id p)
    \<and> payment_amount d' RESERVING_STATES (pay_check_id p)
        = payment_amount (fs_db s) RESERVING_STATES (pay_check_id p)"
proof -
  let ?d = "fs_db s"
  note inv = reachable_financial[OF assms(1)]
  have keys: "distinct (map pay_id (restaurant_payments ?d))"
    using inv(4) by (simp add: payment_books_def payment_keys_ok_def)
  note busy = claimed_in_progress[OF inv(5) p(1,3)]
  obtain a where a: "List.find (\<lambda>a. att_payment_id a = pay_id p \<and> att_claim_token a = token) (payment_attempts ?d) = Some a"
    "att_result a = RES_IN_PROGRESS"
    using claimed_attempt[OF inv(2) p(1,3)] by blast
  let ?d' = "?d\<lparr>payment_attempts := modify att_id (att_id a) (fence_attempt now) (payment_attempts ?d),
      restaurant_payments := modify pay_id (pay_id p) release_claim (restaurant_payments ?d)\<rparr>"
  have "payment_constraints ?d'"
    using inv(5) fenced_attempts_ok released_payments_ok by (simp add: payment_constraints_def)
  then have run: "fence_payment ctx now (pay_id p) None ?d = Inr ((release_claim p, ATT_STALE_RECOVERY), ?d')"
    using find_tenant_payment[OF keys p(1,2)] busy p(3-5) a by (simp add: fence_payment_def)
  note rows = modify_eq_const[OF keys p(1) refl, of release_claim]
  have in_d': "release_claim p \<in> set (restaurant_payments ?d')"
    by (simp add: set_modify) (use p(1) in force)
  have "distinct (map pay_id (restaurant_payments ?d'))" by (simp add: rows modify_const_ids keys)
  from find_tenant_payment[OF this in_d'] p(2)
  have "finish_payment sha ctx later (pay_id p) token r state ?d' = Inr (release_claim p, ?d')"
    by (simp add: finish_payment_def) (simp add: release_claim_def)
  moreover have after: "restaurant_payments ?d' = modify pay_id (pay_id p) (\<lambda>_. release_claim p) (restaurant_payments ?d)"
    by (simp add: rows)
  have "payment_amount ?d' RESERVING_STATES (pay_check_id p)
      = payment_amount ?d RESERVING_STATES (pay_check_id p)"
    using payment_amount_modify[OF after keys p(1), of RESERVING_STATES "pay_check_id p"] busy
    by (simp add: part_def RESERVING_STATES_def)
  ultimately show ?thesis using run by (intro exI[of _ ?d']) (simp add: settled_amount_def)
qed

text \<open>
  C21: A session that loaded a payment before another claim of it committed does not claim it: its
  claim ends in an error, by the unique attempt sequence of a payment, unless the payment had already
  succeeded when it was loaded.
\<close>

theorem stale_object_claims_nothing:
  assumes x: "claimed_since d x" "pay_state x \<noteq> PAY_SUCCEEDED"
  shows "\<exists>e. claim_payment ctx now token (Some x) (pay_id x) type allowed again d = Inl e"
proof (cases "claim_payment ctx now token (Some x) (pay_id x) type allowed again d")
  case (Inr r)
  let ?c = "claim_row token now x x"
  from Inr obtain d' where d': "payment_constraints d'"
    "payment_attempts d' = payment_attempts d @ [started_attempt d ctx now token type ?c]"
    using x(2)
    by (auto simp: claim_payment_def Let_def bind_result_Inr_iff split: option.splits if_splits)
  have "\<not> payment_constraints d'"
    by (rule claimed_since_collides[OF x(1) _ _ d'(2)]) (simp_all add: claim_row_def write_column_def)
  with d'(1) show ?thesis by simp
qed simp

section \<open>Operations of several transactions\<close>

definition others_step :: "payment_world \<Rightarrow> bool" where
  "others_step w \<longleftrightarrow> (\<forall>n s. \<exists>t. (financial_step (pw_sha w))\<^sup>*\<^sup>* s t \<and> fs_db t = pw_others w n (fs_db s)
     \<and> set (fs_objects s) \<subseteq> set (fs_objects t))"

definition runs :: "payment_world \<Rightarrow> financial_system \<Rightarrow> db \<Rightarrow> bool" where
  "runs w s d \<longleftrightarrow> (\<exists>t. (financial_step (pw_sha w))\<^sup>*\<^sup>* s t \<and> fs_db t = d)"

lemma runs_refl [simp]: "runs w s (fs_db s)"
  unfolding runs_def by blast

lemma runs_step: "financial_step (pw_sha w) s t \<Longrightarrow> runs w t d \<Longrightarrow> runs w s d"
  unfolding runs_def by (blast intro: converse_rtranclp_into_rtranclp)

lemma runs_one: "financial_step (pw_sha w) s t \<Longrightarrow> fs_db t = d \<Longrightarrow> runs w s d"
  unfolding runs_def by blast

lemma others_run:
  assumes "others_step w" "\<And>t. fs_db t = pw_others w n (fs_db s) \<Longrightarrow> set (fs_objects s) \<subseteq> set (fs_objects t)
      \<Longrightarrow> runs w t d"
  shows "runs w s d"
proof -
  from assms(1) obtain t where t: "(financial_step (pw_sha w))\<^sup>*\<^sup>* s t" "fs_db t = pw_others w n (fs_db s)"
    "set (fs_objects s) \<subseteq> set (fs_objects t)" unfolding others_step_def by blast
  from assms(2)[OF t(2,3)] t(1) show ?thesis unfolding runs_def by (blast intro: rtranclp_trans)
qed

lemma executed_runs:
  assumes "fs_db s = pw_others w 2 d"
  shows "runs w s (snd (execute_claimed w ctx p token d))"
proof (cases "finish_payment (pw_sha w) ctx (pw_clock w 2) (pay_id p) token (execution_result w p d)
    (execution_state (pr_outcome (execution_result w p d))) (pw_others w 2 d)")
  case (Inl e)
  then show ?thesis using assms by (simp add: execute_claimed_def Let_def) (metis runs_refl)
next
  case (Inr r)
  then obtain q d' where r: "finish_payment (pw_sha w) ctx (pw_clock w 2) (pay_id p) token (execution_result w p d)
    (execution_state (pr_outcome (execution_result w p d))) (fs_db s) = Inr (q, d')"
    using assms by (cases r) simp
  from runs_one[OF payment_executed[OF r]] show ?thesis
    using r assms by (simp add: execute_claimed_def Let_def)
qed

lemma claimed_runs:
  assumes others: "others_step w" and mode: "claim_mode type allowed again"
    and cached: "\<forall>x. cached = Some x \<longrightarrow> pay_id x = i \<and> x \<in> set (fs_objects s)"
  shows "runs w s (snd (claim_and_execute w ctx cached i type allowed again (fs_db s)))"
proof (cases "claim_payment ctx (pw_clock w 1) (pw_token w) cached i type allowed again (fs_db s)")
  case (Inl e)
  then show ?thesis by (simp add: claim_and_execute_def)
next
  case (Inr r)
  obtain p t d' where r: "r = ((p, t), d')" by (metis surj_pair)
  note step = payment_claimed[OF Inr[unfolded r] mode cached]
  show ?thesis
  proof (cases "t = []")
    case True
    then show ?thesis using runs_one[OF step] Inr r by (simp add: claim_and_execute_def)
  next
    case False
    have "runs w s (snd (execute_claimed w ctx p t (pw_others w 1 d')))"
    proof (rule runs_step[OF step])
      show "runs w (committed d' s) (snd (execute_claimed w ctx p t (pw_others w 1 d')))"
      proof (rule others_run[OF others, of 1])
        fix u :: financial_system assume u: "fs_db u = pw_others w 1 (fs_db (committed d' s))"
        show "runs w u (snd (execute_claimed w ctx p t (pw_others w 1 d')))"
          by (rule others_run[OF others, of 2]) (rule executed_runs, simp add: u)
      qed
    qed
    then show ?thesis using Inr r False
      by (auto simp: claim_and_execute_def split: prod.splits sum.splits)
  qed
qed

text \<open>
  C7: The operations of the service refine the system of single transactions: when what others do
  between the transactions of an operation is a sequence of steps, the database that a payment, a
  retry or a recovery leaves, also when it raises, is that of a sequence of steps of the system; so
  all that holds in reachable states holds for them.
\<close>

theorem payment_operations_are_steps:
  assumes "others_step w"
  shows "runs w s (snd (initiate_payment w ctx q (fs_db s)))
    \<and> runs w s (snd (retry_payment w ctx i (fs_db s)))
    \<and> runs w s (snd (recover_payment w ctx i location (fs_db s)))"
proof (intro conjI)
  show "runs w s (snd (retry_payment w ctx i (fs_db s)))"
    using claimed_runs[OF assms, of ATT_RETRY "{PAY_FAILED}" True None i s ctx]
    by (auto simp: retry_payment_def claim_mode_def split: prod.splits sum.splits)
next
  show "runs w s (snd (initiate_payment w ctx q (fs_db s)))"
  proof (cases "snd (initiate_payment w ctx q (fs_db s)) = fs_db s")
    case False
    then obtain v where v: "validate_payment ctx q = Inr v"
      by (auto simp: initiate_payment_def split: sum.splits if_splits)
    let ?run = "reserve_payment (pw_sha w) (pw_registry w) ctx (pw_clock w 0) q v
      (payment_request_fingerprint (pw_sha w) q v) (fs_db s)"
    from False v obtain r where r: "?run = Inr r"
      by (auto simp: initiate_payment_def Let_def split: sum.splits if_splits option.splits)
    obtain p b d' where pbd: "r = ((p, b), d')" by (metis surj_pair)
    note step = payment_reserved[OF r[unfolded pbd]]
    from False v r pbd have run: "snd (initiate_payment w ctx q (fs_db s)) =
        (if b \<or> vp_method v = CASH then d' else snd (claim_and_execute w ctx (Some p) (pay_id p) ATT_EXECUTE
           {PAY_RESERVED} False (pw_others w 0 d')))"
      by (auto simp: initiate_payment_def Let_def split: sum.splits if_splits option.splits)
    show ?thesis
    proof (cases "b \<or> vp_method v = CASH")
      case True
      then show ?thesis unfolding run using runs_one[OF step] by simp
    next
      case False
      have "runs w (committed d' (loaded p s)) (snd (claim_and_execute w ctx (Some p) (pay_id p) ATT_EXECUTE
           {PAY_RESERVED} False (pw_others w 0 d')))"
      proof (rule others_run[OF assms, of 0])
        fix u :: financial_system assume u: "fs_db u = pw_others w 0 (fs_db (committed d' (loaded p s)))"
          "set (fs_objects (committed d' (loaded p s))) \<subseteq> set (fs_objects u)"
        have "runs w u (snd (claim_and_execute w ctx (Some p) (pay_id p) ATT_EXECUTE
           {PAY_RESERVED} False (fs_db u)))"
          by (rule claimed_runs[OF assms]) (use u(2) in \<open>auto simp: claim_mode_def\<close>)
        with u(1) show "runs w u (snd (claim_and_execute w ctx (Some p) (pay_id p) ATT_EXECUTE
           {PAY_RESERVED} False (pw_others w 0 d')))" by simp
      qed
      with False step show ?thesis unfolding run by (simp add: runs_step)
    qed
  qed simp
next
  show "runs w s (snd (recover_payment w ctx i location (fs_db s)))"
  proof (cases "fence_payment ctx (pw_clock w 0) i location (fs_db s)")
    case (Inl e)
    then show ?thesis by (simp add: recover_payment_def)
  next
    case (Inr r)
    obtain p type d1 where r: "fence_payment ctx (pw_clock w 0) i location (fs_db s) = Inr ((p, type), d1)"
      using Inr by (cases r) auto
    have p: "pay_id p = i" "type \<in> {ATT_RECOVER, ATT_STALE_RECOVERY}"
      using r by (cases rule: fence_success; simp)+
    show ?thesis
    proof (rule runs_step[OF payment_fenced[OF r]], rule others_run[OF assms, of 0])
      fix u :: financial_system assume u: "fs_db u = pw_others w 0 (fs_db (committed d1 (loaded p s)))"
        "set (fs_objects (committed d1 (loaded p s))) \<subseteq> set (fs_objects u)"
      then have u1: "fs_db u = pw_others w 0 d1" "p \<in> set (fs_objects u)" by simp_all
      show "runs w u (snd (recover_payment w ctx i location (fs_db s)))"
      proof (cases "claim_payment ctx (pw_clock w 1) (pw_token w) (Some p) i type {PAY_UNCERTAIN} False (fs_db u)")
        case (Inl e)
        then show ?thesis using runs_refl[of w u] by (simp add: recover_payment_def r u1(1))
      next
        case (Inr k)
        obtain c t d2 where k: "claim_payment ctx (pw_clock w 1) (pw_token w) (Some p) i type {PAY_UNCERTAIN} False
            (fs_db u) = Inr ((c, t), d2)" using Inr by (cases k) auto
        have "claim_mode type {PAY_UNCERTAIN} False" using p(2) by (auto simp: claim_mode_def)
        note claim = payment_claimed[OF k this]
        show ?thesis
        proof (rule runs_step[OF claim], use p u1 in simp, rule others_run[OF assms, of 1],
            rule others_run[OF assms, of 2])
          fix x y :: financial_system assume x: "fs_db x = pw_others w 1 (fs_db (committed d2 u))" and y: "fs_db y = pw_others w 2 (fs_db x)"
          let ?r = "recovery_result w c (fs_db x)"
          show "runs w y (snd (recover_payment w ctx i location (fs_db s)))"
          proof (cases "finish_payment (pw_sha w) ctx (pw_clock w 2) i t ?r (recovery_state (pr_outcome ?r)) (fs_db y)")
            case (Inl e)
            then show ?thesis using runs_refl[of w y] k x y by (simp add: recover_payment_def r u1(1) Let_def)
          next
            case (Inr z)
            then obtain g d4 where z: "finish_payment (pw_sha w) ctx (pw_clock w 2) i t ?r
                (recovery_state (pr_outcome ?r)) (fs_db y) = Inr (g, d4)" by (cases z) auto
            from runs_one[OF payment_recovered[OF z]] show ?thesis
              using k x y z by (simp add: recover_payment_def r u1(1) Let_def)
          qed
        qed
      qed
    qed
  qed
qed

section \<open>Cash, reads and the constraints of a valid request\<close>

lemma validate_amount_Inr: "validate_amount value = Inr x \<Longrightarrow> 0 < x"
  by (auto simp: validate_amount_def split: pynum.splits option.splits if_splits)

lemma validate_payment_success:
  assumes "validate_payment ctx q = Inr v"
  shows "validate_amount (pq_amount q) = Inr (vp_amount v)"
    "validate_tender ctx q (vp_executor_key v) (vp_method v) (vp_amount v) = Inr (vp_cash_tendered v)"
    "(vp_payer_type v = PAYER_DINER) = (pq_payer_diner_session_id q \<noteq> None)"
    "vp_payer_type v = PAYER_OTHER \<Longrightarrow> vp_payer_reference v \<noteq> None"
proof -
  obtain amount where amount: "validate_amount (pq_amount q) = Inr amount"
    using assms by (auto simp: validate_payment_def bind_result_Inr_iff)
  obtain payer where payer: "parse_payer_type (upper (strip (pq_payer_type q))) = Some payer"
    using assms by (auto simp: validate_payment_def bind_result_Inr_iff Let_def split: option.splits if_splits)
  obtain category where m: "parse_payment_method (upper (strip (pq_method_category q))) = Some category"
    using assms by (auto simp: validate_payment_def bind_result_Inr_iff Let_def split: option.splits if_splits)
  have "validate_amount (pq_amount q) = Inr (vp_amount v)
    \<and> validate_tender ctx q (vp_executor_key v) (vp_method v) (vp_amount v) = Inr (vp_cash_tendered v)
    \<and> (vp_payer_type v = PAYER_DINER) = (pq_payer_diner_session_id q \<noteq> None)
    \<and> (vp_payer_type v = PAYER_OTHER \<longrightarrow> vp_payer_reference v \<noteq> None)"
    using assms unfolding validate_payment_def amount payer m Let_def bind_result.simps option.case
    by (auto simp: bind_result_Inr_iff split: if_splits option.splits)
  then show "validate_amount (pq_amount q) = Inr (vp_amount v)"
    "validate_tender ctx q (vp_executor_key v) (vp_method v) (vp_amount v) = Inr (vp_cash_tendered v)"
    "(vp_payer_type v = PAYER_DINER) = (pq_payer_diner_session_id q \<noteq> None)"
    "vp_payer_type v = PAYER_OTHER \<Longrightarrow> vp_payer_reference v \<noteq> None" by simp_all
qed

lemma validate_tender_success:
  assumes "validate_tender ctx q key method amount = Inr tendered"
  shows "method = CASH \<Longrightarrow> \<exists>t. tendered = Some t \<and> amount \<le> t" "method \<noteq> CASH \<Longrightarrow> tendered = None"
  using assms
  by (auto simp: validate_tender_def bind_result_Inr_iff split: option.splits if_splits)

lemma validate_cash:
  assumes "validate_payment ctx q = Inr v"
  shows "0 < vp_amount v"
    "vp_method v = CASH \<Longrightarrow> \<exists>t. vp_cash_tendered v = Some t \<and> vp_amount v \<le> t"
    "vp_method v \<noteq> CASH \<Longrightarrow> vp_cash_tendered v = None"
    "vp_payer_type v = PAYER_DINER \<longleftrightarrow> pq_payer_diner_session_id q \<noteq> None"
    "vp_payer_type v = PAYER_OTHER \<Longrightarrow> vp_payer_reference v \<noteq> None"
  using validate_payment_success[OF assms] validate_amount_Inr validate_tender_success by blast+

text \<open>
  A validated request gives a payment row that satisfies every CHECK constraint of its table.
\<close>

theorem valid_payment_fits_constraints:
  assumes "validate_payment ctx q = Inr v" "1 \<le> chk_version c"
    and "executor = None \<longleftrightarrow> vp_method v = CASH"
  shows "restaurant_payment_ok (reserved_payment sha ctx c q v fingerprint executor d)"
proof -
  note valid = validate_cash[OF assms(1)]
  show ?thesis
  proof (cases "vp_method v = CASH")
    case True
    from valid(2)[OF True] obtain t where "vp_cash_tendered v = Some t" "vp_amount v \<le> t" by blast
    with True valid(1,4,5) assms(2,3) show ?thesis
      by (cases "vp_payer_type v")
        (auto simp: restaurant_payment_ok_def payer_ok_def claim_ok_def execution_evidence_ok_def reserved_payment_def
          PAYMENT_SCHEMA_VERSION_def)
  next
    case False
    with valid(1,4,5) valid(3)[OF False] assms(2,3) show ?thesis
      by (cases "vp_payer_type v")
        (auto simp: restaurant_payment_ok_def payer_ok_def claim_ok_def execution_evidence_ok_def reserved_payment_def
          PAYMENT_SCHEMA_VERSION_def)
  qed
qed

lemma cash_evidence_total:
  assumes "cash_evidence p = Inr vs" "pay_cash_change_due p = map_option (\<lambda>t. t - a) (pay_cash_tendered_amount p)"
    and "\<And>t. pay_cash_tendered_amount p = Some t \<Longrightarrow> a \<le> t"
  shows "sum_by snd vs = a"
proof -
  from assms(1) obtain t where t: "pay_cash_tendered_amount p = Some t"
    by (auto simp: cash_evidence_def split: option.splits)
  with assms(1,2) assms(3)[OF t] show ?thesis by (auto simp: cash_evidence_def split: if_splits)
qed

text \<open>
  C20: A new cash payment succeeds at once: exactly its amount is settled on the check, and the
  expected cash of the open session it names grows by exactly its amount, tender less change, while no
  other session changes.
\<close>

theorem cash_payment_fills_drawer:
  assumes "reachable sha s" and valid: "validate_payment ctx q = Inr v" "vp_method v = CASH"
    and c: "c \<in> set (restaurant_checks (fs_db s))" "chk_id c = pq_check_id q"
    and drawer: "cash_session_for_payment (fs_db s) c (vp_currency v) (pq_cash_session_id q) = Inr (Some x)"
    and run: "reserve_payment sha registry ctx now q v fingerprint (fs_db s) = Inr ((p, False), d')"
  shows "pay_state p = PAY_SUCCEEDED
    \<and> settled_amount d' (chk_id c) = settled_amount (fs_db s) (chk_id c) + vp_amount v
    \<and> expected_cash d' i = expected_cash (fs_db s) i + (if cs_id x = i then vp_amount v else 0)"
proof -
  let ?d = "fs_db s"
  note inv = reachable_financial[OF assms(1)]
  have keys: "distinct (map chk_id (restaurant_checks ?d))"
    using inv(1) by (simp add: check_inv_def check_keys_ok_def)
  from run show ?thesis
  proof (cases rule: reserve_success)
    case (new c')
    have same: "c' = c" using same_row_if_same_id[OF keys new(2) c(1)] new(3) c(2) by simp
    from new(6) show ?thesis
    proof (cases rule: reserve_on_check_success)
      case (1 members c1 d1)
      note auth = authorized_check[OF inv(1,4) new(2) 1(4)]
      from 1(6) valid(2) drawer same obtain pay where
        pay: "pay = reserved_payment sha ctx c1 q v fingerprint None d1" and p: "p = succeed_payment now pay"
        and receive: "receive_cash sha ctx now (Some x) pay c1
          (d1\<lparr>restaurant_payments := restaurant_payments d1 @ [pay]\<rparr>) = Inr d'" by auto
      let ?d2 = "d1\<lparr>restaurant_payments := restaurant_payments d1 @ [pay]\<rparr>"
      obtain vs where applies: "apply_success ctx now pay c1 (add_payment_movements sha ctx now x pay vs ?d2) = Inr d'"
        and evidence: "cash_evidence pay = Inr vs"
        using receive by (cases rule: receive_cash_success) auto
      let ?d3 = "add_payment_movements sha ctx now x pay vs ?d2"
      have none: "\<forall>t \<in> set (check_settlements ?d3). st_payment_id t \<noteq> pay_id pay"
      proof
        fix t assume "t \<in> set (check_settlements ?d3)"
        then have "t \<in> set (check_settlements d1)" using add_payment_movements_frame by simp
        with auth(1) obtain r where "r \<in> set (restaurant_payments d1)" "settles t r"
          unfolding payment_books_def settlements_match_def by blast
        then show "st_payment_id t \<noteq> pay_id pay"
          using next_id_fresh[of pay_id "restaurant_payments d1"] by (auto simp: pay settles_def image_iff)
      qed
      have "sum_by snd vs = vp_amount v"
      proof (rule cash_evidence_total[OF evidence])
        show "pay_cash_change_due pay = map_option (\<lambda>t. t - vp_amount v) (pay_cash_tendered_amount pay)"
          by (simp add: pay)
        show "vp_amount v \<le> t" if "pay_cash_tendered_amount pay = Some t" for t
          using validate_cash(2)[OF valid] that by (auto simp: pay)
      qed
      then have "expected_cash ?d3 i = expected_cash ?d i + (if cs_id x = i then vp_amount v else 0)"
        unfolding add_payment_movements_expected by (simp add: expected_cash_def auth(13))
      moreover have "expected_cash d' i = expected_cash ?d3 i"
        using apply_success_check_tables(4)[OF applies none] by (simp add: expected_cash_def)
      moreover have "check_settlements d' = check_settlements ?d3 @ [settlement_row ?d3 ctx now pay]"
        using applies none
        by (cases rule: apply_success_cases)
          (auto simp: applied_def finalize_full_check_def replace_check_def split: if_splits)
      then have "settled_amount d' (chk_id c) = settled_amount ?d (chk_id c) + vp_amount v"
        using add_payment_movements_frame[of sha ctx now x pay vs ?d2] auth(4,11) same
        by (simp add: settled_amount_def settlement_row_def pay)
      ultimately show ?thesis by (simp add: p)
    qed
  qed simp
qed

text \<open>
  C22: What a check offers to pay is exact in every reachable state: liability less settled less
  reserved, never cut off at zero; the uncertain part is within the reserved part and a SETTLED check
  offers nothing.
\<close>

theorem advertised_room_is_exact:
  assumes "reachable sha s"
    and shown: "get_check_settlement (fs_db s) tenant i owner location = Inr view"
  shows "csp_available_to_initiate view
       = csp_liability_total view - csp_confirmed_settlement view - csp_reserved_financial_exposure view
    \<and> 0 \<le> csp_uncertain_exposure view \<and> csp_uncertain_exposure view \<le> csp_reserved_financial_exposure view
    \<and> (csp_check_status view = CHK_SETTLED \<longrightarrow> csp_available_to_initiate view = 0)"
proof -
  note inv = reachable_financial[OF assms(1)]
  obtain c where c: "c \<in> set (restaurant_checks (fs_db s))" and
    view: "csp_available_to_initiate view = max 0 (chk_liability_total c - settled_amount (fs_db s) (chk_id c)
        - payment_amount (fs_db s) RESERVING_STATES (chk_id c))"
      "csp_liability_total view = chk_liability_total c" "csp_check_status view = chk_status c"
      "csp_confirmed_settlement view = settled_amount (fs_db s) (chk_id c)"
      "csp_reserved_financial_exposure view = payment_amount (fs_db s) RESERVING_STATES (chk_id c)"
      "csp_uncertain_exposure view = payment_amount (fs_db s) {PAY_UNCERTAIN} (chk_id c)"
    using shown by (auto simp: get_check_settlement_def totals_def dest: find_SomeD split: option.splits if_splits)
  note funded = books_check[OF inv(4) c]
  have "payment_amount (fs_db s) {PAY_UNCERTAIN} (chk_id c) \<le> payment_amount (fs_db s) RESERVING_STATES (chk_id c)"
    unfolding payment_amount_part
  proof (rule sum_by_mono)
    fix p assume "p \<in> set (restaurant_payments (fs_db s))"
    then have "0 < pay_amount p" by (rule payment_amounts_positive(1)[OF inv(5)])
    then show "part {PAY_UNCERTAIN} (chk_id c) p \<le> part RESERVING_STATES (chk_id c) p"
      by (simp add: part_def RESERVING_STATES_def)
  qed
  with funded amounts_nonneg[OF inv(5)] show ?thesis by (simp add: view exposure_def)
qed

text \<open>
  A payment that a reservation returned is read back by its id and found under its key.
\<close>

theorem reserved_payment_reads_back:
  assumes "reachable sha s"
    and run: "reserve_payment sha registry ctx now q v fingerprint (fs_db s) = Inr ((p, b), d')"
  shows "get_payment d' (tenant_id ctx) (pay_id p) = Inr (payment_view d' p)
    \<and> payment_by_key d' ctx (pq_idempotency_key q) = Some p"
proof -
  have fin: "financial_inv (fs_db s)" using reachable_inv[OF assms(1)] by (simp add: system_inv_def)
  have "payment_books d'" using reserve_keeps[OF fin run] by (simp add: financial_inv_def payment_inv_def)
  then have keys: "distinct (map pay_id (restaurant_payments d'))"
    by (simp add: payment_books_def payment_keys_ok_def)
  note rows = reserve_tables[OF fin run]
  have "pay_tenant_id p = tenant_id ctx \<and> payment_by_key d' ctx (pq_idempotency_key q) = Some p"
    using run
  proof (cases rule: reserve_success)
    case replay
    then show ?thesis by (auto simp: payment_by_key_def dest: find_SomeD)
  next
    case (new c)
    have "pay_tenant_id p = tenant_id ctx \<and> pay_actor_scope p = actor_scope ctx
        \<and> pay_idempotency_key p = pq_idempotency_key q"
      using new(6)
    proof (cases rule: reserve_on_check_success)
      case (1 members c1 d1)
      from authorized_check(5)[OF _ _ new(2) 1(4)] fin new(4) have "chk_tenant_id c1 = tenant_id ctx"
        by (simp add: financial_inv_def payment_inv_def)
      with 1(6) show ?thesis by (auto simp: succeed_payment_def)
    qed
    with new(5) rows(3) new(1) show ?thesis by (simp add: payment_by_key_def find_append)
  qed
  with find_tenant_payment[OF keys rows(4)] show ?thesis by (simp add: get_payment_def)
qed

text \<open>
  A result other than a success is recorded when its reference is not that of another payment of
  the configuration: the payment takes the state and nothing is settled. With a reference that is
  taken the transaction fails, and the payment stays in progress.
\<close>

theorem other_results_recorded:
  assumes "reachable sha s" and p: "p \<in> set (restaurant_payments (fs_db s))" "pay_tenant_id p = tenant_id ctx"
    "pay_claim_token p = Some token"
    and state: "state \<in> {PAY_FAILED, PAY_REJECTED, PAY_UNCERTAIN}"
  shows "if own_reference (fs_db s) p (pr_external_reference r)
    then \<exists>d'. finish_payment sha ctx now (pay_id p) token r state (fs_db s) = Inr (finish_row state now r p, d')
      \<and> find_row pay_id (pay_id p) (restaurant_payments d') = Some (finish_row state now r p)
      \<and> check_settlements d' = check_settlements (fs_db s)
    else finish_payment sha ctx now (pay_id p) token r state (fs_db s) = Inl PaymentIntegrityError"
proof -
  have fin: "financial_inv (fs_db s)" using reachable_inv[OF assms(1)] by (simp add: system_inv_def)
  have keys: "distinct (map pay_id (restaurant_payments (fs_db s)))"
    using reachable_financial(4)[OF assms(1)] by (simp add: payment_books_def payment_keys_ok_def)
  have "\<not> reference_conflict (fs_db s) p state r" using state by (auto simp: reference_conflict_def)
  with finish_ends[OF fin p refl refl, of state r sha now] state
    find_row_modify_const[OF keys p(1), of "finish_row state now r p"]
  show ?thesis by (auto simp: Let_def recorded_def)
qed

end
