(* ===== verification/RestaurantRun.thy ===== *)
theory RestaurantRun
  imports CashWitnesses PaymentProofs
begin

text \<open>
  A concrete evening, evaluated in the kernel: two diners of one table eat, the staff opens a check for
  both, a part is paid in cash and the rest by card, the check is settled and the table closes. Beside
  it the commands that could have come instead: a member removed, the check frozen or cancelled, a
  gratuity. The run starts from the cash session of \<^verbatim>\<open>CashWitnesses\<close>.
\<close>

section \<open>Opening the check\<close>

definition shop_diner :: "int \<Rightarrow> diner_session" where
  "shop_diner i = \<lparr>ds_id = i, ds_tenant_id = 1, ds_organization_id = 1, ds_location_id = 1,
     ds_resource_id = 41, ds_service_session_id = 31, ds_conversation_id = i + 40,
     ds_display_name = ''Ana'', ds_status = ''ACTIVE'', ds_active_slot = Some 1\<rparr>"

definition shop_order :: "int \<Rightarrow> int \<Rightarrow> rat \<Rightarrow> restaurant_order" where
  "shop_order i diner price = \<lparr>ro_id = i, ro_tenant_id = 1, ro_organization_id = 1, ro_location_id = 1,
     ro_resource_id = 41, ro_service_session_id = 31, ro_diner_session_id = diner,
     ro_conversation_id = diner + 40, ro_status = ''ACCEPTED'', ro_commercial_fingerprint = ''f'',
     ro_currency = ''MXN'', ro_payable_total = price, ro_accepted_at = 90\<rparr>"

definition shop_db0 :: db where
  "shop_db0 = demo_db2\<lparr>
     service_sessions := [\<lparr>ss_id = 31, ss_tenant_id = 1, ss_organization_id = 1, ss_location_id = 1,
       ss_resource_id = 41, ss_status = ''OPEN'', ss_open_slot = Some 1\<rparr>],
     diner_sessions := [shop_diner 11, shop_diner 12],
     conversations := [\<lparr>cv_id = 51, cv_tenant_id = 1, cv_status = ''ACTIVE''\<rparr>,
       \<lparr>cv_id = 52, cv_tenant_id = 1, cv_status = ''ACTIVE''\<rparr>],
     restaurant_orders := [shop_order 21 11 100, shop_order 22 12 50],
     executor_configurations := [\<lparr>ec_id = 61, ec_tenant_id = 1, ec_organization_id = 1,
       ec_location_id = 1, ec_executor_key = ''terminal'', ec_adapter_kind = ''T'', ec_topology = ''ONLINE'',
       ec_status = ''ACTIVE'', ec_credential_binding = None, ec_selection_priority = 1\<rparr>],
     executor_capabilities := [\<lparr>ep_id = 71, ep_executor_configuration_id = 61, ep_tenant_id = 1,
       ep_organization_id = 1, ep_location_id = 1, ep_method_category = CARD, ep_currency = ''MXN''\<rparr>]\<rparr>"

definition shop_new_check :: restaurant_check where
  "shop_new_check = \<lparr>
     chk_id = 1, chk_tenant_id = 1, chk_organization_id = 1, chk_location_id = 1, chk_currency = ''MXN'',
     chk_status = CHK_OPEN, chk_version = 1, chk_current_fingerprint = replicate 64 (CHR ''0''),
     chk_fingerprint_schema_version = 1, chk_consumption_total = 150, chk_gratuity_total = 0,
     chk_liability_total = 150, chk_controller = Actor EMPLOYEE (Some 7) None,
     chk_controller_diner_session_id = None, chk_created_by = Actor EMPLOYEE (Some 7) None,
     chk_created_at = 100, chk_frozen_at = None, chk_frozen_by = None, chk_settled_at = None,
     chk_settled_by = None, chk_continuation_decision = CONT_NONE,
     chk_continuation_decided_at = None, chk_continuation_by = None, chk_cancelled_at = None,
     chk_cancelled_by = None, chk_cancellation_reason = None\<rparr>"

definition shop_members :: "check_member list" where
  "shop_members = [member_row demo_staff 100 shop_new_check (\<lambda>_. REL_INCLUDED) 1 (shop_diner 11),
     member_row demo_staff 100 shop_new_check (\<lambda>_. REL_INCLUDED) 2 (shop_diner 12)]"

definition shop_scopes :: "check_table_scope list" where
  "shop_scopes = [scope_row demo_staff 100 shop_new_check 1 (hd (service_sessions shop_db0))]"

definition shop_allocations :: "check_allocation list" where
  "shop_allocations = [allocation_row demo_staff 100 shop_new_check 1 (shop_order 21 11 100),
     allocation_row demo_staff 100 shop_new_check 2 (shop_order 22 12 50)]"

definition shop_fp1 :: string where "shop_fp1 = ''MXN150.0000150.0000''"

definition shop_check1 :: restaurant_check where
  "shop_check1 = shop_new_check\<lparr>chk_current_fingerprint := shop_fp1\<rparr>"

definition shop_db1 :: db where
  "shop_db1 = shop_db0\<lparr>
     restaurant_checks := [shop_check1], check_members := shop_members, check_table_scopes := shop_scopes,
     check_allocations := shop_allocations,
     check_versions := [version_row demo_staff 100 shop_new_check shop_members shop_allocations None 0 shop_fp1 1],
     check_commands := [\<lparr>cc_id = 1, cc_tenant_id = 1, cc_check_id = 1, cc_actor_scope = ''EMPLOYEE:7'',
       cc_idempotency_key = ''n1'', cc_operation = ''CREATE'', cc_request_fingerprint = [],
       cc_result_version = 1\<rparr>]\<rparr>"

lemmas shop_defs = demo_base_def demo_db1_def demo_db2_def demo_session_def demo_float_def demo_staff_def
  empty_db_def shop_diner_def shop_order_def shop_db0_def shop_new_check_def shop_members_def shop_scopes_def
  shop_allocations_def shop_fp1_def shop_check1_def shop_db1_def

lemmas check_ops = check_command_frame_def command_replay_def record_command_def get_check_def
  create_check_def create_check_run_def create_check_request_def lock_diners_def eligible_orders_def
  order_allocated_def chosen_diners_def validate_drafts_def active_membership_conflict_def table_conflict_def
  every_member_orders_def open_new_check_def created_check_def include_diners_def lock_tables_def
  claim_orders_def write_version_def members_of_check_def set_fingerprint_def
  insert_rows_def order_by_def sorted_set_def next_id_def modify_def sum_by_def
  member_row_def scope_row_def allocation_row_def actor_values_def FINGERPRINT_SCHEMA_VERSION_def
  check_constraints_def table_ok_def restaurant_check_ok_def check_member_ok_def check_members_collide_def
  check_table_scope_ok_def check_table_scopes_collide_def check_allocation_ok_def check_allocations_collide_def
  check_version_ok_def check_versions_collide_def check_command_ok_def check_commands_collide_def
  same_slot_def

lemma shop_money: "money_str 150 = ''150.0000''" by (simp add: money_str_eval)

lemma demo_digests:
  "demo_sha (JObj fs) = concat (map (\<lambda>f. case snd f of JStr s \<Rightarrow> s | _ \<Rightarrow> []) fs)"
  "demo_sha (snapshot_payload c ms as g x b a)
     = chk_currency c @ money_str (chk_consumption_total c) @ money_str (chk_liability_total c)"
  by (simp_all add: demo_sha_def snapshot_payload_def controller_snapshot_def member_ids_snapshot_def
      allocations_snapshot_def gratuity_snapshot_def split: actor.split)

lemma version_row_selectors [simp]:
  "cv_row_id (version_row ctx now c ms as g x f i) = i"
  "cv_check_id (version_row ctx now c ms as g x f i) = chk_id c"
  "cv_version (version_row ctx now c ms as g x f i) = chk_version c"
  "cv_schema_version (version_row ctx now c ms as g x f i) = FINGERPRINT_SCHEMA_VERSION"
  "cv_consumption_total (version_row ctx now c ms as g x f i) = chk_consumption_total c"
  "cv_gratuity_amount (version_row ctx now c ms as g x f i) = chk_gratuity_total c"
  "cv_liability_total (version_row ctx now c ms as g x f i) = chk_liability_total c"
  "cv_fingerprint (version_row ctx now c ms as g x f i) = f"
  by (simp_all add: version_row_def)

lemma shop_create: "create_check demo_sha demo_staff 100 [11, 12] None ''n1'' False False [31] shop_db0
    = Inr ((check_view shop_db1 shop_check1 None, False), shop_db1)"
  by (simp add: demo_scope[unfolded demo_defs] check_ops shop_defs Let_def demo_digests shop_money)

section \<open>Changing, freezing and cancelling it\<close>

definition shop_staff_row :: actor where "shop_staff_row = Actor EMPLOYEE (Some 7) None"

definition shop_log :: "string list \<Rightarrow> (string \<times> string \<times> int) list \<Rightarrow> check_command list" where
  "shop_log keys rows = map (\<lambda>(i, operation, fp, v). \<lparr>cc_id = i, cc_tenant_id = 1, cc_check_id = 1,
     cc_actor_scope = ''EMPLOYEE:7'', cc_idempotency_key = keys ! nat (i - 1), cc_operation = operation,
     cc_request_fingerprint = fp, cc_result_version = v\<rparr>) (zip [1, 2, 3] rows)"

definition shop_check2 :: restaurant_check where
  "shop_check2 = shop_check1\<lparr>chk_version := 2, chk_consumption_total := 100, chk_liability_total := 100\<rparr>"

definition shop_members2 :: "check_member list" where
  "shop_members2 = [shop_members ! 0, release_member shop_staff_row 110 ''left'' 2 (shop_members ! 1)]"

definition shop_allocations2 :: "check_allocation list" where
  "shop_allocations2 = [shop_allocations ! 0, release_allocation shop_staff_row 110 ''left'' 2 (shop_allocations ! 1)]"

definition shop_fp2 :: string where "shop_fp2 = ''MXN100.0000100.0000''"

definition shop_db2 :: db where
  "shop_db2 = shop_db1\<lparr>
     restaurant_checks := [shop_check2\<lparr>chk_current_fingerprint := shop_fp2\<rparr>], check_members := shop_members2,
     check_allocations := shop_allocations2,
     check_versions := check_versions shop_db1
       @ [version_row demo_staff 110 shop_check2 shop_members2 shop_allocations2 None 0 shop_fp2 2],
     check_commands := shop_log [''n1'', ''n2''] [(''CREATE'', [], 1), (''REMOVE_MEMBER'', ''left'', 2)]\<rparr>"

definition shop_check3 :: restaurant_check where
  "shop_check3 = shop_check2\<lparr>chk_version := 3, chk_consumption_total := 0, chk_liability_total := 0,
     chk_current_fingerprint := shop_fp2\<rparr>"

definition shop_members3 :: "check_member list" where
  "shop_members3 = [release_member shop_staff_row 120 ''left'' 3 (shop_members ! 0), shop_members2 ! 1]"

definition shop_allocations3 :: "check_allocation list" where
  "shop_allocations3 = [release_allocation shop_staff_row 120 ''left'' 3 (shop_allocations ! 0), shop_allocations2 ! 1]"

definition shop_fp3 :: string where "shop_fp3 = ''MXN0.00000.0000''"

definition shop_db3 :: db where
  "shop_db3 = shop_db2\<lparr>
     restaurant_checks := [shop_check3\<lparr>chk_current_fingerprint := shop_fp3\<rparr>], check_members := shop_members3,
     check_allocations := shop_allocations3,
     check_versions := check_versions shop_db2
       @ [version_row demo_staff 120 shop_check3 shop_members3 shop_allocations3 None 0 shop_fp3 3],
     check_commands := shop_log [''n1'', ''n2'', ''n3'']
       [(''CREATE'', [], 1), (''REMOVE_MEMBER'', ''left'', 2), (''REMOVE_MEMBER'', ''left'', 3)]\<rparr>"

definition shop_frozen :: restaurant_check where
  "shop_frozen = frozen_check demo_staff 130 shop_check1"

definition shop_dbf :: db where
  "shop_dbf = shop_db1\<lparr>restaurant_checks := [shop_frozen],
     check_commands := shop_log [''n1'', ''n2''] [(''CREATE'', [], 1), (''FREEZE'', [], 1)]\<rparr>"

lemmas shop_defs2 = shop_defs shop_staff_row_def shop_log_def shop_check2_def shop_members2_def
  shop_allocations2_def shop_fp2_def shop_db2_def shop_check3_def shop_members3_def shop_allocations3_def
  shop_fp3_def shop_db3_def shop_frozen_def shop_dbf_def

lemmas check_ops2 = check_ops remove_member_def remove_member_run_def locked_check_def authorize_controller_def
  owned_by_diner_def set_totals_def release_members_def release_allocations_def release_scopes_def
  release_member_def release_allocation_def release_scope_def modify_where_def replace_check_def
  freeze_check_def freeze_check_run_def active_members_def verify_complete_def frozen_check_def
  owned_allocations_def owned_elsewhere_def cancel_check_def cancel_check_run_def cancelled_check_def
  update_gratuity_def update_gratuity_run_def gratuity_row_def check_gratuity_ok_def check_gratuities_collide_def

lemma shop_money2: "money_str 100 = ''100.0000''" "money_str 165 = ''165.0000''" "money_str 10 = ''10.0000''"
  by (simp_all add: money_str_eval)

lemma shop_money0: "money_str 0 = ''0.0000''" by code_simp

lemmas shop_money_all = shop_money shop_money2 shop_money0

lemma shop_remove: "remove_member demo_sha demo_staff 110 1 12 1 ''n2'' ''left'' shop_db1
    = Inr ((check_view shop_db2 (shop_check2\<lparr>chk_current_fingerprint := shop_fp2\<rparr>) None, False), shop_db2)"
  by (simp add: demo_scope[unfolded demo_defs] check_ops2 shop_defs2 Let_def demo_digests shop_money_all)

lemma shop_remove_last: "remove_member demo_sha demo_staff 120 1 11 2 ''n3'' ''left'' shop_db2
    = Inr ((check_view shop_db3 (shop_check3\<lparr>chk_current_fingerprint := shop_fp3\<rparr>) None, False), shop_db3)"
  by (simp add: demo_scope[unfolded demo_defs] check_ops2 shop_defs2 Let_def demo_digests shop_money_all)

lemma shop_freeze: "freeze_check demo_sha demo_staff 130 1 1 ''n2'' shop_db1
    = Inr ((check_view shop_dbf shop_frozen None, False), shop_dbf)"
  by (simp add: demo_scope[unfolded demo_defs] check_ops2 shop_defs2 Let_def demo_digests shop_money_all)

lemma shop_cancel: "\<exists>v d. cancel_check demo_sha demo_staff 130 1 1 ''n2'' ''mistake'' shop_db1 = Inr ((v, False), d)"
  by (simp add: demo_scope[unfolded demo_defs] check_ops2 shop_defs2 Let_def demo_digests shop_money_all)

lemma shop_ten: "quantize4 10 = Some 10" "gratuity_amount PERCENTAGE 150 10 = Some 15"
    "parse_gratuity_type ''PERCENTAGE'' = Some PERCENTAGE"
  by (simp_all add: gratuity_amount_def quantize_def round_half_down_def parse_gratuity_type_def)

lemma shop_ten_stored: "numeric4 10 = 10"
  unfolding numeric4_def by (simp add: floor_unique)

lemma shop_gratuity: "\<exists>v d. update_gratuity demo_sha demo_staff 130 1 1 ''PERCENTAGE'' (PyDecimal 10) ''n2'' shop_db1
    = Inr ((v, False), d)"
  by (simp add: demo_scope[unfolded demo_defs] check_ops2 shop_defs2 Let_def demo_digests shop_money_all shop_ten shop_ten_stored)

section \<open>Paying\<close>

definition shop_registry :: executor_registry where
  "shop_registry = [(''T'', \<lparr>ex_executes = True, ex_recovers = True\<rparr>)]"

definition shop_cash_request :: payment_request where
  "shop_cash_request = \<lparr>pq_check_id = 1, pq_location_id = None, pq_expected_check_version = 1,
     pq_expected_check_fingerprint = shop_fp1, pq_amount = PyDecimal 60, pq_currency = ''MXN'',
     pq_method_category = ''CASH'', pq_payer_type = ''OTHER'', pq_payer_diner_session_id = None,
     pq_payer_reference = Some ''x'', pq_cash_tendered_amount = Some (PyDecimal 100),
     pq_cash_session_id = Some 1, pq_executor_key = None, pq_idempotency_key = ''p1'',
     pq_selection_mode = None, pq_has_customer_source = False, pq_customer_identity = None\<rparr>"

definition shop_cash_valid :: valid_payment where
  "shop_cash_valid = \<lparr>vp_amount = 60, vp_currency = ''MXN'', vp_method = CASH, vp_payer_type = PAYER_OTHER,
     vp_payer_reference = Some ''x'', vp_executor_key = None, vp_cash_tendered = Some 100\<rparr>"

definition shop_cash_fp :: string where
  "shop_cash_fp = payment_request_fingerprint demo_sha shop_cash_request shop_cash_valid"

definition shop_frozen1 :: restaurant_check where
  "shop_frozen1 = frozen_check demo_staff 140 shop_check1"

definition shop_cash :: restaurant_payment where
  "shop_cash = reserved_payment demo_sha demo_staff shop_frozen1 shop_cash_request shop_cash_valid shop_cash_fp None
     shop_db1"

definition shop_tender :: "int \<Rightarrow> movement_type \<Rightarrow> rat \<Rightarrow> cash_movement" where
  "shop_tender i mt a = (payment_movement demo_sha demo_staff 140 demo_session shop_cash shop_db1 (mt, a))\<lparr>mv_id := i\<rparr>"

definition shop_p1 :: db where
  "shop_p1 = shop_db1\<lparr>restaurant_checks := [shop_frozen1],
     restaurant_payments := [succeed_payment 140 shop_cash],
     check_settlements := [settlement_row shop_db1 demo_staff 140 shop_cash],
     cash_sessions := [demo_session\<lparr>cs_movement_version := 3\<rparr>],
     cash_movements := [demo_float, shop_tender 2 CUSTOMER_TENDER 100, shop_tender 3 CUSTOMER_CHANGE (-40)]\<rparr>"

definition shop_card_request :: payment_request where
  "shop_card_request = shop_cash_request\<lparr>pq_amount := PyDecimal 90, pq_method_category := ''CARD'',
     pq_cash_tendered_amount := None, pq_cash_session_id := None, pq_idempotency_key := ''p2'',
     pq_selection_mode := Some ''AUTO'', pq_customer_identity := Some JNull\<rparr>"

definition shop_card_valid :: valid_payment where
  "shop_card_valid = shop_cash_valid\<lparr>vp_amount := 90, vp_method := CARD, vp_cash_tendered := None\<rparr>"

definition shop_card_fp :: string where
  "shop_card_fp = payment_request_fingerprint demo_sha shop_card_request shop_card_valid"

definition shop_card :: restaurant_payment where
  "shop_card = reserved_payment demo_sha demo_staff shop_frozen1 shop_card_request shop_card_valid shop_card_fp
     (Some (hd (executor_configurations shop_db0))) shop_p1"

definition shop_p2 :: db where
  "shop_p2 = shop_p1\<lparr>restaurant_payments := [succeed_payment 140 shop_cash, shop_card]\<rparr>"

definition shop_claimed :: restaurant_payment where
  "shop_claimed = claim_row ''tok'' 150 shop_card shop_card"

definition shop_p3 :: db where
  "shop_p3 = shop_p2\<lparr>restaurant_payments := [succeed_payment 140 shop_cash, shop_claimed],
     payment_attempts := [started_attempt shop_p2 demo_staff 150 ''tok'' ATT_EXECUTE shop_claimed]\<rparr>"

lemmas shop_defs3 = shop_defs2 shop_cash_request_def shop_cash_valid_def shop_cash_fp_def shop_frozen1_def
  shop_cash_def shop_tender_def shop_p1_def shop_card_request_def shop_card_valid_def shop_card_fp_def
  shop_card_def shop_p2_def shop_claimed_def shop_p3_def shop_registry_def

lemmas pay_ops = payment_request_fingerprint_def reserved_payment_def payment_movement_def settlement_row_def
  succeed_payment_def reserve_payment_def payment_by_key_def reserve_on_check_def cash_session_for_payment_def
  authorize_and_freeze_def totals_def settled_amount_def payment_amount_def select_executor_def receive_cash_def
  record_cash_payment_movements_def cash_evidence_def apply_success_def add_cash_movement_def bump_movement_version_def
  provider_key_def PAYMENT_SCHEMA_VERSION_def RESERVING_STATES_def financial_constraints_def payment_constraints_def
  restaurant_payment_ok_def payer_ok_def claim_ok_def execution_evidence_ok_def restaurant_payments_collide_def
  payment_attempt_ok_def payment_attempts_collide_def check_settlement_ok_def check_settlements_collide_def
  same_text_def payment_reference_def resolve_def resolve_auto_configuration_def available_configurations_def
  config_in_scope_def capability_of_def resolved_def registry_resolve_def registry_key_def check_scope_def
  claim_payment_def claim_row_def write_column_def started_attempt_def CLAIM_LEASE_def cash_movement_ok_def cash_movements_collide_def

lemma shop_values: "validate_payment demo_staff shop_cash_request = Inr shop_cash_valid"
    "validate_payment demo_staff shop_card_request = Inr shop_card_valid"
  by code_simp+

lemma shop_digits: "str_int 1 = ''1''" "str_int 2 = ''2''" "upper (strip ''MXN'') = ''MXN''" "strip ''T'' = ''T''"
  by code_simp+

lemma shop_money3: "money_str 60 = ''60.0000''" "money_str 90 = ''90.0000''" "money_str 40 = ''40.0000''"
  by (simp_all add: money_str_eval)

lemma shop_texts: "sql_not_blank ''Customer cash change''" "sql_not_blank ''Customer cash tender''"
    "currency_code ''MXN''" "cash_actor_ok (Actor EMPLOYEE (Some 7) None)"
  by code_simp+

lemma demo_array: "demo_sha (JArr xs) = []"
  by (simp add: demo_sha_def)

lemmas shop_facts = demo_scope[unfolded demo_defs] demo_digests demo_array shop_money_all shop_money3 shop_digits shop_texts

lemma shop_pay_cash: "reserve_payment demo_sha shop_registry demo_staff 140 shop_cash_request shop_cash_valid shop_cash_fp shop_db1
    = Inr ((succeed_payment 140 shop_cash, False), shop_p1)"
  by (simp add: shop_facts check_ops2 pay_ops shop_defs3 Let_def)

lemma shop_pay_card: "reserve_payment demo_sha shop_registry demo_staff 145 shop_card_request shop_card_valid shop_card_fp shop_p1
    = Inr ((shop_card, False), shop_p2)"
  by (simp add: shop_facts check_ops2 pay_ops shop_defs3 Let_def)

lemma shop_claim: "claim_payment demo_staff 150 ''tok'' (Some shop_card) 2 ATT_EXECUTE {PAY_RESERVED} False shop_p2
    = Inr ((shop_claimed, ''tok''), shop_p3)"
  by (simp add: shop_facts check_ops2 pay_ops shop_defs3 Let_def)

section \<open>The success of the card payment\<close>

definition shop_result :: "execution_outcome payment_result" where
  "shop_result = \<lparr>pr_outcome = EXEC_SUCCEEDED, pr_external_reference = Some ''r1'', pr_external_status = None,
     pr_instrument_brand = None, pr_instrument_last_four = None, pr_instrument_display = None,
     pr_error_code = None, pr_error_message = None\<rparr>"

definition shop_card_done :: restaurant_payment where
  "shop_card_done = finish_row PAY_SUCCEEDED 160 shop_result shop_claimed"

definition shop_settled :: restaurant_check where
  "shop_settled = settled_check demo_staff 160 shop_frozen1"

definition shop_p4 :: db where
  "shop_p4 = shop_p3\<lparr>restaurant_checks := [shop_settled],
     check_allocations := map (settle_allocation ''PAYMENT:2'' 160) shop_allocations,
     check_table_scopes := map continue_scope shop_scopes,
     restaurant_payments := [succeed_payment 140 shop_cash, succeed_payment 160 shop_card_done],
     check_settlements := check_settlements shop_p1 @ [settlement_row shop_p1 demo_staff 160 shop_card_done],
     payment_attempts := map (complete_attempt demo_sha PAY_SUCCEEDED 160 (Some ''r1'') shop_result)
       (payment_attempts shop_p3)\<rparr>"

definition shop_decided :: restaurant_check where
  "shop_decided = decided_check demo_staff 170 CONT_NO shop_settled"

definition shop_p5 :: db where
  "shop_p5 = shop_p4\<lparr>restaurant_checks := [shop_decided],
     check_commands := shop_log [''n1'', ''n2''] [(''CREATE'', [], 1), (''CONTINUATION_DECISION'', ''NO'', 1)]\<rparr>"

lemmas shop_defs4 = shop_defs3 shop_result_def shop_card_done_def shop_settled_def shop_p4_def shop_decided_def
  shop_p5_def

lemmas pay_ops2 = pay_ops finish_payment_def reference_conflict_def finish_row_def copy_evidence_def
  complete_attempt_def settled_check_def settle_allocation_def continue_scope_def finalize_full_check_def
  find_row_def decide_continuation_def decide_continuation_run_def decided_check_def parse_decision_def

lemma shop_no: "upper (strip ''NO'') = ''NO''" by code_simp

lemma shop_row_facts:
  "pay_id shop_card_done = 2" "pay_id shop_claimed = 2" "pay_id shop_cash = 1" "pay_id shop_card = 2"
  "pay_check_id shop_card_done = 1" "pay_check_id shop_claimed = 1" "pay_check_id shop_cash = 1"
  "pay_check_id shop_card = 1"
  "pay_amount shop_card_done = 90" "pay_amount shop_claimed = 90" "pay_amount shop_cash = 60" "pay_amount shop_card = 90"
  "pay_tenant_id shop_claimed = 1" "pay_tenant_id shop_cash = 1" "pay_tenant_id shop_card_done = 1"
  "pay_claim_token shop_claimed = Some ''tok''" "pay_state shop_claimed = PAY_IN_PROGRESS"
  "pay_state shop_card = PAY_RESERVED"
  "pay_executor_configuration_id shop_claimed = Some 61" "pay_executor_configuration_id shop_cash = None"
  "pay_external_reference shop_cash = None"
  "chk_id shop_frozen1 = 1" "chk_liability_total shop_frozen1 = 150" "chk_tenant_id shop_frozen1 = 1"
  "chk_id shop_settled = 1" "chk_tenant_id shop_settled = 1" "chk_id shop_decided = 1"
  "chk_status shop_frozen1 = CHK_FROZEN"
  by (simp_all add: shop_facts check_ops2 pay_ops2 shop_defs4)

lemmas shop_tables = shop_p4_def shop_p3_def shop_p2_def shop_p1_def shop_db1_def shop_db0_def demo_db2_def demo_db1_def
  demo_base_def empty_db_def

lemma shop_owned: "filter (\<lambda>a. al_check_id a = 1 \<and> al_ownership_slot a = Some 1) shop_allocations = shop_allocations"
    "order_by al_id shop_allocations = shop_allocations" "\<not> list_ex (\<lambda>a. al_state a \<noteq> AL_CLAIMED) shop_allocations"
    "modify_where (\<lambda>a. al_check_id a = 1 \<and> al_ownership_slot a = Some 1) f shop_allocations = map f shop_allocations"
    "modify_where (\<lambda>t. ts_check_id t = 1 \<and> ts_active_slot t = Some 1) g shop_scopes = map g shop_scopes"
  by (simp_all add: shop_allocations_def shop_scopes_def modify_where_def allocation_row_def shop_new_check_def order_by_def
     scope_row_def)

lemma shop_applied: "apply_success demo_staff 160 shop_card_done shop_frozen1
      (recorded PAY_SUCCEEDED 160 shop_result shop_claimed shop_p3)
    = Inr (shop_p4\<lparr>payment_attempts := payment_attempts shop_p3\<rparr>)"
  by (simp add: recorded_def shop_tables shop_row_facts apply_success_def settled_amount_def payment_amount_def
     RESERVING_STATES_def finalize_full_check_def owned_allocations_def shop_owned replace_check_def modify_def
     sum_by_def payment_reference_def shop_digits settlement_row_def next_id_def shop_settled_def[symmetric] shop_card_done_def[symmetric])

lemma shop_attempt_facts: "att_id (started_attempt shop_p2 demo_staff 150 ''tok'' ATT_EXECUTE shop_claimed) = 1"
  by (simp add: started_attempt_def shop_tables next_id_def)

lemma shop_p4_ok: "financial_constraints shop_p4"
  by (simp add: shop_facts check_ops2 pay_ops2 shop_defs4)

lemma shop_finish: "finish_payment demo_sha demo_staff 160 2 ''tok'' shop_result PAY_SUCCEEDED shop_p3
    = Inr (succeed_payment 160 shop_card_done, shop_p4)"
proof -
  have quiet: "\<not> reference_conflict shop_p3 shop_claimed PAY_SUCCEEDED shop_result"
    by (simp add: reference_conflict_def shop_tables shop_row_facts succeed_payment_def)
  have after: "attempts_after demo_sha PAY_SUCCEEDED 160 (Some ''r1'') shop_result
      (started_attempt shop_p2 demo_staff 150 ''tok'' ATT_EXECUTE shop_claimed) shop_p3 = payment_attempts shop_p4"
    by (simp add: attempts_after_def shop_p4_def shop_p3_def modify_def)
  have row: "List.find (\<lambda>p. pay_id p = 2 \<and> pay_tenant_id p = tenant_id demo_staff) (restaurant_payments shop_p3)
      = Some shop_claimed"
    by (simp add: shop_tables shop_row_facts demo_staff_def succeed_payment_def)
  have attempt: "List.find (\<lambda>a. att_payment_id a = pay_id shop_claimed \<and> att_claim_token a = ''tok'')
      (payment_attempts shop_p3) = Some (started_attempt shop_p2 demo_staff 150 ''tok'' ATT_EXECUTE shop_claimed)"
    by (simp add: shop_p3_def)
  have check: "List.find (\<lambda>c. chk_id c = pay_check_id shop_claimed \<and> chk_tenant_id c = tenant_id demo_staff)
      (restaurant_checks shop_p3) = Some shop_frozen1"
    by (simp add: shop_tables shop_row_facts demo_staff_def)
  have shown: "find_row pay_id (pay_id shop_claimed) (restaurant_payments shop_p4)
      = Some (succeed_payment 160 shop_card_done)"
    by (simp add: shop_tables shop_row_facts find_row_def succeed_payment_def)
  have same: "shop_p4\<lparr>payment_attempts := payment_attempts shop_p4\<rparr> = shop_p4" by simp
  let ?a = "started_attempt shop_p2 demo_staff 150 ''tok'' ATT_EXECUTE shop_claimed"
  let ?applied = "shop_p4\<lparr>payment_attempts := payment_attempts shop_p3\<rparr>"
  have ready: "?applied\<lparr>payment_attempts := attempts_after demo_sha PAY_SUCCEEDED 160 (pr_external_reference shop_result)
      shop_result ?a ?applied\<rparr> = shop_p4"
    by (simp add: attempts_after_def) (simp add: shop_p4_def shop_p3_def modify_def shop_result_def)
  have fresh: "att_result ?a = RES_IN_PROGRESS" by simp
  have "finish_payment demo_sha demo_staff 160 2 ''tok'' shop_result PAY_SUCCEEDED shop_p3
      = Inr (case find_row pay_id (pay_id shop_claimed) (restaurant_payments shop_p4) of
          None \<Rightarrow> finish_row PAY_SUCCEEDED 160 shop_result shop_claimed | Some p \<Rightarrow> p, shop_p4)"
    unfolding finish_run[OF row shop_row_facts(16) attempt fresh refl refl] if_not_P[OF quiet] if_P[OF refl] check
      option.case shop_card_done_def[symmetric] shop_applied bind_result.simps Let_def ready
    using shop_p4_ok by (simp only: not_True_eq_False if_False)
  then show ?thesis unfolding shown by simp
qed

section \<open>Continuation and closing\<close>

lemma demo_tenant: "tenant_id demo_staff = 1" by (simp add: demo_staff_def)

lemma shop_settled_facts: "chk_status shop_settled = CHK_SETTLED" "chk_continuation_decision shop_settled = CONT_PENDING"
    "chk_version shop_settled = 1" "chk_liability_total shop_settled = 150" "chk_version shop_decided = 1"
    "chk_tenant_id shop_decided = 1" "chk_status shop_decided = CHK_SETTLED" "chk_continuation_decision shop_decided = CONT_NO"
    "chk_liability_total shop_decided = 150" "chk_gratuity_total shop_decided = 0"
  by (simp_all add: shop_facts check_ops2 pay_ops2 shop_defs4)

lemma shop_settlement_facts:
  "st_check_id (settlement_row d ctx now p) = pay_check_id p" "st_amount (settlement_row d ctx now p) = pay_amount p"
  "st_tenant_id (settlement_row d ctx now p) = pay_tenant_id p"
  by (simp_all add: settlement_row_def)

lemma shop_p4_amounts: "settled_amount shop_p4 1 = 150" "payment_amount shop_p4 {PAY_RESERVED, PAY_IN_PROGRESS, PAY_UNCERTAIN} 1 = 0"
  by (simp_all add: settled_amount_def payment_amount_def sum_by_def shop_tables shop_row_facts shop_settlement_facts)

lemma shop_p4_locked: "lock_diners shop_p4 1 [11, 12]
    = Inr (service_sessions shop_db0, diner_sessions shop_db0, conversations shop_db0)"
  by (simp add: lock_diners_def shop_tables shop_diner_def order_by_def sorted_set_def)

lemma shop_active: "map cm_diner_session_id (active_members shop_p4 1) = [11, 12]"
  by (simp add: active_members_def members_of_check_def shop_tables shop_members_def shop_new_check_def shop_diner_def order_by_def)

lemma shop_decide_run: "decide_continuation_run demo_staff 170 1 1 CONT_NO shop_p4
    = Inr (shop_decided, shop_p4\<lparr>restaurant_checks := [shop_decided]\<rparr>)"
proof -
  have row: "List.find (\<lambda>c. chk_id c = 1 \<and> chk_tenant_id c = tenant_id demo_staff) (restaurant_checks shop_p4) = Some shop_settled"
    by (simp add: shop_tables shop_row_facts demo_tenant)
  have staff: "authorize_controller shop_settled demo_staff = Inr ()" by (simp add: authorize_controller_def demo_staff_def)
  have "replace_check shop_decided shop_p4 = shop_p4\<lparr>restaurant_checks := [shop_decided]\<rparr>"
    by (simp add: replace_check_def modify_def shop_row_facts) (simp add: shop_p4_def shop_row_facts)
  then show ?thesis
    by (simp add: decide_continuation_run_def row[unfolded demo_tenant] staff shop_settled_facts shop_row_facts shop_active shop_p4_locked
       shop_p4_amounts demo_tenant shop_decided_def[symmetric] Let_def)
qed

lemma shop_p5_ok: "check_constraints shop_p5"
  by (simp add: shop_facts check_ops2 pay_ops2 shop_defs4)

lemma shop_decide: "decide_continuation demo_sha demo_staff 170 1 1 ''NO'' ''n2'' shop_p4
    = Inr ((check_view shop_p5 shop_decided None, False), shop_p5)"
proof -
  have new: "command_replay demo_sha demo_staff ''n2'' op q shop_p4 = Inr None" for op q
    by (simp add: command_replay_def shop_tables)
  have logged: "record_command demo_sha demo_staff ''n2'' ''CONTINUATION_DECISION''
      (JObj [(''check_id'', JInt 1), (''expected_version'', JInt 1), (''decision'', JStr ''NO'')]) shop_decided
      (shop_p4\<lparr>restaurant_checks := [shop_decided]\<rparr>) = shop_p5"
    by (simp add: record_command_def shop_p5_def shop_log_def shop_tables next_id_def demo_digests shop_row_facts
        shop_settled_facts demo_scope demo_tenant)
  have shown: "get_check shop_p5 (tenant_id demo_staff) 1 False None None = Inr (check_view shop_p5 shop_decided None)"
    by (simp add: get_check_def shop_p5_def shop_row_facts shop_settled_facts demo_tenant)
  show ?thesis
    using shop_p5_ok
    by (simp add: decide_continuation_def shop_no parse_decision_def check_command_frame_def new shop_decide_run logged
        shop_row_facts shown[unfolded demo_tenant] demo_tenant)
qed

lemma shop_close: "\<exists>b d. assert_service_can_close shop_p5 180 1 31 = Inr (b, d)"
  by (simp add: assert_service_can_close_def table_balance_def accepted_orders_of_session_def allocations_of_session_def
      active_scopes_def check_settled_def check_decision_def single_currency_def shop_p5_def shop_tables 
      shop_row_facts shop_settled_facts shop_settlement_facts sum_by_def order_by_def shop_allocations_def allocation_row_def
      shop_order_def shop_scopes_def scope_row_def shop_new_check_def settle_allocation_def continue_scope_def Let_def)

definition shop_walk_in :: db where "shop_walk_in = shop_p5\<lparr>check_table_scopes := []\<rparr>"

lemma shop_diner_ends: "\<exists>d. assert_diner_can_end shop_walk_in 180 1 11 = Inr d"
  by (simp add: assert_diner_can_end_def diner_financially_safe_def check_settled_def check_decision_def shop_walk_in_def
      shop_p5_def shop_tables shop_members_def member_row_def shop_diner_def
      shop_row_facts shop_settled_facts shop_settlement_facts sum_by_def order_by_def shop_allocations_def allocation_row_def
      shop_order_def shop_scopes_def scope_row_def shop_new_check_def settle_allocation_def continue_scope_def Let_def)

end
