(* ===== verification/CoreWitnesses.thy ===== *)
theory CoreWitnesses
  imports RestaurantRun
begin

text \<open>
  The run of \<^verbatim>\<open>RestaurantRun\<close> as a run of the financial system, which makes each of its databases a
  reachable one, and the properties of checks and payments applied to it.
\<close>

section \<open>The run as a run of the system\<close>

definition sys0 :: financial_system where "sys0 = system_start demo_base"
definition sys1 :: financial_system where "sys1 = committed demo_db1 sys0"
definition sys2 :: financial_system where "sys2 = committed demo_db2 sys1"
definition sys3 :: financial_system where "sys3 = committed shop_db0 sys2"
definition sys4 :: financial_system where "sys4 = committed shop_db1 sys3"
definition sys5 :: financial_system where "sys5 = committed shop_p1 sys4"
definition sys6 :: financial_system where "sys6 = committed shop_p2 (loaded shop_card sys5)"
definition sys7 :: financial_system where "sys7 = committed shop_p3 sys6"
definition sys8 :: financial_system where "sys8 = committed shop_p4 sys7"
definition sys9 :: financial_system where "sys9 = committed shop_p5 sys8"

lemma sys_db: "fs_db sys0 = demo_base" "fs_db sys1 = demo_db1" "fs_db sys2 = demo_db2" "fs_db sys3 = shop_db0"
  "fs_db sys4 = shop_db1" "fs_db sys5 = shop_p1" "fs_db sys6 = shop_p2" "fs_db sys7 = shop_p3"
  "fs_db sys8 = shop_p4" "fs_db sys9 = shop_p5"
  by (simp_all add: sys0_def sys1_def sys2_def sys3_def sys4_def sys5_def sys6_def sys7_def sys8_def sys9_def system_start_def)

lemma sys0: "reachable demo_sha sys0"
proof -
  have "system_init sys0"
    unfolding system_init_def sys0_def
    by (intro exI[of _ demo_base]) (simp add: core_tables_def cash_part_def demo_base_def empty_db_def)
  then show ?thesis unfolding reachable_def by blast
qed

lemma sys1: "reachable demo_sha sys1"
  unfolding sys1_def
  by (rule reachable_step[OF sys0 cash_opened[OF demo_open[folded sys_db(1)]]]) (simp add: sys0_def system_start_def)

lemma sys2: "reachable demo_sha sys2"
  unfolding sys2_def
  by (rule reachable_step[OF sys1 cash_moved[OF demo_movement[folded sys_db(2)]]]) (simp add: sys1_def sys0_def system_start_def)

lemma sys3: "reachable demo_sha sys3"
  unfolding sys3_def
  by (rule reachable_step[OF sys2 elsewhere]) (simp add: core_tables_def cash_part_def sys_db shop_db0_def)

lemma commanded_reachable:
  assumes "reachable demo_sha s" "execute_check demo_sha ctx now key q (fs_db s) = Inr (r, d)"
  shows "reachable demo_sha (committed d s)"
  by (rule reachable_step[OF assms(1) commanded[OF assms(2)]])

lemma sys4: "reachable demo_sha sys4"
  unfolding sys4_def
  by (rule commanded_reachable[OF sys3, where q = "CreateCheck [11, 12] None False False [31]"]) (simp only: execute_check.simps sys_db committed_simps, rule shop_create)

lemma sys5: "reachable demo_sha sys5"
  using reachable_step[OF sys4 payment_reserved[OF shop_pay_cash[folded sys_db(5)]]]
  by (simp add: sys5_def shop_cash_valid_def)

lemma sys6: "reachable demo_sha sys6"
  using reachable_step[OF sys5 payment_reserved[OF shop_pay_card[folded sys_db(6)]]]
  by (simp add: sys6_def shop_card_valid_def shop_cash_valid_def)

lemma sys7: "reachable demo_sha sys7"
  unfolding sys7_def
  by (rule reachable_step[OF sys6 payment_claimed[OF shop_claim[folded sys_db(7)]]])
    (simp_all add: claim_mode_def sys6_def shop_row_facts)

lemma sys8: "reachable demo_sha sys8"
  unfolding sys8_def
  by (rule reachable_step[OF sys7 payment_executed[where r = shop_result and now = 160 and token = "''tok''" and i = 2
        and ctx = demo_staff and p = "succeed_payment 160 shop_card_done"]])
    (simp add: sys_db shop_result_def shop_finish[unfolded shop_result_def])

lemma sys9: "reachable demo_sha sys9"
  unfolding sys9_def
  by (rule commanded_reachable[OF sys8, where q = "DecideContinuation 1 1 ''NO''"]) (simp only: execute_check.simps sys_db committed_simps, rule shop_decide)

lemma shop_invs: "check_inv shop_db0" "check_inv shop_db1" "check_inv shop_db2" "check_inv shop_db3" "check_inv shop_dbf"
    "check_inv shop_p4" "check_inv shop_p5"
proof -
  show "check_inv shop_db0" "check_inv shop_db1" "check_inv shop_p4" "check_inv shop_p5"
    using reachable_financial(1) sys3 sys4 sys8 sys9 sys_db by metis+
  have 2: "reachable demo_sha (committed shop_db2 sys4)"
    by (rule commanded_reachable[OF sys4, where q = "RemoveMember 1 12 1 ''left''"]) (simp only: execute_check.simps sys_db committed_simps, rule shop_remove)
  have 3: "reachable demo_sha (committed shop_db3 (committed shop_db2 sys4))"
    by (rule commanded_reachable[OF 2, where q = "RemoveMember 1 11 2 ''left''"]) (simp only: execute_check.simps sys_db committed_simps, rule shop_remove_last)
  have f: "reachable demo_sha (committed shop_dbf sys4)"
    by (rule commanded_reachable[OF sys4, where q = "FreezeCheck 1 1"]) (simp only: execute_check.simps sys_db committed_simps, rule shop_freeze)
  show "check_inv shop_db2" "check_inv shop_db3" "check_inv shop_dbf"
    using reachable_financial(1)[OF 2] reachable_financial(1)[OF 3] reachable_financial(1)[OF f] by simp_all
qed

section \<open>The properties of the checks on the run\<close>

lemma check_command_keeps_invariant_witness: "check_inv shop_db2"
  by (rule check_command_keeps_invariant[OF shop_invs(2), where q = "RemoveMember 1 12 1 ''left''"])
    (simp only: execute_check.simps, rule shop_remove)

lemma shop_scope: "actor_scope demo_staff = ''EMPLOYEE:7''"
  by (rule demo_scope)

lemma fresh_commands: "command_of demo_staff ''n9'' shop_db1 = None" "command_of demo_staff ''n9'' shop_db3 = None"
    "command_of demo_staff ''n9'' shop_dbf = None" "command_of ctx key shop_db0 = None"
    "command_of demo_staff ''n9'' shop_db2 = None"
  by (simp_all add: command_of_def shop_db1_def shop_db2_def shop_db3_def shop_dbf_def shop_log_def shop_db0_def
      demo_db2_def demo_db1_def demo_base_def empty_db_def)

lemma shop_rows:
  "shop_check1 \<in> set (restaurant_checks shop_db1)" "chk_id shop_check1 = 1" "chk_tenant_id shop_check1 = 1"
  "chk_status shop_check1 = CHK_OPEN" "chk_version shop_check1 = 1" "chk_controller_diner_session_id shop_check1 = None"
  "shop_frozen \<in> set (restaurant_checks shop_dbf)" "chk_id shop_frozen = 1" "chk_tenant_id shop_frozen = 1"
  "chk_status shop_frozen = CHK_FROZEN" "chk_version shop_frozen = 1"
  "last shop_members2 \<in> set (check_members shop_db2)" "cm_check_id (last shop_members2) = 1"
  "cm_diner_session_id (last shop_members2) = 12"
  by (simp_all add: shop_db1_def shop_db2_def shop_dbf_def shop_check1_def shop_new_check_def shop_frozen_def
      frozen_check_def shop_members2_def shop_members_def shop_diner_def)

lemma demo_employee: "actor_type demo_staff = EMPLOYEE"
  by (simp add: demo_staff_def)

lemma stale_version_refused_witness:
  "execute_check demo_sha demo_staff 150 ''n9'' (CancelCheck 1 7 ''x'') shop_db1 = Inl CheckVersionConflictError"
  by (rule stale_version_refused[OF shop_invs(2), where c = shop_check1 and version = 7])
    (simp_all add: fresh_commands shop_rows demo_tenant demo_employee)

lemma closed_check_not_modifiable_witness:
  "execute_check demo_sha demo_staff 150 ''n9'' (CancelCheck 1 1 ''x'') shop_dbf = Inl CheckNotModifiableError"
  by (rule closed_check_not_modifiable[OF shop_invs(5), where c = shop_frozen])
    (simp_all add: fresh_commands shop_rows demo_tenant)

definition demo_guest :: execution_context where
  "demo_guest = \<lparr>actor_type = DINER, tenant_id = 1, principal_id = Some 11,
     principal_reference = None, correlation_id = None, causation_id = None\<rparr>"

lemma only_controller_modifies_witness:
  "execute_check demo_sha demo_guest 150 ''n9'' (CancelCheck 1 1 ''x'') shop_db1 = Inl CheckPermissionError"
proof -
  have "\<exists>e. execute_check demo_sha demo_guest 150 ''n9'' (CancelCheck 1 1 ''x'') shop_db1 = Inl e
     \<and> (\<not> isl (prepare_check demo_guest (CancelCheck 1 1 ''x'')) \<longrightarrow> e = CheckPermissionError)"
    by (rule only_controller_modifies[OF shop_invs(2), where c = shop_check1])
      (simp_all add: command_of_def shop_db1_def shop_check1_def shop_new_check_def demo_guest_def)
  then show ?thesis by auto
qed

lemma check_view_totals:
  "cpr_consumption_total (check_view d c x) = chk_consumption_total c" "cpr_liability_total (check_view d c x) = chk_liability_total c"
  "cpr_status (check_view d c x) = chk_status c"
  "cpr_member_ids (check_view d c x) = map cm_diner_session_id (active_members d (chk_id c))"
  by (simp_all add: check_view_def Let_def)

lemma create_claims_eligible_orders_witness:
  "cpr_consumption_total (check_view shop_db1 shop_check1 None) = 150
   \<and> (\<exists>orders. sum_by ro_payable_total orders = 150 \<and> set orders = {x \<in> set (restaurant_orders shop_db0).
        ro_tenant_id x = 1 \<and> (\<exists>s \<in> set (diner_sessions shop_db0). ds_tenant_id s = 1 \<and> ds_id s \<in> {11, 12}
          \<and> ds_id s = ro_diner_session_id x) \<and> ro_status x = ''ACCEPTED'' \<and> \<not> order_allocated shop_db0 x})"
proof -
  have total: "cpr_consumption_total (check_view shop_db1 shop_check1 None) = 150"
    by (simp add: check_view_totals shop_check1_def shop_new_check_def)
  with create_claims_eligible_orders[OF shop_invs(1) shop_create] show ?thesis
    by (auto simp: demo_tenant)
qed

lemma shop_view_members: "cpr_member_ids (check_view shop_db1 shop_check1 None) = [11, 12]"
  by (simp add: check_view_totals shop_check1_def shop_new_check_def shop_db1_def active_members_def members_of_check_def
      shop_members_def shop_diner_def order_by_def)

lemma created_check_blocks_ordering_witness:
  "ensure_ordering_allowed shop_db1 1 11 = Inl OrderingBlockedError
   \<and> ensure_ordering_allowed shop_db1 1 12 = Inl OrderingBlockedError"
  using created_check_blocks_ordering[OF shop_invs(1) shop_create] by (simp add: shop_view_members demo_tenant)

lemma gratuity_within_half_cent_witness:
  "\<exists>v d. update_gratuity demo_sha demo_staff 130 1 1 ''PERCENTAGE'' (PyDecimal 10) ''n2'' shop_db1 = Inr ((v, False), d)
     \<and> \<bar>cpr_gratuity_total v - 15\<bar> \<le> 1 / 200"
proof -
  obtain v d where run: "update_gratuity demo_sha demo_staff 130 1 1 ''PERCENTAGE'' (PyDecimal 10) ''n2'' shop_db1
      = Inr ((v, False), d)" using shop_gratuity by blast
  from gratuity_within_half_cent[OF shop_invs(2) run] have "\<bar>cpr_gratuity_total v - 15\<bar> \<le> 1 / 200"
    by (auto simp: shop_db1_def shop_check1_def shop_new_check_def)
  with run show ?thesis by blast
qed

lemma freeze_only_complete_witness:
  "cpr_status (check_view shop_dbf shop_frozen None) = CHK_FROZEN
   \<and> cpr_liability_total (check_view shop_dbf shop_frozen None) = 150"
  using freeze_only_complete[OF shop_invs(2) shop_freeze] by (auto simp: shop_db1_def shop_check1_def shop_new_check_def)

lemma cancel_releases_everything_witness:
  "\<exists>v d. cancel_check demo_sha demo_staff 130 1 1 ''n2'' ''mistake'' shop_db1 = Inr ((v, False), d)
     \<and> cpr_liability_total v = 0 \<and> owned_allocations d 1 = []"
proof -
  obtain v d where run: "cancel_check demo_sha demo_staff 130 1 1 ''n2'' ''mistake'' shop_db1 = Inr ((v, False), d)"
    using shop_cancel by blast
  from cancel_releases_everything[OF shop_invs(2) run] run show ?thesis by blast
qed

lemma remove_member_effect_witness:
  "cpr_consumption_total (check_view shop_db2 (shop_check2\<lparr>chk_current_fingerprint := shop_fp2\<rparr>) None)
     = 150 - sum_by al_accepted_payable_amount (filter (owned_by_diner shop_check1 12) (check_allocations shop_db1))"
  using remove_member_effect[OF shop_invs(2) shop_remove] by (auto simp: shop_db1_def shop_check1_def shop_new_check_def)

lemma check_retry_is_noop_witness:
  "execute_check demo_sha demo_staff 999 ''n2'' (RemoveMember 1 12 1 ''left'') shop_db2
     = Inr ((check_view shop_db2 (shop_check2\<lparr>chk_current_fingerprint := shop_fp2\<rparr>) None, True), shop_db2)"
  by (rule check_retry_is_noop, simp only: execute_check.simps, rule shop_remove)

lemma removed_member_cannot_return_witness:
  "\<exists>e. add_member demo_sha demo_staff 150 1 12 2 ''n9'' shop_db2 = Inl e"
  by (rule removed_member_cannot_return[where m = "last shop_members2"])
    (simp_all add: fresh_commands shop_rows)

lemma emptied_check_is_stuck_witness:
  "freeze_check demo_sha demo_staff 150 1 3 ''n9'' shop_db3 = Inl CrossLocationCheckError
   \<and> cancel_check demo_sha demo_staff 150 1 3 ''n9'' ''x'' shop_db3 = Inl CrossLocationCheckError"
proof -
  let ?c = "shop_check3\<lparr>chk_current_fingerprint := shop_fp3\<rparr>"
  have c: "chk_id ?c = 1" "chk_version ?c = 3" "chk_tenant_id ?c = 1" "chk_status ?c = CHK_OPEN"
    "?c \<in> set (restaurant_checks shop_db3)"
    by (simp_all add: shop_db3_def shop_check3_def shop_check2_def shop_check1_def shop_new_check_def)
  have "active_members shop_db3 1 = []"
    by (simp add: active_members_def members_of_check_def shop_db3_def shop_members3_def shop_members2_def
        shop_members_def shop_diner_def shop_new_check_def order_by_def)
  moreover have "- 1 \<notin> ds_id ` set (diner_sessions shop_db3)"
    by (simp add: shop_db3_def shop_db2_def shop_db1_def shop_db0_def shop_diner_def)
  ultimately show ?thesis
    using emptied_check_is_stuck[OF shop_invs(4) c(5) _ c(4), of demo_staff "''n9''" demo_sha 150 "''x''"]
    by (simp add: c demo_tenant fresh_commands demo_employee)
qed

lemma continuation_needs_settlement_witness:
  "cpr_status (check_view shop_p5 shop_decided None) = CHK_SETTLED
   \<and> cpr_outstanding (check_view shop_p5 shop_decided None) = 0"
  using continuation_needs_settlement[OF shop_invs(6) shop_decide] by blast

lemma table_closes_only_when_paid_witness:
  "\<exists>b d. assert_service_can_close shop_p5 180 1 31 = Inr (b, d) \<and> tb_outstanding_confirmed_balance b = 0"
proof -
  obtain b d where run: "assert_service_can_close shop_p5 180 1 31 = Inr (b, d)" using shop_close by blast
  have "\<forall>x \<in> set (restaurant_orders shop_p5). 0 \<le> ro_payable_total x"
    by (simp add: shop_p5_def shop_tables shop_order_def)
  from table_closes_only_when_paid[OF shop_invs(7) this run] run show ?thesis by blast
qed

lemma diner_ends_only_when_covered_witness:
  "\<exists>a \<in> set (check_allocations shop_walk_in). al_restaurant_order_id a = 21 \<and> al_state a = AL_SETTLED"
proof -
  obtain d where run: "assert_diner_can_end shop_walk_in 180 1 11 = Inr d" using shop_diner_ends by blast
  have "shop_order 21 11 100 \<in> set (restaurant_orders shop_walk_in)" by (simp add: shop_walk_in_def shop_p5_def shop_tables)
  from diner_ends_only_when_covered[OF run this] show ?thesis by (auto simp: shop_order_def)
qed

lemma resolved_executor_sound_witness:
  "registry_resolve shop_registry ''T'' = Inr \<lparr>ex_executes = True, ex_recovers = True\<rparr>"
proof -
  have "resolve shop_registry shop_p1 (1, 1, 1) CARD ''MXN'' ''AUTO'' None
      = Inr (hd (executor_configurations shop_db0), \<lparr>ex_executes = True, ex_recovers = True\<rparr>)"
    by (simp add: resolve_def resolve_auto_configuration_def available_configurations_def config_in_scope_def
        capability_of_def resolved_def registry_resolve_def registry_key_def shop_registry_def shop_digits order_by_def
        shop_tables)
  from resolved_executor_sound[OF this] show ?thesis by (simp add: shop_db0_def)
qed

section \<open>The properties of the payments on the run\<close>

lemma shop_payments: "restaurant_payments shop_p2 = [succeed_payment 140 shop_cash, shop_card]"
    "restaurant_payments shop_p3 = [succeed_payment 140 shop_cash, shop_claimed]"
    "restaurant_payments shop_p1 = [succeed_payment 140 shop_cash]"
  by (simp_all add: shop_p1_def shop_p2_def shop_p3_def)

lemma shop_checks: "restaurant_checks shop_p2 = [shop_frozen1]" "restaurant_checks shop_p4 = [shop_settled]"
    "restaurant_checks shop_db1 = [shop_check1]"
  by (simp_all add: shop_p1_def shop_p2_def shop_p3_def shop_p4_def shop_db1_def)

lemma checks_never_overpaid_witness:
  "settled_amount shop_p2 1 + payment_amount shop_p2 RESERVING_STATES 1 \<le> 150"
  using checks_never_overpaid[OF sys6, of shop_frozen1] by (simp add: sys_db shop_checks shop_row_facts)

lemma check_totals_add_up_witness:
  "chk_consumption_total shop_check1 = live_total shop_db1 1"
  using check_totals_add_up[OF sys4, of shop_check1] by (simp add: sys_db shop_checks shop_rows)


lemma settlements_mirror_payments_witness:
  "\<exists>t \<in> set (check_settlements shop_p2). st_payment_id t = 1 \<and> st_amount t = 60"
  using settlements_mirror_payments[OF sys6, of "succeed_payment 140 shop_cash"]
  by (auto simp: sys_db shop_payments succeed_payment_def shop_row_facts)


lemma shop_quiet: "\<not> reference_conflict shop_p3 shop_claimed PAY_SUCCEEDED shop_result"
  by (simp add: reference_conflict_def shop_payments shop_row_facts succeed_payment_def)

lemma provider_success_is_recorded_witness:
  "\<exists>p d. finish_payment demo_sha demo_staff 160 2 ''tok'' shop_result PAY_SUCCEEDED shop_p3 = Inr (p, d)
     \<and> pay_state p = PAY_SUCCEEDED \<and> settled_amount d 1 = settled_amount shop_p3 1 + 90"
  using provider_success_is_recorded[OF sys7, of shop_claimed demo_staff "''tok''" 160 shop_result] shop_quiet
  by (auto simp: sys_db shop_payments shop_row_facts demo_tenant)

lemma other_results_recorded_witness:
  "\<exists>d. finish_payment demo_sha demo_staff 160 2 ''tok'' shop_result PAY_FAILED shop_p3
     = Inr (finish_row PAY_FAILED 160 shop_result shop_claimed, d)"
proof -
  have "own_reference shop_p3 shop_claimed (pr_external_reference shop_result)"
    by (simp add: own_reference_def shop_payments shop_row_facts succeed_payment_def same_slot_def)
  with other_results_recorded[OF sys7, of shop_claimed demo_staff "''tok''" PAY_FAILED shop_result 160] show ?thesis
    by (auto simp: sys_db shop_payments shop_row_facts demo_tenant)
qed

lemma shop_lease: "pay_claim_expires_at shop_claimed = Some (150 + CLAIM_LEASE)"
  by (simp add: shop_claimed_def claim_row_def write_column_def shop_card_def reserved_payment_def)

lemma expired_execution_is_fenced_witness:
  "\<exists>d. fence_payment demo_staff (150 + CLAIM_LEASE) 2 None shop_p3 = Inr ((release_claim shop_claimed, ATT_STALE_RECOVERY), d)
     \<and> finish_payment demo_sha demo_staff 999 2 ''tok'' shop_result PAY_SUCCEEDED d = Inr (release_claim shop_claimed, d)"
  using expired_execution_is_fenced[OF sys7, of shop_claimed demo_staff "''tok''" "150 + CLAIM_LEASE" "150 + CLAIM_LEASE"
      999 shop_result PAY_SUCCEEDED]
  by (auto simp: sys_db shop_payments shop_row_facts demo_tenant shop_lease)

lemma stale_object_claims_nothing_witness:
  "\<exists>e. claim_payment demo_staff 155 ''tok2'' (Some shop_card) 2 ATT_EXECUTE {PAY_RESERVED} False shop_p3 = Inl e"
proof -
  have "claimed_since shop_p3 shop_card"
    by (simp add: claimed_since_def shop_p3_def shop_row_facts shop_claimed_def shop_card_def reserved_payment_def)
  from stale_object_claims_nothing[OF this, of demo_staff 155 "''tok2''" ATT_EXECUTE "{PAY_RESERVED}" False] show ?thesis
    by (simp add: shop_row_facts)
qed

definition shop_world :: payment_world where
  "shop_world = \<lparr>pw_sha = demo_sha, pw_registry = shop_registry, pw_credentials = None,
     pw_execute = (\<lambda>_ _ _. Inr shop_result), pw_recover = (\<lambda>_ _ _. Inl ''Timeout''),
     pw_clock = (\<lambda>n. 145 + 5 * int n), pw_token = ''tok'', pw_others = (\<lambda>_ d. d)\<rparr>"

lemma shop_others: "others_step shop_world"
  unfolding others_step_def by (auto simp: shop_world_def)

lemma payment_operations_are_steps_witness:
  "runs shop_world sys5 (snd (initiate_payment shop_world demo_staff shop_card_request shop_p1))"
  using payment_operations_are_steps[OF shop_others, of sys5 demo_staff shop_card_request] by (simp add: sys_db)


lemma valid_payment_fits_constraints_witness:
  "restaurant_payment_ok (reserved_payment demo_sha demo_staff shop_frozen1 shop_cash_request shop_cash_valid ''f'' None shop_db1)"
  by (rule valid_payment_fits_constraints[OF shop_values(1)])
    (simp_all add: shop_frozen1_def frozen_check_def shop_rows shop_cash_valid_def)

lemma shop_drawer: "cash_session_for_payment shop_db1 shop_check1 (vp_currency shop_cash_valid)
    (pq_cash_session_id shop_cash_request) = Inr (Some (demo_session\<lparr>cs_movement_version := 1\<rparr>))"
  by (simp add: cash_session_for_payment_def shop_tables shop_check1_def shop_new_check_def shop_cash_valid_def
      shop_cash_request_def demo_session_def)

lemma cash_payment_fills_drawer_witness: "expected_cash shop_p1 1 = expected_cash shop_db1 1 + 60"
  using cash_payment_fills_drawer[OF sys4 shop_values(1), of shop_check1 "demo_session\<lparr>cs_movement_version := 1\<rparr>"
      shop_registry 140 shop_cash_fp "succeed_payment 140 shop_cash" shop_p1 1] shop_drawer shop_pay_cash
  by (simp add: sys_db shop_rows shop_cash_valid_def shop_cash_request_def demo_session_def)

lemma advertised_room_is_exact_witness:
  "\<exists>v. get_check_settlement shop_p1 1 1 None None = Inr v
     \<and> csp_available_to_initiate v
         = csp_liability_total v - csp_confirmed_settlement v - csp_reserved_financial_exposure v"
proof -
  obtain v where run: "get_check_settlement shop_p1 1 1 None None = Inr v"
    by (simp add: get_check_settlement_def shop_p1_def shop_row_facts totals_def)
  with advertised_room_is_exact[OF sys5[unfolded], of 1 1 None None v] show ?thesis by (simp add: sys_db)
qed

lemma reserved_payment_reads_back_witness: "get_payment shop_p2 1 2 = Inr (payment_view shop_p2 shop_card)"
  using reserved_payment_reads_back[OF sys5 shop_pay_card[folded sys_db(6)]] by (simp add: demo_tenant shop_row_facts)

end
