(* ===== verification/Catalog.thy ===== *)
theory Catalog
  imports Schema
begin

text \<open>
  The structure of the catalog (\<^verbatim>\<open>app/restaurant/catalog/structure.py\<close>, and of
  \<^verbatim>\<open>category_provisioning.py\<close> the creation and the update of a category): the tree of product categories,
  the compositions of products, and the validation of what a diner chooses of a composition.

  A transaction reads without a lock from its snapshot \<^theory_text>\<open>s\<close> and under a lock from the current tables
  \<^theory_text>\<open>d\<close>. A row that its session already holds as an object keeps the attributes of that object when a
  locking query returns it again: \<^theory_text>\<open>held\<close> are these objects.
\<close>

datatype structure_error = StructureNotFoundError | StructureConflictError

datatype category_error =
    CategoryProvisioningError | CategoryScopeNotFoundError | CategoryConflictError
  | CategoryKeyError        \<comment> \<open>\<^verbatim>\<open>by_id[category_id]\<close> finds no row\<close>
  | CategoryIntegrityError  \<comment> \<open>another constraint refuses the statement\<close>

section \<open>Tables\<close>

record category =
  cg_id :: int
  cg_tenant_id :: int
  cg_organization_id :: int
  cg_parent_id :: "int option"
  cg_name :: string
  cg_display_order :: int
  cg_status :: string

record product_row =
  pd_id :: int
  pd_tenant_id :: int
  pd_organization_id :: int
  pd_name :: string
  pd_tax_classification_code :: "string option"
  pd_status :: string

record composition =
  co_id :: int
  co_tenant_id :: int
  co_organization_id :: int
  co_product_id :: int
  co_status :: string

record component =
  pcm_id :: int
  pcm_tenant_id :: int
  pcm_organization_id :: int
  pcm_composition_id :: int
  pcm_component_product_id :: int
  pcm_quantity :: rat
  pcm_display_order :: int
  pcm_status :: string

record choice_group =
  grp_id :: int
  grp_tenant_id :: int
  grp_organization_id :: int
  grp_composition_id :: int
  grp_name :: string
  grp_min_selections :: int
  grp_max_selections :: int
  grp_display_order :: int
  grp_status :: string

record choice_option =
  op_id :: int
  op_tenant_id :: int
  op_organization_id :: int
  op_group_id :: int
  op_option_product_id :: int
  op_quantity :: rat
  op_display_order :: int
  op_status :: string

record category_mapping =
  mp_tenant_id :: int
  mp_organization_id :: int
  mp_category_id :: int
  mp_connector_key :: string
  mp_external_category_id :: string

record catalog =
  cat_organizations :: "(int \<times> int) list"  \<comment> \<open>identifier and tenant\<close>
  cat_categories :: "category list"
  cat_mappings :: "category_mapping list"
  cat_products :: "product_row list"
  cat_compositions :: "composition list"
  cat_components :: "component list"
  cat_groups :: "choice_group list"
  cat_options :: "choice_option list"

text \<open>The comparison of a \<^verbatim>\<open>utf8mb4_bin\<close> column pads with spaces.\<close>

definition rstrip_spaces :: "string \<Rightarrow> string" where
  "rstrip_spaces s = rev (dropWhile (\<lambda>c. c = CHR '' '') (rev s))"

definition sql_bin_equal :: "string \<Rightarrow> string \<Rightarrow> bool" where
  "sql_bin_equal a b \<longleftrightarrow> rstrip_spaces a = rstrip_spaces b"

section \<open>The tree of categories\<close>

definition as_held :: "(int \<Rightarrow> category option) \<Rightarrow> category \<Rightarrow> category" where
  "as_held held r = (case held (cg_id r) of None \<Rightarrow> r | Some h \<Rightarrow> h)"

definition lock_category_scope ::
  "(int \<Rightarrow> category option) \<Rightarrow> catalog \<Rightarrow> int \<Rightarrow> int \<Rightarrow> category list"
where
  "lock_category_scope held d tenant organization =
     map (as_held held) (order_by cg_id (filter (\<lambda>c. cg_tenant_id c = tenant
       \<and> cg_organization_id c = organization) (cat_categories d)))"

definition validate_new_category_parent ::
  "catalog \<Rightarrow> int \<Rightarrow> int \<Rightarrow> int \<Rightarrow> structure_error + unit"
where
  "validate_new_category_parent d tenant organization parent =
     ensure (parent \<in> cg_id ` set (lock_category_scope Map.empty d tenant organization)) StructureNotFoundError"

text \<open>
  The walk from the new parent to the root. It stops at a category it has seen; the result tells whether
  it found one. Not returning would be the value \<^const>\<open>None\<close>.
\<close>

partial_function (option) closes_cycle ::
  "(int \<Rightarrow> category option) \<Rightarrow> int list \<Rightarrow> category option \<Rightarrow> bool option"
where
  "closes_cycle by_id visited cursor =
     (case cursor of
        None \<Rightarrow> Some False
      | Some c \<Rightarrow>
          if cg_id c \<in> set visited then Some True
          else closes_cycle by_id (cg_id c # visited)
                 (case cg_parent_id c of None \<Rightarrow> None | Some p \<Rightarrow> by_id p))"

declare closes_cycle.simps [code]

text \<open>The result: the object as the session held it, and with the parent that was assigned to it.\<close>

definition set_category_parent ::
  "(int \<Rightarrow> category option) \<Rightarrow> catalog \<Rightarrow> int \<Rightarrow> int \<Rightarrow> int option \<Rightarrow> catalog
   \<Rightarrow> (category_error + (category \<times> category)) option"
where
  "set_category_parent held s tenant category_id parent d =
     (case List.find (\<lambda>c. cg_id c = category_id \<and> cg_tenant_id c = tenant) (cat_categories s) of
        None \<Rightarrow> Some (Inl CategoryScopeNotFoundError)
      | Some row \<Rightarrow>
     (let loaded = as_held held row;
          categories = lock_category_scope (held(category_id \<mapsto> loaded)) d tenant (cg_organization_id loaded);
          by_id = (\<lambda>i. find_row cg_id i categories)
      in case by_id category_id of
           None \<Rightarrow> Some (Inl CategoryKeyError)
         | Some category \<Rightarrow>
             (case parent of
                None \<Rightarrow> Some (Inr (category, category\<lparr>cg_parent_id := None\<rparr>))
              | Some parent_id \<Rightarrow>
                  if parent_id = cg_id category then Some (Inl CategoryConflictError)
                  else (case by_id parent_id of
                     None \<Rightarrow> Some (Inl CategoryScopeNotFoundError)
                   | Some p \<Rightarrow>
                       map_option (\<lambda>cycle. if cycle then Inl CategoryConflictError
                           else Inr (category, category\<lparr>cg_parent_id := Some (cg_id p)\<rparr>))
                         (closes_cycle by_id [cg_id category] (Some p))))))"

subsection \<open>Creation and update\<close>

definition category_text :: "string \<Rightarrow> nat \<Rightarrow> category_error + string" where
  "category_text value maximum =
     (let normalized = strip value in
      if normalized = [] \<or> maximum < length normalized then Inl CategoryProvisioningError else Inr normalized)"

definition category_status :: "string \<Rightarrow> category_error + string" where
  "category_status value =
     (let normalized = upper (strip value) in
      if normalized \<in> {''ACTIVE'', ''INACTIVE''} then Inr normalized else Inl CategoryProvisioningError)"

text \<open>An order is \<^const>\<open>None\<close> when it is no \<^verbatim>\<open>int\<close>.\<close>

definition category_order :: "int option \<Rightarrow> category_error + int" where
  "category_order value =
     (case value of None \<Rightarrow> Inl CategoryProvisioningError
      | Some n \<Rightarrow> if n < 0 then Inl CategoryProvisioningError else Inr n)"

text \<open>
  The unique index on the name of a category; \<^theory_text>\<open>ci\<close> is the comparison of the collation of the column.
\<close>

definition category_names_collide :: "(string \<Rightarrow> string \<Rightarrow> bool) \<Rightarrow> category \<Rightarrow> category \<Rightarrow> bool" where
  "category_names_collide ci a b \<longleftrightarrow> cg_tenant_id a = cg_tenant_id b
     \<and> cg_organization_id a = cg_organization_id b \<and> ci (cg_name a) (cg_name b)"

definition create_category ::
  "(string \<Rightarrow> string \<Rightarrow> bool) \<Rightarrow> catalog \<Rightarrow> int \<Rightarrow> int \<Rightarrow> int option \<Rightarrow> string \<Rightarrow> int option \<Rightarrow> string \<Rightarrow> catalog
   \<Rightarrow> category_error + (int \<times> catalog)"
where
  "create_category ci s tenant organization parent name display_order status d =
     (if (organization, tenant) \<notin> set (cat_organizations s) then Inl CategoryScopeNotFoundError
      else if (case parent of None \<Rightarrow> False
                | Some p \<Rightarrow> validate_new_category_parent d tenant organization p \<noteq> Inr ())
      then Inl CategoryScopeNotFoundError
      else
        bind_result (category_text name 200) (\<lambda>name.
        bind_result (category_order display_order) (\<lambda>display_order.
        bind_result (category_status status) (\<lambda>status.
          let c = \<lparr>cg_id = next_id cg_id (cat_categories d), cg_tenant_id = tenant,
                   cg_organization_id = organization, cg_parent_id = parent, cg_name = name,
                   cg_display_order = display_order, cg_status = status\<rparr>
          in if list_ex (category_names_collide ci c) (cat_categories d) then Inl CategoryConflictError
             else Inr (cg_id c, d\<lparr>cat_categories := cat_categories d @ [c]\<rparr>)))))"

text \<open>The fields of an update, \<^const>\<open>None\<close> when they are not given.\<close>

record category_changes =
  chg_parent_id :: "int option option"
  chg_name :: "string option"
  chg_display_order :: "int option option"
  chg_status :: "string option"

definition assign_fields :: "category_changes \<Rightarrow> category \<Rightarrow> category_error + category" where
  "assign_fields ch c =
     bind_result (case chg_name ch of None \<Rightarrow> Inr c
        | Some n \<Rightarrow> bind_result (category_text n 200) (\<lambda>n. Inr (c\<lparr>cg_name := n\<rparr>))) (\<lambda>c.
     bind_result (case chg_display_order ch of None \<Rightarrow> Inr c
        | Some n \<Rightarrow> bind_result (category_order n) (\<lambda>n. Inr (c\<lparr>cg_display_order := n\<rparr>))) (\<lambda>c.
     case chg_status ch of None \<Rightarrow> Inr c
        | Some t \<Rightarrow> bind_result (category_status t) (\<lambda>t. Inr (c\<lparr>cg_status := t\<rparr>))))"

text \<open>A flush writes the attributes that differ from those the object was loaded with.\<close>

definition flush_category :: "category \<Rightarrow> category \<Rightarrow> category \<Rightarrow> category" where
  "flush_category loaded new row =
     row\<lparr>cg_parent_id := (if cg_parent_id new = cg_parent_id loaded then cg_parent_id row else cg_parent_id new),
         cg_name := (if cg_name new = cg_name loaded then cg_name row else cg_name new),
         cg_display_order := (if cg_display_order new = cg_display_order loaded then cg_display_order row
                              else cg_display_order new),
         cg_status := (if cg_status new = cg_status loaded then cg_status row else cg_status new)\<rparr>"

definition commit_category ::
  "(string \<Rightarrow> string \<Rightarrow> bool) \<Rightarrow> category \<Rightarrow> category \<Rightarrow> catalog \<Rightarrow> category_error + catalog"
where
  "commit_category ci loaded new d =
     (let rows = modify cg_id (cg_id loaded) (flush_category loaded new) (cat_categories d) in
      if list_ex (\<lambda>c. cg_id c \<noteq> cg_id loaded \<and> category_names_collide ci c new) (cat_categories d)
         \<and> cg_name new \<noteq> cg_name loaded
      then Inl CategoryConflictError
      else Inr (d\<lparr>cat_categories := rows\<rparr>))"

definition update_category ::
  "(string \<Rightarrow> string \<Rightarrow> bool) \<Rightarrow> (int \<Rightarrow> category option) \<Rightarrow> catalog \<Rightarrow> int \<Rightarrow> int \<Rightarrow> category_changes \<Rightarrow> catalog
   \<Rightarrow> (category_error + catalog) option"
where
  "update_category ci held s tenant category_id ch d =
     (if chg_parent_id ch = None \<and> chg_name ch = None \<and> chg_display_order ch = None \<and> chg_status ch = None
      then Some (Inl CategoryProvisioningError)
      else
        map_option (\<lambda>r. bind_result r (\<lambda>(loaded, c).
            bind_result (assign_fields ch c) (\<lambda>new. commit_category ci loaded new d)))
          (case chg_parent_id ch of
             Some parent \<Rightarrow> set_category_parent held s tenant category_id parent d
           | None \<Rightarrow>
               Some (case List.find (\<lambda>c. cg_id c = category_id \<and> cg_tenant_id c = tenant) (cat_categories d) of
                  None \<Rightarrow> Inl CategoryScopeNotFoundError
                | Some row \<Rightarrow> Inr (as_held held row, as_held held row))))"

subsection \<open>Provisioning under an operator key\<close>

datatype category_operation = CREATE_CATEGORY | UPDATE_CATEGORY | UNCHANGED_CATEGORY

record category_plan =
  cp_operation :: category_operation
  cp_binding_namespace :: string
  cp_category_key :: string
  cp_parent_category_id :: "int option"
  cp_category_id :: "int option"

definition mapped_category ::
  "(string \<Rightarrow> string \<Rightarrow> bool) \<Rightarrow> catalog \<Rightarrow> int \<Rightarrow> int \<Rightarrow> string \<Rightarrow> string \<Rightarrow> category option"
where
  "mapped_category ci d tenant organization namespace key =
     List.find (\<lambda>c. list_ex (\<lambda>m. mp_category_id m = cg_id c \<and> mp_tenant_id m = cg_tenant_id c
         \<and> mp_organization_id m = cg_organization_id c \<and> mp_tenant_id m = tenant
         \<and> mp_organization_id m = organization \<and> ci (mp_connector_key m) namespace
         \<and> sql_bin_equal (mp_external_category_id m) key) (cat_mappings d)) (cat_categories d)"

definition category_operation_of :: "category \<Rightarrow> int option \<Rightarrow> string \<Rightarrow> int \<Rightarrow> string \<Rightarrow> category_operation" where
  "category_operation_of c parent name display_order status =
     (if (cg_parent_id c, cg_name c, cg_display_order c, cg_status c) = (parent, name, display_order, status)
      then UNCHANGED_CATEGORY else UPDATE_CATEGORY)"

definition resolve_category_binding ::
  "(string \<Rightarrow> string \<Rightarrow> bool) \<Rightarrow> catalog \<Rightarrow> int \<Rightarrow> int \<Rightarrow> string \<Rightarrow> string \<Rightarrow> category_error + category"
where
  "resolve_category_binding ci d tenant organization namespace key =
     bind_result (category_text namespace 128) (\<lambda>namespace.
     bind_result (category_text key 200) (\<lambda>key.
       case mapped_category ci d tenant organization namespace key of
         None \<Rightarrow> Inl CategoryScopeNotFoundError
       | Some c \<Rightarrow> Inr c))"

record category_request =
  cr_tenant_id :: int
  cr_organization_id :: int
  cr_binding_namespace :: string
  cr_category_key :: string
  cr_parent_category_key :: "string option"
  cr_name :: string
  cr_display_order :: "int option"
  cr_status :: string

definition plan_category ::
  "(string \<Rightarrow> string \<Rightarrow> bool) \<Rightarrow> catalog \<Rightarrow> category_request \<Rightarrow> bool \<Rightarrow> category_error + category_plan"
where
  "plan_category ci s q allow_unresolved_parent =
     (if (cr_organization_id q, cr_tenant_id q) \<notin> set (cat_organizations s) then Inl CategoryScopeNotFoundError else
     bind_result (category_text (cr_binding_namespace q) 128) (\<lambda>namespace.
     bind_result (category_text (cr_category_key q) 200) (\<lambda>key.
     bind_result (category_text (cr_name q) 200) (\<lambda>name.
     bind_result (category_order (cr_display_order q)) (\<lambda>display_order.
     bind_result (category_status (cr_status q)) (\<lambda>status.
     bind_result (case cr_parent_category_key q of None \<Rightarrow> Inr None
         | Some k \<Rightarrow> (case resolve_category_binding ci s (cr_tenant_id q) (cr_organization_id q) namespace k of
              Inr c \<Rightarrow> Inr (Some (cg_id c))
            | Inl e \<Rightarrow> if e = CategoryScopeNotFoundError \<and> allow_unresolved_parent then Inr None else Inl e))
       (\<lambda>parent.
       Inr (case mapped_category ci s (cr_tenant_id q) (cr_organization_id q) namespace key of
              None \<Rightarrow> \<lparr>cp_operation = CREATE_CATEGORY, cp_binding_namespace = namespace, cp_category_key = key,
                       cp_parent_category_id = parent, cp_category_id = None\<rparr>
            | Some c \<Rightarrow>
                \<lparr>cp_operation = (if cr_parent_category_key q \<noteq> None \<and> parent = None then UPDATE_CATEGORY
                    else category_operation_of c parent name display_order status),
                 cp_binding_namespace = namespace, cp_category_key = key,
                 cp_parent_category_id = parent, cp_category_id = Some (cg_id c)\<rparr>))))))))"

text \<open>The objects the plan left in the session: the category and its new parent, as the snapshot had them.\<close>

definition held_by_plan :: "catalog \<Rightarrow> category_plan \<Rightarrow> int \<Rightarrow> category option" where
  "held_by_plan s p i =
     (if Some i = cp_category_id p \<or> Some i = cp_parent_category_id p then find_row cg_id i (cat_categories s)
      else None)"

definition apply_category ::
  "(string \<Rightarrow> string \<Rightarrow> bool) \<Rightarrow> (int \<Rightarrow> category option) \<Rightarrow> catalog \<Rightarrow> category_request \<Rightarrow> category_plan
   \<Rightarrow> category \<Rightarrow> catalog \<Rightarrow> (category_error + (int \<times> category_operation \<times> catalog)) option"
where
  "apply_category ci held s q p c d =
     (let operation = category_operation_of c (cp_parent_category_id p) (strip (cr_name q))
            (case cr_display_order q of None \<Rightarrow> 0 | Some n \<Rightarrow> n) (upper (strip (cr_status q)));
          changes = \<lparr>chg_parent_id = Some (cp_parent_category_id p), chg_name = Some (cr_name q),
            chg_display_order = Some (cr_display_order q), chg_status = Some (cr_status q)\<rparr>
      in if operation = UPDATE_CATEGORY
         then map_option (\<lambda>r. bind_result r (\<lambda>d'. Inr (cg_id c, operation, d')))
                (update_category ci held s (cr_tenant_id q) (cg_id c) changes d)
         else Some (Inr (cg_id c, operation, d)))"

definition mappings_collide :: "(string \<Rightarrow> string \<Rightarrow> bool) \<Rightarrow> category_mapping \<Rightarrow> category_mapping \<Rightarrow> bool" where
  "mappings_collide ci a b \<longleftrightarrow> mp_tenant_id a = mp_tenant_id b \<and> mp_organization_id a = mp_organization_id b
     \<and> ci (mp_connector_key a) (mp_connector_key b)
     \<and> sql_bin_equal (mp_external_category_id a) (mp_external_category_id b)"

text \<open>
  \<^verbatim>\<open>provision_category\<close>. A category that cannot be inserted, or whose mapping cannot, is looked up again after
  a rollback: the session then holds nothing and reads the current tables.
\<close>

definition provision_category ::
  "(string \<Rightarrow> string \<Rightarrow> bool) \<Rightarrow> catalog \<Rightarrow> category_request \<Rightarrow> catalog
   \<Rightarrow> (category_error + (int \<times> category_operation \<times> catalog)) option"
where
  "provision_category ci s q d =
     (case plan_category ci s q False of
        Inl e \<Rightarrow> Some (Inl e)
      | Inr p \<Rightarrow>
     (case cp_category_id p of
        Some _ \<Rightarrow>
          (case resolve_category_binding ci d (cr_tenant_id q) (cr_organization_id q) (cp_binding_namespace p)
                  (cp_category_key p) of
             Inl e \<Rightarrow> Some (Inl e)
           | Inr c \<Rightarrow> apply_category ci (held_by_plan s p) s q p (as_held (held_by_plan s p) c) d)
      | None \<Rightarrow>
          (let recovered =
             (\<lambda>e. case mapped_category ci d (cr_tenant_id q) (cr_organization_id q) (cp_binding_namespace p)
                     (cp_category_key p) of
                 None \<Rightarrow> Some (Inl e)
               | Some winner \<Rightarrow> apply_category ci Map.empty d q p winner d)
           in case create_category ci s (cr_tenant_id q) (cr_organization_id q) (cp_parent_category_id p)
                     (cr_name q) (cr_display_order q) (cr_status q) d of
                Inl e \<Rightarrow> if e = CategoryConflictError then recovered CategoryConflictError else Some (Inl e)
              | Inr (i, d') \<Rightarrow>
                  let m = \<lparr>mp_tenant_id = cr_tenant_id q, mp_organization_id = cr_organization_id q,
                           mp_category_id = i, mp_connector_key = cp_binding_namespace p,
                           mp_external_category_id = cp_category_key p\<rparr>
                  in if list_ex (mappings_collide ci m) (cat_mappings d') then recovered CategoryIntegrityError
                     else Some (Inr (i, CREATE_CATEGORY, d'\<lparr>cat_mappings := cat_mappings d' @ [m]\<rparr>)))))"

end
