(* ===== verification/Decimals.thy ===== *)
theory Decimals
  imports Prelude "HOL-Library.Log_Nat"
begin

text \<open>
  Decimal arithmetic where the digits of the context matter: the default context of \<^verbatim>\<open>decimal\<close> has 28
  digits and rounds half to even, \<^verbatim>\<open>localcontext\<close> changes the number. What the rounding of an exact
  result to the context's digits can change, and what it cannot.
\<close>

section \<open>Decimal contexts\<close>

text \<open>
  \<^verbatim>\<open>ROUND_HALF_UP\<close> rounds a tie away from zero. \<^verbatim>\<open>x / y\<close> in a context of \<^theory_text>\<open>p\<close> digits is the exact
  quotient rounded half to even to \<^theory_text>\<open>p\<close> significant digits; \<^theory_text>\<open>digits_before\<close> is the number of digits of
  its whole part, negative when zeros follow the point.
\<close>

definition round_half_up :: "rat \<Rightarrow> int" where
  "round_half_up x = (if 0 \<le> x then \<lfloor>x + 1/2\<rfloor> else - \<lfloor>1/2 - x\<rfloor>)"

definition digits_before :: "rat \<Rightarrow> int" where
  "digits_before q =
     (case quotient_of q of (a, b) \<Rightarrow>
        let k = int (floorlog 10 (nat \<bar>a\<bar>)) - int (floorlog 10 (nat b))
        in if 10 powi k \<le> \<bar>q\<bar> then k + 1 else k)"

definition round_digits :: "nat \<Rightarrow> rat \<Rightarrow> rat" where
  "round_digits p q =
     (if q = 0 then 0
      else let e = int p - digits_before q in of_int (round_half_even (q * 10 powi e)) / 10 powi e)"

definition decimal_quotient :: "nat \<Rightarrow> rat \<Rightarrow> rat \<Rightarrow> rat" where
  "decimal_quotient p x y = round_digits p (x / y)"

section \<open>What a context changes\<close>

lemma floorlog_fraction:
  fixes a b :: nat
  assumes "0 < a" "0 < b"
  shows "(10 :: rat) powi (int (floorlog 10 a) - int (floorlog 10 b) - 1) \<le> of_nat a / of_nat b"
proof -
  have a: "10 ^ (floorlog 10 a - 1) \<le> a" and b: "b < 10 ^ floorlog 10 b"
    using floorlog_bounds[of a 10] floorlog_bounds[of b 10] assms by simp_all
  have "0 < floorlog 10 a" using assms by (simp add: floorlog_def)
  then obtain c where c: "floorlog 10 a = Suc c" using gr0_implies_Suc by blast
  have "(10 :: rat) powi (int (floorlog 10 a) - int (floorlog 10 b) - 1) = 10 powi (int c - int (floorlog 10 b))"
    by (simp add: c)
  also have "\<dots> = 10 ^ (floorlog 10 a - 1) / 10 ^ floorlog 10 b"
    by (simp add: c power_int_diff)
  also have "\<dots> \<le> of_nat a / of_nat b"
  proof (rule frac_le)
    have "of_nat (10 ^ (floorlog 10 a - 1)) \<le> (of_nat a :: rat)" using a by (rule of_nat_mono)
    then show "(10 :: rat) ^ (floorlog 10 a - 1) \<le> of_nat a" by simp
    have "of_nat b \<le> (of_nat (10 ^ floorlog 10 b) :: rat)" using b by (intro of_nat_mono) simp
    then show "of_nat b \<le> (10 :: rat) ^ floorlog 10 b" by simp
  qed (use assms in simp_all)
  finally show ?thesis .
qed

lemma digits_before_lower:
  assumes "0 < q"
  shows "10 powi (digits_before q - 1) \<le> q"
proof -
  obtain a b where ab: "quotient_of q = (a, b)" by fastforce
  then have q: "q = of_int a / of_int b" "0 < b" by (simp_all add: quotient_of_div quotient_of_denom_pos)
  then have "0 < a" using assms by (simp add: zero_less_divide_iff)
  then have nats: "q = of_nat (nat a) / of_nat (nat b)" "\<bar>a\<bar> = a" "0 < nat a" "0 < nat b"
    using q by simp_all
  define k where "k = int (floorlog 10 (nat \<bar>a\<bar>)) - int (floorlog 10 (nat b))"
  have "10 powi (k - 1) \<le> q"
    unfolding k_def nats(1,2) by (rule floorlog_fraction[OF nats(3,4)])
  moreover have "digits_before q = (if 10 powi k \<le> \<bar>q\<bar> then k + 1 else k)"
    unfolding digits_before_def ab prod.case Let_def k_def[symmetric] ..
  ultimately show ?thesis using assms by (cases "10 powi k \<le> \<bar>q\<bar>") simp_all
qed

lemma round_half_even_nonneg: "0 \<le> x \<Longrightarrow> 0 \<le> round_half_even x"
  by (auto simp: round_half_even_def Let_def)

text \<open>
  Below \<^theory_text>\<open>10 ^ m\<close> a context of \<^theory_text>\<open>p\<close> digits is within half a unit of the digit \<^theory_text>\<open>p - m\<close> after the
  point, and exact on what has at most that many digits there.
\<close>

lemma round_digits_near:
  assumes q: "0 < q" "q < 10 ^ m" and m: "m \<le> p"
  shows "\<bar>round_digits p q - q\<bar> \<le> 1 / (2 * 10 ^ (p - m))" "0 \<le> round_digits p q"
    "k \<le> p - m \<Longrightarrow> q * 10 ^ k \<in> \<int> \<Longrightarrow> round_digits p q = q"
proof -
  define e where "e = int p - digits_before q"
  have low: "(10 :: rat) powi (digits_before q - 1) < 10 powi int m"
    using digits_before_lower[OF q(1)] q(2) by (simp add: power_int_def)
  have "digits_before q - 1 < int m"
  proof (rule ccontr)
    assume "\<not> digits_before q - 1 < int m"
    then have "(10 :: rat) powi int m \<le> 10 powi (digits_before q - 1)" by (intro power_int_increasing) simp_all
    with low show False by simp
  qed
  then have "int (p - m) \<le> e" using m by (simp add: e_def of_nat_diff)
  then obtain n where n: "e = int n" "p - m \<le> n" by (metis nonneg_int_cases of_nat_le_iff of_nat_0_le_iff order_trans)
  have run: "round_digits p q = of_int (round_half_even (q * 10 ^ n)) / 10 ^ n"
    using q(1) by (simp add: round_digits_def e_def[symmetric] n(1) Let_def)
  have pos: "(0 :: rat) < 10 ^ n" by simp
  have "\<bar>of_int (round_half_even (q * 10 ^ n)) - q * 10 ^ n\<bar> \<le> 1 / 2" by (rule round_half_even_error)
  then have "\<bar>of_int (round_half_even (q * 10 ^ n)) / 10 ^ n - q\<bar> \<le> (1 / 2) / 10 ^ n"
    by (simp add: field_simps abs_le_iff)
  also have "(1 / 2 :: rat) / 10 ^ n \<le> (1 / 2) / 10 ^ (p - m)"
  proof (rule divide_left_mono)
    show "(10 :: rat) ^ (p - m) \<le> 10 ^ n" by (rule power_increasing) (use n(2) in simp_all)
  qed simp_all
  finally show "\<bar>round_digits p q - q\<bar> \<le> 1 / (2 * 10 ^ (p - m))" by (simp add: run)
  show "0 \<le> round_digits p q" unfolding run using q(1) round_half_even_nonneg[of "q * 10 ^ n"] by simp
  assume k: "k \<le> p - m" "q * 10 ^ k \<in> \<int>"
  then obtain z where z: "q * 10 ^ k = of_int z" by (elim Ints_cases)
  have "n = k + (n - k)" using n(2) k(1) by simp
  then have "10 ^ n = (10 :: rat) ^ k * 10 ^ (n - k)" by (metis power_add)
  then have whole: "q * 10 ^ n = of_int (z * 10 ^ (n - k))" using z by simp
  then have "round_half_even (q * 10 ^ n) = z * 10 ^ (n - k)" using round_half_even_of_int by metis
  with whole show "round_digits p q = q" unfolding run using pos
    by (metis nonzero_mult_div_cancel_right less_numeral_extra(3))
qed

text \<open>A rounding is not crossed when the value is a fraction with a small denominator.\<close>

lemma floor_not_crossed:
  fixes x y :: rat and A B :: int
  assumes "x = of_int A / of_int B" "0 < B" "\<bar>y - x\<bar> < 1 / of_int B" "x \<in> \<int> \<Longrightarrow> y = x"
  shows "\<lfloor>y\<rfloor> = \<lfloor>x\<rfloor>"
proof (cases "x \<in> \<int>")
  case False
  define f where "f = \<lfloor>x\<rfloor>"
  have "of_int f \<noteq> x" using False by auto
  then have f: "of_int f < x" "x < of_int f + 1" unfolding f_def by linarith+
  have B: "(0 :: rat) < of_int B" using assms(2) by simp
  have "of_int (f * B) < (of_int A :: rat)" "(of_int A :: rat) < of_int ((f + 1) * B)"
    using f B unfolding assms(1) by (simp_all add: field_simps)
  then have "f * B + 1 \<le> A" "A \<le> (f + 1) * B - 1" by (simp_all only: of_int_less_iff)
  then have "(of_int (f * B + 1) :: rat) \<le> of_int A" "(of_int A :: rat) \<le> of_int ((f + 1) * B - 1)"
    by (simp_all only: of_int_le_iff)
  moreover have "of_int (f * B + 1) / of_int B = of_int f + 1 / (of_int B :: rat)"
    "of_int ((f + 1) * B - 1) / of_int B = of_int f + 1 - 1 / (of_int B :: rat)"
    using B by (simp_all add: field_simps)
  ultimately have "of_int f + 1 / of_int B \<le> x" "x \<le> of_int f + 1 - 1 / of_int B"
    using divide_right_mono B less_imp_le unfolding assms(1) by metis+
  with assms(3) have "of_int f \<le> y" "y < of_int f + 1" by linarith+
  then show ?thesis unfolding f_def[symmetric] by (simp add: floor_unique)
qed (use assms in simp)

lemma round_half_up_of_int [simp]: "round_half_up (of_int n) = n"
proof -
  have "\<lfloor>(of_int n :: rat) + 1 / 2\<rfloor> = n" "\<lfloor>1 / 2 - (of_int n :: rat)\<rfloor> = - n"
    by (simp_all add: floor_unique)
  then show ?thesis by (simp add: round_half_up_def)
qed

lemma round_half_up_mono: "0 \<le> x \<Longrightarrow> x \<le> y \<Longrightarrow> round_half_up x \<le> round_half_up y"
  by (simp add: round_half_up_def floor_mono)

lemma round_half_up_error:
  assumes "0 \<le> x"
  shows "\<bar>of_int (round_half_up x) - x\<bar> \<le> 1 / 2"
proof -
  have "of_int \<lfloor>x + 1 / 2\<rfloor> \<le> x + 1 / 2" "x + 1 / 2 < of_int \<lfloor>x + 1 / 2\<rfloor> + 1" by linarith+
  then have "\<bar>of_int \<lfloor>x + 1 / 2\<rfloor> - x\<bar> \<le> 1 / 2" by linarith
  with assms show ?thesis by (simp add: round_half_up_def)
qed

section \<open>Either sign\<close>

lemma floor_uminus_cases:
  fixes x :: rat
  shows "\<lfloor>- x\<rfloor> = (if x = of_int \<lfloor>x\<rfloor> then - \<lfloor>x\<rfloor> else - \<lfloor>x\<rfloor> - 1)"
proof (cases "x = of_int \<lfloor>x\<rfloor>")
  case True
  then obtain n where n: "x = of_int n" by blast
  have "\<lfloor>- x\<rfloor> = - n" "\<lfloor>x\<rfloor> = n" by (simp_all add: n flip: of_int_minus)
  then show ?thesis by (simp add: n)
next
  case False
  have "of_int \<lfloor>x\<rfloor> \<le> x" "x < of_int \<lfloor>x\<rfloor> + 1" by linarith+
  with False have "of_int \<lfloor>x\<rfloor> < x" by linarith
  with \<open>x < of_int \<lfloor>x\<rfloor> + 1\<close> have "\<lfloor>- x\<rfloor> = - \<lfloor>x\<rfloor> - 1" by (intro floor_unique) simp_all
  with False show ?thesis by simp
qed

lemma round_half_even_uminus: "round_half_even (- x) = - round_half_even x"
proof (cases "x = of_int \<lfloor>x\<rfloor>")
  case True
  then have "round_half_even x = \<lfloor>x\<rfloor>" "- x = of_int (- \<lfloor>x\<rfloor>)"
    by (metis round_half_even_of_int, metis of_int_minus)
  then show ?thesis by (metis round_half_even_of_int)
next
  case False
  then have f: "\<lfloor>- x\<rfloor> = - \<lfloor>x\<rfloor> - 1" by (simp add: floor_uminus_cases)
  define d where "d = x - of_int \<lfloor>x\<rfloor>"
  have "- x - of_int \<lfloor>- x\<rfloor> = 1 - d" by (simp add: f d_def)
  then show ?thesis
    unfolding round_half_even_def Let_def f d_def[symmetric] by (auto simp: f)
qed

lemma digits_before_uminus: "digits_before (- q) = digits_before q"
  by (simp add: digits_before_def rat_uminus_code split_def Let_def)

lemma round_digits_uminus: "round_digits p (- q) = - round_digits p q"
  by (simp add: round_digits_def digits_before_uminus Let_def round_half_even_uminus)

lemma round_half_up_uminus: "round_half_up (- x) = - round_half_up x"
proof (cases "x = 0")
  case False
  then consider "0 < x" | "x < 0" by linarith
  then show ?thesis by cases (simp_all add: round_half_up_def algebra_simps)
next
  case True
  have "\<lfloor>1 / 2 :: rat\<rfloor> = 0" by (rule floor_unique) simp_all
  with True show ?thesis by (simp add: round_half_up_def)
qed

lemma round_digits_exact:
  assumes "\<bar>q\<bar> < 10 ^ m" "q * 10 ^ k \<in> \<int>" "m + k \<le> p"
  shows "round_digits p q = q"
proof (cases q "0 :: rat" rule: linorder_cases)
  case greater
  with assms show ?thesis using round_digits_near(3)[of q m p k] by simp
next
  case less
  moreover have "- q * 10 ^ k \<in> \<int>" using assms(2) by (simp add: Ints_minus)
  ultimately have "round_digits p (- q) = - q" using assms round_digits_near(3)[of "- q" m p k] by simp
  then show ?thesis by (simp add: round_digits_uminus)
qed (simp add: round_digits_def)

text \<open>What fits the digits of the context is not changed by it.\<close>

lemma round_digits_fits:
  assumes "q = of_int n / 10 ^ k" "\<bar>n\<bar> < 10 ^ p" "k \<le> p"
  shows "round_digits p q = q"
proof (rule round_digits_exact)
  have "\<bar>q\<bar> = of_int \<bar>n\<bar> / 10 ^ k" by (simp add: assms(1))
  also have "\<dots> < of_int (10 ^ p) / 10 ^ k"
    using assms(2) by (intro divide_strict_right_mono) (simp_all only: of_int_less_iff, simp)
  also have "\<dots> = 10 ^ (p - k)" using assms(3) by (simp add: power_diff)
  finally show "\<bar>q\<bar> < 10 ^ (p - k)" .
  show "q * 10 ^ k \<in> \<int>" by (simp add: assms(1))
qed (use assms(3) in simp)

lemma round_digits_nonneg: "0 \<le> x \<Longrightarrow> 0 \<le> round_digits p x"
  by (cases "x = 0") (auto simp: round_digits_def Let_def intro!: divide_nonneg_nonneg mult_nonneg_nonneg round_half_even_nonneg)

end
