(* ===== verification/TaxEvidence.thy ===== *)
theory TaxEvidence
  imports Catalog Decimals
begin

text \<open>
  The tax engine (\<^verbatim>\<open>app/restaurant/tax/service.py\<close>): which tax rule applies to a line of an order, and
  the decomposition of a price that includes the tax into base and tax. It reads under row locks and
  writes nothing, so it is a function of the rows it sees. \<^theory_text>\<open>sha\<close> is the digest of a canonical value.
\<close>

datatype tax_error =
    TaxClassificationUnavailableError | TaxRuleUnavailableError | TaxRuleAmbiguousError
  | TaxPolicyUnsupportedError | TaxTreatmentUnsupportedError | TaxEffectUnsupportedError
  | TaxCalculationError | TaxScopeViolationError

section \<open>Candidates and rules\<close>

datatype tax_treatment = TAXABLE | ZERO_RATE | EXEMPT

datatype tax_effect = TRANSFERRED | WITHHELD

text \<open>A \<^verbatim>\<open>datetime\<close> argument: none, naive, or aware with its distance from UTC.\<close>

datatype pytime = NotATime | NaiveTime datetime | AwareTime datetime int

fun utc_naive :: "pytime \<Rightarrow> datetime option" where
  "utc_naive NotATime = None"
| "utc_naive (NaiveTime t) = Some t"
| "utc_naive (AwareTime t offset) = Some (t - offset)"

record tax_line_candidate =
  tc_tenant_id :: int
  tc_organization_id :: int
  tc_location_id :: int
  tc_product_id :: int
  tc_product_tax_classification_code :: "string option"
  tc_effective_at :: pytime
  tc_tax_mode :: string
  tc_quantity :: pynum
  tc_unit_price :: pynum
  tc_base_amount :: pynum
  tc_discount_amount :: pynum
  tc_commercial_amount :: pynum
  tc_component_tax_classification_codes :: "string option list"

record tax_rule =
  tr_id :: int
  tr_tenant_id :: int
  tr_organization_id :: int
  tr_location_id :: "int option"
  tr_tax_classification_code :: string
  tr_jurisdiction_code :: string
  tr_tax_category :: string
  tr_tax_treatment :: string
  tr_tax_effect :: string
  tr_tax_rate :: pynum
  tr_calculation_policy :: string
  tr_rounding_policy :: string
  tr_effective_from :: datetime
  tr_effective_to :: "datetime option"
  tr_status :: string

record tax_tables =
  tx_organizations :: "(int \<times> int) list"
  tx_locations :: "location list"
  tx_products :: "product_row list"
  tx_rules :: "tax_rule list"

record tax_evidence =
  te_source_tax_rule_id :: int
  te_tax_category :: string
  te_tax_treatment :: tax_treatment
  te_tax_effect :: tax_effect
  te_tax_rate :: rat
  te_fiscal_unit_value :: rat
  te_fiscal_line_amount :: rat
  te_fiscal_discount_amount :: rat
  te_taxable_base :: rat
  te_tax_amount :: rat
  te_jurisdiction_code :: string
  te_calculation_policy :: string
  te_rounding_policy :: string
  te_schema_version :: int
  te_evidence_fingerprint :: string

definition CALCULATION_POLICY :: string where
  "CALCULATION_POLICY = ''INCLUDED_PRICE_SINGLE_TAX''"

definition TAX_ROUNDING_POLICY :: string where
  "TAX_ROUNDING_POLICY = ''DECIMAL_4_HALF_UP''"

definition EVIDENCE_SCHEMA_VERSION :: int where
  "EVIDENCE_SCHEMA_VERSION = 2"

definition MAX_MONEY :: rat where
  "MAX_MONEY = 9999999999999999999 / 10000"

definition MAX_RATE :: rat where
  "MAX_RATE = 999999999 / 1000000"

section \<open>Validation\<close>

definition money :: "pynum \<Rightarrow> bool \<Rightarrow> tax_error + rat" where
  "money value positive =
     (case value of
        PyNonFinite \<Rightarrow> Inl TaxCalculationError
      | PyOther \<Rightarrow> Inl TaxCalculationError
      | PyDecimal x \<Rightarrow>
          if x < 0 \<or> MAX_MONEY < x \<or> positive \<and> x = 0 then Inl TaxCalculationError
          else if of_int (round_half_up (x * 10000)) / 10000 \<noteq> x then Inl TaxCalculationError
          else Inr x)"

record line_money =
  lm_quantity :: rat
  lm_unit_price :: rat
  lm_base_amount :: rat
  lm_discount_amount :: rat
  lm_commercial_amount :: rat

definition validated_candidate :: "tax_line_candidate \<Rightarrow> tax_error + line_money" where
  "validated_candidate candidate =
     (if tc_tax_mode candidate \<noteq> ''INCLUDED'' then Inl TaxPolicyUnsupportedError else
      bind_result (money (tc_quantity candidate) True) (\<lambda>quantity.
      bind_result (money (tc_unit_price candidate) False) (\<lambda>unit_price.
      bind_result (money (tc_base_amount candidate) False) (\<lambda>base_amount.
      bind_result (money (tc_discount_amount candidate) False) (\<lambda>discount_amount.
      bind_result (money (tc_commercial_amount candidate) False) (\<lambda>commercial_amount.
        if base_amount \<noteq> unit_price * quantity then Inl TaxCalculationError
        else if base_amount < discount_amount then Inl TaxCalculationError
        else if commercial_amount \<noteq> base_amount - discount_amount then Inl TaxCalculationError
        else Inr \<lparr>lm_quantity = quantity, lm_unit_price = unit_price, lm_base_amount = base_amount,
                  lm_discount_amount = discount_amount,
                  lm_commercial_amount = commercial_amount\<rparr>))))))"

definition tax_classification :: "tax_line_candidate \<Rightarrow> tax_error + string" where
  "tax_classification candidate =
     (case tc_product_tax_classification_code candidate of
        None \<Rightarrow> Inl TaxClassificationUnavailableError
      | Some classification \<Rightarrow>
          if strip classification = [] then Inl TaxClassificationUnavailableError
          else if list_ex (\<lambda>v. v \<noteq> Some classification) (tc_component_tax_classification_codes candidate)
          then Inl TaxPolicyUnsupportedError
          else Inr classification)"

definition supported_rate :: "pynum \<Rightarrow> bool" where
  "supported_rate value = (case value of PyDecimal x \<Rightarrow> 0 \<le> x \<and> x \<le> MAX_RATE
     \<and> of_int (round_half_even (x * 1000000)) / 1000000 = x | _ \<Rightarrow> False)"

definition rate :: "tax_rule \<Rightarrow> tax_treatment \<Rightarrow> tax_error + rat" where
  "rate rule treatment =
     (case tr_tax_rate rule of
        PyNonFinite \<Rightarrow> Inl TaxCalculationError
      | PyOther \<Rightarrow> Inl TaxCalculationError
      | PyDecimal x \<Rightarrow>
          if \<not> supported_rate (PyDecimal x) then Inl TaxCalculationError
          else if treatment = TAXABLE \<and> x \<le> 0 then Inl TaxCalculationError
          else if treatment \<noteq> TAXABLE \<and> x \<noteq> 0 then Inl TaxCalculationError
          else Inr x)"

section \<open>The applicable rule\<close>

definition rule_effective :: "datetime \<Rightarrow> tax_rule \<Rightarrow> bool" where
  "rule_effective t r \<longleftrightarrow> tr_status r = ''ACTIVE'' \<and> tr_effective_from r \<le> t
     \<and> (case tr_effective_to r of None \<Rightarrow> True | Some e \<Rightarrow> t < e)"

definition tax_rules_for ::
  "tax_tables \<Rightarrow> int \<Rightarrow> int \<Rightarrow> int \<Rightarrow> string \<Rightarrow> datetime \<Rightarrow> tax_rule list"
where
  "tax_rules_for d tenant organization location classification effective_at =
     order_by tr_id (filter (\<lambda>r. tr_tenant_id r = tenant \<and> tr_organization_id r = organization
       \<and> sql_bin_equal (tr_tax_classification_code r) classification \<and> rule_effective effective_at r
       \<and> (tr_location_id r = Some location \<or> tr_location_id r = None)) (tx_rules d))"

definition select_rule ::
  "tax_line_candidate \<Rightarrow> string \<Rightarrow> datetime \<Rightarrow> tax_rule list \<Rightarrow> tax_error + tax_rule"
where
  "select_rule candidate classification effective_at rules =
     (if list_ex (\<lambda>r. tr_tenant_id r \<noteq> tc_tenant_id candidate
             \<or> tr_organization_id r \<noteq> tc_organization_id candidate
             \<or> tr_tax_classification_code r \<noteq> classification
             \<or> tr_location_id r \<notin> {None, Some (tc_location_id candidate)}) rules
      then Inl TaxScopeViolationError
      else
        (let applicable = filter (rule_effective effective_at) rules;
             location_rules = filter (\<lambda>r. tr_location_id r = Some (tc_location_id candidate)) applicable;
             candidates = (if location_rules \<noteq> [] then location_rules
                           else filter (\<lambda>r. tr_location_id r = None) applicable)
         in case candidates of
              [] \<Rightarrow> Inl TaxRuleUnavailableError
            | r # rest \<Rightarrow> if rest = [] then Inr r else Inl TaxRuleAmbiguousError))"

section \<open>The decomposition of an included price\<close>

definition pre_tax :: "rat \<Rightarrow> rat \<Rightarrow> tax_treatment \<Rightarrow> rat" where
  "pre_tax amount tax_rate treatment =
     (if treatment \<in> {ZERO_RATE, EXEMPT} then amount
      else of_int (round_half_up (decimal_quotient 50 amount (1 + tax_rate) * 10000)) / 10000)"

definition calculate_tax ::
  "line_money \<Rightarrow> rat \<Rightarrow> tax_treatment \<Rightarrow> tax_error + (rat \<times> rat \<times> rat \<times> rat \<times> rat)"
where
  "calculate_tax values tax_rate treatment =
     (let unit_value = pre_tax (lm_unit_price values) tax_rate treatment;
          line_amount = pre_tax (lm_base_amount values) tax_rate treatment;
          base = pre_tax (lm_commercial_amount values) tax_rate treatment;
          discount = line_amount - base;
          tax = lm_commercial_amount values - base
      in if unit_value < 0 \<or> line_amount < 0 \<or> discount < 0 \<or> base < 0 \<or> tax < 0
            \<or> line_amount - discount \<noteq> base \<or> base + tax \<noteq> lm_commercial_amount values
         then Inl TaxCalculationError
         else Inr (unit_value, line_amount, discount, base, tax))"

fun tax_treatment_value :: "tax_treatment \<Rightarrow> string" where
  "tax_treatment_value TAXABLE = ''TAXABLE''"
| "tax_treatment_value ZERO_RATE = ''ZERO_RATE''"
| "tax_treatment_value EXEMPT = ''EXEMPT''"

definition parse_tax_treatment :: "string \<Rightarrow> tax_treatment option" where
  "parse_tax_treatment s =
     (if s = ''TAXABLE'' then Some TAXABLE else if s = ''ZERO_RATE'' then Some ZERO_RATE
      else if s = ''EXEMPT'' then Some EXEMPT else None)"

fun tax_effect_value :: "tax_effect \<Rightarrow> string" where
  "tax_effect_value TRANSFERRED = ''TRANSFERRED''"
| "tax_effect_value WITHHELD = ''WITHHELD''"

definition parse_tax_effect :: "string \<Rightarrow> tax_effect option" where
  "parse_tax_effect s =
     (if s = ''TRANSFERRED'' then Some TRANSFERRED else if s = ''WITHHELD'' then Some WITHHELD
      else None)"

text \<open>\<^verbatim>\<open>format(rate, 'f')\<close> of a rate with six decimals.\<close>

definition rate_str :: "rat \<Rightarrow> string" where
  "rate_str x =
     (let n = nat (round_half_even (x * 1000000)); w = n div 1000000; r = n mod 1000000
      in str_nat w @ ''.'' @ replicate (6 - length (str_nat r)) (CHR ''0'') @ str_nat r)"

definition tax_fingerprint_payload ::
  "tax_line_candidate \<Rightarrow> string \<Rightarrow> line_money \<Rightarrow> tax_rule \<Rightarrow> tax_treatment \<Rightarrow> tax_effect \<Rightarrow> rat
   \<Rightarrow> rat \<times> rat \<times> rat \<times> rat \<times> rat \<Rightarrow> json"
where
  "tax_fingerprint_payload candidate classification values rule treatment effect tax_rate amounts =
     (case amounts of (unit_value, line_amount, discount, base, tax) \<Rightarrow> JObj [
        (''schema_version'', JInt EVIDENCE_SCHEMA_VERSION),
        (''tenant_id'', JInt (tc_tenant_id candidate)),
        (''organization_id'', JInt (tc_organization_id candidate)),
        (''location_id'', JInt (tc_location_id candidate)),
        (''product_id'', JInt (tc_product_id candidate)),
        (''tax_classification_code'', JStr classification),
        (''tax_mode'', JStr (tc_tax_mode candidate)),
        (''quantity'', JStr (money_str (lm_quantity values))),
        (''unit_price'', JStr (money_str (lm_unit_price values))),
        (''base_amount'', JStr (money_str (lm_base_amount values))),
        (''discount_amount'', JStr (money_str (lm_discount_amount values))),
        (''commercial_amount'', JStr (money_str (lm_commercial_amount values))),
        (''component_tax_classification_codes'',
           JArr (map (json_opt JStr) (tc_component_tax_classification_codes candidate))),
        (''source_tax_rule_id'', JInt (tr_id rule)),
        (''tax_category'', JStr (tr_tax_category rule)),
        (''tax_treatment'', JStr (tax_treatment_value treatment)),
        (''tax_effect'', JStr (tax_effect_value effect)),
        (''tax_rate'', JStr (rate_str tax_rate)),
        (''fiscal_unit_value'', JStr (money_str unit_value)),
        (''fiscal_line_amount'', JStr (money_str line_amount)),
        (''fiscal_discount_amount'', JStr (money_str discount)),
        (''taxable_base'', JStr (money_str base)),
        (''tax_amount'', JStr (money_str tax)),
        (''jurisdiction_code'', JStr (tr_jurisdiction_code rule)),
        (''calculation_policy'', JStr (tr_calculation_policy rule)),
        (''rounding_policy'', JStr (tr_rounding_policy rule))])"

text \<open>What follows once the rule is known.\<close>

definition evidence_of_rule ::
  "(json \<Rightarrow> string) \<Rightarrow> tax_line_candidate \<Rightarrow> string \<Rightarrow> line_money \<Rightarrow> tax_rule \<Rightarrow> tax_error + tax_evidence"
where
  "evidence_of_rule sha candidate classification values rule =
     (if tr_calculation_policy rule \<noteq> CALCULATION_POLICY then Inl TaxPolicyUnsupportedError
      else if tr_rounding_policy rule \<noteq> TAX_ROUNDING_POLICY then Inl TaxPolicyUnsupportedError else
     (case parse_tax_treatment (tr_tax_treatment rule) of
        None \<Rightarrow> Inl TaxTreatmentUnsupportedError
      | Some treatment \<Rightarrow>
     (case parse_tax_effect (tr_tax_effect rule) of
        None \<Rightarrow> Inl TaxEffectUnsupportedError
      | Some effect \<Rightarrow>
     if effect \<noteq> TRANSFERRED then Inl TaxEffectUnsupportedError else
     bind_result (rate rule treatment) (\<lambda>tax_rate.
     bind_result (calculate_tax values tax_rate treatment) (\<lambda>(unit_value, line_amount, discount, base, tax).
       Inr \<lparr>te_source_tax_rule_id = tr_id rule, te_tax_category = tr_tax_category rule,
            te_tax_treatment = treatment, te_tax_effect = effect, te_tax_rate = tax_rate,
            te_fiscal_unit_value = unit_value, te_fiscal_line_amount = line_amount,
            te_fiscal_discount_amount = discount, te_taxable_base = base, te_tax_amount = tax,
            te_jurisdiction_code = tr_jurisdiction_code rule,
            te_calculation_policy = tr_calculation_policy rule,
            te_rounding_policy = tr_rounding_policy rule,
            te_schema_version = EVIDENCE_SCHEMA_VERSION,
            te_evidence_fingerprint = sha (tax_fingerprint_payload candidate classification values rule
              treatment effect tax_rate (unit_value, line_amount, discount, base, tax))\<rparr>)))))"

definition resolve_tax_evidence ::
  "(json \<Rightarrow> string) \<Rightarrow> tax_tables \<Rightarrow> tax_line_candidate \<Rightarrow> tax_error + tax_evidence"
where
  "resolve_tax_evidence sha d candidate =
     bind_result (tax_classification candidate) (\<lambda>classification.
     bind_result (validated_candidate candidate) (\<lambda>values.
     (case utc_naive (tc_effective_at candidate) of
        None \<Rightarrow> Inl TaxCalculationError
      | Some effective_at \<Rightarrow>
     (case List.find (\<lambda>p. pd_id p = tc_product_id candidate \<and> pd_tenant_id p = tc_tenant_id candidate
             \<and> pd_organization_id p = tc_organization_id candidate) (tx_products d) of
        None \<Rightarrow> Inl TaxScopeViolationError
      | Some product \<Rightarrow>
     (case pd_tax_classification_code product of
        None \<Rightarrow> Inl TaxClassificationUnavailableError
      | Some code \<Rightarrow>
     if code \<noteq> classification then Inl TaxScopeViolationError
     else if List.find (\<lambda>l. loc_id l = tc_location_id candidate \<and> loc_tenant_id l = tc_tenant_id candidate
             \<and> loc_organization_id l = tc_organization_id candidate) (tx_locations d) = None
     then Inl TaxScopeViolationError
     else
     bind_result (select_rule candidate classification effective_at
         (tax_rules_for d (tc_tenant_id candidate) (tc_organization_id candidate)
            (tc_location_id candidate) classification effective_at))
       (evidence_of_rule sha candidate classification values))))))"

end
