(* ===== verification/TaxProofs.thy ===== *)
theory TaxProofs
  imports TaxEvidence
begin

text \<open>The tax decomposition is exact to half a unit, total on what is validated, and its rule is unique.\<close>

section \<open>Fifty digits\<close>

text \<open>A quotient below \<^theory_text>\<open>10 ^ 15\<close> in fifty digits: within \<^theory_text>\<open>10 ^ -35\<close>, and exact when it has five decimals.\<close>

lemma round_digits_50:
  assumes "0 < q" "q < 10 ^ 15"
  shows "\<bar>round_digits 50 q - q\<bar> \<le> 1 / (2 * 10 ^ 35)" "0 \<le> round_digits 50 q"
    "q * 10 ^ 5 \<in> \<int> \<Longrightarrow> round_digits 50 q = q"
  using round_digits_near[OF assms, of 50] round_digits_near(3)[OF assms, of 50 5] by simp_all

lemma pre_tax_exact:
  assumes amount: "amount = of_int n / 10000" "0 \<le> amount" "amount \<le> MAX_MONEY"
    and rate: "r = of_int m / 1000000" "0 \<le> r" "r \<le> MAX_RATE"
  shows "round_half_up (decimal_quotient 50 amount (1 + r) * 10000)
    = round_half_up (amount / (1 + r) * 10000)"
proof (cases "amount = 0")
  case True
  then show ?thesis by (simp add: decimal_quotient_def round_digits_def)
next
  case False
  define q where "q = amount / (1 + r)"
  define B where "B = 1000000 + m"
  have pos: "0 < amount" "0 < 1 + r" using False amount(2) rate(2) by simp_all
  then have "0 < q" by (simp add: q_def)
  have "q \<le> amount" unfolding q_def using pos rate(2) by (simp add: divide_le_eq mult_le_cancel_left1 not_less)
  also have "amount < 10 ^ 15" using amount(3) by (simp add: MAX_MONEY_def)
  finally have small: "q < 10 ^ 15" .
  note near = round_digits_50[OF \<open>0 < q\<close> small]
  have m: "0 \<le> m" "m \<le> 999999999" using rate by (simp_all add: MAX_RATE_def)
  then have B: "0 < B" "B \<le> 1000999999" by (simp_all add: B_def)
  have scale: "1 + r = of_int B / 1000000" by (simp add: rate(1) B_def field_simps)
  have fraction: "q * 10000 + 1 / 2 = of_int (2 * n * 1000000 + B) / of_int (2 * B)"
    unfolding q_def scale amount(1) using B(1) by (simp add: field_simps)
  have close: "\<bar>round_digits 50 q * 10000 + 1 / 2 - (q * 10000 + 1 / 2)\<bar> < 1 / of_int (2 * B)"
  proof -
    have "\<bar>round_digits 50 q * 10000 + 1 / 2 - (q * 10000 + 1 / 2)\<bar> = \<bar>round_digits 50 q - q\<bar> * 10000"
    proof -
      have "round_digits 50 q * 10000 + 1 / 2 - (q * 10000 + 1 / 2) = (round_digits 50 q - q) * 10000"
        by (simp add: left_diff_distrib)
      then show ?thesis by (simp only: abs_mult)
    qed
    also have "\<dots> \<le> 1 / (2 * 10 ^ 35) * 10000" using near(1) by (intro mult_right_mono) simp_all
    also have "\<dots> < 1 / 2001999998" by simp
    also have "\<dots> \<le> 1 / of_int (2 * B)"
    proof (rule divide_left_mono)
      have "of_int (2 * B) \<le> (of_int 2001999998 :: rat)" using B(2) by (subst of_int_le_iff) simp
      then show "of_int (2 * B) \<le> (2001999998 :: rat)" by simp
    qed (use B(1) in simp_all)
    finally show ?thesis .
  qed
  have tie: "round_digits 50 q * 10000 + 1 / 2 = q * 10000 + 1 / 2" if "q * 10000 + 1 / 2 \<in> \<int>"
  proof -
    from that obtain z where "q * 10000 + 1 / 2 = of_int z" by (rule Ints_cases)
    then have "q * 10 ^ 5 = of_int (10 * z - 5)" by simp
    then have "q * 10 ^ 5 \<in> \<int>" by (metis Ints_of_int)
    from near(3)[OF this] show ?thesis by simp
  qed
  have "\<lfloor>round_digits 50 q * 10000 + 1 / 2\<rfloor> = \<lfloor>q * 10000 + 1 / 2\<rfloor>"
    by (rule floor_not_crossed[OF fraction _ close tie]) (use B(1) in simp)
  moreover have "0 \<le> round_digits 50 q * 10000" "0 \<le> q * 10000" using near(2) \<open>0 < q\<close> by simp_all
  ultimately show ?thesis
    by (simp add: round_half_up_def decimal_quotient_def q_def[symmetric])
qed


section \<open>The decomposition\<close>

lemma money_units:
  assumes "money value positive = Inr x"
  obtains n where "x = of_int n / 10000" "0 \<le> x" "x \<le> MAX_MONEY"
proof -
  from assms have "of_int (round_half_up (x * 10000)) / 10000 = x" "0 \<le> x" "x \<le> MAX_MONEY"
    by (auto simp: money_def split: pynum.splits if_splits)
  with that[of "round_half_up (x * 10000)"] show thesis by simp
qed

definition exact_pre_tax :: "rat \<Rightarrow> rat \<Rightarrow> rat" where
  "exact_pre_tax amount r = of_int (round_half_up (amount / (1 + r) * 10000)) / 10000"

lemma pre_tax_bounds:
  assumes amount: "amount = of_int n / 10000" "0 \<le> amount" "amount \<le> MAX_MONEY"
    and rate: "r = of_int m / 1000000" "0 \<le> r" "r \<le> MAX_RATE"
  shows "pre_tax amount r TAXABLE = exact_pre_tax amount r" "0 \<le> pre_tax amount r TAXABLE"
    "pre_tax amount r TAXABLE \<le> amount" "\<bar>pre_tax amount r TAXABLE * (1 + r) - amount\<bar> \<le> (1 + r) / 20000"
proof -
  have pos: "0 < 1 + r" using rate(2) by simp
  define x where "x = amount / (1 + r) * 10000"
  have x: "0 \<le> x" "x \<le> of_int n"
    using amount pos rate(2) by (simp_all add: x_def divide_le_eq mult_le_cancel_left1)
  show eq: "pre_tax amount r TAXABLE = exact_pre_tax amount r"
    using pre_tax_exact[OF assms] by (simp add: pre_tax_def exact_pre_tax_def)
  then have run: "pre_tax amount r TAXABLE = of_int (round_half_up x) / 10000" by (simp add: exact_pre_tax_def x_def)
  have "0 \<le> round_half_up x" using round_half_up_mono[of 0 x] x(1) round_half_up_of_int[of 0] by simp
  then show "0 \<le> pre_tax amount r TAXABLE" by (simp add: run)
  have "round_half_up x \<le> n" using round_half_up_mono[OF x] by simp
  then show "pre_tax amount r TAXABLE \<le> amount" unfolding run by (simp add: amount(1) divide_right_mono)
  have "\<bar>(of_int (round_half_up x) - x) * ((1 + r) / 10000)\<bar> \<le> 1 / 2 * ((1 + r) / 10000)"
    unfolding abs_mult using round_half_up_error[OF x(1)] pos by (intro mult_mono) simp_all
  moreover have "(of_int (round_half_up x) - x) * ((1 + r) / 10000) = pre_tax amount r TAXABLE * (1 + r) - amount"
    unfolding run x_def using pos by (simp add: field_simps)
  ultimately have "\<bar>pre_tax amount r TAXABLE * (1 + r) - amount\<bar> \<le> 1 / 2 * ((1 + r) / 10000)" by metis
  then show "\<bar>pre_tax amount r TAXABLE * (1 + r) - amount\<bar> \<le> (1 + r) / 20000" by (simp del: abs_le_iff)
qed

lemma exact_pre_tax_mono:
  assumes "0 \<le> a" "a \<le> b" "0 \<le> r"
  shows "exact_pre_tax a r \<le> exact_pre_tax b r"
proof -
  have "a / (1 + r) * 10000 \<le> b / (1 + r) * 10000" using assms by (intro mult_right_mono divide_right_mono) simp_all
  then have "round_half_up (a / (1 + r) * 10000) \<le> round_half_up (b / (1 + r) * 10000)"
    using assms by (intro round_half_up_mono) simp_all
  then show ?thesis unfolding exact_pre_tax_def by (intro divide_right_mono) simp_all
qed

text \<open>The amounts of a validated candidate and a validated rate.\<close>

definition line_ok :: "line_money \<Rightarrow> bool" where
  "line_ok v \<longleftrightarrow> (\<exists>u b d c. lm_unit_price v = of_int u / 10000 \<and> lm_base_amount v = of_int b / 10000
      \<and> lm_discount_amount v = of_int d / 10000 \<and> lm_commercial_amount v = of_int c / 10000)
    \<and> 0 \<le> lm_unit_price v \<and> lm_unit_price v \<le> MAX_MONEY
    \<and> 0 \<le> lm_base_amount v \<and> lm_base_amount v \<le> MAX_MONEY \<and> 0 \<le> lm_discount_amount v
    \<and> 0 \<le> lm_commercial_amount v \<and> lm_commercial_amount v \<le> MAX_MONEY
    \<and> lm_commercial_amount v = lm_base_amount v - lm_discount_amount v"

lemma validated_line: "validated_candidate candidate = Inr v \<Longrightarrow> line_ok v"
  unfolding validated_candidate_def line_ok_def
  by (auto simp: bind_result_Inr_iff elim!: money_units split: if_splits)

lemma rate_units:
  assumes "rate rule treatment = Inr r"
  shows "\<exists>m. r = of_int m / 1000000" "0 \<le> r" "r \<le> MAX_RATE" "treatment \<noteq> TAXABLE \<Longrightarrow> r = 0"
    "treatment = TAXABLE \<Longrightarrow> 0 < r"
  using assms
  by (auto simp: rate_def supported_rate_def split: pynum.splits if_splits) metis

lemma calculation_succeeds:
  assumes v: "line_ok v" and r: "\<exists>m. r = of_int m / 1000000" "0 \<le> r" "r \<le> MAX_RATE" "treatment \<noteq> TAXABLE \<Longrightarrow> r = 0"
  shows "\<exists>unit line discount base tax. calculate_tax v r treatment = Inr (unit, line, discount, base, tax)
    \<and> base + tax = lm_commercial_amount v \<and> line - discount = base \<and> 0 \<le> unit \<and> 0 \<le> line \<and> 0 \<le> discount
    \<and> 0 \<le> base \<and> 0 \<le> tax \<and> \<bar>base * (1 + r) - lm_commercial_amount v\<bar> \<le> (1 + r) / 20000
    \<and> (treatment \<noteq> TAXABLE \<longrightarrow> tax = 0)"
proof -
  from v obtain u b d c where
    units: "lm_unit_price v = of_int u / 10000" "lm_base_amount v = of_int b / 10000"
      "lm_commercial_amount v = of_int c / 10000"
    and bounds: "0 \<le> lm_unit_price v" "lm_unit_price v \<le> MAX_MONEY"
      "0 \<le> lm_base_amount v" "lm_base_amount v \<le> MAX_MONEY" "0 \<le> lm_discount_amount v"
      "0 \<le> lm_commercial_amount v" "lm_commercial_amount v \<le> MAX_MONEY"
      "lm_commercial_amount v = lm_base_amount v - lm_discount_amount v"
    unfolding line_ok_def by blast
  show ?thesis
  proof (cases "treatment = TAXABLE")
    case True
    from r(1) obtain m where m: "r = of_int m / 1000000" by blast
    note unit = pre_tax_bounds[OF units(1) bounds(1,2) m r(2,3)]
    note line = pre_tax_bounds[OF units(2) bounds(3,4) m r(2,3)]
    note base = pre_tax_bounds[OF units(3) bounds(6,7) m r(2,3)]
    have "pre_tax (lm_commercial_amount v) r TAXABLE \<le> pre_tax (lm_base_amount v) r TAXABLE"
      unfolding base(1) line(1) using bounds r(2) by (intro exact_pre_tax_mono) simp_all
    with True unit(2) line(2) base(2-4) show ?thesis by (simp add: calculate_tax_def Let_def)
  next
    case False
    then have "treatment \<in> {ZERO_RATE, EXEMPT}" by (cases treatment) simp_all
    then have same: "pre_tax a r treatment = a" for a by (simp add: pre_tax_def)
    show ?thesis using False bounds r(4)[OF False] unfolding calculate_tax_def Let_def same by simp
  qed
qed

lemma evidence_success:
  assumes "resolve_tax_evidence sha d candidate = Inr e"
  obtains classification v t rule amounts where "tax_classification candidate = Inr classification"
    "validated_candidate candidate = Inr v" "utc_naive (tc_effective_at candidate) = Some t"
    "select_rule candidate classification t (tax_rules_for d (tc_tenant_id candidate)
       (tc_organization_id candidate) (tc_location_id candidate) classification t) = Inr rule"
    "evidence_of_rule sha candidate classification v rule = Inr e"
proof -
  from assms obtain classification v where c: "tax_classification candidate = Inr classification"
    "validated_candidate candidate = Inr v"
    by (auto simp: resolve_tax_evidence_def bind_result_Inr_iff)
  note run = assms[unfolded resolve_tax_evidence_def c bind_result.simps]
  obtain t where t: "utc_naive (tc_effective_at candidate) = Some t"
    using run by (cases "utc_naive (tc_effective_at candidate)") simp_all
  note run = run[unfolded t option.case]
  have "\<exists>rule. select_rule candidate classification t (tax_rules_for d (tc_tenant_id candidate)
       (tc_organization_id candidate) (tc_location_id candidate) classification t) = Inr rule
     \<and> evidence_of_rule sha candidate classification v rule = Inr e"
    using run unfolding bind_result_Inr_iff[symmetric]
    by (simp split: option.splits if_splits)
  then show thesis using that[OF c(1) c(2) t] by blast
qed

lemma evidence_of_rule_success:
  assumes "evidence_of_rule sha candidate classification v rule = Inr e"
  obtains treatment r unit line discount base tax where "rate rule treatment = Inr r"
    "calculate_tax v r treatment = Inr (unit, line, discount, base, tax)"
    "te_tax_treatment e = treatment" "te_tax_rate e = r" "te_fiscal_unit_value e = unit"
    "te_fiscal_line_amount e = line" "te_fiscal_discount_amount e = discount" "te_taxable_base e = base"
    "te_tax_amount e = tax" "te_source_tax_rule_id e = tr_id rule"
  using assms
  by (auto simp: evidence_of_rule_def bind_result_Inr_iff split: option.splits if_splits)

lemma evidence_parts:
  assumes "resolve_tax_evidence sha d candidate = Inr e"
    and "tc_commercial_amount candidate = PyDecimal amount"
  shows "te_taxable_base e + te_tax_amount e = amount
    \<and> te_fiscal_line_amount e - te_fiscal_discount_amount e = te_taxable_base e
    \<and> 0 \<le> te_taxable_base e \<and> 0 \<le> te_tax_amount e \<and> 0 \<le> te_fiscal_discount_amount e
    \<and> 0 \<le> te_fiscal_unit_value e
    \<and> \<bar>te_taxable_base e * (1 + te_tax_rate e) - amount\<bar> \<le> (1 + te_tax_rate e) / 20000
    \<and> (te_tax_treatment e \<noteq> TAXABLE \<longrightarrow> te_tax_amount e = 0)"
proof -
  obtain classification v t rule where run: "validated_candidate candidate = Inr v"
    "evidence_of_rule sha candidate classification v rule = Inr e"
    using assms(1) by (rule evidence_success)
  obtain treatment r unit line discount base tax where parts: "rate rule treatment = Inr r"
    "calculate_tax v r treatment = Inr (unit, line, discount, base, tax)"
    "te_tax_treatment e = treatment" "te_tax_rate e = r" "te_fiscal_unit_value e = unit"
    "te_fiscal_line_amount e = line" "te_fiscal_discount_amount e = discount" "te_taxable_base e = base"
    "te_tax_amount e = tax"
    using run(2) by (rule evidence_of_rule_success)
  have "lm_commercial_amount v = amount"
    using run(1) assms(2) by (auto simp: validated_candidate_def bind_result_Inr_iff money_def split: if_splits)
  with calculation_succeeds[OF validated_line[OF run(1)] rate_units(1-3)[OF parts(1)],
      of treatment] rate_units(4)[OF parts(1)] parts(2)
  show ?thesis by (auto simp: parts(3-9))
qed


text \<open>
  The arithmetic never fails: for every validated line and every supported rate the decomposition
  passes all of its own consistency checks, so the error it could raise is never raised.
\<close>

theorem decomposition_never_fails:
  assumes "validated_candidate candidate = Inr v" and "rate rule treatment = Inr r"
  shows "\<exists>parts. calculate_tax v r treatment = Inr parts"
  using calculation_succeeds[OF validated_line[OF assms(1)] rate_units(1-4)[OF assms(2)]] by blast

text \<open>
  C36: Fifty digits are enough: the division in the fifty digit context followed by the rounding to four
  decimals gives the exact quotient rounded half up, for every money amount and every supported rate;
  the two roundings never add up.
\<close>

theorem fifty_digits_suffice:
  assumes "money value positive = Inr amount" and "rate rule TAXABLE = Inr r"
  shows "pre_tax amount r TAXABLE = of_int \<lfloor>amount / (1 + r) * 10000 + 1 / 2\<rfloor> / 10000"
proof -
  obtain n where n: "amount = of_int n / 10000" "0 \<le> amount" "amount \<le> MAX_MONEY"
    using assms(1) by (rule money_units)
  obtain m where m: "r = of_int m / 1000000" using rate_units(1)[OF assms(2)] by blast
  note rest = rate_units(2,3)[OF assms(2)]
  have "0 \<le> amount / (1 + r) * 10000" using n(2) rest(1) by simp
  then show ?thesis using pre_tax_bounds(1)[OF n m rest] by (simp add: exact_pre_tax_def round_half_up_def)
qed

text \<open>
  The rule of a line is in force at the instant of the line for its classification, it is a rule of
  the location when the location has one in force and otherwise one of the organization, and it is the
  only one of that precedence.
\<close>

theorem applicable_rule_is_unique:
  assumes "select_rule candidate classification t (tax_rules_for d tenant organization location classification t) = Inr r"
    and "tc_location_id candidate = location"
  shows "r \<in> set (tx_rules d) \<and> rule_effective t r \<and> tr_tax_classification_code r = classification
    \<and> (\<forall>x \<in> set (tax_rules_for d tenant organization location classification t).
         x = r \<or> tr_location_id x = None \<and> tr_location_id r = Some location)"
proof -
  let ?rules = "tax_rules_for d tenant organization location classification t"
  let ?local = "filter (\<lambda>r. tr_location_id r = Some location) (filter (rule_effective t) ?rules)"
  let ?all = "filter (\<lambda>r. tr_location_id r = None) (filter (rule_effective t) ?rules)"
  have scope: "\<forall>x \<in> set ?rules. rule_effective t x \<and> x \<in> set (tx_rules d)
      \<and> (tr_location_id x = Some location \<or> tr_location_id x = None)"
    by (auto simp: tax_rules_for_def order_by_def)
  from assms have code: "\<forall>x \<in> set ?rules. tr_tax_classification_code x = classification"
    and only: "(if ?local \<noteq> [] then ?local else ?all) = [r]"
    by (auto simp: select_rule_def Let_def list_ex_iff split: if_splits list.splits)
  show ?thesis
  proof (cases "?local = []")
    case True
    with only have "?all = [r]" by simp
    then have all: "set ?all = {r}" by simp
    have "\<forall>x \<in> set ?rules. tr_location_id x \<noteq> Some location" using True scope by (auto simp: filter_empty_conv)
    with all scope code show ?thesis by auto
  next
    case False
    with only have "?local = [r]" by simp
    then have "set ?local = {r}" by simp
    with scope code show ?thesis by auto
  qed
qed

end
