(* ===== verification/TaxRules.thy ===== *)
theory TaxRules
  imports TaxEvidence
begin

text \<open>
  The provisioning of tax rules (\<^verbatim>\<open>app/restaurant/tax/provisioning.py\<close>). A command plans twice: once on
  the snapshot of its transaction, once after it has locked the organization, where it reads the rules
  as they are committed. \<^theory_text>\<open>s\<close> is the snapshot, \<^theory_text>\<open>d\<close> what the locking reads see; a location is read
  without a lock and so from the snapshot both times. A \<^verbatim>\<open>DateTime()\<close> column keeps whole seconds, to
  which the database rounds what it is given.
\<close>

datatype provisioning_error =
    TaxRuleProvisioningError | TaxRuleScopeError | TaxRuleConflictError
  | TaxRuleConstraintError  \<comment> \<open>the statement is refused by a constraint of the table\<close>
  | TaxRuleAssertionError   \<comment> \<open>an \<^verbatim>\<open>assert\<close> fails\<close>

datatype rule_operation = CREATE_RULE | UPDATE_RULE | UNCHANGED_RULE

text \<open>A text argument is \<^const>\<open>None\<close> when it is no \<^verbatim>\<open>str\<close>; \<^theory_text>\<open>rq_effective_to\<close> is \<^const>\<open>None\<close> for \<^verbatim>\<open>None\<close>.\<close>

record rule_request =
  rq_tenant_id :: int
  rq_organization_id :: int
  rq_location_id :: "int option"
  rq_tax_classification_code :: "string option"
  rq_jurisdiction_code :: "string option"
  rq_tax_category :: "string option"
  rq_tax_treatment :: "string option"
  rq_tax_effect :: "string option"
  rq_tax_rate :: pynum
  rq_calculation_policy :: "string option"
  rq_rounding_policy :: "string option"
  rq_effective_from :: pytime
  rq_effective_to :: "pytime option"
  rq_status :: "string option"

record rule_values =
  rv_tax_classification_code :: string
  rv_jurisdiction_code :: string
  rv_tax_category :: string
  rv_tax_treatment :: string
  rv_tax_effect :: string
  rv_tax_rate :: rat
  rv_calculation_policy :: string
  rv_rounding_policy :: string
  rv_effective_from :: datetime
  rv_effective_to :: "datetime option"
  rv_status :: string

section \<open>Validation\<close>

definition rule_text :: "string option \<Rightarrow> nat \<Rightarrow> provisioning_error + string" where
  "rule_text value maximum =
     (case value of
        None \<Rightarrow> Inl TaxRuleProvisioningError
      | Some s \<Rightarrow>
          let normalized = strip s
          in if normalized = [] \<or> maximum < length normalized then Inl TaxRuleProvisioningError
             else Inr normalized)"

definition rule_choice :: "string option \<Rightarrow> string list \<Rightarrow> provisioning_error + string" where
  "rule_choice value allowed =
     bind_result (rule_text value 64) (\<lambda>text.
       let normalized = upper text
       in if normalized \<notin> set allowed then Inl TaxRuleProvisioningError else Inr normalized)"

definition rule_instant :: "pytime \<Rightarrow> provisioning_error + datetime" where
  "rule_instant value =
     (case utc_naive value of None \<Rightarrow> Inl TaxRuleProvisioningError | Some t \<Rightarrow> Inr t)"

definition rule_instant_optional :: "pytime option \<Rightarrow> provisioning_error + datetime option" where
  "rule_instant_optional value =
     (case value of None \<Rightarrow> Inr None | Some v \<Rightarrow> bind_result (rule_instant v) (\<lambda>t. Inr (Some t)))"

definition provisioned_rate :: "pynum \<Rightarrow> string \<Rightarrow> provisioning_error + rat" where
  "provisioned_rate value treatment =
     (case value of
        PyNonFinite \<Rightarrow> Inl TaxRuleProvisioningError
      | PyOther \<Rightarrow> Inl TaxRuleProvisioningError
      | PyDecimal x \<Rightarrow>
          if \<not> supported_rate (PyDecimal x) then Inl TaxRuleProvisioningError
          else if treatment = ''TAXABLE'' \<and> x \<le> 0 then Inl TaxRuleProvisioningError
          else if treatment \<in> {''ZERO_RATE'', ''EXEMPT''} \<and> x \<noteq> 0 then Inl TaxRuleProvisioningError
          else Inr x)"

definition rule_values_of :: "rule_request \<Rightarrow> provisioning_error + rule_values" where
  "rule_values_of q =
     bind_result (rule_choice (rq_tax_treatment q) [''TAXABLE'', ''ZERO_RATE'', ''EXEMPT'']) (\<lambda>treatment.
     bind_result (rule_choice (rq_tax_effect q) [''TRANSFERRED'', ''WITHHELD'']) (\<lambda>effect.
     if effect \<noteq> ''TRANSFERRED'' then Inl TaxRuleProvisioningError else
     bind_result (rule_text (rq_calculation_policy q) 64) (\<lambda>calculation.
     bind_result (rule_text (rq_rounding_policy q) 64) (\<lambda>rounding.
     if calculation \<noteq> CALCULATION_POLICY then Inl TaxRuleProvisioningError
     else if rounding \<noteq> TAX_ROUNDING_POLICY then Inl TaxRuleProvisioningError else
     bind_result (rule_instant (rq_effective_from q)) (\<lambda>start.
     bind_result (rule_instant_optional (rq_effective_to q)) (\<lambda>stop.
     if (case stop of None \<Rightarrow> False | Some e \<Rightarrow> e \<le> start) then Inl TaxRuleProvisioningError else
     bind_result (rule_text (rq_tax_classification_code q) 64) (\<lambda>classification.
     bind_result (rule_text (rq_jurisdiction_code q) 64) (\<lambda>jurisdiction.
     bind_result (rule_text (rq_tax_category q) 64) (\<lambda>category.
     bind_result (provisioned_rate (rq_tax_rate q) treatment) (\<lambda>tax_rate.
     bind_result (rule_choice (rq_status q) [''ACTIVE'', ''INACTIVE'']) (\<lambda>status.
       Inr \<lparr>rv_tax_classification_code = classification, rv_jurisdiction_code = jurisdiction,
            rv_tax_category = category, rv_tax_treatment = treatment, rv_tax_effect = effect,
            rv_tax_rate = tax_rate, rv_calculation_policy = calculation,
            rv_rounding_policy = rounding, rv_effective_from = start, rv_effective_to = stop,
            rv_status = status\<rparr>)))))))))))"

section \<open>Planning\<close>

definition overlaps :: "datetime \<Rightarrow> datetime option \<Rightarrow> datetime \<Rightarrow> datetime option \<Rightarrow> bool" where
  "overlaps first_start first_end second_start second_end \<longleftrightarrow>
     (case second_end of None \<Rightarrow> True | Some e \<Rightarrow> first_start < e)
     \<and> (case first_end of None \<Rightarrow> True | Some e \<Rightarrow> second_start < e)"

definition rule_scope ::
  "tax_tables \<Rightarrow> tax_tables \<Rightarrow> int \<Rightarrow> int \<Rightarrow> int option \<Rightarrow> bool \<Rightarrow> (provisioning_error + unit)"
where
  "rule_scope s d tenant organization location lock =
     (if (organization, tenant) \<notin> set (tx_organizations (if lock then d else s)) then Inl TaxRuleScopeError
      else if (case location of
                 None \<Rightarrow> False
               | Some l \<Rightarrow> List.find (\<lambda>x. loc_id x = l \<and> loc_tenant_id x = tenant
                   \<and> loc_organization_id x = organization) (tx_locations s) = None)
      then Inl TaxRuleScopeError
      else Inr ())"

text \<open>The rules at one precedence: of one tenant, organization, location (or none) and classification.\<close>

definition same_precedence :: "int \<Rightarrow> int \<Rightarrow> int option \<Rightarrow> string \<Rightarrow> tax_rule \<Rightarrow> bool" where
  "same_precedence tenant organization location classification r \<longleftrightarrow>
     tr_tenant_id r = tenant \<and> tr_organization_id r = organization \<and> tr_location_id r = location
     \<and> sql_bin_equal (tr_tax_classification_code r) classification"

definition matching_rules ::
  "tax_tables \<Rightarrow> int \<Rightarrow> int \<Rightarrow> int option \<Rightarrow> string \<Rightarrow> datetime \<Rightarrow> tax_rule list"
where
  "matching_rules d tenant organization location classification effective_from =
     order_by tr_id (filter (\<lambda>r. same_precedence tenant organization location classification r
       \<and> tr_effective_from r = effective_from) (tx_rules d))"

definition overlapping_rule ::
  "tax_tables \<Rightarrow> int \<Rightarrow> int \<Rightarrow> int option \<Rightarrow> string \<Rightarrow> datetime \<Rightarrow> datetime option \<Rightarrow> int option \<Rightarrow> bool"
where
  "overlapping_rule d tenant organization location classification effective_from effective_to exclude_id =
     list_ex (\<lambda>r. same_precedence tenant organization location classification r \<and> tr_status r = ''ACTIVE''
       \<and> Some (tr_id r) \<noteq> exclude_id
       \<and> overlaps effective_from effective_to (tr_effective_from r) (tr_effective_to r)) (tx_rules d)"

text \<open>\<^verbatim>\<open>_state\<close> is the row without its scope, classification and start; what is compared leaves out the identifier.\<close>

type_synonym rule_state =
  "string \<times> string \<times> string \<times> string \<times> pynum \<times> string \<times> string \<times> datetime option \<times> string"

definition rule_state :: "tax_rule \<Rightarrow> rule_state" where
  "rule_state r = (tr_jurisdiction_code r, tr_tax_category r, tr_tax_treatment r, tr_tax_effect r,
     tr_tax_rate r, tr_calculation_policy r, tr_rounding_policy r, tr_effective_to r, tr_status r)"

definition comparable_values :: "rule_values \<Rightarrow> rule_state" where
  "comparable_values v = (rv_jurisdiction_code v, rv_tax_category v, rv_tax_treatment v, rv_tax_effect v,
     PyDecimal (rv_tax_rate v), rv_calculation_policy v, rv_rounding_policy v, rv_effective_to v,
     rv_status v)"

record rule_plan =
  rp_operation :: rule_operation
  rp_rule_id :: "int option"
  rp_expected_state :: "(int \<times> rule_state) option"

definition plan_tax_rule ::
  "tax_tables \<Rightarrow> tax_tables \<Rightarrow> rule_request \<Rightarrow> bool \<Rightarrow> provisioning_error + rule_plan"
where
  "plan_tax_rule s d q lock_scope =
     bind_result (rule_values_of q) (\<lambda>v.
     bind_result (rule_scope s d (rq_tenant_id q) (rq_organization_id q) (rq_location_id q) lock_scope) (\<lambda>_.
     (let seen = (if lock_scope then d else s);
          rows = matching_rules seen (rq_tenant_id q) (rq_organization_id q) (rq_location_id q)
                   (rv_tax_classification_code v) (rv_effective_from v)
      in if 1 < length rows then Inl TaxRuleConflictError else
      (let current = (case rows of [] \<Rightarrow> None | r # _ \<Rightarrow> Some r)
       in if rv_status v = ''ACTIVE''
             \<and> overlapping_rule seen (rq_tenant_id q) (rq_organization_id q) (rq_location_id q)
                 (rv_tax_classification_code v) (rv_effective_from v) (rv_effective_to v)
                 (map_option tr_id current)
          then Inl TaxRuleConflictError
          else (case current of
                  None \<Rightarrow> Inr \<lparr>rp_operation = CREATE_RULE, rp_rule_id = None, rp_expected_state = None\<rparr>
                | Some r \<Rightarrow> Inr \<lparr>rp_operation = (if rule_state r = comparable_values v then UNCHANGED_RULE
                                               else UPDATE_RULE),
                                rp_rule_id = Some (tr_id r),
                                rp_expected_state = Some (tr_id r, rule_state r)\<rparr>)))))"

section \<open>The command\<close>

text \<open>The columns a command writes, as the database keeps them, and the constraints of the table.\<close>

definition write_rule :: "rule_values \<Rightarrow> tax_rule \<Rightarrow> tax_rule" where
  "write_rule v r = r\<lparr>tr_tax_classification_code := rv_tax_classification_code v,
     tr_jurisdiction_code := rv_jurisdiction_code v, tr_tax_category := rv_tax_category v,
     tr_tax_treatment := rv_tax_treatment v, tr_tax_effect := rv_tax_effect v,
     tr_tax_rate := PyDecimal (rv_tax_rate v), tr_calculation_policy := rv_calculation_policy v,
     tr_rounding_policy := rv_rounding_policy v,
     tr_effective_from := stored_seconds (rv_effective_from v),
     tr_effective_to := map_option stored_seconds (rv_effective_to v), tr_status := rv_status v\<rparr>"

definition blank_rule :: "int \<Rightarrow> rule_request \<Rightarrow> tax_rule" where
  "blank_rule i q = \<lparr>tr_id = i, tr_tenant_id = rq_tenant_id q, tr_organization_id = rq_organization_id q,
     tr_location_id = rq_location_id q, tr_tax_classification_code = '''', tr_jurisdiction_code = '''',
     tr_tax_category = '''', tr_tax_treatment = '''', tr_tax_effect = '''', tr_tax_rate = PyOther,
     tr_calculation_policy = '''', tr_rounding_policy = '''', tr_effective_from = 0,
     tr_effective_to = None, tr_status = ''''\<rparr>"

definition rule_constraints :: "tax_rule \<Rightarrow> bool" where
  "rule_constraints r \<longleftrightarrow>
     (case tr_tax_rate r of PyDecimal x \<Rightarrow> 0 \<le> x | _ \<Rightarrow> False)
     \<and> (case tr_effective_to r of None \<Rightarrow> True | Some e \<Rightarrow> tr_effective_from r < e)
     \<and> tr_status r \<in> {''ACTIVE'', ''INACTIVE''} \<and> tr_tax_effect r \<in> {''TRANSFERRED'', ''WITHHELD''}"

definition find_rule :: "tax_tables \<Rightarrow> rule_request \<Rightarrow> int \<Rightarrow> tax_rule option" where
  "find_rule d q i = List.find (\<lambda>r. tr_id r = i \<and> tr_tenant_id r = rq_tenant_id q
     \<and> tr_organization_id r = rq_organization_id q) (tx_rules d)"

definition provision_tax_rule ::
  "tax_tables \<Rightarrow> tax_tables \<Rightarrow> rule_request
   \<Rightarrow> provisioning_error + (tax_tables \<times> tax_rule \<times> rule_operation)"
where
  "provision_tax_rule s d q =
     bind_result (plan_tax_rule s d q False) (\<lambda>initial.
     bind_result (plan_tax_rule s d q True) (\<lambda>current.
     if \<not> (rp_operation initial = CREATE_RULE \<and> rp_operation current = UNCHANGED_RULE) \<and> initial \<noteq> current
     then Inl TaxRuleConflictError else
     bind_result (rule_values_of q) (\<lambda>v.
     case rp_operation current of
       UNCHANGED_RULE \<Rightarrow>
         (case Option.bind (rp_rule_id current) (find_rule d q) of
            None \<Rightarrow> Inl TaxRuleAssertionError
          | Some r \<Rightarrow> Inr (d, r, UNCHANGED_RULE))
     | CREATE_RULE \<Rightarrow>
         (let r = write_rule v (blank_rule (next_id tr_id (tx_rules d)) q)
          in if \<not> rule_constraints r then Inl TaxRuleConstraintError
             else Inr (d\<lparr>tx_rules := tx_rules d @ [r]\<rparr>, r, CREATE_RULE))
     | UPDATE_RULE \<Rightarrow>
         (case Option.bind (rp_rule_id current) (find_rule d q) of
            None \<Rightarrow> Inl TaxRuleConflictError
          | Some r \<Rightarrow>
              if Some (tr_id r, rule_state r) \<noteq> rp_expected_state current then Inl TaxRuleConflictError
              else if \<not> rule_constraints (write_rule v r) then Inl TaxRuleConstraintError
              else Inr (d\<lparr>tx_rules := modify tr_id (tr_id r) (write_rule v) (tx_rules d)\<rparr>,
                        write_rule v r, UPDATE_RULE)))))"

section \<open>The configured rule\<close>

definition resolve_tax_rule_configuration ::
  "tax_tables \<Rightarrow> int \<Rightarrow> int \<Rightarrow> int \<Rightarrow> string option \<Rightarrow> pytime \<Rightarrow> provisioning_error + tax_rule"
where
  "resolve_tax_rule_configuration d tenant organization location tax_classification_code effective_at =
     bind_result (rule_text tax_classification_code 64) (\<lambda>classification.
     bind_result (rule_instant effective_at) (\<lambda>instant.
     bind_result (rule_scope d d tenant organization (Some location) False) (\<lambda>_.
     (let rows = tax_rules_for d tenant organization location classification instant;
          local = filter (\<lambda>r. tr_location_id r = Some location) rows;
          applicable = (if local \<noteq> [] then local else filter (\<lambda>r. tr_location_id r = None) rows)
      in case applicable of
           [] \<Rightarrow> Inl TaxRuleScopeError
         | r # rest \<Rightarrow> if rest = [] then Inr r else Inl TaxRuleConflictError))))"

end
