(* ===== verification/TaxRuleProofs.thy ===== *)
theory TaxRuleProofs
  imports TaxRules
begin

text \<open>No two active rules of one precedence overlap, so the resolution of a rule is never ambiguous.\<close>

section \<open>Normalised text and stored instants\<close>

lemma dropWhile_hd: "dropWhile p s \<noteq> [] \<Longrightarrow> \<not> p (hd (dropWhile p s))"
  by (induction s) auto

lemma dropWhile_fixed: "s = [] \<or> \<not> p (hd s) \<Longrightarrow> dropWhile p s = s"
  by (cases s) auto

lemma strip_ends: "strip s = [] \<or> \<not> is_space (hd (strip s)) \<and> \<not> is_space (last (strip s))"
proof (cases "strip s = []")
  case False
  define u where "u = dropWhile is_space s"
  have v: "strip s = rev (dropWhile is_space (rev u))" by (simp add: strip_def u_def)
  with False have some: "dropWhile is_space (rev u) \<noteq> []" by simp
  then have "\<not> is_space (last (strip s))" using dropWhile_hd[OF some] by (simp add: v last_rev)
  moreover have "hd (strip s) = hd u"
  proof -
    have "rev u = takeWhile is_space (rev u) @ dropWhile is_space (rev u)" by simp
    then have "u = strip s @ rev (takeWhile is_space (rev u))" unfolding v by (metis rev_append rev_rev_ident)
    with False show ?thesis by (metis hd_append2)
  qed
  moreover have "u \<noteq> []" using some by auto
  ultimately show ?thesis using dropWhile_hd[of is_space s] by (simp add: u_def)
qed simp

lemma strip_fixed: "s = [] \<or> \<not> is_space (hd s) \<and> \<not> is_space (last s) \<Longrightarrow> strip s = s"
  by (auto simp: strip_def dropWhile_fixed hd_rev)

lemma strip_strip [simp]: "strip (strip s) = strip s"
  using strip_fixed[OF strip_ends] .

lemma rstrip_stripped:
  assumes "strip s = s"
  shows "rstrip_spaces s = s"
proof -
  have "s = [] \<or> \<not> is_space (last s)" using strip_ends[of s] unfolding assms by blast
  then have "rev s = [] \<or> hd (rev s) \<noteq> CHR '' ''" by (auto simp: hd_rev is_space_def)
  then show ?thesis by (simp add: rstrip_spaces_def dropWhile_fixed)
qed

lemma sql_bin_equal_stripped: "strip a = a \<Longrightarrow> strip b = b \<Longrightarrow> sql_bin_equal a b \<longleftrightarrow> a = b"
  by (simp add: sql_bin_equal_def rstrip_stripped)

lemma overlaps_stored:
  assumes "\<not> overlaps a b c e" "stored_seconds c = c" "map_option stored_seconds e = e"
  shows "\<not> overlaps (stored_seconds a) (map_option stored_seconds b) c e"
  using assms stored_seconds_mono
  by (fastforce simp: overlaps_def not_less split: option.splits)

lemma overlaps_commute: "overlaps a b c e \<longleftrightarrow> overlaps c e a b"
  by (auto simp: overlaps_def split: option.splits)

lemma overlaps_instant:
  "rule_effective t x \<Longrightarrow> rule_effective t y
   \<Longrightarrow> overlaps (tr_effective_from x) (tr_effective_to x) (tr_effective_from y) (tr_effective_to y)"
  by (auto simp: rule_effective_def overlaps_def split: option.splits)

section \<open>The invariant\<close>

definition same_scope :: "tax_rule \<Rightarrow> tax_rule \<Rightarrow> bool" where
  "same_scope x y \<longleftrightarrow> tr_tenant_id x = tr_tenant_id y \<and> tr_organization_id x = tr_organization_id y
     \<and> tr_location_id x = tr_location_id y \<and> tr_tax_classification_code x = tr_tax_classification_code y"

definition stored_rule :: "tax_rule \<Rightarrow> bool" where
  "stored_rule r \<longleftrightarrow> strip (tr_tax_classification_code r) = tr_tax_classification_code r
     \<and> stored_seconds (tr_effective_from r) = tr_effective_from r
     \<and> map_option stored_seconds (tr_effective_to r) = tr_effective_to r \<and> rule_constraints r"

definition disjoint_rules :: "tax_rule \<Rightarrow> tax_rule \<Rightarrow> bool" where
  "disjoint_rules x y \<longleftrightarrow> \<not> (tr_id x \<noteq> tr_id y \<and> same_scope x y \<and> tr_status x = ''ACTIVE'' \<and> tr_status y = ''ACTIVE''
     \<and> overlaps (tr_effective_from x) (tr_effective_to x) (tr_effective_from y) (tr_effective_to y))"

definition tax_rules_inv :: "tax_tables \<Rightarrow> bool" where
  "tax_rules_inv d \<longleftrightarrow> distinct (map tr_id (tx_rules d)) \<and> list_all stored_rule (tx_rules d)
     \<and> (\<forall>x \<in> set (tx_rules d). \<forall>y \<in> set (tx_rules d). disjoint_rules x y)"

lemma disjoint_rules_commute: "disjoint_rules x y \<longleftrightarrow> disjoint_rules y x"
  unfolding disjoint_rules_def same_scope_def by (auto simp: overlaps_commute)

lemma same_row: "tax_rules_inv d \<Longrightarrow> x \<in> set (tx_rules d) \<Longrightarrow> y \<in> set (tx_rules d) \<Longrightarrow> tr_id x = tr_id y \<Longrightarrow> x = y"
  unfolding tax_rules_inv_def by (auto simp: distinct_map dest: inj_onD)

lemma modified_rows:
  assumes "tax_rules_inv d" "x \<in> set (tx_rules d)"
  shows "set (modify tr_id (tr_id x) f (tx_rules d)) = insert (f x) (set (tx_rules d) - {x})"
proof -
  have "(if tr_id y = tr_id x then f y else y) = (if y = x then f x else y)" if "y \<in> set (tx_rules d)" for y
    using same_row[OF assms(1) that assms(2)] by auto
  then have "set (modify tr_id (tr_id x) f (tx_rules d)) = (\<lambda>y. if y = x then f x else y) ` set (tx_rules d)"
    unfolding modify_def set_map by (rule image_cong[OF refl])
  also have "\<dots> = insert (f x) (set (tx_rules d) - {x})" using assms(2) by (auto simp: image_iff)
  finally show ?thesis .
qed

lemma stored_rows: "tax_rules_inv d \<Longrightarrow> x \<in> set (tx_rules d) \<Longrightarrow> stored_rule x"
  by (simp add: tax_rules_inv_def list_all_iff)

section \<open>What a command has checked\<close>

lemma rule_text_success: "rule_text value k = Inr x \<Longrightarrow> strip x = x \<and> x \<noteq> [] \<and> length x \<le> k"
  by (auto simp: rule_text_def Let_def split: option.splits if_splits)

lemma guard_Inr_iff: "(if c then Inl e else r) = Inr x \<longleftrightarrow> \<not> c \<and> r = Inr x"
  by simp

lemma rule_choice_success: "rule_choice value allowed = Inr x \<Longrightarrow> x \<in> set allowed"
  unfolding rule_choice_def Let_def bind_result_Inr_iff guard_Inr_iff by auto

definition values_ok :: "rule_values \<Rightarrow> bool" where
  "values_ok v \<longleftrightarrow> strip (rv_tax_classification_code v) = rv_tax_classification_code v
     \<and> rv_tax_classification_code v \<noteq> [] \<and> length (rv_tax_classification_code v) \<le> 64
     \<and> rv_status v \<in> set [''ACTIVE'', ''INACTIVE'']"

lemma rule_values_success: "rule_values_of q = Inr v \<Longrightarrow> values_ok v"
  unfolding rule_values_of_def values_ok_def bind_result_Inr_iff guard_Inr_iff
  by (elim exE conjE) (clarsimp dest!: rule_text_success rule_choice_success simp del: set_simps)

lemma plan_success:
  assumes "plan_tax_rule s d q True = Inr p"
  obtains v where "rule_values_of q = Inr v"
    "rule_scope s d (rq_tenant_id q) (rq_organization_id q) (rq_location_id q) True = Inr ()"
    "rv_status v = ''ACTIVE'' \<Longrightarrow> \<not> overlapping_rule d (rq_tenant_id q) (rq_organization_id q) (rq_location_id q)
       (rv_tax_classification_code v) (rv_effective_from v) (rv_effective_to v) (rp_rule_id p)"
    "matching_rules d (rq_tenant_id q) (rq_organization_id q) (rq_location_id q)
       (rv_tax_classification_code v) (rv_effective_from v) = [] \<and> rp_operation p = CREATE_RULE
       \<and> rp_rule_id p = None
     \<or> (\<exists>r. matching_rules d (rq_tenant_id q) (rq_organization_id q) (rq_location_id q)
       (rv_tax_classification_code v) (rv_effective_from v) = [r] \<and> rp_rule_id p = Some (tr_id r)
       \<and> rp_operation p = (if rule_state r = comparable_values v then UNCHANGED_RULE else UPDATE_RULE)
       \<and> rp_expected_state p = Some (tr_id r, rule_state r))"
proof -
  from assms obtain v where v: "rule_values_of q = Inr v"
    and scope: "rule_scope s d (rq_tenant_id q) (rq_organization_id q) (rq_location_id q) True = Inr ()"
    by (auto simp: plan_tax_rule_def bind_result_Inr_iff)
  let ?rows = "matching_rules d (rq_tenant_id q) (rq_organization_id q) (rq_location_id q)
       (rv_tax_classification_code v) (rv_effective_from v)"
  note run = assms[unfolded plan_tax_rule_def v scope bind_result.simps Let_def if_True]
  show thesis
  proof (cases ?rows)
    case Nil
    with run show thesis by (intro that[OF v scope]) (auto split: if_splits)
  next
    case (Cons r rest)
    with run have "rest = []" by (cases rest) auto
    with run Cons show thesis by (intro that[OF v scope]) (auto split: if_splits)
  qed
qed

lemma matching_rows:
  assumes "matching_rules d tenant organization location classification t = [r]"
  shows "r \<in> set (tx_rules d)" "same_precedence tenant organization location classification r"
    "tr_effective_from r = t"
proof -
  have "set (matching_rules d tenant organization location classification t) = {r}" using assms by simp
  then have "r \<in> {x \<in> set (tx_rules d). same_precedence tenant organization location classification x
      \<and> tr_effective_from x = t}"
    by (auto simp: matching_rules_def order_by_def)
  then show "r \<in> set (tx_rules d)" "same_precedence tenant organization location classification r"
    "tr_effective_from r = t" by simp_all
qed

lemma find_matching:
  assumes "tax_rules_inv d" "r \<in> set (tx_rules d)" "tr_tenant_id r = rq_tenant_id q"
    "tr_organization_id r = rq_organization_id q"
  shows "find_rule d q (tr_id r) = Some r"
proof -
  have "find_rule d q (tr_id r) \<noteq> None"
    using assms unfolding find_rule_def find_eq_None_iff by blast
  then obtain x where x: "find_rule d q (tr_id r) = Some x" by blast
  then have "x \<in> set (tx_rules d)" "tr_id x = tr_id r"
    unfolding find_rule_def by (auto dest: find_SomeD)
  with x show ?thesis using same_row[OF assms(1)] assms(2) by metis
qed

text \<open>The three ways a command succeeds.\<close>

lemma provision_success:
  assumes inv: "tax_rules_inv d" and run: "provision_tax_rule s d q = Inr (d', r, op)"
  obtains v p where "rule_values_of q = Inr v"
    "plan_tax_rule s d q True = Inr p" "rp_operation p = op"
    "op = UNCHANGED_RULE \<Longrightarrow> d' = d \<and> r \<in> set (tx_rules d) \<and> rp_rule_id p = Some (tr_id r)"
    "op = CREATE_RULE \<Longrightarrow> r = write_rule v (blank_rule (next_id tr_id (tx_rules d)) q) \<and> rule_constraints r
       \<and> d' = d\<lparr>tx_rules := tx_rules d @ [r]\<rparr>"
    "op = UPDATE_RULE \<Longrightarrow> \<exists>x. x \<in> set (tx_rules d) \<and> rp_rule_id p = Some (tr_id x) \<and> r = write_rule v x
       \<and> rule_constraints r \<and> d' = d\<lparr>tx_rules := modify tr_id (tr_id x) (write_rule v) (tx_rules d)\<rparr>"
proof -
  from run obtain v p i where v: "rule_values_of q = Inr v" and p: "plan_tax_rule s d q True = Inr p"
    and i: "plan_tax_rule s d q False = Inr i"
    unfolding provision_tax_rule_def bind_result_Inr_iff guard_Inr_iff by blast
  note run' = run[unfolded provision_tax_rule_def p i v bind_result.simps guard_Inr_iff, THEN conjunct2]
  have found: "x \<in> set (tx_rules d) \<and> rp_rule_id p = Some (tr_id x)"
    if "Option.bind (rp_rule_id p) (find_rule d q) = Some x" for x
    using that unfolding bind_eq_Some_conv find_rule_def by (auto dest: find_SomeD)
  show thesis
  proof (cases "rp_operation p")
    case CREATE_RULE
    with run' show thesis
      by (intro that[OF v p]) (auto simp: Let_def split: if_split_asm)
  next
    case UPDATE_RULE
    with run' obtain x where x: "Option.bind (rp_rule_id p) (find_rule d q) = Some x"
      by (auto split: option.split_asm)
    note run'' = run'[unfolded UPDATE_RULE rule_operation.case x option.case guard_Inr_iff]
    from run'' have "op = UPDATE_RULE" "r = write_rule v x" "rule_constraints r"
      "d' = d\<lparr>tx_rules := modify tr_id (tr_id x) (write_rule v) (tx_rules d)\<rparr>" by auto
    with UPDATE_RULE found[OF x] show thesis by (intro that[OF v p]) auto
  next
    case UNCHANGED_RULE
    with run' obtain x where x: "Option.bind (rp_rule_id p) (find_rule d q) = Some x"
      by (auto split: option.split_asm)
    with run' UNCHANGED_RULE found[OF x] show thesis by (intro that[OF v p]) simp_all
  qed
qed

section \<open>The invariant is kept\<close>

lemma write_rule_fields [simp]:
  "tr_id (write_rule v r) = tr_id r" "tr_tenant_id (write_rule v r) = tr_tenant_id r"
  "tr_organization_id (write_rule v r) = tr_organization_id r"
  "tr_location_id (write_rule v r) = tr_location_id r"
  "tr_tax_classification_code (write_rule v r) = rv_tax_classification_code v"
  "tr_effective_from (write_rule v r) = stored_seconds (rv_effective_from v)"
  "tr_effective_to (write_rule v r) = map_option stored_seconds (rv_effective_to v)"
  "tr_status (write_rule v r) = rv_status v"
  by (simp_all add: write_rule_def)

lemma written_rule:
  "values_ok v \<Longrightarrow> rule_constraints (write_rule v r) \<Longrightarrow> stored_rule (write_rule v r)"
  by (simp add: stored_rule_def values_ok_def option.map_comp comp_def)

text \<open>A written rule is disjoint from every other row when the check has found no overlap.\<close>

lemma written_disjoint:
  assumes inv: "tax_rules_inv d" and v: "values_ok v" and y: "y \<in> set (tx_rules d)" "Some (tr_id y) \<noteq> excluded"
    and free: "rv_status v = ''ACTIVE'' \<Longrightarrow> \<not> overlapping_rule d (tr_tenant_id x) (tr_organization_id x)
      (tr_location_id x) (rv_tax_classification_code v) (rv_effective_from v) (rv_effective_to v) excluded"
  shows "disjoint_rules (write_rule v x) y"
proof (cases "rv_status v = ''ACTIVE'' \<and> same_scope (write_rule v x) y \<and> tr_status y = ''ACTIVE''")
  case True
  then have "same_precedence (tr_tenant_id x) (tr_organization_id x) (tr_location_id x)
      (rv_tax_classification_code v) y"
    by (simp add: same_scope_def same_precedence_def sql_bin_equal_def)
  with free True y have "\<not> overlaps (rv_effective_from v) (rv_effective_to v) (tr_effective_from y) (tr_effective_to y)"
    by (auto simp: overlapping_rule_def list_ex_iff)
  then have "\<not> overlaps (stored_seconds (rv_effective_from v)) (map_option stored_seconds (rv_effective_to v))
      (tr_effective_from y) (tr_effective_to y)"
    using stored_rows[OF inv y(1)] by (intro overlaps_stored) (simp_all add: stored_rule_def)
  then show ?thesis by (simp add: disjoint_rules_def)
qed (auto simp: disjoint_rules_def)

lemma scope_of_match:
  assumes "plan_tax_rule s d q True = Inr p" "rp_rule_id p = Some (tr_id x)" "x \<in> set (tx_rules d)"
    "tax_rules_inv d" "rule_values_of q = Inr v"
  shows "tr_tenant_id x = rq_tenant_id q" "tr_organization_id x = rq_organization_id q"
    "tr_location_id x = rq_location_id q" "tr_tax_classification_code x = rv_tax_classification_code v"
    "tr_effective_from x = rv_effective_from v"
proof -
  from plan_success[OF assms(1)] assms(2,5) obtain y where
    y: "matching_rules d (rq_tenant_id q) (rq_organization_id q) (rq_location_id q)
       (rv_tax_classification_code v) (rv_effective_from v) = [y]" "tr_id y = tr_id x"
    by (metis Inr_inject option.distinct(1) option.inject)
  note match = matching_rows[OF y(1)]
  have "y = x" using same_row[OF assms(4) match(1) assms(3) y(2)] .
  with match show "tr_tenant_id x = rq_tenant_id q" "tr_organization_id x = rq_organization_id q"
    "tr_location_id x = rq_location_id q" "tr_effective_from x = rv_effective_from v"
    by (simp_all add: same_precedence_def)
  have "strip (rv_tax_classification_code v) = rv_tax_classification_code v"
    using rule_values_success[OF assms(5)] by (simp add: values_ok_def)
  with match \<open>y = x\<close> stored_rows[OF assms(4,3)]
  show "tr_tax_classification_code x = rv_tax_classification_code v"
    by (simp add: same_precedence_def stored_rule_def sql_bin_equal_stripped)
qed

lemma provision_keeps:
  assumes inv: "tax_rules_inv d" and run: "provision_tax_rule s d q = Inr (d', r, op)"
  shows "tax_rules_inv d'"
proof -
  obtain v p where v: "rule_values_of q = Inr v" and p: "plan_tax_rule s d q True = Inr p" "rp_operation p = op"
    and keep: "op = UNCHANGED_RULE \<Longrightarrow> d' = d"
    and create: "op = CREATE_RULE \<Longrightarrow> r = write_rule v (blank_rule (next_id tr_id (tx_rules d)) q)
       \<and> rule_constraints r \<and> d' = d\<lparr>tx_rules := tx_rules d @ [r]\<rparr>"
    and update: "op = UPDATE_RULE \<Longrightarrow> \<exists>x. x \<in> set (tx_rules d) \<and> rp_rule_id p = Some (tr_id x)
       \<and> r = write_rule v x \<and> rule_constraints r
       \<and> d' = d\<lparr>tx_rules := modify tr_id (tr_id x) (write_rule v) (tx_rules d)\<rparr>"
    using provision_success[OF inv run] by metis
  note ok = rule_values_success[OF v]
  have free: "rv_status v = ''ACTIVE'' \<Longrightarrow> \<not> overlapping_rule d (rq_tenant_id q) (rq_organization_id q) (rq_location_id q)
       (rv_tax_classification_code v) (rv_effective_from v) (rv_effective_to v) (rp_rule_id p)"
    using plan_success[OF p(1)] v by (metis Inr_inject)
  show ?thesis
  proof (cases op)
    case UNCHANGED_RULE
    with keep inv show ?thesis by simp
  next
    case CREATE_RULE
    let ?i = "next_id tr_id (tx_rules d)"
    from create[OF CREATE_RULE] have r: "r = write_rule v (blank_rule ?i q)" "rule_constraints r"
      and d': "d' = d\<lparr>tx_rules := tx_rules d @ [r]\<rparr>" by blast+
    have none: "rp_rule_id p = None"
      using plan_success[OF p(1)] p(2) CREATE_RULE by (metis rule_operation.distinct(1,3))
    have above: "tr_id y \<noteq> ?i" if "y \<in> set (tx_rules d)" for y
      using next_id_above[OF that, of tr_id] by simp
    have "disjoint_rules r y" if "y \<in> set (tx_rules d)" for y
      unfolding r(1) using free none
      by (intro written_disjoint[OF inv ok that, of None]) (simp_all add: blank_rule_def)
    moreover have "disjoint_rules r r" by (simp add: disjoint_rules_def)
    moreover have "stored_rule r" using written_rule[OF ok] r by metis
    moreover have "tr_id r \<notin> tr_id ` set (tx_rules d)"
    proof
      assume "tr_id r \<in> tr_id ` set (tx_rules d)"
      then obtain y where y: "y \<in> set (tx_rules d)" "tr_id y = tr_id r" by (metis imageE)
      have "tr_id r = ?i" by (simp add: r(1) blank_rule_def)
      with y(2) above[OF y(1)] show False by argo
    qed
    moreover have "disjoint_rules y r" if "y \<in> set (tx_rules d)" for y
      using disjoint_rules_commute calculation(1)[OF that] by blast
    ultimately show ?thesis using inv unfolding d' tax_rules_inv_def by simp
  next
    case UPDATE_RULE
    from update[OF UPDATE_RULE] obtain x where x: "x \<in> set (tx_rules d)" "rp_rule_id p = Some (tr_id x)"
      "r = write_rule v x" "rule_constraints r"
      and d': "d' = d\<lparr>tx_rules := modify tr_id (tr_id x) (write_rule v) (tx_rules d)\<rparr>" by blast
    note scope = scope_of_match[OF p(1) x(2,1) inv v]
    have rows: "set (tx_rules d') = insert r (set (tx_rules d) - {x})"
      unfolding d' x(3) using modified_rows[OF inv x(1)] by simp
    have ids: "map tr_id (tx_rules d') = map tr_id (tx_rules d)"
      by (simp add: d' modify_def)
    have "disjoint_rules r y" if "y \<in> set (tx_rules d)" "y \<noteq> x" for y
      unfolding x(3) using free[folded scope(1-3)] x(2) same_row[OF inv that(1) x(1)] that(2)
      by (intro written_disjoint[OF inv ok that(1), of "rp_rule_id p"]) auto
    moreover have "disjoint_rules r r" by (simp add: disjoint_rules_def)
    moreover have "stored_rule r" using written_rule[OF ok] x(3,4) by metis
    ultimately show ?thesis using inv disjoint_rules_commute
      by (auto simp: tax_rules_inv_def ids rows list_all_iff)
  qed
qed


section \<open>Resolution under the invariant\<close>

text \<open>The rules the resolution chooses from: of two in force at one precedence only one remains.\<close>

definition applicable_rules :: "int \<Rightarrow> tax_rule list \<Rightarrow> tax_rule list" where
  "applicable_rules location rows =
     (let local = filter (\<lambda>r. tr_location_id r = Some location) rows
      in if local \<noteq> [] then local else filter (\<lambda>r. tr_location_id r = None) rows)"

lemma rules_for_rows:
  "set (tax_rules_for d tenant organization location classification t) = {r \<in> set (tx_rules d).
     tr_tenant_id r = tenant \<and> tr_organization_id r = organization
     \<and> sql_bin_equal (tr_tax_classification_code r) classification \<and> rule_effective t r
     \<and> (tr_location_id r = Some location \<or> tr_location_id r = None)}"
  by (auto simp: tax_rules_for_def order_by_def)

lemma one_in_force:
  assumes inv: "tax_rules_inv d" and code: "strip classification = classification"
    and x: "x \<in> set (tax_rules_for d tenant organization location classification t)"
    and y: "y \<in> set (tax_rules_for d tenant organization location classification t)"
    and same: "tr_location_id x = tr_location_id y"
  shows "x = y"
proof (rule ccontr)
  assume "x \<noteq> y"
  from x y have rows: "x \<in> set (tx_rules d)" "y \<in> set (tx_rules d)" by (simp_all add: rules_for_rows)
  with \<open>x \<noteq> y\<close> have "tr_id x \<noteq> tr_id y" using same_row[OF inv] by blast
  moreover have "tr_tax_classification_code x = tr_tax_classification_code y"
    using x y stored_rows[OF inv rows(1)] stored_rows[OF inv rows(2)] code
    by (simp add: rules_for_rows stored_rule_def sql_bin_equal_stripped)
  moreover have force: "rule_effective t x" "rule_effective t y" using x y by (simp_all add: rules_for_rows)
  ultimately have "\<not> disjoint_rules x y"
    using x y same overlaps_instant[OF force]
    by (simp add: disjoint_rules_def same_scope_def rules_for_rows rule_effective_def)
  with inv rows show False by (simp add: tax_rules_inv_def)
qed

lemma distinct_rules_for:
  assumes "tax_rules_inv d"
  shows "distinct (tax_rules_for d tenant organization location classification t)"
proof -
  have "distinct (tx_rules d)" using assms by (auto simp: tax_rules_inv_def distinct_map)
  then show ?thesis by (simp add: tax_rules_for_def order_by_def)
qed

lemma distinct_singleton:
  assumes "distinct xs" "\<And>x y. x \<in> set xs \<Longrightarrow> y \<in> set xs \<Longrightarrow> x = y"
  shows "xs = [] \<or> (\<exists>x. xs = [x])"
proof (cases xs)
  case (Cons x rest)
  have "y \<notin> set rest" for y using assms(1) assms(2)[of x y] by (auto simp: Cons)
  then have "rest = []" by (cases rest) auto
  with Cons show ?thesis by simp
qed simp

lemma at_most_one_rule:
  assumes inv: "tax_rules_inv d" and code: "strip classification = classification"
  shows "applicable_rules location (tax_rules_for d tenant organization location classification t) = []
    \<or> (\<exists>r. applicable_rules location (tax_rules_for d tenant organization location classification t) = [r])"
proof (rule distinct_singleton)
  show "distinct (applicable_rules location (tax_rules_for d tenant organization location classification t))"
    using distinct_rules_for[OF inv] by (simp add: applicable_rules_def Let_def)
  fix x y
  assume "x \<in> set (applicable_rules location (tax_rules_for d tenant organization location classification t))"
    and "y \<in> set (applicable_rules location (tax_rules_for d tenant organization location classification t))"
  then show "x = y" by (intro one_in_force[OF inv code, of _ tenant organization location t])
    (auto simp: applicable_rules_def Let_def split: if_splits)
qed

lemma select_rule_applicable:
  assumes inv: "tax_rules_inv d" and code: "strip classification = classification"
    and scope: "tc_tenant_id c = tenant" "tc_organization_id c = organization" "tc_location_id c = location"
  shows "select_rule c classification t (tax_rules_for d tenant organization location classification t)
    = (case applicable_rules location (tax_rules_for d tenant organization location classification t) of
         [] \<Rightarrow> Inl TaxRuleUnavailableError
       | r # rest \<Rightarrow> if rest = [] then Inr r else Inl TaxRuleAmbiguousError)"
proof -
  let ?rows = "tax_rules_for d tenant organization location classification t"
  have inside: "\<not> list_ex (\<lambda>r. tr_tenant_id r \<noteq> tc_tenant_id c \<or> tr_organization_id r \<noteq> tc_organization_id c
      \<or> tr_tax_classification_code r \<noteq> classification \<or> tr_location_id r \<notin> {None, Some (tc_location_id c)}) ?rows"
    using stored_rows[OF inv] code
    by (auto simp: list_ex_iff rules_for_rows scope stored_rule_def sql_bin_equal_stripped)
  have all: "filter (rule_effective t) ?rows = ?rows"
    by (rule filter_True) (simp add: rules_for_rows)
  show ?thesis
    unfolding select_rule_def Let_def applicable_rules_def all scope(3) using inside[unfolded scope(3)] by simp
qed

lemma configuration_applicable:
  "resolve_tax_rule_configuration d tenant organization location code instant =
     bind_result (rule_text code 64) (\<lambda>classification.
     bind_result (rule_instant instant) (\<lambda>t.
     bind_result (rule_scope d d tenant organization (Some location) False) (\<lambda>_.
     case applicable_rules location (tax_rules_for d tenant organization location classification t) of
       [] \<Rightarrow> Inl TaxRuleScopeError
     | r # rest \<Rightarrow> if rest = [] then Inr r else Inl TaxRuleConflictError)))"
  by (simp add: resolve_tax_rule_configuration_def applicable_rules_def Let_def)

text \<open>Only the selection of the rule reports an ambiguity.\<close>

lemma guard_Inl_iff: "(if c then Inl e else r) = Inl x \<longleftrightarrow> c \<and> e = x \<or> \<not> c \<and> r = Inl x"
  by simp

lemma money_error: "money value positive = Inl e \<Longrightarrow> e = TaxCalculationError"
  by (auto simp: money_def split: pynum.splits if_splits)

lemma validated_error: "validated_candidate c = Inl e \<Longrightarrow> e \<in> {TaxPolicyUnsupportedError, TaxCalculationError}"
  unfolding validated_candidate_def bind_result_Inl_iff guard_Inl_iff
  by (elim disjE exE conjE) (auto dest: money_error)

lemma rate_error: "rate rule treatment = Inl e \<Longrightarrow> e = TaxCalculationError"
  by (auto simp: rate_def split: pynum.splits if_splits)

lemma calculate_error: "calculate_tax v r treatment = Inl e \<Longrightarrow> e = TaxCalculationError"
  by (auto simp: calculate_tax_def Let_def split: if_splits)

lemma evidence_error:
  "evidence_of_rule sha c classification v rule = Inl e
   \<Longrightarrow> e \<in> {TaxPolicyUnsupportedError, TaxTreatmentUnsupportedError, TaxEffectUnsupportedError, TaxCalculationError}"
  unfolding evidence_of_rule_def
  by (auto simp: bind_result_Inl_iff dest: rate_error calculate_error split: option.splits if_splits prod.splits)

lemma ambiguous_evidence:
  assumes "resolve_tax_evidence sha d candidate = Inl TaxRuleAmbiguousError"
  shows "\<exists>c t. tax_classification candidate = Inr c
    \<and> select_rule candidate c t (tax_rules_for d (tc_tenant_id candidate) (tc_organization_id candidate)
        (tc_location_id candidate) c t) = Inl TaxRuleAmbiguousError"
proof -
  have "\<not> tax_classification candidate = Inl TaxRuleAmbiguousError"
    by (auto simp: tax_classification_def split: option.splits if_splits)
  with assms obtain c where c: "tax_classification candidate = Inr c"
    unfolding resolve_tax_evidence_def bind_result_Inl_iff by blast
  from assms obtain v where v: "validated_candidate candidate = Inr v"
    unfolding resolve_tax_evidence_def c bind_result.simps bind_result_Inl_iff
    by (auto dest: validated_error)
  note run = assms[unfolded resolve_tax_evidence_def c v bind_result.simps]
  obtain t where t: "utc_naive (tc_effective_at candidate) = Some t"
    using run by (cases "utc_naive (tc_effective_at candidate)") simp_all
  have "select_rule candidate c t (tax_rules_for d (tc_tenant_id candidate) (tc_organization_id candidate)
        (tc_location_id candidate) c t) = Inl TaxRuleAmbiguousError"
    using run unfolding t by (auto simp: bind_result_Inl_iff dest: evidence_error split: option.splits if_splits)
  with c show ?thesis by blast
qed

lemma ambiguous_configuration:
  assumes "resolve_tax_rule_configuration d tenant organization location code instant = Inl TaxRuleConflictError"
  obtains c t where "rule_text code 64 = Inr c"
    "(case applicable_rules location (tax_rules_for d tenant organization location c t) of
        [] \<Rightarrow> Inl TaxRuleScopeError | r # rest \<Rightarrow> if rest = [] then Inr r else Inl TaxRuleConflictError)
        = Inl TaxRuleConflictError"
proof -
  have "\<not> rule_text code 64 = Inl TaxRuleConflictError"
    by (auto simp: rule_text_def Let_def split: option.splits if_splits)
  with assms obtain c where c: "rule_text code 64 = Inr c"
    unfolding configuration_applicable bind_result_Inl_iff by blast
  have "\<not> rule_instant instant = Inl TaxRuleConflictError"
    by (auto simp: rule_instant_def split: option.splits)
  with assms obtain t where t: "rule_instant instant = Inr t"
    unfolding configuration_applicable c bind_result.simps bind_result_Inl_iff by blast
  have "\<not> rule_scope d d tenant organization (Some location) False = Inl TaxRuleConflictError"
    by (auto simp: rule_scope_def split: if_splits)
  with assms show thesis
    unfolding configuration_applicable c t bind_result.simps bind_result_Inl_iff by (blast intro: that[OF c])
qed

section \<open>Provisioning histories\<close>

text \<open>A history: each command with the snapshot its transaction read, whatever that was.\<close>

definition provisioning_outcome :: "tax_tables \<Rightarrow> tax_tables \<times> rule_request \<Rightarrow> tax_tables" where
  "provisioning_outcome d command = (case command of (s, q) \<Rightarrow>
     (case provision_tax_rule s d q of Inl _ \<Rightarrow> d | Inr (d', _, _) \<Rightarrow> d'))"

definition run_provisioning :: "tax_tables \<Rightarrow> (tax_tables \<times> rule_request) list \<Rightarrow> tax_tables" where
  "run_provisioning d history = foldl provisioning_outcome d history"

lemma outcome_keeps: "tax_rules_inv d \<Longrightarrow> tax_rules_inv (provisioning_outcome d command)"
  by (auto simp: provisioning_outcome_def dest: provision_keeps split: prod.splits sum.splits)

lemma provisioning_run_keeps: "tax_rules_inv d \<Longrightarrow> tax_rules_inv (run_provisioning d history)"
  unfolding run_provisioning_def by (induction history arbitrary: d) (simp_all add: outcome_keeps)

lemma empty_inv: "tx_rules d = [] \<Longrightarrow> tax_rules_inv d"
  by (simp add: tax_rules_inv_def)

text \<open>
  Whatever is provisioned, in whatever order and on however stale a snapshot, two different active
  rules of one tenant, organization, location and classification are never in force at the same instant.
\<close>

theorem provisioned_rules_never_overlap:
  assumes "tx_rules d = []"
    and "x \<in> set (tx_rules (run_provisioning d history))" and "y \<in> set (tx_rules (run_provisioning d history))"
    and "same_scope x y" and "rule_effective t x" and "rule_effective t y"
  shows "x = y"
proof -
  have inv: "tax_rules_inv (run_provisioning d history)" using provisioning_run_keeps[OF empty_inv[OF assms(1)]] .
  then have "disjoint_rules x y" using assms(2,3) by (simp add: tax_rules_inv_def)
  then have "tr_id x = tr_id y"
    using assms(4) overlaps_instant[OF assms(5,6)] assms(5,6) by (simp add: disjoint_rules_def rule_effective_def)
  then show ?thesis using same_row[OF inv assms(2,3)] by simp
qed

text \<open>
  C31: The resolution of a rule is never ambiguous: on rules that only the provisioning wrote, neither
  the tax evidence of a line whose classification is normalised nor the configured rule of a location
  fails because two rules apply.
\<close>

theorem resolution_never_ambiguous:
  assumes "tx_rules d = []" and "tc_product_tax_classification_code candidate = Some classification"
    and "strip classification = classification"
  shows "resolve_tax_evidence sha (run_provisioning d history) candidate \<noteq> Inl TaxRuleAmbiguousError
    \<and> resolve_tax_rule_configuration (run_provisioning d history) tenant organization location code instant
        \<noteq> Inl TaxRuleConflictError"
proof
  let ?d = "run_provisioning d history"
  have inv: "tax_rules_inv ?d" using provisioning_run_keeps[OF empty_inv[OF assms(1)]] .
  show "resolve_tax_evidence sha ?d candidate \<noteq> Inl TaxRuleAmbiguousError"
  proof
    assume bad: "resolve_tax_evidence sha ?d candidate = Inl TaxRuleAmbiguousError"
    then have "\<exists>c t. tax_classification candidate = Inr c
        \<and> select_rule candidate c t (tax_rules_for ?d (tc_tenant_id candidate) (tc_organization_id candidate)
            (tc_location_id candidate) c t) = Inl TaxRuleAmbiguousError"
      by (rule ambiguous_evidence)
    then obtain c t where c: "tax_classification candidate = Inr c"
      and select: "select_rule candidate c t (tax_rules_for ?d (tc_tenant_id candidate) (tc_organization_id candidate)
            (tc_location_id candidate) c t) = Inl TaxRuleAmbiguousError" by blast
    from c assms(2) have "c = classification" by (auto simp: tax_classification_def split: if_splits)
    with assms(3) have "strip c = c" by simp
    from at_most_one_rule[OF inv this, of "tc_location_id candidate" "tc_tenant_id candidate"
        "tc_organization_id candidate" t] select show False
      by (auto simp: select_rule_applicable[OF inv \<open>strip c = c\<close>])
  qed
  show "resolve_tax_rule_configuration ?d tenant organization location code instant \<noteq> Inl TaxRuleConflictError"
  proof
    assume bad: "resolve_tax_rule_configuration ?d tenant organization location code instant = Inl TaxRuleConflictError"
    then obtain c t where "rule_text code 64 = Inr c"
      and two: "(case applicable_rules location (tax_rules_for ?d tenant organization location c t) of
        [] \<Rightarrow> Inl TaxRuleScopeError | r # rest \<Rightarrow> if rest = [] then Inr r else Inl TaxRuleConflictError)
        = Inl TaxRuleConflictError"
      by (rule ambiguous_configuration) blast
    have "strip c = c" using rule_text_success[OF \<open>rule_text code 64 = Inr c\<close>] by simp
    from at_most_one_rule[OF inv this, of location tenant organization t] two show False by auto
  qed
qed


text \<open>What a successful command leaves: its values in one row, of its scope.\<close>

definition written_for :: "tax_tables \<Rightarrow> rule_request \<Rightarrow> rule_values \<Rightarrow> tax_tables \<Rightarrow> tax_rule \<Rightarrow> bool" where
  "written_for d q v d' r \<longleftrightarrow> r \<in> set (tx_rules d') \<and> tx_organizations d' = tx_organizations d
     \<and> tx_locations d' = tx_locations d
     \<and> tr_tenant_id r = rq_tenant_id q \<and> tr_organization_id r = rq_organization_id q
     \<and> tr_location_id r = rq_location_id q \<and> tr_tax_classification_code r = rv_tax_classification_code v
     \<and> tr_jurisdiction_code r = rv_jurisdiction_code v \<and> tr_tax_category r = rv_tax_category v
     \<and> tr_tax_treatment r = rv_tax_treatment v \<and> tr_tax_effect r = rv_tax_effect v
     \<and> tr_tax_rate r = PyDecimal (rv_tax_rate v) \<and> tr_calculation_policy r = rv_calculation_policy v
     \<and> tr_rounding_policy r = rv_rounding_policy v \<and> tr_effective_from r = stored_seconds (rv_effective_from v)
     \<and> tr_effective_to r = map_option stored_seconds (rv_effective_to v) \<and> tr_status r = rv_status v"

lemma unchanged_state:
  assumes p: "plan_tax_rule s d q True = Inr p" and x: "rp_rule_id p = Some (tr_id x)" "x \<in> set (tx_rules d)"
    and inv: "tax_rules_inv d" and v: "rule_values_of q = Inr v" and op: "rp_operation p = UNCHANGED_RULE"
  shows "rule_state x = comparable_values v"
proof -
  from plan_success[OF p] x(1) v op obtain y where
    y: "matching_rules d (rq_tenant_id q) (rq_organization_id q) (rq_location_id q)
       (rv_tax_classification_code v) (rv_effective_from v) = [y]" "tr_id y = tr_id x"
      "rule_state y = comparable_values v"
    by (metis (no_types, lifting) Inr_inject option.distinct(1) option.inject rule_operation.distinct(5))
  have "y = x" using same_row[OF inv matching_rows(1)[OF y(1)] x(2) y(2)] .
  with y(3) show ?thesis by simp
qed

lemma created_without_match:
  assumes inv: "tax_rules_inv d" and run: "provision_tax_rule s d q = Inr (d', r, op)"
    and v: "rule_values_of q = Inr v"
    and none: "matching_rules d (rq_tenant_id q) (rq_organization_id q) (rq_location_id q)
      (rv_tax_classification_code v) (rv_effective_from v) = []"
  shows "op = CREATE_RULE"
proof -
  obtain p where p: "plan_tax_rule s d q True = Inr p" "rp_operation p = op"
    using provision_success[OF inv run] by metis
  from plan_success[OF p(1)] v none have "rp_operation p = CREATE_RULE"
    by (metis Inr_inject list.distinct(1))
  with p(2) show ?thesis by simp
qed

lemma provision_writes:
  assumes inv: "tax_rules_inv d" and run: "provision_tax_rule s d q = Inr (d', r, op)"
  shows "\<exists>v. rule_values_of q = Inr v \<and> written_for d q v d' r"
proof -
  obtain v p where v: "rule_values_of q = Inr v" and p: "plan_tax_rule s d q True = Inr p" "rp_operation p = op"
    and keep: "op = UNCHANGED_RULE \<Longrightarrow> d' = d \<and> r \<in> set (tx_rules d) \<and> rp_rule_id p = Some (tr_id r)"
    and create: "op = CREATE_RULE \<Longrightarrow> r = write_rule v (blank_rule (next_id tr_id (tx_rules d)) q)
       \<and> rule_constraints r \<and> d' = d\<lparr>tx_rules := tx_rules d @ [r]\<rparr>"
    and update: "op = UPDATE_RULE \<Longrightarrow> \<exists>x. x \<in> set (tx_rules d) \<and> rp_rule_id p = Some (tr_id x)
       \<and> r = write_rule v x \<and> rule_constraints r
       \<and> d' = d\<lparr>tx_rules := modify tr_id (tr_id x) (write_rule v) (tx_rules d)\<rparr>"
    using provision_success[OF inv run] by metis
  have "written_for d q v d' r"
  proof (cases op)
    case CREATE_RULE
    with create have c: "r = write_rule v (blank_rule (next_id tr_id (tx_rules d)) q)"
      "d' = d\<lparr>tx_rules := tx_rules d @ [r]\<rparr>" by blast+
    then have "r \<in> set (tx_rules d')" by simp
    with c(2) show ?thesis by (simp add: written_for_def) (simp add: c(1) write_rule_def blank_rule_def)
  next
    case UPDATE_RULE
    with update obtain x where x: "x \<in> set (tx_rules d)" "rp_rule_id p = Some (tr_id x)" "r = write_rule v x"
      "d' = d\<lparr>tx_rules := modify tr_id (tr_id x) (write_rule v) (tx_rules d)\<rparr>" by blast
    have "r \<in> set (tx_rules d')" using x by (auto simp: modify_def)
    with x(4) scope_of_match[OF p(1) x(2,1) inv v] show ?thesis
      by (simp add: written_for_def) (simp add: x(3) write_rule_def)
  next
    case UNCHANGED_RULE
    with keep have r: "d' = d" "r \<in> set (tx_rules d)" "rp_rule_id p = Some (tr_id r)" by blast+
    note scope = scope_of_match[OF p(1) r(3,2) inv v]
    have "rule_state r = comparable_values v" using unchanged_state[OF p(1) r(3,2) inv v] p(2) UNCHANGED_RULE by simp
    moreover from this scope(5) stored_rows[OF inv r(2)]
    have "tr_effective_from r = stored_seconds (rv_effective_from v)"
      "tr_effective_to r = map_option stored_seconds (rv_effective_to v)"
      by (simp_all add: stored_rule_def rule_state_def comparable_values_def)
    ultimately show ?thesis using r scope
      by (simp add: written_for_def rule_state_def comparable_values_def)
  qed
  with v show ?thesis by blast
qed

lemma provision_scope:
  assumes "provision_tax_rule s d q = Inr (d', r, op)"
  shows "rule_scope s d (rq_tenant_id q) (rq_organization_id q) (rq_location_id q) True = Inr ()"
proof -
  from assms obtain p where "plan_tax_rule s d q True = Inr p"
    by (auto simp: provision_tax_rule_def bind_result_Inr_iff)
  then show ?thesis by (rule plan_success)
qed

lemma scope_again:
  assumes "provision_tax_rule s d q = Inr (d', r, op)" "written_for d q v d' r" "tx_locations d = tx_locations s"
  shows "rule_scope d' d' (rq_tenant_id q) (rq_organization_id q) (rq_location_id q) lock = Inr ()"
  using provision_scope[OF assms(1)] assms(2,3)
  by (auto simp: rule_scope_def written_for_def split: if_splits option.splits)

lemma order_by_single: "order_by k xs = [x] \<longleftrightarrow> xs = [x]"
proof
  assume "order_by k xs = [x]"
  then have "length xs = 1" by (metis One_nat_def length_Cons length_sort list.size(3) order_by_def)
  with \<open>order_by k xs = [x]\<close> show "xs = [x]" by (cases xs) (simp_all add: order_by_def)
qed (simp add: order_by_def)

lemma order_by_empty: "order_by k xs = [] \<longleftrightarrow> xs = []"
  by (metis order_by_def set_empty set_sort)

text \<open>With a start in whole seconds the stored rule is the only one with its start.\<close>

lemma only_match:
  assumes inv: "tax_rules_inv d" and run: "provision_tax_rule s d q = Inr (d', r, op)"
    and v: "rule_values_of q = Inr v" and whole: "stored_seconds (rv_effective_from v) = rv_effective_from v"
  shows "matching_rules d' (rq_tenant_id q) (rq_organization_id q) (rq_location_id q)
      (rv_tax_classification_code v) (rv_effective_from v) = [r]"
proof -
  define P where "P x \<longleftrightarrow> same_precedence (rq_tenant_id q) (rq_organization_id q) (rq_location_id q)
      (rv_tax_classification_code v) x \<and> tr_effective_from x = rv_effective_from v" for x
  have rows: "matching_rules e (rq_tenant_id q) (rq_organization_id q) (rq_location_id q)
      (rv_tax_classification_code v) (rv_effective_from v) = order_by tr_id (filter P (tx_rules e))" for e
    by (simp add: matching_rules_def P_def[abs_def])
  obtain w p where w: "rule_values_of q = Inr w" and p: "plan_tax_rule s d q True = Inr p" "rp_operation p = op"
    and keep: "op = UNCHANGED_RULE \<Longrightarrow> d' = d \<and> r \<in> set (tx_rules d) \<and> rp_rule_id p = Some (tr_id r)"
    and create: "op = CREATE_RULE \<Longrightarrow> r = write_rule w (blank_rule (next_id tr_id (tx_rules d)) q)
       \<and> rule_constraints r \<and> d' = d\<lparr>tx_rules := tx_rules d @ [r]\<rparr>"
    and update: "op = UPDATE_RULE \<Longrightarrow> \<exists>x. x \<in> set (tx_rules d) \<and> rp_rule_id p = Some (tr_id x)
       \<and> r = write_rule w x \<and> rule_constraints r
       \<and> d' = d\<lparr>tx_rules := modify tr_id (tr_id x) (write_rule w) (tx_rules d)\<rparr>"
    using provision_success[OF inv run] by metis
  from w v have "w = v" by simp
  have "P r" using provision_writes[OF inv run] v whole
    by (auto simp: P_def written_for_def same_precedence_def sql_bin_equal_def)
  have planned: "filter P (tx_rules d) = [] \<and> rp_operation p = CREATE_RULE \<and> rp_rule_id p = None
     \<or> (\<exists>y. filter P (tx_rules d) = [y] \<and> rp_rule_id p = Some (tr_id y) \<and> rp_operation p \<noteq> CREATE_RULE)"
  proof -
    obtain u where u: "rule_values_of q = Inr u" and alt:
      "matching_rules d (rq_tenant_id q) (rq_organization_id q) (rq_location_id q)
         (rv_tax_classification_code u) (rv_effective_from u) = [] \<and> rp_operation p = CREATE_RULE
         \<and> rp_rule_id p = None
       \<or> (\<exists>r. matching_rules d (rq_tenant_id q) (rq_organization_id q) (rq_location_id q)
         (rv_tax_classification_code u) (rv_effective_from u) = [r] \<and> rp_rule_id p = Some (tr_id r)
         \<and> rp_operation p = (if rule_state r = comparable_values u then UNCHANGED_RULE else UPDATE_RULE)
         \<and> rp_expected_state p = Some (tr_id r, rule_state r))"
      by (rule plan_success[OF p(1)])
    from u v have "u = v" by simp
    show ?thesis using alt unfolding \<open>u = v\<close> rows order_by_single order_by_empty by (elim disjE exE conjE) simp_all
  qed
  have one: "filter P (tx_rules d) = [x]" if "x \<in> set (tx_rules d)" "rp_rule_id p = Some (tr_id x)" for x
  proof -
    from planned that(2) obtain y where y: "filter P (tx_rules d) = [y]" "tr_id y = tr_id x" by auto
    then have "y \<in> set (tx_rules d)" by (metis filter_is_subset insertI1 list.set(2) subsetD)
    with y show ?thesis using same_row[OF inv _ that(1)] by metis
  qed
  have "filter P (tx_rules d') = [r]"
  proof (cases op)
    case CREATE_RULE
    with planned p(2) have "filter P (tx_rules d) = []" by auto
    with create[OF CREATE_RULE] \<open>P r\<close> show ?thesis by (elim conjE) simp
  next
    case UPDATE_RULE
    with update obtain x where x: "x \<in> set (tx_rules d)" "rp_rule_id p = Some (tr_id x)" "r = write_rule w x"
      "d' = d\<lparr>tx_rules := modify tr_id (tr_id x) (write_rule w) (tx_rules d)\<rparr>" by blast
    let ?f = "\<lambda>y. if tr_id y = tr_id x then write_rule w y else y"
    have "x \<in> set (filter P (tx_rules d))" using one[OF x(1,2)] by simp
    then have "P x" by simp
    have "P (?f y) \<longleftrightarrow> P y" if "y \<in> set (tx_rules d)" for y
    proof (cases "tr_id y = tr_id x")
      case True
      then have "y = x" using same_row[OF inv that x(1)] by simp
      with \<open>P r\<close> \<open>P x\<close> x(3) show ?thesis by simp
    qed simp
    then have "filter (P \<circ> ?f) (tx_rules d) = filter P (tx_rules d)" by (intro filter_cong) simp_all
    then have "filter P (map ?f (tx_rules d)) = map ?f [x]" by (simp only: filter_map one[OF x(1,2)])
    with x(3,4) show ?thesis by (simp add: modify_def)
  next
    case UNCHANGED_RULE
    with keep have "d' = d" "r \<in> set (tx_rules d)" "rp_rule_id p = Some (tr_id r)" by blast+
    with one show ?thesis by simp
  qed
  then show ?thesis by (simp add: rows order_by_single)
qed

lemma no_overlap_beside:
  assumes inv: "tax_rules_inv d'" and row: "written_for d q v d' r" and active: "rv_status v = ''ACTIVE''"
    and v: "rule_values_of q = Inr v"
  shows "\<not> overlapping_rule d' (rq_tenant_id q) (rq_organization_id q) (rq_location_id q)
      (rv_tax_classification_code v) (stored_seconds (rv_effective_from v))
      (map_option stored_seconds (rv_effective_to v)) (Some (tr_id r))"
proof
  assume "overlapping_rule d' (rq_tenant_id q) (rq_organization_id q) (rq_location_id q)
      (rv_tax_classification_code v) (stored_seconds (rv_effective_from v))
      (map_option stored_seconds (rv_effective_to v)) (Some (tr_id r))"
  then obtain y where y: "y \<in> set (tx_rules d')" "same_precedence (rq_tenant_id q) (rq_organization_id q)
      (rq_location_id q) (rv_tax_classification_code v) y" "tr_status y = ''ACTIVE''" "tr_id y \<noteq> tr_id r"
      "overlaps (stored_seconds (rv_effective_from v)) (map_option stored_seconds (rv_effective_to v))
        (tr_effective_from y) (tr_effective_to y)"
    by (auto simp: overlapping_rule_def list_ex_iff)
  have "strip (rv_tax_classification_code v) = rv_tax_classification_code v"
    using rule_values_success[OF v] by (simp add: values_ok_def)
  with y(2) stored_rows[OF inv y(1)] have "tr_tax_classification_code y = rv_tax_classification_code v"
    by (simp add: same_precedence_def stored_rule_def sql_bin_equal_stripped)
  with y row active have "\<not> disjoint_rules r y"
    by (simp add: disjoint_rules_def same_scope_def written_for_def same_precedence_def)
  with inv y(1) row show False by (simp add: tax_rules_inv_def written_for_def)
qed


text \<open>
  Provisioning is idempotent on whole seconds: the same command again, on what the first one stored,
  changes nothing and answers with the same rule.
\<close>

theorem provisioning_again_changes_nothing:
  assumes "tax_rules_inv d" and "provision_tax_rule s d q = Inr (d', r, op)" and "rule_values_of q = Inr v"
    and "stored_seconds (rv_effective_from v) = rv_effective_from v"
    and "map_option stored_seconds (rv_effective_to v) = rv_effective_to v"
    and "tx_locations d = tx_locations s"
  shows "provision_tax_rule d' d' q = Inr (d', r, UNCHANGED_RULE)"
proof -
  have row: "written_for d q v d' r" using provision_writes[OF assms(1,2)] assms(3) by auto
  have inv: "tax_rules_inv d'" using provision_keeps[OF assms(1,2)] .
  note w = row[unfolded written_for_def]
  have scope: "rule_scope d' d' (rq_tenant_id q) (rq_organization_id q) (rq_location_id q) lock = Inr ()" for lock
    using scope_again[OF assms(2) row assms(6)] .
  have "matching_rules d' (rq_tenant_id q) (rq_organization_id q) (rq_location_id q)
      (rv_tax_classification_code v) (rv_effective_from v) = [r]"
    using only_match[OF assms(1,2,3,4)] .
  moreover have "\<not> overlapping_rule d' (rq_tenant_id q) (rq_organization_id q) (rq_location_id q)
      (rv_tax_classification_code v) (rv_effective_from v) (rv_effective_to v) (Some (tr_id r))"
    if "rv_status v = ''ACTIVE''"
    using no_overlap_beside[OF inv row that assms(3)] assms(4,5) by simp
  moreover have "rule_state r = comparable_values v"
    using w assms(5) by (simp add: rule_state_def comparable_values_def)
  ultimately have plan: "plan_tax_rule d' d' q lock = Inr \<lparr>rp_operation = UNCHANGED_RULE,
      rp_rule_id = Some (tr_id r), rp_expected_state = Some (tr_id r, rule_state r)\<rparr>" for lock
    by (auto simp: plan_tax_rule_def assms(3) scope Let_def)
  have "find_rule d' q (tr_id r) = Some r" using w by (intro find_matching[OF inv]) auto
  then show ?thesis by (simp add: provision_tax_rule_def plan assms(3))
qed

text \<open>
  The same command is refused when its start has a fraction of a second: the stored start is
  rounded, so the second command finds no rule with its start and takes the first one's rule for an
  overlapping one.
\<close>

theorem fractional_start_conflicts_with_itself:
  assumes "tax_rules_inv d" and "provision_tax_rule s d q = Inr (d', r, op)" and "rule_values_of q = Inr v"
    and "stored_seconds (rv_effective_from v) \<noteq> rv_effective_from v" and "rv_effective_to v = None"
    and "rv_status v = ''ACTIVE''" and "tx_locations d = tx_locations s"
  shows "op = CREATE_RULE \<and> provision_tax_rule d' d' q = Inl TaxRuleConflictError"
proof -
  have row: "written_for d q v d' r" using provision_writes[OF assms(1,2)] assms(3) by auto
  have inv: "tax_rules_inv d'" using provision_keeps[OF assms(1,2)] .
  note w = row[unfolded written_for_def]
  have scope: "rule_scope d' d' (rq_tenant_id q) (rq_organization_id q) (rq_location_id q) lock = Inr ()" for lock
    using scope_again[OF assms(2) row assms(7)] .
  have none: "matching_rules e (rq_tenant_id q) (rq_organization_id q) (rq_location_id q)
      (rv_tax_classification_code v) (rv_effective_from v) = []" if "tax_rules_inv e" for e
    using stored_rows[OF that] assms(4)
    unfolding matching_rules_def order_by_empty filter_empty_conv stored_rule_def by metis
  have "op = CREATE_RULE" using created_without_match[OF assms(1-3) none[OF assms(1)]] .
  moreover have "overlapping_rule d' (rq_tenant_id q) (rq_organization_id q) (rq_location_id q)
      (rv_tax_classification_code v) (rv_effective_from v) (rv_effective_to v) None"
    using w assms(5,6)
    by (auto simp: overlapping_rule_def list_ex_iff same_precedence_def sql_bin_equal_def overlaps_def)
  then have "plan_tax_rule d' d' q lock = Inl TaxRuleConflictError" for lock
    by (simp add: plan_tax_rule_def assms(3,6) scope Let_def none[OF inv])
  ultimately show ?thesis by (simp add: provision_tax_rule_def)
qed

end
