(* ===== verification/TaxWitnesses.thy ===== *)
theory TaxWitnesses
  imports TaxProofs TaxRuleProofs
begin

text \<open>A concrete organization, one rule of sixteen per cent and one line of 116.\<close>

definition iva :: rule_request where
  "iva = \<lparr>rq_tenant_id = 1, rq_organization_id = 2, rq_location_id = Some 5,
     rq_tax_classification_code = Some '' A '', rq_jurisdiction_code = Some ''MX'',
     rq_tax_category = Some ''IVA'', rq_tax_treatment = Some ''taxable'',
     rq_tax_effect = Some ''TRANSFERRED'', rq_tax_rate = PyDecimal (4 / 25),
     rq_calculation_policy = Some CALCULATION_POLICY, rq_rounding_policy = Some TAX_ROUNDING_POLICY,
     rq_effective_from = NaiveTime 0, rq_effective_to = None, rq_status = Some ''ACTIVE''\<rparr>"

definition iva_values :: rule_values where
  "iva_values = \<lparr>rv_tax_classification_code = ''A'', rv_jurisdiction_code = ''MX'', rv_tax_category = ''IVA'',
     rv_tax_treatment = ''TAXABLE'', rv_tax_effect = ''TRANSFERRED'', rv_tax_rate = 4 / 25,
     rv_calculation_policy = CALCULATION_POLICY, rv_rounding_policy = TAX_ROUNDING_POLICY,
     rv_effective_from = 0, rv_effective_to = None, rv_status = ''ACTIVE''\<rparr>"

definition no_rules :: tax_tables where
  "no_rules = \<lparr>tx_organizations = [(2, 1)], tx_locations = [\<lparr>loc_id = 5, loc_tenant_id = 1,
     loc_organization_id = 2, loc_cash_management_activated_at = None\<rparr>],
     tx_products = [\<lparr>pd_id = 9, pd_tenant_id = 1, pd_organization_id = 2,
       pd_name = ''Taco'', pd_tax_classification_code = Some ''A'', pd_status = ''ACTIVE''\<rparr>], tx_rules = []\<rparr>"

definition iva_rule :: tax_rule where
  "iva_rule = write_rule iva_values (blank_rule 1 iva)"

definition one_rule :: tax_tables where
  "one_rule = no_rules\<lparr>tx_rules := [iva_rule]\<rparr>"

lemma six_decimals: "supported_rate (PyDecimal (4 / 25))"
  by code_simp

lemma iva_text:
  "rule_text (Some '' A '') 64 = Inr ''A''" "rule_text (Some ''MX'') 64 = Inr ''MX''"
  "rule_text (Some ''IVA'') 64 = Inr ''IVA''"
  "rule_text (Some CALCULATION_POLICY) 64 = Inr CALCULATION_POLICY"
  "rule_text (Some TAX_ROUNDING_POLICY) 64 = Inr TAX_ROUNDING_POLICY"
  "rule_choice (Some ''taxable'') [''TAXABLE'', ''ZERO_RATE'', ''EXEMPT''] = Inr ''TAXABLE''"
  "rule_choice (Some ''TRANSFERRED'') [''TRANSFERRED'', ''WITHHELD''] = Inr ''TRANSFERRED''"
  "rule_choice (Some ''ACTIVE'') [''ACTIVE'', ''INACTIVE''] = Inr ''ACTIVE''"
  by code_simp+

lemma iva_valid: "rule_values_of iva = Inr iva_values"
  by (simp add: rule_values_of_def iva_def iva_text rule_instant_def rule_instant_optional_def
      provisioned_rate_def six_decimals iva_values_def)

lemma iva_fields:
  "rq_tenant_id iva = 1" "rq_organization_id iva = 2" "rq_location_id iva = Some 5"
  by (simp_all add: iva_def)

lemma iva_values_fields:
  "rv_effective_from iva_values = 0" "rv_effective_to iva_values = None" "rv_status iva_values = ''ACTIVE''"
  "rv_tax_classification_code iva_values = ''A''"
  by (simp_all add: iva_values_def)

lemma no_rules_fields:
  "tx_rules no_rules = []" "tx_organizations no_rules = [(2, 1)]"
  "tx_locations no_rules = [\<lparr>loc_id = 5, loc_tenant_id = 1, loc_organization_id = 2,
     loc_cash_management_activated_at = None\<rparr>]"
  "tx_products no_rules = [\<lparr>pd_id = 9, pd_tenant_id = 1, pd_organization_id = 2,
       pd_name = ''Taco'', pd_tax_classification_code = Some ''A'', pd_status = ''ACTIVE''\<rparr>]"
  by (simp_all add: no_rules_def)

lemma one_rule_fields:
  "tx_rules one_rule = [iva_rule]" "tx_organizations one_rule = tx_organizations no_rules"
  "tx_locations one_rule = tx_locations no_rules" "tx_products one_rule = tx_products no_rules"
  by (simp_all add: one_rule_def)

lemma iva_plan: "plan_tax_rule no_rules no_rules iva lock
    = Inr \<lparr>rp_operation = CREATE_RULE, rp_rule_id = None, rp_expected_state = None\<rparr>"
  by (simp add: plan_tax_rule_def iva_valid rule_scope_def matching_rules_def overlapping_rule_def
      order_by_def no_rules_fields iva_fields)

lemma iva_ok: "rule_constraints iva_rule"
  by (simp add: iva_rule_def rule_constraints_def write_rule_def iva_values_def stored_seconds_def)

lemma iva_provisioned: "provision_tax_rule no_rules no_rules iva = Inr (one_rule, iva_rule, CREATE_RULE)"
proof -
  have "next_id tr_id (tx_rules no_rules) = 1" by (simp add: no_rules_fields next_id_def)
  then show ?thesis
    using iva_ok by (simp add: provision_tax_rule_def iva_plan iva_valid iva_rule_def[symmetric] Let_def one_rule_def)
      (simp add: no_rules_fields)
qed

lemma no_rules_inv: "tax_rules_inv no_rules"
  by (rule empty_inv) (rule no_rules_fields)

lemma one_rule_run: "run_provisioning no_rules [(no_rules, iva)] = one_rule"
  by (simp add: run_provisioning_def provisioning_outcome_def iva_provisioned)

lemma iva_row:
  "tr_id iva_rule = 1" "tr_tax_classification_code iva_rule = ''A''" "tr_status iva_rule = ''ACTIVE''"
  "tr_effective_from iva_rule = 0" "tr_effective_to iva_rule = None" "tr_location_id iva_rule = Some 5"
  "tr_tax_rate iva_rule = PyDecimal (4 / 25)" "tr_tax_treatment iva_rule = ''TAXABLE''"
  "tr_tax_effect iva_rule = ''TRANSFERRED''" "tr_calculation_policy iva_rule = CALCULATION_POLICY"
  "tr_rounding_policy iva_rule = TAX_ROUNDING_POLICY" "tr_tenant_id iva_rule = 1" "tr_organization_id iva_rule = 2"
  by (simp_all add: iva_rule_def write_rule_def blank_rule_def iva_values_def iva_def stored_seconds_def)

text \<open>The line: one unit of 116, tax included.\<close>

definition taco :: tax_line_candidate where
  "taco = \<lparr>tc_tenant_id = 1, tc_organization_id = 2, tc_location_id = 5, tc_product_id = 9,
     tc_product_tax_classification_code = Some ''A'', tc_effective_at = NaiveTime 7,
     tc_tax_mode = ''INCLUDED'', tc_quantity = PyDecimal 1, tc_unit_price = PyDecimal 116,
     tc_base_amount = PyDecimal 116, tc_discount_amount = PyDecimal 0, tc_commercial_amount = PyDecimal 116,
     tc_component_tax_classification_codes = []\<rparr>"

definition taco_money :: line_money where
  "taco_money = \<lparr>lm_quantity = 1, lm_unit_price = 116, lm_base_amount = 116, lm_discount_amount = 0,
     lm_commercial_amount = 116\<rparr>"

lemma taco_valid: "validated_candidate taco = Inr taco_money" "tax_classification taco = Inr ''A''"
  by code_simp+

lemma taco_rate: "rate iva_rule TAXABLE = Inr (4 / 25)"
  by (simp add: rate_def iva_row six_decimals)

lemma taco_base: "pre_tax 116 (4 / 25) TAXABLE = 100"
proof -
  have "pre_tax 116 (4 / 25) TAXABLE = exact_pre_tax 116 (4 / 25)"
    by (rule pre_tax_bounds(1)[of _ 1160000 _ 160000]) (simp_all add: MAX_MONEY_def MAX_RATE_def)
  moreover have "\<lfloor>2000001 / 2 :: rat\<rfloor> = 1000000" by (rule floor_unique) simp_all
  ultimately show ?thesis by (simp add: exact_pre_tax_def round_half_up_def)
qed

lemma taco_parts: "calculate_tax taco_money (4 / 25) TAXABLE = Inr (100, 100, 0, 100, 16)"
  by (simp add: calculate_tax_def taco_money_def taco_base Let_def)

lemma taco_rules: "tax_rules_for one_rule 1 2 5 ''A'' 7 = [iva_rule]"
  by (simp add: tax_rules_for_def one_rule_fields iva_row rule_effective_def order_by_def sql_bin_equal_def)

lemma taco_rule: "select_rule taco ''A'' 7 [iva_rule] = Inr iva_rule"
  by (simp add: select_rule_def taco_def iva_row rule_effective_def)

lemma taco_evidence: "\<exists>e. resolve_tax_evidence sha one_rule taco = Inr e \<and> te_taxable_base e = 100 \<and> te_tax_amount e = 16"
proof -
  have "tc_tenant_id taco = 1" "tc_organization_id taco = 2" "tc_location_id taco = 5" "tc_product_id taco = 9"
    "tc_effective_at taco = NaiveTime 7" by (simp_all add: taco_def)
  moreover have "parse_tax_treatment ''TAXABLE'' = Some TAXABLE" "parse_tax_effect ''TRANSFERRED'' = Some TRANSFERRED"
    by (simp_all add: parse_tax_treatment_def parse_tax_effect_def)
  ultimately show ?thesis
    by (simp add: resolve_tax_evidence_def taco_valid one_rule_fields no_rules_fields taco_rules taco_rule evidence_of_rule_def iva_row
        taco_rate taco_parts)
qed


section \<open>The properties at these values\<close>


theorem decomposition_never_fails_witness:
  "\<exists>parts. calculate_tax taco_money (4 / 25) TAXABLE = Inr parts"
  using decomposition_never_fails[OF taco_valid(1) taco_rate] .

theorem fifty_digits_suffice_witness:
  "pre_tax 116 (4 / 25) TAXABLE = of_int \<lfloor>116 / (1 + 4 / 25) * 10000 + 1 / 2 :: rat\<rfloor> / 10000"
proof (rule fifty_digits_suffice)
  show "money (PyDecimal 116) False = Inr 116" by code_simp
  show "rate iva_rule TAXABLE = Inr (4 / 25)" by (rule taco_rate)
qed

theorem applicable_rule_is_unique_witness:
  "iva_rule \<in> set (tx_rules one_rule) \<and> rule_effective 7 iva_rule"
proof -
  have "select_rule taco ''A'' 7 (tax_rules_for one_rule 1 2 5 ''A'' 7) = Inr iva_rule"
    by (simp only: taco_rules taco_rule)
  moreover have "tc_location_id taco = 5" by (simp add: taco_def)
  ultimately show ?thesis using applicable_rule_is_unique by blast
qed

theorem resolution_never_ambiguous_witness:
  "resolve_tax_evidence (\<lambda>_. ''digest'') one_rule taco \<noteq> Inl TaxRuleAmbiguousError
    \<and> resolve_tax_rule_configuration one_rule 1 2 5 (Some ''A'') (NaiveTime 7) \<noteq> Inl TaxRuleConflictError"
proof -
  have "tc_product_tax_classification_code taco = Some ''A''" "strip ''A'' = ''A''"
    by (simp add: taco_def) code_simp
  from resolution_never_ambiguous[OF no_rules_fields(1) this, of "\<lambda>_. ''digest''" "[(no_rules, iva)]"]
  show ?thesis unfolding one_rule_run by blast
qed


theorem provisioning_again_changes_nothing_witness:
  "provision_tax_rule one_rule one_rule iva = Inr (one_rule, iva_rule, UNCHANGED_RULE)"
  by (rule provisioning_again_changes_nothing[OF no_rules_inv iva_provisioned iva_valid])
    (simp_all add: iva_values_fields stored_seconds_def)

text \<open>The same rule from a moment 0.4 seconds later.\<close>

definition late_iva :: rule_request where
  "late_iva = iva\<lparr>rq_effective_from := NaiveTime 400000\<rparr>"

definition late_values :: rule_values where
  "late_values = iva_values\<lparr>rv_effective_from := 400000\<rparr>"

lemma late_valid: "rule_values_of late_iva = Inr late_values"
  by (simp add: rule_values_of_def late_iva_def iva_def iva_text rule_instant_def rule_instant_optional_def
      provisioned_rate_def six_decimals iva_values_def late_values_def)

lemma late_fields:
  "rq_tenant_id late_iva = 1" "rq_organization_id late_iva = 2" "rq_location_id late_iva = Some 5"
  "rv_effective_from late_values = 400000" "rv_effective_to late_values = None" "rv_status late_values = ''ACTIVE''"
  by (simp_all add: late_iva_def iva_def late_values_def iva_values_def)

lemma late_plan: "plan_tax_rule no_rules no_rules late_iva lock
    = Inr \<lparr>rp_operation = CREATE_RULE, rp_rule_id = None, rp_expected_state = None\<rparr>"
  by (simp add: plan_tax_rule_def late_valid rule_scope_def matching_rules_def overlapping_rule_def
      order_by_def no_rules_fields late_fields)

lemma late_provisioned: "\<exists>d' r op. provision_tax_rule no_rules no_rules late_iva = Inr (d', r, op)"
proof -
  have "rule_constraints (write_rule late_values (blank_rule i late_iva))" for i
    by (simp add: rule_constraints_def write_rule_def iva_values_def stored_seconds_def late_values_def)
  then show ?thesis by (simp add: provision_tax_rule_def late_plan late_valid Let_def)
qed

theorem fractional_start_conflicts_with_itself_witness:
  "\<exists>d' r. provision_tax_rule no_rules no_rules late_iva = Inr (d', r, CREATE_RULE)
    \<and> provision_tax_rule d' d' late_iva = Inl TaxRuleConflictError"
proof -
  obtain d' r op where run: "provision_tax_rule no_rules no_rules late_iva = Inr (d', r, op)"
    using late_provisioned by blast
  have "op = CREATE_RULE \<and> provision_tax_rule d' d' late_iva = Inl TaxRuleConflictError"
    by (rule fractional_start_conflicts_with_itself[OF no_rules_inv run late_valid])
      (simp_all add: late_fields stored_seconds_def)
  with run show ?thesis by blast
qed

end
