(* ===== verification/Units.thy ===== *)
theory Units
  imports Decimals
begin

text \<open>
  Units of measure and the exact quantities of the inventory (\<^verbatim>\<open>app/restaurant/inventory/units.py\<close>).
  Products and quotients are those of the default context: 28 digits, rounded half to even; a
  \<^verbatim>\<open>quantize\<close> that would need more digits raises \<^verbatim>\<open>decimal.InvalidOperation\<close>.
\<close>

datatype unit_error = UnitConversionError | DecimalInvalidOperation

datatype unit_code = UOM_KG | UOM_G | UOM_L | UOM_ML | UOM_UNIT | UOM_PORTION

datatype unit_family = MASS | VOLUME | UNITS | PORTIONS

fun unit_code_value :: "unit_code \<Rightarrow> string" where
  "unit_code_value UOM_KG = ''KG''"
| "unit_code_value UOM_G = ''G''"
| "unit_code_value UOM_L = ''L''"
| "unit_code_value UOM_ML = ''ML''"
| "unit_code_value UOM_UNIT = ''UNIT''"
| "unit_code_value UOM_PORTION = ''PORTION''"

fun FAMILY :: "unit_code \<Rightarrow> unit_family" where
  "FAMILY UOM_KG = MASS"
| "FAMILY UOM_G = MASS"
| "FAMILY UOM_L = VOLUME"
| "FAMILY UOM_ML = VOLUME"
| "FAMILY UOM_UNIT = UNITS"
| "FAMILY UOM_PORTION = PORTIONS"

fun TO_FAMILY_BASE :: "unit_code \<Rightarrow> rat" where
  "TO_FAMILY_BASE UOM_KG = 1000"
| "TO_FAMILY_BASE UOM_G = 1"
| "TO_FAMILY_BASE UOM_L = 1000"
| "TO_FAMILY_BASE UOM_ML = 1"
| "TO_FAMILY_BASE UOM_UNIT = 1"
| "TO_FAMILY_BASE UOM_PORTION = 1"

text \<open>An argument is \<^const>\<open>None\<close> when it is no \<^verbatim>\<open>str\<close>; a \<^verbatim>\<open>UnitCode\<close> is the string of its value.\<close>

definition unit_code_of :: "string option \<Rightarrow> unit_error + unit_code" where
  "unit_code_of value =
     (case value of
        None \<Rightarrow> Inl UnitConversionError
      | Some s \<Rightarrow>
          (case List.find (\<lambda>u. unit_code_value u = upper (strip s))
                  [UOM_KG, UOM_G, UOM_L, UOM_ML, UOM_UNIT, UOM_PORTION] of
             None \<Rightarrow> Inl UnitConversionError
           | Some u \<Rightarrow> Inr u))"

definition exact_quantity :: "pynum \<Rightarrow> bool \<Rightarrow> unit_error + rat" where
  "exact_quantity value positive =
     (case value of
        PyNonFinite \<Rightarrow> Inl UnitConversionError
      | PyOther \<Rightarrow> Inl UnitConversionError
      | PyDecimal x \<Rightarrow>
          (case quantize round_half_even 6 x of
             None \<Rightarrow> Inl DecimalInvalidOperation
           | Some y \<Rightarrow>
               if x \<noteq> y then Inl UnitConversionError
               else if positive \<and> x \<le> 0 then Inl UnitConversionError
               else Inr x))"

definition convert_quantity ::
  "pynum \<Rightarrow> string option \<Rightarrow> string option \<Rightarrow> unit_error + rat"
where
  "convert_quantity quantity from_uom to_uom =
     bind_result (exact_quantity quantity False) (\<lambda>value.
     bind_result (unit_code_of from_uom) (\<lambda>source.
     bind_result (unit_code_of to_uom) (\<lambda>target.
     if FAMILY source \<noteq> FAMILY target then Inl UnitConversionError
     else exact_quantity (PyDecimal (round_digits 28
            (round_digits 28 (value * TO_FAMILY_BASE source) / TO_FAMILY_BASE target))) False)))"

definition conversion_factor :: "pynum \<Rightarrow> unit_error + rat" where
  "conversion_factor value =
     (case value of
        PyNonFinite \<Rightarrow> Inl UnitConversionError
      | PyOther \<Rightarrow> Inl UnitConversionError
      | PyDecimal x \<Rightarrow>
          if x \<le> 0 then Inl UnitConversionError
          else (case quantize round_half_even 12 x of
                  None \<Rightarrow> Inl DecimalInvalidOperation
                | Some y \<Rightarrow> if x \<noteq> y then Inl UnitConversionError else Inr x))"

definition convert_item_quantity :: "pynum \<Rightarrow> pynum \<Rightarrow> unit_error + rat" where
  "convert_item_quantity quantity factor_to_base =
     bind_result (exact_quantity quantity False) (\<lambda>value.
     bind_result (conversion_factor factor_to_base) (\<lambda>factor.
     (case quantize round_half_up 6 (round_digits 28 (value * factor)) of
        None \<Rightarrow> Inl DecimalInvalidOperation
      | Some normalized \<Rightarrow>
          if value \<noteq> 0 \<and> normalized = 0 then Inl UnitConversionError else Inr normalized)))"

section \<open>What a conversion keeps\<close>

lemma exact_quantity_success:
  "exact_quantity value positive = Inr x \<longleftrightarrow>
     value = PyDecimal x \<and> quantize round_half_even 6 x = Some x \<and> (positive \<longrightarrow> 0 < x)"
  by (auto simp: exact_quantity_def split: pynum.splits option.splits if_splits)

lemma quantize_fixed:
  "quantize round_half_even d x = Some x \<longleftrightarrow> (\<exists>n. x = of_int n / 10 ^ d \<and> \<bar>n\<bar> < 10 ^ 28)"
proof
  assume "quantize round_half_even d x = Some x"
  then have "x = of_int (round_half_even (x * 10 ^ d)) / 10 ^ d" "\<bar>round_half_even (x * 10 ^ d)\<bar> < 10 ^ 28"
    by (auto simp: quantize_def Let_def split: if_splits)
  then show "\<exists>n. x = of_int n / 10 ^ d \<and> \<bar>n\<bar> < 10 ^ 28" by blast
qed (auto simp: quantize_def)

lemma unit_code_round: "unit_code_of (Some (unit_code_value u)) = Inr u"
  by (cases u; hypsubst) code_simp+

lemma base_units: "FAMILY s = FAMILY t \<Longrightarrow>
    TO_FAMILY_BASE s = TO_FAMILY_BASE t \<or> TO_FAMILY_BASE s = 1000 \<and> TO_FAMILY_BASE t = 1
    \<or> TO_FAMILY_BASE s = 1 \<and> TO_FAMILY_BASE t = 1000"
  by (cases s; cases t) simp_all

text \<open>Multiplying by 1000 keeps the number of digits, dividing adds at most decimals.\<close>

lemma round_digits_shift:
  assumes "quantize round_half_even 6 x = Some x"
  shows "round_digits 28 (x * 1000) = x * 1000" "round_digits 28 (x / 1000) = x / 1000" "round_digits 28 x = x"
proof -
  obtain n where n: "x = of_int n / 10 ^ 6" "\<bar>n\<bar> < 10 ^ 28" using assms unfolding quantize_fixed by blast
  show "round_digits 28 (x * 1000) = x * 1000" by (rule round_digits_fits[of _ n 3]) (use n in simp_all)
  show "round_digits 28 (x / 1000) = x / 1000" by (rule round_digits_fits[of _ n 9]) (use n in simp_all)
  show "round_digits 28 x = x" by (rule round_digits_fits[of _ n 6]) (use n in simp_all)
qed

lemma convert_quantity_success:
  assumes "convert_quantity (PyDecimal x) source target = Inr y"
  obtains s t where "unit_code_of source = Inr s" "unit_code_of target = Inr t" "FAMILY s = FAMILY t"
    "quantize round_half_even 6 x = Some x" "quantize round_half_even 6 y = Some y"
    "y = x * TO_FAMILY_BASE s / TO_FAMILY_BASE t"
proof -
  from assms obtain s t where st: "unit_code_of source = Inr s" "unit_code_of target = Inr t" "FAMILY s = FAMILY t"
    and x: "quantize round_half_even 6 x = Some x"
    and run: "exact_quantity (PyDecimal (round_digits 28
            (round_digits 28 (x * TO_FAMILY_BASE s) / TO_FAMILY_BASE t))) False = Inr y"
    by (auto simp: convert_quantity_def bind_result_Inr_iff exact_quantity_success split: if_splits)
  have "round_digits 28 (round_digits 28 (x * TO_FAMILY_BASE s) / TO_FAMILY_BASE t) = x * TO_FAMILY_BASE s / TO_FAMILY_BASE t"
    using base_units[OF st(3)] round_digits_shift[OF x]
    by (cases "TO_FAMILY_BASE s = TO_FAMILY_BASE t"; cases s; cases t) simp_all
  with run have "y = x * TO_FAMILY_BASE s / TO_FAMILY_BASE t" "quantize round_half_even 6 y = Some y"
    unfolding exact_quantity_success by simp_all
  with st x show thesis using that by blast
qed

text \<open>
  C38: Converting back returns the quantity: what \<^verbatim>\<open>convert_quantity\<close> converts from one unit to another it
  converts back to the same quantity, without loss of a decimal.
\<close>

theorem conversion_round_trip:
  assumes "convert_quantity (PyDecimal x) source target = Inr y"
  shows "convert_quantity (PyDecimal y) target source = Inr x"
proof -
  obtain s t where st: "unit_code_of source = Inr s" "unit_code_of target = Inr t" "FAMILY s = FAMILY t"
    and x: "quantize round_half_even 6 x = Some x" and y: "quantize round_half_even 6 y = Some y"
    and eq: "y = x * TO_FAMILY_BASE s / TO_FAMILY_BASE t"
    using assms by (rule convert_quantity_success)
  have again: "y * TO_FAMILY_BASE t / TO_FAMILY_BASE s = x" unfolding eq by (cases s; cases t) simp_all
  have "round_digits 28 (round_digits 28 (y * TO_FAMILY_BASE t) / TO_FAMILY_BASE s) = y * TO_FAMILY_BASE t / TO_FAMILY_BASE s"
    using base_units[OF st(3)] round_digits_shift[OF y]
    by (cases "TO_FAMILY_BASE s = TO_FAMILY_BASE t"; cases s; cases t) simp_all
  then have "round_digits 28 (round_digits 28 (y * TO_FAMILY_BASE t) / TO_FAMILY_BASE s) = x"
    unfolding again .
  then show ?thesis using st x y
    by (simp add: convert_quantity_def exact_quantity_success[THEN iffD2])
qed

lemma half_up_within:
  assumes "quantize round_half_up d x = Some y"
  shows "\<bar>y - x\<bar> \<le> 1 / (2 * 10 ^ d)"
proof -
  have y: "y = of_int (round_half_up (x * 10 ^ d)) / 10 ^ d" using quantize_SomeD[OF assms] .
  have "\<bar>of_int (round_half_up (x * 10 ^ d)) - x * 10 ^ d\<bar> \<le> 1 / 2"
  proof (cases "0 \<le> x * 10 ^ d")
    case True
    then show ?thesis by (rule round_half_up_error)
  next
    case False
    then have "0 \<le> - (x * 10 ^ d)" by simp
    from round_half_up_error[OF this] show ?thesis unfolding round_half_up_uminus of_int_minus by (simp add: abs_minus_commute)
  qed
  then have "\<bar>of_int (round_half_up (x * 10 ^ d)) - x * 10 ^ d\<bar> / 10 ^ d \<le> 1 / 2 / 10 ^ d"
    by (rule divide_right_mono) simp
  moreover have "y - x = (of_int (round_half_up (x * 10 ^ d)) - x * 10 ^ d) / 10 ^ d"
    by (simp add: y diff_divide_distrib)
  then have "\<bar>y - x\<bar> = \<bar>of_int (round_half_up (x * 10 ^ d)) - x * 10 ^ d\<bar> / 10 ^ d"
    by (simp only: abs_divide) simp
  ultimately show ?thesis by simp
qed

text \<open>
  Below ten thousand million base units the conversion of an item quantity is the exact product
  rounded half up to six decimals: the rounding of the product to 28 digits never shows, the result is
  within half a millionth of the product, and it is zero only for zero.
\<close>

theorem item_conversion_is_exact:
  assumes "convert_item_quantity (PyDecimal x) (PyDecimal f) = Inr y" and "\<bar>x * f\<bar> < 10 ^ 10"
  shows "y = of_int (round_half_up (x * f * 10 ^ 6)) / 10 ^ 6 \<and> \<bar>y - x * f\<bar> \<le> 1 / (2 * 10 ^ 6)
    \<and> (y = 0 \<longleftrightarrow> x = 0)"
proof -
  from assms(1) have x: "quantize round_half_even 6 x = Some x" and f: "0 < f" "quantize round_half_even 12 f = Some f"
    and run: "quantize round_half_up 6 (round_digits 28 (x * f)) = Some y" "x \<noteq> 0 \<longrightarrow> y \<noteq> 0"
    by (auto simp: convert_item_quantity_def bind_result_Inr_iff exact_quantity_success conversion_factor_def
        split: option.splits if_splits)
  obtain n m where units: "x = of_int n / 10 ^ 6" "f = of_int m / 10 ^ 12" using x f(2) unfolding quantize_fixed by blast
  have "x * f * 10 ^ 18 = of_int (n * m)" by (simp add: units)
  then have "round_digits 28 (x * f) = x * f" using assms(2) by (intro round_digits_exact[of _ 10 18]) simp_all
  with run have y: "quantize round_half_up 6 (x * f) = Some y" by simp
  then have "x = 0 \<Longrightarrow> y = 0" using quantize_SomeD[OF y] round_half_up_of_int[of 0] by simp
  with half_up_within[OF y] quantize_SomeD[OF y] run(2) show ?thesis by blast
qed

text \<open>Concrete conversions.\<close>

theorem conversion_round_trip_witness:
  "convert_quantity (PyDecimal 1250) (Some '' g '') (Some ''KG'') = Inr (5 / 4)"
proof (rule conversion_round_trip)
  have g: "unit_code_of (Some '' g '') = Inr UOM_G" "unit_code_of (Some ''KG'') = Inr UOM_KG" by code_simp+
  have q: "quantize round_half_even 6 (5 / 4) = Some (5 / 4)" "quantize round_half_even 6 1250 = Some 1250" by code_simp+
  show "convert_quantity (PyDecimal (5 / 4)) (Some ''KG'') (Some '' g '') = Inr 1250"
    using round_digits_shift[OF q(1)] round_digits_shift[OF q(2)]
    by (simp add: convert_quantity_def g exact_quantity_def q)
qed

theorem item_conversion_is_exact_witness:
  "\<exists>y. convert_item_quantity (PyDecimal (5 / 2)) (PyDecimal (1 / 4)) = Inr y \<and> \<bar>y - 5 / 8\<bar> \<le> 1 / 2000000"
proof -
  have q: "quantize round_half_even 6 (5 / 2) = Some (5 / 2)" "quantize round_half_even 12 (1 / 4) = Some (1 / 4)"
    "quantize round_half_up 6 (5 / 8) = Some (5 / 8)" by code_simp+
  have "(5 / 2) * (1 / 4) = (5 / 8 :: rat)" by simp
  then have r: "round_digits 28 ((5 / 2) * (1 / 4)) = 5 / 8" by (intro round_digits_fits[of _ 625 3, THEN trans]) simp_all
  have run: "convert_item_quantity (PyDecimal (5 / 2)) (PyDecimal (1 / 4)) = Inr (5 / 8)"
    unfolding convert_item_quantity_def exact_quantity_def conversion_factor_def
    by (simp add: q r del: times_divide_eq_left times_divide_eq_right times_divide_times_eq)
  have "\<bar>5 / 8 - 5 / 2 * (1 / 4)\<bar> \<le> (1 / (2 * 10 ^ 6) :: rat)"
    using item_conversion_is_exact[OF run] by simp
  with run show ?thesis by (intro exI[of _ "5 / 8"]) simp
qed

end
