(* ===== verification/Fifo.thy ===== *)
theory Fifo
  imports Schema Units
begin

text \<open>
  FIFO cost layers and transfers between warehouses (\<^verbatim>\<open>app/restaurant/inventory/fifo_transfers.py\<close>).
  A command is one transaction: an error leaves the tables as they were. The command of a transfer
  locks the row of the transfer and checks its version, so the rows of the transfer it reads are the
  current ones; the stock of an item it sums without a lock, from the snapshot of its transaction:
  \<^theory_text>\<open>s\<close> are the tables of the snapshot, \<^theory_text>\<open>d\<close> the current ones. Quantities are those of
  \<^verbatim>\<open>Numeric(19, 6)\<close> columns, on which sums, differences and \<^verbatim>\<open>quantize(QUANTITY_UNIT)\<close> are exact; costs
  are computed in the default context of 28 digits.
\<close>

datatype fifo_error =
    B11Error | B11NotFound | FifoNonDerivable | NegativeStockBlockedError
  | FifoUnitError unit_error  \<comment> \<open>raised by \<^verbatim>\<open>units.py\<close> or by \<^verbatim>\<open>decimal\<close>\<close>
  | FifoIntegrityError        \<comment> \<open>a unique index refuses a movement when it is flushed\<close>
  | FifoAssertionError        \<comment> \<open>an \<^verbatim>\<open>assert\<close> fails, or a row a foreign key guarantees is missing\<close>

datatype layer_status = LAYER_ACTIVE | LAYER_DEPLETED

datatype movement_kind = TRANSFER_OUT | TRANSFER_IN | OTHER_MOVEMENT string

datatype transfer_status = TRANSFER_DRAFT | TRANSFER_SUBMITTED | TRANSFER_IN_TRANSIT | TRANSFER_RECEIVED | TRANSFER_CANCELLED

datatype fifo_evidence = FIFO_RESOLVED | FIFO_NON_DERIVABLE

record warehouse =
  wh_id :: int
  wh_tenant_id :: int
  wh_organization_id :: int
  wh_location_id :: int
  wh_status :: string
  wh_negative_stock_policy :: string

record inventory_item =
  ii_id :: int
  ii_tenant_id :: int
  ii_organization_id :: int
  ii_location_id :: int
  ii_base_uom :: string

record cost_layer =
  cl_id :: int
  cl_tenant_id :: int
  cl_organization_id :: int
  cl_location_id :: int
  cl_warehouse_id :: int
  cl_inventory_item_id :: int
  cl_inventory_lot_id :: "int option"
  cl_source_inventory_lot_id :: "int option"
  cl_origin_type :: string
  cl_origin_id :: int
  cl_origin_layer_id :: "int option"
  cl_origin_at :: datetime
  cl_original_quantity :: rat
  cl_remaining_quantity :: rat
  cl_unit_cost :: rat
  cl_currency :: string
  cl_status :: layer_status

record cost_allocation =
  ca_id :: int
  ca_tenant_id :: int
  ca_stock_movement_id :: int
  ca_cost_layer_id :: int
  ca_quantity :: rat
  ca_unit_cost :: rat
  ca_extended_cost :: rat
  ca_currency :: string
  ca_allocation_order :: int

text \<open>
  Of a stock movement, the columns that a transfer sets to something of its own or the FIFO evidence
  reads; the standard cost evidence, constant in a transfer, and the request fingerprint are left out.
\<close>

record stock_movement =
  sm_id :: int
  sm_tenant_id :: int
  sm_organization_id :: int
  sm_location_id :: int
  sm_warehouse_id :: int
  sm_inventory_item_id :: int
  sm_movement_type :: movement_kind
  sm_quantity :: rat
  sm_reference :: "string option"
  sm_recorded_at :: datetime
  sm_actor_id :: "int option"
  sm_idempotency_actor_scope :: string
  sm_idempotency_key :: string
  sm_negative_stock_policy :: string
  sm_negative_stock_warning :: bool
  sm_resulting_stock_quantity :: rat
  sm_base_uom_evidence :: "string option"
  sm_fifo_evidence_status :: fifo_evidence
  sm_fifo_extended_cost :: "rat option"
  sm_fifo_currency :: "string option"

record inventory_transfer =
  it_id :: int
  it_tenant_id :: int
  it_organization_id :: int
  it_location_id :: int
  it_source_warehouse_id :: int
  it_destination_warehouse_id :: int
  it_status :: transfer_status
  it_reference :: "string option"
  it_version :: int
  it_created_by_actor_id :: int
  it_submitted_at :: "datetime option"
  it_shipped_at :: "datetime option"
  it_received_at :: "datetime option"
  it_cancelled_at :: "datetime option"
  it_last_command_key :: "string option"
  it_last_command_action :: "string option"

record transfer_line =
  tl_id :: int
  tl_tenant_id :: int
  tl_organization_id :: int
  tl_location_id :: int
  tl_transfer_id :: int
  tl_inventory_item_id :: int
  tl_line_number :: int
  tl_sent_quantity :: rat
  tl_received_quantity :: rat
  tl_source_movement_id :: "int option"

record transfer_receipt =
  rc_id :: int
  rc_tenant_id :: int
  rc_transfer_line_id :: int
  rc_receipt_sequence :: int
  rc_source_layer_id :: int
  rc_destination_layer_id :: int
  rc_destination_movement_id :: int
  rc_quantity :: rat
  rc_unit_cost :: rat
  rc_extended_cost :: rat
  rc_currency :: string

record inventory =
  iv_warehouses :: "warehouse list"
  iv_items :: "inventory_item list"
  iv_layers :: "cost_layer list"
  iv_allocations :: "cost_allocation list"
  iv_movements :: "stock_movement list"
  iv_transfers :: "inventory_transfer list"
  iv_lines :: "transfer_line list"
  iv_receipts :: "transfer_receipt list"

section \<open>Constraints of the tables\<close>

definition cost_layer_ok :: "cost_layer \<Rightarrow> bool" where
  "cost_layer_ok l \<longleftrightarrow> cl_origin_type l \<in> {''GOODS_RECEIPT'', ''PREPARATION_OUTPUT'', ''TRANSFER''}
     \<and> 0 < cl_original_quantity l \<and> 0 \<le> cl_remaining_quantity l
     \<and> cl_remaining_quantity l \<le> cl_original_quantity l \<and> 0 \<le> cl_unit_cost l"

definition cost_allocation_ok :: "cost_allocation \<Rightarrow> bool" where
  "cost_allocation_ok a \<longleftrightarrow> 0 < ca_quantity a \<and> 0 \<le> ca_unit_cost a \<and> 0 \<le> ca_extended_cost a
     \<and> 1 \<le> ca_allocation_order a"

definition inventory_transfer_ok :: "inventory_transfer \<Rightarrow> bool" where
  "inventory_transfer_ok x \<longleftrightarrow> it_source_warehouse_id x \<noteq> it_destination_warehouse_id x \<and> 1 \<le> it_version x"

definition transfer_line_ok :: "transfer_line \<Rightarrow> bool" where
  "transfer_line_ok l \<longleftrightarrow> 1 \<le> tl_line_number l \<and> 0 < tl_sent_quantity l \<and> 0 \<le> tl_received_quantity l
     \<and> tl_received_quantity l \<le> tl_sent_quantity l"

definition transfer_receipt_ok :: "transfer_receipt \<Rightarrow> bool" where
  "transfer_receipt_ok r \<longleftrightarrow> 1 \<le> rc_receipt_sequence r \<and> 0 < rc_quantity r \<and> 0 \<le> rc_unit_cost r
     \<and> 0 \<le> rc_extended_cost r"

definition stock_movements_collide :: "stock_movement \<Rightarrow> stock_movement \<Rightarrow> bool" where
  "stock_movements_collide a b \<longleftrightarrow> sm_tenant_id a = sm_tenant_id b
     \<and> sm_idempotency_actor_scope a = sm_idempotency_actor_scope b
     \<and> sm_idempotency_key a = sm_idempotency_key b"

section \<open>Arithmetic of quantities and values\<close>

definition quantity_unit :: "rat \<Rightarrow> rat" where
  "quantity_unit x = of_int (round_half_even (x * 10 ^ 6)) / 10 ^ 6"

definition value_unit :: "rat \<Rightarrow> fifo_error + rat" where
  "value_unit x =
     (case quantize round_half_even 12 x of
        None \<Rightarrow> Inl (FifoUnitError DecimalInvalidOperation)
      | Some y \<Rightarrow> Inr y)"

definition extended_cost :: "rat \<Rightarrow> rat \<Rightarrow> fifo_error + rat" where
  "extended_cost quantity unit_cost = value_unit (round_digits 28 (quantity * unit_cost))"

definition exact_positive :: "pynum \<Rightarrow> fifo_error + rat" where
  "exact_positive value =
     (case exact_quantity value True of Inl e \<Rightarrow> Inl (FifoUnitError e) | Inr x \<Rightarrow> Inr x)"

section \<open>Layers\<close>

text \<open>A new layer, as \<^verbatim>\<open>create_layer\<close> builds it.\<close>

definition create_layer ::
  "inventory \<Rightarrow> warehouse \<Rightarrow> inventory_item \<Rightarrow> string \<Rightarrow> int \<Rightarrow> datetime \<Rightarrow> rat \<Rightarrow> rat \<Rightarrow> string
   \<Rightarrow> int option \<Rightarrow> int option \<Rightarrow> int option \<Rightarrow> fifo_error + (cost_layer \<times> inventory)"
where
  "create_layer d wh item origin_type origin_id origin_at quantity unit_cost currency
      inventory_lot_id origin_layer_id source_inventory_lot_id =
     bind_result (exact_positive (PyDecimal quantity)) (\<lambda>quantity.
     bind_result (value_unit unit_cost) (\<lambda>cost.
       let l = \<lparr>cl_id = next_id cl_id (iv_layers d), cl_tenant_id = ii_tenant_id item,
                cl_organization_id = ii_organization_id item, cl_location_id = ii_location_id item,
                cl_warehouse_id = wh_id wh, cl_inventory_item_id = ii_id item,
                cl_inventory_lot_id = inventory_lot_id,
                cl_source_inventory_lot_id = source_inventory_lot_id, cl_origin_type = origin_type,
                cl_origin_id = origin_id, cl_origin_layer_id = origin_layer_id,
                cl_origin_at = origin_at, cl_original_quantity = quantity,
                cl_remaining_quantity = quantity, cl_unit_cost = cost, cl_currency = currency,
                cl_status = LAYER_ACTIVE\<rparr>
       in Inr (l, d\<lparr>iv_layers := iv_layers d @ [l]\<rparr>)))"

text \<open>The layers a movement draws from, oldest first.\<close>

definition fifo_layers :: "inventory \<Rightarrow> stock_movement \<Rightarrow> cost_layer list" where
  "fifo_layers d m =
     order_by cl_origin_at (order_by cl_id (filter (\<lambda>l. cl_tenant_id l = sm_tenant_id m
       \<and> cl_warehouse_id l = sm_warehouse_id m \<and> cl_inventory_item_id l = sm_inventory_item_id m
       \<and> cl_status l = LAYER_ACTIVE \<and> 0 < cl_remaining_quantity l) (iv_layers d)))"

text \<open>
  The loop: what is still to take, the currency and the worth so far, the position of the next layer.
  The result also lists what each layer gave: layer, quantity, extended cost, position.
\<close>

fun take_layers ::
  "bool \<Rightarrow> rat \<Rightarrow> string option \<Rightarrow> rat \<Rightarrow> int \<Rightarrow> cost_layer list
   \<Rightarrow> fifo_error + (rat \<times> string option \<times> rat \<times> (cost_layer \<times> rat \<times> rat \<times> int) list)"
where
  "take_layers strict remaining currency worth order [] = Inr (remaining, currency, worth, [])"
| "take_layers strict remaining currency worth order (l # ls) =
     (if remaining \<le> 0 then Inr (remaining, currency, worth, [])
      else
        (let taken = quantity_unit (min remaining (cl_remaining_quantity l))
         in if taken \<le> 0 then take_layers strict remaining currency worth (order + 1) ls
            else if currency \<noteq> None \<and> currency \<noteq> Some (cl_currency l)
            then (if strict then Inl FifoNonDerivable else Inr (remaining, currency, worth, []))
            else
              bind_result (extended_cost taken (cl_unit_cost l)) (\<lambda>extended.
              bind_result (take_layers strict (quantity_unit (remaining - taken)) (Some (cl_currency l))
                  (round_digits 28 (worth + extended)) (order + 1) ls)
                (\<lambda>(rest, c, t, gave). Inr (rest, c, t, (l, taken, extended, order) # gave)))))"

definition allocation_of :: "stock_movement \<Rightarrow> int \<Rightarrow> cost_layer \<times> rat \<times> rat \<times> int \<Rightarrow> cost_allocation" where
  "allocation_of m i g =
     (case g of (l, taken, extended, order) \<Rightarrow>
        \<lparr>ca_id = i, ca_tenant_id = sm_tenant_id m, ca_stock_movement_id = sm_id m,
         ca_cost_layer_id = cl_id l, ca_quantity = taken, ca_unit_cost = cl_unit_cost l,
         ca_extended_cost = extended, ca_currency = cl_currency l, ca_allocation_order = order\<rparr>)"

definition draw_layer :: "rat \<Rightarrow> cost_layer \<Rightarrow> cost_layer" where
  "draw_layer taken l =
     (let rest = quantity_unit (cl_remaining_quantity l - taken)
      in l\<lparr>cl_remaining_quantity := rest, cl_status := (if rest = 0 then LAYER_DEPLETED else cl_status l)\<rparr>)"

fun record_draws ::
  "stock_movement \<Rightarrow> (cost_layer \<times> rat \<times> rat \<times> int) list \<Rightarrow> inventory \<Rightarrow> inventory"
where
  "record_draws m [] d = d"
| "record_draws m (g # gave) d =
     (case g of (l, taken, extended, order) \<Rightarrow>
        record_draws m gave
          (d\<lparr>iv_allocations := iv_allocations d @ [allocation_of m (next_id ca_id (iv_allocations d)) g],
             iv_layers := modify cl_id (cl_id l) (draw_layer taken) (iv_layers d)\<rparr>))"

definition resolve_movement :: "rat \<Rightarrow> string option \<Rightarrow> stock_movement \<Rightarrow> stock_movement" where
  "resolve_movement worth currency m =
     m\<lparr>sm_fifo_evidence_status := FIFO_RESOLVED, sm_fifo_extended_cost := Some worth,
       sm_fifo_currency := currency\<rparr>"

definition unresolved_movement :: "stock_movement \<Rightarrow> stock_movement" where
  "unresolved_movement m =
     m\<lparr>sm_fifo_evidence_status := FIFO_NON_DERIVABLE, sm_fifo_extended_cost := None,
       sm_fifo_currency := None\<rparr>"

definition allocate_fifo ::
  "inventory \<Rightarrow> stock_movement \<Rightarrow> pynum \<Rightarrow> bool \<Rightarrow> fifo_error + inventory"
where
  "allocate_fifo d m quantity require_complete =
     bind_result (exact_positive quantity) (\<lambda>quantity.
     (let layers = fifo_layers d m;
          available = sum_by cl_remaining_quantity layers;
          currencies = remdups (map cl_currency layers)
      in if require_complete \<and> (available < quantity \<or> length currencies \<noteq> 1) then Inl FifoNonDerivable
         else
           bind_result (take_layers require_complete quantity None 0 1 layers)
             (\<lambda>(remaining, currency, worth, gave).
               let d' = record_draws m gave d
               in if remaining = 0 then
                    bind_result (value_unit worth) (\<lambda>worth.
                      Inr (d'\<lparr>iv_movements := modify sm_id (sm_id m) (resolve_movement worth currency)
                               (iv_movements d')\<rparr>))
                  else Inr (d'\<lparr>iv_movements := modify sm_id (sm_id m) unresolved_movement
                               (iv_movements d')\<rparr>))))"

section \<open>Transfers\<close>

definition employee :: "execution_context \<Rightarrow> fifo_error + int" where
  "employee c =
     (if actor_type c \<noteq> EMPLOYEE then Inl B11Error
      else (case principal_id c of None \<Rightarrow> Inl B11Error | Some i \<Rightarrow> Inr i))"

definition find_transfer :: "inventory \<Rightarrow> int \<Rightarrow> int \<Rightarrow> fifo_error + inventory_transfer" where
  "find_transfer d tenant i =
     (case List.find (\<lambda>x. it_id x = i \<and> it_tenant_id x = tenant) (iv_transfers d) of
        None \<Rightarrow> Inl B11NotFound
      | Some x \<Rightarrow> Inr x)"

definition transfer_line_row :: "inventory_transfer \<Rightarrow> int \<Rightarrow> int \<Rightarrow> int \<Rightarrow> rat \<Rightarrow> transfer_line" where
  "transfer_line_row x i item number q =
     \<lparr>tl_id = i, tl_tenant_id = it_tenant_id x, tl_organization_id = it_organization_id x,
      tl_location_id = it_location_id x, tl_transfer_id = it_id x, tl_inventory_item_id = item,
      tl_line_number = number, tl_sent_quantity = q, tl_received_quantity = 0,
      tl_source_movement_id = None\<rparr>"

fun add_lines ::
  "inventory_transfer \<Rightarrow> int \<Rightarrow> (int \<times> pynum) list \<Rightarrow> inventory \<Rightarrow> fifo_error + inventory"
where
  "add_lines x number [] d = Inr d"
| "add_lines x number ((item, quantity) # lines) d =
     bind_result (exact_positive quantity) (\<lambda>q.
       add_lines x (number + 1) lines
         (d\<lparr>iv_lines := iv_lines d @ [transfer_line_row x (next_id tl_id (iv_lines d)) item number q]\<rparr>))"

definition create_transfer ::
  "execution_context \<Rightarrow> int \<Rightarrow> int \<Rightarrow> string option \<Rightarrow> (int \<times> pynum) list \<Rightarrow> inventory
   \<Rightarrow> fifo_error + (int \<times> inventory)"
where
  "create_transfer ctx source_warehouse_id destination_warehouse_id reference lines d =
     bind_result (employee ctx) (\<lambda>actor.
     if source_warehouse_id = destination_warehouse_id \<or> lines = [] then Inl B11Error else
     (let warehouses = order_by wh_id (filter (\<lambda>w. wh_tenant_id w = tenant_id ctx
            \<and> wh_id w \<in> {source_warehouse_id, destination_warehouse_id}) (iv_warehouses d))
      in case warehouses of
           [a, b] \<Rightarrow>
             if wh_location_id a \<noteq> wh_location_id b \<or> wh_status a \<noteq> ''ACTIVE'' \<or> wh_status b \<noteq> ''ACTIVE''
             then Inl B11NotFound
             else (case List.find (\<lambda>w. wh_id w = source_warehouse_id) warehouses of
               None \<Rightarrow> Inl FifoAssertionError
             | Some source \<Rightarrow>
                 if \<not> distinct (map fst lines) then Inl B11Error
                 else if length (filter (\<lambda>i. ii_tenant_id i = tenant_id ctx \<and> ii_location_id i = wh_location_id source
                           \<and> ii_id i \<in> set (map fst lines)) (iv_items d)) \<noteq> length lines
                 then Inl B11NotFound
                 else
                   (let x = \<lparr>it_id = next_id it_id (iv_transfers d), it_tenant_id = tenant_id ctx,
                             it_organization_id = wh_organization_id source,
                             it_location_id = wh_location_id source,
                             it_source_warehouse_id = source_warehouse_id,
                             it_destination_warehouse_id = destination_warehouse_id,
                             it_status = TRANSFER_DRAFT,
                             it_reference = (case reference of None \<Rightarrow> None
                                | Some r \<Rightarrow> if strip r = [] then None else Some (take 200 (strip r))),
                             it_version = 1, it_created_by_actor_id = actor, it_submitted_at = None,
                             it_shipped_at = None, it_received_at = None, it_cancelled_at = None,
                             it_last_command_key = None, it_last_command_action = None\<rparr>
                    in bind_result (add_lines x 1 lines (d\<lparr>iv_transfers := iv_transfers d @ [x]\<rparr>))
                         (\<lambda>d'. Inr (it_id x, d'))))
         | _ \<Rightarrow> Inl B11NotFound))"

text \<open>The stock of an item in a warehouse: the sum of its movements in the snapshot.\<close>

definition stock_of :: "inventory \<Rightarrow> int \<Rightarrow> int \<Rightarrow> int \<Rightarrow> rat" where
  "stock_of s tenant wh item =
     sum_by sm_quantity (filter (\<lambda>m. sm_tenant_id m = tenant \<and> sm_warehouse_id m = wh
       \<and> sm_inventory_item_id m = item) (iv_movements s))"

definition movement_kind_value :: "movement_kind \<Rightarrow> string" where
  "movement_kind_value k = (case k of TRANSFER_OUT \<Rightarrow> ''TRANSFER_OUT'' | TRANSFER_IN \<Rightarrow> ''TRANSFER_IN''
     | OTHER_MOVEMENT s \<Rightarrow> s)"

definition transfer_movement ::
  "inventory_transfer \<Rightarrow> transfer_line \<Rightarrow> warehouse \<Rightarrow> inventory_item \<Rightarrow> movement_kind
   \<Rightarrow> rat \<Rightarrow> datetime \<Rightarrow> int \<Rightarrow> string \<Rightarrow> rat \<Rightarrow> int \<Rightarrow> stock_movement"
where
  "transfer_movement x line wh item kind quantity now actor key result i =
     \<lparr>sm_id = i, sm_tenant_id = it_tenant_id x, sm_organization_id = it_organization_id x,
      sm_location_id = it_location_id x, sm_warehouse_id = wh_id wh,
      sm_inventory_item_id = tl_inventory_item_id line, sm_movement_type = kind,
      sm_quantity = (if kind = TRANSFER_OUT then - quantity else quantity),
      sm_reference = it_reference x, sm_recorded_at = now, sm_actor_id = Some actor,
      sm_idempotency_actor_scope =
        ''INVENTORY_TRANSFER:'' @ str_int (it_id x) @ '':'' @ movement_kind_value kind,
      sm_idempotency_key = key,
      sm_negative_stock_policy = wh_negative_stock_policy wh,
      sm_negative_stock_warning = (result < 0 \<and> wh_negative_stock_policy wh = ''WARN''),
      sm_resulting_stock_quantity = result, sm_base_uom_evidence = Some (ii_base_uom item),
      sm_fifo_evidence_status = FIFO_NON_DERIVABLE, sm_fifo_extended_cost = None, sm_fifo_currency = None\<rparr>"

definition insert_movement :: "stock_movement \<Rightarrow> inventory \<Rightarrow> fifo_error + inventory" where
  "insert_movement m d =
     (if list_ex (stock_movements_collide m) (iv_movements d) then Inl FifoIntegrityError
      else Inr (d\<lparr>iv_movements := iv_movements d @ [m]\<rparr>))"

definition transfer_lines :: "inventory \<Rightarrow> int \<Rightarrow> transfer_line list" where
  "transfer_lines d i = order_by tl_inventory_item_id (filter (\<lambda>l. tl_transfer_id l = i) (iv_lines d))"

definition line_key :: "string \<Rightarrow> transfer_line \<Rightarrow> string" where
  "line_key key line = key @ '':'' @ str_int (tl_id line)"

definition ship_line ::
  "inventory \<Rightarrow> inventory_transfer \<Rightarrow> warehouse \<Rightarrow> datetime \<Rightarrow> int \<Rightarrow> string
   \<Rightarrow> transfer_line \<Rightarrow> inventory \<Rightarrow> fifo_error + inventory"
where
  "ship_line s x source now actor key line d =
     (let result = quantity_unit (stock_of s (it_tenant_id x) (wh_id source) (tl_inventory_item_id line)
                     - tl_sent_quantity line)
      in if wh_negative_stock_policy source = ''BLOCK'' \<and> result < 0 then Inl NegativeStockBlockedError
         else (case find_row ii_id (tl_inventory_item_id line) (iv_items d) of
           None \<Rightarrow> Inl FifoAssertionError
         | Some item \<Rightarrow>
             let m = transfer_movement x line source item TRANSFER_OUT (tl_sent_quantity line) now actor
                       (line_key key line) result (next_id sm_id (iv_movements d))
             in bind_result (insert_movement m d) (\<lambda>d1.
                bind_result (allocate_fifo d1 m (PyDecimal (tl_sent_quantity line)) True) (\<lambda>d2.
                  Inr (d2\<lparr>iv_lines := modify tl_id (tl_id line)
                         (\<lambda>l. l\<lparr>tl_source_movement_id := Some (sm_id m)\<rparr>) (iv_lines d2)\<rparr>)))))"

fun each_line :: "('a \<Rightarrow> inventory \<Rightarrow> fifo_error + inventory) \<Rightarrow> 'a list \<Rightarrow> inventory \<Rightarrow> fifo_error + inventory"
where
  "each_line f [] d = Inr d"
| "each_line f (x # xs) d = bind_result (f x d) (each_line f xs)"

text \<open>What was received of one allocation by earlier receipts of the line.\<close>

definition already_received :: "inventory \<Rightarrow> int \<Rightarrow> int \<Rightarrow> rat" where
  "already_received d line layer =
     sum_by rc_quantity (filter (\<lambda>r. rc_transfer_line_id r = line \<and> rc_source_layer_id r = layer) (iv_receipts d))"

definition next_sequence :: "inventory \<Rightarrow> int \<Rightarrow> int" where
  "next_sequence d line =
     foldr max (map rc_receipt_sequence (filter (\<lambda>r. rc_transfer_line_id r = line) (iv_receipts d))) 0 + 1"

text \<open>
  The loop over the allocations of the shipped movement: \<^theory_text>\<open>d0\<close> are the tables when it starts, for what
  earlier receipts took. It returns the worth of what was received and the currency of the last layer.
\<close>

fun receive_allocations ::
  "inventory \<Rightarrow> inventory_transfer \<Rightarrow> transfer_line \<Rightarrow> warehouse \<Rightarrow> inventory_item \<Rightarrow> int \<Rightarrow> datetime \<Rightarrow> int
   \<Rightarrow> rat \<Rightarrow> rat \<Rightarrow> string option \<Rightarrow> cost_allocation list \<Rightarrow> inventory
   \<Rightarrow> fifo_error + (rat \<times> string option \<times> inventory)"
where
  "receive_allocations d0 x line wh item m now sequence remaining worth currency [] d =
     (if remaining \<noteq> 0 then Inl FifoNonDerivable else Inr (worth, currency, d))"
| "receive_allocations d0 x line wh item m now sequence remaining worth currency (a # as) d =
     (let available = ca_quantity a - already_received d0 (tl_id line) (ca_cost_layer_id a);
          taken = quantity_unit (min remaining available)
      in if taken \<le> 0 then receive_allocations d0 x line wh item m now sequence remaining worth currency as d
         else (case find_row cl_id (ca_cost_layer_id a) (iv_layers d) of
           None \<Rightarrow> Inl FifoAssertionError
         | Some source_layer \<Rightarrow>
             bind_result (create_layer d wh item ''TRANSFER'' m now taken (ca_unit_cost a) (ca_currency a) None
                 (Some (ca_cost_layer_id a))
                 (case cl_inventory_lot_id source_layer of
                    Some l \<Rightarrow> if l \<noteq> 0 then Some l else cl_source_inventory_lot_id source_layer
                  | None \<Rightarrow> cl_source_inventory_lot_id source_layer))
               (\<lambda>(layer, d1).
             bind_result (extended_cost taken (ca_unit_cost a)) (\<lambda>extended.
               let r = \<lparr>rc_id = next_id rc_id (iv_receipts d1), rc_tenant_id = it_tenant_id x,
                        rc_transfer_line_id = tl_id line, rc_receipt_sequence = sequence,
                        rc_source_layer_id = ca_cost_layer_id a, rc_destination_layer_id = cl_id layer,
                        rc_destination_movement_id = m, rc_quantity = taken,
                        rc_unit_cost = ca_unit_cost a, rc_extended_cost = extended,
                        rc_currency = ca_currency a\<rparr>
               in receive_allocations d0 x line wh item m now sequence (remaining - taken)
                    (round_digits 28 (worth + extended)) (Some (ca_currency a)) as
                    (d1\<lparr>iv_receipts := iv_receipts d1 @ [r]\<rparr>)))))"

definition receive_line ::
  "inventory \<Rightarrow> inventory_transfer \<Rightarrow> warehouse \<Rightarrow> datetime \<Rightarrow> int \<Rightarrow> string
   \<Rightarrow> (int \<rightharpoonup> rat) \<Rightarrow> transfer_line \<Rightarrow> inventory \<Rightarrow> fifo_error + inventory"
where
  "receive_line s x destination now actor key requested line d =
     (case requested (tl_id line) of
        None \<Rightarrow> Inr d
      | Some q \<Rightarrow>
          if tl_sent_quantity line < tl_received_quantity line + q then Inl B11Error
          else (case find_row ii_id (tl_inventory_item_id line) (iv_items d) of
            None \<Rightarrow> Inl FifoAssertionError
          | Some item \<Rightarrow>
              let stock = stock_of s (it_tenant_id x) (wh_id destination) (tl_inventory_item_id line);
                  m = transfer_movement x line destination item TRANSFER_IN q now actor
                        (line_key key line) (quantity_unit (stock + q)) (next_id sm_id (iv_movements d))
              in bind_result (insert_movement m d) (\<lambda>d1.
                 bind_result (receive_allocations d1 x line destination item (sm_id m) now
                     (next_sequence d1 (tl_id line)) q 0 None
                     (order_by ca_allocation_order (filter (\<lambda>a. Some (ca_stock_movement_id a) = tl_source_movement_id line)
                        (iv_allocations d1))) d1)
                   (\<lambda>(worth, currency, d2).
                 bind_result (value_unit worth) (\<lambda>worth.
                   Inr (d2\<lparr>iv_movements := modify sm_id (sm_id m) (resolve_movement worth currency) (iv_movements d2),
                          iv_lines := modify tl_id (tl_id line)
                            (\<lambda>l. l\<lparr>tl_received_quantity := quantity_unit (tl_received_quantity line + q)\<rparr>)
                            (iv_lines d2)\<rparr>))))))"

text \<open>\<^verbatim>\<open>{int(v['line_id']): exact_quantity(...) for v in receipts}\<close>: of a repeated line the last entry counts.\<close>

fun requested_quantities :: "(int \<times> pynum) list \<Rightarrow> (int \<rightharpoonup> rat) \<Rightarrow> fifo_error + (int \<rightharpoonup> rat)" where
  "requested_quantities [] requested = Inr requested"
| "requested_quantities ((line, quantity) # receipts) requested =
     bind_result (exact_positive quantity) (\<lambda>q. requested_quantities receipts (requested(line \<mapsto> q)))"

definition run_action ::
  "inventory \<Rightarrow> inventory_transfer \<Rightarrow> string \<Rightarrow> datetime \<Rightarrow> int \<Rightarrow> string
   \<Rightarrow> (int \<times> pynum) list \<Rightarrow> inventory \<Rightarrow> fifo_error + (inventory_transfer \<times> inventory)"
where
  "run_action s x action now actor key receipts d =
     (let lines = transfer_lines d (it_id x) in
      if action = ''submit'' then
        (if it_status x \<noteq> TRANSFER_DRAFT then Inl B11Error
         else Inr (x\<lparr>it_status := TRANSFER_SUBMITTED, it_submitted_at := Some now\<rparr>, d))
      else if action = ''cancel'' then
        (if it_status x \<notin> {TRANSFER_DRAFT, TRANSFER_SUBMITTED} then Inl B11Error
         else Inr (x\<lparr>it_status := TRANSFER_CANCELLED, it_cancelled_at := Some now\<rparr>, d))
      else if action = ''ship'' then
        (if it_status x \<noteq> TRANSFER_SUBMITTED then Inl B11Error
         else (case find_row wh_id (it_source_warehouse_id x) (iv_warehouses d) of
           None \<Rightarrow> Inl FifoAssertionError
         | Some source \<Rightarrow>
             bind_result (each_line (ship_line s x source now actor key) lines d) (\<lambda>d'.
               Inr (x\<lparr>it_status := TRANSFER_IN_TRANSIT, it_shipped_at := Some now\<rparr>, d'))))
      else if action = ''receive'' then
        (if it_status x \<noteq> TRANSFER_IN_TRANSIT \<or> receipts = [] then Inl B11Error
         else (case find_row wh_id (it_destination_warehouse_id x) (iv_warehouses d) of
           None \<Rightarrow> Inl FifoAssertionError
         | Some destination \<Rightarrow>
             bind_result (requested_quantities receipts Map.empty) (\<lambda>requested.
             if \<not> set (map fst receipts) \<subseteq> set (map tl_id lines) then Inl B11Error
             else
               bind_result (each_line (receive_line s x destination now actor key requested) lines d) (\<lambda>d'.
                 Inr (if list_all (\<lambda>l. tl_received_quantity l = tl_sent_quantity l) (transfer_lines d' (it_id x))
                      then x\<lparr>it_status := TRANSFER_RECEIVED, it_received_at := Some now\<rparr> else x, d')))))
      else Inl B11Error)"

text \<open>The command; the flag tells a replay of the last command of the transfer.\<close>

definition transfer_command ::
  "inventory \<Rightarrow> execution_context \<Rightarrow> datetime \<Rightarrow> int \<Rightarrow> string \<Rightarrow> int \<Rightarrow> string
   \<Rightarrow> (int \<times> pynum) list \<Rightarrow> inventory \<Rightarrow> fifo_error + (bool \<times> inventory)"
where
  "transfer_command s ctx now transfer_id action expected_version key receipts d =
     bind_result (employee ctx) (\<lambda>actor.
     bind_result (find_transfer d (tenant_id ctx) transfer_id) (\<lambda>x.
     if it_last_command_action x = Some action \<and> it_last_command_key x = Some key then Inr (True, d)
     else if it_version x \<noteq> expected_version then Inl B11Error
     else
       bind_result (run_action s x action now actor key receipts d) (\<lambda>(x', d').
         Inr (False, d'\<lparr>iv_transfers := modify it_id (it_id x)
           (\<lambda>_. x'\<lparr>it_version := it_version x + 1, it_last_command_action := Some action,
                   it_last_command_key := Some key\<rparr>) (iv_transfers d')\<rparr>))))"

end
