(* ===== verification/FifoProofs.thy ===== *)
theory FifoProofs
  imports Fifo
begin

text \<open>Layers are drawn oldest first, never below zero, and what left a layer is in its allocations.\<close>

section \<open>Quantities with six decimals\<close>

definition micro :: "rat \<Rightarrow> bool" where
  "micro x \<longleftrightarrow> x * 10 ^ 6 \<in> \<int>"

lemma quantity_unit_micro [simp]: "micro x \<Longrightarrow> quantity_unit x = x"
  unfolding micro_def quantity_unit_def by (elim Ints_cases) (simp add: field_simps)

lemma micro_quantity_unit [simp]: "micro (quantity_unit x)"
  by (simp add: micro_def quantity_unit_def)

lemma micro_arith [simp]:
  "micro 0" "micro x \<Longrightarrow> micro y \<Longrightarrow> micro (x + y)" "micro x \<Longrightarrow> micro y \<Longrightarrow> micro (x - y)"
  "micro x \<Longrightarrow> micro y \<Longrightarrow> micro (min x y)"
  by (auto simp: micro_def distrib_right left_diff_distrib min_def)

lemma exact_positive_success:
  "exact_positive (PyDecimal x) = Inr y \<Longrightarrow> y = x \<and> 0 < x \<and> micro x"
  by (auto simp: exact_positive_def exact_quantity_success quantize_fixed micro_def split: sum.splits)

lemma micro_sum: "(\<And>x. x \<in> set xs \<Longrightarrow> micro (f x)) \<Longrightarrow> micro (sum_by f xs)"
  by (induction xs) (auto simp: sum_by_def)

section \<open>The loop over the layers\<close>

text \<open>What FIFO demands: each layer gives what it has until the quantity is covered.\<close>

fun shares :: "rat \<Rightarrow> cost_layer list \<Rightarrow> (cost_layer \<times> rat) list" where
  "shares q [] = []"
| "shares q (l # ls) =
     (if q \<le> 0 then [] else (l, min q (cl_remaining_quantity l)) # shares (q - min q (cl_remaining_quantity l)) ls)"

definition given :: "cost_layer \<times> rat \<times> rat \<times> int \<Rightarrow> cost_layer \<times> rat" where
  "given g = (case g of (l, taken, extended, order) \<Rightarrow> (l, taken))"

definition drawable :: "cost_layer \<Rightarrow> bool" where
  "drawable l \<longleftrightarrow> 0 < cl_remaining_quantity l \<and> micro (cl_remaining_quantity l)"

lemma take_layers_shares:
  assumes "take_layers strict q currency worth order ls = Inr (rest, c, w, gave)"
    and "list_all drawable ls" "0 \<le> q" "micro q"
  shows "q = rest + sum_by (\<lambda>g. snd (given g)) gave \<and> 0 \<le> rest \<and> micro rest
    \<and> (\<exists>more. shares q ls = map given gave @ more) \<and> (rest = 0 \<or> strict \<longrightarrow> shares q ls = map given gave)"
  using assms
proof (induction ls arbitrary: q currency worth order rest c w gave)
  case (Cons l ls)
  define taken where "taken = min q (cl_remaining_quantity l)"
  have l: "0 < cl_remaining_quantity l" "micro (cl_remaining_quantity l)" using Cons.prems(2) by (simp_all add: drawable_def)
  show ?case
  proof (cases "q \<le> 0")
    case True
    with Cons.prems show ?thesis by simp
  next
    case False
    then have taken: "0 < taken" "quantity_unit taken = taken" "micro taken" "quantity_unit (q - taken) = q - taken"
      "0 \<le> q - taken" "micro (q - taken)"
      using l Cons.prems(4) by (auto simp: taken_def)
    note run = Cons.prems(1)[unfolded take_layers.simps Let_def taken_def[symmetric] taken(2,4)]
    show ?thesis
    proof (cases "currency \<noteq> None \<and> currency \<noteq> Some (cl_currency l)")
      case True
      with run False taken(1) have "\<not> strict" "rest = q" "gave = []" by (auto split: if_splits)
      with False Cons.prems(3,4) show ?thesis by simp
    next
      case same: False
      from run False taken(1) same obtain e gave' where
        sub: "take_layers strict (q - taken) (Some (cl_currency l)) (round_digits 28 (worth + e)) (order + 1) ls
          = Inr (rest, c, w, gave')" and gave: "gave = (l, taken, e, order) # gave'"
        by (auto simp: bind_result_Inr_iff split: if_splits)
      have "list_all drawable ls" using Cons.prems(2) by simp
      from Cons.IH[OF sub this taken(5,6)] show ?thesis using False
        by (auto simp: gave given_def taken_def[symmetric])
    qed
  qed
qed simp

lemma shares_bounds:
  "(l, t) \<in> set (shares q ls) \<Longrightarrow> list_all drawable ls \<Longrightarrow> micro q \<Longrightarrow>
     l \<in> set ls \<and> 0 < t \<and> t \<le> cl_remaining_quantity l \<and> micro t"
proof (induction q ls rule: shares.induct)
  case (2 q l' ls)
  then show ?case by (auto simp: drawable_def split: if_splits)
qed simp

lemma shares_distinct: "distinct (map cl_id ls) \<Longrightarrow> distinct (map (\<lambda>s. cl_id (fst s)) (shares q ls))"
proof -
  have sub: "fst ` set (shares q ls) \<subseteq> set ls" for q ls
    by (induction q ls rule: shares.induct) auto
  show "distinct (map cl_id ls) \<Longrightarrow> distinct (map (\<lambda>s. cl_id (fst s)) (shares q ls))"
    by (induction q ls rule: shares.induct) (use sub in \<open>fastforce\<close>)+
qed

text \<open>The share of the layer at position \<^theory_text>\<open>i\<close> in closed form.\<close>

lemma shares_closed:
  assumes "distinct (map cl_id ls)" "list_all drawable ls" "i < length ls"
  shows "sum_by snd (filter (\<lambda>s. cl_id (fst s) = cl_id (ls ! i)) (shares q ls))
    = max 0 (min (cl_remaining_quantity (ls ! i)) (q - sum_by cl_remaining_quantity (take i ls)))"
  using assms
proof (induction ls arbitrary: q i)
  case (Cons l ls)
  have l: "0 < cl_remaining_quantity l" using Cons.prems(2) by (simp add: drawable_def)
  have rest: "distinct (map cl_id ls)" "list_all drawable ls" using Cons.prems by simp_all
  have fresh: "filter (\<lambda>s. cl_id (fst s) = cl_id l) (shares p ls) = []" for p
  proof -
    have sub: "fst s \<in> set ls" if "s \<in> set (shares p ls)" for s
      using that by (induction p ls rule: shares.induct) (auto split: if_splits)
    with Cons.prems(1) have "cl_id (fst s) \<noteq> cl_id l" if "s \<in> set (shares p ls)" for s
      using sub[OF that] by (simp; metis imageI)
    then show ?thesis by (simp add: filter_empty_conv)
  qed
  have before: "0 \<le> sum_by cl_remaining_quantity (take j ls)" for j
    using rest(2) by (induction ls arbitrary: j) (auto simp: take_Cons drawable_def split: nat.splits)
  show ?case
  proof (cases i)
    case 0
    with l show ?thesis by (auto simp: fresh)
  next
    case (Suc j)
    then have j: "j < length ls" using Cons.prems(3) by simp
    have other: "cl_id (ls ! j) \<noteq> cl_id l" using Cons.prems(1) nth_mem[OF j] by (simp; metis imageI)
    show ?thesis
    proof (cases "q \<le> 0")
      case True
      with Suc l before[of j] show ?thesis by (simp add: max_def min_def)
    next
      case False
      have "q - min q (cl_remaining_quantity l) - sum_by cl_remaining_quantity (take j ls)
          = (if q \<le> cl_remaining_quantity l then 0 else q - cl_remaining_quantity l) - sum_by cl_remaining_quantity (take j ls)"
        by (simp add: min_def)
      with Cons.IH[OF rest j, of "q - min q (cl_remaining_quantity l)"] False other Suc before[of j] rest(2) j
      show ?thesis by (auto simp: max_def min_def list_all_length drawable_def)
    qed
  qed
qed simp

section \<open>Recording the draws\<close>

definition drawn :: "inventory \<Rightarrow> int \<Rightarrow> rat" where
  "drawn d i = sum_by ca_quantity (filter (\<lambda>a. ca_cost_layer_id a = i) (iv_allocations d))"

definition taken_of :: "int \<Rightarrow> (cost_layer \<times> rat \<times> rat \<times> int) list \<Rightarrow> rat" where
  "taken_of i gave = sum_by (\<lambda>g. snd (given g)) (filter (\<lambda>g. cl_id (fst (given g)) = i) gave)"

lemma given_simp [simp]: "given (l, t, e, n) = (l, t)"
  by (simp add: given_def)

lemma record_draws_frame [simp]:
  "iv_movements (record_draws m gave d) = iv_movements d"
  "iv_lines (record_draws m gave d) = iv_lines d"
  "iv_receipts (record_draws m gave d) = iv_receipts d"
  "iv_transfers (record_draws m gave d) = iv_transfers d"
  "iv_items (record_draws m gave d) = iv_items d"
  "iv_warehouses (record_draws m gave d) = iv_warehouses d"
  by (induction m gave d rule: record_draws.induct) (auto split: prod.splits)

text \<open>The allocations a movement gains: one for each draw.\<close>

lemma record_draws_allocations:
  "\<exists>rows. iv_allocations (record_draws m gave d) = iv_allocations d @ rows
     \<and> list_all2 (\<lambda>a g. \<exists>i. a = allocation_of m i g) rows gave"
proof (induction m gave d rule: record_draws.induct)
  case (2 m g gave d)
  obtain l t e n where g: "g = (l, t, e, n)" by (cases g) auto
  let ?a = "allocation_of m (next_id ca_id (iv_allocations d)) g"
  from 2[of l "(t, e, n)" t "(e, n)" e n] g obtain rows where
    "iv_allocations (record_draws m (g # gave) d) = (iv_allocations d @ [?a]) @ rows"
    "list_all2 (\<lambda>a g. \<exists>i. a = allocation_of m i g) rows gave"
    by (auto simp: g)
  then show ?case by (intro exI[of _ "?a # rows"]) auto
qed simp

lemma list_all2_member: "list_all2 P xs ys \<Longrightarrow> x \<in> set xs \<Longrightarrow> \<exists>y \<in> set ys. P x y"
  by (induction rule: list_all2_induct) auto

lemma rows_drawn:
  "list_all2 (\<lambda>a g. \<exists>i. a = allocation_of m i g) rows gave \<Longrightarrow>
     sum_by ca_quantity (filter (\<lambda>a. ca_cost_layer_id a = i) rows) = taken_of i gave"
  by (induction rule: list_all2_induct) (auto simp: allocation_of_def taken_of_def split: prod.splits)

lemma drawn_record: "drawn (record_draws m gave d) i = drawn d i + taken_of i gave"
proof -
  obtain rows where "iv_allocations (record_draws m gave d) = iv_allocations d @ rows"
    "list_all2 (\<lambda>a g. \<exists>i. a = allocation_of m i g) rows gave"
    using record_draws_allocations by blast
  then show ?thesis using rows_drawn by (simp add: drawn_def)
qed

lemma not_again:
  "distinct (map (\<lambda>g. cl_id (fst (given g))) (g # gave)) \<Longrightarrow>
     List.find (\<lambda>h. cl_id (fst (given h)) = cl_id (fst (given g))) gave = None"
proof -
  assume "distinct (map (\<lambda>g. cl_id (fst (given g))) (g # gave))"
  then have "cl_id (fst (given g)) \<notin> (\<lambda>g. cl_id (fst (given g))) ` set gave" by simp
  then have "cl_id (fst (given h)) \<noteq> cl_id (fst (given g))" if "h \<in> set gave" for h
    using imageI[OF that, of "\<lambda>g. cl_id (fst (given g))"] by metis
  then show ?thesis unfolding find_eq_None_iff by blast
qed

text \<open>Each layer of the draws loses what it gave, the others are untouched.\<close>

definition drawn_layer :: "(cost_layer \<times> rat \<times> rat \<times> int) list \<Rightarrow> cost_layer \<Rightarrow> cost_layer" where
  "drawn_layer gave l =
     (case List.find (\<lambda>g. cl_id (fst (given g)) = cl_id l) gave of None \<Rightarrow> l | Some g \<Rightarrow> draw_layer (snd (given g)) l)"

lemma draw_layer_id [simp]: "cl_id (draw_layer t l) = cl_id l"
  by (simp add: draw_layer_def Let_def)

lemma record_draws_layers:
  "distinct (map (\<lambda>g. cl_id (fst (given g))) gave) \<Longrightarrow>
     iv_layers (record_draws m gave d) = map (drawn_layer gave) (iv_layers d)"
proof (induction m gave d rule: record_draws.induct)
  case (1 m d)
  then show ?case by (simp add: drawn_layer_def)
next
  case (2 m g gave d)
  obtain l t e n where g: "g = (l, t, e, n)" by (cases g) auto
  have fresh: "List.find (\<lambda>h. cl_id (fst (given h)) = cl_id l) gave = None"
    using 2(2) not_again[of g gave] by (simp add: g)
  have dist: "distinct (map (\<lambda>g. cl_id (fst (given g))) gave)" using 2(2) by simp
  have "drawn_layer gave (if cl_id x = cl_id l then draw_layer t x else x) = drawn_layer (g # gave) x" for x
    using fresh by (auto simp: drawn_layer_def g)
  with 2(1)[of l "(t, e, n)" t "(e, n)" e n] g dist show ?case by (simp add: modify_def)
qed

lemma taken_of_find:
  "distinct (map (\<lambda>g. cl_id (fst (given g))) gave) \<Longrightarrow>
     taken_of i gave = (case List.find (\<lambda>g. cl_id (fst (given g)) = i) gave of None \<Rightarrow> 0 | Some g \<Rightarrow> snd (given g))"
proof (induction gave)
  case (Cons g gave)
  show ?case
  proof (cases "cl_id (fst (given g)) = i")
    case True
    with not_again[OF Cons.prems] have "filter (\<lambda>g. cl_id (fst (given g)) = i) gave = []"
      unfolding filter_empty_conv find_eq_None_iff by simp
    with True show ?thesis by (simp add: taken_of_def)
  next
    case False
    with Cons show ?thesis by (simp add: taken_of_def)
  qed
qed (simp add: taken_of_def)

section \<open>The invariant of the layers\<close>

definition layer_good :: "cost_layer \<Rightarrow> bool" where
  "layer_good l \<longleftrightarrow> cost_layer_ok l \<and> micro (cl_original_quantity l) \<and> micro (cl_remaining_quantity l)
     \<and> (cl_status l = LAYER_DEPLETED \<longleftrightarrow> cl_remaining_quantity l = 0)
     \<and> quantize round_half_even 12 (cl_unit_cost l) = Some (cl_unit_cost l)"

definition allocated_from :: "cost_allocation \<Rightarrow> cost_layer \<Rightarrow> bool" where
  "allocated_from a l \<longleftrightarrow> cl_id l = ca_cost_layer_id a \<and> ca_unit_cost a = cl_unit_cost l
     \<and> ca_currency a = cl_currency l"

definition fifo_inv :: "inventory \<Rightarrow> bool" where
  "fifo_inv d \<longleftrightarrow> distinct (map cl_id (iv_layers d)) \<and> list_all layer_good (iv_layers d)
     \<and> list_all cost_allocation_ok (iv_allocations d)
     \<and> (\<forall>a \<in> set (iv_allocations d). micro (ca_quantity a) \<and> (\<exists>l \<in> set (iv_layers d). allocated_from a l))
     \<and> (\<forall>l \<in> set (iv_layers d). cl_original_quantity l = cl_remaining_quantity l + drawn d (cl_id l))"

lemma fifo_layers_rows: "l \<in> set (fifo_layers d m) \<Longrightarrow> l \<in> set (iv_layers d) \<and> 0 < cl_remaining_quantity l"
  by (simp add: fifo_layers_def)

lemma fifo_layers_drawable: "fifo_inv d \<Longrightarrow> list_all drawable (fifo_layers d m)"
  by (auto simp: list_all_iff drawable_def fifo_inv_def layer_good_def dest!: fifo_layers_rows)

lemma fifo_layers_distinct: "fifo_inv d \<Longrightarrow> distinct (map cl_id (fifo_layers d m))"
  by (simp add: fifo_inv_def fifo_layers_def order_by_def distinct_map inj_on_def)

text \<open>A list of draws that FIFO allows from the layers of the tables.\<close>

definition legal_draws :: "inventory \<Rightarrow> (cost_layer \<times> rat \<times> rat \<times> int) list \<Rightarrow> bool" where
  "legal_draws d gave \<longleftrightarrow> distinct (map (\<lambda>g. cl_id (fst (given g))) gave)
     \<and> (\<forall>(l, t, e, n) \<in> set gave. l \<in> set (iv_layers d) \<and> 0 < t \<and> t \<le> cl_remaining_quantity l \<and> micro t \<and> 0 \<le> e \<and> 1 \<le> n)"

lemma drawn_layer_good:
  assumes inv: "fifo_inv d" and legal: "legal_draws d gave" and l: "l \<in> set (iv_layers d)"
  shows "layer_good (drawn_layer gave l)"
    "cl_remaining_quantity (drawn_layer gave l) = cl_remaining_quantity l - taken_of (cl_id l) gave"
    "cl_original_quantity (drawn_layer gave l) = cl_original_quantity l"
proof -
  have good: "layer_good l" using inv l by (simp add: fifo_inv_def list_all_iff)
  have dist: "distinct (map (\<lambda>g. cl_id (fst (given g))) gave)" using legal by (simp add: legal_draws_def)
  show "layer_good (drawn_layer gave l)"
    "cl_remaining_quantity (drawn_layer gave l) = cl_remaining_quantity l - taken_of (cl_id l) gave"
    "cl_original_quantity (drawn_layer gave l) = cl_original_quantity l"
  proof (atomize (full), cases "List.find (\<lambda>g. cl_id (fst (given g)) = cl_id l) gave")
    case None
    with good show "layer_good (drawn_layer gave l)
      \<and> cl_remaining_quantity (drawn_layer gave l) = cl_remaining_quantity l - taken_of (cl_id l) gave
      \<and> cl_original_quantity (drawn_layer gave l) = cl_original_quantity l"
      by (simp add: drawn_layer_def taken_of_find[OF dist])
  next
    case (Some g)
    obtain k t e n where g: "g = (k, t, e, n)" by (cases g) auto
    from find_SomeD[OF Some] have k: "g \<in> set gave" "cl_id k = cl_id l" by (simp_all add: g)
    with legal have t: "k \<in> set (iv_layers d)" "0 < t" "t \<le> cl_remaining_quantity k" "micro t"
      by (auto simp: legal_draws_def g)
    with k(2) l inv have "k = l" by (auto simp: fifo_inv_def distinct_map dest: inj_onD)
    with t good have "micro (cl_remaining_quantity l - t)" by (simp add: layer_good_def)
    with t \<open>k = l\<close> good show "layer_good (drawn_layer gave l)
      \<and> cl_remaining_quantity (drawn_layer gave l) = cl_remaining_quantity l - taken_of (cl_id l) gave
      \<and> cl_original_quantity (drawn_layer gave l) = cl_original_quantity l"
      by (auto simp: drawn_layer_def Some g taken_of_find[OF dist] draw_layer_def Let_def layer_good_def cost_layer_ok_def)
  qed
qed

lemma value_unit_success: "value_unit x = Inr y \<longleftrightarrow> quantize round_half_even 12 x = Some y"
  by (simp add: value_unit_def split: option.splits)

lemma extended_cost_nonneg:
  assumes "extended_cost q c = Inr e" "0 \<le> q" "0 \<le> c"
  shows "0 \<le> e"
proof -
  have "0 \<le> round_digits 28 (q * c)" using assms by (intro round_digits_nonneg) simp
  then have "0 \<le> round_half_even (round_digits 28 (q * c) * 10 ^ 12)" by (intro round_half_even_nonneg) simp
  then show ?thesis using assms(1) by (auto simp: extended_cost_def value_unit_success dest: quantize_SomeD)
qed

lemma take_layers_evidence:
  "take_layers strict q currency worth order ls = Inr (rest, c, w, gave) \<Longrightarrow> (l, t, e, n) \<in> set gave \<Longrightarrow>
     l \<in> set ls \<and> extended_cost t (cl_unit_cost l) = Inr e \<and> order \<le> n"
proof (induction ls arbitrary: q currency worth order rest c w gave)
  case (Cons k ls)
  then show ?case
    by (fastforce simp: Let_def bind_result_Inr_iff split: if_splits)
qed simp

lemma take_layers_legal:
  assumes inv: "fifo_inv d" and run: "take_layers strict q None 0 1 (fifo_layers d m) = Inr (rest, c, w, gave)"
    and q: "0 \<le> q" "micro q"
  shows "legal_draws d gave"
proof -
  note spec = take_layers_shares[OF run fifo_layers_drawable[OF inv] q]
  then obtain more where more: "shares q (fifo_layers d m) = map given gave @ more" by blast
  have "distinct (map (\<lambda>s. cl_id (fst s)) (map given gave @ more))"
    using shares_distinct[OF fifo_layers_distinct[OF inv], of q m] unfolding more .
  then have "distinct (map (\<lambda>g. cl_id (fst (given g))) gave)" by (simp add: comp_def)
  moreover have "l \<in> set (iv_layers d) \<and> 0 < t \<and> t \<le> cl_remaining_quantity l \<and> micro t \<and> 0 \<le> e \<and> 1 \<le> n"
    if g: "(l, t, e, n) \<in> set gave" for l t e n
  proof -
    have "(l, t) \<in> set (shares q (fifo_layers d m))" unfolding more using imageI[OF g, of given] by simp
    from shares_bounds[OF this fifo_layers_drawable[OF inv] q(2)]
    have b: "l \<in> set (fifo_layers d m)" "0 < t" "t \<le> cl_remaining_quantity l" "micro t" by simp_all
    note ev = take_layers_evidence[OF run g]
    have l: "l \<in> set (iv_layers d)" using fifo_layers_rows[OF b(1)] by simp
    then have "0 \<le> cl_unit_cost l" using inv by (auto simp: fifo_inv_def list_all_iff layer_good_def cost_layer_ok_def)
    with extended_cost_nonneg[of t "cl_unit_cost l" e] ev b(2) have "0 \<le> e" by linarith
    with b(2-4) l ev show ?thesis by (intro conjI) simp_all
  qed
  ultimately show ?thesis unfolding legal_draws_def by blast
qed

lemma record_draws_inv:
  assumes inv: "fifo_inv d" and legal: "legal_draws d gave"
  shows "fifo_inv (record_draws m gave d)"
proof -
  have dist: "distinct (map (\<lambda>g. cl_id (fst (given g))) gave)" using legal by (simp add: legal_draws_def)
  have layers: "iv_layers (record_draws m gave d) = map (drawn_layer gave) (iv_layers d)"
    by (rule record_draws_layers[OF dist])
  have id: "cl_id (drawn_layer gave l) = cl_id l" for l by (simp add: drawn_layer_def split: option.splits)
  have same: "allocated_from a (drawn_layer gave l) \<longleftrightarrow> allocated_from a l" for a l
    by (simp add: allocated_from_def drawn_layer_def draw_layer_def Let_def split: option.splits)
  obtain rows where rows: "iv_allocations (record_draws m gave d) = iv_allocations d @ rows"
    "list_all2 (\<lambda>a g. \<exists>i. a = allocation_of m i g) rows gave" using record_draws_allocations by blast
  have row: "cost_allocation_ok a \<and> micro (ca_quantity a) \<and> (\<exists>l \<in> set (iv_layers d). allocated_from a l)"
    if "a \<in> set rows" for a
  proof -
    obtain g i where g: "g \<in> set gave" "a = allocation_of m i g"
      using list_all2_member[OF rows(2) \<open>a \<in> set rows\<close>] by blast
    obtain l t e n where gg: "g = (l, t, e, n)" by (cases g) auto
    from legal g(1) have b: "l \<in> set (iv_layers d)" "0 < t" "micro t" "0 \<le> e" "1 \<le> n"
      by (auto simp: legal_draws_def gg)
    from b(1) inv have "0 \<le> cl_unit_cost l" by (auto simp: fifo_inv_def list_all_iff layer_good_def cost_layer_ok_def)
    moreover have "allocated_from a l" by (simp add: allocated_from_def g(2) gg allocation_of_def)
    ultimately show ?thesis using b by (auto simp: g(2) gg allocation_of_def cost_allocation_ok_def)
  qed
  have "cl_original_quantity (drawn_layer gave l) = cl_remaining_quantity (drawn_layer gave l)
      + drawn (record_draws m gave d) (cl_id l)" if "l \<in> set (iv_layers d)" for l
    using drawn_layer_good(2,3)[OF inv legal that] inv that by (simp add: drawn_record fifo_inv_def)
  with row drawn_layer_good(1)[OF inv legal] inv show ?thesis
    by (auto simp: fifo_inv_def layers rows(1) list_all_iff id same comp_def)
qed

lemma fifo_inv_cong:
  "iv_layers d' = iv_layers d \<Longrightarrow> iv_allocations d' = iv_allocations d \<Longrightarrow> fifo_inv d' \<longleftrightarrow> fifo_inv d"
  by (simp add: fifo_inv_def drawn_def)

lemma allocate_success:
  assumes "allocate_fifo d m (PyDecimal q) strict = Inr d'"
  obtains rest c w gave where "0 < q" "micro q"
    "take_layers strict q None 0 1 (fifo_layers d m) = Inr (rest, c, w, gave)"
    "strict \<Longrightarrow> q \<le> sum_by cl_remaining_quantity (fifo_layers d m)"
    "rest = 0 \<Longrightarrow> \<exists>t. value_unit w = Inr t \<and> d' = (record_draws m gave d)
       \<lparr>iv_movements := modify sm_id (sm_id m) (resolve_movement t c) (iv_movements d)\<rparr>"
    "rest \<noteq> 0 \<Longrightarrow> d' = (record_draws m gave d)
       \<lparr>iv_movements := modify sm_id (sm_id m) unresolved_movement (iv_movements d)\<rparr>"
proof -
  from assms obtain y where "exact_positive (PyDecimal q) = Inr y" by (auto simp: allocate_fifo_def bind_result_Inr_iff)
  with exact_positive_success have y: "exact_positive (PyDecimal q) = Inr q" "0 < q" "micro q" by blast+
  note run = assms[unfolded allocate_fifo_def y(1) bind_result.simps Let_def]
  have "\<not> (strict \<and> sum_by cl_remaining_quantity (fifo_layers d m) < q)" using run by (auto split: if_splits)
  moreover from run obtain rest c w gave where
    take: "take_layers strict q None 0 1 (fifo_layers d m) = Inr (rest, c, w, gave)"
    by (cases "take_layers strict q None 0 1 (fifo_layers d m)") (auto split: if_splits)
  moreover note run[unfolded take bind_result.simps prod.case record_draws_frame]
  ultimately show thesis using that[OF y(2,3) take]
    by (auto simp: bind_result_Inr_iff not_less split: if_splits)
qed

lemma allocate_keeps:
  assumes "fifo_inv d" "allocate_fifo d m (PyDecimal q) strict = Inr d'"
  shows "fifo_inv d'"
proof -
  obtain rest c w gave where q: "0 < q" "micro q"
    and take: "take_layers strict q None 0 1 (fifo_layers d m) = Inr (rest, c, w, gave)"
    and d': "\<exists>rows. d' = (record_draws m gave d)\<lparr>iv_movements := rows\<rparr>"
    by (rule allocate_success[OF assms(2)]) metis
  have "fifo_inv (record_draws m gave d)"
    using record_draws_inv[OF assms(1) take_layers_legal[OF assms(1) take]] q by simp
  with d' show ?thesis by (auto simp: fifo_inv_cong[of "record_draws m gave d\<lparr>iv_movements := _\<rparr>"])
qed

lemma shares_sum:
  "list_all drawable ls \<Longrightarrow> 0 \<le> q \<Longrightarrow> sum_by snd (shares q ls) = min q (sum_by cl_remaining_quantity ls)"
proof (induction q ls rule: shares.induct)
  case (2 q l ls)
  have "0 \<le> sum_by cl_remaining_quantity ls"
    using 2(2) by (induction ls) (auto simp: drawable_def)
  with 2 show ?case by (auto simp: drawable_def min_def)
qed simp

text \<open>An allocation that must be complete covers the quantity.\<close>

lemma strict_success:
  assumes inv: "fifo_inv d" and run: "allocate_fifo d m (PyDecimal q) True = Inr d'"
  obtains c w gave t where "0 < q" "micro q" "take_layers True q None 0 1 (fifo_layers d m) = Inr (0, c, w, gave)"
    "shares q (fifo_layers d m) = map given gave" "sum_by (\<lambda>g. snd (given g)) gave = q" "value_unit w = Inr t"
    "legal_draws d gave"
    "d' = (record_draws m gave d)\<lparr>iv_movements := modify sm_id (sm_id m) (resolve_movement t c) (iv_movements d)\<rparr>"
proof -
  obtain rest c w gave where q: "0 < q" "micro q"
    and take: "take_layers True q None 0 1 (fifo_layers d m) = Inr (rest, c, w, gave)"
    and enough: "q \<le> sum_by cl_remaining_quantity (fifo_layers d m)"
    and fin: "rest = 0 \<Longrightarrow> \<exists>t. value_unit w = Inr t \<and> d' = (record_draws m gave d)
       \<lparr>iv_movements := modify sm_id (sm_id m) (resolve_movement t c) (iv_movements d)\<rparr>"
    by (rule allocate_success[OF run]) blast
  have nonneg: "0 \<le> q" using q by simp
  note spec = take_layers_shares[OF take fifo_layers_drawable[OF inv] nonneg q(2)]
  then have all: "shares q (fifo_layers d m) = map given gave" by blast
  have "sum_by snd (map given gave) = q"
    using shares_sum[OF fifo_layers_drawable[OF inv], of q m] enough q unfolding all by simp
  moreover have "sum_by snd (map given gave) = sum_by (\<lambda>g. snd (given g)) gave" by (induction gave) simp_all
  ultimately have cover: "sum_by (\<lambda>g. snd (given g)) gave = q" by simp
  with spec q have "rest = 0" by simp
  have "legal_draws d gave" using take_layers_legal[OF inv take] q by simp
  with fin \<open>rest = 0\<close> that[OF q _ all cover] take show thesis by blast
qed

lemma taken_of_shares: "taken_of i gave = sum_by snd (filter (\<lambda>s. cl_id (fst s) = i) (map given gave))"
  by (induction gave) (simp_all add: taken_of_def)

lemma layer_after:
  assumes inv: "fifo_inv d" and legal: "legal_draws d gave" and l: "l \<in> set (iv_layers d)"
  shows "find_row cl_id (cl_id l) (iv_layers (record_draws m gave d)) = Some (drawn_layer gave l)"
proof -
  have dist: "distinct (map (\<lambda>g. cl_id (fst (given g))) gave)" using legal by (simp add: legal_draws_def)
  have id: "cl_id (drawn_layer gave k) = cl_id k" for k by (simp add: drawn_layer_def split: option.splits)
  have "distinct (map cl_id (iv_layers d))" using inv by (simp add: fifo_inv_def)
  then have "distinct (map cl_id (map (drawn_layer gave) (iv_layers d)))" by (simp add: comp_def id)
  with l show ?thesis unfolding record_draws_layers[OF dist] by (subst find_row_Some_iff) (auto simp: id)
qed

lemma shares_members: "s \<in> set (shares q ls) \<Longrightarrow> fst s \<in> set ls"
  by (induction q ls rule: shares.induct) (auto split: if_splits)

lemma untouched_layer:
  assumes inv: "fifo_inv d" and l: "l \<in> set (iv_layers d)" "l \<notin> set (fifo_layers d m)"
    and all: "shares q (fifo_layers d m) = map given gave"
  shows "drawn_layer gave l = l"
proof -
  have "cl_id (fst (given g)) \<noteq> cl_id l" if g: "g \<in> set gave" for g
  proof
    assume same: "cl_id (fst (given g)) = cl_id l"
    have "given g \<in> set (shares q (fifo_layers d m))" unfolding all using g by simp
    then have mem: "fst (given g) \<in> set (fifo_layers d m)" by (rule shares_members)
    then have "fst (given g) \<in> set (iv_layers d)" using fifo_layers_rows by blast
    with same l(1) inv have "fst (given g) = l" by (auto simp: fifo_inv_def distinct_map dest: inj_onD)
    with mem l(2) show False by simp
  qed
  then have "List.find (\<lambda>g. cl_id (fst (given g)) = cl_id l) gave = None" unfolding find_eq_None_iff by blast
  then show ?thesis by (simp add: drawn_layer_def)
qed

text \<open>The order of the layers: by date, and by identifier on the same date.\<close>

definition older :: "cost_layer \<Rightarrow> cost_layer \<Rightarrow> bool" where
  "older k l \<longleftrightarrow> cl_origin_at k < cl_origin_at l \<or> cl_origin_at k = cl_origin_at l \<and> cl_id k < cl_id l"

lemma insort_lexicographic:
  assumes "sorted_wrt (\<lambda>a b. f a < f b \<or> f a = f b \<and> Q a b) ys" "\<forall>y \<in> set ys. Q x y"
  shows "sorted_wrt (\<lambda>a b. f a < f b \<or> f a = f b \<and> Q a b) (insort_key (f :: 'a \<Rightarrow> int) x ys)"
  using assms by (induction ys) (auto simp: set_insort_key)

lemma order_by_lexicographic:
  "sorted_wrt Q xs \<Longrightarrow> sorted_wrt (\<lambda>a b. f a < f b \<or> f a = f b \<and> Q a b) (order_by f xs)"
  unfolding order_by_def by (induction xs) (simp_all add: insort_lexicographic)

lemma order_by_increasing: "distinct (map f xs) \<Longrightarrow> sorted_wrt (\<lambda>a b. f a < f b) (order_by f xs)"
proof -
  assume "distinct (map f xs)"
  then have "distinct (map f (order_by f xs))" by (simp add: order_by_def distinct_map inj_on_def)
  moreover have "sorted (map f (order_by f xs))" by (simp add: order_by_def)
  ultimately show ?thesis by (metis sorted_wrt_map strict_sorted_iff)
qed

lemma fifo_layers_older: "distinct (map cl_id (iv_layers d)) \<Longrightarrow> sorted_wrt older (fifo_layers d m)"
  unfolding fifo_layers_def older_def[abs_def]
  by (intro order_by_lexicographic order_by_increasing) (simp add: distinct_map_filter)

text \<open>
  Stock leaves oldest first: after an allocation that must be complete, the layer at any position of
  the order (by its date, then its identifier) has lost the part of the quantity that the older layers
  could not cover, at most what it had; a layer outside the order is as before.
\<close>

theorem stock_leaves_oldest_first:
  assumes "fifo_inv d" and "allocate_fifo d m (PyDecimal q) True = Inr d'"
    and "i < length (fifo_layers d m)"
  shows "sorted_wrt older (fifo_layers d m)
    \<and> (\<exists>l'. find_row cl_id (cl_id (fifo_layers d m ! i)) (iv_layers d') = Some l'
      \<and> cl_remaining_quantity l' = cl_remaining_quantity (fifo_layers d m ! i)
          - max 0 (min (cl_remaining_quantity (fifo_layers d m ! i))
              (q - sum_by cl_remaining_quantity (take i (fifo_layers d m)))))
    \<and> (\<forall>l \<in> set (iv_layers d) - set (fifo_layers d m). l \<in> set (iv_layers d'))"
proof (intro conjI)
  show "sorted_wrt older (fifo_layers d m)" using assms(1) by (intro fifo_layers_older) (simp add: fifo_inv_def)
  obtain c w gave t where all: "shares q (fifo_layers d m) = map given gave" and legal: "legal_draws d gave"
    and d': "d' = (record_draws m gave d)\<lparr>iv_movements := modify sm_id (sm_id m) (resolve_movement t c) (iv_movements d)\<rparr>"
    by (rule strict_success[OF assms(1,2)])
  let ?l = "fifo_layers d m ! i"
  have l: "?l \<in> set (iv_layers d)" using fifo_layers_rows nth_mem[OF assms(3)] by blast
  have "taken_of (cl_id ?l) gave = max 0 (min (cl_remaining_quantity ?l)
      (q - sum_by cl_remaining_quantity (take i (fifo_layers d m))))"
    unfolding taken_of_shares all[symmetric]
    by (rule shares_closed[OF fifo_layers_distinct[OF assms(1)] fifo_layers_drawable[OF assms(1)] assms(3)])
  with layer_after[OF assms(1) legal l] drawn_layer_good(2)[OF assms(1) legal l]
  show "\<exists>l'. find_row cl_id (cl_id ?l) (iv_layers d') = Some l' \<and> cl_remaining_quantity l' = cl_remaining_quantity ?l
      - max 0 (min (cl_remaining_quantity ?l) (q - sum_by cl_remaining_quantity (take i (fifo_layers d m))))"
    by (simp add: d')
  show "\<forall>l \<in> set (iv_layers d) - set (fifo_layers d m). l \<in> set (iv_layers d')"
  proof
    fix l assume l: "l \<in> set (iv_layers d) - set (fifo_layers d m)"
    have "drawn_layer gave l = l" using l by (intro untouched_layer[OF assms(1) _ _ all]) auto
    with layer_after[OF assms(1) legal, of l m] l show "l \<in> set (iv_layers d')"
      by (auto simp: d' dest: find_row_SomeD)
  qed
qed

end
