(* ===== verification/TransferProofs.thy ===== *)
theory TransferProofs
  imports FifoProofs
begin

text \<open>What is shipped arrives: the evidence of a transfer, line by line and layer by layer.\<close>

section \<open>New layers\<close>

lemma quantize_again: "quantize round_half_even k x = Some y \<Longrightarrow> quantize round_half_even k y = Some y"
  unfolding quantize_fixed by (auto simp: quantize_def Let_def split: if_splits)

lemma create_layer_success:
  assumes "create_layer d wh item t i at' q c cur lot orig src = Inr (l, d')"
  shows "d' = d\<lparr>iv_layers := iv_layers d @ [l]\<rparr>" "cl_id l = next_id cl_id (iv_layers d)"
    "cl_original_quantity l = q" "cl_remaining_quantity l = q" "cl_status l = LAYER_ACTIVE" "0 < q" "micro q"
    "cl_origin_type l = t" "cl_currency l = cur" "quantize round_half_even 12 c = Some (cl_unit_cost l)"
    "cl_warehouse_id l = wh_id wh" "cl_inventory_item_id l = ii_id item" "cl_origin_layer_id l = orig"
    "cl_origin_id l = i"
  using assms
  by (auto simp: create_layer_def bind_result_Inr_iff value_unit_success Let_def dest: exact_positive_success)

lemma new_layer_keeps:
  assumes inv: "fifo_inv d" and run: "create_layer d wh item t i at' q c cur lot orig src = Inr (l, d')"
    and t: "t \<in> {''GOODS_RECEIPT'', ''PREPARATION_OUTPUT'', ''TRANSFER''}" and c: "0 \<le> c"
  shows "fifo_inv d'"
proof -
  note l = create_layer_success[OF run]
  have fresh: "cl_id k \<noteq> cl_id l" if "k \<in> set (iv_layers d)" for k
    using next_id_above[OF that, of cl_id] l(2) by simp
  have "0 \<le> cl_unit_cost l"
    using quantize_SomeD[OF l(10)] c round_half_even_nonneg[of "c * 10 ^ 12"] by simp
  then have good: "layer_good l" using l t quantize_again[OF l(10)] by (auto simp: layer_good_def cost_layer_ok_def)
  have "drawn d (cl_id l) = 0"
  proof -
    have "ca_cost_layer_id a \<noteq> cl_id l" if a: "a \<in> set (iv_allocations d)" for a
    proof -
      from inv a obtain k where "k \<in> set (iv_layers d)" "cl_id k = ca_cost_layer_id a"
        by (auto simp: fifo_inv_def allocated_from_def)
      with fresh show ?thesis by metis
    qed
    then have "filter (\<lambda>a. ca_cost_layer_id a = cl_id l) (iv_allocations d) = []" by (simp add: filter_empty_conv)
    then show ?thesis by (simp add: drawn_def)
  qed
  moreover have "drawn d' j = drawn d j" for j by (simp add: drawn_def l(1))
  moreover have "cl_id l \<notin> cl_id ` set (iv_layers d)" using fresh by (metis imageE)
  ultimately show ?thesis using inv good l(3,4) by (auto simp: fifo_inv_def l(1))
qed

section \<open>Receiving the allocations of a shipment\<close>

definition receipt_of_layer :: "int \<Rightarrow> warehouse \<Rightarrow> inventory_item \<Rightarrow> int \<Rightarrow> transfer_receipt \<Rightarrow> cost_layer \<Rightarrow> bool" where
  "receipt_of_layer line wh item m r l \<longleftrightarrow> rc_transfer_line_id r = line \<and> rc_destination_layer_id r = cl_id l
     \<and> rc_destination_movement_id r = m \<and> rc_quantity r = cl_original_quantity l \<and> rc_unit_cost r = cl_unit_cost l
     \<and> rc_currency r = cl_currency l \<and> cl_origin_layer_id l = Some (rc_source_layer_id r)
     \<and> cl_warehouse_id l = wh_id wh \<and> cl_inventory_item_id l = ii_id item
     \<and> cl_remaining_quantity l = cl_original_quantity l \<and> transfer_receipt_ok r \<and> micro (rc_quantity r)"

lemma receive_allocations_success:
  assumes "receive_allocations d0 x line wh item m now sequence remaining worth currency as d = Inr (w, c, d')"
    and "fifo_inv d" "set as \<subseteq> set (iv_allocations d)" "distinct (map ca_cost_layer_id as)"
    and "micro remaining" "\<forall>a \<in> set as. micro (already_received d0 (tl_id line) (ca_cost_layer_id a))"
    and "1 \<le> sequence"
  shows "\<exists>rs ls. d' = d\<lparr>iv_layers := iv_layers d @ ls, iv_receipts := iv_receipts d @ rs\<rparr> \<and> fifo_inv d'
    \<and> list_all2 (receipt_of_layer (tl_id line) wh item m) rs ls
    \<and> sum_by rc_quantity rs = remaining
    \<and> (\<forall>r \<in> set rs. \<exists>a \<in> set as. rc_source_layer_id r = ca_cost_layer_id a \<and> rc_unit_cost r = ca_unit_cost a)
    \<and> (\<forall>a \<in> set as. sum_by rc_quantity (filter (\<lambda>r. rc_source_layer_id r = ca_cost_layer_id a) rs) = 0
         \<or> sum_by rc_quantity (filter (\<lambda>r. rc_source_layer_id r = ca_cost_layer_id a) rs)
              \<le> ca_quantity a - already_received d0 (tl_id line) (ca_cost_layer_id a))"
  using assms
proof (induction as arbitrary: remaining worth currency d)
  case Nil
  then show ?case by (intro exI[of _ "[]"]) (auto split: if_splits)
next
  case (Cons a as)
  define available where "available = ca_quantity a - already_received d0 (tl_id line) (ca_cost_layer_id a)"
  define taken where "taken = min remaining available"
  have a: "a \<in> set (iv_allocations d)" "micro (ca_quantity a)" "0 \<le> ca_unit_cost a"
    using Cons.prems(2,3) by (auto simp: fifo_inv_def list_all_iff cost_allocation_ok_def)
  then have micro: "micro available" "micro taken"
    using Cons.prems(5,6) by (auto simp: available_def taken_def)
  have rest: "distinct (map ca_cost_layer_id as)" "\<forall>b \<in> set as. ca_cost_layer_id b \<noteq> ca_cost_layer_id a"
    using Cons.prems(4) by (simp, metis distinct.simps(2) imageI list.map(2) list.set_map)
  note run = Cons.prems(1)[unfolded receive_allocations.simps Let_def available_def[symmetric] taken_def[symmetric]
      quantity_unit_micro[OF micro(2)]]
  show ?case
  proof (cases "taken \<le> 0")
    case True
    with run have sub: "receive_allocations d0 x line wh item m now sequence remaining worth currency as d = Inr (w, c, d')"
      by simp
    have "set as \<subseteq> set (iv_allocations d)" using Cons.prems(3) by simp
    from Cons.IH[OF sub Cons.prems(2) this rest(1) Cons.prems(5)] Cons.prems(6,7) obtain rs ls where
      rs: "d' = d\<lparr>iv_layers := iv_layers d @ ls, iv_receipts := iv_receipts d @ rs\<rparr>" "fifo_inv d'"
      "list_all2 (receipt_of_layer (tl_id line) wh item m) rs ls" "sum_by rc_quantity rs = remaining"
      "\<forall>r \<in> set rs. \<exists>a \<in> set as. rc_source_layer_id r = ca_cost_layer_id a \<and> rc_unit_cost r = ca_unit_cost a"
      "\<forall>a \<in> set as. sum_by rc_quantity (filter (\<lambda>r. rc_source_layer_id r = ca_cost_layer_id a) rs) = 0
         \<or> sum_by rc_quantity (filter (\<lambda>r. rc_source_layer_id r = ca_cost_layer_id a) rs)
              \<le> ca_quantity a - already_received d0 (tl_id line) (ca_cost_layer_id a)"
      by auto
    have "filter (\<lambda>r. rc_source_layer_id r = ca_cost_layer_id a) rs = []"
      unfolding filter_empty_conv using rs(5) rest(2) by auto
    with rs show ?thesis by (intro exI[of _ rs] exI[of _ ls]) auto
  next
    case False
    from run False obtain source_layer where "find_row cl_id (ca_cost_layer_id a) (iv_layers d) = Some source_layer"
      by (cases "find_row cl_id (ca_cost_layer_id a) (iv_layers d)") simp_all
    note run = run[unfolded this option.case if_not_P[OF False] bind_result_Inr_iff split_paired_Ex prod.case]
    from run obtain src layer d1 extended where
      layer: "create_layer d wh item ''TRANSFER'' m now taken (ca_unit_cost a) (ca_currency a) None
        (Some (ca_cost_layer_id a)) src = Inr (layer, d1)"
      and ext: "extended_cost taken (ca_unit_cost a) = Inr extended"
      and sub: "receive_allocations d0 x line wh item m now sequence (remaining - taken)
        (round_digits 28 (worth + extended)) (Some (ca_currency a)) as (d1\<lparr>iv_receipts := iv_receipts d1 @
          [\<lparr>rc_id = next_id rc_id (iv_receipts d1), rc_tenant_id = it_tenant_id x, rc_transfer_line_id = tl_id line,
            rc_receipt_sequence = sequence, rc_source_layer_id = ca_cost_layer_id a,
            rc_destination_layer_id = cl_id layer, rc_destination_movement_id = m, rc_quantity = taken,
            rc_unit_cost = ca_unit_cost a, rc_extended_cost = extended, rc_currency = ca_currency a\<rparr>]\<rparr>)
        = Inr (w, c, d')"
      unfolding bind_result_Inr_iff by blast
    define r where "r = \<lparr>rc_id = next_id rc_id (iv_receipts d1), rc_tenant_id = it_tenant_id x,
      rc_transfer_line_id = tl_id line, rc_receipt_sequence = sequence, rc_source_layer_id = ca_cost_layer_id a,
      rc_destination_layer_id = cl_id layer, rc_destination_movement_id = m, rc_quantity = taken,
      rc_unit_cost = ca_unit_cost a, rc_extended_cost = extended, rc_currency = ca_currency a\<rparr>"
    note sub = sub[folded r_def]
    note l = create_layer_success[OF layer]
    have fifo: "fifo_inv (d1\<lparr>iv_receipts := iv_receipts d1 @ [r]\<rparr>)"
    proof -
      have "fifo_inv d1" by (rule new_layer_keeps[OF Cons.prems(2) layer _ a(3)]) simp
      then show ?thesis by (subst fifo_inv_cong[of _ d1]) simp_all
    qed
    have cost: "cl_unit_cost layer = ca_unit_cost a"
    proof -
      from Cons.prems(2) a(1) obtain k where "k \<in> set (iv_layers d)" "ca_unit_cost a = cl_unit_cost k"
        by (auto simp: fifo_inv_def allocated_from_def)
      with Cons.prems(2) have "quantize round_half_even 12 (ca_unit_cost a) = Some (ca_unit_cost a)"
        by (auto simp: fifo_inv_def list_all_iff layer_good_def)
      with l(10) show ?thesis by simp
    qed
    have ok: "receipt_of_layer (tl_id line) wh item m r layer"
      using l cost a(3) extended_cost_nonneg[OF ext _ a(3)] Cons.prems(7)
      by (simp add: receipt_of_layer_def r_def transfer_receipt_ok_def)
    have "set as \<subseteq> set (iv_allocations (d1\<lparr>iv_receipts := iv_receipts d1 @ [r]\<rparr>))" "micro (remaining - taken)"
      using Cons.prems(3,5) micro(2) by (simp_all add: l(1))
    from Cons.IH[OF sub fifo this(1) rest(1) this(2)] Cons.prems(6,7) obtain rs ls where
      rs: "d' = d1\<lparr>iv_receipts := iv_receipts d1 @ [r]\<rparr>
          \<lparr>iv_layers := iv_layers (d1\<lparr>iv_receipts := iv_receipts d1 @ [r]\<rparr>) @ ls,
           iv_receipts := iv_receipts (d1\<lparr>iv_receipts := iv_receipts d1 @ [r]\<rparr>) @ rs\<rparr>" "fifo_inv d'"
      "list_all2 (receipt_of_layer (tl_id line) wh item m) rs ls" "sum_by rc_quantity rs = remaining - taken"
      "\<forall>r \<in> set rs. \<exists>a \<in> set as. rc_source_layer_id r = ca_cost_layer_id a \<and> rc_unit_cost r = ca_unit_cost a"
      "\<forall>a \<in> set as. sum_by rc_quantity (filter (\<lambda>r. rc_source_layer_id r = ca_cost_layer_id a) rs) = 0
         \<or> sum_by rc_quantity (filter (\<lambda>r. rc_source_layer_id r = ca_cost_layer_id a) rs)
              \<le> ca_quantity a - already_received d0 (tl_id line) (ca_cost_layer_id a)"
      by auto
    have none: "filter (\<lambda>r. rc_source_layer_id r = ca_cost_layer_id a) rs = []"
      unfolding filter_empty_conv using rs(5) rest(2) by auto
    have shape: "d' = d\<lparr>iv_layers := iv_layers d @ layer # ls, iv_receipts := iv_receipts d @ r # rs\<rparr>"
      using rs(1) by (simp add: l(1))
    have r: "rc_source_layer_id r = ca_cost_layer_id a" "rc_unit_cost r = ca_unit_cost a" "rc_quantity r = taken"
      by (simp_all add: r_def)
    have "taken \<le> available" by (simp add: taken_def)
    then show ?thesis
      using shape rs(2-6) ok none rest(2)
      by (intro exI[of _ "r # rs"] exI[of _ "layer # ls"]) (auto simp: r available_def)
  qed
qed

section \<open>The invariant of transfers\<close>

definition allocs_of :: "inventory \<Rightarrow> int \<Rightarrow> cost_allocation list" where
  "allocs_of d m = filter (\<lambda>a. ca_stock_movement_id a = m) (iv_allocations d)"

definition receipts_of :: "inventory \<Rightarrow> int \<Rightarrow> transfer_receipt list" where
  "receipts_of d line = filter (\<lambda>r. rc_transfer_line_id r = line) (iv_receipts d)"

text \<open>What a line has received is in its receipts; they stay within the allocations of its shipment.\<close>

definition line_inv :: "inventory \<Rightarrow> transfer_line \<Rightarrow> bool" where
  "line_inv d l \<longleftrightarrow> transfer_line_ok l \<and> micro (tl_sent_quantity l)
     \<and> tl_received_quantity l = sum_by rc_quantity (receipts_of d (tl_id l))
     \<and> (case tl_source_movement_id l of
          None \<Rightarrow> receipts_of d (tl_id l) = []
        | Some m \<Rightarrow> m \<in> sm_id ` set (iv_movements d) \<and> sum_by ca_quantity (allocs_of d m) = tl_sent_quantity l
            \<and> (\<forall>r \<in> set (receipts_of d (tl_id l)). \<exists>a \<in> set (allocs_of d m).
                 rc_source_layer_id r = ca_cost_layer_id a \<and> rc_unit_cost r = ca_unit_cost a)
            \<and> (\<forall>a \<in> set (allocs_of d m). already_received d (tl_id l) (ca_cost_layer_id a) \<le> ca_quantity a))"

text \<open>A receipt created a layer with its quantity, its cost and its currency.\<close>

definition receipt_backed :: "inventory \<Rightarrow> transfer_receipt \<Rightarrow> bool" where
  "receipt_backed d r \<longleftrightarrow> transfer_receipt_ok r \<and> micro (rc_quantity r)
     \<and> (\<exists>l \<in> set (iv_lines d). tl_id l = rc_transfer_line_id r)
     \<and> (\<exists>l \<in> set (iv_layers d). cl_id l = rc_destination_layer_id r \<and> cl_original_quantity l = rc_quantity r
          \<and> cl_unit_cost l = rc_unit_cost r \<and> cl_currency l = rc_currency r
          \<and> cl_origin_layer_id l = Some (rc_source_layer_id r))"

definition tables_inv :: "inventory \<Rightarrow> bool" where
  "tables_inv d \<longleftrightarrow> fifo_inv d \<and> distinct (map tl_id (iv_lines d)) \<and> distinct (map it_id (iv_transfers d))
     \<and> (\<forall>m. distinct (map ca_cost_layer_id (allocs_of d m)))
     \<and> (\<forall>a \<in> set (iv_allocations d). ca_stock_movement_id a \<in> sm_id ` set (iv_movements d))
     \<and> list_all (receipt_backed d) (iv_receipts d)"

definition core_inv :: "inventory \<Rightarrow> bool" where
  "core_inv d \<longleftrightarrow> tables_inv d \<and> list_all (line_inv d) (iv_lines d)"

lemmas core_parts = core_inv_def tables_inv_def

definition shipped_status :: "transfer_status \<Rightarrow> bool" where
  "shipped_status t \<longleftrightarrow> t \<in> {TRANSFER_IN_TRANSIT, TRANSFER_RECEIVED}"

definition status_inv :: "inventory \<Rightarrow> bool" where
  "status_inv d \<longleftrightarrow> list_all inventory_transfer_ok (iv_transfers d)
     \<and> (\<forall>l \<in> set (iv_lines d). \<exists>x \<in> set (iv_transfers d). it_id x = tl_transfer_id l
          \<and> (tl_source_movement_id l \<noteq> None \<longleftrightarrow> shipped_status (it_status x))
          \<and> (it_status x = TRANSFER_RECEIVED \<longrightarrow> tl_received_quantity l = tl_sent_quantity l))"

definition transfers_inv :: "inventory \<Rightarrow> bool" where
  "transfers_inv d \<longleftrightarrow> core_inv d \<and> status_inv d"

lemma already_by_layer:
  "already_received d line i = sum_by rc_quantity (filter (\<lambda>r. rc_source_layer_id r = i) (receipts_of d line))"
  by (simp add: already_received_def receipts_of_def conj_commute)

text \<open>What a change of other tables leaves alone.\<close>

lemma line_inv_cong:
  assumes "receipts_of d' (tl_id l) = receipts_of d (tl_id l)" "sm_id ` set (iv_movements d) \<subseteq> sm_id ` set (iv_movements d')"
    and "\<And>m. tl_source_movement_id l = Some m \<Longrightarrow> allocs_of d' m = allocs_of d m"
    and "line_inv d l"
  shows "line_inv d' l"
proof -
  have "already_received d' (tl_id l) i = already_received d (tl_id l) i" for i
    unfolding already_by_layer assms(1) ..
  with assms show ?thesis by (auto simp: line_inv_def split: option.splits)
qed

lemma receipt_backed_mono:
  assumes r: "receipt_backed d r" and lines: "tl_id ` set (iv_lines d) \<subseteq> tl_id ` set (iv_lines d')"
    and layers: "\<And>l. l \<in> set (iv_layers d) \<Longrightarrow> \<exists>k \<in> set (iv_layers d'). cl_id k = cl_id l
         \<and> cl_original_quantity k = cl_original_quantity l \<and> cl_unit_cost k = cl_unit_cost l
         \<and> cl_currency k = cl_currency l \<and> cl_origin_layer_id k = cl_origin_layer_id l"
  shows "receipt_backed d' r"
proof -
  from r obtain l where l: "l \<in> set (iv_layers d)" "cl_id l = rc_destination_layer_id r"
    "cl_original_quantity l = rc_quantity r" "cl_unit_cost l = rc_unit_cost r" "cl_currency l = rc_currency r"
    "cl_origin_layer_id l = Some (rc_source_layer_id r)" unfolding receipt_backed_def by blast
  have "rc_transfer_line_id r \<in> tl_id ` set (iv_lines d)" using r unfolding receipt_backed_def by force
  with lines have "\<exists>k \<in> set (iv_lines d'). tl_id k = rc_transfer_line_id r" by fastforce
  with r layers[OF l(1)] l show ?thesis unfolding receipt_backed_def by auto
qed

text \<open>A new movement.\<close>

lemma insert_keeps:
  assumes "core_inv d" "insert_movement m d = Inr d'"
  shows "core_inv d'" "d' = d\<lparr>iv_movements := iv_movements d @ [m]\<rparr>"
proof -
  show d': "d' = d\<lparr>iv_movements := iv_movements d @ [m]\<rparr>" using assms(2) by (auto simp: insert_movement_def split: if_splits)
  have "line_inv d' l" if "line_inv d l" for l
    using that by (rule line_inv_cong[rotated 3]) (auto simp: d' receipts_of_def allocs_of_def)
  moreover have "receipt_backed d' r" if "receipt_backed d r" for r
    using that by (auto simp: receipt_backed_def d')
  moreover have "fifo_inv d' \<longleftrightarrow> fifo_inv d" by (rule fifo_inv_cong) (simp_all add: d')
  moreover have "allocs_of d' i = allocs_of d i" for i by (simp add: allocs_of_def d')
  ultimately show "core_inv d'" using assms(1) by (auto simp: core_parts d' list_all_iff)
qed

text \<open>An allocation for a movement that has none yet.\<close>

lemma allocation_effect:
  assumes inv: "core_inv d" and run: "allocate_fifo d m (PyDecimal q) strict = Inr d'"
    and m: "sm_id m \<in> sm_id ` set (iv_movements d)" "allocs_of d (sm_id m) = []"
  shows "core_inv d'" "iv_lines d' = iv_lines d" "iv_transfers d' = iv_transfers d" "iv_receipts d' = iv_receipts d"
    "iv_items d' = iv_items d" "iv_warehouses d' = iv_warehouses d"
    "sm_id ` set (iv_movements d') = sm_id ` set (iv_movements d)"
    "strict \<Longrightarrow> sum_by ca_quantity (allocs_of d' (sm_id m)) = q"
    "\<And>i. i \<noteq> sm_id m \<Longrightarrow> allocs_of d' i = allocs_of d i"
proof -
  have fifo: "fifo_inv d" using inv by (simp add: core_parts)
  obtain rest c w gave where q: "0 < q" "micro q"
    and take: "take_layers strict q None 0 1 (fifo_layers d m) = Inr (rest, c, w, gave)"
    and d'': "\<exists>f. d' = (record_draws m gave d)\<lparr>iv_movements := modify sm_id (sm_id m) f (iv_movements d)\<rparr>
      \<and> (f = unresolved_movement \<or> (\<exists>t. f = resolve_movement t c))"
    by (rule allocate_success[OF run]) metis
  then obtain f where d': "d' = (record_draws m gave d)\<lparr>iv_movements := modify sm_id (sm_id m) f (iv_movements d)\<rparr>"
    and f: "\<And>x. sm_id (f x) = sm_id x" by (force simp: unresolved_movement_def resolve_movement_def)
  have legal: "legal_draws d gave" using take_layers_legal[OF fifo take] q by simp
  have ids: "map sm_id (iv_movements d') = map sm_id (iv_movements d)"
    by (simp add: d' modify_def f)
  obtain rows where rows: "iv_allocations d' = iv_allocations d @ rows"
    "list_all2 (\<lambda>a g. \<exists>i. a = allocation_of m i g) rows gave" using record_draws_allocations[of m gave d] by (auto simp: d')
  have mine: "ca_stock_movement_id a = sm_id m" if "a \<in> set rows" for a
    using list_all2_member[OF rows(2) that] by (auto simp: allocation_of_def split: prod.splits)
  have allocs: "allocs_of d' i = allocs_of d i @ (if i = sm_id m then rows else [])" for i
    using mine by (auto simp: allocs_of_def rows(1) filter_empty_conv)
  show others: "allocs_of d' i = allocs_of d i" if "i \<noteq> sm_id m" for i using that by (simp add: allocs)
  show movements: "sm_id ` set (iv_movements d') = sm_id ` set (iv_movements d)" using ids by (metis list.set_map)
  show same: "iv_lines d' = iv_lines d" "iv_transfers d' = iv_transfers d" "iv_receipts d' = iv_receipts d"
    "iv_items d' = iv_items d" "iv_warehouses d' = iv_warehouses d" by (simp_all add: d')
  have total: "sum_by ca_quantity rows = sum_by (\<lambda>g. snd (given g)) gave"
    using rows(2) by (induction rule: list_all2_induct) (auto simp: allocation_of_def)
  show "sum_by ca_quantity (allocs_of d' (sm_id m)) = q" if "strict"
  proof -
    from run that have "allocate_fifo d m (PyDecimal q) True = Inr d'" by simp
    from strict_success[OF fifo this] obtain c' w' gave' where
      g: "take_layers True q None 0 1 (fifo_layers d m) = Inr (0, c', w', gave')" "sum_by (\<lambda>g. snd (given g)) gave' = q" by metis
    with take that have "gave = gave'" by simp
    with g total m(2) show ?thesis by (simp add: allocs)
  qed
  have layers: "map ca_cost_layer_id rows = map (\<lambda>g. cl_id (fst (given g))) gave"
    using rows(2) by (induction rule: list_all2_induct) (auto simp: allocation_of_def)
  have distinct: "distinct (map ca_cost_layer_id (allocs_of d' i))" for i
    using inv legal m(2) layers by (auto simp: allocs core_parts legal_draws_def)
  have lines: "line_inv d' l" if l: "l \<in> set (iv_lines d)" for l
  proof -
    have "line_inv d l" using inv l by (simp add: core_inv_def list_all_iff)
    moreover from this have "tl_source_movement_id l \<noteq> Some (sm_id m)"
      using m(2) by (auto simp: line_inv_def transfer_line_ok_def split: option.splits)
    ultimately show ?thesis using others
      by (intro line_inv_cong[of d' l d]) (auto simp: receipts_of_def same movements)
  qed
  have dist: "distinct (map (\<lambda>g. cl_id (fst (given g))) gave)" using legal by (simp add: legal_draws_def)
  have kept: "iv_layers d' = map (drawn_layer gave) (iv_layers d)" using record_draws_layers[OF dist] by (simp add: d')
  have "receipt_backed d' r" if "receipt_backed d r" for r
    using that
  proof (rule receipt_backed_mono)
    show "\<exists>k \<in> set (iv_layers d'). cl_id k = cl_id l \<and> cl_original_quantity k = cl_original_quantity l
        \<and> cl_unit_cost k = cl_unit_cost l \<and> cl_currency k = cl_currency l
        \<and> cl_origin_layer_id k = cl_origin_layer_id l" if "l \<in> set (iv_layers d)" for l
      by (rule bexI[of _ "drawn_layer gave l"])
        (use that in \<open>auto simp: kept drawn_layer_def draw_layer_def Let_def split: option.splits\<close>)
  qed (simp add: same)
  moreover have "fifo_inv d'" using allocate_keeps[OF fifo run] .
  moreover have "ca_stock_movement_id a \<in> sm_id ` set (iv_movements d')" if "a \<in> set (iv_allocations d')" for a
    using that mine inv m(1) unfolding movements by (auto simp: rows(1) core_parts)
  ultimately show "core_inv d'" using inv distinct lines by (auto simp: core_parts same list_all_iff)
qed

section \<open>One line\<close>

lemma fresh_movement:
  assumes "core_inv d"
  shows "allocs_of d (next_id sm_id (iv_movements d)) = []"
proof -
  have "ca_stock_movement_id a \<noteq> next_id sm_id (iv_movements d)" if "a \<in> set (iv_allocations d)" for a
  proof -
    from assms that obtain m where m: "m \<in> set (iv_movements d)" "ca_stock_movement_id a = sm_id m"
      by (auto simp: core_parts)
    from next_id_above[OF m(1), of sm_id] m(2) show ?thesis by simp
  qed
  then show ?thesis by (simp add: allocs_of_def filter_empty_conv)
qed

lemma core_lines: "core_inv d \<Longrightarrow> l \<in> set (iv_lines d) \<Longrightarrow> line_inv d l"
  by (simp add: core_inv_def list_all_iff)

lemma same_line: "core_inv d \<Longrightarrow> k \<in> set (iv_lines d) \<Longrightarrow> l \<in> set (iv_lines d) \<Longrightarrow> tl_id k = tl_id l \<Longrightarrow> k = l"
  unfolding core_parts by (auto simp: distinct_map dest: inj_onD)

text \<open>One line changes: the invariant of the others stays, its own has to be shown.\<close>

lemma change_line:
  assumes inv: "tables_inv d" "\<And>k. k \<in> set (iv_lines d) \<Longrightarrow> tl_id k \<noteq> tl_id l \<Longrightarrow> line_inv d k"
    and l: "l \<in> set (iv_lines d)" and f: "\<And>k. tl_id (f k) = tl_id k" and new: "line_inv d (f l)"
  shows "core_inv (d\<lparr>iv_lines := modify tl_id (tl_id l) f (iv_lines d)\<rparr>)"
proof -
  let ?d = "d\<lparr>iv_lines := modify tl_id (tl_id l) f (iv_lines d)\<rparr>"
  have ids: "map tl_id (iv_lines ?d) = map tl_id (iv_lines d)" by (simp add: modify_def f)
  have keep: "line_inv ?d k" if "line_inv d k" for k
    by (rule line_inv_cong[OF _ _ _ that]) (simp_all add: receipts_of_def allocs_of_def)
  have one: "line_inv ?d (if tl_id k = tl_id l then f k else k)" if k: "k \<in> set (iv_lines d)" for k
  proof (cases "tl_id k = tl_id l")
    case True
    with k l inv(1) have "k = l" by (auto simp: tables_inv_def distinct_map dest: inj_onD)
    with keep[OF new] show ?thesis by simp
  next
    case False
    with keep[OF inv(2)[OF k]] show ?thesis by simp
  qed
  have rows: "iv_lines ?d = map (\<lambda>k. if tl_id k = tl_id l then f k else k) (iv_lines d)" by (simp add: modify_def)
  have "list_all (line_inv ?d) (iv_lines ?d)"
    unfolding list_all_iff rows set_map using one by blast
  moreover have backed: "receipt_backed ?d r" if "receipt_backed d r" for r
    using that by (rule receipt_backed_mono) (metis ids list.set_map order_refl, auto)
  have "list_all (receipt_backed ?d) (iv_receipts ?d)"
    using inv(1) backed by (simp add: tables_inv_def list_all_iff)
  moreover have "fifo_inv ?d \<longleftrightarrow> fifo_inv d" by (rule fifo_inv_cong) simp_all
  moreover have "allocs_of ?d i = allocs_of d i" for i by (simp add: allocs_of_def)
  moreover have "distinct (map tl_id (iv_lines ?d))" using inv(1) unfolding ids tables_inv_def by blast
  ultimately show ?thesis using inv(1) unfolding core_parts by simp
qed

text \<open>What the steps of a command leave of the other tables.\<close>

definition same_frame :: "inventory \<Rightarrow> inventory \<Rightarrow> bool" where
  "same_frame d d' \<longleftrightarrow> iv_transfers d' = iv_transfers d \<and> iv_items d' = iv_items d \<and> iv_warehouses d' = iv_warehouses d"

lemma ship_line_effect:
  assumes inv: "core_inv d" and l: "l \<in> set (iv_lines d)" "tl_source_movement_id l = None"
    and run: "ship_line s x source now actor key l d = Inr d'"
  shows "core_inv d'" "same_frame d d'" "iv_lines d' = modify tl_id (tl_id l)
    (\<lambda>k. k\<lparr>tl_source_movement_id := Some (next_id sm_id (iv_movements d))\<rparr>) (iv_lines d)"
proof -
  let ?i = "next_id sm_id (iv_movements d)"
  from run obtain item where "find_row ii_id (tl_inventory_item_id l) (iv_items d) = Some item"
    by (auto simp: ship_line_def Let_def split: if_splits option.splits)
  note run' = run[unfolded ship_line_def Let_def this option.case]
  define m where "m = transfer_movement x l source item TRANSFER_OUT (tl_sent_quantity l) now actor (line_key key l)
    (quantity_unit (stock_of s (it_tenant_id x) (wh_id source) (tl_inventory_item_id l) - tl_sent_quantity l)) ?i"
  have m: "sm_id m = ?i" by (simp add: m_def transfer_movement_def)
  obtain d1 d2 where ins: "insert_movement m d = Inr d1"
    and alloc: "allocate_fifo d1 m (PyDecimal (tl_sent_quantity l)) True = Inr d2"
    and d': "d' = d2\<lparr>iv_lines := modify tl_id (tl_id l) (\<lambda>k. k\<lparr>tl_source_movement_id := Some ?i\<rparr>) (iv_lines d2)\<rparr>"
    using run'[folded m_def] unfolding m by (auto simp: bind_result_Inr_iff split: if_splits)
  note d1 = insert_keeps[OF inv ins]
  have "allocs_of d1 (sm_id m) = []" using fresh_movement[OF inv] by (simp add: m d1(2) allocs_of_def)
  note a = allocation_effect[OF d1(1) alloc _ this]
  have in1: "sm_id m \<in> sm_id ` set (iv_movements d1)" by (simp add: d1(2))
  note a = a[OF in1]
  have lines: "iv_lines d2 = iv_lines d" by (simp add: a(2) d1(2))
  show "iv_lines d' = modify tl_id (tl_id l) (\<lambda>k. k\<lparr>tl_source_movement_id := Some ?i\<rparr>) (iv_lines d)"
    by (simp add: d' lines)
  show "same_frame d d'" by (simp add: same_frame_def d' a d1(2))
  have old: "line_inv d2 l" using core_lines[OF a(1)] l(1) lines by simp
  show "core_inv d'"
    unfolding d'
  proof (rule change_line)
    show "l \<in> set (iv_lines d2)" using l(1) lines by simp
    show "tables_inv d2" "\<And>k. k \<in> set (iv_lines d2) \<Longrightarrow> line_inv d2 k" using a(1) by (simp_all add: core_inv_def list_all_iff)
    have some: "sm_id m \<in> sm_id ` set (iv_movements d2)" using in1 a(7) by simp
    have empty: "receipts_of d2 (tl_id l) = []" using old l(2) by (simp add: line_inv_def)
    have "already_received d2 (tl_id l) i = 0" for i
      unfolding already_by_layer empty by simp
    moreover have "0 \<le> ca_quantity k" if "k \<in> set (allocs_of d2 i)" for k i
      using a(1) that by (auto simp: core_parts fifo_inv_def list_all_iff cost_allocation_ok_def allocs_of_def)
    ultimately show "line_inv d2 (l\<lparr>tl_source_movement_id := Some ?i\<rparr>)"
      using old l(2) a(8) some empty by (auto simp: line_inv_def transfer_line_ok_def m)
  qed simp
qed

lemma order_by_permutes: "distinct (map f xs) \<Longrightarrow> distinct (map f (order_by k xs))"
  by (simp add: order_by_def distinct_map inj_on_def)

lemma micro_receipts:
  assumes "core_inv d"
  shows "micro (sum_by rc_quantity (receipts_of d line))" "micro (already_received d line i)"
proof -
  have "micro (rc_quantity r)" if "r \<in> set (iv_receipts d)" for r
    using assms that by (simp add: core_parts list_all_iff receipt_backed_def)
  then show "micro (sum_by rc_quantity (receipts_of d line))" "micro (already_received d line i)"
    by (auto simp: already_by_layer receipts_of_def intro!: micro_sum)
qed

lemma next_sequence_positive: "1 \<le> next_sequence d line"
proof -
  have "0 \<le> foldr max xs (0 :: int)" for xs by (induction xs) auto
  then show ?thesis by (simp add: next_sequence_def)
qed

lemma receive_line_effect:
  assumes inv: "core_inv d" and l: "l \<in> set (iv_lines d)" "tl_source_movement_id l = Some m0"
    and q: "requested (tl_id l) = Some q" "0 < q" "micro q"
    and run: "receive_line s x wh now actor key requested l d = Inr d'"
  shows "core_inv d' \<and> same_frame d d' \<and> iv_lines d' = modify tl_id (tl_id l)
      (\<lambda>k. k\<lparr>tl_received_quantity := tl_received_quantity l + q\<rparr>) (iv_lines d)
    \<and> tl_received_quantity l + q \<le> tl_sent_quantity l"
proof -
  let ?i = "next_id sm_id (iv_movements d)"
  let ?f = "\<lambda>k. k\<lparr>tl_received_quantity := tl_received_quantity l + q\<rparr>"
  from run q(1) obtain item where item: "find_row ii_id (tl_inventory_item_id l) (iv_items d) = Some item"
    and guard: "tl_received_quantity l + q \<le> tl_sent_quantity l"
    by (auto simp: receive_line_def split: if_splits option.splits)
  have old: "line_inv d l" using core_lines[OF inv l(1)] .
  then have exact: "quantity_unit (tl_received_quantity l + q) = tl_received_quantity l + q"
    using micro_receipts(1)[OF inv] q(3) by (simp add: line_inv_def)
  define m where "m = transfer_movement x l wh item TRANSFER_IN q now actor (line_key key l)
    (quantity_unit (stock_of s (it_tenant_id x) (wh_id wh) (tl_inventory_item_id l) + q)) ?i"
  have m: "sm_id m = ?i" by (simp add: m_def transfer_movement_def)
  obtain d1 w c d2 t where ins: "insert_movement m d = Inr d1"
    and recv: "receive_allocations d1 x l wh item ?i now (next_sequence d1 (tl_id l)) q 0 None
      (order_by ca_allocation_order (filter (\<lambda>a. Some (ca_stock_movement_id a) = tl_source_movement_id l) (iv_allocations d1)))
      d1 = Inr (w, c, d2)"
    and d': "d' = d2\<lparr>iv_movements := modify sm_id ?i (resolve_movement t c) (iv_movements d2),
      iv_lines := modify tl_id (tl_id l) ?f (iv_lines d2)\<rparr>"
    using run[unfolded receive_line_def q(1) item option.case Let_def m_def[symmetric]] guard unfolding m exact
    by (auto simp: bind_result_Inr_iff split: if_splits)
  note d1 = insert_keeps[OF inv ins]
  let ?as = "order_by ca_allocation_order (filter (\<lambda>a. Some (ca_stock_movement_id a) = tl_source_movement_id l) (iv_allocations d1))"
  have as: "set ?as = set (allocs_of d m0)" by (auto simp: l(2) allocs_of_def d1(2))
  have same: "already_received d1 = already_received d" by (simp add: already_received_def fun_eq_iff d1(2))
  have "distinct (map ca_cost_layer_id (allocs_of d1 m0))" using d1(1) by (simp add: core_parts)
  then have dist: "distinct (map ca_cost_layer_id ?as)"
    by (intro order_by_permutes) (simp add: l(2) allocs_of_def)
  have fifo: "fifo_inv d1" using d1(1) by (simp add: core_parts)
  have sub: "set ?as \<subseteq> set (iv_allocations d1)" unfolding as by (auto simp: allocs_of_def d1(2))
  have mics: "\<forall>a \<in> set ?as. micro (already_received d1 (tl_id l) (ca_cost_layer_id a))"
    using micro_receipts(2)[OF d1(1)] by blast
  obtain rs ls where d2: "d2 = d1\<lparr>iv_layers := iv_layers d1 @ ls, iv_receipts := iv_receipts d1 @ rs\<rparr>" "fifo_inv d2"
    and backed: "list_all2 (receipt_of_layer (tl_id l) wh item ?i) rs ls" and total: "sum_by rc_quantity rs = q"
    and from_as: "\<forall>r \<in> set rs. \<exists>a \<in> set ?as. rc_source_layer_id r = ca_cost_layer_id a \<and> rc_unit_cost r = ca_unit_cost a"
    and within: "\<forall>a \<in> set ?as. sum_by rc_quantity (filter (\<lambda>r. rc_source_layer_id r = ca_cost_layer_id a) rs) = 0
         \<or> sum_by rc_quantity (filter (\<lambda>r. rc_source_layer_id r = ca_cost_layer_id a) rs)
              \<le> ca_quantity a - already_received d1 (tl_id l) (ca_cost_layer_id a)"
    using receive_allocations_success[OF recv fifo sub dist q(3) mics next_sequence_positive] by blast
  have mine: "rc_transfer_line_id r = tl_id l" if "r \<in> set rs" for r
    using list_all2_member[OF backed that] by (auto simp: receipt_of_layer_def)
  define d3 where "d3 = d2\<lparr>iv_movements := modify sm_id ?i (resolve_movement t c) (iv_movements d2)\<rparr>"
  have receipts: "receipts_of d3 i = receipts_of d i @ (if i = tl_id l then rs else [])" for i
    using mine by (auto simp: receipts_of_def d3_def d2(1) d1(2) filter_empty_conv)
  have allocs: "allocs_of d3 i = allocs_of d i" for i by (simp add: allocs_of_def d3_def d2(1) d1(2))
  have movs: "sm_id ` set (iv_movements d3) = sm_id ` set (iv_movements d1)"
  proof -
    have "map sm_id (iv_movements d3) = map sm_id (iv_movements d1)"
      by (simp add: d3_def d2(1) modify_def resolve_movement_def)
    then show ?thesis by (metis list.set_map)
  qed
  have lines: "iv_lines d3 = iv_lines d" by (simp add: d3_def d2(1) d1(2))
  have shape: "d' = d3\<lparr>iv_lines := modify tl_id (tl_id l) ?f (iv_lines d3)\<rparr>" by (simp add: d' d3_def)
  have already: "already_received d3 (tl_id l) i = already_received d (tl_id l) i
      + sum_by rc_quantity (filter (\<lambda>r. rc_source_layer_id r = i) rs)" for i
    by (simp add: already_by_layer receipts)
  have "already_received d3 (tl_id l) (ca_cost_layer_id a) \<le> ca_quantity a" if a: "a \<in> set (allocs_of d m0)" for a
  proof -
    have "already_received d (tl_id l) (ca_cost_layer_id a) \<le> ca_quantity a"
      using old l(2) a by (simp add: line_inv_def)
    with within[unfolded as same, rule_format, OF a] show ?thesis by (auto simp: already)
  qed
  moreover have "line_inv d l \<Longrightarrow> tl_sent_quantity l = sum_by ca_quantity (allocs_of d m0)" using l(2) by (simp add: line_inv_def)
  ultimately have new: "line_inv d3 (?f l)"
    using old l(2) guard q(2) total from_as[unfolded as] movs d1(2)
    by (auto simp: line_inv_def transfer_line_ok_def receipts allocs)
  have backed_new: "receipt_backed d3 r" if "r \<in> set rs" for r
  proof -
    from list_all2_member[OF backed that] obtain k where k: "k \<in> set ls" "receipt_of_layer (tl_id l) wh item ?i r k" by blast
    have "k \<in> set (iv_layers d3)" "l \<in> set (iv_lines d3)" using k(1) l(1) unfolding lines by (simp_all add: d3_def d2(1))
    with k(2) show ?thesis by (auto simp: receipt_backed_def receipt_of_layer_def)
  qed
  have backed_old: "receipt_backed d3 r" if "receipt_backed d r" for r
    using that by (rule receipt_backed_mono) (auto simp: lines d3_def d2(1) d1(2))
  have tables: "tables_inv d3"
    unfolding tables_inv_def
  proof (intro conjI)
    show "fifo_inv d3" using d2(2) fifo_inv_cong[of d3 d2] by (simp add: d3_def)
    show "distinct (map tl_id (iv_lines d3))" "distinct (map it_id (iv_transfers d3))"
      using inv by (simp_all add: lines core_parts d3_def d2(1) d1(2))
    show "\<forall>m. distinct (map ca_cost_layer_id (allocs_of d3 m))" using inv by (simp add: allocs core_parts)
    show "\<forall>a \<in> set (iv_allocations d3). ca_stock_movement_id a \<in> sm_id ` set (iv_movements d3)"
      unfolding movs using d1(1) by (simp add: core_parts d3_def d2(1))
    show "list_all (receipt_backed d3) (iv_receipts d3)"
      using inv backed_old backed_new by (auto simp: list_all_iff core_parts d3_def d2(1) d1(2))
  qed
  have others: "line_inv d3 k" if "k \<in> set (iv_lines d3)" "tl_id k \<noteq> tl_id l" for k
  proof -
    have "line_inv d k" using core_lines[OF inv] that(1) by (simp add: lines)
    then show ?thesis by (rule line_inv_cong[rotated 3]) (use that(2) in \<open>auto simp: receipts allocs movs d1(2)\<close>)
  qed
  have "core_inv d'"
    unfolding shape by (rule change_line[where l = l, OF tables others]) (use l(1) lines new in simp_all)
  moreover have "same_frame d d'" by (simp add: same_frame_def shape d3_def d2(1) d1(2))
  moreover have "iv_lines d' = modify tl_id (tl_id l) ?f (iv_lines d)" by (simp add: shape lines)
  ultimately show ?thesis using guard by blast
qed

section \<open>The loops over the lines\<close>

lemma transfer_lines_rows:
  assumes "core_inv d"
  shows "set (transfer_lines d i) = {l \<in> set (iv_lines d). tl_transfer_id l = i}" "distinct (map tl_id (transfer_lines d i))"
proof -
  show "set (transfer_lines d i) = {l \<in> set (iv_lines d). tl_transfer_id l = i}" by (auto simp: transfer_lines_def)
  have "distinct (map tl_id (iv_lines d))" using assms by (simp add: core_parts)
  then show "distinct (map tl_id (transfer_lines d i))"
    unfolding transfer_lines_def by (intro order_by_permutes distinct_map_filter)
qed

text \<open>How the rows of a table of lines evolve: \<^theory_text>\<open>P\<close> on the lines of the loop, the others unchanged.\<close>

definition lines_evolve :: "int set \<Rightarrow> (transfer_line \<Rightarrow> transfer_line \<Rightarrow> bool) \<Rightarrow> inventory \<Rightarrow> inventory \<Rightarrow> bool" where
  "lines_evolve ids P d d' \<longleftrightarrow> (\<exists>g. iv_lines d' = map g (iv_lines d) \<and> (\<forall>l \<in> set (iv_lines d). tl_id (g l) = tl_id l
     \<and> tl_transfer_id (g l) = tl_transfer_id l \<and> tl_sent_quantity (g l) = tl_sent_quantity l
     \<and> (if tl_id l \<in> ids then P l (g l) else g l = l)))"

lemma each_line_evolves:
  assumes "each_line f ls d = Inr d'" "core_inv d" "distinct (map tl_id ls)" "set ls \<subseteq> set (iv_lines d)"
    and step: "\<And>l e e'. f l e = Inr e' \<Longrightarrow> core_inv e \<Longrightarrow> l \<in> set (iv_lines e) \<Longrightarrow> l \<in> set ls \<Longrightarrow> core_inv e' \<and> same_frame e e'
      \<and> (\<exists>h. iv_lines e' = modify tl_id (tl_id l) h (iv_lines e) \<and> (\<forall>k. tl_id (h k) = tl_id k
          \<and> tl_transfer_id (h k) = tl_transfer_id k \<and> tl_sent_quantity (h k) = tl_sent_quantity k) \<and> P l (h l))"
  shows "core_inv d' \<and> same_frame d d' \<and> lines_evolve (tl_id ` set ls) P d d'"
  using assms
proof (induction ls arbitrary: d)
  case Nil
  then show ?case by (auto simp: same_frame_def lines_evolve_def intro: exI[of _ id])
next
  case (Cons l ls)
  from Cons.prems(1) obtain e where e: "f l d = Inr e" and sub: "each_line f ls e = Inr d'"
    by (auto simp: bind_result_Inr_iff)
  have mem: "l \<in> set (iv_lines d)" using Cons.prems(4) by simp
  from Cons.prems(5)[OF e Cons.prems(2) mem] obtain h where inv: "core_inv e" "same_frame d e"
    and h: "iv_lines e = modify tl_id (tl_id l) h (iv_lines d)" "\<forall>k. tl_id (h k) = tl_id k
          \<and> tl_transfer_id (h k) = tl_transfer_id k \<and> tl_sent_quantity (h k) = tl_sent_quantity k" "P l (h l)" by auto
  have other: "tl_id k \<noteq> tl_id l" if "k \<in> set ls" for k
    using Cons.prems(3) imageI[OF that, of tl_id] by (simp, metis)
  then have "set ls \<subseteq> set (iv_lines e)"
    using Cons.prems(4) unfolding h(1) modify_def by (auto simp: image_iff)
  moreover have "distinct (map tl_id ls)" using Cons.prems(3) by simp
  ultimately have "core_inv d' \<and> same_frame e d' \<and> lines_evolve (tl_id ` set ls) P e d'"
    using Cons.prems(5) by (intro Cons.IH[OF sub inv(1)]) auto
  then obtain g where fin: "core_inv d'" "same_frame e d'" and g: "iv_lines d' = map g (iv_lines e)"
    "\<forall>k \<in> set (iv_lines e). tl_id (g k) = tl_id k \<and> tl_transfer_id (g k) = tl_transfer_id k
       \<and> tl_sent_quantity (g k) = tl_sent_quantity k \<and> (if tl_id k \<in> tl_id ` set ls then P k (g k) else g k = k)"
    unfolding lines_evolve_def by blast
  let ?g = "\<lambda>k. g (if tl_id k = tl_id l then h k else k)"
  have rows: "iv_lines d' = map ?g (iv_lines d)" by (simp add: g(1) h(1) modify_def)
  have one: "tl_id (?g k) = tl_id k \<and> tl_transfer_id (?g k) = tl_transfer_id k
      \<and> tl_sent_quantity (?g k) = tl_sent_quantity k
      \<and> (if tl_id k \<in> tl_id ` set (l # ls) then P k (?g k) else ?g k = k)" if k: "k \<in> set (iv_lines d)" for k
  proof -
    let ?k = "if tl_id k = tl_id l then h k else k"
    have "?k \<in> set (iv_lines e)" unfolding h(1) modify_def set_map using k by (rule imageI)
    note gk = g(2)[rule_format, OF this]
    show ?thesis
    proof (cases "tl_id k = tl_id l")
      case True
      with same_line[OF Cons.prems(2) k mem] have "k = l" by simp
      have "tl_id l \<notin> tl_id ` set ls" using other by (metis imageE)
      with gk h(2,3) \<open>k = l\<close> show ?thesis by simp
    next
      case False
      from gk[unfolded if_not_P[OF False]] False show ?thesis by auto
    qed
  qed
  have "lines_evolve (tl_id ` set (l # ls)) P d d'"
    unfolding lines_evolve_def using rows one by blast
  with fin inv(2) show ?case by (simp add: same_frame_def)
qed

lemma ship_lines:
  assumes inv: "core_inv d" and run: "each_line (ship_line s x wh now actor key) (transfer_lines d i) d = Inr d'"
    and none: "\<And>l. l \<in> set (iv_lines d) \<Longrightarrow> tl_transfer_id l = i \<Longrightarrow> tl_source_movement_id l = None"
  shows "core_inv d' \<and> same_frame d d' \<and> lines_evolve (tl_id ` set (transfer_lines d i))
    (\<lambda>l k. tl_source_movement_id k \<noteq> None \<and> tl_received_quantity k = tl_received_quantity l) d d'"
proof (rule each_line_evolves[OF run inv transfer_lines_rows(2)[OF inv]])
  show "set (transfer_lines d i) \<subseteq> set (iv_lines d)" by (auto simp: transfer_lines_rows(1)[OF inv])
next
  fix l e e'
  assume a: "ship_line s x wh now actor key l e = Inr e'" "core_inv e" "l \<in> set (iv_lines e)" "l \<in> set (transfer_lines d i)"
  then have "tl_source_movement_id l = None" using none by (simp add: transfer_lines_rows(1)[OF inv])
  note eff = ship_line_effect[OF a(2,3) this a(1)]
  show "core_inv e' \<and> same_frame e e' \<and> (\<exists>h. iv_lines e' = modify tl_id (tl_id l) h (iv_lines e)
      \<and> (\<forall>k. tl_id (h k) = tl_id k \<and> tl_transfer_id (h k) = tl_transfer_id k \<and> tl_sent_quantity (h k) = tl_sent_quantity k)
      \<and> tl_source_movement_id (h l) \<noteq> None \<and> tl_received_quantity (h l) = tl_received_quantity l)"
    using eff(1,2) by (intro conjI exI[of _ "\<lambda>k. k\<lparr>tl_source_movement_id := Some (next_id sm_id (iv_movements e))\<rparr>"])
      (simp_all add: eff(3))
qed

lemma receive_lines:
  assumes inv: "core_inv d" and run: "each_line (receive_line s x wh now actor key requested) (transfer_lines d i) d = Inr d'"
    and some: "\<And>l. l \<in> set (iv_lines d) \<Longrightarrow> tl_transfer_id l = i \<Longrightarrow> tl_source_movement_id l \<noteq> None"
    and q: "\<And>j q. requested j = Some q \<Longrightarrow> 0 < q \<and> micro q"
  shows "core_inv d' \<and> same_frame d d' \<and> lines_evolve (tl_id ` set (transfer_lines d i))
    (\<lambda>l k. tl_source_movement_id k = tl_source_movement_id l) d d'"
proof (rule each_line_evolves[OF run inv transfer_lines_rows(2)[OF inv]])
  show "set (transfer_lines d i) \<subseteq> set (iv_lines d)" by (auto simp: transfer_lines_rows(1)[OF inv])
next
  fix l e e'
  assume a: "receive_line s x wh now actor key requested l e = Inr e'" "core_inv e" "l \<in> set (iv_lines e)"
    "l \<in> set (transfer_lines d i)"
  then obtain m where m: "tl_source_movement_id l = Some m" using some by (auto simp: transfer_lines_rows(1)[OF inv])
  show "core_inv e' \<and> same_frame e e' \<and> (\<exists>h. iv_lines e' = modify tl_id (tl_id l) h (iv_lines e)
      \<and> (\<forall>k. tl_id (h k) = tl_id k \<and> tl_transfer_id (h k) = tl_transfer_id k \<and> tl_sent_quantity (h k) = tl_sent_quantity k)
      \<and> tl_source_movement_id (h l) = tl_source_movement_id l)"
  proof (cases "requested (tl_id l)")
    case None
    with a(1) have "e' = e" by (simp add: receive_line_def)
    with a(2) show ?thesis by (intro conjI exI[of _ "\<lambda>k. k"]) (simp_all add: same_frame_def modify_def)
  next
    case (Some r)
    with q have "0 < r" "micro r" by blast+
    note eff = receive_line_effect[OF a(2,3) m Some this a(1)]
    then show ?thesis
      by (intro conjI exI[of _ "\<lambda>k. k\<lparr>tl_received_quantity := tl_received_quantity l + r\<rparr>"]) simp_all
  qed
qed

end
