(* ===== verification/TransferSteps.thy ===== *)
theory TransferSteps
  imports TransferProofs
begin

text \<open>Every command keeps the invariant of transfers; the reachable states of the inventory.\<close>

section \<open>Commands\<close>

lemma core_inv_transfers:
  assumes "core_inv d" "distinct (map it_id ts)"
  shows "core_inv (d\<lparr>iv_transfers := ts\<rparr>)"
proof -
  let ?d = "d\<lparr>iv_transfers := ts\<rparr>"
  have "line_inv ?d l" if "line_inv d l" for l
    by (rule line_inv_cong[OF _ _ _ that]) (simp_all add: receipts_of_def allocs_of_def)
  moreover have "receipt_backed ?d r \<longleftrightarrow> receipt_backed d r" for r by (simp add: receipt_backed_def)
  moreover have "fifo_inv ?d \<longleftrightarrow> fifo_inv d" by (rule fifo_inv_cong) simp_all
  moreover have "allocs_of ?d i = allocs_of d i" for i by (simp add: allocs_of_def)
  ultimately show ?thesis using assms by (auto simp: core_parts list_all_iff)
qed

lemma find_transfer_success: "find_transfer d t i = Inr x \<Longrightarrow> x \<in> set (iv_transfers d) \<and> it_id x = i \<and> it_tenant_id x = t"
  by (auto simp: find_transfer_def dest: find_SomeD split: option.splits)

lemma same_transfer: "core_inv d \<Longrightarrow> x \<in> set (iv_transfers d) \<Longrightarrow> y \<in> set (iv_transfers d) \<Longrightarrow> it_id x = it_id y \<Longrightarrow> x = y"
  unfolding core_parts by (auto simp: distinct_map dest: inj_onD)

text \<open>The row of a transfer and its lines change together.\<close>

lemma commit_transfer:
  assumes inv: "transfers_inv d" and x: "x \<in> set (iv_transfers d)"
    and e: "core_inv e" "iv_transfers e = iv_transfers d"
    and others: "\<And>l. l \<in> set (iv_lines e) \<Longrightarrow> tl_transfer_id l \<noteq> it_id x \<Longrightarrow> l \<in> set (iv_lines d)"
    and own: "\<And>l. l \<in> set (iv_lines e) \<Longrightarrow> tl_transfer_id l = it_id x \<Longrightarrow>
      (tl_source_movement_id l \<noteq> None \<longleftrightarrow> shipped_status (it_status y))
      \<and> (it_status y = TRANSFER_RECEIVED \<longrightarrow> tl_received_quantity l = tl_sent_quantity l)"
    and y: "it_id y = it_id x" "inventory_transfer_ok y"
  shows "transfers_inv (e\<lparr>iv_transfers := modify it_id (it_id x) (\<lambda>_. y) (iv_transfers e)\<rparr>)"
proof -
  let ?ts = "modify it_id (it_id x) (\<lambda>_. y) (iv_transfers e)"
  have ids: "map it_id ?ts = map it_id (iv_transfers e)" by (simp add: modify_def y(1))
  have core: "core_inv (e\<lparr>iv_transfers := ?ts\<rparr>)"
    by (rule core_inv_transfers[OF e(1)]) (use e(1) in \<open>simp only: ids core_parts\<close>)
  have rows: "z \<in> set ?ts" if "z \<in> set (iv_transfers d)" "it_id z \<noteq> it_id x" for z
    using that unfolding e(2) by (force simp: modify_def)
  have row: "y \<in> set ?ts" using x unfolding e(2) by (force simp: modify_def)
  have "\<exists>z \<in> set ?ts. it_id z = tl_transfer_id l \<and> (tl_source_movement_id l \<noteq> None \<longleftrightarrow> shipped_status (it_status z))
      \<and> (it_status z = TRANSFER_RECEIVED \<longrightarrow> tl_received_quantity l = tl_sent_quantity l)"
    if l: "l \<in> set (iv_lines e)" for l
  proof (cases "tl_transfer_id l = it_id x")
    case True
    with own[OF l True] row y(1) show ?thesis by (intro bexI[of _ y]) simp_all
  next
    case False
    with others[OF l False] inv obtain z where "z \<in> set (iv_transfers d)" "it_id z = tl_transfer_id l"
      "(tl_source_movement_id l \<noteq> None \<longleftrightarrow> shipped_status (it_status z))
        \<and> (it_status z = TRANSFER_RECEIVED \<longrightarrow> tl_received_quantity l = tl_sent_quantity l)"
      unfolding transfers_inv_def status_inv_def by blast
    with rows False show ?thesis by (intro bexI[of _ z]) simp_all
  qed
  moreover have "list_all inventory_transfer_ok ?ts"
    using inv y(2) unfolding e(2) by (auto simp: transfers_inv_def status_inv_def list_all_iff modify_def)
  ultimately show ?thesis using core by (simp add: transfers_inv_def status_inv_def)
qed

lemma exact_positive_any: "exact_positive quantity = Inr q \<Longrightarrow> 0 < q \<and> micro q"
proof (cases quantity)
  case (PyDecimal x)
  then show "exact_positive quantity = Inr q \<Longrightarrow> 0 < q \<and> micro q" using exact_positive_success[of x q] by simp
qed (simp_all add: exact_positive_def exact_quantity_def)

lemma requested_positive:
  "requested_quantities rs m = Inr m' \<Longrightarrow> \<forall>j q. m j = Some q \<longrightarrow> 0 < q \<and> micro q \<Longrightarrow> m' j = Some q \<Longrightarrow> 0 < q \<and> micro q"
proof (induction rs m rule: requested_quantities.induct)
  case (2 line quantity rs m)
  from 2(2) obtain p where p: "exact_positive quantity = Inr p" "requested_quantities rs (m(line \<mapsto> p)) = Inr m'"
    by (auto simp: bind_result_Inr_iff)
  have "0 < p \<and> micro p" using exact_positive_any[OF p(1)] .
  then have "\<forall>j q. (m(line \<mapsto> p)) j = Some q \<longrightarrow> 0 < q \<and> micro q" using 2(3) by simp
  from 2(1)[OF p(2) this 2(4)] show ?case .
qed auto

text \<open>What an action leaves: the rows of the lines, and the row of the transfer to be written.\<close>

lemma action_effect:
  assumes inv: "transfers_inv d" and x: "x \<in> set (iv_transfers d)"
    and run: "run_action s x action now actor key receipts d = Inr (y, e)"
  shows "core_inv e \<and> iv_transfers e = iv_transfers d \<and> it_id y = it_id x
    \<and> it_source_warehouse_id y = it_source_warehouse_id x \<and> it_destination_warehouse_id y = it_destination_warehouse_id x
    \<and> (\<forall>l \<in> set (iv_lines e). tl_transfer_id l \<noteq> it_id x \<longrightarrow> l \<in> set (iv_lines d))
    \<and> (\<forall>l \<in> set (iv_lines e). tl_transfer_id l = it_id x \<longrightarrow>
        (tl_source_movement_id l \<noteq> None \<longleftrightarrow> shipped_status (it_status y))
        \<and> (it_status y = TRANSFER_RECEIVED \<longrightarrow> tl_received_quantity l = tl_sent_quantity l))"
proof -
  have core: "core_inv d" using inv by (simp add: transfers_inv_def)
  have own: "(tl_source_movement_id l \<noteq> None \<longleftrightarrow> shipped_status (it_status x))
      \<and> (it_status x = TRANSFER_RECEIVED \<longrightarrow> tl_received_quantity l = tl_sent_quantity l)"
    if l: "l \<in> set (iv_lines d)" "tl_transfer_id l = it_id x" for l
  proof -
    from inv l obtain z where "z \<in> set (iv_transfers d)" "it_id z = it_id x"
      "(tl_source_movement_id l \<noteq> None \<longleftrightarrow> shipped_status (it_status z))
        \<and> (it_status z = TRANSFER_RECEIVED \<longrightarrow> tl_received_quantity l = tl_sent_quantity l)"
      unfolding transfers_inv_def status_inv_def by metis
    with same_transfer[OF core _ x] show ?thesis by blast
  qed
  have mine: "tl_id ` set (transfer_lines d (it_id x)) = tl_id ` {l \<in> set (iv_lines d). tl_transfer_id l = it_id x}"
    by (simp add: transfer_lines_rows(1)[OF core])
  have evolved: "\<exists>k \<in> set (iv_lines d). tl_transfer_id l = tl_transfer_id k \<and> tl_sent_quantity l = tl_sent_quantity k
      \<and> (if tl_transfer_id l = it_id x then P k l else l = k)"
    if "lines_evolve (tl_id ` set (transfer_lines d (it_id x))) P d e" "l \<in> set (iv_lines e)" for P l
  proof -
    from that obtain g k where k: "k \<in> set (iv_lines d)" "l = g k" "tl_transfer_id (g k) = tl_transfer_id k"
      "tl_sent_quantity (g k) = tl_sent_quantity k"
      "if tl_id k \<in> tl_id ` set (transfer_lines d (it_id x)) then P k (g k) else g k = k"
      unfolding lines_evolve_def by auto
    have iff: "tl_id k \<in> tl_id ` set (transfer_lines d (it_id x)) \<longleftrightarrow> tl_transfer_id k = it_id x"
      unfolding mine using k(1) same_line[OF core] by auto
    show ?thesis using k(1) by (rule bexI[rotated]) (use k(2-5)[unfolded iff] in auto)
  qed
  consider (submit) "action = ''submit''" | (cancel) "action = ''cancel''" | (ship) "action = ''ship''" | (receive) "action = ''receive''"
    using run by (auto simp: run_action_def Let_def split: if_splits)
  then show ?thesis
  proof cases
    case submit
    with run have "it_status x = TRANSFER_DRAFT" "y = x\<lparr>it_status := TRANSFER_SUBMITTED, it_submitted_at := Some now\<rparr>" "e = d"
      by (auto simp: run_action_def Let_def split: if_splits)
    with core own show ?thesis by (auto simp: shipped_status_def)
  next
    case cancel
    with run have "it_status x \<in> {TRANSFER_DRAFT, TRANSFER_SUBMITTED}"
      "y = x\<lparr>it_status := TRANSFER_CANCELLED, it_cancelled_at := Some now\<rparr>" "e = d"
      by (auto simp: run_action_def Let_def split: if_splits)
    with core own show ?thesis by (auto simp: shipped_status_def)
  next
    case ship
    with run obtain wh where st: "it_status x = TRANSFER_SUBMITTED"
      and loop: "each_line (ship_line s x wh now actor key) (transfer_lines d (it_id x)) d = Inr e"
      and y: "y = x\<lparr>it_status := TRANSFER_IN_TRANSIT, it_shipped_at := Some now\<rparr>"
      by (auto simp: run_action_def Let_def bind_result_Inr_iff split: if_splits option.splits)
    have "tl_source_movement_id l = None" if "l \<in> set (iv_lines d)" "tl_transfer_id l = it_id x" for l
      using own[OF that] st by (simp add: shipped_status_def)
    from ship_lines[OF core loop this] have fin: "core_inv e" "same_frame d e"
      and ev: "lines_evolve (tl_id ` set (transfer_lines d (it_id x)))
        (\<lambda>l k. tl_source_movement_id k \<noteq> None \<and> tl_received_quantity k = tl_received_quantity l) d e" by blast+
    have "l \<in> set (iv_lines d)" if "l \<in> set (iv_lines e)" "tl_transfer_id l \<noteq> it_id x" for l
      using evolved[OF ev that(1)] that(2) by auto
    moreover have "tl_source_movement_id l \<noteq> None" if "l \<in> set (iv_lines e)" "tl_transfer_id l = it_id x" for l
      using evolved[OF ev that(1)] that(2) by auto
    moreover have "iv_transfers e = iv_transfers d" using fin(2) by (simp add: same_frame_def)
    ultimately show ?thesis using fin(1) by (simp add: y shipped_status_def)
  next
    case receive
    with run obtain wh requested where st: "it_status x = TRANSFER_IN_TRANSIT"
      and req: "requested_quantities receipts Map.empty = Inr requested"
      and loop: "each_line (receive_line s x wh now actor key requested) (transfer_lines d (it_id x)) d = Inr e"
      and y: "y = (if list_all (\<lambda>l. tl_received_quantity l = tl_sent_quantity l) (transfer_lines e (it_id x))
        then x\<lparr>it_status := TRANSFER_RECEIVED, it_received_at := Some now\<rparr> else x)"
      by (auto simp: run_action_def Let_def bind_result_Inr_iff split: if_splits option.splits)
    have "tl_source_movement_id l \<noteq> None" if "l \<in> set (iv_lines d)" "tl_transfer_id l = it_id x" for l
      using own[OF that] st by (simp add: shipped_status_def)
    moreover have "0 < q \<and> micro q" if "requested j = Some q" for j q
      by (rule requested_positive[OF req _ that]) simp
    ultimately have fin: "core_inv e" "same_frame d e"
      and ev: "lines_evolve (tl_id ` set (transfer_lines d (it_id x)))
        (\<lambda>l k. tl_source_movement_id k = tl_source_movement_id l) d e"
      using receive_lines[OF core loop] by blast+
    have "tl_source_movement_id l \<noteq> None" if "l \<in> set (iv_lines e)" "tl_transfer_id l = it_id x" for l
      using evolved[OF ev that(1)] that(2) own st by (auto simp: shipped_status_def)
    moreover have "tl_received_quantity l = tl_sent_quantity l"
      if "it_status y = TRANSFER_RECEIVED" "l \<in> set (iv_lines e)" "tl_transfer_id l = it_id x" for l
      using that st y by (auto simp: list_all_iff transfer_lines_rows(1)[OF fin(1)] split: if_splits)
    moreover have "l \<in> set (iv_lines d)" if "l \<in> set (iv_lines e)" "tl_transfer_id l \<noteq> it_id x" for l
      using evolved[OF ev that(1)] that(2) by auto
    moreover have "iv_transfers e = iv_transfers d" using fin(2) by (simp add: same_frame_def)
    moreover have "shipped_status (it_status y)" "it_id y = it_id x"
      "it_source_warehouse_id y = it_source_warehouse_id x" "it_destination_warehouse_id y = it_destination_warehouse_id x"
      using st by (auto simp: y shipped_status_def)
    ultimately show ?thesis using fin(1) by simp
  qed
qed

lemma transfer_command_keeps:
  assumes inv: "transfers_inv d" and run: "transfer_command s ctx now i action v key receipts d = Inr (b, d')"
  shows "transfers_inv d'"
proof -
  from run obtain actor x where "employee ctx = Inr actor" and find: "find_transfer d (tenant_id ctx) i = Inr x"
    by (auto simp: transfer_command_def bind_result_Inr_iff)
  note run' = run[unfolded transfer_command_def this bind_result.simps]
  have x: "x \<in> set (iv_transfers d)" using find_transfer_success[OF find] by simp
  have ok: "inventory_transfer_ok x" using inv x by (simp add: transfers_inv_def status_inv_def list_all_iff)
  show ?thesis
  proof (cases "it_last_command_action x = Some action \<and> it_last_command_key x = Some key")
    case True
    with run' inv show ?thesis by simp
  next
    case False
    with run' obtain y e where act: "run_action s x action now actor key receipts d = Inr (y, e)"
      and d': "d' = e\<lparr>iv_transfers := modify it_id (it_id x) (\<lambda>_. y\<lparr>it_version := it_version x + 1,
        it_last_command_action := Some action, it_last_command_key := Some key\<rparr>) (iv_transfers e)\<rparr>"
      by (auto simp: bind_result_Inr_iff split: if_splits)
    note eff = action_effect[OF inv x act]
    show ?thesis
      unfolding d' by (rule commit_transfer[OF inv x]) (use eff ok in \<open>auto simp: inventory_transfer_ok_def\<close>)
  qed
qed

section \<open>New transfers\<close>

lemma add_row_keeps:
  assumes inv: "transfers_inv d" and x: "x \<in> set (iv_transfers d)" "it_status x = TRANSFER_DRAFT" and n: "1 \<le> n"
    and q: "0 < q" "micro q"
  shows "transfers_inv (d\<lparr>iv_lines := iv_lines d @ [transfer_line_row x (next_id tl_id (iv_lines d)) item n q]\<rparr>)"
proof -
  let ?i = "next_id tl_id (iv_lines d)"
  let ?l = "transfer_line_row x ?i item n q"
  let ?d = "d\<lparr>iv_lines := iv_lines d @ [?l]\<rparr>"
  have core: "core_inv d" using inv by (simp add: transfers_inv_def)
  have fresh: "tl_id k \<noteq> ?i" if "k \<in> set (iv_lines d)" for k using next_id_above[OF that, of tl_id] by simp
  have "receipts_of d ?i = []"
  proof -
    have "rc_transfer_line_id r \<noteq> ?i" if "r \<in> set (iv_receipts d)" for r
      using core that fresh unfolding core_parts list_all_iff receipt_backed_def by metis
    then show ?thesis by (simp add: receipts_of_def filter_empty_conv)
  qed
  then have new: "line_inv ?d ?l"
    using n q by (simp add: line_inv_def transfer_line_row_def transfer_line_ok_def receipts_of_def)
  have old: "line_inv ?d k" if "line_inv d k" for k
    by (rule line_inv_cong[OF _ _ _ that]) (simp_all add: receipts_of_def allocs_of_def)
  have backed: "receipt_backed ?d r" if "receipt_backed d r" for r
    using that by (rule receipt_backed_mono) auto
  have "fifo_inv ?d \<longleftrightarrow> fifo_inv d" by (rule fifo_inv_cong) simp_all
  moreover have "allocs_of ?d i = allocs_of d i" for i by (simp add: allocs_of_def)
  moreover have "tl_id ?l = ?i" by (simp add: transfer_line_row_def)
  moreover have "?i \<notin> tl_id ` set (iv_lines d)" using fresh by (metis imageE)
  ultimately have "core_inv ?d"
    using core new old backed by (auto simp: core_parts list_all_iff)
  moreover have "status_inv ?d"
  proof -
    have "tl_transfer_id ?l = it_id x" "tl_source_movement_id ?l = None" by (simp_all add: transfer_line_row_def)
    then have "\<exists>z \<in> set (iv_transfers d). it_id z = tl_transfer_id ?l
        \<and> (tl_source_movement_id ?l \<noteq> None \<longleftrightarrow> shipped_status (it_status z))
        \<and> (it_status z = TRANSFER_RECEIVED \<longrightarrow> tl_received_quantity ?l = tl_sent_quantity ?l)"
      using x by (intro bexI[of _ x]) (simp_all add: shipped_status_def)
    then show ?thesis using inv by (simp add: transfers_inv_def status_inv_def)
  qed
  ultimately show ?thesis by (simp add: transfers_inv_def)
qed

lemma add_lines_keep:
  assumes "add_lines x n ls d = Inr d'" "transfers_inv d" "x \<in> set (iv_transfers d)" "it_status x = TRANSFER_DRAFT" "1 \<le> n"
  shows "transfers_inv d'"
  using assms
proof (induction x n ls d rule: add_lines.induct)
  case (2 x n item quantity ls d)
  from 2(2) obtain q where q: "exact_positive quantity = Inr q"
    and sub: "add_lines x (n + 1) ls (d\<lparr>iv_lines := iv_lines d @ [transfer_line_row x (next_id tl_id (iv_lines d)) item n q]\<rparr>) = Inr d'"
    by (auto simp: bind_result_Inr_iff)
  have "0 < q \<and> micro q" using exact_positive_any[OF q] .
  with add_row_keeps[OF 2(3,4,5,6)] 2(4-6) show ?case by (intro 2(1)[OF sub]) simp_all
qed simp

lemma create_transfer_success:
  assumes "create_transfer ctx a b reference ls d = Inr (i, d')"
  obtains x where "it_status x = TRANSFER_DRAFT" "it_id x = next_id it_id (iv_transfers d)"
    "inventory_transfer_ok x" "add_lines x 1 ls (d\<lparr>iv_transfers := iv_transfers d @ [x]\<rparr>) = Inr d'"
proof -
  from assms obtain actor where actor: "employee ctx = Inr actor" by (auto simp: create_transfer_def bind_result_Inr_iff)
  note run = assms[unfolded create_transfer_def actor bind_result.simps]
  have ab: "a \<noteq> b" using run by (auto split: if_splits)
  from run obtain v w where wh: "order_by wh_id (filter (\<lambda>w. wh_tenant_id w = tenant_id ctx
            \<and> wh_id w \<in> {a, b}) (iv_warehouses d)) = [v, w]"
    by (auto simp: Let_def split: if_splits list.splits)
  note run = run[unfolded Let_def wh list.case]
  from run obtain source where src: "List.find (\<lambda>w. wh_id w = a) [v, w] = Some source"
    by (cases "List.find (\<lambda>w. wh_id w = a) [v, w]") (auto split: if_splits)
  note run = run[unfolded src option.case]
  show thesis using run ab
    by (auto simp: bind_result_Inr_iff inventory_transfer_ok_def split: if_split_asm intro: that[rotated 3])
qed

lemma create_transfer_keeps:
  assumes inv: "transfers_inv d" and run: "create_transfer ctx a b reference ls d = Inr (i, d')"
  shows "transfers_inv d'"
proof -
  have core: "core_inv d" using inv by (simp add: transfers_inv_def)
  from run obtain x where x: "it_status x = TRANSFER_DRAFT" "it_id x = next_id it_id (iv_transfers d)"
    "inventory_transfer_ok x" and add: "add_lines x 1 ls (d\<lparr>iv_transfers := iv_transfers d @ [x]\<rparr>) = Inr d'"
    by (rule create_transfer_success)
  have fresh: "it_id z \<noteq> it_id x" if "z \<in> set (iv_transfers d)" for z using next_id_above[OF that, of it_id] x(2) by simp
  have "it_id x \<notin> it_id ` set (iv_transfers d)" using fresh by (metis imageE)
  then have "core_inv (d\<lparr>iv_transfers := iv_transfers d @ [x]\<rparr>)"
    using core by (intro core_inv_transfers) (auto simp: core_parts)
  moreover have "status_inv (d\<lparr>iv_transfers := iv_transfers d @ [x]\<rparr>)"
    using inv x(3) by (auto simp: transfers_inv_def status_inv_def)
  ultimately show ?thesis
    by (intro add_lines_keep[OF add]) (simp_all add: transfers_inv_def x(1))
qed

section \<open>Reachable inventories\<close>

text \<open>
  The steps: a transfer is created or commanded, goods come in as a layer, a movement is recorded, and a
  movement draws on the layers (an order, a loss, a preparation), completely or as far as they reach.
\<close>

inductive inventory_step :: "inventory \<Rightarrow> inventory \<Rightarrow> bool" where
  created: "create_transfer ctx a b reference ls d = Inr (i, d') \<Longrightarrow> inventory_step d d'"
| commanded: "transfer_command s ctx now i action v key receipts d = Inr (b, d') \<Longrightarrow> inventory_step d d'"
| stocked: "create_layer d wh item t i since q c cur lot orig src = Inr (l, d') \<Longrightarrow> 0 \<le> c
    \<Longrightarrow> t \<in> {''GOODS_RECEIPT'', ''PREPARATION_OUTPUT''} \<Longrightarrow> inventory_step d d'"
| recorded: "insert_movement m d = Inr d' \<Longrightarrow> inventory_step d d'"
| consumed: "sm_id m = next_id sm_id (iv_movements d) \<Longrightarrow> insert_movement m d = Inr d1
    \<Longrightarrow> allocate_fifo d1 m (PyDecimal q) strict = Inr d' \<Longrightarrow> inventory_step d d'"

definition inventory_init :: "inventory \<Rightarrow> bool" where
  "inventory_init d \<longleftrightarrow> iv_layers d = [] \<and> iv_allocations d = [] \<and> iv_movements d = [] \<and> iv_transfers d = []
     \<and> iv_lines d = [] \<and> iv_receipts d = []"

lemma init_inv: "inventory_init d \<Longrightarrow> transfers_inv d"
  by (simp add: inventory_init_def transfers_inv_def core_parts status_inv_def fifo_inv_def allocs_of_def)

lemma status_frame:
  "status_inv d \<Longrightarrow> iv_transfers d' = iv_transfers d \<Longrightarrow> iv_lines d' = iv_lines d \<Longrightarrow> status_inv d'"
  by (simp add: status_inv_def)

lemma stocked_keeps:
  assumes inv: "core_inv d" and run: "create_layer d wh item t i since q c cur lot orig src = Inr (l, d')"
    and t: "t \<in> {''GOODS_RECEIPT'', ''PREPARATION_OUTPUT''}" "0 \<le> c"
  shows "core_inv d'"
proof -
  note l = create_layer_success(1)[OF run]
  have "fifo_inv d'" using inv t by (intro new_layer_keeps[OF _ run]) (auto simp: core_parts)
  moreover have "line_inv d' k" if "line_inv d k" for k
    by (rule line_inv_cong[OF _ _ _ that]) (simp_all add: receipts_of_def allocs_of_def l)
  moreover have "receipt_backed d' r" if "receipt_backed d r" for r
    using that by (rule receipt_backed_mono) (auto simp: l)
  moreover have "allocs_of d' i = allocs_of d i" for i by (simp add: allocs_of_def l)
  ultimately show ?thesis using inv by (auto simp: core_parts list_all_iff l)
qed

lemma step_keeps: "inventory_step d d' \<Longrightarrow> transfers_inv d \<Longrightarrow> transfers_inv d'"
proof (induction rule: inventory_step.induct)
  case (created ctx a b reference ls d i d')
  then show ?case using create_transfer_keeps by blast
next
  case (commanded s ctx now i action v key receipts d b d')
  then show ?case using transfer_command_keeps by blast
next
  case (stocked d wh item t i since q c cur lot orig src l d')
  note l = create_layer_success(1)[OF stocked(1)]
  have "core_inv d'" using stocked by (intro stocked_keeps[OF _ stocked(1)]) (auto simp: transfers_inv_def)
  moreover have "status_inv d'"
    by (rule status_frame[of d]) (use stocked(4) in \<open>simp_all add: transfers_inv_def l\<close>)
  ultimately show ?case by (simp add: transfers_inv_def)
next
  case (recorded m d d')
  then have core: "core_inv d" by (simp add: transfers_inv_def)
  note ins = insert_keeps[OF core recorded(1)]
  have "status_inv d'" by (rule status_frame[of d]) (use recorded in \<open>simp_all add: transfers_inv_def ins(2)\<close>)
  with ins(1) show ?case by (simp add: transfers_inv_def)
next
  case (consumed m d d1 q strict d')
  then have core: "core_inv d" by (simp add: transfers_inv_def)
  note ins = insert_keeps[OF core consumed(2)]
  have "allocs_of d1 (sm_id m) = []" using fresh_movement[OF core] by (simp add: consumed(1) ins(2) allocs_of_def)
  moreover have "sm_id m \<in> sm_id ` set (iv_movements d1)" by (simp add: ins(2))
  ultimately have eff: "core_inv d'" "iv_lines d' = iv_lines d1" "iv_transfers d' = iv_transfers d1"
    using allocation_effect(1-3)[OF ins(1) consumed(3)] by blast+
  have "status_inv d'" by (rule status_frame[of d]) (use consumed eff in \<open>simp_all add: transfers_inv_def ins(2)\<close>)
  with eff(1) show ?case by (simp add: transfers_inv_def)
qed

interpretation inventory: step_invariant inventory_init inventory_step transfers_inv
  by unfold_locales (simp_all add: init_inv step_keeps)

end
