(* ===== verification/TransferOutcomes.thy ===== *)
theory TransferOutcomes
  imports TransferSteps
begin

text \<open>What the invariant of transfers means to the warehouse: conservation, the life of a transfer, receipts.\<close>

section \<open>Sums grouped by a key\<close>

lemma sum_by_zero: "(\<And>r. r \<in> set rs \<Longrightarrow> f r = 0) \<Longrightarrow> sum_by f rs = 0"
  by (induction rs) auto

lemma sum_by_grouped:
  assumes "distinct (map k as)" "\<And>r. r \<in> set rs \<Longrightarrow> k' r \<in> k ` set as"
  shows "sum_by f rs = sum_by (\<lambda>a. sum_by f (filter (\<lambda>r. k' r = k a) rs)) as"
  using assms
proof (induction as arbitrary: rs)
  case Nil
  then show ?case by (cases rs) auto
next
  case (Cons a as)
  let ?rest = "filter (\<lambda>r. k' r \<noteq> k a) rs"
  have "sum_by f rs = sum_by f (filter (\<lambda>r. k' r = k a) rs) + sum_by f ?rest"
    by (induction rs) simp_all
  moreover have "sum_by f ?rest = sum_by (\<lambda>b. sum_by f (filter (\<lambda>r. k' r = k b) ?rest)) as"
    using Cons.prems by (intro Cons.IH) auto
  moreover have "filter (\<lambda>r. k' r = k b) ?rest = filter (\<lambda>r. k' r = k b) rs" if "b \<in> set as" for b
  proof -
    have "k b \<noteq> k a" using Cons.prems(1) that by (metis distinct.simps(2) imageI list.map(2) list.set_map)
    then show ?thesis by (auto intro!: filter_cong)
  qed
  then have "sum_by (\<lambda>b. sum_by f (filter (\<lambda>r. k' r = k b) ?rest)) as
      = sum_by (\<lambda>b. sum_by f (filter (\<lambda>r. k' r = k b) rs)) as"
    by (intro sum_by_cong) simp
  ultimately show ?case by simp
qed

lemma sum_by_equal_parts:
  assumes "sum_by f as = sum_by g as" "\<And>a. a \<in> set as \<Longrightarrow> f a \<le> g a" "a \<in> set as"
  shows "f a = (g a :: rat)"
  using assms
proof (induction as)
  case (Cons b as)
  have "sum_by f as \<le> sum_by g as" using Cons.prems(2) by (intro sum_by_mono) simp
  moreover have "f b \<le> g b" using Cons.prems(2) by simp
  ultimately have "f b = g b" "sum_by f as = sum_by g as" using Cons.prems(1) by simp_all
  with Cons show ?case by auto
qed simp

section \<open>A received transfer\<close>

lemma line_of_status:
  assumes inv: "transfers_inv d" and x: "x \<in> set (iv_transfers d)" and l: "l \<in> set (iv_lines d)" "tl_transfer_id l = it_id x"
  shows "line_inv d l" "tl_source_movement_id l \<noteq> None \<longleftrightarrow> shipped_status (it_status x)"
    "it_status x = TRANSFER_RECEIVED \<Longrightarrow> tl_received_quantity l = tl_sent_quantity l"
proof -
  have core: "core_inv d" using inv by (simp add: transfers_inv_def)
  show "line_inv d l" using core_lines[OF core l(1)] .
  from inv l obtain z where z: "z \<in> set (iv_transfers d)" "it_id z = it_id x"
    "tl_source_movement_id l \<noteq> None \<longleftrightarrow> shipped_status (it_status z)"
    "it_status z = TRANSFER_RECEIVED \<longrightarrow> tl_received_quantity l = tl_sent_quantity l"
    unfolding transfers_inv_def status_inv_def by metis
  have "z = x" using same_transfer[OF core z(1) x z(2)] .
  with z show "tl_source_movement_id l \<noteq> None \<longleftrightarrow> shipped_status (it_status x)"
    "it_status x = TRANSFER_RECEIVED \<Longrightarrow> tl_received_quantity l = tl_sent_quantity l" by simp_all
qed

lemma received_by_layer:
  assumes core: "core_inv d" and line: "line_inv d l" and m: "tl_source_movement_id l = Some m"
  shows "tl_received_quantity l = sum_by (\<lambda>a. already_received d (tl_id l) (ca_cost_layer_id a)) (allocs_of d m)"
proof -
  have "distinct (map ca_cost_layer_id (allocs_of d m))" using core by (simp add: core_parts)
  moreover have "rc_source_layer_id r \<in> ca_cost_layer_id ` set (allocs_of d m)" if "r \<in> set (receipts_of d (tl_id l))" for r
  proof -
    from line m that obtain a where "a \<in> set (allocs_of d m)" "rc_source_layer_id r = ca_cost_layer_id a"
      by (auto simp: line_inv_def)
    then show ?thesis by simp
  qed
  ultimately have "sum_by rc_quantity (receipts_of d (tl_id l))
      = sum_by (\<lambda>a. sum_by rc_quantity (filter (\<lambda>r. rc_source_layer_id r = ca_cost_layer_id a) (receipts_of d (tl_id l)))) (allocs_of d m)"
    by (rule sum_by_grouped)
  with line show ?thesis by (simp add: line_inv_def already_by_layer)
qed

lemma received_in_full:
  assumes core: "core_inv d" and line: "line_inv d l" and m: "tl_source_movement_id l = Some m"
    and full: "tl_received_quantity l = tl_sent_quantity l" and a: "a \<in> set (allocs_of d m)"
  shows "already_received d (tl_id l) (ca_cost_layer_id a) = ca_quantity a"
proof (rule sum_by_equal_parts[OF _ _ a])
  show "sum_by (\<lambda>a. already_received d (tl_id l) (ca_cost_layer_id a)) (allocs_of d m) = sum_by ca_quantity (allocs_of d m)"
    using received_by_layer[OF core line m] full line m by (simp add: line_inv_def)
  show "already_received d (tl_id l) (ca_cost_layer_id b) \<le> ca_quantity b" if "b \<in> set (allocs_of d m)" for b
    using line m that by (simp add: line_inv_def)
qed

text \<open>The value of the receipts: each at the cost of the layer it came from.\<close>

lemma received_value:
  assumes core: "core_inv d" and line: "line_inv d l" and m: "tl_source_movement_id l = Some m"
    and full: "tl_received_quantity l = tl_sent_quantity l"
  shows "sum_by (\<lambda>r. rc_quantity r * rc_unit_cost r) (receipts_of d (tl_id l))
    = sum_by (\<lambda>a. ca_quantity a * ca_unit_cost a) (allocs_of d m)"
proof -
  let ?rs = "receipts_of d (tl_id l)" and ?as = "allocs_of d m"
  have dist: "distinct (map ca_cost_layer_id ?as)" using core by (simp add: core_parts)
  have from_layer: "\<exists>a \<in> set ?as. rc_source_layer_id r = ca_cost_layer_id a \<and> rc_unit_cost r = ca_unit_cost a" if "r \<in> set ?rs" for r
    using line m that by (simp add: line_inv_def)
  have cost: "rc_unit_cost r = ca_unit_cost a" if "r \<in> set ?rs" "a \<in> set ?as" "rc_source_layer_id r = ca_cost_layer_id a" for r a
    using from_layer[OF that(1)] that(2,3) dist by (auto simp: distinct_map dest: inj_onD)
  have "sum_by (\<lambda>r. rc_quantity r * rc_unit_cost r) ?rs
      = sum_by (\<lambda>a. sum_by (\<lambda>r. rc_quantity r * rc_unit_cost r) (filter (\<lambda>r. rc_source_layer_id r = ca_cost_layer_id a) ?rs)) ?as"
    by (rule sum_by_grouped[OF dist]) (use from_layer in blast)
  also have "\<dots> = sum_by (\<lambda>a. already_received d (tl_id l) (ca_cost_layer_id a) * ca_unit_cost a) ?as"
  proof (rule sum_by_cong)
    fix a assume a: "a \<in> set ?as"
    have "sum_by (\<lambda>r. rc_quantity r * rc_unit_cost r) qs = sum_by rc_quantity qs * c"
      if "\<And>r. r \<in> set qs \<Longrightarrow> rc_unit_cost r = c" for qs c
      using that by (induction qs) (auto simp: distrib_right)
    from this[of "filter (\<lambda>r. rc_source_layer_id r = ca_cost_layer_id a) ?rs" "ca_unit_cost a"]
    show "sum_by (\<lambda>r. rc_quantity r * rc_unit_cost r) (filter (\<lambda>r. rc_source_layer_id r = ca_cost_layer_id a) ?rs)
        = already_received d (tl_id l) (ca_cost_layer_id a) * ca_unit_cost a"
      using cost[OF _ a] by (simp add: already_by_layer)
  qed
  also have "\<dots> = sum_by (\<lambda>a. ca_quantity a * ca_unit_cost a) ?as"
    by (rule sum_by_cong) (use received_in_full[OF core line m full] in simp)
  finally show ?thesis .
qed


text \<open>
  C34: Whatever is done to an inventory, each cost layer accounts for its stock: what it has left and what
  the allocations took of it add up to what came in, it never goes below zero, and it is depleted exactly
  when nothing is left.
\<close>

theorem layers_account_for_stock:
  assumes "inventory_init d0" "inventory_step\<^sup>*\<^sup>* d0 d" "l \<in> set (iv_layers d)"
  shows "cl_original_quantity l = cl_remaining_quantity l
      + sum_by ca_quantity (filter (\<lambda>a. ca_cost_layer_id a = cl_id l) (iv_allocations d))
    \<and> 0 \<le> cl_remaining_quantity l \<and> cl_remaining_quantity l \<le> cl_original_quantity l
    \<and> (cl_status l = LAYER_DEPLETED \<longleftrightarrow> cl_remaining_quantity l = 0)"
proof -
  have "fifo_inv d" using inventory.inv_reachable[OF assms(1,2)] by (simp add: transfers_inv_def core_parts)
  with assms(3) show ?thesis
    by (auto simp: fifo_inv_def drawn_def list_all_iff layer_good_def cost_layer_ok_def)
qed

section \<open>The life of a transfer\<close>

definition transfer_moves :: "(string \<times> transfer_status \<times> transfer_status) set" where
  "transfer_moves =
     {(''submit'', TRANSFER_DRAFT, TRANSFER_SUBMITTED),
      (''cancel'', TRANSFER_DRAFT, TRANSFER_CANCELLED), (''cancel'', TRANSFER_SUBMITTED, TRANSFER_CANCELLED),
      (''ship'', TRANSFER_SUBMITTED, TRANSFER_IN_TRANSIT),
      (''receive'', TRANSFER_IN_TRANSIT, TRANSFER_IN_TRANSIT), (''receive'', TRANSFER_IN_TRANSIT, TRANSFER_RECEIVED)}"

lemma action_moves:
  "run_action s x action now actor key receipts d = Inr (y, e) \<Longrightarrow>
     (action, it_status x, it_status y) \<in> transfer_moves \<and> it_tenant_id y = it_tenant_id x"
  unfolding run_action_def Let_def transfer_moves_def
  by (auto simp: bind_result_Inr_iff split: if_split_asm option.split_asm)

lemma find_after_modify:
  assumes "find_transfer d t i = Inr x" "it_id y = i" "it_tenant_id y = t"
  shows "find_transfer (e\<lparr>iv_transfers := modify it_id i (\<lambda>_. y) (iv_transfers d)\<rparr>) t i = Inr y"
proof -
  have "x \<in> set rows \<Longrightarrow> List.find (\<lambda>x. it_id x = i \<and> it_tenant_id x = t) (modify it_id i (\<lambda>_. y) rows) = Some y" for rows
    using find_transfer_success[OF assms(1)] assms(2,3) by (induction rows) (auto simp: modify_def)
  with find_transfer_success[OF assms(1)] show ?thesis by (simp add: find_transfer_def)
qed

lemma command_new:
  assumes "transfers_inv d" "transfer_command s ctx now i action v key receipts d = Inr (False, d')"
  obtains x y where "find_transfer d (tenant_id ctx) i = Inr x" "find_transfer d' (tenant_id ctx) i = Inr y"
    "it_version x = v" "it_version y = v + 1" "(action, it_status x, it_status y) \<in> transfer_moves"
    "it_last_command_action y = Some action" "it_last_command_key y = Some key"
proof -
  from assms(2) obtain actor x where "employee ctx = Inr actor" and find: "find_transfer d (tenant_id ctx) i = Inr x"
    by (auto simp: transfer_command_def bind_result_Inr_iff)
  note run = assms(2)[unfolded transfer_command_def this bind_result.simps]
  from run have v: "it_version x = v" by (auto split: if_splits)
  from run obtain y e where act: "run_action s x action now actor key receipts d = Inr (y, e)"
    and d': "d' = e\<lparr>iv_transfers := modify it_id (it_id x) (\<lambda>_. y\<lparr>it_version := it_version x + 1,
      it_last_command_action := Some action, it_last_command_key := Some key\<rparr>) (iv_transfers e)\<rparr>"
    by (auto simp: bind_result_Inr_iff split: if_splits)
  note x = find_transfer_success[OF find]
  then have "x \<in> set (iv_transfers d)" by simp
  note eff = action_effect[OF assms(1) this act]
  let ?y = "y\<lparr>it_version := it_version x + 1, it_last_command_action := Some action, it_last_command_key := Some key\<rparr>"
  have "find_transfer d' (tenant_id ctx) i = Inr ?y"
    using find_after_modify[OF find, of ?y e] eff x action_moves[OF act] by (simp add: d')
  with that[OF find this v] action_moves[OF act] v show thesis by simp
qed

text \<open>
  C35: A command that is carried out finds the transfer at the version the client expects, moves it along an
  edge of its life (draft, submitted, in transit, received; cancelled before it is shipped) and raises its
  version by one; sent again at once, with any version, it changes nothing.
\<close>

theorem transfer_life:
  assumes "inventory_init d0" "inventory_step\<^sup>*\<^sup>* d0 d"
    and "transfer_command s ctx now i action v key receipts d = Inr (False, d')"
  shows "(\<exists>x y. find_transfer d (tenant_id ctx) i = Inr x \<and> find_transfer d' (tenant_id ctx) i = Inr y
      \<and> it_version x = v \<and> it_version y = v + 1 \<and> (action, it_status x, it_status y) \<in> transfer_moves)
    \<and> transfer_command s' ctx now' i action v' key receipts' d' = Inr (True, d')"
proof -
  from command_new[OF inventory.inv_reachable[OF assms(1,2)] assms(3)] obtain x y where
    xy: "find_transfer d (tenant_id ctx) i = Inr x" "find_transfer d' (tenant_id ctx) i = Inr y"
    "it_version x = v" "it_version y = v + 1" "(action, it_status x, it_status y) \<in> transfer_moves"
    and last: "it_last_command_action y = Some action" "it_last_command_key y = Some key" .
  from assms(3) obtain actor where "employee ctx = Inr actor" by (auto simp: transfer_command_def bind_result_Inr_iff)
  with xy(2) last have "transfer_command s' ctx now' i action v' key receipts' d' = Inr (True, d')"
    by (simp add: transfer_command_def)
  with xy show ?thesis by blast
qed

section \<open>A receipt can always be made out\<close>

lemma receive_allocations_derivable:
  assumes "micro remaining" "0 \<le> remaining"
    and "remaining \<le> sum_by (\<lambda>a. ca_quantity a - already_received d0 (tl_id line) (ca_cost_layer_id a)) as"
    and "\<And>a. a \<in> set as \<Longrightarrow> micro (ca_quantity a - already_received d0 (tl_id line) (ca_cost_layer_id a))
      \<and> already_received d0 (tl_id line) (ca_cost_layer_id a) \<le> ca_quantity a"
  shows "receive_allocations d0 x line wh item m now sequence remaining worth currency as d \<noteq> Inl FifoNonDerivable"
  using assms
proof (induction as arbitrary: remaining worth currency d)
  case (Cons a as)
  define available where "available = ca_quantity a - already_received d0 (tl_id line) (ca_cost_layer_id a)"
  define taken where "taken = min remaining available"
  have av: "micro available" "0 \<le> available" using Cons.prems(4)[of a] by (simp_all add: available_def)
  have taken: "quantity_unit taken = taken" using av(1) Cons.prems(1) by (simp add: taken_def)
  have next_ok: "receive_allocations d0 x line wh item m now sequence (remaining - taken) w c as e \<noteq> Inl FifoNonDerivable" for w c e
  proof (rule Cons.IH)
    show "micro (remaining - taken)" "0 \<le> remaining - taken" using av(1) Cons.prems(1) by (simp_all add: taken_def)
    have "0 \<le> sum_by (\<lambda>a. ca_quantity a - already_received d0 (tl_id line) (ca_cost_layer_id a)) as"
      using Cons.prems(4) by (intro sum_by_nonneg) simp
    then show "remaining - taken \<le> sum_by (\<lambda>a. ca_quantity a - already_received d0 (tl_id line) (ca_cost_layer_id a)) as"
      using Cons.prems(3) by (simp add: taken_def available_def[symmetric] min_def)
  qed (use Cons.prems(4) in simp)
  show ?case
  proof (cases "taken \<le> 0")
    case True
    then have "taken = 0" using av(2) Cons.prems(2) by (simp add: taken_def min_def split: if_splits)
    with next_ok show ?thesis by (simp add: Let_def available_def[symmetric] taken_def[symmetric] taken)
  next
    case False
    have "create_layer e wh it t j n q u cur lot orig src \<noteq> Inl FifoNonDerivable" for e it t j n q u cur lot orig src
      by (auto simp: create_layer_def exact_positive_def value_unit_def Let_def bind_result_Inl_iff split: sum.splits option.splits)
    moreover have "extended_cost q u \<noteq> Inl FifoNonDerivable" for q u
      by (simp add: extended_cost_def value_unit_def split: option.splits)
    ultimately show ?thesis using next_ok False
      by (auto simp: Let_def available_def[symmetric] taken_def[symmetric] taken bind_result_Inl_iff split: option.splits)
  qed
qed simp

lemma receive_line_derivable:
  assumes inv: "core_inv d" and l: "l \<in> set (iv_lines d)" "tl_source_movement_id l = Some m0"
    and q: "\<And>q. requested (tl_id l) = Some q \<Longrightarrow> 0 < q \<and> micro q"
  shows "receive_line s x wh now actor key requested l d \<noteq> Inl FifoNonDerivable"
proof
  assume err: "receive_line s x wh now actor key requested l d = Inl FifoNonDerivable"
  then obtain q item where r: "requested (tl_id l) = Some q" and guard: "tl_received_quantity l + q \<le> tl_sent_quantity l"
    and item: "find_row ii_id (tl_inventory_item_id l) (iv_items d) = Some item"
    by (auto simp: receive_line_def split: option.splits if_splits)
  let ?i = "next_id sm_id (iv_movements d)"
  define m where "m = transfer_movement x l wh item TRANSFER_IN q now actor (line_key key l)
    (quantity_unit (stock_of s (it_tenant_id x) (wh_id wh) (tl_inventory_item_id l) + q)) ?i"
  have m: "sm_id m = ?i" by (simp add: m_def transfer_movement_def)
  have "value_unit w \<noteq> Inl FifoNonDerivable" for w by (simp add: value_unit_def split: option.splits)
  moreover have "insert_movement m d \<noteq> Inl FifoNonDerivable" by (simp add: insert_movement_def)
  ultimately obtain d1 where ins: "insert_movement m d = Inr d1"
    and loop: "receive_allocations d1 x l wh item ?i now (next_sequence d1 (tl_id l)) q 0 None
      (order_by ca_allocation_order (filter (\<lambda>a. Some (ca_stock_movement_id a) = tl_source_movement_id l) (iv_allocations d1))) d1
      = Inl FifoNonDerivable"
    using err guard by (auto simp: receive_line_def r item Let_def m_def[symmetric] m bind_result_Inl_iff)
  note d1 = insert_keeps[OF inv ins]
  let ?as = "order_by ca_allocation_order (filter (\<lambda>a. Some (ca_stock_movement_id a) = tl_source_movement_id l) (iv_allocations d1))"
  have as: "filter (\<lambda>a. Some (ca_stock_movement_id a) = tl_source_movement_id l) (iv_allocations d1) = allocs_of d1 m0"
    by (simp add: l(2) allocs_of_def)
  have line: "line_inv d1 l" using core_lines[OF d1(1)] l(1) by (simp add: d1(2))
  have "sum_by (\<lambda>a. ca_quantity a - already_received d1 (tl_id l) (ca_cost_layer_id a)) (allocs_of d1 m0)
      = tl_sent_quantity l - tl_received_quantity l"
  proof -
    have "sum_by (\<lambda>a. ca_quantity a - f a) rs = sum_by ca_quantity rs - sum_by f rs" for f rs
      by (induction rs) simp_all
    note diff = this[of "\<lambda>a. already_received d1 (tl_id l) (ca_cost_layer_id a)" "allocs_of d1 m0"]
    show ?thesis unfolding diff received_by_layer[OF d1(1) line l(2), symmetric]
      using line l(2) by (simp add: line_inv_def)
  qed
  with guard have enough: "q \<le> sum_by (\<lambda>a. ca_quantity a - already_received d1 (tl_id l) (ca_cost_layer_id a)) ?as"
    by (simp add: as)
  have each: "micro (ca_quantity a - already_received d1 (tl_id l) (ca_cost_layer_id a))
      \<and> already_received d1 (tl_id l) (ca_cost_layer_id a) \<le> ca_quantity a" if "a \<in> set ?as" for a
  proof -
    from that have a: "a \<in> set (allocs_of d1 m0)" by (simp add: as)
    then have "micro (ca_quantity a)" using d1(1) by (auto simp: core_parts fifo_inv_def allocs_of_def)
    with a line l(2) micro_receipts(2)[OF d1(1)] show ?thesis by (simp add: line_inv_def)
  qed
  have "0 \<le> q" "micro q" using q[OF r] by simp_all
  from receive_allocations_derivable[OF this(2,1) enough each] loop show False by blast
qed

lemma each_line_error:
  "each_line f xs d = Inl e \<Longrightarrow> \<exists>ys x zs d1. xs = ys @ x # zs \<and> each_line f ys d = Inr d1 \<and> f x d1 = Inl e"
proof (induction xs arbitrary: d)
  case (Cons x xs)
  show ?case
  proof (cases "f x d")
    case (Inl e')
    with Cons.prems show ?thesis by (intro exI[of _ "[]"]) auto
  next
    case (Inr d1)
    with Cons.prems have "each_line f xs d1 = Inl e" by simp
    from Cons.IH[OF this] obtain ys y zs d2 where "xs = ys @ y # zs" "each_line f ys d1 = Inr d2" "f y d2 = Inl e" by blast
    with Inr show ?thesis by (intro exI[of _ "x # ys"]) auto
  qed
qed simp

lemma receive_lines_derivable:
  assumes inv: "core_inv d" and some: "\<And>l. l \<in> set (iv_lines d) \<Longrightarrow> tl_transfer_id l = i \<Longrightarrow> tl_source_movement_id l \<noteq> None"
    and q: "\<And>j q. requested j = Some q \<Longrightarrow> 0 < q \<and> micro q"
  shows "each_line (receive_line s x wh now actor key requested) (transfer_lines d i) d \<noteq> Inl FifoNonDerivable"
proof
  let ?f = "receive_line s x wh now actor key requested"
  assume "each_line ?f (transfer_lines d i) d = Inl FifoNonDerivable"
  from each_line_error[OF this] obtain ys l zs d1 where ls: "transfer_lines d i = ys @ l # zs"
    and run: "each_line ?f ys d = Inr d1" and err: "?f l d1 = Inl FifoNonDerivable" by blast
  have dist: "distinct (map tl_id (ys @ l # zs))" using transfer_lines_rows(2)[OF inv, of i] unfolding ls .
  have sub: "set (ys @ l # zs) \<subseteq> {l \<in> set (iv_lines d). tl_transfer_id l = i}"
    unfolding ls[symmetric] by (simp add: transfer_lines_rows(1)[OF inv])
  have keep: "core_inv d1 \<and> same_frame d d1 \<and> lines_evolve (tl_id ` set ys) (\<lambda>_ _. True) d d1"
  proof (rule each_line_evolves[OF run inv])
    show "distinct (map tl_id ys)" "set ys \<subseteq> set (iv_lines d)" using dist sub by auto
  next
    fix k e e'
    assume a: "?f k e = Inr e'" "core_inv e" "k \<in> set (iv_lines e)" "k \<in> set ys"
    with sub some obtain m where m: "tl_source_movement_id k = Some m" by fastforce
    show "core_inv e' \<and> same_frame e e' \<and> (\<exists>h. iv_lines e' = modify tl_id (tl_id k) h (iv_lines e)
      \<and> (\<forall>k. tl_id (h k) = tl_id k \<and> tl_transfer_id (h k) = tl_transfer_id k \<and> tl_sent_quantity (h k) = tl_sent_quantity k)
      \<and> True)"
    proof (cases "requested (tl_id k)")
      case None
      with a(1) have "e' = e" by (simp add: receive_line_def)
      with a(2) show ?thesis by (intro conjI exI[of _ "\<lambda>k. k"]) (simp_all add: same_frame_def modify_def)
    next
      case (Some r)
      with q have "0 < r" "micro r" by blast+
      note eff = receive_line_effect[OF a(2,3) m Some this a(1)]
      then show ?thesis
        by (intro conjI exI[of _ "\<lambda>j. j\<lparr>tl_received_quantity := tl_received_quantity k + r\<rparr>"]) simp_all
    qed
  qed
  then obtain g where g: "iv_lines d1 = map g (iv_lines d)"
    "\<forall>k \<in> set (iv_lines d). if tl_id k \<in> tl_id ` set ys then True else g k = k"
    unfolding lines_evolve_def by blast
  have l: "l \<in> set (iv_lines d)" "tl_transfer_id l = i" using sub by simp_all
  have "tl_id l \<notin> tl_id ` set ys" using dist by auto
  with g l(1) have "g l = l" by metis
  with g(1) l(1) have mem: "l \<in> set (iv_lines d1)" by (metis imageI list.set_map)
  from some[OF l] obtain m where m: "tl_source_movement_id l = Some m" by auto
  from receive_line_derivable[OF _ mem m, of requested] keep q err show False by blast
qed


end
