(* ===== verification/TransferWitnesses.thy ===== *)
theory TransferWitnesses
  imports TransferOutcomes
begin

text \<open>A kitchen takes ten kilograms of rice in, then five more, and sends twelve to the bar.\<close>

definition stores :: inventory where
  "stores = \<lparr>iv_warehouses =
       [\<lparr>wh_id = 1, wh_tenant_id = 1, wh_organization_id = 1, wh_location_id = 4, wh_status = ''ACTIVE'',
         wh_negative_stock_policy = ''WARN''\<rparr>,
        \<lparr>wh_id = 2, wh_tenant_id = 1, wh_organization_id = 1, wh_location_id = 4, wh_status = ''ACTIVE'',
         wh_negative_stock_policy = ''WARN''\<rparr>],
     iv_items = [\<lparr>ii_id = 3, ii_tenant_id = 1, ii_organization_id = 1, ii_location_id = 4, ii_base_uom = ''KG''\<rparr>],
     iv_layers = [], iv_allocations = [], iv_movements = [], iv_transfers = [], iv_lines = [], iv_receipts = []\<rparr>"

definition storekeeper :: execution_context where
  "storekeeper = \<lparr>actor_type = EMPLOYEE, tenant_id = 1, principal_id = Some 7,
     principal_reference = None, correlation_id = None, causation_id = None\<rparr>"

definition goods_in :: "datetime \<Rightarrow> rat \<Rightarrow> rat \<Rightarrow> inventory \<Rightarrow> fifo_error + (cost_layer \<times> inventory)" where
  "goods_in t q c d = create_layer d (hd (iv_warehouses stores)) (hd (iv_items stores)) ''GOODS_RECEIPT'' 9 t q c ''MXN'' None None None"

definition rice_layer :: "int \<Rightarrow> int \<Rightarrow> string \<Rightarrow> int \<Rightarrow> int option \<Rightarrow> datetime \<Rightarrow> rat \<Rightarrow> rat \<Rightarrow> cost_layer" where
  "rice_layer i wh t origin src at' q c =
     \<lparr>cl_id = i, cl_tenant_id = 1, cl_organization_id = 1, cl_location_id = 4, cl_warehouse_id = wh,
      cl_inventory_item_id = 3, cl_inventory_lot_id = None, cl_source_inventory_lot_id = None,
      cl_origin_type = t, cl_origin_id = origin, cl_origin_layer_id = src, cl_origin_at = at',
      cl_original_quantity = q, cl_remaining_quantity = q, cl_unit_cost = c, cl_currency = ''MXN'',
      cl_status = LAYER_ACTIVE\<rparr>"

definition rice1 :: inventory where
  "rice1 = stores\<lparr>iv_layers := [rice_layer 1 1 ''GOODS_RECEIPT'' 9 None 10 10 2]\<rparr>"

definition rice2 :: inventory where
  "rice2 = stores\<lparr>iv_layers := [rice_layer 1 1 ''GOODS_RECEIPT'' 9 None 10 10 2,
     rice_layer 2 1 ''GOODS_RECEIPT'' 9 None 20 5 3]\<rparr>"

definition rice_transfer :: inventory_transfer where
  "rice_transfer = \<lparr>it_id = 1, it_tenant_id = 1, it_organization_id = 1, it_location_id = 4,
     it_source_warehouse_id = 1, it_destination_warehouse_id = 2, it_status = TRANSFER_DRAFT,
     it_reference = None, it_version = 1, it_created_by_actor_id = 7, it_submitted_at = None,
     it_shipped_at = None, it_received_at = None, it_cancelled_at = None, it_last_command_key = None,
     it_last_command_action = None\<rparr>"

definition rice_line :: "rat \<Rightarrow> int option \<Rightarrow> transfer_line" where
  "rice_line q m = \<lparr>tl_id = 1, tl_tenant_id = 1, tl_organization_id = 1, tl_location_id = 4,
     tl_transfer_id = 1, tl_inventory_item_id = 3, tl_line_number = 1, tl_sent_quantity = 12,
     tl_received_quantity = q, tl_source_movement_id = m\<rparr>"

definition drafted :: inventory where
  "drafted = rice2\<lparr>iv_transfers := [rice_transfer], iv_lines := [rice_line 0 None]\<rparr>"

definition submitted_transfer :: inventory_transfer where
  "submitted_transfer = rice_transfer\<lparr>it_status := TRANSFER_SUBMITTED, it_version := 2,
     it_submitted_at := Some 30, it_last_command_key := Some ''k1'', it_last_command_action := Some ''submit''\<rparr>"

definition submitted :: inventory where
  "submitted = drafted\<lparr>iv_transfers := [submitted_transfer]\<rparr>"

definition shipped_transfer :: inventory_transfer where
  "shipped_transfer = submitted_transfer\<lparr>it_status := TRANSFER_IN_TRANSIT, it_version := 3,
     it_shipped_at := Some 31, it_last_command_key := Some ''k2'', it_last_command_action := Some ''ship''\<rparr>"

definition rice_movement :: "int \<Rightarrow> int \<Rightarrow> movement_kind \<Rightarrow> rat \<Rightarrow> datetime \<Rightarrow> string \<Rightarrow> stock_movement" where
  "rice_movement i wh kind q at' key =
     \<lparr>sm_id = i, sm_tenant_id = 1, sm_organization_id = 1, sm_location_id = 4, sm_warehouse_id = wh,
      sm_inventory_item_id = 3, sm_movement_type = kind, sm_quantity = q, sm_reference = None,
      sm_recorded_at = at', sm_actor_id = Some 7,
      sm_idempotency_actor_scope = ''INVENTORY_TRANSFER:1:'' @ movement_kind_value kind,
      sm_idempotency_key = key, sm_negative_stock_policy = ''WARN'', sm_negative_stock_warning = (q < 0),
      sm_resulting_stock_quantity = q, sm_base_uom_evidence = Some ''KG'',
      sm_fifo_evidence_status = FIFO_RESOLVED, sm_fifo_extended_cost = Some 26,
      sm_fifo_currency = Some ''MXN''\<rparr>"

definition rice_allocation :: "int \<Rightarrow> rat \<Rightarrow> rat \<Rightarrow> cost_allocation" where
  "rice_allocation i q c = \<lparr>ca_id = i, ca_tenant_id = 1, ca_stock_movement_id = 1, ca_cost_layer_id = i,
     ca_quantity = q, ca_unit_cost = c, ca_extended_cost = q * c, ca_currency = ''MXN'', ca_allocation_order = i\<rparr>"

definition shipped :: inventory where
  "shipped = submitted\<lparr>iv_transfers := [shipped_transfer], iv_lines := [rice_line 0 (Some 1)],
     iv_movements := [rice_movement 1 1 TRANSFER_OUT (- 12) 31 ''k2:1''],
     iv_allocations := [rice_allocation 1 10 2, rice_allocation 2 2 3],
     iv_layers := [(rice_layer 1 1 ''GOODS_RECEIPT'' 9 None 10 10 2)\<lparr>cl_remaining_quantity := 0, cl_status := LAYER_DEPLETED\<rparr>,
       (rice_layer 2 1 ''GOODS_RECEIPT'' 9 None 20 5 3)\<lparr>cl_remaining_quantity := 3\<rparr>]\<rparr>"

definition received_transfer :: inventory_transfer where
  "received_transfer = shipped_transfer\<lparr>it_status := TRANSFER_RECEIVED, it_version := 4,
     it_received_at := Some 32, it_last_command_key := Some ''k3'', it_last_command_action := Some ''receive''\<rparr>"

definition rice_receipt :: "int \<Rightarrow> rat \<Rightarrow> rat \<Rightarrow> transfer_receipt" where
  "rice_receipt i q c = \<lparr>rc_id = i, rc_tenant_id = 1, rc_transfer_line_id = 1, rc_receipt_sequence = 1,
     rc_source_layer_id = i, rc_destination_layer_id = i + 2, rc_destination_movement_id = 2,
     rc_quantity = q, rc_unit_cost = c, rc_extended_cost = q * c, rc_currency = ''MXN''\<rparr>"

definition received :: inventory where
  "received = shipped\<lparr>iv_transfers := [received_transfer], iv_lines := [rice_line 12 (Some 1)],
     iv_movements := iv_movements shipped @ [rice_movement 2 2 TRANSFER_IN 12 32 ''k3:1''],
     iv_receipts := [rice_receipt 1 10 2, rice_receipt 2 2 3],
     iv_layers := iv_layers shipped @ [rice_layer 3 2 ''TRANSFER'' 2 (Some 1) 32 10 2,
       rice_layer 4 2 ''TRANSFER'' 2 (Some 2) 32 2 3]\<rparr>"

lemma rice_arrives:
  "goods_in 10 10 2 stores = Inr (rice_layer 1 1 ''GOODS_RECEIPT'' 9 None 10 10 2, rice1)"
  "goods_in 20 5 3 rice1 = Inr (rice_layer 2 1 ''GOODS_RECEIPT'' 9 None 20 5 3, rice2)"
  by code_simp+

lemma rice_leaves:
  "create_transfer storekeeper 1 2 None [(3, PyDecimal 12)] rice2 = Inr (1, drafted)"
  "transfer_command drafted storekeeper 30 1 ''submit'' 1 ''k1'' [] drafted = Inr (False, submitted)"
  by code_simp+

lemma rice_ships: "transfer_command submitted storekeeper 31 1 ''ship'' 2 ''k2'' [] submitted = Inr (False, shipped)"
  by code_simp

lemma rice_received:
  "transfer_command shipped storekeeper 32 1 ''receive'' 3 ''k3'' [(1, PyDecimal 12)] shipped = Inr (False, received)"
  by code_simp

lemma stores_init: "inventory_init stores"
  by (simp add: inventory_init_def stores_def)

lemma to_rice2: "inventory_step\<^sup>*\<^sup>* stores rice2"
proof -
  have "inventory_step stores rice1" by (rule stocked[OF rice_arrives(1)[unfolded goods_in_def]]) simp_all
  moreover have "inventory_step rice1 rice2" by (rule stocked[OF rice_arrives(2)[unfolded goods_in_def]]) simp_all
  ultimately show ?thesis by (simp add: converse_rtranclp_into_rtranclp)
qed

lemma to_submitted: "inventory_step\<^sup>*\<^sup>* stores submitted"
  using to_rice2 created[OF rice_leaves(1)] commanded[OF rice_leaves(2)] by (meson rtranclp.rtrancl_into_rtrancl)

lemma to_shipped: "inventory_step\<^sup>*\<^sup>* stores shipped"
  using to_submitted commanded[OF rice_ships] by (meson rtranclp.rtrancl_into_rtrancl)

lemma to_received: "inventory_step\<^sup>*\<^sup>* stores received"
  using to_shipped commanded[OF rice_received] by (meson rtranclp.rtrancl_into_rtrancl)

lemma rice_allocated: "allocate_fifo rice2 (rice_movement 1 1 TRANSFER_OUT (- 12) 31 ''k2:1'') (PyDecimal 12) True
    = Inr (rice2\<lparr>iv_layers := iv_layers shipped, iv_allocations := iv_allocations shipped\<rparr>)"
  "length (fifo_layers rice2 (rice_movement 1 1 TRANSFER_OUT (- 12) 31 ''k2:1'')) = 2"
  by code_simp+

theorem stock_leaves_oldest_first_witness:
  "(\<exists>l'. find_row cl_id 2 (iv_layers shipped) = Some l' \<and> cl_remaining_quantity l' = 3)"
proof -
  have "fifo_inv rice2" using inventory.inv_reachable[OF stores_init to_rice2] by (simp add: transfers_inv_def core_parts)
  moreover have "fifo_layers rice2 (rice_movement 1 1 TRANSFER_OUT (- 12) 31 ''k2:1'') = iv_layers rice2" by code_simp
  moreover have "sum_by cl_remaining_quantity (take 1 (iv_layers rice2)) = 10" "cl_id (iv_layers rice2 ! 1) = 2"
    "cl_remaining_quantity (iv_layers rice2 ! 1) = 5" by code_simp+
  ultimately show ?thesis using stock_leaves_oldest_first[OF _ rice_allocated(1), of 1] rice_allocated(2) by simp
qed


theorem layers_account_for_stock_witness:
  "10 = 0 + sum_by ca_quantity (filter (\<lambda>a. ca_cost_layer_id a = 1) (iv_allocations received))"
proof -
  let ?l = "(rice_layer 1 1 ''GOODS_RECEIPT'' 9 None 10 10 2)\<lparr>cl_remaining_quantity := 0, cl_status := LAYER_DEPLETED\<rparr>"
  have "?l \<in> set (iv_layers received)" by (simp add: received_def shipped_def)
  from layers_account_for_stock[OF stores_init to_received this] show ?thesis by (simp add: rice_layer_def)
qed

theorem transfer_life_witness:
  "transfer_command shipped storekeeper 40 1 ''ship'' 9 ''k2'' [] shipped = Inr (True, shipped)"
  using transfer_life[OF stores_init to_submitted rice_ships] by blast


end
