(* ===== verification/CatalogProofs.thy ===== *)
theory CatalogProofs
  imports Catalog
begin

text \<open>The walk to the root ends on every table, and the tree of categories stays a tree.\<close>

section \<open>The walk ends\<close>

lemma walk_ends:
  assumes "finite I" "\<And>i c. by_id i = Some c \<Longrightarrow> cg_id c \<in> I"
  shows "(case cursor of None \<Rightarrow> True | Some c \<Rightarrow> cg_id c \<in> I) \<Longrightarrow> \<exists>b. closes_cycle by_id visited cursor = Some b"
proof (induction "card (I - set visited)" arbitrary: visited cursor rule: less_induct)
  case less
  show ?case
  proof (cases cursor)
    case None
    then show ?thesis by (auto simp: closes_cycle.simps)
  next
    case (Some c)
    then have c: "cg_id c \<in> I" using less.prems by simp
    show ?thesis
    proof (cases "cg_id c \<in> set visited")
      case True
      with Some show ?thesis by (auto simp: closes_cycle.simps)
    next
      case False
      let ?next = "case cg_parent_id c of None \<Rightarrow> None | Some p \<Rightarrow> by_id p"
      have "I - set (cg_id c # visited) \<subset> I - set visited" using c False by auto
      then have "card (I - set (cg_id c # visited)) < card (I - set visited)"
        by (intro psubset_card_mono) (use assms(1) in simp_all)
      moreover have "case ?next of None \<Rightarrow> True | Some c' \<Rightarrow> cg_id c' \<in> I"
        using assms(2) by (auto split: option.splits)
      ultimately obtain b where "closes_cycle by_id (cg_id c # visited) ?next = Some b"
        using less.hyps by blast
      with Some False show ?thesis by (simp add: closes_cycle.simps)
    qed
  qed
qed

lemma walk_ends_on_rows:
  "\<exists>b. closes_cycle (\<lambda>i. find_row cg_id i rows) visited (find_row cg_id j rows) = Some b"
proof (rule walk_ends)
  show "finite (cg_id ` set rows)" by simp
  show "cg_id c \<in> cg_id ` set rows" if "find_row cg_id i rows = Some c" for i c
    using find_row_SomeD[OF that] by auto
  show "case find_row cg_id j rows of None \<Rightarrow> True | Some c \<Rightarrow> cg_id c \<in> cg_id ` set rows"
    by (auto split: option.splits dest: find_row_SomeD)
qed

lemma set_parent_ends: "set_category_parent held s tenant i parent d \<noteq> None"
proof -
  have "closes_cycle (\<lambda>i. find_row cg_id i rows) visited (Some p) \<noteq> None" if "find_row cg_id j rows = Some p" for rows visited p j
    using walk_ends_on_rows[of rows visited j] that by auto
  then show ?thesis by (auto simp: set_category_parent_def Let_def split: option.splits)
qed

lemma update_ends: "update_category ci held s tenant i ch d \<noteq> None"
  using set_parent_ends by (auto simp: update_category_def split: option.splits)

lemma apply_ends: "apply_category ci held s q p c d \<noteq> None"
  using update_ends by (auto simp: apply_category_def Let_def)

text \<open>
  C28: The operations on categories always return: the walk to the root stops on every table, also when
  the rows of the table form a cycle.
\<close>

theorem category_operations_return:
  "(\<exists>r. update_category ci held s tenant i ch d = Some r) \<and> (\<exists>r. provision_category ci s q d = Some r)"
proof
  show "\<exists>r. update_category ci held s tenant i ch d = Some r" using update_ends by blast
  show "\<exists>r. provision_category ci s q d = Some r"
    using apply_ends by (auto simp: provision_category_def Let_def split: sum.splits option.splits)
qed

section \<open>The tree\<close>

definition parents :: "catalog \<Rightarrow> (int \<times> int) set" where
  "parents d = {(cg_id c, p) |c p. c \<in> set (cat_categories d) \<and> cg_parent_id c = Some p}"

lemma parentsI: "c \<in> set (cat_categories d) \<Longrightarrow> cg_parent_id c = Some p \<Longrightarrow> (cg_id c, p) \<in> parents d"
  by (auto simp: parents_def)

text \<open>A tree: no category is above itself, and a parent is a category of the same organization.\<close>

definition tree_ok :: "catalog \<Rightarrow> bool" where
  "tree_ok d \<longleftrightarrow> distinct (map cg_id (cat_categories d)) \<and> acyclic (parents d)
     \<and> (\<forall>c \<in> set (cat_categories d). \<forall>p. cg_parent_id c = Some p \<longrightarrow>
          (\<exists>k \<in> set (cat_categories d). cg_id k = p \<and> cg_tenant_id k = cg_tenant_id c
             \<and> cg_organization_id k = cg_organization_id c))"

definition up :: "(int \<Rightarrow> category option) \<Rightarrow> (int \<times> int) set" where
  "up by_id = {(i, j). \<exists>c. by_id i = Some c \<and> cg_parent_id c = Some j \<and> by_id j \<noteq> None}"

lemma walk_avoids:
  assumes ids: "\<And>i c. by_id i = Some c \<Longrightarrow> cg_id c = i"
    and walk: "closes_cycle by_id visited (Some c) = Some False" and c: "by_id i = Some c" and path: "(i, j) \<in> (up by_id)\<^sup>*"
  shows "j \<notin> set visited"
  using path c walk
proof (induction arbitrary: c visited rule: converse_rtrancl_induct)
  case base
  then show ?case using ids[OF base(1)] by (simp add: closes_cycle.simps[of by_id _ "Some c"] split: if_splits)
next
  case (step i k)
  from step(1,4) obtain ck where k: "cg_parent_id c = Some k" "by_id k = Some ck" by (auto simp: up_def)
  from step(5) k have "closes_cycle by_id (cg_id c # visited) (Some ck) = Some False"
    by (simp add: closes_cycle.simps[of by_id _ "Some c"] split: if_splits)
  from step(3)[OF k(2) this] show ?case by simp
qed

lemma scope_rows:
  "c \<in> set (lock_category_scope held d t o') \<longleftrightarrow>
     (\<exists>r \<in> set (cat_categories d). cg_tenant_id r = t \<and> cg_organization_id r = o' \<and> c = as_held held r)"
  by (auto simp: lock_category_scope_def)

text \<open>A held object has the identifier of its row.\<close>

definition held_ok :: "(int \<Rightarrow> category option) \<Rightarrow> bool" where
  "held_ok held \<longleftrightarrow> (\<forall>i h. held i = Some h \<longrightarrow> cg_id h = i)"

lemma as_held_id [simp]: "held_ok held \<Longrightarrow> cg_id (as_held held r) = cg_id r"
  by (auto simp: as_held_def held_ok_def split: option.splits)

lemma scope_distinct:
  assumes "distinct (map cg_id (cat_categories d))" "held_ok held"
  shows "distinct (map cg_id (lock_category_scope held d t o'))"
  using assms by (simp add: lock_category_scope_def comp_def order_by_def distinct_map inj_on_def)

text \<open>The parent that is assigned is in the scope of the category and not below it.\<close>

lemma set_parent_sound:
  assumes tree: "tree_ok d" and run: "set_category_parent Map.empty s t i parent d = Some (Inr (loaded, new))"
  obtains r where "r \<in> set (cat_categories d)" "cg_id r = i" "cg_id loaded = i"
    "cg_parent_id new = parent" "new = loaded\<lparr>cg_parent_id := parent\<rparr>"
    "\<And>p. parent = Some p \<Longrightarrow> p \<noteq> i \<and> (\<exists>k \<in> set (cat_categories d). cg_id k = p
        \<and> cg_tenant_id k = cg_tenant_id r \<and> cg_organization_id k = cg_organization_id r)
      \<and> (p, i) \<notin> {(a, b) \<in> parents d. a \<noteq> i}\<^sup>*"
proof -
  from run obtain row where row: "List.find (\<lambda>c. cg_id c = i \<and> cg_tenant_id c = t) (cat_categories s) = Some row"
    by (auto simp: set_category_parent_def split: option.splits)
  have row_id: "cg_id row = i" using find_SomeD[OF row] by simp
  define held where "held = [i \<mapsto> row]"
  define scope where "scope = lock_category_scope held d t (cg_organization_id row)"
  define by_id where "by_id = (\<lambda>j. find_row cg_id j scope)"
  have empty: "as_held Map.empty row = row" by (simp add: as_held_def)
  note run = run[unfolded set_category_parent_def row option.case Let_def empty held_def[symmetric] scope_def[symmetric]]
  have dist: "distinct (map cg_id (cat_categories d))" using tree by (simp add: tree_ok_def)
  have ok: "held_ok held" using row_id by (simp add: held_ok_def held_def)
  have sdist: "distinct (map cg_id scope)" unfolding scope_def by (rule scope_distinct[OF dist ok])
  have by_id: "by_id j = Some c \<longleftrightarrow> c \<in> set scope \<and> cg_id c = j" for j c
    unfolding by_id_def by (rule find_row_Some_iff[OF sdist])
  have in_scope: "by_id j \<noteq> None \<longleftrightarrow> (\<exists>k \<in> set (cat_categories d). cg_id k = j \<and> cg_tenant_id k = t
      \<and> cg_organization_id k = cg_organization_id row)" for j
    using by_id[of j] by (auto simp: scope_def scope_rows as_held_id[OF ok])
  have plain: "by_id (cg_id k) = Some k" if "k \<in> set (cat_categories d)" "cg_id k \<noteq> i" "cg_tenant_id k = t"
      "cg_organization_id k = cg_organization_id row" for k
    using that by (auto simp: by_id scope_def scope_rows as_held_def held_def)
  from run obtain category where cat: "by_id i = Some category"
    by (cases "by_id i") (simp_all add: by_id_def)
  note run = run[unfolded cat[unfolded by_id_def] option.case]
  have category_id_is: "cg_id category = i" using cat by (simp add: by_id)
  obtain r where r: "r \<in> set (cat_categories d)" "cg_id r = i" "cg_tenant_id r = t"
    "cg_organization_id r = cg_organization_id row" using in_scope[of i] cat by auto
  have shape: "loaded = category" "new = category\<lparr>cg_parent_id := parent\<rparr>"
  proof -
    have "loaded = category \<and> new = category\<lparr>cg_parent_id := parent\<rparr>"
    proof (cases parent)
      case (Some p)
      with run have ne: "p \<noteq> i" by (auto simp: category_id_is)
      obtain c where c: "by_id p = Some c"
        using run Some ne by (cases "find_row cg_id p scope") (auto simp: category_id_is by_id_def)
      then have "cg_id c = p" by (simp add: by_id)
      with run Some ne c show ?thesis by (auto simp: category_id_is by_id_def split: if_splits)
    qed (use run in auto)
    then show "loaded = category" "new = category\<lparr>cg_parent_id := parent\<rparr>" by simp_all
  qed
  have "p \<noteq> i \<and> (\<exists>k \<in> set (cat_categories d). cg_id k = p \<and> cg_tenant_id k = t
      \<and> cg_organization_id k = cg_organization_id row) \<and> (p, i) \<notin> {(a, b) \<in> parents d. a \<noteq> i}\<^sup>*" if p: "parent = Some p" for p
  proof -
    have "p \<noteq> i" using run p by (auto simp: category_id_is)
    moreover obtain c where c: "by_id p = Some c"
      using run p calculation by (cases "find_row cg_id p scope") (auto simp: category_id_is by_id_def)
    ultimately have ne: "p \<noteq> i" "by_id p \<noteq> None" by simp_all
    have walk: "closes_cycle by_id [i] (Some c) = Some False"
      using run p ne(1) c by (auto simp: category_id_is by_id_def split: if_splits)
    have path: "(p, j) \<in> (up by_id)\<^sup>* \<and> by_id j \<noteq> None" if "(p, j) \<in> {(a, b) \<in> parents d. a \<noteq> i}\<^sup>*" for j
      using that
    proof (induction rule: rtrancl_induct)
      case (step j k)
      from step(2) obtain a where a: "a \<in> set (cat_categories d)" "cg_id a = j" "cg_parent_id a = Some k" "j \<noteq> i"
        by (auto simp: parents_def)
      from step(3) in_scope[of j] a(2) dist a(1) have sc: "cg_tenant_id a = t" "cg_organization_id a = cg_organization_id row"
        by (auto simp: distinct_map dest: inj_onD)
      from tree a(1,3) obtain b where b: "b \<in> set (cat_categories d)" "cg_id b = k" "cg_tenant_id b = t"
        "cg_organization_id b = cg_organization_id row" using sc unfolding tree_ok_def by metis
      then have "by_id k \<noteq> None" using in_scope[of k] by blast
      moreover have "by_id j = Some a" using plain[OF a(1) _ sc] a(2,4) by simp
      ultimately have "(j, k) \<in> up by_id" using a(3) by (simp add: up_def)
      with step(3) \<open>by_id k \<noteq> None\<close> show ?case by (meson rtrancl.rtrancl_into_rtrancl)
    qed (use ne in simp)
    have "j \<notin> set [i]" if "(p, j) \<in> (up by_id)\<^sup>*" for j
      by (rule walk_avoids[OF _ walk c that]) (simp add: by_id)
    with path[of i] have "(p, i) \<notin> {(a, b) \<in> parents d. a \<noteq> i}\<^sup>*" by auto
    with ne in_scope[of p] show ?thesis by simp
  qed
  with that[OF r(1,2)] shape category_id_is r(3,4) show thesis by simp
qed

text \<open>Writing a row: its parent stays, or becomes one that is not below it.\<close>

lemma tree_write:
  assumes tree: "tree_ok d" and r: "r \<in> set (cat_categories d)" "cg_id r = i"
    and f: "\<And>c. cg_id (f c) = cg_id c \<and> cg_tenant_id (f c) = cg_tenant_id c \<and> cg_organization_id (f c) = cg_organization_id c"
    and parent: "(\<forall>c. cg_parent_id (f c) = cg_parent_id c) \<or> (\<forall>c. cg_parent_id (f c) = parent) \<and> (\<forall>p. parent = Some p \<longrightarrow>
      p \<noteq> i \<and> (\<exists>k \<in> set (cat_categories d). cg_id k = p \<and> cg_tenant_id k = cg_tenant_id r
        \<and> cg_organization_id k = cg_organization_id r) \<and> (p, i) \<notin> {(a, b) \<in> parents d. a \<noteq> i}\<^sup>*)"
  shows "tree_ok (d\<lparr>cat_categories := modify cg_id i f (cat_categories d)\<rparr>)"
proof -
  let ?rows = "modify cg_id i f (cat_categories d)"
  let ?d = "d\<lparr>cat_categories := ?rows\<rparr>"
  let ?F = "{(a, b) \<in> parents d. a \<noteq> i}"
  have dist: "distinct (map cg_id (cat_categories d))" and acyc: "acyclic (parents d)" using tree by (simp_all add: tree_ok_def)
  have ids: "map cg_id ?rows = map cg_id (cat_categories d)" by (rule modify_ids) (use f in simp)
  have one: "c = r" if "c \<in> set (cat_categories d)" "cg_id c = i" for c
    using that r dist by (auto simp: distinct_map dest: inj_onD)
  have rows: "c \<in> set ?rows \<longleftrightarrow> (c \<in> set (cat_categories d) \<and> cg_id c \<noteq> i) \<or> c = f r" for c
    by (rule set_modify_distinct[OF dist r])
  have lift: "\<exists>k' \<in> set ?rows. cg_id k' = cg_id k \<and> cg_tenant_id k' = cg_tenant_id k \<and> cg_organization_id k' = cg_organization_id k"
    if "k \<in> set (cat_categories d)" for k
  proof (cases "cg_id k = i")
    case True
    with one[OF that] have "k = r" by simp
    with f[of r] show ?thesis by (intro bexI[of _ "f r"]) (simp_all add: rows)
  next
    case False
    with that show ?thesis by (intro bexI[of _ k]) (simp_all add: rows)
  qed
  have old: "\<exists>k \<in> set (cat_categories d). cg_id k = p \<and> cg_tenant_id k = cg_tenant_id c \<and> cg_organization_id k = cg_organization_id c"
    if "c \<in> set (cat_categories d)" "cg_parent_id c = Some p" for c p
    using tree that by (auto simp: tree_ok_def)
  have "acyclic (parents ?d) \<and> (\<forall>c \<in> set ?rows. \<forall>p. cg_parent_id c = Some p \<longrightarrow>
      (\<exists>k \<in> set (cat_categories d). cg_id k = p \<and> cg_tenant_id k = cg_tenant_id c \<and> cg_organization_id k = cg_organization_id c))"
  proof (cases "\<forall>c. cg_parent_id (f c) = cg_parent_id c")
    case True
    have "parents ?d = parents d"
    proof (intro set_eqI iffI; clarify)
      fix a b
      { assume "(a, b) \<in> parents ?d"
        then obtain c where c: "c \<in> set ?rows" "cg_id c = a" "cg_parent_id c = Some b" by (auto simp: parents_def)
        then show "(a, b) \<in> parents d" using r f[of r] True by (auto simp: rows parents_def) }
      assume "(a, b) \<in> parents d"
      then obtain c where c: "c \<in> set (cat_categories d)" "cg_id c = a" "cg_parent_id c = Some b" by (auto simp: parents_def)
      show "(a, b) \<in> parents ?d"
      proof (cases "cg_id c = i")
        case same: True
        with one[OF c(1)] have "c = r" by simp
        with c f[of r] True same have "f r \<in> set ?rows" "cg_id (f r) = a" "cg_parent_id (f r) = Some b" by (simp_all add: rows)
        then show ?thesis unfolding parents_def by auto
      qed (use c in \<open>auto simp: parents_def rows\<close>)
    qed
    moreover have "\<exists>k \<in> set (cat_categories d). cg_id k = p \<and> cg_tenant_id k = cg_tenant_id c \<and> cg_organization_id k = cg_organization_id c"
      if "c \<in> set ?rows" "cg_parent_id c = Some p" for c p
    proof (cases "c = f r")
      case same: True
      with that True have "cg_parent_id r = Some p" by simp
      from old[OF r(1) this] f[of r] same show ?thesis by simp
    qed (use that old in \<open>simp add: rows\<close>)
    ultimately show ?thesis using acyc by simp
  next
    case False
    with parent have const: "\<And>c. cg_parent_id (f c) = parent" and good: "\<And>p. parent = Some p \<Longrightarrow> p \<noteq> i
        \<and> (\<exists>k \<in> set (cat_categories d). cg_id k = p \<and> cg_tenant_id k = cg_tenant_id r \<and> cg_organization_id k = cg_organization_id r)
        \<and> (p, i) \<notin> ?F\<^sup>*" by blast+
    have sub: "parents ?d \<subseteq> ?F \<union> (case parent of None \<Rightarrow> {} | Some p \<Rightarrow> {(i, p)})"
      using f[of r] r const by (auto simp: parents_def rows)
    have accF: "acyclic ?F" by (rule acyclic_subset[OF acyc]) auto
    have "acyclic (?F \<union> (case parent of None \<Rightarrow> {} | Some p \<Rightarrow> {(i, p)}))"
      using accF good by (cases parent) (simp_all add: acyclic_insert)
    then have "acyclic (parents ?d)" using sub by (rule acyclic_subset)
    with old good f[of r] const show ?thesis by (auto simp: rows)
  qed
  moreover have "\<exists>k \<in> set ?rows. cg_id k = p \<and> cg_tenant_id k = t \<and> cg_organization_id k = o'"
    if "\<exists>k \<in> set (cat_categories d). cg_id k = p \<and> cg_tenant_id k = t \<and> cg_organization_id k = o'" for p t o'
    using that lift by metis
  ultimately show ?thesis using dist ids by (simp add: tree_ok_def)
qed

lemma flush_shape:
  "cg_id (flush_category loaded new c) = cg_id c" "cg_tenant_id (flush_category loaded new c) = cg_tenant_id c"
  "cg_organization_id (flush_category loaded new c) = cg_organization_id c"
  "(\<forall>c. cg_parent_id (flush_category loaded new c) = cg_parent_id c)
     \<or> (\<forall>c. cg_parent_id (flush_category loaded new c) = cg_parent_id new)"
  by (auto simp: flush_category_def)

lemma assign_parent: "assign_fields ch c = Inr new \<Longrightarrow> cg_parent_id new = cg_parent_id c \<and> cg_id new = cg_id c"
  by (auto simp: assign_fields_def bind_result_Inr_iff split: option.splits)

lemma update_keeps_tree:
  assumes tree: "tree_ok d" and run: "update_category ci Map.empty s t i ch d = Some (Inr d')"
  shows "tree_ok d'"
proof -
  from run obtain r where inner: "(case chg_parent_id ch of
             Some parent \<Rightarrow> set_category_parent Map.empty s t i parent d
           | None \<Rightarrow> Some (case List.find (\<lambda>c. cg_id c = i \<and> cg_tenant_id c = t) (cat_categories d) of
                  None \<Rightarrow> Inl CategoryScopeNotFoundError
                | Some row \<Rightarrow> Inr (as_held Map.empty row, as_held Map.empty row))) = Some r"
    and rest: "bind_result r (\<lambda>(loaded, c). bind_result (assign_fields ch c) (\<lambda>new. commit_category ci loaded new d)) = Inr d'"
    by (auto simp: update_category_def split: if_splits)
  from rest obtain loaded c new where r: "r = Inr (loaded, c)" and new: "assign_fields ch c = Inr new"
    and commit: "commit_category ci loaded new d = Inr d'"
    unfolding bind_result_Inr_iff by (auto simp: bind_result_Inr_iff)
  have d': "d' = d\<lparr>cat_categories := modify cg_id (cg_id loaded) (flush_category loaded new) (cat_categories d)\<rparr>"
    using commit by (auto simp: commit_category_def Let_def split: if_splits)
  show ?thesis
  proof (cases "chg_parent_id ch")
    case None
    with inner r obtain row where row: "List.find (\<lambda>c. cg_id c = i \<and> cg_tenant_id c = t) (cat_categories d) = Some row"
      "loaded = row" "c = row" by (auto simp: as_held_def split: option.splits)
    have "\<forall>x. cg_parent_id (flush_category loaded new x) = cg_parent_id x"
      using assign_parent[OF new] row(2,3) by (simp add: flush_category_def)
    then show ?thesis unfolding d' using find_SomeD[OF row(1)] row(2)
      by (intro tree_write[OF tree, of row _ _ None]) (simp_all add: flush_shape)
  next
    case (Some parent)
    with inner r have set: "set_category_parent Map.empty s t i parent d = Some (Inr (loaded, c))" by simp
    show ?thesis
    proof (rule set_parent_sound[OF tree set])
      fix k
      assume k: "k \<in> set (cat_categories d)" "cg_id k = i" "cg_id loaded = i" "cg_parent_id c = parent"
        "\<And>p. parent = Some p \<Longrightarrow> p \<noteq> i \<and> (\<exists>j \<in> set (cat_categories d). cg_id j = p
        \<and> cg_tenant_id j = cg_tenant_id k \<and> cg_organization_id j = cg_organization_id k)
        \<and> (p, i) \<notin> {(a, b) \<in> parents d. a \<noteq> i}\<^sup>*"
      have "cg_parent_id new = parent" using assign_parent[OF new] k(4) by simp
      then show ?thesis unfolding d' k(3) using flush_shape(4)[of loaded new] k(5)
        by (intro tree_write[OF tree k(1,2), of _ parent]) (simp_all add: flush_shape)
    qed
  qed
qed

lemma create_keeps_tree:
  assumes tree: "tree_ok d" and run: "create_category ci s t o' parent name n st d = Inr (i, d')"
  shows "tree_ok d'"
proof -
  from run obtain c where c: "d' = d\<lparr>cat_categories := cat_categories d @ [c]\<rparr>" "cg_id c = next_id cg_id (cat_categories d)"
    "cg_tenant_id c = t" "cg_organization_id c = o'" "cg_parent_id c = parent"
    and ok: "\<And>p. parent = Some p \<Longrightarrow> validate_new_category_parent d t o' p = Inr ()"
    by (auto simp: create_category_def bind_result_Inr_iff Let_def split: if_splits option.splits)
  have fresh: "cg_id k \<noteq> cg_id c" if "k \<in> set (cat_categories d)" for k using next_id_above[OF that, of cg_id] c(2) by simp
  have par: "\<exists>k \<in> set (cat_categories d). cg_id k = p \<and> cg_tenant_id k = t \<and> cg_organization_id k = o'" if "parent = Some p" for p
    using ok[OF that] by (auto simp: validate_new_category_parent_def ensure_def scope_rows as_held_def split: if_splits)
  have range: "b \<noteq> cg_id c" if "(a, b) \<in> parents d" for a b
    using that tree fresh unfolding parents_def tree_ok_def by blast
  have edges: "parents d' = parents d \<union> (case parent of None \<Rightarrow> {} | Some p \<Rightarrow> {(cg_id c, p)})"
    using c(5) by (auto simp: parents_def c(1) split: option.splits)
  have "(p, cg_id c) \<notin> (parents d)\<^sup>*" if "parent = Some p" for p
  proof
    assume "(p, cg_id c) \<in> (parents d)\<^sup>*"
    then show False
    proof (cases rule: rtranclE)
      case base
      with par[OF that] fresh show ?thesis by auto
    qed (use range in blast)
  qed
  then have "acyclic (parents d')" using tree unfolding edges
    by (cases parent) (simp_all add: tree_ok_def acyclic_insert)
  moreover have "cg_id c \<notin> cg_id ` set (cat_categories d)" using fresh by (metis imageE)
  ultimately show ?thesis using tree par c(3-5) unfolding tree_ok_def c(1) by (auto; blast)
qed

section \<open>Reachable catalogs\<close>

lemma as_held_same:
  assumes "distinct (map cg_id (cat_categories d))" "c \<in> set (cat_categories d)"
  shows "as_held (held_by_plan d p) c = c"
proof -
  have "find_row cg_id (cg_id c) (cat_categories d) = Some c" using find_row_Some_iff[OF assms(1)] assms(2) by simp
  then show ?thesis by (simp add: as_held_def held_by_plan_def)
qed

lemma held_same:
  assumes "distinct (map cg_id (cat_categories d))"
  shows "set_category_parent (held_by_plan d p) d t i parent d = set_category_parent Map.empty d t i parent d"
    "update_category ci (held_by_plan d p) d t i ch d = update_category ci Map.empty d t i ch d"
proof -
  note same = as_held_same[OF assms]
  have found: "x \<in> set (cat_categories d)" if "List.find P (cat_categories d) = Some x" for P x
    using find_SomeD[OF that] by simp
  have scope: "lock_category_scope ((held_by_plan d p)(i \<mapsto> r)) d t o' = lock_category_scope (Map.empty(i \<mapsto> r)) d t o'" for r i t o'
    unfolding lock_category_scope_def
  proof (rule map_cong[OF refl])
    fix c assume "c \<in> set (order_by cg_id (filter (\<lambda>c. cg_tenant_id c = t \<and> cg_organization_id c = o') (cat_categories d)))"
    then have "as_held (held_by_plan d p) c = c" by (intro same) simp
    then show "as_held ((held_by_plan d p)(i \<mapsto> r)) c = as_held (Map.empty(i \<mapsto> r)) c" by (simp add: as_held_def)
  qed
  show sp: "set_category_parent (held_by_plan d p) d t i parent d = set_category_parent Map.empty d t i parent d" for t i parent
    unfolding set_category_parent_def
    by (auto simp: same[OF found] scope as_held_def[of Map.empty] Let_def split: option.splits)
  show "update_category ci (held_by_plan d p) d t i ch d = update_category ci Map.empty d t i ch d"
    unfolding update_category_def sp
    by (auto simp: same[OF found] as_held_def[of Map.empty] split: option.splits intro!: arg_cong[of _ _ "map_option _"])
qed

lemma apply_keeps_tree:
  assumes tree: "tree_ok d" and held: "held = Map.empty \<or> held = held_by_plan d p"
    and run: "apply_category ci held d q p c d = Some (Inr (i, op, d'))"
  shows "tree_ok d'"
proof -
  have dist: "distinct (map cg_id (cat_categories d))" using tree by (simp add: tree_ok_def)
  from run have "d' = d \<or> (\<exists>t j ch. update_category ci held d t j ch d = Some (Inr d'))"
    by (auto simp: apply_category_def Let_def bind_result_Inr_iff split: if_splits)
  then show ?thesis
  proof (elim disjE exE)
    fix t j ch assume "update_category ci held d t j ch d = Some (Inr d')"
    then have "update_category ci Map.empty d t j ch d = Some (Inr d')" using held held_same(2)[OF dist] by auto
    then show ?thesis by (rule update_keeps_tree[OF tree])
  qed (use tree in simp)
qed

lemma provision_keeps_tree:
  assumes tree: "tree_ok d" and run: "provision_category ci d q d = Some (Inr (i, op, d'))"
  shows "tree_ok d'"
proof -
  have dist: "distinct (map cg_id (cat_categories d))" using tree by (simp add: tree_ok_def)
  from run obtain p where p: "plan_category ci d q False = Inr p" by (auto simp: provision_category_def split: sum.splits)
  note run = run[unfolded provision_category_def p sum.case Let_def]
  have rec: "tree_ok d'" if "(case mapped_category ci d t o' n k of None \<Rightarrow> Some (Inl e)
      | Some w \<Rightarrow> apply_category ci Map.empty d q p w d) = Some (Inr (i, op, d'))" for t o' n k e
    using that apply_keeps_tree[OF tree, of Map.empty] by (auto split: option.splits)
  show ?thesis
  proof (cases "cp_category_id p")
    case (Some j)
    with run obtain c where "apply_category ci (held_by_plan d p) d q p c d = Some (Inr (i, op, d'))"
      by (auto split: sum.splits)
    then show ?thesis using apply_keeps_tree[OF tree, of "held_by_plan d p" p] by blast
  next
    case None
    note run = run[unfolded None option.case]
    show ?thesis
    proof (cases "create_category ci d (cr_tenant_id q) (cr_organization_id q) (cp_parent_category_id p) (cr_name q)
        (cr_display_order q) (cr_status q) d")
      case (Inl e)
      with run rec show ?thesis by (auto split: if_splits)
    next
      case (Inr r)
      obtain j e where r: "r = (j, e)" by (cases r)
      from create_keeps_tree[OF tree Inr[unfolded r]] have "tree_ok e" .
      then have "tree_ok (e\<lparr>cat_mappings := ms\<rparr>)" for ms by (simp add: tree_ok_def parents_def)
      with run rec show ?thesis unfolding Inr r by (auto split: if_splits)
    qed
  qed
qed

text \<open>
  The ways a catalog changes that touch its categories: a category is created or updated by a request that
  holds no other object, with whatever snapshot it opened; or provisioned by one that nobody interleaves with.
\<close>

inductive category_step :: "catalog \<Rightarrow> catalog \<Rightarrow> bool" where
  created: "create_category ci s t o' parent n ord st d = Inr (i, d') \<Longrightarrow> category_step d d'"
| updated: "update_category ci Map.empty s t i ch d = Some (Inr d') \<Longrightarrow> category_step d d'"
| provisioned: "provision_category ci d q d = Some (Inr (i, op, d')) \<Longrightarrow> category_step d d'"

lemma category_step_keeps: "category_step d d' \<Longrightarrow> tree_ok d \<Longrightarrow> tree_ok d'"
  by (induction rule: category_step.induct) (auto intro: create_keeps_tree update_keeps_tree provision_keeps_tree)

lemma empty_tree: "cat_categories d = [] \<Longrightarrow> tree_ok d"
  by (simp add: tree_ok_def parents_def acyclic_def)

interpretation category_tree: step_invariant "\<lambda>d. cat_categories d = []" category_step tree_ok
  by unfold_locales (simp_all add: empty_tree category_step_keeps)

text \<open>
  C25: The categories always form a forest: however they were created, moved and provisioned, no category is
  its own ancestor, and the parent of a category is a category of its organization.
\<close>

theorem categories_form_a_forest:
  assumes "cat_categories d0 = []" "category_step\<^sup>*\<^sup>* d0 d"
  shows "acyclic (parents d)
    \<and> (\<forall>c \<in> set (cat_categories d). \<forall>p. cg_parent_id c = Some p \<longrightarrow>
        (\<exists>k \<in> set (cat_categories d). cg_id k = p \<and> cg_tenant_id k = cg_tenant_id c
           \<and> cg_organization_id k = cg_organization_id c))"
  using category_tree.inv_reachable[of d0 d] assms by (simp add: tree_ok_def)

section \<open>A stale parent\<close>

definition plain_category :: "int \<Rightarrow> string \<Rightarrow> int option \<Rightarrow> category" where
  "plain_category i n parent = \<lparr>cg_id = i, cg_tenant_id = 1, cg_organization_id = 1, cg_parent_id = parent,
     cg_name = n, cg_display_order = 0, cg_status = ''ACTIVE''\<rparr>"

definition two_categories :: catalog where
  "two_categories = \<lparr>cat_organizations = [(1, 1)],
     cat_categories = [plain_category 1 ''Drinks'' None, plain_category 2 ''Wine'' None],
     cat_mappings = [\<lparr>mp_tenant_id = 1, mp_organization_id = 1, mp_category_id = 1, mp_connector_key = ''menu'',
          mp_external_category_id = ''drinks''\<rparr>,
        \<lparr>mp_tenant_id = 1, mp_organization_id = 1, mp_category_id = 2, mp_connector_key = ''menu'',
          mp_external_category_id = ''wine''\<rparr>],
     cat_products = [], cat_compositions = [], cat_components = [], cat_groups = [], cat_options = []\<rparr>"

definition wine_below_drinks :: catalog where
  "wine_below_drinks = two_categories\<lparr>cat_categories :=
     [plain_category 1 ''Drinks'' None, plain_category 2 ''Wine'' (Some 1)]\<rparr>"

definition drinks_below_wine :: category_request where
  "drinks_below_wine = \<lparr>cr_tenant_id = 1, cr_organization_id = 1, cr_binding_namespace = ''menu'',
     cr_category_key = ''drinks'', cr_parent_category_key = Some ''wine'', cr_name = ''Drinks'',
     cr_display_order = Some 0, cr_status = ''ACTIVE''\<rparr>"

text \<open>Another request moves the wine below the drinks after the plan was made.\<close>

lemma wine_moves:
  "update_category (=) Map.empty two_categories 1 2 \<lparr>chg_parent_id = Some (Some 1), chg_name = None,
     chg_display_order = None, chg_status = None\<rparr> two_categories = Some (Inr wine_below_drinks)"
  by code_simp

lemma drinks_move:
  "provision_category (=) two_categories drinks_below_wine wine_below_drinks
     = Some (Inr (1, UPDATE_CATEGORY, two_categories\<lparr>cat_categories :=
         [plain_category 1 ''Drinks'' (Some 2), plain_category 2 ''Wine'' (Some 1)]\<rparr>))"
  by code_simp

text \<open>
  A plan that is out of date closes a cycle: the provisioning of a category keeps the object of the new
  parent that its plan read, so a parent that was moved below the category in between is not noticed, and
  the category becomes its own ancestor.
\<close>

theorem stale_parent_closes_cycle:
  "\<exists>ci s d q i d'. tree_ok s \<and> category_step s d
     \<and> provision_category ci s q d = Some (Inr (i, UPDATE_CATEGORY, d')) \<and> (i, i) \<in> (parents d')\<^sup>+"
proof -
  let ?d = "two_categories\<lparr>cat_categories :=
     [plain_category 1 ''Drinks'' (Some 2), plain_category 2 ''Wine'' (Some 1)]\<rparr>"
  have "parents two_categories = {}" by (auto simp: two_categories_def plain_category_def parents_def)
  then have "tree_ok two_categories"
    by (auto simp: tree_ok_def acyclic_def) (auto simp: two_categories_def plain_category_def)
  moreover have "category_step two_categories wine_below_drinks" using updated[OF wine_moves] .
  moreover have "(1, 2) \<in> parents ?d" "(2, 1) \<in> parents ?d"
    using parentsI[of "plain_category 1 ''Drinks'' (Some 2)" ?d 2] parentsI[of "plain_category 2 ''Wine'' (Some 1)" ?d 1]
    by (simp_all add: plain_category_def)
  then have "(1, 1) \<in> (parents ?d)\<^sup>+" by (meson trancl.simps)
  ultimately show ?thesis using drinks_move by blast
qed

end
