(* ===== verification/Compositions.thy ===== *)
theory Compositions
  imports Catalog "HOL-Library.Product_Lexorder" "HOL-Library.List_Lexorder" "HOL-Library.Char_ord"
begin

text \<open>
  Compositions of products (\<^verbatim>\<open>app/restaurant/catalog/structure.py\<close>): fixed components and groups of choices.
  Each operation that changes a composition locks the products of the organization first, so they run one
  after the other; what it then reads without a lock may be older: \<^theory_text>\<open>s\<close> is the snapshot, \<^theory_text>\<open>d\<close> the current
  tables.
\<close>

section \<open>Compositions and their parts\<close>

definition product_in :: "catalog \<Rightarrow> int \<Rightarrow> int \<Rightarrow> int \<Rightarrow> product_row option" where
  "product_in d tenant organization i =
     List.find (\<lambda>p. pd_id p = i \<and> pd_tenant_id p = tenant \<and> pd_organization_id p = organization) (cat_products d)"

definition is_referenced_child :: "catalog \<Rightarrow> int \<Rightarrow> int \<Rightarrow> int \<Rightarrow> bool" where
  "is_referenced_child d tenant organization product \<longleftrightarrow>
     list_ex (\<lambda>c. pcm_tenant_id c = tenant \<and> pcm_organization_id c = organization
       \<and> pcm_component_product_id c = product) (cat_components d)
     \<or> list_ex (\<lambda>o'. op_tenant_id o' = tenant \<and> op_organization_id o' = organization
       \<and> op_option_product_id o' = product) (cat_options d)"

definition has_composition :: "catalog \<Rightarrow> int \<Rightarrow> int \<Rightarrow> int \<Rightarrow> bool" where
  "has_composition d tenant organization product \<longleftrightarrow>
     list_ex (\<lambda>c. co_tenant_id c = tenant \<and> co_organization_id c = organization \<and> co_product_id c = product)
       (cat_compositions d)"

definition create_composition ::
  "catalog \<Rightarrow> int \<Rightarrow> int \<Rightarrow> catalog \<Rightarrow> structure_error + (composition \<times> catalog)"
where
  "create_composition s tenant product_id d =
     (case List.find (\<lambda>p. pd_id p = product_id \<and> pd_tenant_id p = tenant) (cat_products s) of
        None \<Rightarrow> Inl StructureNotFoundError
      | Some product \<Rightarrow>
          if is_referenced_child d tenant (pd_organization_id product) (pd_id product)
          then Inl StructureConflictError
          else if has_composition d tenant (pd_organization_id product) (pd_id product)
          then Inl StructureConflictError
          else
            (let c = \<lparr>co_id = next_id co_id (cat_compositions d), co_tenant_id = tenant,
                      co_organization_id = pd_organization_id product, co_product_id = pd_id product,
                      co_status = ''INACTIVE''\<rparr>
             in Inr (c, d\<lparr>cat_compositions := cat_compositions d @ [c]\<rparr>)))"

definition require_composition :: "catalog \<Rightarrow> int \<Rightarrow> int \<Rightarrow> structure_error + composition" where
  "require_composition s tenant product_id =
     (case List.find (\<lambda>c. co_tenant_id c = tenant \<and> co_product_id c = product_id
             \<and> product_in s (co_tenant_id c) (co_organization_id c) (co_product_id c) \<noteq> None) (cat_compositions s) of
        None \<Rightarrow> Inl StructureNotFoundError
      | Some c \<Rightarrow> Inr c)"

definition validate_child_product :: "catalog \<Rightarrow> composition \<Rightarrow> int \<Rightarrow> structure_error + product_row" where
  "validate_child_product d c child_product_id =
     (case (product_in d (co_tenant_id c) (co_organization_id c) (co_product_id c),
            product_in d (co_tenant_id c) (co_organization_id c) child_product_id) of
        (Some parent, Some child) \<Rightarrow>
          if pd_id parent = pd_id child then Inl StructureConflictError
          else if has_composition d (co_tenant_id c) (co_organization_id c) (pd_id child)
          then Inl StructureConflictError
          else if is_referenced_child d (co_tenant_id c) (co_organization_id c) (pd_id parent)
          then Inl StructureConflictError
          else Inr child
      | _ \<Rightarrow> Inl StructureNotFoundError)"

text \<open>Activation; parts and nested compositions are read from the snapshot.\<close>

definition active_options :: "catalog \<Rightarrow> int \<Rightarrow> int \<Rightarrow> int \<Rightarrow> choice_option list" where
  "active_options s tenant organization group_id =
     filter (\<lambda>o'. op_tenant_id o' = tenant \<and> op_organization_id o' = organization
       \<and> op_group_id o' = group_id \<and> op_status o' = ''ACTIVE'') (cat_options s)"

definition activate_composition ::
  "catalog \<Rightarrow> int \<Rightarrow> int \<Rightarrow> catalog \<Rightarrow> structure_error + catalog"
where
  "activate_composition s tenant product_id d =
     bind_result (require_composition s tenant product_id) (\<lambda>c0.
     bind_result (require_composition d tenant product_id) (\<lambda>c.
     (let organization = co_organization_id c in
      case product_in d (co_tenant_id c0) (co_organization_id c0) (co_product_id c) of
        None \<Rightarrow> Inl StructureConflictError
      | Some parent \<Rightarrow>
          if pd_status parent \<noteq> ''ACTIVE'' then Inl StructureConflictError
          else if is_referenced_child d tenant organization (pd_id parent) then Inl StructureConflictError
          else
            (let components = filter (\<lambda>m. pcm_tenant_id m = tenant \<and> pcm_organization_id m = organization
                   \<and> pcm_composition_id m = co_id c \<and> pcm_status m = ''ACTIVE'') (cat_components s);
                 groups = filter (\<lambda>g. grp_tenant_id g = tenant \<and> grp_organization_id g = organization
                   \<and> grp_composition_id g = co_id c \<and> grp_status g = ''ACTIVE'') (cat_groups s);
                 options = concat (map (\<lambda>g. active_options s tenant organization (grp_id g)) groups);
                 referenced = map pcm_component_product_id components @ map op_option_product_id options
             in if list_ex (\<lambda>g. int (length (active_options s tenant organization (grp_id g))) < grp_min_selections g) groups
                then Inl StructureConflictError
                else if list_ex (\<lambda>i. (case product_in d (co_tenant_id c0) (co_organization_id c0) i of
                         None \<Rightarrow> True | Some p \<Rightarrow> pd_status p \<noteq> ''ACTIVE'')
                       \<or> has_composition s tenant organization i) referenced
                then Inl StructureConflictError
                else Inr (d\<lparr>cat_compositions := modify co_id (co_id c)
                       (\<lambda>x. x\<lparr>co_status := ''ACTIVE''\<rparr>) (cat_compositions d)\<rparr>)))))"

section \<open>The graph of a composition\<close>

text \<open>What the menu shows, what a checkout prices and what an acceptance records of a composition.\<close>

record composition_graph =
  gh_composition :: composition
  gh_product :: product_row
  gh_components :: "(component \<times> product_row) list"
  gh_groups :: "(choice_group \<times> (choice_option \<times> product_row) list) list"

definition graph_components :: "catalog \<Rightarrow> int \<Rightarrow> composition \<Rightarrow> bool \<Rightarrow> (component \<times> product_row) list" where
  "graph_components d tenant c active_only =
     concat (map (\<lambda>m. case product_in d (pcm_tenant_id m) (pcm_organization_id m) (pcm_component_product_id m) of
          None \<Rightarrow> []
        | Some p \<Rightarrow> if active_only \<and> \<not> (pcm_status m = ''ACTIVE'' \<and> pd_status p = ''ACTIVE'') then [] else [(m, p)])
       (order_by pcm_display_order (order_by pcm_id (filter (\<lambda>m. pcm_tenant_id m = tenant
          \<and> pcm_organization_id m = co_organization_id c \<and> pcm_composition_id m = co_id c) (cat_components d)))))"

definition graph_options :: "catalog \<Rightarrow> int \<Rightarrow> composition \<Rightarrow> bool \<Rightarrow> int \<Rightarrow> (choice_option \<times> product_row) list" where
  "graph_options d tenant c active_only group_id =
     concat (map (\<lambda>o'. case product_in d (op_tenant_id o') (op_organization_id o') (op_option_product_id o') of
          None \<Rightarrow> []
        | Some p \<Rightarrow> if active_only \<and> \<not> (op_status o' = ''ACTIVE'' \<and> pd_status p = ''ACTIVE'') then [] else [(o', p)])
       (order_by op_display_order (order_by op_id (filter (\<lambda>o'. op_tenant_id o' = tenant
          \<and> op_organization_id o' = co_organization_id c \<and> op_group_id o' = group_id) (cat_options d)))))"

definition load_composition_graph :: "catalog \<Rightarrow> int \<Rightarrow> int \<Rightarrow> bool \<Rightarrow> composition_graph option" where
  "load_composition_graph d tenant product_id active_only =
     (case List.find (\<lambda>(c, p). \<not> active_only \<or> co_status c = ''ACTIVE'' \<and> pd_status p = ''ACTIVE'')
        (concat (map (\<lambda>c. case product_in d (co_tenant_id c) (co_organization_id c) (co_product_id c) of
              None \<Rightarrow> [] | Some p \<Rightarrow> [(c, p)])
           (filter (\<lambda>c. co_tenant_id c = tenant \<and> co_product_id c = product_id) (cat_compositions d)))) of
        None \<Rightarrow> None
      | Some (c, product) \<Rightarrow>
          Some \<lparr>gh_composition = c, gh_product = product,
                gh_components = graph_components d tenant c active_only,
                gh_groups = map (\<lambda>g. (g, graph_options d tenant c active_only (grp_id g)))
                  (order_by grp_display_order (order_by grp_id (filter (\<lambda>g. grp_tenant_id g = tenant
                     \<and> grp_organization_id g = co_organization_id c \<and> grp_composition_id g = co_id c
                     \<and> (active_only \<longrightarrow> grp_status g = ''ACTIVE'')) (cat_groups d))))\<rparr>)"

section \<open>The choice of a diner\<close>

datatype violation_code =
    COMPOSITION_NOT_FOUND | COMPOSITION_NOT_ACTIVE | REQUIRED_GROUP_MISSING | TOO_FEW_SELECTIONS
  | TOO_MANY_SELECTIONS | INVALID_GROUP | INVALID_OPTION | INACTIVE_GROUP | INACTIVE_OPTION
  | INACTIVE_PRODUCT | DUPLICATE_OPTION | DUPLICATE_GROUP

fun violation_code_value :: "violation_code \<Rightarrow> string" where
  "violation_code_value COMPOSITION_NOT_FOUND = ''COMPOSITION_NOT_FOUND''"
| "violation_code_value COMPOSITION_NOT_ACTIVE = ''COMPOSITION_NOT_ACTIVE''"
| "violation_code_value REQUIRED_GROUP_MISSING = ''REQUIRED_GROUP_MISSING''"
| "violation_code_value TOO_FEW_SELECTIONS = ''TOO_FEW_SELECTIONS''"
| "violation_code_value TOO_MANY_SELECTIONS = ''TOO_MANY_SELECTIONS''"
| "violation_code_value INVALID_GROUP = ''INVALID_GROUP''"
| "violation_code_value INVALID_OPTION = ''INVALID_OPTION''"
| "violation_code_value INACTIVE_GROUP = ''INACTIVE_GROUP''"
| "violation_code_value INACTIVE_OPTION = ''INACTIVE_OPTION''"
| "violation_code_value INACTIVE_PRODUCT = ''INACTIVE_PRODUCT''"
| "violation_code_value DUPLICATE_OPTION = ''DUPLICATE_OPTION''"
| "violation_code_value DUPLICATE_GROUP = ''DUPLICATE_GROUP''"

record choice_selection =
  sel_group_id :: int
  sel_option_ids :: "int list"

record resolved_quantity =
  rq_product_id :: int
  rq_quantity :: rat

record resolved_option =
  rso_group_id :: int
  rso_option_id :: int
  rso_product_id :: int
  rso_quantity :: rat

record violation =
  vl_code :: violation_code
  vl_group_id :: "int option"
  vl_option_id :: "int option"
  vl_product_id :: "int option"

record selection_validation =
  sv_is_valid :: bool
  sv_fixed_components :: "resolved_quantity list"
  sv_selected_options :: "resolved_option list"
  sv_violations :: "violation list"

definition violates :: "violation_code \<Rightarrow> int option \<Rightarrow> int option \<Rightarrow> int option \<Rightarrow> violation" where
  "violates code group_id option_id product =
     \<lparr>vl_code = code, vl_group_id = group_id, vl_option_id = option_id, vl_product_id = product\<rparr>"

definition or_zero :: "int option \<Rightarrow> int" where
  "or_zero x = (case x of None \<Rightarrow> 0 | Some i \<Rightarrow> i)"

definition violation_key :: "violation \<Rightarrow> int \<times> int \<times> int \<times> string" where
  "violation_key v = (or_zero (vl_group_id v), or_zero (vl_option_id v), or_zero (vl_product_id v),
     violation_code_value (vl_code v))"

text \<open>The active components with their products, by display order and identifier.\<close>

definition component_rows :: "catalog \<Rightarrow> composition \<Rightarrow> (component \<times> product_row) list" where
  "component_rows d c =
     concat (map (\<lambda>m. case product_in d (pcm_tenant_id m) (pcm_organization_id m) (pcm_component_product_id m) of
                        None \<Rightarrow> [] | Some p \<Rightarrow> [(m, p)])
       (order_by pcm_display_order (order_by pcm_id (filter (\<lambda>m. pcm_tenant_id m = co_tenant_id c
          \<and> pcm_organization_id m = co_organization_id c \<and> pcm_composition_id m = co_id c
          \<and> pcm_status m = ''ACTIVE'') (cat_components d)))))"

definition group_rows :: "catalog \<Rightarrow> composition \<Rightarrow> choice_group list" where
  "group_rows d c =
     order_by grp_display_order (order_by grp_id (filter (\<lambda>g. grp_tenant_id g = co_tenant_id c
       \<and> grp_organization_id g = co_organization_id c \<and> grp_composition_id g = co_id c) (cat_groups d)))"

text \<open>\<^verbatim>\<open>options_by_group.get(group_id, {}).get(option_id)\<close>.\<close>

definition option_row :: "catalog \<Rightarrow> composition \<Rightarrow> int \<Rightarrow> int \<Rightarrow> (choice_option \<times> product_row) option" where
  "option_row d c group_id option_id =
     (case List.find (\<lambda>o'. op_id o' = option_id \<and> op_tenant_id o' = co_tenant_id c
             \<and> op_organization_id o' = co_organization_id c \<and> op_group_id o' = group_id) (cat_options d) of
        None \<Rightarrow> None
      | Some o' \<Rightarrow> map_option (Pair o') (product_in d (op_tenant_id o') (op_organization_id o') (op_option_product_id o')))"

fun check_options ::
  "catalog \<Rightarrow> composition \<Rightarrow> int \<Rightarrow> int list \<Rightarrow> int \<Rightarrow> int list \<Rightarrow> violation list \<times> resolved_option list \<times> int"
where
  "check_options d c group_id seen valid_count [] = ([], [], valid_count)"
| "check_options d c group_id seen valid_count (i # ids) =
     (let bad = (\<lambda>code product seen. case check_options d c group_id seen valid_count ids of (vs, rs, n) \<Rightarrow>
                   (violates code (Some group_id) (Some i) product # vs, rs, n))
      in if i \<in> set seen then bad DUPLICATE_OPTION None seen
         else (case option_row d c group_id i of
           None \<Rightarrow> bad INVALID_OPTION None (i # seen)
         | Some (o', p) \<Rightarrow>
             if op_status o' \<noteq> ''ACTIVE'' then bad INACTIVE_OPTION None (i # seen)
             else if pd_status p \<noteq> ''ACTIVE'' then bad INACTIVE_PRODUCT (Some (pd_id p)) (i # seen)
             else (case check_options d c group_id (i # seen) (valid_count + 1) ids of (vs, rs, n) \<Rightarrow>
                     (vs, \<lparr>rso_group_id = group_id, rso_option_id = op_id o', rso_product_id = pd_id p,
                           rso_quantity = op_quantity o'\<rparr> # rs, n))))"

definition check_selection ::
  "catalog \<Rightarrow> composition \<Rightarrow> choice_selection \<Rightarrow> violation list \<times> resolved_option list"
where
  "check_selection d c sel =
     (case find_row grp_id (sel_group_id sel) (group_rows d c) of
        None \<Rightarrow> ([violates INVALID_GROUP (Some (sel_group_id sel)) None None], [])
      | Some g \<Rightarrow>
          if grp_status g \<noteq> ''ACTIVE'' then ([violates INACTIVE_GROUP (Some (sel_group_id sel)) None None], [])
          else (case check_options d c (sel_group_id sel) [] 0 (sel_option_ids sel) of (vs, rs, n) \<Rightarrow>
            (vs @ (if n < grp_min_selections g then [violates TOO_FEW_SELECTIONS (Some (grp_id g)) None None] else [])
                @ (if grp_max_selections g < n then [violates TOO_MANY_SELECTIONS (Some (grp_id g)) None None] else []), rs)))"

fun one_per_group :: "int list \<Rightarrow> choice_selection list \<Rightarrow> violation list \<times> choice_selection list" where
  "one_per_group seen [] = ([], [])"
| "one_per_group seen (sel # sels) =
     (if sel_group_id sel \<in> set seen
      then (case one_per_group seen sels of (vs, kept) \<Rightarrow>
              (violates DUPLICATE_GROUP (Some (sel_group_id sel)) None None # vs, kept))
      else (case one_per_group (sel_group_id sel # seen) sels of (vs, kept) \<Rightarrow> (vs, sel # kept)))"

definition validate_selection ::
  "catalog \<Rightarrow> int \<Rightarrow> int \<Rightarrow> choice_selection list \<Rightarrow> selection_validation"
where
  "validate_selection d tenant product_id selections =
     (let refused = (\<lambda>code. \<lparr>sv_is_valid = False, sv_fixed_components = [], sv_selected_options = [],
            sv_violations = [violates code None None None]\<rparr>)
      in case List.find (\<lambda>c. co_tenant_id c = tenant \<and> co_product_id c = product_id) (cat_compositions d) of
           None \<Rightarrow> refused COMPOSITION_NOT_FOUND
         | Some c \<Rightarrow>
             if co_status c \<noteq> ''ACTIVE'' then refused COMPOSITION_NOT_ACTIVE
             else
               (case one_per_group [] selections of (duplicates, kept) \<Rightarrow>
                 let components = component_rows d c;
                     inactive = map (\<lambda>(m, p). violates INACTIVE_PRODUCT None None (Some (pd_id p)))
                       (filter (\<lambda>(m, p). pd_status p \<noteq> ''ACTIVE'') components);
                     fixed = map (\<lambda>(m, p). \<lparr>rq_product_id = pd_id p, rq_quantity = pcm_quantity m\<rparr>)
                       (filter (\<lambda>(m, p). pd_status p = ''ACTIVE'') components);
                     checked = map (check_selection d c) kept;
                     missing = map (\<lambda>g. violates REQUIRED_GROUP_MISSING (Some (grp_id g)) None None)
                       (filter (\<lambda>g. grp_status g = ''ACTIVE'' \<and> grp_min_selections g \<noteq> 0
                          \<and> grp_id g \<notin> set (map sel_group_id kept)) (group_rows d c));
                     violations = sort_key violation_key
                       (inactive @ duplicates @ concat (map fst checked) @ missing)
                 in \<lparr>sv_is_valid = (violations = []), sv_fixed_components = fixed,
                     sv_selected_options = sort_key (\<lambda>r. (rso_group_id r, rso_option_id r)) (concat (map snd checked)),
                     sv_violations = violations\<rparr>))"

end
