(* ===== verification/ExactDecimals.thy ===== *)
theory ExactDecimals
  imports Prelude
begin

text \<open>
  Decimals whose exponent matters. A finite \<^verbatim>\<open>decimal.Decimal\<close> is a coefficient with an exponent;
  \<^verbatim>\<open>as_tuple().exponent\<close> sees the exponent, so \<^verbatim>\<open>1.00000\<close> has five fractional digits.
\<close>

type_synonym exact_decimal = "int \<times> int"

definition decimal_value :: "exact_decimal \<Rightarrow> rat" where
  "decimal_value q = (case q of (c, e) \<Rightarrow>
     if 0 \<le> e then of_int c * 10 ^ nat e else of_int c / 10 ^ nat (- e))"

text \<open>What a caller may pass where a \<^verbatim>\<open>Decimal\<close> is expected.\<close>

datatype decimal_argument = ExactDecimal exact_decimal | NonFiniteDecimal | NotDecimal

text \<open>The largest value of a \<^verbatim>\<open>Numeric(19, 4)\<close> column.\<close>

definition MAX_NUMERIC :: rat where
  "MAX_NUMERIC = 9999999999999999999 / 10000"

text \<open>A value that such a column keeps as it is.\<close>

definition numeric_19_4 :: "rat \<Rightarrow> bool" where
  "numeric_19_4 x \<longleftrightarrow> of_int \<lfloor>x * 10000\<rfloor> = x * 10000 \<and> \<bar>x\<bar> \<le> MAX_NUMERIC"

lemma decimal_fits:
  assumes "- 4 \<le> snd q" "0 \<le> decimal_value q" "decimal_value q \<le> MAX_NUMERIC"
  shows "numeric_19_4 (decimal_value q)"
proof -
  obtain c e where q: "q = (c, e)" by (cases q)
  have "\<exists>n. decimal_value q * 10000 = of_int n"
  proof (cases "0 \<le> e")
    case True
    then have "decimal_value q * 10000 = of_int (c * 10 ^ nat e * 10000)" by (simp add: decimal_value_def q)
    then show ?thesis by blast
  next
    case False
    define k where "k = nat (- e)"
    have k: "k \<le> 4" using assms(1) False by (simp add: k_def q)
    have "(10 :: rat) ^ 4 = 10 ^ (4 - k) * 10 ^ k" using k by (simp flip: power_add)
    then have "of_int c / 10 ^ k * 10000 = (of_int (c * 10 ^ (4 - k)) :: rat)" by (simp add: field_simps)
    moreover have "decimal_value q = of_int c / 10 ^ k" using False by (simp add: decimal_value_def q k_def)
    ultimately show ?thesis by metis
  qed
  then obtain n where "decimal_value q * 10000 = of_int n" by blast
  then have "of_int \<lfloor>decimal_value q * 10000\<rfloor> = decimal_value q * 10000" by simp
  with assms(2,3) show ?thesis by (simp add: numeric_19_4_def)
qed

end
