(* ===== verification/CompositionRoutes.thy ===== *)
theory CompositionRoutes
  imports Compositions ExactDecimals
begin

text \<open>
  The handlers through which staff edit a composition
  (\<^verbatim>\<open>app/api/routes/product_compositions.py\<close>): payload validation, parts added and patched, and the unique
  indexes that the commit meets. \<^theory_text>\<open>ci\<close> is the comparison of the collation of the name column.
\<close>

datatype route_error =
    RouteNotFound       \<comment> \<open>404\<close>
  | RouteConflict       \<comment> \<open>409\<close>
  | RouteUnprocessable  \<comment> \<open>422\<close>

fun map_structure_error :: "structure_error \<Rightarrow> route_error" where
  "map_structure_error StructureNotFoundError = RouteNotFound"
| "map_structure_error StructureConflictError = RouteConflict"

definition routed :: "structure_error + 'a \<Rightarrow> route_error + 'a" where
  "routed r = (case r of Inl e \<Rightarrow> Inl (map_structure_error e) | Inr x \<Rightarrow> Inr x)"

section \<open>Payloads\<close>

definition payload_quantity_ok :: "exact_decimal \<Rightarrow> bool" where
  "payload_quantity_ok q \<longleftrightarrow> 0 < decimal_value q \<and> \<not> snd q < - 4 \<and> \<not> MAX_NUMERIC < decimal_value q"

definition lifecycle_ok :: "string \<Rightarrow> bool" where
  "lifecycle_ok s \<longleftrightarrow> s \<in> {''ACTIVE'', ''INACTIVE''}"

text \<open>The body of a new component or option.\<close>

record part_create =
  pc_product_id :: int
  pc_quantity :: exact_decimal
  pc_display_order :: int

definition part_create_ok :: "part_create \<Rightarrow> bool" where
  "part_create_ok b \<longleftrightarrow> 0 < pc_product_id b \<and> payload_quantity_ok (pc_quantity b) \<and> 0 \<le> pc_display_order b"

text \<open>The body of a patch: the fields that were sent; none may be null.\<close>

record part_patch =
  pp_quantity :: "exact_decimal option"
  pp_display_order :: "int option"
  pp_status :: "string option"

definition part_patch_ok :: "part_patch \<Rightarrow> bool" where
  "part_patch_ok b \<longleftrightarrow> (pp_quantity b \<noteq> None \<or> pp_display_order b \<noteq> None \<or> pp_status b \<noteq> None)
     \<and> pred_option payload_quantity_ok (pp_quantity b) \<and> pred_option (\<lambda>n. 0 \<le> n) (pp_display_order b)
     \<and> pred_option lifecycle_ok (pp_status b)"

record group_create =
  gc_name :: string
  gc_min_selections :: int
  gc_max_selections :: int
  gc_display_order :: int

definition group_name_ok :: "string \<Rightarrow> bool" where
  "group_name_ok n \<longleftrightarrow> 1 \<le> length (strip n) \<and> length (strip n) \<le> 200"

definition group_create_ok :: "group_create \<Rightarrow> bool" where
  "group_create_ok b \<longleftrightarrow> group_name_ok (gc_name b) \<and> 0 \<le> gc_min_selections b \<and> 0 < gc_max_selections b
     \<and> 0 \<le> gc_display_order b \<and> \<not> gc_max_selections b < gc_min_selections b"

record group_patch =
  gp_name :: "string option"
  gp_min_selections :: "int option"
  gp_max_selections :: "int option"
  gp_display_order :: "int option"
  gp_status :: "string option"

definition group_patch_ok :: "group_patch \<Rightarrow> bool" where
  "group_patch_ok b \<longleftrightarrow> (gp_name b \<noteq> None \<or> gp_min_selections b \<noteq> None \<or> gp_max_selections b \<noteq> None
        \<or> gp_display_order b \<noteq> None \<or> gp_status b \<noteq> None)
     \<and> pred_option group_name_ok (gp_name b) \<and> pred_option (\<lambda>n. 0 \<le> n) (gp_min_selections b)
     \<and> pred_option (\<lambda>n. 0 < n) (gp_max_selections b) \<and> pred_option (\<lambda>n. 0 \<le> n) (gp_display_order b)
     \<and> pred_option lifecycle_ok (gp_status b)"

definition patched :: "'a option \<Rightarrow> 'a \<Rightarrow> 'a" where
  "patched new old = (case new of None \<Rightarrow> old | Some x \<Rightarrow> x)"

section \<open>Unique indexes\<close>

definition components_collide :: "component \<Rightarrow> component \<Rightarrow> bool" where
  "components_collide a b \<longleftrightarrow> (pcm_tenant_id a, pcm_organization_id a, pcm_composition_id a, pcm_component_product_id a)
     = (pcm_tenant_id b, pcm_organization_id b, pcm_composition_id b, pcm_component_product_id b)"

definition choice_options_collide :: "choice_option \<Rightarrow> choice_option \<Rightarrow> bool" where
  "choice_options_collide a b \<longleftrightarrow> (op_tenant_id a, op_organization_id a, op_group_id a, op_option_product_id a)
     = (op_tenant_id b, op_organization_id b, op_group_id b, op_option_product_id b)"

definition choice_groups_collide :: "(string \<Rightarrow> string \<Rightarrow> bool) \<Rightarrow> choice_group \<Rightarrow> choice_group \<Rightarrow> bool" where
  "choice_groups_collide ci a b \<longleftrightarrow> grp_tenant_id a = grp_tenant_id b \<and> grp_organization_id a = grp_organization_id b
     \<and> grp_composition_id a = grp_composition_id b \<and> ci (grp_name a) (grp_name b)"

section \<open>Handlers\<close>

definition post_composition :: "catalog \<Rightarrow> int \<Rightarrow> int \<Rightarrow> catalog \<Rightarrow> route_error + catalog" where
  "post_composition s tenant product_id d = bind_result (routed (create_composition s tenant product_id d)) (\<lambda>(c, d'). Inr d')"

definition patch_composition :: "catalog \<Rightarrow> int \<Rightarrow> int \<Rightarrow> string \<Rightarrow> catalog \<Rightarrow> route_error + catalog" where
  "patch_composition s tenant product_id status d =
     (if \<not> lifecycle_ok status then Inl RouteUnprocessable
      else if status = ''ACTIVE'' then routed (activate_composition s tenant product_id d)
      else bind_result (routed (require_composition d tenant product_id)) (\<lambda>c.
        Inr (d\<lparr>cat_compositions := modify co_id (co_id c) (\<lambda>x. x\<lparr>co_status := ''INACTIVE''\<rparr>) (cat_compositions d)\<rparr>)))"

definition post_component :: "catalog \<Rightarrow> int \<Rightarrow> int \<Rightarrow> part_create \<Rightarrow> catalog \<Rightarrow> route_error + catalog" where
  "post_component s tenant product_id b d =
     (if \<not> part_create_ok b then Inl RouteUnprocessable
      else
     bind_result (routed (require_composition s tenant product_id)) (\<lambda>c.
     bind_result (routed (validate_child_product d c (pc_product_id b))) (\<lambda>_.
       let m = \<lparr>pcm_id = next_id pcm_id (cat_components d), pcm_tenant_id = tenant,
                pcm_organization_id = co_organization_id c, pcm_composition_id = co_id c,
                pcm_component_product_id = pc_product_id b, pcm_quantity = decimal_value (pc_quantity b),
                pcm_display_order = pc_display_order b, pcm_status = ''ACTIVE''\<rparr>
       in if list_ex (components_collide m) (cat_components d) then Inl RouteConflict
          else Inr (d\<lparr>cat_components := cat_components d @ [m]\<rparr>))))"

definition composition_component :: "catalog \<Rightarrow> composition \<Rightarrow> int \<Rightarrow> component option" where
  "composition_component d c component_id =
     List.find (\<lambda>m. pcm_id m = component_id \<and> pcm_tenant_id m = co_tenant_id c
       \<and> pcm_organization_id m = co_organization_id c \<and> pcm_composition_id m = co_id c) (cat_components d)"

definition patch_component :: "catalog \<Rightarrow> int \<Rightarrow> int \<Rightarrow> int \<Rightarrow> part_patch \<Rightarrow> catalog \<Rightarrow> route_error + catalog" where
  "patch_component s tenant product_id component_id b d =
     (if \<not> part_patch_ok b then Inl RouteUnprocessable
      else
     bind_result (routed (require_composition s tenant product_id)) (\<lambda>c.
       case composition_component d c component_id of
         None \<Rightarrow> Inl RouteNotFound
       | Some m \<Rightarrow> Inr (d\<lparr>cat_components := modify pcm_id (pcm_id m)
           (\<lambda>x. x\<lparr>pcm_quantity := patched (map_option decimal_value (pp_quantity b)) (pcm_quantity m),
                  pcm_display_order := patched (pp_display_order b) (pcm_display_order m),
                  pcm_status := patched (pp_status b) (pcm_status m)\<rparr>) (cat_components d)\<rparr>)))"

definition post_choice_group ::
  "(string \<Rightarrow> string \<Rightarrow> bool) \<Rightarrow> int \<Rightarrow> int \<Rightarrow> group_create \<Rightarrow> catalog \<Rightarrow> route_error + catalog"
where
  "post_choice_group ci tenant product_id b d =
     (if \<not> group_create_ok b then Inl RouteUnprocessable
      else
     bind_result (routed (require_composition d tenant product_id)) (\<lambda>c.
       let g = \<lparr>grp_id = next_id grp_id (cat_groups d), grp_tenant_id = tenant,
                grp_organization_id = co_organization_id c, grp_composition_id = co_id c,
                grp_name = strip (gc_name b), grp_min_selections = gc_min_selections b,
                grp_max_selections = gc_max_selections b, grp_display_order = gc_display_order b,
                grp_status = ''ACTIVE''\<rparr>
       in if list_ex (choice_groups_collide ci g) (cat_groups d) then Inl RouteConflict
          else Inr (d\<lparr>cat_groups := cat_groups d @ [g]\<rparr>)))"

definition composition_group :: "catalog \<Rightarrow> composition \<Rightarrow> int \<Rightarrow> choice_group option" where
  "composition_group d c group_id =
     List.find (\<lambda>g. grp_id g = group_id \<and> grp_tenant_id g = co_tenant_id c
       \<and> grp_organization_id g = co_organization_id c \<and> grp_composition_id g = co_id c) (cat_groups d)"

definition patched_group :: "group_patch \<Rightarrow> choice_group \<Rightarrow> choice_group" where
  "patched_group b g =
     g\<lparr>grp_name := patched (map_option strip (gp_name b)) (grp_name g),
       grp_min_selections := patched (gp_min_selections b) (grp_min_selections g),
       grp_max_selections := patched (gp_max_selections b) (grp_max_selections g),
       grp_display_order := patched (gp_display_order b) (grp_display_order g),
       grp_status := patched (gp_status b) (grp_status g)\<rparr>"

definition patch_choice_group ::
  "(string \<Rightarrow> string \<Rightarrow> bool) \<Rightarrow> int \<Rightarrow> int \<Rightarrow> int \<Rightarrow> group_patch \<Rightarrow> catalog \<Rightarrow> route_error + catalog"
where
  "patch_choice_group ci tenant product_id group_id b d =
     (if \<not> group_patch_ok b then Inl RouteUnprocessable
      else
     bind_result (routed (require_composition d tenant product_id)) (\<lambda>c.
       case composition_group d c group_id of
         None \<Rightarrow> Inl RouteNotFound
       | Some g \<Rightarrow>
           (let g' = patched_group b g
            in if grp_max_selections g' < grp_min_selections g' then Inl RouteUnprocessable
               else if list_ex (\<lambda>h. grp_id h \<noteq> grp_id g \<and> choice_groups_collide ci g' h) (cat_groups d)
               then Inl RouteConflict
               else Inr (d\<lparr>cat_groups := modify grp_id (grp_id g) (\<lambda>_. g') (cat_groups d)\<rparr>))))"

definition post_choice_option ::
  "catalog \<Rightarrow> int \<Rightarrow> int \<Rightarrow> int \<Rightarrow> part_create \<Rightarrow> catalog \<Rightarrow> route_error + catalog"
where
  "post_choice_option s tenant product_id group_id b d =
     (if \<not> part_create_ok b then Inl RouteUnprocessable
      else
     bind_result (routed (require_composition s tenant product_id)) (\<lambda>c.
     if composition_group d c group_id = None then Inl RouteNotFound
     else
     bind_result (routed (validate_child_product d c (pc_product_id b))) (\<lambda>_.
       let x = \<lparr>op_id = next_id op_id (cat_options d), op_tenant_id = tenant,
                op_organization_id = co_organization_id c, op_group_id = group_id,
                op_option_product_id = pc_product_id b, op_quantity = decimal_value (pc_quantity b),
                op_display_order = pc_display_order b, op_status = ''ACTIVE''\<rparr>
       in if list_ex (choice_options_collide x) (cat_options d) then Inl RouteConflict
          else Inr (d\<lparr>cat_options := cat_options d @ [x]\<rparr>))))"

definition patch_choice_option ::
  "int \<Rightarrow> int \<Rightarrow> int \<Rightarrow> int \<Rightarrow> part_patch \<Rightarrow> catalog \<Rightarrow> route_error + catalog"
where
  "patch_choice_option tenant product_id group_id option_id b d =
     (if \<not> part_patch_ok b then Inl RouteUnprocessable
      else
     bind_result (routed (require_composition d tenant product_id)) (\<lambda>c.
       case composition_group d c group_id of
         None \<Rightarrow> Inl RouteNotFound
       | Some g \<Rightarrow>
           (case List.find (\<lambda>x. op_id x = option_id \<and> op_tenant_id x = grp_tenant_id g
                  \<and> op_organization_id x = grp_organization_id g \<and> op_group_id x = grp_id g) (cat_options d) of
              None \<Rightarrow> Inl RouteNotFound
            | Some m \<Rightarrow> Inr (d\<lparr>cat_options := modify op_id (op_id m)
                (\<lambda>x. x\<lparr>op_quantity := patched (map_option decimal_value (pp_quantity b)) (op_quantity m),
                       op_display_order := patched (pp_display_order b) (op_display_order m),
                       op_status := patched (pp_status b) (op_status m)\<rparr>) (cat_options d)\<rparr>))))"

end
