(* ===== verification/CompositionProofs.thy ===== *)
theory CompositionProofs
  imports CompositionRoutes
begin

text \<open>Compositions never nest, and the validation of a choice accepts exactly the choices it should.\<close>

section \<open>No nesting\<close>

definition flat :: "catalog \<Rightarrow> bool" where
  "flat d \<longleftrightarrow> (\<forall>c \<in> set (cat_compositions d).
     \<not> is_referenced_child d (co_tenant_id c) (co_organization_id c) (co_product_id c))"

text \<open>The quantities of the parts are positive and the bounds of the groups make sense.\<close>

definition parts_ok :: "catalog \<Rightarrow> bool" where
  "parts_ok d \<longleftrightarrow> (\<forall>m \<in> set (cat_components d). 0 < pcm_quantity m) \<and> (\<forall>m \<in> set (cat_options d). 0 < op_quantity m)
     \<and> (\<forall>g \<in> set (cat_groups d). 0 \<le> grp_min_selections g \<and> grp_min_selections g \<le> grp_max_selections g
          \<and> 0 < grp_max_selections g)"

inductive composition_step :: "catalog \<Rightarrow> catalog \<Rightarrow> bool" where
  created: "post_composition s tenant product d = Inr d' \<Longrightarrow> composition_step d d'"
| switched: "patch_composition s tenant product st d = Inr d' \<Longrightarrow> composition_step d d'"
| component: "post_component s tenant product b d = Inr d' \<Longrightarrow> composition_step d d'"
| component_patched: "patch_component s tenant product i pb d = Inr d' \<Longrightarrow> composition_step d d'"
| choice_group: "post_choice_group ci tenant product gb d = Inr d' \<Longrightarrow> composition_step d d'"
| choice_group_patched: "patch_choice_group ci tenant product gid gpb d = Inr d' \<Longrightarrow> composition_step d d'"
| choice_option: "post_choice_option s tenant product gid b d = Inr d' \<Longrightarrow> composition_step d d'"
| choice_option_patched: "patch_choice_option tenant product gid i pb d = Inr d' \<Longrightarrow> composition_step d d'"

lemma case_option_Inr_iff:
  "(case x of None \<Rightarrow> Inl e | Some y \<Rightarrow> f y) = Inr r \<longleftrightarrow> (\<exists>y. x = Some y \<and> f y = Inr r)"
  by (cases x) simp_all

lemma routed_Inr [simp]: "routed r = Inr x \<longleftrightarrow> r = Inr x"
  by (cases r) (simp_all add: routed_def)

lemma required: "require_composition s tenant product = Inr c \<Longrightarrow> co_tenant_id c = tenant \<and> co_product_id c = product"
  by (auto simp: require_composition_def dest: find_SomeD split: option.splits)

lemma product_in_id: "product_in d t o' i = Some p \<Longrightarrow> pd_id p = i"
  by (auto simp: product_in_def dest: find_SomeD)

lemma child_free:
  "validate_child_product d c child = Inr p \<Longrightarrow> \<not> has_composition d (co_tenant_id c) (co_organization_id c) child"
  by (auto simp: validate_child_product_def dest: product_in_id split: option.splits if_splits)

lemma has_composition_iff: "has_composition d t o' i \<longleftrightarrow> (\<exists>c \<in> set (cat_compositions d). co_tenant_id c = t
    \<and> co_organization_id c = o' \<and> co_product_id c = i)"
  by (simp add: has_composition_def list_ex_iff)

lemma referenced_iff: "is_referenced_child d t o' i \<longleftrightarrow>
    (t, o', i) \<in> (\<lambda>m. (pcm_tenant_id m, pcm_organization_id m, pcm_component_product_id m)) ` set (cat_components d)
    \<or> (t, o', i) \<in> (\<lambda>m. (op_tenant_id m, op_organization_id m, op_option_product_id m)) ` set (cat_options d)"
  by (auto simp: is_referenced_child_def list_ex_iff)

lemma flat_iff: "flat d \<longleftrightarrow> (\<forall>c \<in> set (cat_compositions d).
    \<not> is_referenced_child d (co_tenant_id c) (co_organization_id c) (co_product_id c))"
  by (simp add: flat_def)

lemma flat_cong:
  assumes "(\<lambda>c. (co_tenant_id c, co_organization_id c, co_product_id c)) ` set (cat_compositions d')
      = (\<lambda>c. (co_tenant_id c, co_organization_id c, co_product_id c)) ` set (cat_compositions d)"
    and "(\<lambda>m. (pcm_tenant_id m, pcm_organization_id m, pcm_component_product_id m)) ` set (cat_components d')
      = (\<lambda>m. (pcm_tenant_id m, pcm_organization_id m, pcm_component_product_id m)) ` set (cat_components d)"
    and "(\<lambda>m. (op_tenant_id m, op_organization_id m, op_option_product_id m)) ` set (cat_options d')
      = (\<lambda>m. (op_tenant_id m, op_organization_id m, op_option_product_id m)) ` set (cat_options d)"
  shows "flat d' = flat d"
proof -
  have "is_referenced_child d' t o' i = is_referenced_child d t o' i" for t o' i
    unfolding referenced_iff assms(2,3) ..
  then have flat': "flat d' \<longleftrightarrow> (\<forall>(t, o', i) \<in> (\<lambda>c. (co_tenant_id c, co_organization_id c, co_product_id c)) ` set (cat_compositions d').
      \<not> is_referenced_child d t o' i)" by (simp add: flat_def)
  show ?thesis unfolding flat' assms(1) by (simp add: flat_def)
qed

lemma image_modify: "(\<And>x. h (f x) = h x) \<Longrightarrow> h ` set (modify rid i f rows) = h ` set rows"
  unfolding modify_def set_map image_image by (rule image_cong) simp_all

lemma create_flat: "create_composition s tenant product d = Inr (c, d') \<Longrightarrow> flat d \<Longrightarrow> flat d'"
proof -
  assume run: "create_composition s tenant product d = Inr (c, d')" and flat: "flat d"
  then have c: "d' = d\<lparr>cat_compositions := cat_compositions d @ [c]\<rparr>"
    "\<not> is_referenced_child d (co_tenant_id c) (co_organization_id c) (co_product_id c)"
    by (auto simp: create_composition_def Let_def split: option.splits if_splits)
  have "is_referenced_child d' t o' i = is_referenced_child d t o' i" for t o' i by (simp add: is_referenced_child_def c(1))
  with flat c(2) show "flat d'" by (auto simp: flat_def c(1))
qed

lemma parts_ok_compositions [simp]: "parts_ok (d\<lparr>cat_compositions := cs\<rparr>) = parts_ok d"
  by (simp add: parts_ok_def)

lemma activate_shape:
  "activate_composition s tenant product d = Inr d' \<Longrightarrow>
     \<exists>i. d' = d\<lparr>cat_compositions := modify co_id i (\<lambda>x. x\<lparr>co_status := ''ACTIVE''\<rparr>) (cat_compositions d)\<rparr>"
  by (auto simp: activate_composition_def bind_result_Inr_iff Let_def split: option.splits if_splits)

lemma payload_quantity_positive: "payload_quantity_ok q \<Longrightarrow> 0 < decimal_value q"
  by (simp add: payload_quantity_ok_def)

lemma patch_group_shape:
  assumes "patch_choice_group ci tenant product gid b d = Inr d'"
  obtains g where "g \<in> set (cat_groups d)" "group_patch_ok b"
    "grp_min_selections (patched_group b g) \<le> grp_max_selections (patched_group b g)"
    "d' = d\<lparr>cat_groups := modify grp_id (grp_id g) (\<lambda>_. patched_group b g) (cat_groups d)\<rparr>"
  using assms
  by (auto simp: patch_choice_group_def composition_group_def bind_result_Inr_iff case_option_Inr_iff Let_def
      dest: find_SomeD split: if_splits)

lemma composition_step_keeps: "composition_step d d' \<Longrightarrow> flat d \<and> parts_ok d \<Longrightarrow> flat d' \<and> parts_ok d'"
proof (induction rule: composition_step.induct)
  case (created s tenant product d d')
  then obtain c where "create_composition s tenant product d = Inr (c, d')"
    by (auto simp: post_composition_def bind_result_Inr_iff)
  moreover from this have "parts_ok d' = parts_ok d"
    by (auto simp: create_composition_def Let_def split: option.splits if_splits)
  ultimately show ?case using create_flat created(2) by simp
next
  case (switched s tenant product st d d')
  then obtain i st' where d': "d' = d\<lparr>cat_compositions := modify co_id i (\<lambda>x. x\<lparr>co_status := st'\<rparr>) (cat_compositions d)\<rparr>"
    by (auto simp: patch_composition_def bind_result_Inr_iff dest: activate_shape split: if_splits)
  have "flat d' = flat d" by (rule flat_cong) (simp_all add: d' image_modify)
  with switched(2) show ?case by (simp add: d')
next
  case (component s tenant product b d d')
  then obtain c p m where c: "require_composition s tenant product = Inr c" "validate_child_product d c (pc_product_id b) = Inr p"
    and m: "d' = d\<lparr>cat_components := cat_components d @ [m]\<rparr>" "pcm_tenant_id m = tenant"
    "pcm_organization_id m = co_organization_id c" "pcm_component_product_id m = pc_product_id b" "0 < pcm_quantity m"
    by (auto simp: post_component_def bind_result_Inr_iff Let_def part_create_ok_def payload_quantity_positive split: if_splits)
  have "\<not> has_composition d tenant (co_organization_id c) (pc_product_id b)" using child_free[OF c(2)] required[OF c(1)] by simp
  with component(2) m(2-5) show ?case by (auto simp: flat_def m(1) is_referenced_child_def has_composition_iff parts_ok_def)
next
  case (component_patched s tenant product i pb d d')
  then obtain m where m: "m \<in> set (cat_components d)" "part_patch_ok pb"
    and d': "d' = d\<lparr>cat_components := modify pcm_id (pcm_id m)
           (\<lambda>x. x\<lparr>pcm_quantity := patched (map_option decimal_value (pp_quantity pb)) (pcm_quantity m),
                  pcm_display_order := patched (pp_display_order pb) (pcm_display_order m),
                  pcm_status := patched (pp_status pb) (pcm_status m)\<rparr>) (cat_components d)\<rparr>"
    by (auto simp: patch_component_def bind_result_Inr_iff composition_component_def dest: find_SomeD split: if_splits option.splits)
  have "flat d' = flat d" by (rule flat_cong) (simp_all add: d' image_modify)
  moreover have "0 < patched (map_option decimal_value (pp_quantity pb)) (pcm_quantity m)"
    using m component_patched(2) by (auto simp: patched_def part_patch_ok_def parts_ok_def payload_quantity_positive split: option.splits)
  ultimately show ?case using component_patched(2) by (auto simp: d' parts_ok_def set_modify)
next
  case (choice_group ci tenant product gb d d')
  then obtain g where d': "d' = d\<lparr>cat_groups := cat_groups d @ [g]\<rparr>" "0 \<le> grp_min_selections g"
    "grp_min_selections g \<le> grp_max_selections g" "0 < grp_max_selections g"
    by (auto simp: post_choice_group_def bind_result_Inr_iff Let_def group_create_ok_def split: if_splits)
  have "flat d' = flat d" by (rule flat_cong) (simp_all add: d'(1))
  with choice_group(2) d'(2-4) show ?case by (auto simp: d'(1) parts_ok_def)
next
  case (choice_group_patched ci tenant product gid gpb d d')
  then obtain g where g: "g \<in> set (cat_groups d)" "group_patch_ok gpb"
    "grp_min_selections (patched_group gpb g) \<le> grp_max_selections (patched_group gpb g)"
    and d': "d' = d\<lparr>cat_groups := modify grp_id (grp_id g) (\<lambda>_. patched_group gpb g) (cat_groups d)\<rparr>"
    by (elim conjE patch_group_shape)
  have "flat d' = flat d" by (rule flat_cong) (simp_all add: d')
  moreover have "0 \<le> grp_min_selections (patched_group gpb g)" "0 < grp_max_selections (patched_group gpb g)"
    using g(1,2) choice_group_patched(2)
    by (auto simp: patched_group_def patched_def group_patch_ok_def parts_ok_def split: option.splits)
  ultimately show ?case using choice_group_patched(2) g(3) by (auto simp: d' parts_ok_def set_modify)
next
  case (choice_option s tenant product gid b d d')
  then obtain c p m where c: "require_composition s tenant product = Inr c" "validate_child_product d c (pc_product_id b) = Inr p"
    and m: "d' = d\<lparr>cat_options := cat_options d @ [m]\<rparr>" "op_tenant_id m = tenant"
    "op_organization_id m = co_organization_id c" "op_option_product_id m = pc_product_id b" "0 < op_quantity m"
    by (auto simp: post_choice_option_def bind_result_Inr_iff Let_def part_create_ok_def payload_quantity_positive split: if_splits)
  have "\<not> has_composition d tenant (co_organization_id c) (pc_product_id b)" using child_free[OF c(2)] required[OF c(1)] by simp
  with choice_option(2) m(2-5) show ?case by (auto simp: flat_def m(1) is_referenced_child_def has_composition_iff parts_ok_def)
next
  case (choice_option_patched tenant product gid i pb d d')
  then obtain m where m: "m \<in> set (cat_options d)" "part_patch_ok pb"
    and d': "d' = d\<lparr>cat_options := modify op_id (op_id m)
           (\<lambda>x. x\<lparr>op_quantity := patched (map_option decimal_value (pp_quantity pb)) (op_quantity m),
                  op_display_order := patched (pp_display_order pb) (op_display_order m),
                  op_status := patched (pp_status pb) (op_status m)\<rparr>) (cat_options d)\<rparr>"
    by (auto simp: patch_choice_option_def bind_result_Inr_iff case_option_Inr_iff dest: find_SomeD split: if_splits)
  have "flat d' = flat d" by (rule flat_cong) (simp_all add: d' image_modify)
  moreover have "0 < patched (map_option decimal_value (pp_quantity pb)) (op_quantity m)"
    using m choice_option_patched(2) by (auto simp: patched_def part_patch_ok_def parts_ok_def payload_quantity_positive split: option.splits)
  ultimately show ?case using choice_option_patched(2) by (auto simp: d' parts_ok_def set_modify)
qed

definition no_compositions :: "catalog \<Rightarrow> bool" where
  "no_compositions d \<longleftrightarrow> cat_compositions d = [] \<and> cat_components d = [] \<and> cat_groups d = [] \<and> cat_options d = []"

interpretation compositions: step_invariant no_compositions composition_step "\<lambda>d. flat d \<and> parts_ok d"
  by unfold_locales (simp add: flat_def parts_ok_def no_compositions_def, rule composition_step_keeps)

text \<open>
  C26: Compositions never nest: in every catalog that comes about through the handlers, a product that has a
  composition is neither a component nor an option of any composition of its organization, so a composition
  does not contain itself either.
\<close>

theorem compositions_never_nest:
  assumes "no_compositions d0" "composition_step\<^sup>*\<^sup>* d0 d" and "c \<in> set (cat_compositions d)"
  shows "list_all (\<lambda>m. (pcm_tenant_id m, pcm_organization_id m, pcm_component_product_id m)
        \<noteq> (co_tenant_id c, co_organization_id c, co_product_id c)) (cat_components d)
    \<and> list_all (\<lambda>m. (op_tenant_id m, op_organization_id m, op_option_product_id m)
        \<noteq> (co_tenant_id c, co_organization_id c, co_product_id c)) (cat_options d)"
proof -
  have "flat d" using compositions.inv_reachable[of d0 d] assms(1,2) by simp
  with assms(3) show ?thesis by (auto simp: flat_def is_referenced_child_def list_all_iff list_ex_iff)
qed

section \<open>What a choice must satisfy\<close>

text \<open>An option that can be chosen: active, in the group, of an active product.\<close>

definition choosable :: "catalog \<Rightarrow> composition \<Rightarrow> int \<Rightarrow> int \<Rightarrow> bool" where
  "choosable d c gid i \<longleftrightarrow> (case option_row d c gid i of None \<Rightarrow> False
     | Some (o', p) \<Rightarrow> op_status o' = ''ACTIVE'' \<and> pd_status p = ''ACTIVE'')"

definition selection_ok :: "catalog \<Rightarrow> composition \<Rightarrow> choice_selection \<Rightarrow> bool" where
  "selection_ok d c sel \<longleftrightarrow> (\<exists>g \<in> set (group_rows d c). grp_id g = sel_group_id sel \<and> grp_status g = ''ACTIVE''
     \<and> distinct (sel_option_ids sel) \<and> list_all (choosable d c (grp_id g)) (sel_option_ids sel)
     \<and> grp_min_selections g \<le> int (length (sel_option_ids sel))
     \<and> int (length (sel_option_ids sel)) \<le> grp_max_selections g)"

definition choice_ok :: "catalog \<Rightarrow> composition \<Rightarrow> choice_selection list \<Rightarrow> bool" where
  "choice_ok d c sels \<longleftrightarrow> list_all (\<lambda>(m, p). pd_status p = ''ACTIVE'') (component_rows d c)
     \<and> distinct (map sel_group_id sels)
     \<and> list_all (selection_ok d c) sels
     \<and> list_all (\<lambda>g. grp_status g = ''ACTIVE'' \<longrightarrow> grp_min_selections g = 0 \<or> grp_id g \<in> set (map sel_group_id sels))
          (group_rows d c)"

lemma option_row_id: "option_row d c gid i = Some (o', p) \<Longrightarrow> op_id o' = i"
  by (auto simp: option_row_def dest: find_SomeD split: option.splits)

lemma check_options_clean:
  "check_options d c gid seen n ids = (vs, rs, k) \<Longrightarrow>
     (vs = [] \<longleftrightarrow> distinct ids \<and> set ids \<inter> set seen = {} \<and> list_all (choosable d c gid) ids)
     \<and> (vs = [] \<longrightarrow> k = n + int (length ids) \<and> map (\<lambda>r. (rso_group_id r, rso_option_id r)) rs = map (Pair gid) ids)"
proof (induction ids arbitrary: seen n vs rs k)
  case (Cons i ids)
  show ?case
  proof (cases "i \<in> set seen")
    case True
    with Cons.prems show ?thesis by (auto simp: Let_def split: prod.splits)
  next
    case seen: False
    show ?thesis
    proof (cases "\<exists>o' p. option_row d c gid i = Some (o', p) \<and> op_status o' = ''ACTIVE'' \<and> pd_status p = ''ACTIVE''")
      case False
      with Cons.prems seen have "vs \<noteq> []" "\<not> choosable d c gid i"
        by (auto simp: choosable_def Let_def split: prod.splits option.splits if_splits)
      then show ?thesis by simp
    next
      case True
      then obtain o' p where row: "option_row d c gid i = Some (o', p)" "op_status o' = ''ACTIVE''" "pd_status p = ''ACTIVE''"
        by blast
      obtain vs' rs' k' where sub: "check_options d c gid (i # seen) (n + 1) ids = (vs', rs', k')" by (metis prod_cases3)
      from Cons.prems seen row sub have res: "vs = vs'" "k = k'"
        "rs = \<lparr>rso_group_id = gid, rso_option_id = op_id o', rso_product_id = pd_id p, rso_quantity = op_quantity o'\<rparr> # rs'"
        by (auto simp: Let_def)
      have ch: "choosable d c gid i" using row by (simp add: choosable_def)
      from Cons.IH[OF sub] res ch seen option_row_id[OF row(1)] show ?thesis by auto
    qed
  qed
qed simp

lemma one_per_group_clean:
  "one_per_group seen sels = (vs, kept) \<Longrightarrow>
     (vs = [] \<longleftrightarrow> distinct (map sel_group_id sels) \<and> set (map sel_group_id sels) \<inter> set seen = {}) \<and> (vs = [] \<longrightarrow> kept = sels)"
proof (induction sels arbitrary: seen vs kept)
  case (Cons sel sels)
  show ?case
  proof (cases "sel_group_id sel \<in> set seen")
    case True
    with Cons.prems show ?thesis by (auto split: prod.splits)
  next
    case False
    obtain vs' kept' where sub: "one_per_group (sel_group_id sel # seen) sels = (vs', kept')" by fastforce
    from Cons.prems False sub have "vs = vs'" "kept = sel # kept'" by simp_all
    with Cons.IH[OF sub] False show ?thesis by auto
  qed
qed simp

lemma check_selection_clean:
  assumes "distinct (map grp_id (cat_groups d))"
  shows "(fst (check_selection d c sel) = [] \<longleftrightarrow> selection_ok d c sel)
    \<and> (fst (check_selection d c sel) = [] \<longrightarrow> map (\<lambda>r. (rso_group_id r, rso_option_id r)) (snd (check_selection d c sel))
          = map (Pair (sel_group_id sel)) (sel_option_ids sel))"
proof -
  have "distinct (map grp_id (group_rows d c))"
    using assms by (simp add: group_rows_def order_by_def distinct_map inj_on_def)
  note rows = find_row_Some_iff[OF this]
  obtain vs rs k where run: "check_options d c (sel_group_id sel) [] 0 (sel_option_ids sel) = (vs, rs, k)" by (metis prod_cases3)
  note clean = check_options_clean[OF run]
  show ?thesis
  proof (cases "find_row grp_id (sel_group_id sel) (group_rows d c)")
    case None
    then have "grp_id g \<noteq> sel_group_id sel" if "g \<in> set (group_rows d c)" for g using rows that by (metis option.distinct(1))
    with None show ?thesis by (auto simp: check_selection_def selection_ok_def)
  next
    case (Some g)
    then have g: "g \<in> set (group_rows d c)" "grp_id g = sel_group_id sel" by (simp_all add: rows)
    have only: "h = g" if "h \<in> set (group_rows d c)" "grp_id h = sel_group_id sel" for h
      using rows[of "sel_group_id sel" h] that Some by simp
    have "selection_ok d c sel \<longleftrightarrow> grp_status g = ''ACTIVE'' \<and> distinct (sel_option_ids sel)
      \<and> list_all (choosable d c (grp_id g)) (sel_option_ids sel)
      \<and> grp_min_selections g \<le> int (length (sel_option_ids sel)) \<and> int (length (sel_option_ids sel)) \<le> grp_max_selections g"
      unfolding selection_ok_def using g only by blast
    with Some clean run g show ?thesis by (auto simp: check_selection_def)
  qed
qed

lemma validate_selection_clean:
  assumes "distinct (map grp_id (cat_groups d))"
  shows "(sv_is_valid (validate_selection d tenant product_id sels) \<longleftrightarrow>
      (case List.find (\<lambda>c. co_tenant_id c = tenant \<and> co_product_id c = product_id) (cat_compositions d) of
         None \<Rightarrow> False | Some c \<Rightarrow> co_status c = ''ACTIVE'' \<and> choice_ok d c sels))
    \<and> (sv_is_valid (validate_selection d tenant product_id sels) \<longrightarrow>
         map (\<lambda>r. (rso_group_id r, rso_option_id r)) (sv_selected_options (validate_selection d tenant product_id sels))
           = sort (concat (map (\<lambda>sel. map (Pair (sel_group_id sel)) (sel_option_ids sel)) sels)))"
proof (cases "List.find (\<lambda>c. co_tenant_id c = tenant \<and> co_product_id c = product_id) (cat_compositions d)")
  case None
  then show ?thesis by (simp add: validate_selection_def)
next
  case (Some c)
  show ?thesis
  proof (cases "co_status c = ''ACTIVE''")
    case False
    with Some show ?thesis by (simp add: validate_selection_def)
  next
    case True
    obtain duplicates kept where one: "one_per_group [] sels = (duplicates, kept)" by fastforce
    note kept = one_per_group_clean[OF one]
    define r where "r = validate_selection d tenant product_id sels"
    have empty: "sort_key f xs = [] \<longleftrightarrow> xs = []" for f :: "violation \<Rightarrow> int \<times> int \<times> int \<times> string" and xs
      by (metis length_0_conv length_sort)
    have valid: "sv_is_valid r \<longleftrightarrow> (\<forall>(m, p) \<in> set (component_rows d c). pd_status p = ''ACTIVE'') \<and> duplicates = []
        \<and> (\<forall>sel \<in> set kept. fst (check_selection d c sel) = [])
        \<and> (\<forall>g \<in> set (group_rows d c). grp_status g = ''ACTIVE'' \<longrightarrow> grp_min_selections g = 0 \<or> grp_id g \<in> set (map sel_group_id kept))"
      by (auto simp: r_def validate_selection_def Some True one Let_def empty filter_empty_conv)
    have sel: "sv_selected_options r = sort_key (\<lambda>r. (rso_group_id r, rso_option_id r)) (concat (map snd (map (check_selection d c) kept)))"
      by (simp add: r_def validate_selection_def Some True one Let_def)
    have "sv_is_valid r \<longleftrightarrow> choice_ok d c sels"
      using kept check_selection_clean[OF assms] by (auto simp: valid choice_ok_def list_all_iff)
    moreover have "map (\<lambda>r. (rso_group_id r, rso_option_id r)) (sv_selected_options r)
        = sort (concat (map (\<lambda>sel. map (Pair (sel_group_id sel)) (sel_option_ids sel)) sels))" if "sv_is_valid r"
    proof -
      have all: "kept = sels" "\<forall>sel \<in> set sels. fst (check_selection d c sel) = []" using that kept by (auto simp: valid)
      have sort_map: "map f (sort_key f xs) = sort (map f xs)" for f :: "resolved_option \<Rightarrow> int \<times> int" and xs
        by (rule properties_for_sort[symmetric]) simp_all
      have "map (\<lambda>r. (rso_group_id r, rso_option_id r)) (concat (map snd (map (check_selection d c) sels)))
          = concat (map (\<lambda>sel. map (Pair (sel_group_id sel)) (sel_option_ids sel)) sels)"
        using all(2) check_selection_clean[OF assms] by (induction sels) simp_all
      then show ?thesis unfolding sel all(1) sort_map by simp
    qed
    ultimately show ?thesis using Some True by (simp add: r_def)
  qed
qed

text \<open>
  C27: A choice is accepted exactly when it should be: the composition exists and is active, its components are
  products that are active, each group is chosen from at most once, only active groups of the composition and
  active options of them with active products are chosen, none twice, within the bounds of the group, and every
  group that demands a choice has one. The options of an accepted choice are those of the request, in order.
\<close>

theorem accepted_choices_are_the_right_ones:
  assumes "distinct (map grp_id (cat_groups d))"
  shows "(sv_is_valid (validate_selection d tenant product_id sels) \<longleftrightarrow>
      (case List.find (\<lambda>c. co_tenant_id c = tenant \<and> co_product_id c = product_id) (cat_compositions d) of
         None \<Rightarrow> False | Some c \<Rightarrow> co_status c = ''ACTIVE'' \<and> choice_ok d c sels))
    \<and> (sv_is_valid (validate_selection d tenant product_id sels) \<longrightarrow>
         map (\<lambda>r. (rso_group_id r, rso_option_id r)) (sv_selected_options (validate_selection d tenant product_id sels))
           = sort (concat (map (\<lambda>sel. map (Pair (sel_group_id sel)) (sel_option_ids sel)) sels)))"
  by (rule validate_selection_clean[OF assms])

section \<open>What is shown can be chosen\<close>

lemma graph_options_iff:
  "(m, p) \<in> set (graph_options d tenant c True gid) \<longleftrightarrow> m \<in> set (cat_options d) \<and> op_tenant_id m = tenant
     \<and> op_organization_id m = co_organization_id c \<and> op_group_id m = gid
     \<and> product_in d tenant (co_organization_id c) (op_option_product_id m) = Some p
     \<and> op_status m = ''ACTIVE'' \<and> pd_status p = ''ACTIVE''"
  by (fastforce simp: graph_options_def split: option.splits if_splits)

lemma option_row_iff:
  assumes "distinct (map op_id (cat_options d))"
  shows "option_row d c gid i = Some (m, p) \<longleftrightarrow> m \<in> set (cat_options d) \<and> op_id m = i
     \<and> op_tenant_id m = co_tenant_id c \<and> op_organization_id m = co_organization_id c \<and> op_group_id m = gid
     \<and> product_in d (co_tenant_id c) (co_organization_id c) (op_option_product_id m) = Some p"
proof -
  have one: "a = b" if "a \<in> set (cat_options d)" "b \<in> set (cat_options d)" "op_id a = op_id b" for a b
    by (rule same_row_if_same_id[OF assms that])
  show ?thesis
  proof
    show "option_row d c gid i = Some (m, p) \<Longrightarrow> m \<in> set (cat_options d) \<and> op_id m = i
     \<and> op_tenant_id m = co_tenant_id c \<and> op_organization_id m = co_organization_id c \<and> op_group_id m = gid
     \<and> product_in d (co_tenant_id c) (co_organization_id c) (op_option_product_id m) = Some p"
      by (auto simp: option_row_def dest!: find_SomeD split: option.splits)
  next
    assume m: "m \<in> set (cat_options d) \<and> op_id m = i
     \<and> op_tenant_id m = co_tenant_id c \<and> op_organization_id m = co_organization_id c \<and> op_group_id m = gid
     \<and> product_in d (co_tenant_id c) (co_organization_id c) (op_option_product_id m) = Some p"
    then obtain k where k: "List.find (\<lambda>o'. op_id o' = i \<and> op_tenant_id o' = co_tenant_id c
             \<and> op_organization_id o' = co_organization_id c \<and> op_group_id o' = gid) (cat_options d) = Some k"
      by (cases "List.find (\<lambda>o'. op_id o' = i \<and> op_tenant_id o' = co_tenant_id c
             \<and> op_organization_id o' = co_organization_id c \<and> op_group_id o' = gid) (cat_options d)")
        (auto simp: find_eq_None_iff)
    with m one[of k m] find_SomeD[OF k] have "k = m" by simp
    with k m show "option_row d c gid i = Some (m, p)" by (simp add: option_row_def)
  qed
qed

text \<open>
  The graph of the active parts shows exactly what can be chosen: a group is in it when it is an active group
  of the composition, and an option is in its group when the validation of a choice would take it.
\<close>

theorem shown_is_choosable:
  assumes "distinct (map op_id (cat_options d))"
    and "load_composition_graph d tenant product_id True = Some graph"
  shows "co_status (gh_composition graph) = ''ACTIVE''
    \<and> set (map fst (gh_groups graph)) = {g \<in> set (group_rows d (gh_composition graph)). grp_status g = ''ACTIVE''}
    \<and> (\<forall>(g, os) \<in> set (gh_groups graph). op_id ` fst ` set os = {i. choosable d (gh_composition graph) (grp_id g) i})"
proof -
  from assms(2) obtain c p where found: "List.find (\<lambda>(c, p). co_status c = ''ACTIVE'' \<and> pd_status p = ''ACTIVE'')
        (concat (map (\<lambda>c. case product_in d (co_tenant_id c) (co_organization_id c) (co_product_id c) of
              None \<Rightarrow> [] | Some p \<Rightarrow> [(c, p)])
           (filter (\<lambda>c. co_tenant_id c = tenant \<and> co_product_id c = product_id) (cat_compositions d)))) = Some (c, p)"
    and graph: "gh_composition graph = c" "gh_groups graph = map (\<lambda>g. (g, graph_options d tenant c True (grp_id g)))
                  (order_by grp_display_order (order_by grp_id (filter (\<lambda>g. grp_tenant_id g = tenant
                     \<and> grp_organization_id g = co_organization_id c \<and> grp_composition_id g = co_id c
                     \<and> grp_status g = ''ACTIVE'') (cat_groups d))))"
    unfolding load_composition_graph_def by (auto split: option.splits)
  from find_SomeD[OF found] have c: "co_status c = ''ACTIVE''" "co_tenant_id c = tenant" by (auto split: option.splits)
  have "op_id ` fst ` set (graph_options d tenant c True gid) = {i. choosable d c gid i}" for gid
  proof (intro set_eqI)
    fix i
    have "i \<in> op_id ` fst ` set (graph_options d tenant c True gid)
      \<longleftrightarrow> (\<exists>m p. (m, p) \<in> set (graph_options d tenant c True gid) \<and> op_id m = i)" by force
    also have "\<dots> \<longleftrightarrow> (\<exists>m p. option_row d c gid i = Some (m, p) \<and> op_status m = ''ACTIVE'' \<and> pd_status p = ''ACTIVE'')"
      by (auto simp: graph_options_iff option_row_iff[OF assms(1)] c(2))
    also have "\<dots> \<longleftrightarrow> choosable d c gid i" by (auto simp: choosable_def split: option.splits)
    finally show "i \<in> op_id ` fst ` set (graph_options d tenant c True gid) \<longleftrightarrow> i \<in> {i. choosable d c gid i}" by simp
  qed
  then show ?thesis using c by (auto simp: graph group_rows_def)
qed

end
