(* ===== verification/CatalogWitnesses.thy ===== *)
theory CatalogWitnesses
  imports CatalogProofs CompositionProofs
begin

text \<open>A small catalog: drinks with wines below them, and a lunch of soup with a choice of a drink.\<close>

definition no_catalog :: catalog where
  "no_catalog = \<lparr>cat_organizations = [(1, 1)], cat_categories = [], cat_mappings = [],
     cat_products =
       [\<lparr>pd_id = 1, pd_tenant_id = 1, pd_organization_id = 1, pd_name = ''Lunch'', pd_tax_classification_code = None, pd_status = ''ACTIVE''\<rparr>,
        \<lparr>pd_id = 2, pd_tenant_id = 1, pd_organization_id = 1, pd_name = ''Soup'', pd_tax_classification_code = None, pd_status = ''ACTIVE''\<rparr>,
        \<lparr>pd_id = 3, pd_tenant_id = 1, pd_organization_id = 1, pd_name = ''Water'', pd_tax_classification_code = None, pd_status = ''ACTIVE''\<rparr>,
        \<lparr>pd_id = 4, pd_tenant_id = 1, pd_organization_id = 1, pd_name = ''Tea'', pd_tax_classification_code = None, pd_status = ''ACTIVE''\<rparr>],
     cat_compositions = [], cat_components = [], cat_groups = [], cat_options = []\<rparr>"

definition drinks_catalog :: catalog where
  "drinks_catalog = no_catalog\<lparr>cat_categories := [plain_category 1 ''Drinks'' None]\<rparr>"

definition wine_catalog :: catalog where
  "wine_catalog = no_catalog\<lparr>cat_categories := [plain_category 1 ''Drinks'' None, plain_category 2 ''Wine'' (Some 1)]\<rparr>"

lemma categories_created:
  "create_category (=) no_catalog 1 1 None ''Drinks'' (Some 0) ''ACTIVE'' no_catalog = Inr (1, drinks_catalog)"
  "create_category (=) drinks_catalog 1 1 (Some 1) '' Wine'' (Some 0) ''active'' drinks_catalog = Inr (2, wine_catalog)"
  by code_simp+

theorem categories_form_a_forest_witness: "(1, 1) \<notin> (parents wine_catalog)\<^sup>+"
proof -
  have "category_step\<^sup>*\<^sup>* no_catalog wine_catalog"
    using category_step.created[OF categories_created(1)] category_step.created[OF categories_created(2)] by simp
  moreover have "cat_categories no_catalog = []" by (simp add: no_catalog_def)
  ultimately show ?thesis using categories_form_a_forest by (simp add: acyclic_def)
qed

definition lunch :: composition where
  "lunch = \<lparr>co_id = 1, co_tenant_id = 1, co_organization_id = 1, co_product_id = 1, co_status = ''INACTIVE''\<rparr>"

definition lunch_soup :: component where
  "lunch_soup = \<lparr>pcm_id = 1, pcm_tenant_id = 1, pcm_organization_id = 1, pcm_composition_id = 1,
     pcm_component_product_id = 2, pcm_quantity = 1, pcm_display_order = 0, pcm_status = ''ACTIVE''\<rparr>"

definition lunch_drinks :: choice_group where
  "lunch_drinks = \<lparr>grp_id = 1, grp_tenant_id = 1, grp_organization_id = 1, grp_composition_id = 1,
     grp_name = ''Drink'', grp_min_selections = 1, grp_max_selections = 1, grp_display_order = 0, grp_status = ''ACTIVE''\<rparr>"

definition lunch_drink :: "int \<Rightarrow> int \<Rightarrow> choice_option" where
  "lunch_drink i p = \<lparr>op_id = i, op_tenant_id = 1, op_organization_id = 1, op_group_id = 1,
     op_option_product_id = p, op_quantity = 1, op_display_order = 0, op_status = ''ACTIVE''\<rparr>"

definition lunch1 :: catalog where "lunch1 = no_catalog\<lparr>cat_compositions := [lunch]\<rparr>"
definition lunch2 :: catalog where "lunch2 = lunch1\<lparr>cat_components := [lunch_soup]\<rparr>"
definition lunch3 :: catalog where "lunch3 = lunch2\<lparr>cat_groups := [lunch_drinks]\<rparr>"
definition lunch4 :: catalog where "lunch4 = lunch3\<lparr>cat_options := [lunch_drink 1 3]\<rparr>"
definition lunch5 :: catalog where "lunch5 = lunch4\<lparr>cat_options := [lunch_drink 1 3, lunch_drink 2 4]\<rparr>"
definition lunch6 :: catalog where "lunch6 = lunch5\<lparr>cat_compositions := [lunch\<lparr>co_status := ''ACTIVE''\<rparr>]\<rparr>"

definition part :: "int \<Rightarrow> part_create" where
  "part p = \<lparr>pc_product_id = p, pc_quantity = (10, - 1), pc_display_order = 0\<rparr>"

lemma lunch_composed:
  "post_composition no_catalog 1 1 no_catalog = Inr lunch1"
  "post_component lunch1 1 1 (part 2) lunch1 = Inr lunch2"
  "post_choice_group (=) 1 1 \<lparr>gc_name = ''Drink'', gc_min_selections = 1, gc_max_selections = 1, gc_display_order = 0\<rparr> lunch2 = Inr lunch3"
  "post_choice_option lunch3 1 1 1 (part 3) lunch3 = Inr lunch4"
  "post_choice_option lunch4 1 1 1 (part 4) lunch4 = Inr lunch5"
  "patch_composition lunch5 1 1 ''ACTIVE'' lunch5 = Inr lunch6"
  by code_simp+

lemma to_lunch6: "composition_step\<^sup>*\<^sup>* no_catalog lunch6"
  using composition_step.created[OF lunch_composed(1)] composition_step.component[OF lunch_composed(2)]
    composition_step.choice_group[OF lunch_composed(3)] composition_step.choice_option[OF lunch_composed(4)]
    composition_step.choice_option[OF lunch_composed(5)] composition_step.switched[OF lunch_composed(6)]
  by (meson rtranclp.rtrancl_into_rtrancl rtranclp.rtrancl_refl)

text \<open>A part of the lunch cannot become a composition.\<close>

lemma soup_is_no_composition: "post_composition lunch6 1 2 lunch6 = Inl RouteConflict"
  by code_simp

theorem compositions_never_nest_witness: "pcm_component_product_id lunch_soup \<noteq> co_product_id lunch"
proof -
  have "no_compositions no_catalog" by (simp add: no_compositions_def no_catalog_def)
  moreover have "lunch\<lparr>co_status := ''ACTIVE''\<rparr> \<in> set (cat_compositions lunch6)" by (simp add: lunch6_def)
  moreover have "lunch_soup \<in> set (cat_components lunch6)"
    by (simp add: lunch6_def lunch5_def lunch4_def lunch3_def lunch2_def)
  ultimately show ?thesis using compositions_never_nest[OF _ to_lunch6]
    by (fastforce simp: list_all_iff lunch_def lunch_soup_def)
qed

definition tea :: "choice_selection list" where
  "tea = [\<lparr>sel_group_id = 1, sel_option_ids = [2]\<rparr>]"

lemma tea_chosen: "validate_selection lunch6 1 1 tea =
    \<lparr>sv_is_valid = True, sv_fixed_components = [\<lparr>rq_product_id = 2, rq_quantity = 1\<rparr>],
     sv_selected_options = [\<lparr>rso_group_id = 1, rso_option_id = 2, rso_product_id = 4, rso_quantity = 1\<rparr>], sv_violations = []\<rparr>"
  by code_simp

lemma lunch6_rows: "cat_groups lunch6 = [lunch_drinks]" "cat_options lunch6 = [lunch_drink 1 3, lunch_drink 2 4]"
  by (simp_all add: lunch6_def lunch5_def lunch4_def lunch3_def)

theorem accepted_choices_are_the_right_ones_witness: "choice_ok lunch6 (lunch\<lparr>co_status := ''ACTIVE''\<rparr>) tea"
proof -
  have "List.find (\<lambda>c. co_tenant_id c = 1 \<and> co_product_id c = 1) (cat_compositions lunch6) = Some (lunch\<lparr>co_status := ''ACTIVE''\<rparr>)"
    by (simp add: lunch6_def lunch_def)
  with accepted_choices_are_the_right_ones[of lunch6 1 1 tea] show ?thesis by (simp add: lunch6_rows tea_chosen)
qed

theorem shown_is_choosable_witness: "choosable lunch6 (lunch\<lparr>co_status := ''ACTIVE''\<rparr>) 1 2"
proof -
  have ids: "distinct (map op_id (cat_options lunch6))" by (simp add: lunch6_rows lunch_drink_def)
  obtain graph where graph: "load_composition_graph lunch6 1 1 True = Some graph"
    and parts: "gh_composition graph = lunch\<lparr>co_status := ''ACTIVE''\<rparr>"
    "gh_groups graph = [(lunch_drinks, map (\<lambda>(i, p). (lunch_drink i p, cat_products no_catalog ! nat (p - 1))) [(1, 3), (2, 4)])]"
  proof -
    have "map_option (\<lambda>graph. (gh_composition graph, gh_groups graph)) (load_composition_graph lunch6 1 1 True)
      = Some (lunch\<lparr>co_status := ''ACTIVE''\<rparr>,
          [(lunch_drinks, map (\<lambda>(i, p). (lunch_drink i p, cat_products no_catalog ! nat (p - 1))) [(1, 3), (2, 4)])])"
      by code_simp
    then show thesis using that by auto
  qed
  have "\<forall>(g, os) \<in> set (gh_groups graph). op_id ` fst ` set os = {i. choosable lunch6 (gh_composition graph) (grp_id g) i}"
    using shown_is_choosable[OF ids graph] by blast
  then have "{1, 2} = {i. choosable lunch6 (lunch\<lparr>co_status := ''ACTIVE''\<rparr>) 1 i}"
    by (simp add: parts lunch_drink_def lunch_drinks_def)
  then show ?thesis by blast
qed

end
