(* ===== verification/Menus.thy ===== *)
theory Menus
  imports Compositions
begin

text \<open>
  Which products can be ordered at a location (\<^verbatim>\<open>app/restaurant/catalog/resolution.py\<close>): an active product on
  an active item of an active section of an active menu that is active at the location, in an active
  organization with headquarters.
\<close>

record organization_row =
  org_id :: int
  org_tenant_id :: int
  org_status :: string
  org_headquarters_location_id :: "int option"

record site =
  site_id :: int
  site_tenant_id :: int
  site_organization_id :: int
  site_status :: string
  site_country_code :: "string option"

record menu_row =
  mn_id :: int
  mn_tenant_id :: int
  mn_organization_id :: int
  mn_status :: string

record menu_location =
  ml_tenant_id :: int
  ml_organization_id :: int
  ml_menu_id :: int
  ml_location_id :: int
  ml_status :: string

record menu_section =
  msn_id :: int
  msn_tenant_id :: int
  msn_organization_id :: int
  msn_menu_id :: int
  msn_status :: string

record menu_item =
  mi_tenant_id :: int
  mi_organization_id :: int
  mi_menu_id :: int
  mi_section_id :: int
  mi_product_id :: int
  mi_status :: string

record menus =
  mu_organizations :: "organization_row list"
  mu_sites :: "site list"
  mu_menus :: "menu_row list"
  mu_locations :: "menu_location list"
  mu_sections :: "menu_section list"
  mu_items :: "menu_item list"

definition organization_in_service :: "menus \<Rightarrow> int \<Rightarrow> int \<Rightarrow> bool" where
  "organization_in_service m tenant organization \<longleftrightarrow>
     list_ex (\<lambda>r. org_id r = organization \<and> org_tenant_id r = tenant \<and> org_status r = ''ACTIVE''
       \<and> org_headquarters_location_id r \<noteq> None) (mu_organizations m)"

definition scope_is_valid :: "menus \<Rightarrow> int \<Rightarrow> int \<Rightarrow> int option \<Rightarrow> bool" where
  "scope_is_valid m tenant organization location =
     (if tenant \<le> 0 \<or> organization \<le> 0 then False
      else if \<not> organization_in_service m tenant organization then False
      else case location of
        None \<Rightarrow> True
      | Some l \<Rightarrow>
          if l \<le> 0 then False
          else list_ex (\<lambda>r. site_id r = l \<and> site_tenant_id r = tenant
                 \<and> site_organization_id r = organization \<and> site_status r = ''ACTIVE'') (mu_sites m))"

text \<open>The joins of an item with its section, its menu and the menu's location.\<close>

definition on_the_menu :: "menus \<Rightarrow> int \<Rightarrow> product_row \<Rightarrow> menu_item \<Rightarrow> bool" where
  "on_the_menu m location p i \<longleftrightarrow>
     mi_product_id i = pd_id p \<and> mi_tenant_id i = pd_tenant_id p \<and> mi_organization_id i = pd_organization_id p
     \<and> mi_status i = ''ACTIVE''
     \<and> list_ex (\<lambda>s. msn_id s = mi_section_id i \<and> msn_menu_id s = mi_menu_id i \<and> msn_tenant_id s = mi_tenant_id i
          \<and> msn_organization_id s = mi_organization_id i \<and> msn_status s = ''ACTIVE'') (mu_sections m)
     \<and> list_ex (\<lambda>n. mn_id n = mi_menu_id i \<and> mn_tenant_id n = mi_tenant_id i
          \<and> mn_organization_id n = mi_organization_id i \<and> mn_status n = ''ACTIVE''
          \<and> list_ex (\<lambda>l. ml_menu_id l = mn_id n \<and> ml_tenant_id l = mn_tenant_id n
               \<and> ml_organization_id l = mn_organization_id n \<and> ml_status l = ''ACTIVE''
               \<and> ml_location_id l = location) (mu_locations m)) (mu_menus m)"

definition orderable_product_ids :: "catalog \<Rightarrow> menus \<Rightarrow> int \<Rightarrow> int \<Rightarrow> int \<Rightarrow> int list \<Rightarrow> int list" where
  "orderable_product_ids c m tenant organization location ids =
     map pd_id (filter (\<lambda>p. pd_tenant_id p = tenant \<and> pd_organization_id p = organization \<and> pd_id p \<in> set ids
       \<and> pd_status p = ''ACTIVE'' \<and> list_ex (on_the_menu m location p) (mu_items m)) (cat_products c))"

definition is_product_orderable :: "catalog \<Rightarrow> menus \<Rightarrow> int \<Rightarrow> int \<Rightarrow> int \<Rightarrow> int \<Rightarrow> bool" where
  "is_product_orderable c m tenant organization location product_id =
     (if product_id \<le> 0 \<or> \<not> scope_is_valid m tenant organization (Some location) then False
      else product_id \<in> set (orderable_product_ids c m tenant organization location [product_id]))"

end
