(* ===== verification/Pricing.thy ===== *)
theory Pricing
  imports Menus
begin

text \<open>
  Prices and promotions (\<^verbatim>\<open>app/restaurant/pricing/service.py\<close>): the price of a product at a location and
  the promotions that apply to it at an instant.
\<close>

datatype pricing_read_error = PricingReadContextError

section \<open>Tables\<close>

record product_price =
  prc_id :: int
  prc_tenant_id :: int
  prc_organization_id :: int
  prc_product_id :: int
  prc_location_id :: int
  prc_amount :: rat
  prc_currency :: string
  prc_status :: string
  prc_source :: string

record promotion =
  pm_id :: int
  pm_tenant_id :: int
  pm_organization_id :: int
  pm_name :: string
  pm_promotion_type :: string
  pm_benefit_value :: rat
  pm_currency :: "string option"
  pm_starts_at :: datetime
  pm_ends_at :: datetime
  pm_applies_to_all_locations :: bool
  pm_is_combinable :: bool
  pm_priority :: int
  pm_status :: string

record promotion_product =
  pmp_tenant_id :: int
  pmp_promotion_id :: int
  pmp_product_id :: int
  pmp_status :: string

record promotion_location =
  pml_tenant_id :: int
  pml_promotion_id :: int
  pml_location_id :: int
  pml_status :: string

record pricing =
  pg_prices :: "product_price list"
  pg_promotions :: "promotion list"
  pg_promotion_products :: "promotion_product list"
  pg_promotion_locations :: "promotion_location list"

text \<open>The constraints of the tables.\<close>

definition product_price_ok :: "product_price \<Rightarrow> bool" where
  "product_price_ok r \<longleftrightarrow> 0 \<le> prc_amount r \<and> currency_code (prc_currency r)
     \<and> prc_status r \<in> {''ACTIVE'', ''INACTIVE''} \<and> prc_source r \<in> {''PLATFORM'', ''POS''}"

definition product_prices_collide :: "product_price \<Rightarrow> product_price \<Rightarrow> bool" where
  "product_prices_collide a b \<longleftrightarrow> (prc_tenant_id a, prc_product_id a, prc_location_id a)
     = (prc_tenant_id b, prc_product_id b, prc_location_id b)"

definition promotion_ok :: "promotion \<Rightarrow> bool" where
  "promotion_ok r \<longleftrightarrow> pm_promotion_type r \<in> {''PERCENTAGE_DISCOUNT'', ''FIXED_AMOUNT_DISCOUNT''}
     \<and> pm_status r \<in> {''ACTIVE'', ''INACTIVE''} \<and> pm_starts_at r < pm_ends_at r
     \<and> pred_option currency_code (pm_currency r)
     \<and> (pm_promotion_type r = ''PERCENTAGE_DISCOUNT'' \<and> 0 < pm_benefit_value r \<and> pm_benefit_value r \<le> 100
          \<and> pm_currency r = None
        \<or> pm_promotion_type r = ''FIXED_AMOUNT_DISCOUNT'' \<and> 0 < pm_benefit_value r \<and> pm_currency r \<noteq> None)
     \<and> 0 \<le> pm_priority r"

section \<open>Reads\<close>

definition pricing_context :: "catalog \<Rightarrow> menus \<Rightarrow> int \<Rightarrow> int \<Rightarrow> int \<Rightarrow> pricing_read_error + (product_row \<times> site)" where
  "pricing_context c m tenant product_id location_id =
     (case List.find (\<lambda>p. pd_id p = product_id \<and> pd_tenant_id p = tenant) (cat_products c) of
        None \<Rightarrow> Inl PricingReadContextError
      | Some p \<Rightarrow>
          (case List.find (\<lambda>l. site_id l = location_id \<and> site_tenant_id l = tenant
                  \<and> site_organization_id l = pd_organization_id p) (mu_sites m) of
             None \<Rightarrow> Inl PricingReadContextError
           | Some l \<Rightarrow> Inr (p, l)))"

definition get_canonical_current_price ::
  "catalog \<Rightarrow> menus \<Rightarrow> pricing \<Rightarrow> int \<Rightarrow> int \<Rightarrow> int \<Rightarrow> pricing_read_error + product_price option"
where
  "get_canonical_current_price c m g tenant product_id location_id =
     bind_result (pricing_context c m tenant product_id location_id) (\<lambda>(p, l).
       Inr (List.find (\<lambda>r. prc_tenant_id r = tenant \<and> prc_product_id r = pd_id p \<and> prc_location_id r = site_id l
         \<and> prc_status r = ''ACTIVE'') (pg_prices g)))"

definition promotion_applies :: "pricing \<Rightarrow> int \<Rightarrow> product_row \<Rightarrow> int \<Rightarrow> datetime \<Rightarrow> promotion \<Rightarrow> bool" where
  "promotion_applies g tenant p location_id effective_at r \<longleftrightarrow>
     pm_tenant_id r = tenant \<and> pm_organization_id r = pd_organization_id p \<and> pm_status r = ''ACTIVE''
     \<and> pm_starts_at r \<le> effective_at \<and> effective_at < pm_ends_at r
     \<and> list_ex (\<lambda>x. pmp_promotion_id x = pm_id r \<and> pmp_tenant_id x = tenant \<and> pmp_product_id x = pd_id p
          \<and> pmp_status x = ''ACTIVE'') (pg_promotion_products g)
     \<and> (pm_applies_to_all_locations r
        \<or> list_ex (\<lambda>x. pml_promotion_id x = pm_id r \<and> pml_tenant_id x = tenant \<and> pml_location_id x = location_id
             \<and> pml_status x = ''ACTIVE'') (pg_promotion_locations g))"

definition find_canonical_applicable_promotions ::
  "catalog \<Rightarrow> menus \<Rightarrow> pricing \<Rightarrow> int \<Rightarrow> int \<Rightarrow> int \<Rightarrow> datetime \<Rightarrow> pricing_read_error + promotion list"
where
  "find_canonical_applicable_promotions c m g tenant product_id location_id effective_at =
     bind_result (pricing_context c m tenant product_id location_id) (\<lambda>(p, l).
       Inr (order_by pm_id (filter (promotion_applies g tenant p (site_id l) effective_at) (pg_promotions g))))"

end
