(* ===== verification/FiscalProduct.thy ===== *)
theory FiscalProduct
  imports TaxEvidence
begin

text \<open>
  The fiscal classification of a product at an instant (\<^verbatim>\<open>app/restaurant/fiscal_product/service.py\<close>). It
  locks what it reads; \<^theory_text>\<open>sha\<close> is the digest of a canonical value.
\<close>

datatype fiscal_product_error =
    FiscalProductScopeError | FiscalProductEvidenceUnavailableError | FiscalProductEvidenceAmbiguousError

record fiscal_classification =
  fx_id :: int
  fx_tenant_id :: int
  fx_organization_id :: int
  fx_product_id :: int
  fx_fiscal_jurisdiction_code :: string
  fx_product_classification_scheme :: string
  fx_product_classification_code :: string
  fx_unit_classification_scheme :: string
  fx_unit_classification_code :: string
  fx_effective_from :: datetime
  fx_effective_to :: "datetime option"
  fx_status :: string

record fiscal_candidate =
  fk_tenant_id :: int
  fk_organization_id :: int
  fk_product_id :: int
  fk_fiscal_jurisdiction_code :: string
  fk_effective_at :: pytime

record fiscal_product_evidence =
  fe_source_product_fiscal_classification_id :: int
  fe_fiscal_jurisdiction_code :: string
  fe_product_classification_scheme :: string
  fe_product_classification_code :: string
  fe_unit_classification_scheme :: string
  fe_unit_classification_code :: string
  fe_schema_version :: int
  fe_evidence_fingerprint :: string

definition FISCAL_SCHEMA_VERSION :: int where
  "FISCAL_SCHEMA_VERSION = 1"

definition fiscal_jurisdiction :: "string \<Rightarrow> fiscal_product_error + string" where
  "fiscal_jurisdiction value =
     (if strip value = [] \<or> value \<noteq> strip value then Inl FiscalProductEvidenceUnavailableError
      else if 16 < length value then Inl FiscalProductEvidenceUnavailableError
      else Inr value)"

definition classification_effective :: "datetime \<Rightarrow> fiscal_classification \<Rightarrow> bool" where
  "classification_effective t r \<longleftrightarrow> fx_status r = ''ACTIVE'' \<and> fx_effective_from r \<le> t
     \<and> (case fx_effective_to r of None \<Rightarrow> True | Some e \<Rightarrow> t < e)"

text \<open>The query compares the jurisdiction as the column does; the code then compares it exactly.\<close>

definition classifications_for ::
  "(string \<Rightarrow> string \<Rightarrow> bool) \<Rightarrow> fiscal_classification list \<Rightarrow> fiscal_candidate \<Rightarrow> string \<Rightarrow> datetime
   \<Rightarrow> fiscal_classification list"
where
  "classifications_for ci rows q jurisdiction t =
     order_by fx_id (filter (\<lambda>r. fx_tenant_id r = fk_tenant_id q \<and> fx_organization_id r = fk_organization_id q
       \<and> fx_product_id r = fk_product_id q \<and> ci (fx_fiscal_jurisdiction_code r) jurisdiction
       \<and> classification_effective t r) rows)"

definition fiscal_payload :: "fiscal_candidate \<Rightarrow> fiscal_classification \<Rightarrow> json" where
  "fiscal_payload q r = JObj [
     (''schema_version'', JInt FISCAL_SCHEMA_VERSION),
     (''tenant_id'', JInt (fk_tenant_id q)),
     (''organization_id'', JInt (fk_organization_id q)),
     (''product_id'', JInt (fk_product_id q)),
     (''source_product_fiscal_classification_id'', JInt (fx_id r)),
     (''fiscal_jurisdiction_code'', JStr (fx_fiscal_jurisdiction_code r)),
     (''product_classification_scheme'', JStr (fx_product_classification_scheme r)),
     (''product_classification_code'', JStr (fx_product_classification_code r)),
     (''unit_classification_scheme'', JStr (fx_unit_classification_scheme r)),
     (''unit_classification_code'', JStr (fx_unit_classification_code r))]"

definition resolve_fiscal_product_evidence ::
  "(json \<Rightarrow> string) \<Rightarrow> (string \<Rightarrow> string \<Rightarrow> bool) \<Rightarrow> product_row list \<Rightarrow> fiscal_classification list
   \<Rightarrow> fiscal_candidate \<Rightarrow> fiscal_product_error + fiscal_product_evidence"
where
  "resolve_fiscal_product_evidence sha ci products rows q =
     bind_result (fiscal_jurisdiction (fk_fiscal_jurisdiction_code q)) (\<lambda>jurisdiction.
     case utc_naive (fk_effective_at q) of
       None \<Rightarrow> Inl FiscalProductEvidenceUnavailableError
     | Some t \<Rightarrow>
         if List.find (\<lambda>p. pd_id p = fk_product_id q \<and> pd_tenant_id p = fk_tenant_id q
              \<and> pd_organization_id p = fk_organization_id q) products = None
         then Inl FiscalProductScopeError
         else
           (let found = classifications_for ci rows q jurisdiction t in
            if list_ex (\<lambda>r. fx_fiscal_jurisdiction_code r \<noteq> jurisdiction) found then Inl FiscalProductScopeError
            else case found of
                [] \<Rightarrow> Inl FiscalProductEvidenceUnavailableError
              | r # rest \<Rightarrow>
                  if rest \<noteq> [] then Inl FiscalProductEvidenceAmbiguousError
                  else if list_ex (\<lambda>v. strip v = [] \<or> v \<noteq> strip v)
                      [fx_fiscal_jurisdiction_code r, fx_product_classification_scheme r,
                       fx_product_classification_code r, fx_unit_classification_scheme r, fx_unit_classification_code r]
                  then Inl FiscalProductEvidenceUnavailableError
                  else Inr \<lparr>fe_source_product_fiscal_classification_id = fx_id r,
                       fe_fiscal_jurisdiction_code = fx_fiscal_jurisdiction_code r,
                       fe_product_classification_scheme = fx_product_classification_scheme r,
                       fe_product_classification_code = fx_product_classification_code r,
                       fe_unit_classification_scheme = fx_unit_classification_scheme r,
                       fe_unit_classification_code = fx_unit_classification_code r,
                       fe_schema_version = FISCAL_SCHEMA_VERSION,
                       fe_evidence_fingerprint = sha (fiscal_payload q r)\<rparr>))"

end
