(* ===== verification/OrderTables.thy ===== *)
theory OrderTables
  imports Pricing FiscalProduct Checks
begin

text \<open>
  The tables of ordering (\<^verbatim>\<open>app/models/order_draft.py\<close>, \<^verbatim>\<open>restaurant_order.py\<close>, \<^verbatim>\<open>restaurant_tax.py\<close>,
  \<^verbatim>\<open>fiscal_product.py\<close>) with their constraints: drafts, their items and selections, and the accepted
  orders with what an acceptance records of each line.
\<close>

record conversation_row =
  cn_id :: int
  cn_tenant_id :: int
  cn_organization_id :: int
  cn_location_id :: "int option"
  cn_resource_id :: "int option"
  cn_channel :: string
  cn_status :: string

section \<open>Drafts\<close>

record draft =
  dr_id :: int
  dr_tenant_id :: int
  dr_organization_id :: int
  dr_location_id :: int
  dr_conversation_id :: int
  dr_version :: int
  dr_status :: string
  dr_current_slot :: "int option"
  dr_terminal_at :: "datetime option"
  dr_abandoned_by :: "actor option"
  dr_abandon_idempotency_key :: "string option"
  dr_abandon_request_fingerprint :: "string option"

record draft_item =
  di_id :: int
  di_tenant_id :: int
  di_organization_id :: int
  di_draft_id :: int
  di_product_id :: int
  di_composition_id :: "int option"
  di_quantity :: rat
  di_position :: int

record draft_selection =
  sl_id :: int
  sl_tenant_id :: int
  sl_organization_id :: int
  sl_draft_id :: int
  sl_draft_item_id :: int
  sl_composition_id :: int
  sl_choice_group_id :: int
  sl_choice_option_id :: int

definition draft_ok :: "draft \<Rightarrow> bool" where
  "draft_ok r \<longleftrightarrow> 1 \<le> dr_version r \<and> dr_status r \<in> {''OPEN'', ''ACCEPTED'', ''ABANDONED''}
     \<and> (dr_current_slot r = None \<or> dr_current_slot r = Some 1)
     \<and> (dr_status r = ''OPEN'' \<and> dr_current_slot r = Some 1 \<and> dr_terminal_at r = None
        \<or> dr_status r \<in> {''ACCEPTED'', ''ABANDONED''} \<and> dr_current_slot r = None \<and> dr_terminal_at r \<noteq> None)"

definition drafts_collide :: "draft \<Rightarrow> draft \<Rightarrow> bool" where
  "drafts_collide a b \<longleftrightarrow> dr_tenant_id a = dr_tenant_id b \<and> dr_conversation_id a = dr_conversation_id b
     \<and> (dr_current_slot a \<noteq> None \<and> dr_current_slot a = dr_current_slot b
        \<or> dr_abandon_idempotency_key a \<noteq> None \<and> dr_abandon_idempotency_key a = dr_abandon_idempotency_key b)"

definition draft_item_ok :: "draft_item \<Rightarrow> bool" where
  "draft_item_ok r \<longleftrightarrow> 0 < di_quantity r \<and> 0 \<le> di_position r"

definition draft_items_collide :: "draft_item \<Rightarrow> draft_item \<Rightarrow> bool" where
  "draft_items_collide a b \<longleftrightarrow> di_draft_id a = di_draft_id b \<and> di_position a = di_position b"

definition draft_selections_collide :: "draft_selection \<Rightarrow> draft_selection \<Rightarrow> bool" where
  "draft_selections_collide a b \<longleftrightarrow> sl_draft_item_id a = sl_draft_item_id b
     \<and> sl_choice_option_id a = sl_choice_option_id b"

section \<open>Accepted orders\<close>

text \<open>All columns but the customer of the diner.\<close>

record accepted_order =
  ao_id :: int
  ao_tenant_id :: int
  ao_organization_id :: int
  ao_location_id :: int
  ao_resource_id :: int
  ao_service_session_id :: int
  ao_diner_session_id :: int
  ao_conversation_id :: int
  ao_source_order_draft_id :: int
  ao_source_channel :: string
  ao_status :: string
  ao_accepted_draft_version :: int
  ao_confirmation_idempotency_key :: string
  ao_commercial_fingerprint :: string
  ao_fingerprint_schema_version :: int
  ao_currency :: string
  ao_tax_mode :: string
  ao_rounding_policy :: string
  ao_subtotal :: rat
  ao_total_discount :: rat
  ao_pre_round_total :: rat
  ao_rounding_adjustment :: rat
  ao_payable_total :: rat
  ao_accepted_at :: datetime

record accepted_item =
  ai_id :: int
  ai_tenant_id :: int
  ai_organization_id :: int
  ai_order_id :: int
  ai_source_order_draft_item_id :: int
  ai_product_id :: int
  ai_product_name :: string
  ai_composition_id :: "int option"
  ai_quantity :: rat
  ai_position :: int
  ai_source_product_price_id :: int
  ai_price_source :: string
  ai_unit_price :: rat
  ai_base_amount :: rat
  ai_discount_amount :: rat
  ai_commercial_amount :: rat

record accepted_component =
  ac_id :: int
  ac_tenant_id :: int
  ac_organization_id :: int
  ac_order_id :: int
  ac_order_item_id :: int
  ac_kind :: string
  ac_position :: int
  ac_source_component_id :: "int option"
  ac_source_choice_group_id :: "int option"
  ac_source_choice_option_id :: "int option"
  ac_choice_group_name :: "string option"
  ac_product_id :: int
  ac_product_name :: string
  ac_quantity :: rat

record accepted_promotion =
  ap_id :: int
  ap_tenant_id :: int
  ap_organization_id :: int
  ap_order_id :: int
  ap_order_item_id :: int
  ap_promotion_id :: int
  ap_application_order :: int
  ap_promotion_name :: string
  ap_promotion_type :: string
  ap_promotion_value :: rat
  ap_promotion_currency :: "string option"
  ap_priority :: int
  ap_is_combinable :: bool
  ap_calculated_discount :: rat

record tax_snapshot =
  tsn_id :: int
  tsn_tenant_id :: int
  tsn_organization_id :: int
  tsn_location_id :: int
  tsn_restaurant_order_id :: int
  tsn_restaurant_order_item_id :: int
  tsn_evidence :: tax_evidence    \<comment> \<open>the columns that are copied from the evidence\<close>
  tsn_created_at :: datetime

record fiscal_snapshot =
  fsn_id :: int
  fsn_tenant_id :: int
  fsn_organization_id :: int
  fsn_location_id :: int
  fsn_restaurant_order_id :: int
  fsn_restaurant_order_item_id :: int
  fsn_evidence :: fiscal_product_evidence
  fsn_created_at :: datetime

definition accepted_order_ok :: "accepted_order \<Rightarrow> bool" where
  "accepted_order_ok r \<longleftrightarrow> ao_status r = ''ACCEPTED'' \<and> 1 \<le> ao_accepted_draft_version r
     \<and> 1 \<le> ao_fingerprint_schema_version r \<and> ao_tax_mode r = ''INCLUDED''
     \<and> ao_rounding_policy r = ''WHOLE_UNIT_HALF_DOWN''
     \<and> 0 \<le> ao_subtotal r \<and> 0 \<le> ao_total_discount r \<and> 0 \<le> ao_pre_round_total r \<and> 0 \<le> ao_payable_total r
     \<and> ao_pre_round_total r = ao_subtotal r - ao_total_discount r
     \<and> ao_payable_total r = ao_pre_round_total r + ao_rounding_adjustment r"

definition accepted_orders_collide :: "accepted_order \<Rightarrow> accepted_order \<Rightarrow> bool" where
  "accepted_orders_collide a b \<longleftrightarrow> ao_source_order_draft_id a = ao_source_order_draft_id b
     \<or> (ao_tenant_id a, ao_diner_session_id a, ao_confirmation_idempotency_key a)
       = (ao_tenant_id b, ao_diner_session_id b, ao_confirmation_idempotency_key b)"

definition accepted_item_ok :: "accepted_item \<Rightarrow> bool" where
  "accepted_item_ok r \<longleftrightarrow> 0 < ai_quantity r \<and> 0 \<le> ai_position r \<and> 0 \<le> ai_unit_price r \<and> 0 \<le> ai_base_amount r
     \<and> 0 \<le> ai_discount_amount r \<and> 0 \<le> ai_commercial_amount r
     \<and> ai_commercial_amount r = ai_base_amount r - ai_discount_amount r"

definition accepted_items_collide :: "accepted_item \<Rightarrow> accepted_item \<Rightarrow> bool" where
  "accepted_items_collide a b \<longleftrightarrow> ai_order_id a = ai_order_id b
     \<and> (ai_source_order_draft_item_id a = ai_source_order_draft_item_id b \<or> ai_position a = ai_position b)"

definition accepted_component_ok :: "accepted_component \<Rightarrow> bool" where
  "accepted_component_ok r \<longleftrightarrow> 0 \<le> ac_position r \<and> 0 < ac_quantity r
     \<and> (ac_kind r = ''FIXED'' \<and> ac_source_component_id r \<noteq> None \<and> ac_source_choice_group_id r = None
          \<and> ac_source_choice_option_id r = None \<and> ac_choice_group_name r = None
        \<or> ac_kind r = ''CHOICE'' \<and> ac_source_component_id r = None \<and> ac_source_choice_group_id r \<noteq> None
          \<and> ac_source_choice_option_id r \<noteq> None \<and> ac_choice_group_name r \<noteq> None)"

definition accepted_components_collide :: "accepted_component \<Rightarrow> accepted_component \<Rightarrow> bool" where
  "accepted_components_collide a b \<longleftrightarrow> ac_order_item_id a = ac_order_item_id b \<and> ac_position a = ac_position b"

definition accepted_promotion_ok :: "accepted_promotion \<Rightarrow> bool" where
  "accepted_promotion_ok r \<longleftrightarrow> 0 \<le> ap_application_order r \<and> 0 \<le> ap_priority r \<and> 0 < ap_promotion_value r
     \<and> 0 \<le> ap_calculated_discount r"

definition accepted_promotions_collide :: "accepted_promotion \<Rightarrow> accepted_promotion \<Rightarrow> bool" where
  "accepted_promotions_collide a b \<longleftrightarrow> ap_order_item_id a = ap_order_item_id b
     \<and> ap_application_order a = ap_application_order b"

definition tax_snapshot_ok :: "tax_snapshot \<Rightarrow> bool" where
  "tax_snapshot_ok r \<longleftrightarrow> (let e = tsn_evidence r in
     0 \<le> te_tax_rate e \<and> 0 \<le> te_taxable_base e \<and> 0 \<le> te_tax_amount e \<and> 1 \<le> te_schema_version e
     \<and> 0 \<le> te_fiscal_unit_value e \<and> 0 \<le> te_fiscal_line_amount e \<and> 0 \<le> te_fiscal_discount_amount e
     \<and> te_fiscal_line_amount e - te_fiscal_discount_amount e = te_taxable_base e)"

definition fiscal_snapshot_ok :: "fiscal_snapshot \<Rightarrow> bool" where
  "fiscal_snapshot_ok r \<longleftrightarrow> 1 \<le> fe_schema_version (fsn_evidence r)"

definition fiscal_snapshots_collide :: "fiscal_snapshot \<Rightarrow> fiscal_snapshot \<Rightarrow> bool" where
  "fiscal_snapshots_collide a b \<longleftrightarrow> fsn_restaurant_order_item_id a = fsn_restaurant_order_item_id b"

section \<open>The tables\<close>

text \<open>Of \<^theory_text>\<open>og_core\<close> ordering reads the sessions and the members and tables of the checks.\<close>

record ordering =
  og_core :: db
  og_catalog :: catalog
  og_menus :: menus
  og_pricing :: pricing
  og_tax_rules :: "tax_rule list"
  og_classifications :: "fiscal_classification list"
  og_conversations :: "conversation_row list"
  og_drafts :: "draft list"
  og_items :: "draft_item list"
  og_selections :: "draft_selection list"
  og_next_item_id :: int       \<comment> \<open>the AUTO_INCREMENT counters: a removed row gives its key to no other\<close>
  og_next_selection_id :: int
  og_orders :: "accepted_order list"
  og_order_items :: "accepted_item list"
  og_order_components :: "accepted_component list"
  og_order_promotions :: "accepted_promotion list"
  og_tax_snapshots :: "tax_snapshot list"
  og_fiscal_snapshots :: "fiscal_snapshot list"

end
