(* ===== verification/Drafts.thy ===== *)
theory Drafts
  imports OrderTables ExactDecimals
begin

text \<open>
  Order drafts (\<^verbatim>\<open>app/restaurant/orders/service.py\<close>): the draft of a conversation, its items and their
  selections, every operation that changes them, and the evaluation of what a draft still lacks. With
  them the locks of \<^verbatim>\<open>service_sessions/service.py\<close> that guard a write for a diner.

  \<^theory_text>\<open>s\<close> is the snapshot of the transaction, which it reads without locks and which its first read opened;
  \<^theory_text>\<open>d\<close> are the tables when it holds its locks; \<^theory_text>\<open>held\<close> are the diner sessions its session loaded before.
  Every operation that changes a draft answers with \<^theory_text>\<open>evaluate_draft\<close> on the tables it committed.
\<close>

datatype draft_error =
    DraftNotFoundError | DraftContextError | DraftNotMutableError | DraftItemNotFoundError
  | InvalidDraftQuantityError | ProductNotOrderableError | InvalidDraftCompositionError
  | InvalidDraftSelectionError | DraftConcurrencyConflictError
  | DinerAuthorizationError      \<comment> \<open>of the service sessions\<close>
  | DraftOrderingBlockedError    \<comment> \<open>\<^verbatim>\<open>OrderingBlockedError\<close> of the checks\<close>
  | DraftIntegrityError          \<comment> \<open>a constraint refuses the statement\<close>
  | DraftStaleDataError          \<comment> \<open>an UPDATE that matches no row\<close>
  | DraftKeyError                \<comment> \<open>a dict without the key\<close>

section \<open>Quantities\<close>

definition validate_quantity :: "decimal_argument \<Rightarrow> draft_error + rat" where
  "validate_quantity value =
     (case value of
        ExactDecimal q \<Rightarrow>
          if decimal_value q \<le> 0 then Inl InvalidDraftQuantityError
          else if snd q < - 4 then Inl InvalidDraftQuantityError
          else if MAX_NUMERIC < decimal_value q then Inl InvalidDraftQuantityError
          else Inr (decimal_value q)
      | _ \<Rightarrow> Inl InvalidDraftQuantityError)"

section \<open>Locks\<close>

text \<open>
  The chain of locks of a write for a diner: service session, diner session, conversation. The tables of
  the checks that may block ordering are read without a lock.
\<close>

definition diner_as_held :: "(int \<Rightarrow> diner_session option) \<Rightarrow> diner_session \<Rightarrow> diner_session" where
  "diner_as_held held r = (case held (ds_id r) of None \<Rightarrow> r | Some h \<Rightarrow> h)"

definition lock_diner_write_context ::
  "(int \<Rightarrow> diner_session option) \<Rightarrow> ordering \<Rightarrow> ordering \<Rightarrow> int \<Rightarrow> int \<Rightarrow> int
   \<Rightarrow> draft_error + (service_session \<times> diner_session \<times> conversation_row)"
where
  "lock_diner_write_context held s d tenant diner_session_id conversation_id =
     (case List.find (\<lambda>x. ds_id x = diner_session_id \<and> ds_tenant_id x = tenant
             \<and> ds_conversation_id x = conversation_id) (diner_sessions (og_core s)) of
        None \<Rightarrow> Inl DinerAuthorizationError
      | Some identity \<Rightarrow>
     (let service_session_id = ds_service_session_id identity in
      case (List.find (\<lambda>x. ss_id x = service_session_id \<and> ss_tenant_id x = tenant) (service_sessions (og_core d)),
            List.find (\<lambda>x. ds_id x = diner_session_id \<and> ds_tenant_id x = tenant
              \<and> ds_service_session_id x = service_session_id \<and> ds_conversation_id x = conversation_id)
              (diner_sessions (og_core d)),
            List.find (\<lambda>x. cn_id x = conversation_id \<and> cn_tenant_id x = tenant) (og_conversations d)) of
        (Some session, Some row, Some conversation) \<Rightarrow>
          (let diner = diner_as_held held row in
           if ss_status session \<noteq> ''OPEN'' \<or> ss_open_slot session \<noteq> Some 1
              \<or> ds_status diner \<noteq> ''ACTIVE'' \<or> ds_active_slot diner \<noteq> Some 1
              \<or> cn_status conversation \<noteq> ''ACTIVE''
              \<or> (ss_organization_id session, ss_location_id session, ss_resource_id session)
                  \<noteq> (ds_organization_id diner, ds_location_id diner, ds_resource_id diner)
              \<or> (cn_organization_id conversation, cn_location_id conversation, cn_resource_id conversation)
                  \<noteq> (ds_organization_id diner, Some (ds_location_id diner), Some (ds_resource_id diner))
           then Inl DinerAuthorizationError
           else if ensure_ordering_allowed (og_core s) tenant (ds_id diner) \<noteq> Inr ()
           then Inl DraftOrderingBlockedError
           else Inr (session, diner, conversation))
      | _ \<Rightarrow> Inl DinerAuthorizationError))"

definition lock_ordering_context_for_conversation ::
  "(int \<Rightarrow> diner_session option) \<Rightarrow> ordering \<Rightarrow> ordering \<Rightarrow> int \<Rightarrow> int
   \<Rightarrow> draft_error + (service_session \<times> diner_session \<times> conversation_row) option"
where
  "lock_ordering_context_for_conversation held s d tenant conversation_id =
     (case List.find (\<lambda>x. ds_tenant_id x = tenant \<and> ds_conversation_id x = conversation_id)
             (diner_sessions (og_core s)) of
        None \<Rightarrow> Inr None
      | Some row \<Rightarrow>
          (let diner = diner_as_held held row in
           bind_result (lock_diner_write_context (held(ds_id row \<mapsto> diner)) s d tenant (ds_id diner) conversation_id)
             (\<lambda>r. Inr (Some r))))"

definition validate_diner_authority :: "ordering \<Rightarrow> int \<Rightarrow> int \<Rightarrow> int \<Rightarrow> draft_error + unit" where
  "validate_diner_authority s tenant diner_session_id conversation_id =
     ensure (list_ex (\<lambda>x. ds_id x = diner_session_id \<and> ds_tenant_id x = tenant
         \<and> ds_conversation_id x = conversation_id \<and> ds_status x = ''ACTIVE'' \<and> ds_active_slot x = Some 1
         \<and> list_ex (\<lambda>y. ss_id y = ds_service_session_id x \<and> ss_status y = ''OPEN'' \<and> ss_open_slot y = Some 1)
             (service_sessions (og_core s))) (diner_sessions (og_core s))) DinerAuthorizationError"

definition conversation_for_update :: "ordering \<Rightarrow> int \<Rightarrow> int \<Rightarrow> draft_error + conversation_row" where
  "conversation_for_update d tenant conversation_id =
     (case List.find (\<lambda>x. cn_id x = conversation_id \<and> cn_tenant_id x = tenant) (og_conversations d) of
        None \<Rightarrow> Inl DraftNotFoundError
      | Some c \<Rightarrow> Inr c)"

text \<open>The conversation of a write, locked for its owner or for staff.\<close>

definition lock_conversation ::
  "(int \<Rightarrow> diner_session option) \<Rightarrow> ordering \<Rightarrow> ordering \<Rightarrow> int \<Rightarrow> int option \<Rightarrow> int option \<Rightarrow> int
   \<Rightarrow> draft_error + conversation_row"
where
  "lock_conversation held s d tenant owner owned conversation_id =
     (case owner of
        Some diner_session_id \<Rightarrow>
          if owned \<noteq> Some conversation_id then Inl DraftNotFoundError
          else bind_result (lock_diner_write_context held s d tenant diner_session_id conversation_id)
                 (\<lambda>_. conversation_for_update d tenant conversation_id)
      | None \<Rightarrow>
          bind_result (lock_ordering_context_for_conversation held s d tenant conversation_id)
            (\<lambda>locked. case locked of
               Some (_, _, conversation) \<Rightarrow> Inr conversation
             | None \<Rightarrow> conversation_for_update d tenant conversation_id))"

definition valid_location :: "ordering \<Rightarrow> conversation_row \<Rightarrow> draft_error + unit" where
  "valid_location s c =
     (case cn_location_id c of
        None \<Rightarrow> Inl DraftContextError
      | Some l \<Rightarrow> ensure (list_ex (\<lambda>r. site_id r = l \<and> site_tenant_id r = cn_tenant_id c
            \<and> site_organization_id r = cn_organization_id c \<and> site_status r = ''ACTIVE''
            \<and> organization_in_service (og_menus s) (site_tenant_id r) (site_organization_id r))
            (mu_sites (og_menus s))) DraftContextError)"

section \<open>Opening and abandoning\<close>

definition current_draft :: "ordering \<Rightarrow> int \<Rightarrow> int \<Rightarrow> draft option" where
  "current_draft d tenant conversation_id =
     List.find (\<lambda>r. dr_tenant_id r = tenant \<and> dr_conversation_id r = conversation_id
       \<and> dr_status r = ''OPEN'' \<and> dr_current_slot r = Some 1) (og_drafts d)"

definition get_or_create_draft ::
  "(int \<Rightarrow> diner_session option) \<Rightarrow> ordering \<Rightarrow> int \<Rightarrow> int \<Rightarrow> int option \<Rightarrow> int option \<Rightarrow> ordering
   \<Rightarrow> draft_error + (int \<times> ordering)"
where
  "get_or_create_draft held s tenant conversation_id owner owned d =
     bind_result (lock_conversation held s d tenant owner owned conversation_id) (\<lambda>c.
     if cn_status c \<noteq> ''ACTIVE'' then Inl DraftNotMutableError
     else bind_result (valid_location s c) (\<lambda>_.
       case current_draft d tenant (cn_id c) of
         Some r \<Rightarrow> Inr (dr_id r, d)
       | None \<Rightarrow>
           (let r = \<lparr>dr_id = next_id dr_id (og_drafts d), dr_tenant_id = tenant,
                     dr_organization_id = cn_organization_id c, dr_location_id = the (cn_location_id c),
                     dr_conversation_id = cn_id c, dr_version = 1, dr_status = ''OPEN'',
                     dr_current_slot = Some 1, dr_terminal_at = None, dr_abandoned_by = None,
                     dr_abandon_idempotency_key = None, dr_abandon_request_fingerprint = None\<rparr>
            in if list_ex (drafts_collide r) (og_drafts d) then Inl DraftIntegrityError
               else Inr (dr_id r, d\<lparr>og_drafts := og_drafts d @ [r]\<rparr>))))"

definition locked_mutable_draft ::
  "(int \<Rightarrow> diner_session option) \<Rightarrow> ordering \<Rightarrow> ordering \<Rightarrow> int \<Rightarrow> int \<Rightarrow> int \<Rightarrow> int option \<Rightarrow> int option
   \<Rightarrow> draft_error + draft"
where
  "locked_mutable_draft held s d tenant draft_id expected_version owner owned =
     (case List.find (\<lambda>r. dr_id r = draft_id \<and> dr_tenant_id r = tenant) (og_drafts s) of
        None \<Rightarrow> Inl DraftNotFoundError
      | Some seen \<Rightarrow>
     bind_result (lock_conversation held s d tenant owner owned (dr_conversation_id seen)) (\<lambda>c.
       case List.find (\<lambda>r. dr_id r = draft_id \<and> dr_tenant_id r = tenant) (og_drafts d) of
         None \<Rightarrow> Inl DraftNotFoundError
       | Some r \<Rightarrow>
           if cn_organization_id c \<noteq> dr_organization_id r \<or> cn_location_id c \<noteq> Some (dr_location_id r)
           then Inl DraftContextError
           else if cn_status c \<noteq> ''ACTIVE'' then Inl DraftNotMutableError
           else if dr_status r \<noteq> ''OPEN'' \<or> dr_current_slot r \<noteq> Some 1 \<or> dr_terminal_at r \<noteq> None
           then Inl DraftNotMutableError
           else if dr_version r \<noteq> expected_version then Inl DraftConcurrencyConflictError
           else Inr r))"

text \<open>
  \<^theory_text>\<open>e\<close> are the tables when the key is looked up, before the locks. A draft that was abandoned under the
  key is returned as it is.
\<close>

definition abandon_request :: "int \<Rightarrow> int \<Rightarrow> json" where
  "abandon_request conversation_id expected_version =
     JObj [(''conversation_id'', JInt conversation_id), (''expected_version'', JInt expected_version)]"

definition abandon_current_draft ::
  "(json \<Rightarrow> string) \<Rightarrow> (int \<Rightarrow> diner_session option) \<Rightarrow> ordering \<Rightarrow> ordering \<Rightarrow> execution_context \<Rightarrow> datetime
   \<Rightarrow> int \<Rightarrow> int \<Rightarrow> int \<Rightarrow> string \<Rightarrow> int option \<Rightarrow> int option \<Rightarrow> ordering \<Rightarrow> draft_error + (draft \<times> ordering)"
where
  "abandon_current_draft sha held e s ctx now tenant conversation_id expected_version key owner owned d =
     (let fingerprint = sha (abandon_request conversation_id expected_version) in
      case List.find (\<lambda>r. dr_tenant_id r = tenant \<and> dr_conversation_id r = conversation_id
             \<and> dr_abandon_idempotency_key r = Some key) (og_drafts e) of
        Some r \<Rightarrow> if dr_abandon_request_fingerprint r \<noteq> Some fingerprint then Inl DraftConcurrencyConflictError
                   else Inr (r, d)
      | None \<Rightarrow>
     bind_result (case owner of
          Some diner_session_id \<Rightarrow>
            if owned \<noteq> Some conversation_id then Inl DraftNotFoundError
            else bind_result (lock_diner_write_context held s d tenant diner_session_id conversation_id) (\<lambda>_. Inr ())
        | None \<Rightarrow> bind_result (lock_ordering_context_for_conversation held s d tenant conversation_id) (\<lambda>_. Inr ()))
       (\<lambda>_.
       case current_draft d tenant conversation_id of
         None \<Rightarrow> Inl DraftNotFoundError
       | Some r \<Rightarrow>
           if dr_version r \<noteq> expected_version then Inl DraftConcurrencyConflictError
           else
             (let r' = r\<lparr>dr_status := ''ABANDONED'', dr_current_slot := None, dr_terminal_at := Some now,
                        dr_abandoned_by := Some (actor_values ctx), dr_abandon_idempotency_key := Some key,
                        dr_abandon_request_fingerprint := Some fingerprint\<rparr>
              in if list_ex (\<lambda>q. dr_id q \<noteq> dr_id r \<and> drafts_collide r' q) (og_drafts d) then Inl DraftIntegrityError
                 else Inr (r', d\<lparr>og_drafts := modify dr_id (dr_id r) (\<lambda>_. r') (og_drafts d)\<rparr>))))"

section \<open>Items and selections\<close>

definition bump_draft :: "draft \<Rightarrow> draft list \<Rightarrow> draft list" where
  "bump_draft r rows = modify dr_id (dr_id r) (\<lambda>x. x\<lparr>dr_version := dr_version r + 1\<rparr>) rows"

definition incomplete_code :: "violation_code \<Rightarrow> bool" where
  "incomplete_code c \<longleftrightarrow> c \<in> {REQUIRED_GROUP_MISSING, TOO_FEW_SELECTIONS}"

definition structural :: "selection_validation \<Rightarrow> violation list" where
  "structural v = filter (\<lambda>x. \<not> incomplete_code (vl_code x)) (sv_violations v)"

definition composition_of :: "ordering \<Rightarrow> int \<Rightarrow> int \<Rightarrow> int \<Rightarrow> composition option" where
  "composition_of s tenant organization product_id =
     List.find (\<lambda>c. co_tenant_id c = tenant \<and> co_organization_id c = organization \<and> co_product_id c = product_id)
       (cat_compositions (og_catalog s))"

definition next_position :: "ordering \<Rightarrow> int \<Rightarrow> int \<Rightarrow> int" where
  "next_position s tenant draft_id =
     foldr max (map di_position (filter (\<lambda>i. di_tenant_id i = tenant \<and> di_draft_id i = draft_id) (og_items s))) (- 1) + 1"

definition add_item ::
  "(int \<Rightarrow> diner_session option) \<Rightarrow> ordering \<Rightarrow> int \<Rightarrow> int \<Rightarrow> int \<Rightarrow> decimal_argument \<Rightarrow> int
   \<Rightarrow> int option \<Rightarrow> int option \<Rightarrow> ordering \<Rightarrow> draft_error + (draft_item \<times> ordering)"
where
  "add_item held s tenant draft_id product_id quantity expected_version owner owned d =
     bind_result (validate_quantity quantity) (\<lambda>q.
     bind_result (locked_mutable_draft held s d tenant draft_id expected_version owner owned) (\<lambda>r.
     if \<not> is_product_orderable (og_catalog s) (og_menus s) tenant (dr_organization_id r) (dr_location_id r) product_id
     then Inl ProductNotOrderableError
     else case List.find (\<lambda>p. pd_id p = product_id \<and> pd_tenant_id p = tenant
             \<and> pd_organization_id p = dr_organization_id r \<and> pd_status p = ''ACTIVE'') (cat_products (og_catalog s)) of
       None \<Rightarrow> Inl ProductNotOrderableError
     | Some p \<Rightarrow>
         (let c = composition_of s tenant (dr_organization_id r) product_id in
          if (case c of None \<Rightarrow> False | Some c \<Rightarrow> co_status c \<noteq> ''ACTIVE''
                \<or> structural (validate_selection (og_catalog s) tenant product_id []) \<noteq> [])
          then Inl InvalidDraftCompositionError
          else
            (let item = \<lparr>di_id = og_next_item_id d, di_tenant_id = tenant,
                         di_organization_id = dr_organization_id r, di_draft_id = dr_id r, di_product_id = pd_id p,
                         di_composition_id = map_option co_id c, di_quantity = q,
                         di_position = next_position s tenant (dr_id r)\<rparr>
             in if list_ex (draft_items_collide item) (og_items d) then Inl DraftIntegrityError
                else Inr (item, d\<lparr>og_items := og_items d @ [item], og_next_item_id := og_next_item_id d + 1,
                    og_drafts := bump_draft r (og_drafts d)\<rparr>)))))"

definition draft_item_of :: "ordering \<Rightarrow> draft \<Rightarrow> int \<Rightarrow> draft_error + draft_item" where
  "draft_item_of s r item_id =
     (case List.find (\<lambda>i. di_id i = item_id \<and> di_tenant_id i = dr_tenant_id r
             \<and> di_organization_id i = dr_organization_id r \<and> di_draft_id i = dr_id r) (og_items s) of
        None \<Rightarrow> Inl DraftItemNotFoundError
      | Some i \<Rightarrow> Inr i)"

text \<open>The UPDATE is only sent when the quantity differs from the one that was read.\<close>

definition set_item_quantity ::
  "(int \<Rightarrow> diner_session option) \<Rightarrow> ordering \<Rightarrow> int \<Rightarrow> int \<Rightarrow> int \<Rightarrow> decimal_argument \<Rightarrow> int
   \<Rightarrow> int option \<Rightarrow> int option \<Rightarrow> ordering \<Rightarrow> draft_error + ordering"
where
  "set_item_quantity held s tenant draft_id item_id quantity expected_version owner owned d =
     bind_result (validate_quantity quantity) (\<lambda>q.
     bind_result (locked_mutable_draft held s d tenant draft_id expected_version owner owned) (\<lambda>r.
     bind_result (draft_item_of s r item_id) (\<lambda>i.
       if di_quantity i = q then Inr (d\<lparr>og_drafts := bump_draft r (og_drafts d)\<rparr>)
       else if find_row di_id item_id (og_items d) = None then Inl DraftStaleDataError
       else Inr (d\<lparr>og_items := modify di_id item_id (\<lambda>x. x\<lparr>di_quantity := q\<rparr>) (og_items d),
                   og_drafts := bump_draft r (og_drafts d)\<rparr>))))"

definition selection_of_item :: "int \<Rightarrow> int \<Rightarrow> int \<Rightarrow> draft_selection \<Rightarrow> bool" where
  "selection_of_item tenant draft_id item_id x \<longleftrightarrow> sl_tenant_id x = tenant \<and> sl_draft_id x = draft_id
     \<and> sl_draft_item_id x = item_id"

definition remove_item ::
  "(int \<Rightarrow> diner_session option) \<Rightarrow> ordering \<Rightarrow> int \<Rightarrow> int \<Rightarrow> int \<Rightarrow> int
   \<Rightarrow> int option \<Rightarrow> int option \<Rightarrow> ordering \<Rightarrow> draft_error + ordering"
where
  "remove_item held s tenant draft_id item_id expected_version owner owned d =
     bind_result (locked_mutable_draft held s d tenant draft_id expected_version owner owned) (\<lambda>r.
     bind_result (draft_item_of s r item_id) (\<lambda>i.
       Inr (d\<lparr>og_selections := filter (\<lambda>x. \<not> selection_of_item tenant (dr_id r) (di_id i) x) (og_selections d),
              og_items := filter (\<lambda>x. di_id x \<noteq> di_id i) (og_items d),
              og_drafts := bump_draft r (og_drafts d)\<rparr>)))"

definition group_selection :: "(int \<times> int) list \<Rightarrow> choice_selection list" where
  "group_selection pairs =
     map (\<lambda>g. \<lparr>sel_group_id = g, sel_option_ids = map snd (filter (\<lambda>(h, _). h = g) pairs)\<rparr>)
       (sorted_set (map fst pairs))"

definition replace_group_selections ::
  "(int \<Rightarrow> diner_session option) \<Rightarrow> ordering \<Rightarrow> int \<Rightarrow> int \<Rightarrow> int \<Rightarrow> int \<Rightarrow> int list \<Rightarrow> int
   \<Rightarrow> int option \<Rightarrow> int option \<Rightarrow> ordering \<Rightarrow> draft_error + ordering"
where
  "replace_group_selections held s tenant draft_id item_id group_id option_ids expected_version owner owned d =
     (if \<not> distinct option_ids then Inl InvalidDraftSelectionError
      else if list_ex (\<lambda>i. i \<le> 0) option_ids then Inl InvalidDraftSelectionError
      else
     bind_result (locked_mutable_draft held s d tenant draft_id expected_version owner owned) (\<lambda>r.
     bind_result (draft_item_of s r item_id) (\<lambda>i.
       case di_composition_id i of
         None \<Rightarrow> Inl InvalidDraftCompositionError
       | Some composition_id \<Rightarrow>
           if \<not> list_ex (\<lambda>g. grp_id g = group_id \<and> grp_tenant_id g = tenant
                \<and> grp_organization_id g = dr_organization_id r \<and> grp_composition_id g = composition_id
                \<and> grp_status g = ''ACTIVE'') (cat_groups (og_catalog s))
           then Inl InvalidDraftSelectionError
           else if \<not> list_all (\<lambda>i. list_ex (\<lambda>x. op_id x = i \<and> op_tenant_id x = tenant
                \<and> op_organization_id x = dr_organization_id r \<and> op_group_id x = group_id \<and> op_status x = ''ACTIVE''
                \<and> (case product_in (og_catalog s) (op_tenant_id x) (op_organization_id x) (op_option_product_id x) of
                     None \<Rightarrow> False | Some p \<Rightarrow> pd_status p = ''ACTIVE'')) (cat_options (og_catalog s))) option_ids
           then Inl InvalidDraftSelectionError
           else
             (let current = filter (selection_of_item tenant (dr_id r) (di_id i)) (og_selections s);
                  others = map (\<lambda>x. (sl_choice_group_id x, sl_choice_option_id x))
                    (filter (\<lambda>x. sl_choice_group_id x \<noteq> group_id) current);
                  wanted = insort_key sel_group_id \<lparr>sel_group_id = group_id, sel_option_ids = option_ids\<rparr>
                    (group_selection others);
                  rest = filter (\<lambda>x. \<not> (selection_of_item tenant (dr_id r) (di_id i) x
                    \<and> sl_choice_group_id x = group_id)) (og_selections d);
                  rows = rest @ new_rows (\<lambda>j option_id. \<lparr>sl_id = j, sl_tenant_id = tenant,
                      sl_organization_id = dr_organization_id r, sl_draft_id = dr_id r, sl_draft_item_id = di_id i,
                      sl_composition_id = composition_id, sl_choice_group_id = group_id,
                      sl_choice_option_id = option_id\<rparr>) (og_next_selection_id d) option_ids
              in if structural (validate_selection (og_catalog s) tenant (di_product_id i) wanted) \<noteq> []
                 then Inl InvalidDraftSelectionError
                 else if option_ids \<noteq> [] \<and> find_row di_id (di_id i) (og_items d) = None then Inl DraftIntegrityError
                 else if \<not> collision_free draft_selections_collide rows then Inl DraftIntegrityError
                 else Inr (d\<lparr>og_selections := rows, og_next_selection_id := og_next_selection_id d + int (length option_ids),
                             og_drafts := bump_draft r (og_drafts d)\<rparr>)))))"

end
