(* ===== verification/DraftEvaluation.thy ===== *)
theory DraftEvaluation
  imports Drafts
begin

text \<open>
  What a draft still lacks (\<^verbatim>\<open>evaluate_draft\<close> of \<^verbatim>\<open>app/restaurant/orders/service.py\<close>), on one snapshot
  of the tables.
\<close>

datatype draft_readiness = DRAFT_EMPTY | DRAFT_INCOMPLETE | DRAFT_INVALID | DRAFT_READY

record draft_issue =
  is_code :: string
  is_group_id :: "int option"
  is_option_id :: "int option"
  is_product_id :: "int option"

record fixed_component_projection =
  fc_product_id :: int
  fc_product_name :: string
  fc_quantity :: rat

record selection_projection =
  sp_group_id :: int
  sp_group_name :: string
  sp_choice_option_id :: int
  sp_selected_product_id :: int
  sp_selected_product_name :: string

record missing_group_projection =
  mg_group_id :: int
  mg_group_name :: string
  mg_min_selections :: int
  mg_max_selections :: int
  mg_selected_option_ids :: "int list"

record draft_item_projection =
  ip_item_id :: int
  ip_product_id :: int
  ip_product_name :: string
  ip_composition_id :: "int option"
  ip_quantity :: rat
  ip_position :: int
  ip_readiness :: draft_readiness
  ip_issues :: "draft_issue list"
  ip_selections :: "selection_projection list"
  ip_missing_choice_groups :: "missing_group_projection list"
  ip_fixed_components :: "fixed_component_projection list"

record draft_projection =
  dp_draft_id :: int
  dp_tenant_id :: int
  dp_organization_id :: int
  dp_location_id :: int
  dp_conversation_id :: int
  dp_version :: int
  dp_status :: string
  dp_readiness :: draft_readiness
  dp_items :: "draft_item_projection list"

definition product_issue :: "string \<Rightarrow> int \<Rightarrow> draft_issue" where
  "product_issue code product_id = \<lparr>is_code = code, is_group_id = None, is_option_id = None, is_product_id = Some product_id\<rparr>"

definition issue_of_violation :: "violation \<Rightarrow> draft_issue" where
  "issue_of_violation v = \<lparr>is_code = violation_code_value (vl_code v), is_group_id = vl_group_id v,
     is_option_id = vl_option_id v, is_product_id = vl_product_id v\<rparr>"

definition incomplete_issue :: "draft_issue \<Rightarrow> bool" where
  "incomplete_issue i \<longleftrightarrow> is_code i \<in> violation_code_value ` {REQUIRED_GROUP_MISSING, TOO_FEW_SELECTIONS}"

text \<open>The selections of an item with their group, option and product, in the order of the menu.\<close>

definition selection_rows ::
  "ordering \<Rightarrow> draft_item \<Rightarrow> (choice_group \<times> choice_option \<times> product_row) list"
where
  "selection_rows s item =
     (let c = og_catalog s;
          joined = concat (map (\<lambda>x.
            case List.find (\<lambda>g. grp_id g = sl_choice_group_id x \<and> grp_tenant_id g = sl_tenant_id x
                   \<and> grp_organization_id g = sl_organization_id x) (cat_groups c) of
              None \<Rightarrow> []
            | Some g \<Rightarrow>
                (case List.find (\<lambda>o'. op_id o' = sl_choice_option_id x \<and> op_group_id o' = sl_choice_group_id x
                       \<and> op_tenant_id o' = sl_tenant_id x \<and> op_organization_id o' = sl_organization_id x) (cat_options c) of
                   None \<Rightarrow> []
                 | Some o' \<Rightarrow>
                     (case product_in c (op_tenant_id o') (op_organization_id o') (op_option_product_id o') of
                        None \<Rightarrow> []
                      | Some p \<Rightarrow> [(g, o', p)])))
            (filter (selection_of_item (di_tenant_id item) (di_draft_id item) (di_id item)) (og_selections s)))
      in order_by (\<lambda>(g, _, _). grp_display_order g) (order_by (\<lambda>(g, _, _). grp_id g)
           (order_by (\<lambda>(_, o', _). op_display_order o') (order_by (\<lambda>(_, o', _). op_id o') joined))))"

definition project_selection :: "choice_group \<times> choice_option \<times> product_row \<Rightarrow> selection_projection" where
  "project_selection row = (case row of (g, o', p) \<Rightarrow>
     \<lparr>sp_group_id = grp_id g, sp_group_name = grp_name g, sp_choice_option_id = op_id o',
      sp_selected_product_id = pd_id p, sp_selected_product_name = pd_name p\<rparr>)"

definition selected_choices :: "(choice_group \<times> choice_option \<times> product_row) list \<Rightarrow> choice_selection list" where
  "selected_choices rows = group_selection (map (\<lambda>(g, o', _). (grp_id g, op_id o')) rows)"

definition name_component :: "ordering \<Rightarrow> draft \<Rightarrow> resolved_quantity \<Rightarrow> draft_error + fixed_component_projection" where
  "name_component s r q =
     (case product_in (og_catalog s) (dr_tenant_id r) (dr_organization_id r) (rq_product_id q) of
        None \<Rightarrow> Inl DraftKeyError
      | Some p \<Rightarrow> Inr \<lparr>fc_product_id = rq_product_id q, fc_product_name = pd_name p, fc_quantity = rq_quantity q\<rparr>)"

definition missing_groups :: "ordering \<Rightarrow> draft \<Rightarrow> int \<Rightarrow> draft_issue list \<Rightarrow> choice_selection list \<Rightarrow> missing_group_projection list" where
  "missing_groups s r composition_id issues selected =
     map (\<lambda>g. \<lparr>mg_group_id = grp_id g, mg_group_name = grp_name g, mg_min_selections = grp_min_selections g,
              mg_max_selections = grp_max_selections g,
              mg_selected_option_ids =
                (case List.find (\<lambda>c. sel_group_id c = grp_id g) selected of None \<Rightarrow> [] | Some c \<Rightarrow> sel_option_ids c)\<rparr>)
       (filter (\<lambda>g. Some (grp_id g) \<in> is_group_id ` set (filter incomplete_issue issues))
         (order_by grp_display_order (order_by grp_id (filter (\<lambda>g. grp_tenant_id g = dr_tenant_id r
            \<and> grp_organization_id g = dr_organization_id r \<and> grp_composition_id g = composition_id)
            (cat_groups (og_catalog s))))))"

definition evaluate_item :: "ordering \<Rightarrow> draft \<Rightarrow> draft_item \<Rightarrow> draft_error + draft_item_projection" where
  "evaluate_item s r item =
     (case product_in (og_catalog s) (dr_tenant_id r) (dr_organization_id r) (di_product_id item) of
        None \<Rightarrow> Inl DraftContextError
      | Some p \<Rightarrow>
     (let rows = selection_rows s item;
          orderable = is_product_orderable (og_catalog s) (og_menus s) (dr_tenant_id r) (dr_organization_id r)
            (dr_location_id r) (di_product_id item);
          not_orderable = (if orderable then [] else [product_issue ''PRODUCT_NOT_ORDERABLE'' (di_product_id item)]);
          current = composition_of s (dr_tenant_id r) (dr_organization_id r) (di_product_id item);
          projected = (\<lambda>readiness issues missing fixed.
            \<lparr>ip_item_id = di_id item, ip_product_id = di_product_id item, ip_product_name = pd_name p,
             ip_composition_id = di_composition_id item, ip_quantity = di_quantity item,
             ip_position = di_position item, ip_readiness = readiness, ip_issues = issues,
             ip_selections = map project_selection rows, ip_missing_choice_groups = missing,
             ip_fixed_components = fixed\<rparr>)
      in case di_composition_id item of
           None \<Rightarrow>
             (let issues = not_orderable @ (if current \<noteq> None \<or> rows \<noteq> []
                  then [product_issue ''COMPOSITION_IDENTITY_CHANGED'' (di_product_id item)] else [])
              in Inr (projected (if issues = [] then DRAFT_READY else DRAFT_INVALID) issues [] []))
         | Some composition_id \<Rightarrow>
             (if (case current of None \<Rightarrow> True | Some c \<Rightarrow> co_id c \<noteq> composition_id \<or> co_status c \<noteq> ''ACTIVE'')
              then Inr (projected DRAFT_INVALID
                     (not_orderable @ [product_issue ''COMPOSITION_NOT_ACTIVE'' (di_product_id item)]) [] [])
              else
                (let selected = selected_choices rows;
                     validation = validate_selection (og_catalog s) (dr_tenant_id r) (di_product_id item) selected;
                     issues = not_orderable @ map issue_of_violation (sv_violations validation)
                 in bind_result (traverse (name_component s r) (sv_fixed_components validation)) (\<lambda>fixed.
                      Inr (projected
                        (if filter (\<lambda>i. \<not> incomplete_issue i) issues \<noteq> [] then DRAFT_INVALID
                         else if issues \<noteq> [] then DRAFT_INCOMPLETE else DRAFT_READY)
                        issues (missing_groups s r composition_id issues selected) fixed))))))"

definition readiness_of :: "draft_item_projection list \<Rightarrow> draft_readiness" where
  "readiness_of items =
     (if items = [] then DRAFT_EMPTY
      else if list_ex (\<lambda>i. ip_readiness i = DRAFT_INVALID) items then DRAFT_INVALID
      else if list_ex (\<lambda>i. ip_readiness i = DRAFT_INCOMPLETE) items then DRAFT_INCOMPLETE
      else DRAFT_READY)"

definition evaluate_draft :: "ordering \<Rightarrow> int \<Rightarrow> int \<Rightarrow> draft_error + draft_projection" where
  "evaluate_draft s tenant draft_id =
     (case List.find (\<lambda>r. dr_id r = draft_id \<and> dr_tenant_id r = tenant) (og_drafts s) of
        None \<Rightarrow> Inl DraftNotFoundError
      | Some r \<Rightarrow>
     bind_result (traverse (evaluate_item s r) (order_by di_position (order_by di_id
         (filter (\<lambda>i. di_tenant_id i = tenant \<and> di_draft_id i = dr_id r) (og_items s))))) (\<lambda>items.
       Inr \<lparr>dp_draft_id = dr_id r, dp_tenant_id = dr_tenant_id r, dp_organization_id = dr_organization_id r,
            dp_location_id = dr_location_id r, dp_conversation_id = dr_conversation_id r,
            dp_version = dr_version r, dp_status = dr_status r, dp_readiness = readiness_of items,
            dp_items = items\<rparr>))"

definition get_draft :: "ordering \<Rightarrow> int \<Rightarrow> int \<Rightarrow> int option \<Rightarrow> int option \<Rightarrow> draft_error + draft_projection" where
  "get_draft s tenant draft_id owner owned =
     (case List.find (\<lambda>r. dr_id r = draft_id \<and> dr_tenant_id r = tenant) (og_drafts s) of
        None \<Rightarrow> Inl DraftNotFoundError
      | Some r \<Rightarrow>
     bind_result (case owner of
          Some diner_session_id \<Rightarrow>
            if owned \<noteq> Some (dr_conversation_id r) then Inl DraftNotFoundError
            else validate_diner_authority s tenant diner_session_id (dr_conversation_id r)
        | None \<Rightarrow> Inr ()) (\<lambda>_. evaluate_draft s tenant draft_id))"

definition get_draft_for_conversation ::
  "ordering \<Rightarrow> int \<Rightarrow> int \<Rightarrow> int option \<Rightarrow> int option \<Rightarrow> draft_error + draft_projection"
where
  "get_draft_for_conversation s tenant conversation_id owner owned =
     bind_result (case owner of
          Some diner_session_id \<Rightarrow>
            if owned \<noteq> Some conversation_id then Inl DraftNotFoundError
            else validate_diner_authority s tenant diner_session_id conversation_id
        | None \<Rightarrow> Inr ()) (\<lambda>_.
     case current_draft s tenant conversation_id of
       None \<Rightarrow> Inl DraftNotFoundError
     | Some r \<Rightarrow> evaluate_draft s tenant (dr_id r))"

end
