(* ===== verification/Commercial.thy ===== *)
theory Commercial
  imports DraftEvaluation Decimals
begin

text \<open>
  The preview of a checkout (\<^verbatim>\<open>app/restaurant/commercial/service.py\<close>): what a draft costs. Its arithmetic
  runs in a decimal context of fifty digits. \<^theory_text>\<open>digest\<close> is the SHA-256 of what is fingerprinted in canonical
  JSON; the text of a decimal there depends on its scale, and the scale of a computed amount on those of
  the columns, so the digest is a function of these values.
\<close>

datatype commercial_error =
    CommercialDraftError draft_error
  | DraftNotCommerciallyReadyError | PriceUnavailableError | CurrencyConflictError
  | UnsupportedPromotionSemanticsError
  | CommercialPricingContextError      \<comment> \<open>\<^verbatim>\<open>PricingReadContextError\<close> of the promotions\<close>
  | CommercialValueError               \<comment> \<open>a negative total\<close>
  | CommercialInvalidOperation         \<comment> \<open>\<^verbatim>\<open>quantize\<close> beyond the digits of the context\<close>
  | CommercialStopIterationError       \<comment> \<open>no currency\<close>

abbreviation PREC :: nat where
  "PREC \<equiv> 50"

record applied_promotion =
  app_promotion_id :: int
  app_name :: string
  app_promotion_type :: string
  app_promotion_value :: rat
  app_currency :: "string option"
  app_priority :: int
  app_is_combinable :: bool
  app_calculated_discount :: rat

record checkout_line =
  cl_draft_item_id :: int
  cl_product_id :: int
  cl_product_name :: string
  cl_composition_id :: "int option"
  cl_quantity :: rat
  cl_price_id :: int
  cl_price_source :: string
  cl_unit_price :: rat
  cl_base_amount :: rat
  cl_applied_promotions :: "applied_promotion list"
  cl_discount_amount :: rat
  cl_commercial_amount :: rat

record checkout_preview =
  pv_draft_id :: int
  pv_draft_version :: int
  pv_tenant_id :: int
  pv_organization_id :: int
  pv_location_id :: int
  pv_resolved_at :: datetime
  pv_currency :: string
  pv_tax_mode :: string
  pv_rounding_policy :: string
  pv_fingerprint_schema_version :: int
  pv_lines :: "checkout_line list"
  pv_subtotal :: rat
  pv_total_discount :: rat
  pv_pre_round_total :: rat
  pv_rounding_adjustment :: rat
  pv_payable_total :: rat
  pv_commercial_fingerprint :: string

section \<open>What is fingerprinted\<close>

record choice_facts =
  cfg_group_id :: int
  cfg_min :: int
  cfg_max :: int
  cfg_position :: int
  cfg_selected_options :: "(int \<times> int \<times> rat \<times> int) list"   \<comment> \<open>option, product, quantity, position\<close>

record composition_facts =
  cf_id :: int
  cf_fixed_components :: "(int \<times> int \<times> rat \<times> int) list"    \<comment> \<open>component, product, quantity, position\<close>
  cf_choice_groups :: "choice_facts list"

record line_facts =
  lf_draft_item_id :: int
  lf_product_id :: int
  lf_composition_id :: "int option"
  lf_quantity :: rat
  lf_composition :: "composition_facts option"
  lf_price_id :: int
  lf_price_source :: string
  lf_unit_price :: rat
  lf_base_amount :: rat
  lf_promotions :: "(int \<times> string \<times> rat \<times> string option \<times> int \<times> bool \<times> rat) list"
  lf_commercial_amount :: rat

record commercial_facts =
  ff_fingerprint_schema_version :: int
  ff_draft_id :: int
  ff_draft_version :: int
  ff_tenant_id :: int
  ff_organization_id :: int
  ff_location_id :: int
  ff_currency :: string
  ff_tax_mode :: string
  ff_rounding_policy :: string
  ff_lines :: "line_facts list"
  ff_subtotal :: rat
  ff_total_discount :: rat
  ff_pre_round_total :: rat
  ff_rounding_adjustment :: rat
  ff_payable_total :: rat

definition COMMERCIAL_FINGERPRINT_SCHEMA_VERSION :: int where
  "COMMERCIAL_FINGERPRINT_SCHEMA_VERSION = 1"

definition COMMERCIAL_ROUNDING_POLICY :: string where
  "COMMERCIAL_ROUNDING_POLICY = ''WHOLE_UNIT_HALF_DOWN''"

section \<open>Totals and promotions\<close>

text \<open>A whole number, half rounded down, is then written with two decimals: the context allows 48 digits.\<close>

definition round_payable_total :: "rat \<Rightarrow> commercial_error + rat" where
  "round_payable_total value =
     (if value < 0 then Inl CommercialValueError
      else if 10 ^ (PREC - 2) \<le> round_half_down value then Inl CommercialInvalidOperation
      else Inr (of_int (round_half_down value)))"

definition decimal_sum :: "rat list \<Rightarrow> rat" where
  "decimal_sum xs = foldl (\<lambda>a x. round_digits PREC (a + x)) 0 xs"

definition selected_promotions :: "promotion list \<Rightarrow> promotion list" where
  "selected_promotions candidates =
     (case order_by pm_priority (order_by pm_id candidates) of
        [] \<Rightarrow> []
      | r # rest \<Rightarrow> if \<not> pm_is_combinable r then [r] else filter pm_is_combinable (r # rest))"

definition promotion_discount :: "string \<Rightarrow> promotion \<Rightarrow> rat \<Rightarrow> commercial_error + rat" where
  "promotion_discount currency r remaining =
     (if pm_promotion_type r = ''PERCENTAGE_DISCOUNT''
      then Inr (round_digits PREC (round_digits PREC (remaining * pm_benefit_value r) / 100))
      else if pm_promotion_type r = ''FIXED_AMOUNT_DISCOUNT''
      then if pm_currency r \<noteq> Some currency then Inl CurrencyConflictError else Inr (pm_benefit_value r)
      else Inl UnsupportedPromotionSemanticsError)"

fun apply_each :: "string \<Rightarrow> promotion list \<Rightarrow> rat \<Rightarrow> commercial_error + (applied_promotion list \<times> rat)" where
  "apply_each currency [] remaining = Inr ([], remaining)"
| "apply_each currency (r # rest) remaining =
     bind_result (promotion_discount currency r remaining) (\<lambda>discount.
       let actual = min discount remaining in
       bind_result (apply_each currency rest (round_digits PREC (remaining - actual))) (\<lambda>(applied, left).
         Inr (\<lparr>app_promotion_id = pm_id r, app_name = pm_name r, app_promotion_type = pm_promotion_type r,
               app_promotion_value = pm_benefit_value r, app_currency = pm_currency r, app_priority = pm_priority r,
               app_is_combinable = pm_is_combinable r, app_calculated_discount = actual\<rparr> # applied, left)))"

text \<open>The promotions, the discount and what is left of the amount.\<close>

definition apply_promotions ::
  "promotion list \<Rightarrow> rat \<Rightarrow> string \<Rightarrow> commercial_error + (applied_promotion list \<times> rat \<times> rat)"
where
  "apply_promotions candidates base currency =
     bind_result (apply_each currency (selected_promotions candidates) base) (\<lambda>(applied, left).
       Inr (applied, round_digits PREC (base - left), left))"

section \<open>Lines\<close>

definition composition_facts_of :: "composition_graph \<Rightarrow> int set \<Rightarrow> composition_facts" where
  "composition_facts_of graph selected =
     \<lparr>cf_id = co_id (gh_composition graph),
      cf_fixed_components = map (\<lambda>(m, p). (pcm_id m, pd_id p, pcm_quantity m, pcm_display_order m)) (gh_components graph),
      cf_choice_groups = map (\<lambda>(g, options).
        \<lparr>cfg_group_id = grp_id g, cfg_min = grp_min_selections g, cfg_max = grp_max_selections g,
         cfg_position = grp_display_order g,
         cfg_selected_options = map (\<lambda>(o', p). (op_id o', pd_id p, op_quantity o', op_display_order o'))
           (filter (\<lambda>(o', _). op_id o' \<in> selected) options)\<rparr>) (gh_groups graph)\<rparr>"

definition line_composition ::
  "ordering \<Rightarrow> int \<Rightarrow> draft_item_projection \<Rightarrow> commercial_error + composition_facts option"
where
  "line_composition s tenant item =
     (case ip_composition_id item of
        None \<Rightarrow> Inr None
      | Some composition_id \<Rightarrow>
          (case load_composition_graph (og_catalog s) tenant (ip_product_id item) True of
             None \<Rightarrow> Inl DraftNotCommerciallyReadyError
           | Some graph \<Rightarrow>
               if co_id (gh_composition graph) \<noteq> composition_id then Inl DraftNotCommerciallyReadyError
               else Inr (Some (composition_facts_of graph (sp_choice_option_id ` set (ip_selections item))))))"

definition facts_of_line :: "checkout_line \<Rightarrow> composition_facts option \<Rightarrow> line_facts" where
  "facts_of_line l c =
     \<lparr>lf_draft_item_id = cl_draft_item_id l, lf_product_id = cl_product_id l, lf_composition_id = cl_composition_id l,
      lf_quantity = cl_quantity l, lf_composition = c, lf_price_id = cl_price_id l,
      lf_price_source = cl_price_source l, lf_unit_price = cl_unit_price l, lf_base_amount = cl_base_amount l,
      lf_promotions = map (\<lambda>a. (app_promotion_id a, app_promotion_type a, app_promotion_value a, app_currency a,
        app_priority a, app_is_combinable a, app_calculated_discount a)) (cl_applied_promotions l),
      lf_commercial_amount = cl_commercial_amount l\<rparr>"

text \<open>One item: \<^theory_text>\<open>seen\<close> is the currency of the items before. The line, its facts and its currency.\<close>

definition preview_line ::
  "ordering \<Rightarrow> datetime \<Rightarrow> draft_projection \<Rightarrow> string option \<Rightarrow> draft_item_projection
   \<Rightarrow> commercial_error + (checkout_line \<times> line_facts \<times> string)"
where
  "preview_line s effective_at draft seen item =
     (case get_canonical_current_price (og_catalog s) (og_menus s) (og_pricing s) (dp_tenant_id draft)
             (ip_product_id item) (dp_location_id draft) of
        Inl _ \<Rightarrow> Inl PriceUnavailableError
      | Inr None \<Rightarrow> Inl PriceUnavailableError
      | Inr (Some price) \<Rightarrow>
          if seen \<noteq> None \<and> seen \<noteq> Some (prc_currency price) then Inl CurrencyConflictError
          else case find_canonical_applicable_promotions (og_catalog s) (og_menus s) (og_pricing s)
                 (dp_tenant_id draft) (ip_product_id item) (dp_location_id draft) effective_at of
            Inl _ \<Rightarrow> Inl CommercialPricingContextError
          | Inr candidates \<Rightarrow>
              (let base = round_digits PREC (prc_amount price * ip_quantity item) in
               bind_result (apply_promotions candidates base (prc_currency price)) (\<lambda>(applied, discount, left).
                 let l = \<lparr>cl_draft_item_id = ip_item_id item, cl_product_id = ip_product_id item,
                     cl_product_name = ip_product_name item, cl_composition_id = ip_composition_id item,
                     cl_quantity = ip_quantity item, cl_price_id = prc_id price, cl_price_source = prc_source price,
                     cl_unit_price = prc_amount price, cl_base_amount = base, cl_applied_promotions = applied,
                     cl_discount_amount = discount, cl_commercial_amount = left\<rparr>
                 in bind_result (line_composition s (dp_tenant_id draft) item) (\<lambda>c.
                      Inr (l, facts_of_line l c, prc_currency price)))))"

fun preview_lines ::
  "ordering \<Rightarrow> datetime \<Rightarrow> draft_projection \<Rightarrow> string option \<Rightarrow> draft_item_projection list
   \<Rightarrow> commercial_error + ((checkout_line \<times> line_facts) list \<times> string option)"
where
  "preview_lines s effective_at draft seen [] = Inr ([], seen)"
| "preview_lines s effective_at draft seen (item # rest) =
     bind_result (preview_line s effective_at draft seen item) (\<lambda>(l, facts, currency).
     bind_result (preview_lines s effective_at draft (Some currency) rest) (\<lambda>(lines, final).
       Inr ((l, facts) # lines, final)))"

section \<open>The preview\<close>

text \<open>Subtotal, discount, total before rounding, adjustment, payable total.\<close>

definition preview_totals :: "checkout_line list \<Rightarrow> commercial_error + (rat \<times> rat \<times> rat \<times> rat \<times> rat)" where
  "preview_totals lines =
     (let subtotal = decimal_sum (map cl_base_amount lines);
          discount = decimal_sum (map cl_discount_amount lines);
          pre_round = round_digits PREC (subtotal - discount)
      in bind_result (round_payable_total pre_round) (\<lambda>payable.
           Inr (subtotal, discount, pre_round, round_digits PREC (payable - pre_round), payable)))"

definition preview_of ::
  "(commercial_facts \<Rightarrow> string) \<Rightarrow> draft_projection \<Rightarrow> datetime \<Rightarrow> string \<Rightarrow> (checkout_line \<times> line_facts) list
   \<Rightarrow> rat \<times> rat \<times> rat \<times> rat \<times> rat \<Rightarrow> checkout_preview"
where
  "preview_of digest draft resolved_at currency lines totals =
     (case totals of (subtotal, discount, pre_round, adjustment, payable) \<Rightarrow>
        \<lparr>pv_draft_id = dp_draft_id draft, pv_draft_version = dp_version draft,
         pv_tenant_id = dp_tenant_id draft, pv_organization_id = dp_organization_id draft,
         pv_location_id = dp_location_id draft, pv_resolved_at = resolved_at, pv_currency = currency,
         pv_tax_mode = ''INCLUDED'', pv_rounding_policy = COMMERCIAL_ROUNDING_POLICY,
         pv_fingerprint_schema_version = COMMERCIAL_FINGERPRINT_SCHEMA_VERSION, pv_lines = map fst lines,
         pv_subtotal = subtotal, pv_total_discount = discount, pv_pre_round_total = pre_round,
         pv_rounding_adjustment = adjustment, pv_payable_total = payable,
         pv_commercial_fingerprint = digest
           \<lparr>ff_fingerprint_schema_version = COMMERCIAL_FINGERPRINT_SCHEMA_VERSION, ff_draft_id = dp_draft_id draft,
            ff_draft_version = dp_version draft, ff_tenant_id = dp_tenant_id draft,
            ff_organization_id = dp_organization_id draft, ff_location_id = dp_location_id draft,
            ff_currency = currency, ff_tax_mode = ''INCLUDED'', ff_rounding_policy = COMMERCIAL_ROUNDING_POLICY,
            ff_lines = map snd lines, ff_subtotal = subtotal, ff_total_discount = discount,
            ff_pre_round_total = pre_round, ff_rounding_adjustment = adjustment, ff_payable_total = payable\<rparr>\<rparr>)"

definition resolve_checkout_preview ::
  "(commercial_facts \<Rightarrow> string) \<Rightarrow> ordering \<Rightarrow> datetime \<Rightarrow> int \<Rightarrow> int \<Rightarrow> int option \<Rightarrow> int option
   \<Rightarrow> commercial_error + checkout_preview"
where
  "resolve_checkout_preview digest s resolved_at tenant draft_id owner owned =
     (case get_draft s tenant draft_id owner owned of
        Inl e \<Rightarrow> Inl (CommercialDraftError e)
      | Inr draft \<Rightarrow>
          if dp_readiness draft \<noteq> DRAFT_READY then Inl DraftNotCommerciallyReadyError
          else
     bind_result (preview_lines s resolved_at draft None (dp_items draft)) (\<lambda>(lines, seen).
     bind_result (preview_totals (map fst lines)) (\<lambda>totals.
       case seen of
         None \<Rightarrow> Inl CommercialStopIterationError
       | Some currency \<Rightarrow> Inr (preview_of digest draft resolved_at currency lines totals))))"

end
