(* ===== verification/Acceptance.thy ===== *)
theory Acceptance
  imports Commercial
begin

text \<open>
  The acceptance of an order (\<^verbatim>\<open>app/restaurant/orders/acceptance.py\<close>): the draft of a diner becomes an order
  with the prices, promotions, components, taxes and fiscal classifications of that instant. \<^theory_text>\<open>s\<close> is the
  snapshot of the transaction, \<^theory_text>\<open>d\<close> the tables when it holds its locks; \<^theory_text>\<open>digest\<close> and \<^theory_text>\<open>sha\<close> are the two
  digests, \<^theory_text>\<open>ci\<close> the comparison of the jurisdiction column. The consumption of stock and the routing of
  the preparation write other tables in the same transaction; \<^theory_text>\<open>completes\<close> says whether they raise.
\<close>

datatype acceptance_error =
    AcceptanceDraftError draft_error
  | AcceptanceCommercialError commercial_error
  | ConfirmationConflictError | ConfirmationStaleError | DraftNotConfirmableError
  | TaxEvidenceUnavailableError | FiscalEvidenceUnavailableError
  | AcceptanceTypeError          \<comment> \<open>\<^verbatim>\<open>hmac.compare_digest\<close> of a string that is not ASCII\<close>
  | AcceptanceKeyError           \<comment> \<open>a dict without the key\<close>
  | AcceptanceDatabaseError      \<comment> \<open>a constraint refuses the statement\<close>
  | AcceptanceLaterError         \<comment> \<open>stock consumption or preparation routing\<close>
  | RestaurantOrderNotFoundError

definition ACCEPTED_FINGERPRINT_SCHEMA_VERSION :: int where
  "ACCEPTED_FINGERPRINT_SCHEMA_VERSION = 3"

section \<open>The evidence of each line\<close>

record resolved_line =
  rl_line :: checkout_line
  rl_item :: draft_item_projection
  rl_graph :: "composition_graph option"
  rl_tax :: tax_evidence
  rl_fiscal :: fiscal_product_evidence

definition chosen_options :: "composition_graph \<Rightarrow> int set \<Rightarrow> (choice_group \<times> choice_option \<times> product_row) list" where
  "chosen_options graph selections =
     concat (map (\<lambda>(g, options). map (\<lambda>(o', p). (g, o', p)) (filter (\<lambda>(o', _). op_id o' \<in> selections) options))
       (gh_groups graph))"

definition selections_of :: "draft_item_projection \<Rightarrow> int set" where
  "selections_of item = sp_choice_option_id ` set (ip_selections item)"

text \<open>The graph of a line that has a composition.\<close>

definition line_graph ::
  "ordering \<Rightarrow> int \<Rightarrow> checkout_line \<Rightarrow> acceptance_error + composition_graph option"
where
  "line_graph s tenant line =
     (case cl_composition_id line of
        None \<Rightarrow> Inr None
      | Some composition_id \<Rightarrow>
          (case load_composition_graph (og_catalog s) tenant (cl_product_id line) True of
             None \<Rightarrow> Inl DraftNotConfirmableError
           | Some graph \<Rightarrow>
               if co_id (gh_composition graph) \<noteq> composition_id then Inl DraftNotConfirmableError
               else Inr (Some graph)))"

text \<open>
  A product that the graph of an earlier line holds is not read again: the session returns the row as that
  graph loaded it from the snapshot.
\<close>

definition graph_products :: "composition_graph option \<Rightarrow> product_row list" where
  "graph_products graph =
     (case graph of None \<Rightarrow> []
      | Some g \<Rightarrow> map snd (gh_components g) @ concat (map (\<lambda>(_, options). map snd options) (gh_groups g)))"

definition products_as_held :: "product_row list \<Rightarrow> product_row list \<Rightarrow> product_row list" where
  "products_as_held held rows =
     map (\<lambda>p. case List.find (\<lambda>h. pd_id h = pd_id p) held of None \<Rightarrow> p | Some h \<Rightarrow> h) rows"

definition tax_tables_of :: "ordering \<Rightarrow> product_row list \<Rightarrow> tax_tables" where
  "tax_tables_of d products =
     \<lparr>tx_organizations = [],
      tx_locations = map (\<lambda>l. \<lparr>loc_id = site_id l, loc_tenant_id = site_tenant_id l,
        loc_organization_id = site_organization_id l, loc_cash_management_activated_at = None\<rparr>) (mu_sites (og_menus d)),
      tx_products = products, tx_rules = og_tax_rules d\<rparr>"

definition component_classifications ::
  "composition_graph option \<Rightarrow> draft_item_projection \<Rightarrow> string option list"
where
  "component_classifications graph item =
     (case graph of None \<Rightarrow> []
      | Some g \<Rightarrow> map (\<lambda>(_, p). pd_tax_classification_code p) (gh_components g)
          @ map (\<lambda>(_, _, p). pd_tax_classification_code p) (chosen_options g (selections_of item)))"

definition tax_candidate ::
  "int \<Rightarrow> diner_session \<Rightarrow> datetime \<Rightarrow> product_row \<Rightarrow> checkout_line \<Rightarrow> string option list \<Rightarrow> tax_line_candidate"
where
  "tax_candidate tenant diner accepted_at product line classifications =
     \<lparr>tc_tenant_id = tenant, tc_organization_id = ds_organization_id diner, tc_location_id = ds_location_id diner,
      tc_product_id = cl_product_id line, tc_product_tax_classification_code = pd_tax_classification_code product,
      tc_effective_at = NaiveTime accepted_at, tc_tax_mode = ''INCLUDED'',
      tc_quantity = PyDecimal (cl_quantity line), tc_unit_price = PyDecimal (cl_unit_price line),
      tc_base_amount = PyDecimal (cl_base_amount line), tc_discount_amount = PyDecimal (cl_discount_amount line),
      tc_commercial_amount = PyDecimal (cl_commercial_amount line),
      tc_component_tax_classification_codes = classifications\<rparr>"

definition resolve_line ::
  "(json \<Rightarrow> string) \<Rightarrow> (string \<Rightarrow> string \<Rightarrow> bool) \<Rightarrow> ordering \<Rightarrow> ordering \<Rightarrow> int \<Rightarrow> diner_session \<Rightarrow> string
   \<Rightarrow> datetime \<Rightarrow> draft_projection \<Rightarrow> product_row list \<Rightarrow> checkout_line \<Rightarrow> acceptance_error + resolved_line"
where
  "resolve_line sha ci s d tenant diner country accepted_at draft held line =
     (case List.find (\<lambda>i. ip_item_id i = cl_draft_item_id line) (dp_items draft) of
        None \<Rightarrow> Inl AcceptanceKeyError
      | Some item \<Rightarrow>
     (let products = products_as_held held (cat_products (og_catalog d)) in
      case List.find (\<lambda>p. pd_id p = cl_product_id line \<and> pd_tenant_id p = tenant
             \<and> pd_organization_id p = ds_organization_id diner) products of
        None \<Rightarrow> Inl TaxEvidenceUnavailableError
      | Some product \<Rightarrow>
     bind_result (line_graph s tenant line) (\<lambda>graph.
     case resolve_tax_evidence sha (tax_tables_of d products)
            (tax_candidate tenant diner accepted_at product line (component_classifications graph item)) of
       Inl _ \<Rightarrow> Inl TaxEvidenceUnavailableError
     | Inr tax \<Rightarrow>
         (case resolve_fiscal_product_evidence sha ci products (og_classifications d)
                 \<lparr>fk_tenant_id = tenant, fk_organization_id = ds_organization_id diner,
                  fk_product_id = cl_product_id line, fk_fiscal_jurisdiction_code = country,
                  fk_effective_at = NaiveTime accepted_at\<rparr> of
            Inl _ \<Rightarrow> Inl FiscalEvidenceUnavailableError
          | Inr fiscal \<Rightarrow> Inr \<lparr>rl_line = line, rl_item = item, rl_graph = graph, rl_tax = tax, rl_fiscal = fiscal\<rparr>))))"

fun resolve_lines ::
  "(json \<Rightarrow> string) \<Rightarrow> (string \<Rightarrow> string \<Rightarrow> bool) \<Rightarrow> ordering \<Rightarrow> ordering \<Rightarrow> int \<Rightarrow> diner_session \<Rightarrow> string
   \<Rightarrow> datetime \<Rightarrow> draft_projection \<Rightarrow> product_row list \<Rightarrow> checkout_line list \<Rightarrow> acceptance_error + resolved_line list"
where
  "resolve_lines sha ci s d tenant diner country accepted_at draft held [] = Inr []"
| "resolve_lines sha ci s d tenant diner country accepted_at draft held (line # rest) =
     bind_result (resolve_line sha ci s d tenant diner country accepted_at draft held line) (\<lambda>r.
     bind_result (resolve_lines sha ci s d tenant diner country accepted_at draft
         (held @ graph_products (rl_graph r)) rest) (\<lambda>rs. Inr (r # rs)))"

section \<open>The rows of an accepted order\<close>

definition accepted_payload :: "string \<Rightarrow> resolved_line list \<Rightarrow> json" where
  "accepted_payload commercial_fingerprint lines = JObj [
     (''fingerprint_schema_version'', JInt ACCEPTED_FINGERPRINT_SCHEMA_VERSION),
     (''commercial_fingerprint'', JStr commercial_fingerprint),
     (''tax_evidence'', JArr (map (\<lambda>r. JObj [(''draft_item_id'', JInt (cl_draft_item_id (rl_line r))),
        (''evidence_fingerprint'', JStr (te_evidence_fingerprint (rl_tax r)))]) lines)),
     (''fiscal_product_evidence'', JArr (map (\<lambda>r. JObj [(''draft_item_id'', JInt (cl_draft_item_id (rl_line r))),
        (''evidence_fingerprint'', JStr (fe_evidence_fingerprint (rl_fiscal r)))]) lines))]"

definition accepted_order_row ::
  "string \<Rightarrow> service_session \<Rightarrow> diner_session \<Rightarrow> conversation_row \<Rightarrow> draft \<Rightarrow> checkout_preview \<Rightarrow> string
   \<Rightarrow> datetime \<Rightarrow> int \<Rightarrow> int \<Rightarrow> accepted_order"
where
  "accepted_order_row fingerprint session diner conversation r preview key accepted_at tenant i =
     \<lparr>ao_id = i, ao_tenant_id = tenant, ao_organization_id = ds_organization_id diner,
      ao_location_id = ds_location_id diner, ao_resource_id = ds_resource_id diner,
      ao_service_session_id = ss_id session, ao_diner_session_id = ds_id diner,
      ao_conversation_id = cn_id conversation, ao_source_order_draft_id = dr_id r,
      ao_source_channel = cn_channel conversation, ao_status = ''ACCEPTED'',
      ao_accepted_draft_version = dr_version r, ao_confirmation_idempotency_key = key,
      ao_commercial_fingerprint = fingerprint,
      ao_fingerprint_schema_version = ACCEPTED_FINGERPRINT_SCHEMA_VERSION, ao_currency = pv_currency preview,
      ao_tax_mode = pv_tax_mode preview, ao_rounding_policy = pv_rounding_policy preview,
      ao_subtotal = pv_subtotal preview, ao_total_discount = pv_total_discount preview,
      ao_pre_round_total = pv_pre_round_total preview, ao_rounding_adjustment = pv_rounding_adjustment preview,
      ao_payable_total = pv_payable_total preview, ao_accepted_at = accepted_at\<rparr>"

definition accepted_item_row :: "accepted_order \<Rightarrow> int \<Rightarrow> resolved_line \<Rightarrow> accepted_item" where
  "accepted_item_row order i r =
     (let l = rl_line r in
      \<lparr>ai_id = i, ai_tenant_id = ao_tenant_id order, ai_organization_id = ao_organization_id order,
       ai_order_id = ao_id order, ai_source_order_draft_item_id = cl_draft_item_id l, ai_product_id = cl_product_id l,
       ai_product_name = cl_product_name l, ai_composition_id = cl_composition_id l, ai_quantity = cl_quantity l,
       ai_position = ip_position (rl_item r), ai_source_product_price_id = cl_price_id l,
       ai_price_source = cl_price_source l, ai_unit_price = cl_unit_price l, ai_base_amount = cl_base_amount l,
       ai_discount_amount = cl_discount_amount l, ai_commercial_amount = cl_commercial_amount l\<rparr>)"

text \<open>Fixed components, then the chosen options in the order of the menu; positions count from zero.\<close>

definition line_parts :: "accepted_order \<Rightarrow> accepted_item \<Rightarrow> resolved_line \<Rightarrow> (int \<Rightarrow> int \<Rightarrow> accepted_component) list" where
  "line_parts order item r =
     (case rl_graph r of None \<Rightarrow> []
      | Some g \<Rightarrow>
          map (\<lambda>(m, p) position i.
            \<lparr>ac_id = i, ac_tenant_id = ao_tenant_id order, ac_organization_id = ao_organization_id order,
             ac_order_id = ao_id order, ac_order_item_id = ai_id item, ac_kind = ''FIXED'', ac_position = position,
             ac_source_component_id = Some (pcm_id m), ac_source_choice_group_id = None,
             ac_source_choice_option_id = None, ac_choice_group_name = None, ac_product_id = pd_id p,
             ac_product_name = pd_name p, ac_quantity = pcm_quantity m\<rparr>) (gh_components g)
          @ map (\<lambda>(h, o', p) position i.
            \<lparr>ac_id = i, ac_tenant_id = ao_tenant_id order, ac_organization_id = ao_organization_id order,
             ac_order_id = ao_id order, ac_order_item_id = ai_id item, ac_kind = ''CHOICE'', ac_position = position,
             ac_source_component_id = None, ac_source_choice_group_id = Some (grp_id h),
             ac_source_choice_option_id = Some (op_id o'), ac_choice_group_name = Some (grp_name h),
             ac_product_id = pd_id p, ac_product_name = pd_name p, ac_quantity = op_quantity o'\<rparr>)
            (chosen_options g (selections_of (rl_item r))))"

fun numbered :: "int \<Rightarrow> (int \<Rightarrow> 'a) list \<Rightarrow> 'a list" where
  "numbered n [] = []"
| "numbered n (f # fs) = f n # numbered (n + 1) fs"

definition line_promotions :: "accepted_order \<Rightarrow> accepted_item \<Rightarrow> resolved_line \<Rightarrow> (int \<Rightarrow> int \<Rightarrow> accepted_promotion) list" where
  "line_promotions order item r =
     map (\<lambda>a position i.
       \<lparr>ap_id = i, ap_tenant_id = ao_tenant_id order, ap_organization_id = ao_organization_id order,
        ap_order_id = ao_id order, ap_order_item_id = ai_id item, ap_promotion_id = app_promotion_id a,
        ap_application_order = position, ap_promotion_name = app_name a, ap_promotion_type = app_promotion_type a,
        ap_promotion_value = app_promotion_value a, ap_promotion_currency = app_currency a,
        ap_priority = app_priority a, ap_is_combinable = app_is_combinable a,
        ap_calculated_discount = numeric4 (app_calculated_discount a)\<rparr>) (cl_applied_promotions (rl_line r))"

definition tax_snapshot_row :: "accepted_order \<Rightarrow> accepted_item \<Rightarrow> resolved_line \<Rightarrow> int \<Rightarrow> tax_snapshot" where
  "tax_snapshot_row order item r i =
     \<lparr>tsn_id = i, tsn_tenant_id = ao_tenant_id order, tsn_organization_id = ao_organization_id order,
      tsn_location_id = ao_location_id order, tsn_restaurant_order_id = ao_id order,
      tsn_restaurant_order_item_id = ai_id item, tsn_evidence = rl_tax r, tsn_created_at = ao_accepted_at order\<rparr>"

definition fiscal_snapshot_row :: "accepted_order \<Rightarrow> accepted_item \<Rightarrow> resolved_line \<Rightarrow> int \<Rightarrow> fiscal_snapshot" where
  "fiscal_snapshot_row order item r i =
     \<lparr>fsn_id = i, fsn_tenant_id = ao_tenant_id order, fsn_organization_id = ao_organization_id order,
      fsn_location_id = ao_location_id order, fsn_restaurant_order_id = ao_id order,
      fsn_restaurant_order_item_id = ai_id item, fsn_evidence = rl_fiscal r, fsn_created_at = ao_accepted_at order\<rparr>"

text \<open>
  The money of an order has to fit its columns; what its lines record was checked by the tax evidence. The
  scope of the source draft is a foreign key.
\<close>

definition order_fits :: "draft \<Rightarrow> accepted_order \<Rightarrow> accepted_order list \<Rightarrow> bool" where
  "order_fits r order orders \<longleftrightarrow> accepted_order_ok order \<and> \<not> list_ex (accepted_orders_collide order) orders
     \<and> list_all (\<lambda>x. \<bar>x\<bar> \<le> MAX_NUMERIC) [ao_subtotal order, ao_total_discount order, ao_pre_round_total order,
          ao_rounding_adjustment order, ao_payable_total order]
     \<and> (dr_organization_id r, dr_location_id r, dr_conversation_id r)
       = (ao_organization_id order, ao_location_id order, ao_conversation_id order)"

definition insert_order :: "draft \<Rightarrow> accepted_order \<Rightarrow> resolved_line list \<Rightarrow> ordering \<Rightarrow> acceptance_error + ordering" where
  "insert_order r order lines d =
     (let items = new_rows (accepted_item_row order) (next_id ai_id (og_order_items d)) lines;
          pairs = zip items lines;
          parts = numbered (next_id ac_id (og_order_components d))
            (concat (map (\<lambda>(i, l). numbered 0 (line_parts order i l)) pairs));
          promotions = numbered (next_id ap_id (og_order_promotions d))
            (concat (map (\<lambda>(i, l). numbered 0 (line_promotions order i l)) pairs));
          taxes = numbered (next_id tsn_id (og_tax_snapshots d)) (map (\<lambda>(i, l). tax_snapshot_row order i l) pairs);
          fiscals = numbered (next_id fsn_id (og_fiscal_snapshots d)) (map (\<lambda>(i, l). fiscal_snapshot_row order i l) pairs)
      in if order_fits r order (og_orders d)
            \<and> table_ok accepted_item_ok accepted_items_collide items
            \<and> table_ok accepted_component_ok accepted_components_collide parts
            \<and> table_ok accepted_promotion_ok accepted_promotions_collide promotions
            \<and> list_all tax_snapshot_ok taxes \<and> table_ok fiscal_snapshot_ok fiscal_snapshots_collide fiscals
         then Inr (d\<lparr>og_orders := og_orders d @ [order], og_order_items := og_order_items d @ items,
                og_order_components := og_order_components d @ parts,
                og_order_promotions := og_order_promotions d @ promotions,
                og_tax_snapshots := og_tax_snapshots d @ taxes,
                og_fiscal_snapshots := og_fiscal_snapshots d @ fiscals\<rparr>)
         else Inl AcceptanceDatabaseError)"

section \<open>Confirming\<close>

text \<open>The snapshot in which the session already holds the locked draft.\<close>

definition with_held_draft :: "draft \<Rightarrow> ordering \<Rightarrow> ordering" where
  "with_held_draft r s = s\<lparr>og_drafts := modify dr_id (dr_id r) (\<lambda>_. r) (og_drafts s)\<rparr>"

definition accepted_draft :: "datetime \<Rightarrow> draft \<Rightarrow> draft" where
  "accepted_draft accepted_at r =
     r\<lparr>dr_status := ''ACCEPTED'', dr_current_slot := None, dr_terminal_at := Some accepted_at\<rparr>"

definition order_by_key :: "ordering \<Rightarrow> int \<Rightarrow> int \<Rightarrow> string \<Rightarrow> accepted_order option" where
  "order_by_key d tenant diner_session_id key =
     List.find (\<lambda>x. ao_tenant_id x = tenant \<and> ao_diner_session_id x = diner_session_id
       \<and> ao_confirmation_idempotency_key x = key) (og_orders d)"

text \<open>What follows once the draft and its preview are known.\<close>

definition accept_draft ::
  "(json \<Rightarrow> string) \<Rightarrow> (string \<Rightarrow> string \<Rightarrow> bool) \<Rightarrow> (accepted_order \<Rightarrow> bool) \<Rightarrow> ordering \<Rightarrow> int
   \<Rightarrow> service_session \<Rightarrow> diner_session \<Rightarrow> conversation_row \<Rightarrow> draft \<Rightarrow> checkout_preview \<Rightarrow> string \<Rightarrow> datetime
   \<Rightarrow> ordering \<Rightarrow> acceptance_error + (accepted_order \<times> ordering)"
where
  "accept_draft sha ci completes view tenant session diner conversation r preview key accepted_at d =
     (case List.find (\<lambda>l. site_id l = ds_location_id diner \<and> site_tenant_id l = tenant
             \<and> site_organization_id l = ds_organization_id diner) (mu_sites (og_menus d)) of
        None \<Rightarrow> Inl FiscalEvidenceUnavailableError
      | Some location \<Rightarrow>
     (case site_country_code location of
        None \<Rightarrow> Inl FiscalEvidenceUnavailableError
      | Some country \<Rightarrow>
     (case evaluate_draft view tenant (dr_id r) of
        Inl e \<Rightarrow> Inl (AcceptanceDraftError e)
      | Inr draft \<Rightarrow>
     bind_result (resolve_lines sha ci view d tenant diner country accepted_at draft [] (pv_lines preview)) (\<lambda>lines.
       (let order = accepted_order_row (sha (accepted_payload (pv_commercial_fingerprint preview) lines))
              session diner conversation r preview key accepted_at tenant (next_id ao_id (og_orders d));
            r' = accepted_draft accepted_at r
        in bind_result (insert_order r order lines d) (\<lambda>d'.
             if list_ex (\<lambda>q. dr_id q \<noteq> dr_id r \<and> drafts_collide r' q) (og_drafts d) then Inl AcceptanceDatabaseError
             else if \<not> completes order then Inl AcceptanceLaterError
             else Inr (order, d'\<lparr>og_drafts := modify dr_id (dr_id r) (\<lambda>_. r') (og_drafts d')\<rparr>)))))))"

definition confirm_current_order ::
  "(commercial_facts \<Rightarrow> string) \<Rightarrow> (json \<Rightarrow> string) \<Rightarrow> (string \<Rightarrow> string \<Rightarrow> bool) \<Rightarrow> (accepted_order \<Rightarrow> bool)
   \<Rightarrow> (int \<Rightarrow> diner_session option) \<Rightarrow> ordering \<Rightarrow> datetime \<Rightarrow> datetime \<Rightarrow> int \<Rightarrow> int \<Rightarrow> int \<Rightarrow> int \<Rightarrow> string \<Rightarrow> string
   \<Rightarrow> ordering \<Rightarrow> acceptance_error + (accepted_order \<times> bool \<times> ordering)"
where
  "confirm_current_order digest sha ci completes held s resolved_at accepted_at tenant diner_session_id
     conversation_id expected_version expected_fingerprint key d =
     (case lock_diner_write_context held s d tenant diner_session_id conversation_id of
        Inl e \<Rightarrow> Inl (AcceptanceDraftError e)
      | Inr (session, diner, conversation) \<Rightarrow>
     (let current = current_draft d tenant conversation_id in
      case order_by_key d tenant diner_session_id key of
        Some order \<Rightarrow>
          if current \<noteq> None \<and> map_option dr_id current \<noteq> Some (ao_source_order_draft_id order)
          then Inl ConfirmationConflictError
          else Inr (order, True, d)
      | None \<Rightarrow>
     (case current of
        None \<Rightarrow> Inl DraftNotConfirmableError
      | Some r \<Rightarrow>
          if dr_version r \<noteq> expected_version then Inl ConfirmationStaleError
          else
     (let view = with_held_draft r s in
      case resolve_checkout_preview digest view resolved_at tenant (dr_id r) None None of
        Inl e \<Rightarrow> Inl (AcceptanceCommercialError e)
      | Inr preview \<Rightarrow>
          if \<not> is_ascii expected_fingerprint then Inl AcceptanceTypeError
          else if pv_commercial_fingerprint preview \<noteq> expected_fingerprint then Inl ConfirmationStaleError
          else bind_result (accept_draft sha ci completes view tenant session diner conversation r preview key
                 accepted_at d) (\<lambda>(order, d'). Inr (order, False, d'))))))"

section \<open>Reading orders\<close>

record order_item_projection =
  oip_item :: accepted_item
  oip_components :: "accepted_component list"
  oip_promotions :: "accepted_promotion list"

text \<open>\<^verbatim>\<open>_projection\<close> copies these columns of the rows.\<close>

definition order_projection :: "ordering \<Rightarrow> accepted_order \<Rightarrow> accepted_order \<times> order_item_projection list" where
  "order_projection s order =
     (order, map (\<lambda>i. \<lparr>oip_item = i,
          oip_components = order_by ac_position (order_by ac_id (filter (\<lambda>c. ac_tenant_id c = ao_tenant_id order
            \<and> ac_order_id c = ao_id order \<and> ac_order_item_id c = ai_id i) (og_order_components s))),
          oip_promotions = order_by ap_application_order (order_by ap_id (filter (\<lambda>p. ap_tenant_id p = ao_tenant_id order
            \<and> ap_order_id p = ao_id order \<and> ap_order_item_id p = ai_id i) (og_order_promotions s)))\<rparr>)
        (order_by ai_position (order_by ai_id (filter (\<lambda>i. ai_tenant_id i = ao_tenant_id order
          \<and> ai_order_id i = ao_id order) (og_order_items s)))))"

definition list_diner_orders :: "ordering \<Rightarrow> int \<Rightarrow> int \<Rightarrow> (accepted_order \<times> order_item_projection list) list" where
  "list_diner_orders s tenant diner_session_id =
     map (order_projection s) (order_by ao_accepted_at (order_by ao_id
       (filter (\<lambda>x. ao_tenant_id x = tenant \<and> ao_diner_session_id x = diner_session_id) (og_orders s))))"

definition get_diner_order ::
  "ordering \<Rightarrow> int \<Rightarrow> int \<Rightarrow> int \<Rightarrow> acceptance_error + (accepted_order \<times> order_item_projection list)"
where
  "get_diner_order s tenant diner_session_id order_id =
     (case List.find (\<lambda>x. ao_id x = order_id \<and> ao_tenant_id x = tenant \<and> ao_diner_session_id x = diner_session_id)
             (og_orders s) of
        None \<Rightarrow> Inl RestaurantOrderNotFoundError
      | Some order \<Rightarrow> Inr (order_projection s order))"

definition list_staff_orders :: "ordering \<Rightarrow> int \<Rightarrow> (accepted_order \<times> order_item_projection list) list" where
  "list_staff_orders s tenant =
     map (order_projection s) (order_by ao_accepted_at (order_by ao_id
       (filter (\<lambda>x. ao_tenant_id x = tenant) (og_orders s))))"

definition get_staff_order ::
  "ordering \<Rightarrow> int \<Rightarrow> int \<Rightarrow> acceptance_error + (accepted_order \<times> order_item_projection list)"
where
  "get_staff_order s tenant order_id =
     (case List.find (\<lambda>x. ao_id x = order_id \<and> ao_tenant_id x = tenant) (og_orders s) of
        None \<Rightarrow> Inl RestaurantOrderNotFoundError
      | Some order \<Rightarrow> Inr (order_projection s order))"

end
