(* ===== verification/DecimalOrder.thy ===== *)
theory DecimalOrder
  imports Decimals
begin

text \<open>The rounding of a decimal context keeps the order of values and is done once.\<close>

lemma round_half_even_cases: "round_half_even x = \<lfloor>x\<rfloor> \<or> round_half_even x = \<lfloor>x\<rfloor> + 1"
  by (simp add: round_half_even_def Let_def)

lemma round_half_even_mono:
  assumes "x \<le> y"
  shows "round_half_even x \<le> round_half_even y"
proof (cases "\<lfloor>x\<rfloor> = \<lfloor>y\<rfloor>")
  case True
  then have "x - of_int \<lfloor>x\<rfloor> \<le> y - of_int \<lfloor>y\<rfloor>" using assms by simp
  with True show ?thesis by (simp add: round_half_even_def Let_def)
next
  case False
  with floor_mono[OF assms] have "\<lfloor>x\<rfloor> + 1 \<le> \<lfloor>y\<rfloor>" by linarith
  with round_half_even_cases[of x] round_half_even_cases[of y] show ?thesis by linarith
qed

lemma round_half_even_between: "of_int m \<le> x \<Longrightarrow> x \<le> of_int n \<Longrightarrow> m \<le> round_half_even x \<and> round_half_even x \<le> n"
  using round_half_even_mono[of "of_int m" x] round_half_even_mono[of x "of_int n"] by simp

lemma floorlog_fraction_upper:
  fixes a b :: nat
  assumes "0 < a" "0 < b"
  shows "of_nat a / of_nat b < (10 :: rat) powi (int (floorlog 10 a) - int (floorlog 10 b) + 1)"
proof -
  have a: "a < 10 ^ floorlog 10 a" and b: "10 ^ (floorlog 10 b - 1) \<le> b"
    using floorlog_bounds[of a 10] floorlog_bounds[of b 10] assms by simp_all
  have "0 < floorlog 10 b" using assms by (simp add: floorlog_def)
  then obtain c where c: "floorlog 10 b = Suc c" using gr0_implies_Suc by blast
  have "of_nat a / of_nat b < (10 :: rat) ^ floorlog 10 a / 10 ^ c"
  proof (rule frac_less)
    have "of_nat a < (of_nat (10 ^ floorlog 10 a) :: rat)" using a by (simp only: of_nat_less_iff)
    then show "of_nat a < (10 :: rat) ^ floorlog 10 a" by simp
    have "of_nat (10 ^ c) \<le> (of_nat b :: rat)" using b c by (simp only: of_nat_le_iff) simp
    then show "(10 :: rat) ^ c \<le> of_nat b" by simp
  qed (use assms in simp_all)
  also have "\<dots> = 10 powi (int (floorlog 10 a) - int (floorlog 10 b) + 1)"
    by (simp add: c power_int_diff)
  finally show ?thesis .
qed

lemma digits_before_upper:
  assumes "0 < q"
  shows "q < 10 powi digits_before q"
proof -
  obtain a b where ab: "quotient_of q = (a, b)" by fastforce
  then have q: "q = of_int a / of_int b" "0 < b" by (simp_all add: quotient_of_div quotient_of_denom_pos)
  then have "0 < a" using assms by (simp add: zero_less_divide_iff)
  then have nats: "q = of_nat (nat a) / of_nat (nat b)" "\<bar>a\<bar> = a" "0 < nat a" "0 < nat b" using q by simp_all
  define k where "k = int (floorlog 10 (nat \<bar>a\<bar>)) - int (floorlog 10 (nat b))"
  have up: "q < 10 powi (k + 1)" unfolding k_def nats(1,2) by (rule floorlog_fraction_upper[OF nats(3,4)])
  have "digits_before q = (if 10 powi k \<le> \<bar>q\<bar> then k + 1 else k)"
    unfolding digits_before_def ab prod.case Let_def k_def[symmetric] ..
  with up assms show ?thesis by (cases "10 powi k \<le> \<bar>q\<bar>") simp_all
qed

lemma ten_powi_less_iff: "(10 :: rat) powi a < 10 powi b \<longleftrightarrow> a < b"
proof
  show "a < b" if "(10 :: rat) powi a < 10 powi b"
  proof (rule ccontr)
    assume "\<not> a < b"
    then have "(10 :: rat) powi b \<le> 10 powi a" by (intro power_int_increasing) simp_all
    with that show False by simp
  qed
qed (rule power_int_strict_increasing, simp_all)

lemma digits_before_eqI:
  assumes "0 < q" "10 powi (k - 1) \<le> q" "q < 10 powi k"
  shows "digits_before q = k"
proof -
  have "(10 :: rat) powi (digits_before q - 1) < 10 powi k" "(10 :: rat) powi (k - 1) < 10 powi digits_before q"
    using digits_before_lower[OF assms(1)] digits_before_upper[OF assms(1)] assms(2,3) by linarith+
  then show ?thesis unfolding ten_powi_less_iff by linarith
qed

lemma ten_powi_mult: "a + b = int n \<Longrightarrow> (10 :: rat) powi a * 10 powi b = of_int (10 ^ n)"
  by (simp flip: power_int_add)

text \<open>The rounded value stays between the powers of ten around the value.\<close>

lemma round_digits_range:
  assumes "0 < q" "0 < p"
  shows "10 powi (digits_before q - 1) \<le> round_digits p q" "round_digits p q \<le> 10 powi digits_before q"
    "\<exists>n. round_digits p q = of_int n / 10 powi (int p - digits_before q) \<and> 10 ^ (p - 1) \<le> n \<and> n \<le> 10 ^ p"
proof -
  define e where "e = int p - digits_before q"
  define n where "n = round_half_even (q * 10 powi e)"
  have pos: "(0 :: rat) < 10 powi e" by simp
  have run: "round_digits p q = of_int n / 10 powi e"
    using assms(1) by (simp add: round_digits_def e_def[symmetric] n_def Let_def)
  have shift: "(10 :: rat) powi (digits_before q - 1) * 10 powi e = of_int (10 ^ (p - 1))"
    "(10 :: rat) powi digits_before q * 10 powi e = of_int (10 ^ p)"
    using assms(2) by (intro ten_powi_mult; simp add: e_def)+
  have "of_int (10 ^ (p - 1)) \<le> q * 10 powi e" "q * 10 powi e \<le> of_int (10 ^ p)"
    using digits_before_lower[OF assms(1)] digits_before_upper[OF assms(1)] pos unfolding shift[symmetric]
    by (simp_all add: mult_right_mono)
  then have n: "10 ^ (p - 1) \<le> n" "n \<le> 10 ^ p" unfolding n_def using round_half_even_between by blast+
  then have "(of_int (10 ^ (p - 1)) :: rat) \<le> of_int n" "(of_int n :: rat) \<le> of_int (10 ^ p)" by (simp_all only: of_int_le_iff)
  with pos show "10 powi (digits_before q - 1) \<le> round_digits p q" "round_digits p q \<le> 10 powi digits_before q"
    unfolding run shift[symmetric] by (simp_all add: le_divide_eq divide_le_eq)
  show "\<exists>n. round_digits p q = of_int n / 10 powi (int p - digits_before q) \<and> 10 ^ (p - 1) \<le> n \<and> n \<le> 10 ^ p"
    using run n unfolding e_def by blast
qed

lemma round_digits_0 [simp]: "round_digits p 0 = 0"
  by (simp add: round_digits_def)

lemma round_digits_mono:
  assumes "0 \<le> x" "x \<le> y" "0 < p"
  shows "round_digits p x \<le> round_digits p y"
proof (cases "x = 0")
  case True
  then show ?thesis using round_digits_nonneg[of y p] assms by simp
next
  case False
  then have pos: "0 < x" "0 < y" using assms by simp_all
  have "digits_before x \<le> digits_before y"
  proof -
    have "(10 :: rat) powi (digits_before x - 1) < 10 powi digits_before y"
      using digits_before_lower[OF pos(1)] digits_before_upper[OF pos(2)] assms(2) by linarith
    then show ?thesis unfolding ten_powi_less_iff by linarith
  qed
  then consider "digits_before x = digits_before y" | "digits_before x \<le> digits_before y - 1" by linarith
  then show ?thesis
  proof cases
    case 1
    have "x * 10 powi (int p - digits_before y) \<le> y * 10 powi (int p - digits_before y)"
      using assms(2) by (intro mult_right_mono) simp_all
    from round_half_even_mono[OF this] show ?thesis
      using pos by (simp add: round_digits_def Let_def 1 divide_right_mono)
  next
    case 2
    have "round_digits p x \<le> 10 powi digits_before x" by (rule round_digits_range(2)[OF pos(1) assms(3)])
    also have "\<dots> \<le> 10 powi (digits_before y - 1)" using 2 by (intro power_int_increasing) simp_all
    also have "\<dots> \<le> round_digits p y" by (rule round_digits_range(1)[OF pos(2) assms(3)])
    finally show ?thesis .
  qed
qed

text \<open>Rounding what is rounded changes nothing.\<close>

lemma round_digits_whole:
  assumes "0 < y" "y * 10 powi (int p - digits_before y) = of_int m"
  shows "round_digits p y = y"
proof -
  have "round_digits p y = of_int m / 10 powi (int p - digits_before y)"
    using assms by (simp add: round_digits_def Let_def)
  also have "\<dots> = y" unfolding assms(2)[symmetric] by simp
  finally show ?thesis .
qed

lemma round_digits_idem:
  assumes "0 \<le> q" "0 < p"
  shows "round_digits p (round_digits p q) = round_digits p q"
proof (cases "q = 0")
  case False
  then have q: "0 < q" using assms(1) by simp
  define e where "e = int p - digits_before q"
  obtain n where n: "round_digits p q = of_int n / 10 powi e" "10 ^ (p - 1) \<le> n" "n \<le> 10 ^ p"
    using round_digits_range(3)[OF q assms(2)] unfolding e_def by blast
  define y where "y = round_digits p q"
  have "(0 :: rat) < 10 powi (digits_before q - 1)" by simp
  then have y: "0 < y" using round_digits_range(1)[OF q assms(2)] unfolding y_def by linarith
  have whole: "y * 10 powi e = of_int n" by (simp add: y_def n(1))
  show ?thesis
  proof (cases "n = 10 ^ p")
    case False
    then have "n < 10 ^ p" using n(3) by simp
    then have "(of_int n :: rat) < of_int (10 ^ p)" by (simp only: of_int_less_iff)
    then have "y < of_int (10 ^ p) / 10 powi e" by (simp add: y_def n(1) divide_strict_right_mono)
    also have "\<dots> = 10 powi (int p - e)" by (simp add: power_int_diff)
    finally have "y < 10 powi digits_before q" by (simp add: e_def)
    then have "digits_before y = digits_before q"
      using digits_before_eqI[OF y, of "digits_before q"] round_digits_range(1)[OF q assms(2)] by (simp add: y_def)
    then have "y * 10 powi (int p - digits_before y) = of_int n" using whole by (simp add: e_def)
    from round_digits_whole[OF y this] show ?thesis by (simp add: y_def)
  next
    case True
    have top: "y = 10 powi digits_before q"
    proof -
      have "y = 10 powi (int p - e)" by (simp add: y_def n(1) True power_int_diff)
      then show ?thesis by (simp add: e_def)
    qed
    have db: "digits_before y = digits_before q + 1"
      by (rule digits_before_eqI[OF y]) (simp_all add: top ten_powi_less_iff)
    have "y * 10 powi (int p - digits_before y) = of_int (10 ^ (p - 1))"
      unfolding db unfolding top using assms(2) by (intro ten_powi_mult) simp
    from round_digits_whole[OF y this] show ?thesis by (simp add: y_def)
  qed
qed simp

lemma round_digits_le_rounded:
  assumes "0 \<le> x" "x \<le> round_digits p y" "0 \<le> y" "0 < p"
  shows "round_digits p x \<le> round_digits p y"
  using round_digits_mono[OF assms(1,2,4)] round_digits_idem[OF assms(3,4)] by simp

end
