(* ===== verification/DraftProofs.thy ===== *)
theory DraftProofs
  imports DraftEvaluation CompositionProofs
begin

text \<open>
  The drafts under concurrency: whatever snapshots the transactions read, the tables stay consistent, and
  the version of a draft stands for its content.
\<close>

section \<open>Consistent tables\<close>

text \<open>The columns of an item that are never written again.\<close>

definition same_item :: "draft_item \<Rightarrow> draft_item \<Rightarrow> bool" where
  "same_item i j \<longleftrightarrow> (di_id i, di_tenant_id i, di_organization_id i, di_draft_id i, di_product_id i,
       di_composition_id i, di_position i)
     = (di_id j, di_tenant_id j, di_organization_id j, di_draft_id j, di_product_id j,
       di_composition_id j, di_position j)"

definition draft_items :: "ordering \<Rightarrow> int \<Rightarrow> draft_item list" where
  "draft_items d i = filter (\<lambda>x. di_draft_id x = i) (og_items d)"

definition draft_selections :: "ordering \<Rightarrow> int \<Rightarrow> draft_selection list" where
  "draft_selections d i = filter (\<lambda>x. sl_draft_id x = i) (og_selections d)"

definition item_in_draft :: "ordering \<Rightarrow> draft_item \<Rightarrow> bool" where
  "item_in_draft d i \<longleftrightarrow> (\<exists>r \<in> set (og_drafts d). dr_id r = di_draft_id i \<and> dr_tenant_id r = di_tenant_id i
     \<and> dr_organization_id r = di_organization_id i)"

definition selection_in_item :: "ordering \<Rightarrow> draft_selection \<Rightarrow> bool" where
  "selection_in_item d x \<longleftrightarrow> (\<exists>i \<in> set (og_items d). di_id i = sl_draft_item_id x \<and> di_tenant_id i = sl_tenant_id x
     \<and> di_organization_id i = sl_organization_id x \<and> di_draft_id i = sl_draft_id x
     \<and> di_composition_id i = Some (sl_composition_id x))"

definition item_row_ok :: "draft_item \<Rightarrow> bool" where
  "item_row_ok i \<longleftrightarrow> draft_item_ok i \<and> numeric_19_4 (di_quantity i)"

definition drafts_inv :: "ordering \<Rightarrow> bool" where
  "drafts_inv d \<longleftrightarrow>
     distinct (map dr_id (og_drafts d)) \<and> table_ok draft_ok drafts_collide (og_drafts d)
     \<and> distinct (map di_id (og_items d)) \<and> table_ok item_row_ok draft_items_collide (og_items d)
     \<and> distinct (map sl_id (og_selections d)) \<and> collision_free draft_selections_collide (og_selections d)
     \<and> (\<forall>i \<in> set (og_items d). di_id i < og_next_item_id d \<and> item_in_draft d i)
     \<and> (\<forall>x \<in> set (og_selections d). sl_id x < og_next_selection_id d \<and> selection_in_item d x)"

section \<open>What time changes\<close>

text \<open>
  From \<^theory_text>\<open>s\<close> to a later \<^theory_text>\<open>d\<close>: keys are not given twice, items keep what identifies them, versions grow, and a
  draft whose version is the same, or which is no longer open, has the items and selections it had.
\<close>

definition draft_moves :: "ordering \<Rightarrow> ordering \<Rightarrow> draft \<Rightarrow> draft \<Rightarrow> bool" where
  "draft_moves s d r r' \<longleftrightarrow>
     (dr_id r', dr_tenant_id r', dr_organization_id r', dr_location_id r', dr_conversation_id r')
       = (dr_id r, dr_tenant_id r, dr_organization_id r, dr_location_id r, dr_conversation_id r)
     \<and> dr_version r \<le> dr_version r'
     \<and> (dr_version r' = dr_version r \<or> dr_status r \<noteq> ''OPEN'' \<longrightarrow>
          draft_items d (dr_id r) = draft_items s (dr_id r) \<and> draft_selections d (dr_id r) = draft_selections s (dr_id r))
     \<and> (dr_status r \<noteq> ''OPEN'' \<longrightarrow> r' = r)"

definition drafts_advance :: "ordering \<Rightarrow> ordering \<Rightarrow> bool" where
  "drafts_advance s d \<longleftrightarrow> og_next_item_id s \<le> og_next_item_id d
     \<and> (\<forall>j \<in> set (og_items d). di_id j < og_next_item_id s \<longrightarrow> (\<exists>i \<in> set (og_items s). same_item i j))
     \<and> (\<forall>r \<in> set (og_drafts s). \<exists>r' \<in> set (og_drafts d). draft_moves s d r r')"

lemma same_item_refl [simp]: "same_item i i"
  by (simp add: same_item_def)

lemma same_itemD: "same_item i j \<Longrightarrow> di_id j = di_id i \<and> di_tenant_id j = di_tenant_id i
    \<and> di_organization_id j = di_organization_id i \<and> di_draft_id j = di_draft_id i \<and> di_product_id j = di_product_id i
    \<and> di_composition_id j = di_composition_id i \<and> di_position j = di_position i"
  by (simp add: same_item_def)

lemma drafts_advance_refl [simp]: "drafts_advance d d"
  unfolding drafts_advance_def draft_moves_def by (auto intro: same_item_refl)

lemma draft_moves_trans:
  assumes "draft_moves s m r r'" "draft_moves m d r' r''"
  shows "draft_moves s d r r''"
proof -
  have id: "dr_id r' = dr_id r" using assms(1) by (simp add: draft_moves_def)
  show ?thesis
  proof (cases "dr_status r = ''OPEN''")
    case True
    have "draft_items d (dr_id r) = draft_items s (dr_id r) \<and> draft_selections d (dr_id r) = draft_selections s (dr_id r)"
      if "dr_version r'' = dr_version r"
    proof -
      have "dr_version r' = dr_version r" "dr_version r'' = dr_version r'"
        using assms that by (simp_all add: draft_moves_def)
      with assms id show ?thesis by (simp add: draft_moves_def)
    qed
    with True assms show ?thesis unfolding draft_moves_def by auto
  next
    case False
    then have "r' = r" using assms(1) by (simp add: draft_moves_def)
    with False assms show ?thesis unfolding draft_moves_def by auto
  qed
qed

lemma drafts_advance_trans:
  assumes "drafts_advance s m" "drafts_advance m d"
  shows "drafts_advance s d"
  unfolding drafts_advance_def
proof (intro conjI ballI impI)
  show "og_next_item_id s \<le> og_next_item_id d" using assms by (simp add: drafts_advance_def)
next
  fix j assume j: "j \<in> set (og_items d)" "di_id j < og_next_item_id s"
  then have "di_id j < og_next_item_id m" using assms(1) by (simp add: drafts_advance_def)
  then obtain k where k: "k \<in> set (og_items m)" "same_item k j" using assms(2) j(1) unfolding drafts_advance_def by blast
  then have "di_id k < og_next_item_id s" using j(2) by (simp add: same_item_def)
  then obtain i where "i \<in> set (og_items s)" "same_item i k" using assms(1) k(1) unfolding drafts_advance_def by blast
  with k(2) show "\<exists>i \<in> set (og_items s). same_item i j" by (auto simp: same_item_def)
next
  fix r assume "r \<in> set (og_drafts s)"
  then obtain r' where r': "r' \<in> set (og_drafts m)" "draft_moves s m r r'"
    using assms(1) unfolding drafts_advance_def by blast
  then obtain r'' where "r'' \<in> set (og_drafts d)" "draft_moves m d r' r''"
    using assms(2) unfolding drafts_advance_def by blast
  with r' show "\<exists>r' \<in> set (og_drafts d). draft_moves s d r r'" using draft_moves_trans by blast
qed

section \<open>A write on one open draft\<close>

text \<open>
  Every operation writes one open draft: the row is replaced by one with the same scope and at least its
  version, what lies under other drafts stays, and what lies under it stays when the version does.
\<close>

definition writes_draft :: "draft \<Rightarrow> draft \<Rightarrow> ordering \<Rightarrow> ordering \<Rightarrow> bool" where
  "writes_draft r r' d d' \<longleftrightarrow> r \<in> set (og_drafts d) \<and> dr_status r = ''OPEN''
     \<and> (dr_id r', dr_tenant_id r', dr_organization_id r', dr_location_id r', dr_conversation_id r')
       = (dr_id r, dr_tenant_id r, dr_organization_id r, dr_location_id r, dr_conversation_id r)
     \<and> og_drafts d' = modify dr_id (dr_id r) (\<lambda>_. r') (og_drafts d)
     \<and> dr_version r \<le> dr_version r' \<and> og_next_item_id d \<le> og_next_item_id d'
     \<and> (\<forall>j \<in> set (og_items d'). di_id j < og_next_item_id d \<longrightarrow> (\<exists>i \<in> set (og_items d). same_item i j))
     \<and> (\<forall>k. k \<noteq> dr_id r \<or> dr_version r' = dr_version r \<longrightarrow>
          draft_items d' k = draft_items d k \<and> draft_selections d' k = draft_selections d k)"

lemma writes_advance:
  assumes "drafts_inv d" "writes_draft r r' d d'"
  shows "drafts_advance d d'"
  unfolding drafts_advance_def
proof (intro conjI ballI impI)
  show "og_next_item_id d \<le> og_next_item_id d'" using assms(2) by (simp add: writes_draft_def)
  show "\<exists>i \<in> set (og_items d). same_item i j" if "j \<in> set (og_items d')" "di_id j < og_next_item_id d" for j
    using assms(2) that by (auto simp: writes_draft_def)
next
  fix q assume q: "q \<in> set (og_drafts d)"
  have dist: "distinct (map dr_id (og_drafts d))" using assms(1) by (simp add: drafts_inv_def)
  show "\<exists>q' \<in> set (og_drafts d'). draft_moves d d' q q'"
  proof (cases "dr_id q = dr_id r")
    case True
    then have "q = r" using same_row_if_same_id[OF dist q] assms(2) by (simp add: writes_draft_def)
    moreover have "r' \<in> set (og_drafts d')"
      using assms(2) dist set_modify_distinct[of dr_id "og_drafts d" r "dr_id r" r' "\<lambda>_. r'"] by (simp add: writes_draft_def)
    ultimately show ?thesis using assms(2) by (intro bexI[of _ r']) (auto simp: writes_draft_def draft_moves_def)
  next
    case False
    then have "q \<in> set (og_drafts d')" using q assms(2) by (auto simp: writes_draft_def set_modify)
    then show ?thesis using False assms(2) by (intro bexI[of _ q]) (auto simp: writes_draft_def draft_moves_def)
  qed
qed

lemma bump_as_write: "bump_draft r rows = modify dr_id (dr_id r) (\<lambda>x. x\<lparr>dr_version := dr_version r + 1\<rparr>) rows"
  by (simp add: bump_draft_def)

lemma bump_modify:
  assumes "distinct (map dr_id rows)" "r \<in> set rows"
  shows "bump_draft r rows = modify dr_id (dr_id r) (\<lambda>_. r\<lparr>dr_version := dr_version r + 1\<rparr>) rows"
  unfolding bump_draft_def by (rule modify_own[OF assms])

lemma item_in_draft_iff: "item_in_draft d i \<longleftrightarrow> (di_draft_id i, di_tenant_id i, di_organization_id i)
    \<in> (\<lambda>r. (dr_id r, dr_tenant_id r, dr_organization_id r)) ` set (og_drafts d)"
  by (force simp: item_in_draft_def image_iff)

text \<open>The drafts after such a write.\<close>

lemma drafts_after_bump:
  assumes "drafts_inv d" "r \<in> set (og_drafts d)"
  shows "distinct (map dr_id (bump_draft r (og_drafts d)))"
    "table_ok draft_ok drafts_collide (bump_draft r (og_drafts d))"
    "item_in_draft (d\<lparr>og_drafts := bump_draft r (og_drafts d)\<rparr>) i \<longleftrightarrow> item_in_draft d i"
proof -
  show "distinct (map dr_id (bump_draft r (og_drafts d)))"
    using assms(1) by (simp add: bump_draft_def modify_ids drafts_inv_def)
  have ok: "table_ok draft_ok drafts_collide (og_drafts d)" using assms(1) by (simp add: drafts_inv_def)
  have "draft_ok (if dr_id x = dr_id r then x\<lparr>dr_version := dr_version r + 1\<rparr> else x)" if "x \<in> set (og_drafts d)" for x
    using table_okD[OF ok that] table_okD[OF ok assms(2)] by (auto simp: draft_ok_def)
  then show "table_ok draft_ok drafts_collide (bump_draft r (og_drafts d))" unfolding bump_draft_def modify_def
    by (intro table_ok_map[OF ok]) (auto simp: drafts_collide_def)
  show "item_in_draft (d\<lparr>og_drafts := bump_draft r (og_drafts d)\<rparr>) i \<longleftrightarrow> item_in_draft d i"
    by (simp add: item_in_draft_iff bump_draft_def image_modify)
qed

section \<open>The operations write\<close>

lemma filter_map_same:
  assumes "\<And>y. y \<in> set ys \<Longrightarrow> g y \<noteq> y \<Longrightarrow> \<not> P y \<and> \<not> P (g y)"
  shows "filter P (map g ys) = filter P ys"
  using assms by (induction ys) (simp, metis (no_types, lifting) filter.simps(2) list.set_intros list.simps(9))

lemma if_Inr_iff: "(if b then Inl e else x) = Inr y \<longleftrightarrow> \<not> b \<and> x = Inr y"
  by simp

lemmas result_iffs = bind_result_Inr_iff case_option_Inr_iff if_Inr_iff

lemma locked_draftD:
  assumes "locked_mutable_draft held s d tenant i v owner owned = Inr r"
  shows "r \<in> set (og_drafts d)" "dr_id r = i" "dr_tenant_id r = tenant" "dr_status r = ''OPEN''"
    "dr_current_slot r = Some 1" "dr_version r = v"
  using assms unfolding locked_mutable_draft_def result_iffs by (auto dest!: find_SomeD)

text \<open>An operation that bumps the version of the draft it locked.\<close>

lemma writes_bump:
  assumes inv: "drafts_inv d" and lock: "locked_mutable_draft held s d tenant i v owner owned = Inr r"
    and "og_drafts d' = bump_draft r (og_drafts d)" "og_next_item_id d \<le> og_next_item_id d'"
    and "\<And>j. j \<in> set (og_items d') \<Longrightarrow> di_id j < og_next_item_id d \<Longrightarrow> \<exists>i \<in> set (og_items d). same_item i j"
    and "\<And>k. k \<noteq> dr_id r \<Longrightarrow> draft_items d' k = draft_items d k"
    and "\<And>k. k \<noteq> dr_id r \<Longrightarrow> draft_selections d' k = draft_selections d k"
  shows "writes_draft r (r\<lparr>dr_version := v + 1\<rparr>) d d'"
proof -
  note r = locked_draftD[OF lock]
  have "distinct (map dr_id (og_drafts d))" using inv by (simp add: drafts_inv_def)
  from bump_modify[OF this r(1)] assms(3-7) r show ?thesis unfolding writes_draft_def by simp
qed

lemma item_ofD:
  assumes "draft_item_of s r item_id = Inr i"
  shows "i \<in> set (og_items s)" "di_id i = item_id" "di_tenant_id i = dr_tenant_id r"
    "di_organization_id i = dr_organization_id r" "di_draft_id i = dr_id r"
  using assms by (auto simp: draft_item_of_def dest!: find_SomeD split: option.splits)

lemma current_draftD:
  assumes "current_draft d tenant c = Some r"
  shows "r \<in> set (og_drafts d)" "dr_tenant_id r = tenant" "dr_conversation_id r = c" "dr_status r = ''OPEN''"
  using assms by (auto simp: current_draft_def dest!: find_SomeD)

text \<open>An item that the snapshot shows is still the same item, if it is there.\<close>

lemma seen_item:
  assumes "drafts_inv s" "drafts_advance s d" "i \<in> set (og_items s)" "j \<in> set (og_items d)" "di_id j = di_id i"
  shows "same_item i j"
proof -
  have "di_id j < og_next_item_id s" using assms(1,3,5) by (simp add: drafts_inv_def)
  then obtain k where k: "k \<in> set (og_items s)" "same_item k j" using assms(2,4) unfolding drafts_advance_def by blast
  have "k = i" using assms(1,3,5) k same_row_if_same_id[of di_id "og_items s" k i] by (simp add: drafts_inv_def same_item_def)
  with k show ?thesis by simp
qed

lemma next_position_nonneg: "0 \<le> next_position s tenant i"
proof -
  have "- 1 \<le> foldr max xs (- 1 :: int)" for xs by (induction xs) auto
  from this[of "map di_position (filter (\<lambda>x. di_tenant_id x = tenant \<and> di_draft_id x = i) (og_items s))"]
  show ?thesis by (simp add: next_position_def)
qed

lemma validated_quantity: "validate_quantity q = Inr x \<Longrightarrow> 0 < x \<and> numeric_19_4 x"
  by (auto simp: validate_quantity_def intro!: decimal_fits split: decimal_argument.splits if_splits)

lemma add_item_cases:
  assumes "add_item held s tenant i product_id q v owner owned d = Inr (item, d')"
  obtains r x c where "validate_quantity q = Inr x" "locked_mutable_draft held s d tenant i v owner owned = Inr r"
    "c = composition_of s tenant (dr_organization_id r) product_id"
    "is_product_orderable (og_catalog s) (og_menus s) tenant (dr_organization_id r) (dr_location_id r) product_id"
    "\<And>k. c = Some k \<Longrightarrow> co_status k = ''ACTIVE'' \<and> structural (validate_selection (og_catalog s) tenant product_id []) = []"
    "item = \<lparr>di_id = og_next_item_id d, di_tenant_id = tenant, di_organization_id = dr_organization_id r,
       di_draft_id = dr_id r, di_product_id = product_id, di_composition_id = map_option co_id c, di_quantity = x,
       di_position = next_position s tenant (dr_id r)\<rparr>"
    "list_ex (draft_items_collide item) (og_items d) = False"
    "d' = d\<lparr>og_items := og_items d @ [item], og_next_item_id := og_next_item_id d + 1, og_drafts := bump_draft r (og_drafts d)\<rparr>"
proof -
  from assms obtain x r where x: "validate_quantity q = Inr x" and r: "locked_mutable_draft held s d tenant i v owner owned = Inr r"
    unfolding add_item_def by (auto simp: bind_result_Inr_iff)
  note run = assms[unfolded add_item_def x r bind_result.simps]
  have ord: "is_product_orderable (og_catalog s) (og_menus s) tenant (dr_organization_id r) (dr_location_id r) product_id"
    using run by (cases "is_product_orderable (og_catalog s) (og_menus s) tenant (dr_organization_id r) (dr_location_id r) product_id") simp_all
  obtain p where p: "List.find (\<lambda>p. pd_id p = product_id \<and> pd_tenant_id p = tenant
             \<and> pd_organization_id p = dr_organization_id r \<and> pd_status p = ''ACTIVE'') (cat_products (og_catalog s)) = Some p"
    using run ord by (cases "List.find (\<lambda>p. pd_id p = product_id \<and> pd_tenant_id p = tenant
             \<and> pd_organization_id p = dr_organization_id r \<and> pd_status p = ''ACTIVE'') (cat_products (og_catalog s))") simp_all
  have pid: "pd_id p = product_id" using find_SomeD[OF p] by simp
  define c where "c = composition_of s tenant (dr_organization_id r) product_id"
  define bad where "bad = (case c of None \<Rightarrow> False | Some c \<Rightarrow> co_status c \<noteq> ''ACTIVE''
                \<or> structural (validate_selection (og_catalog s) tenant product_id []) \<noteq> [])"
  note run = run[unfolded p option.case Let_def c_def[symmetric] bad_def[symmetric] pid]
  have nb: "\<not> bad" using run ord by (cases bad) simp_all
  show thesis
    by (rule that[OF x r c_def ord]) (use run ord nb in \<open>auto simp: bad_def split: if_splits\<close>)
qed

lemma add_item_writes:
  assumes inv: "drafts_inv d" and run: "add_item held s tenant i product_id q v owner owned d = Inr (item, d')"
  obtains r where "r \<in> set (og_drafts d)" "dr_id r = i" "dr_version r = v"
    "writes_draft r (r\<lparr>dr_version := v + 1\<rparr>) d d'" "drafts_inv d'"
  using run
proof (cases rule: add_item_cases)
  case (1 r x c)
  note r = locked_draftD[OF 1(2)]
  note rows = drafts_after_bump[OF inv r(1)]
  have dist: "distinct (map dr_id (og_drafts d))" using inv by (simp add: drafts_inv_def)
  have fresh: "di_id j \<noteq> di_id item" if "j \<in> set (og_items d)" for j using inv that 1(6) by (auto simp: drafts_inv_def)
  have item: "di_id item = og_next_item_id d" "di_draft_id item = dr_id r" "di_tenant_id item = dr_tenant_id r"
    "di_organization_id item = dr_organization_id r" "di_quantity item = x" "0 \<le> di_position item"
    using 1(6) r(3) next_position_nonneg by simp_all
  have "writes_draft r (r\<lparr>dr_version := v + 1\<rparr>) d d'"
    by (rule writes_bump[OF inv 1(2)])
      (use item in \<open>auto simp: 1(8) draft_items_def draft_selections_def intro: same_item_refl\<close>)
  moreover have "drafts_inv d'"
  proof -
    have "table_ok item_row_ok draft_items_collide (og_items d @ [item])"
      using inv validated_quantity[OF 1(1)] 1(7) item
      by (auto simp: drafts_inv_def table_ok_def collision_free_append list_ex_iff item_row_ok_def draft_item_ok_def
          draft_items_collide_def)
    moreover have "distinct (map di_id (og_items d @ [item]))" using inv fresh by (auto simp: drafts_inv_def) (metis fresh)
    moreover have "item_in_draft d' j" if "j \<in> set (og_items d')" for j
    proof -
      have "item_in_draft d j" using that inv r(1) item by (auto simp: 1(8) drafts_inv_def) (auto simp: item_in_draft_def)
      with rows(3)[of j] show ?thesis by (simp add: item_in_draft_def 1(8))
    qed
    moreover have "selection_in_item d' y" if "y \<in> set (og_selections d)" for y
      using that inv by (force simp: drafts_inv_def selection_in_item_def 1(8))
    ultimately show ?thesis using inv rows(1,2) item(1) by (auto simp: drafts_inv_def 1(8))
  qed
  ultimately show thesis using that r(1,2,6) by blast
qed

text \<open>The same for an operation that changes no set of items.\<close>

lemma set_quantity_writes:
  assumes snap: "drafts_inv s" "drafts_advance s d" and inv: "drafts_inv d"
    and run: "set_item_quantity held s tenant i item_id q v owner owned d = Inr d'"
  obtains r where "r \<in> set (og_drafts d)" "dr_id r = i" "dr_version r = v"
    "writes_draft r (r\<lparr>dr_version := v + 1\<rparr>) d d'" "drafts_inv d'"
proof -
  from run obtain x r k where x: "validate_quantity q = Inr x"
    and lock: "locked_mutable_draft held s d tenant i v owner owned = Inr r" and k: "draft_item_of s r item_id = Inr k"
    and d': "d' = d\<lparr>og_drafts := bump_draft r (og_drafts d)\<rparr>
      \<or> d' = d\<lparr>og_items := modify di_id item_id (\<lambda>y. y\<lparr>di_quantity := x\<rparr>) (og_items d), og_drafts := bump_draft r (og_drafts d)\<rparr>"
    by (auto simp: set_item_quantity_def bind_result_Inr_iff split: if_splits)
  note r = locked_draftD[OF lock]
  note k = item_ofD[OF k]
  note rows = drafts_after_bump[OF inv r(1)]
  have dist: "distinct (map dr_id (og_drafts d))" using inv by (simp add: drafts_inv_def)
  let ?f = "\<lambda>y. if di_id y = item_id then y\<lparr>di_quantity := x\<rparr> else y"
  have rest: "og_drafts d' = bump_draft r (og_drafts d)" "og_selections d' = og_selections d"
    "og_next_item_id d' = og_next_item_id d" "og_next_selection_id d' = og_next_selection_id d"
    using d' by auto
  obtain g where g: "og_items d' = map g (og_items d)" "g = id \<or> g = ?f"
  proof -
    have "og_items d' = map id (og_items d) \<or> og_items d' = map ?f (og_items d)" using d' by (auto simp: modify_def)
    then show thesis using that by blast
  qed
  have same: "same_item y (g y)" "di_id (g y) = di_id y" for y using g(2) by (auto simp: same_item_def)
  have scope: "di_draft_id j = dr_id r" if "j \<in> set (og_items d)" "di_id j = item_id" for j
    using same_itemD[OF seen_item[OF snap k(1) that(1)]] that(2) k by simp
  have other: "draft_items d' m = draft_items d m" if "m \<noteq> dr_id r" for m
  proof -
    have "filter (\<lambda>y. di_draft_id y = m) (map g (og_items d)) = filter (\<lambda>y. di_draft_id y = m) (og_items d)"
    proof (rule filter_map_same)
      fix y assume y: "y \<in> set (og_items d)" "g y \<noteq> y"
      then have "di_id y = item_id" using g(2) by (auto split: if_splits)
      then show "di_draft_id y \<noteq> m \<and> di_draft_id (g y) \<noteq> m"
        using scope[OF y(1)] \<open>m \<noteq> dr_id r\<close> same_itemD[OF same(1)[of y]] by simp
    qed
    then show ?thesis by (simp add: draft_items_def g(1))
  qed
  have "writes_draft r (r\<lparr>dr_version := v + 1\<rparr>) d d'"
  proof (rule writes_bump[OF inv lock rest(1)])
    show "\<exists>i \<in> set (og_items d). same_item i j" if "j \<in> set (og_items d')" for j using that same(1) by (auto simp: g(1))
  qed (simp_all add: rest other draft_selections_def)
  moreover have "drafts_inv d'"
  proof -
    have ok: "table_ok item_row_ok draft_items_collide (og_items d)" using inv by (simp add: drafts_inv_def)
    have "table_ok item_row_ok draft_items_collide (map g (og_items d))"
    proof (rule table_ok_map[OF ok])
      show "item_row_ok (g y)" if "y \<in> set (og_items d)" for y
        using table_okD[OF ok that] validated_quantity[OF x] g(2) by (auto simp: item_row_ok_def draft_item_ok_def)
      show "draft_items_collide (g a) (g b) = draft_items_collide a b" for a b
        using same_itemD[OF same(1)] by (simp add: draft_items_collide_def)
    qed
    moreover have "distinct (map di_id (map g (og_items d)))"
    proof -
      have "map di_id (map g (og_items d)) = map di_id (og_items d)" using same(2) by simp
      with inv show ?thesis unfolding drafts_inv_def by metis
    qed
    moreover have "item_in_draft d' (g y)" if "y \<in> set (og_items d)" for y
      using inv that rows(3)[of y] same_itemD[OF same(1)[of y]] by (simp add: item_in_draft_def rest drafts_inv_def)
    moreover have "selection_in_item d' z" if "z \<in> set (og_selections d)" for z
    proof -
      obtain y where y: "y \<in> set (og_items d)" "di_id y = sl_draft_item_id z" "di_tenant_id y = sl_tenant_id z"
        "di_organization_id y = sl_organization_id z" "di_draft_id y = sl_draft_id z" "di_composition_id y = Some (sl_composition_id z)"
        using inv \<open>z \<in> set (og_selections d)\<close> unfolding drafts_inv_def selection_in_item_def by blast
      then show ?thesis unfolding selection_in_item_def g(1)
        by (intro bexI[of _ "g y"]) (use same_itemD[OF same(1)[of y]] in auto)
    qed
    ultimately show ?thesis using inv rows(1,2) by (auto simp: drafts_inv_def rest g(1) same(2))
  qed
  ultimately show thesis using that r(1,2,6) by blast
qed

lemma distinct_filter_ids: "distinct (map f xs) \<Longrightarrow> distinct (map f (filter P xs))"
  by (induction xs) auto

lemma table_ok_filter: "table_ok ok col xs \<Longrightarrow> table_ok ok col (filter P xs)"
  by (induction xs) (auto simp: table_ok_def list_all_iff)

lemma collision_free_filter: "collision_free col xs \<Longrightarrow> collision_free col (filter P xs)"
  by (induction xs) (auto simp: list_all_iff)

lemma remove_item_writes:
  assumes snap: "drafts_inv s" "drafts_advance s d" and inv: "drafts_inv d"
    and run: "remove_item held s tenant i item_id v owner owned d = Inr d'"
  obtains r where "r \<in> set (og_drafts d)" "dr_id r = i" "dr_version r = v"
    "writes_draft r (r\<lparr>dr_version := v + 1\<rparr>) d d'" "drafts_inv d'"
proof -
  from run obtain r k where lock: "locked_mutable_draft held s d tenant i v owner owned = Inr r"
    and k: "draft_item_of s r item_id = Inr k"
    and d': "d' = d\<lparr>og_selections := filter (\<lambda>x. \<not> selection_of_item tenant (dr_id r) (di_id k) x) (og_selections d),
              og_items := filter (\<lambda>x. di_id x \<noteq> di_id k) (og_items d), og_drafts := bump_draft r (og_drafts d)\<rparr>"
    unfolding remove_item_def result_iffs by auto
  note r = locked_draftD[OF lock]
  note k = item_ofD[OF k]
  note rows = drafts_after_bump[OF inv r(1)]
  have scope: "same_item k j" if "j \<in> set (og_items d)" "di_id j = di_id k" for j
    using seen_item[OF snap k(1) that(1)] that(2) by simp
  have "writes_draft r (r\<lparr>dr_version := v + 1\<rparr>) d d'"
  proof (rule writes_bump[OF inv lock])
    fix m assume m: "m \<noteq> dr_id r"
    have "di_draft_id x \<noteq> m" if "x \<in> set (og_items d)" "di_id x = di_id k" for x
      using same_itemD[OF scope[OF that]] k m by simp
    then show "draft_items d' m = draft_items d m" by (auto simp: draft_items_def d' intro!: filter_cong)
    show "draft_selections d' m = draft_selections d m"
      using m by (auto simp: draft_selections_def d' selection_of_item_def intro!: filter_cong)
  qed (auto simp: d' intro: same_item_refl)
  moreover have "drafts_inv d'"
  proof -
    have "item_in_draft d' j" if "j \<in> set (og_items d)" for j
      using inv that rows(3)[of j] by (simp add: item_in_draft_def d' drafts_inv_def)
    moreover have "selection_in_item d' z" if z: "z \<in> set (og_selections d)" "\<not> selection_of_item tenant (dr_id r) (di_id k) z" for z
    proof -
      obtain y where y: "y \<in> set (og_items d)" "di_id y = sl_draft_item_id z" "di_tenant_id y = sl_tenant_id z"
        "di_organization_id y = sl_organization_id z" "di_draft_id y = sl_draft_id z" "di_composition_id y = Some (sl_composition_id z)"
        using inv z(1) unfolding drafts_inv_def selection_in_item_def by blast
      have "di_id y \<noteq> di_id k"
        using same_itemD[OF scope[OF y(1)]] y z(2) k r(3) by (auto simp: selection_of_item_def)
      with y show ?thesis unfolding selection_in_item_def by (intro bexI[of _ y]) (simp_all add: d')
    qed
    ultimately show ?thesis using inv rows(1,2)
      by (auto simp: drafts_inv_def d' distinct_filter_ids table_ok_filter collision_free_filter)
  qed
  ultimately show thesis using that r(1,2,6) by blast
qed

lemma new_rows_id_bound:
  assumes "\<And>j x. rid (mk j x) = j" "r \<in> set (new_rows mk i xs)"
  shows "rid r < i + int (length xs)"
  using assms(2)
proof (induction xs arbitrary: i)
  case (Cons x xs)
  show ?case
  proof (cases "r \<in> set (new_rows mk (i + 1) xs)")
    case True
    from Cons.IH[OF this] show ?thesis by simp
  next
    case False
    with Cons.prems show ?thesis by (simp add: assms(1))
  qed
qed simp

lemma replace_selections_writes:
  assumes snap: "drafts_inv s" "drafts_advance s d" and inv: "drafts_inv d"
    and run: "replace_group_selections held s tenant i item_id gid ids v owner owned d = Inr d'"
  obtains r where "r \<in> set (og_drafts d)" "dr_id r = i" "dr_version r = v"
    "writes_draft r (r\<lparr>dr_version := v + 1\<rparr>) d d'" "drafts_inv d'"
proof -
  define mk where "mk = (\<lambda>(r :: draft) (k :: draft_item) c j option_id. \<lparr>sl_id = j, sl_tenant_id = tenant, sl_organization_id = dr_organization_id r,
     sl_draft_id = dr_id r, sl_draft_item_id = di_id k, sl_composition_id = c, sl_choice_group_id = gid,
     sl_choice_option_id = option_id\<rparr>)"
  define rest where "rest = (\<lambda>(r :: draft) (k :: draft_item). filter (\<lambda>x. \<not> (selection_of_item tenant (dr_id r) (di_id k) x \<and> sl_choice_group_id x = gid))
     (og_selections d))"
  from run obtain r k c where lock: "locked_mutable_draft held s d tenant i v owner owned = Inr r"
    and k: "draft_item_of s r item_id = Inr k" and c: "di_composition_id k = Some c"
    and there: "ids \<noteq> [] \<Longrightarrow> find_row di_id (di_id k) (og_items d) \<noteq> None"
    and free: "collision_free draft_selections_collide (rest r k @ new_rows (mk r k c) (og_next_selection_id d) ids)"
    and d': "d' = d\<lparr>og_selections := rest r k @ new_rows (mk r k c) (og_next_selection_id d) ids,
         og_next_selection_id := og_next_selection_id d + int (length ids), og_drafts := bump_draft r (og_drafts d)\<rparr>"
    unfolding replace_group_selections_def result_iffs Let_def rest_def mk_def by auto
  note r = locked_draftD[OF lock]
  note k = item_ofD[OF k]
  note rows = drafts_after_bump[OF inv r(1)]
  let ?new = "new_rows (mk r k c) (og_next_selection_id d) ids"
  have new: "sl_draft_id x = dr_id r \<and> sl_tenant_id x = tenant \<and> sl_organization_id x = dr_organization_id r
    \<and> sl_draft_item_id x = di_id k \<and> sl_composition_id x = c" if "x \<in> set ?new" for x
    using new_rows_in[OF that] by (auto simp: mk_def)
  have new_ids: "og_next_selection_id d \<le> sl_id x \<and> sl_id x < og_next_selection_id d + int (length ids)" if "x \<in> set ?new" for x
    using new_rows_ids[of sl_id "mk r k c" "og_next_selection_id d" ids] new_rows_id_bound[of sl_id "mk r k c", OF _ that] that
    by (simp add: mk_def)
  have "writes_draft r (r\<lparr>dr_version := v + 1\<rparr>) d d'"
  proof (rule writes_bump[OF inv lock])
    fix m assume m: "m \<noteq> dr_id r"
    have "filter (\<lambda>x. sl_draft_id x = m) ?new = []" using new m by (auto simp: filter_empty_conv)
    then show "draft_selections d' m = draft_selections d m"
      using m by (auto simp: draft_selections_def d' rest_def selection_of_item_def intro!: filter_cong)
  qed (auto simp: d' draft_items_def intro: same_item_refl)
  moreover have "drafts_inv d'"
  proof -
    have items: "item_in_draft d' j" if "j \<in> set (og_items d)" for j
      using inv that rows(3)[of j] by (simp add: item_in_draft_def d' drafts_inv_def)
    have old: "selection_in_item d' z" if "z \<in> set (og_selections d)" for z
      using inv that by (simp add: drafts_inv_def selection_in_item_def d')
    have "selection_in_item d' z" if z: "z \<in> set ?new" for z
    proof -
      have "ids \<noteq> []" using z by auto
      then obtain j where j: "j \<in> set (og_items d)" "di_id j = di_id k" using there find_row_SomeD by fast
      from same_itemD[OF seen_item[OF snap k(1) j]] j new[OF z] k r c show ?thesis
        unfolding selection_in_item_def by (intro bexI[of _ j]) (simp_all add: d')
    qed
    with old have sel: "selection_in_item d' z" if "z \<in> set (og_selections d')" for z using that by (auto simp: d' rest_def)
    have old_ids: "sl_id x < og_next_selection_id d" if "x \<in> set (og_selections d)" for x
      using inv that by (simp add: drafts_inv_def)
    have bound: "sl_id x < og_next_selection_id d'" if "x \<in> set (og_selections d')" for x
      using that new_ids old_ids by (fastforce simp: d' rest_def)
    have ids: "distinct (map sl_id (og_selections d'))"
    proof -
      have "distinct (map sl_id (rest r k))" using inv by (simp add: rest_def drafts_inv_def distinct_filter_ids)
      moreover have "distinct (map sl_id ?new)"
        using new_rows_ids[of sl_id "mk r k c" "og_next_selection_id d" ids] by (simp add: mk_def)
      moreover have "sl_id a \<noteq> sl_id b" if "a \<in> set (rest r k)" "b \<in> set ?new" for a b
        using that old_ids new_ids by (fastforce simp: rest_def)
      ultimately show ?thesis by (auto simp: d')
    qed
    have free': "collision_free draft_selections_collide (og_selections d')" using free by (simp add: d')
    from inv rows(1,2) items sel bound ids free' show ?thesis unfolding drafts_inv_def by (simp add: d')
  qed
  ultimately show thesis using that r(1,2,6) by blast
qed

lemma drafts_collide_sym: "drafts_collide a b = drafts_collide b a"
  unfolding drafts_collide_def by metis

text \<open>Opening adds a draft, abandoning and accepting close one.\<close>

lemma open_draft_keeps:
  assumes inv: "drafts_inv d" and run: "get_or_create_draft held s tenant conversation owner owned d = Inr (i, d')"
  shows "drafts_inv d' \<and> drafts_advance d d'"
proof -
  from run have "d' = d \<or> (\<exists>r. d' = d\<lparr>og_drafts := og_drafts d @ [r]\<rparr> \<and> dr_id r = next_id dr_id (og_drafts d)
      \<and> dr_version r = 1 \<and> dr_status r = ''OPEN'' \<and> dr_current_slot r = Some 1 \<and> dr_terminal_at r = None
      \<and> \<not> list_ex (drafts_collide r) (og_drafts d))"
    unfolding get_or_create_draft_def result_iffs by (auto simp: Let_def split: option.split_asm if_split_asm)
  then show ?thesis
  proof (elim disjE exE conjE)
    fix r assume d': "d' = d\<lparr>og_drafts := og_drafts d @ [r]\<rparr>" and r: "dr_id r = next_id dr_id (og_drafts d)"
      "dr_version r = 1" "dr_status r = ''OPEN''" "dr_current_slot r = Some 1" "dr_terminal_at r = None"
      and free: "\<not> list_ex (drafts_collide r) (og_drafts d)"
    have "table_ok draft_ok drafts_collide (og_drafts d @ [r])"
      using inv r free by (auto simp: drafts_inv_def table_ok_def collision_free_append list_ex_iff drafts_collide_sym[of _ r] draft_ok_def)
    moreover have "distinct (map dr_id (og_drafts d @ [r]))" using inv next_id_fresh[of dr_id "og_drafts d"]
      by (auto simp: drafts_inv_def r(1))
    ultimately have "drafts_inv d'" using inv unfolding drafts_inv_def d' item_in_draft_def selection_in_item_def by auto
    moreover have "drafts_advance d d'" unfolding drafts_advance_def d' draft_moves_def draft_items_def draft_selections_def
      by (auto intro: same_item_refl)
    ultimately show ?thesis by simp
  qed (use inv in simp)
qed

lemma close_draft_writes:
  assumes inv: "drafts_inv d" and r: "r \<in> set (og_drafts d)" "dr_status r = ''OPEN''"
    and r': "(dr_id r', dr_tenant_id r', dr_organization_id r', dr_location_id r', dr_conversation_id r', dr_version r')
       = (dr_id r, dr_tenant_id r, dr_organization_id r, dr_location_id r, dr_conversation_id r, dr_version r)"
      "dr_status r' \<in> {''ACCEPTED'', ''ABANDONED''}" "dr_current_slot r' = None" "dr_terminal_at r' \<noteq> None"
    and free: "\<And>q. q \<in> set (og_drafts d) \<Longrightarrow> dr_id q \<noteq> dr_id r \<Longrightarrow> \<not> drafts_collide r' q"
    and d': "og_drafts d' = modify dr_id (dr_id r) (\<lambda>_. r') (og_drafts d)" "og_items d' = og_items d"
      "og_selections d' = og_selections d" "og_next_item_id d' = og_next_item_id d" "og_next_selection_id d' = og_next_selection_id d"
  shows "writes_draft r r' d d'" "drafts_inv d'"
proof -
  show "writes_draft r r' d d'" using r r'(1) d' unfolding writes_draft_def draft_items_def draft_selections_def
    by (auto intro: same_item_refl)
  have dist: "distinct (map dr_id (og_drafts d))" and ok: "table_ok draft_ok drafts_collide (og_drafts d)"
    using inv by (simp_all add: drafts_inv_def)
  have "draft_ok r'" using table_okD[OF ok r(1)] r' by (auto simp: draft_ok_def)
  then have "table_ok draft_ok drafts_collide (og_drafts d')" unfolding d'(1)
    by (intro table_ok_modify_one[OF ok dist r(1) refl]) (use free in \<open>auto simp: drafts_collide_sym[of _ r']\<close>)
  moreover have "map dr_id (og_drafts d') = map dr_id (og_drafts d)" unfolding d'(1) using r'(1)
    by (auto simp: modify_def)
  moreover have "item_in_draft d' i" if i: "item_in_draft d i" for i
  proof -
    from i obtain q where q: "q \<in> set (og_drafts d)" "dr_id q = di_draft_id i" "dr_tenant_id q = di_tenant_id i"
      "dr_organization_id q = di_organization_id i" unfolding item_in_draft_def by blast
    show ?thesis
    proof (cases "dr_id q = dr_id r")
      case True
      with same_row_if_same_id[OF dist q(1) r(1)] have "q = r" by simp
      with q r'(1) r(1) show ?thesis unfolding item_in_draft_def d'(1)
        by (intro bexI[of _ r']) (auto simp: set_modify)
    next
      case False
      with q(1) have "q \<in> set (og_drafts d')" unfolding d'(1) set_modify by auto
      with q show ?thesis unfolding item_in_draft_def by auto
    qed
  qed
  ultimately show "drafts_inv d'" using inv dist unfolding drafts_inv_def selection_in_item_def d'(2-5) by auto
qed

end
