(* ===== verification/CommercialProofs.thy ===== *)
theory CommercialProofs
  imports Commercial DecimalOrder DraftProofs
begin

text \<open>
  What a preview promises: no discount exceeds what it is taken from, nothing is negative, and the amount
  to pay is whole and nearest to the total. It prices exactly the items of the draft.
\<close>

section \<open>Promotions\<close>

definition pricing_ok :: "pricing \<Rightarrow> bool" where
  "pricing_ok g \<longleftrightarrow> list_all product_price_ok (pg_prices g) \<and> list_all promotion_ok (pg_promotions g)"

text \<open>An amount of the decimal context.\<close>

definition amount_ok :: "rat \<Rightarrow> bool" where
  "amount_ok x \<longleftrightarrow> 0 \<le> x \<and> round_digits PREC x = x"

lemma rounded_amount: "0 \<le> x \<Longrightarrow> amount_ok (round_digits PREC x)"
  by (simp add: amount_ok_def round_digits_nonneg round_digits_idem)

lemma rounded_below: "amount_ok y \<Longrightarrow> 0 \<le> x \<Longrightarrow> x \<le> y \<Longrightarrow> round_digits PREC x \<le> y"
  using round_digits_le_rounded[of x PREC y] by (simp add: amount_ok_def)

lemma promotion_discount_nonneg:
  assumes "promotion_discount currency r remaining = Inr x" "promotion_ok r" "0 \<le> remaining"
  shows "0 \<le> x"
proof -
  have "0 \<le> pm_benefit_value r" using assms(2) by (auto simp: promotion_ok_def)
  with assms show ?thesis
    by (auto simp: promotion_discount_def split: if_splits intro!: round_digits_nonneg mult_nonneg_nonneg)
qed

lemma apply_each_bounds:
  assumes "apply_each currency rs remaining = Inr (applied, left)" "list_all promotion_ok rs" "amount_ok remaining"
  shows "amount_ok left \<and> left \<le> remaining \<and> map app_promotion_id applied = map pm_id rs
    \<and> (\<forall>a \<in> set applied. 0 \<le> app_calculated_discount a \<and> app_calculated_discount a \<le> remaining)"
  using assms
proof (induction rs arbitrary: remaining applied left)
  case (Cons r rs)
  from Cons.prems(1) obtain x rest where x: "promotion_discount currency r remaining = Inr x"
    and rest: "apply_each currency rs (round_digits PREC (remaining - min x remaining)) = Inr (rest, left)"
    and applied: "\<exists>a. applied = a # rest \<and> app_promotion_id a = pm_id r \<and> app_calculated_discount a = min x remaining"
    by (auto simp: Let_def bind_result_Inr_iff)
  have "0 \<le> x" using promotion_discount_nonneg[OF x] Cons.prems by (simp add: amount_ok_def)
  then have actual: "0 \<le> min x remaining" "min x remaining \<le> remaining" using Cons.prems(3) by (simp_all add: amount_ok_def)
  then have less: "amount_ok (round_digits PREC (remaining - min x remaining))" by (intro rounded_amount) simp
  have "round_digits PREC (remaining - min x remaining) \<le> remaining"
    using rounded_below[OF Cons.prems(3), of "remaining - min x remaining"] actual by simp
  with Cons.IH[OF rest _ less] Cons.prems(2) applied actual show ?case by fastforce
qed simp

lemma selected_promotions_sub: "set (selected_promotions rs) \<subseteq> set rs"
proof -
  define ordered where "ordered = order_by pm_priority (order_by pm_id rs)"
  have "set ordered = set rs" by (simp add: ordered_def)
  then show ?thesis unfolding selected_promotions_def ordered_def[symmetric] by (cases ordered) auto
qed

lemma apply_promotions_bounds:
  assumes run: "apply_promotions rs base currency = Inr (applied, discount, left)"
    and ok: "list_all promotion_ok rs" and base: "amount_ok base"
  shows "amount_ok left" "left \<le> base" "amount_ok discount" "discount \<le> base"
    "map app_promotion_id applied = map pm_id (selected_promotions rs)"
    "\<forall>a \<in> set applied. 0 \<le> app_calculated_discount a \<and> app_calculated_discount a \<le> base"
proof -
  from run have each: "apply_each currency (selected_promotions rs) base = Inr (applied, left)"
    and discount: "discount = round_digits PREC (base - left)"
    by (auto simp: apply_promotions_def bind_result_Inr_iff)
  have "list_all promotion_ok (selected_promotions rs)"
    using ok selected_promotions_sub[of rs] by (auto simp: list_all_iff)
  note b = apply_each_bounds[OF each this base]
  from b have left: "0 \<le> left" "left \<le> base" by (simp_all add: amount_ok_def)
  with b show "amount_ok left" "left \<le> base" "map app_promotion_id applied = map pm_id (selected_promotions rs)"
    "\<forall>a \<in> set applied. 0 \<le> app_calculated_discount a \<and> app_calculated_discount a \<le> base" by simp_all
  show "amount_ok discount" using left unfolding discount by (intro rounded_amount) simp
  show "discount \<le> base" using left rounded_below[OF base, of "base - left"] unfolding discount by simp
qed

section \<open>Lines\<close>

definition line_bounds :: "checkout_line \<Rightarrow> bool" where
  "line_bounds l \<longleftrightarrow> amount_ok (cl_base_amount l) \<and> amount_ok (cl_discount_amount l) \<and> amount_ok (cl_commercial_amount l)
     \<and> cl_discount_amount l \<le> cl_base_amount l \<and> cl_commercial_amount l \<le> cl_base_amount l
     \<and> (\<forall>a \<in> set (cl_applied_promotions l). 0 \<le> app_calculated_discount a
          \<and> app_calculated_discount a \<le> cl_base_amount l)"

lemma preview_line_cases:
  assumes "preview_line s t draft seen item = Inr (l, facts, currency)"
  obtains price candidates applied discount left c where
    "get_canonical_current_price (og_catalog s) (og_menus s) (og_pricing s) (dp_tenant_id draft) (ip_product_id item)
       (dp_location_id draft) = Inr (Some price)"
    "seen = None \<or> seen = Some currency" "currency = prc_currency price"
    "find_canonical_applicable_promotions (og_catalog s) (og_menus s) (og_pricing s) (dp_tenant_id draft)
       (ip_product_id item) (dp_location_id draft) t = Inr candidates"
    "apply_promotions candidates (round_digits PREC (prc_amount price * ip_quantity item)) currency
       = Inr (applied, discount, left)"
    "line_composition s (dp_tenant_id draft) item = Inr c" "facts = facts_of_line l c"
    "l = \<lparr>cl_draft_item_id = ip_item_id item, cl_product_id = ip_product_id item, cl_product_name = ip_product_name item,
       cl_composition_id = ip_composition_id item, cl_quantity = ip_quantity item, cl_price_id = prc_id price,
       cl_price_source = prc_source price, cl_unit_price = prc_amount price,
       cl_base_amount = round_digits PREC (prc_amount price * ip_quantity item), cl_applied_promotions = applied,
       cl_discount_amount = discount, cl_commercial_amount = left\<rparr>"
  using assms unfolding preview_line_def Let_def
  by (auto simp: bind_result_Inr_iff split: sum.split_asm option.split_asm if_split_asm)

lemma price_row:
  assumes "get_canonical_current_price c m g tenant product_id location_id = Inr (Some price)"
  shows "price \<in> set (pg_prices g)"
  using assms by (auto simp: get_canonical_current_price_def bind_result_Inr_iff dest!: find_SomeD split: prod.splits)

lemma promotion_rows:
  assumes "find_canonical_applicable_promotions c m g tenant product_id location_id t = Inr rs"
  shows "set rs \<subseteq> set (pg_promotions g)"
  using assms by (auto simp: find_canonical_applicable_promotions_def bind_result_Inr_iff split: prod.splits)

lemma preview_line_bounds:
  assumes run: "preview_line s t draft seen item = Inr (l, facts, currency)"
    and ok: "pricing_ok (og_pricing s)" and q: "0 < ip_quantity item"
  shows "line_bounds l"
  using run
proof (cases rule: preview_line_cases)
  case (1 price candidates applied discount left c)
  have "0 \<le> prc_amount price" using ok price_row[OF 1(1)] by (auto simp: pricing_ok_def list_all_iff product_price_ok_def)
  then have base: "amount_ok (round_digits PREC (prc_amount price * ip_quantity item))"
    using q by (intro rounded_amount) simp
  have "list_all promotion_ok candidates"
    using ok promotion_rows[OF 1(4)] by (auto simp: pricing_ok_def list_all_iff)
  from apply_promotions_bounds[OF 1(5) this base] base show ?thesis by (simp add: 1(8) line_bounds_def)
qed

lemma preview_lines_each:
  assumes "preview_lines s t draft seen items = Inr (lines, final)"
  shows "list_all2 (\<lambda>item (l, facts). \<exists>before currency. preview_line s t draft before item = Inr (l, facts, currency)) items lines"
  using assms
proof (induction items arbitrary: seen lines final)
  case (Cons item items)
  then show ?case by (fastforce simp: bind_result_Inr_iff)
qed simp

lemma preview_lines_currency:
  assumes "preview_lines s t draft seen items = Inr (lines, final)"
  shows "(items = [] \<longrightarrow> final = seen) \<and> (items \<noteq> [] \<longrightarrow> final \<noteq> None) \<and> (seen \<noteq> None \<longrightarrow> final = seen)"
  using assms
proof (induction items arbitrary: seen lines final)
  case (Cons item items)
  from Cons.prems obtain l facts currency rest where
    line: "preview_line s t draft seen item = Inr (l, facts, currency)"
    and rest: "preview_lines s t draft (Some currency) items = Inr (rest, final)"
    by (auto simp: bind_result_Inr_iff)
  from line have "seen = None \<or> seen = Some currency" by (cases rule: preview_line_cases)
  with Cons.IH[OF rest] show ?case by auto
qed simp

section \<open>Totals\<close>

lemma round_payable_bounds:
  assumes "round_payable_total x = Inr y"
  shows "\<exists>n. y = of_int n" "x - 1/2 \<le> y" "y < x + 1/2" "0 \<le> y"
proof -
  from assms have x: "0 \<le> x" and y: "y = of_int (round_half_down x)" by (auto simp: round_payable_total_def split: if_splits)
  show "\<exists>n. y = of_int n" using y by blast
  show "0 \<le> y" using round_half_down_nonneg[OF x] y by simp
  have "of_int \<lfloor>x\<rfloor> \<le> x" "x < of_int \<lfloor>x\<rfloor> + 1" by linarith+
  with x show "x - 1/2 \<le> y" "y < x + 1/2" unfolding y round_half_down_def Let_def by (auto simp del: of_int_floor_le)
qed

lemma decimal_sum_from:
  assumes "\<forall>x \<in> set xs. 0 \<le> x" "amount_ok a"
  shows "amount_ok (foldl (\<lambda>a x. round_digits PREC (a + x)) a xs)"
  using assms
proof (induction xs arbitrary: a)
  case (Cons x xs)
  have "amount_ok (round_digits PREC (a + x))" using Cons.prems by (intro rounded_amount) (simp add: amount_ok_def)
  with Cons show ?case by simp
qed simp

lemma decimal_sum_mono_from:
  assumes "list_all2 (\<lambda>x y. 0 \<le> x \<and> x \<le> y) xs ys" "0 \<le> a" "a \<le> b"
  shows "foldl (\<lambda>a x. round_digits PREC (a + x)) a xs \<le> foldl (\<lambda>a x. round_digits PREC (a + x)) b ys"
  using assms
proof (induction arbitrary: a b)
  case (Cons x xs y ys)
  have "round_digits PREC (a + x) \<le> round_digits PREC (b + y)" using Cons by (intro round_digits_mono) simp_all
  moreover have "0 \<le> round_digits PREC (a + x)" using Cons by (intro round_digits_nonneg) simp_all
  ultimately show ?case using Cons.IH by simp
qed simp

lemma preview_totals_bounds:
  assumes run: "preview_totals lines = Inr (subtotal, discount, pre_round, adjustment, payable)"
    and lines: "\<forall>l \<in> set lines. line_bounds l"
  shows "0 \<le> discount" "discount \<le> subtotal" "0 \<le> pre_round" "pre_round \<le> subtotal"
    "\<exists>n. payable = of_int n" "pre_round - 1/2 \<le> payable" "payable < pre_round + 1/2"
proof -
  from run have t: "subtotal = decimal_sum (map cl_base_amount lines)" "discount = decimal_sum (map cl_discount_amount lines)"
    "pre_round = round_digits PREC (subtotal - discount)" and pay: "round_payable_total pre_round = Inr payable"
    by (auto simp: preview_totals_def Let_def bind_result_Inr_iff)
  have zero: "amount_ok 0" by (simp add: amount_ok_def)
  have nonneg: "\<forall>x \<in> set (map cl_base_amount lines). 0 \<le> x" "\<forall>x \<in> set (map cl_discount_amount lines). 0 \<le> x"
    using lines by (auto simp: line_bounds_def amount_ok_def)
  have sums: "amount_ok subtotal" "amount_ok discount" unfolding t(1,2) decimal_sum_def
    using decimal_sum_from[OF nonneg(1) zero] decimal_sum_from[OF nonneg(2) zero] by simp_all
  then show "0 \<le> discount" by (simp add: amount_ok_def)
  have "list_all2 (\<lambda>x y. 0 \<le> x \<and> x \<le> y) (map cl_discount_amount lines) (map cl_base_amount lines)"
    using lines by (simp add: list.rel_map list_all2_same line_bounds_def amount_ok_def)
  then show le: "discount \<le> subtotal" unfolding t(1,2) decimal_sum_def by (rule decimal_sum_mono_from) simp_all
  show "0 \<le> pre_round" unfolding t(3) using le by (intro round_digits_nonneg) simp_all
  show "pre_round \<le> subtotal" unfolding t(3) using le sums by (intro rounded_below) (simp_all add: amount_ok_def)
  from round_payable_bounds[OF pay] show "\<exists>n. payable = of_int n" "pre_round - 1/2 \<le> payable" "payable < pre_round + 1/2"
    by simp_all
qed


section \<open>The draft that is priced\<close>

lemma list_all2_right: "list_all2 P xs ys \<Longrightarrow> y \<in> set ys \<Longrightarrow> \<exists>x \<in> set xs. P x y"
  by (induction rule: list_all2_induct) auto

lemma traverse_rel:
  assumes "traverse f xs = Inr ys"
  shows "list_all2 (\<lambda>x y. f x = Inr y) xs ys"
  using assms by (induction xs arbitrary: ys) (auto simp: bind_result_Inr_iff)

definition items_of :: "ordering \<Rightarrow> int \<Rightarrow> int \<Rightarrow> draft_item list" where
  "items_of s tenant i = order_by di_position (order_by di_id
     (filter (\<lambda>x. di_tenant_id x = tenant \<and> di_draft_id x = i) (og_items s)))"

lemma evaluate_item_fields:
  assumes "evaluate_item s r i = Inr x"
  shows "ip_item_id x = di_id i \<and> ip_product_id x = di_product_id i \<and> ip_composition_id x = di_composition_id i
    \<and> ip_quantity x = di_quantity i \<and> ip_position x = di_position i"
  using assms unfolding evaluate_item_def Let_def
  by (auto simp: bind_result_Inr_iff split: option.split_asm if_split_asm)

lemma evaluate_draft_cases:
  assumes "evaluate_draft s tenant i = Inr x"
  obtains r where "r \<in> set (og_drafts s)" "dr_id r = i" "dr_tenant_id r = tenant"
    "List.find (\<lambda>r. dr_id r = i \<and> dr_tenant_id r = tenant) (og_drafts s) = Some r"
    "list_all2 (\<lambda>i y. evaluate_item s r i = Inr y) (items_of s tenant (dr_id r)) (dp_items x)"
    "dp_draft_id x = dr_id r" "dp_tenant_id x = dr_tenant_id r" "dp_organization_id x = dr_organization_id r"
    "dp_location_id x = dr_location_id r" "dp_version x = dr_version r" "dp_readiness x = readiness_of (dp_items x)"
proof -
  from assms obtain r items where r: "List.find (\<lambda>r. dr_id r = i \<and> dr_tenant_id r = tenant) (og_drafts s) = Some r"
    and items: "traverse (evaluate_item s r) (items_of s tenant (dr_id r)) = Inr items"
    and x: "x = \<lparr>dp_draft_id = dr_id r, dp_tenant_id = dr_tenant_id r, dp_organization_id = dr_organization_id r,
            dp_location_id = dr_location_id r, dp_conversation_id = dr_conversation_id r,
            dp_version = dr_version r, dp_status = dr_status r, dp_readiness = readiness_of items, dp_items = items\<rparr>"
    by (auto simp: evaluate_draft_def items_of_def result_iffs)
  from find_SomeD[OF r] have row: "r \<in> set (og_drafts s)" "dr_id r = i" "dr_tenant_id r = tenant" by simp_all
  show thesis by (rule that[OF row r]) (use traverse_rel[OF items] in \<open>simp_all add: x\<close>)
qed

lemma get_draft_evaluates:
  assumes "get_draft s tenant i owner owned = Inr x"
  shows "evaluate_draft s tenant i = Inr x"
  using assms unfolding get_draft_def result_iffs by auto

lemma resolve_cases:
  assumes "resolve_checkout_preview digest s t tenant i owner owned = Inr p"
  obtains x lines where "evaluate_draft s tenant i = Inr x" "dp_readiness x = DRAFT_READY"
    "preview_lines s t x None (dp_items x) = Inr (lines, Some (pv_currency p))"
    "preview_totals (map fst lines)
       = Inr (pv_subtotal p, pv_total_discount p, pv_pre_round_total p, pv_rounding_adjustment p, pv_payable_total p)"
    "pv_lines p = map fst lines" "pv_draft_id p = dp_draft_id x" "pv_draft_version p = dp_version x"
    "pv_tax_mode p = ''INCLUDED''" "pv_rounding_policy p = COMMERCIAL_ROUNDING_POLICY" "pv_resolved_at p = t"
    "pv_location_id p = dp_location_id x"
proof -
  from assms obtain x lines totals currency where x: "get_draft s tenant i owner owned = Inr x" "dp_readiness x = DRAFT_READY"
    and lines: "preview_lines s t x None (dp_items x) = Inr (lines, Some currency)"
    and totals: "preview_totals (map fst lines) = Inr totals" and p: "p = preview_of digest x t currency lines totals"
    unfolding resolve_checkout_preview_def
    by (auto simp: result_iffs split: sum.split_asm prod.split_asm)
  obtain a b c d e where tot: "totals = (a, b, c, d, e)" by (cases totals)
  have fields: "pv_currency p = currency" "pv_subtotal p = a" "pv_total_discount p = b" "pv_pre_round_total p = c"
    "pv_rounding_adjustment p = d" "pv_payable_total p = e" "pv_lines p = map fst lines" "pv_draft_id p = dp_draft_id x"
    "pv_draft_version p = dp_version x" "pv_tax_mode p = ''INCLUDED''"
    "pv_rounding_policy p = COMMERCIAL_ROUNDING_POLICY" "pv_resolved_at p = t"
    "pv_location_id p = dp_location_id x"
    unfolding p preview_of_def tot by simp_all
  have "preview_lines s t x None (dp_items x) = Inr (lines, Some (pv_currency p))" unfolding fields(1) by (rule lines)
  moreover have "preview_totals (map fst lines)
     = Inr (pv_subtotal p, pv_total_discount p, pv_pre_round_total p, pv_rounding_adjustment p, pv_payable_total p)"
    unfolding fields(2-6) totals tot ..
  ultimately show thesis using fields(7-13) by (intro that[OF get_draft_evaluates[OF x(1)] x(2)])
qed

text \<open>The items of the draft and the lines of its preview.\<close>

lemma preview_items:
  assumes inv: "drafts_inv s" and ok: "pricing_ok (og_pricing s)"
    and x: "evaluate_draft s tenant i = Inr x"
    and lines: "preview_lines s t x None (dp_items x) = Inr (lines, final)" and l: "(l, facts) \<in> set lines"
  obtains item projected before currency where "item \<in> set (og_items s)" "di_draft_id item = i" "projected \<in> set (dp_items x)"
    "ip_item_id projected = di_id item" "ip_quantity projected = di_quantity item" "ip_product_id projected = di_product_id item"
    "preview_line s t x before projected = Inr (l, facts, currency)" "line_bounds l"
proof -
  from list_all2_right[OF preview_lines_each[OF lines] l] obtain projected where
    p: "projected \<in> set (dp_items x)" and "\<exists>before currency. preview_line s t x before projected = Inr (l, facts, currency)"
    by auto
  then obtain before currency where line: "preview_line s t x before projected = Inr (l, facts, currency)" by blast
  from x show thesis
  proof (cases rule: evaluate_draft_cases)
    case (1 r)
    from list_all2_right[OF 1(5) p] obtain item where
      item: "item \<in> set (items_of s tenant (dr_id r))" "evaluate_item s r item = Inr projected" by blast
    have row: "item \<in> set (og_items s)" "di_draft_id item = i" using item(1) 1(2) by (auto simp: items_of_def)
    note fields = evaluate_item_fields[OF item(2)]
    have "0 < di_quantity item" using inv row(1) by (auto simp: drafts_inv_def item_row_ok_def draft_item_ok_def dest: table_okD)
    with preview_line_bounds[OF line ok] fields row p line that show thesis by simp
  qed
qed

lemma preview_line_of:
  assumes inv: "drafts_inv s" and ok: "pricing_ok (og_pricing s)"
    and run: "resolve_checkout_preview digest s t tenant i owner owned = Inr p" and l: "l \<in> set (pv_lines p)"
  obtains item x projected before facts currency where "evaluate_draft s tenant i = Inr x"
    "item \<in> set (og_items s)" "di_draft_id item = i" "projected \<in> set (dp_items x)" "ip_item_id projected = di_id item"
    "ip_quantity projected = di_quantity item" "ip_product_id projected = di_product_id item"
    "preview_line s t x before projected = Inr (l, facts, currency)" "line_bounds l"
  using run
proof (cases rule: resolve_cases)
  case (1 x lines)
  from l obtain facts where "(l, facts) \<in> set lines" by (auto simp: 1(5))
  from preview_items[OF inv ok 1(1,3) this] that[OF 1(1)] show thesis by metis
qed

section \<open>Which promotions\<close>

lemma head_of_two_sorts:
  fixes f g :: "'a \<Rightarrow> int"
  assumes "order_by f (order_by g xs) = y # ys" "z \<in> set xs"
  shows "(f y, g y) \<le> (f z, g z)"
proof -
  define zs where "zs = sort_key g xs"
  have run: "sort_key f zs = y # ys" using assms(1) by (simp add: order_by_def zs_def)
  have sorted: "sorted (map f (y # ys))" unfolding run[symmetric] by simp
  have "set (y # ys) = set xs" by (metis run zs_def set_sort)
  with assms(2) have z: "z = y \<or> z \<in> set ys" by auto
  then have le: "f y \<le> f z" using sorted by auto
  show ?thesis
  proof (cases "f y = f z")
    case True
    have same: "filter (\<lambda>x. f x = f y) zs = filter (\<lambda>x. f x = f y) (y # ys)"
      unfolding run[symmetric] using sort_key_stable[of f "f y" zs] by simp
    have "sorted (map g (filter (\<lambda>x. f x = f y) zs))" unfolding zs_def by (simp add: sorted_filter)
    then have "sorted (map g (y # filter (\<lambda>x. f x = f y) ys))" unfolding same by simp
    with z True have "g y \<le> g z" by auto
    with True show ?thesis by simp
  qed (use le in simp)
qed

definition rank :: "promotion \<Rightarrow> int \<times> int" where
  "rank r = (pm_priority r, pm_id r)"

definition ranks_first :: "promotion list \<Rightarrow> promotion \<Rightarrow> bool" where
  "ranks_first rs r \<longleftrightarrow> r \<in> set rs \<and> (\<forall>q \<in> set rs. rank r \<le> rank q)"

lemma selected_promotions_rule:
  assumes ids: "distinct (map pm_id rs)"
  shows "r \<in> set (selected_promotions rs) \<longleftrightarrow> r \<in> set rs
    \<and> (ranks_first rs r \<or> pm_is_combinable r \<and> (\<forall>b. ranks_first rs b \<longrightarrow> pm_is_combinable b))"
proof (cases "order_by pm_priority (order_by pm_id rs)")
  case Nil
  then have "rs = []" by (metis length_order_by length_0_conv)
  then show ?thesis by (simp add: selected_promotions_def order_by_def)
next
  case (Cons y ys)
  have set: "set (y # ys) = set rs" by (metis Cons set_order_by)
  have first: "ranks_first rs y" using head_of_two_sorts[OF Cons] set by (auto simp: ranks_first_def rank_def)
  have only: "b = y" if "ranks_first rs b" for b
  proof -
    have "rank b = rank y" using that first by (simp add: ranks_first_def antisym)
    then have "pm_id b = pm_id y" by (simp add: rank_def)
    with same_row_if_same_id[OF ids] that first show ?thesis by (simp add: ranks_first_def)
  qed
  show ?thesis
  proof (cases "pm_is_combinable y")
    case True
    then have "selected_promotions rs = filter pm_is_combinable (y # ys)" by (simp add: selected_promotions_def Cons)
    then have "r \<in> set (selected_promotions rs) \<longleftrightarrow> r \<in> set rs \<and> pm_is_combinable r" using set by auto
    moreover have "pm_is_combinable r" if "ranks_first rs r" using only[OF that] True by simp
    moreover have "\<forall>b. ranks_first rs b \<longrightarrow> pm_is_combinable b" using only True by blast
    ultimately show ?thesis by blast
  next
    case False
    then have "selected_promotions rs = [y]" by (simp add: selected_promotions_def Cons)
    then have "r \<in> set (selected_promotions rs) \<longleftrightarrow> r = y" by simp
    moreover have "\<not> (\<forall>b. ranks_first rs b \<longrightarrow> pm_is_combinable b)" using first False by blast
    moreover have "y \<in> set rs" using first by (simp add: ranks_first_def)
    ultimately show ?thesis using only[of r] first by blast
  qed
qed


section \<open>Properties of a preview\<close>

text \<open>C12: A checkout preview never discounts more than it charges: on every line the discount lies between
  zero and the price times the quantity, so what is left to pay is neither negative nor above it; the
  total discount lies between zero and the subtotal; and the amount to pay is a whole number at most half
  a unit below and less than half a unit above the total (half is rounded down). This holds with the
  rounding of every operation to fifty digits, for any prices, promotions and quantities the tables may
  hold.\<close>

theorem checkout_preview_is_bounded:
  assumes "drafts_inv s" "pricing_ok (og_pricing s)"
    and "resolve_checkout_preview digest s now tenant draft_id owner owned = Inr p"
  shows "(\<forall>l \<in> set (pv_lines p). 0 \<le> cl_discount_amount l \<and> cl_discount_amount l \<le> cl_base_amount l
      \<and> 0 \<le> cl_commercial_amount l \<and> cl_commercial_amount l \<le> cl_base_amount l)
    \<and> 0 \<le> pv_total_discount p \<and> pv_total_discount p \<le> pv_subtotal p
    \<and> (\<exists>n. pv_payable_total p = of_int n)
    \<and> pv_pre_round_total p - 1/2 \<le> pv_payable_total p \<and> pv_payable_total p < pv_pre_round_total p + 1/2"
  using assms(3)
proof (cases rule: resolve_cases)
  case (1 x lines)
  have bounds: "\<forall>l \<in> set (map fst lines). line_bounds l"
    using preview_line_of[OF assms] unfolding 1(5)[symmetric] by metis
  from preview_totals_bounds[OF 1(4) bounds] bounds show ?thesis
    unfolding 1(5) by (simp add: line_bounds_def amount_ok_def)
qed

text \<open>C13: Which promotions a line gets: among those that apply to its product at the location and the instant,
  the one with the smallest priority number (then the smallest identifier) decides. It is always applied;
  the others are applied exactly when both it and they are combinable. The order in which the database
  returns them does not matter.\<close>

theorem ranking_decides_the_promotions:
  assumes "drafts_inv s" "pricing_ok (og_pricing s)"
    and "resolve_checkout_preview digest s now tenant draft_id owner owned = Inr p" "l \<in> set (pv_lines p)"
    and "distinct (map pm_id (pg_promotions (og_pricing s)))"
  shows "\<exists>product site candidates.
      pricing_context (og_catalog s) (og_menus s) tenant (cl_product_id l) (pv_location_id p) = Inr (product, site)
      \<and> set candidates = {r \<in> set (pg_promotions (og_pricing s)).
           promotion_applies (og_pricing s) tenant product (site_id site) now r}
      \<and> set (map app_promotion_id (cl_applied_promotions l)) = pm_id ` {r \<in> set candidates. ranks_first candidates r
           \<or> pm_is_combinable r \<and> (\<forall>b. ranks_first candidates b \<longrightarrow> pm_is_combinable b)}"
  using assms(3)
proof (cases rule: resolve_cases)
  case (1 x lines)
  from assms(4) obtain facts where f: "(l, facts) \<in> set lines" by (auto simp: 1(5))
  have scope: "dp_tenant_id x = tenant" using 1(1) by (cases rule: evaluate_draft_cases) simp
  from preview_items[OF assms(1,2) 1(1,3) f] obtain projected before currency
    where line: "preview_line s now x before projected = Inr (l, facts, currency)" and bounds: "line_bounds l" by metis
  have location: "pv_location_id p = dp_location_id x" by (rule 1(11))
  from line show ?thesis
  proof (cases rule: preview_line_cases)
    case (1 price candidates applied discount left c)
    from 1(4) obtain product site where ctx:
      "pricing_context (og_catalog s) (og_menus s) tenant (ip_product_id projected) (dp_location_id x) = Inr (product, site)"
      and cand: "candidates = order_by pm_id (filter (promotion_applies (og_pricing s) tenant product (site_id site) now)
        (pg_promotions (og_pricing s)))"
      by (auto simp: scope find_canonical_applicable_promotions_def bind_result_Inr_iff)
    have "distinct (map pm_id (filter (promotion_applies (og_pricing s) tenant product (site_id site) now)
        (pg_promotions (og_pricing s))))" by (rule distinct_filter_ids[OF assms(5)])
    then have ids: "distinct (map pm_id candidates)" unfolding cand order_by_def by (simp add: distinct_map)
    have ok: "list_all promotion_ok candidates"
      using assms(2) promotion_rows[OF 1(4)] by (auto simp: pricing_ok_def list_all_iff)
    have "amount_ok (round_digits PREC (prc_amount price * ip_quantity projected))"
      using bounds by (simp add: line_bounds_def 1(8))
    from apply_promotions_bounds(5)[OF 1(5) ok this]
    have "set (map app_promotion_id applied) = pm_id ` set (selected_promotions candidates)" by (metis set_map)
    also have "set (selected_promotions candidates) = {r \<in> set candidates. ranks_first candidates r
           \<or> pm_is_combinable r \<and> (\<forall>b. ranks_first candidates b \<longrightarrow> pm_is_combinable b)}"
      using selected_promotions_rule[OF ids] by blast
    finally have "set (map app_promotion_id applied) = pm_id ` {r \<in> set candidates. ranks_first candidates r
           \<or> pm_is_combinable r \<and> (\<forall>b. ranks_first candidates b \<longrightarrow> pm_is_combinable b)}" .
    with ctx location show ?thesis
      by (intro exI[of _ product] exI[of _ site] exI[of _ candidates]) (simp add: 1(8) cand)
  qed
qed

end
