(* ===== verification/AcceptanceProofs.thy ===== *)
theory AcceptanceProofs
  imports Acceptance CommercialProofs TaxProofs
begin

text \<open>
  What an accepted order records: its amounts add up exactly, with the taxes of its lines, although they
  were computed in a decimal context and are stored in columns of four decimals.
\<close>

section \<open>Exact sums\<close>

definition exact4 :: "rat \<Rightarrow> bool" where
  "exact4 x \<longleftrightarrow> x * 10 ^ 4 \<in> \<int>"

lemma exact4_add: "exact4 x \<Longrightarrow> exact4 y \<Longrightarrow> exact4 (x + y)"
  by (simp add: exact4_def distrib_right)

lemma exact4_diff: "exact4 x \<Longrightarrow> exact4 y \<Longrightarrow> exact4 (x - y)"
  by (simp add: exact4_def left_diff_distrib)

lemma exact4_unit: "exact4 (of_int n / 10000)"
  by (simp add: exact4_def)

lemma exact4_of_int: "exact4 (of_int n)"
proof -
  have "(of_int n :: rat) * 10 ^ 4 = of_int (n * 10 ^ 4)" by simp
  then show ?thesis unfolding exact4_def by (metis Ints_of_int)
qed

lemma exact4_round: "exact4 x \<Longrightarrow> \<bar>x\<bar> < 10 ^ 46 \<Longrightarrow> round_digits PREC x = x"
  by (rule round_digits_exact[of x 46 4]) (simp_all add: exact4_def)

lemma round_digits_large:
  assumes "10 ^ 46 \<le> x"
  shows "10 ^ 46 \<le> round_digits PREC x"
proof -
  have "exact4 (10 ^ 46)" unfolding exact4_def by (metis Ints_of_int of_int_numeral of_int_power Ints_mult Ints_power)
  have "round_digits PREC (10 ^ 46) = 10 ^ 46"
    by (rule round_digits_exact[of _ 47 0]) (simp_all add: Ints_power)
  moreover have "round_digits PREC (10 ^ 46) \<le> round_digits PREC x" using assms by (intro round_digits_mono) simp_all
  ultimately show ?thesis by simp
qed

lemma decimal_sum_grows:
  assumes "\<forall>x \<in> set xs. 0 \<le> x" "amount_ok a"
  shows "a \<le> foldl (\<lambda>a x. round_digits PREC (a + x)) a xs"
  using assms
proof (induction xs arbitrary: a)
  case (Cons x xs)
  have "a = round_digits PREC a" using Cons.prems by (simp add: amount_ok_def)
  also have "\<dots> \<le> round_digits PREC (a + x)" using Cons.prems by (intro round_digits_mono) (simp_all add: amount_ok_def)
  also have "\<dots> \<le> foldl (\<lambda>a x. round_digits PREC (a + x)) (round_digits PREC (a + x)) xs"
    using Cons by (intro Cons.IH rounded_amount) (simp_all add: amount_ok_def)
  finally show ?case by simp
qed simp

lemma decimal_sum_exact_from:
  assumes "\<forall>x \<in> set xs. 0 \<le> x \<and> exact4 x" "exact4 a" "amount_ok a"
    and "foldl (\<lambda>a x. round_digits PREC (a + x)) a xs < 10 ^ 46"
  shows "foldl (\<lambda>a x. round_digits PREC (a + x)) a xs = a + sum_list xs"
  using assms
proof (induction xs arbitrary: a)
  case (Cons x xs)
  have next_ok: "amount_ok (round_digits PREC (a + x))"
    using Cons.prems by (intro rounded_amount) (simp add: amount_ok_def)
  have "round_digits PREC (a + x) < 10 ^ 46"
    using decimal_sum_grows[of xs, OF _ next_ok] Cons.prems(1,4) by simp
  then have "a + x < 10 ^ 46" using round_digits_large[of "a + x"] by linarith
  then have eq: "round_digits PREC (a + x) = a + x"
    using Cons.prems by (intro exact4_round exact4_add) (simp_all add: amount_ok_def)
  have "foldl (\<lambda>a x. round_digits PREC (a + x)) (a + x) xs = a + x + sum_list xs"
    using Cons.prems next_ok eq by (intro Cons.IH) (simp_all add: exact4_add)
  then show ?case by (simp add: eq add.assoc)
qed simp

lemma decimal_sum_exact:
  assumes "\<forall>x \<in> set xs. 0 \<le> x \<and> exact4 x" "decimal_sum xs < 10 ^ 46"
  shows "decimal_sum xs = sum_list xs"
  using decimal_sum_exact_from[OF assms(1), of 0] assms(2) by (simp add: decimal_sum_def exact4_def amount_ok_def)

section \<open>Lines with evidence\<close>

definition priced_exactly :: "checkout_line \<Rightarrow> bool" where
  "priced_exactly l \<longleftrightarrow> exact4 (cl_base_amount l) \<and> exact4 (cl_discount_amount l) \<and> exact4 (cl_commercial_amount l)
     \<and> 0 \<le> cl_base_amount l \<and> 0 \<le> cl_discount_amount l \<and> 0 \<le> cl_commercial_amount l
     \<and> cl_base_amount l = cl_unit_price l * cl_quantity l
     \<and> cl_commercial_amount l = cl_base_amount l - cl_discount_amount l"

lemma case_sum_Inr_iff: "(case x of Inl e \<Rightarrow> Inl (h e) | Inr y \<Rightarrow> f y) = Inr z \<longleftrightarrow> (\<exists>y. x = Inr y \<and> f y = Inr z)"
  by (auto split: sum.split)

lemmas outcome_iffs = result_iffs case_sum_Inr_iff sum.inject prod.case

lemma priced_parts:
  assumes "priced_exactly l"
  shows "0 \<le> cl_base_amount l \<and> exact4 (cl_base_amount l)" "0 \<le> cl_discount_amount l \<and> exact4 (cl_discount_amount l)"
  using assms unfolding priced_exactly_def by blast+

lemma resolve_line_cases:
  assumes "resolve_line sha ci s d tenant diner country t draft held line = Inr r"
  obtains item product classes where "item \<in> set (dp_items draft)" "ip_item_id item = cl_draft_item_id line"
    "r = \<lparr>rl_line = line, rl_item = item, rl_graph = rl_graph r, rl_tax = rl_tax r, rl_fiscal = rl_fiscal r\<rparr>"
    "line_graph s tenant line = Inr (rl_graph r)"
    "resolve_tax_evidence sha (tax_tables_of d (products_as_held held (cat_products (og_catalog d))))
       (tax_candidate tenant diner t product line classes) = Inr (rl_tax r)"
proof -
  from assms obtain item product graph tax fiscal where
    item: "List.find (\<lambda>i. ip_item_id i = cl_draft_item_id line) (dp_items draft) = Some item"
    and graph: "line_graph s tenant line = Inr graph"
    and tax: "resolve_tax_evidence sha (tax_tables_of d (products_as_held held (cat_products (og_catalog d))))
       (tax_candidate tenant diner t product line (component_classifications graph item)) = Inr tax"
    and r: "r = \<lparr>rl_line = line, rl_item = item, rl_graph = graph, rl_tax = tax, rl_fiscal = fiscal\<rparr>"
    unfolding resolve_line_def Let_def outcome_iffs by blast
  show thesis by (rule that[of item]) (use find_SomeD[OF item] graph tax in \<open>simp_all add: r\<close>)
qed

lemma taxed_line:
  assumes "resolve_tax_evidence sha tables (tax_candidate tenant diner t product line classes) = Inr e"
  shows "priced_exactly line" "te_taxable_base e + te_tax_amount e = cl_commercial_amount line"
    "0 \<le> te_taxable_base e" "0 \<le> te_tax_amount e"
proof -
  obtain classification v where v: "validated_candidate (tax_candidate tenant diner t product line classes) = Inr v"
    using assms by (rule evidence_success)
  have pay: "tc_commercial_amount (tax_candidate tenant diner t product line classes) = PyDecimal (cl_commercial_amount line)"
    by (simp add: tax_candidate_def)
  from evidence_parts[OF assms pay] show "te_taxable_base e + te_tax_amount e = cl_commercial_amount line"
    "0 \<le> te_taxable_base e" "0 \<le> te_tax_amount e" by simp_all
  have units: "exact4 x \<and> 0 \<le> x \<and> y = x" if "money (PyDecimal x) b = Inr y" for x y b
  proof -
    from that have "y = x" by (auto simp: money_def split: if_splits)
    with money_units[OF that] show ?thesis using exact4_unit by metis
  qed
  from v show "priced_exactly line"
    by (auto simp: validated_candidate_def tax_candidate_def bind_result_Inr_iff priced_exactly_def dest!: units
        split: if_splits)
qed

lemma resolve_lines_each:
  assumes "resolve_lines sha ci s d tenant diner country t draft held lines = Inr rs"
  shows "list_all2 (\<lambda>l r. \<exists>held. resolve_line sha ci s d tenant diner country t draft held l = Inr r) lines rs"
  using assms
  by (induction lines arbitrary: held rs) (fastforce simp: bind_result_Inr_iff)+

lemma resolve_lines_lines:
  assumes "resolve_lines sha ci s d tenant diner country t draft held lines = Inr rs"
  shows "map rl_line rs = lines" "\<forall>r \<in> set rs. priced_exactly (rl_line r)
      \<and> te_taxable_base (rl_tax r) + te_tax_amount (rl_tax r) = cl_commercial_amount (rl_line r)"
proof -
  have each: "rl_line r = l \<and> priced_exactly l
      \<and> te_taxable_base (rl_tax r) + te_tax_amount (rl_tax r) = cl_commercial_amount l"
    if run: "resolve_line sha ci s d tenant diner country t draft h l = Inr r" for h l r
    using run
  proof (cases rule: resolve_line_cases)
    case (1 item product classes)
    have "rl_line r = l" by (subst 1(3)) simp
    with taxed_line[OF 1(5)] show ?thesis by simp
  qed
  have "list_all2 (\<lambda>l r. rl_line r = l \<and> priced_exactly l
      \<and> te_taxable_base (rl_tax r) + te_tax_amount (rl_tax r) = cl_commercial_amount l) lines rs"
    using resolve_lines_each[OF assms] by (rule list_all2_mono) (use each in blast)
  then show "map rl_line rs = lines" "\<forall>r \<in> set rs. priced_exactly (rl_line r)
      \<and> te_taxable_base (rl_tax r) + te_tax_amount (rl_tax r) = cl_commercial_amount (rl_line r)"
    by (induction rule: list_all2_induct) auto
qed

section \<open>The rows\<close>

lemma sum_by_numbered:
  assumes "\<And>x i. g (f x i) = h x"
  shows "sum_by g (numbered n (map f xs)) = sum_by h xs"
  using assms by (induction xs arbitrary: n) auto

lemma sum_by_zip_right: "length xs = length ys \<Longrightarrow> sum_by (\<lambda>(x, y). h y) (zip xs ys) = sum_by h ys"
  by (induction rule: list_induct2) auto

lemma length_new_rows: "length (new_rows mk i xs) = length xs"
  by (induction xs arbitrary: i) auto

lemma sum_by_append: "sum_by g (xs @ ys) = sum_by g xs + sum_by g ys"
  by (simp add: sum_by_def)

lemma sum_by_list: "sum_by g xs = sum_list (map g xs)"
  by (simp add: sum_by_def)

text \<open>What an order accounts for: its items, and the taxes of its lines.\<close>

definition order_items :: "ordering \<Rightarrow> int \<Rightarrow> accepted_item list" where
  "order_items d i = filter (\<lambda>x. ai_order_id x = i) (og_order_items d)"

definition order_taxes :: "ordering \<Rightarrow> int \<Rightarrow> tax_snapshot list" where
  "order_taxes d i = filter (\<lambda>x. tsn_restaurant_order_id x = i) (og_tax_snapshots d)"

definition order_accounts :: "ordering \<Rightarrow> accepted_order \<Rightarrow> bool" where
  "order_accounts d x \<longleftrightarrow>
     sum_by ai_base_amount (order_items d (ao_id x)) = ao_subtotal x
     \<and> sum_by ai_discount_amount (order_items d (ao_id x)) = ao_total_discount x
     \<and> sum_by ai_commercial_amount (order_items d (ao_id x)) = ao_pre_round_total x
     \<and> sum_by (\<lambda>t. te_taxable_base (tsn_evidence t) + te_tax_amount (tsn_evidence t)) (order_taxes d (ao_id x))
         = ao_pre_round_total x
     \<and> (\<exists>n. ao_payable_total x = of_int n) \<and> ao_payable_total x = ao_pre_round_total x + ao_rounding_adjustment x
     \<and> - (1/2) \<le> ao_rounding_adjustment x \<and> ao_rounding_adjustment x < 1/2
     \<and> (\<forall>i \<in> set (order_items d (ao_id x)). ai_base_amount i = ai_unit_price i * ai_quantity i)"

lemma insert_order_cases:
  assumes "insert_order r order lines d = Inr d'"
  obtains parts promotions fiscals where
    "d' = d\<lparr>og_orders := og_orders d @ [order],
       og_order_items := og_order_items d @ new_rows (accepted_item_row order) (next_id ai_id (og_order_items d)) lines,
       og_order_components := og_order_components d @ parts, og_order_promotions := og_order_promotions d @ promotions,
       og_tax_snapshots := og_tax_snapshots d @ numbered (next_id tsn_id (og_tax_snapshots d))
         (map (\<lambda>(i, l). tax_snapshot_row order i l)
           (zip (new_rows (accepted_item_row order) (next_id ai_id (og_order_items d)) lines) lines)),
       og_fiscal_snapshots := og_fiscal_snapshots d @ fiscals\<rparr>"
    "order_fits r order (og_orders d)"
  using assms unfolding insert_order_def Let_def by (auto split: if_splits)


lemma numbered_in: "x \<in> set (numbered n fs) \<Longrightarrow> \<exists>f \<in> set fs. \<exists>i. x = f i"
  by (induction fs arbitrary: n) auto

lemma inserted_items:
  assumes "insert_order r order lines d = Inr d1" "\<forall>x \<in> set (og_order_items d). ai_order_id x \<noteq> ao_id order"
  shows "order_items d1 (ao_id order) = new_rows (accepted_item_row order) (next_id ai_id (og_order_items d)) lines"
  using assms(1)
proof (cases rule: insert_order_cases)
  case (1 parts promotions fiscals)
  let ?items = "new_rows (accepted_item_row order) (next_id ai_id (og_order_items d)) lines"
  have "filter (\<lambda>x. ai_order_id x = ao_id order) (og_order_items d) = []" using assms(2) by (simp add: filter_empty_conv)
  moreover have "filter (\<lambda>x. ai_order_id x = ao_id order) ?items = ?items"
    using new_rows_in by (fastforce simp: filter_id_conv accepted_item_row_def Let_def)
  ultimately show ?thesis by (simp add: order_items_def 1(1))
qed

lemma accepted_accounts:
  assumes preview: "resolve_checkout_preview digest view t tenant i owner owned = Inr preview"
    and lines: "resolve_lines sha ci s d tenant diner country t' draft held (pv_lines preview) = Inr lines"
    and order: "order = accepted_order_row fp session diner conversation r preview key t'' tenant j"
    and insert: "insert_order r order lines d = Inr d'"
    and fresh: "\<forall>x \<in> set (og_order_items d). ai_order_id x \<noteq> j"
      "\<forall>x \<in> set (og_tax_snapshots d). tsn_restaurant_order_id x \<noteq> j"
  shows "order_accounts d' order"
  using insert
proof (cases rule: insert_order_cases)
  case (1 parts promotions fiscals)
  note line = resolve_lines_lines[OF lines]
  have fields: "ao_id order = j" "ao_subtotal order = pv_subtotal preview" "ao_total_discount order = pv_total_discount preview"
    "ao_pre_round_total order = pv_pre_round_total preview" "ao_rounding_adjustment order = pv_rounding_adjustment preview"
    "ao_payable_total order = pv_payable_total preview" by (simp_all add: order accepted_order_row_def)
  let ?items = "new_rows (accepted_item_row order) (next_id ai_id (og_order_items d)) lines"
  have items: "order_items d' j = ?items"
    using inserted_items[OF insert] fresh(1) by (simp add: fields(1))
  let ?taxes = "numbered (next_id tsn_id (og_tax_snapshots d)) (map (\<lambda>(i, l). tax_snapshot_row order i l) (zip ?items lines))"
  have taxes: "order_taxes d' j = ?taxes"
  proof -
    have "filter (\<lambda>x. tsn_restaurant_order_id x = j) (og_tax_snapshots d) = []" using fresh(2) by (simp add: filter_empty_conv)
    moreover have "filter (\<lambda>x. tsn_restaurant_order_id x = j) ?taxes = ?taxes"
      using numbered_in by (fastforce simp: filter_id_conv tax_snapshot_row_def fields(1))
    ultimately show ?thesis by (simp add: order_taxes_def 1(1))
  qed
  have sums: "sum_by ai_base_amount ?items = sum_by (\<lambda>r. cl_base_amount (rl_line r)) lines"
    "sum_by ai_discount_amount ?items = sum_by (\<lambda>r. cl_discount_amount (rl_line r)) lines"
    "sum_by ai_commercial_amount ?items = sum_by (\<lambda>r. cl_commercial_amount (rl_line r)) lines"
    by (rule sum_by_new_rows, simp add: accepted_item_row_def Let_def)+
  have "sum_by (\<lambda>t. te_taxable_base (tsn_evidence t) + te_tax_amount (tsn_evidence t)) ?taxes
    = sum_by (\<lambda>(x, r). te_taxable_base (rl_tax r) + te_tax_amount (rl_tax r)) (zip ?items lines)"
    by (rule sum_by_numbered) (simp add: tax_snapshot_row_def split: prod.split)
  also have "\<dots> = sum_by (\<lambda>r. te_taxable_base (rl_tax r) + te_tax_amount (rl_tax r)) lines"
    by (rule sum_by_zip_right) (rule length_new_rows)
  also have "\<dots> = sum_by (\<lambda>r. cl_commercial_amount (rl_line r)) lines"
    using line(2) by (intro sum_by_cong) simp
  finally have tax: "sum_by (\<lambda>t. te_taxable_base (tsn_evidence t) + te_tax_amount (tsn_evidence t)) ?taxes
    = sum_by (\<lambda>r. cl_commercial_amount (rl_line r)) lines" .
  from preview obtain ls where totals: "preview_totals (pv_lines preview)
       = Inr (pv_subtotal preview, pv_total_discount preview, pv_pre_round_total preview, pv_rounding_adjustment preview, pv_payable_total preview)"
    by (cases rule: resolve_cases) simp
  then have t: "pv_subtotal preview = decimal_sum (map cl_base_amount (pv_lines preview))"
    "pv_total_discount preview = decimal_sum (map cl_discount_amount (pv_lines preview))"
    and pay: "round_payable_total (pv_pre_round_total preview) = Inr (pv_payable_total preview)"
    by (auto simp: preview_totals_def Let_def bind_result_Inr_iff)
  have fits: "pv_pre_round_total preview = pv_subtotal preview - pv_total_discount preview"
    "pv_payable_total preview = pv_pre_round_total preview + pv_rounding_adjustment preview"
    and limits: "\<bar>pv_subtotal preview\<bar> \<le> MAX_NUMERIC" "\<bar>pv_total_discount preview\<bar> \<le> MAX_NUMERIC"
    using 1(2) unfolding order_fits_def accepted_order_ok_def fields list.pred_inject by blast+
  have small: "x < 10 ^ 46" if "\<bar>x\<bar> \<le> MAX_NUMERIC" for x :: rat
  proof -
    have "MAX_NUMERIC < 10 ^ 46" by (simp add: MAX_NUMERIC_def)
    with that show ?thesis by linarith
  qed
  have pl: "pv_lines preview = map rl_line lines" by (rule line(1)[symmetric])
  have exact: "priced_exactly l" if "l \<in> set (pv_lines preview)" for l
    using that line(2) unfolding pl by auto
  have total: "decimal_sum (map f (pv_lines preview)) = sum_by (\<lambda>r. f (rl_line r)) lines"
    if "\<And>l. priced_exactly l \<Longrightarrow> 0 \<le> f l \<and> exact4 (f l)" "\<bar>decimal_sum (map f (pv_lines preview))\<bar> \<le> MAX_NUMERIC"
    for f
  proof -
    have "\<forall>x \<in> set (map f (pv_lines preview)). 0 \<le> x \<and> exact4 x" using exact that(1) by auto
    from decimal_sum_exact[OF this small[OF that(2)]] show ?thesis by (simp add: pl sum_by_list comp_def)
  qed
  have base: "pv_subtotal preview = sum_by (\<lambda>r. cl_base_amount (rl_line r)) lines"
    unfolding t(1) by (rule total) (erule priced_parts, rule limits(1)[unfolded t(1)])
  have discount: "pv_total_discount preview = sum_by (\<lambda>r. cl_discount_amount (rl_line r)) lines"
    unfolding t(2) by (rule total) (erule priced_parts, rule limits(2)[unfolded t(2)])
  have "sum_by (\<lambda>r. cl_commercial_amount (rl_line r)) lines
    = sum_by (\<lambda>r. cl_base_amount (rl_line r) - cl_discount_amount (rl_line r)) lines"
    using line(2) by (intro sum_by_cong) (simp add: priced_exactly_def)
  also have "\<dots> = pv_pre_round_total preview"
    unfolding fits(1) base discount by (simp add: sum_by_list sum_list_subtractf)
  finally have commercial: "sum_by (\<lambda>r. cl_commercial_amount (rl_line r)) lines = pv_pre_round_total preview" .
  have each: "ai_base_amount x = ai_unit_price x * ai_quantity x" if x: "x \<in> set ?items" for x
  proof -
    from new_rows_in[OF x] obtain k l where l: "l \<in> set lines" "x = accepted_item_row order k l" by blast
    then show ?thesis using line(2) by (simp add: accepted_item_row_def Let_def priced_exactly_def)
  qed
  from round_payable_bounds[OF pay] fits(2) each show ?thesis
    unfolding order_accounts_def fields items taxes sums tax commercial using base discount by auto
qed

section \<open>A confirmation\<close>

lemma accept_draft_cases:
  assumes "accept_draft sha ci completes view tenant session diner conversation r preview key t d = Inr (order, d')"
  obtains country draft lines d1 where
    "resolve_lines sha ci view d tenant diner country t draft [] (pv_lines preview) = Inr lines"
    "evaluate_draft view tenant (dr_id r) = Inr draft"
    "order = accepted_order_row (sha (accepted_payload (pv_commercial_fingerprint preview) lines))
       session diner conversation r preview key t tenant (next_id ao_id (og_orders d))"
    "insert_order r order lines d = Inr d1" "completes order"
    "\<not> list_ex (\<lambda>q. dr_id q \<noteq> dr_id r \<and> drafts_collide (accepted_draft t r) q) (og_drafts d)"
    "d' = d1\<lparr>og_drafts := modify dr_id (dr_id r) (\<lambda>_. accepted_draft t r) (og_drafts d1)\<rparr>"
  using assms unfolding accept_draft_def Let_def outcome_iffs by auto

lemma confirm_cases:
  assumes "confirm_current_order digest sha ci completes held s t0 t tenant diner_id conversation_id version fp key d
     = Inr (order, replayed, d')"
  obtains (replay) "replayed" "d' = d" "order_by_key d tenant diner_id key = Some order"
  | (accept) session diner conversation r preview where "\<not> replayed"
      "lock_diner_write_context held s d tenant diner_id conversation_id = Inr (session, diner, conversation)"
      "order_by_key d tenant diner_id key = None" "current_draft d tenant conversation_id = Some r" "dr_version r = version"
      "resolve_checkout_preview digest (with_held_draft r s) t0 tenant (dr_id r) None None = Inr preview"
      "pv_commercial_fingerprint preview = fp"
      "accept_draft sha ci completes (with_held_draft r s) tenant session diner conversation r preview key t d = Inr (order, d')"
proof -
  from assms obtain session diner conversation where
    lock: "lock_diner_write_context held s d tenant diner_id conversation_id = Inr (session, diner, conversation)"
    unfolding confirm_current_order_def by (auto split: sum.split_asm)
  note run = assms[unfolded confirm_current_order_def lock sum.case prod.case Let_def]
  show thesis
  proof (cases "order_by_key d tenant diner_id key")
    case (Some x)
    show ?thesis by (rule replay) (use run Some in \<open>simp_all split: if_splits\<close>)
  next
    case None
    note run = run[unfolded None option.case]
    from run obtain r where r: "current_draft d tenant conversation_id = Some r" by (cases "current_draft d tenant conversation_id") simp_all
    from run[unfolded r option.case outcome_iffs] obtain preview where
      "dr_version r = version" "resolve_checkout_preview digest (with_held_draft r s) t0 tenant (dr_id r) None None = Inr preview"
      "pv_commercial_fingerprint preview = fp" "\<not> replayed"
      "accept_draft sha ci completes (with_held_draft r s) tenant session diner conversation r preview key t d = Inr (order, d')"
      by auto
    then show ?thesis using accept[OF _ lock None r] by blast
  qed
qed

end
