(* ===== verification/OrderingSystem.thy ===== *)
theory OrderingSystem
  imports AcceptanceProofs "HOL-Library.Sublist"
begin

text \<open>
  Drafts and orders as a system of concurrent transactions: each operation works on the current tables with
  any earlier state as its snapshot. A run is the list of states, the current one first.
\<close>

section \<open>Runs\<close>

inductive ordering_op ::
  "(commercial_facts \<Rightarrow> string) \<Rightarrow> (json \<Rightarrow> string) \<Rightarrow> (string \<Rightarrow> string \<Rightarrow> bool) \<Rightarrow> ordering \<Rightarrow> ordering \<Rightarrow> ordering \<Rightarrow> bool"
  for digest sha ci
where
  opened: "get_or_create_draft held s tenant c owner owned d = Inr (i, d') \<Longrightarrow> ordering_op digest sha ci s d d'"
| added: "add_item held s tenant i product_id q v owner owned d = Inr (item, d') \<Longrightarrow> ordering_op digest sha ci s d d'"
| quantity: "set_item_quantity held s tenant i item_id q v owner owned d = Inr d' \<Longrightarrow> ordering_op digest sha ci s d d'"
| removed: "remove_item held s tenant i item_id v owner owned d = Inr d' \<Longrightarrow> ordering_op digest sha ci s d d'"
| chosen: "replace_group_selections held s tenant i item_id g ids v owner owned d = Inr d' \<Longrightarrow> ordering_op digest sha ci s d d'"
| abandoned: "abandon_current_draft sha held e s ctx now tenant c v key owner owned d = Inr (r, d')
    \<Longrightarrow> ordering_op digest sha ci s d d'"
| confirmed: "confirm_current_order digest sha ci completes held s t0 t tenant diner c v fp key d = Inr (order, b, d')
    \<Longrightarrow> ordering_op digest sha ci s d d'"
| elsewhere: "d' = d\<lparr>og_core := core, og_catalog := products, og_menus := menus, og_pricing := prices,
      og_tax_rules := rules, og_classifications := codes, og_conversations := talks\<rparr>
    \<Longrightarrow> ordering_op digest sha ci s d d'"

inductive ordering_step ::
  "(commercial_facts \<Rightarrow> string) \<Rightarrow> (json \<Rightarrow> string) \<Rightarrow> (string \<Rightarrow> string \<Rightarrow> bool) \<Rightarrow> ordering list \<Rightarrow> ordering list \<Rightarrow> bool"
  for digest sha ci
where
  "s \<in> set (d # past) \<Longrightarrow> ordering_op digest sha ci s d d' \<Longrightarrow> ordering_step digest sha ci (d # past) (d' # d # past)"

definition no_orders :: "ordering list \<Rightarrow> bool" where
  "no_orders h \<longleftrightarrow> (\<exists>d. h = [d] \<and> og_drafts d = [] \<and> og_items d = [] \<and> og_selections d = [] \<and> og_orders d = []
     \<and> og_order_items d = [] \<and> og_order_components d = [] \<and> og_order_promotions d = [] \<and> og_tax_snapshots d = []
     \<and> og_fiscal_snapshots d = [])"

section \<open>Orders and their drafts\<close>

definition order_of_draft :: "accepted_order \<Rightarrow> draft \<Rightarrow> bool" where
  "order_of_draft x r \<longleftrightarrow> ao_source_order_draft_id x = dr_id r \<and> ao_tenant_id x = dr_tenant_id r
     \<and> dr_status r = ''ACCEPTED'' \<and> ao_accepted_draft_version x = dr_version r \<and> dr_terminal_at r = Some (ao_accepted_at x)"

definition accepted_drafts :: "ordering \<Rightarrow> draft set" where
  "accepted_drafts d = {r \<in> set (og_drafts d). dr_status r = ''ACCEPTED''}"

definition orders_inv :: "ordering \<Rightarrow> bool" where
  "orders_inv d \<longleftrightarrow> distinct (map ao_id (og_orders d))
     \<and> table_ok accepted_order_ok accepted_orders_collide (og_orders d)
     \<and> (\<forall>x \<in> set (og_order_items d). ai_order_id x \<in> ao_id ` set (og_orders d))
     \<and> (\<forall>x \<in> set (og_tax_snapshots d). tsn_restaurant_order_id x \<in> ao_id ` set (og_orders d))
     \<and> (\<forall>x \<in> set (og_orders d). order_accounts d x \<and> (\<exists>r \<in> set (og_drafts d). order_of_draft x r))
     \<and> (\<forall>r \<in> accepted_drafts d. \<exists>x \<in> set (og_orders d). order_of_draft x r)"

text \<open>The order tables only grow.\<close>

definition orders_advance :: "ordering \<Rightarrow> ordering \<Rightarrow> bool" where
  "orders_advance s d \<longleftrightarrow> prefix (og_orders s) (og_orders d) \<and> prefix (og_order_items s) (og_order_items d)
     \<and> prefix (og_order_components s) (og_order_components d) \<and> prefix (og_order_promotions s) (og_order_promotions d)
     \<and> prefix (og_tax_snapshots s) (og_tax_snapshots d) \<and> prefix (og_fiscal_snapshots s) (og_fiscal_snapshots d)"

definition same_orders :: "ordering \<Rightarrow> ordering \<Rightarrow> bool" where
  "same_orders d d' \<longleftrightarrow> og_orders d' = og_orders d \<and> og_order_items d' = og_order_items d
     \<and> og_order_components d' = og_order_components d \<and> og_order_promotions d' = og_order_promotions d
     \<and> og_tax_snapshots d' = og_tax_snapshots d \<and> og_fiscal_snapshots d' = og_fiscal_snapshots d"

lemma orders_advance_refl [simp]: "orders_advance d d"
  by (simp add: orders_advance_def)

lemma orders_advance_trans: "orders_advance s m \<Longrightarrow> orders_advance m d \<Longrightarrow> orders_advance s d"
  unfolding orders_advance_def by (intro conjI; elim conjE; erule (1) prefix_order.trans)

lemma same_orders_advance: "same_orders d d' \<Longrightarrow> orders_advance d d'"
  by (simp add: same_orders_def orders_advance_def)

lemma order_accounts_same:
  assumes "order_items d' (ao_id x) = order_items d (ao_id x)" "order_taxes d' (ao_id x) = order_taxes d (ao_id x)"
  shows "order_accounts d' x = order_accounts d x"
  unfolding order_accounts_def assms ..

lemma order_accounts_cong: "same_orders d d' \<Longrightarrow> order_accounts d' x = order_accounts d x"
  by (rule order_accounts_same) (simp_all add: same_orders_def order_items_def order_taxes_def)

lemma order_of_draft_accepted: "(\<exists>r \<in> set (og_drafts d). order_of_draft x r) \<longleftrightarrow> (\<exists>r \<in> accepted_drafts d. order_of_draft x r)"
  by (auto simp: accepted_drafts_def order_of_draft_def)

lemma orders_inv_keep:
  assumes "orders_inv d" "same_orders d d'" "accepted_drafts d' = accepted_drafts d"
  shows "orders_inv d'"
  using assms order_accounts_cong[OF assms(2)] unfolding orders_inv_def order_of_draft_accepted same_orders_def by simp

lemma accepted_drafts_write:
  assumes "distinct (map dr_id (og_drafts d))" "r \<in> set (og_drafts d)" "dr_status r \<noteq> ''ACCEPTED''" "dr_id r' = dr_id r"
    and "og_drafts d' = modify dr_id (dr_id r) (\<lambda>_. r') (og_drafts d)"
  shows "accepted_drafts d' = (if dr_status r' = ''ACCEPTED'' then insert r' (accepted_drafts d) else accepted_drafts d)"
proof -
  have "set (og_drafts d') = insert r' (set (og_drafts d) - {r})"
  proof -
    have only: "dr_id q = dr_id r \<longleftrightarrow> q = r" if "q \<in> set (og_drafts d)" for q
      using same_row_if_same_id[OF assms(1) that assms(2)] by blast
    have "set (og_drafts d') = (\<lambda>q. if dr_id q = dr_id r then r' else q) ` set (og_drafts d)"
      by (simp add: assms(5) modify_def)
    also have "\<dots> = (\<lambda>q. if q = r then r' else q) ` set (og_drafts d)" using only by (intro image_cong) simp_all
    also have "\<dots> = insert r' (set (og_drafts d) - {r})" using assms(2) by auto
    finally show ?thesis .
  qed
  with assms(3) show ?thesis by (auto simp: accepted_drafts_def)
qed

lemma writes_keep_accepted:
  assumes "drafts_inv d" "writes_draft r r' d d'" "dr_status r' \<noteq> ''ACCEPTED''"
  shows "accepted_drafts d' = accepted_drafts d"
proof -
  have "distinct (map dr_id (og_drafts d))" using assms(1) by (simp add: drafts_inv_def)
  from accepted_drafts_write[OF this, of r r' d'] assms(2,3) show ?thesis by (auto simp: writes_draft_def)
qed

section \<open>What each operation does\<close>

definition ordering_keeps :: "ordering \<Rightarrow> ordering \<Rightarrow> bool" where
  "ordering_keeps d d' \<longleftrightarrow> drafts_inv d' \<and> orders_inv d' \<and> drafts_advance d d' \<and> orders_advance d d'"

lemma open_write_keeps:
  assumes "drafts_inv d" "orders_inv d" "writes_draft r r' d d'" "dr_status r' \<noteq> ''ACCEPTED''" "drafts_inv d'" "same_orders d d'"
  shows "ordering_keeps d d'"
  using assms(5) orders_inv_keep[OF assms(2,6) writes_keep_accepted[OF assms(1,3,4)]] writes_advance[OF assms(1,3)]
    same_orders_advance[OF assms(6)] by (simp add: ordering_keeps_def)

lemma writes_status: "writes_draft r (r\<lparr>dr_version := v\<rparr>) d d' \<Longrightarrow> dr_status (r\<lparr>dr_version := v\<rparr>) \<noteq> ''ACCEPTED''"
  by (auto simp: writes_draft_def)

lemma opened_same_orders: "get_or_create_draft held s tenant c owner owned d = Inr (i, d') \<Longrightarrow> same_orders d d'"
  unfolding get_or_create_draft_def result_iffs by (auto simp: same_orders_def Let_def split: option.split_asm if_split_asm)

lemma added_same_orders: "add_item held s tenant i product_id q v owner owned d = Inr (item, d') \<Longrightarrow> same_orders d d'"
  by (erule add_item_cases) (simp add: same_orders_def)

lemma quantity_same_orders: "set_item_quantity held s tenant i item_id q v owner owned d = Inr d' \<Longrightarrow> same_orders d d'"
  by (auto simp: set_item_quantity_def bind_result_Inr_iff same_orders_def split: if_splits)

lemma removed_same_orders: "remove_item held s tenant i item_id v owner owned d = Inr d' \<Longrightarrow> same_orders d d'"
  unfolding remove_item_def result_iffs by (auto simp: same_orders_def)

lemma chosen_same_orders: "replace_group_selections held s tenant i item_id g ids v owner owned d = Inr d' \<Longrightarrow> same_orders d d'"
  unfolding replace_group_selections_def result_iffs Let_def by (auto simp: same_orders_def)

text \<open>Abandoning closes the open draft of the conversation, or returns one that was abandoned before.\<close>

lemma abandon_cases:
  assumes "abandon_current_draft sha held e s ctx now tenant c v key owner owned d = Inr (r', d')"
  obtains (replay) "d' = d" | (close) r where "r \<in> set (og_drafts d)" "dr_status r = ''OPEN''" "dr_version r = v"
    "(dr_id r', dr_tenant_id r', dr_organization_id r', dr_location_id r', dr_conversation_id r', dr_version r')
       = (dr_id r, dr_tenant_id r, dr_organization_id r, dr_location_id r, dr_conversation_id r, dr_version r)"
    "dr_status r' = ''ABANDONED''" "dr_current_slot r' = None" "dr_terminal_at r' \<noteq> None"
    "\<And>q. q \<in> set (og_drafts d) \<Longrightarrow> dr_id q \<noteq> dr_id r \<Longrightarrow> \<not> drafts_collide r' q"
    "d' = d\<lparr>og_drafts := modify dr_id (dr_id r) (\<lambda>_. r') (og_drafts d)\<rparr>"
proof (cases "List.find (\<lambda>r. dr_tenant_id r = tenant \<and> dr_conversation_id r = c
             \<and> dr_abandon_idempotency_key r = Some key) (og_drafts e)")
  case (Some r)
  show ?thesis by (rule replay) (use assms Some in \<open>simp add: abandon_current_draft_def Let_def split: if_splits\<close>)
next
  case None
  note run = assms[unfolded abandon_current_draft_def Let_def None option.case bind_result_Inr_iff]
  from run obtain r where r: "current_draft d tenant c = Some r" "dr_version r = v"
    and rest: "r' = r\<lparr>dr_status := ''ABANDONED'', dr_current_slot := None, dr_terminal_at := Some now,
                        dr_abandoned_by := Some (actor_values ctx), dr_abandon_idempotency_key := Some key,
                        dr_abandon_request_fingerprint := Some (sha (abandon_request c v))\<rparr>"
      "\<not> list_ex (\<lambda>q. dr_id q \<noteq> dr_id r \<and> drafts_collide r' q) (og_drafts d)"
      "d' = d\<lparr>og_drafts := modify dr_id (dr_id r) (\<lambda>_. r') (og_drafts d)\<rparr>"
    unfolding result_iffs by auto
  show ?thesis by (rule close[OF current_draftD(1)[OF r(1)] current_draftD(4)[OF r(1)] r(2)])
    (use rest in \<open>auto simp: list_ex_iff\<close>)
qed

lemma abandoned_keeps:
  assumes inv: "drafts_inv d" "orders_inv d"
    and run: "abandon_current_draft sha held e s ctx now tenant c v key owner owned d = Inr (r', d')"
  shows "ordering_keeps d d'"
  using run
proof (cases rule: abandon_cases)
  case replay
  with inv show ?thesis by (simp add: ordering_keeps_def)
next
  case (close r)
  note w = close_draft_writes[OF inv(1) close(1,2,4) _ close(6-8), of d']
  show ?thesis
    by (rule open_write_keeps[OF inv w(1) _ w(2)]) (use close in \<open>simp_all add: same_orders_def\<close>)
qed


section \<open>Accepting\<close>

lemma accepted_row_ids:
  assumes "d' = d1\<lparr>og_drafts := ds\<rparr>" "insert_order r order lines d = Inr d1"
  shows "orders_advance d d'" "og_orders d' = og_orders d @ [order]"
    "\<forall>x \<in> set (og_order_items d'). x \<in> set (og_order_items d) \<or> ai_order_id x = ao_id order"
    "\<forall>x \<in> set (og_tax_snapshots d'). x \<in> set (og_tax_snapshots d) \<or> tsn_restaurant_order_id x = ao_id order"
    "i \<noteq> ao_id order \<Longrightarrow> order_items d' i = order_items d i" "i \<noteq> ao_id order \<Longrightarrow> order_taxes d' i = order_taxes d i"
    "og_items d' = og_items d" "og_selections d' = og_selections d" "og_next_item_id d' = og_next_item_id d"
    "og_next_selection_id d' = og_next_selection_id d" "og_drafts d1 = og_drafts d"
    "order_accounts d' x = order_accounts d1 x"
  using assms(2)
proof -
  let ?items = "new_rows (accepted_item_row order) (next_id ai_id (og_order_items d)) lines"
  let ?taxes = "numbered (next_id tsn_id (og_tax_snapshots d)) (map (\<lambda>(i, l). tax_snapshot_row order i l) (zip ?items lines))"
  obtain parts promotions fiscals where d1: "d1 = d\<lparr>og_orders := og_orders d @ [order],
       og_order_items := og_order_items d @ ?items, og_order_components := og_order_components d @ parts,
       og_order_promotions := og_order_promotions d @ promotions, og_tax_snapshots := og_tax_snapshots d @ ?taxes,
       og_fiscal_snapshots := og_fiscal_snapshots d @ fiscals\<rparr>"
    using assms(2) by (rule insert_order_cases)
  have new: "ai_order_id x = ao_id order" if "x \<in> set ?items" for x
    using new_rows_in[OF that] by (auto simp: accepted_item_row_def Let_def)
  have tax: "tsn_restaurant_order_id x = ao_id order" if "x \<in> set ?taxes" for x
    using numbered_in[OF that] by (auto simp: tax_snapshot_row_def)
  have none: "filter (\<lambda>x. ai_order_id x = i) ?items = []" "filter (\<lambda>x. tsn_restaurant_order_id x = i) ?taxes = []"
    if "i \<noteq> ao_id order" using new tax that by (auto simp: filter_empty_conv)
  show "orders_advance d d'" "og_orders d' = og_orders d @ [order]" "og_items d' = og_items d"
    "og_selections d' = og_selections d" "og_next_item_id d' = og_next_item_id d"
    "og_next_selection_id d' = og_next_selection_id d" "og_drafts d1 = og_drafts d" "order_accounts d' x = order_accounts d1 x"
    by (simp_all add: assms(1) d1 orders_advance_def order_accounts_def order_items_def order_taxes_def)
  show "\<forall>x \<in> set (og_order_items d'). x \<in> set (og_order_items d) \<or> ai_order_id x = ao_id order"
    "\<forall>x \<in> set (og_tax_snapshots d'). x \<in> set (og_tax_snapshots d) \<or> tsn_restaurant_order_id x = ao_id order"
    using new tax by (auto simp: assms(1) d1)
  show "order_items d' i = order_items d i" "order_taxes d' i = order_taxes d i" if "i \<noteq> ao_id order"
    using none[OF that] by (simp_all add: assms(1) d1 order_items_def order_taxes_def)
qed

lemma accepted_keeps:
  assumes inv: "drafts_inv d" "orders_inv d"
    and r: "current_draft d tenant c = Some r"
    and preview: "resolve_checkout_preview digest view t0 tenant (dr_id r) None None = Inr preview"
    and run: "accept_draft sha ci completes view tenant session diner conversation r preview key t d = Inr (order, d')"
  shows "ordering_keeps d d'"
  using run
proof (cases rule: accept_draft_cases)
  case (1 country draft lines d1)
  define r' where "r' = accepted_draft t r"
  note row = current_draftD[OF r]
  note rows = accepted_row_ids[OF 1(7,4)]
  have id: "ao_id order = next_id ao_id (og_orders d)" by (simp add: 1(3) accepted_order_row_def)
  have fresh: "ao_id order \<notin> ao_id ` set (og_orders d)" unfolding id by (rule next_id_fresh)
  have drafts: "og_drafts d' = modify dr_id (dr_id r) (\<lambda>_. r') (og_drafts d)"
    by (simp add: 1(7) rows(11) r'_def)
  note w = close_draft_writes[OF inv(1) row(1,4), of r' d', OF _ _ _ _ _ drafts rows(7-10)]
  have w: "writes_draft r r' d d'" "drafts_inv d'"
    by (rule w; use 1(6) in \<open>auto simp: r'_def accepted_draft_def list_ex_iff\<close>)+
  have "dr_id r' = dr_id r" "dr_status r' = ''ACCEPTED''" by (simp_all add: r'_def accepted_draft_def)
  with accepted_drafts_write[of d r r' d'] inv(1) row(1,4) drafts
  have accepted: "accepted_drafts d' = insert r' (accepted_drafts d)" by (simp add: drafts_inv_def)
  have mine: "order_of_draft order r'"
    by (simp add: order_of_draft_def 1(3) accepted_order_row_def r'_def accepted_draft_def row(2))
  have ref: "ai_order_id x \<in> ao_id ` set (og_orders d)" if "x \<in> set (og_order_items d)" for x
    using inv(2) that by (simp add: orders_inv_def)
  have tref: "tsn_restaurant_order_id x \<in> ao_id ` set (og_orders d)" if "x \<in> set (og_tax_snapshots d)" for x
    using inv(2) that by (simp add: orders_inv_def)
  have "order_accounts d1 order"
  proof (rule accepted_accounts[OF preview 1(1) 1(3) 1(4)])
    show "\<forall>x \<in> set (og_order_items d). ai_order_id x \<noteq> next_id ao_id (og_orders d)" using ref fresh id by force
    show "\<forall>x \<in> set (og_tax_snapshots d). tsn_restaurant_order_id x \<noteq> next_id ao_id (og_orders d)" using tref fresh id by force
  qed
  then have new_accounts: "order_accounts d' order" by (simp add: rows(12))
  have old_accounts: "order_accounts d' x" if x: "x \<in> set (og_orders d)" for x
  proof -
    have "ao_id x \<noteq> ao_id order" using fresh x by (metis image_eqI)
    from order_accounts_same[OF rows(5)[OF this] rows(6)[OF this]] inv(2) x show ?thesis by (simp add: orders_inv_def)
  qed
  have fits: "accepted_order_ok order" "\<not> list_ex (accepted_orders_collide order) (og_orders d)"
    using insert_order_cases[OF 1(4)] by (auto simp: order_fits_def)
  have table: "table_ok accepted_order_ok accepted_orders_collide (og_orders d @ [order])"
    using inv(2) fits by (auto simp: orders_inv_def table_ok_def collision_free_append list_ex_iff accepted_orders_collide_def)
  have "orders_inv d'"
    unfolding orders_inv_def order_of_draft_accepted accepted rows(2)
  proof (intro conjI ballI)
    show "distinct (map ao_id (og_orders d @ [order]))" using inv(2) fresh by (auto simp: orders_inv_def)
    show "table_ok accepted_order_ok accepted_orders_collide (og_orders d @ [order])" by (rule table)
    show "ai_order_id x \<in> ao_id ` set (og_orders d @ [order])" if "x \<in> set (og_order_items d')" for x
      using rows(3) that ref by auto
    show "tsn_restaurant_order_id x \<in> ao_id ` set (og_orders d @ [order])" if "x \<in> set (og_tax_snapshots d')" for x
      using rows(4) that tref by auto
    fix x assume "x \<in> set (og_orders d @ [order])"
    then show "order_accounts d' x" using old_accounts new_accounts by auto
  next
    fix x assume x: "x \<in> set (og_orders d @ [order])"
    show "\<exists>q \<in> insert r' (accepted_drafts d). order_of_draft x q"
      using x mine inv(2) unfolding orders_inv_def order_of_draft_accepted by auto
  next
    fix q assume q: "q \<in> insert r' (accepted_drafts d)"
    then show "\<exists>x \<in> set (og_orders d @ [order]). order_of_draft x q" using mine inv(2) unfolding orders_inv_def by auto
  qed
  with w(2) rows(1) writes_advance[OF inv(1) w(1)] show ?thesis by (simp add: ordering_keeps_def)
qed

lemma confirmed_keeps:
  assumes "drafts_inv d" "orders_inv d"
    and "confirm_current_order digest sha ci completes held s t0 t tenant diner c v fp key d = Inr (order, b, d')"
  shows "ordering_keeps d d'"
  using assms(3)
proof (cases rule: confirm_cases)
  case replay
  with assms(1,2) show ?thesis by (simp add: ordering_keeps_def)
next
  case (accept session diner' conversation r preview)
  from accepted_keeps[OF assms(1,2) accept(4,6,8)] show ?thesis .
qed

section \<open>Every run\<close>

lemma op_keeps:
  assumes "ordering_op digest sha ci s d d'" "drafts_inv s" "drafts_advance s d" "drafts_inv d" "orders_inv d"
  shows "ordering_keeps d d'"
  using assms(1)
proof cases
  case (opened held tenant c owner owned i)
  from open_draft_keeps[OF assms(4) opened] have k: "drafts_inv d'" "drafts_advance d d'" by simp_all
  have "accepted_drafts d' = accepted_drafts d"
    using opened unfolding get_or_create_draft_def result_iffs
    by (auto simp: accepted_drafts_def Let_def split: option.split_asm if_split_asm)
  from orders_inv_keep[OF assms(5) opened_same_orders[OF opened] this] k same_orders_advance[OF opened_same_orders[OF opened]]
  show ?thesis by (simp add: ordering_keeps_def)
next
  case (added held tenant i product_id q v owner owned item)
  from add_item_writes[OF assms(4) added] show ?thesis
    using open_write_keeps[OF assms(4,5)] writes_status added_same_orders[OF added] by metis
next
  case (quantity held tenant i item_id q v owner owned)
  from set_quantity_writes[OF assms(2,3,4) quantity] show ?thesis
    using open_write_keeps[OF assms(4,5)] writes_status quantity_same_orders[OF quantity] by metis
next
  case (removed held tenant i item_id v owner owned)
  from remove_item_writes[OF assms(2,3,4) removed] show ?thesis
    using open_write_keeps[OF assms(4,5)] writes_status removed_same_orders[OF removed] by metis
next
  case (chosen held tenant i item_id g ids v owner owned)
  from replace_selections_writes[OF assms(2,3,4) chosen] show ?thesis
    using open_write_keeps[OF assms(4,5)] writes_status chosen_same_orders[OF chosen] by metis
next
  case abandoned
  then show ?thesis by (rule abandoned_keeps[OF assms(4,5)])
next
  case confirmed
  then show ?thesis by (rule confirmed_keeps[OF assms(4,5)])
next
  case (elsewhere core products menus prices rules codes talks)
  have "drafts_inv d' = drafts_inv d" by (simp add: elsewhere drafts_inv_def item_in_draft_def selection_in_item_def)
  moreover have "drafts_advance d d'" by (auto simp: elsewhere drafts_advance_def draft_moves_def draft_items_def draft_selections_def intro: same_item_refl)
  moreover have "same_orders d d'" "accepted_drafts d' = accepted_drafts d"
    by (simp_all add: elsewhere same_orders_def accepted_drafts_def)
  ultimately show ?thesis using assms(4) orders_inv_keep[OF assms(5)] same_orders_advance by (simp add: ordering_keeps_def)
qed

definition run_inv :: "ordering list \<Rightarrow> bool" where
  "run_inv h \<longleftrightarrow> h \<noteq> [] \<and> (\<forall>s \<in> set h. drafts_inv s \<and> orders_inv s \<and> drafts_advance s (hd h) \<and> orders_advance s (hd h))"

lemma no_orders_inv: "no_orders h \<Longrightarrow> run_inv h"
  by (auto simp: no_orders_def run_inv_def drafts_inv_def orders_inv_def table_ok_def accepted_drafts_def)

lemma step_inv:
  assumes "run_inv h" "ordering_step digest sha ci h h'"
  shows "run_inv h'"
  using assms(2)
proof cases
  case (1 s d past d')
  have inv: "drafts_inv s" "drafts_advance s d" "drafts_inv d" "orders_inv d"
    using assms(1) 1(3) by (auto simp: run_inv_def 1(1))
  from op_keeps[OF 1(4) inv] have k: "drafts_inv d'" "orders_inv d'" "drafts_advance d d'" "orders_advance d d'"
    by (simp_all add: ordering_keeps_def)
  have "drafts_advance x d' \<and> orders_advance x d'" if "x \<in> set (d # past)" for x
    using assms(1) that k(3,4) drafts_advance_trans orders_advance_trans by (fastforce simp: run_inv_def 1(1))
  with k assms(1) show ?thesis by (auto simp: run_inv_def 1(1,2))
qed

interpretation ordering_run: step_invariant no_orders "ordering_step digest sha ci" run_inv for digest sha ci
  by unfold_locales (auto intro: no_orders_inv step_inv)

lemma run_extends:
  assumes "(ordering_step digest sha ci)\<^sup>*\<^sup>* h h'" "h \<noteq> []"
  shows "\<exists>new. h' = new @ h"
  using assms by (induction rule: rtranclp_induct) (auto elim!: ordering_step.cases)

lemma run_advances:
  assumes "no_orders h0" "(ordering_step digest sha ci)\<^sup>*\<^sup>* h0 h" "(ordering_step digest sha ci)\<^sup>*\<^sup>* h h'"
  shows "drafts_advance (hd h) (hd h') \<and> orders_advance (hd h) (hd h')"
proof -
  have h: "run_inv h" using ordering_run.inv_reachable[OF assms(1,2)] .
  have h': "run_inv h'" using ordering_run.inv_steps[OF assms(3) h] .
  have "h \<noteq> []" using h by (simp add: run_inv_def)
  with run_extends[OF assms(3)] obtain new where "h' = new @ h" by blast
  then have "hd h \<in> set h'" using \<open>h \<noteq> []\<close> by simp
  with h' show ?thesis by (simp add: run_inv_def)
qed

end
