(* ===== verification/OrderingOutcomes.thy ===== *)
theory OrderingOutcomes
  imports OrderingSystem
begin

text \<open>What drafts, previews and confirmations promise in every run.\<close>

section \<open>Consistency\<close>

text \<open>C11: In every run of concurrent draft operations, confirmations and changes elsewhere, whatever snapshot
  each of them read: a conversation has at most one open draft, every item has a positive quantity that
  its column holds exactly and its own position in its draft, and every selection belongs to one item of
  its draft and chooses an option only once.\<close>

theorem drafts_stay_consistent:
  assumes "no_orders h0" "(ordering_step digest sha ci)\<^sup>*\<^sup>* h0 h"
  shows "let d = hd h in
    (\<forall>r \<in> set (og_drafts d). \<forall>q \<in> set (og_drafts d). dr_status r = ''OPEN'' \<and> dr_status q = ''OPEN''
        \<and> dr_tenant_id r = dr_tenant_id q \<and> dr_conversation_id r = dr_conversation_id q \<longrightarrow> r = q)
    \<and> (\<forall>i \<in> set (og_items d). 0 < di_quantity i \<and> numeric_19_4 (di_quantity i)
        \<and> (\<exists>r \<in> set (og_drafts d). dr_id r = di_draft_id i \<and> dr_tenant_id r = di_tenant_id i))
    \<and> (\<forall>i \<in> set (og_items d). \<forall>j \<in> set (og_items d).
        di_draft_id i = di_draft_id j \<and> di_position i = di_position j \<longrightarrow> i = j)
    \<and> (\<forall>x \<in> set (og_selections d). \<exists>i \<in> set (og_items d). di_id i = sl_draft_item_id x \<and> di_draft_id i = sl_draft_id x
        \<and> di_composition_id i = Some (sl_composition_id x))
    \<and> (\<forall>x \<in> set (og_selections d). \<forall>y \<in> set (og_selections d).
        sl_draft_item_id x = sl_draft_item_id y \<and> sl_choice_option_id x = sl_choice_option_id y \<longrightarrow> x = y)"
proof -
  define d where "d = hd h"
  have "run_inv h" by (rule ordering_run.inv_reachable[OF assms])
  then have inv: "drafts_inv d" by (simp add: run_inv_def d_def)
  then have tables: "table_ok draft_ok drafts_collide (og_drafts d)" "table_ok item_row_ok draft_items_collide (og_items d)"
    "collision_free draft_selections_collide (og_selections d)" by (simp_all add: drafts_inv_def)
  have drafts: "r = q" if "r \<in> set (og_drafts d)" "q \<in> set (og_drafts d)" "dr_status r = ''OPEN''" "dr_status q = ''OPEN''"
    "dr_tenant_id r = dr_tenant_id q" "dr_conversation_id r = dr_conversation_id q" for r q
  proof (rule ccontr)
    assume "r \<noteq> q"
    then have "\<not> drafts_collide r q"
      using collision_freeD[of drafts_collide "og_drafts d", OF _ drafts_collide_sym] tables(1) that(1,2) by (auto simp: table_ok_def)
    moreover have "dr_current_slot r = Some 1" "dr_current_slot q = Some 1"
      using table_okD[OF tables(1) that(1)] table_okD[OF tables(1) that(2)] that(3,4) by (auto simp: draft_ok_def)
    ultimately show False using that by (simp add: drafts_collide_def)
  qed
  have items: "i = j" if "i \<in> set (og_items d)" "j \<in> set (og_items d)" "di_draft_id i = di_draft_id j"
    "di_position i = di_position j" for i j
    using collision_freeD[of draft_items_collide "og_items d" i j] tables(2) that by (auto simp: table_ok_def draft_items_collide_def eq_commute)
  have selections: "x = y" if "x \<in> set (og_selections d)" "y \<in> set (og_selections d)" "sl_draft_item_id x = sl_draft_item_id y"
    "sl_choice_option_id x = sl_choice_option_id y" for x y
    using collision_freeD[OF tables(3) _ that(1,2)] that by (auto simp: draft_selections_collide_def eq_commute)
  have rows: "0 < di_quantity i \<and> numeric_19_4 (di_quantity i)
      \<and> (\<exists>r \<in> set (og_drafts d). dr_id r = di_draft_id i \<and> dr_tenant_id r = di_tenant_id i)" if "i \<in> set (og_items d)" for i
    using table_okD[OF tables(2) that] inv that unfolding drafts_inv_def item_in_draft_def item_row_ok_def draft_item_ok_def by blast
  have parts: "\<exists>i \<in> set (og_items d). di_id i = sl_draft_item_id x \<and> di_draft_id i = sl_draft_id x
        \<and> di_composition_id i = Some (sl_composition_id x)" if "x \<in> set (og_selections d)" for x
    using inv that unfolding drafts_inv_def selection_in_item_def by blast
  show ?thesis unfolding Let_def d_def[symmetric] using drafts items selections rows parts by blast
qed

text \<open>C4: The accounts of every order ever accepted are exact: the amounts of its items sum to its subtotal, its
  discount and its total before rounding; the taxable bases and taxes recorded for its lines sum to the
  same total; the amount to pay is a whole number that differs from it by the recorded adjustment, at
  least minus one half and less than one half; and each line is its price times its quantity. The order
  comes from a draft that was accepted in exactly the version the order records, and no other order does.\<close>

theorem accepted_orders_account:
  assumes "no_orders h0" "(ordering_step digest sha ci)\<^sup>*\<^sup>* h0 h" "x \<in> set (og_orders (hd h))"
  shows "let items = order_items (hd h) (ao_id x); taxes = order_taxes (hd h) (ao_id x) in
    sum_by ai_base_amount items = ao_subtotal x \<and> sum_by ai_discount_amount items = ao_total_discount x
    \<and> sum_by ai_commercial_amount items = ao_pre_round_total x
    \<and> sum_by (\<lambda>t. te_taxable_base (tsn_evidence t) + te_tax_amount (tsn_evidence t)) taxes = ao_pre_round_total x
    \<and> (\<exists>n. ao_payable_total x = of_int n) \<and> ao_payable_total x = ao_pre_round_total x + ao_rounding_adjustment x
    \<and> - (1/2) \<le> ao_rounding_adjustment x \<and> ao_rounding_adjustment x < 1/2
    \<and> (\<forall>i \<in> set items. ai_base_amount i = ai_unit_price i * ai_quantity i)
    \<and> (\<exists>r \<in> set (og_drafts (hd h)). dr_id r = ao_source_order_draft_id x \<and> dr_status r = ''ACCEPTED''
         \<and> dr_version r = ao_accepted_draft_version x)
    \<and> (\<forall>y \<in> set (og_orders (hd h)). ao_source_order_draft_id y = ao_source_order_draft_id x \<longrightarrow> y = x)"
proof -
  define d where "d = hd h"
  have "run_inv h" by (rule ordering_run.inv_reachable[OF assms(1,2)])
  then have inv: "orders_inv d" by (simp add: run_inv_def d_def)
  have x: "x \<in> set (og_orders d)" using assms(3) by (simp add: d_def)
  have accounts: "order_accounts d x" "\<exists>r \<in> set (og_drafts d). order_of_draft x r" using inv x by (simp_all add: orders_inv_def)
  have "collision_free accepted_orders_collide (og_orders d)" using inv by (simp add: orders_inv_def table_ok_def)
  then have one: "y = x" if "y \<in> set (og_orders d)" "ao_source_order_draft_id y = ao_source_order_draft_id x" for y
    using collision_freeD[of accepted_orders_collide "og_orders d" y x] x that by (auto simp: accepted_orders_collide_def eq_commute)
  from accounts(2) have draft: "\<exists>r \<in> set (og_drafts d). dr_id r = ao_source_order_draft_id x \<and> dr_status r = ''ACCEPTED''
         \<and> dr_version r = ao_accepted_draft_version x" by (force simp: order_of_draft_def)
  show ?thesis unfolding Let_def d_def[symmetric]
    using accounts(1) one draft unfolding order_accounts_def by blast
qed

section \<open>Versions and final states\<close>

text \<open>C10: The version of a draft stands for its content: a version never decreases, and as long as it is the same
  the items of the draft, their quantities and their selections are the same. So a confirmation that
  names the version it saw cannot accept another content, and two writers with the same expected version
  cannot both succeed. Versions of different drafts do not interfere.\<close>

theorem version_protects_a_draft:
  assumes "no_orders h0" "(ordering_step digest sha ci)\<^sup>*\<^sup>* h0 h" "(ordering_step digest sha ci)\<^sup>*\<^sup>* h h'"
    and "r \<in> set (og_drafts (hd h))"
  shows "\<exists>r' \<in> set (og_drafts (hd h')). dr_id r' = dr_id r \<and> dr_version r \<le> dr_version r'
    \<and> (dr_version r' = dr_version r \<longrightarrow>
         filter (\<lambda>i. di_draft_id i = dr_id r) (og_items (hd h')) = filter (\<lambda>i. di_draft_id i = dr_id r) (og_items (hd h))
         \<and> filter (\<lambda>x. sl_draft_id x = dr_id r) (og_selections (hd h'))
           = filter (\<lambda>x. sl_draft_id x = dr_id r) (og_selections (hd h)))"
proof -
  have "drafts_advance (hd h) (hd h')" using run_advances[OF assms(1-3)] by simp
  with assms(4) obtain r' where "r' \<in> set (og_drafts (hd h'))" "draft_moves (hd h) (hd h') r r'"
    unfolding drafts_advance_def by blast
  then show ?thesis by (intro bexI[of _ r']) (auto simp: draft_moves_def draft_items_def draft_selections_def)
qed


section \<open>Confirming\<close>

lemma locked_diner_id:
  assumes "lock_diner_write_context held s d tenant diner c = Inr (session, x, conversation)"
    and "\<And>i h. held i = Some h \<Longrightarrow> ds_id h = i"
  shows "ds_id x = diner"
proof -
  from assms(1) obtain identity where identity: "List.find (\<lambda>x. ds_id x = diner \<and> ds_tenant_id x = tenant
      \<and> ds_conversation_id x = c) (diner_sessions (og_core s)) = Some identity"
    unfolding lock_diner_write_context_def by (auto split: option.split_asm)
  note run = assms(1)[unfolded lock_diner_write_context_def identity option.case Let_def]
  from run obtain row where row: "List.find (\<lambda>x. ds_id x = diner \<and> ds_tenant_id x = tenant
      \<and> ds_service_session_id x = ds_service_session_id identity \<and> ds_conversation_id x = c) (diner_sessions (og_core d)) = Some row"
    and x: "x = diner_as_held held row"
    by (auto split: option.split_asm if_split_asm)
  from find_SomeD[OF row] assms(2) show ?thesis by (auto simp: x diner_as_held_def split: option.split)
qed

lemma no_open_draft:
  assumes inv: "drafts_inv d" and r: "current_draft d tenant c = Some r" and r': "dr_id r' = dr_id r" "dr_status r' \<noteq> ''OPEN''"
    and d': "og_drafts d' = modify dr_id (dr_id r) (\<lambda>_. r') (og_drafts d)"
  shows "current_draft d' tenant c = None"
proof (rule ccontr)
  note row = current_draftD[OF r]
  have tables: "table_ok draft_ok drafts_collide (og_drafts d)" using inv by (simp add: drafts_inv_def)
  assume "current_draft d' tenant c \<noteq> None"
  then obtain x where x: "current_draft d' tenant c = Some x" by blast
  note q = current_draftD[OF x]
  have "x \<in> set (og_drafts d)" "dr_id x \<noteq> dr_id r"
    using q(1,4) r' unfolding d' set_modify by (auto split: if_splits)
  then have "x \<noteq> r" "x \<in> set (og_drafts d)" by auto
  then have "\<not> drafts_collide x r"
    using collision_freeD[of drafts_collide "og_drafts d", OF _ drafts_collide_sym] tables row(1) by (auto simp: table_ok_def)
  moreover have "dr_current_slot x = Some 1" "dr_current_slot r = Some 1"
    using table_okD[OF tables \<open>x \<in> set (og_drafts d)\<close>] table_okD[OF tables row(1)] q(4) row(4) by (auto simp: draft_ok_def)
  ultimately show False using q row by (simp add: drafts_collide_def)
qed

lemma no_draft_left:
  assumes inv: "drafts_inv d" and r: "current_draft d tenant c = Some r"
    and d': "og_drafts d' = modify dr_id (dr_id r) (\<lambda>_. r\<lparr>dr_status := ''ACCEPTED'', dr_current_slot := None,
       dr_terminal_at := Some t\<rparr>) (og_drafts d)"
  shows "current_draft d' tenant c = None"
  by (rule no_open_draft[OF inv r _ _ d']) simp_all



section \<open>What is accepted\<close>

text \<open>The item of a line, as an order records it and as the draft has it.\<close>

definition accepted_content :: "accepted_item \<Rightarrow> int \<times> int \<times> int option \<times> rat \<times> int" where
  "accepted_content x = (ai_source_order_draft_item_id x, ai_product_id x, ai_composition_id x, ai_quantity x, ai_position x)"

definition draft_content :: "draft_item \<Rightarrow> int \<times> int \<times> int option \<times> rat \<times> int" where
  "draft_content i = (di_id i, di_product_id i, di_composition_id i, di_quantity i, di_position i)"

lemma new_rows_map:
  assumes "\<And>j x. f (mk j x) = g x"
  shows "map f (new_rows mk i xs) = map g xs"
  using assms by (induction xs arbitrary: i) auto

lemma find_own_key: "distinct (map f xs) \<Longrightarrow> p \<in> set xs \<Longrightarrow> List.find (\<lambda>x. f x = f p) xs = Some p"
  by (induction xs) (auto simp: image_iff)

lemma accepted_rows_content:
  assumes inv: "distinct (map di_id (og_items s))"
    and preview: "resolve_checkout_preview digest view t0 tenant i None None = Inr preview" and view: "og_items view = og_items s"
    and draft: "evaluate_draft view tenant i = Inr draft"
    and lines: "resolve_lines sha ci view d tenant diner country t draft held (pv_lines preview) = Inr lines"
  shows "map (\<lambda>r. (cl_draft_item_id (rl_line r), cl_product_id (rl_line r), cl_composition_id (rl_line r),
      cl_quantity (rl_line r), ip_position (rl_item r))) lines = map draft_content (items_of s tenant i)"
  using preview
proof (cases rule: resolve_cases)
  case (1 x priced)
  have x: "x = draft" using 1(1) draft by simp
  from draft have items: "\<exists>r. list_all2 (\<lambda>i y. evaluate_item view r i = Inr y) (items_of s tenant i) (dp_items draft)"
    by (cases rule: evaluate_draft_cases) (auto simp: items_of_def view)
  then obtain r where items: "list_all2 (\<lambda>i y. evaluate_item view r i = Inr y) (items_of s tenant i) (dp_items draft)" ..
  have ids: "map ip_item_id (dp_items draft) = map di_id (items_of s tenant i)"
    using items by (induction rule: list_all2_induct) (auto dest: evaluate_item_fields)
  have "distinct (map di_id (items_of s tenant i))"
    using distinct_filter_ids[OF inv] by (simp add: items_of_def order_by_def distinct_map)
  then have dist: "distinct (map ip_item_id (dp_items draft))" by (simp only: ids)
  have found: "List.find (\<lambda>i. ip_item_id i = ip_item_id p) (dp_items draft) = Some p" if "p \<in> set (dp_items draft)" for p
    by (rule find_own_key[OF dist that])
  have fields: "list_all2 (\<lambda>p l. cl_draft_item_id l = ip_item_id p \<and> cl_product_id l = ip_product_id p
      \<and> cl_composition_id l = ip_composition_id p \<and> cl_quantity l = ip_quantity p) (dp_items draft) (pv_lines preview)"
    unfolding 1(5) list.rel_map x[symmetric]
    by (rule list_all2_mono[OF preview_lines_each[OF 1(3)]]) (auto elim!: preview_line_cases)
  have each: "list_all2 (\<lambda>l r. rl_line r = l \<and> List.find (\<lambda>i. ip_item_id i = cl_draft_item_id l) (dp_items draft) = Some (rl_item r))
      (pv_lines preview) lines"
    by (rule list_all2_mono[OF resolve_lines_each[OF lines]])
      (auto simp: resolve_line_def outcome_iffs Let_def)
  have "list_all2 (\<lambda>p r. rl_item r = p \<and> cl_draft_item_id (rl_line r) = ip_item_id p \<and> cl_product_id (rl_line r) = ip_product_id p
      \<and> cl_composition_id (rl_line r) = ip_composition_id p \<and> cl_quantity (rl_line r) = ip_quantity p) (dp_items draft) lines"
    unfolding list_all2_conv_all_nth
    using fields each found by (fastforce simp: list_all2_conv_all_nth)
  then have "map (\<lambda>r. (cl_draft_item_id (rl_line r), cl_product_id (rl_line r), cl_composition_id (rl_line r),
      cl_quantity (rl_line r), ip_position (rl_item r))) lines
    = map (\<lambda>p. (ip_item_id p, ip_product_id p, ip_composition_id p, ip_quantity p, ip_position p)) (dp_items draft)"
    by (induction rule: list_all2_induct) auto
  also have "\<dots> = map draft_content (items_of s tenant i)"
    using items by (induction rule: list_all2_induct) (auto dest!: evaluate_item_fields simp: draft_content_def)
  finally show ?thesis .
qed

text \<open>C5: The accepted order is the draft: when the transaction read the draft in the version that it then
  confirms, the items of the order are the items that the draft has at that moment, one for one and in
  order: same products, quantities, compositions and positions; nothing is lost, added or taken from an
  older state.\<close>

theorem the_order_is_the_draft:
  assumes "no_orders h0" "(ordering_step digest sha ci)\<^sup>*\<^sup>* h0 h" "s \<in> set h" "r \<in> set (og_drafts s)"
    and "confirm_current_order digest sha ci completes held s t0 t tenant diner c (dr_version r) fp key (hd h) = Inr (order, False, d')"
    and "current_draft (hd h) tenant c = Some r'" "dr_id r' = dr_id r"
  shows "map accepted_content (order_items d' (ao_id order)) = map draft_content (items_of (hd h) tenant (dr_id r))
    \<and> ao_accepted_draft_version order = dr_version r"
proof -
  define d where "d = hd h"
  have "run_inv h" by (rule ordering_run.inv_reachable[OF assms(1,2)])
  then have inv: "drafts_inv d" "orders_inv d" "drafts_inv s" "drafts_advance s d"
    using assms(3) by (auto simp: run_inv_def d_def)
  from assms(5)[folded d_def]
  have "map accepted_content (order_items d' (ao_id order)) = map draft_content (items_of d tenant (dr_id r))
    \<and> ao_accepted_draft_version order = dr_version r"
  proof (cases rule: confirm_cases)
    case (accept session diner' conversation q preview)
    have q: "q = r'" using accept(4) assms(6) by (simp add: d_def)
    from accept(8) show ?thesis unfolding q
    proof (cases rule: accept_draft_cases)
      case (1 country draft lines d1)
      note row = current_draftD[OF accept(4)]
      have version: "dr_version r' = dr_version r" using accept(5) q by simp
      from inv(4) assms(4) obtain x where x: "x \<in> set (og_drafts d)" "draft_moves s d r x" unfolding drafts_advance_def by blast
      have dist: "distinct (map dr_id (og_drafts d))" using inv(1) by (simp add: drafts_inv_def)
      have "x = r'" using same_row_if_same_id[OF dist x(1)] x(2) row(1) q assms(7) by (simp add: draft_moves_def d_def)
      with x(2) version have same: "draft_items d (dr_id r) = draft_items s (dr_id r)" by (simp add: draft_moves_def)
      have "items_of z tenant (dr_id r) = order_by di_position (order_by di_id (filter (\<lambda>x. di_tenant_id x = tenant)
          (draft_items z (dr_id r))))" for z
        by (simp add: items_of_def draft_items_def conj_commute)
      with same have items: "items_of s tenant (dr_id r) = items_of d tenant (dr_id r)" by simp
      let ?items = "new_rows (accepted_item_row order) (next_id ai_id (og_order_items d)) lines"
      have "\<forall>x \<in> set (og_order_items d). ai_order_id x \<noteq> ao_id order"
        using inv(2) next_id_fresh[of ao_id "og_orders d"] unfolding orders_inv_def
        by (simp add: 1(3) accepted_order_row_def) metis
      from inserted_items[OF 1(4) this] have "order_items d' (ao_id order) = ?items" by (simp add: 1(7) order_items_def)
      then have "map accepted_content (order_items d' (ao_id order)) = map (\<lambda>r. (cl_draft_item_id (rl_line r),
          cl_product_id (rl_line r), cl_composition_id (rl_line r), cl_quantity (rl_line r), ip_position (rl_item r))) lines"
        by (simp add: new_rows_map accepted_content_def accepted_item_row_def Let_def)
      also have "\<dots> = map draft_content (items_of s tenant (dr_id r))"
      proof (rule accepted_rows_content)
        show "distinct (map di_id (og_items s))" using inv(3) by (simp add: drafts_inv_def)
      qed (use accept(6) 1(1,2) in \<open>simp_all add: q assms(7) with_held_draft_def\<close>)
      finally show ?thesis using version by (simp add: items 1(3) accepted_order_row_def)
    qed
  qed simp
  then show ?thesis by (simp add: d_def)
qed



section \<open>Adding to a draft\<close>

lemma incomplete_shown: "incomplete_code (vl_code y) \<Longrightarrow> incomplete_issue (issue_of_violation y)"
  by (auto simp: incomplete_issue_def issue_of_violation_def incomplete_code_def)

lemma no_selections_of_a_new_item:
  assumes "drafts_inv d" "di_id item = og_next_item_id d"
  shows "selection_rows (d\<lparr>og_items := og_items d @ [item], og_next_item_id := n, og_drafts := ds\<rparr>) item = []"
proof -
  have "filter (selection_of_item (di_tenant_id item) (di_draft_id item) (di_id item)) (og_selections d) = []"
    unfolding filter_empty_conv
  proof (intro ballI notI)
    fix x assume x: "x \<in> set (og_selections d)" "selection_of_item (di_tenant_id item) (di_draft_id item) (di_id item) x"
    from x(1) assms(1) obtain i where "i \<in> set (og_items d)" "di_id i = sl_draft_item_id x"
      unfolding drafts_inv_def selection_in_item_def by blast
    with assms have "sl_draft_item_id x < di_id item" by (auto simp: drafts_inv_def)
    with x(2) show False by (simp add: selection_of_item_def)
  qed
  then show ?thesis by (simp add: selection_rows_def order_by_def)
qed

text \<open>An item that was just added is never shown as invalid: what \<^verbatim>\<open>add_item\<close> accepts is orderable, and its
  composition lacks at most choices that the diner still has to make. So the evaluation of the item in
  the tables it was written to is ready or incomplete, and it is ready when it has no composition.\<close>

theorem added_item_is_never_invalid:
  assumes "drafts_inv d" "add_item held d tenant i product_id q v owner owned d = Inr (item, d')"
    and "r \<in> set (og_drafts d')" "dr_id r = i" "evaluate_item d' r item = Inr shown"
  shows "ip_readiness shown \<in> {DRAFT_READY, DRAFT_INCOMPLETE} \<and> (di_composition_id item = None \<longrightarrow> ip_readiness shown = DRAFT_READY)"
  using assms(2)
proof (cases rule: add_item_cases)
  case (1 r0 x c)
  note row = locked_draftD[OF 1(2)]
  have "distinct (map dr_id (og_drafts d))" using assms(1) by (simp add: drafts_inv_def)
  from bump_modify[OF this row(1)] have "og_drafts d' = modify dr_id (dr_id r0) (\<lambda>_. r0\<lparr>dr_version := dr_version r0 + 1\<rparr>) (og_drafts d)"
    by (simp add: 1(8))
  with assms(3,4) row(2) have "r = r0\<lparr>dr_version := dr_version r0 + 1\<rparr>" by (auto simp: set_modify split: if_splits)
  then have scope: "dr_tenant_id r = tenant" "dr_organization_id r = dr_organization_id r0" "dr_location_id r = dr_location_id r0"
    using row(3) by simp_all
  have rows: "selection_rows d' item = []" unfolding 1(8) by (rule no_selections_of_a_new_item[OF assms(1)]) (simp add: 1(6))
  have same: "og_catalog d' = og_catalog d" "og_menus d' = og_menus d" by (simp_all add: 1(8))
  have orderable: "is_product_orderable (og_catalog d') (og_menus d') (dr_tenant_id r) (dr_organization_id r) (dr_location_id r)
      (di_product_id item)" using 1(4) by (simp add: scope same 1(6))
  have current: "composition_of d' (dr_tenant_id r) (dr_organization_id r) (di_product_id item) = c"
    by (simp add: 1(3) scope 1(6) composition_of_def same)
  have item: "di_composition_id item = map_option co_id c" "di_product_id item = product_id" by (simp_all add: 1(6))
  show ?thesis
  proof (cases c)
    case None
    then show ?thesis using assms(5) orderable rows current item unfolding evaluate_item_def Let_def
      by (auto simp: item split: option.split_asm)
  next
    case (Some k)
    define val where "val = validate_selection (og_catalog d) tenant product_id []"
    have k: "co_status k = ''ACTIVE''" "structural val = []" using 1(5)[OF Some] by (simp_all add: val_def)
    have "selected_choices [] = []" by (simp add: selected_choices_def group_selection_def sorted_set_def)
    then have same_val: "validate_selection (og_catalog d') (dr_tenant_id r) (di_product_id item) (selected_choices []) = val"
      by (simp add: val_def scope item same)
    have incomplete: "incomplete_code (vl_code y)" if "y \<in> set (sv_violations val)" for y
      using k(2) that by (auto simp: structural_def filter_empty_conv)
    have "filter (\<lambda>i. \<not> incomplete_issue i) (map issue_of_violation (sv_violations val)) = []"
      using incomplete incomplete_shown by (auto simp: filter_empty_conv)
    with assms(5) orderable rows current Some k(1) show ?thesis unfolding evaluate_item_def Let_def
      by (auto simp: item same_val[unfolded item] outcome_iffs split: option.split_asm if_split_asm)
  qed
qed

end
