(* ===== verification/OrderingWitnesses.thy ===== *)
theory OrderingWitnesses
  imports OrderingOutcomes
begin

text \<open>
  A concrete restaurant: a taco of 100 with a ten per cent discount and a discount of 5 that can be
  combined, one that cannot, and a sweet of 0.35 with a discount of 12.5 per cent. A diner opens a draft,
  adds two tacos and confirms.
\<close>

definition session5 :: service_session where
  "session5 = \<lparr>ss_id = 5, ss_tenant_id = 1, ss_organization_id = 2, ss_location_id = 3, ss_resource_id = 4,
     ss_status = ''OPEN'', ss_open_slot = Some 1\<rparr>"

definition diner11 :: diner_session where
  "diner11 = \<lparr>ds_id = 11, ds_tenant_id = 1, ds_organization_id = 2, ds_location_id = 3, ds_resource_id = 4,
     ds_service_session_id = 5, ds_conversation_id = 31, ds_display_name = ''Ana'', ds_status = ''ACTIVE'',
     ds_active_slot = Some 1\<rparr>"

definition talk31 :: conversation_row where
  "talk31 = \<lparr>cn_id = 31, cn_tenant_id = 1, cn_organization_id = 2, cn_location_id = Some 3, cn_resource_id = Some 4,
     cn_channel = ''WEB'', cn_status = ''ACTIVE''\<rparr>"

definition two_products :: catalog where
  "two_products = \<lparr>cat_organizations = [(2, 1)], cat_categories = [], cat_mappings = [],
     cat_products =
       [\<lparr>pd_id = 7, pd_tenant_id = 1, pd_organization_id = 2, pd_name = ''Taco'', pd_tax_classification_code = Some ''A'', pd_status = ''ACTIVE''\<rparr>,
        \<lparr>pd_id = 8, pd_tenant_id = 1, pd_organization_id = 2, pd_name = ''Sweet'', pd_tax_classification_code = Some ''A'', pd_status = ''ACTIVE''\<rparr>],
     cat_compositions = [], cat_components = [], cat_groups = [], cat_options = []\<rparr>"

definition one_menu :: menus where
  "one_menu = \<lparr>
     mu_organizations = [\<lparr>org_id = 2, org_tenant_id = 1, org_status = ''ACTIVE'', org_headquarters_location_id = Some 3\<rparr>],
     mu_sites = [\<lparr>site_id = 3, site_tenant_id = 1, site_organization_id = 2, site_status = ''ACTIVE'', site_country_code = Some ''MX''\<rparr>],
     mu_menus = [\<lparr>mn_id = 1, mn_tenant_id = 1, mn_organization_id = 2, mn_status = ''ACTIVE''\<rparr>],
     mu_locations = [\<lparr>ml_tenant_id = 1, ml_organization_id = 2, ml_menu_id = 1, ml_location_id = 3, ml_status = ''ACTIVE''\<rparr>],
     mu_sections = [\<lparr>msn_id = 1, msn_tenant_id = 1, msn_organization_id = 2, msn_menu_id = 1, msn_status = ''ACTIVE''\<rparr>],
     mu_items = [\<lparr>mi_tenant_id = 1, mi_organization_id = 2, mi_menu_id = 1, mi_section_id = 1, mi_product_id = 7, mi_status = ''ACTIVE''\<rparr>,
       \<lparr>mi_tenant_id = 1, mi_organization_id = 2, mi_menu_id = 1, mi_section_id = 1, mi_product_id = 8, mi_status = ''ACTIVE''\<rparr>]\<rparr>"

definition percent :: "int \<Rightarrow> rat \<Rightarrow> bool \<Rightarrow> int \<Rightarrow> promotion" where
  "percent i x combinable priority = \<lparr>pm_id = i, pm_tenant_id = 1, pm_organization_id = 2, pm_name = ''Percent'',
     pm_promotion_type = ''PERCENTAGE_DISCOUNT'', pm_benefit_value = x, pm_currency = None, pm_starts_at = 0,
     pm_ends_at = 100, pm_applies_to_all_locations = True, pm_is_combinable = combinable, pm_priority = priority,
     pm_status = ''ACTIVE''\<rparr>"

definition five_off :: promotion where
  "five_off = \<lparr>pm_id = 1, pm_tenant_id = 1, pm_organization_id = 2, pm_name = ''Five'',
     pm_promotion_type = ''FIXED_AMOUNT_DISCOUNT'', pm_benefit_value = 5, pm_currency = Some ''MXN'', pm_starts_at = 0,
     pm_ends_at = 100, pm_applies_to_all_locations = True, pm_is_combinable = True, pm_priority = 2,
     pm_status = ''ACTIVE''\<rparr>"

definition for_product :: "int \<Rightarrow> int \<Rightarrow> promotion_product" where
  "for_product i p = \<lparr>pmp_tenant_id = 1, pmp_promotion_id = i, pmp_product_id = p, pmp_status = ''ACTIVE''\<rparr>"

definition price_of :: "int \<Rightarrow> int \<Rightarrow> rat \<Rightarrow> product_price" where
  "price_of i p x = \<lparr>prc_id = i, prc_tenant_id = 1, prc_organization_id = 2, prc_product_id = p, prc_location_id = 3,
     prc_amount = x, prc_currency = ''MXN'', prc_status = ''ACTIVE'', prc_source = ''PLATFORM''\<rparr>"

definition two_prices :: pricing where
  "two_prices = \<lparr>pg_prices = [price_of 1 7 100, price_of 2 8 (7/20)],
     pg_promotions = [five_off, percent 2 10 True 1, percent 3 50 False 3, percent 4 (25/2) False 0],
     pg_promotion_products = [for_product 1 7, for_product 2 7, for_product 3 7, for_product 4 8],
     pg_promotion_locations = []\<rparr>"

definition sixteen :: tax_rule where
  "sixteen = \<lparr>tr_id = 1, tr_tenant_id = 1, tr_organization_id = 2, tr_location_id = None,
     tr_tax_classification_code = ''A'', tr_jurisdiction_code = ''MX'', tr_tax_category = ''IVA'',
     tr_tax_treatment = ''TAXABLE'', tr_tax_effect = ''TRANSFERRED'', tr_tax_rate = PyDecimal (4/25),
     tr_calculation_policy = CALCULATION_POLICY, tr_rounding_policy = TAX_ROUNDING_POLICY,
     tr_effective_from = 0, tr_effective_to = None, tr_status = ''ACTIVE''\<rparr>"

definition prepared_food :: "int \<Rightarrow> int \<Rightarrow> fiscal_classification" where
  "prepared_food i p = \<lparr>fx_id = i, fx_tenant_id = 1, fx_organization_id = 2, fx_product_id = p,
     fx_fiscal_jurisdiction_code = ''MX'', fx_product_classification_scheme = ''SAT'',
     fx_product_classification_code = ''90101501'', fx_unit_classification_scheme = ''SAT'',
     fx_unit_classification_code = ''E48'', fx_effective_from = 0, fx_effective_to = None, fx_status = ''ACTIVE''\<rparr>"

definition w0 :: ordering where
  "w0 = \<lparr>og_core = empty_db\<lparr>service_sessions := [session5], diner_sessions := [diner11]\<rparr>,
     og_catalog = two_products, og_menus = one_menu, og_pricing = two_prices, og_tax_rules = [sixteen],
     og_classifications = [prepared_food 1 7, prepared_food 2 8], og_conversations = [talk31],
     og_drafts = [], og_items = [], og_selections = [], og_next_item_id = 1, og_next_selection_id = 1,
     og_orders = [], og_order_items = [], og_order_components = [], og_order_promotions = [],
     og_tax_snapshots = [], og_fiscal_snapshots = []\<rparr>"

definition draft1 :: "int \<Rightarrow> draft" where
  "draft1 v = \<lparr>dr_id = 1, dr_tenant_id = 1, dr_organization_id = 2, dr_location_id = 3, dr_conversation_id = 31,
     dr_version = v, dr_status = ''OPEN'', dr_current_slot = Some 1, dr_terminal_at = None, dr_abandoned_by = None,
     dr_abandon_idempotency_key = None, dr_abandon_request_fingerprint = None\<rparr>"

definition w1 :: ordering where
  "w1 = w0\<lparr>og_drafts := [draft1 1]\<rparr>"

definition tacos :: "int \<Rightarrow> rat \<Rightarrow> draft_item" where
  "tacos p q = \<lparr>di_id = 1, di_tenant_id = 1, di_organization_id = 2, di_draft_id = 1, di_product_id = p,
     di_composition_id = None, di_quantity = q, di_position = 0\<rparr>"

definition w2 :: ordering where
  "w2 = w0\<lparr>og_drafts := [draft1 2], og_items := [tacos 7 2], og_next_item_id := 2\<rparr>"

definition w3 :: ordering where   \<comment> \<open>the sweet instead\<close>
  "w3 = w0\<lparr>og_drafts := [draft1 2], og_items := [tacos 8 1], og_next_item_id := 2\<rparr>"

definition nobody :: "int \<Rightarrow> diner_session option" where "nobody = (\<lambda>_. None)"

lemma drafted:
  "get_or_create_draft nobody w0 1 31 (Some 11) (Some 31) w0 = Inr (1, w1)"
  "add_item nobody w1 1 1 7 (ExactDecimal (2, 0)) 1 (Some 11) (Some 31) w1 = Inr (tacos 7 2, w2)"
  "add_item nobody w1 1 1 8 (ExactDecimal (1, 0)) 1 (Some 11) (Some 31) w1 = Inr (tacos 8 1, w3)"
  by code_simp+


section \<open>The preview of two tacos\<close>

definition shown :: "int \<Rightarrow> string \<Rightarrow> rat \<Rightarrow> draft_projection" where
  "shown p name q = \<lparr>dp_draft_id = 1, dp_tenant_id = 1, dp_organization_id = 2, dp_location_id = 3, dp_conversation_id = 31,
     dp_version = 2, dp_status = ''OPEN'', dp_readiness = DRAFT_READY,
     dp_items = [\<lparr>ip_item_id = 1, ip_product_id = p, ip_product_name = name, ip_composition_id = None, ip_quantity = q,
       ip_position = 0, ip_readiness = DRAFT_READY, ip_issues = [], ip_selections = [], ip_missing_choice_groups = [],
       ip_fixed_components = []\<rparr>]\<rparr>"

lemma evaluated:
  "get_draft w2 1 1 None None = Inr (shown 7 ''Taco'' 2)" "evaluate_draft w2 1 1 = Inr (shown 7 ''Taco'' 2)"
  "get_draft w3 1 1 None None = Inr (shown 8 ''Sweet'' 1)" "evaluate_draft w3 1 1 = Inr (shown 8 ''Sweet'' 1)"
  by code_simp+

lemma prices_found:
  "get_canonical_current_price two_products one_menu two_prices 1 7 3 = Inr (Some (price_of 1 7 100))"
  "get_canonical_current_price two_products one_menu two_prices 1 8 3 = Inr (Some (price_of 2 8 (7/20)))"
  "find_canonical_applicable_promotions two_products one_menu two_prices 1 7 3 10
     = Inr [five_off, percent 2 10 True 1, percent 3 50 False 3]"
  "find_canonical_applicable_promotions two_products one_menu two_prices 1 8 3 10 = Inr [percent 4 (25/2) False 0]"
  "selected_promotions [five_off, percent 2 10 True 1, percent 3 50 False 3] = [percent 2 10 True 1, five_off]"
  "selected_promotions [percent 4 (25/2) False 0] = [percent 4 (25/2) False 0]"
  by code_simp+

lemma whole_in_context: "\<bar>n\<bar> < 10 ^ 50 \<Longrightarrow> round_digits 50 (of_int n) = of_int n"
  by (rule round_digits_fits[of _ n 0]) simp_all

lemma in_context:
  "round_digits 50 200 = 200" "round_digits 50 2000 = 2000" "round_digits 50 20 = 20" "round_digits 50 180 = 180"
  "round_digits 50 175 = 175" "round_digits 50 25 = 25"
  "round_digits 50 (7/20) = 7/20" "round_digits 50 (35/8) = 35/8" "round_digits 50 (7/160) = 7/160"
  "round_digits 50 (49/160) = 49/160" "round_digits 50 (- (49/160)) = - (49/160)"
  using whole_in_context[of 200] whole_in_context[of 2000] whole_in_context[of 20] whole_in_context[of 180]
    whole_in_context[of 175] whole_in_context[of 25] round_digits_fits[of "7/20" 35 2] round_digits_fits[of "35/8" 4375 3]
    round_digits_fits[of "7/160" 4375 5] round_digits_fits[of "49/160" 30625 5] round_digits_fits[of "- (49/160)" "- 30625" 5]
  by simp_all

definition applied :: "promotion \<Rightarrow> rat \<Rightarrow> applied_promotion" where
  "applied r x = \<lparr>app_promotion_id = pm_id r, app_name = pm_name r, app_promotion_type = pm_promotion_type r,
     app_promotion_value = pm_benefit_value r, app_currency = pm_currency r, app_priority = pm_priority r,
     app_is_combinable = pm_is_combinable r, app_calculated_discount = x\<rparr>"

lemma discounted:
  "apply_promotions [five_off, percent 2 10 True 1, percent 3 50 False 3] 200 ''MXN''
     = Inr ([applied (percent 2 10 True 1) 20, applied five_off 5], 25, 175)"
  "apply_promotions [percent 4 (25/2) False 0] (7/20) ''MXN'' = Inr ([applied (percent 4 (25/2) False 0) (7/160)], 7/160, 49/160)"
  unfolding apply_promotions_def prices_found
  by (simp_all add: promotion_discount_def five_off_def percent_def applied_def in_context)

definition taco_line :: checkout_line where
  "taco_line = \<lparr>cl_draft_item_id = 1, cl_product_id = 7, cl_product_name = ''Taco'', cl_composition_id = None,
     cl_quantity = 2, cl_price_id = 1, cl_price_source = ''PLATFORM'', cl_unit_price = 100, cl_base_amount = 200,
     cl_applied_promotions = [applied (percent 2 10 True 1) 20, applied five_off 5],
     cl_discount_amount = 25, cl_commercial_amount = 175\<rparr>"

definition sweet_line :: checkout_line where
  "sweet_line = \<lparr>cl_draft_item_id = 1, cl_product_id = 8, cl_product_name = ''Sweet'', cl_composition_id = None,
     cl_quantity = 1, cl_price_id = 2, cl_price_source = ''PLATFORM'', cl_unit_price = 7/20, cl_base_amount = 7/20,
     cl_applied_promotions = [applied (percent 4 (25/2) False 0) (7/160)],
     cl_discount_amount = 7/160, cl_commercial_amount = 49/160\<rparr>"

definition digest :: "commercial_facts \<Rightarrow> string" where "digest f = str_int (ff_draft_version f)"
definition sha :: "json \<Rightarrow> string" where "sha j = ''e3b0''"

definition taco_preview :: checkout_preview where
  "taco_preview = preview_of digest (shown 7 ''Taco'' 2) 10 ''MXN'' [(taco_line, facts_of_line taco_line None)] (200, 25, 175, 0, 175)"

definition sweet_preview :: checkout_preview where
  "sweet_preview = preview_of digest (shown 8 ''Sweet'' 1) 10 ''MXN'' [(sweet_line, facts_of_line sweet_line None)]
     (7/20, 7/160, 49/160, - (49/160), 0)"

lemma tables_of_w:
  "og_catalog w2 = two_products" "og_menus w2 = one_menu" "og_pricing w2 = two_prices"
  "og_catalog w3 = two_products" "og_menus w3 = one_menu" "og_pricing w3 = two_prices"
  by (simp_all add: w2_def w3_def w0_def)

lemma lines_previewed:
  "preview_line w2 10 (shown 7 ''Taco'' 2) None (hd (dp_items (shown 7 ''Taco'' 2)))
     = Inr (taco_line, facts_of_line taco_line None, ''MXN'')"
  "preview_line w3 10 (shown 8 ''Sweet'' 1) None (hd (dp_items (shown 8 ''Sweet'' 1)))
     = Inr (sweet_line, facts_of_line sweet_line None, ''MXN'')"
  by (simp_all add: preview_line_def tables_of_w shown_def prices_found price_of_def in_context discounted Let_def
      line_composition_def taco_line_def sweet_line_def)

lemma totals_previewed:
  "preview_totals [taco_line] = Inr (200, 25, 175, 0, 175)"
  "preview_totals [sweet_line] = Inr (7/20, 7/160, 49/160, - (49/160), 0)"
proof -
  have "round_half_down 175 = 175" "round_half_down (49/160) = 0" by code_simp+
  then show "preview_totals [taco_line] = Inr (200, 25, 175, 0, 175)"
    "preview_totals [sweet_line] = Inr (7/20, 7/160, 49/160, - (49/160), 0)"
    by (simp_all add: preview_totals_def decimal_sum_def taco_line_def sweet_line_def in_context Let_def round_payable_total_def)
qed

lemma previewed:
  "resolve_checkout_preview digest w2 10 1 1 None None = Inr taco_preview"
  "resolve_checkout_preview digest w3 10 1 1 None None = Inr sweet_preview"
  using lines_previewed totals_previewed
  by (simp_all add: resolve_checkout_preview_def evaluated taco_preview_def sweet_preview_def)
    (simp_all add: shown_def)


section \<open>Its acceptance\<close>

definition taco_tax :: tax_evidence where
  "taco_tax = \<lparr>te_source_tax_rule_id = 1, te_tax_category = ''IVA'', te_tax_treatment = TAXABLE,
     te_tax_effect = TRANSFERRED, te_tax_rate = 4/25, te_fiscal_unit_value = 862069/10000,
     te_fiscal_line_amount = 1724138/10000, te_fiscal_discount_amount = 215517/10000,
     te_taxable_base = 1508621/10000, te_tax_amount = 241379/10000, te_jurisdiction_code = ''MX'',
     te_calculation_policy = CALCULATION_POLICY, te_rounding_policy = TAX_ROUNDING_POLICY,
     te_schema_version = EVIDENCE_SCHEMA_VERSION, te_evidence_fingerprint = ''e3b0''\<rparr>"

definition taco_candidate :: tax_line_candidate where
  "taco_candidate = tax_candidate 1 diner11 10 (hd (cat_products two_products)) taco_line []"

definition w_tables :: tax_tables where
  "w_tables = tax_tables_of w2 (cat_products two_products)"

definition taco_amounts :: line_money where
  "taco_amounts = \<lparr>lm_quantity = 2, lm_unit_price = 100, lm_base_amount = 200, lm_discount_amount = 25,
     lm_commercial_amount = 175\<rparr>"

lemma taco_validated:
  "validated_candidate taco_candidate = Inr taco_amounts" "tax_classification taco_candidate = Inr ''A''"
  "tax_rules_for w_tables 1 2 3 ''A'' 10 = [sixteen]" "select_rule taco_candidate ''A'' 10 [sixteen] = Inr sixteen"
  "List.find (\<lambda>p. pd_id p = 7 \<and> pd_tenant_id p = 1 \<and> pd_organization_id p = 2) (tx_products w_tables)
     = Some (hd (cat_products two_products))"
  "pd_tax_classification_code (hd (cat_products two_products)) = Some ''A''"
  "List.find (\<lambda>l. loc_id l = 3 \<and> loc_tenant_id l = 1 \<and> loc_organization_id l = 2) (tx_locations w_tables) \<noteq> None"
  "rate sixteen TAXABLE = Inr (4/25)"
  by code_simp+

lemma sixteen_included:
  assumes "amount = of_int n / 10000" "0 \<le> amount" "amount \<le> MAX_MONEY"
    and "of_int m - 1/2 \<le> amount / (29/25) * 10000" "amount / (29/25) * 10000 < of_int m + 1/2"
  shows "pre_tax amount (4/25) TAXABLE = of_int m / 10000"
proof -
  have "pre_tax amount (4/25) TAXABLE = exact_pre_tax amount (4/25)"
    by (rule pre_tax_bounds(1)[OF assms(1-3), of _ 160000]) (simp_all add: MAX_RATE_def)
  moreover have "\<lfloor>amount / (29/25) * 10000 + 1/2\<rfloor> = m" by (rule floor_unique) (use assms(4,5) in simp_all)
  ultimately show ?thesis using assms(2) by (simp add: exact_pre_tax_def round_half_up_def)
qed

lemma taco_decomposed:
  "calculate_tax taco_amounts (4/25) TAXABLE = Inr (862069/10000, 1724138/10000, 215517/10000, 1508621/10000, 241379/10000)"
proof -
  have "pre_tax 100 (4/25) TAXABLE = 862069/10000"
    using sixteen_included[of 100 1000000 862069] by (simp add: MAX_MONEY_def)
  moreover have "pre_tax 200 (4/25) TAXABLE = 1724138/10000"
    using sixteen_included[of 200 2000000 1724138] by (simp add: MAX_MONEY_def)
  moreover have "pre_tax 175 (4/25) TAXABLE = 1508621/10000"
    using sixteen_included[of 175 1750000 1508621] by (simp add: MAX_MONEY_def)
  ultimately show ?thesis by (simp add: calculate_tax_def taco_amounts_def Let_def)
qed

lemma taco_taxed: "resolve_tax_evidence sha w_tables taco_candidate = Inr taco_tax"
proof -
  have c: "tc_tenant_id taco_candidate = 1" "tc_organization_id taco_candidate = 2" "tc_location_id taco_candidate = 3"
    "tc_product_id taco_candidate = 7" "tc_effective_at taco_candidate = NaiveTime 10" by code_simp+
  have r: "tr_calculation_policy sixteen = CALCULATION_POLICY" "tr_rounding_policy sixteen = TAX_ROUNDING_POLICY"
    "parse_tax_treatment (tr_tax_treatment sixteen) = Some TAXABLE" "parse_tax_effect (tr_tax_effect sixteen) = Some TRANSFERRED"
    "tr_id sixteen = 1" "tr_tax_category sixteen = ''IVA''" "tr_jurisdiction_code sixteen = ''MX''"
    by code_simp+
  have "evidence_of_rule sha taco_candidate ''A'' taco_amounts sixteen = Inr taco_tax"
    unfolding evidence_of_rule_def by (simp add: r taco_validated(8) taco_decomposed taco_tax_def sha_def)
  then show ?thesis
    unfolding resolve_tax_evidence_def taco_validated bind_result.simps c utc_naive.simps option.case
    using taco_validated(7) by simp
qed

definition taco_fiscal :: fiscal_product_evidence where
  "taco_fiscal = \<lparr>fe_source_product_fiscal_classification_id = 1, fe_fiscal_jurisdiction_code = ''MX'',
     fe_product_classification_scheme = ''SAT'', fe_product_classification_code = ''90101501'',
     fe_unit_classification_scheme = ''SAT'', fe_unit_classification_code = ''E48'', fe_schema_version = 1,
     fe_evidence_fingerprint = ''e3b0''\<rparr>"

definition taco_resolved :: resolved_line where
  "taco_resolved = \<lparr>rl_line = taco_line, rl_item = hd (dp_items (shown 7 ''Taco'' 2)), rl_graph = None, rl_tax = taco_tax,
     rl_fiscal = taco_fiscal\<rparr>"

definition taco_order :: accepted_order where
  "taco_order = accepted_order_row ''e3b0'' session5 diner11 talk31 (draft1 2) taco_preview ''key'' 10 1 1"

definition w4 :: ordering where
  "w4 = w2\<lparr>og_drafts := [accepted_draft 10 (draft1 2)], og_orders := [taco_order],
     og_order_items := [accepted_item_row taco_order 1 taco_resolved],
     og_order_promotions := numbered 1 (numbered 0 (line_promotions taco_order (accepted_item_row taco_order 1 taco_resolved) taco_resolved)),
     og_tax_snapshots := [tax_snapshot_row taco_order (accepted_item_row taco_order 1 taco_resolved) taco_resolved 1],
     og_fiscal_snapshots := [fiscal_snapshot_row taco_order (accepted_item_row taco_order 1 taco_resolved) taco_resolved 1]\<rparr>"

text \<open>The rows that the order writes are the same whatever the core tables hold.\<close>

abbreviation seated :: "db \<Rightarrow> ordering \<Rightarrow> ordering" where
  "seated core \<equiv> og_core_update (\<lambda>_. core)"

lemma taco_inserted:
  "insert_order (draft1 2) taco_order [taco_resolved] (seated core w2) = Inr (seated core (w4\<lparr>og_drafts := og_drafts w2\<rparr>))"
  by code_simp

lemma taco_line_resolved:
  "resolve_line sha (=) w2 w2 1 diner11 ''MX'' 10 (shown 7 ''Taco'' 2) [] taco_line = Inr taco_resolved"
proof -
  have parts: "List.find (\<lambda>i. ip_item_id i = cl_draft_item_id taco_line) (dp_items (shown 7 ''Taco'' 2))
      = Some (hd (dp_items (shown 7 ''Taco'' 2)))"
    "List.find (\<lambda>p. pd_id p = cl_product_id taco_line \<and> pd_tenant_id p = 1 \<and> pd_organization_id p = ds_organization_id diner11)
       (cat_products two_products) = Some (hd (cat_products two_products))"
    "line_graph w2 1 taco_line = Inr None" "products_as_held [] (cat_products (og_catalog w2)) = cat_products two_products"
    by code_simp+
  have fiscal: "resolve_fiscal_product_evidence sha (=) (cat_products two_products) (og_classifications w2)
      \<lparr>fk_tenant_id = 1, fk_organization_id = ds_organization_id diner11, fk_product_id = cl_product_id taco_line,
       fk_fiscal_jurisdiction_code = ''MX'', fk_effective_at = NaiveTime 10\<rparr> = Inr taco_fiscal"
    by code_simp
  show ?thesis
    by (simp add: resolve_line_def parts fiscal Let_def component_classifications_def
        taco_taxed[unfolded w_tables_def taco_candidate_def] taco_resolved_def)
qed

lemma taco_accepted:
  "accept_draft sha (=) (\<lambda>_. True) w2 1 session5 diner11 talk31 (draft1 2) taco_preview ''key'' 10 (seated core w2)
     = Inr (taco_order, seated core w4)"
proof -
  have site: "List.find (\<lambda>l. site_id l = ds_location_id diner11 \<and> site_tenant_id l = 1
      \<and> site_organization_id l = ds_organization_id diner11) (mu_sites (og_menus w2)) = Some (hd (mu_sites one_menu))"
    "site_country_code (hd (mu_sites one_menu)) = Some ''MX''" "dr_id (draft1 2) = 1" "pv_lines taco_preview = [taco_line]"
    "next_id ao_id (og_orders w2) = 1" "og_drafts w2 = [draft1 2]"
    by code_simp+
  have line: "resolve_line sha (=) w2 (seated core w2) 1 diner11 ''MX'' 10 (shown 7 ''Taco'' 2) [] taco_line = Inr taco_resolved"
    using taco_line_resolved by (simp add: resolve_line_def tax_tables_of_def cong: option.case_cong sum.case_cong)
  have "(seated core w4)\<lparr>og_drafts := modify dr_id 1 (\<lambda>_. accepted_draft 10 (draft1 2)) [draft1 2]\<rparr> = seated core w4"
    by (simp add: w4_def modify_def draft1_def)
  then show ?thesis
    by (simp add: accept_draft_def site evaluated line sha_def taco_inserted taco_order_def[symmetric])
qed

lemma taco_confirmed_while:
  assumes "lock_diner_write_context nobody w2 (seated core w2) 1 11 31 = Inr (session5, diner11, talk31)"
  shows "confirm_current_order digest sha (=) (\<lambda>_. True) nobody w2 10 10 1 11 31 2 ''2'' ''key'' (seated core w2)
     = Inr (taco_order, False, seated core w4)"
proof -
  have parts: "order_by_key w2 1 11 ''key'' = None" "current_draft w2 1 31 = Some (draft1 2)" "dr_version (draft1 2) = 2"
    "dr_id (draft1 2) = 1" "with_held_draft (draft1 2) w2 = w2" "is_ascii ''2''" "pv_commercial_fingerprint taco_preview = ''2''"
    by code_simp+
  have same: "order_by_key (seated core w2) = order_by_key w2" "current_draft (seated core w2) = current_draft w2"
    by (intro ext; simp add: order_by_key_def current_draft_def)+
  show ?thesis by (simp add: confirm_current_order_def assms same parts previewed taco_accepted Let_def)
qed

lemma taco_confirmed:
  "confirm_current_order digest sha (=) (\<lambda>_. True) nobody w2 10 10 1 11 31 2 ''2'' ''key'' w2 = Inr (taco_order, False, w4)"
proof -
  have "seated (og_core w2) w2 = w2" "seated (og_core w2) w4 = w4" by (simp_all add: w4_def)
  moreover have "lock_diner_write_context nobody w2 w2 1 11 31 = Inr (session5, diner11, talk31)" by code_simp
  ultimately show ?thesis using taco_confirmed_while[of "og_core w2"] by simp
qed


section \<open>The run, and the claims on it\<close>

abbreviation ordering_run_to :: "ordering list \<Rightarrow> ordering list \<Rightarrow> bool" where
  "ordering_run_to \<equiv> (ordering_step digest sha (=))\<^sup>*\<^sup>*"

lemma run_starts: "no_orders [w0]"
  by (auto simp: no_orders_def w0_def)

lemma run_to_two_tacos: "ordering_run_to [w0] [w2, w1, w0]"
proof -
  have "ordering_step digest sha (=) [w0] [w1, w0]"
    by (rule ordering_step.intros[of w0], simp, rule ordering_op.opened[OF drafted(1)])
  moreover have "ordering_step digest sha (=) [w1, w0] [w2, w1, w0]"
    by (rule ordering_step.intros[of w1], simp, rule ordering_op.added[OF drafted(2)])
  ultimately show ?thesis by (meson rtranclp.rtrancl_refl rtranclp.rtrancl_into_rtrancl)
qed

lemma order_step: "ordering_run_to [w2, w1, w0] [w4, w2, w1, w0]"
  by (rule r_into_rtranclp, rule ordering_step.intros[of w2], simp, rule ordering_op.confirmed[OF taco_confirmed])

lemma run_to_order: "ordering_run_to [w0] [w4, w2, w1, w0]"
  using run_to_two_tacos order_step by (rule rtranclp_trans)

lemma run_to_sweet: "ordering_run_to [w0] [w3, w1, w0]"
proof -
  have "ordering_step digest sha (=) [w0] [w1, w0]"
    by (rule ordering_step.intros[of w0], simp, rule ordering_op.opened[OF drafted(1)])
  moreover have "ordering_step digest sha (=) [w1, w0] [w3, w1, w0]"
    by (rule ordering_step.intros[of w1], simp, rule ordering_op.added[OF drafted(3)])
  ultimately show ?thesis by (meson rtranclp.rtrancl_refl rtranclp.rtrancl_into_rtrancl)
qed

lemma drafts_of_run: "drafts_inv w1" "drafts_inv w2"
  using ordering_run.inv_reachable[OF run_starts run_to_two_tacos] by (simp_all add: run_inv_def)

lemma pricing_of_run: "pricing_ok (og_pricing w2)"
proof -
  have "currency_code ''MXN''" by code_simp
  moreover have "list_all product_price_ok (pg_prices two_prices)" by code_simp
  ultimately show ?thesis
    by (simp add: pricing_ok_def tables_of_w) (simp add: two_prices_def five_off_def percent_def promotion_ok_def)
qed

theorem drafts_stay_consistent_witness:
  "numeric_19_4 (di_quantity (tacos 7 2))"
  using drafts_stay_consistent[OF run_starts run_to_two_tacos] by (simp add: Let_def w2_def)

theorem accepted_orders_account_witness:
  "sum_by ai_commercial_amount (order_items w4 1) = 175 \<and> ao_payable_total taco_order = 175"
proof -
  have x: "taco_order \<in> set (og_orders (hd [w4, w2, w1, w0]))" by (simp add: w4_def)
  have "ao_id taco_order = 1" "ao_pre_round_total taco_order = 175" "ao_payable_total taco_order = 175" by code_simp+
  with accepted_orders_account[OF run_starts run_to_order x] show ?thesis by (simp add: Let_def)
qed

theorem version_protects_a_draft_witness:
  "\<exists>r \<in> set (og_drafts w4). dr_id r = 1 \<and> 2 \<le> dr_version r"
proof -
  have x: "draft1 2 \<in> set (og_drafts (hd [w2, w1, w0]))" by (simp add: w2_def)
  show ?thesis using version_protects_a_draft[OF run_starts run_to_two_tacos order_step x] by (auto simp: draft1_def)
qed



theorem the_order_is_the_draft_witness:
  "map accepted_content (order_items w4 1) = map draft_content (items_of w2 1 1)"
proof -
  have x: "draft1 2 \<in> set (og_drafts w2)" "current_draft (hd [w2, w1, w0]) 1 31 = Some (draft1 2)" "ao_id taco_order = 1"
    "dr_id (draft1 2) = 1" by code_simp+
  have "confirm_current_order digest sha (=) (\<lambda>_. True) nobody w2 10 10 1 11 31 (dr_version (draft1 2)) ''2'' ''key''
      (hd [w2, w1, w0]) = Inr (taco_order, False, w4)" using taco_confirmed by (simp add: draft1_def)
  from the_order_is_the_draft[OF run_starts run_to_two_tacos _ x(1) this x(2)] x show ?thesis by simp
qed


theorem added_item_is_never_invalid_witness:
  "\<exists>shown_item. evaluate_item w2 (draft1 2) (tacos 7 2) = Inr shown_item \<and> ip_readiness shown_item = DRAFT_READY"
proof -
  have x: "draft1 2 \<in> set (og_drafts w2)" "dr_id (draft1 2) = 1" "di_composition_id (tacos 7 2) = None"
    "evaluate_item w2 (draft1 2) (tacos 7 2) = Inr (hd (dp_items (shown 7 ''Taco'' 2)))" by code_simp+
  from added_item_is_never_invalid[OF drafts_of_run(1) drafted(2) x(1,2,4)] x(3,4) show ?thesis by simp
qed

theorem checkout_preview_is_bounded_witness:
  "0 \<le> pv_total_discount taco_preview \<and> pv_total_discount taco_preview \<le> pv_subtotal taco_preview"
  using checkout_preview_is_bounded[OF drafts_of_run(2) pricing_of_run previewed(1)] by simp

theorem ranking_decides_the_promotions_witness:
  "\<exists>candidates. {2, 1} \<subseteq> pm_id ` set candidates \<and> set candidates \<subseteq> set (pg_promotions (og_pricing w2))"
proof -
  have x: "taco_line \<in> set (pv_lines taco_preview)" "distinct (map pm_id (pg_promotions (og_pricing w2)))"
    "set (map app_promotion_id (cl_applied_promotions taco_line)) = {2, 1}" by code_simp+
  from ranking_decides_the_promotions[OF drafts_of_run(2) pricing_of_run previewed(1) x(1,2)] obtain candidates product l
    where "set candidates = {r \<in> set (pg_promotions (og_pricing w2)). promotion_applies (og_pricing w2) 1 product l 10 r}"
      "set (map app_promotion_id (cl_applied_promotions taco_line)) = pm_id ` {r \<in> set candidates. ranks_first candidates r
           \<or> pm_is_combinable r \<and> (\<forall>b. ranks_first candidates b \<longrightarrow> pm_is_combinable b)}" by blast
  then show ?thesis unfolding x(3) by (intro exI[of _ candidates]) auto
qed

section \<open>A check that a confirmation does not see\<close>

definition member11 :: check_member where
  "member11 = \<lparr>cm_id = 1, cm_tenant_id = 1, cm_organization_id = 2, cm_location_id = 3, cm_check_id = 1,
     cm_diner_session_id = 11, cm_service_session_id = 5, cm_resource_id = 4, cm_conversation_id = 31,
     cm_relationship = REL_INCLUDED, cm_active_slot = Some 1, cm_acquired_at = 9,
     cm_acquired_by = Actor EMPLOYEE (Some 9) None, cm_acquired_version = 1, cm_released_at = None,
     cm_released_by = None, cm_release_reason = None, cm_released_version = None\<rparr>"

definition billed :: db where
  "billed = (og_core w2)\<lparr>check_members := [member11]\<rparr>"


end
