(* ===== verification/ServiceSessions.thy ===== *)
theory ServiceSessions
  imports Drafts
begin

text \<open>
  The sessions of a table (\<^verbatim>\<open>app/restaurant/service_sessions/service.py\<close>): staff open a table for a party, diners
  join with the access code of the day, and the table closes when everything is paid. With them the two
  functions of \<^verbatim>\<open>table_management.py\<close> that a session calls. \<^theory_text>\<open>s\<close> is the snapshot of the transaction, which the
  reads of the authentication opened, \<^theory_text>\<open>f\<close> the tables under its locks. \<^theory_text>\<open>digest\<close> is the keyed digest of an
  access code, \<^theory_text>\<open>ci\<close> the comparison of the email columns, \<^theory_text>\<open>casefold\<close> the method of \<^verbatim>\<open>str\<close>.
\<close>

datatype service_error =
    ServiceValueError | ServiceContextError | ResourceAlreadyOccupiedError | TableUnavailableError
  | ServiceStaffingConflictError | ServiceSessionNotFoundError | ServiceSessionClosedError
  | PartySizeConflictError | InvalidJoinError | JoinLockedError int | CapacityConflictError
  | DuplicateDinerIdentityError | DinerNotActiveError   \<comment> \<open>\<^verbatim>\<open>DinerAuthorizationError\<close>\<close>
  | SessionCheckError check_error
  | ServiceAttributeError        \<comment> \<open>an attribute of \<^verbatim>\<open>None\<close>\<close>

section \<open>Tables\<close>

record service_row =
  sr_id :: int
  sr_tenant_id :: int
  sr_organization_id :: int
  sr_location_id :: int
  sr_resource_id :: int
  sr_party_size :: int
  sr_status :: string
  sr_open_slot :: "int option"
  sr_join_context_key :: string
  sr_access_code_digest :: "string option"
  sr_access_code_version :: int
  sr_failed_join_attempts :: int
  sr_failed_window_started_at :: "datetime option"
  sr_join_locked_until :: "datetime option"
  sr_opened_by_membership_id :: int
  sr_opened_at :: datetime
  sr_closed_by_membership_id :: "int option"
  sr_closed_at :: "datetime option"

record diner_row =
  dn_id :: int
  dn_tenant_id :: int
  dn_organization_id :: int
  dn_location_id :: int
  dn_resource_id :: int
  dn_service_session_id :: int
  dn_customer_id :: "int option"
  dn_conversation_id :: int
  dn_conversation_participant_id :: int
  dn_display_name :: string
  dn_normalized_email :: "string option"
  dn_status :: string
  dn_active_slot :: "int option"
  dn_joined_at :: datetime
  dn_ended_at :: "datetime option"

record conversation_participant =
  cp_id :: int
  cp_tenant_id :: int
  cp_conversation_id :: int
  cp_participant_type :: string
  cp_customer_id :: "int option"
  cp_tenant_membership_id :: "int option"

record customer =
  cu_id :: int
  cu_tenant_id :: int
  cu_email :: "string option"
  cu_status :: string

record table_profile =
  tp_tenant_id :: int
  tp_location_id :: int
  tp_resource_id :: int
  tp_administrative_status :: string

record table_group =
  tg_id :: int
  tg_tenant_id :: int
  tg_location_id :: int
  tg_representative_resource_id :: int
  tg_status :: string
  tg_active_slot :: "int option"
  tg_version :: int
  tg_closed_by_membership_id :: "int option"
  tg_closed_at :: "datetime option"

record group_membership =
  gm_id :: int
  gm_tenant_id :: int
  gm_location_id :: int
  gm_table_group_id :: int
  gm_table_resource_id :: int
  gm_is_representative :: bool
  gm_active_slot :: "int option"
  gm_removed_at :: "datetime option"

definition service_row_ok :: "service_row \<Rightarrow> bool" where
  "service_row_ok r \<longleftrightarrow> sr_status r \<in> {''OPEN'', ''CLOSED''} \<and> 1 \<le> sr_party_size r \<and> sr_party_size r \<le> 999
     \<and> 1 \<le> sr_access_code_version r \<and> 0 \<le> sr_failed_join_attempts r
     \<and> (sr_open_slot r = None \<or> sr_open_slot r = Some 1)
     \<and> (sr_status r = ''OPEN'' \<and> sr_open_slot r = Some 1 \<and> sr_access_code_digest r \<noteq> None
          \<and> sr_closed_at r = None \<and> sr_closed_by_membership_id r = None
        \<or> sr_status r = ''CLOSED'' \<and> sr_open_slot r = None \<and> sr_access_code_digest r = None
          \<and> sr_closed_at r \<noteq> None \<and> sr_closed_by_membership_id r \<noteq> None)"

definition service_rows_collide :: "service_row \<Rightarrow> service_row \<Rightarrow> bool" where
  "service_rows_collide a b \<longleftrightarrow>
     sr_resource_id a = sr_resource_id b \<and> same_slot (sr_open_slot a) (sr_open_slot b)
     \<or> sr_join_context_key a = sr_join_context_key b"

definition diner_row_ok :: "diner_row \<Rightarrow> bool" where
  "diner_row_ok r \<longleftrightarrow> dn_status r \<in> {''ACTIVE'', ''ENDED''} \<and> (dn_active_slot r = None \<or> dn_active_slot r = Some 1)
     \<and> dn_display_name r \<noteq> '''' \<and> length (dn_display_name r) \<le> 200
     \<and> (dn_status r = ''ACTIVE'' \<and> dn_active_slot r = Some 1 \<and> dn_ended_at r = None
        \<or> dn_status r = ''ENDED'' \<and> dn_active_slot r = None \<and> dn_ended_at r \<noteq> None)"

definition same_email :: "(string \<Rightarrow> string \<Rightarrow> bool) \<Rightarrow> string option \<Rightarrow> string option \<Rightarrow> bool" where
  "same_email ci a b = (case (a, b) of (Some x, Some y) \<Rightarrow> ci x y | _ \<Rightarrow> False)"

definition diner_rows_collide :: "(string \<Rightarrow> string \<Rightarrow> bool) \<Rightarrow> diner_row \<Rightarrow> diner_row \<Rightarrow> bool" where
  "diner_rows_collide ci a b \<longleftrightarrow>
     dn_service_session_id a = dn_service_session_id b \<and> same_email ci (dn_normalized_email a) (dn_normalized_email b)
       \<and> same_slot (dn_active_slot a) (dn_active_slot b)
     \<or> dn_conversation_id a = dn_conversation_id b
     \<or> dn_conversation_participant_id a = dn_conversation_participant_id b"

text \<open>
  The tables of the floor beside those of ordering; what the other services read of a session and of a
  diner are these columns.
\<close>

record floor =
  fl_sessions :: "service_row list"
  fl_diners :: "diner_row list"
  fl_participants :: "conversation_participant list"
  fl_customers :: "customer list"
  fl_profiles :: "table_profile list"
  fl_groups :: "table_group list"
  fl_memberships :: "group_membership list"
  fl_ordering :: ordering

definition session_view :: "service_row \<Rightarrow> service_session" where
  "session_view r = \<lparr>ss_id = sr_id r, ss_tenant_id = sr_tenant_id r, ss_organization_id = sr_organization_id r,
     ss_location_id = sr_location_id r, ss_resource_id = sr_resource_id r, ss_status = sr_status r,
     ss_open_slot = sr_open_slot r\<rparr>"

definition diner_view :: "diner_row \<Rightarrow> diner_session" where
  "diner_view r = \<lparr>ds_id = dn_id r, ds_tenant_id = dn_tenant_id r, ds_organization_id = dn_organization_id r,
     ds_location_id = dn_location_id r, ds_resource_id = dn_resource_id r,
     ds_service_session_id = dn_service_session_id r, ds_conversation_id = dn_conversation_id r,
     ds_display_name = dn_display_name r, ds_status = dn_status r, ds_active_slot = dn_active_slot r\<rparr>"

definition core_of :: "floor \<Rightarrow> db" where
  "core_of f = (og_core (fl_ordering f))\<lparr>service_sessions := map session_view (fl_sessions f),
     diner_sessions := map diner_view (fl_diners f)\<rparr>"

definition ordering_of :: "floor \<Rightarrow> ordering" where
  "ordering_of f = (fl_ordering f)\<lparr>og_core := core_of f\<rparr>"

definition with_core :: "db \<Rightarrow> floor \<Rightarrow> floor" where
  "with_core e f = f\<lparr>fl_ordering := (fl_ordering f)\<lparr>og_core := e\<rparr>\<rparr>"

definition active_diners :: "floor \<Rightarrow> int \<Rightarrow> diner_row list" where
  "active_diners s session_id =
     filter (\<lambda>x. dn_service_session_id x = session_id \<and> dn_active_slot x = Some 1) (fl_diners s)"

section \<open>Opening\<close>

definition assert_table_can_open_service :: "floor \<Rightarrow> int \<Rightarrow> int \<Rightarrow> int \<Rightarrow> bool" where
  "assert_table_can_open_service s tenant location resource \<longleftrightarrow>
     (case List.find (\<lambda>p. tp_tenant_id p = tenant \<and> tp_location_id p = location \<and> tp_resource_id p = resource)
             (fl_profiles s) of
        None \<Rightarrow> True | Some p \<Rightarrow> tp_administrative_status p = ''ACTIVE'')
     \<and> (case List.find (\<lambda>m. gm_tenant_id m = tenant \<and> gm_location_id m = location
             \<and> gm_table_resource_id m = resource \<and> gm_active_slot m = Some 1) (fl_memberships s) of
        None \<Rightarrow> True | Some m \<Rightarrow> gm_is_representative m)"

text \<open>
  \<^theory_text>\<open>staffed\<close> says whether the table has waiters who are responsible for it, \<^theory_text>\<open>assigned\<close> whether the new
  session gets them (\<^verbatim>\<open>table_waiter_assignments.py\<close>, \<^verbatim>\<open>responsibility.py\<close>).
\<close>

definition open_service_session ::
  "(string \<Rightarrow> int \<Rightarrow> string \<Rightarrow> string) \<Rightarrow> bool \<Rightarrow> bool \<Rightarrow> string \<Rightarrow> string \<Rightarrow> datetime \<Rightarrow> floor \<Rightarrow> int \<Rightarrow> int \<Rightarrow> int \<Rightarrow> int
   \<Rightarrow> floor \<Rightarrow> service_error + (service_row \<times> floor)"
where
  "open_service_session digest staffed assigned join_context_key access_code now s tenant membership_id resource_id party_size f =
     (if \<not> (1 \<le> party_size \<and> party_size \<le> 999) then Inl ServiceValueError
      else case List.find (\<lambda>r. res_id r = resource_id \<and> res_tenant_id r = tenant)
             (resources (og_core (fl_ordering f))) of
        None \<Rightarrow> Inl ServiceContextError
      | Some resource \<Rightarrow>
     (case List.find (\<lambda>l. site_id l = res_location_id resource \<and> site_tenant_id l = tenant \<and> site_status l = ''ACTIVE'')
             (mu_sites (og_menus (fl_ordering s))) of
        None \<Rightarrow> Inl ServiceContextError
      | Some location \<Rightarrow>
          if \<not> organization_in_service (og_menus (fl_ordering s)) tenant (site_organization_id location)
             \<or> res_resource_type resource \<noteq> ''TABLE'' \<or> res_status resource \<noteq> ''ACTIVE''
          then Inl ServiceContextError
          else if list_ex (\<lambda>x. sr_resource_id x = res_id resource \<and> sr_open_slot x = Some 1) (fl_sessions s)
          then Inl ResourceAlreadyOccupiedError
          else if \<not> assert_table_can_open_service s tenant (site_id location) (res_id resource)
          then Inl TableUnavailableError
          else if \<not> staffed then Inl ServiceStaffingConflictError
          else
            (let r = \<lparr>sr_id = next_id sr_id (fl_sessions f), sr_tenant_id = tenant,
                   sr_organization_id = site_organization_id location, sr_location_id = site_id location,
                   sr_resource_id = res_id resource, sr_party_size = party_size, sr_status = ''OPEN'',
                   sr_open_slot = Some 1, sr_join_context_key = join_context_key,
                   sr_access_code_digest = Some (digest join_context_key 1 access_code),
                   sr_access_code_version = 1, sr_failed_join_attempts = 0, sr_failed_window_started_at = None,
                   sr_join_locked_until = None, sr_opened_by_membership_id = membership_id,
                   sr_opened_at = stored_seconds now, sr_closed_by_membership_id = None, sr_closed_at = None\<rparr>
             in if list_ex (service_rows_collide r) (fl_sessions f) then Inl ResourceAlreadyOccupiedError
                else if \<not> assigned then Inl ServiceStaffingConflictError
                else Inr (r, f\<lparr>fl_sessions := fl_sessions f @ [r]\<rparr>))))"

definition current_service_session :: "floor \<Rightarrow> int \<Rightarrow> int \<Rightarrow> service_error + (service_row \<times> int)" where
  "current_service_session s tenant resource_id =
     (case List.find (\<lambda>x. sr_tenant_id x = tenant \<and> sr_resource_id x = resource_id \<and> sr_open_slot x = Some 1)
             (fl_sessions s) of
        None \<Rightarrow> Inl ServiceSessionNotFoundError
      | Some r \<Rightarrow> Inr (r, int (length (active_diners s (sr_id r)))))"

text \<open>The count is read without a lock.\<close>

definition update_party_size ::
  "floor \<Rightarrow> int \<Rightarrow> int \<Rightarrow> int \<Rightarrow> floor \<Rightarrow> service_error + ((service_row \<times> int) \<times> floor)"
where
  "update_party_size s tenant session_id party_size f =
     (if \<not> (1 \<le> party_size \<and> party_size \<le> 999) then Inl ServiceValueError
      else case List.find (\<lambda>x. sr_id x = session_id \<and> sr_tenant_id x = tenant) (fl_sessions f) of
        None \<Rightarrow> Inl ServiceSessionNotFoundError
      | Some r \<Rightarrow>
          if sr_status r \<noteq> ''OPEN'' then Inl ServiceSessionClosedError
          else
            (let active_count = int (length (active_diners s (sr_id r)));
                 r' = r\<lparr>sr_party_size := party_size\<rparr>
             in if party_size < active_count then Inl PartySizeConflictError
                else Inr ((r', active_count), f\<lparr>fl_sessions := modify sr_id session_id (\<lambda>_. r') (fl_sessions f)\<rparr>)))"

section \<open>Joining\<close>

definition FAILURE_WINDOW :: int where "FAILURE_WINDOW = 5 * 60 * 1000000"
definition LOCKOUT :: int where "LOCKOUT = 5 * 60 * 1000000"

definition verify_access_code :: "(string \<Rightarrow> int \<Rightarrow> string \<Rightarrow> string) \<Rightarrow> service_row \<Rightarrow> string \<Rightarrow> bool" where
  "verify_access_code digest r access_code =
     (case sr_access_code_digest r of
        None \<Rightarrow> False
      | Some x \<Rightarrow> digest (sr_join_context_key r) (sr_access_code_version r) access_code = x)"

definition reset_failures :: "service_row \<Rightarrow> service_row" where
  "reset_failures r = r\<lparr>sr_failed_join_attempts := 0, sr_failed_window_started_at := None, sr_join_locked_until := None\<rparr>"

definition record_failure :: "service_row \<Rightarrow> datetime \<Rightarrow> service_row" where
  "record_failure r now =
     (let r1 = (if (case sr_failed_window_started_at r of None \<Rightarrow> True | Some w \<Rightarrow> FAILURE_WINDOW \<le> now - w)
                then r\<lparr>sr_failed_window_started_at := Some now, sr_failed_join_attempts := 1\<rparr>
                else r\<lparr>sr_failed_join_attempts := sr_failed_join_attempts r + 1\<rparr>)
      in if 5 \<le> sr_failed_join_attempts r1 then r1\<lparr>sr_join_locked_until := Some (now + LOCKOUT)\<rparr> else r1)"

definition join_locked :: "service_row \<Rightarrow> datetime \<Rightarrow> bool" where
  "join_locked r now = (case sr_join_locked_until r of None \<Rightarrow> False | Some t \<Rightarrow> now < t)"

text \<open>What the columns keep of it.\<close>

definition stored_failure :: "service_row \<Rightarrow> service_row" where
  "stored_failure r = r\<lparr>sr_failed_window_started_at := map_option stored_seconds (sr_failed_window_started_at r),
     sr_join_locked_until := map_option stored_seconds (sr_join_locked_until r)\<rparr>"

definition put_session :: "service_row \<Rightarrow> floor \<Rightarrow> floor" where
  "put_session r f = f\<lparr>fl_sessions := modify sr_id (sr_id r) (\<lambda>_. r) (fl_sessions f)\<rparr>"

definition normalize_email :: "(string \<Rightarrow> string) \<Rightarrow> string option \<Rightarrow> service_error + string option" where
  "normalize_email casefold value =
     (case value of
        None \<Rightarrow> Inr None
      | Some v \<Rightarrow>
          (let normalized = casefold (strip v) in
           if normalized = '''' then Inr None
           else if 320 < length normalized \<or> length (filter (\<lambda>c. c = CHR 0x40) normalized) \<noteq> 1
                  \<or> hd normalized = CHR 0x40 \<or> last normalized = CHR 0x40
           then Inl ServiceValueError
           else Inr (Some normalized)))"

definition customer_of :: "(string \<Rightarrow> string \<Rightarrow> bool) \<Rightarrow> floor \<Rightarrow> int \<Rightarrow> string option \<Rightarrow> int option" where
  "customer_of ci s tenant email =
     (case map cu_id (filter (\<lambda>c. cu_tenant_id c = tenant \<and> same_email ci (cu_email c) email \<and> cu_status c = ''ACTIVE'')
             (fl_customers s)) of
        [i] \<Rightarrow> Some i
      | _ \<Rightarrow> None)"

definition joined_floor ::
  "(string \<Rightarrow> string \<Rightarrow> bool) \<Rightarrow> floor \<Rightarrow> datetime \<Rightarrow> service_row \<Rightarrow> string \<Rightarrow> string option \<Rightarrow> floor \<Rightarrow> diner_row \<times> floor"
where
  "joined_floor ci s now r name email f =
     (let talks = og_conversations (fl_ordering f);
          conversation = \<lparr>cn_id = next_id cn_id talks, cn_tenant_id = sr_tenant_id r,
            cn_organization_id = sr_organization_id r, cn_location_id = Some (sr_location_id r),
            cn_resource_id = Some (sr_resource_id r), cn_channel = ''IN_PERSON_DIGITAL'', cn_status = ''ACTIVE''\<rparr>;
          customer_id = customer_of ci s (sr_tenant_id r) email;
          i = next_id cp_id (fl_participants f);
          guest = \<lparr>cp_id = i, cp_tenant_id = sr_tenant_id r, cp_conversation_id = cn_id conversation,
            cp_participant_type = ''CUSTOMER'', cp_customer_id = customer_id, cp_tenant_membership_id = None\<rparr>;
          digital_waiter = \<lparr>cp_id = i + 1, cp_tenant_id = sr_tenant_id r, cp_conversation_id = cn_id conversation,
            cp_participant_type = ''DIGITAL_WAITER'', cp_customer_id = None, cp_tenant_membership_id = None\<rparr>;
          diner = \<lparr>dn_id = next_id dn_id (fl_diners f), dn_tenant_id = sr_tenant_id r,
            dn_organization_id = sr_organization_id r, dn_location_id = sr_location_id r,
            dn_resource_id = sr_resource_id r, dn_service_session_id = sr_id r, dn_customer_id = customer_id,
            dn_conversation_id = cn_id conversation, dn_conversation_participant_id = i,
            dn_display_name = name, dn_normalized_email = email, dn_status = ''ACTIVE'',
            dn_active_slot = Some 1, dn_joined_at = stored_seconds now, dn_ended_at = None\<rparr>
      in (diner, f\<lparr>fl_participants := fl_participants f @ [guest, digital_waiter],
            fl_diners := fl_diners f @ [diner],
            fl_ordering := (fl_ordering f)\<lparr>og_conversations := talks @ [conversation]\<rparr>\<rparr>))"

text \<open>
  A refused join commits too: a wrong code is counted, and a right one resets the count even when there
  is no room.
\<close>

definition join_diner ::
  "(string \<Rightarrow> int \<Rightarrow> string \<Rightarrow> string) \<Rightarrow> (string \<Rightarrow> string \<Rightarrow> bool) \<Rightarrow> (string \<Rightarrow> string) \<Rightarrow> datetime \<Rightarrow> floor
   \<Rightarrow> string \<Rightarrow> string \<Rightarrow> string \<Rightarrow> string option \<Rightarrow> floor \<Rightarrow> (service_error + diner_row) \<times> floor"
where
  "join_diner digest ci casefold now s join_context_key access_code display_name email f =
     (let name = strip display_name in
      if name = '''' \<or> 200 < length name then (Inl ServiceValueError, f)
      else case normalize_email casefold email of
        Inl e \<Rightarrow> (Inl e, f)
      | Inr normalized \<Rightarrow>
     (case List.find (\<lambda>r. sr_join_context_key r = join_context_key) (fl_sessions f) of
        None \<Rightarrow> (Inl InvalidJoinError, f)
      | Some r \<Rightarrow>
          if sr_status r \<noteq> ''OPEN'' then (Inl InvalidJoinError, f)
          else if join_locked r now
          then (Inl (JoinLockedError (max 1 (min 300 ((the (sr_join_locked_until r) - now) div 1000000 + 1)))), f)
          else if \<not> verify_access_code digest r access_code
          then (let r' = record_failure r now in
                (Inl (if join_locked r' now then JoinLockedError 300 else InvalidJoinError),
                 put_session (stored_failure r') f))
          else if list_ex (\<lambda>t. ts_tenant_id t = sr_tenant_id r \<and> ts_service_session_id t = sr_id r
                 \<and> ts_active_slot t = Some 1 \<and> ts_lock_phase t \<in> {PHASE_CHECK, PHASE_CONTINUATION})
                 (check_table_scopes (og_core (fl_ordering f)))
          then (Inl CapacityConflictError, f)
          else
            (let f1 = put_session (reset_failures r) f in
             if sr_party_size r \<le> int (length (active_diners s (sr_id r))) then (Inl CapacityConflictError, f1)
             else if normalized \<noteq> None
                  \<and> list_ex (\<lambda>x. same_email ci (dn_normalized_email x) normalized) (active_diners s (sr_id r))
             then (Inl DuplicateDinerIdentityError, f1)
             else
               (let (diner, f2) = joined_floor ci s now r name normalized f1 in
                if list_ex (diner_rows_collide ci diner) (fl_diners f1) then (Inl DuplicateDinerIdentityError, f)
                else (Inr diner, f2)))))"

section \<open>Ending\<close>

definition abandon_draft_of :: "int \<Rightarrow> datetime \<Rightarrow> int \<Rightarrow> ordering \<Rightarrow> ordering" where
  "abandon_draft_of tenant terminal_at conversation_id d =
     (case current_draft d tenant conversation_id of
        None \<Rightarrow> d
      | Some r \<Rightarrow> d\<lparr>og_drafts := modify dr_id (dr_id r)
          (\<lambda>x. x\<lparr>dr_status := ''ABANDONED'', dr_current_slot := None, dr_terminal_at := Some (stored_seconds terminal_at)\<rparr>)
          (og_drafts d)\<rparr>)"

definition ended_diner :: "datetime \<Rightarrow> diner_row \<Rightarrow> diner_row" where
  "ended_diner now x = x\<lparr>dn_status := ''ENDED'', dn_active_slot := None, dn_ended_at := Some (stored_seconds now)\<rparr>"

definition close_conversation :: "conversation_row \<Rightarrow> conversation_row" where
  "close_conversation c = (if cn_status c = ''ACTIVE'' then c\<lparr>cn_status := ''CLOSED''\<rparr> else c)"

text \<open>\<^theory_text>\<open>t\<close> is the clock of the check service, \<^theory_text>\<open>now\<close> that of this one.\<close>

definition end_diner_session ::
  "datetime \<Rightarrow> datetime \<Rightarrow> int \<Rightarrow> int \<Rightarrow> int \<Rightarrow> floor \<Rightarrow> service_error + (diner_row \<times> floor)"
where
  "end_diner_session t now tenant service_session_id diner_session_id f =
     (case List.find (\<lambda>x. sr_id x = service_session_id \<and> sr_tenant_id x = tenant) (fl_sessions f) of
        None \<Rightarrow> Inl DinerNotActiveError
      | Some session \<Rightarrow>
     if sr_status session \<noteq> ''OPEN'' then Inl DinerNotActiveError
     else case List.find (\<lambda>x. dn_id x = diner_session_id \<and> dn_service_session_id x = sr_id session
             \<and> dn_tenant_id x = tenant) (fl_diners f) of
        None \<Rightarrow> Inl DinerNotActiveError
      | Some diner \<Rightarrow>
     if dn_status diner \<noteq> ''ACTIVE'' then Inl DinerNotActiveError
     else (case assert_diner_can_end (core_of f) t tenant (dn_id diner) of
        Inl e \<Rightarrow> Inl (SessionCheckError e)
      | Inr core \<Rightarrow>
          (let d = abandon_draft_of tenant now (dn_conversation_id diner) (fl_ordering (with_core core f));
               diner' = ended_diner now diner
           in Inr (diner', f\<lparr>fl_diners := modify dn_id (dn_id diner) (\<lambda>_. diner') (fl_diners f),
                fl_ordering := d\<lparr>og_conversations := modify_where
                  (\<lambda>c. cn_id c = dn_conversation_id diner \<and> cn_tenant_id c = tenant) close_conversation
                  (og_conversations d)\<rparr>\<rparr>))))"

text \<open>The group of tables that the session was for is dissolved with it; its history row is left out.\<close>

definition close_group_for_service_session :: "service_row \<Rightarrow> int \<Rightarrow> datetime \<Rightarrow> floor \<Rightarrow> floor" where
  "close_group_for_service_session session membership_id now f =
     (case List.find (\<lambda>g. tg_tenant_id g = sr_tenant_id session \<and> tg_location_id g = sr_location_id session
             \<and> tg_representative_resource_id g = sr_resource_id session \<and> tg_status g = ''ACTIVE'') (fl_groups f) of
        None \<Rightarrow> f
      | Some g \<Rightarrow> f\<lparr>fl_memberships := modify_where (\<lambda>m. gm_table_group_id m = tg_id g \<and> gm_active_slot m = Some 1)
             (\<lambda>m. m\<lparr>gm_active_slot := None, gm_removed_at := Some (stored_seconds now)\<rparr>) (fl_memberships f),
           fl_groups := modify tg_id (tg_id g) (\<lambda>x. x\<lparr>tg_status := ''CLOSED'', tg_active_slot := None,
             tg_version := tg_version g + 1, tg_closed_by_membership_id := Some membership_id,
             tg_closed_at := Some (stored_seconds now)\<rparr>) (fl_groups f)\<rparr>)"

definition closed_session :: "int \<Rightarrow> datetime \<Rightarrow> service_row \<Rightarrow> service_row" where
  "closed_session membership_id now r = (reset_failures r)\<lparr>sr_status := ''CLOSED'', sr_open_slot := None,
     sr_access_code_digest := None, sr_closed_by_membership_id := Some membership_id,
     sr_closed_at := Some (stored_seconds now)\<rparr>"

definition close_service_session ::
  "datetime \<Rightarrow> datetime \<Rightarrow> datetime \<Rightarrow> floor \<Rightarrow> int \<Rightarrow> int \<Rightarrow> int \<Rightarrow> floor \<Rightarrow> service_error + (service_row \<times> floor)"
where
  "close_service_session t now group_now s tenant membership_id session_id f =
     (case List.find (\<lambda>x. sr_id x = session_id \<and> sr_tenant_id x = tenant) (fl_sessions s) of
        None \<Rightarrow> Inl ServiceSessionNotFoundError
      | Some identity \<Rightarrow>
     if \<not> list_ex (\<lambda>r. res_id r = sr_resource_id identity \<and> res_tenant_id r = tenant)
            (resources (og_core (fl_ordering f)))
     then Inl ServiceAttributeError
     else case List.find (\<lambda>x. sr_id x = session_id \<and> sr_tenant_id x = tenant
             \<and> sr_resource_id x = sr_resource_id identity) (fl_sessions f) of
        None \<Rightarrow> Inl ServiceSessionNotFoundError
      | Some session \<Rightarrow>
     if sr_status session \<noteq> ''OPEN'' then Inl ServiceSessionClosedError
     else (case assert_service_can_close (core_of f) t tenant (sr_id session) of
        Inl e \<Rightarrow> Inl (SessionCheckError e)
      | Inr (_, core) \<Rightarrow>
          (let diners = active_diners f (sr_id session);
               conversation_ids = map dn_conversation_id diners;
               of_diner = (\<lambda>c. cn_id c \<in> set conversation_ids \<and> cn_tenant_id c = tenant);
               d = foldl (\<lambda>d c. abandon_draft_of tenant now (cn_id c) d) (fl_ordering (with_core core f))
                 (order_by cn_id (filter of_diner (og_conversations (fl_ordering f))));
               session' = closed_session membership_id now session
           in Inr (session', close_group_for_service_session session membership_id group_now
                (f\<lparr>fl_sessions := modify sr_id (sr_id session) (\<lambda>_. session') (fl_sessions f),
                   fl_diners := modify_where (\<lambda>x. dn_service_session_id x = sr_id session \<and> dn_active_slot x = Some 1)
                     (ended_diner now) (fl_diners f),
                   fl_ordering := d\<lparr>og_conversations := modify_where of_diner close_conversation
                     (og_conversations d)\<rparr>\<rparr>)))))"

end
