(* ===== verification/ServiceProofs.thy ===== *)
theory ServiceProofs
  imports ServiceSessions OrderingOutcomes
begin

text \<open>
  What the sessions of the tables keep: one party at a table, diners only at an open table, a limit to the
  guesses of an access code; and that a diner who left can order no more.
\<close>

section \<open>Runs\<close>

text \<open>
  A transaction works on the current tables with any earlier state as its snapshot. The first statement of
  a join locks its session, so what it reads afterwards is current.
\<close>

inductive floor_op ::
  "(string \<Rightarrow> int \<Rightarrow> string \<Rightarrow> string) \<Rightarrow> (string \<Rightarrow> string \<Rightarrow> bool) \<Rightarrow> (string \<Rightarrow> string) \<Rightarrow> floor \<Rightarrow> floor \<Rightarrow> floor \<Rightarrow> bool"
  for digest ci casefold
where
  opened: "open_service_session digest staffed assigned key code now s tenant m i n f = Inr (r, f')
    \<Longrightarrow> floor_op digest ci casefold s f f'"
| resized: "update_party_size s tenant i n f = Inr (r, f') \<Longrightarrow> floor_op digest ci casefold s f f'"
| joined: "join_diner digest ci casefold now f key code name email f = (r, f') \<Longrightarrow> floor_op digest ci casefold s f f'"
| ended: "end_diner_session t now tenant i x f = Inr (r, f') \<Longrightarrow> floor_op digest ci casefold s f f'"
| closed: "close_service_session t now u s tenant m i f = Inr (r, f') \<Longrightarrow> floor_op digest ci casefold s f f'"
| elsewhere: "f' = f\<lparr>fl_customers := customers, fl_profiles := profiles, fl_groups := groups,
      fl_memberships := memberships, fl_ordering := tables\<rparr> \<Longrightarrow> floor_op digest ci casefold s f f'"

inductive floor_step ::
  "(string \<Rightarrow> int \<Rightarrow> string \<Rightarrow> string) \<Rightarrow> (string \<Rightarrow> string \<Rightarrow> bool) \<Rightarrow> (string \<Rightarrow> string) \<Rightarrow> floor list \<Rightarrow> floor list \<Rightarrow> bool"
  for digest ci casefold
where
  "s \<in> set (f # past) \<Longrightarrow> floor_op digest ci casefold s f f' \<Longrightarrow> floor_step digest ci casefold (f # past) (f' # f # past)"

definition empty_floor :: "floor list \<Rightarrow> bool" where
  "empty_floor h \<longleftrightarrow> (\<exists>f. h = [f] \<and> fl_sessions f = [] \<and> fl_diners f = [])"

section \<open>The tables\<close>

definition at_open_table :: "floor \<Rightarrow> diner_row \<Rightarrow> bool" where
  "at_open_table f x \<longleftrightarrow> (\<exists>r \<in> set (fl_sessions f). sr_id r = dn_service_session_id x \<and> sr_tenant_id r = dn_tenant_id x
     \<and> sr_resource_id r = dn_resource_id x \<and> (dn_status x = ''ACTIVE'' \<longrightarrow> sr_status r = ''OPEN''))"

definition floor_inv :: "(string \<Rightarrow> string \<Rightarrow> bool) \<Rightarrow> floor \<Rightarrow> bool" where
  "floor_inv ci f \<longleftrightarrow> distinct (map sr_id (fl_sessions f)) \<and> table_ok service_row_ok service_rows_collide (fl_sessions f)
     \<and> distinct (map dn_id (fl_diners f)) \<and> list_all diner_row_ok (fl_diners f)
     \<and> collision_free (\<lambda>a b. diner_rows_collide ci b a) (fl_diners f)
     \<and> (\<forall>x \<in> set (fl_diners f). at_open_table f x)"

text \<open>The rows of a session are written one at a time.\<close>

lemma session_write_inv:
  assumes inv: "floor_inv ci f" and r: "r \<in> set (fl_sessions f)"
    and r': "sr_id r' = sr_id r" "service_row_ok r'" "sr_join_context_key r' = sr_join_context_key r"
      "sr_resource_id r' = sr_resource_id r" "sr_tenant_id r' = sr_tenant_id r"
      "sr_open_slot r' = None \<or> sr_open_slot r' = sr_open_slot r"
    and f': "fl_sessions f' = modify sr_id (sr_id r) (\<lambda>_. r') (fl_sessions f)"
    and diners: "distinct (map dn_id (fl_diners f'))" "list_all diner_row_ok (fl_diners f')"
      "collision_free (\<lambda>a b. diner_rows_collide ci b a) (fl_diners f')"
      "\<forall>x \<in> set (fl_diners f'). \<exists>y \<in> set (fl_diners f). dn_service_session_id x = dn_service_session_id y
         \<and> dn_tenant_id x = dn_tenant_id y \<and> dn_resource_id x = dn_resource_id y
         \<and> (dn_status x = ''ACTIVE'' \<longrightarrow> dn_status y = ''ACTIVE'')
         \<and> (dn_service_session_id x = sr_id r \<longrightarrow> dn_status x = ''ACTIVE'' \<longrightarrow> sr_status r' = ''OPEN'')"
  shows "floor_inv ci f'"
proof -
  have ids: "distinct (map sr_id (fl_sessions f))" "table_ok service_row_ok service_rows_collide (fl_sessions f)"
    using inv by (simp_all add: floor_inv_def)
  have sym: "service_rows_collide a b = service_rows_collide b a" for a b
    unfolding service_rows_collide_def same_slot_def by metis
  have apart: "\<not> service_rows_collide r' q \<and> \<not> service_rows_collide q r'" if "q \<in> set (fl_sessions f)" "sr_id q \<noteq> sr_id r" for q
  proof -
    have "collision_free service_rows_collide (fl_sessions f)" using ids(2) by (simp add: table_ok_def)
    moreover have "r \<noteq> q" using that(2) by auto
    ultimately have "\<not> service_rows_collide r q" by (intro collision_freeD[OF _ sym r that(1)])
    then have "\<not> service_rows_collide r' q" using r' by (auto simp: service_rows_collide_def same_slot_def)
    then show ?thesis using sym by blast
  qed
  have "table_ok service_row_ok service_rows_collide (fl_sessions f')"
    unfolding f' by (rule table_ok_modify_one[OF ids(2,1) r refl r'(2)]) (use apart in blast)
  moreover have "distinct (map sr_id (fl_sessions f'))"
  proof -
    have "map sr_id (fl_sessions f') = map sr_id (fl_sessions f)" using r'(1) by (auto simp: f' modify_def)
    with ids(1) show ?thesis by simp
  qed
  moreover have "at_open_table f' x" if x: "x \<in> set (fl_diners f')" for x
  proof -
    from diners(4) x obtain y where y: "y \<in> set (fl_diners f)" "dn_service_session_id x = dn_service_session_id y"
      "dn_tenant_id x = dn_tenant_id y" "dn_resource_id x = dn_resource_id y" "dn_status x = ''ACTIVE'' \<longrightarrow> dn_status y = ''ACTIVE''"
      "dn_service_session_id x = sr_id r \<longrightarrow> dn_status x = ''ACTIVE'' \<longrightarrow> sr_status r' = ''OPEN''" by blast
    from inv y(1) obtain q where q: "q \<in> set (fl_sessions f)" "sr_id q = dn_service_session_id y" "sr_tenant_id q = dn_tenant_id y"
      "sr_resource_id q = dn_resource_id y" "dn_status y = ''ACTIVE'' \<longrightarrow> sr_status q = ''OPEN''"
      by (auto simp: floor_inv_def at_open_table_def)
    show ?thesis
    proof (cases "sr_id q = sr_id r")
      case True
      have "q = r" by (rule same_row_if_same_id[OF ids(1) q(1) r True])
      moreover have "r' \<in> set (fl_sessions f')" unfolding f' set_modify using r by (intro bexI[of _ r]) simp
      ultimately show ?thesis using q y r' unfolding at_open_table_def by (intro bexI[of _ r']) auto
    next
      case False
      then have "q \<in> set (fl_sessions f')" unfolding f' set_modify using q(1) by (intro bexI[of _ q]) simp
      with q y show ?thesis unfolding at_open_table_def by (intro bexI[of _ q]) auto
    qed
  qed
  ultimately show ?thesis using diners by (simp add: floor_inv_def)
qed

lemma same_diners:
  assumes "floor_inv ci f" "fl_diners f' = fl_diners f" "r \<in> set (fl_sessions f)" "sr_status r' = ''OPEN'' \<or> sr_status r' = sr_status r"
  shows "distinct (map dn_id (fl_diners f'))" "list_all diner_row_ok (fl_diners f')"
    "collision_free (\<lambda>a b. diner_rows_collide ci b a) (fl_diners f')"
    "\<forall>x \<in> set (fl_diners f'). \<exists>y \<in> set (fl_diners f). dn_service_session_id x = dn_service_session_id y
         \<and> dn_tenant_id x = dn_tenant_id y \<and> dn_resource_id x = dn_resource_id y
         \<and> (dn_status x = ''ACTIVE'' \<longrightarrow> dn_status y = ''ACTIVE'')
         \<and> (dn_service_session_id x = sr_id r \<longrightarrow> dn_status x = ''ACTIVE'' \<longrightarrow> sr_status r' = ''OPEN'')"
proof -
  have open_session: "sr_status r = ''OPEN''" if x: "x \<in> set (fl_diners f)" "dn_service_session_id x = sr_id r" "dn_status x = ''ACTIVE''" for x
  proof -
    from assms(1) x obtain q where "q \<in> set (fl_sessions f)" "sr_id q = sr_id r" "sr_status q = ''OPEN''"
      by (auto simp: floor_inv_def at_open_table_def)
    with same_row_if_same_id[of sr_id "fl_sessions f" q r] assms(1,3) show ?thesis by (simp add: floor_inv_def)
  qed
  show "distinct (map dn_id (fl_diners f'))" "list_all diner_row_ok (fl_diners f')"
    "collision_free (\<lambda>a b. diner_rows_collide ci b a) (fl_diners f')" using assms(1,2) by (simp_all add: floor_inv_def)
  show "\<forall>x \<in> set (fl_diners f'). \<exists>y \<in> set (fl_diners f). dn_service_session_id x = dn_service_session_id y
         \<and> dn_tenant_id x = dn_tenant_id y \<and> dn_resource_id x = dn_resource_id y
         \<and> (dn_status x = ''ACTIVE'' \<longrightarrow> dn_status y = ''ACTIVE'')
         \<and> (dn_service_session_id x = sr_id r \<longrightarrow> dn_status x = ''ACTIVE'' \<longrightarrow> sr_status r' = ''OPEN'')"
    unfolding assms(2) using open_session assms(4) by (metis (no_types))
qed

lemma session_row_inv:
  assumes "floor_inv ci f" "r \<in> set (fl_sessions f)" "sr_id r' = sr_id r" "service_row_ok r'"
    "sr_join_context_key r' = sr_join_context_key r" "sr_resource_id r' = sr_resource_id r" "sr_tenant_id r' = sr_tenant_id r"
    "sr_open_slot r' = sr_open_slot r" "sr_status r' = sr_status r"
    "fl_sessions f' = modify sr_id (sr_id r) (\<lambda>_. r') (fl_sessions f)" "fl_diners f' = fl_diners f"
  shows "floor_inv ci f'"
proof -
  note diners = same_diners[OF assms(1,11,2), of r', unfolded assms(9), OF disjI2[OF refl]]
  show ?thesis
    by (rule session_write_inv[OF assms(1,2,3,4,5,6,7) _ assms(10)]) (use diners in \<open>simp_all add: assms(8,9)\<close>)
qed

lemma ended_diners_ok:
  assumes "floor_inv ci f"
  shows "distinct (map dn_id (modify_where P (ended_diner now) (fl_diners f)))"
    "list_all diner_row_ok (modify_where P (ended_diner now) (fl_diners f))"
    "collision_free (\<lambda>a b. diner_rows_collide ci b a) (modify_where P (ended_diner now) (fl_diners f))"
proof -
  show "distinct (map dn_id (modify_where P (ended_diner now) (fl_diners f)))"
    using assms modify_where_ids[of dn_id "ended_diner now" P] by (simp add: floor_inv_def ended_diner_def)
  have "diner_row_ok x \<Longrightarrow> diner_row_ok (ended_diner now x)" for x by (auto simp: diner_row_ok_def ended_diner_def)
  then show "list_all diner_row_ok (modify_where P (ended_diner now) (fl_diners f))"
    using assms by (auto simp: floor_inv_def list_all_iff set_modify_where)
  have weaker: "diner_rows_collide ci (if P a then ended_diner now a else a) (if P b then ended_diner now b else b)
      \<Longrightarrow> diner_rows_collide ci a b" for a b
    by (auto simp: diner_rows_collide_def ended_diner_def same_slot_def split: if_splits)
  show "collision_free (\<lambda>a b. diner_rows_collide ci b a) (modify_where P (ended_diner now) (fl_diners f))"
    unfolding modify_where_def
    by (rule collision_free_map[of "\<lambda>a b. diner_rows_collide ci b a", OF weaker]) (use assms in \<open>simp_all add: floor_inv_def\<close>)
qed

section \<open>What each operation does\<close>

lemma opened_cases:
  assumes "open_service_session digest staffed assigned key code now s tenant m i n f = Inr (r, f')"
  shows "f' = f\<lparr>fl_sessions := fl_sessions f @ [r]\<rparr>" "service_row_ok r" "sr_id r = next_id sr_id (fl_sessions f)"
    "\<not> list_ex (service_rows_collide r) (fl_sessions f)" "sr_failed_join_attempts r = 0"
    "sr_failed_window_started_at r = None" "sr_join_locked_until r = None" "sr_join_context_key r = key"
  using assms unfolding open_service_session_def
  by (auto simp: Let_def service_row_ok_def split: if_splits option.splits)

lemma opened_inv:
  assumes inv: "floor_inv ci f" and run: "open_service_session digest staffed assigned key code now s tenant m i n f = Inr (r, f')"
  shows "floor_inv ci f'"
proof -
  note o = opened_cases[OF run]
  have "sr_id r \<notin> sr_id ` set (fl_sessions f)" unfolding o(3) by (rule next_id_fresh)
  moreover have "table_ok service_row_ok service_rows_collide (fl_sessions f @ [r])"
  proof -
    have "service_rows_collide x r = service_rows_collide r x" for x
      unfolding service_rows_collide_def same_slot_def by metis
    then show ?thesis using inv o(2,4) by (auto simp: floor_inv_def table_ok_def collision_free_append list_ex_iff)
  qed
  ultimately show ?thesis using inv by (auto simp: floor_inv_def o(1) at_open_table_def)
qed

lemma resized_cases:
  assumes "update_party_size s tenant i n f = Inr (y, f')"
  obtains r where "r \<in> set (fl_sessions f)" "sr_id r = i" "sr_status r = ''OPEN''" "1 \<le> n" "n \<le> 999"
    "int (length (active_diners s i)) \<le> n" "f' = f\<lparr>fl_sessions := modify sr_id i (\<lambda>_. r\<lparr>sr_party_size := n\<rparr>) (fl_sessions f)\<rparr>"
proof -
  from assms obtain r where r: "List.find (\<lambda>x. sr_id x = i \<and> sr_tenant_id x = tenant) (fl_sessions f) = Some r"
    by (auto simp: update_party_size_def split: if_splits option.splits)
  show ?thesis by (rule that[of r])
    (use assms r find_SomeD[OF r] in \<open>auto simp: update_party_size_def Let_def split: if_splits\<close>)
qed

lemma resized_inv:
  assumes inv: "floor_inv ci f" and run: "update_party_size s tenant i n f = Inr (y, f')"
  shows "floor_inv ci f'"
  using run
proof (cases rule: resized_cases)
  case (1 r)
  have "service_row_ok (r\<lparr>sr_party_size := n\<rparr>)"
    using inv 1(1,4,5) table_okD[of service_row_ok service_rows_collide "fl_sessions f" r] by (simp add: floor_inv_def service_row_ok_def)
  then show ?thesis by (intro session_row_inv[OF inv 1(1)]) (simp_all add: 1(2,7))
qed

text \<open>A join finds its session by the key, and then refuses without a trace, counts a failure, resets the count or adds a diner.\<close>

lemma join_cases:
  assumes "join_diner digest ci casefold now s key code name email f = (y, f')"
  obtains (unseen) e where "y = Inl e" "f' = f"
  | (wrong) r where "List.find (\<lambda>r. sr_join_context_key r = key) (fl_sessions f) = Some r" "sr_status r = ''OPEN''"
      "\<not> join_locked r now" "\<not> verify_access_code digest r code" "y \<in> {Inl InvalidJoinError, Inl (JoinLockedError 300)}"
      "f' = put_session (stored_failure (record_failure r now)) f"
  | (refused) r e where "List.find (\<lambda>r. sr_join_context_key r = key) (fl_sessions f) = Some r" "sr_status r = ''OPEN''"
      "verify_access_code digest r code" "y = Inl e" "f' = put_session (reset_failures r) f"
  | (joined) r x normalized where "List.find (\<lambda>r. sr_join_context_key r = key) (fl_sessions f) = Some r" "sr_status r = ''OPEN''"
      "verify_access_code digest r code" "int (length (active_diners s (sr_id r))) < sr_party_size r" "y = Inr x"
      "joined_floor ci s now r (strip name) normalized (put_session (reset_failures r) f) = (x, f')"
      "\<not> list_ex (diner_rows_collide ci x) (fl_diners f)" "strip name \<noteq> ''''" "length (strip name) \<le> 200"
proof -
  let ?name = "strip name"
  have quiet: thesis if "\<exists>e. y = Inl e \<and> f' = f" using that unseen by blast
  show thesis
  proof (cases "?name = [] \<or> 200 < length ?name")
    case True
    with assms have "y = Inl ServiceValueError \<and> f' = f" by (auto simp: join_diner_def Let_def)
    then show ?thesis using quiet by blast
  next
    case name: False
    show ?thesis
    proof (cases "normalize_email casefold email")
      case (Inl e)
      with assms name have "y = Inl e \<and> f' = f" by (auto simp: join_diner_def Let_def)
      then show ?thesis using quiet by blast
    next
      case (Inr normalized)
      note run = assms[unfolded join_diner_def Let_def Inr sum.case if_not_P[OF name]]
      show ?thesis
      proof (cases "List.find (\<lambda>r. sr_join_context_key r = key) (fl_sessions f)")
        case None
        with run have "y = Inl InvalidJoinError \<and> f' = f" by auto
        then show ?thesis using quiet by blast
      next
        case (Some r)
        note run = run[unfolded Some option.case]
        show ?thesis
        proof (cases "sr_status r \<noteq> ''OPEN'' \<or> join_locked r now")
          case True
          with run have "\<exists>e. y = Inl e \<and> f' = f" by (auto split: if_splits)
          then show ?thesis by (rule quiet)
        next
          case False
          then have ready: "sr_status r = ''OPEN''" "\<not> join_locked r now" by simp_all
          show ?thesis
          proof (cases "verify_access_code digest r code")
            case False
            show ?thesis by (rule wrong[OF Some ready False]) (use run ready False in \<open>auto split: if_splits\<close>)
          next
            case right: True
            let ?f1 = "put_session (reset_failures r) f"
            obtain x f2 where fl: "joined_floor ci s now r ?name normalized ?f1 = (x, f2)" by fastforce
            have same: "fl_diners ?f1 = fl_diners f" by (simp add: put_session_def)
            from run ready right have "(\<exists>e. y = Inl e \<and> f' = f) \<or> (\<exists>e. y = Inl e \<and> f' = ?f1)
                \<or> int (length (active_diners s (sr_id r))) < sr_party_size r \<and> y = Inr x \<and> f' = f2
                   \<and> \<not> list_ex (diner_rows_collide ci x) (fl_diners f)"
              by (auto simp: fl same not_le split: if_splits)
            then show ?thesis
              using quiet refused[OF Some ready(1) right] joined[OF Some ready(1) right] fl name by (metis not_le)
          qed
        qed
      qed
    qed
  qed
qed

lemma put_session_fields [simp]:
  "fl_diners (put_session r f) = fl_diners f" "fl_ordering (put_session r f) = fl_ordering f"
  "fl_participants (put_session r f) = fl_participants f"
  "fl_sessions (put_session r f) = modify sr_id (sr_id r) (\<lambda>_. r) (fl_sessions f)"
  by (simp_all add: put_session_def)

lemma failure_fields [simp]:
  "sr_id (stored_failure (record_failure r t)) = sr_id r" "sr_status (stored_failure (record_failure r t)) = sr_status r"
  "sr_open_slot (stored_failure (record_failure r t)) = sr_open_slot r"
  "sr_join_context_key (stored_failure (record_failure r t)) = sr_join_context_key r"
  "sr_resource_id (stored_failure (record_failure r t)) = sr_resource_id r"
  "sr_tenant_id (stored_failure (record_failure r t)) = sr_tenant_id r"
  "service_row_ok r \<Longrightarrow> service_row_ok (stored_failure (record_failure r t))"
  by (auto simp: stored_failure_def record_failure_def Let_def service_row_ok_def)

lemma reset_fields [simp]:
  "sr_id (reset_failures r) = sr_id r" "sr_status (reset_failures r) = sr_status r"
  "sr_open_slot (reset_failures r) = sr_open_slot r" "sr_party_size (reset_failures r) = sr_party_size r"
  "sr_join_context_key (reset_failures r) = sr_join_context_key r" "sr_resource_id (reset_failures r) = sr_resource_id r"
  "sr_tenant_id (reset_failures r) = sr_tenant_id r" "service_row_ok r \<Longrightarrow> service_row_ok (reset_failures r)"
  by (auto simp: reset_failures_def service_row_ok_def)

lemma session_okD: "floor_inv ci f \<Longrightarrow> r \<in> set (fl_sessions f) \<Longrightarrow> service_row_ok r"
  by (auto simp: floor_inv_def dest: table_okD)

lemma joined_floor_fields:
  assumes "joined_floor ci s now r name email f = (x, f')"
  shows "fl_sessions f' = fl_sessions f" "fl_diners f' = fl_diners f @ [x]" "dn_id x = next_id dn_id (fl_diners f)"
    "dn_service_session_id x = sr_id r" "dn_tenant_id x = sr_tenant_id r" "dn_resource_id x = sr_resource_id r"
    "dn_status x = ''ACTIVE''" "dn_active_slot x = Some 1" "dn_ended_at x = None" "dn_display_name x = name"
    "og_drafts (fl_ordering f') = og_drafts (fl_ordering f)"
  using assms by (auto simp: joined_floor_def Let_def)

lemma joined_inv:
  assumes inv: "floor_inv ci f" and run: "join_diner digest ci casefold now s key code name email f = (y, f')"
  shows "floor_inv ci f'"
  using run
proof (cases rule: join_cases)
  case unseen
  with inv show ?thesis by simp
next
  case (wrong r)
  have r: "r \<in> set (fl_sessions f)" using find_SomeD[OF wrong(1)] by simp
  show ?thesis unfolding wrong(6)
    by (rule session_row_inv[OF inv r]) (simp_all add: session_okD[OF inv r])
next
  case (refused r)
  have r: "r \<in> set (fl_sessions f)" using find_SomeD[OF refused(1)] by simp
  show ?thesis unfolding refused(5)
    by (rule session_row_inv[OF inv r]) (simp_all add: session_okD[OF inv r])
next
  case (joined r x normalized)
  have r: "r \<in> set (fl_sessions f)" using find_SomeD[OF joined(1)] by simp
  let ?g = "put_session (reset_failures r) f"
  have g: "floor_inv ci ?g" by (rule session_row_inv[OF inv r]) (simp_all add: session_okD[OF inv r])
  note x = joined_floor_fields[OF joined(6)]
  have "dn_id x \<notin> dn_id ` set (fl_diners f)" unfolding x(3) by (simp add: next_id_fresh)
  moreover have "collision_free (\<lambda>a b. diner_rows_collide ci b a) (fl_diners f @ [x])"
    using g joined(7) by (auto simp: floor_inv_def collision_free_append list_ex_iff)
  moreover have "diner_row_ok x" using x(7-10) joined(8,9) by (simp add: diner_row_ok_def)
  moreover have "at_open_table f' x"
    unfolding at_open_table_def x(1) put_session_fields(4)
    using r joined(2) by (intro bexI[of _ "reset_failures r"]) (auto simp: set_modify x intro: bexI[of _ r])
  moreover have "at_open_table f' y" if "y \<in> set (fl_diners f)" for y
    using g that by (auto simp: floor_inv_def at_open_table_def x(1))
  ultimately show ?thesis using g by (auto simp: floor_inv_def x(1,2))
qed

lemma end_cases:
  assumes "end_diner_session t now tenant i j f = Inr (y, f')"
  obtains r x core where "r \<in> set (fl_sessions f)" "sr_id r = i" "sr_tenant_id r = tenant" "sr_status r = ''OPEN''"
    "x \<in> set (fl_diners f)" "dn_id x = j" "dn_service_session_id x = i" "dn_tenant_id x = tenant" "dn_status x = ''ACTIVE''"
    "assert_diner_can_end (core_of f) t tenant j = Inr core" "y = ended_diner now x"
    "fl_sessions f' = fl_sessions f" "fl_diners f' = modify dn_id j (\<lambda>_. ended_diner now x) (fl_diners f)"
    "fl_ordering f' = (let d = abandon_draft_of tenant now (dn_conversation_id x) (fl_ordering (with_core core f))
      in d\<lparr>og_conversations := modify_where (\<lambda>c. cn_id c = dn_conversation_id x \<and> cn_tenant_id c = tenant) close_conversation
           (og_conversations d)\<rparr>)"
proof -
  from assms obtain r where r: "List.find (\<lambda>x. sr_id x = i \<and> sr_tenant_id x = tenant) (fl_sessions f) = Some r"
    by (auto simp: end_diner_session_def split: if_splits option.splits)
  with assms obtain x where x: "List.find (\<lambda>x. dn_id x = j \<and> dn_service_session_id x = sr_id r \<and> dn_tenant_id x = tenant) (fl_diners f) = Some x"
    by (auto simp: end_diner_session_def split: if_splits option.splits)
  show ?thesis
    using assms find_SomeD[OF r] find_SomeD[OF x] unfolding end_diner_session_def r option.case x
    by (auto simp: Let_def split: if_splits sum.splits intro!: that[of r x])
qed

lemma ended_inv:
  assumes inv: "floor_inv ci f" and run: "end_diner_session t now tenant i j f = Inr (y, f')"
  shows "floor_inv ci f'"
  using run
proof (cases rule: end_cases)
  case (1 r x core)
  have ids: "distinct (map dn_id (fl_diners f))" using inv by (simp add: floor_inv_def)
  have f': "fl_diners f' = modify_where (\<lambda>y. dn_id y = dn_id x) (ended_diner now) (fl_diners f)"
    unfolding 1(13) using modify_as_where[OF ids 1(5), of "ended_diner now"] 1(6) by simp
  have "at_open_table f' y" if y: "y \<in> set (fl_diners f')" for y
  proof -
    from y obtain z where "z \<in> set (fl_diners f)" "y = (if dn_id z = dn_id x then ended_diner now z else z)"
      unfolding f' set_modify_where by blast
    with inv show ?thesis by (auto simp: floor_inv_def at_open_table_def 1(12) ended_diner_def)
  qed
  then show ?thesis using inv ended_diners_ok[OF inv, of "\<lambda>y. dn_id y = dn_id x" now] by (simp add: floor_inv_def 1(12) f')
qed

lemma close_group_fields [simp]:
  "fl_sessions (close_group_for_service_session r m t f) = fl_sessions f"
  "fl_diners (close_group_for_service_session r m t f) = fl_diners f"
  "fl_ordering (close_group_for_service_session r m t f) = fl_ordering f"
  "core_of (close_group_for_service_session r m t f) = core_of f"
  by (simp_all add: close_group_for_service_session_def core_of_def split: option.split)

lemma close_cases:
  assumes "close_service_session t now u s tenant m i f = Inr (y, f')"
  obtains r balance core where "r \<in> set (fl_sessions f)" "sr_id r = i" "sr_tenant_id r = tenant" "sr_status r = ''OPEN''"
    "assert_service_can_close (core_of f) t tenant i = Inr (balance, core)" "y = closed_session m now r"
    "fl_sessions f' = modify sr_id i (\<lambda>_. closed_session m now r) (fl_sessions f)"
    "fl_diners f' = modify_where (\<lambda>x. dn_service_session_id x = i \<and> dn_active_slot x = Some 1) (ended_diner now) (fl_diners f)"
    "fl_ordering f' = (let of_diner = (\<lambda>c. cn_id c \<in> dn_conversation_id ` set (active_diners f i) \<and> cn_tenant_id c = tenant);
        d = foldl (\<lambda>d c. abandon_draft_of tenant now (cn_id c) d) (fl_ordering (with_core core f))
          (order_by cn_id (filter of_diner (og_conversations (fl_ordering f))))
      in d\<lparr>og_conversations := modify_where of_diner close_conversation (og_conversations d)\<rparr>)"
proof -
  from assms obtain k where k: "List.find (\<lambda>x. sr_id x = i \<and> sr_tenant_id x = tenant) (fl_sessions s) = Some k"
    by (auto simp: close_service_session_def split: if_splits option.splits)
  with assms obtain r where r: "List.find (\<lambda>x. sr_id x = i \<and> sr_tenant_id x = tenant \<and> sr_resource_id x = sr_resource_id k) (fl_sessions f) = Some r"
    by (auto simp: close_service_session_def split: if_splits option.splits)
  show ?thesis
    using assms find_SomeD[OF r]
    by (auto simp: close_service_session_def k r Let_def split: if_splits sum.splits intro!: that[of r])
qed

lemma closed_inv:
  assumes inv: "floor_inv ci f" and run: "close_service_session t now u s tenant m i f = Inr (y, f')"
  shows "floor_inv ci f'"
  using run
proof (cases rule: close_cases)
  case (1 r balance core)
  let ?P = "\<lambda>x. dn_service_session_id x = i \<and> dn_active_slot x = Some 1"
  have "service_row_ok (closed_session m now r)"
    using session_okD[OF inv 1(1)] by (auto simp: service_row_ok_def closed_session_def reset_failures_def)
  moreover have "\<exists>z \<in> set (fl_diners f). dn_service_session_id x = dn_service_session_id z
         \<and> dn_tenant_id x = dn_tenant_id z \<and> dn_resource_id x = dn_resource_id z
         \<and> (dn_status x = ''ACTIVE'' \<longrightarrow> dn_status z = ''ACTIVE'')
         \<and> (dn_service_session_id x = sr_id r \<longrightarrow> dn_status x = ''ACTIVE'' \<longrightarrow> sr_status (closed_session m now r) = ''OPEN'')"
    if x: "x \<in> set (fl_diners f')" for x
  proof -
    from x obtain z where z: "z \<in> set (fl_diners f)" "x = (if ?P z then ended_diner now z else z)"
      unfolding 1(8) set_modify_where by blast
    moreover have "diner_row_ok z" using inv z(1) by (simp add: floor_inv_def list_all_iff)
    ultimately show ?thesis using 1(2) by (intro bexI[OF _ z(1)]) (auto simp: ended_diner_def diner_row_ok_def)
  qed
  ultimately show ?thesis
    using ended_diners_ok[OF inv, of ?P now] 1(2,7,8)
    by (intro session_write_inv[OF inv 1(1), of "closed_session m now r"]) (auto simp: closed_session_def)
qed

lemma floor_op_inv:
  assumes "floor_op digest ci casefold s f f'" "floor_inv ci f"
  shows "floor_inv ci f'"
  using assms(1)
proof cases
  case opened
  then show ?thesis by (rule opened_inv[OF assms(2)])
next
  case resized
  then show ?thesis by (rule resized_inv[OF assms(2)])
next
  case joined
  then show ?thesis by (rule joined_inv[OF assms(2)])
next
  case ended
  then show ?thesis by (rule ended_inv[OF assms(2)])
next
  case closed
  then show ?thesis by (rule closed_inv[OF assms(2)])
next
  case elsewhere
  with assms(2) show ?thesis by (simp add: floor_inv_def at_open_table_def)
qed

definition floors_inv :: "(string \<Rightarrow> string \<Rightarrow> bool) \<Rightarrow> floor list \<Rightarrow> bool" where
  "floors_inv ci h \<longleftrightarrow> h \<noteq> [] \<and> (\<forall>f \<in> set h. floor_inv ci f)"

lemma floor_step_inv: "floors_inv ci h \<Longrightarrow> floor_step digest ci casefold h h' \<Longrightarrow> floors_inv ci h'"
  by (erule floor_step.cases) (auto simp: floors_inv_def dest: floor_op_inv)

lemma empty_floor_inv: "empty_floor h \<Longrightarrow> floors_inv ci h"
  by (auto simp: empty_floor_def floors_inv_def floor_inv_def table_ok_def)

interpretation floor_run: step_invariant empty_floor "floor_step digest ci casefold" "floors_inv ci" for digest ci casefold
  by unfold_locales (rule empty_floor_inv, assumption, rule floor_step_inv)

end
