(* ===== verification/ServiceOutcomes.thy ===== *)
theory ServiceOutcomes
  imports ServiceProofs
begin

text \<open>What the tables of a restaurant promise to the party, to the house and to who tries to guess a code.\<close>

section \<open>One party at a table\<close>

text \<open>C15: In every run a table serves one party: it has at most one open session, a diner belongs to a session of
  its table, which is open as long as the diner is active, two active diners of a session have different
  emails, and no two diners share a conversation. The comparison of emails only has to hold between equal
  emails.\<close>

theorem tables_serve_one_party:
  assumes "empty_floor h0" "(floor_step digest ci casefold)\<^sup>*\<^sup>* h0 h" "\<And>a. ci a a"
  shows "let f = hd h in
    (\<forall>r \<in> set (fl_sessions f). \<forall>q \<in> set (fl_sessions f).
        sr_status r = ''OPEN'' \<and> sr_status q = ''OPEN'' \<and> sr_resource_id r = sr_resource_id q \<longrightarrow> r = q)
    \<and> (\<forall>x \<in> set (fl_diners f). \<exists>r \<in> set (fl_sessions f). sr_id r = dn_service_session_id x \<and> sr_tenant_id r = dn_tenant_id x
        \<and> sr_resource_id r = dn_resource_id x \<and> (dn_status x = ''ACTIVE'' \<longrightarrow> sr_status r = ''OPEN''))
    \<and> (\<forall>x \<in> set (fl_diners f). \<forall>y \<in> set (fl_diners f). dn_conversation_id x = dn_conversation_id y
        \<or> dn_service_session_id x = dn_service_session_id y \<and> dn_status x = ''ACTIVE'' \<and> dn_status y = ''ACTIVE''
          \<and> dn_normalized_email x = dn_normalized_email y \<and> dn_normalized_email x \<noteq> None \<longrightarrow> x = y)"
proof -
  define f where "f = hd h"
  have "floors_inv ci h" by (rule floor_run.inv_reachable[OF assms(1,2)])
  then have inv: "floor_inv ci f" by (simp add: floors_inv_def f_def)
  have "r = q" if "r \<in> set (fl_sessions f)" "q \<in> set (fl_sessions f)" "sr_status r = ''OPEN''" "sr_status q = ''OPEN''"
    "sr_resource_id r = sr_resource_id q" for r q
  proof (rule ccontr)
    assume "r \<noteq> q"
    have sym: "service_rows_collide a b = service_rows_collide b a" for a b
      unfolding service_rows_collide_def same_slot_def by metis
    have "collision_free service_rows_collide (fl_sessions f)" using inv by (simp add: floor_inv_def table_ok_def)
    from collision_freeD[OF this sym that(1,2) \<open>r \<noteq> q\<close>] have "\<not> same_slot (sr_open_slot r) (sr_open_slot q)"
      using that(5) by (simp add: service_rows_collide_def)
    moreover have "sr_open_slot r = Some 1" "sr_open_slot q = Some 1"
      using session_okD[OF inv that(1)] session_okD[OF inv that(2)] that(3,4) by (simp_all add: service_row_ok_def)
    ultimately show False by (simp add: same_slot_def)
  qed
  then have sessions: "\<forall>r \<in> set (fl_sessions f). \<forall>q \<in> set (fl_sessions f).
        sr_status r = ''OPEN'' \<and> sr_status q = ''OPEN'' \<and> sr_resource_id r = sr_resource_id q \<longrightarrow> r = q" by blast
  have tables: "\<forall>x \<in> set (fl_diners f). \<exists>r \<in> set (fl_sessions f). sr_id r = dn_service_session_id x \<and> sr_tenant_id r = dn_tenant_id x
        \<and> sr_resource_id r = dn_resource_id x \<and> (dn_status x = ''ACTIVE'' \<longrightarrow> sr_status r = ''OPEN'')"
    using inv by (simp add: floor_inv_def at_open_table_def)
  have diners: "x = y" if xy: "x \<in> set (fl_diners f)" "y \<in> set (fl_diners f)"
    "dn_conversation_id x = dn_conversation_id y
        \<or> dn_service_session_id x = dn_service_session_id y \<and> dn_status x = ''ACTIVE'' \<and> dn_status y = ''ACTIVE''
          \<and> dn_normalized_email x = dn_normalized_email y \<and> dn_normalized_email x \<noteq> None" for x y
  proof (rule ccontr)
    assume "x \<noteq> y"
    have "collision_free (\<lambda>a b. diner_rows_collide ci b a) (fl_diners f)" using inv by (simp add: floor_inv_def)
    from collision_free_either[OF this xy(1,2) \<open>x \<noteq> y\<close>]
    have apart: "\<not> diner_rows_collide ci x y \<or> \<not> diner_rows_collide ci y x" by blast
    have "diner_row_ok x" "diner_row_ok y" using inv xy(1,2) by (simp_all add: floor_inv_def list_all_iff)
    then have slots: "dn_status x = ''ACTIVE'' \<Longrightarrow> dn_active_slot x = Some 1" "dn_status y = ''ACTIVE'' \<Longrightarrow> dn_active_slot y = Some 1"
      by (simp_all add: diner_row_ok_def)
    have "diner_rows_collide ci x y \<and> diner_rows_collide ci y x"
      using xy(3)
    proof
      assume "dn_service_session_id x = dn_service_session_id y \<and> dn_status x = ''ACTIVE'' \<and> dn_status y = ''ACTIVE''
          \<and> dn_normalized_email x = dn_normalized_email y \<and> dn_normalized_email x \<noteq> None"
      moreover from this obtain e where "dn_normalized_email x = Some e" "dn_normalized_email y = Some e" by (metis not_None_eq)
      ultimately show ?thesis
        using slots assms(3)[of e] by (simp add: diner_rows_collide_def same_slot_def same_email_def)
    qed (simp add: diner_rows_collide_def)
    with apart show False by blast
  qed
  then have "\<forall>x \<in> set (fl_diners f). \<forall>y \<in> set (fl_diners f). dn_conversation_id x = dn_conversation_id y
        \<or> dn_service_session_id x = dn_service_session_id y \<and> dn_status x = ''ACTIVE'' \<and> dn_status y = ''ACTIVE''
          \<and> dn_normalized_email x = dn_normalized_email y \<and> dn_normalized_email x \<noteq> None \<longrightarrow> x = y"
    by (intro ballI impI) (rule diners)
  then show ?thesis unfolding Let_def f_def[symmetric] by (intro conjI sessions tables)
qed

section \<open>Guessing the access code\<close>

definition failures :: "service_row \<Rightarrow> int \<times> datetime option \<times> datetime option" where
  "failures r = (sr_failed_join_attempts r, sr_failed_window_started_at r, sr_join_locked_until r)"

text \<open>
  The instants at which a wrong code was tried on the session with the key, the last one first; in between
  nothing touched its count of failures.
\<close>

inductive guesses ::
  "(string \<Rightarrow> int \<Rightarrow> string \<Rightarrow> string) \<Rightarrow> (string \<Rightarrow> string \<Rightarrow> bool) \<Rightarrow> (string \<Rightarrow> string) \<Rightarrow> string \<Rightarrow> floor \<Rightarrow> datetime list \<Rightarrow> floor \<Rightarrow> bool"
  for digest ci casefold key f
where
  none: "guesses digest ci casefold key f [] f"
| meanwhile: "guesses digest ci casefold key f ts g
    \<Longrightarrow> map_option failures (List.find (\<lambda>r. sr_join_context_key r = key) (fl_sessions g'))
      = map_option failures (List.find (\<lambda>r. sr_join_context_key r = key) (fl_sessions g))
    \<Longrightarrow> guesses digest ci casefold key f ts g'"
| wrong: "guesses digest ci casefold key f ts g
    \<Longrightarrow> List.find (\<lambda>r. sr_join_context_key r = key) (fl_sessions g) = Some r \<Longrightarrow> sr_status r = ''OPEN''
    \<Longrightarrow> \<not> join_locked r now \<Longrightarrow> \<not> verify_access_code digest r code
    \<Longrightarrow> strip name \<noteq> [] \<Longrightarrow> length (strip name) \<le> 200 \<Longrightarrow> normalize_email casefold email = Inr normalized
    \<Longrightarrow> join_diner digest ci casefold now s key code name email g = (y, g')
    \<Longrightarrow> guesses digest ci casefold key f (now # ts) g'"

text \<open>Windows of failures start \<^theory_text>\<open>WINDOW_GAP\<close> apart: five minutes, less what a stored instant may be late.\<close>

abbreviation WINDOW_GAP :: int where "WINDOW_GAP \<equiv> 299500000"

definition tracked :: "datetime list \<Rightarrow> int \<times> datetime option \<times> datetime option \<Rightarrow> bool" where
  "tracked ts x \<longleftrightarrow> (case x of (c, w, l) \<Rightarrow>
     if ts = [] then x = (0, None, None)
     else \<exists>k S. 0 \<le> k \<and> w = Some (stored_seconds S) \<and> S \<le> hd ts \<and> last ts + k * WINDOW_GAP \<le> S
        \<and> int (length ts) \<le> 5 * k + c \<and> 1 \<le> c \<and> c \<le> 5
        \<and> (c = 5 \<longrightarrow> (\<exists>L. l = Some L \<and> stored_seconds S + LOCKOUT \<le> L)))"

lemma stored_seconds_bounds: "t - 499999 \<le> stored_seconds t" "stored_seconds t \<le> t + 500000"
proof -
  have "(t + 500000) div 1000000 * 1000000 + (t + 500000) mod 1000000 = t + 500000" by (rule div_mult_mod_eq)
  moreover have "0 \<le> (t + 500000) mod 1000000" "(t + 500000) mod 1000000 < 1000000" by simp_all
  ultimately show "t - 499999 \<le> stored_seconds t" "stored_seconds t \<le> t + 500000"
    unfolding stored_seconds_def by linarith+
qed

lemma stored_lockout: "stored_seconds (t + LOCKOUT) = stored_seconds t + LOCKOUT"
proof -
  have "t + LOCKOUT + 500000 = t + 500000 + 300 * 1000000" by (simp add: LOCKOUT_def)
  then have "(t + LOCKOUT + 500000) div 1000000 = (t + 500000) div 1000000 + 300" by (simp only: div_mult_self1)
  then show ?thesis by (simp add: stored_seconds_def LOCKOUT_def)
qed

lemma failure_tracked:
  assumes "tracked ts (failures r)" "\<not> join_locked r now" "ts \<noteq> [] \<Longrightarrow> hd ts \<le> now"
  shows "tracked (now # ts) (failures (stored_failure (record_failure r now)))"
proof (cases "ts = []")
  case True
  with assms(1) have "failures r = (0, None, None)" by (simp add: tracked_def)
  then have "failures (stored_failure (record_failure r now)) = (1, Some (stored_seconds now), None)"
    by (auto simp: failures_def record_failure_def stored_failure_def Let_def)
  moreover have "\<exists>k S. 0 \<le> k \<and> stored_seconds now = stored_seconds S \<and> S \<le> now \<and> now + k * WINDOW_GAP \<le> S \<and> 1 \<le> 5 * k + (1::int)"
    by (intro exI[of _ "0::int"] exI[of _ now]) simp
  ultimately show ?thesis using True by (simp add: tracked_def)
next
  case False
  obtain c w l where r: "failures r = (c, w, l)" by (cases "failures r")
  then have fields: "sr_failed_join_attempts r = c" "sr_failed_window_started_at r = w" "sr_join_locked_until r = l"
    by (simp_all add: failures_def)
  from assms(1) False obtain k S where k: "0 \<le> k" "w = Some (stored_seconds S)" "S \<le> hd ts" "last ts + k * WINDOW_GAP \<le> S"
    "int (length ts) \<le> 5 * k + c" "1 \<le> c" "c \<le> 5" and lock: "c = 5 \<longrightarrow> (\<exists>L. l = Some L \<and> stored_seconds S + LOCKOUT \<le> L)"
    unfolding tracked_def r by auto
  have now: "hd ts \<le> now" using assms(3) False by blast
  show ?thesis
  proof (cases "FAILURE_WINDOW \<le> now - stored_seconds S")
    case True
    then have "failures (stored_failure (record_failure r now)) = (1, Some (stored_seconds now), map_option stored_seconds l)"
      by (simp add: failures_def record_failure_def stored_failure_def fields k(2) Let_def)
    moreover have "last ts + (k + 1) * WINDOW_GAP \<le> now"
      using True k(4) stored_seconds_bounds(1)[of S] by (simp add: FAILURE_WINDOW_def algebra_simps)
    moreover have "\<exists>k S. 0 \<le> k \<and> stored_seconds now = stored_seconds S \<and> S \<le> now \<and> last ts + k * WINDOW_GAP \<le> S
        \<and> int (length ts) \<le> 5 * (k::int)"
      using k(1,5,7) calculation(2) by (intro exI[of _ "k + 1"] exI[of _ now]) simp
    ultimately show ?thesis using False by (simp add: tracked_def)
  next
    case window: False
    have "c \<noteq> 5"
    proof
      assume "c = 5"
      with lock obtain L where "l = Some L" "stored_seconds S + LOCKOUT \<le> L" by blast
      with assms(2) window show False by (simp add: join_locked_def fields FAILURE_WINDOW_def LOCKOUT_def)
    qed
    then have c: "c + 1 \<le> 5" using k(7) by simp
    from window have f: "failures (stored_failure (record_failure r now)) = (c + 1, Some (stored_seconds S),
        if c + 1 = 5 then Some (stored_seconds (now + LOCKOUT)) else map_option stored_seconds l)"
      using c by (auto simp: failures_def record_failure_def stored_failure_def fields k(2) Let_def)
    have "stored_seconds S + LOCKOUT \<le> stored_seconds (now + LOCKOUT)"
      unfolding stored_lockout using k(3) now stored_seconds_mono[of S now] by simp
    moreover have "\<exists>j T. 0 \<le> j \<and> stored_seconds S = stored_seconds T \<and> T \<le> now \<and> last ts + j * WINDOW_GAP \<le> T
        \<and> int (length (now # ts)) \<le> 5 * j + (c + 1) \<and> 1 \<le> c + 1 \<and> c + 1 \<le> 5
        \<and> (c + 1 = 5 \<longrightarrow> stored_seconds T + LOCKOUT \<le> stored_seconds (now + LOCKOUT))"
      using k c now calculation by (intro exI[of _ k] exI[of _ S]) simp
    ultimately show ?thesis unfolding f using False k(2) by (auto simp: tracked_def)
  qed
qed

lemma wrong_join:
  assumes "List.find (\<lambda>r. sr_join_context_key r = key) (fl_sessions g) = Some r" "sr_status r = ''OPEN''"
    "\<not> join_locked r now" "\<not> verify_access_code digest r code" "strip name \<noteq> []" "length (strip name) \<le> 200"
    "normalize_email casefold email = Inr normalized" "join_diner digest ci casefold now s key code name email g = (y, g')"
  shows "List.find (\<lambda>r. sr_join_context_key r = key) (fl_sessions g') = Some (stored_failure (record_failure r now))"
proof -
  have "g' = put_session (stored_failure (record_failure r now)) g" using assms by (simp add: join_diner_def Let_def)
  then show ?thesis using find_modified[OF assms(1), of "stored_failure (record_failure r now)" sr_id] find_SomeD[OF assms(1)]
    by simp
qed

lemma guesses_tracked:
  assumes "guesses digest ci casefold key f ts g" "sorted (rev ts)"
    and "map_option failures (List.find (\<lambda>r. sr_join_context_key r = key) (fl_sessions f)) = Some (0, None, None)"
  shows "\<exists>x. map_option failures (List.find (\<lambda>r. sr_join_context_key r = key) (fl_sessions g)) = Some x \<and> tracked ts x"
  using assms(1,2)
proof induction
  case none
  with assms(3) show ?case by (simp add: tracked_def)
next
  case (meanwhile ts g g')
  then show ?case by simp
next
  case (wrong ts g r now code name email normalized s y g')
  from wrong.IH wrong.prems wrong.hyps(2) have "tracked ts (failures r)" by (simp add: sorted_append)
  moreover have "ts \<noteq> [] \<Longrightarrow> hd ts \<le> now" using wrong.prems by (auto simp: sorted_append)
  ultimately have "tracked (now # ts) (failures (stored_failure (record_failure r now)))"
    using failure_tracked wrong.hyps(4) by blast
  with wrong_join[OF wrong.hyps(2-9)] show ?case by simp
qed


section \<open>Leaving\<close>

text \<open>A diner who left, or whose table is closed, as the others see it; \<^theory_text>\<open>held\<close> are the objects that a session
  of the database already has.\<close>

definition gone :: "(int \<Rightarrow> diner_session option) \<Rightarrow> int \<Rightarrow> floor \<Rightarrow> bool" where
  "gone held i f \<longleftrightarrow> (\<exists>x \<in> set (fl_diners f). dn_id x = i \<and> (dn_status x = ''ENDED'' \<and> held i = None
     \<or> (\<exists>r \<in> set (fl_sessions f). sr_id r = dn_service_session_id x \<and> sr_status r = ''CLOSED'')))"

definition lasting :: "floor \<Rightarrow> floor \<Rightarrow> bool" where
  "lasting f f' \<longleftrightarrow> (\<forall>x \<in> set (fl_diners f). \<exists>y \<in> set (fl_diners f'). dn_id y = dn_id x
       \<and> dn_service_session_id y = dn_service_session_id x \<and> (dn_status x = ''ENDED'' \<longrightarrow> dn_status y = ''ENDED''))
     \<and> (\<forall>r \<in> set (fl_sessions f). sr_status r = ''CLOSED'' \<longrightarrow> r \<in> set (fl_sessions f'))"

lemma lasting_gone: "lasting f f' \<Longrightarrow> gone held i f \<Longrightarrow> gone held i f'"
  unfolding lasting_def gone_def by metis

lemma open_session_written:
  assumes "floor_inv ci f" "r \<in> set (fl_sessions f)" "sr_status r = ''OPEN''" "q \<in> set (fl_sessions f)" "sr_status q = ''CLOSED''"
  shows "q \<in> set (modify sr_id (sr_id r) g (fl_sessions f))"
proof -
  have "sr_id q \<noteq> sr_id r" using same_row_if_same_id[of sr_id "fl_sessions f" q r] assms by (auto simp: floor_inv_def)
  then show ?thesis unfolding set_modify using assms(4) by (intro bexI[of _ q]) simp_all
qed

lemma ended_in: "x \<in> set rows \<Longrightarrow> \<exists>y \<in> set (modify_where P (ended_diner now) rows). dn_id y = dn_id x
    \<and> dn_service_session_id y = dn_service_session_id x \<and> (dn_status x = ''ENDED'' \<longrightarrow> dn_status y = ''ENDED'')"
  unfolding modify_where_def by (intro bexI[of _ "if P x then ended_diner now x else x"]) (auto simp: ended_diner_def)

lemma floor_op_lasting:
  assumes "floor_op digest ci casefold s f f'" "floor_inv ci f"
  shows "lasting f f'"
  using assms(1)
proof cases
  case opened
  show ?thesis unfolding opened_cases(1)[OF opened] by (auto simp: lasting_def)
next
  case (resized tenant i n y)
  then show ?thesis
    by (cases rule: resized_cases) (auto simp: lasting_def open_session_written[OF assms(2)])
next
  case (joined now key code name email y)
  have found: "r \<in> set (fl_sessions f)" if "List.find P (fl_sessions f) = Some r" for P r using find_SomeD[OF that] by simp
  from joined show ?thesis
  proof (cases rule: join_cases)
    case unseen
    then show ?thesis by (auto simp: lasting_def)
  next
    case (wrong r)
    then show ?thesis using open_session_written[OF assms(2) found[OF wrong(1)] wrong(2)] by (auto simp: lasting_def)
  next
    case (refused r)
    then show ?thesis using open_session_written[OF assms(2) found[OF refused(1)] refused(2)] by (auto simp: lasting_def)
  next
    case (joined r x normalized)
    note x = joined_floor_fields[OF joined(6)]
    show ?thesis using open_session_written[OF assms(2) found[OF joined(1)] joined(2)] by (auto simp: lasting_def x(1,2))
  qed
next
  case (ended t now tenant i j y)
  then show ?thesis
  proof (cases rule: end_cases)
    case (1 r x core)
    have "distinct (map dn_id (fl_diners f))" using assms(2) by (simp add: floor_inv_def)
    then have "fl_diners f' = modify_where (\<lambda>y. dn_id y = dn_id x) (ended_diner now) (fl_diners f)"
      unfolding 1(13) using modify_as_where[OF _ 1(5), of dn_id "ended_diner now"] 1(6) by simp
    with 1(12) show ?thesis by (simp add: lasting_def ended_in)
  qed
next
  case (closed t now u tenant m i y)
  then show ?thesis
  proof (cases rule: close_cases)
    case (1 r balance core)
    show ?thesis unfolding lasting_def 1(7,8) using ended_in open_session_written[OF assms(2) 1(1,4)] 1(2) by blast
  qed
next
  case elsewhere
  then show ?thesis by (auto simp: lasting_def)
qed

lemma floor_run_gone:
  assumes "(floor_step digest ci casefold)\<^sup>*\<^sup>* h h'" "floors_inv ci h" "gone held i (hd h)"
  shows "gone held i (hd h') \<and> floors_inv ci h'"
  using assms
proof induction
  case (step h' h'')
  from step.hyps(2) show ?case
  proof cases
    case (1 s f past f')
    with step.IH[OF step.prems] have "floor_inv ci f" "gone held i f" by (simp_all add: floors_inv_def)
    with 1 floor_op_lasting lasting_gone floor_step_inv[OF _ step.hyps(2)] step.IH[OF step.prems] show ?thesis by (metis list.sel(1))
  qed
qed simp

lemma gone_refused:
  assumes inv: "floor_inv ci f" and gone: "gone held i f"
  shows "\<exists>e. lock_diner_write_context held s (ordering_of f) tenant i c = Inl e"
proof (rule ccontr)
  let ?d = "ordering_of f"
  assume "\<nexists>e. lock_diner_write_context held s ?d tenant i c = Inl e"
  then obtain z where run: "lock_diner_write_context held s ?d tenant i c = Inr z"
    by (cases "lock_diner_write_context held s ?d tenant i c") auto
  then obtain k where k: "List.find (\<lambda>x. ds_id x = i \<and> ds_tenant_id x = tenant
      \<and> ds_conversation_id x = c) (diner_sessions (og_core s)) = Some k"
    unfolding lock_diner_write_context_def by (auto split: option.split_asm)
  note run = run[unfolded lock_diner_write_context_def k option.case Let_def]
  from run obtain session row where
    session: "List.find (\<lambda>x. ss_id x = ds_service_session_id k \<and> ss_tenant_id x = tenant) (service_sessions (og_core ?d)) = Some session"
    and row: "List.find (\<lambda>x. ds_id x = i \<and> ds_tenant_id x = tenant
        \<and> ds_service_session_id x = ds_service_session_id k \<and> ds_conversation_id x = c) (diner_sessions (og_core ?d)) = Some row"
    and ok: "ss_status session = ''OPEN''" "ds_status (diner_as_held held row) = ''ACTIVE''"
    by (auto split: option.split_asm if_split_asm)
  from gone obtain x where x: "x \<in> set (fl_diners f)" "dn_id x = i" and why: "dn_status x = ''ENDED'' \<and> held i = None
     \<or> (\<exists>r \<in> set (fl_sessions f). sr_id r = dn_service_session_id x \<and> sr_status r = ''CLOSED'')"
    unfolding gone_def by blast
  from find_SomeD[OF row] obtain y where y: "y \<in> set (fl_diners f)" "row = diner_view y" "dn_id y = i"
    "dn_service_session_id y = ds_service_session_id k"
    by (auto simp: ordering_of_def core_of_def diner_view_def)
  have "y = x" using same_row_if_same_id[of dn_id "fl_diners f" y x] inv x y by (simp add: floor_inv_def)
  from find_SomeD[OF session] obtain q where q: "q \<in> set (fl_sessions f)" "session = session_view q" "sr_id q = ds_service_session_id k"
    by (auto simp: ordering_of_def core_of_def session_view_def)
  from why show False
  proof
    assume "dn_status x = ''ENDED'' \<and> held i = None"
    with ok(2) y \<open>y = x\<close> show False by (simp add: diner_as_held_def diner_view_def)
  next
    assume "\<exists>r \<in> set (fl_sessions f). sr_id r = dn_service_session_id x \<and> sr_status r = ''CLOSED''"
    then obtain r where r: "r \<in> set (fl_sessions f)" "sr_id r = dn_service_session_id x" "sr_status r = ''CLOSED''" by blast
    have "r = q" using same_row_if_same_id[of sr_id "fl_sessions f" r q] inv r q y(4) \<open>y = x\<close> by (simp add: floor_inv_def)
    with ok(1) r(3) q(2) show False by (simp add: session_view_def)
  qed
qed

text \<open>C14: Who left the table orders no more: once a diner's session ended, or the table was closed, in whatever is
  done afterwards every confirmation and every item of the diner is refused, also with a snapshot of before
  and, when the table is closed, with an object of the diner that was read before.\<close>

theorem who_left_orders_no_more:
  assumes "empty_floor h0" "(floor_step digest ci casefold)\<^sup>*\<^sup>* h0 h" "gone held i (hd h)"
    and "(floor_step digest ci casefold)\<^sup>*\<^sup>* h h'"
  shows "(\<exists>e. confirm_current_order facts sha same completes held s t0 t tenant i c v fp key (ordering_of (hd h')) = Inl e)
    \<and> (\<exists>e. add_item held s tenant draft product_id q v (Some i) owned (ordering_of (hd h')) = Inl e)"
proof -
  have "floors_inv ci h" by (rule floor_run.inv_reachable[OF assms(1,2)])
  with floor_run_gone[OF assms(4) _ assms(3)] have h': "floors_inv ci h'" "gone held i (hd h')" by blast+
  then have "floor_inv ci (hd h')" by (simp add: floors_inv_def)
  note refused = gone_refused[OF this h'(2)]
  obtain e where e: "lock_diner_write_context held s (ordering_of (hd h')) tenant i c = Inl e" using refused by blast
  then have confirmed: "confirm_current_order facts sha same completes held s t0 t tenant i c v fp key (ordering_of (hd h'))
      = Inl (AcceptanceDraftError e)"
    by (simp add: confirm_current_order_def)
  have "\<exists>e. add_item held s tenant draft product_id q v (Some i) owned (ordering_of (hd h')) = Inl e"
  proof (rule ccontr)
    assume "\<nexists>e. add_item held s tenant draft product_id q v (Some i) owned (ordering_of (hd h')) = Inl e"
    then obtain r where "locked_mutable_draft held s (ordering_of (hd h')) tenant draft v (Some i) owned = Inr r"
      by (cases "add_item held s tenant draft product_id q v (Some i) owned (ordering_of (hd h'))")
        (auto simp: add_item_def bind_result_Inr_iff)
    then obtain k z where "lock_diner_write_context held s (ordering_of (hd h')) tenant i k = Inr z"
      unfolding locked_mutable_draft_def lock_conversation_def result_iffs
      by (auto simp: bind_result_Inr_iff split: option.split_asm if_split_asm)
    with refused[of s tenant k] show False by simp
  qed
  with confirmed show ?thesis by blast
qed


section \<open>Closing\<close>

lemma abandon_draft_of_effect:
  assumes inv: "drafts_inv d"
  shows "drafts_inv (abandon_draft_of tenant now c d)" "current_draft (abandon_draft_of tenant now c d) tenant c = None"
    "current_draft d tenant k = None \<Longrightarrow> current_draft (abandon_draft_of tenant now c d) tenant k = None"
    "og_conversations (abandon_draft_of tenant now c d) = og_conversations d"
proof -
  let ?d = "abandon_draft_of tenant now c d"
  show "og_conversations ?d = og_conversations d" by (simp add: abandon_draft_of_def split: option.split)
  have "drafts_inv ?d \<and> current_draft ?d tenant c = None \<and> (current_draft d tenant k = None \<longrightarrow> current_draft ?d tenant k = None)"
  proof (cases "current_draft d tenant c")
    case None
    with inv show ?thesis by (simp add: abandon_draft_of_def)
  next
    case (Some r)
    note row = current_draftD[OF Some]
    let ?r = "r\<lparr>dr_status := ''ABANDONED'', dr_current_slot := None, dr_terminal_at := Some (stored_seconds now)\<rparr>"
    have dist: "distinct (map dr_id (og_drafts d))" and tables: "table_ok draft_ok drafts_collide (og_drafts d)"
      using inv by (simp_all add: drafts_inv_def)
    have d': "?d = d\<lparr>og_drafts := modify dr_id (dr_id r) (\<lambda>_. ?r) (og_drafts d)\<rparr>"
      unfolding abandon_draft_of_def Some option.case by (subst modify_own[OF dist row(1)]) simp
    have "\<not> drafts_collide ?r q" if "q \<in> set (og_drafts d)" "dr_id q \<noteq> dr_id r" for q
    proof -
      have "collision_free drafts_collide (og_drafts d)" using tables by (simp add: table_ok_def)
      moreover have "r \<noteq> q" using that(2) by auto
      ultimately have "\<not> drafts_collide r q" by (intro collision_freeD[OF _ drafts_collide_sym row(1) that(1)])
      then show ?thesis by (auto simp: drafts_collide_def)
    qed
    then have "drafts_inv ?d" by (intro close_draft_writes(2)[OF inv row(1,4), of ?r]) (simp_all add: d')
    moreover have "current_draft ?d tenant c = None" by (rule no_open_draft[OF inv Some, of ?r]) (simp_all add: d')
    moreover have "current_draft ?d tenant k = None" if "current_draft d tenant k = None"
      using that unfolding current_draft_def find_None_iff d' by (auto simp: set_modify)
    ultimately show ?thesis by blast
  qed
  then show "drafts_inv ?d" "current_draft ?d tenant c = None"
    "current_draft d tenant k = None \<Longrightarrow> current_draft ?d tenant k = None" by blast+
qed

lemma abandon_drafts_of_effect:
  assumes "drafts_inv d"
  shows "drafts_inv (foldl (\<lambda>d c. abandon_draft_of tenant now (g c) d) d cs)
    \<and> og_conversations (foldl (\<lambda>d c. abandon_draft_of tenant now (g c) d) d cs) = og_conversations d
    \<and> (\<forall>k. k \<in> g ` set cs \<or> current_draft d tenant k = None
         \<longrightarrow> current_draft (foldl (\<lambda>d c. abandon_draft_of tenant now (g c) d) d cs) tenant k = None)"
  using assms
proof (induction cs arbitrary: d)
  case (Cons c cs)
  note first = abandon_draft_of_effect[OF Cons.prems, where tenant = tenant and now = now and c = "g c"]
  from Cons.IH[OF first(1)] show ?case using first(2-4) by auto
qed simp

text \<open>C16: Closing a table ends the party: nothing is outstanding, the session is closed and its code gone, nobody of
  it is active, and no conversation of those who were is still open or has a draft.\<close>

theorem closing_ends_the_party:
  assumes "floor_inv ci f" "drafts_inv (fl_ordering f)"
    and run: "close_service_session t now u s tenant m i f = Inr (r, f')"
  shows "(\<exists>balance. table_balance (core_of f) tenant i = Inr balance \<and> tb_outstanding_confirmed_balance balance = 0
        \<and> tb_closure_eligible balance)
    \<and> r \<in> set (fl_sessions f') \<and> sr_id r = i \<and> sr_status r = ''CLOSED'' \<and> sr_access_code_digest r = None
    \<and> active_diners f' i = []
    \<and> (\<forall>x \<in> set (active_diners f i). \<forall>c \<in> set (og_conversations (fl_ordering f')). cn_tenant_id c = tenant
        \<and> cn_id c = dn_conversation_id x \<longrightarrow> cn_status c \<noteq> ''ACTIVE'' \<and> current_draft (fl_ordering f') tenant (cn_id c) = None)"
  using run
proof (cases rule: close_cases)
  case (1 q balance core)
  let ?of = "\<lambda>c. cn_id c \<in> dn_conversation_id ` set (active_diners f i) \<and> cn_tenant_id c = tenant"
  define cs where "cs = order_by cn_id (filter ?of (og_conversations (fl_ordering f)))"
  define d where "d = foldl (\<lambda>d c. abandon_draft_of tenant now (cn_id c) d) (fl_ordering (with_core core f)) cs"
  have f': "fl_ordering f' = d\<lparr>og_conversations := modify_where ?of close_conversation (og_conversations d)\<rparr>"
    using 1(9) by (simp add: cs_def d_def)
  have "drafts_inv (fl_ordering (with_core core f))"
    using assms(2) by (simp add: with_core_def drafts_inv_def item_in_draft_def selection_in_item_def)
  from abandon_drafts_of_effect[OF this, of tenant now cn_id cs]
  have d: "og_conversations d = og_conversations (fl_ordering f)" "k \<in> cn_id ` set cs \<Longrightarrow> current_draft d tenant k = None" for k
    unfolding d_def by (simp_all add: with_core_def)
  have paid: "\<exists>balance. table_balance (core_of f) tenant i = Inr balance \<and> tb_outstanding_confirmed_balance balance = 0
        \<and> tb_closure_eligible balance"
    using 1(5) by (auto simp: assert_service_can_close_def bind_result_Inr_iff split: if_splits)
  have there: "r \<in> set (fl_sessions f')" unfolding 1(6,7) set_modify using 1(1,2) by (intro bexI[of _ q]) simp
  have session: "sr_id r = i" "sr_status r = ''CLOSED''" "sr_access_code_digest r = None"
    unfolding 1(6) by (simp_all add: closed_session_def 1(2))
  have empty: "active_diners f' i = []"
    unfolding active_diners_def filter_empty_conv
  proof (intro ballI)
    fix x assume "x \<in> set (fl_diners f')"
    then obtain z where "x = (if dn_service_session_id z = i \<and> dn_active_slot z = Some 1 then ended_diner now z else z)"
      unfolding 1(8) set_modify_where by blast
    then show "\<not> (dn_service_session_id x = i \<and> dn_active_slot x = Some 1)" by (simp add: ended_diner_def)
  qed
  have silent: "cn_status c \<noteq> ''ACTIVE'' \<and> current_draft (fl_ordering f') tenant (cn_id c) = None"
    if x: "x \<in> set (active_diners f i)" and c: "c \<in> set (og_conversations (fl_ordering f'))" "cn_tenant_id c = tenant" "cn_id c = dn_conversation_id x" for x c
  proof -
    from c(1) obtain b where b: "b \<in> set (og_conversations (fl_ordering f))" "c = (if ?of b then close_conversation b else b)"
      unfolding f' by (auto simp: d(1) set_modify_where)
    have keys: "cn_id (close_conversation b) = cn_id b" "cn_tenant_id (close_conversation b) = cn_tenant_id b"
      by (simp_all add: close_conversation_def)
    have of: "?of b" using b(2) c(2,3) x keys by (auto split: if_splits)
    then have "c = close_conversation b" "b \<in> set cs" using b by (simp_all add: cs_def)
    then have "cn_status c \<noteq> ''ACTIVE''" "cn_id c \<in> cn_id ` set cs" using keys by (auto simp: close_conversation_def)
    with d(2) show ?thesis by (simp add: f' current_draft_def)
  qed
  show ?thesis by (intro conjI ballI impI paid there session empty) (elim conjE, rule silent[THEN conjunct1] silent[THEN conjunct2]; assumption)+
qed

end
