(* ===== verification/ServiceWitnesses.thy ===== *)
theory ServiceWitnesses
  imports ServiceOutcomes OrderingWitnesses
begin

text \<open>
  An evening at table 4: it is opened for two, Ana and Ben join, Ana starts a draft and leaves; on another
  evening the table is closed. And someone who tries codes.
\<close>

definition plain :: "string \<Rightarrow> int \<Rightarrow> string \<Rightarrow> string" where "plain key version code = code"

definition table4 :: resource where
  "table4 = \<lparr>res_id = 4, res_tenant_id = 1, res_location_id = 3, res_resource_type = ''TABLE'', res_status = ''ACTIVE''\<rparr>"

definition fl0 :: "floor" where
  "fl0 = \<lparr>fl_sessions = [], fl_diners = [], fl_participants = [],
     fl_customers = [\<lparr>cu_id = 71, cu_tenant_id = 1, cu_email = Some ''ana@x'', cu_status = ''ACTIVE''\<rparr>],
     fl_profiles = [\<lparr>tp_tenant_id = 1, tp_location_id = 3, tp_resource_id = 4, tp_administrative_status = ''ACTIVE''\<rparr>],
     fl_groups = [], fl_memberships = [],
     fl_ordering = w0\<lparr>og_core := empty_db\<lparr>resources := [table4]\<rparr>, og_conversations := []\<rparr>\<rparr>"

definition opened4 :: service_row where
  "opened4 = \<lparr>sr_id = 1, sr_tenant_id = 1, sr_organization_id = 2, sr_location_id = 3, sr_resource_id = 4,
     sr_party_size = 2, sr_status = ''OPEN'', sr_open_slot = Some 1, sr_join_context_key = ''k'',
     sr_access_code_digest = Some ''1234'', sr_access_code_version = 1, sr_failed_join_attempts = 0,
     sr_failed_window_started_at = None, sr_join_locked_until = None, sr_opened_by_membership_id = 9,
     sr_opened_at = 0, sr_closed_by_membership_id = None, sr_closed_at = None\<rparr>"

definition fl1 :: "floor" where "fl1 = fl0\<lparr>fl_sessions := [opened4]\<rparr>"

definition guest :: "int \<Rightarrow> int \<Rightarrow> int option \<Rightarrow> string \<Rightarrow> string option \<Rightarrow> diner_row" where
  "guest i p customer_id name email = \<lparr>dn_id = i, dn_tenant_id = 1, dn_organization_id = 2, dn_location_id = 3,
     dn_resource_id = 4, dn_service_session_id = 1, dn_customer_id = customer_id, dn_conversation_id = i,
     dn_conversation_participant_id = p, dn_display_name = name, dn_normalized_email = email, dn_status = ''ACTIVE'',
     dn_active_slot = Some 1, dn_joined_at = 0, dn_ended_at = None\<rparr>"

definition fl2 :: "floor" where
  "fl2 = snd (join_diner plain (=) id 1 fl1 ''k'' ''1234'' '' Ana '' (Some ''ana@x'') fl1)"

definition fl3 :: "floor" where
  "fl3 = snd (join_diner plain (=) id 2 fl2 ''k'' ''1234'' ''Ben'' None fl2)"

definition drafted_talk :: draft where
  "drafted_talk = (draft1 1)\<lparr>dr_conversation_id := 1\<rparr>"

definition fl4 :: "floor" where
  "fl4 = fl3\<lparr>fl_ordering := (fl_ordering fl3)\<lparr>og_drafts := [drafted_talk]\<rparr>\<rparr>"

definition fl5 :: "floor" where
  "fl5 = (case end_diner_session 3 3 1 1 1 fl4 of Inr (_, f) \<Rightarrow> f | Inl _ \<Rightarrow> fl4)"

definition fl6 :: "floor" where
  "fl6 = (case close_service_session 3 3 3 fl4 1 9 1 fl4 of Inr (_, f) \<Rightarrow> f | Inl _ \<Rightarrow> fl4)"

lemma evening:
  "open_service_session plain True True ''k'' ''1234'' 0 fl0 1 9 4 2 fl0 = Inr (opened4, fl1)"
  "join_diner plain (=) id 1 fl1 ''k'' ''1234'' '' Ana '' (Some ''ana@x'') fl1 = (Inr (guest 1 1 (Some 71) ''Ana'' (Some ''ana@x'')), fl2)"
  "join_diner plain (=) id 2 fl2 ''k'' ''1234'' ''Ben'' None fl2 = (Inr (guest 2 3 None ''Ben'' None), fl3)"
  by code_simp+

lemma evening_ends:
  "end_diner_session 3 3 1 1 1 fl4 = Inr (ended_diner 3 (guest 1 1 (Some 71) ''Ana'' (Some ''ana@x'')), fl5)"
  "close_service_session 3 3 3 fl4 1 9 1 fl4 = Inr (closed_session 9 3 opened4, fl6)"
  by code_simp+

abbreviation floor_run_to :: "floor list \<Rightarrow> floor list \<Rightarrow> bool" where
  "floor_run_to \<equiv> (floor_step plain (=) id)\<^sup>*\<^sup>*"

lemma fl4_elsewhere: "fl4 = fl3\<lparr>fl_customers := fl_customers fl3, fl_profiles := fl_profiles fl3, fl_groups := fl_groups fl3,
    fl_memberships := fl_memberships fl3, fl_ordering := (fl_ordering fl3)\<lparr>og_drafts := [drafted_talk]\<rparr>\<rparr>"
  by (simp add: fl4_def)

lemma evening_starts: "empty_floor [fl0]"
  by (simp add: empty_floor_def fl0_def)

lemma evening_run:
  "floor_run_to [fl0] [fl3, fl2, fl1, fl0]" "floor_run_to [fl0] [fl4, fl3, fl2, fl1, fl0]"
  "floor_run_to [fl0] [fl5, fl4, fl3, fl2, fl1, fl0]" "floor_run_to [fl0] [fl6, fl4, fl3, fl2, fl1, fl0]"
proof -
  have "floor_step plain (=) id [fl0] [fl1, fl0]"
    by (rule floor_step.intros[of fl0], simp) (rule floor_op.opened[OF evening(1)])
  moreover have "floor_step plain (=) id [fl1, fl0] [fl2, fl1, fl0]"
    by (rule floor_step.intros[of fl1], simp) (rule floor_op.joined[OF evening(2)])
  moreover have "floor_step plain (=) id [fl2, fl1, fl0] [fl3, fl2, fl1, fl0]"
    by (rule floor_step.intros[of fl2], simp) (rule floor_op.joined[OF evening(3)])
  ultimately show three: "floor_run_to [fl0] [fl3, fl2, fl1, fl0]" by (meson rtranclp.rtrancl_into_rtrancl rtranclp.rtrancl_refl)
  have "floor_step plain (=) id [fl3, fl2, fl1, fl0] [fl4, fl3, fl2, fl1, fl0]"
    by (rule floor_step.intros[of fl3], simp) (rule floor_op.elsewhere[OF fl4_elsewhere])
  with three show four: "floor_run_to [fl0] [fl4, fl3, fl2, fl1, fl0]" by (rule rtranclp.rtrancl_into_rtrancl)
  have "floor_step plain (=) id [fl4, fl3, fl2, fl1, fl0] [fl5, fl4, fl3, fl2, fl1, fl0]"
    by (rule floor_step.intros[of fl4], simp) (rule floor_op.ended[OF evening_ends(1)])
  with four show "floor_run_to [fl0] [fl5, fl4, fl3, fl2, fl1, fl0]" by (rule rtranclp.rtrancl_into_rtrancl)
  have "floor_step plain (=) id [fl4, fl3, fl2, fl1, fl0] [fl6, fl4, fl3, fl2, fl1, fl0]"
    by (rule floor_step.intros[of fl4], simp) (rule floor_op.closed[OF evening_ends(2)])
  with four show "floor_run_to [fl0] [fl6, fl4, fl3, fl2, fl1, fl0]" by (rule rtranclp.rtrancl_into_rtrancl)
qed

section \<open>The properties on that evening\<close>

theorem tables_serve_one_party_witness:
  "\<exists>r \<in> set (fl_sessions fl4). sr_id r = 1 \<and> sr_status r = ''OPEN''"
proof -
  have x: "guest 1 1 (Some 71) ''Ana'' (Some ''ana@x'') \<in> set (fl_diners fl4)" by code_simp
  from tables_serve_one_party[OF evening_starts evening_run(2) refl, unfolded Let_def list.sel, THEN conjunct2, THEN conjunct1, rule_format, OF x]
  show ?thesis by (auto simp: guest_def)
qed

theorem who_left_orders_no_more_witness:
  "\<exists>e. confirm_current_order digest sha (=) (\<lambda>_. True) nobody (ordering_of fl4) 3 3 1 1 1 1 ''f'' ''key'' (ordering_of fl5) = Inl e"
proof -
  have "gone nobody 1 fl5" by code_simp
  then have "gone nobody 1 (hd [fl5, fl4, fl3, fl2, fl1, fl0])" by simp
  from who_left_orders_no_more[OF evening_starts evening_run(3) this rtranclp.rtrancl_refl]
  show ?thesis by auto
qed

theorem closing_ends_the_party_witness:
  "active_diners fl6 1 = [] \<and> current_draft (fl_ordering fl6) 1 1 = None \<and> current_draft (fl_ordering fl4) 1 1 \<noteq> None"
proof -
  have "floors_inv (=) [fl4, fl3, fl2, fl1, fl0]" by (rule floor_run.inv_reachable[OF evening_starts evening_run(2)])
  then have inv: "floor_inv (=) fl4" by (simp add: floors_inv_def)
  have drafts: "drafts_inv (fl_ordering fl4)" by code_simp
  have x: "guest 1 1 (Some 71) ''Ana'' (Some ''ana@x'') \<in> set (active_diners fl4 1)"
    "\<exists>c \<in> set (og_conversations (fl_ordering fl6)). cn_tenant_id c = 1 \<and> cn_id c = 1"
    "current_draft (fl_ordering fl4) 1 1 \<noteq> None" by code_simp+
  from closing_ends_the_party[OF inv drafts evening_ends(2)] x show ?thesis by (auto simp: guest_def)
qed

section \<open>A party that is larger than its table\<close>

definition stale :: "floor" where
  "stale = (case update_party_size fl1 1 1 1 fl3 of Inr (_, f) \<Rightarrow> f | Inl _ \<Rightarrow> fl3)"

text \<open>The party can be made smaller than the number of its diners: \<^verbatim>\<open>update_party_size\<close> locks the session, but
  counts the active diners in the snapshot of its transaction, which the authentication of the employee
  opened, so diners who joined meanwhile are not counted.\<close>

theorem stale_party_size:
  "\<exists>h s r count f'. floor_run_to [fl0] h \<and> s \<in> set h \<and> update_party_size s 1 1 1 (hd h) = Inr ((r, count), f')
     \<and> sr_party_size r < int (length (active_diners f' 1))"
proof -
  have "update_party_size fl1 1 1 1 fl3 = Inr ((opened4\<lparr>sr_party_size := 1\<rparr>, 0), stale)" "length (active_diners stale 1) = 2"
    by code_simp+
  then show ?thesis using evening_run(1)
    by (intro exI[of _ "[fl3, fl2, fl1, fl0]"] exI[of _ fl1] exI[of _ "opened4\<lparr>sr_party_size := 1\<rparr>"]) simp
qed

section \<open>Six guesses\<close>

definition guess :: "datetime \<Rightarrow> floor \<Rightarrow> floor" where
  "guess t f = snd (join_diner plain (=) id t f ''k'' ''0000'' ''Eve'' None f)"

definition can_guess :: "datetime \<Rightarrow> floor \<Rightarrow> bool" where
  "can_guess t f = (case List.find (\<lambda>r. sr_join_context_key r = ''k'') (fl_sessions f) of
     None \<Rightarrow> False | Some r \<Rightarrow> sr_status r = ''OPEN'' \<and> \<not> join_locked r t \<and> \<not> verify_access_code plain r ''0000'')"

lemma next_guess: "guesses plain (=) id ''k'' fl1 ts f \<Longrightarrow> can_guess t f \<Longrightarrow> guesses plain (=) id ''k'' fl1 (t # ts) (guess t f)"
proof -
  assume ts: "guesses plain (=) id ''k'' fl1 ts f" and can: "can_guess t f"
  then obtain r where r: "List.find (\<lambda>r. sr_join_context_key r = ''k'') (fl_sessions f) = Some r" "sr_status r = ''OPEN''"
    "\<not> join_locked r t" "\<not> verify_access_code plain r ''0000''" by (auto simp: can_guess_def split: option.splits)
  have name: "strip ''Eve'' \<noteq> []" "length (strip ''Eve'') \<le> 200" "normalize_email id None = Inr None" by code_simp+
  obtain y where "join_diner plain (=) id t f ''k'' ''0000'' ''Eve'' None f = (y, guess t f)"
    by (metis guess_def prod.collapse)
  from guesses.wrong[OF ts r name this] show ?thesis .
qed

definition g5 :: "floor" where "g5 = guess 500 (guess 400 (guess 300 (guess 200 (guess 100 fl1))))"

lemma guesses_work:
  "can_guess 100 fl1" "can_guess 200 (guess 100 fl1)" "can_guess 300 (guess 200 (guess 100 fl1))"
  "can_guess 400 (guess 300 (guess 200 (guess 100 fl1)))" "can_guess 500 (guess 400 (guess 300 (guess 200 (guess 100 fl1))))"
  "can_guess 400000000 g5" "\<not> can_guess 600 g5"
  by code_simp+


end
