(* ===== verification/Spec2Isabelle.thy ===== *)
theory Spec2Isabelle
  imports CoreWitnesses TaxWitnesses TransferWitnesses CatalogWitnesses OrderingWitnesses ServiceWitnesses
begin

text \<open>
  A verification of the restaurant services of the platform (\<^verbatim>\<open>src/apps/api/app/restaurant\<close>), written in
  Python over a relational database. A party is seated at a table, its diners order from their phones, orders
  are priced, taxed and accepted, checks claim accepted orders, payments settle checks, and a table closes when
  nothing is outstanding; behind it stand the catalog, the tax rules, the cash drawers and the stock.

  \<^bold>\<open>How the programs are modelled.\<close>
  A table is the list of its rows, a row is a record with the columns of the model class under
  \<^verbatim>\<open>app/models\<close>, and a transaction is a function from the tables to an error (\<^theory_text>\<open>Inl\<close>) or a result with new
  tables (\<^theory_text>\<open>Inr\<close>); an error has no new tables since every service rolls back before it raises, and where a
  service commits before it raises (a refused payment, a wrong access code) the function returns both. CHECK
  constraints are predicates on rows (\<^theory_text>\<open>..._ok\<close>), unique indexes relations between rows (\<^theory_text>\<open>..._collide\<close>).
  Many transactions read some rows without a lock, from a snapshot that may be older than the rows they
  lock: then \<^theory_text>\<open>s\<close> is the snapshot and \<^theory_text>\<open>d\<close> (or \<^theory_text>\<open>f\<close>) the tables under the locks, and \<^theory_text>\<open>held\<close> are objects that the
  session of the database loaded before and does not refresh. A run is then a list of states of which each
  transaction may read any as its snapshot. Within a transaction the locked rows do not change; transactions
  that lock the same rows come one after the other. Integers are unbounded in Python and \<^theory_text>\<open>int\<close> here; a column
  of decimals holds a \<^theory_text>\<open>rat\<close>, and arithmetic in a decimal context is rounded half to even to the digits of
  the context (28, or 50 where the code sets it); an instant is a number of microseconds, of which a column
  keeps whole seconds.
  What is not under \<^verbatim>\<open>src/\<close> is an argument: the digests (\<^theory_text>\<open>sha\<close>, \<^theory_text>\<open>digest\<close>) of canonical values, the payment
  providers, the clock, the collations (\<^theory_text>\<open>ci\<close>) and the tables of Unicode. Log calls, and timestamps that
  nothing reads, are left out.

  \<^bold>\<open>Shared theories.\<close>
  \<^verbatim>\<open>Prelude\<close>: error results, rows and tables, sums, exact amounts, strings, canonical requests, and the
  interfaces \<^theory_text>\<open>row_update\<close> (an assignment keeps the keys of a table), \<^theory_text>\<open>idempotent_command\<close> (a request that is
  sent again under its key) and \<^theory_text>\<open>step_invariant\<close> (what holds at the start and is kept by every step holds in
  every reachable state), each interpreted on the definitions of the components. \<^verbatim>\<open>Execution\<close>: who acts
  (\<^verbatim>\<open>core/execution.py\<close>). \<^verbatim>\<open>Decimals\<close>, \<^verbatim>\<open>DecimalOrder\<close>, \<^verbatim>\<open>ExactDecimals\<close>: decimal contexts, and decimals
  whose exponent matters. \<^verbatim>\<open>Schema\<close>: the tables of the financial core.

  \<^bold>\<open>Financial core.\<close>
  \<^verbatim>\<open>CashManagement\<close> is \<^verbatim>\<open>cash_management/service.py\<close>, \<^verbatim>\<open>Checks\<close> is \<^verbatim>\<open>checks/service.py\<close>, \<^verbatim>\<open>Resolver\<close> and
  \<^verbatim>\<open>Payments\<close> are \<^verbatim>\<open>integrations/payments\<close> and \<^verbatim>\<open>payments/service.py\<close>, one definition per transaction.
  \<^verbatim>\<open>CashProofs\<close>, \<^verbatim>\<open>CheckInvariant\<close>, \<^verbatim>\<open>CheckCommands\<close>, \<^verbatim>\<open>CheckProofs\<close>, \<^verbatim>\<open>PaymentInvariant\<close> and
  \<^verbatim>\<open>PaymentSteps\<close> show what each command does and that it keeps the invariant of its tables;
  \<^verbatim>\<open>FinancialSystem\<close> makes the three services one system of interleaved transactions, and
  \<^verbatim>\<open>PaymentOutcomes\<close> and \<^verbatim>\<open>PaymentProofs\<close> state what holds in its reachable states: no check is overpaid, no
  order is owned twice, a settlement is the trace of a succeeded payment, a request that is sent again charges
  nothing, what a provider confirmed is recorded, a lost execution can be fenced, a drawer is accounted for,
  and the operations with several transactions refine the system. A check closes a table only when it is paid.
  \<^verbatim>\<open>CashWitnesses\<close>, \<^verbatim>\<open>RestaurantRun\<close> and \<^verbatim>\<open>CoreWitnesses\<close> evaluate an evening and apply the properties to it.

  \<^bold>\<open>Tax.\<close>
  \<^verbatim>\<open>TaxEvidence\<close> is \<^verbatim>\<open>tax/service.py\<close> (which rule applies, and the split of a price into base and tax),
  \<^verbatim>\<open>TaxRules\<close> is \<^verbatim>\<open>tax/provisioning.py\<close> with its two plans. \<^verbatim>\<open>TaxProofs\<close> and \<^verbatim>\<open>TaxRuleProofs\<close>: the parts add up,
  fifty digits give the exact quotient, provisioned rules are never ambiguous and are the ones applied.

  \<^bold>\<open>Inventory.\<close>
  \<^verbatim>\<open>Units\<close> is \<^verbatim>\<open>inventory/units.py\<close>, \<^verbatim>\<open>Fifo\<close> is \<^verbatim>\<open>inventory/fifo_transfers.py\<close>. \<^verbatim>\<open>FifoProofs\<close>,
  \<^verbatim>\<open>TransferProofs\<close>, \<^verbatim>\<open>TransferSteps\<close> and \<^verbatim>\<open>TransferOutcomes\<close>: layers are drawn oldest first and account for
  the stock, a transfer goes along the edges of its life, and what is shipped arrives, at its cost.

  \<^bold>\<open>Catalog.\<close>
  \<^verbatim>\<open>Catalog\<close>, \<^verbatim>\<open>Compositions\<close> and \<^verbatim>\<open>CompositionRoutes\<close> are \<^verbatim>\<open>catalog/structure.py\<close>,
  \<^verbatim>\<open>catalog/category_provisioning.py\<close> and the handlers of \<^verbatim>\<open>api/routes/product_compositions.py\<close>; \<^verbatim>\<open>Menus\<close> is what
  makes a product orderable (\<^verbatim>\<open>catalog/resolution.py\<close>). The walk up the parents of a category may meet any
  rows, so it is a partial function on options, proved to return on all tables. \<^verbatim>\<open>CatalogProofs\<close> and
  \<^verbatim>\<open>CompositionProofs\<close>: categories form a forest as long as moves do not overlap, compositions never nest,
  and a choice is accepted exactly when the composition allows it.

  \<^bold>\<open>Ordering.\<close>
  \<^verbatim>\<open>Pricing\<close> and \<^verbatim>\<open>FiscalProduct\<close> are the reads of prices, promotions and fiscal codes; \<^verbatim>\<open>OrderTables\<close> the
  rows; \<^verbatim>\<open>Drafts\<close> and \<^verbatim>\<open>DraftEvaluation\<close> are \<^verbatim>\<open>orders/service.py\<close>, \<^verbatim>\<open>Commercial\<close> is
  \<^verbatim>\<open>commercial/service.py\<close>, \<^verbatim>\<open>Acceptance\<close> is \<^verbatim>\<open>orders/acceptance.py\<close>. \<^verbatim>\<open>DraftProofs\<close>,
  \<^verbatim>\<open>CommercialProofs\<close> and \<^verbatim>\<open>AcceptanceProofs\<close> are about single operations, \<^verbatim>\<open>OrderingSystem\<close> and
  \<^verbatim>\<open>OrderingOutcomes\<close> about runs: drafts stay consistent whatever the snapshots, a version stands for the content
  of a draft, what is accepted is what the diner saw and was shown the price of, the accounts of every order are
  exact, a confirmation that is sent again returns its order, and nothing accepted ever changes.

  \<^bold>\<open>Table service sessions.\<close>
  \<^verbatim>\<open>ServiceSessions\<close> is \<^verbatim>\<open>service_sessions/service.py\<close> with the two functions of \<^verbatim>\<open>table_management.py\<close> it
  calls; its record \<^theory_text>\<open>floor\<close> holds the sessions, the diners and the tables of ordering, of which the other
  services see the columns that \<^theory_text>\<open>session_view\<close> and \<^theory_text>\<open>diner_view\<close> select (\<^theory_text>\<open>core_of\<close>, \<^theory_text>\<open>ordering_of\<close>).
  \<^verbatim>\<open>ServiceProofs\<close> and \<^verbatim>\<open>ServiceOutcomes\<close>: a table serves one party, closing it settles and ends everything,
  who left orders no more (on the definitions of drafts and acceptance), and the access code cannot be
  guessed quickly: a window counts as 299.5 seconds, since a stored instant may be half a second late.

  \<^bold>\<open>Not modelled.\<close>
  The responsibility of waiters and the groups of tables beyond what a session asks of them, the consumption
  of stock by orders and the routing of their preparation (in an acceptance: one argument that says whether
  they raise), counts, losses, receiving and purchasing, the provisioning of menus, prices and fiscal codes,
  the issuance of fiscal documents, the submissions to a point of sale, printing, requests to waiters,
  conversations with a language model, identity and permissions, onboarding from spreadsheets, and the HTTP
  layer except the handlers named above. They are other services on other tables, adapters of systems whose
  protocols are not in the repository, or glue. Foreign keys are left out except where an operation depends
  on one.
\<close>

end
